(* ===== verification/Prelude.thy ===== *)
theory Prelude
  imports Main "HOL-Library.Word" "HOL-Library.Sublist" "HOL-Library.Char_ord"
    "HOL-Library.List_Lexorder" "HOL-Library.Product_Lexorder" "HOL-Library.Multiset"
begin

text \<open>
  The vocabulary every component shares: Rust's \<^verbatim>\<open>Result\<close> as a sum type, the parts of
  \<^verbatim>\<open>str\<close> the file engine uses (on UTF-8 byte strings), number formatting, integer casts, the
  \<^verbatim>\<open>HashSet::insert\<close> idiom, and the generic lemmas about them.

  A Rust \<^verbatim>\<open>String\<close> is its list of UTF-8 bytes, a HOL \<^typ>\<open>string\<close>. Byte order is Rust's order on
  \<^verbatim>\<open>str\<close>. Where the code works on \<^verbatim>\<open>char\<close>s, \<open>chars\<close> cuts the byte string into the encodings
  of its code points.
\<close>

named_theorems result_simps \<open>unfolding rules of the result combinators\<close>
named_theorems frame_intros \<open>introduction rules of the frame calculus for world actions\<close>
named_theorems str_simps \<open>evaluation of the string operations\<close>

section \<open>Results\<close>

text \<open>\<open>bind_res\<close> is the \<^verbatim>\<open>?\<close> operator, \<open>map_err\<close> is \<^verbatim>\<open>Result::map_err\<close>, and
  \<open>collect_results\<close> is \<^verbatim>\<open>collect::<Result<Vec<_>, _>>()\<close>.\<close>

definition bind_res :: "'e + 'a \<Rightarrow> ('a \<Rightarrow> 'e + 'b) \<Rightarrow> 'e + 'b" where
  "bind_res r f = (case r of Inl e \<Rightarrow> Inl e | Inr x \<Rightarrow> f x)"

definition map_err :: "('e \<Rightarrow> 'f) \<Rightarrow> 'e + 'a \<Rightarrow> 'f + 'a" where
  "map_err g r = (case r of Inl e \<Rightarrow> Inl (g e) | Inr x \<Rightarrow> Inr x)"

definition is_ok :: "'e + 'a \<Rightarrow> bool" where
  "is_ok r = (case r of Inl _ \<Rightarrow> False | Inr _ \<Rightarrow> True)"

fun collect_results :: "('e + 'a) list \<Rightarrow> 'e + 'a list" where
  "collect_results [] = Inr []"
| "collect_results (Inl e # rs) = Inl e"
| "collect_results (Inr x # rs) =
     (case collect_results rs of Inl e \<Rightarrow> Inl e | Inr xs \<Rightarrow> Inr (x # xs))"

lemma bind_res_simps [simp, result_simps]:
  "bind_res (Inl e) f = Inl e" "bind_res (Inr x) f = f x"
  by (simp_all add: bind_res_def)

lemma map_err_simps [simp, result_simps]:
  "map_err g (Inl e) = Inl (g e)" "map_err g (Inr x) = Inr x"
  by (simp_all add: map_err_def)

lemma is_ok_simps [simp, result_simps]: "is_ok (Inr x)" "\<not> is_ok (Inl e)"
  by (simp_all add: is_ok_def)

lemma is_ok_iff: "is_ok r \<longleftrightarrow> (\<exists>x. r = Inr x)"
  by (cases r) auto

lemma bind_res_Inr_iff [result_simps]:
  "bind_res r f = Inr y \<longleftrightarrow> (\<exists>x. r = Inr x \<and> f x = Inr y)"
  by (cases r) auto

lemma bind_res_Inl_iff [result_simps]:
  "bind_res r f = Inl e \<longleftrightarrow> r = Inl e \<or> (\<exists>x. r = Inr x \<and> f x = Inl e)"
  by (cases r) auto

lemma map_err_Inr_iff [simp, result_simps]: "map_err g r = Inr y \<longleftrightarrow> r = Inr y"
  by (cases r) auto

lemma map_err_Inl_iff [result_simps]: "map_err g r = Inl e' \<longleftrightarrow> (\<exists>e. r = Inl e \<and> e' = g e)"
  by (cases r) auto

lemma collect_results_Inr_iff:
  "collect_results rs = Inr xs \<longleftrightarrow> rs = map Inr xs"
proof (induction rs arbitrary: xs rule: collect_results.induct)
  case (3 x rs)
  have "collect_results rs = Inr ys \<longleftrightarrow> rs = map Inr ys" for ys by (rule "3.IH")
  then show ?case by (cases xs; cases "collect_results rs") force+
qed auto

lemma collect_results_map_Inr_iff:
  "collect_results (map f as) = Inr xs \<longleftrightarrow> map f as = map Inr xs"
  by (simp add: collect_results_Inr_iff)

lemma collect_results_length:
  "collect_results (map f as) = Inr xs \<Longrightarrow> length xs = length as"
  by (metis collect_results_map_Inr_iff length_map)

lemma collect_results_nth:
  "collect_results (map f as) = Inr xs \<Longrightarrow> i < length as \<Longrightarrow> f (as ! i) = Inr (xs ! i)"
  by (metis collect_results_map_Inr_iff length_map nth_map)

section \<open>Byte strings\<close>

definition ascii_lower :: "char \<Rightarrow> char" where
  "ascii_lower c = (if 65 \<le> (of_char c :: nat) \<and> (of_char c :: nat) \<le> 90
                    then char_of ((of_char c :: nat) + 32) else c)"

definition to_ascii_lowercase :: "string \<Rightarrow> string" where
  "to_ascii_lowercase = map ascii_lower"

definition eq_ignore_ascii_case :: "string \<Rightarrow> string \<Rightarrow> bool" where
  "eq_ignore_ascii_case a b = (to_ascii_lowercase a = to_ascii_lowercase b)"

definition replace_char :: "char \<Rightarrow> char \<Rightarrow> string \<Rightarrow> string" where
  "replace_char a b = map (\<lambda>c. if c = a then b else c)"

fun split_on :: "(char \<Rightarrow> bool) \<Rightarrow> string \<Rightarrow> string list" where
  "split_on P [] = [[]]"
| "split_on P (c # cs) =
     (if P c then [] # split_on P cs
      else (case split_on P cs of [] \<Rightarrow> [[c]] | x # xs \<Rightarrow> (c # x) # xs))"

fun join_with :: "string \<Rightarrow> string list \<Rightarrow> string" where
  "join_with sep [] = []"
| "join_with sep [x] = x"
| "join_with sep (x # y # xs) = x @ sep @ join_with sep (y # xs)"

fun contains_str :: "string \<Rightarrow> string \<Rightarrow> bool" where
  "contains_str [] needle = (needle = [])"
| "contains_str (c # cs) needle = (prefix needle (c # cs) \<or> contains_str cs needle)"

abbreviation starts_with_str :: "string \<Rightarrow> string \<Rightarrow> bool" where
  "starts_with_str s p \<equiv> prefix p s"

abbreviation ends_with_str :: "string \<Rightarrow> string \<Rightarrow> bool" where
  "ends_with_str s p \<equiv> suffix p s"

definition trim_matches_char :: "char \<Rightarrow> string \<Rightarrow> string" where
  "trim_matches_char c s =
     rev (dropWhile (\<lambda>x. x = c) (rev (dropWhile (\<lambda>x. x = c) s)))"

text \<open>UTF-8: the width of a code point's encoding, by its first byte.\<close>

definition utf8_width :: "char \<Rightarrow> nat" where
  "utf8_width c = (let b = (of_char c :: nat)
                   in if b < 128 then 1 else if b < 224 then 2 else if b < 240 then 3 else 4)"

fun chars :: "string \<Rightarrow> string list" where
  "chars [] = []"
| "chars (c # cs) =
     (c # take (utf8_width c - 1) cs) # chars (drop (utf8_width c - 1) cs)"

text \<open>The encodings of the code points with the Unicode property \<^verbatim>\<open>White_Space\<close>, which is what
  \<^verbatim>\<open>str::trim\<close> removes.\<close>

definition whitespace :: "string list" where
  "whitespace =
     map (\<lambda>n. [char_of n]) [9, 10, 11, 12, 13, 32 :: nat]
     @ [[CHR 0xC2, CHR 0x85], [CHR 0xC2, CHR 0xA0], [CHR 0xE1, CHR 0x9A, CHR 0x80]]
     @ map (\<lambda>n. [CHR 0xE2, CHR 0x80, char_of n])
         [128, 129, 130, 131, 132, 133, 134, 135, 136, 137, 138, 168, 169, 175 :: nat]
     @ [[CHR 0xE2, CHR 0x81, CHR 0x9F], [CHR 0xE3, CHR 0x80, CHR 0x80]]"

definition is_whitespace :: "string \<Rightarrow> bool" where
  "is_whitespace c = (c \<in> set whitespace)"

definition trim :: "string \<Rightarrow> string" where
  "trim s = concat (rev (dropWhile is_whitespace (rev (dropWhile is_whitespace (chars s)))))"

text \<open>\<^verbatim>\<open>trim_start_matches('\u{feff}')\<close>: byte-order marks at the front.\<close>

fun trim_bom :: "string \<Rightarrow> string" where
  "trim_bom (a # b # c # s) =
     (if [a, b, c] = [CHR 0xEF, CHR 0xBB, CHR 0xBF] then trim_bom s else a # b # c # s)"
| "trim_bom s = s"

lemma concat_chars [simp]: "concat (chars s) = s"
  by (induction s rule: chars.induct) auto

lemma chars_ascii: "\<forall>c \<in> set s. (of_char c :: nat) < 128 \<Longrightarrow> chars s = map (\<lambda>c. [c]) s"
proof (induction s)
  case (Cons c s)
  then have "utf8_width c = 1" by (simp add: utf8_width_def Let_def)
  with Cons show ?case by simp
qed simp

lemma split_on_ne [simp]: "split_on P s \<noteq> []"
  by (cases s) (auto split: list.splits)

lemma split_on_none: "\<forall>c \<in> set s. \<not> P c \<Longrightarrow> split_on P s = [s]"
  by (induction s) auto

lemma split_on_segments: "seg \<in> set (split_on P s) \<Longrightarrow> c \<in> set seg \<Longrightarrow> \<not> P c"
proof (induction s arbitrary: seg)
  case (Cons a s)
  then show ?case by (fastforce split: if_splits list.splits)
qed simp

lemma split_on_append_sep:
  "P c \<Longrightarrow> split_on P (a @ c # b) = split_on P a @ split_on P b"
  by (induction a) (auto split: list.splits)

lemma split_on_append_clean:
  "\<forall>c \<in> set a. \<not> P c \<Longrightarrow> split_on P (a @ b) =
     (case split_on P b of [] \<Rightarrow> [a] | x # xs \<Rightarrow> (a @ x) # xs)"
  by (induction a) (auto split: list.splits)

lemma join_split: "join_with [c] (split_on (\<lambda>x. x = c) s) = s"
proof (induction s)
  case (Cons a s)
  obtain x xs where "split_on (\<lambda>x. x = c) s = x # xs"
    by (meson neq_Nil_conv split_on_ne)
  with Cons show ?case by (cases xs) auto
qed simp

lemma join_with_Cons: "xs \<noteq> [] \<Longrightarrow> join_with sep (x # xs) = x @ sep @ join_with sep xs"
  by (cases xs) auto

lemma split_join:
  "xs \<noteq> [] \<Longrightarrow> \<forall>x \<in> set xs. c \<notin> set x \<Longrightarrow> split_on (\<lambda>y. y = c) (join_with [c] xs) = xs"
proof (induction xs)
  case (Cons x xs)
  show ?case
  proof (cases "xs = []")
    case True
    with Cons.prems show ?thesis by (auto intro: split_on_none)
  next
    case False
    then have "split_on (\<lambda>y. y = c) (join_with [c] (x # xs))
        = split_on (\<lambda>y. y = c) x @ split_on (\<lambda>y. y = c) (join_with [c] xs)"
      by (simp add: join_with_Cons split_on_append_sep)
    moreover have "split_on (\<lambda>y. y = c) x = [x]"
      using Cons.prems by (intro split_on_none) auto
    ultimately show ?thesis using False Cons by simp
  qed
qed simp

lemma length_to_ascii_lowercase [simp]:
  "length (to_ascii_lowercase s) = length s"
  by (simp add: to_ascii_lowercase_def)

lemma ascii_lower_idem [simp]: "ascii_lower (ascii_lower c) = ascii_lower c"
  by (auto simp: ascii_lower_def of_char_of)

lemma to_ascii_lowercase_idem [simp]:
  "to_ascii_lowercase (to_ascii_lowercase s) = to_ascii_lowercase s"
  by (simp add: to_ascii_lowercase_def)

lemma to_ascii_lowercase_append [simp]:
  "to_ascii_lowercase (a @ b) = to_ascii_lowercase a @ to_ascii_lowercase b"
  by (simp add: to_ascii_lowercase_def)

lemma contains_str_iff: "contains_str s n \<longleftrightarrow> (\<exists>a b. s = a @ n @ b)"
proof (induction s)
  case Nil
  then show ?case by auto
next
  case (Cons c s)
  show ?case
  proof
    assume "contains_str (c # s) n"
    then consider "prefix n (c # s)" | "contains_str s n" by auto
    then show "\<exists>a b. c # s = a @ n @ b"
    proof cases
      case 1
      then show ?thesis by (metis append_Nil prefix_def)
    next
      case 2
      with Cons show ?thesis by (metis append_Cons)
    qed
  next
    assume "\<exists>a b. c # s = a @ n @ b"
    then obtain a b where ab: "c # s = a @ n @ b" by blast
    then show "contains_str (c # s) n"
    proof (cases a)
      case Nil
      with ab have "prefix n (c # s)" by (simp add: prefix_def)
      then show ?thesis by simp
    next
      case (Cons d a')
      with ab have "s = a' @ n @ b" by simp
      with \<open>contains_str s n \<longleftrightarrow> _\<close> show ?thesis by auto
    qed
  qed
qed

section \<open>Numbers as text\<close>

definition digit_char :: "nat \<Rightarrow> char" where
  "digit_char d = (if d < 10 then char_of (48 + d) else char_of (87 + d))"

fun dec :: "nat \<Rightarrow> string" where
  "dec n = (if n < 10 then [digit_char n] else dec (n div 10) @ [digit_char (n mod 10)])"

fun hex_digits :: "nat \<Rightarrow> nat \<Rightarrow> string" where
  "hex_digits 0 n = []"
| "hex_digits (Suc k) n = hex_digits k (n div 16) @ [digit_char (n mod 16)]"

text \<open>\<^verbatim>\<open>{:016x}\<close> of a \<^verbatim>\<open>u64\<close>.\<close>

abbreviation hex016 :: "nat \<Rightarrow> string" where
  "hex016 \<equiv> hex_digits 16"

declare dec.simps [simp del]

lemma digit_char_inj: "a < 16 \<Longrightarrow> b < 16 \<Longrightarrow> digit_char a = digit_char b \<Longrightarrow> a = b"
proof -
  assume a: "a < 16" and b: "b < 16" and eq: "digit_char a = digit_char b"
  have "of_char (digit_char a) = (of_char (digit_char b) :: nat)" using eq by simp
  with a b show "a = b" by (auto simp: digit_char_def of_char_of split: if_splits)
qed

lemma digit_char_ascii: "d < 16 \<Longrightarrow> (of_char (digit_char d) :: nat) < 128"
  by (auto simp: digit_char_def of_char_of)

lemma digit_char_not:
  "d < 16 \<Longrightarrow> digit_char d \<noteq> CHR ''-''" "d < 16 \<Longrightarrow> digit_char d \<noteq> CHR ''/''"
  "d < 16 \<Longrightarrow> digit_char d \<noteq> CHR ''.''"
proof -
  have ge: "48 \<le> (of_char (digit_char d) :: nat)" if "d < 16"
    using that by (auto simp: digit_char_def of_char_of)
  show "d < 16 \<Longrightarrow> digit_char d \<noteq> CHR ''-''" "d < 16 \<Longrightarrow> digit_char d \<noteq> CHR ''/''"
    "d < 16 \<Longrightarrow> digit_char d \<noteq> CHR ''.''"
    using ge by auto
qed

lemma dec_ne [simp]: "dec n \<noteq> []"
  by (subst dec.simps) simp

lemma dec_digits: "c \<in> set (dec n) \<Longrightarrow> \<exists>d < 10. c = digit_char d"
proof (induction n rule: dec.induct)
  case (1 n)
  then show ?case
    by (cases "n < 10") (auto simp: dec.simps [of n] intro: exI [of _ "n mod 10"])
qed

lemma dec_clean: "CHR ''-'' \<notin> set (dec n)" "CHR ''/'' \<notin> set (dec n)" "CHR ''.'' \<notin> set (dec n)"
  using dec_digits digit_char_not by (metis less_trans numeral_less_iff semiring_norm(75,76,78,81))+

lemma dec_inj: "dec m = dec n \<Longrightarrow> m = n"
proof (induction m arbitrary: n rule: dec.induct)
  case (1 m)
  have single: "length (dec k) = 1 \<longleftrightarrow> k < 10" for k
    by (subst dec.simps) (simp add: Suc_le_eq)
  show ?case
  proof (cases "m < 10")
    case True
    with "1.prems" single have "n < 10" by metis
    with True "1.prems" show ?thesis
      by (auto simp: dec.simps [of m] dec.simps [of n] intro: digit_char_inj)
  next
    case False
    with "1.prems" single have n: "\<not> n < 10" by metis
    with False "1.prems" have *: "dec (m div 10) = dec (n div 10)"
        "digit_char (m mod 10) = digit_char (n mod 10)"
      by (simp_all add: dec.simps [of m] dec.simps [of n])
    from *(2) have "m mod 10 = n mod 10"
      by (rule digit_char_inj [rotated 2]) (simp_all add: less_trans [OF mod_less_divisor])
    moreover from * False have "m div 10 = n div 10" by (intro "1.IH") auto
    ultimately show ?thesis by (metis mult_div_mod_eq)
  qed
qed

lemma length_hex_digits [simp]: "length (hex_digits k n) = k"
  by (induction k arbitrary: n) auto

lemma hex_digits_inj: "m < 16 ^ k \<Longrightarrow> n < 16 ^ k \<Longrightarrow> hex_digits k m = hex_digits k n \<Longrightarrow> m = n"
proof (induction k arbitrary: m n)
  case 0
  then show ?case by simp
next
  case (Suc k)
  then have "m div 16 = n div 16"
    by (intro Suc.IH) (auto simp: less_mult_imp_div_less mult.commute)
  moreover from Suc.prems have "m mod 16 = n mod 16"
    by (intro digit_char_inj) auto
  ultimately show ?case by (metis mult_div_mod_eq)
qed

section \<open>Integer casts\<close>

text \<open>\<^verbatim>\<open>x as i64\<close> of a \<^verbatim>\<open>u64\<close> or \<^verbatim>\<open>u128\<close> keeps the low 64 bits and reads them as two's
  complement; \<^verbatim>\<open>x as u128\<close> and \<^verbatim>\<open>x as u64\<close> of an \<^verbatim>\<open>i64\<close> sign-extend.\<close>

definition as_i64 :: "nat \<Rightarrow> int" where
  "as_i64 n = sint (word_of_nat n :: 64 word)"

definition i64_as_u128 :: "int \<Rightarrow> nat" where
  "i64_as_u128 i = unat (word_of_int i :: 128 word)"

definition i64_as_u64 :: "int \<Rightarrow> nat" where
  "i64_as_u64 i = unat (word_of_int i :: 64 word)"

lemma as_i64_small: "n < 2 ^ 63 \<Longrightarrow> as_i64 n = int n"
proof -
  assume n: "n < 2 ^ 63"
  have "as_i64 n = signed_take_bit 63 (int n)"
    by (simp add: as_i64_def signed_of_nat)
  also have "\<dots> = int n"
    by (rule signed_take_bit_int_eq_self) (use n in simp_all)
  finally show ?thesis .
qed

lemma i64_as_u128_of_nat: "n < 2 ^ 128 \<Longrightarrow> i64_as_u128 (int n) = n"
  by (simp add: i64_as_u128_def unat_of_nat take_bit_nat_eq_self)

lemma i64_as_u64_of_nat: "n < 2 ^ 64 \<Longrightarrow> i64_as_u64 (int n) = n"
  by (simp add: i64_as_u64_def unat_of_nat take_bit_nat_eq_self)

lemma u128_i64_roundtrip: "n < 2 ^ 63 \<Longrightarrow> i64_as_u128 (as_i64 n) = n"
  by (simp add: as_i64_small i64_as_u128_of_nat)

section \<open>Hash sets\<close>

text \<open>\<^verbatim>\<open>xs.filter(|x| seen.insert(key(x)))\<close>: keep an element when its key is new.\<close>

fun filter_new :: "('a \<Rightarrow> 'k) \<Rightarrow> 'k set \<Rightarrow> 'a list \<Rightarrow> 'a list" where
  "filter_new key seen [] = []"
| "filter_new key seen (x # xs) =
     (if key x \<in> seen then filter_new key seen xs
      else x # filter_new key (insert (key x) seen) xs)"

lemma filter_new_subset: "set (filter_new key seen xs) \<subseteq> set xs"
  by (induction xs arbitrary: seen) auto

lemma filter_new_fresh: "x \<in> set (filter_new key seen xs) \<Longrightarrow> key x \<notin> seen"
  by (induction xs arbitrary: seen) (auto split: if_splits)

lemma distinct_filter_new: "distinct (map key (filter_new key seen xs))"
proof (induction xs arbitrary: seen)
  case (Cons x xs)
  then show ?case by (auto dest: filter_new_fresh)
qed simp

lemma filter_new_keys: "key ` set (filter_new key seen xs) = key ` set xs - seen"
  by (induction xs arbitrary: seen) auto

lemma filter_new_id:
  "distinct (map key xs) \<Longrightarrow> key ` set xs \<inter> seen = {} \<Longrightarrow> filter_new key seen xs = xs"
  by (induction xs arbitrary: seen) auto

section \<open>Lists\<close>

lemma distinct_map_sort_key: "distinct (map f (sort_key h xs)) = distinct (map f xs)"
  by (rule mset_eq_imp_distinct_iff) simp

lemma sort_key_permute:
  assumes "inj_on f (set xs)" and "mset xs = mset ys"
  shows "sort_key f xs = sort_key f ys"
proof (rule sort_key_inj_key_eq)
  show "mset xs = mset (sort_key f ys)" using assms(2) by simp
qed (use assms(1) in simp_all)

end
