(* ===== verification/Glob.thy ===== *)
theory Glob
  imports Prelude
begin

text \<open>
  \<^verbatim>\<open>rules/glob.rs\<close>: the wildcard matcher behind the \<^verbatim>\<open>name_matches\<close> condition. The loop keeps two
  indices and the last star; it is modelled with its indices as a partial function whose \<^const>\<open>None\<close>
  would mean that it does not return. It always returns, and it decides the declarative matching
  relation on every text without a star character. On a text that contains \<^verbatim>\<open>*\<close> it can go wrong,
  because the loop tries the literal comparison before it tests for a wildcard.
\<close>

section \<open>Model\<close>

partial_function (option) glob_loop ::
  "string list \<Rightarrow> string list \<Rightarrow> nat \<Rightarrow> nat \<Rightarrow> nat option \<Rightarrow> nat \<Rightarrow> (bool \<times> nat) option" where
  "glob_loop pattern text p t star_pattern star_text =
     (if t < length text then
        (if p < length pattern \<and> (pattern ! p = ''?'' \<or> pattern ! p = text ! t) then
           glob_loop pattern text (p + 1) (t + 1) star_pattern star_text
         else if p < length pattern \<and> pattern ! p = ''*'' then
           glob_loop pattern text (p + 1) t (Some p) t
         else (case star_pattern of
                 Some star \<Rightarrow>
                   glob_loop pattern text (star + 1) (star_text + 1) (Some star) (star_text + 1)
               | None \<Rightarrow> Some (False, p)))
      else Some (True, p))"

fun skip_stars :: "string list \<Rightarrow> string list" where
  "skip_stars (c # cs) = (if c = ''*'' then skip_stars cs else c # cs)"
| "skip_stars [] = []"

definition glob_match :: "string \<Rightarrow> string \<Rightarrow> bool option" where
  "glob_match pattern text =
     (let pattern = chars (to_ascii_lowercase pattern);
          text = chars (to_ascii_lowercase text)
      in map_option (\<lambda>(consumed, p). consumed \<and> skip_stars (drop p pattern) = [])
           (glob_loop pattern text 0 0 None 0))"

section \<open>Specification\<close>

fun matches :: "string list \<Rightarrow> string list \<Rightarrow> bool" where
  "matches [] ts = (ts = [])"
| "matches (c # ps) ts =
     (if c = ''*'' then (\<exists>k \<le> length ts. matches ps (drop k ts))
      else (case ts of [] \<Rightarrow> False | t # ts' \<Rightarrow> (c = ''?'' \<or> c = t) \<and> matches ps ts'))"

definition glob_spec :: "string \<Rightarrow> string \<Rightarrow> bool" where
  "glob_spec pattern text =
     matches (chars (to_ascii_lowercase pattern)) (chars (to_ascii_lowercase text))"

section \<open>Correctness\<close>

lemma matches_segment:
  "''*'' \<notin> set seg \<Longrightarrow> matches (seg @ qs) ts \<Longrightarrow>
     length seg \<le> length ts \<and> matches qs (drop (length seg) ts)"
proof (induction seg arbitrary: ts)
  case (Cons c seg)
  then show ?case by (cases ts) auto
qed simp

lemma matches_star_drop:
  assumes "matches (''*'' # ps) (drop m ts)" and "k \<le> m"
  shows "matches (''*'' # ps) (drop k ts)"
proof -
  obtain j where j: "j \<le> length (drop m ts)" "matches ps (drop j (drop m ts))"
    using assms(1) by auto
  show ?thesis
  proof (cases "m \<le> length ts")
    case True
    then have "m - k + j \<le> length (drop k ts)" "matches ps (drop (m - k + j) (drop k ts))"
      using j assms(2) by (auto simp: add.commute)
    then show ?thesis by auto
  next
    case False
    then have "matches ps []" using j by simp
    then have "matches ps (drop (length (drop k ts)) (drop k ts))" by simp
    then show ?thesis by auto
  qed
qed

lemma matches_nil: "matches ps [] \<longleftrightarrow> skip_stars ps = []"
  by (induction ps) auto

text \<open>What the loop still has to decide, and what it knows about the last star.\<close>

definition pending_match :: "string list \<Rightarrow> string list \<Rightarrow> nat \<Rightarrow> nat \<Rightarrow> nat option \<Rightarrow> nat \<Rightarrow> bool" where
  "pending_match P T p t star st \<longleftrightarrow> matches (drop p P) (drop t T)
     \<or> (\<exists>s j. star = Some s \<and> st < j \<and> j \<le> length T \<and> matches (drop (s + 1) P) (drop j T))"

definition loop_inv :: "string list \<Rightarrow> string list \<Rightarrow> nat \<Rightarrow> nat \<Rightarrow> nat option \<Rightarrow> nat \<Rightarrow> bool" where
  "loop_inv P T p t star st \<longleftrightarrow> p \<le> length P \<and> t \<le> length T
     \<and> (\<forall>s. star = Some s \<longrightarrow> s < p \<and> st \<le> t \<and> t - st = p - (s + 1)
          \<and> (\<forall>i. s < i \<and> i < p \<longrightarrow> P ! i \<noteq> ''*''))"

lemma star_segment:
  assumes "loop_inv P T p t (Some s) st" and "matches (drop (s + 1) P) (drop j T)"
  shows "p - (s + 1) \<le> length T - j \<and> matches (drop p P) (drop (j + (p - (s + 1))) T)"
proof -
  let ?seg = "take (p - (s + 1)) (drop (s + 1) P)"
  have split: "drop (s + 1) P = ?seg @ drop p P"
    using assms(1) by (auto simp: loop_inv_def) (metis append_take_drop_id drop_drop
        le_add_diff_inverse2 Suc_leI add.commute)
  have len: "length ?seg = p - (s + 1)" using assms(1) by (auto simp: loop_inv_def)
  have "?seg ! i \<noteq> ''*''" if "i < length ?seg" for i
    using that assms(1) len by (auto simp: loop_inv_def)
  then have "''*'' \<notin> set ?seg" by (metis in_set_conv_nth)
  with matches_segment [of ?seg "drop p P" "drop j T"] assms(2) split len
  show ?thesis by (simp add: add.commute)
qed

lemma pending_step:
  assumes "loop_inv P T p t star st" and "t < length T" "p < length P"
    and "P ! p \<noteq> ''*''" and "P ! p = ''?'' \<or> P ! p = T ! t"
  shows "pending_match P T p t star st = pending_match P T (p + 1) (t + 1) star st
    \<and> loop_inv P T (p + 1) (t + 1) star st"
proof -
  have "drop p P = P ! p # drop (p + 1) P" "drop t T = T ! t # drop (t + 1) T"
    using assms(2,3) by (simp_all add: Cons_nth_drop_Suc)
  then have "matches (drop p P) (drop t T) = matches (drop (p + 1) P) (drop (t + 1) T)"
    using assms(4,5) by simp
  moreover have "loop_inv P T (p + 1) (t + 1) star st"
    using assms by (auto simp: loop_inv_def less_Suc_eq Suc_diff_le)
  ultimately show ?thesis by (simp add: pending_match_def)
qed

lemma pending_star:
  assumes "loop_inv P T p t star st" and "t < length T" "p < length P" "P ! p = ''*''"
  shows "pending_match P T p t star st = pending_match P T (p + 1) t (Some p) t
    \<and> loop_inv P T (p + 1) t (Some p) t"
proof -
  have d: "drop p P = ''*'' # drop (p + 1) P"
    using assms(3,4) by (metis Cons_nth_drop_Suc Suc_eq_plus1)
  have here: "matches (drop p P) (drop t T) = pending_match P T (p + 1) t (Some p) t"
  proof
    assume "matches (drop p P) (drop t T)"
    then obtain k where "k \<le> length (drop t T)" "matches (drop (p + 1) P) (drop (t + k) T)"
      using d by (auto simp: add.commute)
    then show "pending_match P T (p + 1) t (Some p) t"
      using assms(2) by (cases "k = 0") (auto simp: pending_match_def intro: exI [of _ "t + k"])
  next
    assume "pending_match P T (p + 1) t (Some p) t"
    then obtain j where "t \<le> j" "j \<le> length T" "matches (drop (p + 1) P) (drop j T)"
      using assms(2) unfolding pending_match_def by (metis less_imp_le order_refl option.inject)
    then have "j - t \<le> length (drop t T) \<and> matches (drop (p + 1) P) (drop (j - t) (drop t T))"
      by simp
    then show "matches (drop p P) (drop t T)" unfolding d by auto
  qed
  have old: "matches (drop p P) (drop t T)"
    if s: "star = Some s" and j: "st < j" "matches (drop (s + 1) P) (drop j T)" for s j
  proof -
    have "matches (''*'' # drop (p + 1) P) (drop (j + (p - (s + 1))) T)"
      using star_segment assms(1) s j(2) d by metis
    moreover have "t \<le> j + (p - (s + 1))" using assms(1) s j(1) by (auto simp: loop_inv_def)
    ultimately show ?thesis unfolding d by (rule matches_star_drop)
  qed
  have "loop_inv P T (p + 1) t (Some p) t" using assms(2,3) by (auto simp: loop_inv_def)
  with here old show ?thesis by (auto simp: pending_match_def)
qed

lemma pending_back:
  assumes "loop_inv P T p t (Some s) st" and "t < length T"
    and "\<not> (p < length P \<and> (P ! p = ''?'' \<or> P ! p = T ! t))" "\<not> (p < length P \<and> P ! p = ''*'')"
  shows "pending_match P T p t (Some s) st = pending_match P T (s + 1) (st + 1) (Some s) (st + 1)
    \<and> loop_inv P T (s + 1) (st + 1) (Some s) (st + 1)"
proof -
  have dt: "drop t T = T ! t # drop (t + 1) T" using assms(2) by (simp add: Cons_nth_drop_Suc)
  have "\<not> matches (drop p P) (drop t T)"
  proof (cases "p < length P")
    case True
    then have "drop p P = P ! p # drop (p + 1) P" by (simp add: Cons_nth_drop_Suc)
    with dt assms(3,4) True show ?thesis by simp
  qed (use dt in simp)
  moreover have "st + 1 \<le> length T" using assms(1,2) by (auto simp: loop_inv_def)
  moreover have "st < j \<longleftrightarrow> j = st + 1 \<or> st + 1 < j" for j by auto
  ultimately have "pending_match P T p t (Some s) st = pending_match P T (s + 1) (st + 1) (Some s) (st + 1)"
    unfolding pending_match_def by (metis option.inject)
  moreover have "loop_inv P T (s + 1) (st + 1) (Some s) (st + 1)"
    using assms(1,2) by (auto simp: loop_inv_def)
  ultimately show ?thesis by blast
qed

lemma pending_end:
  assumes "loop_inv P T p (length T) star st"
  shows "pending_match P T p (length T) star st \<longleftrightarrow> skip_stars (drop p P) = []"
proof -
  have "\<not> matches (drop (s + 1) P) (drop j T)" if "star = Some s" "st < j" "j \<le> length T" for s j
    using star_segment [of P T p "length T" s st j] assms that by (auto simp: loop_inv_def)
  then show ?thesis using matches_nil by (auto simp: pending_match_def)
qed

text \<open>The loop returns and decides what is pending. The measure: the star moves right, then the
  text position of the star, then the text position; before the first star every step consumes
  text.\<close>

lemma glob_loop_correct:
  assumes "''*'' \<notin> set T" and "loop_inv P T p t star st"
  shows "\<exists>b q. glob_loop P T p t star st = Some (b, q)
    \<and> (b \<and> skip_stars (drop q P) = [] \<longleftrightarrow> pending_match P T p t star st)"
  using assms(2)
proof (induction "(p, t, star, st)" arbitrary: p t star st
    rule: wf_induct_rule [OF wf_measures [of
      "[\<lambda>(p, t, star, st). (case star of None \<Rightarrow> length P + 1 | Some s \<Rightarrow> length P - s),
        \<lambda>(p, t, star, st). length T - st, \<lambda>(p, t, star, st). length T - t]"]])
  case (1 p t star st)
  note inv = "1.prems" and unf = glob_loop.simps [of P T p t star st]
  show ?case
  proof (cases "t < length T")
    case False
    with inv have t: "t = length T" by (simp add: loop_inv_def)
    with inv pending_end unf show ?thesis by auto
  next
    case t: True
    consider (char) "p < length P" "P ! p = ''?'' \<or> P ! p = T ! t"
      | (star) "\<not> (p < length P \<and> (P ! p = ''?'' \<or> P ! p = T ! t))" "p < length P" "P ! p = ''*''"
      | (retry) "\<not> (p < length P \<and> (P ! p = ''?'' \<or> P ! p = T ! t))"
          "\<not> (p < length P \<and> P ! p = ''*'')" by blast
    then show ?thesis
    proof cases
      case char
      then have "P ! p \<noteq> ''*''" using assms(1) t by (auto dest: nth_mem)
      note step = pending_step [OF inv t char(1) this char(2)]
      have "\<exists>b q. glob_loop P T (p + 1) (t + 1) star st = Some (b, q)
          \<and> (b \<and> skip_stars (drop q P) = [] \<longleftrightarrow> pending_match P T (p + 1) (t + 1) star st)"
        using step t by (intro "1.hyps") auto
      with step char t unf show ?thesis by auto
    next
      case star
      note step = pending_star [OF inv t star(2,3)]
      have "\<exists>b q. glob_loop P T (p + 1) t (Some p) t = Some (b, q)
          \<and> (b \<and> skip_stars (drop q P) = [] \<longleftrightarrow> pending_match P T (p + 1) t (Some p) t)"
        using step t star inv
        by (intro "1.hyps") (auto simp: loop_inv_def split: option.splits)
      with step star t unf show ?thesis by auto
    next
      case retry
      show ?thesis
      proof (cases star)
        case None
        have "drop t T = T ! t # drop (t + 1) T" using t by (simp add: Cons_nth_drop_Suc)
        moreover have "drop p P = [] \<or> (p < length P \<and> drop p P = P ! p # drop (p + 1) P)"
          by (cases "p < length P") (simp_all add: Cons_nth_drop_Suc)
        ultimately have "\<not> matches (drop p P) (drop t T)" using retry by auto
        with None retry t unf show ?thesis by (auto simp: pending_match_def)
      next
        case (Some s)
        note step = pending_back [OF inv [unfolded Some] t retry]
        have "\<exists>b q. glob_loop P T (s + 1) (st + 1) (Some s) (st + 1) = Some (b, q)
            \<and> (b \<and> skip_stars (drop q P) = [] \<longleftrightarrow> pending_match P T (s + 1) (st + 1) (Some s) (st + 1))"
          using step t Some inv by (intro "1.hyps") (auto simp: loop_inv_def)
        with step retry t Some unf show ?thesis by auto
      qed
    qed
  qed
qed

text \<open>On any text the loop returns, stars in the text included.\<close>

lemma glob_loop_returns:
  assumes "p \<le> length P" "t \<le> length T" "\<forall>s. star = Some s \<longrightarrow> s < p \<and> st \<le> t"
  shows "glob_loop P T p t star st \<noteq> None"
  using assms
proof (induction "(p, t, star, st)" arbitrary: p t star st
    rule: wf_induct_rule [OF wf_measures [of
      "[\<lambda>(p, t, star, st). (case star of None \<Rightarrow> length P + 1 | Some s \<Rightarrow> length P - s),
        \<lambda>(p, t, star, st). length T - st, \<lambda>(p, t, star, st). length T - t]"]])
  case (1 p t star st)
  note IH = "1.hyps" and prems = "1.prems"
  have char: "glob_loop P T (p + 1) (t + 1) star st \<noteq> None" if "t < length T" "p < length P"
    using that prems by (intro IH) auto
  have wild: "glob_loop P T (p + 1) t (Some p) t \<noteq> None" if "t < length T" "p < length P"
    using that prems by (intro IH) (auto split: option.splits)
  have retry: "glob_loop P T (s + 1) (st + 1) (Some s) (st + 1) \<noteq> None"
    if "t < length T" "star = Some s" for s
    using that prems by (intro IH) auto
  show ?case
    using char wild retry by (subst glob_loop.simps) (auto split: option.splits)
qed

text \<open>C38: the wildcard matcher returns on every pattern and text, and on a text without a star
  character it returns exactly the declarative matching relation, ignoring ASCII case.\<close>

theorem glob_match_correct:
  assumes "''*'' \<notin> set (chars (to_ascii_lowercase text))"
  shows "glob_match pattern text = Some (glob_spec pattern text)"
proof -
  let ?P = "chars (to_ascii_lowercase pattern)" and ?T = "chars (to_ascii_lowercase text)"
  have "loop_inv ?P ?T 0 0 None 0" by (simp add: loop_inv_def)
  from glob_loop_correct [OF assms this] obtain b q where
    "glob_loop ?P ?T 0 0 None 0 = Some (b, q)"
    "b \<and> skip_stars (drop q ?P) = [] \<longleftrightarrow> pending_match ?P ?T 0 0 None 0" by blast
  then show ?thesis by (simp add: glob_match_def glob_spec_def pending_match_def)
qed

theorem glob_match_correct_witness:
  "''*'' \<notin> set (chars (to_ascii_lowercase ''Report.PDF''))
   \<and> glob_match ''r*.p?f'' ''Report.PDF'' = Some (glob_spec ''r*.p?f'' ''Report.PDF'')"
proof -
  have "''*'' \<notin> set (chars (to_ascii_lowercase ''Report.PDF''))" by code_simp
  with glob_match_correct show ?thesis by blast
qed

text \<open>C39: the matcher never runs forever, whatever the pattern and the text, so a rule set cannot
  hang the proposal step.\<close>

theorem glob_match_returns: "\<exists>b. glob_match pattern text = Some b"
proof -
  let ?P = "chars (to_ascii_lowercase pattern)" and ?T = "chars (to_ascii_lowercase text)"
  have "glob_loop ?P ?T 0 0 None 0 \<noteq> None" by (rule glob_loop_returns) simp_all
  then show ?thesis by (auto simp: glob_match_def split: prod.splits)
qed

text \<open>A file name that contains a star can be missed: \<^verbatim>\<open>*\<close> does not match the name \<^verbatim>\<open>**\<close>,
  although it matches every name in the declarative relation, because the loop compares the pattern
  character with the text before it looks for a wildcard.\<close>

theorem glob_match_star_in_text:
  "glob_match ''*'' ''**'' = Some False \<and> glob_spec ''*'' ''**''"
proof -
  have "chars (to_ascii_lowercase ''*'') = [''*'']" "chars (to_ascii_lowercase ''**'') = [''*'', ''*'']"
    by code_simp+
  then show ?thesis
    by (auto simp: glob_match_def glob_spec_def glob_loop.simps)
qed

end
