(* ===== verification/Paths.thy ===== *)
theory Paths
  imports Prelude
begin

text \<open>
  \<^verbatim>\<open>std::path\<close> on Unix, as the file engine uses it. A \<^verbatim>\<open>Path\<close> or \<^verbatim>\<open>PathBuf\<close> is its raw byte
  string; equality, \<^verbatim>\<open>starts_with\<close> and \<^verbatim>\<open>strip_prefix\<close> compare components. File names are
  valid UTF-8, so \<^verbatim>\<open>to_str\<close> always succeeds and \<^verbatim>\<open>to_string_lossy\<close> is the identity.
\<close>

section \<open>Components\<close>

datatype component = RootDir | CurDir | ParentDir | Normal string

definition is_sep :: "char \<Rightarrow> bool" where
  "is_sep c = (c = CHR ''/'')"

abbreviation segments :: "string \<Rightarrow> string list" where
  "segments \<equiv> split_on is_sep"

fun has_root :: "string \<Rightarrow> bool" where
  "has_root [] = False"
| "has_root (c # cs) = is_sep c"

definition junk :: "string \<Rightarrow> bool" where
  "junk s = (s = [] \<or> s = ''.'')"

definition seg_component :: "string \<Rightarrow> component" where
  "seg_component s = (if s = ''..'' then ParentDir else Normal s)"

abbreviation body_components :: "string list \<Rightarrow> component list" where
  "body_components segs \<equiv> map seg_component (filter (\<lambda>s. \<not> junk s) segs)"

text \<open>\<^verbatim>\<open>Path::components\<close>: empty and \<^verbatim>\<open>.\<close> segments disappear, except a leading \<^verbatim>\<open>.\<close> of a
  relative path.\<close>

definition components :: "string \<Rightarrow> component list" where
  "components p =
     (let segs = segments p
      in if has_root p then RootDir # body_components segs
         else if hd segs = ''.'' then CurDir # body_components (tl segs)
         else body_components segs)"

fun component_str :: "component \<Rightarrow> string" where
  "component_str RootDir = ''/''"
| "component_str CurDir = ''.''"
| "component_str ParentDir = ''..''"
| "component_str (Normal s) = s"

definition file_name :: "string \<Rightarrow> string option" where
  "file_name p = (case rev (components p) of Normal s # _ \<Rightarrow> Some s | _ \<Rightarrow> None)"

text \<open>\<^verbatim>\<open>Path::parent\<close> keeps the raw text up to the end of the component before the last.\<close>

definition strip_last :: "string list \<Rightarrow> string list option" where
  "strip_last segs =
     (case dropWhile junk (rev segs) of
        [] \<Rightarrow> None
      | _ # rest \<Rightarrow> Some (rev (dropWhile junk rest)))"

definition parent :: "string \<Rightarrow> string option" where
  "parent p =
     (let segs = segments p
      in if has_root p then
           (case strip_last (tl segs) of
              None \<Rightarrow> None
            | Some rest \<Rightarrow> Some (''/'' @ join_with ''/'' rest))
         else if hd segs = ''.'' then
           (case strip_last (tl segs) of
              None \<Rightarrow> Some []
            | Some rest \<Rightarrow> Some (join_with ''/'' (''.'' # rest)))
         else map_option (join_with ''/'') (strip_last segs))"

definition join_path :: "string \<Rightarrow> string \<Rightarrow> string" where
  "join_path a b =
     (if has_root b then b
      else if a = [] \<or> is_sep (last a) then a @ b
      else a @ ''/'' @ b)"

definition path_starts_with :: "string \<Rightarrow> string \<Rightarrow> bool" where
  "path_starts_with p base = prefix (components base) (components p)"

definition path_eq :: "string \<Rightarrow> string \<Rightarrow> bool" where
  "path_eq p q = (components p = components q)"

text \<open>\<^verbatim>\<open>Path::strip_prefix\<close>, given as the components of the remainder.\<close>

definition strip_prefix_components :: "string \<Rightarrow> string \<Rightarrow> component list option" where
  "strip_prefix_components p base =
     (if path_starts_with p base
      then Some (drop (length (components base)) (components p)) else None)"

section \<open>Extensions\<close>

text \<open>\<^verbatim>\<open>rsplit_file_at_dot\<close>: the stem and the text after the last dot; a name whose only dot is its
  first character has no extension.\<close>

definition split_at_dot :: "string \<Rightarrow> string \<times> string option" where
  "split_at_dot name =
     (let after = rev (takeWhile (\<lambda>c. c \<noteq> CHR ''.'') (rev name));
          rest = dropWhile (\<lambda>c. c \<noteq> CHR ''.'') (rev name)
      in if name = ''..'' then (name, None)
         else (case rest of
                 [] \<Rightarrow> (name, None)
               | _ # before \<Rightarrow> if before = [] then (name, None)
                               else (rev before, Some after)))"

definition extension :: "string \<Rightarrow> string option" where
  "extension p = (case file_name p of None \<Rightarrow> None | Some name \<Rightarrow> snd (split_at_dot name))"

definition with_extension :: "string \<Rightarrow> string \<Rightarrow> string" where
  "with_extension p ext =
     (case file_name p of
        None \<Rightarrow> p
      | Some name \<Rightarrow>
          (case dropWhile junk (rev (segments p)) of
             [] \<Rightarrow> p
           | _ # rest \<Rightarrow>
               join_with ''/'' (rev (((fst (split_at_dot name)) @ (if ext = [] then [] else ''.'' @ ext)) # rest))))"

definition with_file_name :: "string \<Rightarrow> string \<Rightarrow> string" where
  "with_file_name p name =
     (case file_name p of
        None \<Rightarrow> join_path p name
      | Some _ \<Rightarrow> join_path (case parent p of None \<Rightarrow> p | Some d \<Rightarrow> d) name)"

section \<open>Absolute locations and their text\<close>

text \<open>A location is the list of names from the file-system root; its path text is what
  \<^verbatim>\<open>canonicalize\<close> returns.\<close>

type_synonym loc = "string list"

definition valid_name :: "string \<Rightarrow> bool" where
  "valid_name s = (s \<noteq> [] \<and> s \<noteq> ''.'' \<and> s \<noteq> ''..'' \<and> CHR ''/'' \<notin> set s)"

definition path_of_loc :: "loc \<Rightarrow> string" where
  "path_of_loc l = (if l = [] then ''/'' else concat (map (\<lambda>s. CHR ''/'' # s) l))"

definition valid_loc :: "loc \<Rightarrow> bool" where
  "valid_loc l = list_all valid_name l"

section \<open>Lemmas\<close>

lemma is_sep_slash [simp]: "is_sep (CHR ''/'')"
  by (simp add: is_sep_def)

lemma has_root_Cons: "has_root p \<Longrightarrow> \<exists>q. p = CHR ''/'' # q"
  by (cases p) (auto simp: is_sep_def)

lemma has_root_append: "a \<noteq> [] \<Longrightarrow> has_root (a @ b) = has_root a"
  by (cases a) auto

lemma segments_root: "segments (CHR ''/'' # q) = [] # segments q"
  by (simp add: is_sep_def)

lemma junk_simps [simp]: "junk []" "junk ''.''" "valid_name s \<Longrightarrow> \<not> junk s"
  by (auto simp: junk_def valid_name_def)

lemma segments_valid_name: "valid_name s \<Longrightarrow> segments s = [s]"
  by (rule split_on_none) (auto simp: valid_name_def is_sep_def)

lemma segments_append_sep: "segments (a @ CHR ''/'' # b) = segments a @ segments b"
  by (rule split_on_append_sep) simp

lemma body_components_append:
  "body_components (a @ b) = body_components a @ body_components b"
  by simp

lemma components_root: "components (CHR ''/'' # q) = RootDir # body_components (segments q)"
  by (simp add: components_def is_sep_def Let_def)

lemma body_not_special:
  "RootDir \<notin> set (body_components segs)" "CurDir \<notin> set (body_components segs)"
  by (auto simp: seg_component_def)

lemma segments_path_of_loc:
  "valid_loc l \<Longrightarrow> l \<noteq> [] \<Longrightarrow> segments (path_of_loc l) = [] # l"
proof -
  have body: "segments (concat (map (\<lambda>s. CHR ''/'' # s) l)) = [] # l" if "valid_loc l" for l
    using that
  proof (induction l)
    case (Cons s l)
    then have s: "valid_name s" and l: "valid_loc l" by (auto simp: valid_loc_def)
    show ?case
    proof (cases l)
      case Nil
      with s show ?thesis by (simp add: segments_root segments_valid_name)
    next
      case (Cons t ts)
      let ?rest = "concat (map (\<lambda>s. CHR ''/'' # s) l)"
      have "segments (s @ ?rest) = (case segments ?rest of [] \<Rightarrow> [s] | x # xs \<Rightarrow> (s @ x) # xs)"
        using s by (intro split_on_append_clean) (auto simp: valid_name_def is_sep_def)
      with Cons.IH [OF l] show ?thesis by (simp add: segments_root)
    qed
  qed simp
  assume "valid_loc l" and "l \<noteq> []"
  with body show ?thesis by (simp add: path_of_loc_def)
qed

lemma components_path_of_loc:
  assumes "valid_loc l"
  shows "components (path_of_loc l) = RootDir # map Normal l"
proof (cases "l = []")
  case True
  then show ?thesis by (simp add: path_of_loc_def components_root)
next
  case False
  have root: "has_root (path_of_loc l)"
    using False by (cases l) (auto simp: path_of_loc_def is_sep_def)
  have keep: "filter (\<lambda>s. \<not> junk s) l = l" "map seg_component l = map Normal l"
    using assms by (auto simp: valid_loc_def list_all_iff filter_id_conv seg_component_def valid_name_def)
  show ?thesis
    using segments_path_of_loc [OF assms False] root keep by (simp add: components_def Let_def)
qed

lemma path_starts_with_loc:
  "valid_loc l \<Longrightarrow> valid_loc r \<Longrightarrow>
     path_starts_with (path_of_loc l) (path_of_loc r) \<longleftrightarrow> prefix r l"
proof -
  have inj: "inj Normal" by (auto simp: inj_on_def)
  assume "valid_loc l" "valid_loc r"
  moreover have "prefix (map Normal r) (map Normal l) \<longleftrightarrow> prefix r l"
    using inj by (metis inj_map_eq_map map_mono_prefix prefix_map_rightE)
  ultimately show ?thesis by (simp add: path_starts_with_def components_path_of_loc)
qed

lemma path_of_loc_inj:
  "valid_loc l \<Longrightarrow> valid_loc r \<Longrightarrow> path_of_loc l = path_of_loc r \<Longrightarrow> l = r"
proof -
  assume "valid_loc l" "valid_loc r" "path_of_loc l = path_of_loc r"
  then have "map Normal l = map Normal r"
    by (metis components_path_of_loc list.inject)
  moreover have "inj Normal" by (auto simp: inj_on_def)
  ultimately show "l = r" by (metis inj_map_eq_map)
qed

lemma path_of_loc_snoc:
  "path_of_loc (l @ [s]) = (if l = [] then ''/'' @ s else path_of_loc l @ ''/'' @ s)"
  by (simp add: path_of_loc_def)

lemma join_path_loc: "valid_loc d \<Longrightarrow> valid_name name \<Longrightarrow>
    join_path (path_of_loc d) name = path_of_loc (d @ [name])"
proof -
  assume d: "valid_loc d" and name: "valid_name name"
  have nr: "\<not> has_root name" using name by (cases name) (auto simp: valid_name_def is_sep_def)
  show ?thesis
  proof (cases "d = []")
    case True
    with nr show ?thesis by (simp add: join_path_def path_of_loc_def)
  next
    case False
    obtain e c where ec: "d = e @ [c]" using False by (metis append_butlast_last_id)
    with d have "valid_name c" by (simp add: valid_loc_def)
    then have "c \<noteq> []" "last c \<noteq> CHR ''/''" unfolding valid_name_def by (metis, metis last_in_set)
    then have "last (path_of_loc d) \<noteq> CHR ''/''" using ec by (simp add: path_of_loc_snoc)
    moreover have "path_of_loc d \<noteq> []" using ec by (simp add: path_of_loc_snoc)
    ultimately show ?thesis using nr False by (simp add: join_path_def is_sep_def path_of_loc_snoc)
  qed
qed

lemma has_root_path_of_loc [simp]: "has_root (path_of_loc l)"
  by (cases l) (auto simp: path_of_loc_def is_sep_def)

lemma path_of_loc_ne [simp]: "path_of_loc l \<noteq> []"
  by (cases l) (auto simp: path_of_loc_def)

lemma path_starts_with_refl [simp]: "path_starts_with p p"
  by (simp add: path_starts_with_def)

lemma path_starts_with_trans:
  "path_starts_with a b \<Longrightarrow> path_starts_with b c \<Longrightarrow> path_starts_with a c"
  unfolding path_starts_with_def by (rule prefix_order.trans)

text \<open>The characters of a normal component never include a separator.\<close>

lemma components_Normal_valid: "Normal s \<in> set (components p) \<Longrightarrow> valid_name s"
proof -
  assume "Normal s \<in> set (components p)"
  then have "s \<in> set (segments p) \<and> \<not> junk s \<and> s \<noteq> ''..''"
    by (auto simp: components_def Let_def seg_component_def split: if_splits
        dest: list.set_sel(2) [OF split_on_ne])
  moreover from this have "CHR ''/'' \<notin> set s"
    by (metis is_sep_slash split_on_segments)
  ultimately show ?thesis by (auto simp: valid_name_def junk_def)
qed

lemma file_name_Some_iff:
  "file_name p = Some s \<longleftrightarrow> (\<exists>cs. components p = cs @ [Normal s])"
proof
  assume "file_name p = Some s"
  then obtain cs where "rev (components p) = Normal s # cs"
    by (auto simp: file_name_def split: list.splits component.splits)
  then have "components p = rev cs @ [Normal s]" by (metis rev_eq_Cons_iff)
  then show "\<exists>cs. components p = cs @ [Normal s]" by blast
next
  assume "\<exists>cs. components p = cs @ [Normal s]"
  then show "file_name p = Some s" by (auto simp: file_name_def)
qed

lemma file_name_valid: "file_name p = Some s \<Longrightarrow> valid_name s"
  by (rule components_Normal_valid [of _ p]) (auto simp: file_name_Some_iff)

text \<open>A parent is a shorter text, so climbing to the parent terminates.\<close>

lemma strip_last_Some:
  assumes "strip_last segs = Some rest"
  obtains x zs where "segs = rest @ zs" and "x \<in> set zs" and "\<not> junk x"
proof -
  from assms obtain x r where d: "dropWhile junk (rev segs) = x # r"
    and rest: "rest = rev (dropWhile junk r)"
    by (auto simp: strip_last_def split: list.splits)
  have "rev segs = takeWhile junk (rev segs) @ x # r"
    by (metis d takeWhile_dropWhile_id)
  then have "segs = rev r @ x # rev (takeWhile junk (rev segs))"
    by (metis append.assoc append_Cons append_Nil rev.simps(2) rev_append rev_rev_ident)
  moreover have "r = takeWhile junk r @ dropWhile junk r" by simp
  then have "rev r = rest @ rev (takeWhile junk r)" by (metis rest rev_append)
  ultimately have "segs = rest @ (rev (takeWhile junk r) @ x # rev (takeWhile junk (rev segs)))"
    by simp
  moreover have "\<not> junk x" using d hd_dropWhile [of junk "rev segs"] by simp
  ultimately show ?thesis using that by fastforce
qed

lemma length_join_with:
  "xs \<noteq> [] \<Longrightarrow> Suc (length (join_with [c] xs)) = sum_list (map (\<lambda>s. Suc (length s)) xs)"
proof (induction xs)
  case (Cons x xs)
  then show ?case by (cases "xs = []") (auto simp: join_with_Cons)
qed simp

lemma length_join_strip_last:
  assumes "strip_last segs = Some rest"
  shows "length (join_with [c] rest) < length (join_with [c] segs)"
proof -
  obtain x zs where zs: "segs = rest @ zs" "x \<in> set zs" "\<not> junk x"
    using assms by (rule strip_last_Some)
  then have "x \<noteq> []" by auto
  then have "1 < Suc (length x)" by (cases x) auto
  also have "Suc (length x) \<le> sum_list (map (\<lambda>s. Suc (length s)) zs)"
    using zs(2) by (intro member_le_sum_list) auto
  finally have gt: "1 < sum_list (map (\<lambda>s. Suc (length s)) zs)" .
  have "segs \<noteq> []" using zs by auto
  then have segs: "Suc (length (join_with [c] segs))
      = sum_list (map (\<lambda>s. Suc (length s)) rest) + sum_list (map (\<lambda>s. Suc (length s)) zs)"
    using zs(1) length_join_with [of segs c] by simp
  show ?thesis
  proof (cases "rest = []")
    case True
    with segs gt have "1 < Suc (length (join_with [c] segs))" by (metis add_0 list.map(1) sum_list.Nil)
    with True show ?thesis by simp
  next
    case False
    with segs gt length_join_with [of rest c] show ?thesis by linarith
  qed
qed

lemma join_segments: "join_with ''/'' (segments p) = p"
proof -
  have sep: "is_sep = (\<lambda>x. x = CHR ''/'')" by (simp add: fun_eq_iff is_sep_def)
  show ?thesis unfolding sep by (rule join_split)
qed

lemma parent_shorter: "parent p = Some q \<Longrightarrow> length q < length p"
proof -
  assume q: "parent p = Some q"
  show ?thesis
  proof (cases "has_root p")
    case True
    then obtain p' where p: "p = CHR ''/'' # p'" using has_root_Cons by blast
    with True q obtain rest where "strip_last (segments p') = Some rest"
      and "q = ''/'' @ join_with ''/'' rest"
      by (auto simp: parent_def Let_def segments_root split: option.splits)
    then show ?thesis
      using length_join_strip_last [of "segments p'" rest "CHR ''/''"] p
      by (simp add: join_segments)
  next
    case False
    show ?thesis
    proof (cases "hd (segments p) = ''.''")
      case True
      obtain segs where segs: "segments p = ''.'' # segs"
        using True by (metis list.collapse split_on_ne)
      have p: "p = join_with ''/'' (''.'' # segs)" by (metis join_segments segs)
      from q False True segs consider "q = []" "strip_last segs = None"
        | rest where "strip_last segs = Some rest" "q = join_with ''/'' (''.'' # rest)"
        by (auto simp: parent_def Let_def split: option.splits)
      then show ?thesis
      proof cases
        case 1
        with p show ?thesis by (cases segs) auto
      next
        case 2
        then have "segs \<noteq> []" by (auto simp: strip_last_def)
        with 2 p length_join_strip_last [of segs rest "CHR ''/''"] show ?thesis
          by (cases "rest = []") (auto simp: join_with_Cons)
      qed
    next
      case dot: False
      with False q obtain rest where "strip_last (segments p) = Some rest"
        and "q = join_with ''/'' rest"
        by (auto simp: parent_def Let_def)
      then show ?thesis
        using length_join_strip_last [of "segments p" rest "CHR ''/''"] by (simp add: join_segments)
    qed
  qed
qed

text \<open>Relative texts of locations.\<close>

lemma path_of_loc_join: "path_of_loc l = CHR ''/'' # join_with ''/'' l"
proof -
  have "concat (map (\<lambda>s. CHR ''/'' # s) l) = CHR ''/'' # join_with ''/'' l" if "l \<noteq> []" for l
    using that by (induction l rule: list_nonempty_induct) (auto simp: join_with_Cons)
  then show ?thesis by (simp add: path_of_loc_def)
qed

lemma join_with_append: "a \<noteq> [] \<Longrightarrow> b \<noteq> [] \<Longrightarrow>
    join_with sep (a @ b) = join_with sep a @ sep @ join_with sep b"
  by (induction a rule: join_with.induct [of _ sep]) (auto simp: join_with_Cons)

lemma segments_join: "valid_loc rel \<Longrightarrow> rel \<noteq> [] \<Longrightarrow> segments (join_with ''/'' rel) = rel"
proof -
  have sep: "is_sep = (\<lambda>x. x = CHR ''/'')" by (simp add: fun_eq_iff is_sep_def)
  assume "valid_loc rel" "rel \<noteq> []"
  then show ?thesis
    unfolding sep by (intro split_join) (auto simp: valid_loc_def valid_name_def list_all_iff)
qed

lemma components_join: "valid_loc rel \<Longrightarrow> rel \<noteq> [] \<Longrightarrow> components (join_with ''/'' rel) = map Normal rel"
proof -
  assume rel: "valid_loc rel" "rel \<noteq> []"
  obtain c cs where c: "rel = c # cs" using rel(2) by (cases rel) auto
  have "\<not> has_root (join_with ''/'' rel)"
    using rel c by (cases c; cases cs) (auto simp: valid_loc_def valid_name_def is_sep_def)
  moreover have "c \<noteq> ''.''" using rel(1) c by (auto simp: valid_loc_def valid_name_def)
  moreover have "filter (\<lambda>s. \<not> junk s) rel = rel" "map seg_component rel = map Normal rel"
    using rel(1) by (auto simp: valid_loc_def list_all_iff filter_id_conv valid_name_def junk_def
        seg_component_def)
  ultimately show ?thesis
    using segments_join [OF rel] c by (simp add: components_def Let_def)
qed

lemma join_path_rel:
  assumes "valid_loc r" "valid_loc rel" "rel \<noteq> []"
  shows "join_path (path_of_loc r) (join_with ''/'' rel) = path_of_loc (r @ rel)"
proof -
  obtain c cs where c: "rel = c # cs" using assms(3) by (cases rel) auto
  have root: "\<not> has_root (join_with ''/'' rel)"
    using assms c by (cases c; cases cs) (auto simp: valid_loc_def valid_name_def is_sep_def)
  show ?thesis
  proof (cases "r = []")
    case True
    with root show ?thesis by (simp add: join_path_def path_of_loc_join)
  next
    case False
    obtain d e where "r = d @ [e]" using False by (metis append_butlast_last_id)
    moreover from this assms(1) have "e \<noteq> []" "last e \<noteq> CHR ''/''"
      by (auto simp: valid_loc_def valid_name_def) (metis last_in_set)
    ultimately have "last (path_of_loc r) \<noteq> CHR ''/''"
      by (simp add: path_of_loc_snoc)
    with root False assms(3) show ?thesis
      by (simp add: join_path_def path_of_loc_join is_sep_def join_with_append)
  qed
qed

end
