(* ===== verification/Filesystem.thy ===== *)
theory Filesystem
  imports Paths
begin

text \<open>
  The world the file engine runs in: a Unix file tree with symbolic links, the per-root SQLite
  tables, the wall clock and the possibility that any system call or database statement fails.
  Names follow \<^verbatim>\<open>std::fs\<close>.

  \<^item> A tree is an association list from locations to nodes, so a directory can be listed; the order
    of the list is the order \<^verbatim>\<open>read_dir\<close> happens to report.
  \<^item> Path resolution is the kernel's walk: component by component, \<^verbatim>\<open>..\<close> physically, symbolic links
    followed at most 40 times.
  \<^item> Every mutating call spends one tick and fails when the world's fault schedule says so. A run cut
    short by a fault leaves the state of a crash at that call. The time stamps and inode numbers of
    new nodes and the clock readings are arbitrary functions of the tick.
  Hard links, permissions, directory time stamps and concurrent changes between two calls of one
  operation are not modelled.
\<close>

section \<open>Nodes and trees\<close>

record attrs =
  at_modified :: "nat option"
  at_created :: "nat option"
  at_dev :: nat
  at_ino :: nat
  at_size :: nat

datatype node =
    RegularFile string attrs
  | Directory attrs
  | Symlink string attrs
  | Special attrs

type_synonym fs = "(loc \<times> node) list"

fun is_directory :: "node option \<Rightarrow> bool" where
  "is_directory (Some (Directory a)) = True"
| "is_directory _ = False"

definition has_child :: "fs \<Rightarrow> loc \<Rightarrow> bool" where
  "has_child t l = (\<exists>k \<in> set (map fst t). strict_prefix l k)"

definition child_names :: "fs \<Rightarrow> loc \<Rightarrow> string list" where
  "child_names t l = map last (filter (\<lambda>k. k \<noteq> [] \<and> butlast k = l) (map fst t))"

section \<open>Errors\<close>

datatype io_error =
    NotFound
  | AlreadyExists
  | NotADirectory
  | IsADirectory
  | DirectoryNotEmpty
  | FilesystemLoop
  | InvalidInput
  | Fault

fun io_error_to_string :: "io_error \<Rightarrow> string" where
  "io_error_to_string NotFound = ''No such file or directory (os error 2)''"
| "io_error_to_string AlreadyExists = ''File exists (os error 17)''"
| "io_error_to_string NotADirectory = ''Not a directory (os error 20)''"
| "io_error_to_string IsADirectory = ''Is a directory (os error 21)''"
| "io_error_to_string DirectoryNotEmpty = ''Directory not empty (os error 39)''"
| "io_error_to_string FilesystemLoop = ''Too many levels of symbolic links (os error 40)''"
| "io_error_to_string InvalidInput = ''Invalid argument (os error 22)''"
| "io_error_to_string Fault = ''Input/output error (os error 5)''"

section \<open>Path resolution\<close>

text \<open>\<open>walk t n cur segs follow\<close> walks the segments from the directory \<open>cur\<close>, following at most
  \<open>n\<close> symbolic links, and the last one only when \<open>follow\<close> is set. It returns the location and what
  is there; a missing last component is reported as \<^const>\<open>None\<close> at the location where a new entry
  would be created.\<close>

function walk :: "fs \<Rightarrow> nat \<Rightarrow> loc \<Rightarrow> string list \<Rightarrow> bool \<Rightarrow> io_error + loc \<times> node option" where
  "walk t n cur [] follow = Inr (cur, map_of t cur)"
| "walk t n cur (c # cs) follow =
     (if \<not> is_directory (map_of t cur) then Inl NotADirectory
      else if junk c then walk t n cur cs follow
      else if c = ''..'' then walk t n (butlast cur) cs follow
      else (case map_of t (cur @ [c]) of
              None \<Rightarrow> if cs = [] then Inr (cur @ [c], None) else Inl NotFound
            | Some (Symlink target a) \<Rightarrow>
                if cs = [] \<and> \<not> follow then Inr (cur @ [c], Some (Symlink target a))
                else if n = 0 then Inl FilesystemLoop
                else walk t (n - 1) (if has_root target then [] else cur)
                       (segments target @ cs) follow
            | Some _ \<Rightarrow> walk t n (cur @ [c]) cs follow))"
  by pat_completeness auto
termination
  by (relation "measures [\<lambda>(t, n, cur, segs, follow). n, \<lambda>(t, n, cur, segs, follow). length segs]")
    auto

declare walk.simps [simp del]

definition max_links :: nat where
  "max_links = 40"

section \<open>Databases\<close>

text \<open>The tables of one root's \<^verbatim>\<open>mousekeeper.db\<close>. The journal is the list of its rows in \<^verbatim>\<open>seq\<close> order;
  \<open>db_next_seq\<close> is SQLite's \<^verbatim>\<open>AUTOINCREMENT\<close> counter.\<close>

record journal_row =
  row_seq :: int
  row_operation_id :: string
  row_status :: string
  row_action :: string
  row_from_path :: string
  row_to_path :: string
  row_created_unix_ms :: int

text \<open>A row of \<^verbatim>\<open>file_index\<close> and of \<^verbatim>\<open>file_search_entries\<close>; integers are SQLite's 64-bit signed ones.\<close>

record index_row =
  ix_relative_path :: string
  ix_size_bytes :: int
  ix_modified_unix_ms :: "int option"
  ix_extension :: "string option"
  ix_file_id :: "string option"

record search_row =
  sr_relative_path :: string
  sr_parent_relative_path :: string
  sr_name :: string
  sr_normalized_name :: string
  sr_entry_type :: string
  sr_extension :: "string option"
  sr_size_bytes :: "int option"
  sr_modified_unix_ms :: "int option"

text \<open>The single row of \<^verbatim>\<open>file_index_meta\<close> is the pair of the last two fields.\<close>

record root_db =
  db_journal :: "journal_row list"
  db_next_seq :: int
  db_file_index :: "index_row list"
  db_search_entries :: "search_row list"
  db_generation :: int
  db_initialized :: bool

definition empty_db :: root_db where
  "empty_db = \<lparr>db_journal = [], db_next_seq = 1, db_file_index = [], db_search_entries = [],
     db_generation = 0, db_initialized = False\<rparr>"

section \<open>The world\<close>

record world =
  w_fs :: fs
  w_cwd :: loc
  w_dbs :: "string \<Rightarrow> root_db option"
  w_tick :: nat
  w_fails :: "nat \<Rightarrow> bool"
  w_clock :: "nat \<Rightarrow> nat"
  w_stamp :: "nat \<Rightarrow> attrs"

type_synonym ('e, 'a) act = "world \<Rightarrow> ('e + 'a) \<times> world"

definition walk_path :: "world \<Rightarrow> bool \<Rightarrow> string \<Rightarrow> io_error + loc \<times> node option" where
  "walk_path w follow p =
     (if p = [] then Inl NotFound
      else walk (w_fs w) max_links (if has_root p then [] else w_cwd w) (segments p) follow)"

definition resolve :: "world \<Rightarrow> bool \<Rightarrow> string \<Rightarrow> io_error + loc \<times> node" where
  "resolve w follow p =
     (case walk_path w follow p of
        Inl e \<Rightarrow> Inl e
      | Inr (l, None) \<Rightarrow> Inl NotFound
      | Inr (l, Some n) \<Rightarrow> Inr (l, n))"

definition canonicalize :: "world \<Rightarrow> string \<Rightarrow> io_error + string" where
  "canonicalize w p = map_sum id (path_of_loc \<circ> fst) (resolve w True p)"

record metadata =
  m_is_file :: bool
  m_is_dir :: bool
  m_is_symlink :: bool
  m_len :: nat
  m_modified :: "nat option"
  m_created :: "nat option"
  m_dev :: nat
  m_ino :: nat

fun node_attrs :: "node \<Rightarrow> attrs" where
  "node_attrs (RegularFile c a) = a"
| "node_attrs (Directory a) = a"
| "node_attrs (Symlink t a) = a"
| "node_attrs (Special a) = a"

fun node_len :: "node \<Rightarrow> nat" where
  "node_len (RegularFile c a) = length c"
| "node_len (Symlink t a) = length t"
| "node_len n = at_size (node_attrs n)"

definition node_metadata :: "node \<Rightarrow> metadata" where
  "node_metadata n =
     \<lparr>m_is_file = (case n of RegularFile _ _ \<Rightarrow> True | _ \<Rightarrow> False),
      m_is_dir = (case n of Directory _ \<Rightarrow> True | _ \<Rightarrow> False),
      m_is_symlink = (case n of Symlink _ _ \<Rightarrow> True | _ \<Rightarrow> False),
      m_len = node_len n,
      m_modified = at_modified (node_attrs n),
      m_created = at_created (node_attrs n),
      m_dev = at_dev (node_attrs n),
      m_ino = at_ino (node_attrs n)\<rparr>"

definition fs_metadata :: "world \<Rightarrow> string \<Rightarrow> io_error + metadata" where
  "fs_metadata w p = map_sum id (node_metadata \<circ> snd) (resolve w True p)"

definition fs_symlink_metadata :: "world \<Rightarrow> string \<Rightarrow> io_error + metadata" where
  "fs_symlink_metadata w p = map_sum id (node_metadata \<circ> snd) (resolve w False p)"

definition path_exists :: "world \<Rightarrow> string \<Rightarrow> bool" where
  "path_exists w p = is_ok (fs_metadata w p)"

definition path_is_dir :: "world \<Rightarrow> string \<Rightarrow> bool" where
  "path_is_dir w p = (case fs_metadata w p of Inl _ \<Rightarrow> False | Inr m \<Rightarrow> m_is_dir m)"

definition path_is_file :: "world \<Rightarrow> string \<Rightarrow> bool" where
  "path_is_file w p = (case fs_metadata w p of Inl _ \<Rightarrow> False | Inr m \<Rightarrow> m_is_file m)"

definition read_dir :: "world \<Rightarrow> string \<Rightarrow> io_error + string list" where
  "read_dir w p =
     (case resolve w True p of
        Inl e \<Rightarrow> Inl e
      | Inr (l, Directory a) \<Rightarrow> Inr (child_names (w_fs w) l)
      | Inr _ \<Rightarrow> Inl NotADirectory)"

definition fs_read :: "world \<Rightarrow> string \<Rightarrow> io_error + string" where
  "fs_read w p =
     (case resolve w True p of
        Inl e \<Rightarrow> Inl e
      | Inr (l, RegularFile c a) \<Rightarrow> Inr c
      | Inr (l, Directory a) \<Rightarrow> Inl IsADirectory
      | Inr _ \<Rightarrow> Inl InvalidInput)"

section \<open>Actions\<close>

definition returnA :: "'a \<Rightarrow> ('e, 'a) act" where
  "returnA x w = (Inr x, w)"

definition throwA :: "'e \<Rightarrow> ('e, 'a) act" where
  "throwA e w = (Inl e, w)"

definition bindA :: "('e, 'a) act \<Rightarrow> ('a \<Rightarrow> ('e, 'b) act) \<Rightarrow> ('e, 'b) act" where
  "bindA m f w = (case m w of (Inl e, w1) \<Rightarrow> (Inl e, w1) | (Inr x, w1) \<Rightarrow> f x w1)"

definition map_errA :: "('e \<Rightarrow> 'f) \<Rightarrow> ('e, 'a) act \<Rightarrow> ('f, 'a) act" where
  "map_errA g m w = (case m w of (r, w1) \<Rightarrow> (map_err g r, w1))"

text \<open>A read of the current world, and an action whose error is handed on as a value.\<close>

definition readA :: "(world \<Rightarrow> 'e + 'a) \<Rightarrow> ('e, 'a) act" where
  "readA f w = (f w, w)"

definition tryA :: "('e, 'a) act \<Rightarrow> ('f, 'e + 'a) act" where
  "tryA m w = (case m w of (r, w1) \<Rightarrow> (Inr r, w1))"

definition unix_nanos :: "('e, nat) act" where
  "unix_nanos w = (Inr (w_clock w (w_tick w)), w\<lparr>w_tick := Suc (w_tick w)\<rparr>)"

definition unix_ms :: "('e, nat) act" where
  "unix_ms w = (Inr (w_clock w (w_tick w) div 1000000), w\<lparr>w_tick := Suc (w_tick w)\<rparr>)"

definition syscall :: "(world \<Rightarrow> io_error + fs) \<Rightarrow> (io_error, unit) act" where
  "syscall f w =
     (let w1 = w\<lparr>w_tick := Suc (w_tick w)\<rparr>
      in if w_fails w (w_tick w) then (Inl Fault, w1)
         else (case f w of Inl e \<Rightarrow> (Inl e, w1) | Inr t \<Rightarrow> (Inr (), w1\<lparr>w_fs := t\<rparr>)))"

section \<open>System calls\<close>

definition fs_put :: "loc \<Rightarrow> node \<Rightarrow> fs \<Rightarrow> fs" where
  "fs_put l n t = filter (\<lambda>(k, _). k \<noteq> l) t @ [(l, n)]"

definition fs_remove :: "loc \<Rightarrow> fs \<Rightarrow> fs" where
  "fs_remove l t = filter (\<lambda>(k, _). k \<noteq> l) t"

definition rebase :: "loc \<Rightarrow> loc \<Rightarrow> loc \<Rightarrow> loc" where
  "rebase src dst k = (if prefix src k then dst @ drop (length src) k else k)"

definition fs_move :: "loc \<Rightarrow> loc \<Rightarrow> fs \<Rightarrow> fs" where
  "fs_move src dst t = map (\<lambda>(k, n). (rebase src dst k, n)) (fs_remove dst t)"

definition new_node_attrs :: "world \<Rightarrow> attrs" where
  "new_node_attrs w = w_stamp w (w_tick w)"

definition strip_slash :: "string \<Rightarrow> string" where
  "strip_slash p = (let q = rev (dropWhile is_sep (rev p)) in if q = [] then p else q)"

definition fs_create_dir :: "string \<Rightarrow> (io_error, unit) act" where
  "fs_create_dir p = syscall (\<lambda>w.
     case walk_path w False (strip_slash p) of
       Inl e \<Rightarrow> Inl e
     | Inr (l, Some _) \<Rightarrow> Inl AlreadyExists
     | Inr (l, None) \<Rightarrow> Inr (fs_put l (Directory (new_node_attrs w)) (w_fs w)))"

definition fs_create_new :: "string \<Rightarrow> (io_error, unit) act" where
  "fs_create_new p = syscall (\<lambda>w.
     case walk_path w False p of
       Inl e \<Rightarrow> Inl e
     | Inr (l, Some _) \<Rightarrow> Inl AlreadyExists
     | Inr (l, None) \<Rightarrow> Inr (fs_put l (RegularFile [] (new_node_attrs w)) (w_fs w)))"

definition write_node :: "world \<Rightarrow> string \<Rightarrow> string \<Rightarrow> io_error + fs" where
  "write_node w p content =
     (case walk_path w True p of
        Inl e \<Rightarrow> Inl e
      | Inr (l, None) \<Rightarrow> Inr (fs_put l (RegularFile content (new_node_attrs w)) (w_fs w))
      | Inr (l, Some (RegularFile old a)) \<Rightarrow>
          Inr (fs_put l (RegularFile content
                 (a\<lparr>at_modified := at_modified (new_node_attrs w)\<rparr>)) (w_fs w))
      | Inr (l, Some (Directory a)) \<Rightarrow> Inl IsADirectory
      | Inr (l, Some _) \<Rightarrow> Inr (w_fs w))"

definition fs_write :: "string \<Rightarrow> string \<Rightarrow> (io_error, unit) act" where
  "fs_write p content = syscall (\<lambda>w. write_node w p content)"

definition fs_copy :: "string \<Rightarrow> string \<Rightarrow> (io_error, unit) act" where
  "fs_copy src dst = syscall (\<lambda>w.
     case fs_read w src of Inl e \<Rightarrow> Inl e | Inr content \<Rightarrow> write_node w dst content)"

definition rename_node :: "fs \<Rightarrow> loc \<Rightarrow> node \<Rightarrow> loc \<Rightarrow> node option \<Rightarrow> io_error + fs" where
  "rename_node t src n dst m =
     (if src = dst then Inr t
      else if prefix src dst then Inl InvalidInput
      else (case n of
              Directory _ \<Rightarrow>
                (case m of
                   None \<Rightarrow> Inr (fs_move src dst t)
                 | Some (Directory _) \<Rightarrow>
                     if has_child t dst then Inl DirectoryNotEmpty else Inr (fs_move src dst t)
                 | Some _ \<Rightarrow> Inl NotADirectory)
            | _ \<Rightarrow> if is_directory m then Inl IsADirectory else Inr (fs_move src dst t)))"

definition fs_rename :: "string \<Rightarrow> string \<Rightarrow> (io_error, unit) act" where
  "fs_rename a b = syscall (\<lambda>w.
     case resolve w False a of
       Inl e \<Rightarrow> Inl e
     | Inr (src, n) \<Rightarrow>
         (case walk_path w False b of
            Inl e \<Rightarrow> Inl e
          | Inr (dst, m) \<Rightarrow> rename_node (w_fs w) src n dst m))"

definition fs_remove_file :: "string \<Rightarrow> (io_error, unit) act" where
  "fs_remove_file p = syscall (\<lambda>w.
     case resolve w False p of
       Inl e \<Rightarrow> Inl e
     | Inr (l, Directory _) \<Rightarrow> Inl IsADirectory
     | Inr (l, _) \<Rightarrow> Inr (fs_remove l (w_fs w)))"

definition fs_remove_dir :: "string \<Rightarrow> (io_error, unit) act" where
  "fs_remove_dir p = syscall (\<lambda>w.
     case resolve w False p of
       Inl e \<Rightarrow> Inl e
     | Inr (l, Directory _) \<Rightarrow>
         if has_child (w_fs w) l then Inl DirectoryNotEmpty
         else if l = [] then Inl InvalidInput
         else Inr (fs_remove l (w_fs w))
     | Inr (l, _) \<Rightarrow> Inl NotADirectory)"

text \<open>\<^verbatim>\<open>fs::create_dir_all\<close>: try the directory, create the missing parents, try again; an error is
  ignored when the path turns out to be a directory.\<close>

function create_dir_all :: "string \<Rightarrow> world \<Rightarrow> (io_error + unit) \<times> world" where
  "create_dir_all p w =
     (if p = [] then (Inr (), w)
      else (case fs_create_dir p w of
              (Inr _, w1) \<Rightarrow> (Inr (), w1)
            | (Inl e, w1) \<Rightarrow>
                if e \<noteq> NotFound then (if path_is_dir w1 p then (Inr (), w1) else (Inl e, w1))
                else (case parent p of
                        None \<Rightarrow> (Inl e, w1)
                      | Some d \<Rightarrow>
                          (case create_dir_all d w1 of
                             (Inl e2, w2) \<Rightarrow> (Inl e2, w2)
                           | (Inr _, w2) \<Rightarrow>
                               (case fs_create_dir p w2 of
                                  (Inr _, w3) \<Rightarrow> (Inr (), w3)
                                | (Inl e3, w3) \<Rightarrow>
                                    if path_is_dir w3 p then (Inr (), w3) else (Inl e3, w3))))))"
  by pat_completeness auto
termination
  by (relation "measure (\<lambda>(p, w). length p)") (auto dest: parent_shorter)

declare create_dir_all.simps [simp del]

end
