(* ===== verification/Fs_Laws.thy ===== *)
theory Fs_Laws
  imports Filesystem
begin

text \<open>
  The laws of the file system and of world actions on which the components rest: lookups after each
  tree update, well-formed trees and their preservation by every system call, resolution of canonical
  paths, and a frame calculus: a locale for a reflexive and transitive relation between worlds, whose
  rules lift the relation from the primitive calls to any action composed of them.
\<close>

section \<open>Lookups after updates\<close>

lemma map_of_fs_remove [simp]: "map_of (fs_remove l t) = (map_of t)(l := None)"
  by (induction t) (auto simp: fs_remove_def fun_eq_iff)

lemma map_of_fs_put [simp]: "map_of (fs_put l n t) = (map_of t)(l \<mapsto> n)"
proof -
  have "map_of (fs_put l n t) = map_of (fs_remove l t @ [(l, n)])"
    by (simp add: fs_put_def fs_remove_def)
  also have "\<dots> = (map_of t)(l \<mapsto> n)"
    by (auto simp: fun_eq_iff map_add_def split: option.splits)
  finally show ?thesis .
qed

lemma keys_fs_remove: "set (map fst (fs_remove l t)) = set (map fst t) - {l}"
  by (auto simp: fs_remove_def)

lemma keys_fs_put: "set (map fst (fs_put l n t)) = insert l (set (map fst t))"
  by (auto simp: fs_put_def)

lemma distinct_fs_remove: "distinct (map fst t) \<Longrightarrow> distinct (map fst (fs_remove l t))"
  by (simp add: fs_remove_def distinct_map_filter)

lemma distinct_fs_put: "distinct (map fst t) \<Longrightarrow> distinct (map fst (fs_put l n t))"
  using distinct_fs_remove [of t l] keys_fs_remove [of l t]
  by (auto simp: fs_put_def fs_remove_def)

lemma map_of_map_keys:
  assumes "inj_on f (insert k (set (map fst t)))"
  shows "map_of (map (\<lambda>(k, n). (f k, n)) t) (f k) = map_of t k"
  using assms by (induction t) (auto simp: inj_on_def)

lemma map_of_map_keys_None:
  assumes "x \<notin> f ` set (map fst t)"
  shows "map_of (map (\<lambda>(k, n). (f k, n)) t) x = None"
  using assms by (induction t) auto

lemma has_child_iff: "has_child t l \<longleftrightarrow> (\<exists>k. strict_prefix l k \<and> map_of t k \<noteq> None)"
  by (auto simp: has_child_def map_of_eq_None_iff)

lemma rebase_inj:
  assumes "\<And>k. k \<in> K \<Longrightarrow> \<not> prefix dst k"
  shows "inj_on (rebase src dst) K"
proof (rule inj_onI)
  fix a b assume "a \<in> K" "b \<in> K" "rebase src dst a = rebase src dst b"
  with assms show "a = b"
    by (auto simp: rebase_def prefix_def split: if_splits)
qed

lemma map_of_fs_move:
  assumes free: "\<And>k. strict_prefix dst k \<Longrightarrow> map_of t k = None" and "\<not> prefix src dst"
  shows "map_of (fs_move src dst t) k =
     (if prefix dst k then map_of t (src @ drop (length dst) k)
      else if prefix src k then None else map_of t k)"
proof -
  let ?K = "set (map fst (fs_remove dst t))"
  have K: "\<not> prefix dst j" if "j \<in> ?K" for j
  proof
    assume "prefix dst j"
    moreover have "j \<noteq> dst" "map_of t j \<noteq> None"
      using that unfolding keys_fs_remove by (auto simp: map_of_eq_None_iff)
    ultimately show False using free by (auto simp: strict_prefix_def)
  qed
  have inj: "inj_on (rebase src dst) (insert j ?K)" if "\<not> prefix dst j" for j
    using that K by (intro rebase_inj) auto
  consider (new) j where "k = dst @ j" | (other) "\<not> prefix dst k" by (auto simp: prefix_def)
  then show ?thesis
  proof cases
    case new
    let ?s = "src @ j"
    show ?thesis
    proof (cases "prefix dst ?s")
      case False
      then have "map_of (fs_move src dst t) (rebase src dst ?s) = map_of (fs_remove dst t) ?s"
        unfolding fs_move_def using inj by (intro map_of_map_keys) auto
      moreover from False have "?s \<noteq> dst" by auto
      ultimately show ?thesis using new by (simp add: rebase_def)
    next
      case True
      have "map_of t ?s = None"
      proof (cases "?s = dst")
        case True
        with assms(2) show ?thesis by (metis prefixI)
      next
        case False
        with True show ?thesis by (intro free) (auto simp: strict_prefix_def)
      qed
      moreover have "k \<notin> rebase src dst ` ?K"
      proof
        assume "k \<in> rebase src dst ` ?K"
        then obtain i where i: "i \<in> ?K" "k = rebase src dst i" by blast
        with K new have "i = ?s" by (auto simp: rebase_def prefix_def split: if_splits)
        with K i True show False by blast
      qed
      then have "map_of (fs_move src dst t) k = None"
        unfolding fs_move_def by (rule map_of_map_keys_None)
      ultimately show ?thesis using new by simp
    qed
  next
    case other
    show ?thesis
    proof (cases "prefix src k")
      case True
      have "k \<notin> rebase src dst ` ?K"
        using other True by (auto simp: rebase_def prefix_def split: if_splits)
      then have "map_of (fs_move src dst t) k = None"
        unfolding fs_move_def by (rule map_of_map_keys_None)
      with True other show ?thesis by simp
    next
      case False
      then have "map_of (fs_move src dst t) (rebase src dst k) = map_of (fs_remove dst t) k"
        unfolding fs_move_def using inj other by (intro map_of_map_keys) auto
      moreover from other have "k \<noteq> dst" by auto
      ultimately show ?thesis using False other by (simp add: rebase_def)
    qed
  qed
qed

section \<open>Well-formed trees\<close>

definition tree_ok :: "(loc \<Rightarrow> node option) \<Rightarrow> bool" where
  "tree_ok m \<longleftrightarrow> is_directory (m [])
     \<and> (\<forall>l. m l \<noteq> None \<longrightarrow> valid_loc l)
     \<and> (\<forall>l. l \<noteq> [] \<longrightarrow> m l \<noteq> None \<longrightarrow> is_directory (m (butlast l)))"

definition wf_fs :: "fs \<Rightarrow> bool" where
  "wf_fs t \<longleftrightarrow> distinct (map fst t) \<and> tree_ok (map_of t)"

lemma is_directory_iff: "is_directory x \<longleftrightarrow> (\<exists>a. x = Some (Directory a))"
  by (cases x rule: is_directory.cases) auto

lemma wf_fs_tree: "wf_fs t \<Longrightarrow> tree_ok (map_of t)"
  by (simp add: wf_fs_def)

lemma wf_fs_distinct: "wf_fs t \<Longrightarrow> distinct (map fst t)"
  by (simp add: wf_fs_def)

lemma wf_fs_root: "wf_fs t \<Longrightarrow> is_directory (map_of t [])"
  using wf_fs_tree [of t] by (simp add: tree_ok_def)

lemma wf_fs_valid: "wf_fs t \<Longrightarrow> map_of t l \<noteq> None \<Longrightarrow> valid_loc l"
  using wf_fs_tree [of t] by (simp add: tree_ok_def)

lemma wf_fs_parent:
  "wf_fs t \<Longrightarrow> map_of t l \<noteq> None \<Longrightarrow> l \<noteq> [] \<Longrightarrow> is_directory (map_of t (butlast l))"
  using wf_fs_tree [of t] by (simp add: tree_ok_def)

lemma wf_fs_above:
  assumes "wf_fs t" and "map_of t l \<noteq> None" and "strict_prefix k l"
  shows "is_directory (map_of t k)"
  using assms(2,3)
proof (induction l rule: rev_induct)
  case Nil
  then show ?case by simp
next
  case (snoc x l)
  have dir: "is_directory (map_of t l)"
    using wf_fs_parent [OF assms(1) snoc.prems(1)] by simp
  show ?case
  proof (cases "k = l")
    case False
    with snoc.prems(2) have "strict_prefix k l"
      by (auto simp: strict_prefix_def prefix_snoc)
    moreover have "map_of t l \<noteq> None" using dir by (auto simp: is_directory_iff)
    ultimately show ?thesis by (intro snoc.IH)
  qed (use dir in simp)
qed

lemma wf_fs_no_child:
  assumes "wf_fs t" and "\<not> is_directory (map_of t l)" and "strict_prefix l k"
  shows "map_of t k = None"
  using assms wf_fs_above by blast

text \<open>A new entry needs an existing parent directory and a proper name.\<close>

definition slot :: "fs \<Rightarrow> loc \<Rightarrow> bool" where
  "slot t l \<longleftrightarrow> valid_loc l \<and> l \<noteq> [] \<and> is_directory (map_of t (butlast l))"

lemma wf_fs_slot: "wf_fs t \<Longrightarrow> map_of t l \<noteq> None \<Longrightarrow> l \<noteq> [] \<Longrightarrow> slot t l"
  by (simp add: slot_def wf_fs_valid wf_fs_parent)

lemma butlast_neq: "l \<noteq> [] \<Longrightarrow> butlast l \<noteq> l"
  by (metis append_butlast_last_id append_self_conv2 not_Cons_self2 self_append_conv)

lemma strict_prefix_butlast: "l \<noteq> [] \<Longrightarrow> strict_prefix (butlast l) l"
  by (metis append_butlast_last_id prefixI strict_prefix_def butlast_neq)

lemma wf_fs_put:
  assumes "wf_fs t" and "slot t l" and "is_directory (map_of t l) \<longrightarrow> is_directory (Some n)"
  shows "wf_fs (fs_put l n t)"
proof -
  have "tree_ok ((map_of t)(l \<mapsto> n))"
    unfolding tree_ok_def
  proof (intro conjI allI impI)
    show "is_directory (((map_of t)(l \<mapsto> n)) [])"
      using assms wf_fs_root by (auto simp: slot_def)
  next
    fix k assume "((map_of t)(l \<mapsto> n)) k \<noteq> None"
    then show "valid_loc k" using assms wf_fs_valid by (auto simp: slot_def split: if_splits)
  next
    fix k assume k: "k \<noteq> []" "((map_of t)(l \<mapsto> n)) k \<noteq> None"
    have "is_directory (map_of t (butlast k))"
      using k assms wf_fs_parent by (cases "k = l") (auto simp: slot_def)
    then show "is_directory (((map_of t)(l \<mapsto> n)) (butlast k))"
      using assms(3) by (cases "butlast k = l") auto
  qed
  then show ?thesis
    unfolding wf_fs_def using distinct_fs_put [OF wf_fs_distinct [OF assms(1)]] by simp
qed

lemma wf_fs_remove:
  assumes "wf_fs t" and "l \<noteq> []" and "\<not> has_child t l"
  shows "wf_fs (fs_remove l t)"
proof -
  have "butlast k \<noteq> l" if "k \<noteq> []" "map_of t k \<noteq> None" for k
    using that assms(3) strict_prefix_butlast [OF that(1)] by (auto simp: has_child_iff)
  then have "tree_ok ((map_of t)(l := None))"
    using wf_fs_tree [OF assms(1)] assms(2) by (auto simp: tree_ok_def) (metis not_Some_eq)
  then show ?thesis
    unfolding wf_fs_def using distinct_fs_remove [OF wf_fs_distinct [OF assms(1)]] by simp
qed

lemma not_prefix_butlast: "l \<noteq> [] \<Longrightarrow> \<not> prefix l (butlast l)"
  by (meson prefix_order.leD strict_prefix_butlast)

lemma not_prefix_butlastI: "\<not> prefix a b \<Longrightarrow> \<not> prefix a (butlast b)"
  by (meson prefix_order.trans prefixeq_butlast)

lemma distinct_fs_move:
  assumes "wf_fs t" and "\<And>k. strict_prefix dst k \<Longrightarrow> map_of t k = None"
  shows "distinct (map fst (fs_move src dst t))"
proof -
  have keys: "map fst (fs_move src dst t) = map (rebase src dst) (map fst (fs_remove dst t))"
    by (auto simp: fs_move_def)
  have "\<not> prefix dst k" if "k \<in> set (map fst (fs_remove dst t))" for k
  proof -
    have "k \<noteq> dst" "map_of t k \<noteq> None"
      using that unfolding keys_fs_remove by (auto simp: map_of_eq_None_iff)
    with assms(2) show ?thesis by (auto simp: strict_prefix_def)
  qed
  then have "inj_on (rebase src dst) (set (map fst (fs_remove dst t)))"
    by (rule rebase_inj)
  then show ?thesis
    using distinct_fs_remove [OF wf_fs_distinct [OF assms(1)]] distinct_map [of "rebase src dst"]
    by (metis keys)
qed

lemma wf_fs_move:
  assumes wf: "wf_fs t" and src: "map_of t src \<noteq> None" "src \<noteq> []"
    and dst: "slot t dst" "\<And>k. strict_prefix dst k \<Longrightarrow> map_of t k = None"
    and np: "\<not> prefix src dst"
  shows "wf_fs (fs_move src dst t)"
proof -
  let ?m = "map_of (fs_move src dst t)"
  note lookup = map_of_fs_move [OF dst(2) np]
  have dst_ne: "dst \<noteq> []" and dst_valid: "valid_loc dst" using dst(1) by (auto simp: slot_def)
  have "tree_ok ?m"
    unfolding tree_ok_def
  proof (intro conjI allI impI)
    show "is_directory (?m [])"
      using lookup [of "[]"] dst_ne src(2) wf_fs_root [OF wf] by simp
  next
    fix k assume k: "?m k \<noteq> None"
    show "valid_loc k"
    proof (cases "prefix dst k")
      case True
      then obtain j where j: "k = dst @ j" by (auto simp: prefix_def)
      with k lookup [of k] have "valid_loc (src @ j)" by (intro wf_fs_valid [OF wf]) simp
      with j dst_valid show ?thesis by (simp add: valid_loc_def)
    next
      case False
      with k lookup [of k] show ?thesis by (intro wf_fs_valid [OF wf]) (auto split: if_splits)
    qed
  next
    fix k assume k: "k \<noteq> []" "?m k \<noteq> None"
    show "is_directory (?m (butlast k))"
    proof (cases "prefix dst k")
      case True
      then obtain j where j: "k = dst @ j" by (auto simp: prefix_def)
      show ?thesis
      proof (cases "j = []")
        case True
        with j dst(1) lookup [of "butlast dst"] not_prefix_butlast [OF dst_ne]
          not_prefix_butlastI [OF np]
        show ?thesis by (simp add: slot_def)
      next
        case False
        with j k(2) lookup [of k] have "map_of t (src @ j) \<noteq> None" by simp
        with False src(2) have "is_directory (map_of t (src @ butlast j))"
          using wf_fs_parent [OF wf, of "src @ j"] by (simp add: butlast_append)
        with False j lookup [of "butlast k"] show ?thesis by (simp add: butlast_append)
      qed
    next
      case False
      with k(2) lookup [of k] have s: "\<not> prefix src k" and "map_of t k \<noteq> None"
        by (auto split: if_splits)
      with k(1) have "is_directory (map_of t (butlast k))" by (intro wf_fs_parent [OF wf])
      with lookup [of "butlast k"] not_prefix_butlastI [OF False] not_prefix_butlastI [OF s]
      show ?thesis by simp
    qed
  qed
  then show ?thesis
    unfolding wf_fs_def using distinct_fs_move [OF wf dst(2)] by blast
qed

section \<open>Resolution\<close>

fun is_link :: "node option \<Rightarrow> bool" where
  "is_link (Some (Symlink t a)) = True"
| "is_link _ = False"

lemma is_link_iff: "is_link x \<longleftrightarrow> (\<exists>t a. x = Some (Symlink t a))"
  by (cases x rule: is_link.cases) auto

lemma dir_not_link: "is_directory x \<Longrightarrow> \<not> is_link x"
  by (auto simp: is_directory_iff)

lemma walk_Nil: "walk t n cur [] follow = Inr (cur, map_of t cur)"
  by (simp add: walk.simps)

lemma walk_junk: "is_directory (map_of t cur) \<Longrightarrow> junk c \<Longrightarrow>
    walk t n cur (c # cs) follow = walk t n cur cs follow"
  by (simp add: walk.simps(2) [of t n cur c])

lemma walk_up: "is_directory (map_of t cur) \<Longrightarrow>
    walk t n cur (''..'' # cs) follow = walk t n (butlast cur) cs follow"
  by (simp add: walk.simps(2) [of t n cur "''..''"] junk_def)

lemma walk_not_dir: "\<not> is_directory (map_of t cur) \<Longrightarrow>
    walk t n cur (c # cs) follow = Inl NotADirectory"
  by (simp add: walk.simps(2) [of t n cur c])

lemma walk_step: "is_directory (map_of t cur) \<Longrightarrow> valid_name c \<Longrightarrow>
    map_of t (cur @ [c]) = Some nd \<Longrightarrow> \<not> is_link (Some nd) \<Longrightarrow>
    walk t n cur (c # cs) follow = walk t n (cur @ [c]) cs follow"
  by (cases nd) (auto simp: walk.simps(2) [of t n cur c] valid_name_def junk_def)

lemma walk_missing: "is_directory (map_of t cur) \<Longrightarrow> valid_name c \<Longrightarrow>
    map_of t (cur @ [c]) = None \<Longrightarrow>
    walk t n cur (c # cs) follow = (if cs = [] then Inr (cur @ [c], None) else Inl NotFound)"
  by (auto simp: walk.simps(2) [of t n cur c] valid_name_def junk_def)

lemma walk_last_link: "is_directory (map_of t cur) \<Longrightarrow> valid_name c \<Longrightarrow>
    is_link (map_of t (cur @ [c])) \<Longrightarrow>
    walk t n cur [c] False = Inr (cur @ [c], map_of t (cur @ [c]))"
  by (auto simp: walk.simps(2) [of t n cur c] valid_name_def junk_def is_link_iff)

lemmas walk_laws = walk_Nil walk_junk walk_up walk_not_dir walk_step walk_missing walk_last_link

text \<open>The successful walks as a relation, one rule per kind of step; properties of \<^const>\<open>walk\<close>
  follow by rule induction.\<close>

inductive walks :: "fs \<Rightarrow> bool \<Rightarrow> nat \<Rightarrow> loc \<Rightarrow> string list \<Rightarrow> loc \<Rightarrow> node option \<Rightarrow> bool"
  for t :: fs and follow :: bool where
  here: "walks t follow n cur [] cur (map_of t cur)"
| skip: "is_directory (map_of t cur) \<Longrightarrow> junk c \<Longrightarrow> walks t follow n cur cs l nd \<Longrightarrow>
    walks t follow n cur (c # cs) l nd"
| up: "is_directory (map_of t cur) \<Longrightarrow> walks t follow n (butlast cur) cs l nd \<Longrightarrow>
    walks t follow n cur (''..'' # cs) l nd"
| missing: "is_directory (map_of t cur) \<Longrightarrow> \<not> junk c \<Longrightarrow> c \<noteq> ''..'' \<Longrightarrow>
    map_of t (cur @ [c]) = None \<Longrightarrow> walks t follow n cur [c] (cur @ [c]) None"
| last_link: "is_directory (map_of t cur) \<Longrightarrow> \<not> junk c \<Longrightarrow> c \<noteq> ''..'' \<Longrightarrow>
    map_of t (cur @ [c]) = Some (Symlink target a) \<Longrightarrow> \<not> follow \<Longrightarrow>
    walks t follow n cur [c] (cur @ [c]) (Some (Symlink target a))"
| link: "is_directory (map_of t cur) \<Longrightarrow> \<not> junk c \<Longrightarrow> c \<noteq> ''..'' \<Longrightarrow>
    map_of t (cur @ [c]) = Some (Symlink target a) \<Longrightarrow> cs \<noteq> [] \<or> follow \<Longrightarrow>
    walks t follow n (if has_root target then [] else cur) (segments target @ cs) l nd \<Longrightarrow>
    walks t follow (Suc n) cur (c # cs) l nd"
| step: "is_directory (map_of t cur) \<Longrightarrow> \<not> junk c \<Longrightarrow> c \<noteq> ''..'' \<Longrightarrow>
    map_of t (cur @ [c]) = Some nd' \<Longrightarrow> \<not> is_link (Some nd') \<Longrightarrow>
    walks t follow n (cur @ [c]) cs l nd \<Longrightarrow> walks t follow n cur (c # cs) l nd"

lemma walk_walks: "walk t n cur segs follow = Inr (l, nd) \<Longrightarrow> walks t follow n cur segs l nd"
proof (induction t n cur segs follow rule: walk.induct)
  case (1 t n cur follow)
  then show ?case by (auto simp: walk_Nil intro: walks.here)
next
  case (2 t n cur c cs follow)
  from "2.prems" have dir: "is_directory (map_of t cur)"
    by (auto simp: walk.simps(2) [of t n cur c cs] split: if_splits)
  show ?case
  proof (cases "junk c \<or> c = ''..''")
    case True
    then consider "junk c" | "c = ''..''" "\<not> junk c" by blast
    then show ?thesis
    proof cases
      case 1
      with dir "2.prems" have "walk t n cur cs follow = Inr (l, nd)" by (simp add: walk_junk)
      with 1 dir "2.IH"(1) show ?thesis by (auto intro: walks.skip)
    next
      case 2
      with dir "2.prems" have "walk t n (butlast cur) cs follow = Inr (l, nd)" by (simp add: walk_up)
      with 2 dir "2.IH"(2) show ?thesis by (auto intro: walks.up)
    qed
  next
    case False
    then have c: "\<not> junk c" "c \<noteq> ''..''" by auto
    note unf = walk.simps(2) [of t n cur c cs follow]
    show ?thesis
    proof (cases "map_of t (cur @ [c])")
      case None
      with dir c "2.prems" unf have "cs = []" "l = cur @ [c]" "nd = None"
        by (auto split: if_splits)
      with None dir c show ?thesis by (auto intro: walks.missing)
    next
      case (Some nd')
      show ?thesis
      proof (cases "is_link (Some nd')")
        case True
        then obtain target a where nd': "nd' = Symlink target a" by (auto simp: is_link_iff)
        show ?thesis
        proof (cases "cs = [] \<and> \<not> follow")
          case True
          with Some nd' dir c "2.prems" unf have "l = cur @ [c]" "nd = Some (Symlink target a)" by auto
          with True Some nd' dir c show ?thesis by (auto intro: walks.last_link)
        next
          case False
          with Some nd' dir c "2.prems" unf have "n \<noteq> 0"
            and "walk t (n - 1) (if has_root target then [] else cur) (segments target @ cs) follow
              = Inr (l, nd)"
            by (auto split: if_splits)
          with "2.IH"(5) [OF _ _ _ Some nd'] dir c False
          have "walks t follow (n - 1) (if has_root target then [] else cur) (segments target @ cs) l nd"
            by simp
          with \<open>n \<noteq> 0\<close> Some nd' dir c False show ?thesis
            using walks.link [of t cur c target a cs follow "n - 1" l nd] by auto
        qed
      next
        case False
        then have "walk t n (cur @ [c]) cs follow = Inr (l, nd)"
          using Some dir c "2.prems" unf by (cases nd') auto
        moreover have "walk t n (cur @ [c]) cs follow = Inr (l, nd) \<Longrightarrow>
            walks t follow n (cur @ [c]) cs l nd"
          using False Some dir c "2.IH"(3,4,6) by (cases nd') auto
        ultimately show ?thesis using False Some dir c by (auto intro: walks.step)
      qed
    qed
  qed
qed

text \<open>The walk reports what the tree holds at the location it returns; following the last link, it
  never ends at a link; where it reports a missing entry, one can be created.\<close>

lemma walks_lookup: "walks t follow n cur segs l nd \<Longrightarrow> nd = map_of t l"
  by (induction rule: walks.induct) auto

lemma walks_not_link:
  assumes "walks t True n cur segs l nd" and wf: "wf_fs t" and "\<not> is_link (map_of t cur)"
  shows "\<not> is_link nd"
  using assms(1,3)
proof (induction rule: walks.induct)
  case (up cur n cs l nd)
  have "\<not> is_link (map_of t (butlast cur))"
    using up.hyps(1) wf_fs_parent [OF wf, of cur] dir_not_link
    by (cases "cur = []") (auto simp: is_directory_iff)
  then show ?case by (rule up.IH)
next
  case (link cur c target a cs n l nd)
  have "\<not> is_link (map_of t (if has_root target then [] else cur))"
    using link.prems dir_not_link [OF wf_fs_root [OF wf]] by simp
  then show ?case by (rule link.IH)
qed auto

lemma walks_slot:
  assumes "walks t follow n cur segs l nd" and wf: "wf_fs t" and "map_of t cur \<noteq> None"
    and "\<forall>s \<in> set segs. CHR ''/'' \<notin> set s"
  shows "l = [] \<or> slot t l"
  using assms(1,3,4)
proof (induction rule: walks.induct)
  case (here n cur)
  then show ?case using wf_fs_slot [OF wf] by blast
next
  case (up cur n cs l nd)
  have "map_of t (butlast cur) \<noteq> None"
    using up.hyps(1) wf_fs_parent [OF wf, of cur] by (cases "cur = []") (auto simp: is_directory_iff)
  then show ?case using up by simp
next
  case (missing cur c n)
  then show ?case
    using wf_fs_valid [OF wf, of cur]
    by (auto simp: slot_def valid_loc_def valid_name_def junk_def)
next
  case (last_link cur c target a n)
  then show ?case using wf_fs_slot [OF wf, of "cur @ [c]"] by simp
next
  case (link cur c target a cs n l nd)
  have "map_of t (if has_root target then [] else cur) \<noteq> None"
    using link.prems wf_fs_root [OF wf] by (auto simp: is_directory_iff)
  moreover have "\<forall>s \<in> set (segments target @ cs). CHR ''/'' \<notin> set s"
    using link.prems by (auto dest: split_on_segments [where c = "CHR ''/''"])
  ultimately show ?case by (rule link.IH)
qed auto

lemmas walk_lookup = walks_lookup [OF walk_walks]
lemmas walk_follow_not_link = walks_not_link [OF walk_walks]
lemmas walk_slot = walks_slot [OF walk_walks]

lemma walk_ok_dir: "walk t n cur segs follow = Inr r \<Longrightarrow> segs \<noteq> [] \<Longrightarrow> is_directory (map_of t cur)"
  by (cases segs) (auto simp: walk_not_dir, metis Inl_Inr_False walk_not_dir)

lemma walk_path_lookup: "walk_path w follow p = Inr (l, nd) \<Longrightarrow> nd = map_of (w_fs w) l"
  by (auto simp: walk_path_def split: if_splits dest: walk_lookup)

lemma walk_path_slot:
  assumes "walk_path w follow p = Inr (l, nd)" and wf: "wf_fs (w_fs w)"
  shows "l = [] \<or> slot (w_fs w) l"
proof -
  let ?cur = "if has_root p then [] else w_cwd w"
  have ok: "walk (w_fs w) max_links ?cur (segments p) follow = Inr (l, nd)"
    using assms(1) by (simp add: walk_path_def split: if_splits)
  then have "map_of (w_fs w) ?cur \<noteq> None"
    using walk_ok_dir by (metis is_directory.simps(2) split_on_ne)
  then show ?thesis
    using walk_slot [OF ok wf] by (metis is_sep_slash split_on_segments)
qed

lemma walk_path_not_link:
  assumes "walk_path w True p = Inr (l, nd)" and wf: "wf_fs (w_fs w)"
  shows "\<not> is_link nd"
proof -
  let ?cur = "if has_root p then [] else w_cwd w"
  have ok: "walk (w_fs w) max_links ?cur (segments p) True = Inr (l, nd)"
    using assms(1) by (simp add: walk_path_def split: if_splits)
  then have "\<not> is_link (map_of (w_fs w) ?cur)"
    using walk_ok_dir dir_not_link by (metis split_on_ne)
  then show ?thesis using walk_follow_not_link [OF ok wf] by blast
qed

text \<open>A path without links resolves to itself.\<close>

lemma walk_real_append:
  assumes "\<And>k. prefix k l \<Longrightarrow> is_directory (map_of t (cur @ k))" and "valid_loc l"
  shows "walk t n cur (l @ cs) follow = walk t n (cur @ l) cs follow"
  using assms
proof (induction l arbitrary: cur)
  case (Cons c l)
  have "is_directory (map_of t cur)" using Cons.prems(1) [of "[]"] by simp
  moreover have dir: "is_directory (map_of t (cur @ [c]))" using Cons.prems(1) [of "[c]"] by simp
  then obtain a where "map_of t (cur @ [c]) = Some (Directory a)" by (auto simp: is_directory_iff)
  moreover have "valid_name c" and "valid_loc l" using Cons.prems(2) by (auto simp: valid_loc_def)
  ultimately have "walk t n cur ((c # l) @ cs) follow = walk t n (cur @ [c]) (l @ cs) follow"
    by (simp add: walk_step)
  also have "\<dots> = walk t n ((cur @ [c]) @ l) cs follow"
    using Cons.prems(1) \<open>valid_loc l\<close> by (intro Cons.IH) (simp_all add: Cons_prefix_Cons)
  finally show ?case by simp
qed simp

lemma walk_dir_append:
  assumes wf: "wf_fs t" and dir: "is_directory (map_of t l)"
  shows "walk t n [] (l @ cs) follow = walk t n l cs follow"
proof -
  have some: "map_of t l \<noteq> None" using dir by (auto simp: is_directory_iff)
  have "is_directory (map_of t k)" if "prefix k l" for k
    using that dir wf_fs_above [OF wf some, of k] by (cases "k = l") (auto simp: strict_prefix_def)
  then show ?thesis
    using walk_real_append [of l t "[]" n cs follow] wf_fs_valid [OF wf some] by simp
qed

definition real_end :: "fs \<Rightarrow> bool \<Rightarrow> loc \<Rightarrow> bool" where
  "real_end t follow l \<longleftrightarrow> (l = [] \<or> slot t l) \<and> (follow \<longrightarrow> \<not> is_link (map_of t l))"

lemma walk_path_of_loc:
  assumes wf: "wf_fs (w_fs w)" and l: "real_end (w_fs w) follow l"
  shows "walk_path w follow (path_of_loc l) = Inr (l, map_of (w_fs w) l)"
proof (cases "l = []")
  case True
  then show ?thesis
    using wf_fs_root [OF wf]
    by (simp add: walk_path_def path_of_loc_def segments_root walk_junk walk_Nil is_sep_def)
next
  case False
  let ?t = "w_fs w"
  obtain d c where dc: "l = d @ [c]" using False by (metis append_butlast_last_id)
  from l False dc have "slot ?t (d @ [c])" by (simp add: real_end_def)
  then have v: "valid_loc l" "valid_name c" and dir: "is_directory (map_of ?t d)"
    using dc by (auto simp: slot_def valid_loc_def)
  have "walk_path w follow (path_of_loc l) = walk ?t max_links [] ([] # d @ [c]) follow"
    using segments_path_of_loc [OF v(1) False] dc by (simp add: walk_path_def)
  also have "\<dots> = walk ?t max_links d [c] follow"
    using walk_junk [OF wf_fs_root [OF wf]] walk_dir_append [OF wf dir] by simp
  also have "\<dots> = Inr (l, map_of ?t l)"
  proof (cases "map_of ?t l")
    case None
    with dir v dc show ?thesis by (simp add: walk_missing)
  next
    case (Some nd)
    show ?thesis
    proof (cases "is_link (Some nd)")
      case True
      with l Some have "follow = False" by (auto simp: real_end_def)
      with True Some dir v dc show ?thesis by (simp add: walk_last_link)
    next
      case False
      with Some dir v dc show ?thesis by (simp add: walk_step walk_Nil)
    qed
  qed
  finally show ?thesis .
qed

lemma resolve_path_of_loc:
  assumes "wf_fs (w_fs w)" and "map_of (w_fs w) l = Some nd" and "follow \<longrightarrow> \<not> is_link (Some nd)"
  shows "resolve w follow (path_of_loc l) = Inr (l, nd)"
proof -
  have "real_end (w_fs w) follow l"
    using assms wf_fs_slot by (cases "l = []") (auto simp: real_end_def)
  with assms show ?thesis by (simp add: resolve_def walk_path_of_loc)
qed

lemma resolve_walk: "resolve w follow p = Inr (l, nd) \<longleftrightarrow> walk_path w follow p = Inr (l, Some nd)"
  by (auto simp: resolve_def split: sum.splits option.splits)

lemma resolve_lookup: "resolve w follow p = Inr (l, nd) \<Longrightarrow> map_of (w_fs w) l = Some nd"
  by (auto simp: resolve_walk dest!: walk_path_lookup)

lemma resolve_not_link:
  "resolve w True p = Inr (l, nd) \<Longrightarrow> wf_fs (w_fs w) \<Longrightarrow> \<not> is_link (Some nd)"
  by (simp add: resolve_walk walk_path_not_link)

lemma walk_join_path:
  assumes wf: "wf_fs (w_fs w)" and dir: "is_directory (map_of (w_fs w) r)" and "\<not> has_root rel"
  shows "walk_path w follow (join_path (path_of_loc r) rel)
    = walk (w_fs w) max_links r (segments rel) follow"
proof -
  have v: "valid_loc r"
    using dir wf_fs_valid [OF wf] by (metis is_directory.simps(2))
  let ?p = "join_path (path_of_loc r) rel"
  have "segments ?p = [] # r @ segments rel \<and> has_root ?p \<and> ?p \<noteq> []"
  proof (cases "r = []")
    case True
    then show ?thesis
      using assms(3) by (simp add: join_path_def path_of_loc_def segments_root)
  next
    case False
    obtain d c where dc: "r = d @ [c]" using False by (metis append_butlast_last_id)
    with v have "valid_name c" by (simp add: valid_loc_def)
    then have "last (path_of_loc r) \<noteq> CHR ''/''"
      using dc last_in_set [of c] by (auto simp: path_of_loc_snoc valid_name_def simp del: last_in_set)
    then have "?p = path_of_loc r @ CHR ''/'' # rel"
      using assms(3) by (simp add: join_path_def is_sep_def)
    with segments_path_of_loc [OF v False] show ?thesis
      by (simp add: segments_append_sep has_root_append)
  qed
  then show ?thesis
    using walk_junk [OF wf_fs_root [OF wf]] walk_dir_append [OF wf dir]
    by (simp add: walk_path_def)
qed

section \<open>Actions and frames\<close>

lemma bindA_simps [simp]:
  "m w = (Inl e, w1) \<Longrightarrow> bindA m f w = (Inl e, w1)"
  "m w = (Inr x, w1) \<Longrightarrow> bindA m f w = f x w1"
  by (simp_all add: bindA_def)

lemma basic_actions [simp]:
  "returnA x w = (Inr x, w)" "throwA e w = (Inl e, w)" "readA f w = (f w, w)"
  by (simp_all add: returnA_def throwA_def readA_def)

lemma bindA_Inr_iff:
  "bindA m f w = (Inr y, w') \<longleftrightarrow> (\<exists>x w1. m w = (Inr x, w1) \<and> f x w1 = (Inr y, w'))"
  by (auto simp: bindA_def split: prod.splits sum.splits)

lemma bindA_Inl_iff:
  "bindA m f w = (Inl e, w') \<longleftrightarrow>
     m w = (Inl e, w') \<or> (\<exists>x w1. m w = (Inr x, w1) \<and> f x w1 = (Inl e, w'))"
  by (auto simp: bindA_def split: prod.splits sum.splits)

lemma map_errA_iff:
  "map_errA g m w = (r, w') \<longleftrightarrow> (\<exists>r0. m w = (r0, w') \<and> r = map_err g r0)"
  by (auto simp: map_errA_def split: prod.splits)

lemma tryA_iff: "tryA m w = (r, w') \<longleftrightarrow> (\<exists>r0. m w = (r0, w') \<and> r = Inr r0)"
  by (auto simp: tryA_def split: prod.splits)

lemma map_errA_Inr_iff: "map_errA g m w = (Inr y, w') \<longleftrightarrow> m w = (Inr y, w')"
  by (auto simp: map_errA_def map_err_def split: prod.splits sum.splits)

lemma map_errA_Inl_iff: "map_errA g m w = (Inl e, w') \<longleftrightarrow> (\<exists>e0. m w = (Inl e0, w') \<and> e = g e0)"
  by (auto simp: map_errA_def map_err_def split: prod.splits sum.splits)

lemmas action_iffs = bindA_Inr_iff bindA_Inl_iff map_errA_Inr_iff map_errA_Inl_iff tryA_iff

definition keeps :: "(world \<Rightarrow> world \<Rightarrow> bool) \<Rightarrow> ('e, 'a) act \<Rightarrow> bool" where
  "keeps R m \<longleftrightarrow> (\<forall>w. R w (snd (m w)))"

lemma keepsD: "keeps R m \<Longrightarrow> m w = (r, w') \<Longrightarrow> R w w'"
  by (metis keeps_def snd_conv)

lemma keepsI: "(\<And>w r w'. m w = (r, w') \<Longrightarrow> R w w') \<Longrightarrow> keeps R m"
  by (metis keeps_def prod.collapse)

locale world_frame =
  fixes R :: "world \<Rightarrow> world \<Rightarrow> bool"
  assumes refl: "R w w"
    and trans: "R u v \<Longrightarrow> R v w \<Longrightarrow> R u w"
begin

lemma keeps_return: "keeps R (returnA x)"
  by (simp add: keeps_def refl)

lemma keeps_throw: "keeps R (throwA e)"
  by (simp add: keeps_def refl)

lemma keeps_read: "keeps R (readA f)"
  by (simp add: keeps_def refl)

lemma keeps_bind: "keeps R m \<Longrightarrow> (\<And>x. keeps R (f x)) \<Longrightarrow> keeps R (bindA m f)"
  by (rule keepsI) (auto simp: bindA_def split: prod.splits sum.splits intro: trans dest: keepsD)

lemma keeps_map_err: "keeps R m \<Longrightarrow> keeps R (map_errA g m)"
  by (rule keepsI) (auto simp: map_errA_iff dest: keepsD)

lemma keeps_try: "keeps R m \<Longrightarrow> keeps R (tryA m)"
  by (rule keepsI) (auto simp: tryA_iff dest: keepsD)

lemma keeps_create_dir_all:
  assumes "\<And>p. keeps R (fs_create_dir p)"
  shows "keeps R (create_dir_all p)"
proof (rule keepsI)
  fix w r w'
  show "create_dir_all p w = (r, w') \<Longrightarrow> R w w'"
  proof (induction p w arbitrary: r w' rule: create_dir_all.induct)
    case (1 p w)
    have mk: "fs_create_dir q u = (x, v) \<Longrightarrow> R u v" for q u x v
      using assms by (rule keepsD)
    have ih: "create_dir_all d u = (x, v) \<Longrightarrow> R u v"
      if "fs_create_dir p w = (Inl NotFound, u)" "parent p = Some d" "p \<noteq> []" for d u x v
      by (rule "1.IH") (use that in auto)
    show ?case
      using "1.prems" refl
      by (auto simp: create_dir_all.simps [of p w]
          split: if_splits prod.splits sum.splits option.splits)
        (metis mk ih trans)+
  qed
qed

text \<open>If a whole run is not in the relation, its first step succeeded and the rest is not in it.\<close>

lemma bind_breaks:
  assumes "bindA m f w = (r, w')" "keeps R m" "\<not> R w w'"
  obtains x w1 where "m w = (Inr x, w1)" "f x w1 = (r, w')" "\<not> R w1 w'" "R w w1"
  using assms by (cases "m w") (auto simp: bindA_def split: sum.splits dest: keepsD intro: trans)

lemmas keeps_rules = keeps_return keeps_throw keeps_read keeps_bind keeps_map_err keeps_try

end

text \<open>What no action changes: the fault schedule, the clock, the stamps and the working directory.\<close>

definition same_env :: "world \<Rightarrow> world \<Rightarrow> bool" where
  "same_env w w' \<longleftrightarrow> w_cwd w' = w_cwd w \<and> w_fails w' = w_fails w \<and> w_clock w' = w_clock w
     \<and> w_stamp w' = w_stamp w"

definition same_dbs :: "world \<Rightarrow> world \<Rightarrow> bool" where
  "same_dbs w w' \<longleftrightarrow> w_dbs w' = w_dbs w"

definition stays_wf :: "world \<Rightarrow> world \<Rightarrow> bool" where
  "stays_wf w w' \<longleftrightarrow> (wf_fs (w_fs w) \<longrightarrow> wf_fs (w_fs w'))"

interpretation env: world_frame same_env
  by unfold_locales (auto simp: same_env_def)

interpretation dbs: world_frame same_dbs
  by unfold_locales (auto simp: same_dbs_def)

interpretation wf: world_frame stays_wf
  by unfold_locales (auto simp: stays_wf_def)

section \<open>System calls\<close>

lemma syscall_Inl:
  "syscall f w = (Inl e, w') \<Longrightarrow> w' = w\<lparr>w_tick := Suc (w_tick w)\<rparr>"
  by (auto simp: syscall_def Let_def split: if_splits sum.splits)

lemma syscall_Inr:
  "syscall f w = (Inr u, w') \<Longrightarrow>
     \<not> w_fails w (w_tick w) \<and> (\<exists>t. f w = Inr t \<and> w' = w\<lparr>w_tick := Suc (w_tick w), w_fs := t\<rparr>)"
  by (auto simp: syscall_def Let_def split: if_splits sum.splits)

lemma syscall_ok:
  "\<not> w_fails w (w_tick w) \<Longrightarrow> f w = Inr t \<Longrightarrow>
     syscall f w = (Inr (), w\<lparr>w_tick := Suc (w_tick w), w_fs := t\<rparr>)"
  by (simp add: syscall_def)

lemma syscall_err:
  "\<not> w_fails w (w_tick w) \<Longrightarrow> f w = Inl e \<Longrightarrow>
     syscall f w = (Inl e, w\<lparr>w_tick := Suc (w_tick w)\<rparr>)"
  by (simp add: syscall_def)

text \<open>A relation that depends on trees only is kept by a system call when every tree the call can
  produce is related to the old one.\<close>

lemma keeps_syscall:
  assumes "\<And>w n. R w (w\<lparr>w_tick := n\<rparr>)"
    and "\<And>w n t. f w = Inr t \<Longrightarrow> R w (w\<lparr>w_tick := n, w_fs := t\<rparr>)"
  shows "keeps R (syscall f)"
proof (rule keepsI)
  fix w r w' assume "syscall f w = (r, w')"
  then show "R w w'"
    using assms by (cases r) (auto dest!: syscall_Inl syscall_Inr)
qed

lemma syscall_env: "keeps same_env (syscall f)" "keeps same_dbs (syscall f)"
  by (rule keeps_syscall; simp add: same_env_def same_dbs_def)+

lemma clock_env: "keeps same_env unix_ms" "keeps same_dbs unix_ms" "keeps stays_wf unix_ms"
    "keeps same_env unix_nanos" "keeps same_dbs unix_nanos" "keeps stays_wf unix_nanos"
  by (simp_all add: keeps_def unix_ms_def unix_nanos_def same_env_def same_dbs_def stays_wf_def)

lemmas syscall_defs = fs_create_dir_def fs_create_new_def fs_write_def fs_copy_def fs_rename_def
  fs_remove_file_def fs_remove_dir_def

lemma calls_env:
  "keeps same_env (fs_create_dir p)" "keeps same_env (fs_create_new p)"
  "keeps same_env (fs_write p c)" "keeps same_env (fs_copy p q)" "keeps same_env (fs_rename p q)"
  "keeps same_env (fs_remove_file p)" "keeps same_env (fs_remove_dir p)"
  by (simp_all add: syscall_defs syscall_env)

lemma calls_dbs:
  "keeps same_dbs (fs_create_dir p)" "keeps same_dbs (fs_create_new p)"
  "keeps same_dbs (fs_write p c)" "keeps same_dbs (fs_copy p q)" "keeps same_dbs (fs_rename p q)"
  "keeps same_dbs (fs_remove_file p)" "keeps same_dbs (fs_remove_dir p)"
  by (simp_all add: syscall_defs syscall_env)

text \<open>What a renaming can do to the tree: nothing, or one move to a free or replaceable place.\<close>

lemma rename_node_ok:
  assumes wf: "wf_fs t" and src: "map_of t src = Some n" and "rename_node t src n dst m = Inr t'"
    and m: "m = map_of t dst" and dst: "dst = [] \<or> slot t dst"
  shows "t' = t \<and> src = dst \<or> t' = fs_move src dst t \<and> \<not> prefix src dst \<and> slot t dst
    \<and> (\<forall>k. strict_prefix dst k \<longrightarrow> map_of t k = None)
    \<and> (is_directory (Some n) \<or> \<not> is_directory (map_of t dst))"
proof (cases "src = dst")
  case False
  with assms(3) have np: "\<not> prefix src dst" and mv: "t' = fs_move src dst t"
    by (auto simp: rename_node_def split: if_splits node.splits option.splits)
  have free: "map_of t k = None" if "strict_prefix dst k" for k
  proof (cases "is_directory m")
    case True
    with False np assms(3) have "\<not> has_child t dst"
      by (auto simp: rename_node_def is_directory_iff split: if_splits node.splits)
    with that show ?thesis by (auto simp: has_child_iff)
  next
    case False
    with that wf m show ?thesis by (auto intro: wf_fs_no_child)
  qed
  have "dst \<noteq> []"
  proof
    assume "dst = []"
    with \<open>src \<noteq> dst\<close> have "strict_prefix dst src" by (simp add: strict_prefix_def)
    with free src show False by force
  qed
  with dst have "slot t dst" by blast
  moreover have "is_directory (Some n) \<or> \<not> is_directory (map_of t dst)"
    using False np assms(3) m by (auto simp: rename_node_def split: if_splits node.splits)
  ultimately show ?thesis using np mv free by blast
qed (use assms in \<open>auto simp: rename_node_def\<close>)

lemma write_node_ok:
  assumes "write_node w p c = Inr t" and wf: "wf_fs (w_fs w)"
  shows "t = w_fs w \<or> (\<exists>l a. slot (w_fs w) l \<and> \<not> is_directory (map_of (w_fs w) l)
    \<and> t = fs_put l (RegularFile c a) (w_fs w))"
proof -
  obtain l nd where wk: "walk_path w True p = Inr (l, nd)"
    using assms(1) by (auto simp: write_node_def split: sum.splits)
  note nd = walk_path_lookup [OF wk] and place = walk_path_slot [OF wk wf]
  have "slot (w_fs w) l" if "\<not> is_directory nd"
    using that place nd wf_fs_root [OF wf] by auto
  then show ?thesis
    using assms(1) wk nd
    by (auto simp: write_node_def is_directory_iff split: option.splits node.splits)
qed

lemma create_ok:
  assumes "(case walk_path w False p of Inl e \<Rightarrow> Inl e | Inr (l, Some _) \<Rightarrow> Inl AlreadyExists
      | Inr (l, None) \<Rightarrow> Inr (fs_put l n (w_fs w))) = Inr t" and wf: "wf_fs (w_fs w)"
  shows "\<exists>l. slot (w_fs w) l \<and> map_of (w_fs w) l = None \<and> t = fs_put l n (w_fs w)"
proof -
  obtain l where wk: "walk_path w False p = Inr (l, None)" and t: "t = fs_put l n (w_fs w)"
    using assms(1) by (auto split: sum.splits option.splits)
  have none: "map_of (w_fs w) l = None" using walk_path_lookup [OF wk] by simp
  then have "l \<noteq> []" using wf_fs_root [OF wf] by auto
  with walk_path_slot [OF wk wf] none t show ?thesis by blast
qed

lemma keeps_wf_syscall:
  assumes "\<And>w t. f w = Inr t \<Longrightarrow> wf_fs (w_fs w) \<Longrightarrow> wf_fs t"
  shows "keeps stays_wf (syscall f)"
  by (rule keeps_syscall) (use assms in \<open>auto simp: stays_wf_def\<close>)

lemma wf_create:
  assumes "slot t l" and "map_of t l = None" and "wf_fs t"
  shows "wf_fs (fs_put l n t)"
  using assms by (intro wf_fs_put) auto

lemma calls_wf_create: "keeps stays_wf (fs_create_dir p)" "keeps stays_wf (fs_create_new p)"
  unfolding fs_create_dir_def fs_create_new_def
  by (rule keeps_wf_syscall; drule (1) create_ok; use wf_create in blast)+

lemma write_node_wf:
  assumes "write_node w p c = Inr t" and "wf_fs (w_fs w)"
  shows "wf_fs t"
  using write_node_ok [OF assms] assms(2) by (auto intro: wf_fs_put)

lemma calls_wf_write: "keeps stays_wf (fs_write p c)" "keeps stays_wf (fs_copy p q)"
  unfolding fs_write_def fs_copy_def
  by (rule keeps_wf_syscall; auto split: sum.splits dest: write_node_wf)+

lemma rename_wf:
  assumes "wf_fs (w_fs w)" and "resolve w False a = Inr (src, n)" and "walk_path w False b = Inr (dst, m)"
    and "rename_node (w_fs w) src n dst m = Inr t"
  shows "wf_fs t"
proof -
  have src: "map_of (w_fs w) src = Some n" using assms(2) by (rule resolve_lookup)
  from rename_node_ok [OF assms(1) src assms(4) walk_path_lookup [OF assms(3)]
      walk_path_slot [OF assms(3,1)]]
  consider "t = w_fs w" | "t = fs_move src dst (w_fs w)" "\<not> prefix src dst" "slot (w_fs w) dst"
    "\<forall>k. strict_prefix dst k \<longrightarrow> map_of (w_fs w) k = None" by blast
  then show ?thesis
  proof cases
    case 2
    then have "src \<noteq> []" by auto
    with 2 src assms(1) show ?thesis by (auto intro: wf_fs_move)
  qed (use assms(1) in simp)
qed

lemma calls_wf_rename: "keeps stays_wf (fs_rename a b)"
  unfolding fs_rename_def
  by (rule keeps_wf_syscall) (auto split: sum.splits prod.splits intro: rename_wf)

lemma remove_leaf_wf:
  assumes "wf_fs t" and "map_of t l = Some n" and "\<not> is_directory (Some n)"
  shows "wf_fs (fs_remove l t)"
proof (rule wf_fs_remove [OF assms(1)])
  show "l \<noteq> []" using assms wf_fs_root [OF assms(1)] by auto
  show "\<not> has_child t l" using assms by (metis has_child_iff wf_fs_no_child)
qed

lemma calls_wf_remove: "keeps stays_wf (fs_remove_file p)" "keeps stays_wf (fs_remove_dir p)"
  unfolding fs_remove_file_def fs_remove_dir_def
  by (rule keeps_wf_syscall; auto split: sum.splits prod.splits node.splits if_splits
      intro: remove_leaf_wf wf_fs_remove dest: resolve_lookup)+

lemmas calls_wf = calls_wf_create calls_wf_write calls_wf_rename calls_wf_remove

lemma create_dir_all_frames:
  "keeps same_env (create_dir_all p)" "keeps same_dbs (create_dir_all p)"
  "keeps stays_wf (create_dir_all p)"
  by (rule env.keeps_create_dir_all dbs.keeps_create_dir_all wf.keeps_create_dir_all,
      simp add: calls_env calls_dbs calls_wf)+

section \<open>Regular files are not lost\<close>

fun is_regular :: "node option \<Rightarrow> bool" where
  "is_regular (Some (RegularFile c a)) = True"
| "is_regular _ = False"

text \<open>The regular files of a tree, as a multiset of contents and attributes, wherever they are.\<close>

definition file_nodes :: "fs \<Rightarrow> node multiset" where
  "file_nodes t = filter_mset (\<lambda>n. is_regular (Some n)) (mset (map snd t))"

definition no_file_lost :: "world \<Rightarrow> world \<Rightarrow> bool" where
  "no_file_lost w w' \<longleftrightarrow> (wf_fs (w_fs w) \<longrightarrow>
     wf_fs (w_fs w') \<and> file_nodes (w_fs w) \<subseteq># file_nodes (w_fs w'))"

interpretation files: world_frame no_file_lost
  by unfold_locales (auto simp: no_file_lost_def intro: subset_mset.order_trans)

lemma filtered_nodes_remove:
  assumes "\<And>n. map_of t l = Some n \<Longrightarrow> \<not> Q n" and "distinct (map fst t)"
  shows "filter_mset Q (mset (map snd (fs_remove l t))) = filter_mset Q (mset (map snd t))"
  using assms
proof (induction t)
  case (Cons kn t)
  obtain k n where kn: "kn = (k, n)" by (cases kn)
  show ?case
  proof (cases "k = l")
    case True
    with kn Cons.prems have "l \<notin> set (map fst t)" by auto
    then have "fs_remove l t = t" by (force simp: fs_remove_def filter_id_conv)
    moreover have "fs_remove l (kn # t) = fs_remove l t" using kn True by (simp add: fs_remove_def)
    ultimately show ?thesis using kn True Cons.prems by simp
  next
    case False
    with kn have "fs_remove l (kn # t) = kn # fs_remove l t" by (simp add: fs_remove_def)
    with Cons False kn show ?thesis by simp
  qed
qed (simp add: fs_remove_def)

lemma file_nodes_remove_other:
  assumes "\<not> is_regular (map_of t l)" and "distinct (map fst t)"
  shows "file_nodes (fs_remove l t) = file_nodes t"
  unfolding file_nodes_def using assms by (intro filtered_nodes_remove) auto

lemma file_nodes_put:
  assumes "\<not> is_regular (map_of t l)" and "distinct (map fst t)"
  shows "file_nodes t \<subseteq># file_nodes (fs_put l n t)"
proof -
  have "fs_put l n t = fs_remove l t @ [(l, n)]" by (simp add: fs_put_def fs_remove_def)
  then have "file_nodes (fs_put l n t) = file_nodes (fs_remove l t) + file_nodes [(l, n)]"
    by (simp add: file_nodes_def)
  with file_nodes_remove_other [OF assms] show ?thesis by simp
qed

lemma file_nodes_move:
  assumes "\<not> is_regular (map_of t dst)" and "distinct (map fst t)"
  shows "file_nodes (fs_move src dst t) = file_nodes t"
proof -
  have "map snd (fs_move src dst t) = map snd (fs_remove dst t)"
    by (auto simp: fs_move_def)
  then have "file_nodes (fs_move src dst t) = file_nodes (fs_remove dst t)"
    by (simp add: file_nodes_def)
  with file_nodes_remove_other [OF assms] show ?thesis by simp
qed

lemma keeps_files_syscall:
  assumes "keeps stays_wf (syscall f)"
    and "\<And>w t. f w = Inr t \<Longrightarrow> wf_fs (w_fs w) \<Longrightarrow> file_nodes (w_fs w) \<subseteq># file_nodes t"
  shows "keeps no_file_lost (syscall f)"
proof (rule keepsI)
  fix w r w' assume ok: "syscall f w = (r, w')"
  then have "stays_wf w w'" using assms(1) by (rule keepsD [rotated])
  with ok assms(2) show "no_file_lost w w'"
    by (cases r) (auto simp: no_file_lost_def stays_wf_def dest!: syscall_Inl syscall_Inr)
qed

lemma calls_files_create: "keeps no_file_lost (fs_create_dir p)" "keeps no_file_lost (fs_create_new p)"
proof -
  have put: "file_nodes t \<subseteq># file_nodes (fs_put l n t)" if "map_of t l = None" "wf_fs t" for t l n
    using that by (intro file_nodes_put wf_fs_distinct) auto
  show "keeps no_file_lost (fs_create_dir p)" "keeps no_file_lost (fs_create_new p)"
    using calls_wf_create unfolding fs_create_dir_def fs_create_new_def
    by (auto intro!: keeps_files_syscall dest!: create_ok intro: put)
qed

lemma create_dir_all_files: "keeps no_file_lost (create_dir_all p)"
  by (rule files.keeps_create_dir_all) (rule calls_files_create)

text \<open>A renaming onto a place that holds no regular file loses none.\<close>

lemma rename_files:
  assumes "fs_rename a b w = (r, w')" and wf: "wf_fs (w_fs w)"
    and dst: "\<And>l m. walk_path w False b = Inr (l, m) \<Longrightarrow> \<not> is_regular m"
  shows "file_nodes (w_fs w') = file_nodes (w_fs w)"
proof (cases r)
  case (Inl e)
  with assms(1) show ?thesis unfolding fs_rename_def by (auto dest!: syscall_Inl)
next
  case (Inr u)
  with assms(1) obtain src n d m where r: "resolve w False a = Inr (src, n)"
    and wk: "walk_path w False b = Inr (d, m)"
    and mv: "rename_node (w_fs w) src n d m = Inr (w_fs w')"
    unfolding fs_rename_def by (auto dest!: syscall_Inr split: sum.splits prod.splits)
  from rename_node_ok [OF wf resolve_lookup [OF r] mv walk_path_lookup [OF wk]
      walk_path_slot [OF wk wf]]
  consider "w_fs w' = w_fs w" | "w_fs w' = fs_move src d (w_fs w)" by blast
  then show ?thesis
    using dst [OF wk] walk_path_lookup [OF wk] wf_fs_distinct [OF wf]
    by cases (auto intro: file_nodes_move)
qed

section \<open>Reading back a written file\<close>

text \<open>Replacing a node that is neither a directory nor a link by another such node does not change
  where any path leads.\<close>

lemma walk_enter: "is_directory (map_of t cur) \<Longrightarrow> \<not> junk c \<Longrightarrow> c \<noteq> ''..'' \<Longrightarrow>
    map_of t (cur @ [c]) = Some nd \<Longrightarrow> \<not> is_link (Some nd) \<Longrightarrow>
    walk t n cur (c # cs) follow = walk t n (cur @ [c]) cs follow"
  by (cases nd) (auto simp: walk.simps(2) [of t n cur c])

lemma walks_update:
  assumes new: "\<not> is_directory (Some nd)" "\<not> is_link (Some nd)"
    and old: "\<not> is_directory (map_of t l)" "\<not> is_link (map_of t l)"
  shows "walks t follow n cur segs k x \<Longrightarrow>
    walk (fs_put l nd t) n cur segs follow = Inr (k, map_of (fs_put l nd t) k)"
proof (induction rule: walks.induct)
  case (step cur c nd' n cs k x)
  show ?case
  proof (cases "cur @ [c] = l")
    case True
    have "cs = []"
    proof (cases cs)
      case (Cons d ds)
      with step.IH True new(1) show ?thesis by (simp add: walk_not_dir)
    qed
    moreover have "cur \<noteq> l" using True by auto
    ultimately have "walk (fs_put l nd t) n cur (c # cs) follow = walk (fs_put l nd t) n (cur @ [c]) cs follow"
      using True step.hyps new by (intro walk_enter [where nd = nd]) auto
    with step.IH show ?thesis by simp
  next
    case False
    have "walk (fs_put l nd t) n cur (c # cs) follow = walk (fs_put l nd t) n (cur @ [c]) cs follow"
      using False step.hyps old(1) by (intro walk_enter [where nd = nd']) auto
    with step.IH show ?thesis by simp
  qed
qed (use old new in \<open>auto simp: walk.simps junk_def split: node.splits\<close>)

end
