(* ===== verification/Path_Guard.thy ===== *)
theory Path_Guard
  imports Fs_Laws
begin

text \<open>
  \<^verbatim>\<open>path_guard.rs\<close>, \<^verbatim>\<open>fs_safety.rs\<close> and \<^verbatim>\<open>file_identity.rs\<close>: the boundary check every file operation
  goes through. The lemmas show that what a resolver returns is a physical location inside the
  managed root, whatever links the tree has, and that unsafe requests are refused.
\<close>

section \<open>Model\<close>

record path_guard =
  guard_root :: string

datatype PathGuardError =
    RootNotDirectory string
  | AbsoluteInput string
  | ParentTraversal string
  | MissingPath string
  | EscapesRoot string string
  | Io string

fun path_guard_error_to_string :: "PathGuardError \<Rightarrow> string" where
  "path_guard_error_to_string (RootNotDirectory path) =
     ''managed root is not a directory: '' @ path"
| "path_guard_error_to_string (AbsoluteInput path) =
     ''path must be relative to the managed root: '' @ path"
| "path_guard_error_to_string (ParentTraversal path) =
     ''path cannot contain parent traversal: '' @ path"
| "path_guard_error_to_string (MissingPath path) =
     ''path does not exist under managed root: '' @ path"
| "path_guard_error_to_string (EscapesRoot root resolved) =
     ''resolved path escapes managed root: root='' @ root @ '', resolved='' @ resolved"
| "path_guard_error_to_string (Io message) = message"

definition canonicalize_existing :: "world \<Rightarrow> string \<Rightarrow> PathGuardError + string" where
  "canonicalize_existing w path = map_err (\<lambda>e. Io (io_error_to_string e)) (canonicalize w path)"

definition guard_new :: "world \<Rightarrow> string \<Rightarrow> PathGuardError + path_guard" where
  "guard_new w root =
     bind_res (canonicalize_existing w root) (\<lambda>root.
       if \<not> path_is_dir w root then Inl (RootNotDirectory root)
       else Inr \<lparr>guard_root = root\<rparr>)"

fun reject_component :: "string \<Rightarrow> component \<Rightarrow> PathGuardError option" where
  "reject_component path RootDir = Some (AbsoluteInput path)"
| "reject_component path ParentDir = Some (ParentTraversal path)"
| "reject_component path CurDir = None"
| "reject_component path (Normal s) = None"

fun reject_components :: "string \<Rightarrow> component list \<Rightarrow> PathGuardError + unit" where
  "reject_components path [] = Inr ()"
| "reject_components path (c # cs) =
     (case reject_component path c of Some e \<Rightarrow> Inl e | None \<Rightarrow> reject_components path cs)"

definition reject_unsafe_components :: "string \<Rightarrow> PathGuardError + unit" where
  "reject_unsafe_components path = reject_components path (components path)"

definition resolve_existing :: "world \<Rightarrow> path_guard \<Rightarrow> string \<Rightarrow> PathGuardError + string" where
  "resolve_existing w guard relative_path =
     bind_res (reject_unsafe_components relative_path) (\<lambda>_.
       let candidate = join_path (guard_root guard) relative_path
       in bind_res (map_err (\<lambda>_. MissingPath candidate) (canonicalize_existing w candidate))
            (\<lambda>resolved.
               if \<not> path_starts_with resolved (guard_root guard)
               then Inl (EscapesRoot (guard_root guard) resolved)
               else Inr resolved))"

definition resolve_for_create :: "world \<Rightarrow> path_guard \<Rightarrow> string \<Rightarrow> PathGuardError + string" where
  "resolve_for_create w guard relative_path =
     bind_res (reject_unsafe_components relative_path) (\<lambda>_.
       let candidate = join_path (guard_root guard) relative_path
       in case parent candidate of
            None \<Rightarrow> Inl (MissingPath candidate)
          | Some dir \<Rightarrow>
              bind_res (map_err (\<lambda>_. MissingPath dir) (canonicalize_existing w dir))
                (\<lambda>resolved_parent.
                   if \<not> path_starts_with resolved_parent (guard_root guard)
                   then Inl (EscapesRoot (guard_root guard) resolved_parent)
                   else (case file_name candidate of
                           None \<Rightarrow> Inl (MissingPath candidate)
                         | Some name \<Rightarrow> Inr (join_path resolved_parent name))))"

text \<open>\<^verbatim>\<open>fs_safety.rs\<close> in the non-Windows build: there are no reparse points.\<close>

definition is_windows_reparse_point :: "metadata \<Rightarrow> bool" where
  "is_windows_reparse_point m = False"

definition is_link_or_reparse_point :: "metadata \<Rightarrow> bool" where
  "is_link_or_reparse_point m = (m_is_symlink m \<or> is_windows_reparse_point m)"

text \<open>\<^verbatim>\<open>file_identity.rs\<close> in the Unix build.\<close>

definition file_id_for_path :: "world \<Rightarrow> string \<Rightarrow> string option" where
  "file_id_for_path w path =
     (case fs_metadata w path of
        Inl _ \<Rightarrow> None
      | Inr m \<Rightarrow> Some (''unix:d'' @ hex016 (m_dev m) @ '':i'' @ hex016 (m_ino m)))"

section \<open>Unsafe requests\<close>

lemma reject_components_ok:
  "reject_components p cs = Inr u \<longleftrightarrow> RootDir \<notin> set cs \<and> ParentDir \<notin> set cs"
proof (induction cs)
  case (Cons c cs)
  then show ?case by (cases c) auto
qed simp

definition safe_relative :: "string \<Rightarrow> bool" where
  "safe_relative p \<longleftrightarrow> RootDir \<notin> set (components p) \<and> ParentDir \<notin> set (components p)"

lemma reject_unsafe_ok: "reject_unsafe_components p = Inr u \<longleftrightarrow> safe_relative p"
  by (simp add: reject_unsafe_components_def reject_components_ok safe_relative_def)

lemma reject_unsafe_cases: "reject_unsafe_components p \<in>
    {Inr (), Inl (AbsoluteInput p), Inl (ParentTraversal p)}"
proof -
  have "reject_components p cs \<in> {Inr (), Inl (AbsoluteInput p), Inl (ParentTraversal p)}" for cs
  proof (induction cs)
    case (Cons c cs)
    then show ?case by (cases c) auto
  qed simp
  then show ?thesis by (simp add: reject_unsafe_components_def)
qed

lemma safe_no_root: "safe_relative p \<Longrightarrow> \<not> has_root p"
  by (auto simp: safe_relative_def components_def Let_def)

lemma safe_segments: "safe_relative p \<Longrightarrow> s \<in> set (segments p) \<Longrightarrow> s \<noteq> ''..''"
proof -
  assume safe: "safe_relative p" and s: "s \<in> set (segments p)"
  have "ParentDir \<in> set (components p)" if "''..'' \<in> set (segments p)"
  proof (cases "has_root p \<or> hd (segments p) \<noteq> ''.''")
    case True
    with that show ?thesis
      by (auto simp: components_def Let_def seg_component_def junk_def image_iff
          intro!: bexI [of _ "''..''"])
  next
    case False
    then have "''..'' \<in> set (tl (segments p))"
      using that by (metis list.collapse list.distinct(1) list.inject set_ConsD split_on_ne)
    with False show ?thesis
      by (auto simp: components_def Let_def seg_component_def junk_def image_iff
          intro!: bexI [of _ "''..''"])
  qed
  with safe s show ?thesis by (auto simp: safe_relative_def)
qed

section \<open>Guards and resolvers\<close>

text \<open>A guard in force: its root is the canonical text of an existing directory.\<close>

definition guard_ok :: "world \<Rightarrow> path_guard \<Rightarrow> loc \<Rightarrow> bool" where
  "guard_ok w g r \<longleftrightarrow> wf_fs (w_fs w) \<and> guard_root g = path_of_loc r
     \<and> is_directory (map_of (w_fs w) r)"

lemma guard_ok_valid: "guard_ok w g r \<Longrightarrow> valid_loc r"
  unfolding guard_ok_def by (metis is_directory.simps(2) wf_fs_valid)

lemma canonicalize_Inr_iff:
  "canonicalize w p = Inr q \<longleftrightarrow> (\<exists>l nd. resolve w True p = Inr (l, nd) \<and> q = path_of_loc l)"
  by (cases "resolve w True p") (auto simp: canonicalize_def)

lemma canonicalize_existing_Inr_iff:
  "canonicalize_existing w p = Inr q \<longleftrightarrow>
     (\<exists>l nd. resolve w True p = Inr (l, nd) \<and> q = path_of_loc l)"
  by (simp add: canonicalize_existing_def canonicalize_Inr_iff)

lemma path_is_dir_loc:
  assumes "wf_fs (w_fs w)" and "map_of (w_fs w) l = Some nd" and "\<not> is_link (Some nd)"
  shows "path_is_dir w (path_of_loc l) \<longleftrightarrow> is_directory (Some nd)"
  using resolve_path_of_loc [OF assms(1,2), of True] assms(3)
  by (cases nd) (auto simp: path_is_dir_def fs_metadata_def node_metadata_def)

lemma guard_new_ok:
  assumes "guard_new w root = Inr g" and wf: "wf_fs (w_fs w)"
  shows "\<exists>r. guard_ok w g r"
proof -
  obtain l nd where r: "resolve w True root = Inr (l, nd)" and d: "path_is_dir w (path_of_loc l)"
    and g: "guard_root g = path_of_loc l"
    using assms(1)
    by (auto simp: guard_new_def canonicalize_existing_Inr_iff bind_res_Inr_iff split: if_splits)
  note nd = resolve_lookup [OF r] resolve_not_link [OF r wf]
  with d have "is_directory (Some nd)" using path_is_dir_loc [OF wf nd] by simp
  with nd(1) g wf show ?thesis by (auto simp: guard_ok_def)
qed

text \<open>Where a system call on the text of an entry acts, once the place that holds the entry exists and is no
  link.\<close>

lemma walk_entry:
  assumes wf: "wf_fs (w_fs w)" and d: "map_of (w_fs w) d = Some nd" "\<not> is_link (Some nd)" and c: "valid_name c"
  shows "walk_path w False (path_of_loc (d @ [c])) = (if is_directory (map_of (w_fs w) d)
        then Inr (d @ [c], map_of (w_fs w) (d @ [c])) else Inl NotADirectory)
    \<and> (\<not> is_link (map_of (w_fs w) (d @ [c])) \<longrightarrow>
        walk_path w True (path_of_loc (d @ [c])) = walk_path w False (path_of_loc (d @ [c])))"
proof -
  have v: "valid_loc (d @ [c])" using wf_fs_valid [OF wf, of d] d(1) c by (simp add: valid_loc_def)
  show ?thesis
  proof (cases "is_directory (map_of (w_fs w) d)")
    case True
    then have "slot (w_fs w) (d @ [c])" using v by (simp add: slot_def)
    then show ?thesis
      using True walk_path_of_loc [OF wf, of False "d @ [c]"] walk_path_of_loc [OF wf, of True "d @ [c]"]
      by (simp add: real_end_def)
  next
    case False
    have dne: "d \<noteq> []" using False wf_fs_root [OF wf] by auto
    obtain e c' where ec: "d = e @ [c']" using dne by (metis append_butlast_last_id)
    have dir: "is_directory (map_of (w_fs w) e)" using wf_fs_parent [OF wf _ dne] d(1) ec by simp
    have c': "valid_name c'" using v ec by (simp add: valid_loc_def)
    have "walk_path w follow (path_of_loc (d @ [c])) = Inl NotADirectory" for follow
    proof -
      have "walk_path w follow (path_of_loc (d @ [c])) = walk (w_fs w) max_links [] ([] # e @ [c', c]) follow"
        using segments_path_of_loc [OF v] ec by (simp add: walk_path_def)
      also have "\<dots> = walk (w_fs w) max_links e [c', c] follow"
        using walk_junk [OF wf_fs_root [OF wf]] walk_dir_append [OF wf dir] by simp
      also have "\<dots> = walk (w_fs w) max_links d [c] follow"
        using walk_step [OF dir c'] d ec by simp
      also have "\<dots> = Inl NotADirectory" using False by (rule walk_not_dir)
      finally show ?thesis .
    qed
    with False show ?thesis by simp
  qed
qed

text \<open>A system call on the text of a location whose parent exists and is no link acts at that location.\<close>

lemma walk_landed:
  assumes wf: "wf_fs (w_fs w)" and l: "valid_loc l"
    and above: "l = [] \<or> map_of (w_fs w) (butlast l) \<noteq> None \<and> \<not> is_link (map_of (w_fs w) (butlast l))"
    and wk: "walk_path w False (path_of_loc l) = Inr (k, nd)"
  shows "k = l \<and> nd = map_of (w_fs w) l"
proof (cases "l = []")
  case True
  with walk_path_of_loc [OF wf, of False l] wk show ?thesis by (simp add: real_end_def)
next
  case False
  then obtain d c where dc: "l = d @ [c]" by (metis append_butlast_last_id)
  then obtain up where "map_of (w_fs w) d = Some up" "\<not> is_link (Some up)" using above by auto
  with walk_entry [OF wf this, of c] l wk show ?thesis by (auto simp: dc valid_loc_def split: if_splits)
qed

text \<open>The contract of a resolver: it accepts only safe relative requests, and every system call on the
  text it returns acts at one location inside the root, whatever links the tree contains.\<close>

locale path_resolver =
  fixes resolver :: "world \<Rightarrow> path_guard \<Rightarrow> string \<Rightarrow> PathGuardError + string"
  assumes accepts_safe: "resolver w g rel = Inr p \<Longrightarrow> safe_relative rel"
    and refuses_unsafe: "\<not> safe_relative rel \<Longrightarrow>
      resolver w g rel \<in> {Inl (AbsoluteInput rel), Inl (ParentTraversal rel)}"
    and lands: "guard_ok w g r \<Longrightarrow> resolver w g rel = Inr p \<Longrightarrow>
      \<exists>l. p = path_of_loc l \<and> prefix r l \<and> valid_loc l
        \<and> (l = [] \<or> map_of (w_fs w) (butlast l) \<noteq> None \<and> \<not> is_link (map_of (w_fs w) (butlast l)))"
begin

lemma inside:
  assumes "guard_ok w g r" and "resolver w g rel = Inr p"
  shows "path_starts_with p (guard_root g)"
proof -
  obtain l where "p = path_of_loc l" "prefix r l" "valid_loc l" using lands [OF assms] by blast
  with guard_ok_valid [OF assms(1)] assms(1) show ?thesis
    by (simp add: guard_ok_def path_starts_with_loc)
qed

lemma acts_inside:
  assumes g: "guard_ok w g r" and ok: "resolver w g rel = Inr p"
    and wk: "walk_path w False p = Inr (k, nd)"
  shows "p = path_of_loc k \<and> prefix r k \<and> nd = map_of (w_fs w) k"
proof -
  have wf: "wf_fs (w_fs w)" using g by (simp add: guard_ok_def)
  obtain l where p: "p = path_of_loc l" and l: "prefix r l" "valid_loc l"
    and above: "l = [] \<or> map_of (w_fs w) (butlast l) \<noteq> None \<and> \<not> is_link (map_of (w_fs w) (butlast l))"
    using lands [OF g ok] by blast
  show ?thesis using walk_landed [OF wf l(2) above wk [unfolded p]] p l(1) by simp
qed

lemma roots_apart:
  assumes "guard_ok w g r" "resolver w g a = Inr p" "guard_ok w h s" "resolver w h b = Inr q"
    and "\<not> prefix r s" "\<not> prefix s r"
  shows "p \<noteq> q"
proof
  assume "p = q"
  moreover obtain l where "p = path_of_loc l" "prefix r l" "valid_loc l"
    using lands [OF assms(1,2)] by blast
  moreover obtain m where "q = path_of_loc m" "prefix s m" "valid_loc m"
    using lands [OF assms(3,4)] by blast
  ultimately have "prefix r l" "prefix s l" using path_of_loc_inj by metis+
  with assms(5,6) show False using prefix_same_cases by blast
qed

end

lemma resolve_existing_Inr:
  assumes g: "guard_ok w g r" and ok: "resolve_existing w g rel = Inr p"
  shows "safe_relative rel \<and> (\<exists>l nd. p = path_of_loc l \<and> prefix r l \<and> map_of (w_fs w) l = Some nd
    \<and> \<not> is_link (Some nd) \<and> resolve w True (join_path (guard_root g) rel) = Inr (l, nd))"
proof -
  have wf: "wf_fs (w_fs w)" and root: "guard_root g = path_of_loc r" using g by (auto simp: guard_ok_def)
  obtain l nd where safe: "safe_relative rel" and p: "p = path_of_loc l"
    and r: "resolve w True (join_path (guard_root g) rel) = Inr (l, nd)"
    and st: "path_starts_with p (guard_root g)"
    using ok by (auto simp: resolve_existing_def bind_res_Inr_iff reject_unsafe_ok Let_def
        canonicalize_existing_Inr_iff split: if_splits)
  note nd = resolve_lookup [OF r] resolve_not_link [OF r wf]
  have "prefix r l"
    using st p root path_starts_with_loc guard_ok_valid [OF g] wf_fs_valid [OF wf] nd(1) by auto
  with safe p r nd show ?thesis by blast
qed

lemma resolve_for_create_Inr:
  assumes g: "guard_ok w g r" and ok: "resolve_for_create w g rel = Inr p"
  shows "safe_relative rel \<and> (\<exists>d name nd. p = path_of_loc (d @ [name]) \<and> prefix r d
    \<and> valid_name name \<and> map_of (w_fs w) d = Some nd \<and> \<not> is_link (Some nd)
    \<and> file_name (join_path (guard_root g) rel) = Some name)"
proof -
  have wf: "wf_fs (w_fs w)" and root: "guard_root g = path_of_loc r" using g by (auto simp: guard_ok_def)
  obtain d nd dir name where safe: "safe_relative rel" and r: "resolve w True dir = Inr (d, nd)"
    and st: "path_starts_with (path_of_loc d) (guard_root g)"
    and name: "file_name (join_path (guard_root g) rel) = Some name"
    and p: "p = join_path (path_of_loc d) name"
    using ok by (auto simp: resolve_for_create_def bind_res_Inr_iff reject_unsafe_ok Let_def
        canonicalize_existing_Inr_iff split: if_splits option.splits)
  note nd = resolve_lookup [OF r] resolve_not_link [OF r wf]
  have vd: "valid_loc d" using wf_fs_valid [OF wf] nd(1) by auto
  have "prefix r d" using st root path_starts_with_loc guard_ok_valid [OF g] vd by auto
  moreover have vn: "valid_name name" using name by (rule file_name_valid)
  moreover have "p = path_of_loc (d @ [name])"
    using p join_path_loc [OF vd vn] by simp
  ultimately show ?thesis using safe nd name by blast
qed

interpretation existing: path_resolver resolve_existing
proof
  show "\<And>w g rel p. resolve_existing w g rel = Inr p \<Longrightarrow> safe_relative rel"
    by (auto simp: resolve_existing_def bind_res_Inr_iff reject_unsafe_ok)
next
  fix rel w g assume "\<not> safe_relative rel"
  then have "reject_unsafe_components rel \<in> {Inl (AbsoluteInput rel), Inl (ParentTraversal rel)}"
    using reject_unsafe_cases [of rel] reject_unsafe_ok by blast
  then show "resolve_existing w g rel \<in> {Inl (AbsoluteInput rel), Inl (ParentTraversal rel)}"
    by (auto simp: resolve_existing_def)
next
  fix w g r rel p assume g: "guard_ok w g r" and "resolve_existing w g rel = Inr p"
  then obtain l nd where "p = path_of_loc l" "prefix r l" and l: "map_of (w_fs w) l = Some nd"
    using resolve_existing_Inr by blast
  moreover have wf: "wf_fs (w_fs w)" using g by (simp add: guard_ok_def)
  moreover have "valid_loc l" using wf_fs_valid [OF wf] l by auto
  moreover have "l \<noteq> [] \<Longrightarrow> is_directory (map_of (w_fs w) (butlast l))"
    using wf_fs_parent [OF wf] l by auto
  ultimately show "\<exists>l. p = path_of_loc l \<and> prefix r l \<and> valid_loc l
      \<and> (l = [] \<or> map_of (w_fs w) (butlast l) \<noteq> None \<and> \<not> is_link (map_of (w_fs w) (butlast l)))"
    by (metis dir_not_link is_directory.simps(2))
qed

interpretation creating: path_resolver resolve_for_create
proof
  show "\<And>w g rel p. resolve_for_create w g rel = Inr p \<Longrightarrow> safe_relative rel"
    by (auto simp: resolve_for_create_def bind_res_Inr_iff reject_unsafe_ok)
next
  fix rel w g assume "\<not> safe_relative rel"
  then have "reject_unsafe_components rel \<in> {Inl (AbsoluteInput rel), Inl (ParentTraversal rel)}"
    using reject_unsafe_cases [of rel] reject_unsafe_ok by blast
  then show "resolve_for_create w g rel \<in> {Inl (AbsoluteInput rel), Inl (ParentTraversal rel)}"
    by (auto simp: resolve_for_create_def)
next
  fix w g r rel p assume g: "guard_ok w g r" and "resolve_for_create w g rel = Inr p"
  then obtain d name nd where p: "p = path_of_loc (d @ [name])" "prefix r d" "valid_name name"
    and d: "map_of (w_fs w) d = Some nd" "\<not> is_link (Some nd)"
    using resolve_for_create_Inr by blast
  have "valid_loc d" using g d wf_fs_valid by (auto simp: guard_ok_def)
  with p d show "\<exists>l. p = path_of_loc l \<and> prefix r l \<and> valid_loc l
      \<and> (l = [] \<or> map_of (w_fs w) (butlast l) \<noteq> None \<and> \<not> is_link (map_of (w_fs w) (butlast l)))"
    by (intro exI [of _ "d @ [name]"]) (auto simp: valid_loc_def)
qed

end
