(* ===== verification/Sample_World.thy ===== *)
theory Sample_World
  imports Path_Guard "HOL-Library.Code_Target_Nat"
begin

text \<open>
  A small concrete world on which the hypotheses of the theorems are discharged: a managed root
  \<^verbatim>\<open>/home/box\<close> with two files, a directory, the state directory and a symbolic link that leaves the
  root. An executable test of well-formed trees makes such worlds easy to check.
\<close>

definition wf_fs_check :: "fs \<Rightarrow> bool" where
  "wf_fs_check t \<longleftrightarrow> distinct (map fst t) \<and> is_directory (map_of t [])
     \<and> list_all (\<lambda>l. valid_loc l \<and> (l \<noteq> [] \<longrightarrow> is_directory (map_of t (butlast l)))) (map fst t)"

lemma wf_fs_check: "wf_fs_check t \<Longrightarrow> wf_fs t"
proof -
  assume c: "wf_fs_check t"
  have "l \<in> set (map fst t)" if "map_of t l \<noteq> None" for l
    using that by (simp add: map_of_eq_None_iff)
  with c show ?thesis
    unfolding wf_fs_check_def wf_fs_def tree_ok_def list_all_iff by blast
qed

definition sample_attrs :: "nat \<Rightarrow> attrs" where
  "sample_attrs n = \<lparr>at_modified = Some (n * 1000000), at_created = Some 1000000, at_dev = 1,
                     at_ino = n, at_size = 4096\<rparr>"

definition sample_root :: loc where
  "sample_root = [''home'', ''box'']"

definition sample_fs :: fs where
  "sample_fs =
     [([], Directory (sample_attrs 1)),
      ([''home''], Directory (sample_attrs 2)),
      ([''home'', ''box''], Directory (sample_attrs 3)),
      ([''home'', ''box'', ''notes.pdf''], RegularFile ''hello'' (sample_attrs 4)),
      ([''home'', ''box'', ''.mousekeeper''], Directory (sample_attrs 5)),
      ([''home'', ''box'', ''docs''], Directory (sample_attrs 6)),
      ([''home'', ''box'', ''docs'', ''old.txt''], RegularFile '''' (sample_attrs 7)),
      ([''home'', ''box'', ''way-out''], Symlink ''/home'' (sample_attrs 8))]"

definition sample_world :: world where
  "sample_world =
     \<lparr>w_fs = sample_fs, w_cwd = [], w_dbs = (\<lambda>_. None), w_tick = 0, w_fails = (\<lambda>_. False),
      w_clock = (\<lambda>n. (n + 1) * 86400000000000), w_stamp = (\<lambda>n. sample_attrs (100 + n))\<rparr>"

definition sample_guard :: path_guard where
  "sample_guard = \<lparr>guard_root = ''/home/box''\<rparr>"

lemma sample_wf: "wf_fs (w_fs sample_world)"
proof (rule wf_fs_check)
  show "wf_fs_check (w_fs sample_world)" by code_simp
qed

lemma sample_guard_new: "guard_new sample_world ''/home/box'' = Inr sample_guard"
  by code_simp

lemma sample_guard_ok: "guard_ok sample_world sample_guard sample_root"
proof -
  have "guard_root sample_guard = path_of_loc sample_root
      \<and> is_directory (map_of (w_fs sample_world) sample_root)" by code_simp
  with sample_wf show ?thesis by (simp add: guard_ok_def)
qed

end
