(* ===== verification/Containment.thy ===== *)
theory Containment
  imports Sample_World
begin

text \<open>
  What the path guard promises to the operations built on it, on the code's two resolvers: which requests are
  accepted, and that a system call on an accepted text stays inside the managed root whatever symbolic links
  the tree holds, with one exception: a call that follows links, on a text accepted for creation where a link stands.
\<close>

text \<open>\<^verbatim>\<open>PathGuard::resolve_existing\<close> accepts a request exactly when it has no root, drive or parent
  component and following it from the managed root, symbolic links included, ends at an existing node inside
  the root; it then returns the canonical path of that node.\<close>

theorem resolve_existing_exact:
  assumes g: "guard_ok w g r"
  shows "resolve_existing w g rel = Inr p \<longleftrightarrow> safe_relative rel
    \<and> (\<exists>l nd. resolve w True (join_path (guard_root g) rel) = Inr (l, nd) \<and> prefix r l \<and> p = path_of_loc l)"
proof
  assume "resolve_existing w g rel = Inr p"
  with resolve_existing_Inr [OF g] show "safe_relative rel
    \<and> (\<exists>l nd. resolve w True (join_path (guard_root g) rel) = Inr (l, nd) \<and> prefix r l \<and> p = path_of_loc l)"
    by blast
next
  assume "safe_relative rel
    \<and> (\<exists>l nd. resolve w True (join_path (guard_root g) rel) = Inr (l, nd) \<and> prefix r l \<and> p = path_of_loc l)"
  then obtain l nd where safe: "safe_relative rel" and l: "prefix r l" "p = path_of_loc l"
    and res: "resolve w True (join_path (guard_root g) rel) = Inr (l, nd)" by blast
  have "valid_loc l" using resolve_lookup [OF res] wf_fs_valid g by (auto simp: guard_ok_def)
  moreover have "canonicalize_existing w (join_path (guard_root g) rel) = Inr p"
    using res l(2) by (simp add: canonicalize_existing_Inr_iff)
  moreover have "reject_unsafe_components rel = Inr ()" using safe by (simp add: reject_unsafe_ok)
  ultimately show "resolve_existing w g rel = Inr p"
    using l g guard_ok_valid [OF g] by (simp add: resolve_existing_def guard_ok_def path_starts_with_loc)
qed

theorem resolve_existing_exact_witness:
  "resolve_existing sample_world sample_guard ''docs/old.txt''
     = Inr (path_of_loc [''home'', ''box'', ''docs'', ''old.txt''])
   \<and> (\<exists>e. resolve_existing sample_world sample_guard ''way-out'' = Inl e)"
proof -
  have ok: "is_ok (resolve_existing sample_world sample_guard ''docs/old.txt'')
      \<and> resolve_existing sample_world sample_guard ''docs/old.txt''
          = Inr (path_of_loc [''home'', ''box'', ''docs'', ''old.txt''])" by code_simp
  have out: "resolve sample_world True (join_path (guard_root sample_guard) ''way-out'')
      = Inr ([''home''], node.Directory (sample_attrs 2))" by code_simp
  have "\<not> prefix sample_root [''home'']" by code_simp
  then have "resolve_existing sample_world sample_guard ''way-out'' \<noteq> Inr p" for p
    using resolve_existing_exact [OF sample_guard_ok, of "''way-out''" p] out by auto
  then show ?thesis using ok by (cases "resolve_existing sample_world sample_guard ''way-out''") auto
qed

text \<open>C1: what the path guard returns lies under the managed root. The text of \<^verbatim>\<open>resolve_existing\<close> is the
  canonical path of a node inside the root, and every system call on it, following a last link or not, acts on
  that node. The text of \<^verbatim>\<open>resolve_for_create\<close> names an entry of a place inside the root: a call that does not
  follow a last link acts at exactly that entry (or fails because the place is no directory), and so does a
  following call unless the entry itself is a symbolic link; only then can a following call leave.\<close>

theorem resolved_text_contained:
  assumes g: "guard_ok w g r"
  shows "(resolve_existing w g rel = Inr p \<longrightarrow>
        safe_relative rel \<and> path_starts_with p (guard_root g)
        \<and> (\<exists>l nd. p = path_of_loc l \<and> prefix r l \<and> (\<forall>follow. walk_path w follow p = Inr (l, Some nd))))
    \<and> (resolve_for_create w g rel = Inr p \<longrightarrow>
        safe_relative rel \<and> path_starts_with p (guard_root g)
        \<and> (\<exists>d name. p = path_of_loc (d @ [name]) \<and> prefix r d
          \<and> walk_path w False p = (if is_directory (map_of (w_fs w) d)
              then Inr (d @ [name], map_of (w_fs w) (d @ [name])) else Inl NotADirectory)
          \<and> (\<not> is_link (map_of (w_fs w) (d @ [name])) \<longrightarrow> walk_path w True p = walk_path w False p)))"
proof (intro conjI impI)
  have wf: "wf_fs (w_fs w)" using g by (simp add: guard_ok_def)
  {
    assume ok: "resolve_existing w g rel = Inr p"
    show "safe_relative rel" using ok by (rule existing.accepts_safe)
    show "path_starts_with p (guard_root g)" using g ok by (rule existing.inside)
    obtain l nd where l: "p = path_of_loc l" "prefix r l" "map_of (w_fs w) l = Some nd" "\<not> is_link (Some nd)"
      using resolve_existing_Inr [OF g ok] by blast
    then have "walk_path w follow p = Inr (l, Some nd)" for follow
      using resolve_path_of_loc [OF wf l(3)] by (simp add: resolve_walk)
    with l(1,2) show "\<exists>l nd. p = path_of_loc l \<and> prefix r l \<and> (\<forall>follow. walk_path w follow p = Inr (l, Some nd))"
      by blast
  }
  assume ok: "resolve_for_create w g rel = Inr p"
  show "safe_relative rel" using ok by (rule creating.accepts_safe)
  show "path_starts_with p (guard_root g)" using g ok by (rule creating.inside)
  show "\<exists>d name. p = path_of_loc (d @ [name]) \<and> prefix r d
      \<and> walk_path w False p = (if is_directory (map_of (w_fs w) d)
          then Inr (d @ [name], map_of (w_fs w) (d @ [name])) else Inl NotADirectory)
      \<and> (\<not> is_link (map_of (w_fs w) (d @ [name])) \<longrightarrow> walk_path w True p = walk_path w False p)"
    using resolve_for_create_Inr [OF g ok] walk_entry [OF wf] by (metis (no_types, lifting))
qed

theorem resolved_text_contained_witness:
  "resolve_existing sample_world sample_guard ''docs/old.txt'' = Inr ''/home/box/docs/old.txt''
   \<and> resolve_for_create sample_world sample_guard ''docs/new.txt'' = Inr ''/home/box/docs/new.txt''
   \<and> (\<exists>l nd. ''/home/box/docs/old.txt'' = path_of_loc l \<and> prefix sample_root l
       \<and> (\<forall>follow. walk_path sample_world follow ''/home/box/docs/old.txt'' = Inr (l, Some nd)))
   \<and> path_starts_with ''/home/box/docs/new.txt'' (guard_root sample_guard)"
proof -
  have old: "resolve_existing sample_world sample_guard ''docs/old.txt'' = Inr ''/home/box/docs/old.txt''"
    by code_simp
  have new: "resolve_for_create sample_world sample_guard ''docs/new.txt'' = Inr ''/home/box/docs/new.txt''"
    by code_simp
  show ?thesis
    using old new resolved_text_contained [OF sample_guard_ok, of "''docs/old.txt''" "''/home/box/docs/old.txt''"]
      resolved_text_contained [OF sample_guard_ok, of "''docs/new.txt''" "''/home/box/docs/new.txt''"]
    by blast
qed

text \<open>both resolvers refuse, with one of the two traversal errors, every request with a root, drive or
  parent component, before looking at the file system.\<close>

theorem unsafe_request_refused:
  assumes "\<not> safe_relative rel"
  shows "resolve_existing w g rel \<in> {Inl (AbsoluteInput rel), Inl (ParentTraversal rel)}
    \<and> resolve_for_create w g rel = resolve_existing w g rel"
proof -
  have "reject_unsafe_components rel \<in> {Inl (AbsoluteInput rel), Inl (ParentTraversal rel)}"
    using assms reject_unsafe_cases [of rel] reject_unsafe_ok by blast
  then show ?thesis by (auto simp: resolve_existing_def resolve_for_create_def)
qed

theorem unsafe_request_refused_witness:
  "resolve_existing sample_world sample_guard ''docs/../../etc'' \<in>
     {Inl (AbsoluteInput ''docs/../../etc''), Inl (ParentTraversal ''docs/../../etc'')}"
proof -
  have "\<not> safe_relative ''docs/../../etc''" by code_simp
  with unsafe_request_refused show ?thesis by blast
qed

end
