(* ===== verification/Analyzer.thy ===== *)
theory Analyzer
  imports Sample_World
begin

text \<open>
  \<^verbatim>\<open>analyzer.rs\<close>: the recursive scan of a managed root. The recursion of \<^verbatim>\<open>collect_files\<close> follows the
  directory tree, so the model carries fuel, one unit per directory level, and \<^const>\<open>None\<close> means
  that the fuel ran out; \<open>analyze_root\<close> starts with one unit per node of the tree, and the lemmas show
  that this is always enough. The main result is that the report lists exactly the regular files
  below the root that are not inside one of MouseKeeper's own directories, once each, sorted by path.

  Reads never fail with an I/O error in the model, so the error arm for a single directory entry does
  not occur.
\<close>

section \<open>Model\<close>

definition STATE_DIR :: string where
  "STATE_DIR = ''.mousekeeper''"

definition TRASH_DIR :: string where
  "TRASH_DIR = ''.mousekeeper_trash''"

record FileEntry =
  fe_path :: string
  fe_size_bytes :: nat
  fe_modified_unix_ms :: "nat option"
  fe_created_unix_ms :: "nat option"
  fe_file_id :: "string option"

record SkippedEntry =
  se_path :: string
  se_reason :: string

record AnalyzeReport =
  ar_root :: string
  ar_files :: "FileEntry list"
  ar_directories :: "string list"
  ar_skipped_entries :: "SkippedEntry list"

datatype AnalyzeError =
    Guard PathGuardError
  | ReadDir string string
  | Metadata string string
  | EscapedEntry string
  | Serialize string

fun analyze_error_to_string :: "AnalyzeError \<Rightarrow> string" where
  "analyze_error_to_string (Guard error) = path_guard_error_to_string error"
| "analyze_error_to_string (ReadDir path message) =
     ''cannot read directory '' @ path @ '': '' @ message"
| "analyze_error_to_string (Metadata path message) =
     ''cannot read metadata '' @ path @ '': '' @ message"
| "analyze_error_to_string (EscapedEntry path) = ''entry escaped managed root: '' @ path"
| "analyze_error_to_string (Serialize message) = ''cannot serialize report: '' @ message"

definition relative_path :: "string \<Rightarrow> string \<Rightarrow> AnalyzeError + string" where
  "relative_path root path =
     (case strip_prefix_components path root of
        None \<Rightarrow> Inl (EscapedEntry path)
      | Some relative \<Rightarrow> Inr (join_with ''/'' (map component_str relative)))"

definition relative_path_lossy :: "string \<Rightarrow> string \<Rightarrow> string" where
  "relative_path_lossy root path =
     join_with ''/'' (map component_str
       (case strip_prefix_components path root of None \<Rightarrow> components path | Some cs \<Rightarrow> cs))"

definition skipped_entry :: "string \<Rightarrow> string \<Rightarrow> string \<Rightarrow> SkippedEntry" where
  "skipped_entry root path reason =
     \<lparr>se_path = relative_path_lossy root path, se_reason = reason\<rparr>"

text \<open>Node time stamps are nanoseconds since the epoch.\<close>

definition modified_unix_ms :: "metadata \<Rightarrow> nat option" where
  "modified_unix_ms metadata = map_option (\<lambda>ns. ns div 1000000) (m_modified metadata)"

definition created_unix_ms :: "metadata \<Rightarrow> nat option" where
  "created_unix_ms metadata = map_option (\<lambda>ns. ns div 1000000) (m_created metadata)"

definition is_mousekeeper_internal_dir :: "string \<Rightarrow> bool" where
  "is_mousekeeper_internal_dir path =
     (case file_name path of None \<Rightarrow> False | Some name \<Rightarrow> name = STATE_DIR \<or> name = TRASH_DIR)"

record scan =
  sc_files :: "FileEntry list"
  sc_directories :: "string list"
  sc_skipped :: "SkippedEntry list"

definition skip :: "string \<Rightarrow> string \<Rightarrow> string \<Rightarrow> scan \<Rightarrow> scan" where
  "skip root path reason acc =
     acc\<lparr>sc_skipped := sc_skipped acc @ [skipped_entry root path reason]\<rparr>"

text \<open>The body of the loop over a directory's entries; \<open>recurse\<close> is the recursive call.\<close>

definition collect_entry ::
  "(string \<Rightarrow> scan \<Rightarrow> (AnalyzeError + scan) option) \<Rightarrow> world \<Rightarrow> string \<Rightarrow> string \<Rightarrow> scan
     \<Rightarrow> (AnalyzeError + scan) option" where
  "collect_entry recurse w root path acc =
     (if is_mousekeeper_internal_dir path then Some (Inr acc)
      else (case fs_symlink_metadata w path of
         Inl error \<Rightarrow> Some (Inr (skip root path (io_error_to_string error) acc))
       | Inr metadata \<Rightarrow>
           if is_link_or_reparse_point metadata then
             Some (Inr (skip root path ''skipped symlink, junction, or reparse point'' acc))
           else if m_is_dir metadata then
             recurse path
               (if path_eq path root then acc
                else (case relative_path root path of
                        Inr relative \<Rightarrow>
                          acc\<lparr>sc_directories := sc_directories acc @ [relative]\<rparr>
                      | Inl error \<Rightarrow> skip root path (analyze_error_to_string error) acc))
           else if m_is_file metadata then
             Some (Inr (case relative_path root path of
                Inr relative \<Rightarrow>
                  acc\<lparr>sc_files := sc_files acc @
                    [\<lparr>fe_path = relative, fe_size_bytes = m_len metadata,
                      fe_modified_unix_ms = modified_unix_ms metadata,
                      fe_created_unix_ms = created_unix_ms metadata,
                      fe_file_id = file_id_for_path w path\<rparr>]\<rparr>
              | Inl error \<Rightarrow> skip root path (analyze_error_to_string error) acc))
           else Some (Inr acc)))"

primrec collect_entries ::
  "(string \<Rightarrow> scan \<Rightarrow> (AnalyzeError + scan) option) \<Rightarrow> world \<Rightarrow> string \<Rightarrow> string \<Rightarrow> string list
     \<Rightarrow> scan \<Rightarrow> (AnalyzeError + scan) option" where
  "collect_entries recurse w root current_dir [] acc = Some (Inr acc)"
| "collect_entries recurse w root current_dir (name # names) acc =
     (case collect_entry recurse w root (join_path current_dir name) acc of
        None \<Rightarrow> None
      | Some (Inl error) \<Rightarrow> Some (Inl error)
      | Some (Inr acc') \<Rightarrow> collect_entries recurse w root current_dir names acc')"

primrec collect_files ::
  "nat \<Rightarrow> world \<Rightarrow> string \<Rightarrow> string \<Rightarrow> scan \<Rightarrow> (AnalyzeError + scan) option" where
  "collect_files 0 w root current_dir acc = None"
| "collect_files (Suc fuel) w root current_dir acc =
     (case read_dir w current_dir of
        Inl error \<Rightarrow>
          if path_eq current_dir root
          then Some (Inl (ReadDir current_dir (io_error_to_string error)))
          else Some (Inr (skip root current_dir (io_error_to_string error) acc))
      | Inr names \<Rightarrow>
          collect_entries (collect_files fuel w root) w root current_dir names acc)"

definition scan_fuel :: "world \<Rightarrow> nat" where
  "scan_fuel w = Suc (length (w_fs w))"

definition empty_scan :: scan where
  "empty_scan = \<lparr>sc_files = [], sc_directories = [], sc_skipped = []\<rparr>"

definition analyze_root :: "world \<Rightarrow> string \<Rightarrow> (AnalyzeError + AnalyzeReport) option" where
  "analyze_root w root =
     (case guard_new w root of
        Inl error \<Rightarrow> Some (Inl (Guard error))
      | Inr guard \<Rightarrow>
          (case collect_files (scan_fuel w) w (guard_root guard) (guard_root guard) empty_scan of
             None \<Rightarrow> None
           | Some (Inl error) \<Rightarrow> Some (Inl error)
           | Some (Inr acc) \<Rightarrow>
               Some (Inr \<lparr>ar_root = guard_root guard,
                          ar_files = sort_key fe_path (sc_files acc),
                          ar_directories = sort (sc_directories acc),
                          ar_skipped_entries = sort_key se_path (sc_skipped acc)\<rparr>)))"

section \<open>The scan is complete and exact\<close>

text \<open>Locations relative to the root; \<open>below P\<close> are the visible ones under a directory whose node
  satisfies \<open>P\<close>, and \<open>under P\<close> the ones reached through one entry of it.\<close>

definition visible :: "loc \<Rightarrow> bool" where
  "visible rel \<longleftrightarrow> STATE_DIR \<notin> set rel \<and> TRASH_DIR \<notin> set rel"

definition below :: "world \<Rightarrow> loc \<Rightarrow> loc \<Rightarrow> (node option \<Rightarrow> bool) \<Rightarrow> loc set" where
  "below w r base P = {base @ s | s. s \<noteq> [] \<and> visible s \<and> P (map_of (w_fs w) (r @ base @ s))}"

definition under :: "world \<Rightarrow> loc \<Rightarrow> loc \<Rightarrow> string \<Rightarrow> (node option \<Rightarrow> bool) \<Rightarrow> loc set" where
  "under w r base name P =
     {base @ name # s | s. visible (name # s) \<and> P (map_of (w_fs w) (r @ base @ name # s))}"

definition file_entry :: "world \<Rightarrow> loc \<Rightarrow> loc \<Rightarrow> FileEntry" where
  "file_entry w r rel =
     (let m = node_metadata (the (map_of (w_fs w) (r @ rel)))
      in \<lparr>fe_path = join_with ''/'' rel, fe_size_bytes = m_len m,
          fe_modified_unix_ms = modified_unix_ms m, fe_created_unix_ms = created_unix_ms m,
          fe_file_id = Some (''unix:d'' @ hex016 (m_dev m) @ '':i'' @ hex016 (m_ino m))\<rparr>)"

definition link_entry :: "loc \<Rightarrow> SkippedEntry" where
  "link_entry rel = \<lparr>se_path = join_with ''/'' rel,
                     se_reason = ''skipped symlink, junction, or reparse point''\<rparr>"

definition extend :: "world \<Rightarrow> loc \<Rightarrow> scan \<Rightarrow> loc list \<Rightarrow> loc list \<Rightarrow> loc list \<Rightarrow> scan" where
  "extend w r acc F D L =
     \<lparr>sc_files = sc_files acc @ map (file_entry w r) F,
      sc_directories = sc_directories acc @ map (join_with ''/'') D,
      sc_skipped = sc_skipped acc @ map link_entry L\<rparr>"

definition scanned :: "((node option \<Rightarrow> bool) \<Rightarrow> loc set) \<Rightarrow> loc list \<Rightarrow> loc list \<Rightarrow> loc list \<Rightarrow> bool" where
  "scanned X F D L \<longleftrightarrow> distinct F \<and> set F = X is_regular
     \<and> distinct D \<and> set D = X is_directory \<and> distinct L \<and> set L = X is_link"

definition scans :: "(AnalyzeError + scan) option \<Rightarrow> world \<Rightarrow> loc \<Rightarrow> scan
    \<Rightarrow> ((node option \<Rightarrow> bool) \<Rightarrow> loc set) \<Rightarrow> bool" where
  "scans res w r acc X \<longleftrightarrow> (\<exists>F D L. res = Some (Inr (extend w r acc F D L)) \<and> scanned X F D L)"

lemma extend_simps [simp]:
  "extend w r acc [] [] [] = acc"
  "extend w r (extend w r acc F D L) F' D' L' = extend w r acc (F @ F') (D @ D') (L @ L')"
  by (simp_all add: extend_def)

lemma scanned_union:
  assumes "scanned X F D L" "scanned Y F' D' L'" "\<And>P. X P \<inter> Y P = {}"
  shows "scanned (\<lambda>P. X P \<union> Y P) (F @ F') (D @ D') (L @ L')"
  using assms by (simp add: scanned_def)

lemma not_none [simp]: "\<not> is_regular None" "\<not> is_directory None" "\<not> is_link None"
  by simp_all

lemma relative_path_loc:
  assumes "valid_loc r" "valid_loc rel"
  shows "relative_path (path_of_loc r) (path_of_loc (r @ rel)) = Inr (join_with ''/'' rel)"
    and "relative_path_lossy (path_of_loc r) (path_of_loc (r @ rel)) = join_with ''/'' rel"
proof -
  have v: "valid_loc (r @ rel)" using assms by (simp add: valid_loc_def)
  have "strip_prefix_components (path_of_loc (r @ rel)) (path_of_loc r) = Some (map Normal rel)"
    using components_path_of_loc [OF v] components_path_of_loc [OF assms(1)]
      path_starts_with_loc [OF v assms(1)]
    by (simp add: strip_prefix_components_def)
  moreover have "map component_str (map Normal rel) = rel" by (induction rel) auto
  ultimately show "relative_path (path_of_loc r) (path_of_loc (r @ rel)) = Inr (join_with ''/'' rel)"
    "relative_path_lossy (path_of_loc r) (path_of_loc (r @ rel)) = join_with ''/'' rel"
    by (simp_all add: relative_path_def relative_path_lossy_def)
qed

lemma file_name_loc: "valid_loc (l @ [c]) \<Longrightarrow> file_name (path_of_loc (l @ [c])) = Some c"
  by (simp add: file_name_Some_iff components_path_of_loc)

lemma internal_loc:
  "valid_loc (l @ [c]) \<Longrightarrow>
     is_mousekeeper_internal_dir (path_of_loc (l @ [c])) \<longleftrightarrow> c = STATE_DIR \<or> c = TRASH_DIR"
  by (simp add: is_mousekeeper_internal_dir_def file_name_loc)

lemma child_names_set: "set (child_names t l) = {c. map_of t (l @ [c]) \<noteq> None}"
proof -
  have "c \<in> set (child_names t l) \<longleftrightarrow> l @ [c] \<in> fst ` set t" for c
    unfolding child_names_def by (force simp: image_iff snoc_eq_iff_butlast)
  then show ?thesis by (auto simp: map_of_eq_None_iff)
qed

lemma child_names_distinct: "distinct (map fst t) \<Longrightarrow> distinct (child_names t l)"
  unfolding child_names_def
  by (auto simp: distinct_map intro!: inj_onI) (metis append_butlast_last_id)

lemma under_cases:
  assumes "visible [name]"
  shows "under w r base name P =
    (if P (map_of (w_fs w) (r @ base @ [name])) then {base @ [name]} else {})
      \<union> below w r (base @ [name]) P"
proof -
  have "visible (name # s) \<longleftrightarrow> visible s" for s using assms by (auto simp: visible_def)
  moreover have "{f s | s. Q s} = (if Q [] then {f []} else {}) \<union> {f s | s. s \<noteq> [] \<and> Q s}"
    for f :: "loc \<Rightarrow> loc" and Q by auto
  from this [of "\<lambda>s. base @ name # s"
      "\<lambda>s. visible (name # s) \<and> P (map_of (w_fs w) (r @ base @ name # s))"]
  have "under w r base name P =
      (if visible [name] \<and> P (map_of (w_fs w) (r @ base @ [name])) then {base @ [name]} else {})
      \<union> {base @ name # s | s. s \<noteq> [] \<and> visible (name # s) \<and> P (map_of (w_fs w) (r @ base @ name # s))}"
    unfolding under_def .
  ultimately show ?thesis using assms by (simp add: below_def)
qed

lemma below_leaf:
  assumes "wf_fs (w_fs w)" "\<not> is_directory (map_of (w_fs w) (r @ base))" "\<not> P None"
  shows "below w r base P = {}"
proof -
  have "map_of (w_fs w) (r @ base @ s) = None" if "s \<noteq> []" for s
    using wf_fs_no_child [OF assms(1,2), of "r @ base @ s"] that by (auto simp: strict_prefix_def)
  with assms(3) show ?thesis by (auto simp: below_def)
qed

lemma below_under: "below w r base P = (\<Union>name \<in> {c. map_of (w_fs w) (r @ base @ [c]) \<noteq> None}.
    under w r base name P)"
  if "wf_fs (w_fs w)" "\<not> P None"
proof -
  have "map_of (w_fs w) (r @ base @ [c]) \<noteq> None" if "P (map_of (w_fs w) (r @ base @ c # s))" for c s
  proof (cases "s = []")
    case True
    with that \<open>\<not> P None\<close> show ?thesis by (metis not_Some_eq)
  next
    case False
    have "map_of (w_fs w) (r @ base @ c # s) \<noteq> None" using that \<open>\<not> P None\<close> by (metis)
    then have "is_directory (map_of (w_fs w) (r @ base @ [c]))"
      using False by (intro wf_fs_above [OF \<open>wf_fs (w_fs w)\<close>]) (auto simp: strict_prefix_def)
    then show ?thesis by (auto simp: is_directory_iff)
  qed
  then show ?thesis
    unfolding below_def under_def by (auto simp: neq_Nil_conv)
qed

text \<open>One entry.\<close>

lemma collect_entry_scans:
  assumes wf: "wf_fs (w_fs w)" and r: "is_directory (map_of (w_fs w) r)"
    and nd: "map_of (w_fs w) (r @ base @ [name]) = Some nd"
    and rec: "\<And>acc. is_directory (Some nd) \<Longrightarrow>
      scans (recurse (path_of_loc (r @ base @ [name])) acc) w r acc (below w r (base @ [name]))"
  shows "scans (collect_entry recurse w (path_of_loc r) (path_of_loc (r @ base @ [name])) acc)
    w r acc (under w r base name)"
proof (cases "visible [name]")
  case False
  have v: "valid_loc ((r @ base) @ [name])" using wf_fs_valid [OF wf] nd by auto
  have "under w r base name P = {}" for P using False by (auto simp: under_def visible_def)
  moreover have "is_mousekeeper_internal_dir (path_of_loc (r @ base @ [name]))"
    using False internal_loc [OF v] by (auto simp: visible_def)
  ultimately show ?thesis
    unfolding scans_def by (intro exI [of _ "[]"]) (simp add: collect_entry_def scanned_def)
next
  case True
  let ?l = "r @ base @ [name]" and ?res = "\<lambda>acc. collect_entry recurse w (path_of_loc r)
    (path_of_loc (r @ base @ [name])) acc"
  have v: "valid_loc ?l" using wf_fs_valid [OF wf] nd by auto
  then have vr: "valid_loc r" "valid_loc (base @ [name])" by (simp_all add: valid_loc_def)
  have internal: "\<not> is_mousekeeper_internal_dir (path_of_loc ?l)"
    using True internal_loc [of "r @ base" name] v by (auto simp: visible_def)
  have meta: "fs_symlink_metadata w (path_of_loc ?l) = Inr (node_metadata nd)"
    using resolve_path_of_loc [OF wf nd, of False] by (simp add: fs_symlink_metadata_def)
  have id: "file_id_for_path w (path_of_loc ?l) =
      Some (''unix:d'' @ hex016 (m_dev (node_metadata nd)) @ '':i'' @ hex016 (m_ino (node_metadata nd)))"
    if "\<not> is_link (Some nd)"
    using resolve_path_of_loc [OF wf nd, of True] that by (simp add: file_id_for_path_def fs_metadata_def)
  have neq: "\<not> path_eq (path_of_loc ?l) (path_of_loc r)"
    using components_path_of_loc [OF v] components_path_of_loc [OF vr(1)] by (simp add: path_eq_def)
  note rel = relative_path_loc [OF vr]
  note leaf = below_leaf [OF wf, of r "base @ [name]"]
  show ?thesis
  proof (cases nd)
    case (RegularFile c a)
    have "?res acc = Some (Inr (extend w r acc [base @ [name]] [] []))"
      using RegularFile internal meta id neq rel nd
      by (simp add: collect_entry_def extend_def file_entry_def Let_def
          is_link_or_reparse_point_def is_windows_reparse_point_def node_metadata_def)
    moreover have "scanned (under w r base name) [base @ [name]] [] []"
      using leaf nd RegularFile by (simp add: scanned_def under_cases [OF True])
    ultimately show ?thesis unfolding scans_def by blast
  next
    case (Directory a)
    then obtain F D L where *: "recurse (path_of_loc ?l) (extend w r acc [] [base @ [name]] []) =
        Some (Inr (extend w r (extend w r acc [] [base @ [name]] []) F D L))"
      "scanned (below w r (base @ [name])) F D L"
      using rec unfolding scans_def by fastforce
    have "?res acc = recurse (path_of_loc ?l) (extend w r acc [] [base @ [name]] [])"
      using Directory internal meta neq rel
      by (cases acc) (simp add: collect_entry_def extend_def is_link_or_reparse_point_def
          is_windows_reparse_point_def node_metadata_def)
    moreover have "base @ [name] \<notin> below w r (base @ [name]) P" for P by (auto simp: below_def)
    then have "scanned (under w r base name) F ((base @ [name]) # D) L"
      using *(2) nd Directory by (simp add: scanned_def under_cases [OF True])
    ultimately show ?thesis using *(1) unfolding scans_def by force
  next
    case (Symlink t a)
    have "?res acc = Some (Inr (extend w r acc [] [] [base @ [name]]))"
      using Symlink internal meta rel
      by (simp add: collect_entry_def extend_def link_entry_def skip_def skipped_entry_def
          is_link_or_reparse_point_def node_metadata_def)
    moreover have "scanned (under w r base name) [] [] [base @ [name]]"
      using leaf nd Symlink by (simp add: scanned_def under_cases [OF True])
    ultimately show ?thesis unfolding scans_def by blast
  next
    case (Special a)
    have "?res acc = Some (Inr (extend w r acc [] [] []))"
      using Special internal meta
      by (simp add: collect_entry_def is_link_or_reparse_point_def is_windows_reparse_point_def
          node_metadata_def)
    moreover have "scanned (under w r base name) [] [] []"
      using leaf nd Special by (simp add: scanned_def under_cases [OF True])
    ultimately show ?thesis unfolding scans_def by blast
  qed
qed

lemma under_disjoint: "a \<noteq> b \<Longrightarrow> under w r base a P \<inter> under w r base b Q = {}"
  by (auto simp: under_def)

lemma collect_entries_scans:
  assumes "\<And>name acc. name \<in> set names \<Longrightarrow>
      scans (collect_entry recurse w root (join_path dir name) acc) w r acc (under w r base name)"
    and "distinct names"
  shows "scans (collect_entries recurse w root dir names acc) w r acc
    (\<lambda>P. \<Union>name \<in> set names. under w r base name P)"
  using assms
proof (induction names arbitrary: acc)
  case Nil
  have "scanned (\<lambda>P. {}) [] [] []" by (simp add: scanned_def)
  then show ?case unfolding scans_def by (intro exI [of _ "[]"]) simp
next
  case (Cons name names)
  let ?Y = "\<lambda>P. \<Union>name \<in> set names. under w r base name P"
  obtain F D L where one: "collect_entry recurse w root (join_path dir name) acc
      = Some (Inr (extend w r acc F D L))" "scanned (under w r base name) F D L"
    using Cons.prems(1) [of name acc] unfolding scans_def by auto
  have "scans (collect_entries recurse w root dir names (extend w r acc F D L)) w r
      (extend w r acc F D L) ?Y"
    using Cons.prems by (intro Cons.IH) auto
  then obtain F' D' L' where rest: "collect_entries recurse w root dir names (extend w r acc F D L)
      = Some (Inr (extend w r (extend w r acc F D L) F' D' L'))" "scanned ?Y F' D' L'"
    unfolding scans_def by blast
  have "under w r base name P \<inter> ?Y P = {}" for P
    using Cons.prems(2) under_disjoint [of name] by fastforce
  then have "scanned (\<lambda>P. under w r base name P \<union> ?Y P) (F @ F') (D @ D') (L @ L')"
    using one(2) rest(2) by (intro scanned_union)
  with one(1) rest(1) show ?case unfolding scans_def by auto
qed

lemma collect_files_scans:
  assumes wf: "wf_fs (w_fs w)" and r: "is_directory (map_of (w_fs w) r)"
    and "is_directory (map_of (w_fs w) (r @ base))"
    and "\<And>s. map_of (w_fs w) (r @ base @ s) \<noteq> None \<Longrightarrow> length s < fuel"
  shows "scans (collect_files fuel w (path_of_loc r) (path_of_loc (r @ base)) acc) w r acc
    (below w r base)"
  using assms(3,4)
proof (induction fuel arbitrary: base acc)
  case 0
  from "0.prems"(1) obtain a where "map_of (w_fs w) (r @ base) = Some (Directory a)"
    by (auto simp: is_directory_iff)
  with "0.prems"(2) [of "[]"] show ?case by simp
next
  case (Suc fuel)
  let ?names = "child_names (w_fs w) (r @ base)" and ?dir = "path_of_loc (r @ base)"
  obtain a where dir: "map_of (w_fs w) (r @ base) = Some (Directory a)"
    using Suc.prems(1) by (auto simp: is_directory_iff)
  have v: "valid_loc (r @ base)" using wf_fs_valid [OF wf] dir by auto
  have names: "set ?names = {c. map_of (w_fs w) (r @ base @ [c]) \<noteq> None}"
    by (simp add: child_names_set)
  have "read_dir w ?dir = Inr ?names"
    using resolve_path_of_loc [OF wf dir, of True] by (simp add: read_dir_def)
  moreover have "scans (collect_entries (collect_files fuel w (path_of_loc r)) w (path_of_loc r)
      ?dir ?names acc) w r acc (\<lambda>P. \<Union>name \<in> set ?names. under w r base name P)"
  proof (rule collect_entries_scans)
    fix name acc assume "name \<in> set ?names"
    then obtain nd where nd: "map_of (w_fs w) (r @ base @ [name]) = Some nd" using names by auto
    then have "valid_name name"
      using wf_fs_valid [OF wf, of "r @ base @ [name]"] by (simp add: valid_loc_def)
    then have "join_path ?dir name = path_of_loc (r @ base @ [name])"
      using join_path_loc [OF v] by simp
    moreover have "scans (collect_entry (collect_files fuel w (path_of_loc r)) w (path_of_loc r)
        (path_of_loc (r @ base @ [name])) acc) w r acc (under w r base name)"
    proof (rule collect_entry_scans [OF wf r nd])
      fix acc assume "is_directory (Some nd)"
      then show "scans (collect_files fuel w (path_of_loc r) (path_of_loc (r @ base @ [name])) acc)
          w r acc (below w r (base @ [name]))"
        using Suc.IH [of "base @ [name]" acc] Suc.prems(2) nd by fastforce
    qed
    ultimately show "scans (collect_entry (collect_files fuel w (path_of_loc r)) w (path_of_loc r)
        (join_path ?dir name) acc) w r acc (under w r base name)" by simp
  qed (rule child_names_distinct [OF wf_fs_distinct [OF wf]])
  moreover have "scanned (\<lambda>P. \<Union>name \<in> set ?names. under w r base name P)
      = scanned (below w r base)"
    using below_under [OF wf, of _ r base] names by (simp add: scanned_def fun_eq_iff)
  ultimately show ?case unfolding scans_def by simp
qed

text \<open>One unit of fuel per node is enough: a node's depth is less than the number of nodes.\<close>

lemma depth_bound:
  assumes "wf_fs t" and "map_of t l \<noteq> None"
  shows "length l < length t"
proof -
  have "map_of t k \<noteq> None" if "prefix k l" for k
    using that assms wf_fs_above [OF assms, of k]
    by (cases "k = l") (auto simp: strict_prefix_def is_directory_iff)
  then have "set (prefixes l) \<subseteq> set (map fst t)"
    by (auto simp: map_of_eq_None_iff)
  then have "card (set (prefixes l)) \<le> card (set (map fst t))" by (intro card_mono) auto
  also have "\<dots> \<le> length t" by (metis card_length length_map)
  finally show ?thesis
    using distinct_card [OF distinct_prefixes, of l] by simp
qed

lemma join_inj:
  assumes "valid_loc a" "valid_loc b" "a \<noteq> []" "b \<noteq> []" "join_with ''/'' a = join_with ''/'' b"
  shows "a = b"
proof -
  have "split_on (\<lambda>y. y = CHR ''/'') (join_with ''/'' l) = l" if "valid_loc l" "l \<noteq> []" for l
    using that by (intro split_join) (auto simp: valid_loc_def valid_name_def list_all_iff)
  with assms show ?thesis by metis
qed

lemma analyze_root_scan:
  assumes wf: "wf_fs (w_fs w)" and g: "guard_new w root = Inr g" and gr: "guard_ok w g r"
  obtains F D L where "scanned (below w r []) F D L"
    and "analyze_root w root = Some (Inr \<lparr>ar_root = guard_root g,
      ar_files = sort_key fe_path (map (file_entry w r) F),
      ar_directories = sort (map (join_with ''/'') D),
      ar_skipped_entries = sort_key se_path (map link_entry L)\<rparr>)"
proof -
  have root: "guard_root g = path_of_loc r" "is_directory (map_of (w_fs w) r)"
    using gr by (auto simp: guard_ok_def)
  have "length s < scan_fuel w" if "map_of (w_fs w) (r @ [] @ s) \<noteq> None" for s
    using depth_bound [OF wf that] by (simp add: scan_fuel_def)
  with collect_files_scans [OF wf root(2), of "[]" "scan_fuel w" empty_scan] root(2)
  obtain F D L where "collect_files (scan_fuel w) w (path_of_loc r) (path_of_loc r) empty_scan
      = Some (Inr (extend w r empty_scan F D L))" and "scanned (below w r []) F D L"
    unfolding scans_def by auto
  with that g root(1) show thesis
    by (simp add: analyze_root_def extend_def empty_scan_def)
qed

lemma below_root: "below w r [] P = {rel. rel \<noteq> [] \<and> visible rel \<and> P (map_of (w_fs w) (r @ rel))}"
  by (auto simp: below_def)

lemma below_valid:
  assumes "wf_fs (w_fs w)" "\<not> P None" "rel \<in> below w r [] P"
  shows "valid_loc rel \<and> rel \<noteq> []"
proof -
  have "map_of (w_fs w) (r @ rel) \<noteq> None"
    using assms(2,3) by (cases "map_of (w_fs w) (r @ rel)") (simp_all add: below_root)
  then have "valid_loc (r @ rel)" by (rule wf_fs_valid [OF assms(1)])
  with assms(3) show ?thesis by (simp add: valid_loc_def below_root)
qed

lemma fe_path_file_entry [simp]: "fe_path (file_entry w r rel) = join_with ''/'' rel"
  by (simp add: file_entry_def Let_def)

lemma below_inj:
  assumes "wf_fs (w_fs w)" "\<not> P None"
  shows "inj_on (join_with ''/'') (below w r [] P)"
  using below_valid [where w = w and P = P and r = r, OF assms] join_inj by (blast intro: inj_onI)

text \<open>C21: a scan of an existing root always returns a report, and the report is exact: its files are
  the regular files below the root that are in no MouseKeeper directory, with their size, times and
  identity, each once and sorted by path; its directories are the visible directories, sorted; its
  skipped entries are the visible symbolic links, which are not followed.\<close>

theorem analyze_root_exact:
  assumes wf: "wf_fs (w_fs w)" and g: "guard_new w root = Inr g" and gr: "guard_ok w g r"
  shows "\<exists>rep. analyze_root w root = Some (Inr rep) \<and> ar_root rep = guard_root g
    \<and> set (ar_files rep) = file_entry w r ` below w r [] is_regular
    \<and> sorted (map fe_path (ar_files rep)) \<and> distinct (map fe_path (ar_files rep))
    \<and> set (ar_directories rep) = join_with ''/'' ` below w r [] is_directory
    \<and> sorted (ar_directories rep) \<and> distinct (ar_directories rep)
    \<and> set (ar_skipped_entries rep) = link_entry ` below w r [] is_link"
proof -
  obtain F D L where sc: "scanned (below w r []) F D L"
    and res: "analyze_root w root = Some (Inr \<lparr>ar_root = guard_root g,
      ar_files = sort_key fe_path (map (file_entry w r) F),
      ar_directories = sort (map (join_with ''/'') D),
      ar_skipped_entries = sort_key se_path (map link_entry L)\<rparr>)"
    using analyze_root_scan [OF assms] .
  have paths: "map fe_path (map (file_entry w r) F) = map (join_with ''/'') F" by simp
  have "distinct (map (join_with ''/'') F)" "distinct (map (join_with ''/'') D)"
    using sc below_inj [OF wf, of is_regular r] below_inj [OF wf, of is_directory r]
    by (simp_all add: scanned_def distinct_map)
  moreover have "mset (map fe_path (sort_key fe_path (map (file_entry w r) F)))
      = mset (map (join_with ''/'') F)"
    by (simp add: paths [symmetric] del: map_map)
  ultimately have "distinct (map fe_path (sort_key fe_path (map (file_entry w r) F)))"
    by (metis mset_eq_imp_distinct_iff)
  with sc res \<open>distinct (map (join_with ''/'') D)\<close> show ?thesis
    by (simp add: scanned_def)
qed

theorem analyze_root_exact_witness:
  "wf_fs (w_fs sample_world) \<and> guard_new sample_world ''/home/box'' = Inr sample_guard
   \<and> guard_ok sample_world sample_guard sample_root
   \<and> (\<exists>rep. analyze_root sample_world ''/home/box'' = Some (Inr rep)
        \<and> map fe_path (ar_files rep) = [''docs/old.txt'', ''notes.pdf''])"
proof -
  obtain rep where "analyze_root sample_world ''/home/box'' = Some (Inr rep)"
    using analyze_root_exact [OF sample_wf sample_guard_new sample_guard_ok] by blast
  moreover have "map_option (\<lambda>x. case x of Inl _ \<Rightarrow> [] | Inr rep \<Rightarrow> map fe_path (ar_files rep))
      (analyze_root sample_world ''/home/box'') = Some [''docs/old.txt'', ''notes.pdf'']"
    by code_simp
  ultimately show ?thesis using sample_wf sample_guard_new sample_guard_ok by simp
qed

end
