(* ===== verification/Proposal_Types.thy ===== *)
theory Proposal_Types
  imports Analyzer
begin

text \<open>
  The data of \<^verbatim>\<open>proposal.rs\<close> and its identifiers: proposals, their actions and the FNV-1a hash behind
  \<^verbatim>\<open>proposal_id\<close>, computed on 64-bit words with wrap-around as the code does.
\<close>

datatype ProposalAction = Move | Trash | CreateDir | CreateFile | ReadmeWrite

datatype ProposalStatus = Ready | DestinationExists

record Proposal =
  p_proposal_id :: string
  p_action :: ProposalAction
  p_from :: string
  p_to :: string
  p_content :: "string option"
  p_source_size_bytes :: nat
  p_source_modified_unix_ms :: "nat option"
  p_source_file_id :: "string option"
  p_reason :: string
  p_status :: ProposalStatus

record ProposalReport =
  pr_root :: string
  pr_proposals :: "Proposal list"

fun proposal_action_as_str :: "ProposalAction \<Rightarrow> string" where
  "proposal_action_as_str Move = ''move''"
| "proposal_action_as_str Trash = ''trash''"
| "proposal_action_as_str CreateDir = ''create_dir''"
| "proposal_action_as_str CreateFile = ''create_file''"
| "proposal_action_as_str ReadmeWrite = ''readme_write''"

definition normalize_id_part :: "string \<Rightarrow> string" where
  "normalize_id_part path = to_ascii_lowercase (replace_char (CHR 0x5C) (CHR ''/'') path)"

definition fnv1a64_step :: "64 word \<Rightarrow> char \<Rightarrow> 64 word" where
  "fnv1a64_step hash byte = xor hash (of_char byte) * 0x100000001b3"

definition fnv1a64 :: "string \<Rightarrow> 64 word" where
  "fnv1a64 bytes = foldl fnv1a64_step 0xcbf29ce484222325 bytes"

definition proposal_id :: "ProposalAction \<Rightarrow> string \<Rightarrow> string \<Rightarrow> string" where
  "proposal_id action src dst =
     (let input = proposal_action_as_str action @ ''|'' @ normalize_id_part src @ ''|''
                    @ normalize_id_part dst
      in proposal_action_as_str action @ '':'' @ hex016 (unat (fnv1a64 input)))"

section \<open>The hash\<close>

text \<open>The multiplier is odd, so a step is a bijection of the state for a fixed byte and separates
  the bytes for a fixed state: two inputs of the same length that differ in exactly one byte have
  different hashes.\<close>

lemma unit_cancel: "a = b" if "a * p = b * p" "p * q = 1" for a b p q :: "64 word"
proof -
  have "a = (a * p) * q" using that(2) by (simp add: mult.assoc)
  also have "\<dots> = (b * p) * q" by (simp only: that(1))
  also have "\<dots> = b" using that(2) by (simp add: mult.assoc)
  finally show ?thesis .
qed

lemma fnv_prime_cancel: "a * 0x100000001b3 = b * 0x100000001b3 \<Longrightarrow> a = b" for a b :: "64 word"
  by (erule unit_cancel [where q = "0xce965057aff6957b"]) simp

lemma xor_cancel: "xor h c = xor k c \<Longrightarrow> h = k" for h k c :: "64 word"
proof -
  assume "xor h c = xor k c"
  then have "xor (xor h c) c = xor (xor k c) c" by simp
  then show ?thesis by (simp only: xor.assoc xor_self_eq xor.right_neutral)
qed

lemma fnv1a64_step_inj_state: "fnv1a64_step h c = fnv1a64_step k c \<Longrightarrow> h = k"
  unfolding fnv1a64_step_def by (drule fnv_prime_cancel) (rule xor_cancel)

lemma of_char_word_inj: "of_char c = (of_char d :: 64 word) \<Longrightarrow> c = d"
proof -
  assume "of_char c = (of_char d :: 64 word)"
  then have "unat (word_of_nat (of_char c) :: 64 word) = unat (word_of_nat (of_char d) :: 64 word)"
    by (simp only: of_nat_of_char)
  moreover have "(of_char e :: nat) mod 2 ^ 64 = of_char e" for e
    by (rule mod_less, rule less_le_trans [OF nat_of_char_less_256]) simp
  ultimately have "(of_char c :: nat) = of_char d" by (simp add: unat_of_nat)
  then show ?thesis by simp
qed

lemma fnv1a64_step_inj_byte: "fnv1a64_step h c = fnv1a64_step h d \<Longrightarrow> c = d"
  unfolding fnv1a64_step_def
  by (drule fnv_prime_cancel) (rule of_char_word_inj, rule xor_cancel [of _ h], simp add: xor.commute)

lemma fnv1a64_fold_inj: "foldl fnv1a64_step h cs = foldl fnv1a64_step k cs \<Longrightarrow> h = k"
  by (induction cs arbitrary: h k) (auto dest: fnv1a64_step_inj_state)

lemma fnv1a64_one_byte:
  "fnv1a64 (pre @ c # post) = fnv1a64 (pre @ d # post) \<Longrightarrow> c = d"
  by (auto simp: fnv1a64_def dest!: fnv1a64_fold_inj fnv1a64_step_inj_byte)

text \<open>proposal ids for one action separate any two destination paths that differ, after
  normalisation, in exactly one byte: no such pair collides in the 64-bit hash.\<close>

theorem proposal_id_one_byte:
  assumes "normalize_id_part dst = pre @ c # post" "normalize_id_part dst' = pre @ d # post" "c \<noteq> d"
  shows "proposal_id action src dst \<noteq> proposal_id action src dst'"
proof
  let ?pre = "proposal_action_as_str action @ ''|'' @ normalize_id_part src @ ''|'' @ pre"
  assume "proposal_id action src dst = proposal_id action src dst'"
  then have "hex016 (unat (fnv1a64 (?pre @ c # post))) = hex016 (unat (fnv1a64 (?pre @ d # post)))"
    using assms by (simp add: proposal_id_def Let_def del: hex_digits.simps)
  moreover have "unat x < 16 ^ 16" for x :: "64 word" using unsigned_less [of x] by simp
  ultimately have "fnv1a64 (?pre @ c # post) = fnv1a64 (?pre @ d # post)"
    by (metis hex_digits_inj unsigned_word_eqI)
  with assms(3) show False using fnv1a64_one_byte by blast
qed

theorem proposal_id_one_byte_witness:
  "proposal_id Move ''a.txt'' ''docs/a.txt'' \<noteq> proposal_id Move ''a.txt'' ''dots/a.txt''"
  by (rule proposal_id_one_byte [of _ "''do''" "CHR ''c''" "''s/a.txt''" _ "CHR ''t''"]; code_simp)

text \<open>Ids ignore ASCII case: the moves of \<^verbatim>\<open>A.txt\<close> and \<^verbatim>\<open>a.txt\<close> into one directory, two different
  files on a case-sensitive file system, have the same proposal id.\<close>

theorem proposal_id_case_collision:
  "proposal_id Move ''A.txt'' ''docs/A.txt'' = proposal_id Move ''a.txt'' ''docs/a.txt''"
proof -
  have "normalize_id_part ''A.txt'' = normalize_id_part ''a.txt''"
    "normalize_id_part ''docs/A.txt'' = normalize_id_part ''docs/a.txt''" by code_simp+
  then show ?thesis by (simp only: proposal_id_def)
qed

end
