(* ===== verification/Rules.thy ===== *)
theory Rules
  imports Proposal_Types Glob
begin

text \<open>
  \<^verbatim>\<open>rules/definition.rs\<close> and \<^verbatim>\<open>rules/mod.rs\<close>: the rule language. Rule sets come from users and language
  models, so what matters is that validation is a sharp gate, that a validated set can only propose
  targets inside the managed root, that the outcome does not depend on the order in which the rules are
  written, and that a server-side contract definition means the same after its translation.

  The JSON readers (\<^verbatim>\<open>serde_json\<close>) are parameters: functions from the raw value or text to the error
  message or the parsed structure.
\<close>

section \<open>Data\<close>

definition CURRENT_RULES_VERSION :: nat where
  "CURRENT_RULES_VERSION = 1"

definition RULES_FILE :: string where
  "RULES_FILE = ''rules.json''"

definition DAY_MS :: nat where
  "DAY_MS = 24 * 60 * 60 * 1000"

datatype FileKind = File | Directory

record Condition =
  extension_in :: "string list option"
  older_than_days :: "nat option"
  modified_age_days_gte :: "nat option"
  modified_age_days_gt :: "nat option"
  created_age_days_gte :: "nat option"
  created_age_days_gt :: "nat option"
  size_bytes_gte :: "nat option"
  size_bytes_lte :: "nat option"
  relative_path_starts_with :: "string option"
  file_kind :: "FileKind option"
  name_matches :: "string option"
  name_contains :: "string option"
  name_starts_with :: "string option"
  name_ends_with :: "string option"

definition Condition_default :: Condition where
  "Condition_default =
     \<lparr>extension_in = None, older_than_days = None, modified_age_days_gte = None,
      modified_age_days_gt = None, created_age_days_gte = None, created_age_days_gt = None,
      size_bytes_gte = None, size_bytes_lte = None, relative_path_starts_with = None,
      file_kind = None, name_matches = None, name_contains = None, name_starts_with = None,
      name_ends_with = None\<rparr>"

record Action =
  move_to :: "string option"
  act_trash :: bool
  create_dir :: "string option"

record Rule =
  rule_id :: string
  rule_priority :: int
  rule_when :: Condition
  rule_then :: Action

record RuleSet =
  rs_version :: nat
  rs_rules :: "Rule list"

datatype RuleError =
    UnsupportedVersion nat nat
  | EmptyRuleId
  | DuplicateRuleId string
  | EmptyCondition string
  | EmptyExtensionList string
  | InvalidExtension string string
  | EmptyNamePattern string
  | InvalidTarget string string string
  | InvalidCondition string string string
  | ParseContract string
  | Read string string
  | Parse string string
  | Serialize string

fun rule_error_to_string :: "RuleError \<Rightarrow> string" where
  "rule_error_to_string (UnsupportedVersion found supported) =
     ''unsupported rules version '' @ dec found @ ''; this build supports version '' @ dec supported"
| "rule_error_to_string EmptyRuleId = ''rule id cannot be empty''"
| "rule_error_to_string (DuplicateRuleId i) = ''duplicate rule id: '' @ i"
| "rule_error_to_string (EmptyCondition i) =
     ''rule '' @ [CHR 0x27] @ i @ [CHR 0x27] @ '' must have at least one condition''"
| "rule_error_to_string (EmptyExtensionList i) =
     ''rule '' @ [CHR 0x27] @ i @ [CHR 0x27] @ '' has an empty extension_in list''"
| "rule_error_to_string (InvalidExtension rule ext) =
     ''rule '' @ [CHR 0x27] @ rule @ [CHR 0x27] @ '' has an invalid extension '' @ [CHR 0x27] @ ext
       @ [CHR 0x27] @ '' (use bare extensions like '' @ [CHR 0x22] @ ''pdf'' @ [CHR 0x22] @ '')''"
| "rule_error_to_string (EmptyNamePattern i) =
     ''rule '' @ [CHR 0x27] @ i @ [CHR 0x27] @ '' has an empty name_matches pattern''"
| "rule_error_to_string (InvalidTarget rule target message) =
     ''rule '' @ [CHR 0x27] @ rule @ [CHR 0x27] @ '' has an invalid destination '' @ [CHR 0x27]
       @ target @ [CHR 0x27] @ '': '' @ message"
| "rule_error_to_string (InvalidCondition rule condition message) =
     ''rule '' @ [CHR 0x27] @ rule @ [CHR 0x27] @ '' has an invalid condition '' @ [CHR 0x27]
       @ condition @ [CHR 0x27] @ '': '' @ message"
| "rule_error_to_string (ParseContract message) =
     ''cannot parse rule contract definition: '' @ message"
| "rule_error_to_string (Read path message) = ''cannot read rules '' @ path @ '': '' @ message"
| "rule_error_to_string (Parse path message) = ''cannot parse rules '' @ path @ '': '' @ message"
| "rule_error_to_string (Serialize message) = ''cannot serialize rules: '' @ message"

section \<open>Validation\<close>

fun reject_dir_components :: "component list \<Rightarrow> string + unit" where
  "reject_dir_components [] = Inr ()"
| "reject_dir_components (RootDir # cs) =
     Inl ''destination must be relative to the managed root''"
| "reject_dir_components (ParentDir # cs) = Inl ''destination cannot contain parent traversal''"
| "reject_dir_components (CurDir # cs) =
     Inl ''destination cannot contain current-directory segments''"
| "reject_dir_components (Normal s # cs) = reject_dir_components cs"

definition validate_relative_dir :: "string \<Rightarrow> string + unit" where
  "validate_relative_dir target =
     (if trim target = [] then Inl ''destination is empty''
      else if CHR 0x00 \<in> set target then Inl ''destination cannot contain NUL''
      else reject_dir_components (components target))"

definition validate_relative_path_prefix :: "string \<Rightarrow> string + unit" where
  "validate_relative_path_prefix p = map_err (\<lambda>message. ''prefix '' @ message) (validate_relative_dir p)"

definition condition_is_empty :: "Condition \<Rightarrow> bool" where
  "condition_is_empty c \<longleftrightarrow>
     extension_in c = None \<and> older_than_days c = None \<and> modified_age_days_gte c = None
     \<and> modified_age_days_gt c = None \<and> created_age_days_gte c = None
     \<and> created_age_days_gt c = None \<and> size_bytes_gte c = None \<and> size_bytes_lte c = None
     \<and> relative_path_starts_with c = None \<and> file_kind c = None \<and> name_matches c = None
     \<and> name_contains c = None \<and> name_starts_with c = None \<and> name_ends_with c = None"

fun validate_extensions :: "string \<Rightarrow> string list \<Rightarrow> RuleError + unit" where
  "validate_extensions i [] = Inr ()"
| "validate_extensions i (e # es) =
     (if trim e = [] \<or> CHR ''.'' \<in> set e then Inl (InvalidExtension i e)
      else validate_extensions i es)"

fun validate_name_conditions :: "string \<Rightarrow> (string \<times> string option) list \<Rightarrow> RuleError + unit" where
  "validate_name_conditions i [] = Inr ()"
| "validate_name_conditions i ((label, v) # rest) =
     (if (case v of None \<Rightarrow> False | Some pattern \<Rightarrow> trim pattern = [])
      then Inl (InvalidCondition i label ''name condition cannot be empty'')
      else validate_name_conditions i rest)"

definition validate_target :: "string \<Rightarrow> string option \<Rightarrow> RuleError + unit" where
  "validate_target i target =
     (case target of
        None \<Rightarrow> Inr ()
      | Some t \<Rightarrow> map_err (InvalidTarget i t) (validate_relative_dir t))"

definition action_count :: "Action \<Rightarrow> nat" where
  "action_count a = of_bool (move_to a \<noteq> None) + of_bool (act_trash a) + of_bool (create_dir a \<noteq> None)"

definition rule_validate :: "Rule \<Rightarrow> RuleError + unit" where
  "rule_validate r =
     (let i = rule_id r; c = rule_when r; a = rule_then r
      in if trim i = [] then Inl EmptyRuleId
         else if condition_is_empty c then Inl (EmptyCondition i)
         else bind_res
           (case extension_in c of
              None \<Rightarrow> Inr ()
            | Some es \<Rightarrow> if es = [] then Inl (EmptyExtensionList i) else validate_extensions i es)
           (\<lambda>_. bind_res
             (case name_matches c of
                None \<Rightarrow> Inr ()
              | Some pattern \<Rightarrow> if trim pattern = [] then Inl (EmptyNamePattern i) else Inr ())
             (\<lambda>_. bind_res
               (validate_name_conditions i
                  [(''name_contains'', name_contains c), (''name_starts_with'', name_starts_with c),
                   (''name_ends_with'', name_ends_with c)])
               (\<lambda>_. bind_res
                 (case relative_path_starts_with c of
                    None \<Rightarrow> Inr ()
                  | Some p \<Rightarrow> map_err (InvalidCondition i ''relative_path_starts_with'')
                                (validate_relative_path_prefix p))
                 (\<lambda>_. if action_count a \<noteq> 1
                      then Inl (InvalidTarget i ''action'' ''choose exactly one action'')
                      else bind_res (validate_target i (move_to a))
                        (\<lambda>_. validate_target i (create_dir a)))))))"

fun validate_rules :: "string set \<Rightarrow> Rule list \<Rightarrow> RuleError + unit" where
  "validate_rules seen [] = Inr ()"
| "validate_rules seen (r # rs) =
     bind_res (rule_validate r) (\<lambda>_.
       if rule_id r \<in> seen then Inl (DuplicateRuleId (rule_id r))
       else validate_rules (insert (rule_id r) seen) rs)"

definition rule_set_validate :: "RuleSet \<Rightarrow> RuleError + unit" where
  "rule_set_validate s =
     (if rs_version s \<noteq> CURRENT_RULES_VERSION
      then Inl (UnsupportedVersion (rs_version s) CURRENT_RULES_VERSION)
      else validate_rules {} (rs_rules s))"

section \<open>Contract definitions\<close>

datatype ContractMatchMode = All | Any
datatype ContractInOperator = In
datatype ContractGteOperator = Gte
datatype ContractAgeOperator = Gte | Gt
datatype ContractSizeOperator = Gte | Lte
datatype ContractStartsWithOperator = StartsWith
datatype ContractEqOperator = Eq
datatype ContractNameOperator = Contains | StartsWith | EndsWith

datatype ContractCondition =
    Extension ContractInOperator "string list"
  | AgeDays ContractGteOperator nat
  | ModifiedAgeDays ContractAgeOperator nat
  | CreatedAgeDays ContractAgeOperator nat
  | SizeBytes ContractSizeOperator nat
  | RelativePath ContractStartsWithOperator string
  | FileKind ContractEqOperator FileKind
  | Name ContractNameOperator string

datatype ContractAction = Move string | Quarantine | Trash | CreateDir string

record ContractRuleDefinition =
  match_mode :: ContractMatchMode
  cd_conditions :: "ContractCondition list"
  cd_action :: ContractAction

fun into_action :: "ContractAction \<Rightarrow> Action" where
  "into_action (ContractAction.Move destination_template) =
     \<lparr>move_to = Some destination_template, act_trash = False, create_dir = None\<rparr>"
| "into_action Quarantine = \<lparr>move_to = None, act_trash = True, create_dir = None\<rparr>"
| "into_action ContractAction.Trash = \<lparr>move_to = None, act_trash = True, create_dir = None\<rparr>"
| "into_action (ContractAction.CreateDir path) =
     \<lparr>move_to = None, act_trash = False, create_dir = Some path\<rparr>"

definition set_once :: "string \<Rightarrow> string \<Rightarrow> 'a option \<Rightarrow> 'a \<Rightarrow> RuleError + 'a option" where
  "set_once i condition target v =
     (if target \<noteq> None then Inl (InvalidCondition i condition ''duplicate condition is ambiguous'')
      else Inr (Some v))"

definition bare_extension :: "string \<Rightarrow> string" where
  "bare_extension ext = (case trim ext of (CHR ''.'' # rest) \<Rightarrow> rest | t \<Rightarrow> t)"

definition normalize_contract_extension :: "string \<Rightarrow> string \<Rightarrow> RuleError + string" where
  "normalize_contract_extension i ext =
     (let bare = bare_extension ext
      in if bare = [] \<or> CHR ''.'' \<in> set bare then Inl (InvalidExtension i ext)
         else Inr (to_ascii_lowercase bare))"

fun apply_contract_condition ::
  "string \<Rightarrow> Condition \<Rightarrow> ContractCondition \<Rightarrow> RuleError + Condition" where
  "apply_contract_condition i c (Extension _ v) =
     bind_res (collect_results (map (normalize_contract_extension i) v)) (\<lambda>es.
       map_sum id (\<lambda>x. c\<lparr>extension_in := x\<rparr>) (set_once i ''extension_in'' (extension_in c) es))"
| "apply_contract_condition i c (AgeDays _ v) =
     map_sum id (\<lambda>x. c\<lparr>older_than_days := x\<rparr>)
       (set_once i ''older_than_days'' (older_than_days c) v)"
| "apply_contract_condition i c (ModifiedAgeDays ContractAgeOperator.Gte v) =
     map_sum id (\<lambda>x. c\<lparr>modified_age_days_gte := x\<rparr>)
       (set_once i ''modified_age_days_gte'' (modified_age_days_gte c) v)"
| "apply_contract_condition i c (ModifiedAgeDays ContractAgeOperator.Gt v) =
     map_sum id (\<lambda>x. c\<lparr>modified_age_days_gt := x\<rparr>)
       (set_once i ''modified_age_days_gt'' (modified_age_days_gt c) v)"
| "apply_contract_condition i c (CreatedAgeDays ContractAgeOperator.Gte v) =
     map_sum id (\<lambda>x. c\<lparr>created_age_days_gte := x\<rparr>)
       (set_once i ''created_age_days_gte'' (created_age_days_gte c) v)"
| "apply_contract_condition i c (CreatedAgeDays ContractAgeOperator.Gt v) =
     map_sum id (\<lambda>x. c\<lparr>created_age_days_gt := x\<rparr>)
       (set_once i ''created_age_days_gt'' (created_age_days_gt c) v)"
| "apply_contract_condition i c (SizeBytes ContractSizeOperator.Gte v) =
     map_sum id (\<lambda>x. c\<lparr>size_bytes_gte := x\<rparr>)
       (set_once i ''size_bytes_gte'' (size_bytes_gte c) v)"
| "apply_contract_condition i c (SizeBytes ContractSizeOperator.Lte v) =
     map_sum id (\<lambda>x. c\<lparr>size_bytes_lte := x\<rparr>)
       (set_once i ''size_bytes_lte'' (size_bytes_lte c) v)"
| "apply_contract_condition i c (RelativePath _ v) =
     map_sum id (\<lambda>x. c\<lparr>relative_path_starts_with := x\<rparr>)
       (set_once i ''relative_path_starts_with'' (relative_path_starts_with c) v)"
| "apply_contract_condition i c (FileKind _ v) =
     map_sum id (\<lambda>x. c\<lparr>file_kind := x\<rparr>) (set_once i ''file_kind'' (file_kind c) v)"
| "apply_contract_condition i c (Name ContractNameOperator.Contains v) =
     map_sum id (\<lambda>x. c\<lparr>name_contains := x\<rparr>)
       (set_once i ''name_contains'' (name_contains c) v)"
| "apply_contract_condition i c (Name ContractNameOperator.StartsWith v) =
     map_sum id (\<lambda>x. c\<lparr>name_starts_with := x\<rparr>)
       (set_once i ''name_starts_with'' (name_starts_with c) v)"
| "apply_contract_condition i c (Name ContractNameOperator.EndsWith v) =
     map_sum id (\<lambda>x. c\<lparr>name_ends_with := x\<rparr>)
       (set_once i ''name_ends_with'' (name_ends_with c) v)"

fun apply_all :: "string \<Rightarrow> Condition \<Rightarrow> ContractCondition list \<Rightarrow> RuleError + Condition" where
  "apply_all i c [] = Inr c"
| "apply_all i c (k # ks) = bind_res (apply_contract_condition i c k) (\<lambda>c'. apply_all i c' ks)"

definition any_rule :: "string \<Rightarrow> int \<Rightarrow> Action \<Rightarrow> nat \<Rightarrow> ContractCondition \<Rightarrow> RuleError + Rule" where
  "any_rule i priority action index k =
     (let i' = i @ ''-any-'' @ dec (index + 1)
      in bind_res (apply_contract_condition i' Condition_default k) (\<lambda>c.
           Inr \<lparr>rule_id = i', rule_priority = priority, rule_when = c, rule_then = action\<rparr>))"

definition into_rule_set ::
  "ContractRuleDefinition \<Rightarrow> string \<Rightarrow> int \<Rightarrow> RuleError + RuleSet" where
  "into_rule_set d i priority =
     (let action = into_action (cd_action d)
      in bind_res
        (case match_mode d of
           All \<Rightarrow> bind_res (apply_all i Condition_default (cd_conditions d)) (\<lambda>c.
             Inr [\<lparr>rule_id = i, rule_priority = priority, rule_when = c, rule_then = action\<rparr>])
         | Any \<Rightarrow> collect_results (map (\<lambda>(index, k). any_rule i priority action index k)
                    (enumerate 0 (cd_conditions d))))
        (\<lambda>rules.
           let rs = \<lparr>rs_version = CURRENT_RULES_VERSION, rs_rules = rules\<rparr>
           in bind_res (rule_set_validate rs) (\<lambda>_. Inr rs)))"

definition from_contract_definition ::
  "('v \<Rightarrow> string + ContractRuleDefinition) \<Rightarrow> string \<Rightarrow> int \<Rightarrow> 'v \<Rightarrow> RuleError + RuleSet" where
  "from_contract_definition parse_contract i priority definition_value =
     bind_res (map_err ParseContract (parse_contract definition_value))
       (\<lambda>d. into_rule_set d i priority)"

definition rule_set_from_draft_value ::
  "('v \<Rightarrow> string + RuleSet) \<Rightarrow> ('v \<Rightarrow> string + ContractRuleDefinition) \<Rightarrow> 'v \<Rightarrow> RuleError + RuleSet" where
  "rule_set_from_draft_value parse_rule_set parse_contract v =
     (case parse_rule_set v of
        Inr rs \<Rightarrow> bind_res (rule_set_validate rs) (\<lambda>_. Inr rs)
      | Inl internal_error \<Rightarrow>
          map_err (\<lambda>contract_error. ParseContract
              (''internal RuleSet parse failed: '' @ internal_error
               @ ''; contract RuleDefinition parse failed: '' @ rule_error_to_string contract_error))
            (from_contract_definition parse_contract ''draft-rule'' 0 v))"

end
