(* ===== verification/Rule_Engine.thy ===== *)
theory Rule_Engine
  imports Rules
begin

text \<open>
  \<^verbatim>\<open>rules/mod.rs\<close>: matching a file against a rule, the proposal a rule makes, the built-in rule set and
  the loader of a root's \<^verbatim>\<open>rules.json\<close>; then the theorems about rules and validation.
\<close>

section \<open>Model\<close>

datatype AgeCompare = Gte | Gt

record RuleContext =
  existing_paths :: "string set"
  now_unix_ms :: nat

definition normalize_relative_path :: "string \<Rightarrow> string" where
  "normalize_relative_path path = to_ascii_lowercase (replace_char (CHR 0x5C) (CHR ''/'') path)"

definition extension_of :: "string \<Rightarrow> string option" where
  "extension_of path = map_option to_ascii_lowercase (extension path)"

definition age_days_matches :: "nat option \<Rightarrow> nat \<Rightarrow> nat \<Rightarrow> AgeCompare \<Rightarrow> bool" where
  "age_days_matches timestamp now days compare =
     (case timestamp of
        None \<Rightarrow> False
      | Some ts \<Rightarrow>
          let age = now - ts; threshold = days * DAY_MS
          in case compare of AgeCompare.Gte \<Rightarrow> threshold \<le> age | AgeCompare.Gt \<Rightarrow> threshold < age)"

definition relative_path_has_prefix :: "string \<Rightarrow> string \<Rightarrow> bool" where
  "relative_path_has_prefix path prfx =
     (let path = trim_matches_char (CHR ''/'') (normalize_relative_path path);
          prfx = trim_matches_char (CHR ''/'') (normalize_relative_path prfx)
      in path = prfx \<or> starts_with_str path (prfx @ ''/''))"

definition contains_ignore_case :: "string \<Rightarrow> string \<Rightarrow> bool" where
  "contains_ignore_case v needle = contains_str (to_ascii_lowercase v) (to_ascii_lowercase needle)"

definition starts_with_ignore_case :: "string \<Rightarrow> string \<Rightarrow> bool" where
  "starts_with_ignore_case v p = starts_with_str (to_ascii_lowercase v) (to_ascii_lowercase p)"

definition ends_with_ignore_case :: "string \<Rightarrow> string \<Rightarrow> bool" where
  "ends_with_ignore_case v s = ends_with_str (to_ascii_lowercase v) (to_ascii_lowercase s)"

text \<open>\<^verbatim>\<open>if let Some(x) = condition \<dots>\<close> and \<^verbatim>\<open>Option::is_some_and\<close>.\<close>

definition if_some :: "'a option \<Rightarrow> ('a \<Rightarrow> bool) \<Rightarrow> bool" where
  "if_some c P = (case c of None \<Rightarrow> True | Some x \<Rightarrow> P x)"

definition is_some_and :: "'a option \<Rightarrow> ('a \<Rightarrow> bool) \<Rightarrow> bool" where
  "is_some_and c P = (case c of None \<Rightarrow> False | Some x \<Rightarrow> P x)"

definition rule_matches :: "Rule \<Rightarrow> FileEntry \<Rightarrow> RuleContext \<Rightarrow> bool" where
  "rule_matches rule file context \<longleftrightarrow>
     (let c = rule_when rule; name = file_name (fe_path file); now = now_unix_ms context
      in if_some (extension_in c) (\<lambda>es. is_some_and (extension_of (fe_path file))
           (\<lambda>ext. \<exists>candidate \<in> set es. eq_ignore_ascii_case candidate ext))
       \<and> if_some (older_than_days c) (\<lambda>days. is_some_and (fe_modified_unix_ms file)
           (\<lambda>modified. \<not> now - modified < days * DAY_MS))
       \<and> if_some (modified_age_days_gte c)
           (\<lambda>days. age_days_matches (fe_modified_unix_ms file) now days AgeCompare.Gte)
       \<and> if_some (modified_age_days_gt c)
           (\<lambda>days. age_days_matches (fe_modified_unix_ms file) now days AgeCompare.Gt)
       \<and> if_some (created_age_days_gte c)
           (\<lambda>days. age_days_matches (fe_created_unix_ms file) now days AgeCompare.Gte)
       \<and> if_some (created_age_days_gt c)
           (\<lambda>days. age_days_matches (fe_created_unix_ms file) now days AgeCompare.Gt)
       \<and> if_some (size_bytes_gte c) (\<lambda>min_size. \<not> fe_size_bytes file < min_size)
       \<and> if_some (size_bytes_lte c) (\<lambda>max_size. \<not> max_size < fe_size_bytes file)
       \<and> if_some (relative_path_starts_with c) (relative_path_has_prefix (fe_path file))
       \<and> if_some (file_kind c) (\<lambda>kind. kind = FileKind.File)
       \<and> if_some (name_matches c)
           (\<lambda>pattern. is_some_and name (\<lambda>n. glob_match pattern n = Some True))
       \<and> if_some (name_contains c) (\<lambda>x. is_some_and name (\<lambda>n. contains_ignore_case n x))
       \<and> if_some (name_starts_with c) (\<lambda>x. is_some_and name (\<lambda>n. starts_with_ignore_case n x))
       \<and> if_some (name_ends_with c) (\<lambda>x. is_some_and name (\<lambda>n. ends_with_ignore_case n x)))"

abbreviation quoted :: "string \<Rightarrow> string" where
  "quoted s \<equiv> [CHR 0x27] @ s @ [CHR 0x27]"

definition reason_for :: "Rule \<Rightarrow> FileEntry \<Rightarrow> string" where
  "reason_for rule file =
     (if act_trash (rule_then rule)
      then ''rule '' @ quoted (rule_id rule) @ '' moves this into recoverable trash''
      else let dest = (case move_to (rule_then rule) of None \<Rightarrow> ''destination'' | Some d \<Rightarrow> d)
           in case (extension_in (rule_when rule) \<noteq> None, extension_of (fe_path file)) of
                (True, Some ext) \<Rightarrow> ''.'' @ ext @ '' files belong in '' @ dest @ ''/''
              | _ \<Rightarrow> ''rule '' @ quoted (rule_id rule) @ '' moves this into '' @ dest @ ''/'')"

definition target_status :: "RuleContext \<Rightarrow> string \<Rightarrow> ProposalStatus" where
  "target_status context normalized_target =
     (if normalized_target \<in> existing_paths context then DestinationExists else Ready)"

definition move_proposal_from_rule ::
  "Rule \<Rightarrow> FileEntry \<Rightarrow> RuleContext \<Rightarrow> string \<Rightarrow> Proposal option" where
  "move_proposal_from_rule rule file context dest =
     (case file_name (fe_path file) of
        None \<Rightarrow> None
      | Some name \<Rightarrow>
          let target = dest @ ''/'' @ name; normalized_target = normalize_relative_path target
          in if normalize_relative_path (fe_path file) = normalized_target then None
             else Some
               \<lparr>p_proposal_id = proposal_id ProposalAction.Move (fe_path file) target,
                p_action = ProposalAction.Move, p_from = fe_path file, p_to = target,
                p_content = None, p_source_size_bytes = fe_size_bytes file,
                p_source_modified_unix_ms = fe_modified_unix_ms file,
                p_source_file_id = fe_file_id file, p_reason = reason_for rule file,
                p_status = target_status context normalized_target\<rparr>)"

definition trash_proposal_from_rule :: "Rule \<Rightarrow> FileEntry \<Rightarrow> Proposal option" where
  "trash_proposal_from_rule rule file = Some
     \<lparr>p_proposal_id = proposal_id ProposalAction.Trash (fe_path file) TRASH_DIR,
      p_action = ProposalAction.Trash, p_from = fe_path file, p_to = TRASH_DIR,
      p_content = None, p_source_size_bytes = fe_size_bytes file,
      p_source_modified_unix_ms = fe_modified_unix_ms file,
      p_source_file_id = fe_file_id file, p_reason = reason_for rule file, p_status = Ready\<rparr>"

definition create_dir_proposal_from_rule :: "Rule \<Rightarrow> RuleContext \<Rightarrow> string \<Rightarrow> Proposal option" where
  "create_dir_proposal_from_rule rule context target = Some
     \<lparr>p_proposal_id = proposal_id ProposalAction.CreateDir '''' target,
      p_action = ProposalAction.CreateDir, p_from = '''', p_to = target,
      p_content = None, p_source_size_bytes = 0, p_source_modified_unix_ms = None,
      p_source_file_id = None,
      p_reason = ''rule '' @ quoted (rule_id rule) @ '' creates this managed-root directory'',
      p_status = target_status context (normalize_relative_path target)\<rparr>"

definition proposal_from_rule :: "Rule \<Rightarrow> FileEntry \<Rightarrow> RuleContext \<Rightarrow> Proposal option" where
  "proposal_from_rule rule file context =
     (if \<not> rule_matches rule file context then None
      else (case (move_to (rule_then rule), act_trash (rule_then rule), create_dir (rule_then rule)) of
              (Some dest, False, None) \<Rightarrow> move_proposal_from_rule rule file context dest
            | (None, True, None) \<Rightarrow> trash_proposal_from_rule rule file
            | (None, False, Some dir) \<Rightarrow> create_dir_proposal_from_rule rule context dir
            | _ \<Rightarrow> None))"

fun find_map :: "('a \<Rightarrow> 'b option) \<Rightarrow> 'a list \<Rightarrow> 'b option" where
  "find_map f [] = None"
| "find_map f (x # xs) = (case f x of None \<Rightarrow> find_map f xs | Some y \<Rightarrow> Some y)"

abbreviation rule_order :: "Rule \<Rightarrow> int \<times> string" where
  "rule_order r \<equiv> (rule_priority r, rule_id r)"

definition propose :: "RuleSet \<Rightarrow> FileEntry \<Rightarrow> RuleContext \<Rightarrow> Proposal option" where
  "propose rs file context =
     find_map (\<lambda>rule. proposal_from_rule rule file context) (sort_key rule_order (rs_rules rs))"

definition preset_rule :: "string \<Rightarrow> string list \<Rightarrow> string \<Rightarrow> Rule" where
  "preset_rule i extensions dest =
     \<lparr>rule_id = i, rule_priority = 10,
      rule_when = Condition_default\<lparr>extension_in := Some extensions\<rparr>,
      rule_then = \<lparr>move_to = Some dest, act_trash = False, create_dir = None\<rparr>\<rparr>"

definition default_rule_set :: RuleSet where
  "default_rule_set =
     \<lparr>rs_version = CURRENT_RULES_VERSION,
      rs_rules = [preset_rule ''documents'' [''md'', ''pdf'', ''doc'', ''docx'', ''txt''] ''documents'',
                  preset_rule ''images'' [''png'', ''jpg'', ''jpeg'', ''gif'', ''webp''] ''images'',
                  preset_rule ''archives'' [''zip'', ''tar'', ''gz'', ''7z''] ''archives'']\<rparr>"

definition load_rule_set_for_root ::
  "(string \<Rightarrow> string + RuleSet) \<Rightarrow> world \<Rightarrow> string \<Rightarrow> RuleError + RuleSet" where
  "load_rule_set_for_root parse_rules w root =
     (let path = join_path (join_path root STATE_DIR) RULES_FILE
      in if \<not> path_exists w path then Inr default_rule_set
         else bind_res (map_err (\<lambda>error. Read path (io_error_to_string error)) (fs_read w path))
           (\<lambda>content. bind_res (map_err (Parse path) (parse_rules (trim_bom content)))
              (\<lambda>rs. bind_res (rule_set_validate rs) (\<lambda>_. Inr rs))))"

section \<open>What validation accepts\<close>

definition dir_ok :: "string \<Rightarrow> bool" where
  "dir_ok t \<longleftrightarrow> trim t \<noteq> [] \<and> CHR 0x00 \<notin> set t \<and> (\<forall>c \<in> set (components t). \<exists>s. c = Normal s)"

definition nonblank :: "string option \<Rightarrow> bool" where
  "nonblank p \<longleftrightarrow> if_some p (\<lambda>x. trim x \<noteq> [])"

definition one_action :: "Action \<Rightarrow> bool" where
  "one_action a \<longleftrightarrow>
     (\<exists>d. a = \<lparr>move_to = Some d, act_trash = False, create_dir = None\<rparr> \<and> dir_ok d)
     \<or> a = \<lparr>move_to = None, act_trash = True, create_dir = None\<rparr>
     \<or> (\<exists>d. a = \<lparr>move_to = None, act_trash = False, create_dir = Some d\<rparr> \<and> dir_ok d)"

definition rule_ok :: "Rule \<Rightarrow> bool" where
  "rule_ok r \<longleftrightarrow> trim (rule_id r) \<noteq> [] \<and> \<not> condition_is_empty (rule_when r)
     \<and> if_some (extension_in (rule_when r))
         (\<lambda>es. es \<noteq> [] \<and> (\<forall>e \<in> set es. trim e \<noteq> [] \<and> CHR ''.'' \<notin> set e))
     \<and> nonblank (name_matches (rule_when r)) \<and> nonblank (name_contains (rule_when r))
     \<and> nonblank (name_starts_with (rule_when r)) \<and> nonblank (name_ends_with (rule_when r))
     \<and> if_some (relative_path_starts_with (rule_when r)) dir_ok
     \<and> one_action (rule_then r)"

lemma reject_dir_components_ok:
  "reject_dir_components cs = Inr u \<longleftrightarrow> (\<forall>c \<in> set cs. \<exists>s. c = Normal s)"
  by (induction cs rule: reject_dir_components.induct) auto

lemma validate_relative_dir_ok: "validate_relative_dir t = Inr u \<longleftrightarrow> dir_ok t"
  by (simp add: validate_relative_dir_def dir_ok_def reject_dir_components_ok)

lemma validate_extensions_ok:
  "validate_extensions i es = Inr u \<longleftrightarrow> (\<forall>e \<in> set es. trim e \<noteq> [] \<and> CHR ''.'' \<notin> set e)"
  by (induction es) auto

lemma validate_name_conditions_ok:
  "validate_name_conditions i xs = Inr u \<longleftrightarrow> (\<forall>(l, v) \<in> set xs. nonblank v)"
  by (induction xs) (auto simp: nonblank_def if_some_def split: option.splits if_splits)

lemma one_action_iff:
  "one_action a \<longleftrightarrow> action_count a = 1 \<and> if_some (move_to a) dir_ok \<and> if_some (create_dir a) dir_ok"
  by (cases a)
    (auto simp: one_action_def action_count_def if_some_def of_bool_def split: option.splits if_splits)

lemma rule_validate_ok: "rule_validate r = Inr u \<longleftrightarrow> rule_ok r"
  unfolding rule_validate_def rule_ok_def one_action_iff
  by (auto simp: Let_def bind_res_Inr_iff validate_extensions_ok validate_name_conditions_ok
      validate_relative_dir_ok validate_relative_path_prefix_def validate_target_def
      if_some_def nonblank_def split: option.splits)

lemma validate_rules_ok:
  "validate_rules seen rs = Inr u \<longleftrightarrow>
     (\<forall>r \<in> set rs. rule_ok r) \<and> distinct (map rule_id rs) \<and> rule_id ` set rs \<inter> seen = {}"
  by (induction rs arbitrary: seen) (auto simp: bind_res_Inr_iff rule_validate_ok)

text \<open>validation of a rule set succeeds exactly when the version is the supported one, every rule
  has an id, at least one condition, well-formed extension, name and prefix conditions and exactly
  one action whose directory has only plain components, and no two rules share an id.\<close>

theorem rule_set_validate_iff:
  "rule_set_validate rs = Inr () \<longleftrightarrow>
     rs_version rs = CURRENT_RULES_VERSION \<and> (\<forall>r \<in> set (rs_rules rs). rule_ok r)
     \<and> distinct (map rule_id (rs_rules rs))"
  by (simp add: rule_set_validate_def validate_rules_ok)

theorem rule_set_validate_iff_witness:
  "distinct (map rule_id (rs_rules default_rule_set)) \<and> (\<exists>r \<in> set (rs_rules default_rule_set). rule_ok r)"
proof -
  have "rule_set_validate default_rule_set = Inr () \<and> rs_rules default_rule_set \<noteq> []" by code_simp
  with rule_set_validate_iff [of default_rule_set] show ?thesis
    by (cases "rs_rules default_rule_set") auto
qed

lemma rule_set_validate_ok:
  assumes "rule_set_validate rs = Inr u"
  shows "r \<in> set (rs_rules rs) \<Longrightarrow> rule_ok r" "distinct (map rule_id (rs_rules rs))"
  using assms by (auto simp: rule_set_validate_def validate_rules_ok split: if_splits)

section \<open>First match\<close>

lemma find_map_Some:
  "find_map f xs = Some y \<longleftrightarrow>
     (\<exists>ys x zs. xs = ys @ x # zs \<and> f x = Some y \<and> (\<forall>z \<in> set ys. f z = None))"
proof (induction xs)
  case (Cons a xs)
  show ?case
  proof (cases "f a")
    case None
    with Cons show ?thesis
      by (auto simp: Cons_eq_append_conv) (metis append_Cons list.set_intros(2) set_ConsD, fastforce)
  next
    case (Some b)
    then show ?thesis by (auto simp: Cons_eq_append_conv) force+
  qed
qed simp

lemma find_map_in: "find_map f xs = Some y \<Longrightarrow> \<exists>x \<in> set xs. f x = Some y"
  by (auto simp: find_map_Some)

lemma find_map_None: "find_map f xs = None \<longleftrightarrow> (\<forall>x \<in> set xs. f x = None)"
  by (induction xs) (auto split: option.splits)

lemma rule_order_inj: "distinct (map rule_id rs) \<Longrightarrow> inj_on rule_order (set rs)"
  by (auto simp: distinct_map inj_on_def)

text \<open>the rule that decides is the least matching one in the order of priority and then id,
  wherever it stands in the file: for a validated set, the outcome for a file is a proposal exactly
  when some rule makes it and no rule that comes earlier in that order makes any.\<close>

theorem propose_first_match:
  assumes "rule_set_validate rs = Inr ()"
  shows "propose rs file context = Some p \<longleftrightarrow>
    (\<exists>r \<in> set (rs_rules rs). proposal_from_rule r file context = Some p
      \<and> (\<forall>q \<in> set (rs_rules rs). rule_order q < rule_order r \<longrightarrow> proposal_from_rule q file context = None))"
    (is "_ = ?first")
proof
  let ?f = "\<lambda>rule. proposal_from_rule rule file context"
  let ?s = "sort_key rule_order (rs_rules rs)"
  note inj = rule_order_inj [OF rule_set_validate_ok(2) [OF assms]]
  have sorted: "sorted (map rule_order ?s)" by simp
  {
    assume "propose rs file context = Some p"
    then obtain ys r zs where s: "?s = ys @ r # zs" and r: "?f r = Some p" "\<forall>z \<in> set ys. ?f z = None"
      by (auto simp: propose_def find_map_Some)
    have "?f q = None" if "q \<in> set (rs_rules rs)" "rule_order q < rule_order r" for q
    proof -
      have "q \<in> set ?s" using that by simp
      moreover have "q \<notin> set (r # zs)" using that sorted s by (auto simp: sorted_append)
      ultimately show ?thesis using s r(2) by auto
    qed
    moreover have "r \<in> set (rs_rules rs)"
      using s by (metis in_set_conv_decomp set_sort)
    ultimately show ?first using r(1) by blast
  }
  assume ?first
  then obtain r where r: "r \<in> set (rs_rules rs)" "?f r = Some p"
    and least: "\<And>q. q \<in> set (rs_rules rs) \<Longrightarrow> rule_order q < rule_order r \<Longrightarrow> ?f q = None" by blast
  have "r \<in> set ?s" using r by simp
  then obtain ys zs where s: "?s = ys @ r # zs" by (meson split_list)
  have "?f q = None" if q: "q \<in> set ys" for q
  proof (rule least)
    show q': "q \<in> set (rs_rules rs)" using q s by (metis Un_iff set_append set_sort)
    have "distinct ?s" using rule_set_validate_ok(2) [OF assms] by (simp add: distinct_map)
    then have "q \<noteq> r" using q s by auto
    then have "rule_order q \<noteq> rule_order r" using inj_onD [OF inj _ q' r(1)] by blast
    moreover have "rule_order q \<le> rule_order r" using q sorted unfolding s by (auto simp: sorted_append)
    ultimately show "rule_order q < rule_order r" by (rule order.not_eq_order_implies_strict)
  qed
  with r(2) s show "propose rs file context = Some p"
    unfolding propose_def find_map_Some by blast
qed

text \<open>The order in which rules are written is irrelevant.\<close>

lemma propose_permute:
  assumes "distinct (map rule_id (rs_rules rs))" and "mset (rs_rules rs) = mset (rs_rules rs')"
  shows "propose rs = propose rs'"
  using sort_key_permute [OF rule_order_inj [OF assms(1)] assms(2)]
  by (simp add: propose_def fun_eq_iff)

definition sample_file :: FileEntry where
  "sample_file = file_entry sample_world sample_root [''notes.pdf'']"

definition sample_context :: RuleContext where
  "sample_context = \<lparr>existing_paths = {}, now_unix_ms = 0\<rparr>"

lemma sample_rules:
  obtains d i a p where "rs_rules default_rule_set = [d, i, a]"
    and "proposal_from_rule d sample_file sample_context = Some p" and "p_to p = ''documents/notes.pdf''"
    and "p_action p = ProposalAction.Move" and "p_status p = Ready"
    and "proposal_from_rule i sample_file sample_context = None"
    and "proposal_from_rule a sample_file sample_context = None"
proof -
  let ?d = "preset_rule ''documents'' [''md'', ''pdf'', ''doc'', ''docx'', ''txt''] ''documents''"
    and ?i = "preset_rule ''images'' [''png'', ''jpg'', ''jpeg'', ''gif'', ''webp''] ''images''"
    and ?a = "preset_rule ''archives'' [''zip'', ''tar'', ''gz'', ''7z''] ''archives''"
  have "rule_matches ?d sample_file sample_context \<and> \<not> rule_matches ?i sample_file sample_context
      \<and> \<not> rule_matches ?a sample_file sample_context
      \<and> file_name (fe_path sample_file) = Some ''notes.pdf''
      \<and> normalize_relative_path (fe_path sample_file) \<noteq> normalize_relative_path ''documents/notes.pdf''"
    by code_simp
  moreover have "rs_rules default_rule_set = [?d, ?i, ?a]" by (simp add: default_rule_set_def)
  moreover have "rule_then ?d = \<lparr>move_to = Some ''documents'', act_trash = False, create_dir = None\<rparr>"
    by (simp add: preset_rule_def)
  ultimately show thesis
    by (intro that) (auto simp: proposal_from_rule_def move_proposal_from_rule_def Let_def
        target_status_def sample_context_def)
qed

lemma sample_propose:
  obtains p where "propose default_rule_set sample_file sample_context = Some p"
    and "p_action p = ProposalAction.Move" and "p_status p = Ready"
proof -
  obtain d i a p where rules: "rs_rules default_rule_set = [d, i, a]"
    and p: "proposal_from_rule d sample_file sample_context = Some p" "p_action p = ProposalAction.Move"
      "p_status p = Ready"
    and others: "proposal_from_rule i sample_file sample_context = None"
      "proposal_from_rule a sample_file sample_context = None"
    by (rule sample_rules)
  have "set (sort_key rule_order (rs_rules default_rule_set)) = {d, i, a}"
    unfolding set_sort rules by simp
  with others have "find_map (\<lambda>r. proposal_from_rule r sample_file sample_context)
      (sort_key rule_order (rs_rules default_rule_set)) = Some p"
    using p(1) find_map_in [of "\<lambda>r. proposal_from_rule r sample_file sample_context"]
    by (cases "find_map (\<lambda>r. proposal_from_rule r sample_file sample_context)
      (sort_key rule_order (rs_rules default_rule_set))") (fastforce simp: find_map_None)+
  with that p(2,3) show thesis by (simp add: propose_def)
qed

theorem propose_first_match_witness:
  "rule_set_validate default_rule_set = Inr ()
   \<and> (\<exists>p. propose default_rule_set sample_file sample_context = Some p
        \<and> p_to p = ''documents/notes.pdf'')"
proof -
  have ok: "rule_set_validate default_rule_set = Inr ()" by code_simp
  obtain d i a p where rules: "rs_rules default_rule_set = [d, i, a]"
    and p: "proposal_from_rule d sample_file sample_context = Some p" "p_to p = ''documents/notes.pdf''"
    and others: "proposal_from_rule i sample_file sample_context = None"
      "proposal_from_rule a sample_file sample_context = None"
    by (rule sample_rules)
  have "propose default_rule_set sample_file sample_context = Some p"
    unfolding propose_first_match [OF ok] rules using p(1) others by auto
  with ok p(2) show ?thesis by blast
qed

section \<open>Validated rules stay inside the root\<close>

lemma dir_ok_append:
  assumes "dir_ok d" and "valid_name n"
  shows "components (d @ ''/'' @ n) = components d @ [Normal n]"
proof -
  have ne: "d \<noteq> []" using assms(1) by (auto simp: dir_ok_def trim_def)
  have norm: "RootDir \<notin> set (components d)" "CurDir \<notin> set (components d)"
    using assms(1) by (auto simp: dir_ok_def)
  then have root: "\<not> has_root d" by (auto simp: components_def Let_def)
  then have dot: "hd (segments d) \<noteq> ''.''" using norm by (auto simp: components_def Let_def)
  have segs: "segments (d @ ''/'' @ n) = segments d @ [n]"
    using segments_append_sep [of d n] segments_valid_name [OF assms(2)] by simp
  moreover have "\<not> has_root (d @ ''/'' @ n)" using root ne by (simp add: has_root_append)
  moreover have "seg_component n = Normal n" using assms(2) by (auto simp: seg_component_def valid_name_def)
  ultimately show ?thesis
    using root dot assms(2) by (simp add: components_def Let_def)
qed

lemma dir_ok_safe: "dir_ok d \<Longrightarrow> safe_relative d"
  by (auto simp: dir_ok_def safe_relative_def)

lemma proposal_from_rule_cases:
  assumes "proposal_from_rule rule file context = Some p" and "rule_ok rule"
  obtains (move) d name where "file_name (fe_path file) = Some name" "dir_ok d"
      "p_action p = ProposalAction.Move" "p_from p = fe_path file" "p_to p = d @ ''/'' @ name"
    | (trash) "p_action p = ProposalAction.Trash" "p_from p = fe_path file" "p_to p = TRASH_DIR"
    | (create) "p_action p = ProposalAction.CreateDir" "p_from p = ''''" "dir_ok (p_to p)"
  using assms
  by (auto simp: proposal_from_rule_def rule_ok_def one_action_def move_proposal_from_rule_def
      trash_proposal_from_rule_def create_dir_proposal_from_rule_def Let_def
      split: if_splits option.splits)

lemma trash_dir_safe: "safe_relative TRASH_DIR"
  by code_simp

lemma proposal_from_rule_safe:
  assumes "proposal_from_rule r file context = Some p" and "rule_ok r"
  shows "safe_relative (p_to p)
    \<and> (p_action p = ProposalAction.Move \<longrightarrow> file_name (p_to p) = file_name (fe_path file))"
  using assms
proof (cases rule: proposal_from_rule_cases)
  case (move d name)
  have "components (p_to p) = components d @ [Normal name]"
    using dir_ok_append [OF move(2)] file_name_valid [OF move(1)] move(5) by simp
  then have "file_name (p_to p) = Some name" "safe_relative (p_to p)"
    using dir_ok_safe [OF move(2)] by (auto simp: safe_relative_def file_name_Some_iff)
  with move(1) show ?thesis by simp
qed (simp_all add: trash_dir_safe dir_ok_safe)

lemma propose_by_rule:
  assumes "propose rs file context = Some p" and "rule_set_validate rs = Inr u"
  obtains r where "r \<in> set (rs_rules rs)" "rule_ok r" "proposal_from_rule r file context = Some p"
  using assms rule_set_validate_ok(1) [OF assms(2)]
  by (auto simp: propose_def dest!: find_map_in)

text \<open>no validated rule set, whoever wrote it, can propose a target outside the managed root: the
  destination of every proposal is a relative path without parent segments, so the path guard never
  refuses it for its shape, and a move keeps the file's name.\<close>

theorem propose_target_safe:
  assumes "rule_set_validate rs = Inr ()" and "propose rs file context = Some p"
  shows "safe_relative (p_to p)
    \<and> (p_action p = ProposalAction.Move \<longrightarrow> file_name (p_to p) = file_name (fe_path file))"
  using assms(2,1) by (rule propose_by_rule) (rule proposal_from_rule_safe)

theorem propose_target_safe_witness:
  "\<exists>p. propose default_rule_set sample_file sample_context = Some p \<and> safe_relative (p_to p)"
proof -
  have ok: "rule_set_validate default_rule_set = Inr ()" by code_simp
  obtain p where "propose default_rule_set sample_file sample_context = Some p" by (rule sample_propose)
  with propose_target_safe [OF ok] show ?thesis by blast
qed

section \<open>Loading\<close>

text \<open>whatever the JSON reader makes of the file, the rule set that a root loads is validated: the
  built-in set when there is no \<^verbatim>\<open>rules.json\<close>, otherwise a parsed set that passes validation.\<close>

theorem load_rule_set_validated:
  assumes "load_rule_set_for_root parse_rules w root = Inr rs"
  shows "rule_set_validate rs = Inr ()"
proof -
  have "rule_set_validate default_rule_set = Inr ()" by code_simp
  with assms show ?thesis
    by (auto simp: load_rule_set_for_root_def Let_def bind_res_Inr_iff split: if_splits)
qed

theorem load_rule_set_validated_witness:
  "load_rule_set_for_root (\<lambda>_. Inl ''no parser'') sample_world ''/home/box'' = Inr default_rule_set
   \<and> rule_set_validate default_rule_set = Inr ()"
proof -
  have "\<not> path_exists sample_world
      (join_path (join_path ''/home/box'' STATE_DIR) RULES_FILE)" by code_simp
  then have "load_rule_set_for_root (\<lambda>_. Inl ''no parser'') sample_world ''/home/box''
      = Inr default_rule_set" by (simp add: load_rule_set_for_root_def)
  with load_rule_set_validated show ?thesis by blast
qed

section \<open>Contract definitions keep their meaning\<close>

text \<open>What the server-side contract says of one condition.\<close>

definition aged :: "nat option \<Rightarrow> RuleContext \<Rightarrow> (nat \<Rightarrow> bool) \<Rightarrow> bool" where
  "aged stamp context P \<longleftrightarrow> is_some_and stamp (\<lambda>ts. P (now_unix_ms context - ts))"

fun contract_holds :: "ContractCondition \<Rightarrow> FileEntry \<Rightarrow> RuleContext \<Rightarrow> bool" where
  "contract_holds (Extension _ es) f ctx \<longleftrightarrow> is_some_and (extension_of (fe_path f))
     (\<lambda>ext. \<exists>e \<in> set es. to_ascii_lowercase (bare_extension e) = ext)"
| "contract_holds (AgeDays _ d) f ctx \<longleftrightarrow>
     aged (fe_modified_unix_ms f) ctx (\<lambda>age. d * DAY_MS \<le> age)"
| "contract_holds (ModifiedAgeDays op d) f ctx \<longleftrightarrow> aged (fe_modified_unix_ms f) ctx
     (\<lambda>age. case op of ContractAgeOperator.Gte \<Rightarrow> d * DAY_MS \<le> age
            | ContractAgeOperator.Gt \<Rightarrow> d * DAY_MS < age)"
| "contract_holds (CreatedAgeDays op d) f ctx \<longleftrightarrow> aged (fe_created_unix_ms f) ctx
     (\<lambda>age. case op of ContractAgeOperator.Gte \<Rightarrow> d * DAY_MS \<le> age
            | ContractAgeOperator.Gt \<Rightarrow> d * DAY_MS < age)"
| "contract_holds (SizeBytes op n) f ctx \<longleftrightarrow>
     (case op of ContractSizeOperator.Gte \<Rightarrow> n \<le> fe_size_bytes f
      | ContractSizeOperator.Lte \<Rightarrow> fe_size_bytes f \<le> n)"
| "contract_holds (RelativePath _ p) f ctx \<longleftrightarrow> relative_path_has_prefix (fe_path f) p"
| "contract_holds (FileKind _ k) f ctx \<longleftrightarrow> k = FileKind.File"
| "contract_holds (Name op x) f ctx \<longleftrightarrow> is_some_and (file_name (fe_path f))
     (\<lambda>n. case op of ContractNameOperator.Contains \<Rightarrow> contains_ignore_case n x
           | ContractNameOperator.StartsWith \<Rightarrow> starts_with_ignore_case n x
           | ContractNameOperator.EndsWith \<Rightarrow> ends_with_ignore_case n x)"

definition cond_matches :: "Condition \<Rightarrow> FileEntry \<Rightarrow> RuleContext \<Rightarrow> bool" where
  "cond_matches c = rule_matches
     \<lparr>rule_id = [], rule_priority = 0, rule_when = c,
      rule_then = \<lparr>move_to = None, act_trash = True, create_dir = None\<rparr>\<rparr>"

lemma rule_matches_cond: "rule_matches r = cond_matches (rule_when r)"
  by (simp add: cond_matches_def rule_matches_def fun_eq_iff)

lemma if_some_simps [simp]: "if_some None P" "if_some (Some x) P = P x"
  by (simp_all add: if_some_def)

lemma is_some_and_simps [simp]: "\<not> is_some_and None P" "is_some_and (Some x) P = P x"
  by (simp_all add: is_some_and_def)

lemma set_once_ok: "set_once i k t v = Inr x \<longleftrightarrow> t = None \<and> x = Some v"
  by (auto simp: set_once_def)

lemma map_sum_id_Inr: "map_sum id f r = Inr y \<longleftrightarrow> (\<exists>x. r = Inr x \<and> y = f x)"
  by (cases r) auto

lemma normalized_extensions:
  assumes "collect_results (map (normalize_contract_extension i) es) = Inr xs"
  shows "xs = map (\<lambda>e. to_ascii_lowercase (bare_extension e)) es"
proof -
  have one: "normalize_contract_extension i e = Inr x \<Longrightarrow> x = to_ascii_lowercase (bare_extension e)" for e x
    by (auto simp: normalize_contract_extension_def Let_def split: if_splits)
  show ?thesis
    using collect_results_length [OF assms] collect_results_nth [OF assms] one
    by (auto intro!: nth_equalityI)
qed

lemma extension_of_lower: "extension_of p = Some ext \<Longrightarrow> to_ascii_lowercase ext = ext"
  by (auto simp: extension_of_def)

lemma age_days_matches_aged:
  "age_days_matches ts (now_unix_ms ctx) d AgeCompare.Gte = aged ts ctx (\<lambda>age. d * DAY_MS \<le> age)"
  "age_days_matches ts (now_unix_ms ctx) d AgeCompare.Gt = aged ts ctx (\<lambda>age. d * DAY_MS < age)"
  by (simp_all add: age_days_matches_def aged_def is_some_and_def Let_def split: option.splits)

lemma extensions_holds:
  "is_some_and (extension_of (fe_path f)) (\<lambda>ext. \<exists>e \<in> set es.
     eq_ignore_ascii_case (to_ascii_lowercase (bare_extension e)) ext) = contract_holds (Extension op es) f ctx"
  using extension_of_lower [of "fe_path f"]
  by (cases "extension_of (fe_path f)") (auto simp: eq_ignore_ascii_case_def)

lemmas contract_rules = map_sum_id_Inr set_once_ok bind_res_Inr_iff cond_matches_def rule_matches_def
  Let_def age_days_matches_aged not_less conj_ac

lemma apply_contract_condition_holds:
  assumes "apply_contract_condition i c k = Inr c'"
  shows "cond_matches c' f ctx \<longleftrightarrow> cond_matches c f ctx \<and> contract_holds k f ctx"
proof (cases k)
  case (Extension op es)
  then obtain xs where "collect_results (map (normalize_contract_extension i) es) = Inr xs"
    and c': "extension_in c = None" "c' = c\<lparr>extension_in := Some xs\<rparr>"
    using assms by (auto simp: map_sum_id_Inr set_once_ok bind_res_Inr_iff)
  then have "xs = map (\<lambda>e. to_ascii_lowercase (bare_extension e)) es" by (intro normalized_extensions)
  with c' Extension extensions_holds [of f es op ctx] show ?thesis
    by (simp add: cond_matches_def rule_matches_def Let_def conj_ac del: contract_holds.simps)
next
  case (AgeDays op d)
  with assms show ?thesis
    by (clarsimp simp: map_sum_id_Inr set_once_ok) (simp add: contract_rules aged_def)
next
  case (ModifiedAgeDays op d)
  with assms show ?thesis
    by (cases op; clarsimp simp: map_sum_id_Inr set_once_ok) (simp_all add: contract_rules)
next
  case (CreatedAgeDays op d)
  with assms show ?thesis
    by (cases op; clarsimp simp: map_sum_id_Inr set_once_ok) (simp_all add: contract_rules)
next
  case (SizeBytes op d)
  with assms show ?thesis
    by (cases op; clarsimp simp: map_sum_id_Inr set_once_ok) (simp_all add: contract_rules)
next
  case (RelativePath op d)
  with assms show ?thesis
    by (clarsimp simp: map_sum_id_Inr set_once_ok) (simp add: contract_rules)
next
  case (FileKind op d)
  with assms show ?thesis
    by (clarsimp simp: map_sum_id_Inr set_once_ok) (simp add: contract_rules)
next
  case (Name op d)
  have steps:
    "name_contains c = None \<Longrightarrow> cond_matches (c\<lparr>name_contains := Some d\<rparr>) f ctx \<longleftrightarrow> cond_matches c f ctx
      \<and> is_some_and (file_name (fe_path f)) (\<lambda>n. contains_ignore_case n d)"
    "name_starts_with c = None \<Longrightarrow> cond_matches (c\<lparr>name_starts_with := Some d\<rparr>) f ctx \<longleftrightarrow> cond_matches c f ctx
      \<and> is_some_and (file_name (fe_path f)) (\<lambda>n. starts_with_ignore_case n d)"
    "name_ends_with c = None \<Longrightarrow> cond_matches (c\<lparr>name_ends_with := Some d\<rparr>) f ctx \<longleftrightarrow> cond_matches c f ctx
      \<and> is_some_and (file_name (fe_path f)) (\<lambda>n. ends_with_ignore_case n d)"
    by (simp_all add: cond_matches_def rule_matches_def Let_def conj_ac)
  show ?thesis
    using assms Name by (cases op) (auto simp: map_sum_id_Inr set_once_ok steps)
qed

lemma apply_all_holds:
  "apply_all i c ks = Inr c' \<Longrightarrow>
     cond_matches c' f ctx \<longleftrightarrow> cond_matches c f ctx \<and> (\<forall>k \<in> set ks. contract_holds k f ctx)"
proof (induction ks arbitrary: c)
  case (Cons k ks)
  then obtain x where "apply_contract_condition i c k = Inr x" "apply_all i x ks = Inr c'"
    by (auto simp: bind_res_Inr_iff)
  with Cons.IH [of x] apply_contract_condition_holds [of i c k x f ctx] show ?case by auto
qed simp

lemma default_matches: "cond_matches Condition_default f ctx"
  by (simp add: cond_matches_def rule_matches_def Condition_default_def Let_def)

text \<open>C37: a contract definition keeps its meaning when it is translated. In mode \<^verbatim>\<open>ALL\<close> the resulting set
  has one rule, which matches a file exactly when every condition of the contract holds of it; in mode
  \<^verbatim>\<open>ANY\<close> some rule matches exactly when some condition holds; and the set passes validation.\<close>

theorem into_rule_set_meaning:
  assumes "into_rule_set d i priority = Inr rs"
  shows "rule_set_validate rs = Inr ()
    \<and> (\<forall>r \<in> set (rs_rules rs). rule_then r = into_action (cd_action d) \<and> rule_priority r = priority)
    \<and> (match_mode d = All \<longrightarrow> length (rs_rules rs) = 1)
    \<and> ((\<exists>r \<in> set (rs_rules rs). rule_matches r f ctx) \<longleftrightarrow>
        (case match_mode d of
           All \<Rightarrow> \<forall>k \<in> set (cd_conditions d). contract_holds k f ctx
         | Any \<Rightarrow> \<exists>k \<in> set (cd_conditions d). contract_holds k f ctx))"
proof -
  have val: "rule_set_validate rs = Inr ()"
    using assms by (auto simp: into_rule_set_def Let_def bind_res_Inr_iff)
  show ?thesis
  proof (cases "match_mode d")
    case All
    then obtain c where "apply_all i Condition_default (cd_conditions d) = Inr c"
      and "rs_rules rs = [\<lparr>rule_id = i, rule_priority = priority, rule_when = c,
             rule_then = into_action (cd_action d)\<rparr>]"
      using assms by (auto simp: into_rule_set_def Let_def bind_res_Inr_iff)
    with All val show ?thesis
      by (simp add: rule_matches_cond apply_all_holds default_matches)
  next
    case Any
    let ?ks = "cd_conditions d"
    have rules: "collect_results (map (\<lambda>(index, k). any_rule i priority (into_action (cd_action d)) index k)
        (enumerate 0 ?ks)) = Inr (rs_rules rs)"
      using Any assms by (auto simp: into_rule_set_def Let_def bind_res_Inr_iff)
    have one: "rule_then r = into_action (cd_action d) \<and> rule_priority r = priority
        \<and> rule_matches r f ctx = contract_holds k f ctx"
      if "any_rule i priority (into_action (cd_action d)) index k = Inr r" for index k r
      using that by (auto simp: any_rule_def Let_def bind_res_Inr_iff rule_matches_cond
          default_matches dest: apply_contract_condition_holds [where f = f and ctx = ctx])
    have len: "length (rs_rules rs) = length ?ks" using collect_results_length [OF rules] by simp
    have "any_rule i priority (into_action (cd_action d)) n (?ks ! n) = Inr (rs_rules rs ! n)"
      if "n < length ?ks" for n
      using collect_results_nth [OF rules, of n] that by (simp add: nth_enumerate_eq)
    with one have nth: "rule_then (rs_rules rs ! n) = into_action (cd_action d)
        \<and> rule_priority (rs_rules rs ! n) = priority
        \<and> rule_matches (rs_rules rs ! n) f ctx = contract_holds (?ks ! n) f ctx"
      if "n < length ?ks" for n using that by blast
    have ex: "(\<exists>x \<in> set xs. Q x) \<longleftrightarrow> (\<exists>n < length xs. Q (xs ! n))" for xs and Q :: "'z \<Rightarrow> bool"
      by (metis in_set_conv_nth)
    have "\<forall>r \<in> set (rs_rules rs). rule_then r = into_action (cd_action d) \<and> rule_priority r = priority"
      using nth len by (metis in_set_conv_nth)
    moreover have "(\<exists>r \<in> set (rs_rules rs). rule_matches r f ctx) \<longleftrightarrow>
        (\<exists>k \<in> set ?ks. contract_holds k f ctx)"
      using nth len unfolding ex by metis
    ultimately show ?thesis using Any val by simp
  qed
qed

definition sample_contract :: ContractRuleDefinition where
  "sample_contract =
     \<lparr>match_mode = Any,
      cd_conditions = [Extension In [''.PDF''], SizeBytes ContractSizeOperator.Gte 100],
      cd_action = ContractAction.Move ''docs''\<rparr>"

theorem into_rule_set_meaning_witness:
  "\<exists>rs. into_rule_set sample_contract ''r1'' 0 = Inr rs
     \<and> (\<exists>r \<in> set (rs_rules rs). rule_matches r sample_file sample_context)"
proof -
  have "is_ok (into_rule_set sample_contract ''r1'' 0)" by code_simp
  then obtain rs where rs: "into_rule_set sample_contract ''r1'' 0 = Inr rs" by (auto simp: is_ok_iff)
  have "match_mode sample_contract = Any
      \<and> (\<exists>k \<in> set (cd_conditions sample_contract). contract_holds k sample_file sample_context)"
    by code_simp
  with rs into_rule_set_meaning [OF rs, of sample_file sample_context] show ?thesis by auto
qed

end
