(* ===== verification/Proposal_Engine.thy ===== *)
theory Proposal_Engine
  imports Rule_Engine
begin

text \<open>
  \<^verbatim>\<open>proposal.rs\<close>: from a scan and a rule set to a report of proposals. The entry points that scan inherit
  the scan's fuel, so they return \<^const>\<open>None\<close> when it runs out, which never happens on a well-formed tree.
\<close>

section \<open>Model\<close>

datatype ProposalError =
    Analyze AnalyzeError
  | Rule RuleError
  | ReadProposal string string
  | ParseProposal string string
  | Serialize string

fun proposal_error_to_string :: "ProposalError \<Rightarrow> string" where
  "proposal_error_to_string (Analyze error) = analyze_error_to_string error"
| "proposal_error_to_string (Rule error) = rule_error_to_string error"
| "proposal_error_to_string (ReadProposal path message) =
     ''cannot read proposal file '' @ path @ '': '' @ message"
| "proposal_error_to_string (ParseProposal path message) =
     ''cannot parse proposal file '' @ path @ '': '' @ message"
| "proposal_error_to_string (Serialize message) = ''cannot serialize proposal report: '' @ message"

definition report_context :: "AnalyzeReport \<Rightarrow> nat \<Rightarrow> RuleContext" where
  "report_context report now =
     \<lparr>existing_paths = set (map (normalize_relative_path \<circ> fe_path) (ar_files report))
        \<union> set (map normalize_relative_path (ar_directories report)),
      now_unix_ms = now\<rparr>"

definition propose_for_analysis_with_rule_set ::
  "AnalyzeReport \<Rightarrow> RuleSet \<Rightarrow> (ProposalError, ProposalReport) act" where
  "propose_for_analysis_with_rule_set report rs =
     bindA (readA (\<lambda>_. map_err Rule (rule_set_validate rs))) (\<lambda>_.
     bindA unix_ms (\<lambda>now.
       returnA \<lparr>pr_root = ar_root report,
         pr_proposals = filter_new p_proposal_id {}
           (List.map_filter (\<lambda>file. propose rs file (report_context report now)) (ar_files report))\<rparr>))"

definition propose_for_root_with_rule_set ::
  "string \<Rightarrow> RuleSet \<Rightarrow> world \<Rightarrow> ((ProposalError + ProposalReport) \<times> world) option" where
  "propose_for_root_with_rule_set root rs w =
     (case analyze_root w root of
        None \<Rightarrow> None
      | Some (Inl error) \<Rightarrow> Some (Inl (Analyze error), w)
      | Some (Inr report) \<Rightarrow> Some (propose_for_analysis_with_rule_set report rs w))"

definition propose_for_root ::
  "(string \<Rightarrow> string + RuleSet) \<Rightarrow> string \<Rightarrow> world
     \<Rightarrow> ((ProposalError + ProposalReport) \<times> world) option" where
  "propose_for_root parse_rules root w =
     (case load_rule_set_for_root parse_rules w root of
        Inl error \<Rightarrow> Some (Inl (Rule error), w)
      | Inr rs \<Rightarrow> propose_for_root_with_rule_set root rs w)"

definition propose_for_analysis ::
  "(string \<Rightarrow> string + RuleSet) \<Rightarrow> string \<Rightarrow> AnalyzeReport \<Rightarrow> (ProposalError, ProposalReport) act" where
  "propose_for_analysis parse_rules root report =
     bindA (readA (\<lambda>w. map_err Rule (load_rule_set_for_root parse_rules w root)))
       (\<lambda>rs. propose_for_analysis_with_rule_set report rs)"

definition read_proposal_file ::
  "(string \<Rightarrow> string + ProposalReport) \<Rightarrow> world \<Rightarrow> string \<Rightarrow> ProposalError + ProposalReport" where
  "read_proposal_file parse_report w path =
     bind_res (map_err (\<lambda>error. ReadProposal path (io_error_to_string error)) (fs_read w path))
       (\<lambda>content. map_err (ParseProposal path) (parse_report (trim_bom content)))"

section \<open>Properties\<close>

lemma propose_for_analysis_ok:
  assumes "propose_for_analysis_with_rule_set report rs w = (Inr rep, w')"
  shows "rule_set_validate rs = Inr ()" and "pr_root rep = ar_root report"
    and "pr_proposals rep = filter_new p_proposal_id {} (List.map_filter
      (\<lambda>file. propose rs file (report_context report (w_clock w (w_tick w) div 1000000))) (ar_files report))"
    and "w' = w\<lparr>w_tick := Suc (w_tick w)\<rparr>"
  using assms
  by (auto simp: propose_for_analysis_with_rule_set_def bindA_Inr_iff unix_ms_def)

lemma propose_from_source:
  assumes "propose rs file context = Some p"
  shows "p_action p = ProposalAction.CreateDir \<or> (p_from p = fe_path file
    \<and> p_source_size_bytes p = fe_size_bytes file
    \<and> p_source_modified_unix_ms p = fe_modified_unix_ms file \<and> p_source_file_id p = fe_file_id file)"
  using assms
  by (auto simp: propose_def proposal_from_rule_def move_proposal_from_rule_def
      trash_proposal_from_rule_def create_dir_proposal_from_rule_def Let_def
      dest!: find_map_in split: if_splits option.splits bool.splits)

text \<open>a proposal report is well-formed: proposal ids are pairwise different; every target is a safe
  relative path; and every proposal except the creation of a directory names a file of the scan and
  carries the size, modification time and identity the scan saw, so the later check can detect any
  change.\<close>

theorem propose_for_analysis_wf:
  assumes "propose_for_analysis_with_rule_set report rs w = (Inr rep, w')"
  shows "distinct (map p_proposal_id (pr_proposals rep))
    \<and> (\<forall>p \<in> set (pr_proposals rep). safe_relative (p_to p)
        \<and> (p_action p = ProposalAction.CreateDir \<or> (\<exists>file \<in> set (ar_files report). p_from p = fe_path file
             \<and> p_source_size_bytes p = fe_size_bytes file
             \<and> p_source_modified_unix_ms p = fe_modified_unix_ms file
             \<and> p_source_file_id p = fe_file_id file)))"
proof -
  note ok = propose_for_analysis_ok [OF assms]
  have "distinct (map p_proposal_id (pr_proposals rep))"
    unfolding ok(3) by (rule distinct_filter_new)
  moreover have "safe_relative (p_to p)
      \<and> (p_action p = ProposalAction.CreateDir \<or> (\<exists>file \<in> set (ar_files report). p_from p = fe_path file
           \<and> p_source_size_bytes p = fe_size_bytes file
           \<and> p_source_modified_unix_ms p = fe_modified_unix_ms file
           \<and> p_source_file_id p = fe_file_id file))"
    if p: "p \<in> set (pr_proposals rep)" for p
  proof -
    obtain fe ctx where "fe \<in> set (ar_files report)" "propose rs fe ctx = Some p"
      using subsetD [OF filter_new_subset p [unfolded ok(3)]] by (auto simp: map_filter_def)
    with propose_from_source [of rs fe ctx p] propose_by_rule [OF _ ok(1)]
      proposal_from_rule_safe show ?thesis by metis
  qed
  ultimately show ?thesis by blast
qed

lemma sample_report:
  obtains rep where "analyze_root sample_world ''/home/box'' = Some (Inr rep)"
  using analyze_root_scan [OF sample_wf sample_guard_new sample_guard_ok] by metis

theorem propose_for_analysis_wf_witness:
  "\<exists>report rep w'. analyze_root sample_world ''/home/box'' = Some (Inr report)
     \<and> propose_for_analysis_with_rule_set report default_rule_set sample_world = (Inr rep, w')
     \<and> distinct (map p_proposal_id (pr_proposals rep))"
proof -
  obtain report where report: "analyze_root sample_world ''/home/box'' = Some (Inr report)"
    by (rule sample_report)
  have "rule_set_validate default_rule_set = Inr ()" by code_simp
  then obtain rep w' where
    run: "propose_for_analysis_with_rule_set report default_rule_set sample_world = (Inr rep, w')"
    by (simp add: propose_for_analysis_with_rule_set_def bindA_def unix_ms_def)
  with report propose_for_analysis_wf [OF run] show ?thesis by blast
qed

text \<open>The scan never runs out of fuel, so the proposal step returns.\<close>

lemma analyze_root_returns: "wf_fs (w_fs w) \<Longrightarrow> analyze_root w root \<noteq> None"
proof (cases "guard_new w root")
  case (Inr g)
  assume wf: "wf_fs (w_fs w)"
  obtain r where "guard_ok w g r" using guard_new_ok [OF Inr wf] by blast
  with wf Inr show ?thesis by (rule analyze_root_scan) simp
qed (simp add: analyze_root_def)

lemma propose_for_root_returns: "wf_fs (w_fs w) \<Longrightarrow> propose_for_root parse_rules root w \<noteq> None"
  using analyze_root_returns [of w root]
  by (auto simp: propose_for_root_def propose_for_root_with_rule_set_def split: sum.splits)

end
