(* ===== verification/Decision.thy ===== *)
theory Decision
  imports Proposal_Engine
begin

text \<open>
  \<^verbatim>\<open>decision.rs\<close> and \<^verbatim>\<open>auto_approval.rs\<close>: the user's decisions on a report and the policy that can make them.
  The theorems show that decisions are accepted exactly when they are unambiguous, that applying them
  splits the report without inventing or duplicating work, and that the automatic policy stays within
  its limits and always produces decisions that apply.
\<close>

section \<open>Model\<close>

datatype Decision = Approved | Rejected

record DecisionEntry =
  d_proposal_id :: string
  d_decision :: Decision
  d_reason :: "string option"

datatype DecisionError =
    ReadDecision string string
  | ParseDecision string nat string
  | UnknownProposalId string
  | DuplicateDecision string
  | MissingRejectionReason string

fun decision_error_to_string :: "DecisionError \<Rightarrow> string" where
  "decision_error_to_string (ReadDecision path message) =
     ''cannot read decision file '' @ path @ '': '' @ message"
| "decision_error_to_string (ParseDecision path line message) =
     ''cannot parse decision file '' @ path @ '' line '' @ dec line @ '': '' @ message"
| "decision_error_to_string (UnknownProposalId i) =
     ''decision references unknown proposal_id '' @ i"
| "decision_error_to_string (DuplicateDecision i) =
     ''decision contains duplicate proposal_id '' @ i"
| "decision_error_to_string (MissingRejectionReason i) =
     ''rejected decision for proposal_id '' @ i @ '' must include a non-empty reason''"

record RejectedProposal =
  rj_proposal :: Proposal
  rj_reason :: string

record DecisionApplication =
  da_approved :: ProposalReport
  da_rejected :: "RejectedProposal list"

text \<open>\<^verbatim>\<open>str::lines\<close>: split at line feeds, drop one carriage return before them and the empty rest
  after the last.\<close>

definition strip_cr :: "string \<Rightarrow> string" where
  "strip_cr s = (if s \<noteq> [] \<and> last s = CHR 0x0D then butlast s else s)"

definition lines :: "string \<Rightarrow> string list" where
  "lines s =
     (let parts = split_on (\<lambda>c. c = CHR 0x0A) s
      in if last parts = [] then map strip_cr (butlast parts)
         else map strip_cr (butlast parts) @ [last parts])"

definition read_decision_file ::
  "(string \<Rightarrow> string + DecisionEntry) \<Rightarrow> world \<Rightarrow> string \<Rightarrow> DecisionError + DecisionEntry list" where
  "read_decision_file parse_entry w path =
     bind_res (map_err (\<lambda>error. ReadDecision path (io_error_to_string error)) (fs_read w path))
       (\<lambda>content. collect_results
          (map (\<lambda>(index, line). map_err (ParseDecision path (index + 1)) (parse_entry line))
             (filter (\<lambda>(index, line). trim line \<noteq> []) (enumerate 0 (lines (trim_bom content))))))"

definition rejection_reason :: "DecisionEntry \<Rightarrow> string option" where
  "rejection_reason d =
     (case map_option trim (d_reason d) of
        None \<Rightarrow> None
      | Some reason \<Rightarrow> if reason = [] then None else Some reason)"

fun check_decisions :: "string set \<Rightarrow> string set \<Rightarrow> DecisionEntry list \<Rightarrow> DecisionError + unit" where
  "check_decisions known seen [] = Inr ()"
| "check_decisions known seen (d # ds) =
     (if d_proposal_id d \<notin> known then Inl (UnknownProposalId (d_proposal_id d))
      else if d_proposal_id d \<in> seen then Inl (DuplicateDecision (d_proposal_id d))
      else if d_decision d = Rejected \<and> rejection_reason d = None
           then Inl (MissingRejectionReason (d_proposal_id d))
      else check_decisions known (insert (d_proposal_id d) seen) ds)"

definition approved_ids :: "DecisionEntry list \<Rightarrow> string set" where
  "approved_ids ds = set (map d_proposal_id (filter (\<lambda>d. d_decision d = Approved) ds))"

text \<open>A \<^verbatim>\<open>HashMap\<close> collected from pairs keeps the last value of a key.\<close>

definition rejected_by_id :: "DecisionEntry list \<Rightarrow> string \<Rightarrow> string option" where
  "rejected_by_id ds = map_of (rev (List.map_filter
     (\<lambda>d. map_option (\<lambda>reason. (d_proposal_id d, reason)) (rejection_reason d))
     (filter (\<lambda>d. d_decision d = Rejected) ds)))"

fun split_proposals ::
  "string set \<Rightarrow> (string \<Rightarrow> string option) \<Rightarrow> Proposal list \<Rightarrow> Proposal list \<times> RejectedProposal list" where
  "split_proposals app rej [] = ([], [])"
| "split_proposals app rej (p # ps) =
     (let (as, rs) = split_proposals app rej ps
      in if p_proposal_id p \<in> app then (p # as, rs)
         else (case rej (p_proposal_id p) of
                 Some reason \<Rightarrow> (as, \<lparr>rj_proposal = p, rj_reason = reason\<rparr> # rs)
               | None \<Rightarrow> (as, rs)))"

definition apply_decisions ::
  "ProposalReport \<Rightarrow> DecisionEntry list \<Rightarrow> DecisionError + DecisionApplication" where
  "apply_decisions report ds =
     bind_res (check_decisions (set (map p_proposal_id (pr_proposals report))) {} ds) (\<lambda>_.
       let (as, rs) = split_proposals (approved_ids ds) (rejected_by_id ds) (pr_proposals report)
       in Inr \<lparr>da_approved = \<lparr>pr_root = pr_root report, pr_proposals = as\<rparr>, da_rejected = rs\<rparr>)"

section \<open>Automatic approval\<close>

record AutoApprovalPolicy =
  ap_enabled :: bool
  ap_allowed_actions :: "ProposalAction list"
  ap_max_files_per_run :: nat

datatype AutoApprovalError =
    Disabled
  | EmptyAllowedActions
  | MaxFilesPerRunZero
  | TooManyReadyProposals nat nat

fun auto_approval_error_to_string :: "AutoApprovalError \<Rightarrow> string" where
  "auto_approval_error_to_string Disabled = ''auto approval policy is disabled''"
| "auto_approval_error_to_string EmptyAllowedActions =
     ''auto approval policy has no allowed actions''"
| "auto_approval_error_to_string MaxFilesPerRunZero =
     ''auto approval max_files_per_run must be greater than zero''"
| "auto_approval_error_to_string (TooManyReadyProposals ready max_files) =
     ''auto approval would approve '' @ dec ready @ '' proposals, exceeding limit '' @ dec max_files"

definition policy_validate :: "AutoApprovalPolicy \<Rightarrow> AutoApprovalError + unit" where
  "policy_validate policy =
     (if \<not> ap_enabled policy then Inl Disabled
      else if ap_allowed_actions policy = [] then Inl EmptyAllowedActions
      else if ap_max_files_per_run policy = 0 then Inl MaxFilesPerRunZero
      else Inr ())"

definition ready_allowed :: "ProposalReport \<Rightarrow> AutoApprovalPolicy \<Rightarrow> Proposal list" where
  "ready_allowed report policy =
     filter (\<lambda>p. p_status p = Ready \<and> p_action p \<in> set (ap_allowed_actions policy))
       (pr_proposals report)"

definition auto_approve_decisions ::
  "ProposalReport \<Rightarrow> AutoApprovalPolicy \<Rightarrow> AutoApprovalError + DecisionEntry list" where
  "auto_approve_decisions report policy =
     bind_res (policy_validate policy) (\<lambda>_.
       let ready = ready_allowed report policy
       in if ap_max_files_per_run policy < length ready
          then Inl (TooManyReadyProposals (length ready) (ap_max_files_per_run policy))
          else Inr (map (\<lambda>p. \<lparr>d_proposal_id = p_proposal_id p, d_decision = Approved,
                             d_reason = None\<rparr>) ready))"

section \<open>Properties\<close>

lemma check_decisions_ok:
  "check_decisions known seen ds = Inr u \<longleftrightarrow>
     d_proposal_id ` set ds \<subseteq> known \<and> distinct (map d_proposal_id ds)
     \<and> d_proposal_id ` set ds \<inter> seen = {}
     \<and> (\<forall>d \<in> set ds. d_decision d = Rejected \<longrightarrow> rejection_reason d \<noteq> None)"
  by (induction ds arbitrary: seen) auto

lemma set_map_filter': "y \<in> set (List.map_filter f xs) \<longleftrightarrow> (\<exists>x \<in> set xs. f x = Some y)"
  by (induction xs) (auto simp: map_filter_simps split: option.splits)

lemma distinct_map_filter_keys:
  assumes "distinct (map key xs)" and "\<And>x y. f x = Some y \<Longrightarrow> fst y = key x"
  shows "distinct (map fst (List.map_filter f xs))"
  using assms(1)
proof (induction xs)
  case (Cons x xs)
  have "key x \<notin> fst ` set (List.map_filter f xs)"
    using Cons.prems assms(2) by (force simp: set_map_filter')
  with Cons assms(2) [of x] show ?case by (cases "f x") (auto simp: map_filter_simps)
qed (simp add: map_filter_simps)

lemma rejected_by_id_iff:
  assumes "distinct (map d_proposal_id ds)"
  shows "rejected_by_id ds i = Some reason \<longleftrightarrow>
    (\<exists>d \<in> set ds. d_proposal_id d = i \<and> d_decision d = Rejected \<and> rejection_reason d = Some reason)"
proof -
  let ?ps = "List.map_filter (\<lambda>d. map_option (\<lambda>reason. (d_proposal_id d, reason)) (rejection_reason d))
     (filter (\<lambda>d. d_decision d = Rejected) ds)"
  have "distinct (map fst ?ps)"
    by (rule distinct_map_filter_keys [where key = d_proposal_id])
      (use assms in \<open>auto simp: distinct_map_filter\<close>)
  then have "rejected_by_id ds i = Some reason \<longleftrightarrow> (i, reason) \<in> set ?ps"
    unfolding rejected_by_id_def by (simp add: map_of_eq_Some_iff flip: rev_map)
  then show ?thesis by (auto simp: set_map_filter')
qed

lemma split_proposals_eq:
  "split_proposals app rej ps =
     (filter (\<lambda>p. p_proposal_id p \<in> app) ps,
      map (\<lambda>p. \<lparr>rj_proposal = p, rj_reason = the (rej (p_proposal_id p))\<rparr>)
        (filter (\<lambda>p. p_proposal_id p \<notin> app \<and> rej (p_proposal_id p) \<noteq> None) ps))"
  by (induction ps) (auto split: option.splits)

text \<open>decisions are accepted exactly when each names a proposal of the report, no two name the same
  one and every rejection has a non-blank reason.\<close>

theorem apply_decisions_accepts:
  "is_ok (apply_decisions report ds) \<longleftrightarrow>
     d_proposal_id ` set ds \<subseteq> p_proposal_id ` set (pr_proposals report)
     \<and> distinct (map d_proposal_id ds)
     \<and> (\<forall>d \<in> set ds. d_decision d = Rejected \<longrightarrow> rejection_reason d \<noteq> None)"
proof -
  have "is_ok (apply_decisions report ds) \<longleftrightarrow>
      (\<exists>u. check_decisions (set (map p_proposal_id (pr_proposals report))) {} ds = Inr u)"
    by (auto simp: apply_decisions_def is_ok_iff bind_res_Inr_iff split: prod.splits)
  then show ?thesis by (simp add: check_decisions_ok)
qed

lemma apply_decisions_ok:
  assumes "apply_decisions report ds = Inr app"
  shows "d_proposal_id ` set ds \<subseteq> p_proposal_id ` set (pr_proposals report)"
    and "distinct (map d_proposal_id ds)"
    and "\<And>d. d \<in> set ds \<Longrightarrow> d_decision d = Rejected \<Longrightarrow> rejection_reason d \<noteq> None"
    and "pr_root (da_approved app) = pr_root report"
    and "pr_proposals (da_approved app)
      = filter (\<lambda>p. p_proposal_id p \<in> approved_ids ds) (pr_proposals report)"
    and "da_rejected app = map (\<lambda>p. \<lparr>rj_proposal = p, rj_reason = the (rejected_by_id ds (p_proposal_id p))\<rparr>)
        (filter (\<lambda>p. p_proposal_id p \<notin> approved_ids ds \<and> rejected_by_id ds (p_proposal_id p) \<noteq> None)
           (pr_proposals report))"
  using assms
  by (auto simp: apply_decisions_def bind_res_Inr_iff check_decisions_ok split_proposals_eq)

text \<open>accepted decisions split the report. The approved report keeps the root and, in the report's
  order, exactly the proposals with an approving decision; the rejected ones are exactly those with a
  rejecting decision, with its trimmed reason; a proposal without a decision is in neither.\<close>

theorem apply_decisions_split:
  assumes "apply_decisions report ds = Inr app"
  shows "pr_root (da_approved app) = pr_root report
    \<and> pr_proposals (da_approved app) = filter (\<lambda>p. \<exists>d \<in> set ds. d_proposal_id d = p_proposal_id p
        \<and> d_decision d = Approved) (pr_proposals report)
    \<and> map rj_proposal (da_rejected app) = filter (\<lambda>p. \<exists>d \<in> set ds. d_proposal_id d = p_proposal_id p
        \<and> d_decision d = Rejected) (pr_proposals report)
    \<and> (\<forall>r \<in> set (da_rejected app). \<exists>d \<in> set ds. d_proposal_id d = p_proposal_id (rj_proposal r)
        \<and> d_reason d \<noteq> None \<and> rj_reason r = trim (the (d_reason d)) \<and> rj_reason r \<noteq> [])"
proof -
  note ok = apply_decisions_ok [OF assms]
  have app: "i \<in> approved_ids ds \<longleftrightarrow> (\<exists>d \<in> set ds. d_proposal_id d = i \<and> d_decision d = Approved)" for i
    by (auto simp: approved_ids_def)
  have rej: "(\<exists>reason. rejected_by_id ds i = Some reason)
      \<longleftrightarrow> (\<exists>d \<in> set ds. d_proposal_id d = i \<and> d_decision d = Rejected)" for i
    using rejected_by_id_iff [OF ok(2)] ok(3) by (metis not_Some_eq)
  have same: "d = d'" if "d \<in> set ds" "d' \<in> set ds" "d_proposal_id d = d_proposal_id d'" for d d'
    using ok(2) that by (auto simp: distinct_map inj_on_def)
  have excl: "\<not> (i \<in> approved_ids ds \<and> (\<exists>reason. rejected_by_id ds i = Some reason))" for i
    using same by (auto simp: app rej) (metis Decision.distinct(1))
  have "map rj_proposal (da_rejected app) = filter (\<lambda>p. \<exists>d \<in> set ds. d_proposal_id d = p_proposal_id p
        \<and> d_decision d = Rejected) (pr_proposals report)"
    unfolding ok(6) map_map by (simp add: comp_def rej flip: not_None_eq, rule filter_cong)
      (use excl rej in auto)
  moreover have "\<exists>d \<in> set ds. d_proposal_id d = p_proposal_id (rj_proposal r)
        \<and> d_reason d \<noteq> None \<and> rj_reason r = trim (the (d_reason d)) \<and> rj_reason r \<noteq> []"
    if "r \<in> set (da_rejected app)" for r
  proof -
    obtain p reason where r: "r = \<lparr>rj_proposal = p, rj_reason = reason\<rparr>"
      and "rejected_by_id ds (p_proposal_id p) = Some reason" using \<open>r \<in> _\<close> unfolding ok(6) by auto
    then obtain d where "d \<in> set ds" "d_proposal_id d = p_proposal_id p" "rejection_reason d = Some reason"
      using rejected_by_id_iff [OF ok(2)] by blast
    with r show ?thesis
      by (intro bexI [of _ d]) (auto simp: rejection_reason_def split: option.splits if_splits)
  qed
  ultimately show ?thesis using ok(4,5) app by simp
qed

definition sample_proposal :: "string \<Rightarrow> string \<Rightarrow> Proposal" where
  "sample_proposal i name =
     \<lparr>p_proposal_id = i, p_action = ProposalAction.Move, p_from = name, p_to = ''documents/'' @ name,
      p_content = None, p_source_size_bytes = 5, p_source_modified_unix_ms = Some 4,
      p_source_file_id = None, p_reason = [], p_status = Ready\<rparr>"

definition sample_proposals :: ProposalReport where
  "sample_proposals = \<lparr>pr_root = ''/home/box'',
     pr_proposals = [sample_proposal ''m1'' ''notes.pdf'', sample_proposal ''m2'' ''other.pdf'']\<rparr>"

definition sample_decisions :: "DecisionEntry list" where
  "sample_decisions =
     [\<lparr>d_proposal_id = ''m2'', d_decision = Rejected, d_reason = Some '' keep it ''\<rparr>,
      \<lparr>d_proposal_id = ''m1'', d_decision = Approved, d_reason = None\<rparr>]"

theorem apply_decisions_accepts_witness:
  "distinct (map d_proposal_id sample_decisions)
   \<and> d_proposal_id ` set sample_decisions \<subseteq> p_proposal_id ` set (pr_proposals sample_proposals)"
proof -
  have "is_ok (apply_decisions sample_proposals sample_decisions)" by code_simp
  with apply_decisions_accepts [of sample_proposals sample_decisions] show ?thesis by blast
qed

theorem apply_decisions_split_witness:
  "\<exists>app. apply_decisions sample_proposals sample_decisions = Inr app
     \<and> map p_from (pr_proposals (da_approved app)) = [''notes.pdf'']
     \<and> map (p_from \<circ> rj_proposal) (da_rejected app) = [''other.pdf'']"
proof -
  have "is_ok (apply_decisions sample_proposals sample_decisions)" by code_simp
  then obtain app where app: "apply_decisions sample_proposals sample_decisions = Inr app"
    by (auto simp: is_ok_iff)
  have "map p_from (filter (\<lambda>p. \<exists>d \<in> set sample_decisions. d_proposal_id d = p_proposal_id p
      \<and> d_decision d = Approved) (pr_proposals sample_proposals)) = [''notes.pdf'']"
    and "map p_from (filter (\<lambda>p. \<exists>d \<in> set sample_decisions. d_proposal_id d = p_proposal_id p
      \<and> d_decision d = Rejected) (pr_proposals sample_proposals)) = [''other.pdf'']" by code_simp+
  with app apply_decisions_split [OF app] show ?thesis by (metis map_map)
qed

text \<open>automatic approval is bounded and safe to apply: for a report with distinct ids, the decisions
  it makes name only ready proposals with an allowed action, at most the configured number, and
  applying them succeeds, approves exactly those proposals and rejects none.\<close>

theorem auto_approve_applies:
  assumes "auto_approve_decisions report policy = Inr ds"
    and "distinct (map p_proposal_id (pr_proposals report))"
  shows "length ds \<le> ap_max_files_per_run policy
    \<and> (\<exists>app. apply_decisions report ds = Inr app \<and> da_rejected app = []
        \<and> pr_proposals (da_approved app) = filter (\<lambda>p. p_status p = Ready
            \<and> p_action p \<in> set (ap_allowed_actions policy)) (pr_proposals report))"
proof -
  let ?ready = "ready_allowed report policy"
  have ds: "ds = map (\<lambda>p. \<lparr>d_proposal_id = p_proposal_id p, d_decision = Approved, d_reason = None\<rparr>) ?ready"
    and len: "length ?ready \<le> ap_max_files_per_run policy"
    using assms(1) by (auto simp: auto_approve_decisions_def bind_res_Inr_iff Let_def split: if_splits)
  have ids: "map d_proposal_id ds = map p_proposal_id ?ready" by (simp add: ds)
  have none: "rejected_by_id ds = Map.empty"
    by (simp add: ds rejected_by_id_def filter_map comp_def map_filter_simps)
  have app: "approved_ids ds = p_proposal_id ` set ?ready" by (auto simp: approved_ids_def ds)
  have inj: "inj_on p_proposal_id (set (pr_proposals report))" using assms(2) by (simp add: distinct_map)
  have "check_decisions (set (map p_proposal_id (pr_proposals report))) {} ds = Inr ()"
    using assms(2) unfolding check_decisions_ok ids
    by (auto simp: ds ready_allowed_def distinct_map_filter)
  moreover have "filter (\<lambda>p. p_proposal_id p \<in> approved_ids ds) (pr_proposals report) = ?ready"
    unfolding app ready_allowed_def
    by (rule filter_cong) (auto dest: inj_onD [OF inj])
  ultimately show ?thesis
    using len ds none
    by (simp add: apply_decisions_def split_proposals_eq ready_allowed_def [symmetric])
qed

definition sample_policy :: AutoApprovalPolicy where
  "sample_policy = \<lparr>ap_enabled = True, ap_allowed_actions = [ProposalAction.Move],
                    ap_max_files_per_run = 2\<rparr>"

theorem auto_approve_applies_witness:
  "\<exists>ds app. auto_approve_decisions sample_proposals sample_policy = Inr ds \<and> length ds \<le> 2
     \<and> apply_decisions sample_proposals ds = Inr app \<and> da_rejected app = []"
proof -
  have "is_ok (auto_approve_decisions sample_proposals sample_policy)
      \<and> distinct (map p_proposal_id (pr_proposals sample_proposals))
      \<and> ap_max_files_per_run sample_policy = 2" by code_simp
  then obtain ds where "auto_approve_decisions sample_proposals sample_policy = Inr ds"
    "distinct (map p_proposal_id (pr_proposals sample_proposals))"
    "ap_max_files_per_run sample_policy = 2" by (auto simp: is_ok_iff)
  with auto_approve_applies [of sample_proposals sample_policy ds] show ?thesis by metis
qed

end
