(* ===== verification/Precondition.thy ===== *)
theory Precondition
  imports Decision
begin

text \<open>
  \<^verbatim>\<open>precondition.rs\<close>: the check of every approved proposal against the file system just before it is
  executed. The theorems state what a \<^verbatim>\<open>Ready\<close> verdict guarantees about the file and its place.
\<close>

section \<open>Model\<close>

datatype PrecheckStatus = Ready | DestinationExists | MissingSource | SourceChanged | RejectedPath

record PrecheckResult =
  pc_action :: ProposalAction
  pc_from :: string
  pc_to :: string
  pc_content :: "string option"
  pc_status :: PrecheckStatus
  pc_reason :: "string option"

record PrecheckReport =
  pk_root :: string
  pk_checks :: "PrecheckResult list"

datatype PrecheckError =
    Proposal ProposalError
  | Decision DecisionError
  | Guard PathGuardError
  | RootMismatch string string
  | Serialize string

fun precheck_error_to_string :: "PrecheckError \<Rightarrow> string" where
  "precheck_error_to_string (Proposal error) = proposal_error_to_string error"
| "precheck_error_to_string (Decision error) = decision_error_to_string error"
| "precheck_error_to_string (Guard error) = path_guard_error_to_string error"
| "precheck_error_to_string (RootMismatch expected actual) =
     ''proposal root mismatch: expected '' @ expected @ '', got '' @ actual"
| "precheck_error_to_string (Serialize message) = ''cannot serialize precheck report: '' @ message"

definition result :: "Proposal \<Rightarrow> PrecheckStatus \<Rightarrow> string option \<Rightarrow> PrecheckResult" where
  "result proposal status reason =
     \<lparr>pc_action = p_action proposal, pc_from = p_from proposal, pc_to = p_to proposal,
      pc_content = p_content proposal, pc_status = status, pc_reason = reason\<rparr>"

definition source_identity_change_reason :: "world \<Rightarrow> string \<Rightarrow> Proposal \<Rightarrow> string option" where
  "source_identity_change_reason w path proposal =
     (case p_source_file_id proposal of
        None \<Rightarrow> None
      | Some expected \<Rightarrow>
          (case file_id_for_path w path of
             Some current \<Rightarrow>
               if current = expected then None
               else Some ''source file identity changed since proposal''
           | None \<Rightarrow> Some ''source file identity is unavailable during precheck''))"

definition bad_target :: "string \<Rightarrow> bool" where
  "bad_target t \<longleftrightarrow> t = [] \<or> t = ''.'' \<or> t = ''..''"

definition precheck_create_dir :: "world \<Rightarrow> path_guard \<Rightarrow> Proposal \<Rightarrow> PrecheckResult" where
  "precheck_create_dir w guard proposal =
     (if bad_target (p_to proposal) then
        result proposal RejectedPath (Some ''CREATE_DIR target must be a relative directory path'')
      else (case resolve_for_create w guard (p_to proposal) of
              Inl error \<Rightarrow> result proposal RejectedPath (Some (path_guard_error_to_string error))
            | Inr target \<Rightarrow>
                if path_exists w target then
                  result proposal PrecheckStatus.DestinationExists
                    (Some ''directory already exists; execution must not overwrite it'')
                else result proposal PrecheckStatus.Ready None))"

definition precheck_create_file :: "world \<Rightarrow> path_guard \<Rightarrow> Proposal \<Rightarrow> PrecheckResult" where
  "precheck_create_file w guard proposal =
     (if bad_target (p_to proposal) then
        result proposal RejectedPath (Some ''CREATE_FILE target must be a relative file path'')
      else if (case p_content proposal of None \<Rightarrow> [] | Some c \<Rightarrow> c) \<noteq> [] then
        result proposal RejectedPath (Some ''CREATE_FILE currently supports empty files only'')
      else (case resolve_for_create w guard (p_to proposal) of
              Inl error \<Rightarrow> result proposal RejectedPath (Some (path_guard_error_to_string error))
            | Inr target \<Rightarrow>
                if path_exists w target then
                  result proposal PrecheckStatus.DestinationExists
                    (Some ''file already exists; execution must not overwrite it'')
                else result proposal PrecheckStatus.Ready None))"

definition precheck_source :: "world \<Rightarrow> string \<Rightarrow> string \<Rightarrow> Proposal \<Rightarrow> PrecheckResult" where
  "precheck_source w source changed proposal =
     (case fs_metadata w source of
        Inl error \<Rightarrow> result proposal MissingSource (Some (io_error_to_string error))
      | Inr metadata \<Rightarrow>
          (case source_identity_change_reason w source proposal of
             Some reason \<Rightarrow> result proposal SourceChanged (Some reason)
           | None \<Rightarrow>
               if m_len metadata \<noteq> p_source_size_bytes proposal
                  \<or> modified_unix_ms metadata \<noteq> p_source_modified_unix_ms proposal
               then result proposal SourceChanged (Some changed)
               else result proposal PrecheckStatus.Ready None))"

definition precheck_readme_write :: "world \<Rightarrow> path_guard \<Rightarrow> Proposal \<Rightarrow> PrecheckResult" where
  "precheck_readme_write w guard proposal =
     (if p_from proposal \<noteq> ''README.md'' \<or> p_to proposal \<noteq> ''README.md'' then
        result proposal RejectedPath
          (Some ''README_WRITE may only target README.md at the managed-root root'')
      else if p_content proposal = None then
        result proposal RejectedPath (Some ''README_WRITE proposal is missing approved content'')
      else if (case fs_symlink_metadata w (join_path (guard_root guard) ''README.md'') of
                 Inl _ \<Rightarrow> False
               | Inr metadata \<Rightarrow> is_link_or_reparse_point metadata) then
        result proposal RejectedPath (Some ''README.md is a symlink, junction, or reparse point'')
      else (case resolve_existing w guard ''README.md'' of
              Inl (MissingPath _) \<Rightarrow>
                if p_source_size_bytes proposal = 0 \<and> p_source_modified_unix_ms proposal = None
                   \<and> p_source_file_id proposal = None
                then result proposal PrecheckStatus.Ready None
                else result proposal MissingSource (Some ''README.md no longer exists'')
            | Inl error \<Rightarrow> result proposal RejectedPath (Some (path_guard_error_to_string error))
            | Inr target \<Rightarrow> precheck_source w target ''README.md changed since proposal'' proposal))"

definition precheck_proposal :: "world \<Rightarrow> path_guard \<Rightarrow> Proposal \<Rightarrow> PrecheckResult" where
  "precheck_proposal w guard proposal =
     (if p_status proposal = ProposalStatus.DestinationExists then
        result proposal PrecheckStatus.DestinationExists
          (Some ''destination already exists; execution must not overwrite it'')
      else (case p_action proposal of
              ProposalAction.CreateDir \<Rightarrow> precheck_create_dir w guard proposal
            | ProposalAction.CreateFile \<Rightarrow> precheck_create_file w guard proposal
            | ProposalAction.ReadmeWrite \<Rightarrow> precheck_readme_write w guard proposal
            | _ \<Rightarrow>
                (case resolve_existing w guard (p_from proposal) of
                   Inl (MissingPath _) \<Rightarrow>
                     result proposal MissingSource (Some ''source file no longer exists'')
                 | Inl error \<Rightarrow>
                     result proposal RejectedPath (Some (path_guard_error_to_string error))
                 | Inr source \<Rightarrow>
                     precheck_source w source ''source size or modified time changed since proposal''
                       proposal)))"

definition precheck_proposals_with_guard ::
  "world \<Rightarrow> path_guard \<Rightarrow> ProposalReport \<Rightarrow> PrecheckError + PrecheckReport" where
  "precheck_proposals_with_guard w guard report =
     (let expected_root = guard_root guard
      in if pr_root report \<noteq> expected_root then Inl (RootMismatch expected_root (pr_root report))
         else Inr \<lparr>pk_root = pr_root report,
                   pk_checks = map (precheck_proposal w guard) (pr_proposals report)\<rparr>)"

definition precheck_proposals ::
  "world \<Rightarrow> string \<Rightarrow> ProposalReport \<Rightarrow> PrecheckError + PrecheckReport" where
  "precheck_proposals w root report =
     bind_res (map_err PrecheckError.Guard (guard_new w root))
       (\<lambda>guard. precheck_proposals_with_guard w guard report)"

definition precheck_root ::
  "(string \<Rightarrow> string + RuleSet) \<Rightarrow> string \<Rightarrow> world
     \<Rightarrow> ((PrecheckError + PrecheckReport) \<times> world) option" where
  "precheck_root parse_rules root w =
     (case guard_new w root of
        Inl error \<Rightarrow> Some (Inl (PrecheckError.Guard error), w)
      | Inr guard \<Rightarrow>
          (case propose_for_root parse_rules (guard_root guard) w of
             None \<Rightarrow> None
           | Some (Inl error, w1) \<Rightarrow> Some (Inl (PrecheckError.Proposal error), w1)
           | Some (Inr report, w1) \<Rightarrow> Some (precheck_proposals_with_guard w1 guard report, w1)))"

section \<open>What a Ready verdict means\<close>

lemma result_simps [simp]:
  "pc_status (result p s r) = s" "pc_action (result p s r) = p_action p"
  "pc_from (result p s r) = p_from p" "pc_to (result p s r) = p_to p"
  "pc_content (result p s r) = p_content p" "pc_reason (result p s r) = r"
  by (simp_all add: result_def)

lemma precheck_source_ready:
  "pc_status (precheck_source w source changed p) = PrecheckStatus.Ready \<longleftrightarrow>
     (\<exists>m. fs_metadata w source = Inr m \<and> m_len m = p_source_size_bytes p
        \<and> modified_unix_ms m = p_source_modified_unix_ms p
        \<and> (p_source_file_id p = None \<or> file_id_for_path w source = p_source_file_id p))"
  by (auto simp: precheck_source_def source_identity_change_reason_def
      split: sum.splits option.splits if_splits)

lemma precheck_source_fields [simp]:
  "pc_action (precheck_source w s c p) = p_action p" "pc_from (precheck_source w s c p) = p_from p"
  "pc_to (precheck_source w s c p) = p_to p" "pc_content (precheck_source w s c p) = p_content p"
  by (simp_all add: precheck_source_def split: sum.splits option.splits)

definition about :: "Proposal \<Rightarrow> PrecheckResult \<Rightarrow> bool" where
  "about p c \<longleftrightarrow> pc_action c = p_action p \<and> pc_from c = p_from p \<and> pc_to c = p_to p
     \<and> pc_content c = p_content p"

lemma about_result [simp]: "about p (result p s r)" "about p (precheck_source w src c p)"
  by (simp_all add: about_def)

lemma about_existing:
  "about p (case resolve_existing w g x of Inl (MissingPath y) \<Rightarrow> f y
     | Inl e \<Rightarrow> result p RejectedPath (Some (path_guard_error_to_string e)) | Inr s \<Rightarrow> h s)"
  if "\<And>y. about p (f y)" "\<And>s. about p (h s)"
proof (cases "resolve_existing w g x")
  case (Inl e)
  then show ?thesis using that by (cases e) simp_all
qed (simp add: that)

lemma precheck_proposal_about: "about p (precheck_proposal w g p)"
proof -
  have "about p (precheck_create_dir w g p)" "about p (precheck_create_file w g p)"
    by (simp_all add: precheck_create_dir_def precheck_create_file_def split: sum.splits)
  moreover have "about p (precheck_readme_write w g p)"
    unfolding precheck_readme_write_def by (simp add: about_existing split del: if_split)
      (simp add: about_existing)
  ultimately show ?thesis
    unfolding precheck_proposal_def
    by (cases "p_action p") (simp_all add: about_existing)
qed

lemma precheck_move_ready:
  assumes "p_action p \<in> {ProposalAction.Move, ProposalAction.Trash}"
  shows "pc_status (precheck_proposal w g p) = PrecheckStatus.Ready \<longleftrightarrow>
    p_status p = ProposalStatus.Ready \<and> (\<exists>source m. resolve_existing w g (p_from p) = Inr source
      \<and> fs_metadata w source = Inr m \<and> m_len m = p_source_size_bytes p
      \<and> modified_unix_ms m = p_source_modified_unix_ms p
      \<and> (p_source_file_id p = None \<or> file_id_for_path w source = p_source_file_id p))"
proof (cases "resolve_existing w g (p_from p)")
  case (Inl e)
  with assms show ?thesis by (cases e) (auto simp: precheck_proposal_def)
next
  case (Inr source)
  have "p_status p \<noteq> ProposalStatus.DestinationExists \<longleftrightarrow> p_status p = ProposalStatus.Ready"
    by (cases "p_status p") simp_all
  with Inr assms precheck_source_ready show ?thesis by (auto simp: precheck_proposal_def)
qed

lemma metadata_at_loc:
  assumes "wf_fs (w_fs w)" "map_of (w_fs w) l = Some nd" "\<not> is_link (Some nd)"
  shows "fs_metadata w (path_of_loc l) = Inr (node_metadata nd)"
  using resolve_path_of_loc [OF assms(1,2), of True] assms(3) by (simp add: fs_metadata_def)

text \<open>C23: a move or trash proposal that passes the check is about a file that has not changed: its source
  text is a safe relative path that leads to one node inside the managed root, not a link, whose size and
  modification time are the ones the proposal recorded and whose device and inode match the recorded
  identity.\<close>

theorem precheck_ready_unchanged:
  assumes g: "guard_ok w g r" and act: "p_action p \<in> {ProposalAction.Move, ProposalAction.Trash}"
    and ready: "pc_status (precheck_proposal w g p) = PrecheckStatus.Ready"
  shows "safe_relative (p_from p) \<and> (\<exists>l nd. prefix r l
    \<and> resolve_existing w g (p_from p) = Inr (path_of_loc l)
    \<and> map_of (w_fs w) l = Some nd \<and> \<not> is_link (Some nd) \<and> node_len nd = p_source_size_bytes p
    \<and> map_option (\<lambda>ns. ns div 1000000) (at_modified (node_attrs nd)) = p_source_modified_unix_ms p
    \<and> (p_source_file_id p \<noteq> None \<longrightarrow> p_source_file_id p
         = Some (''unix:d'' @ hex016 (at_dev (node_attrs nd)) @ '':i'' @ hex016 (at_ino (node_attrs nd)))))"
proof -
  obtain source m where src: "resolve_existing w g (p_from p) = Inr source"
    and m: "fs_metadata w source = Inr m" "m_len m = p_source_size_bytes p"
      "modified_unix_ms m = p_source_modified_unix_ms p"
      "p_source_file_id p = None \<or> file_id_for_path w source = p_source_file_id p"
    using ready precheck_move_ready [OF act] by blast
  obtain l nd where l: "source = path_of_loc l" "prefix r l" "map_of (w_fs w) l = Some nd"
      "\<not> is_link (Some nd)" and safe: "safe_relative (p_from p)"
    using resolve_existing_Inr [OF g src] by blast
  have "m = node_metadata nd"
    using m(1) metadata_at_loc [OF _ l(3,4)] g l(1) by (simp add: guard_ok_def)
  moreover have "file_id_for_path w source = Some (''unix:d'' @ hex016 (m_dev m) @ '':i'' @ hex016 (m_ino m))"
    using m(1) by (simp add: file_id_for_path_def)
  ultimately show ?thesis
    using safe src l m(2,3,4)
    by (intro conjI exI [of _ l] exI [of _ nd])
      (auto simp: node_metadata_def modified_unix_ms_def)
qed

theorem precheck_ready_unchanged_witness:
  "pc_status (precheck_proposal sample_world sample_guard (sample_proposal ''m1'' ''notes.pdf''))
     = PrecheckStatus.Ready
   \<and> safe_relative (p_from (sample_proposal ''m1'' ''notes.pdf''))"
proof -
  have ready: "pc_status (precheck_proposal sample_world sample_guard (sample_proposal ''m1'' ''notes.pdf''))
     = PrecheckStatus.Ready" by code_simp
  moreover have "p_action (sample_proposal ''m1'' ''notes.pdf'') \<in> {ProposalAction.Move, ProposalAction.Trash}"
    by (simp add: sample_proposal_def)
  ultimately show ?thesis using precheck_ready_unchanged [OF sample_guard_ok] by blast
qed

lemma safe_join: "valid_loc rel \<Longrightarrow> rel \<noteq> [] \<Longrightarrow> safe_relative (join_with ''/'' rel)"
  by (auto simp: safe_relative_def components_join)

lemma resolve_existing_rel:
  assumes g: "guard_ok w g r" and rel: "rel \<noteq> []"
    and nd: "map_of (w_fs w) (r @ rel) = Some nd" "\<not> is_link (Some nd)"
  shows "resolve_existing w g (join_with ''/'' rel) = Inr (path_of_loc (r @ rel))"
proof -
  have wf: "wf_fs (w_fs w)" and root: "guard_root g = path_of_loc r" using g by (auto simp: guard_ok_def)
  have v: "valid_loc (r @ rel)" using wf_fs_valid [OF wf] nd(1) by auto
  then have vs: "valid_loc r" "valid_loc rel" by (simp_all add: valid_loc_def)
  have "canonicalize_existing w (join_path (guard_root g) (join_with ''/'' rel)) = Inr (path_of_loc (r @ rel))"
    using resolve_path_of_loc [OF wf nd(1), of True] nd(2) join_path_rel [OF vs rel] root
    by (simp add: canonicalize_existing_Inr_iff)
  moreover have "reject_unsafe_components (join_with ''/'' rel) = Inr ()"
    using safe_join [OF vs(2) rel] by (simp add: reject_unsafe_ok)
  ultimately show ?thesis
    using path_starts_with_loc [OF v vs(1)] root by (simp add: resolve_existing_def)
qed

text \<open>nothing that was proposed is refused without a reason: a move or trash proposal made for a
  scanned file and still marked ready passes the check in the very state that was scanned.\<close>

theorem precheck_accepts_proposed:
  assumes g: "guard_ok w g r" and rel: "rel \<in> below w r [] is_regular"
    and p: "propose rs (file_entry w r rel) ctx = Some p" "p_action p \<noteq> ProposalAction.CreateDir"
      "p_status p = ProposalStatus.Ready"
  shows "pc_status (precheck_proposal w g p) = PrecheckStatus.Ready"
proof -
  obtain nd where nd: "map_of (w_fs w) (r @ rel) = Some nd" "\<not> is_link (Some nd)" "rel \<noteq> []"
    using rel by (cases "map_of (w_fs w) (r @ rel)" rule: is_regular.cases) (auto simp: below_root)
  have wf: "wf_fs (w_fs w)" using g by (simp add: guard_ok_def)
  have act: "p_action p \<in> {ProposalAction.Move, ProposalAction.Trash}"
    using p(1,2) by (auto simp: propose_def proposal_from_rule_def move_proposal_from_rule_def
        trash_proposal_from_rule_def create_dir_proposal_from_rule_def Let_def
        dest!: find_map_in split: if_splits option.splits bool.splits)
  have "p_from p = join_with ''/'' rel" "p_source_size_bytes p = m_len (node_metadata nd)"
    "p_source_modified_unix_ms p = modified_unix_ms (node_metadata nd)"
    "p_source_file_id p = file_id_for_path w (path_of_loc (r @ rel))"
    using propose_from_source [OF p(1)] p(2) nd(1) metadata_at_loc [OF wf nd(1,2)]
    by (auto simp: file_entry_def Let_def file_id_for_path_def)
  with p(3) resolve_existing_rel [OF g nd(3,1,2)] metadata_at_loc [OF wf nd(1,2)]
  show ?thesis unfolding precheck_move_ready [OF act] by simp
qed

theorem precheck_accepts_proposed_witness:
  "\<exists>p. propose default_rule_set (file_entry sample_world sample_root [''notes.pdf'']) sample_context = Some p
     \<and> pc_status (precheck_proposal sample_world sample_guard p) = PrecheckStatus.Ready"
proof -
  obtain p where p: "propose default_rule_set sample_file sample_context = Some p"
    "p_action p = ProposalAction.Move" "p_status p = ProposalStatus.Ready" by (rule sample_propose)
  have "[''notes.pdf''] \<noteq> [] \<and> visible [''notes.pdf'']
      \<and> is_regular (map_of (w_fs sample_world) (sample_root @ [''notes.pdf'']))" by code_simp
  then have "[''notes.pdf''] \<in> below sample_world sample_root [] is_regular" by (simp add: below_root)
  with precheck_accepts_proposed [OF sample_guard_ok] p show ?thesis
    unfolding sample_file_def by fastforce
qed

end
