(* ===== verification/Journal.thy ===== *)
theory Journal
  imports Precondition
begin

text \<open>
  \<^verbatim>\<open>db.rs\<close> and the store of \<^verbatim>\<open>journal.rs\<close>: the per-root database and its append-only operation journal.

  A database is identified by the text of its path; its tables are part of the world beside the file
  tree, and every statement spends one tick and fails when the fault schedule says so, leaving the
  tables unchanged (statements are atomic). Status and action are stored as text, so a row can hold text
  that no version of the program wrote: the readers must cope with it.
\<close>

section \<open>The database\<close>

definition DB_FILE :: string where
  "DB_FILE = ''mousekeeper.db''"

datatype DbError =
    CreateStateDir string string
  | Open string string
  | Migrate string
  | Query string

fun db_error_to_string :: "DbError \<Rightarrow> string" where
  "db_error_to_string (CreateStateDir path message) =
     ''cannot create state directory '' @ path @ '': '' @ message"
| "db_error_to_string (Open path message) = ''cannot open database '' @ path @ '': '' @ message"
| "db_error_to_string (Migrate message) = ''cannot apply schema: '' @ message"
| "db_error_to_string (Query message) = ''database query failed: '' @ message"

definition db_path_for_root :: "string \<Rightarrow> string" where
  "db_path_for_root root = join_path (join_path root STATE_DIR) DB_FILE"

text \<open>One statement on an open database; the first argument is its path. A database without tables
  answers with an error, like SQLite for a missing table.\<close>

definition db_call :: "string \<Rightarrow> (root_db \<Rightarrow> 'a \<times> root_db) \<Rightarrow> (string, 'a) act" where
  "db_call path stmt w =
     (let w1 = w\<lparr>w_tick := Suc (w_tick w)\<rparr>
      in if w_fails w (w_tick w) then (Inl ''disk I/O error'', w1)
         else (case w_dbs w path of
                 None \<Rightarrow> (Inl ''no such table'', w1)
               | Some db \<Rightarrow>
                   (case stmt db of (x, db') \<Rightarrow> (Inr x, w1\<lparr>w_dbs := (w_dbs w)(path \<mapsto> db')\<rparr>))))"

text \<open>Connecting with \<^verbatim>\<open>create_if_missing\<close> can fail; \<^verbatim>\<open>CREATE TABLE IF NOT EXISTS\<close> gives a fresh
  database its empty tables and leaves an existing one alone.\<close>

definition db_connect :: "string \<Rightarrow> (string, unit) act" where
  "db_connect path w =
     (let w1 = w\<lparr>w_tick := Suc (w_tick w)\<rparr>
      in if w_fails w (w_tick w) then (Inl ''unable to open database file'', w1) else (Inr (), w1))"

definition migrate :: "string \<Rightarrow> (string, unit) act" where
  "migrate path w =
     (let w1 = w\<lparr>w_tick := Suc (w_tick w)\<rparr>
      in if w_fails w (w_tick w) then (Inl ''disk I/O error'', w1)
         else (Inr (), case w_dbs w path of
                         None \<Rightarrow> w1\<lparr>w_dbs := (w_dbs w)(path \<mapsto> empty_db)\<rparr>
                       | Some _ \<Rightarrow> w1))"

definition open_pool_at :: "string \<Rightarrow> (DbError, unit) act" where
  "open_pool_at db_path =
     bindA (case parent db_path of
              None \<Rightarrow> returnA ()
            | Some dir \<Rightarrow> map_errA (\<lambda>error. CreateStateDir dir (io_error_to_string error))
                            (create_dir_all dir))
       (\<lambda>_. map_errA (Open db_path) (db_connect db_path))"

definition open_root_db :: "string \<Rightarrow> (DbError, unit) act" where
  "open_root_db root =
     (let db_path = db_path_for_root root
      in bindA (open_pool_at db_path) (\<lambda>_. map_errA Migrate (migrate db_path)))"

section \<open>Entries\<close>

datatype JournalStatus = Planned | Executed | UndoPlanned | Undone

datatype JournalAction = Move | Trash | CreateDir | CreateFile | ReadmeWrite

record JournalEntry =
  je_operation_id :: string
  je_status :: JournalStatus
  je_action :: JournalAction
  je_from :: string
  je_to :: string
  je_created_unix_ms :: nat

fun status_as_db_str :: "JournalStatus \<Rightarrow> string" where
  "status_as_db_str Planned = ''planned''"
| "status_as_db_str Executed = ''executed''"
| "status_as_db_str UndoPlanned = ''undo_planned''"
| "status_as_db_str Undone = ''undone''"

definition status_from_db_str :: "string \<Rightarrow> JournalStatus option" where
  "status_from_db_str v =
     (if v = ''planned'' then Some Planned
      else if v = ''executed'' then Some Executed
      else if v = ''undo_planned'' then Some UndoPlanned
      else if v = ''undone'' then Some Undone
      else None)"

fun action_as_db_str :: "JournalAction \<Rightarrow> string" where
  "action_as_db_str JournalAction.Move = ''move''"
| "action_as_db_str JournalAction.Trash = ''trash''"
| "action_as_db_str JournalAction.CreateDir = ''create_dir''"
| "action_as_db_str JournalAction.CreateFile = ''create_file''"
| "action_as_db_str JournalAction.ReadmeWrite = ''readme_write''"

definition action_from_db_str :: "string \<Rightarrow> JournalAction option" where
  "action_from_db_str v =
     (if v = ''move'' then Some JournalAction.Move
      else if v = ''trash'' then Some JournalAction.Trash
      else if v = ''create_dir'' then Some JournalAction.CreateDir
      else if v = ''create_file'' then Some JournalAction.CreateFile
      else if v = ''readme_write'' then Some JournalAction.ReadmeWrite
      else None)"

record JournalCorruption =
  jc_line :: nat
  jc_message :: string

datatype JournalError =
    Guard PathGuardError
  | Precheck PrecheckError
  | Db DbError
  | Corrupt nat string
  | NotCorrupted string
  | WriteQuarantine string string
  | Serialize string

fun journal_error_to_string :: "JournalError \<Rightarrow> string" where
  "journal_error_to_string (Guard error) = path_guard_error_to_string error"
| "journal_error_to_string (Precheck error) = precheck_error_to_string error"
| "journal_error_to_string (Db error) = db_error_to_string error"
| "journal_error_to_string (Corrupt line message) =
     ''cannot parse journal row '' @ dec line @ '': '' @ message"
| "journal_error_to_string (NotCorrupted path) =
     ''journal is not corrupted; refusing to recover: '' @ path"
| "journal_error_to_string (WriteQuarantine path message) =
     ''cannot write quarantine file '' @ path @ '': '' @ message"
| "journal_error_to_string (Serialize message) = ''cannot serialize journal entry: '' @ message"

section \<open>The store\<close>

record JournalStore =
  js_db_path :: string

definition store_open :: "string \<Rightarrow> (JournalError, JournalStore) act" where
  "store_open root =
     bindA (map_errA Db (open_root_db root)) (\<lambda>_. returnA \<lparr>js_db_path = db_path_for_root root\<rparr>)"

definition query :: "JournalStore \<Rightarrow> (root_db \<Rightarrow> 'a \<times> root_db) \<Rightarrow> (JournalError, 'a) act" where
  "query store stmt = map_errA (\<lambda>message. Db (Query message)) (db_call (js_db_path store) stmt)"

definition insert_row :: "JournalEntry \<Rightarrow> root_db \<Rightarrow> root_db" where
  "insert_row entry db =
     db\<lparr>db_journal := db_journal db @
          [\<lparr>row_seq = db_next_seq db, row_operation_id = je_operation_id entry,
            row_status = status_as_db_str (je_status entry),
            row_action = action_as_db_str (je_action entry),
            row_from_path = je_from entry, row_to_path = je_to entry,
            row_created_unix_ms = as_i64 (je_created_unix_ms entry)\<rparr>],
        db_next_seq := db_next_seq db + 1\<rparr>"

definition append_entry :: "JournalStore \<Rightarrow> JournalEntry \<Rightarrow> (JournalError, unit) act" where
  "append_entry store entry = query store (\<lambda>db. ((), insert_row entry db))"

definition read_raw :: "JournalStore \<Rightarrow> (JournalError, journal_row list) act" where
  "read_raw store = query store (\<lambda>db. (sort_key row_seq (db_journal db), db))"

definition entry_of_row :: "journal_row \<Rightarrow> JournalEntry option" where
  "entry_of_row row =
     (case (status_from_db_str (row_status row), action_from_db_str (row_action row)) of
        (Some status, Some action) \<Rightarrow>
          Some \<lparr>je_operation_id = row_operation_id row, je_status = status, je_action = action,
                je_from = row_from_path row, je_to = row_to_path row,
                je_created_unix_ms = i64_as_u128 (row_created_unix_ms row)\<rparr>
      | _ \<Rightarrow> None)"

definition bad_row_message :: "journal_row \<Rightarrow> string" where
  "bad_row_message row =
     ''unrecognized journal row (status='' @ quoted (row_status row) @ '', action=''
       @ quoted (row_action row) @ '')''"

fun parse_rows :: "nat \<Rightarrow> journal_row list \<Rightarrow> JournalEntry list \<times> JournalCorruption option" where
  "parse_rows index [] = ([], None)"
| "parse_rows index (row # rows) =
     (case entry_of_row row of
        Some entry \<Rightarrow>
          (case parse_rows (index + 1) rows of (entries, corruption) \<Rightarrow> (entry # entries, corruption))
      | None \<Rightarrow> ([], Some \<lparr>jc_line = index + 1, jc_message = bad_row_message row\<rparr>))"

definition read_all_lenient ::
  "JournalStore \<Rightarrow> (JournalError, JournalEntry list \<times> JournalCorruption option) act" where
  "read_all_lenient store = bindA (read_raw store) (\<lambda>raw. returnA (parse_rows 0 raw))"

definition read_all :: "JournalStore \<Rightarrow> (JournalError, JournalEntry list) act" where
  "read_all store =
     bindA (read_all_lenient store) (\<lambda>(entries, corruption).
       case corruption of
         Some c \<Rightarrow> throwA (Corrupt (jc_line c) (jc_message c))
       | None \<Rightarrow> returnA entries)"

definition clear_rows :: "JournalStore \<Rightarrow> (JournalError, unit) act" where
  "clear_rows store = query store (\<lambda>db. ((), db\<lparr>db_journal := []\<rparr>))"

section \<open>Text codecs\<close>

text \<open>What a stored enumeration owes its readers: every value can be read back, and only the text that
  a value is written as is accepted.\<close>

locale db_codec =
  fixes enc :: "'a \<Rightarrow> string" and dec :: "string \<Rightarrow> 'a option"
  assumes dec_enc: "dec (enc x) = Some x"
    and dec_canonical: "dec s = Some x \<Longrightarrow> s = enc x"
begin

lemma dec_iff: "dec s = Some x \<longleftrightarrow> s = enc x"
  using dec_enc dec_canonical by blast

lemma enc_inj: "enc x = enc y \<Longrightarrow> x = y"
  by (metis dec_enc option.inject)

lemma dec_none: "dec s = None \<longleftrightarrow> s \<notin> range enc"
  by (metis dec_iff not_None_eq rangeE rangeI)

end

interpretation status_codec: db_codec status_as_db_str status_from_db_str
proof
  show "status_from_db_str (status_as_db_str x) = Some x" for x
    by (cases x) (simp_all add: status_from_db_str_def)
  show "status_from_db_str s = Some x \<Longrightarrow> s = status_as_db_str x" for s x
    by (auto simp: status_from_db_str_def split: if_splits)
qed

interpretation action_codec: db_codec action_as_db_str action_from_db_str
proof
  show "action_from_db_str (action_as_db_str x) = Some x" for x
    by (cases x) (simp_all add: action_from_db_str_def)
  show "action_from_db_str s = Some x \<Longrightarrow> s = action_as_db_str x" for s x
    by (auto simp: action_from_db_str_def split: if_splits)
qed

lemma entry_of_row_None:
  "entry_of_row row = None \<longleftrightarrow>
     row_status row \<notin> range status_as_db_str \<or> row_action row \<notin> range action_as_db_str"
  using status_codec.dec_none [of "row_status row"] action_codec.dec_none [of "row_action row"]
  by (auto simp: entry_of_row_def split: option.splits)

section \<open>Tables\<close>

text \<open>Sequence numbers increase along the table and stay below the counter.\<close>

definition db_ok :: "root_db \<Rightarrow> bool" where
  "db_ok db \<longleftrightarrow> sorted_wrt (<) (map row_seq (db_journal db))
     \<and> (\<forall>row \<in> set (db_journal db). row_seq row < db_next_seq db)"

lemma db_ok_empty [simp]: "db_ok empty_db"
  by (simp add: db_ok_def empty_db_def)

lemma db_ok_insert: "db_ok db \<Longrightarrow> db_ok (insert_row e db)"
  by (auto simp: db_ok_def insert_row_def sorted_wrt_append)

lemma db_ok_clear: "db_ok (db\<lparr>db_journal := []\<rparr>)"
  by (simp add: db_ok_def)

lemma db_ok_sorted: "db_ok db \<Longrightarrow> sort_key row_seq (db_journal db) = db_journal db"
  by (rule sort_key_id_if_sorted) (auto simp: db_ok_def strict_sorted_imp_sorted)

lemma parse_rows_append:
  "snd (parse_rows n rows) = None \<Longrightarrow> parse_rows n (rows @ rows2) =
     (fst (parse_rows n rows) @ fst (parse_rows (n + length rows) rows2),
      snd (parse_rows (n + length rows) rows2))"
  by (induction rows arbitrary: n) (auto split: option.splits prod.splits)

definition readable :: "journal_row \<Rightarrow> bool" where
  "readable row \<longleftrightarrow> entry_of_row row \<noteq> None"

lemma parse_rows_spec:
  "parse_rows n rows =
     (map (the \<circ> entry_of_row) (takeWhile readable rows),
      case dropWhile readable rows of
        [] \<Rightarrow> None
      | bad # rest \<Rightarrow> Some \<lparr>jc_line = n + length (takeWhile readable rows) + 1,
                             jc_message = bad_row_message bad\<rparr>)"
proof (induction rows arbitrary: n)
  case (Cons row rows)
  have "readable row \<longleftrightarrow> entry_of_row row \<noteq> None" by (rule readable_def)
  then show ?case
    by (cases "entry_of_row row") (simp_all add: Cons.IH cong: list.case_cong)
qed simp

lemma parse_rows_clean:
  "parse_rows n rows = (entries, None) \<longleftrightarrow>
     (\<forall>row \<in> set rows. readable row) \<and> entries = map (the \<circ> entry_of_row) rows"
proof (cases "\<forall>row \<in> set rows. readable row")
  case True
  then have all: "takeWhile readable rows = rows" "dropWhile readable rows = []" by simp_all
  show ?thesis using True unfolding parse_rows_spec all by auto
next
  case False
  then obtain bad rest where bad: "dropWhile readable rows = bad # rest"
    by (cases "dropWhile readable rows") auto
  show ?thesis using False unfolding parse_rows_spec bad by auto
qed

definition journal_of :: "world \<Rightarrow> string \<Rightarrow> journal_row list" where
  "journal_of w path = (case w_dbs w path of None \<Rightarrow> [] | Some db \<Rightarrow> db_journal db)"

definition dbs_ok :: "world \<Rightarrow> bool" where
  "dbs_ok w \<longleftrightarrow> (\<forall>path db. w_dbs w path = Some db \<longrightarrow> db_ok db)"

section \<open>Frames of the store\<close>

text \<open>A journal only grows: what was recorded stays, in order.\<close>

definition grows :: "world \<Rightarrow> world \<Rightarrow> bool" where
  "grows w w' \<longleftrightarrow> (dbs_ok w \<longrightarrow> dbs_ok w') \<and> (\<forall>path. prefix (journal_of w path) (journal_of w' path))"

definition same_fs :: "world \<Rightarrow> world \<Rightarrow> bool" where
  "same_fs w w' \<longleftrightarrow> w_fs w' = w_fs w"

interpretation grows: world_frame grows
  by unfold_locales (auto simp: grows_def intro: prefix_order.trans)

interpretation same_fs: world_frame same_fs
  by unfold_locales (simp_all add: same_fs_def)

lemma keeps_mono: "keeps R m \<Longrightarrow> (\<And>w w'. R w w' \<Longrightarrow> S w w') \<Longrightarrow> keeps S m"
  by (simp add: keeps_def)

lemma same_dbs_grows: "keeps same_dbs m \<Longrightarrow> keeps grows m"
  by (erule keeps_mono) (simp add: same_dbs_def grows_def dbs_ok_def journal_of_def)

lemma same_fs_safe: "keeps same_fs m \<Longrightarrow> keeps stays_wf m" "keeps same_fs m \<Longrightarrow> keeps no_file_lost m"
  by (erule keeps_mono; simp add: same_fs_def stays_wf_def no_file_lost_def)+

lemma db_call_cases:
  assumes "db_call path stmt w = (r, w')"
  obtains (fails) e where "r = Inl e" "w' = w\<lparr>w_tick := Suc (w_tick w)\<rparr>"
  | (runs) db x db' where "w_dbs w path = Some db" "stmt db = (x, db')" "r = Inr x"
      "w' = w\<lparr>w_tick := Suc (w_tick w), w_dbs := (w_dbs w)(path \<mapsto> db')\<rparr>"
  using assms by (auto simp: db_call_def Let_def split: if_splits option.splits prod.splits)

lemma db_call_same: "keeps same_fs (db_call path stmt)" "keeps same_env (db_call path stmt)"
  by (rule keepsI; erule db_call_cases; simp add: same_fs_def same_env_def)+

lemma db_call_grows:
  assumes "\<And>db x db'. stmt db = (x, db') \<Longrightarrow>
      (db_ok db \<longrightarrow> db_ok db') \<and> prefix (db_journal db) (db_journal db')"
  shows "keeps grows (db_call path stmt)"
proof (rule keepsI)
  fix w r w' assume "db_call path stmt w = (r, w')"
  then show "grows w w'"
  proof (cases rule: db_call_cases)
    case (runs db x db')
    with assms [OF runs(2)] show ?thesis
      by (auto simp: grows_def dbs_ok_def journal_of_def)
  qed (simp add: grows_def dbs_ok_def journal_of_def)
qed

lemma open_steps:
  "keeps same_fs (db_connect path)" "keeps same_fs (migrate path)"
  "keeps grows (db_connect path)" "keeps grows (migrate path)"
  "keeps same_env (db_connect path)" "keeps same_env (migrate path)"
  by (auto simp: keeps_def same_fs_def same_env_def grows_def dbs_ok_def journal_of_def db_connect_def
      migrate_def Let_def empty_db_def db_ok_def split: option.splits)

lemma query_same: "keeps same_fs (query store stmt)" "keeps same_env (query store stmt)"
  unfolding query_def by (intro same_fs.keeps_map_err env.keeps_map_err db_call_same)+

lemma append_frames:
  "keeps same_fs (append_entry store e)" "keeps same_env (append_entry store e)"
  "keeps grows (append_entry store e)"
proof -
  show "keeps grows (append_entry store e)"
    unfolding append_entry_def query_def
    by (rule grows.keeps_map_err, rule db_call_grows) (auto simp: db_ok_insert, simp add: insert_row_def)
qed (simp_all add: append_entry_def query_same)

lemma read_frames:
  "keeps same_fs (read_raw store)" "keeps same_env (read_raw store)" "keeps grows (read_raw store)"
  "keeps same_fs (read_all_lenient store)" "keeps same_env (read_all_lenient store)"
  "keeps grows (read_all_lenient store)"
  "keeps same_fs (read_all store)" "keeps same_env (read_all store)" "keeps grows (read_all store)"
proof -
  show raw: "keeps same_fs (read_raw store)" "keeps same_env (read_raw store)" "keeps grows (read_raw store)"
    unfolding read_raw_def
    by (simp_all add: query_same) (simp add: query_def, rule grows.keeps_map_err, rule db_call_grows, simp)
  show len: "keeps same_fs (read_all_lenient store)" "keeps same_env (read_all_lenient store)"
    "keeps grows (read_all_lenient store)"
    unfolding read_all_lenient_def
    by (intro raw same_fs.keeps_rules env.keeps_rules grows.keeps_rules)+
  show "keeps same_fs (read_all store)" "keeps same_env (read_all store)" "keeps grows (read_all store)"
    unfolding read_all_def
    by (intro len same_fs.keeps_bind env.keeps_bind grows.keeps_bind;
        auto split: prod.splits option.splits
          intro: same_fs.keeps_rules env.keeps_rules grows.keeps_rules)+
qed

text \<open>Opening a store creates at most directories and, in a fresh database, empty tables.\<close>

lemma open_root_db_frames:
  "keeps stays_wf (open_root_db root)" "keeps no_file_lost (open_root_db root)"
  "keeps grows (open_root_db root)" "keeps same_env (open_root_db root)"
proof -
  note steps = open_steps create_dir_all_frames create_dir_all_files
    same_fs_safe [OF open_steps(1)] same_fs_safe [OF open_steps(2)]
    same_dbs_grows [OF create_dir_all_frames(2)]
  show "keeps stays_wf (open_root_db root)"
    unfolding open_root_db_def open_pool_at_def Let_def
    by (intro wf.keeps_bind wf.keeps_map_err steps) (auto intro: wf.keeps_rules steps split: option.splits)
  show "keeps no_file_lost (open_root_db root)"
    unfolding open_root_db_def open_pool_at_def Let_def
    by (intro files.keeps_bind files.keeps_map_err steps)
      (auto intro: files.keeps_rules steps split: option.splits)
  show "keeps grows (open_root_db root)"
    unfolding open_root_db_def open_pool_at_def Let_def
    by (intro grows.keeps_bind grows.keeps_map_err steps)
      (auto intro: grows.keeps_rules steps split: option.splits)
  show "keeps same_env (open_root_db root)"
    unfolding open_root_db_def open_pool_at_def Let_def
    by (intro env.keeps_bind env.keeps_map_err steps) (auto intro: env.keeps_rules steps split: option.splits)
qed

lemma store_open_frames:
  "keeps stays_wf (store_open root)" "keeps no_file_lost (store_open root)"
  "keeps grows (store_open root)" "keeps same_env (store_open root)"
  unfolding store_open_def
  by (intro wf.keeps_rules files.keeps_rules grows.keeps_rules env.keeps_rules open_root_db_frames)+

lemma store_open_path:
  assumes "store_open root w = (Inr store, w')"
  shows "js_db_path store = db_path_for_root root" and "w_dbs w' (db_path_for_root root) \<noteq> None"
  using assms
  by (auto simp: store_open_def open_root_db_def migrate_def action_iffs Let_def
      split: if_splits option.splits)

section \<open>Reading what was written\<close>

lemma query_ok_iff:
  "query store stmt w = (Inr x, w') \<longleftrightarrow> \<not> w_fails w (w_tick w) \<and> (\<exists>db db'. w_dbs w (js_db_path store) = Some db
     \<and> stmt db = (x, db')
     \<and> w' = w\<lparr>w_tick := Suc (w_tick w), w_dbs := (w_dbs w)(js_db_path store \<mapsto> db')\<rparr>)"
  by (auto simp: query_def map_errA_Inr_iff db_call_def Let_def split: option.splits prod.splits)

lemma append_ok_iff:
  "append_entry store e w = (Inr u, w') \<longleftrightarrow> \<not> w_fails w (w_tick w)
     \<and> (\<exists>db. w_dbs w (js_db_path store) = Some db \<and> w' = w\<lparr>w_tick := Suc (w_tick w),
          w_dbs := (w_dbs w)(js_db_path store \<mapsto> insert_row e db)\<rparr>)"
  by (auto simp: append_entry_def query_ok_iff)

lemma append_fail:
  "append_entry store e w = (Inl x, w') \<Longrightarrow> w' = w\<lparr>w_tick := Suc (w_tick w)\<rparr>"
  by (auto simp: append_entry_def query_def map_errA_Inl_iff elim: db_call_cases)

lemma lenient_ok_iff:
  "read_all_lenient store w = (Inr x, w') \<longleftrightarrow> \<not> w_fails w (w_tick w)
     \<and> (\<exists>db. w_dbs w (js_db_path store) = Some db \<and> x = parse_rows 0 (sort_key row_seq (db_journal db))
        \<and> w' = w\<lparr>w_tick := Suc (w_tick w)\<rparr>)"
  by (auto simp: read_all_lenient_def read_raw_def bindA_Inr_iff query_ok_iff fun_upd_idem)

lemma read_all_ok_iff:
  "read_all store w = (Inr es, w') \<longleftrightarrow> \<not> w_fails w (w_tick w)
     \<and> (\<exists>db. w_dbs w (js_db_path store) = Some db
        \<and> parse_rows 0 (sort_key row_seq (db_journal db)) = (es, None)
        \<and> w' = w\<lparr>w_tick := Suc (w_tick w)\<rparr>)"
  by (fastforce simp: read_all_def bindA_Inr_iff lenient_ok_iff split: option.splits)

lemma entry_of_inserted:
  assumes "je_created_unix_ms e < 2 ^ 63"
  shows "entry_of_row (last (db_journal (insert_row e db))) = Some e"
  using assms
  by (simp add: insert_row_def entry_of_row_def status_codec.dec_enc action_codec.dec_enc u128_i64_roundtrip)

text \<open>the journal is faithful: after an append succeeds, a strict read that follows returns the
  entries of the journal before it, in order, and then exactly the appended entry, for every time stamp
  an \<^verbatim>\<open>i64\<close> of milliseconds can hold.\<close>

theorem journal_append_read:
  assumes "dbs_ok w" and "je_created_unix_ms e < 2 ^ 63"
    and "read_all store w = (Inr es, w1)" and "append_entry store e w1 = (Inr u, w2)"
    and "\<not> w_fails w2 (w_tick w2)"
  shows "\<exists>w3. read_all store w2 = (Inr (es @ [e]), w3)"
proof -
  obtain db where db: "w_dbs w (js_db_path store) = Some db"
    "parse_rows 0 (sort_key row_seq (db_journal db)) = (es, None)" "w1 = w\<lparr>w_tick := Suc (w_tick w)\<rparr>"
    using assms(3) by (auto simp: read_all_ok_iff)
  have w2: "w_dbs w2 (js_db_path store) = Some (insert_row e db)"
    using assms(4) db by (auto simp: append_ok_iff)
  have ok: "db_ok db" using assms(1) db(1) by (auto simp: dbs_ok_def)
  obtain row where row: "db_journal (insert_row e db) = db_journal db @ [row]" "entry_of_row row = Some e"
    using entry_of_inserted [OF assms(2), of db] by (auto simp: insert_row_def)
  have "sort_key row_seq (db_journal (insert_row e db)) = db_journal db @ [row]"
    using db_ok_sorted [OF db_ok_insert [OF ok], of e] row(1) by simp
  then have "parse_rows 0 (sort_key row_seq (db_journal (insert_row e db))) = (es @ [e], None)"
    using db(2) row(2) unfolding db_ok_sorted [OF ok] by (simp add: parse_rows_append)
  with w2 assms(5) show ?thesis by (auto simp: read_all_ok_iff)
qed

definition sample_store :: JournalStore where
  "sample_store = \<lparr>js_db_path = ''/home/box/.mousekeeper/mousekeeper.db''\<rparr>"

definition sample_db_world :: world where
  "sample_db_world = sample_world\<lparr>w_dbs := [js_db_path sample_store \<mapsto> empty_db]\<rparr>"

definition sample_entry :: JournalEntry where
  "sample_entry = \<lparr>je_operation_id = ''op-1-0'', je_status = Planned, je_action = JournalAction.Move,
     je_from = ''notes.pdf'', je_to = ''documents/notes.pdf'', je_created_unix_ms = 1\<rparr>"

lemma sample_db_facts:
  "w_dbs sample_db_world (js_db_path sample_store) = Some empty_db" "\<not> w_fails sample_db_world n"
  "dbs_ok sample_db_world" "w_fs sample_db_world = w_fs sample_world"
  by (auto simp: sample_db_world_def sample_world_def dbs_ok_def split: if_splits)

theorem journal_append_read_witness:
  "\<exists>w1 u w2 w3. read_all sample_store sample_db_world = (Inr [], w1)
     \<and> append_entry sample_store sample_entry w1 = (Inr u, w2)
     \<and> read_all sample_store w2 = (Inr ([] @ [sample_entry]), w3)"
proof -
  let ?w1 = "sample_db_world\<lparr>w_tick := Suc (w_tick sample_db_world)\<rparr>"
  let ?w2 = "?w1\<lparr>w_tick := Suc (w_tick ?w1),
    w_dbs := (w_dbs ?w1)(js_db_path sample_store \<mapsto> insert_row sample_entry empty_db)\<rparr>"
  have read: "read_all sample_store sample_db_world = (Inr [], ?w1)"
    by (simp add: read_all_ok_iff sample_db_facts empty_db_def)
  have app: "append_entry sample_store sample_entry ?w1 = (Inr (), ?w2)"
    by (simp add: append_ok_iff sample_db_facts)
  have "je_created_unix_ms sample_entry < 2 ^ 63" by (simp add: sample_entry_def)
  moreover have "\<not> w_fails ?w2 (w_tick ?w2)" by (simp add: sample_db_facts)
  ultimately obtain w3 where "read_all sample_store ?w2 = (Inr ([] @ [sample_entry]), w3)"
    using journal_append_read [OF sample_db_facts(3) _ read app] by blast
  with read app show ?thesis by blast
qed

text \<open>an unreadable row is never skipped over: the tolerant read returns exactly the entries before
  the first row with an unknown status or action and reports that row's position, and the strict read
  used by execute and undo succeeds exactly when there is no such row.\<close>

theorem journal_reads_agree:
  assumes "read_all_lenient store w = (Inr (entries, corruption), w')"
  shows "(corruption = None \<longleftrightarrow> read_all store w = (Inr entries, w'))
    \<and> (\<exists>rows. rows = sort_key row_seq (journal_of w (js_db_path store))
        \<and> entries = map (the \<circ> entry_of_row) (takeWhile readable rows)
        \<and> (case corruption of
             None \<Rightarrow> list_all readable rows
           | Some c \<Rightarrow> jc_line c \<le> length rows \<and> 0 < jc_line c \<and> \<not> readable (rows ! (jc_line c - 1))
               \<and> list_all readable (take (jc_line c - 1) rows)))"
proof -
  obtain db where db: "w_dbs w (js_db_path store) = Some db" "\<not> w_fails w (w_tick w)"
    "(entries, corruption) = parse_rows 0 (sort_key row_seq (db_journal db))"
    "w' = w\<lparr>w_tick := Suc (w_tick w)\<rparr>"
    using assms by (auto simp: lenient_ok_iff)
  let ?rows = "sort_key row_seq (db_journal db)"
  have strict: "corruption = None \<longleftrightarrow> read_all store w = (Inr entries, w')"
    using db by (auto simp: read_all_ok_iff)
  have "entries = map (the \<circ> entry_of_row) (takeWhile readable ?rows)"
    using db(3) by (simp add: parse_rows_spec)
  moreover have "case corruption of None \<Rightarrow> list_all readable ?rows
      | Some c \<Rightarrow> jc_line c \<le> length ?rows \<and> 0 < jc_line c \<and> \<not> readable (?rows ! (jc_line c - 1))
          \<and> list_all readable (take (jc_line c - 1) ?rows)"
  proof (cases "dropWhile readable ?rows")
    case Nil
    then have "corruption = None" using db(3) unfolding parse_rows_spec Nil by simp
    with Nil show ?thesis by (simp add: list_all_iff)
  next
    case (Cons bad rest)
    let ?n = "length (takeWhile readable ?rows)"
    have split: "?rows = takeWhile readable ?rows @ bad # rest"
      using Cons takeWhile_dropWhile_id [of readable ?rows] by simp
    have "\<not> readable bad" using Cons by (metis hd_dropWhile list.sel(1) list.simps(3))
    moreover have "?rows ! ?n = bad" "take ?n ?rows = takeWhile readable ?rows" "?n < length ?rows"
      using split by (metis nth_append_length, metis append_eq_conv_conj,
          metis length_append length_Cons less_add_Suc1 add_Suc_right)
    moreover have "corruption = Some \<lparr>jc_line = ?n + 1, jc_message = bad_row_message bad\<rparr>"
      using db(3) unfolding parse_rows_spec Cons by simp
    ultimately show ?thesis by (auto simp: list_all_iff dest: set_takeWhileD)
  qed
  ultimately show ?thesis using strict db(1) by (simp add: journal_of_def)
qed

theorem journal_reads_agree_witness:
  "\<exists>w'. read_all_lenient sample_store sample_db_world = (Inr ([], None), w')
     \<and> read_all sample_store sample_db_world = (Inr [], w')"
proof -
  have "read_all_lenient sample_store sample_db_world
      = (Inr ([], None), sample_db_world\<lparr>w_tick := Suc (w_tick sample_db_world)\<rparr>)"
    by (simp add: lenient_ok_iff sample_db_facts empty_db_def)
  with journal_reads_agree [OF this] show ?thesis by blast
qed

end
