(* ===== verification/History.thy ===== *)
theory History
  imports Journal
begin

text \<open>
  The readers and maintainers of the journal in \<^verbatim>\<open>journal.rs\<close>: the operation history shown to the user,
  the quarantine of a corrupted journal and the journal-only plan. The serialiser of a raw row
  (\<^verbatim>\<open>serde_json\<close>) is a parameter.
\<close>

section \<open>Operation history\<close>

record OperationHistoryEntry =
  oh_operation_id :: string
  oh_action :: JournalAction
  oh_from :: string
  oh_to :: string
  oh_latest_status :: JournalStatus
  oh_created_unix_ms :: nat
  oh_can_undo :: bool
  oh_undo_blocked_reason :: "string option"

record OperationHistoryReport =
  hr_root :: string
  hr_journal_path :: string
  hr_operations :: "OperationHistoryEntry list"
  hr_corruption :: "JournalCorruption option"

text \<open>\<^verbatim>\<open>iter_mut().find(..)\<close> and an update of what it finds.\<close>

fun update_first :: "('a \<Rightarrow> bool) \<Rightarrow> ('a \<Rightarrow> 'a) \<Rightarrow> 'a list \<Rightarrow> 'a list option" where
  "update_first P f [] = None"
| "update_first P f (x # xs) =
     (if P x then Some (f x # xs) else map_option (\<lambda>ys. x # ys) (update_first P f xs))"

definition new_operation ::
  "JournalEntry \<Rightarrow> JournalStatus \<Rightarrow> bool \<Rightarrow> string option \<Rightarrow> OperationHistoryEntry" where
  "new_operation entry status can_undo reason =
     \<lparr>oh_operation_id = je_operation_id entry, oh_action = je_action entry, oh_from = je_from entry,
      oh_to = je_to entry, oh_latest_status = status, oh_created_unix_ms = je_created_unix_ms entry,
      oh_can_undo = can_undo, oh_undo_blocked_reason = reason\<rparr>"

definition history_step ::
  "OperationHistoryEntry list \<Rightarrow> JournalEntry \<Rightarrow> OperationHistoryEntry list" where
  "history_step operations entry =
     (let same = (\<lambda>operation. oh_operation_id operation = je_operation_id entry)
      in case je_status entry of
           Planned \<Rightarrow> operations @
             [new_operation entry Planned False (Some ''operation has not been executed yet'')]
         | Executed \<Rightarrow>
             (case update_first same
                     (\<lambda>operation. operation\<lparr>oh_latest_status := Executed,
                        oh_created_unix_ms := je_created_unix_ms entry,
                        oh_can_undo := True, oh_undo_blocked_reason := None\<rparr>) operations of
                Some updated \<Rightarrow> updated
              | None \<Rightarrow> operations @ [new_operation entry Executed True None])
         | _ \<Rightarrow>
             (case update_first same
                     (\<lambda>operation. operation\<lparr>oh_can_undo := False,
                        oh_undo_blocked_reason := Some
                          (if je_status entry = UndoPlanned
                           then ''undo is already in progress for this operation''
                           else ''already undone''),
                        oh_latest_status := je_status entry\<rparr>) operations of
                Some updated \<Rightarrow> updated
              | None \<Rightarrow> operations))"

definition undo_blocked_reason_from_filesystem ::
  "world \<Rightarrow> string \<Rightarrow> OperationHistoryEntry \<Rightarrow> string option" where
  "undo_blocked_reason_from_filesystem w root operation =
     (let target = join_path root (oh_to operation)
      in case oh_action operation of
           JournalAction.ReadmeWrite \<Rightarrow> None
         | JournalAction.CreateDir \<Rightarrow>
             if \<not> path_exists w target then None
             else if \<not> path_is_dir w target then
               Some (''created path is no longer a directory ('' @ oh_to operation
                     @ ''); undo would be unsafe'')
             else if (case read_dir w target of Inl _ \<Rightarrow> True | Inr entries \<Rightarrow> entries \<noteq> []) then
               Some (''created directory is not empty ('' @ oh_to operation
                     @ ''); undo would delete user data'')
             else None
         | JournalAction.CreateFile \<Rightarrow>
             if \<not> path_exists w target then None
             else if \<not> path_is_file w target then
               Some (''created path is no longer a file ('' @ oh_to operation
                     @ ''); undo would be unsafe'')
             else if (case fs_metadata w target of Inl _ \<Rightarrow> 1 | Inr m \<Rightarrow> m_len m) \<noteq> 0 then
               Some (''created file is no longer empty ('' @ oh_to operation
                     @ ''); undo would delete user data'')
             else None
         | _ \<Rightarrow>
             let original = join_path root (oh_from operation)
             in if \<not> path_exists w target then
                  (if path_exists w original then None
                   else Some (''moved file is missing at its expected location ('' @ oh_to operation
                              @ '')''))
                else if path_exists w original then
                  Some (''original path already has a file ('' @ oh_from operation
                        @ ''); undo would overwrite it'')
                else None)"

definition block_from_filesystem ::
  "world \<Rightarrow> string \<Rightarrow> OperationHistoryEntry \<Rightarrow> OperationHistoryEntry" where
  "block_from_filesystem w root operation =
     (if oh_can_undo operation then
        (case undo_blocked_reason_from_filesystem w root operation of
           Some reason \<Rightarrow>
             operation\<lparr>oh_can_undo := False, oh_undo_blocked_reason := Some reason\<rparr>
         | None \<Rightarrow> operation)
      else operation)"

definition history_order :: "OperationHistoryEntry \<Rightarrow> int \<times> string" where
  "history_order operation = (- int (oh_created_unix_ms operation), oh_operation_id operation)"

definition read_operation_history :: "string \<Rightarrow> (JournalError, OperationHistoryReport) act" where
  "read_operation_history root =
     bindA (readA (\<lambda>w. map_err JournalError.Guard (guard_new w root))) (\<lambda>guard.
     bindA (store_open (guard_root guard)) (\<lambda>store.
     bindA (read_all_lenient store) (\<lambda>(entries, corruption).
     bindA (readA (\<lambda>w. Inr (sort_key history_order (map (block_from_filesystem w (guard_root guard))
              (foldl history_step [] entries))))) (\<lambda>operations.
       returnA \<lparr>hr_root = guard_root guard, hr_journal_path = js_db_path store,
                hr_operations = operations, hr_corruption = corruption\<rparr>))))"

section \<open>Recovery of a corrupted journal\<close>

definition JOURNAL_FILE :: string where
  "JOURNAL_FILE = ''journal.jsonl''"

record JournalRecoveryReport =
  rr_root :: string
  rr_journal_path :: string
  rr_quarantined_path :: string

fun dump_rows ::
  "(journal_row \<Rightarrow> string + string) \<Rightarrow> string \<Rightarrow> string \<Rightarrow> journal_row list \<Rightarrow> (JournalError, unit) act" where
  "dump_rows to_json path written [] = returnA ()"
| "dump_rows to_json path written (row # rows) =
     bindA (readA (\<lambda>_. map_err JournalError.Serialize (to_json row))) (\<lambda>line.
     bindA (map_errA (\<lambda>error. WriteQuarantine path (io_error_to_string error))
              (fs_write path (written @ line @ [CHR 0x0A]))) (\<lambda>_.
       dump_rows to_json path (written @ line @ [CHR 0x0A]) rows))"

definition quarantine_rows ::
  "(journal_row \<Rightarrow> string + string) \<Rightarrow> string \<Rightarrow> journal_row list \<Rightarrow> (JournalError, unit) act" where
  "quarantine_rows to_json path raw =
     bindA (map_errA (\<lambda>error. WriteQuarantine path (io_error_to_string error)) (fs_write path []))
       (\<lambda>_. dump_rows to_json path [] raw)"

definition recover_journal ::
  "(journal_row \<Rightarrow> string + string) \<Rightarrow> string \<Rightarrow> (JournalError, JournalRecoveryReport) act" where
  "recover_journal to_json root =
     bindA (readA (\<lambda>w. map_err JournalError.Guard (guard_new w root))) (\<lambda>guard.
     bindA (store_open (guard_root guard)) (\<lambda>store.
     bindA (read_all_lenient store) (\<lambda>(_, corruption).
     bindA (if corruption = None then throwA (NotCorrupted (js_db_path store)) else returnA ()) (\<lambda>_.
     bindA unix_ms (\<lambda>now.
     bindA (read_raw store) (\<lambda>raw.
       let quarantined_path =
             with_file_name (js_db_path store) (JOURNAL_FILE @ ''.corrupted-'' @ dec now)
       in bindA (quarantine_rows to_json quarantined_path raw) (\<lambda>_.
          bindA (clear_rows store) (\<lambda>_.
            returnA \<lparr>rr_root = guard_root guard, rr_journal_path = js_db_path store,
                     rr_quarantined_path = quarantined_path\<rparr>))))))))"

section \<open>Planning without executing\<close>

record JournalWriteReport =
  jw_root :: string
  jw_journal_path :: string
  jw_planned_count :: nat
  jw_skipped_count :: nat

definition op_id :: "nat \<Rightarrow> nat \<Rightarrow> string" where
  "op_id now index = ''op-'' @ dec now @ ''-'' @ dec index"

fun plan_checks ::
  "JournalStore \<Rightarrow> nat \<Rightarrow> (nat \<times> PrecheckResult) list \<Rightarrow> nat \<times> nat \<Rightarrow> (JournalError, nat \<times> nat) act" where
  "plan_checks store now [] counts = returnA counts"
| "plan_checks store now ((index, check) # checks) (planned, skipped) =
     (if pc_status check \<noteq> PrecheckStatus.Ready then plan_checks store now checks (planned, skipped + 1)
      else bindA (append_entry store
             \<lparr>je_operation_id = op_id now index, je_status = Planned, je_action = JournalAction.Move,
              je_from = pc_from check, je_to = pc_to check, je_created_unix_ms = now\<rparr>)
           (\<lambda>_. plan_checks store now checks (planned + 1, skipped)))"

definition write_planned_journal ::
  "(string \<Rightarrow> string + RuleSet) \<Rightarrow> string \<Rightarrow> world \<Rightarrow> ((JournalError + JournalWriteReport) \<times> world) option" where
  "write_planned_journal parse_rules root w =
     (case guard_new w root of
        Inl error \<Rightarrow> Some (Inl (JournalError.Guard error), w)
      | Inr guard \<Rightarrow>
          (case precheck_root parse_rules (guard_root guard) w of
             None \<Rightarrow> None
           | Some (Inl error, w1) \<Rightarrow> Some (Inl (JournalError.Precheck error), w1)
           | Some (Inr precheck, w1) \<Rightarrow> Some (
               bindA (store_open (guard_root guard)) (\<lambda>store.
               bindA unix_ms (\<lambda>now.
               bindA (plan_checks store now (enumerate 0 (pk_checks precheck)) (0, 0)) (\<lambda>(planned, skipped).
                 returnA \<lparr>jw_root = pk_root precheck, jw_journal_path = js_db_path store,
                          jw_planned_count = planned, jw_skipped_count = skipped\<rparr>))) w1)))"

section \<open>Recovery keeps the evidence\<close>

lemma fs_write_frames:
  "keeps stays_wf (fs_write p c)" "keeps same_dbs (fs_write p c)"
  by (simp_all add: calls_wf calls_dbs)

lemma dump_rows_dbs: "keeps same_dbs (dump_rows to_json path written rows)"
  by (induction rows arbitrary: written)
    (auto intro!: dbs.keeps_rules fs_write_frames)

definition row_lines :: "(journal_row \<Rightarrow> string + string) \<Rightarrow> journal_row list \<Rightarrow> string" where
  "row_lines to_json rows = concat (map (\<lambda>row. projr (to_json row) @ [CHR 0x0A]) rows)"

text \<open>A text names a device, a pipe or a socket: writing to it succeeds and stores nothing.\<close>

definition names_device :: "world \<Rightarrow> string \<Rightarrow> bool" where
  "names_device w p \<longleftrightarrow> (case resolve w True p of Inr (l, Special a) \<Rightarrow> True | _ \<Rightarrow> False)"

text \<open>After a write that succeeded the text names a regular file with exactly that content, or a device.\<close>

definition holds :: "world \<Rightarrow> string \<Rightarrow> string \<Rightarrow> bool" where
  "holds w p c \<longleftrightarrow> path_is_file w p \<and> fs_read w p = Inr c \<or> names_device w p"

lemma write_holds:
  assumes "fs_write p c w = (Inr u, w')" and wf: "wf_fs (w_fs w)"
  shows "holds w' p c"
proof -
  obtain t where t: "write_node w p c = Inr t" and w': "w' = w\<lparr>w_tick := Suc (w_tick w), w_fs := t\<rparr>"
    using assms(1) by (auto simp: fs_write_def dest!: syscall_Inr)
  obtain l nd where wk: "walk_path w True p = Inr (l, nd)"
    using t by (auto simp: write_node_def split: sum.splits)
  note here = walk_path_lookup [OF wk]
  have walk': "walk_path w' True p = Inr (l, Some (RegularFile c a))"
    if "t = fs_put l (RegularFile c a) (w_fs w)" "\<not> is_directory nd" "\<not> is_link nd" for a
    using walks_update [of "RegularFile c a" "w_fs w" l, OF _ _ _ _ walk_walks] wk that here w'
    by (auto simp: walk_path_def split: if_splits)
  show ?thesis
  proof (cases nd)
    case None
    with t wk have "t = fs_put l (RegularFile c (new_node_attrs w)) (w_fs w)"
      by (simp add: write_node_def)
    with walk' None show ?thesis by (simp add: holds_def fs_read_def path_is_file_def fs_metadata_def resolve_def node_metadata_def)
  next
    case (Some nd')
    show ?thesis
    proof (cases nd')
      case (RegularFile old a)
      with t wk Some have "t = fs_put l (RegularFile c
          (a\<lparr>at_modified := at_modified (new_node_attrs w)\<rparr>)) (w_fs w)"
        by (simp add: write_node_def)
      with walk' Some RegularFile show ?thesis by (simp add: holds_def fs_read_def path_is_file_def fs_metadata_def resolve_def node_metadata_def)
    next
      case (Directory a)
      with t wk Some show ?thesis by (simp add: write_node_def)
    next
      case (Symlink d a)
      with walk_path_not_link [OF wk wf] Some show ?thesis by simp
    next
      case (Special a)
      then have "t = w_fs w" using t wk Some by (simp add: write_node_def)
      with w' have "walk_path w' True p = walk_path w True p" by (simp add: walk_path_def)
      with wk Some Special show ?thesis
        by (simp add: holds_def names_device_def resolve_def)
    qed
  qed
qed

lemma dump_rows_content:
  assumes "dump_rows to_json path written rows w = (Inr u, w')"
    and "holds w path written" and "wf_fs (w_fs w)"
  shows "(\<forall>row \<in> set rows. is_ok (to_json row)) \<and> holds w' path (written @ row_lines to_json rows)"
  using assms
proof (induction rows arbitrary: written w)
  case Nil
  then show ?case by (simp add: row_lines_def)
next
  case (Cons row rows)
  then obtain line w1 where line: "to_json row = Inr line"
    and wr: "fs_write path (written @ line @ [CHR 0x0A]) w = (Inr (), w1)"
    and rest: "dump_rows to_json path (written @ line @ [CHR 0x0A]) rows w1 = (Inr u, w')"
    by (auto simp: action_iffs)
  have "wf_fs (w_fs w1)"
    using keepsD [OF fs_write_frames(1) wr] Cons.prems(3) by (simp add: stays_wf_def)
  with Cons.IH [OF rest write_holds [OF wr Cons.prems(3)]] line
  show ?case by (simp add: row_lines_def)
qed

lemma clear_cases:
  assumes "clear_rows store w = (r, w')"
  shows "(\<exists>e. r = Inl e) \<and> w_dbs w' = w_dbs w
    \<or> r = Inr () \<and> w_fs w' = w_fs w \<and> w_cwd w' = w_cwd w \<and> journal_of w' (js_db_path store) = []"
  using assms
  by (auto simp: clear_rows_def query_def map_errA_iff journal_of_def elim!: db_call_cases)

text \<open>Every step before the final statement leaves all journals as they are.\<close>

definition same_journals :: "world \<Rightarrow> world \<Rightarrow> bool" where
  "same_journals w w' \<longleftrightarrow> journal_of w' = journal_of w"

interpretation same_journals: world_frame same_journals
  by unfold_locales (simp_all add: same_journals_def)

lemma same_dbs_journals: "keeps same_dbs m \<Longrightarrow> keeps same_journals m"
  by (erule keeps_mono) (simp add: same_dbs_def same_journals_def journal_of_def fun_eq_iff)

lemma store_open_journals: "keeps same_journals (store_open root)"
proof -
  have "keeps same_journals (db_connect path)" "keeps same_journals (migrate path)" for path
    by (auto simp: keeps_def same_journals_def journal_of_def db_connect_def migrate_def Let_def
        empty_db_def fun_eq_iff split: option.splits)
  then show ?thesis
    unfolding store_open_def open_root_db_def open_pool_at_def Let_def
    by (intro same_journals.keeps_bind same_journals.keeps_map_err same_journals.keeps_return)
      (auto intro: same_journals.keeps_rules same_dbs_journals create_dir_all_frames split: option.splits)
qed

lemma db_read_journals: "keeps same_journals (query store (\<lambda>db. (f db, db)))"
  unfolding query_def
proof (rule same_journals.keeps_map_err, rule keepsI)
  fix w r w' assume "db_call (js_db_path store) (\<lambda>db. (f db, db)) w = (r, w')"
  then show "same_journals w w'"
    by (cases rule: db_call_cases) (auto simp: same_journals_def journal_of_def fun_eq_iff)
qed

lemma read_journals:
  "keeps same_journals (read_raw store)" "keeps same_journals (read_all_lenient store)"
  unfolding read_all_lenient_def read_raw_def
  by (intro same_journals.keeps_rules db_read_journals)+

lemma quarantine_content:
  assumes "quarantine_rows to_json path raw w = (Inr u, w')" and "wf_fs (w_fs w)"
  shows "(\<forall>row \<in> set raw. is_ok (to_json row)) \<and> holds w' path (row_lines to_json raw)"
proof -
  obtain w1 where wr: "fs_write path [] w = (Inr (), w1)"
    and rest: "dump_rows to_json path [] raw w1 = (Inr u, w')"
    using assms(1) by (auto simp: quarantine_rows_def action_iffs)
  have "wf_fs (w_fs w1)"
    using keepsD [OF fs_write_frames(1) wr] assms(2) by (simp add: stays_wf_def)
  with dump_rows_content [OF rest write_holds [OF wr assms(2)]] show ?thesis by simp
qed

lemma quarantine_journals: "keeps same_journals (quarantine_rows to_json path raw)"
  unfolding quarantine_rows_def
  by (intro same_journals.keeps_rules same_dbs_journals fs_write_frames dump_rows_dbs)

lemma quarantine_clear:
  assumes run: "bindA (quarantine_rows to_json q raw) (\<lambda>_. bindA (clear_rows store) (\<lambda>_. returnA rep)) w
      = (r, w')" and c: "\<not> same_journals w w'" and wf: "wf_fs (w_fs w)"
  shows "r = Inr rep \<and> journal_of w' (js_db_path store) = []
    \<and> (\<forall>row \<in> set raw. is_ok (to_json row)) \<and> holds w' q (row_lines to_json raw)"
proof -
  obtain w1 where q: "quarantine_rows to_json q raw w = (Inr (), w1)" "\<not> same_journals w1 w'"
    and clear: "bindA (clear_rows store) (\<lambda>_. returnA rep) w1 = (r, w')"
    using same_journals.bind_breaks [OF run quarantine_journals c] by auto
  then have "r = Inr rep" and same: "w_fs w' = w_fs w1" "w_cwd w' = w_cwd w1"
    and empty: "journal_of w' (js_db_path store) = []"
    using clear_cases [of store w1]
    by (auto simp: bindA_def same_journals_def journal_of_def fun_eq_iff split: prod.splits sum.splits)
  have "holds w' = holds w1"
    using same by (simp add: fun_eq_iff holds_def names_device_def fs_read_def path_is_file_def fs_metadata_def
        resolve_def walk_path_def)
  with quarantine_content [OF q(1) wf] \<open>r = Inr rep\<close> empty show ?thesis by simp
qed

text \<open>C28: recovering a journal never destroys evidence, whatever fails on the way: either every journal is as
  it was, or the call succeeded, the table is empty, every row of the table could be serialised, and the
  quarantine path the report names is a regular file that holds the serialisation of every row, one line each, in
  order (or, when that path already named a device, the device that swallowed them).\<close>

theorem recover_journal_keeps_evidence:
  assumes run: "recover_journal to_json root w = (r, w')" and g: "guard_new w root = Inr g"
    and wf: "wf_fs (w_fs w)"
  shows "journal_of w' = journal_of w
    \<or> (\<exists>rep rows. r = Inr rep \<and> rows = sort_key row_seq (journal_of w (db_path_for_root (guard_root g)))
        \<and> journal_of w' (db_path_for_root (guard_root g)) = []
        \<and> (\<forall>row \<in> set rows. is_ok (to_json row))
        \<and> (path_is_file w' (rr_quarantined_path rep) \<and> fs_read w' (rr_quarantined_path rep) = Inr (row_lines to_json rows)
          \<or> names_device w' (rr_quarantined_path rep)))"
proof (cases "same_journals w w'")
  case True
  then show ?thesis by (simp add: same_journals_def)
next
  case changed: False
  define finish where "finish = (\<lambda>store now raw. let q = with_file_name (js_db_path store)
      (JOURNAL_FILE @ ''.corrupted-'' @ dec now)
    in bindA (quarantine_rows to_json q raw) (\<lambda>_. bindA (clear_rows store) (\<lambda>_.
         returnA \<lparr>rr_root = guard_root g, rr_journal_path = js_db_path store, rr_quarantined_path = q\<rparr>)))"
  note breaks = same_journals.bind_breaks
  have "bindA (store_open (guard_root g)) (\<lambda>store. bindA (read_all_lenient store) (\<lambda>(_, corruption).
      bindA (if corruption = None then throwA (NotCorrupted (js_db_path store)) else returnA ()) (\<lambda>_.
      bindA unix_ms (\<lambda>now. bindA (read_raw store) (\<lambda>raw. finish store now raw))))) w = (r, w')"
    using run g unfolding recover_journal_def finish_def by (simp add: bindA_def [of "readA _"])
  then obtain store w1 where op: "store_open (guard_root g) w = (Inr store, w1)"
    and w1: "same_journals w w1" "\<not> same_journals w1 w'"
    and run1: "bindA (read_all_lenient store) (\<lambda>(_, corruption).
      bindA (if corruption = None then throwA (NotCorrupted (js_db_path store)) else returnA ()) (\<lambda>_.
      bindA unix_ms (\<lambda>now. bindA (read_raw store) (\<lambda>raw. finish store now raw)))) w1 = (r, w')"
    using store_open_journals changed by (rule breaks)
  obtain x w2 where rd: "read_all_lenient store w1 = (Inr x, w2)"
    and w2: "same_journals w1 w2" "\<not> same_journals w2 w'"
    and run2: "bindA (if snd x = None then throwA (NotCorrupted (js_db_path store)) else returnA ()) (\<lambda>_.
      bindA unix_ms (\<lambda>now. bindA (read_raw store) (\<lambda>raw. finish store now raw))) w2 = (r, w')"
    using run1 read_journals(2) w1(2) by (rule breaks) (auto split: prod.splits)
  have run3: "bindA unix_ms (\<lambda>now. bindA (read_raw store) (\<lambda>raw. finish store now raw)) w2 = (r, w')"
    using run2 w2(2) same_journals.refl by (auto simp: bindA_def [of "throwA _"] bindA_def [of "returnA _"] split: if_splits)
  obtain now w3 where clk: "(unix_ms :: (JournalError, nat) act) w2 = (Inr now, w3)"
    and w3: "same_journals w2 w3" "\<not> same_journals w3 w'"
    and run4: "bindA (read_raw store) (\<lambda>raw. finish store now raw) w3 = (r, w')"
    using run3 same_dbs_journals [OF clock_env(2)] w2(2) by (rule breaks)
  obtain raw w4 where rw: "read_raw store w3 = (Inr raw, w4)"
    and w4: "same_journals w3 w4" "\<not> same_journals w4 w'" and run5: "finish store now raw w4 = (r, w')"
    using run4 read_journals(1) w3(2) by (rule breaks)
  have wf4: "wf_fs (w_fs w4)"
    using wf keepsD [OF store_open_frames(1) op] keepsD [OF read_frames(4) rd] clk
      keepsD [OF read_frames(1) rw]
    by (auto simp: stays_wf_def same_fs_def unix_ms_def)
  obtain rep where "r = Inr rep \<and> journal_of w' (js_db_path store) = []
    \<and> (\<forall>row \<in> set raw. is_ok (to_json row)) \<and> holds w' (rr_quarantined_path rep) (row_lines to_json raw)"
    using run5 quarantine_clear [OF _ w4(2) wf4] unfolding finish_def Let_def by force
  moreover have "journal_of w3 = journal_of w"
    using w1(1) w2(1) w3(1) by (simp add: same_journals_def)
  moreover have "raw = sort_key row_seq (journal_of w3 (js_db_path store))"
    using rw by (auto simp: read_raw_def query_ok_iff journal_of_def)
  ultimately show ?thesis using store_open_path(1) [OF op] by (auto simp: holds_def)
qed

definition bad_row :: journal_row where
  "bad_row = \<lparr>row_seq = 1, row_operation_id = ''op-1-0'', row_status = ''bogus'', row_action = ''move'',
     row_from_path = ''a'', row_to_path = ''b'', row_created_unix_ms = 1\<rparr>"

definition sample_corrupt_world :: world where
  "sample_corrupt_world = sample_world\<lparr>w_dbs :=
     [js_db_path sample_store \<mapsto> empty_db\<lparr>db_journal := [bad_row], db_next_seq := 2\<rparr>]\<rparr>"

theorem recover_journal_keeps_evidence_witness:
  "\<exists>rep w'. recover_journal (\<lambda>row. Inr (row_operation_id row)) ''/home/box'' sample_corrupt_world = (Inr rep, w')
     \<and> journal_of sample_corrupt_world (db_path_for_root (guard_root sample_guard)) = [bad_row]
     \<and> journal_of w' (db_path_for_root (guard_root sample_guard)) = []
     \<and> fs_read w' (rr_quarantined_path rep) = Inr (''op-1-0'' @ [CHR 0x0A])"
proof -
  let ?run = "recover_journal (\<lambda>row. Inr (row_operation_id row)) ''/home/box'' sample_corrupt_world"
  let ?path = "db_path_for_root (guard_root sample_guard)"
  have "case ?run of (Inl _, w') \<Rightarrow> False
      | (Inr rep, w') \<Rightarrow> journal_of w' ?path = [] \<and> \<not> names_device w' (rr_quarantined_path rep)" by code_simp
  then obtain rep w' where run: "?run = (Inr rep, w')" and gone: "journal_of w' ?path = []"
    and plain: "\<not> names_device w' (rr_quarantined_path rep)"
    by (cases ?run) (auto split: sum.splits)
  have g: "guard_new sample_corrupt_world ''/home/box'' = Inr sample_guard" by code_simp
  have wf: "wf_fs (w_fs sample_corrupt_world)" using sample_wf by (simp add: sample_corrupt_world_def)
  have rows: "journal_of sample_corrupt_world ?path = [bad_row]" by code_simp
  then have "journal_of w' \<noteq> journal_of sample_corrupt_world" using gone by (metis list.distinct(1))
  with recover_journal_keeps_evidence [OF run g wf] plain
  have "fs_read w' (rr_quarantined_path rep) = Inr (row_lines (\<lambda>row. Inr (row_operation_id row)) [bad_row])"
    by (auto simp: rows)
  then show ?thesis using run rows gone by (simp add: row_lines_def bad_row_def)
qed

section \<open>What the history shows\<close>

text \<open>The rows of one operation start with its plan: no plan is recorded for an id that is already
  there. \<open>latest\<close> is the last recorded status of an id.\<close>

definition plans_first :: "JournalEntry list \<Rightarrow> bool" where
  "plans_first es \<longleftrightarrow> (\<forall>i < length es. je_status (es ! i) = Planned \<longrightarrow>
     je_operation_id (es ! i) \<notin> je_operation_id ` set (take i es))"

definition latest :: "JournalEntry list \<Rightarrow> string \<Rightarrow> JournalStatus option" where
  "latest es i = (case filter (\<lambda>e. je_operation_id e = i) (rev es) of [] \<Rightarrow> None | e # _ \<Rightarrow> Some (je_status e))"

definition started :: "JournalEntry list \<Rightarrow> string set" where
  "started es = je_operation_id ` {e \<in> set es. je_status e \<in> {Planned, Executed}}"

lemma latest_snoc: "latest (es @ [e]) i = (if je_operation_id e = i then Some (je_status e) else latest es i)"
  by (simp add: latest_def)

lemma started_snoc: "started (es @ [e]) =
    (if je_status e \<in> {Planned, Executed} then insert (je_operation_id e) (started es) else started es)"
  by (auto simp: started_def)

lemma plans_first_snoc: "plans_first (es @ [e]) \<longleftrightarrow> plans_first es
    \<and> (je_status e = Planned \<longrightarrow> je_operation_id e \<notin> je_operation_id ` set es)"
  by (auto simp: plans_first_def nth_append less_Suc_eq split: if_splits)

lemma update_first_map:
  assumes "distinct (map key xs)"
  shows "update_first (\<lambda>x. key x = k) f xs =
    (if k \<in> key ` set xs then Some (map (\<lambda>x. if key x = k then f x else x) xs) else None)"
  using assms
proof (induction xs)
  case (Cons x xs)
  then show ?case
    by (cases "key x = k") (auto simp: image_iff intro!: map_idI [symmetric] split: if_splits)
qed simp

definition history_ok :: "JournalEntry list \<Rightarrow> OperationHistoryEntry list \<Rightarrow> bool" where
  "history_ok es ops \<longleftrightarrow> distinct (map oh_operation_id ops) \<and> oh_operation_id ` set ops = started es
     \<and> (\<forall>op \<in> set ops. latest es (oh_operation_id op) = Some (oh_latest_status op)
          \<and> (oh_can_undo op \<longleftrightarrow> oh_latest_status op = Executed))"

lemma history_step_ok:
  assumes "history_ok es ops" and "plans_first (es @ [e])"
  shows "history_ok (es @ [e]) (history_step ops e)"
proof -
  let ?i = "je_operation_id e"
  have d: "distinct (map oh_operation_id ops)" and ids: "oh_operation_id ` set ops = started es"
    and st: "\<And>op. op \<in> set ops \<Longrightarrow> latest es (oh_operation_id op) = Some (oh_latest_status op)
      \<and> (oh_can_undo op \<longleftrightarrow> oh_latest_status op = Executed)"
    using assms(1) by (auto simp: history_ok_def)
  note upd = update_first_map [OF d, of ?i]
  have add: "history_ok (es @ [e]) (ops @ [new_operation e (je_status e) (je_status e = Executed) reason])"
    if "?i \<notin> started es" "je_status e \<in> {Planned, Executed}" for reason
    using that d ids st
    by (auto simp: history_ok_def new_operation_def latest_snoc started_snoc)
  have change: "history_ok (es @ [e]) (map (\<lambda>x. if oh_operation_id x = ?i then f x else x) ops)"
    if f: "\<And>x. oh_operation_id (f x) = oh_operation_id x \<and> oh_latest_status (f x) = je_status e
        \<and> (oh_can_undo (f x) \<longleftrightarrow> je_status e = Executed)"
      and "je_status e \<in> {Planned, Executed} \<longrightarrow> ?i \<in> started es" for f
  proof -
    have "map oh_operation_id (map (\<lambda>x. if oh_operation_id x = ?i then f x else x) ops)
        = map oh_operation_id ops" using f by (auto simp: comp_def)
    moreover from this have "oh_operation_id ` set (map (\<lambda>x. if oh_operation_id x = ?i then f x else x) ops)
        = oh_operation_id ` set ops" by (metis set_map)
    moreover have "latest (es @ [e]) (oh_operation_id op) = Some (oh_latest_status op)
        \<and> (oh_can_undo op \<longleftrightarrow> oh_latest_status op = Executed)"
      if op: "op \<in> set (map (\<lambda>x. if oh_operation_id x = ?i then f x else x) ops)" for op
    proof -
      obtain x where "x \<in> set ops" "op = (if oh_operation_id x = ?i then f x else x)" using op by auto
      with f [of x] st [of x] show ?thesis
        by (cases "oh_operation_id x = ?i") (auto simp: latest_snoc)
    qed
    moreover have "started (es @ [e]) = started es"
      using that(2) by (auto simp: started_snoc)
    ultimately show ?thesis using d ids by (simp only: history_ok_def) blast
  qed
  have other: "history_ok (es @ [e]) (history_step ops e)" if e: "je_status e \<in> {UndoPlanned, Undone}"
  proof (cases "?i \<in> started es")
    case True
    define f where "f = (\<lambda>operation :: OperationHistoryEntry. operation\<lparr>oh_can_undo := False, oh_undo_blocked_reason := Some
        (if je_status e = UndoPlanned then ''undo is already in progress for this operation''
         else ''already undone''), oh_latest_status := je_status e\<rparr>)"
    have "history_step ops e = map (\<lambda>x. if oh_operation_id x = ?i then f x else x) ops"
      using e True ids unfolding history_step_def f_def Let_def by (auto simp: upd)
    moreover have "history_ok (es @ [e]) (map (\<lambda>x. if oh_operation_id x = ?i then f x else x) ops)"
      by (rule change) (use e True in \<open>auto simp: f_def\<close>)
    ultimately show ?thesis by simp
  next
    case False
    then have fresh: "?i \<notin> oh_operation_id ` set ops" using ids by simp
    then have "\<forall>op \<in> set ops. ?i \<noteq> oh_operation_id op" by auto
    moreover have "started (es @ [e]) = started es" using e by (auto simp: started_snoc)
    ultimately have "history_ok (es @ [e]) ops" using assms(1) by (simp add: history_ok_def latest_snoc)
    moreover have "history_step ops e = ops" using e fresh by (auto simp: history_step_def upd)
    ultimately show ?thesis by simp
  qed
  show ?thesis
  proof (cases "je_status e")
    case Planned
    then have "?i \<notin> started es" using assms(2) by (auto simp: plans_first_snoc started_def)
    with Planned add show ?thesis by (simp add: history_step_def)
  next
    case Executed
    show ?thesis
    proof (cases "?i \<in> started es")
      case True
      with Executed change ids upd show ?thesis by (simp add: history_step_def)
    next
      case False
      with Executed add ids upd show ?thesis by (simp add: history_step_def)
    qed
  qed (use other in simp_all)
qed

lemma history_fold_ok: "plans_first es \<Longrightarrow> history_ok es (foldl history_step [] es)"
proof (induction es rule: rev_induct)
  case Nil
  then show ?case by (simp add: history_ok_def started_def)
next
  case (snoc e es)
  then show ?case by (simp add: plans_first_snoc history_step_ok)
qed

lemma block_fields:
  "oh_operation_id (block_from_filesystem w root op) = oh_operation_id op"
  "oh_latest_status (block_from_filesystem w root op) = oh_latest_status op"
  "oh_can_undo (block_from_filesystem w root op) \<longleftrightarrow>
     oh_can_undo op \<and> undo_blocked_reason_from_filesystem w root op = None"
  by (auto simp: block_from_filesystem_def split: option.splits)

text \<open>C27: on a clean journal whose operations each start with their plan, the history lists every planned
  or executed operation exactly once, newest first, with the last status the journal records for it, and
  offers to undo only operations whose last status is \<^verbatim>\<open>executed\<close>.\<close>

theorem history_latest_status:
  assumes "read_operation_history root w = (Inr rep, w')"
    and "guard_new w root = Inr g" and "hr_corruption rep = None"
    and "plans_first (map (the \<circ> entry_of_row)
           (sort_key row_seq (journal_of w (db_path_for_root (guard_root g)))))" (is "plans_first ?es")
  shows "distinct (map oh_operation_id (hr_operations rep))
    \<and> oh_operation_id ` set (hr_operations rep) = started ?es
    \<and> sorted (map history_order (hr_operations rep))
    \<and> (\<forall>op \<in> set (hr_operations rep). latest ?es (oh_operation_id op) = Some (oh_latest_status op)
        \<and> (oh_can_undo op \<longrightarrow> oh_latest_status op = Executed))"
proof -
  obtain store w1 entries w2 where op: "store_open (guard_root g) w = (Inr store, w1)"
    and rd: "read_all_lenient store w1 = (Inr (entries, None), w2)"
    and ops: "hr_operations rep = sort_key history_order (map (block_from_filesystem w2 (guard_root g))
        (foldl history_step [] entries))"
    using assms(1-3) unfolding read_operation_history_def
    by (auto simp: bindA_Inr_iff split: prod.splits)
  have "journal_of w1 = journal_of w"
    using keepsD [OF store_open_journals op] by (simp add: same_journals_def)
  moreover obtain db where "w_dbs w1 (js_db_path store) = Some db"
    and "parse_rows 0 (sort_key row_seq (db_journal db)) = (entries, None)"
    using rd by (auto simp: lenient_ok_iff)
  moreover from this have "journal_of w1 (js_db_path store) = db_journal db" by (simp add: journal_of_def)
  ultimately have "entries = ?es"
    using store_open_path(1) [OF op] by (simp add: parse_rows_clean)
  then have h: "history_ok ?es (foldl history_step [] ?es)" using history_fold_ok [OF assms(4)] by simp
  let ?ops = "map (block_from_filesystem w2 (guard_root g)) (foldl history_step [] ?es)"
  have "mset (map oh_operation_id (sort_key history_order ?ops)) = mset (map oh_operation_id ?ops)"
    unfolding mset_map mset_sort by (rule refl)
  moreover have "map oh_operation_id ?ops = map oh_operation_id (foldl history_step [] ?es)"
    by (simp add: comp_def block_fields)
  ultimately have "distinct (map oh_operation_id (hr_operations rep))"
    and "set (map oh_operation_id (hr_operations rep)) = started ?es"
    using h ops \<open>entries = ?es\<close> unfolding history_ok_def
    by (metis mset_eq_imp_distinct_iff, metis list.set_map mset_eq_setD)
  moreover have "\<forall>op \<in> set (hr_operations rep). latest ?es (oh_operation_id op) = Some (oh_latest_status op)
        \<and> (oh_can_undo op \<longrightarrow> oh_latest_status op = Executed)"
    using h unfolding ops \<open>entries = ?es\<close> by (auto simp: history_ok_def block_fields)
  ultimately show ?thesis by (simp add: ops)
qed

text \<open>A world whose journal records one executed move, of \<^verbatim>\<open>docs/notes.pdf\<close> to \<^verbatim>\<open>notes.pdf\<close>.\<close>

definition moved_row :: "int \<Rightarrow> JournalStatus \<Rightarrow> journal_row" where
  "moved_row seq status = \<lparr>row_seq = seq, row_operation_id = ''op-1-0'', row_status = status_as_db_str status,
     row_action = ''move'', row_from_path = ''docs/notes.pdf'', row_to_path = ''notes.pdf'', row_created_unix_ms = 1\<rparr>"

definition journaled_world :: world where
  "journaled_world = sample_world\<lparr>w_clock := (\<lambda>n. n), w_dbs := [js_db_path sample_store \<mapsto>
     empty_db\<lparr>db_journal := [moved_row 1 Planned, moved_row 2 Executed], db_next_seq := 3\<rparr>]\<rparr>"

theorem history_latest_status_witness:
  "\<exists>rep w' op. read_operation_history ''/home/box'' journaled_world = (Inr rep, w')
     \<and> distinct (map oh_operation_id (hr_operations rep)) \<and> op \<in> set (hr_operations rep)
     \<and> oh_operation_id op = ''op-1-0'' \<and> oh_latest_status op = Executed"
proof -
  let ?run = "read_operation_history ''/home/box'' journaled_world"
  let ?es = "map (the \<circ> entry_of_row) (sort_key row_seq (journal_of journaled_world (db_path_for_root (guard_root sample_guard))))"
  have "case fst ?run of Inl _ \<Rightarrow> False | Inr rep \<Rightarrow> hr_corruption rep = None" by code_simp
  then obtain rep w' where run: "?run = (Inr rep, w')" "hr_corruption rep = None"
    by (cases ?run) (auto split: sum.splits)
  have g: "guard_new journaled_world ''/home/box'' = Inr sample_guard" by code_simp
  have es: "map je_status ?es = [Planned, Executed]" "map je_operation_id ?es = [''op-1-0'', ''op-1-0'']" by code_simp+
  then obtain a b where ab: "?es = [a, b]" "je_status a = Planned" "je_status b = Executed"
    "je_operation_id a = ''op-1-0''" "je_operation_id b = ''op-1-0''" by (auto simp: map_eq_Cons_conv)
  then have first: "plans_first ?es" by (simp add: plans_first_def less_Suc_eq all_conj_distrib nth_Cons')
  note shown = history_latest_status [OF run(1) g run(2) first]
  have started: "started ?es = {''op-1-0''}" and last: "latest ?es ''op-1-0'' = Some Executed"
    using ab unfolding ab(1) by (auto simp: started_def latest_def image_iff intro!: exI [of _ a])
  have "''op-1-0'' \<in> oh_operation_id ` set (hr_operations rep)" using shown unfolding started by blast
  then obtain op where op: "op \<in> set (hr_operations rep)" "oh_operation_id op = ''op-1-0''" by auto
  have "latest ?es (oh_operation_id op) = Some (oh_latest_status op)" using shown op(1) by blast
  then have "oh_latest_status op = Executed" unfolding op(2) last by simp
  then show ?thesis using run(1) shown op by blast
qed

end
