(* ===== verification/Handlers.thy ===== *)
theory Handlers
  imports History
begin

text \<open>
  What the operations that change files have in common. Two relations between the world before and after
  are reflexive and transitive, so they lift to whole runs: \<open>adds_dirs\<close> (only new directories appear) and
  \<open>audited\<close> (a journal only grows, and no existing file, directory or link was changed, moved or removed
  unless a row announcing an intention was appended first). The locale \<open>journaled_handler\<close> is the contract
  of one operation: it is audited and loses no regular file.
\<close>

section \<open>Only new directories\<close>

definition adds_dirs :: "world \<Rightarrow> world \<Rightarrow> bool" where
  "adds_dirs w w' \<longleftrightarrow> (wf_fs (w_fs w) \<longrightarrow> wf_fs (w_fs w')
     \<and> (\<forall>k. map_of (w_fs w') k = map_of (w_fs w) k
           \<or> map_of (w_fs w) k = None \<and> is_directory (map_of (w_fs w') k)))"

interpretation adds_dirs: world_frame adds_dirs
proof
  show "adds_dirs w w" for w by (simp add: adds_dirs_def)
  fix u v w assume "adds_dirs u v" "adds_dirs v w"
  then show "adds_dirs u w" unfolding adds_dirs_def by (metis is_directory.simps(5) is_directory.cases not_none(2))
qed

lemma create_dir_adds: "keeps adds_dirs (fs_create_dir p)"
proof (rule keepsI)
  fix w r w' assume run: "fs_create_dir p w = (r, w')"
  show "adds_dirs w w'"
    unfolding adds_dirs_def
  proof (intro impI conjI allI)
    assume wf: "wf_fs (w_fs w)"
    show "wf_fs (w_fs w')" using keepsD [OF calls_wf_create(1) run] wf by (simp add: stays_wf_def)
    fix k
    show "map_of (w_fs w') k = map_of (w_fs w) k
        \<or> map_of (w_fs w) k = None \<and> is_directory (map_of (w_fs w') k)"
    proof (cases r)
      case (Inl e)
      with run show ?thesis unfolding fs_create_dir_def by (auto dest!: syscall_Inl)
    next
      case (Inr u)
      with run obtain t where t: "(case walk_path w False (strip_slash p) of Inl e \<Rightarrow> Inl e
          | Inr (l, Some _) \<Rightarrow> Inl AlreadyExists
          | Inr (l, None) \<Rightarrow> Inr (fs_put l (node.Directory (new_node_attrs w)) (w_fs w))) = Inr t"
        and w': "w_fs w' = t"
        unfolding fs_create_dir_def by (auto dest!: syscall_Inr)
      obtain l where "map_of (w_fs w) l = None"
        "w_fs w' = fs_put l (node.Directory (new_node_attrs w)) (w_fs w)"
        using create_ok [OF t wf] w' by blast
      then show ?thesis by simp
    qed
  qed
qed

lemma create_dir_all_adds: "keeps adds_dirs (create_dir_all p)"
  by (rule adds_dirs.keeps_create_dir_all) (rule create_dir_adds)

lemma same_fs_adds: "keeps same_fs m \<Longrightarrow> keeps adds_dirs m"
  by (erule keeps_mono) (simp add: same_fs_def adds_dirs_def)

lemma store_open_adds: "keeps adds_dirs (store_open root)"
  unfolding store_open_def open_root_db_def open_pool_at_def Let_def
  by (intro adds_dirs.keeps_bind adds_dirs.keeps_map_err adds_dirs.keeps_return)
    (auto intro: adds_dirs.keeps_rules create_dir_all_adds same_fs_adds open_steps split: option.splits)

lemma clock_adds: "keeps adds_dirs unix_ms" "keeps adds_dirs unix_nanos"
  by (simp_all add: keeps_def unix_ms_def unix_nanos_def adds_dirs_def)

lemma clock_same_fs: "keeps same_fs unix_ms" "keeps same_fs unix_nanos"
  "keeps same_journals unix_ms" "keeps same_journals unix_nanos"
  by (simp_all add: keeps_def unix_ms_def unix_nanos_def same_fs_def same_journals_def journal_of_def fun_eq_iff)

lemma adds_dirs_kept:
  assumes "adds_dirs w w'" "wf_fs (w_fs w)" "map_of (w_fs w) k = Some nd"
  shows "map_of (w_fs w') k = Some nd"
  using assms unfolding adds_dirs_def by (metis option.distinct(1))

lemma adds_dirs_guard: "adds_dirs w w' \<Longrightarrow> guard_ok w g r \<Longrightarrow> guard_ok w' g r"
  unfolding guard_ok_def is_directory_iff by (metis adds_dirs_def adds_dirs_kept)

definition kept :: "world \<Rightarrow> world \<Rightarrow> bool" where
  "kept w w' \<longleftrightarrow> (\<forall>k. map_of (w_fs w) k \<noteq> None \<longrightarrow> map_of (w_fs w') k = map_of (w_fs w) k)"

section \<open>Targets of guarded operations\<close>

lemma resolve_for_create_place:
  assumes wf: "wf_fs (w_fs w)" and ok: "resolve_for_create w g rel = Inr p"
  shows "\<exists>d name nd. p = path_of_loc (d @ [name]) \<and> valid_loc (d @ [name])
    \<and> map_of (w_fs w) d = Some nd \<and> \<not> is_link (Some nd) \<and> path_starts_with (path_of_loc d) (guard_root g)"
proof -
  obtain d nd dir name where r: "resolve w True dir = Inr (d, nd)"
    and st: "path_starts_with (path_of_loc d) (guard_root g)"
    and name: "file_name (join_path (guard_root g) rel) = Some name"
    and p: "p = join_path (path_of_loc d) name"
    using ok by (auto simp: resolve_for_create_def bind_res_Inr_iff Let_def
        canonicalize_existing_Inr_iff split: if_splits option.splits)
  note nd = resolve_lookup [OF r] resolve_not_link [OF r wf]
  have vd: "valid_loc d" using wf_fs_valid [OF wf] nd(1) by auto
  have vn: "valid_name name" using name by (rule file_name_valid)
  from p have "p = path_of_loc (d @ [name])" using join_path_loc [OF vd vn] by simp
  moreover have "valid_loc (d @ [name])" using vd vn by (simp add: valid_loc_def)
  ultimately show ?thesis using nd st by blast
qed

lemma walks_no_link: "walks t follow n cur segs l nd \<Longrightarrow> \<not> is_link nd \<Longrightarrow> walk t n cur segs True = Inr (l, nd)"
  by (induction rule: walks.induct)
    (auto simp: walk.simps junk_def split: node.splits)

lemma resolve_no_link: "resolve w False p = Inr (l, nd) \<Longrightarrow> \<not> is_link (Some nd) \<Longrightarrow> resolve w True p = Inr (l, nd)"
  by (auto simp: resolve_walk walk_path_def split: if_splits dest!: walk_walks walks_no_link)

lemma create_target_walk:
  assumes wf: "wf_fs (w_fs w)" and ok: "resolve_for_create w g rel = Inr p"
    and wk: "walk_path w False p = Inr (l, m)"
  shows "p = path_of_loc l" and "m = map_of (w_fs w) l" and "l \<noteq> []"
proof -
  obtain d name nd where p: "p = path_of_loc (d @ [name])" "valid_loc (d @ [name])"
    and d: "map_of (w_fs w) d = Some nd" "\<not> is_link (Some nd)"
    using resolve_for_create_place [OF wf ok] by blast
  have "l = d @ [name] \<and> m = map_of (w_fs w) (d @ [name])"
    using walk_landed [OF wf p(2) _ wk [unfolded p(1)]] d by simp
  with p show "p = path_of_loc l" "m = map_of (w_fs w) l" "l \<noteq> []" by simp_all
qed

lemma absent_place:
  assumes "wf_fs (w_fs w)" "\<not> path_exists w (path_of_loc l)"
  shows "map_of (w_fs w) l = None \<or> is_link (map_of (w_fs w) l)"
proof (rule ccontr)
  assume "\<not> ?thesis"
  then obtain nd where "map_of (w_fs w) l = Some nd" "\<not> is_link (Some nd)" by auto
  with metadata_at_loc [OF assms(1)] assms(2) show False by (simp add: path_exists_def)
qed

lemma absent_not_regular:
  "wf_fs (w_fs w) \<Longrightarrow> \<not> path_exists w (path_of_loc l) \<Longrightarrow> \<not> is_regular (map_of (w_fs w) l)"
  using absent_place by (metis is_link.elims(2) is_regular.simps(2,4))

lemma guarded_rename_files:
  assumes "fs_rename a p w = (r, w')" and wf: "wf_fs (w_fs w)"
    and ok: "resolve_for_create w g rel = Inr p" and absent: "\<not> path_exists w p"
  shows "no_file_lost w w'"
proof -
  have "\<not> is_regular m" if "walk_path w False p = Inr (l, m)" for l m
    using create_target_walk [OF wf ok that] absent_not_regular [OF wf] absent by metis
  then have "file_nodes (w_fs w') = file_nodes (w_fs w)" by (rule rename_files [OF assms(1) wf])
  moreover have "wf_fs (w_fs w')"
    using keepsD [OF calls_wf_rename assms(1)] wf by (simp add: stays_wf_def)
  ultimately show ?thesis by (simp add: no_file_lost_def)
qed

text \<open>The place a resolved target stands for: below an existing node that is not a link.\<close>

definition landing :: "world \<Rightarrow> string \<Rightarrow> loc \<Rightarrow> bool" where
  "landing w p d \<longleftrightarrow> p = path_of_loc d \<and> valid_loc d \<and> d \<noteq> []
     \<and> (\<exists>nd. map_of (w_fs w) (butlast d) = Some nd \<and> \<not> is_link (Some nd))"

lemma resolve_for_create_landing:
  assumes "wf_fs (w_fs w)" and "resolve_for_create w g rel = Inr p"
  obtains d where "landing w p d" "path_starts_with (path_of_loc (butlast d)) (guard_root g)"
proof -
  obtain e name nd where "p = path_of_loc (e @ [name])" "valid_loc (e @ [name])"
    "map_of (w_fs w) e = Some nd" "\<not> is_link (Some nd)" "path_starts_with (path_of_loc e) (guard_root g)"
    using resolve_for_create_place [OF assms] by blast
  then show thesis using that [of "e @ [name]"] by (simp add: landing_def)
qed

lemma landing_walk:
  assumes "wf_fs (w_fs w)" "landing w p d" "walk_path w False p = Inr (l, m)"
  shows "l = d \<and> m = map_of (w_fs w) d"
  using walk_landed [OF assms(1), of d l m] assms(2,3) by (auto simp: landing_def)

lemma landing_kept: "kept w w' \<Longrightarrow> landing w p d \<Longrightarrow> landing w' p d"
  by (auto simp: landing_def kept_def)

lemma rename_regular:
  assumes run: "fs_rename (path_of_loc l) p w = (Inr u, w')" and wf: "wf_fs (w_fs w)"
    and l: "map_of (w_fs w) l = Some (RegularFile c a)" and land: "landing w p d" and "l \<noteq> d"
  shows "map_of (w_fs w') = (map_of (w_fs w))(l := None, d \<mapsto> RegularFile c a)"
proof -
  have src: "resolve w False (path_of_loc l) = Inr (l, RegularFile c a)"
    using resolve_path_of_loc [OF wf l] by simp
  obtain e m where wk: "walk_path w False p = Inr (e, m)"
    and mv: "rename_node (w_fs w) l (RegularFile c a) e m = Inr (w_fs w')"
    using run src unfolding fs_rename_def by (auto dest!: syscall_Inr split: sum.splits prod.splits)
  have e: "e = d" "m = map_of (w_fs w) d" using landing_walk [OF wf land wk] by simp_all
  from rename_node_ok [OF wf l mv walk_path_lookup [OF wk] walk_path_slot [OF wk wf]] e \<open>l \<noteq> d\<close>
  have t: "w_fs w' = fs_move l d (w_fs w)" and np: "\<not> prefix l d"
    and free: "strict_prefix d k \<Longrightarrow> map_of (w_fs w) k = None" for k by auto
  have below: "map_of (w_fs w) k = None" if "strict_prefix l k" for k
    using wf_fs_no_child [OF wf _ that] l by simp
  show ?thesis
  proof
    fix k
    show "map_of (w_fs w') k = ((map_of (w_fs w))(l := None, d \<mapsto> RegularFile c a)) k"
    proof (cases "prefix d k")
      case True
      then obtain j where j: "k = d @ j" by (auto simp: prefix_def)
      show ?thesis
      proof (cases "j = []")
        case False
        with j have "map_of (w_fs w) k = None" "k \<noteq> d" by (simp_all add: free strict_prefix_def)
        moreover have "map_of (w_fs w) (l @ j) = None" using False by (simp add: below strict_prefix_def)
        ultimately show ?thesis using map_of_fs_move [OF free np, of k] j True t by simp
      qed (use map_of_fs_move [OF free np, of k] j t l in simp)
    next
      case False
      then have "k \<noteq> d" by auto
      moreover have "map_of (w_fs w) k = None" if "prefix l k" "k \<noteq> l"
        using that by (auto intro: below simp: strict_prefix_def)
      ultimately show ?thesis using map_of_fs_move [OF free np, of k] False t by auto
    qed
  qed
qed

text \<open>Writing to a text that leads nowhere creates one new file and changes nothing else.\<close>

lemma write_absent:
  assumes "fs_write p c w = (Inr u, w')" and wf: "wf_fs (w_fs w)" and "\<not> path_exists w p"
  obtains k a where "map_of (w_fs w) k = None" "slot (w_fs w) k" "w_fs w' = fs_put k (RegularFile c a) (w_fs w)"
proof -
  obtain t where t: "write_node w p c = Inr t" "w_fs w' = t"
    using assms(1) by (auto simp: fs_write_def dest!: syscall_Inr)
  obtain k nd where wk: "walk_path w True p = Inr (k, nd)"
    using t(1) by (auto simp: write_node_def split: sum.splits)
  have "nd = None"
    using assms(3) wk by (cases nd) (auto simp: path_exists_def fs_metadata_def resolve_def)
  moreover from this have "map_of (w_fs w) k = None" using walk_path_lookup [OF wk] by simp
  moreover from this have "slot (w_fs w) k" using walk_path_slot [OF wk wf] wf_fs_root [OF wf] by auto
  ultimately show thesis using that [of k "new_node_attrs w"] t wk by (simp add: write_node_def)
qed

text \<open>A renaming loses at most what was at the destination.\<close>

lemma rename_at_most:
  assumes "fs_rename a p w = (r, w')" and wf: "wf_fs (w_fs w)"
  shows "w_fs w' = w_fs w \<or> (\<exists>src d m. resolve w False a = Inr (src, the (map_of (w_fs w) src))
    \<and> walk_path w False p = Inr (d, m) \<and> w_fs w' = fs_move src d (w_fs w) \<and> \<not> prefix src d
    \<and> (\<forall>k. strict_prefix d k \<longrightarrow> map_of (w_fs w) k = None))"
proof (cases r)
  case (Inl e)
  with assms(1) show ?thesis unfolding fs_rename_def by (auto dest!: syscall_Inl)
next
  case (Inr u)
  with assms(1) obtain src n d m where r: "resolve w False a = Inr (src, n)"
    and wk: "walk_path w False p = Inr (d, m)"
    and mv: "rename_node (w_fs w) src n d m = Inr (w_fs w')"
    unfolding fs_rename_def by (auto dest!: syscall_Inr split: sum.splits prod.splits)
  from rename_node_ok [OF wf resolve_lookup [OF r] mv walk_path_lookup [OF wk] walk_path_slot [OF wk wf]]
  show ?thesis using r wk resolve_lookup [OF r] by auto
qed

section \<open>Announced changes\<close>

definition intent :: "journal_row \<Rightarrow> bool" where
  "intent row \<longleftrightarrow> row_status row = status_as_db_str Planned \<or> row_status row = status_as_db_str UndoPlanned"

definition announced :: "world \<Rightarrow> world \<Rightarrow> bool" where
  "announced w w' \<longleftrightarrow> (\<exists>path rows. journal_of w' path = journal_of w path @ rows
     \<and> (\<exists>row \<in> set rows. intent row))"

definition audited :: "world \<Rightarrow> world \<Rightarrow> bool" where
  "audited w w' \<longleftrightarrow> grows w w' \<and> (kept w w' \<or> announced w w')"

lemma announced_later:
  assumes "announced u v" "grows v w"
  shows "announced u w"
proof -
  obtain path rows row where "journal_of v path = journal_of u path @ rows" "row \<in> set rows" "intent row"
    using assms(1) by (auto simp: announced_def)
  moreover obtain rest where "journal_of w path = journal_of v path @ rest"
    using assms(2) by (auto simp: grows_def prefix_def)
  ultimately show ?thesis unfolding announced_def
    by (intro exI [of _ path] exI [of _ "rows @ rest"]) auto
qed

lemma announced_earlier:
  assumes "grows u v" "announced v w"
  shows "announced u w"
proof -
  obtain path rows row where "journal_of w path = journal_of v path @ rows" "row \<in> set rows" "intent row"
    using assms(2) by (auto simp: announced_def)
  moreover obtain rest where "journal_of v path = journal_of u path @ rest"
    using assms(1) by (auto simp: grows_def prefix_def)
  ultimately show ?thesis unfolding announced_def
    by (intro exI [of _ path] exI [of _ "rest @ rows"]) auto
qed

interpretation audited: world_frame audited
proof
  show "audited w w" for w by (simp add: audited_def kept_def grows.refl)
  fix u v w assume a: "audited u v" "audited v w"
  have "kept u w" if "kept u v" "kept v w" using that unfolding kept_def by simp
  moreover have "announced u w" if "announced u v \<or> announced v w"
    using that a announced_later [of u v w] announced_earlier [of u v w] by (auto simp: audited_def)
  moreover have "grows u w" using a grows.trans [of u v w] by (simp add: audited_def)
  ultimately show "audited u w" using a by (auto simp: audited_def)
qed

lemma same_fs_audited: "keeps same_fs m \<Longrightarrow> keeps grows m \<Longrightarrow> keeps audited m"
  by (simp add: keeps_def same_fs_def audited_def kept_def)

lemma adds_dirs_kept': "adds_dirs w w' \<Longrightarrow> wf_fs (w_fs w) \<Longrightarrow> kept w w'"
  unfolding kept_def by (metis adds_dirs_kept not_None_eq)

text \<open>Creating calls change no existing node in any tree, well-formed or not.\<close>

lemma create_kept:
  assumes "(case walk_path w False p of Inl e \<Rightarrow> Inl e | Inr (l, Some _) \<Rightarrow> Inl AlreadyExists
      | Inr (l, None) \<Rightarrow> Inr (fs_put l n (w_fs w))) = Inr t"
    and "map_of (w_fs w) k \<noteq> None"
  shows "map_of t k = map_of (w_fs w) k"
proof -
  obtain l where "walk_path w False p = Inr (l, None)" "t = fs_put l n (w_fs w)"
    using assms(1) by (auto split: sum.splits option.splits)
  with assms(2) walk_path_lookup [of w False p l None] show ?thesis by auto
qed

lemma create_calls_audited: "keeps audited (fs_create_dir p)" "keeps audited (fs_create_new p)"
proof -
  have frame: "keeps audited (syscall f)"
    if "\<And>w t k. f w = Inr t \<Longrightarrow> map_of (w_fs w) k \<noteq> None \<Longrightarrow> map_of t k = map_of (w_fs w) k" for f
    using that by (intro keeps_syscall) (auto simp: audited_def kept_def grows_def dbs_ok_def journal_of_def)
  show "keeps audited (fs_create_dir p)" "keeps audited (fs_create_new p)"
    unfolding fs_create_dir_def fs_create_new_def by (rule frame, erule create_kept, simp)+
qed

lemma create_dir_all_audited: "keeps audited (create_dir_all p)"
  by (rule audited.keeps_create_dir_all) (rule create_calls_audited)

lemma store_audited:
  "keeps audited (append_entry store e)" "keeps audited (read_all store)"
  "keeps audited (read_all_lenient store)" "keeps audited unix_ms" "keeps audited unix_nanos"
  by (simp_all add: same_fs_audited append_frames read_frames)
    (simp_all add: keeps_def unix_ms_def unix_nanos_def audited_def kept_def grows_def dbs_ok_def
      journal_of_def)

lemma store_open_audited: "keeps audited (store_open root)"
  unfolding store_open_def open_root_db_def open_pool_at_def Let_def
  by (intro audited.keeps_bind audited.keeps_map_err audited.keeps_return)
    (auto intro: audited.keeps_rules create_dir_all_audited same_fs_audited open_steps split: option.splits)

text \<open>The discipline: append an intention; whatever follows, success or failure, may then change files,
  as long as it only adds to the journal.\<close>

lemma append_announces:
  assumes "append_entry store e w = (Inr u, w')" and "je_status e \<in> {Planned, UndoPlanned}"
  shows "announced w w'"
proof -
  obtain db where "w_dbs w (js_db_path store) = Some db"
    "w_dbs w' (js_db_path store) = Some (insert_row e db)"
    using assms(1) by (auto simp: append_ok_iff)
  then have "\<exists>row. journal_of w' (js_db_path store) = journal_of w (js_db_path store) @ [row]
      \<and> row_status row = status_as_db_str (je_status e)"
    by (auto simp: journal_of_def insert_row_def)
  with assms(2) show ?thesis unfolding announced_def intent_def by fastforce
qed

lemma announce_first:
  assumes "je_status e \<in> {Planned, UndoPlanned}" and "\<And>x. keeps grows (f x)"
  shows "keeps audited (bindA (map_errA h (append_entry store e)) f)"
proof (rule keepsI)
  fix w r w' assume run: "bindA (map_errA h (append_entry store e)) f w = (r, w')"
  show "audited w w'"
  proof (cases "append_entry store e w")
    case (Pair res w1)
    show ?thesis
    proof (cases res)
      case (Inl x)
      with Pair run have "w' = w\<lparr>w_tick := Suc (w_tick w)\<rparr>"
        using append_fail [of store e w x w1] by (auto simp: bindA_def map_errA_def)
      then show ?thesis by (simp add: audited_def kept_def grows_def dbs_ok_def journal_of_def)
    next
      case (Inr u)
      with Pair run have rest: "f u w1 = (r, w')" by (auto simp: bindA_def map_errA_def)
      have "announced w w1" using append_announces [of store e w u w1] Pair Inr assms(1) by simp
      moreover have "grows w1 w'" using keepsD [OF assms(2) rest] .
      moreover have "grows w w1" using keepsD [OF append_frames(3) Pair] .
      ultimately show ?thesis
        using announced_later [of w w1 w'] grows.trans [of w w1 w'] by (simp add: audited_def)
    qed
  qed
qed

section \<open>What an append leaves behind\<close>

definition records :: "JournalEntry \<Rightarrow> journal_row \<Rightarrow> bool" where
  "records e row \<longleftrightarrow> row_operation_id row = je_operation_id e \<and> row_status row = status_as_db_str (je_status e)
     \<and> row_action row = action_as_db_str (je_action e) \<and> row_from_path row = je_from e \<and> row_to_path row = je_to e"

lemma append_journal:
  assumes "append_entry store e w = (Inr u, w')"
  obtains row where "records e row" "w_fs w' = w_fs w"
    "journal_of w' = (journal_of w)(js_db_path store := journal_of w (js_db_path store) @ [row])"
proof -
  obtain db where "w_dbs w (js_db_path store) = Some db"
    "w' = w\<lparr>w_tick := Suc (w_tick w), w_dbs := (w_dbs w)(js_db_path store \<mapsto> insert_row e db)\<rparr>"
    using assms by (auto simp: append_ok_iff)
  then show thesis
    by (intro that [of "last (db_journal (insert_row e db))"])
      (auto simp: records_def insert_row_def journal_of_def fun_eq_iff)
qed

section \<open>Composing operations\<close>

lemma bindA_assoc: "bindA (bindA m f) g = bindA m (\<lambda>x. bindA (f x) g)"
  by (simp add: bindA_def fun_eq_iff split: prod.splits sum.splits)

lemma bindA_return: "bindA (returnA x) f = f x"
  by (simp add: fun_eq_iff)

text \<open>Frames pass through case distinctions.\<close>

lemma keeps_if: "keeps R m \<Longrightarrow> keeps R n \<Longrightarrow> keeps R (if b then m else n)"
  by simp

lemma keeps_case_sum: "(\<And>a. keeps R (f a)) \<Longrightarrow> (\<And>b. keeps R (g b)) \<Longrightarrow> keeps R (case_sum f g x)"
  by (simp split: sum.split)

lemma keeps_case_option: "keeps R f \<Longrightarrow> (\<And>b. keeps R (g b)) \<Longrightarrow> keeps R (case_option f g x)"
  by (simp split: option.split)

lemmas keeps_cases = keeps_if keeps_case_sum keeps_case_option

lemma grow_calls: "keeps grows unix_ms" "keeps grows (fs_create_dir p)" "keeps grows (fs_create_new p)"
  "keeps grows (fs_write p c)" "keeps grows (fs_copy p q)" "keeps grows (fs_rename p q)"
  "keeps grows (create_dir_all p)" "keeps grows (fs_remove_file p)" "keeps grows (fs_remove_dir p)"
  by (simp_all add: same_dbs_grows clock_env calls_dbs create_dir_all_frames)

lemma clock_files: "keeps no_file_lost unix_ms" "keeps no_file_lost unix_nanos"
  by (simp_all add: same_fs_safe clock_same_fs)

text \<open>What an action returns, whatever world it starts in.\<close>

definition yields :: "('a \<Rightarrow> bool) \<Rightarrow> ('e, 'a) act \<Rightarrow> bool" where
  "yields P m \<longleftrightarrow> (\<forall>w x w'. m w = (Inr x, w') \<longrightarrow> P x)"

lemma yieldsD: "yields P m \<Longrightarrow> m w = (Inr x, w') \<Longrightarrow> P x"
  unfolding yields_def by blast

lemma yields_bind: "(\<And>x. yields P (f x)) \<Longrightarrow> yields P (bindA m f)"
  by (auto simp: yields_def action_iffs)

lemma yields_basic: "P x \<Longrightarrow> yields P (returnA x)" "yields P (throwA e)"
  "yields P m \<Longrightarrow> yields P (map_errA h m)"
  by (simp_all add: yields_def map_errA_Inr_iff)

lemma yields_cases: "yields P m \<Longrightarrow> yields P n \<Longrightarrow> yields P (if b then m else n)"
  "(\<And>a. yields P (f a)) \<Longrightarrow> (\<And>b. yields P (g b)) \<Longrightarrow> yields P (case_sum f g x)"
  "yields P m \<Longrightarrow> (\<And>b. yields P (g b)) \<Longrightarrow> yields P (case_option m g y)"
  by (simp_all split: sum.split option.split)

lemmas yields_rules = yields_bind yields_basic yields_cases

lemma yields_then: "yields P m \<Longrightarrow> (\<And>x. P x \<Longrightarrow> yields Q (f x)) \<Longrightarrow> yields Q (bindA m f)"
  unfolding yields_def action_iffs by blast

section \<open>A guarded renaming\<close>

lemma same_world_resolve:
  assumes "w_fs w = w_fs w'" "w_cwd w = w_cwd w'"
  shows "resolve_existing w g rel = resolve_existing w' g rel"
proof -
  have "walk_path w = walk_path w'" using assms by (simp add: walk_path_def fun_eq_iff)
  then have "resolve w = resolve w'" by (simp add: resolve_def fun_eq_iff)
  then show ?thesis by (simp add: resolve_existing_def canonicalize_existing_def canonicalize_def)
qed

lemma guarded_rename_moves:
  assumes g: "guard_ok w g r" and ok: "resolve_for_create w g rel = Inr p" and absent: "\<not> path_exists w p"
    and mv: "fs_rename (path_of_loc l) p w = (Inr u, w')" and l: "map_of (w_fs w) l = Some (RegularFile x a)"
  obtains d where "p = path_of_loc d" "prefix r d" "l \<noteq> d" "map_of (w_fs w) d = None \<or> is_link (map_of (w_fs w) d)"
    "map_of (w_fs w') = (map_of (w_fs w))(l := None, d \<mapsto> RegularFile x a)" "landing w p d"
proof -
  have wf: "wf_fs (w_fs w)" using g by (simp add: guard_ok_def)
  obtain d where d: "landing w p d" "path_starts_with (path_of_loc (butlast d)) (guard_root g)"
    using resolve_for_create_landing [OF wf ok] .
  have p: "p = path_of_loc d" "valid_loc d" "d \<noteq> []" using d(1) by (simp_all add: landing_def)
  then have "valid_loc (butlast d)" by (auto simp: valid_loc_def list_all_iff dest: in_set_butlastD)
  then have "prefix r (butlast d)"
    using d(2) g path_starts_with_loc guard_ok_valid [OF g] by (simp add: guard_ok_def)
  then have "prefix r d" by (meson prefix_order.trans prefixeq_butlast)
  moreover have free: "map_of (w_fs w) d = None \<or> is_link (map_of (w_fs w) d)"
    using absent_place [OF wf] absent p(1) by simp
  moreover from this l have "l \<noteq> d" by auto
  ultimately show thesis using that p(1) rename_regular [OF mv wf l d(1)] d(1) by blast
qed

section \<open>The contract of an operation\<close>

locale journaled_handler =
  fixes run :: "'i \<Rightarrow> ('e, 'a) act"
  assumes run_audited: "keeps audited (run i)"
    and run_safe: "keeps no_file_lost (run i)"
begin

lemma journal_extends: "run i w = (r, w') \<Longrightarrow> prefix (journal_of w path) (journal_of w' path)"
  using keepsD [OF run_audited] by (auto simp: audited_def grows_def)

lemma unannounced_untouched:
  assumes "run i w = (r, w')" and "\<not> announced w w'" and "map_of (w_fs w) k \<noteq> None"
  shows "map_of (w_fs w') k = map_of (w_fs w) k"
  using keepsD [OF run_audited assms(1)] assms(2,3) by (auto simp: audited_def kept_def)

lemma files_survive:
  assumes "run i w = (r, w')" and "wf_fs (w_fs w)"
  shows "wf_fs (w_fs w') \<and> file_nodes (w_fs w) \<subseteq># file_nodes (w_fs w')"
  using keepsD [OF run_safe assms(1)] assms(2) by (simp add: no_file_lost_def)

end

end
