(* ===== verification/Trash.thy ===== *)
theory Trash
  imports Handlers
begin

text \<open>
  \<^verbatim>\<open>trash.rs\<close>: moving a file into the root's recoverable trash. The JSON printer of the metadata file is a
  parameter. Shown: under any fault schedule no regular file is lost and nothing is touched before the plan
  is journaled; on success the file sits in its own trash directory, unchanged, and its old place is free.
\<close>

section \<open>Model\<close>

definition TRASHED_FILE_NAME :: string where
  "TRASHED_FILE_NAME = ''file''"

definition TRASH_METADATA_FILE_NAME :: string where
  "TRASH_METADATA_FILE_NAME = ''original.json''"

record TrashReport =
  tr_root :: string
  tr_journal_path :: string
  tr_operation_id :: string
  tr_original_path :: string
  tr_trashed_path :: string
  tr_metadata_path :: string

record TrashMetadata =
  tm_operation_id :: string
  tm_original_path :: string
  tm_trashed_path :: string
  tm_size_bytes :: nat
  tm_modified_unix_ms :: "nat option"
  tm_trashed_unix_ms :: nat

datatype TrashError =
    Guard PathGuardError
  | Journal JournalError
  | Metadata string string
  | NotAFile string
  | BlockedLinkOrReparse string
  | CreateTrashDir string string
  | WriteMetadata string string
  | DestinationExists string
  | Move string string string
  | Serialize string

fun trash_error_to_string :: "TrashError \<Rightarrow> string" where
  "trash_error_to_string (Guard error) = path_guard_error_to_string error"
| "trash_error_to_string (Journal error) = journal_error_to_string error"
| "trash_error_to_string (Metadata path message) =
     ''cannot read metadata '' @ path @ '': '' @ message"
| "trash_error_to_string (NotAFile path) = ''trash target is not a file: '' @ path"
| "trash_error_to_string (BlockedLinkOrReparse path) =
     ''refusing to trash symlink, junction, or reparse point: '' @ path"
| "trash_error_to_string (CreateTrashDir path message) =
     ''cannot create trash directory '' @ path @ '': '' @ message"
| "trash_error_to_string (WriteMetadata path message) =
     ''cannot write trash metadata '' @ path @ '': '' @ message"
| "trash_error_to_string (DestinationExists path) = ''trash destination already exists: '' @ path"
| "trash_error_to_string (Move src dst message) =
     ''cannot move '' @ src @ '' to trash '' @ dst @ '': '' @ message"
| "trash_error_to_string (Serialize message) = ''cannot serialize trash metadata: '' @ message"

definition trash_journal_entry ::
  "string \<Rightarrow> JournalStatus \<Rightarrow> string \<Rightarrow> string \<Rightarrow> nat \<Rightarrow> JournalEntry" where
  "trash_journal_entry operation_id status src dst created =
     \<lparr>je_operation_id = operation_id, je_status = status, je_action = JournalAction.Trash,
      je_from = src, je_to = dst, je_created_unix_ms = created\<rparr>"

text \<open>The target is checked, and refused when something is there.\<close>

definition free_target :: "path_guard \<Rightarrow> string \<Rightarrow> world \<Rightarrow> TrashError + string" where
  "free_target guard relative w =
     bind_res (map_err TrashError.Guard (resolve_for_create w guard relative)) (\<lambda>path.
       if path_exists w path then Inl (TrashError.DestinationExists path) else Inr path)"

definition move_to_trash ::
  "(TrashMetadata \<Rightarrow> string + string) \<Rightarrow> path_guard \<Rightarrow> string \<Rightarrow> string \<Rightarrow> string \<Rightarrow> TrashMetadata
     \<Rightarrow> (TrashError, unit) act" where
  "move_to_trash to_json guard source trashed_relative_path metadata_relative_path trash_metadata =
     bindA (readA (free_target guard trashed_relative_path)) (\<lambda>trashed_path.
     bindA (readA (free_target guard metadata_relative_path)) (\<lambda>metadata_path.
     bindA (readA (\<lambda>_. map_err TrashError.Serialize (to_json trash_metadata))) (\<lambda>metadata_json.
     bindA (map_errA (\<lambda>error. WriteMetadata metadata_path (io_error_to_string error))
              (fs_write metadata_path metadata_json)) (\<lambda>_.
       map_errA (\<lambda>error. TrashError.Move source trashed_path (io_error_to_string error))
         (fs_rename source trashed_path)))))"

definition trash_source ::
  "string \<Rightarrow> string \<Rightarrow> world \<Rightarrow> TrashError + path_guard \<times> string \<times> metadata" where
  "trash_source root rel_path w =
     bind_res (map_err TrashError.Guard (guard_new w root)) (\<lambda>guard.
     bind_res (map_err TrashError.Guard (resolve_existing w guard rel_path)) (\<lambda>source.
       let path = join_path (guard_root guard) rel_path
       in bind_res (map_err (\<lambda>error. TrashError.Metadata path (io_error_to_string error))
                      (fs_symlink_metadata w path)) (\<lambda>metadata.
            if is_link_or_reparse_point metadata then Inl (BlockedLinkOrReparse path)
            else if \<not> m_is_file metadata then Inl (NotAFile path)
            else Inr (guard, source, metadata))))"

definition trash_dir_of :: "string \<Rightarrow> string" where
  "trash_dir_of operation_id = TRASH_DIR @ ''/'' @ operation_id"

definition trash_file ::
  "(TrashMetadata \<Rightarrow> string + string) \<Rightarrow> string \<Rightarrow> string \<Rightarrow> (TrashError, TrashReport) act" where
  "trash_file to_json root rel_path =
     bindA (readA (trash_source root rel_path)) (\<lambda>(guard, source, metadata).
     bindA (map_errA TrashError.Journal (store_open (guard_root guard))) (\<lambda>store.
     bindA unix_ms (\<lambda>created.
     bindA unix_nanos (\<lambda>nanos.
       let operation_id = ''trash-'' @ dec nanos;
           trash_relative_dir = trash_dir_of operation_id;
           trashed_relative_path = trash_relative_dir @ ''/'' @ TRASHED_FILE_NAME;
           metadata_relative_path = trash_relative_dir @ ''/'' @ TRASH_METADATA_FILE_NAME;
           trash_dir = join_path (guard_root guard) trash_relative_dir
       in bindA (map_errA TrashError.Journal (append_entry store
                   (trash_journal_entry operation_id Planned rel_path trashed_relative_path created)))
            (\<lambda>_.
          bindA (map_errA (\<lambda>error. CreateTrashDir trash_dir (io_error_to_string error))
                   (create_dir_all trash_dir)) (\<lambda>_.
          bindA (move_to_trash to_json guard source trashed_relative_path metadata_relative_path
                   \<lparr>tm_operation_id = operation_id, tm_original_path = rel_path,
                    tm_trashed_path = trashed_relative_path, tm_size_bytes = m_len metadata,
                    tm_modified_unix_ms = modified_unix_ms metadata, tm_trashed_unix_ms = created\<rparr>) (\<lambda>_.
          bindA unix_ms (\<lambda>now.
          bindA (map_errA TrashError.Journal (append_entry store
                   (trash_journal_entry operation_id Executed rel_path trashed_relative_path now)))
            (\<lambda>_.
            returnA \<lparr>tr_root = guard_root guard, tr_journal_path = js_db_path store,
                     tr_operation_id = operation_id, tr_original_path = rel_path,
                     tr_trashed_path = trashed_relative_path,
                     tr_metadata_path = metadata_relative_path\<rparr>)))))))))"

section \<open>Safety\<close>

lemma free_target_ok:
  "free_target guard rel w = Inr p \<longleftrightarrow> resolve_for_create w guard rel = Inr p \<and> \<not> path_exists w p"
  by (auto simp: free_target_def bind_res_Inr_iff split: if_splits)

lemma file_nodes_move_remove: "file_nodes (fs_move src d t) = file_nodes (fs_remove d t)"
proof -
  have "map snd (fs_move src d t) = map snd (fs_remove d t)" by (auto simp: fs_move_def)
  then show ?thesis by (simp add: file_nodes_def)
qed

lemma move_to_trash_safe: "keeps no_file_lost (move_to_trash to_json g source rel1 rel2 tm)"
proof (rule keepsI)
  fix w r w' assume run: "move_to_trash to_json g source rel1 rel2 tm w = (r, w')"
  show "no_file_lost w w'"
  proof (cases "w' = w \<or> w' = w\<lparr>w_tick := Suc (w_tick w)\<rparr>")
    case True
    then show ?thesis by (auto simp: no_file_lost_def)
  next
    case False
    have frame: "stays_wf w w'"
      using run unfolding move_to_trash_def
      by (rule keepsD [rotated]) (intro wf.keeps_rules calls_wf)
    from False run obtain p1 p2 j w1 u r2 where p1: "resolve_for_create w g rel1 = Inr p1" "\<not> path_exists w p1"
      and p2: "\<not> path_exists w p2" and wr: "fs_write p2 j w = (Inr u, w1)"
      and mv: "fs_rename source p1 w1 = (r2, w')"
      unfolding move_to_trash_def fs_write_def
      by (auto simp: bindA_def map_errA_def map_err_def free_target_ok split: sum.splits prod.splits
          dest!: syscall_Inl)
    show ?thesis
      unfolding no_file_lost_def
    proof (intro impI conjI)
      assume wf: "wf_fs (w_fs w)"
      show "wf_fs (w_fs w')" using frame wf by (simp add: stays_wf_def)
      obtain k a where k: "map_of (w_fs w) k = None" "slot (w_fs w) k"
        and w1: "w_fs w1 = fs_put k (RegularFile j a) (w_fs w)"
        using write_absent [OF wr wf p2] .
      have wf1: "wf_fs (w_fs w1)" using wf_create [OF k(2,1) wf] w1 by simp
      have put: "file_nodes (w_fs w) \<subseteq># file_nodes (w_fs w1)"
        using file_nodes_put [OF _ wf_fs_distinct [OF wf], of k] k(1) w1 by simp
      show "file_nodes (w_fs w) \<subseteq># file_nodes (w_fs w')"
      proof (cases "w_fs w' = w_fs w1")
        case False
        then obtain src d m where wk: "walk_path w1 False p1 = Inr (d, m)"
          and w': "w_fs w' = fs_move src d (w_fs w1)"
          using rename_at_most [OF mv wf1] by blast
        have "kept w w1" using k(1) w1 by (auto simp: kept_def)
        moreover obtain e where "landing w p1 e" using resolve_for_create_landing [OF wf p1(1)] .
        ultimately have "landing w1 p1 e" by (rule landing_kept)
        with landing_walk [OF wf1 this wk] have "p1 = path_of_loc d" by (simp add: landing_def)
        then have d: "\<not> is_regular (map_of (w_fs w) d)" using absent_not_regular [OF wf] p1(2) by simp
        have dist: "distinct (map fst (w_fs w))" using wf by (rule wf_fs_distinct)
        show ?thesis
        proof (cases "d = k")
          case True
          then have "fs_remove d (w_fs w1) = fs_remove d (w_fs w)"
            by (simp add: w1 fs_put_def fs_remove_def)
          with w' file_nodes_remove_other [OF d dist] show ?thesis by (simp add: file_nodes_move_remove)
        next
          case False
          then have "\<not> is_regular (map_of (w_fs w1) d)" using d w1 by simp
          with file_nodes_remove_other [OF _ wf_fs_distinct [OF wf1]] w' put
          show ?thesis by (simp add: file_nodes_move_remove)
        qed
      qed (use put in simp)
    qed
  qed
qed

lemma trash_tail_grows:
  "keeps grows (move_to_trash to_json g source rel1 rel2 tm)" "keeps grows (append_entry store e)"
  "keeps grows unix_ms" "keeps grows (create_dir_all p)"
proof -
  show "keeps grows (move_to_trash to_json g source rel1 rel2 tm)"
    unfolding move_to_trash_def by (intro grows.keeps_rules same_dbs_grows calls_dbs)
qed (simp_all add: append_frames same_dbs_grows clock_env create_dir_all_frames)

text \<open>The contract of an operation holds for \<^verbatim>\<open>trash_file\<close>.\<close>

interpretation trash: journaled_handler "\<lambda>(to_json, root, rel_path). trash_file to_json root rel_path"
proof
  fix i :: "(TrashMetadata \<Rightarrow> string + string) \<times> string \<times> string"
  obtain to_json root rel_path where i: "i = (to_json, root, rel_path)" by (cases i)
  have "keeps audited (trash_file to_json root rel_path)"
    unfolding trash_file_def Let_def case_prod_beta
    by (intro audited.keeps_bind audited.keeps_map_err audited.keeps_read store_open_audited store_audited
        announce_first grows.keeps_rules trash_tail_grows) (simp_all add: trash_journal_entry_def)
  then show "keeps audited (case i of (to_json, root, rel_path) \<Rightarrow> trash_file to_json root rel_path)"
    by (simp add: i)
  have "keeps no_file_lost (trash_file to_json root rel_path)"
    unfolding trash_file_def Let_def case_prod_beta
    by (intro files.keeps_rules store_open_frames same_fs_safe append_frames create_dir_all_files
        move_to_trash_safe) (simp_all add: clock_same_fs)
  then show "keeps no_file_lost (case i of (to_json, root, rel_path) \<Rightarrow> trash_file to_json root rel_path)"
    by (simp add: i)
qed

text \<open>C11: whatever system call or statement of \<^verbatim>\<open>trash_file\<close> fails, at whatever point the run is cut short,
  the tree stays well-formed, every regular file that existed before still exists with its content and
  attributes, every journal only grows, and nothing that existed was changed, moved or removed unless the
  intention was journaled first.\<close>

theorem trash_file_safe:
  assumes "trash_file to_json root rel_path w = (r, w')" and "wf_fs (w_fs w)"
  shows "wf_fs (w_fs w') \<and> file_nodes (w_fs w) \<subseteq># file_nodes (w_fs w')
    \<and> prefix (journal_of w path) (journal_of w' path)
    \<and> (announced w w' \<or> (\<forall>k. map_of (w_fs w) k \<noteq> None \<longrightarrow> map_of (w_fs w') k = map_of (w_fs w) k))"
  using trash.files_survive [of "(to_json, root, rel_path)"] trash.journal_extends [of "(to_json, root, rel_path)"]
    trash.unannounced_untouched [of "(to_json, root, rel_path)"] assms
  by (simp, blast)

text \<open>A run whose second tree change fails: the directories exist, the plan is journaled, the file is
  untouched.\<close>

definition sample_to_json :: "TrashMetadata \<Rightarrow> string + string" where
  "sample_to_json m = Inr (tm_operation_id m)"

definition failing_at :: "nat \<Rightarrow> world \<Rightarrow> world" where
  "failing_at n w = w\<lparr>w_fails := (\<lambda>k. k = n)\<rparr>"

definition early_world :: world where
  "early_world = sample_world\<lparr>w_clock := (\<lambda>n. n)\<rparr>"

theorem trash_file_safe_witness:
  "\<exists>e w'. trash_file sample_to_json ''/home/box'' ''notes.pdf'' (failing_at 10 early_world) = (Inl e, w')
     \<and> map_of (w_fs w') [''home'', ''box'', ''notes.pdf''] = Some (RegularFile ''hello'' (sample_attrs 4))
     \<and> file_nodes sample_fs \<subseteq># file_nodes (w_fs w')"
proof -
  let ?w = "failing_at 10 early_world"
  let ?run = "trash_file sample_to_json ''/home/box'' ''notes.pdf'' ?w"
  have run: "case ?run of (r, w') \<Rightarrow> \<not> is_ok r
      \<and> map_of (w_fs w') [''home'', ''box'', ''notes.pdf''] = Some (RegularFile ''hello'' (sample_attrs 4))"
    by code_simp
  obtain r w' where rw: "?run = (r, w')" by (cases ?run)
  moreover obtain e where "r = Inl e" using run rw by (cases r) (simp_all add: is_ok_def)
  moreover have "w_fs ?w = sample_fs" by (simp add: failing_at_def early_world_def sample_world_def)
  moreover have "wf_fs (w_fs ?w)" using sample_wf by (simp add: failing_at_def early_world_def)
  ultimately show ?thesis using run trash_file_safe [OF rw] by auto
qed

text \<open>What the move itself does when it succeeds.\<close>

lemma move_to_trash_moves:
  assumes run: "move_to_trash to_json g (path_of_loc l) rel1 rel2 tm w = (Inr u, w')" and g: "guard_ok w g r"
    and l: "map_of (w_fs w) l = Some (RegularFile c a)"
  obtains d where "prefix r d" "l \<noteq> d" "map_of (w_fs w') l = None" "map_of (w_fs w') d = Some (RegularFile c a)"
    "\<forall>k nd. map_of (w_fs w) k = Some nd \<longrightarrow> k \<noteq> l \<longrightarrow> k \<noteq> d \<longrightarrow> map_of (w_fs w') k = Some nd"
    "journal_of w' = journal_of w"
proof -
  have wf: "wf_fs (w_fs w)" using g by (simp add: guard_ok_def)
  obtain p1 p2 j w1 where p1: "resolve_for_create w g rel1 = Inr p1" "\<not> path_exists w p1"
    and p2: "\<not> path_exists w p2" and wr: "fs_write p2 j w = (Inr (), w1)"
    and mv: "fs_rename (path_of_loc l) p1 w1 = (Inr u, w')"
    using run by (auto simp: move_to_trash_def action_iffs free_target_ok)
  obtain d where d: "landing w p1 d" "path_starts_with (path_of_loc (butlast d)) (guard_root g)"
    using resolve_for_create_landing [OF wf p1(1)] .
  have "p1 = path_of_loc d" "valid_loc d" "d \<noteq> []" using d(1) by (simp_all add: landing_def)
  then have "valid_loc (butlast d)" by (auto simp: valid_loc_def list_all_iff dest: in_set_butlastD)
  then have "prefix r (butlast d)"
    using d(2) g path_starts_with_loc guard_ok_valid [OF g] by (simp add: guard_ok_def)
  then have inside: "prefix r d" by (meson prefix_order.trans prefixeq_butlast)
  have "l \<noteq> d"
    using absent_place [OF wf, of d] p1(2) \<open>p1 = path_of_loc d\<close> l by auto
  obtain k b where k: "map_of (w_fs w) k = None" "slot (w_fs w) k"
    and w1: "w_fs w1 = fs_put k (RegularFile j b) (w_fs w)"
    using write_absent [OF wr wf p2] .
  have "kept w w1" using k(1) w1 by (auto simp: kept_def)
  then have land: "landing w1 p1 d" using d(1) by (rule landing_kept)
  have wf1: "wf_fs (w_fs w1)" using wf_create [OF k(2,1) wf] w1 by simp
  have l1: "map_of (w_fs w1) l = Some (RegularFile c a)" using k(1) l w1 by auto
  note after = rename_regular [OF mv wf1 l1 land \<open>l \<noteq> d\<close>]
  have "same_dbs w w1" "same_dbs w1 w'"
    using keepsD [OF calls_dbs(3) wr] keepsD [OF calls_dbs(5) mv] by simp_all
  then have "journal_of w' = journal_of w" by (simp add: same_dbs_def journal_of_def fun_eq_iff)
  then show thesis using that [OF inside \<open>l \<noteq> d\<close>] after k(1) w1 \<open>l \<noteq> d\<close> by auto
qed

lemma trash_source_file:
  assumes ok: "trash_source root rel_path w = Inr (g, source, m)" and wf: "wf_fs (w_fs w)"
  obtains r l c a where "guard_new w root = Inr g" "guard_ok w g r" "source = path_of_loc l" "prefix r l"
    "resolve_existing w g rel_path = Inr source" "map_of (w_fs w) l = Some (RegularFile c a)"
proof -
  let ?p = "join_path (guard_root g) rel_path"
  have gn: "guard_new w root = Inr g" and ex: "resolve_existing w g rel_path = Inr source"
    and m: "fs_symlink_metadata w ?p = Inr m" "m_is_file m"
    using ok by (auto simp: trash_source_def bind_res_Inr_iff Let_def split: if_splits)
  obtain r where r: "guard_ok w g r" using guard_new_ok [OF gn wf] by blast
  obtain l nd where l: "source = path_of_loc l" "prefix r l" "map_of (w_fs w) l = Some nd"
      "resolve w True ?p = Inr (l, nd)"
    using resolve_existing_Inr [OF r ex] by blast
  obtain l' nd' where "resolve w False ?p = Inr (l', nd')" and "m = node_metadata nd'"
    using m(1) by (cases "resolve w False ?p") (auto simp: fs_symlink_metadata_def)
  moreover from this m(2) obtain c a where "nd' = RegularFile c a"
    by (auto simp: node_metadata_def split: node.splits)
  ultimately have "nd = RegularFile c a" using resolve_no_link [of w ?p l' nd'] l(4) by simp
  with that gn r l ex show thesis by blast
qed

text \<open>a successful \<^verbatim>\<open>trash_file\<close> moves exactly the requested file. The request led to one regular file
  inside the managed root; after the run that place is free, the same file (content and attributes) sits at
  another place inside the root, every other node that existed is unchanged, and the root's journal has
  gained exactly the planned and the executed row of this operation.\<close>

theorem trash_file_moves:
  assumes run: "trash_file to_json root rel_path w = (Inr rep, w')" and wf: "wf_fs (w_fs w)"
  shows "\<exists>g r l c a d row1 row2. guard_new w root = Inr g \<and> guard_root g = path_of_loc r
    \<and> resolve_existing w g rel_path = Inr (path_of_loc l) \<and> prefix r l \<and> prefix r d \<and> l \<noteq> d
    \<and> map_of (w_fs w) l = Some (RegularFile c a) \<and> map_of (w_fs w') l = None
    \<and> map_of (w_fs w') d = Some (RegularFile c a)
    \<and> (\<forall>k nd. map_of (w_fs w) k = Some nd \<longrightarrow> k \<noteq> l \<longrightarrow> k \<noteq> d \<longrightarrow> map_of (w_fs w') k = Some nd)
    \<and> journal_of w' (tr_journal_path rep) = journal_of w (tr_journal_path rep) @ [row1, row2]
    \<and> records (trash_journal_entry (tr_operation_id rep) Planned rel_path (tr_trashed_path rep) 0) row1
    \<and> records (trash_journal_entry (tr_operation_id rep) Executed rel_path (tr_trashed_path rep) 0) row2"
proof -
  obtain g source m where src: "trash_source root rel_path w = Inr (g, source, m)"
    using run by (auto simp: trash_file_def action_iffs)
  obtain store w1 created w2 nanos w3 where opened: "store_open (guard_root g) w = (Inr store, w1)"
    and clk: "(unix_ms :: (TrashError, nat) act) w1 = (Inr created, w2)"
      "(unix_nanos :: (TrashError, nat) act) w2 = (Inr nanos, w3)"
    using run src by (auto simp: trash_file_def action_iffs Let_def)
  let ?id = "''trash-'' @ dec nanos"
  let ?to = "trash_dir_of ?id @ ''/'' @ TRASHED_FILE_NAME"
  obtain w4 w5 tm w6 now w7 u where plan: "append_entry store (trash_journal_entry ?id Planned rel_path ?to created) w3 = (Inr (), w4)"
    and mk: "create_dir_all (join_path (guard_root g) (trash_dir_of ?id)) w4 = (Inr (), w5)"
    and mv: "move_to_trash to_json g source ?to (trash_dir_of ?id @ ''/'' @ TRASH_METADATA_FILE_NAME) tm w5 = (Inr u, w6)"
    and clk2: "(unix_ms :: (TrashError, nat) act) w6 = (Inr now, w7)"
    and exe: "append_entry store (trash_journal_entry ?id Executed rel_path ?to now) w7 = (Inr (), w')"
    and rep: "tr_journal_path rep = js_db_path store" "tr_operation_id rep = ?id" "tr_trashed_path rep = ?to"
    using run src opened clk by (auto simp: trash_file_def action_iffs Let_def)
  obtain r l c a where gn: "guard_new w root = Inr g" and r: "guard_ok w g r" and l: "source = path_of_loc l"
      "prefix r l" "resolve_existing w g rel_path = Inr source" "map_of (w_fs w) l = Some (RegularFile c a)"
    using trash_source_file [OF src wf] .
  obtain row1 where row1: "records (trash_journal_entry ?id Planned rel_path ?to created) row1" "w_fs w4 = w_fs w3"
      "journal_of w4 = (journal_of w3)(js_db_path store := journal_of w3 (js_db_path store) @ [row1])"
    using append_journal [OF plan] .
  obtain row2 where row2: "records (trash_journal_entry ?id Executed rel_path ?to now) row2" "w_fs w' = w_fs w7"
      "journal_of w' = (journal_of w7)(js_db_path store := journal_of w7 (js_db_path store) @ [row2])"
    using append_journal [OF exe] .
  have "adds_dirs w w3"
    using keepsD [OF store_open_adds opened] keepsD [OF clock_adds(1) clk(1)] keepsD [OF clock_adds(2) clk(2)]
    by (blast intro: adds_dirs.trans)
  moreover have "adds_dirs w3 w4" using keepsD [OF same_fs_adds [OF append_frames(1)] plan] .
  ultimately have w5: "adds_dirs w w5"
    using keepsD [OF create_dir_all_adds mk] by (blast intro: adds_dirs.trans)
  have js: "journal_of w3 = journal_of w" "journal_of w5 = journal_of w4"
    using keepsD [OF store_open_journals opened] keepsD [OF clock_same_fs(3) clk(1)]
      keepsD [OF clock_same_fs(4) clk(2)] keepsD [OF same_dbs_journals [OF create_dir_all_frames(2)] mk]
    by (simp_all add: same_journals_def)
  obtain d where d: "prefix r d" "l \<noteq> d" "map_of (w_fs w6) l = None" "map_of (w_fs w6) d = Some (RegularFile c a)"
    "\<forall>k nd. map_of (w_fs w5) k = Some nd \<longrightarrow> k \<noteq> l \<longrightarrow> k \<noteq> d \<longrightarrow> map_of (w_fs w6) k = Some nd"
    "journal_of w6 = journal_of w5"
    using move_to_trash_moves [OF mv [unfolded l(1)] adds_dirs_guard [OF w5 r] adds_dirs_kept [OF w5 wf l(4)]] .
  have w7: "w_fs w7 = w_fs w6" "journal_of w7 = journal_of w6"
    using keepsD [OF clock_same_fs(1) clk2] keepsD [OF clock_same_fs(3) clk2]
    by (simp_all add: same_fs_def same_journals_def)
  have "journal_of w' (js_db_path store) = journal_of w (js_db_path store) @ [row1, row2]"
    using row1(3) row2(3) js d(6) w7(2) by simp
  moreover have "map_of (w_fs w') k = Some nd" if "map_of (w_fs w) k = Some nd" "k \<noteq> l" "k \<noteq> d" for k nd
    using d(5) adds_dirs_kept [OF w5 wf that(1)] that(2,3) row2(2) w7(1) by simp
  moreover have "guard_root g = path_of_loc r" using r by (simp add: guard_ok_def)
  ultimately show ?thesis
    using gn l d(1-4) row1(1) row2(1,2) w7(1) rep
    by (intro exI [of _ g] exI [of _ r] exI [of _ l] exI [of _ c] exI [of _ a] exI [of _ d]
        exI [of _ row1] exI [of _ row2])
      (simp add: records_def trash_journal_entry_def)
qed

theorem trash_file_moves_witness:
  "\<exists>rep w' d. trash_file sample_to_json ''/home/box'' ''notes.pdf'' early_world = (Inr rep, w')
     \<and> map_of (w_fs w') [''home'', ''box'', ''notes.pdf''] = None
     \<and> map_of (w_fs w') d = Some (RegularFile ''hello'' (sample_attrs 4))"
proof -
  let ?run = "trash_file sample_to_json ''/home/box'' ''notes.pdf'' early_world"
  have ok: "is_ok (fst ?run)" by code_simp
  obtain r w' where rw: "?run = (r, w')" by (cases ?run)
  with ok obtain rep where rep: "?run = (Inr rep, w')" by (cases r) (simp_all add: is_ok_def)
  have wf: "wf_fs (w_fs early_world)" using sample_wf by (simp add: early_world_def)
  have g: "guard_new early_world ''/home/box'' = Inr sample_guard"
    and e: "resolve_existing early_world sample_guard ''notes.pdf'' = Inr (path_of_loc [''home'', ''box'', ''notes.pdf''])"
    and f: "map_of (w_fs early_world) [''home'', ''box'', ''notes.pdf''] = Some (RegularFile ''hello'' (sample_attrs 4))"
    and v: "valid_loc [''home'', ''box'', ''notes.pdf'']"
    by code_simp+
  from trash_file_moves [OF rep wf] obtain l c a d where l: "path_of_loc l = path_of_loc [''home'', ''box'', ''notes.pdf'']"
    "map_of (w_fs early_world) l = Some (RegularFile c a)" "map_of (w_fs w') l = None"
    "map_of (w_fs w') d = Some (RegularFile c a)"
    using g e by auto
  have "valid_loc l" using wf_fs_valid [OF wf] l(2) by simp
  then have "l = [''home'', ''box'', ''notes.pdf'']" using l(1) v path_of_loc_inj by blast
  with l f rep show ?thesis by auto
qed

end
