(* ===== verification/Execute.thy ===== *)
theory Execute
  imports Trash
begin

text \<open>
  \<^verbatim>\<open>execute.rs\<close>: carrying out prechecked proposals. Every handler journals its plan, looks at the tree again,
  acts, and journals the execution; a check that is not ready can stand for a move a crashed run already made,
  which is then only recorded. Shown: under any fault schedule a run loses no regular file and announces every
  change first; the report accounts for every check in order; what a successful move, creation and README
  write leave behind; that a move to an unsafe target touches no file; when a crashed move is recovered.
\<close>

section \<open>Model\<close>

datatype ExecuteStatus = Executed | Skipped | Rejected

record ExecuteResult =
  er_action :: ProposalAction
  er_from :: string
  er_to :: string
  er_status :: ExecuteStatus
  er_reason :: "string option"

record ExecuteReport =
  ex_root :: string
  ex_journal_path :: string
  ex_executed_count :: nat
  ex_skipped_count :: nat
  ex_rejected_count :: nat
  ex_results :: "ExecuteResult list"

datatype ExecuteError =
    Guard PathGuardError
  | Precheck PrecheckError
  | PrecheckProposal ProposalError
  | Decision DecisionError
  | Journal JournalError
  | CreateParentDir string string
  | Move string string string
  | Write string string
  | Trash TrashError
  | Serialize string

fun execute_error_to_string :: "ExecuteError \<Rightarrow> string" where
  "execute_error_to_string (Guard error) = path_guard_error_to_string error"
| "execute_error_to_string (Precheck error) = precheck_error_to_string error"
| "execute_error_to_string (PrecheckProposal error) = proposal_error_to_string error"
| "execute_error_to_string (Decision error) = decision_error_to_string error"
| "execute_error_to_string (Journal error) = journal_error_to_string error"
| "execute_error_to_string (CreateParentDir path message) =
     ''cannot create destination parent '' @ path @ '': '' @ message"
| "execute_error_to_string (Move src dst message) =
     ''cannot move '' @ src @ '' to '' @ dst @ '': '' @ message"
| "execute_error_to_string (Write path message) = ''cannot write '' @ path @ '': '' @ message"
| "execute_error_to_string (Trash error) = trash_error_to_string error"
| "execute_error_to_string (Serialize message) = ''cannot serialize execute journal: '' @ message"

fun journal_action_of :: "ProposalAction \<Rightarrow> JournalAction" where
  "journal_action_of ProposalAction.Move = JournalAction.Move"
| "journal_action_of ProposalAction.Trash = JournalAction.Trash"
| "journal_action_of ProposalAction.CreateDir = JournalAction.CreateDir"
| "journal_action_of ProposalAction.CreateFile = JournalAction.CreateFile"
| "journal_action_of ProposalAction.ReadmeWrite = JournalAction.ReadmeWrite"

text \<open>The entries take their time stamp when they are built.\<close>

definition execute_journal_entry ::
  "string \<Rightarrow> JournalStatus \<Rightarrow> PrecheckResult \<Rightarrow> ('e, JournalEntry) act" where
  "execute_journal_entry operation_id status check =
     bindA unix_ms (\<lambda>now.
       returnA \<lparr>je_operation_id = operation_id, je_status = status,
                je_action = journal_action_of (pc_action check), je_from = pc_from check,
                je_to = pc_to check, je_created_unix_ms = now\<rparr>)"

definition planned_entry :: "string \<Rightarrow> PrecheckResult \<Rightarrow> ('e, JournalEntry) act" where
  "planned_entry operation_id check = execute_journal_entry operation_id Planned check"

definition executed_entry :: "string \<Rightarrow> PrecheckResult \<Rightarrow> ('e, JournalEntry) act" where
  "executed_entry operation_id check = execute_journal_entry operation_id JournalStatus.Executed check"

definition readme_journal_entry ::
  "string \<Rightarrow> JournalStatus \<Rightarrow> string \<Rightarrow> string \<Rightarrow> ('e, JournalEntry) act" where
  "readme_journal_entry operation_id status backup_relative target_relative =
     bindA unix_ms (\<lambda>now.
       returnA \<lparr>je_operation_id = operation_id, je_status = status, je_action = JournalAction.ReadmeWrite,
                je_from = backup_relative, je_to = target_relative, je_created_unix_ms = now\<rparr>)"

definition append_built ::
  "JournalStore \<Rightarrow> (ExecuteError, JournalEntry) act \<Rightarrow> (ExecuteError, unit) act" where
  "append_built store build =
     bindA build (\<lambda>entry. map_errA ExecuteError.Journal (append_entry store entry))"

definition executed_result :: "PrecheckResult \<Rightarrow> string option \<Rightarrow> ExecuteResult" where
  "executed_result check reason =
     \<lparr>er_action = pc_action check, er_from = pc_from check, er_to = pc_to check,
      er_status = Executed, er_reason = reason\<rparr>"

definition skipped_result :: "PrecheckResult \<Rightarrow> string option \<Rightarrow> ExecuteResult" where
  "skipped_result check reason =
     \<lparr>er_action = pc_action check, er_from = pc_from check, er_to = pc_to check,
      er_status = Skipped, er_reason = reason\<rparr>"

definition rejected_result :: "RejectedProposal \<Rightarrow> ExecuteResult" where
  "rejected_result rejected =
     \<lparr>er_action = p_action (rj_proposal rejected), er_from = p_from (rj_proposal rejected),
      er_to = p_to (rj_proposal rejected), er_status = Rejected, er_reason = Some (rj_reason rejected)\<rparr>"

definition execute_create_dir ::
  "path_guard \<Rightarrow> JournalStore \<Rightarrow> PrecheckResult \<Rightarrow> nat \<Rightarrow> (ExecuteError, string + ExecuteResult) act" where
  "execute_create_dir guard store check index =
     bindA unix_ms (\<lambda>now.
       let operation_id = op_id now index
       in bindA (append_built store (planned_entry operation_id check)) (\<lambda>_.
          bindA (readA (\<lambda>w. Inr (resolve_for_create w guard (pc_to check)))) (\<lambda>resolved.
          case resolved of
            Inl error \<Rightarrow> returnA (Inl (path_guard_error_to_string error))
          | Inr target \<Rightarrow>
              bindA (readA (\<lambda>w. Inr (path_exists w target))) (\<lambda>present.
              if present then returnA (Inl ''directory appeared before create; refusing to overwrite'')
              else bindA (map_errA (\<lambda>error. CreateParentDir target (io_error_to_string error))
                            (fs_create_dir target)) (\<lambda>_.
                   bindA (append_built store (executed_entry operation_id check)) (\<lambda>_.
                     returnA (Inr (executed_result check None))))))))"

definition execute_create_file ::
  "path_guard \<Rightarrow> JournalStore \<Rightarrow> PrecheckResult \<Rightarrow> nat \<Rightarrow> (ExecuteError, string + ExecuteResult) act" where
  "execute_create_file guard store check index =
     bindA unix_ms (\<lambda>now.
       let operation_id = op_id now index
       in bindA (append_built store (planned_entry operation_id check)) (\<lambda>_.
          if (case pc_content check of None \<Rightarrow> [] | Some c \<Rightarrow> c) \<noteq> [] then
            returnA (Inl ''CREATE_FILE currently supports empty files only'')
          else
            bindA (readA (\<lambda>w. Inr (resolve_for_create w guard (pc_to check)))) (\<lambda>resolved.
            case resolved of
              Inl error \<Rightarrow> returnA (Inl (path_guard_error_to_string error))
            | Inr target \<Rightarrow>
                bindA (tryA (fs_create_new target)) (\<lambda>opened.
                case opened of
                  Inl error \<Rightarrow>
                    bindA (readA (\<lambda>w. Inr (path_exists w target))) (\<lambda>present.
                    if present then returnA (Inl ''file appeared before create; refusing to overwrite'')
                    else throwA (ExecuteError.Write target (io_error_to_string error)))
                | Inr _ \<Rightarrow>
                    bindA (append_built store (executed_entry operation_id check)) (\<lambda>_.
                      returnA (Inr (executed_result check None)))))))"

definition README :: string where
  "README = ''README.md''"

definition backup_path :: "string \<Rightarrow> string" where
  "backup_path operation_id = ''.mousekeeper/readme_backups/'' @ operation_id @ ''.bak''"

definition absent_path :: "string \<Rightarrow> string" where
  "absent_path operation_id = ''.mousekeeper/readme_backups/'' @ operation_id @ ''.absent''"

text \<open>The copy of the old README, or the mark that there was none.\<close>

definition save_readme :: "string \<Rightarrow> string \<Rightarrow> string \<Rightarrow> (ExecuteError, unit) act" where
  "save_readme target backup absent =
     bindA (case parent backup of
              None \<Rightarrow> returnA ()
            | Some dir \<Rightarrow> map_errA (\<lambda>error. CreateParentDir dir (io_error_to_string error))
                            (create_dir_all dir)) (\<lambda>_.
     bindA (readA (\<lambda>w. Inr (path_exists w target))) (\<lambda>present.
       if present then
         map_errA (\<lambda>error. ExecuteError.Write backup (io_error_to_string error)) (fs_copy target backup)
       else map_errA (\<lambda>error. ExecuteError.Write absent (io_error_to_string error)) (fs_write absent [])))"

definition execute_readme_write ::
  "path_guard \<Rightarrow> JournalStore \<Rightarrow> PrecheckResult \<Rightarrow> nat \<Rightarrow> (ExecuteError, string + ExecuteResult) act" where
  "execute_readme_write guard store check index =
     (if pc_from check \<noteq> README \<or> pc_to check \<noteq> README then
        returnA (Inl ''README_WRITE may only target README.md at the managed-root root'')
      else (case pc_content check of
        None \<Rightarrow> returnA (Inl ''README_WRITE is missing approved content'')
      | Some content \<Rightarrow>
          bindA unix_ms (\<lambda>now.
            let operation_id = op_id now index;
                target = join_path (guard_root guard) README;
                backup = join_path (guard_root guard) (backup_path operation_id);
                absent = join_path (guard_root guard) (absent_path operation_id)
            in bindA (save_readme target backup absent) (\<lambda>_.
               bindA (append_built store
                        (readme_journal_entry operation_id Planned (backup_path operation_id) README)) (\<lambda>_.
               bindA (map_errA (\<lambda>error. ExecuteError.Write target (io_error_to_string error))
                        (fs_write target content)) (\<lambda>_.
               bindA (append_built store
                        (readme_journal_entry operation_id JournalStatus.Executed (backup_path operation_id) README))
                 (\<lambda>_. returnA (Inr \<lparr>er_action = pc_action check, er_from = README, er_to = README,
                                    er_status = Executed, er_reason = None\<rparr>))))))))"

definition execute_move ::
  "path_guard \<Rightarrow> JournalStore \<Rightarrow> PrecheckResult \<Rightarrow> nat \<Rightarrow> (ExecuteError, string + ExecuteResult) act" where
  "execute_move guard store check index =
     bindA unix_ms (\<lambda>now.
       let operation_id = op_id now index
       in bindA (append_built store (planned_entry operation_id check)) (\<lambda>_.
          bindA (readA (\<lambda>w. Inr (resolve_existing w guard (pc_from check)))) (\<lambda>resolved.
          case resolved of
            Inl error \<Rightarrow> returnA (Inl (path_guard_error_to_string error))
          | Inr source \<Rightarrow>
              let unchecked = join_path (guard_root guard) (pc_to check)
              in (case parent unchecked of
                    None \<Rightarrow> throwA (ExecuteError.Guard (MissingPath unchecked))
                  | Some dir \<Rightarrow>
                      bindA (map_errA (\<lambda>error. CreateParentDir dir (io_error_to_string error))
                               (create_dir_all dir)) (\<lambda>_.
                      bindA (readA (\<lambda>w. map_err ExecuteError.Guard (resolve_for_create w guard (pc_to check))))
                        (\<lambda>destination.
                      bindA (readA (\<lambda>w. Inr (path_exists w destination))) (\<lambda>present.
                      if present then returnA (Inl ''destination appeared before move; refusing to overwrite'')
                      else
                        bindA (map_errA (\<lambda>error. ExecuteError.Move source destination (io_error_to_string error))
                                 (fs_rename source destination)) (\<lambda>_.
                        bindA (append_built store (executed_entry operation_id check)) (\<lambda>_.
                          returnA (Inr (executed_result check None)))))))))))"

definition pending_planned_operation :: "JournalEntry list \<Rightarrow> string \<Rightarrow> string \<Rightarrow> string option" where
  "pending_planned_operation entries src dst =
     (let completed_ids = set (map je_operation_id
            (filter (\<lambda>e. je_status e \<in> {JournalStatus.Executed, Undone, UndoPlanned}) entries))
      in map_option je_operation_id
           (find (\<lambda>e. je_status e = Planned \<and> je_action e = JournalAction.Move \<and> je_from e = src
                    \<and> je_to e = dst \<and> je_operation_id e \<notin> completed_ids) (rev entries)))"

definition recover_planned_move ::
  "path_guard \<Rightarrow> JournalEntry list \<Rightarrow> JournalStore \<Rightarrow> PrecheckResult
     \<Rightarrow> (ExecuteError, ExecuteResult option) act" where
  "recover_planned_move guard prior_entries store check =
     (if pc_status check \<noteq> MissingSource then returnA None
      else (case pending_planned_operation prior_entries (pc_from check) (pc_to check) of
        None \<Rightarrow> returnA None
      | Some operation_id \<Rightarrow>
          bindA (readA (\<lambda>w. Inr (is_ok (resolve_existing w guard (pc_to check))))) (\<lambda>present.
          if \<not> present then returnA None
          else bindA (append_built store (executed_entry operation_id check)) (\<lambda>_.
                 returnA (Some (executed_result check
                   (Some ''source missing and destination exists; recorded recovered execute'')))))))"

text \<open>One check of the loop: the outcome is a result, or the reason why it is skipped.\<close>

definition execute_check ::
  "(TrashMetadata \<Rightarrow> string + string) \<Rightarrow> path_guard \<Rightarrow> JournalStore \<Rightarrow> JournalEntry list
     \<Rightarrow> nat \<Rightarrow> PrecheckResult \<Rightarrow> (ExecuteError, string option + ExecuteResult) act" where
  "execute_check to_json guard store prior_entries index check =
     (if pc_status check \<noteq> PrecheckStatus.Ready then
        bindA (recover_planned_move guard prior_entries store check) (\<lambda>recovered.
          case recovered of
            Some res \<Rightarrow> returnA (Inr res)
          | None \<Rightarrow> returnA (Inl (pc_reason check)))
      else (case pc_action check of
        ProposalAction.Move \<Rightarrow>
          bindA (execute_move guard store check index) (\<lambda>r. returnA (map_err Some r))
      | ProposalAction.Trash \<Rightarrow>
          bindA (map_errA ExecuteError.Trash (trash_file to_json (guard_root guard) (pc_from check))) (\<lambda>report.
            returnA (Inr \<lparr>er_action = pc_action check, er_from = pc_from check,
                          er_to = tr_trashed_path report, er_status = Executed, er_reason = None\<rparr>))
      | ProposalAction.CreateDir \<Rightarrow>
          bindA (execute_create_dir guard store check index) (\<lambda>r. returnA (map_err Some r))
      | ProposalAction.CreateFile \<Rightarrow>
          bindA (execute_create_file guard store check index) (\<lambda>r. returnA (map_err Some r))
      | ProposalAction.ReadmeWrite \<Rightarrow>
          bindA (execute_readme_write guard store check index) (\<lambda>r. returnA (map_err Some r))))"

fun execute_checks ::
  "(TrashMetadata \<Rightarrow> string + string) \<Rightarrow> path_guard \<Rightarrow> JournalStore \<Rightarrow> JournalEntry list
     \<Rightarrow> (nat \<times> PrecheckResult) list \<Rightarrow> nat \<times> nat \<times> ExecuteResult list
     \<Rightarrow> (ExecuteError, nat \<times> nat \<times> ExecuteResult list) act" where
  "execute_checks to_json guard store prior_entries [] acc = returnA acc"
| "execute_checks to_json guard store prior_entries ((index, check) # checks) (executed, skipped, results) =
     bindA (execute_check to_json guard store prior_entries index check) (\<lambda>outcome.
       case outcome of
         Inr res \<Rightarrow>
           execute_checks to_json guard store prior_entries checks
             (executed + 1, skipped, results @ [res])
       | Inl reason \<Rightarrow>
           execute_checks to_json guard store prior_entries checks
             (executed, skipped + 1, results @ [skipped_result check reason]))"

definition execute_prechecked ::
  "(TrashMetadata \<Rightarrow> string + string) \<Rightarrow> path_guard \<Rightarrow> PrecheckReport \<Rightarrow> (ExecuteError, ExecuteReport) act" where
  "execute_prechecked to_json guard precheck =
     bindA (map_errA ExecuteError.Journal (store_open (guard_root guard))) (\<lambda>store.
     bindA (map_errA ExecuteError.Journal (read_all store)) (\<lambda>prior_entries.
     bindA (execute_checks to_json guard store prior_entries (enumerate 0 (pk_checks precheck)) (0, 0, []))
       (\<lambda>(executed, skipped, results).
         returnA \<lparr>ex_root = pk_root precheck, ex_journal_path = js_db_path store,
                  ex_executed_count = executed, ex_skipped_count = skipped, ex_rejected_count = 0,
                  ex_results = results\<rparr>)))"

definition execute_proposals ::
  "(TrashMetadata \<Rightarrow> string + string) \<Rightarrow> string \<Rightarrow> ProposalReport \<Rightarrow> (ExecuteError, ExecuteReport) act" where
  "execute_proposals to_json root report =
     bindA (readA (\<lambda>w. map_err ExecuteError.Guard (guard_new w root))) (\<lambda>guard.
     bindA (readA (\<lambda>w. map_err ExecuteError.Precheck (precheck_proposals w (guard_root guard) report)))
       (\<lambda>precheck. execute_prechecked to_json guard precheck))"

definition execute_root ::
  "(TrashMetadata \<Rightarrow> string + string) \<Rightarrow> (string \<Rightarrow> string + RuleSet) \<Rightarrow> string \<Rightarrow> world
     \<Rightarrow> ((ExecuteError + ExecuteReport) \<times> world) option" where
  "execute_root to_json parse_rules root w =
     (case guard_new w root of
        Inl error \<Rightarrow> Some (Inl (ExecuteError.Guard error), w)
      | Inr guard \<Rightarrow>
          (case precheck_root parse_rules (guard_root guard) w of
             None \<Rightarrow> None
           | Some (Inl error, w1) \<Rightarrow> Some (Inl (ExecuteError.Precheck error), w1)
           | Some (Inr precheck, w1) \<Rightarrow> Some (execute_prechecked to_json guard precheck w1)))"

definition execute_decision_application ::
  "(TrashMetadata \<Rightarrow> string + string) \<Rightarrow> string \<Rightarrow> DecisionApplication \<Rightarrow> (ExecuteError, ExecuteReport) act" where
  "execute_decision_application to_json root application =
     bindA (execute_proposals to_json root (da_approved application)) (\<lambda>report.
       returnA (report\<lparr>ex_rejected_count := length (da_rejected application),
                       ex_results := ex_results report @ map rejected_result (da_rejected application)\<rparr>))"

section \<open>Safety of the handlers\<close>

lemmas entry_defs = planned_entry_def executed_entry_def execute_journal_entry_def readme_journal_entry_def

lemma append_built_eq:
  "append_built store (bindA unix_ms (\<lambda>now. returnA (e now)))
     = bindA unix_ms (\<lambda>now. map_errA ExecuteError.Journal (append_entry store (e now)))"
  by (simp add: append_built_def bindA_assoc bindA_return)

lemma append_built_frames:
  "keeps no_file_lost (append_built store (execute_journal_entry i s c))"
  "keeps grows (append_built store (execute_journal_entry i s c))"
  "keeps audited (append_built store (execute_journal_entry i s c))"
  "keeps same_fs (append_built store (execute_journal_entry i s c))"
  "keeps stays_wf (append_built store (execute_journal_entry i s c))"
  "keeps grows (append_built store (readme_journal_entry i s a b))"
  "keeps same_fs (append_built store (readme_journal_entry i s a b))"
  unfolding entry_defs append_built_eq
  by (intro files.keeps_rules grows.keeps_rules audited.keeps_rules same_fs.keeps_rules wf.keeps_rules
      same_fs_safe append_frames store_audited clock_same_fs clock_env same_dbs_grows)+

lemma append_built_env: "keeps same_env (append_built store (execute_journal_entry i s c))"
  unfolding entry_defs append_built_eq by (intro env.keeps_rules append_frames clock_env)

lemma append_built_db:
  assumes "append_built store (execute_journal_entry i s c) w = (Inr u, w')"
  shows "w_dbs w' (js_db_path store) \<noteq> None"
  using assms unfolding entry_defs append_built_eq by (auto simp: action_iffs append_ok_iff)

lemma announce_planned:
  assumes "\<And>x. keeps grows (f x)"
  shows "keeps audited (bindA (append_built store (planned_entry i c)) f)"
  unfolding entry_defs append_built_eq bindA_assoc
  by (intro audited.keeps_bind store_audited announce_first assms) simp

lemmas grow_rules = grows.keeps_rules keeps_cases grow_calls append_built_frames
lemmas file_rules = files.keeps_rules keeps_cases clock_files append_built_frames calls_files_create
  create_dir_all_files

lemma create_dir_audited: "keeps audited (execute_create_dir g store c i)"
  unfolding execute_create_dir_def Let_def executed_entry_def
  by (intro audited.keeps_bind store_audited announce_planned grow_rules)

lemma create_file_audited: "keeps audited (execute_create_file g store c i)"
  unfolding execute_create_file_def Let_def executed_entry_def
  by (intro audited.keeps_bind store_audited announce_planned grow_rules)

lemma move_audited: "keeps audited (execute_move g store c i)"
  unfolding execute_move_def Let_def executed_entry_def
  by (intro audited.keeps_bind store_audited announce_planned grow_rules)

lemma create_dir_files: "keeps no_file_lost (execute_create_dir g store c i)"
  unfolding execute_create_dir_def Let_def executed_entry_def planned_entry_def
  by (intro file_rules)

lemma create_file_files: "keeps no_file_lost (execute_create_file g store c i)"
  unfolding execute_create_file_def Let_def executed_entry_def planned_entry_def
  by (intro file_rules)

text \<open>The renaming itself is guarded by the two reads before it.\<close>

lemma guarded_move_files:
  "keeps no_file_lost
     (bindA (readA (\<lambda>w. map_err ExecuteError.Guard (resolve_for_create w g rel))) (\<lambda>d.
      bindA (readA (\<lambda>w. Inr (path_exists w d))) (\<lambda>present.
      if present then returnA (Inl msg)
      else bindA (map_errA (h d) (fs_rename source d)) (\<lambda>_. f))))"
  if f: "keeps no_file_lost f"
proof (rule keepsI)
  fix w r w'
  assume run: "bindA (readA (\<lambda>w. map_err ExecuteError.Guard (resolve_for_create w g rel))) (\<lambda>d.
      bindA (readA (\<lambda>w. Inr (path_exists w d))) (\<lambda>present.
      if present then returnA (Inl msg)
      else bindA (map_errA (h d) (fs_rename source d)) (\<lambda>_. f))) w = (r, w')"
  show "no_file_lost w w'"
  proof (cases "resolve_for_create w g rel")
    case (Inl e)
    with run show ?thesis by (simp add: bindA_def files.refl)
  next
    case (Inr d)
    show ?thesis
    proof (cases "path_exists w d")
      case True
      with run Inr show ?thesis by (simp add: bindA_def files.refl)
    next
      case False
      obtain r1 w1 where mv: "fs_rename source d w = (r1, w1)" by (cases "fs_rename source d w")
      have "no_file_lost w w1"
        using guarded_rename_files [OF mv _ Inr False] by (cases "wf_fs (w_fs w)") (simp_all add: no_file_lost_def)
      moreover have "no_file_lost w1 w'"
        using run Inr False mv keepsD [OF f]
        by (auto simp: bindA_def map_errA_def files.refl split: sum.splits)
      ultimately show ?thesis by (rule files.trans)
    qed
  qed
qed

lemma move_files: "keeps no_file_lost (execute_move g store c i)"
  unfolding execute_move_def Let_def executed_entry_def planned_entry_def
  by (intro guarded_move_files file_rules)

lemma move_env: "keeps same_env (execute_move g store c i)"
  unfolding execute_move_def Let_def executed_entry_def planned_entry_def
  by (intro env.keeps_rules keeps_cases append_built_env clock_env create_dir_all_frames calls_env)

text \<open>The four handlers that never overwrite meet the contract of an operation.\<close>

interpretation move_handler: journaled_handler "\<lambda>(g, store, c, i). execute_move g store c i"
  by unfold_locales (auto simp: move_audited move_files)

interpretation create_dir_handler: journaled_handler "\<lambda>(g, store, c, i). execute_create_dir g store c i"
  by unfold_locales (auto simp: create_dir_audited create_dir_files)

interpretation create_file_handler: journaled_handler "\<lambda>(g, store, c, i). execute_create_file g store c i"
  by unfold_locales (auto simp: create_file_audited create_file_files)

lemma recover_frames:
  "keeps audited (recover_planned_move g prior store c)" "keeps no_file_lost (recover_planned_move g prior store c)"
  "keeps same_fs (recover_planned_move g prior store c)"
  unfolding recover_planned_move_def executed_entry_def
  by (intro audited.keeps_rules files.keeps_rules same_fs.keeps_rules keeps_cases append_built_frames)+

definition readme_ready :: "PrecheckResult \<Rightarrow> bool" where
  "readme_ready c \<longleftrightarrow> pc_status c = PrecheckStatus.Ready \<and> pc_action c = ProposalAction.ReadmeWrite"

lemma check_frames:
  assumes "\<not> readme_ready c"
  shows "keeps audited (execute_check to_json g store prior i c)"
    and "keeps no_file_lost (execute_check to_json g store prior i c)"
proof -
  note trash_run = trash.run_audited [of "(to_json, guard_root g, pc_from c)"]
    trash.run_safe [of "(to_json, guard_root g, pc_from c)"]
  show "keeps audited (execute_check to_json g store prior i c)"
    unfolding execute_check_def using assms trash_run(1)
    by (cases "pc_action c") (auto simp: readme_ready_def intro!: audited.keeps_rules keeps_cases recover_frames
        move_audited create_dir_audited create_file_audited)
  show "keeps no_file_lost (execute_check to_json g store prior i c)"
    unfolding execute_check_def using assms trash_run(2)
    by (cases "pc_action c") (auto simp: readme_ready_def intro!: files.keeps_rules keeps_cases recover_frames
        move_files create_dir_files create_file_files)
qed

context world_frame
begin

lemma keeps_checks:
  assumes "\<And>i c. (i, c) \<in> set checks \<Longrightarrow> keeps R (execute_check to_json g store prior i c)"
  shows "keeps R (execute_checks to_json g store prior checks acc)"
  using assms
proof (induction checks arbitrary: acc)
  case (Cons ic checks)
  obtain i c ex sk rs where eqs: "ic = (i, c)" "acc = (ex, sk, rs)" by (cases ic, cases acc)
  have "keeps R (execute_checks to_json g store prior checks acc')" for acc'
    by (rule Cons.IH) (simp add: Cons.prems)
  then show ?case
    unfolding eqs execute_checks.simps by (intro keeps_bind keeps_case_sum Cons.prems) (simp add: eqs)
qed (simp add: keeps_return)

end

lemma prechecked_frames:
  assumes "\<And>c. c \<in> set (pk_checks precheck) \<Longrightarrow> \<not> readme_ready c"
  shows "keeps audited (execute_prechecked to_json g precheck)"
    and "keeps no_file_lost (execute_prechecked to_json g precheck)"
proof -
  have c: "\<not> readme_ready c" if "(i, c) \<in> set (enumerate 0 (pk_checks precheck))" for i c
    using assms that by (auto simp: in_set_enumerate_eq)
  show "keeps audited (execute_prechecked to_json g precheck)"
    unfolding execute_prechecked_def case_prod_beta
    by (intro audited.keeps_rules store_open_audited store_audited audited.keeps_checks check_frames c)
  show "keeps no_file_lost (execute_prechecked to_json g precheck)"
    unfolding execute_prechecked_def case_prod_beta
    by (intro files.keeps_rules store_open_frames same_fs_safe(2) [OF read_frames(7)] files.keeps_checks
        check_frames c)
qed

lemma precheck_proposals_checks:
  assumes "precheck_proposals w root report = Inr precheck"
  shows "\<exists>g. pk_checks precheck = map (precheck_proposal w g) (pr_proposals report)
    \<and> pk_root precheck = pr_root report \<and> guard_new w root = Inr g"
  using assms by (auto simp: precheck_proposals_def precheck_proposals_with_guard_def bind_res_Inr_iff
      Let_def split: if_splits)

lemma precheck_no_readme:
  assumes "precheck_proposals w root report = Inr precheck"
    and "\<forall>p \<in> set (pr_proposals report). p_action p \<noteq> ProposalAction.ReadmeWrite"
    and "c \<in> set (pk_checks precheck)"
  shows "\<not> readme_ready c"
proof -
  obtain g p where "p \<in> set (pr_proposals report)" "c = precheck_proposal w g p"
    using precheck_proposals_checks [OF assms(1)] assms(3) by auto
  with assms(2) precheck_proposal_about [of p w g] show ?thesis by (auto simp: readme_ready_def about_def)
qed

lemma keeps_read_bind:
  assumes "R w w" and "\<And>x. f w = Inr x \<Longrightarrow> h x w = (r, w') \<Longrightarrow> R w w'"
    and "bindA (readA f) h w = (r, w')"
  shows "R w w'"
  using assms by (auto simp: bindA_def split: sum.splits)

text \<open>A run without README items is audited and loses no regular file.\<close>

lemma application_frames:
  assumes run: "execute_decision_application to_json root application w = (r, w')"
    and no_readme: "\<forall>p \<in> set (pr_proposals (da_approved application)). p_action p \<noteq> ProposalAction.ReadmeWrite"
  shows "audited w w' \<and> no_file_lost w w'"
proof -
  obtain r1 where r1: "execute_proposals to_json root (da_approved application) w = (r1, w')"
    using run by (auto simp: execute_decision_application_def bindA_def split: prod.splits sum.splits)
  then show ?thesis
    unfolding execute_proposals_def
  proof (rule keeps_read_bind [rotated 2])
    show "audited w w \<and> no_file_lost w w" by (simp add: audited.refl files.refl)
    fix g assume "bindA (readA (\<lambda>w. map_err ExecuteError.Precheck
        (precheck_proposals w (guard_root g) (da_approved application))))
      (execute_prechecked to_json g) w = (r1, w')"
    then show "audited w w' \<and> no_file_lost w w'"
    proof (rule keeps_read_bind [rotated 2])
      show "audited w w \<and> no_file_lost w w" by (simp add: audited.refl files.refl)
      fix pre assume "map_err ExecuteError.Precheck
          (precheck_proposals w (guard_root g) (da_approved application)) = Inr pre"
        and go: "execute_prechecked to_json g pre w = (r1, w')"
      then have "precheck_proposals w (guard_root g) (da_approved application) = Inr pre" by simp
      then have "\<not> readme_ready c" if "c \<in> set (pk_checks pre)" for c
        using precheck_no_readme no_readme that by blast
      then show "audited w w' \<and> no_file_lost w w'" using keepsD [OF prechecked_frames(1) go]
        keepsD [OF prechecked_frames(2) go] by blast
    qed
  qed
qed

text \<open>C2: carrying out an approved report, with its rejections, under any fault schedule: the tree stays
  well-formed, every regular file that existed still exists with its content and attributes, every journal only
  grows, and nothing that existed is changed, moved or removed before a plan is journaled. The README handler,
  which replaces a file after copying it, is the one exception and is treated apart.\<close>

theorem execute_decisions_safe:
  assumes run: "execute_decision_application to_json root application w = (r, w')" and wf: "wf_fs (w_fs w)"
    and no_readme: "\<forall>p \<in> set (pr_proposals (da_approved application)). p_action p \<noteq> ProposalAction.ReadmeWrite"
  shows "wf_fs (w_fs w') \<and> file_nodes (w_fs w) \<subseteq># file_nodes (w_fs w')
    \<and> prefix (journal_of w path) (journal_of w' path)
    \<and> (announced w w' \<or> (\<forall>k. map_of (w_fs w) k \<noteq> None \<longrightarrow> map_of (w_fs w') k = map_of (w_fs w) k))"
  using application_frames [OF run no_readme] wf
  by (auto simp: audited_def grows_def kept_def no_file_lost_def)

text \<open>What a run reports.\<close>

definition reported :: "PrecheckResult \<Rightarrow> ExecuteResult \<Rightarrow> bool" where
  "reported c res \<longleftrightarrow> er_action res = pc_action c \<and> er_from res = pc_from c \<and> er_status res \<noteq> Rejected"

definition done_as :: "PrecheckResult \<Rightarrow> 'r + ExecuteResult \<Rightarrow> bool" where
  "done_as c out \<longleftrightarrow> (\<forall>res. out = Inr res \<longrightarrow> reported c res \<and> er_status res = Executed)"

lemma done_as_simps: "done_as c (Inl e)" "done_as c (Inr (executed_result c reason))"
  "done_as c (map_err Some out) \<longleftrightarrow> done_as c out"
  by (auto simp: done_as_def executed_result_def reported_def map_err_def split: sum.splits)

lemma handlers_yield:
  "yields (done_as c) (execute_move g store c i)" "yields (done_as c) (execute_create_dir g store c i)"
  "yields (done_as c) (execute_create_file g store c i)" "yields (done_as c) (execute_readme_write g store c i)"
proof -
  show "yields (done_as c) (execute_readme_write g store c i)"
  proof (cases "pc_from c = README")
    case True
    then have "done_as c (Inr \<lparr>er_action = pc_action c, er_from = README, er_to = README,
        er_status = Executed, er_reason = None\<rparr>)" by (simp add: done_as_def reported_def)
    then show ?thesis
      unfolding execute_readme_write_def Let_def by (intro yields_rules done_as_simps)
  qed (simp add: execute_readme_write_def yields_basic done_as_simps)
qed (unfold execute_move_def execute_create_dir_def execute_create_file_def Let_def,
    (intro yields_rules done_as_simps)+)

lemma check_yields: "yields (done_as c) (execute_check to_json g store prior i c)"
proof -
  have recover: "yields (\<lambda>x. \<forall>res. x = Some res \<longrightarrow> done_as c (Inr res :: string option + ExecuteResult))
      (recover_planned_move g prior store c)"
    unfolding recover_planned_move_def by (intro yields_rules) (simp_all add: done_as_simps)
  have lift: "yields (done_as c) (bindA m (\<lambda>r. returnA (map_err Some r)))"
    if "yields (done_as c) m" for m :: "(ExecuteError, string + ExecuteResult) act"
    using that by (rule yields_then) (simp add: yields_basic done_as_simps)
  show ?thesis
  proof (cases "pc_status c = PrecheckStatus.Ready")
    case True
    then show ?thesis
      unfolding execute_check_def
      by (cases "pc_action c") (simp_all add: lift handlers_yield yields_bind yields_basic done_as_def reported_def)
  next
    case False
    have "yields (done_as c) (bindA (recover_planned_move g prior store c) (\<lambda>recovered.
        case recovered of Some res \<Rightarrow> returnA (Inr res) | None \<Rightarrow> returnA (Inl (pc_reason c))))"
      using recover by (rule yields_then) (auto simp: yields_basic done_as_simps split: option.split)
    with False show ?thesis by (simp add: execute_check_def)
  qed
qed

lemma outcome_reported:
  assumes "execute_check to_json g store prior i c w = (Inr (Inr res), w')"
  shows "reported c res \<and> er_status res = Executed"
  using yieldsD [OF check_yields assms] by (simp add: done_as_def)

lemma skipped_reported: "reported c (skipped_result c reason)" "er_status (skipped_result c reason) = Skipped"
  by (simp_all add: reported_def skipped_result_def)

lemma checks_accounted:
  assumes "execute_checks to_json g store prior checks (ex, sk, rs) w = (Inr (ex', sk', rs'), w')"
  shows "\<exists>new. rs' = rs @ new \<and> list_all2 reported (map snd checks) new
    \<and> ex' = ex + length (filter (\<lambda>r. er_status r = Executed) new)
    \<and> sk' = sk + length (filter (\<lambda>r. er_status r = Skipped) new)"
  using assms
proof (induction checks arbitrary: ex sk rs w)
  case (Cons ic checks)
  obtain i c where ic: "ic = (i, c)" by (cases ic)
  obtain out w1 where out: "execute_check to_json g store prior i c w = (Inr out, w1)"
    using Cons.prems by (auto simp: ic action_iffs)
  define res where "res = (case out of Inr x \<Rightarrow> x | Inl reason \<Rightarrow> skipped_result c reason)"
  have res: "reported c res" "er_status res = Executed \<longleftrightarrow> (\<exists>x. out = Inr x)"
      "er_status res = Skipped \<longleftrightarrow> (\<exists>x. out = Inl x)"
    using outcome_reported [of to_json g store prior i c w _ w1] out skipped_reported
    by (cases out; auto simp: res_def)+
  have "execute_checks to_json g store prior checks
      (if \<exists>x. out = Inr x then ex + 1 else ex, if \<exists>x. out = Inl x then sk + 1 else sk, rs @ [res]) w1
        = (Inr (ex', sk', rs'), w')"
    using Cons.prems out by (cases out) (simp_all add: ic res_def)
  from Cons.IH [OF this] obtain new where "rs' = (rs @ [res]) @ new" "list_all2 reported (map snd checks) new"
    "ex' = (if \<exists>x. out = Inr x then ex + 1 else ex) + length (filter (\<lambda>r. er_status r = Executed) new)"
    "sk' = (if \<exists>x. out = Inl x then sk + 1 else sk) + length (filter (\<lambda>r. er_status r = Skipped) new)"
    by blast
  with res ic show ?case by (intro exI [of _ "res # new"]) simp
qed simp

lemma application_accounts:
  assumes "execute_decision_application to_json root application w = (Inr rep, w')"
  shows "\<exists>own. ex_results rep = own @ map rejected_result (da_rejected application)
    \<and> map (\<lambda>r. (er_action r, er_from r)) own
        = map (\<lambda>p. (p_action p, p_from p)) (pr_proposals (da_approved application))
    \<and> ex_executed_count rep = length (filter (\<lambda>r. er_status r = Executed) own)
    \<and> ex_skipped_count rep = length (filter (\<lambda>r. er_status r = Skipped) own)
    \<and> ex_executed_count rep + ex_skipped_count rep = length (pr_proposals (da_approved application))
    \<and> ex_rejected_count rep = length (da_rejected application)
    \<and> ex_root rep = pr_root (da_approved application)"
proof -
  let ?ps = "pr_proposals (da_approved application)"
  obtain g pre rep1 where pre: "precheck_proposals w (guard_root g) (da_approved application) = Inr pre"
    and go: "execute_prechecked to_json g pre w = (Inr rep1, w')"
    and rep: "rep = rep1\<lparr>ex_rejected_count := length (da_rejected application),
        ex_results := ex_results rep1 @ map rejected_result (da_rejected application)\<rparr>"
    using assms by (auto simp: execute_decision_application_def execute_proposals_def action_iffs)
  obtain h where checks: "pk_checks pre = map (precheck_proposal w h) ?ps" "pk_root pre = pr_root (da_approved application)"
    using precheck_proposals_checks [OF pre] by blast
  obtain store prior w1 ex sk rs where
    run: "execute_checks to_json g store prior (enumerate 0 (pk_checks pre)) (0, 0, []) w1 = (Inr (ex, sk, rs), w')"
    and rep1: "rep1 = \<lparr>ex_root = pk_root pre, ex_journal_path = js_db_path store, ex_executed_count = ex,
      ex_skipped_count = sk, ex_rejected_count = 0, ex_results = rs\<rparr>"
    using go by (auto simp: execute_prechecked_def action_iffs)
  have rs: "list_all2 reported (map (precheck_proposal w h) ?ps) rs"
    "ex = length (filter (\<lambda>r. er_status r = Executed) rs)" "sk = length (filter (\<lambda>r. er_status r = Skipped) rs)"
    using checks_accounted [OF run] checks(1) by simp_all
  have same: "map (\<lambda>r. (er_action r, er_from r)) rs = map (\<lambda>p. (p_action p, p_from p)) ?ps"
    using rs(1) precheck_proposal_about [of _ w h]
    by (auto simp: list_all2_conv_all_nth reported_def about_def intro!: nth_equalityI)
  have "er_status r = Executed \<or> er_status r = Skipped" if "r \<in> set rs" for r
    using that rs(1) by (cases "er_status r") (auto simp: list_all2_conv_all_nth reported_def in_set_conv_nth)
  then have "filter (\<lambda>r. er_status r = Skipped) rs = filter (\<lambda>r. \<not> er_status r = Executed) rs"
    by (intro filter_cong refl) force
  then have "ex + sk = length rs" using rs(2,3) sum_length_filter_compl [of "\<lambda>r. er_status r = Executed" rs] by simp
  moreover have "length rs = length ?ps" using list_all2_lengthD [OF rs(1)] by simp
  ultimately show ?thesis using rep rep1 rs(2,3) same checks(2) by (intro exI [of _ rs]) simp
qed

text \<open>a completed run accounts for every approved proposal and every rejection, in order. The report lists
  one result per approved proposal (same action and source) followed by one per rejected proposal; the executed
  and skipped counters are the numbers of results with that status and add up to the number of approved
  proposals; the rejected counter is the number of rejections.\<close>

theorem execute_report_accounts:
  assumes "execute_decision_application to_json root application w = (Inr rep, w')"
  shows "\<exists>own. ex_results rep = own @ map rejected_result (da_rejected application)
    \<and> map (\<lambda>r. (er_action r, er_from r)) own
        = map (\<lambda>p. (p_action p, p_from p)) (pr_proposals (da_approved application))
    \<and> ex_executed_count rep = length (filter (\<lambda>r. er_status r = Executed) own)
    \<and> ex_skipped_count rep = length (filter (\<lambda>r. er_status r = Skipped) own)
    \<and> ex_executed_count rep + ex_skipped_count rep = length (pr_proposals (da_approved application))
    \<and> ex_rejected_count rep = length (da_rejected application)
    \<and> ex_root rep = pr_root (da_approved application)"
  using assms by (rule application_accounts)

definition sample_application :: DecisionApplication where
  "sample_application =
     \<lparr>da_approved = \<lparr>pr_root = ''/home/box'', pr_proposals = [sample_proposal ''m1'' ''notes.pdf'']\<rparr>,
      da_rejected = [\<lparr>rj_proposal = sample_proposal ''m2'' ''other.pdf'', rj_reason = ''keep it''\<rparr>]\<rparr>"

lemma sample_application_runs:
  obtains rep w' where "execute_decision_application sample_to_json ''/home/box'' sample_application early_world
    = (Inr rep, w')"
proof -
  let ?run = "execute_decision_application sample_to_json ''/home/box'' sample_application early_world"
  have "is_ok (fst ?run)" by code_simp
  then show thesis using that by (cases ?run; cases "fst ?run") (auto simp: is_ok_def)
qed

theorem execute_decisions_safe_witness:
  "\<exists>rep w'. execute_decision_application sample_to_json ''/home/box'' sample_application early_world = (Inr rep, w')
     \<and> file_nodes sample_fs \<subseteq># file_nodes (w_fs w')"
proof -
  obtain rep w' where run: "execute_decision_application sample_to_json ''/home/box'' sample_application early_world
    = (Inr rep, w')" using sample_application_runs .
  moreover have "wf_fs (w_fs early_world)" using sample_wf by (simp add: early_world_def)
  moreover have "w_fs early_world = sample_fs" by (simp add: early_world_def sample_world_def)
  ultimately show ?thesis
    using execute_decisions_safe [OF run] by (auto simp: sample_application_def sample_proposal_def)
qed

theorem execute_report_accounts_witness:
  "\<exists>rep w'. execute_decision_application sample_to_json ''/home/box'' sample_application early_world = (Inr rep, w')
     \<and> ex_executed_count rep + ex_skipped_count rep = 1 \<and> ex_rejected_count rep = 1"
proof -
  obtain rep w' where run: "execute_decision_application sample_to_json ''/home/box'' sample_application early_world
    = (Inr rep, w')" using sample_application_runs .
  then show ?thesis using execute_report_accounts [OF run] by (auto simp: sample_application_def)
qed

section \<open>Recovering a crashed move\<close>

text \<open>A planned move that no later event of the same operation followed.\<close>

definition unfinished_move :: "JournalEntry list \<Rightarrow> string \<Rightarrow> string \<Rightarrow> JournalEntry \<Rightarrow> bool" where
  "unfinished_move es src dst e \<longleftrightarrow> e \<in> set es \<and> je_status e = Planned \<and> je_action e = JournalAction.Move
     \<and> je_from e = src \<and> je_to e = dst
     \<and> (\<forall>d \<in> set es. je_operation_id d = je_operation_id e \<longrightarrow> je_status d = Planned)"

lemma unfinished_move_iff:
  "unfinished_move es src dst e \<longleftrightarrow> e \<in> set es \<and> je_status e = Planned \<and> je_action e = JournalAction.Move
     \<and> je_from e = src \<and> je_to e = dst \<and> je_operation_id e \<notin> set (map je_operation_id
        (filter (\<lambda>e. je_status e \<in> {JournalStatus.Executed, Undone, UndoPlanned}) es))"
proof -
  have "je_status d = Planned \<longleftrightarrow> je_status d \<notin> {JournalStatus.Executed, Undone, UndoPlanned}" for d :: JournalEntry
    by (cases "je_status d") simp_all
  then show ?thesis unfolding unfinished_move_def by (auto simp: image_iff)
qed

lemma find_found: "find P xs = Some x \<Longrightarrow> x \<in> set xs \<and> P x"
  by (induction xs) (auto split: if_splits)

lemma pending_Some:
  "pending_planned_operation es src dst = Some i \<Longrightarrow> \<exists>e. unfinished_move es src dst e \<and> je_operation_id e = i"
  by (auto simp: pending_planned_operation_def unfinished_move_iff Let_def dest!: find_found)

lemma pending_None:
  "pending_planned_operation es src dst = None \<longleftrightarrow> (\<forall>e. \<not> unfinished_move es src dst e)"
  by (auto simp: pending_planned_operation_def unfinished_move_iff find_None_iff Let_def)

lemma append_built_ok:
  assumes "append_built store (execute_journal_entry i s c) w = (Inr u, w')"
  obtains row now where "records \<lparr>je_operation_id = i, je_status = s, je_action = journal_action_of (pc_action c),
      je_from = pc_from c, je_to = pc_to c, je_created_unix_ms = now\<rparr> row"
    "w_fs w' = w_fs w" "journal_of w' = (journal_of w)(js_db_path store := journal_of w (js_db_path store) @ [row])"
proof -
  obtain now w1 where clk: "(unix_ms :: (ExecuteError, nat) act) w = (Inr now, w1)"
    and app: "append_entry store \<lparr>je_operation_id = i, je_status = s, je_action = journal_action_of (pc_action c),
      je_from = pc_from c, je_to = pc_to c, je_created_unix_ms = now\<rparr> w1 = (Inr u, w')"
    using assms unfolding execute_journal_entry_def append_built_eq by (auto simp: action_iffs)
  have "w_fs w1 = w_fs w" "journal_of w1 = journal_of w"
    using keepsD [OF clock_same_fs(1) clk] keepsD [OF clock_same_fs(3) clk]
    by (simp_all add: same_fs_def same_journals_def)
  with append_journal [OF app] that show thesis by metis
qed

lemma append_built_fails:
  assumes "append_built store (execute_journal_entry i s c) w = (Inl x, w')"
  shows "journal_of w' = journal_of w"
proof -
  have "\<exists>e y. append_entry store e (w\<lparr>w_tick := Suc (w_tick w)\<rparr>) = (Inl y, w')"
    using assms unfolding execute_journal_entry_def append_built_eq
    by (auto simp: bindA_def unix_ms_def map_errA_Inl_iff)
  then show ?thesis using append_fail by (force simp: journal_of_def fun_eq_iff)
qed

text \<open>a check that is not ready counts as executed exactly when its source is missing, the journal holds a
  planned move between the same two paths that was neither executed nor undone, and the destination exists inside
  the root. Then no file is touched and the journal gains exactly one row, the execution of such an operation;
  otherwise nothing changes at all.\<close>

theorem recover_planned_move_exact:
  assumes "recover_planned_move g prior store c w = (Inr out, w')"
  shows "w_fs w' = w_fs w
    \<and> (out \<noteq> None \<longleftrightarrow> pc_status c = MissingSource \<and> (\<exists>e. unfinished_move prior (pc_from c) (pc_to c) e)
         \<and> is_ok (resolve_existing w g (pc_to c)))
    \<and> (out = None \<longrightarrow> w' = w)
    \<and> (out \<noteq> None \<longrightarrow> (\<exists>e row. unfinished_move prior (pc_from c) (pc_to c) e
         \<and> journal_of w' (js_db_path store) = journal_of w (js_db_path store) @ [row]
         \<and> row_operation_id row = je_operation_id e \<and> row_status row = status_as_db_str JournalStatus.Executed
         \<and> row_from_path row = pc_from c \<and> row_to_path row = pc_to c))"
proof (cases "pc_status c = MissingSource \<and> pending_planned_operation prior (pc_from c) (pc_to c) \<noteq> None
    \<and> is_ok (resolve_existing w g (pc_to c))")
  case False
  then have "out = None \<and> w' = w"
    using assms by (auto simp: recover_planned_move_def action_iffs split: if_splits option.splits)
  with False show ?thesis by (auto simp: pending_None)
next
  case True
  then obtain i where i: "pending_planned_operation prior (pc_from c) (pc_to c) = Some i" by auto
  obtain e where e: "unfinished_move prior (pc_from c) (pc_to c) e" "je_operation_id e = i"
    using pending_Some [OF i] by blast
  have app: "append_built store (execute_journal_entry i JournalStatus.Executed c) w = (Inr (), w')"
    and out: "out \<noteq> None"
    using assms True i by (auto simp: recover_planned_move_def executed_entry_def action_iffs)
  obtain row now where "records \<lparr>je_operation_id = i, je_status = JournalStatus.Executed,
      je_action = journal_action_of (pc_action c), je_from = pc_from c, je_to = pc_to c, je_created_unix_ms = now\<rparr> row"
    "w_fs w' = w_fs w" "journal_of w' = (journal_of w)(js_db_path store := journal_of w (js_db_path store) @ [row])"
    using append_built_ok [OF app] .
  with True e out show ?thesis by (auto simp: records_def)
qed

definition sample_missing :: PrecheckResult where
  "sample_missing = \<lparr>pc_action = ProposalAction.Move, pc_from = ''gone.txt'', pc_to = ''docs/old.txt'',
     pc_content = None, pc_status = MissingSource, pc_reason = None\<rparr>"

definition sample_prior :: "JournalEntry list" where
  "sample_prior = [\<lparr>je_operation_id = ''op-1-0'', je_status = Planned, je_action = JournalAction.Move,
     je_from = ''gone.txt'', je_to = ''docs/old.txt'', je_created_unix_ms = 1\<rparr>]"

theorem recover_planned_move_exact_witness:
  "\<exists>out w'. recover_planned_move sample_guard sample_prior sample_store sample_missing sample_db_world = (Inr (Some out), w')
     \<and> w_fs w' = w_fs sample_db_world"
proof -
  let ?run = "recover_planned_move sample_guard sample_prior sample_store sample_missing sample_db_world"
  have "case fst ?run of Inr (Some _) \<Rightarrow> True | _ \<Rightarrow> False" by code_simp
  then obtain out w' where run: "?run = (Inr (Some out), w')"
    by (cases ?run) (auto split: sum.splits option.splits)
  with recover_planned_move_exact [OF run] show ?thesis by auto
qed

section \<open>What a move does\<close>

text \<open>The effect of a successful move, with the world in which the destination was resolved.\<close>

lemma execute_move_effect:
  assumes run: "execute_move g store c i w = (Inr (Inr res), w')" and g: "guard_ok w g r"
    and src: "resolve_existing w g (pc_from c) = Inr (path_of_loc l)"
    and l: "map_of (w_fs w) l = Some (RegularFile x a)"
  obtains d w3 row1 row2 where "resolve_for_create w3 g (pc_to c) = Inr (path_of_loc d)" "adds_dirs w w3"
    "\<not> path_exists w3 (path_of_loc d)" "prefix r d" "l \<noteq> d" "map_of (w_fs w3) d = None \<or> is_link (map_of (w_fs w3) d)"
    "map_of (w_fs w') = (map_of (w_fs w3))(l := None, d \<mapsto> RegularFile x a)"
    "journal_of w' = (journal_of w)(js_db_path store := journal_of w (js_db_path store) @ [row1, row2])"
    "row_operation_id row1 = row_operation_id row2" "row_status row1 = status_as_db_str Planned"
    "row_status row2 = status_as_db_str JournalStatus.Executed"
    "row_from_path row1 = pc_from c" "row_to_path row1 = pc_to c"
    "row_from_path row2 = pc_from c" "row_to_path row2 = pc_to c"
    "wf_fs (w_fs w')" "same_env w w'" "w_dbs w' (js_db_path store) \<noteq> None"
proof -
  obtain now w1 w2 where clk: "(unix_ms :: (ExecuteError, nat) act) w = (Inr now, w1)"
    and plan: "append_built store (execute_journal_entry (op_id now i) Planned c) w1 = (Inr (), w2)"
    using run by (auto simp: execute_move_def planned_entry_def Let_def action_iffs)
  obtain row1 t1 where row1: "records \<lparr>je_operation_id = op_id now i, je_status = Planned,
      je_action = journal_action_of (pc_action c), je_from = pc_from c, je_to = pc_to c, je_created_unix_ms = t1\<rparr> row1"
    "w_fs w2 = w_fs w1" "journal_of w2 = (journal_of w1)(js_db_path store := journal_of w1 (js_db_path store) @ [row1])"
    using append_built_ok [OF plan] .
  have w1: "w_fs w1 = w_fs w" "journal_of w1 = journal_of w" "w_cwd w2 = w_cwd w"
    using keepsD [OF clock_same_fs(1) clk] keepsD [OF clock_same_fs(3) clk]
      keepsD [OF clock_env(1) clk] keepsD [OF append_built_env plan]
    by (simp_all add: same_fs_def same_journals_def same_env_def)
  have "resolve_existing w2 g (pc_from c) = Inr (path_of_loc l)"
    using src same_world_resolve [of w2 w] w1 row1(2) by simp
  then obtain dir w3 p w4 where mk: "create_dir_all dir w2 = (Inr (), w3)"
    and p: "resolve_for_create w3 g (pc_to c) = Inr p" "\<not> path_exists w3 p"
    and mv: "fs_rename (path_of_loc l) p w3 = (Inr (), w4)"
    and exe: "append_built store (execute_journal_entry (op_id now i) JournalStatus.Executed c) w4 = (Inr (), w')"
    using run clk plan
    by (auto simp: execute_move_def planned_entry_def executed_entry_def Let_def action_iffs
        split: option.splits if_splits)
  obtain row2 t2 where row2: "records \<lparr>je_operation_id = op_id now i, je_status = JournalStatus.Executed,
      je_action = journal_action_of (pc_action c), je_from = pc_from c, je_to = pc_to c, je_created_unix_ms = t2\<rparr> row2"
    "w_fs w' = w_fs w4" "journal_of w' = (journal_of w4)(js_db_path store := journal_of w4 (js_db_path store) @ [row2])"
    using append_built_ok [OF exe] .
  have wf: "wf_fs (w_fs w)" using g by (simp add: guard_ok_def)
  have "adds_dirs w w2" using w1 row1(2) by (simp add: adds_dirs_def)
  then have ad: "adds_dirs w w3" using keepsD [OF create_dir_all_adds mk] by (rule adds_dirs.trans)
  obtain d where d: "p = path_of_loc d" "prefix r d" "l \<noteq> d"
    "map_of (w_fs w3) d = None \<or> is_link (map_of (w_fs w3) d)"
    "map_of (w_fs w4) = (map_of (w_fs w3))(l := None, d \<mapsto> RegularFile x a)"
    using guarded_rename_moves [OF adds_dirs_guard [OF ad g] p mv adds_dirs_kept [OF ad wf l]] .
  have js: "journal_of w3 = journal_of w2" "journal_of w4 = journal_of w3"
    using keepsD [OF same_dbs_journals [OF create_dir_all_frames(2)] mk] keepsD [OF same_dbs_journals [OF calls_dbs(5)] mv]
    by (simp_all add: same_journals_def)
  have "journal_of w' = (journal_of w)(js_db_path store := journal_of w (js_db_path store) @ [row1, row2])"
    using row2(3) js row1(3) w1(2) by simp
  moreover have "wf_fs (w_fs w')"
    using keepsD [OF move_files run] wf by (simp add: no_file_lost_def)
  moreover have "same_env w w'" using keepsD [OF move_env run] .
  moreover have "w_dbs w' (js_db_path store) \<noteq> None" using append_built_db [OF exe] .
  ultimately show thesis using that [of w3 d row1 row2] p d ad row1(1) row2(1,2) by (simp add: records_def)
qed

definition early_db_world :: world where
  "early_db_world = sample_db_world\<lparr>w_clock := (\<lambda>n. n)\<rparr>"

lemma early_db_facts:
  "w_fs early_db_world = sample_fs" "guard_ok early_db_world sample_guard sample_root"
  using sample_guard_ok by (simp_all add: early_db_world_def sample_db_world_def sample_world_def guard_ok_def)

definition sample_move :: "string \<Rightarrow> PrecheckResult" where
  "sample_move dst = \<lparr>pc_action = ProposalAction.Move, pc_from = ''notes.pdf'', pc_to = dst,
     pc_content = None, pc_status = PrecheckStatus.Ready, pc_reason = None\<rparr>"

text \<open>The destination of a move is created before it is checked. With a destination that leaves the root the
  handler refuses with the guard's traversal error, but a directory outside the managed root has appeared.\<close>

lemma execute_move_creates_outside:
  "\<exists>w' a. execute_move sample_guard sample_store (sample_move ''../stray/notes.pdf'') 0 early_db_world
       = (Inl (ExecuteError.Guard (ParentTraversal ''../stray/notes.pdf'')), w')
     \<and> map_of (w_fs early_db_world) [''home'', ''stray''] = None
     \<and> map_of (w_fs w') [''home'', ''stray''] = Some (node.Directory a)"
proof -
  let ?run = "execute_move sample_guard sample_store (sample_move ''../stray/notes.pdf'') 0 early_db_world"
  have "case ?run of (r, w') \<Rightarrow> r = Inl (ExecuteError.Guard (ParentTraversal ''../stray/notes.pdf''))
      \<and> is_directory (map_of (w_fs w') [''home'', ''stray''])" by code_simp
  moreover have "map_of (w_fs early_db_world) [''home'', ''stray''] = None" by code_simp
  ultimately show ?thesis by (cases ?run) (auto simp: is_directory_iff)
qed

text \<open>C40: a move whose destination has a root or parent component is never performed, whatever fails. It does not
  report a result; no file is touched: all that the tree can gain are directories, which the code makes before it
  checks the destination; and the journal gains at most the plan of the operation, never an execution.\<close>

theorem unsafe_move_refused:
  assumes run: "execute_move g store c i w = (r, w')" and unsafe: "\<not> safe_relative (pc_to c)"
  shows "\<not> (\<exists>res. r = Inr (Inr res)) \<and> adds_dirs w w'
    \<and> (journal_of w' = journal_of w
       \<or> (\<exists>row. journal_of w' = (journal_of w)(js_db_path store := journal_of w (js_db_path store) @ [row])
            \<and> row_status row = status_as_db_str Planned
            \<and> row_from_path row = pc_from c \<and> row_to_path row = pc_to c))"
proof -
  obtain now w1 where clk: "(unix_ms :: (ExecuteError, nat) act) w = (Inr now, w1)"
    by (simp add: unix_ms_def)
  have w1: "w_fs w1 = w_fs w" "journal_of w1 = journal_of w"
    using keepsD [OF clock_same_fs(1) clk] keepsD [OF clock_same_fs(3) clk]
    by (simp_all add: same_fs_def same_journals_def)
  obtain planned w2 where plan: "append_built store (execute_journal_entry (op_id now i) Planned c) w1 = (planned, w2)"
    by (cases "append_built store (execute_journal_entry (op_id now i) Planned c) w1")
  have fs2: "w_fs w2 = w_fs w" using keepsD [OF append_built_frames(4) plan] w1 by (simp add: same_fs_def)
  then have ad2: "adds_dirs w w2" by (simp add: adds_dirs_def)
  show ?thesis
  proof (cases planned)
    case (Inl e)
    then have "r = Inl e \<and> w' = w2"
      using run clk plan by (simp add: execute_move_def planned_entry_def Let_def bindA_def)
    moreover have "journal_of w2 = journal_of w1" using append_built_fails plan Inl by blast
    ultimately show ?thesis using ad2 w1 by simp
  next
    case (Inr u)
    obtain row now' where row: "records \<lparr>je_operation_id = op_id now i, je_status = Planned,
        je_action = journal_action_of (pc_action c), je_from = pc_from c, je_to = pc_to c, je_created_unix_ms = now'\<rparr> row"
      "journal_of w2 = (journal_of w1)(js_db_path store := journal_of w1 (js_db_path store) @ [row])"
      using append_built_ok [OF plan [unfolded Inr]] by metis
    obtain error where "reject_unsafe_components (pc_to c) = Inl error"
      using reject_unsafe_ok [of "pc_to c" "()"] unsafe by (cases "reject_unsafe_components (pc_to c)") auto
    then have no: "resolve_for_create w g (pc_to c) = Inl error" for w by (simp add: resolve_for_create_def)
    have "\<not> (\<exists>res. r = Inr (Inr res)) \<and> (w' = w2 \<or> (\<exists>dir x. create_dir_all dir w2 = (x, w')))"
      using run clk plan Inr no
      by (auto simp: execute_move_def planned_entry_def Let_def action_iffs bindA_def readA_def map_errA_def
          split: sum.splits option.splits prod.splits)
    moreover have "adds_dirs w w'" "journal_of w' = journal_of w2" if "create_dir_all dir w2 = (x, w')" for dir x
      using adds_dirs.trans [OF ad2 keepsD [OF create_dir_all_adds that]]
        keepsD [OF same_dbs_journals [OF create_dir_all_frames(2)] that] by (simp_all add: same_journals_def)
    ultimately show ?thesis using ad2 row w1 by (auto simp: records_def)
  qed
qed

theorem unsafe_move_refused_witness:
  "\<exists>r w' a. execute_move sample_guard sample_store (sample_move ''../stray/notes.pdf'') 0 early_db_world = (r, w')
     \<and> \<not> (\<exists>res. r = Inr (Inr res)) \<and> adds_dirs early_db_world w'
     \<and> map_of (w_fs w') [''home'', ''stray''] = Some (node.Directory a)"
proof -
  obtain w' a where run: "execute_move sample_guard sample_store (sample_move ''../stray/notes.pdf'') 0 early_db_world
      = (Inl (ExecuteError.Guard (ParentTraversal ''../stray/notes.pdf'')), w')"
    and stray: "map_of (w_fs w') [''home'', ''stray''] = Some (node.Directory a)"
    using execute_move_creates_outside by blast
  have "\<not> safe_relative (pc_to (sample_move ''../stray/notes.pdf''))" by code_simp
  from unsafe_move_refused [OF run this] run stray show ?thesis by blast
qed

end
