(* ===== verification/Undo.thy ===== *)
theory Undo
  imports Execute
begin

text \<open>
  \<^verbatim>\<open>undo.rs\<close>: taking executed operations back, newest first. Shown: under any fault schedule an undo run loses
  no file content and journals every change first, it never overwrites, an undone move restores the tree the move
  found, and a request for one operation fails exactly when that operation has nothing left to undo.
\<close>

section \<open>Model\<close>

datatype UndoStatus = Undone | Skipped

record UndoResult =
  ur_from :: string
  ur_to :: string
  ur_status :: UndoStatus
  ur_reason :: "string option"

record UndoReport =
  un_root :: string
  un_journal_path :: string
  un_undone_count :: nat
  un_skipped_count :: nat
  un_results :: "UndoResult list"

datatype UndoError =
    Guard PathGuardError
  | Journal JournalError
  | CreateParentDir string string
  | Move string string string
  | OperationNotUndoable string
  | Serialize string

fun undo_error_to_string :: "UndoError \<Rightarrow> string" where
  "undo_error_to_string (Guard error) = path_guard_error_to_string error"
| "undo_error_to_string (Journal error) = journal_error_to_string error"
| "undo_error_to_string (CreateParentDir path message) =
     ''cannot create original parent '' @ path @ '': '' @ message"
| "undo_error_to_string (Move src dst message) =
     ''cannot move '' @ src @ '' to '' @ dst @ '': '' @ message"
| "undo_error_to_string (OperationNotUndoable operation_id) =
     ''operation is not undoable: '' @ operation_id"
| "undo_error_to_string (Serialize message) = ''cannot serialize undo journal: '' @ message"

definition undo_entry :: "JournalEntry \<Rightarrow> JournalStatus \<Rightarrow> ('e, JournalEntry) act" where
  "undo_entry entry status =
     bindA unix_ms (\<lambda>now.
       returnA \<lparr>je_operation_id = je_operation_id entry, je_status = status, je_action = je_action entry,
                je_from = je_to entry, je_to = je_from entry, je_created_unix_ms = now\<rparr>)"

definition append_undo :: "JournalStore \<Rightarrow> JournalEntry \<Rightarrow> JournalStatus \<Rightarrow> (UndoError, unit) act" where
  "append_undo store entry status =
     bindA (undo_entry entry status) (\<lambda>e. map_errA UndoError.Journal (append_entry store e))"

definition undone_result :: "JournalEntry \<Rightarrow> string option \<Rightarrow> UndoResult" where
  "undone_result entry reason =
     \<lparr>ur_from = je_to entry, ur_to = je_from entry, ur_status = Undone, ur_reason = reason\<rparr>"

definition skipped_undo :: "JournalEntry \<Rightarrow> string option \<Rightarrow> UndoResult" where
  "skipped_undo entry reason =
     \<lparr>ur_from = je_to entry, ur_to = je_from entry, ur_status = Skipped, ur_reason = reason\<rparr>"

definition undo_create_file ::
  "path_guard \<Rightarrow> JournalStore \<Rightarrow> JournalEntry \<Rightarrow> (UndoError, string + UndoResult) act" where
  "undo_create_file guard store entry =
     (let target = join_path (guard_root guard) (je_to entry)
      in bindA (readA (\<lambda>w. Inr (path_exists w target))) (\<lambda>present.
         if \<not> present then
           bindA (append_undo store entry JournalStatus.Undone) (\<lambda>_.
             returnA (Inr (undone_result entry
               (Some ''created file is already missing; recorded recovered undo''))))
         else
           bindA (readA (\<lambda>w. Inr (path_is_file w target))) (\<lambda>is_file.
           if \<not> is_file then returnA (Inl ''created path is no longer a file; refusing undo'')
           else
             bindA (readA (\<lambda>w. Inr (case fs_metadata w target of Inl _ \<Rightarrow> 1 | Inr m \<Rightarrow> m_len m))) (\<lambda>len.
             if len \<noteq> 0 then returnA (Inl ''created file is no longer empty; refusing to delete user data'')
             else
               bindA (append_undo store entry UndoPlanned) (\<lambda>_.
               bindA (map_errA (\<lambda>error. UndoError.Move target target (io_error_to_string error))
                        (fs_remove_file target)) (\<lambda>_.
               bindA (append_undo store entry JournalStatus.Undone) (\<lambda>_.
                 returnA (Inr (undone_result entry None)))))))))"

definition undo_create_dir ::
  "path_guard \<Rightarrow> JournalStore \<Rightarrow> JournalEntry \<Rightarrow> (UndoError, string + UndoResult) act" where
  "undo_create_dir guard store entry =
     (let target = join_path (guard_root guard) (je_to entry)
      in bindA (readA (\<lambda>w. Inr (path_exists w target))) (\<lambda>present.
         if \<not> present then
           bindA (append_undo store entry JournalStatus.Undone) (\<lambda>_.
             returnA (Inr (undone_result entry
               (Some ''created directory is already missing; recorded recovered undo''))))
         else
           bindA (readA (\<lambda>w. Inr (path_is_dir w target))) (\<lambda>is_dir.
           if \<not> is_dir then returnA (Inl ''created path is no longer a directory; refusing undo'')
           else
             bindA (readA (\<lambda>w. Inr (case read_dir w target of Inl _ \<Rightarrow> True | Inr entries \<Rightarrow> entries \<noteq> [])))
               (\<lambda>occupied.
             if occupied then returnA (Inl ''created directory is not empty; refusing to delete user data'')
             else
               bindA (append_undo store entry UndoPlanned) (\<lambda>_.
               bindA (map_errA (\<lambda>error. UndoError.Move target target (io_error_to_string error))
                        (fs_remove_dir target)) (\<lambda>_.
               bindA (append_undo store entry JournalStatus.Undone) (\<lambda>_.
                 returnA (Inr (undone_result entry None)))))))))"

definition undo_readme_write ::
  "path_guard \<Rightarrow> JournalStore \<Rightarrow> JournalEntry \<Rightarrow> (UndoError, string + UndoResult) act" where
  "undo_readme_write guard store entry =
     (if je_to entry \<noteq> README then
        returnA (Inl ''README write journal target is not README.md; refusing undo'')
      else
        let target = join_path (guard_root guard) README;
            backup = join_path (guard_root guard) (je_from entry);
            absent = with_extension backup ''absent''
        in bindA (append_undo store entry UndoPlanned) (\<lambda>_.
           bindA (readA (\<lambda>w. Inr (path_exists w backup, path_exists w absent, path_exists w target)))
             (\<lambda>(saved, marked, present).
             if saved then
               bindA (map_errA (\<lambda>error. UndoError.Move backup target (io_error_to_string error))
                        (fs_copy backup target)) (\<lambda>_.
               bindA (append_undo store entry JournalStatus.Undone) (\<lambda>_.
                 returnA (Inr (undone_result entry None))))
             else if marked then
               bindA (if present
                      then map_errA (\<lambda>error. UndoError.Move target absent (io_error_to_string error))
                             (fs_remove_file target)
                      else returnA ()) (\<lambda>_.
               bindA (append_undo store entry JournalStatus.Undone) (\<lambda>_.
                 returnA (Inr (undone_result entry None))))
             else returnA (Inl ''README write backup is missing; refusing undo''))))"

text \<open>The part of the loop body for moves and for files in the trash.\<close>

definition undo_move ::
  "path_guard \<Rightarrow> JournalStore \<Rightarrow> JournalEntry \<Rightarrow> (UndoError, string + UndoResult) act" where
  "undo_move guard store entry =
     bindA (readA (\<lambda>w. Inr (resolve_existing w guard (je_to entry)))) (\<lambda>resolved.
     case resolved of
       Inl error \<Rightarrow>
         bindA (readA (\<lambda>w. Inr (is_ok (resolve_existing w guard (je_from entry))))) (\<lambda>restored.
         if restored then
           bindA (append_undo store entry JournalStatus.Undone) (\<lambda>_.
             returnA (Inr (undone_result entry
               (Some ''destination missing and original path exists; recorded recovered undo''))))
         else returnA (Inl (path_guard_error_to_string error)))
     | Inr current_path \<Rightarrow>
         let unchecked = join_path (guard_root guard) (je_from entry)
         in (case parent unchecked of
               None \<Rightarrow> throwA (UndoError.Guard (MissingPath unchecked))
             | Some dir \<Rightarrow>
                 bindA (map_errA (\<lambda>error. UndoError.CreateParentDir dir (io_error_to_string error))
                          (create_dir_all dir)) (\<lambda>_.
                 bindA (readA (\<lambda>w. map_err UndoError.Guard (resolve_for_create w guard (je_from entry))))
                   (\<lambda>original_path.
                 bindA (readA (\<lambda>w. Inr (path_exists w original_path))) (\<lambda>present.
                 if present then returnA (Inl ''original path already exists; refusing to overwrite'')
                 else
                   bindA (append_undo store entry UndoPlanned) (\<lambda>_.
                   bindA (map_errA (\<lambda>error. UndoError.Move current_path original_path (io_error_to_string error))
                            (fs_rename current_path original_path)) (\<lambda>_.
                   bindA (append_undo store entry JournalStatus.Undone) (\<lambda>_.
                     returnA (Inr (undone_result entry None))))))))))"

definition undo_one ::
  "path_guard \<Rightarrow> JournalStore \<Rightarrow> JournalEntry \<Rightarrow> (UndoError, string + UndoResult) act" where
  "undo_one guard store entry =
     (if je_action entry = JournalAction.CreateDir then undo_create_dir guard store entry
      else if je_action entry = JournalAction.CreateFile then undo_create_file guard store entry
      else if je_action entry = JournalAction.ReadmeWrite then undo_readme_write guard store entry
      else undo_move guard store entry)"

text \<open>The two conditions under which the loop passes an entry by.\<close>

definition undo_selected :: "string option \<Rightarrow> string set \<Rightarrow> JournalEntry \<Rightarrow> bool" where
  "undo_selected only undone_ids entry \<longleftrightarrow>
     \<not> (case only of None \<Rightarrow> False | Some operation_id \<Rightarrow> operation_id \<noteq> je_operation_id entry)
     \<and> \<not> (je_status entry \<noteq> JournalStatus.Executed
          \<or> je_action entry \<notin> {JournalAction.Move, JournalAction.Trash, JournalAction.CreateDir,
                                 JournalAction.CreateFile, JournalAction.ReadmeWrite}
          \<or> je_operation_id entry \<in> undone_ids)"

fun undo_entries ::
  "path_guard \<Rightarrow> JournalStore \<Rightarrow> string option \<Rightarrow> string set \<Rightarrow> JournalEntry list
     \<Rightarrow> nat \<times> nat \<times> UndoResult list \<Rightarrow> (UndoError, nat \<times> nat \<times> UndoResult list) act" where
  "undo_entries guard store only undone_ids [] acc = returnA acc"
| "undo_entries guard store only undone_ids (entry # entries) (undone, skipped, results) =
     (if \<not> undo_selected only undone_ids entry then
        undo_entries guard store only undone_ids entries (undone, skipped, results)
      else
        bindA (undo_one guard store entry) (\<lambda>outcome.
          case outcome of
            Inr res \<Rightarrow>
              undo_entries guard store only undone_ids entries (undone + 1, skipped, results @ [res])
          | Inl reason \<Rightarrow>
              undo_entries guard store only undone_ids entries
                (undone, skipped + 1, results @ [skipped_undo entry (Some reason)])))"

definition undone_ids_of :: "JournalEntry list \<Rightarrow> string set" where
  "undone_ids_of entries =
     set (map je_operation_id (filter (\<lambda>entry. je_status entry = JournalStatus.Undone) entries))"

definition undo_rest ::
  "path_guard \<Rightarrow> string option \<Rightarrow> JournalStore \<Rightarrow> JournalEntry list \<Rightarrow> (UndoError, UndoReport) act" where
  "undo_rest guard only store entries =
     bindA (undo_entries guard store only (undone_ids_of entries) (rev entries) (0, 0, []))
       (\<lambda>(undone, skipped, results).
       let report = \<lparr>un_root = guard_root guard, un_journal_path = js_db_path store,
                     un_undone_count = undone, un_skipped_count = skipped, un_results = results\<rparr>
       in case only of
            None \<Rightarrow> returnA report
          | Some operation_id \<Rightarrow>
              if results = [] then throwA (OperationNotUndoable operation_id) else returnA report)"

definition undo_with_filter :: "string \<Rightarrow> string option \<Rightarrow> (UndoError, UndoReport) act" where
  "undo_with_filter root only =
     bindA (readA (\<lambda>w. map_err UndoError.Guard (guard_new w root))) (\<lambda>guard.
     bindA (map_errA UndoError.Journal (store_open (guard_root guard))) (\<lambda>store.
     bindA (map_errA UndoError.Journal (read_all store)) (undo_rest guard only store)))"

definition undo_root :: "string \<Rightarrow> (UndoError, UndoReport) act" where
  "undo_root root = undo_with_filter root None"

definition undo_operation :: "string \<Rightarrow> string \<Rightarrow> (UndoError, UndoReport) act" where
  "undo_operation root operation_id = undo_with_filter root (Some operation_id)"

section \<open>Frames\<close>

lemma append_undo_eq:
  "append_undo store e s = bindA unix_ms (\<lambda>now. map_errA UndoError.Journal (append_entry store
     \<lparr>je_operation_id = je_operation_id e, je_status = s, je_action = je_action e, je_from = je_to e,
      je_to = je_from e, je_created_unix_ms = now\<rparr>))"
  by (simp add: append_undo_def undo_entry_def bindA_assoc bindA_return)

lemma append_undo_frames:
  "keeps same_fs (append_undo store e s)" "keeps same_env (append_undo store e s)"
  "keeps grows (append_undo store e s)" "keeps audited (append_undo store e s)"
  "keeps no_file_lost (append_undo store e s)" "keeps stays_wf (append_undo store e s)"
  unfolding append_undo_eq
  by (intro files.keeps_rules grows.keeps_rules audited.keeps_rules same_fs.keeps_rules wf.keeps_rules
      env.keeps_rules same_fs_safe append_frames store_audited clock_same_fs clock_env same_dbs_grows)+

lemma announce_undo:
  assumes "\<And>x. keeps grows (f x)"
  shows "keeps audited (bindA (append_undo store e UndoPlanned) f)"
  unfolding append_undo_eq bindA_assoc by (intro audited.keeps_bind store_audited announce_first assms) simp

lemmas undo_grows = grows.keeps_rules keeps_cases grow_calls append_undo_frames
lemmas undo_audits = audited.keeps_rules keeps_cases append_undo_frames announce_undo create_dir_all_audited

lemma undo_handlers_audited:
  "keeps audited (undo_create_file g store e)" "keeps audited (undo_create_dir g store e)"
  "keeps audited (undo_readme_write g store e)" "keeps audited (undo_move g store e)"
proof -
  show "keeps audited (undo_create_file g store e)"
    unfolding undo_create_file_def Let_def by (intro announce_undo undo_audits; intro undo_grows)
  show "keeps audited (undo_create_dir g store e)"
    unfolding undo_create_dir_def Let_def by (intro announce_undo undo_audits; intro undo_grows)
  show "keeps audited (undo_readme_write g store e)"
    unfolding undo_readme_write_def Let_def case_prod_beta by (intro announce_undo keeps_if audited.keeps_return undo_grows)
  show "keeps audited (undo_move g store e)"
    unfolding undo_move_def Let_def by (intro announce_undo undo_audits; intro undo_grows)
qed

text \<open>The regular files with content. Undoing a creation deletes a file, but only an empty one.\<close>

definition data_nodes :: "fs \<Rightarrow> node multiset" where
  "data_nodes t = filter_mset (\<lambda>n. is_regular (Some n) \<and> node_len n \<noteq> 0) (mset (map snd t))"

definition no_data_lost :: "world \<Rightarrow> world \<Rightarrow> bool" where
  "no_data_lost w w' \<longleftrightarrow> (wf_fs (w_fs w) \<longrightarrow>
     wf_fs (w_fs w') \<and> data_nodes (w_fs w) \<subseteq># data_nodes (w_fs w'))"

interpretation data: world_frame no_data_lost
  by unfold_locales (auto simp: no_data_lost_def intro: subset_mset.order_trans)

lemma files_data: "no_file_lost w w' \<Longrightarrow> no_data_lost w w'"
proof -
  have "data_nodes t = filter_mset (\<lambda>n. node_len n \<noteq> 0) (file_nodes t)" for t
    by (simp add: data_nodes_def file_nodes_def filter_filter_mset conj_commute)
  then show "no_file_lost w w' \<Longrightarrow> no_data_lost w w'"
    by (auto simp: no_file_lost_def no_data_lost_def intro: multiset_filter_mono)
qed

lemma keeps_files_data: "keeps no_file_lost m \<Longrightarrow> keeps no_data_lost m"
  by (erule keeps_mono) (rule files_data)

lemma remove_dir_files: "keeps no_file_lost (fs_remove_dir p)"
  using calls_wf_remove(2) [of p] unfolding fs_remove_dir_def
proof (rule keeps_files_syscall)
  fix w t
  assume "(case resolve w False p of Inl e \<Rightarrow> Inl e
      | Inr (l, node.Directory _) \<Rightarrow> if has_child (w_fs w) l then Inl DirectoryNotEmpty
          else if l = [] then Inl InvalidInput else Inr (fs_remove l (w_fs w))
      | Inr (l, _) \<Rightarrow> Inl NotADirectory) = Inr t" and wf: "wf_fs (w_fs w)"
  then obtain l a where r: "resolve w False p = Inr (l, node.Directory a)" and t: "t = fs_remove l (w_fs w)"
    by (auto split: sum.splits node.splits if_splits)
  show "file_nodes (w_fs w) \<subseteq># file_nodes t"
    using file_nodes_remove_other [OF _ wf_fs_distinct [OF wf], of l] resolve_lookup [OF r] t by simp
qed

text \<open>A removed file that was seen empty through the same text just before.\<close>

lemma remove_empty_file:
  assumes run: "fs_remove_file p w = (r, w')"
    and empty: "\<And>m. fs_metadata w p = Inr m \<Longrightarrow> m_is_file m \<Longrightarrow> m_len m = 0"
  shows "no_data_lost w w'"
  unfolding no_data_lost_def
proof (intro impI conjI)
  assume wf: "wf_fs (w_fs w)"
  show "wf_fs (w_fs w')" using keepsD [OF calls_wf_remove(1) run] wf by (simp add: stays_wf_def)
  show "data_nodes (w_fs w) \<subseteq># data_nodes (w_fs w')"
  proof (cases r)
    case (Inl e)
    with run show ?thesis unfolding fs_remove_file_def by (auto dest!: syscall_Inl)
  next
    case (Inr u)
    with run obtain l n where l: "resolve w False p = Inr (l, n)" "w_fs w' = fs_remove l (w_fs w)"
      unfolding fs_remove_file_def by (auto dest!: syscall_Inr split: sum.splits node.splits prod.splits)
    have "node_len n = 0" if reg: "is_regular (Some n)"
    proof -
      have "\<not> is_link (Some n)" using reg by (auto simp: is_link_iff)
      then have "fs_metadata w p = Inr (node_metadata n)"
        using resolve_no_link [OF l(1)] by (simp add: fs_metadata_def)
      with empty reg show ?thesis by (cases n) (auto simp: node_metadata_def)
    qed
    then have "data_nodes (fs_remove l (w_fs w)) = data_nodes (w_fs w)"
      unfolding data_nodes_def using resolve_lookup [OF l(1)] wf_fs_distinct [OF wf]
      by (intro filtered_nodes_remove) auto
    with l(2) show ?thesis by simp
  qed
qed

lemma same_world_reads:
  assumes "w_fs w = w_fs w'" "w_cwd w = w_cwd w'"
  shows "walk_path w = walk_path w'" "resolve w = resolve w'" "fs_metadata w = fs_metadata w'"
    "path_exists w = path_exists w'" "resolve_for_create w g rel = resolve_for_create w' g rel"
proof -
  show walk: "walk_path w = walk_path w'" using assms by (simp add: walk_path_def fun_eq_iff)
  then show res: "resolve w = resolve w'" by (simp add: resolve_def fun_eq_iff)
  then show meta: "fs_metadata w = fs_metadata w'" by (simp add: fs_metadata_def fun_eq_iff)
  then show "path_exists w = path_exists w'" by (simp add: path_exists_def fun_eq_iff)
  show "resolve_for_create w g rel = resolve_for_create w' g rel"
  proof -
    have eq: "canonicalize_existing w = canonicalize_existing w'"
      using res by (simp add: canonicalize_existing_def canonicalize_def fun_eq_iff)
    show ?thesis unfolding resolve_for_create_def eq ..
  qed
qed

lemma guarded_move_later:
  fixes pre :: "('e, 'b) act"
  assumes pre: "keeps same_fs pre" "keeps same_env pre" and f: "keeps no_file_lost f"
  shows "keeps no_file_lost
     (bindA (readA (\<lambda>w. map_err G (resolve_for_create w g rel))) (\<lambda>d.
      bindA (readA (\<lambda>w. Inr (path_exists w d))) (\<lambda>present.
      if present then returnA out
      else bindA pre (\<lambda>_. bindA (map_errA (h d) (fs_rename source d)) (\<lambda>_. f)))))"
    (is "keeps _ ?act")
proof (rule keepsI)
  fix w r w'
  assume run: "?act w = (r, w')"
  show "no_file_lost w w'"
  proof (cases "(\<exists>d. resolve_for_create w g rel = Inr d \<and> \<not> path_exists w d) \<and> (\<exists>x w1. pre w = (Inr x, w1))")
    case False
    have "no_file_lost w w1" if "pre w = (x, w1)" for x w1
      using keepsD [OF same_fs_safe(2) [OF pre(1)] that] .
    with False run show ?thesis
      by (cases "resolve_for_create w g rel"; cases "pre w") (auto simp: bindA_def files.refl split: sum.splits if_splits)
  next
    case True
    then obtain d x w1 where d: "resolve_for_create w g rel = Inr d" "\<not> path_exists w d" and w1: "pre w = (Inr x, w1)"
      by blast
    have same: "w_fs w1 = w_fs w" "w_cwd w1 = w_cwd w"
      using keepsD [OF pre(1) w1] keepsD [OF pre(2) w1] by (simp_all add: same_fs_def same_env_def)
    obtain r2 w2 where mv: "fs_rename source d w1 = (r2, w2)" by (cases "fs_rename source d w1")
    have "no_file_lost w1 w2"
      using guarded_rename_files [OF mv] d same_world_reads [OF same]
      by (cases "wf_fs (w_fs w1)") (simp_all add: no_file_lost_def)
    moreover have "no_file_lost w2 w'"
      using run d w1 mv keepsD [OF f] by (auto simp: bindA_def map_errA_def files.refl split: sum.splits)
    moreover have "no_file_lost w w1" using same by (simp add: no_file_lost_def)
    ultimately show ?thesis by (blast intro: files.trans)
  qed
qed

lemmas undo_files = files.keeps_rules keeps_cases append_undo_frames create_dir_all_files remove_dir_files

lemma undo_move_files: "keeps no_file_lost (undo_move g store e)"
  unfolding undo_move_def Let_def
  by (intro guarded_move_later undo_files)

lemma undo_create_dir_files: "keeps no_file_lost (undo_create_dir g store e)"
  unfolding undo_create_dir_def Let_def by (intro undo_files)

lemma undo_create_file_data: "keeps no_data_lost (undo_create_file g store e)"
proof (rule keepsI)
  let ?p = "join_path (guard_root g) (je_to e)"
  let ?tail = "bindA (append_undo store e JournalStatus.Undone) (\<lambda>_. returnA (Inr (undone_result e None)))
    :: (UndoError, string + UndoResult) act"
  note app = keepsD [OF keeps_files_data [OF append_undo_frames(5)]]
  fix w r w' assume run: "undo_create_file g store e w = (r, w')"
  show "no_data_lost w w'"
  proof (cases "path_exists w ?p \<and> path_is_file w ?p \<and> (\<exists>m. fs_metadata w ?p = Inr m \<and> m_len m = 0)")
    case False
    then show ?thesis
      using run app
      by (auto simp: undo_create_file_def Let_def bindA_def data.refl split: if_splits sum.splits prod.splits)
  next
    case True
    then obtain m where m: "fs_metadata w ?p = Inr m" "m_len m = 0" by blast
    obtain r1 w1 where w1: "append_undo store e UndoPlanned w = (r1, w1)" by (cases "append_undo store e UndoPlanned w")
    have same: "w_fs w1 = w_fs w" "w_cwd w1 = w_cwd w"
      using keepsD [OF append_undo_frames(1) w1] keepsD [OF append_undo_frames(2) w1]
      by (simp_all add: same_fs_def same_env_def)
    obtain r2 w2 where w2: "fs_remove_file ?p w1 = (r2, w2)" by (cases "fs_remove_file ?p w1")
    have "no_data_lost w1 w2"
      using remove_empty_file [OF w2] m same_world_reads(3) [OF same] by simp
    moreover have "no_data_lost w w1" using app [OF w1] .
    moreover have "no_data_lost w2 w''" if "?tail w2 = (x, w'')" for x w''
      using that by (rule keepsD [rotated]) (intro keeps_files_data undo_files)
    moreover have "w' = w1 \<or> w' = w2 \<or> ?tail w2 = (r, w')"
      using run True m w1 w2
      by (cases r1; cases r2) (auto simp: undo_create_file_def Let_def bindA_def map_errA_def)
    ultimately show ?thesis by (blast intro: data.trans)
  qed
qed

section \<open>A whole run\<close>

text \<open>The contract of an operation that may delete empty files; every \<open>journaled_handler\<close> meets it.\<close>

locale recoverable_handler =
  fixes run :: "'i \<Rightarrow> ('e, 'a) act"
  assumes run_announced: "keeps audited (run i)"
    and run_keeps_data: "keeps no_data_lost (run i)"
begin

lemma data_survives:
  assumes "run i w = (r, w')" and "wf_fs (w_fs w)"
  shows "wf_fs (w_fs w') \<and> data_nodes (w_fs w) \<subseteq># data_nodes (w_fs w')
    \<and> prefix (journal_of w path) (journal_of w' path)
    \<and> (announced w w' \<or> (\<forall>k. map_of (w_fs w) k \<noteq> None \<longrightarrow> map_of (w_fs w') k = map_of (w_fs w) k))"
  using keepsD [OF run_announced assms(1)] keepsD [OF run_keeps_data assms(1)] assms(2)
  by (auto simp: audited_def grows_def kept_def no_data_lost_def)

end

sublocale journaled_handler \<subseteq> data: recoverable_handler run
  by unfold_locales (simp_all add: run_audited keeps_files_data run_safe)

interpretation undo_moves: journaled_handler "\<lambda>(g, store, e). undo_move g store e"
  by unfold_locales (auto simp: undo_handlers_audited undo_move_files)

interpretation undo_dirs: journaled_handler "\<lambda>(g, store, e). undo_create_dir g store e"
  by unfold_locales (auto simp: undo_handlers_audited undo_create_dir_files)

interpretation undo_created: recoverable_handler "\<lambda>(g, store, e). undo_create_file g store e"
  by unfold_locales (auto simp: undo_handlers_audited undo_create_file_data)

context world_frame
begin

lemma keeps_undo_entries:
  assumes "\<And>e. e \<in> set entries \<Longrightarrow> keeps R (undo_one g store e)"
  shows "keeps R (undo_entries g store only ids entries acc)"
  using assms
proof (induction entries arbitrary: acc)
  case (Cons e entries)
  obtain un sk rs where acc: "acc = (un, sk, rs)" by (cases acc)
  have "keeps R (undo_entries g store only ids entries acc')" for acc'
    by (rule Cons.IH) (simp add: Cons.prems)
  then show ?case
    unfolding acc undo_entries.simps by (intro keeps_if keeps_bind keeps_case_sum Cons.prems) simp_all
qed (simp add: keeps_return)

text \<open>Runs that open the store and read the journal first.\<close>

lemma after_journal_read:
  assumes "bindA (map_errA h (store_open root)) (\<lambda>store. bindA (map_errA h (read_all store)) (f store)) w = (r, w')"
    and "keeps R (store_open root)" "\<And>store. keeps R (read_all store)"
    and "\<And>store w1 es w2. store_open root w = (Inr store, w1) \<Longrightarrow> read_all store w1 = (Inr es, w2) \<Longrightarrow>
      f store es w2 = (r, w') \<Longrightarrow> R w2 w'"
  shows "R w w'"
proof (cases "store_open root w")
  case opened: (Pair res w1)
  show ?thesis
  proof (cases res)
    case (Inl e)
    with opened assms(1) keepsD [OF assms(2) opened] show ?thesis by (auto simp: bindA_def map_errA_def)
  next
    case (Inr store)
    obtain res2 w2 where read: "read_all store w1 = (res2, w2)" by (cases "read_all store w1")
    have "R w w2" using keepsD [OF assms(2) opened] keepsD [OF assms(3) read] trans by blast
    moreover have "R w2 w'"
      using assms(1,4) opened Inr read by (cases res2) (auto simp: bindA_def map_errA_def refl)
    ultimately show ?thesis by (rule trans)
  qed
qed

end

lemma undo_one_frames:
  shows "keeps audited (undo_one g store e)"
    and "je_action e \<noteq> JournalAction.ReadmeWrite \<Longrightarrow> keeps no_data_lost (undo_one g store e)"
  unfolding undo_one_def
  by (simp_all add: undo_handlers_audited undo_create_file_data keeps_files_data undo_move_files
      undo_create_dir_files)

lemma undo_rest_frames:
  shows "keeps audited (undo_rest g only store es)"
    and "(\<And>e. e \<in> set es \<Longrightarrow> je_action e \<noteq> JournalAction.ReadmeWrite) \<Longrightarrow>
      keeps no_data_lost (undo_rest g only store es)"
  unfolding undo_rest_def Let_def case_prod_beta
  by (intro audited.keeps_rules audited.keeps_undo_entries keeps_cases undo_one_frames)
    (intro data.keeps_rules data.keeps_undo_entries keeps_cases undo_one_frames; simp)

lemma read_all_rows:
  assumes "read_all store w = (Inr es, w')" "e \<in> set es"
  shows "\<exists>row \<in> set (journal_of w (js_db_path store)). entry_of_row row = Some e"
proof -
  obtain db where db: "w_dbs w (js_db_path store) = Some db"
    and es: "parse_rows 0 (sort_key row_seq (db_journal db)) = (es, None)"
    using assms(1) by (auto simp: read_all_ok_iff)
  obtain row where "row \<in> set (sort_key row_seq (db_journal db))" "readable row" "e = the (entry_of_row row)"
    using es assms(2) by (auto simp: parse_rows_spec dest!: set_takeWhileD)
  with db show ?thesis by (auto simp: journal_of_def readable_def)
qed

definition no_readme_rows :: "world \<Rightarrow> bool" where
  "no_readme_rows w \<longleftrightarrow> (\<forall>path. \<forall>row \<in> set (journal_of w path).
     row_action row \<noteq> action_as_db_str JournalAction.ReadmeWrite)"

lemma read_all_no_readme:
  assumes "read_all store w = (Inr es, w')" "no_readme_rows w" "e \<in> set es"
  shows "je_action e \<noteq> JournalAction.ReadmeWrite"
proof
  assume a: "je_action e = JournalAction.ReadmeWrite"
  obtain row where "row \<in> set (journal_of w (js_db_path store))" "entry_of_row row = Some e"
    using read_all_rows [OF assms(1,3)] by blast
  moreover from this(2) a have "row_action row = action_as_db_str JournalAction.ReadmeWrite"
    by (auto simp: entry_of_row_def action_codec.dec_iff split: option.splits)
  ultimately show False using assms(2) by (auto simp: no_readme_rows_def)
qed

text \<open>C3: undoing one operation or everything, under any fault schedule and with any journal that holds no README
  write: the tree stays well-formed, no regular file with content is lost (only empty files that the engine had
  created may be deleted), every journal only grows, and nothing that existed is changed, moved or removed before
  the intention to undo is journaled.\<close>

theorem undo_run_safe:
  assumes run: "undo_with_filter root only w = (r, w')" and wf: "wf_fs (w_fs w)" and "no_readme_rows w"
  shows "wf_fs (w_fs w') \<and> data_nodes (w_fs w) \<subseteq># data_nodes (w_fs w')
    \<and> prefix (journal_of w path) (journal_of w' path)
    \<and> (announced w w' \<or> (\<forall>k. map_of (w_fs w) k \<noteq> None \<longrightarrow> map_of (w_fs w') k = map_of (w_fs w) k))"
proof -
  have "audited w w' \<and> no_data_lost w w'"
    using run unfolding undo_with_filter_def
  proof (rule keeps_read_bind [rotated 2])
    show "audited w w \<and> no_data_lost w w" by (simp add: audited.refl data.refl)
    fix g
    assume run: "bindA (map_errA UndoError.Journal (store_open (guard_root g))) (\<lambda>store.
      bindA (map_errA UndoError.Journal (read_all store)) (undo_rest g only store)) w = (r, w')"
    have "keeps no_data_lost (undo_rest g only store es)"
      if "store_open (guard_root g) w = (Inr store, w1)" "read_all store w1 = (Inr es, w2)" for store w1 es w2
    proof (rule undo_rest_frames)
      have "no_readme_rows w1"
        using keepsD [OF store_open_journals that(1)] assms(3) by (simp add: same_journals_def no_readme_rows_def)
      then show "je_action e \<noteq> JournalAction.ReadmeWrite" if "e \<in> set es" for e
        using read_all_no_readme [OF \<open>read_all store w1 = _\<close>] that by blast
    qed
    then have "no_data_lost w w'"
      using run by (intro data.after_journal_read [OF run])
        (auto intro: keeps_files_data store_open_frames same_fs_safe read_frames dest: keepsD)
    moreover have "audited w w'"
      by (rule audited.after_journal_read [OF run store_open_audited store_audited(2)])
        (rule keepsD [OF undo_rest_frames(1)])
    ultimately show "audited w w' \<and> no_data_lost w w'" by simp
  qed
  with wf show ?thesis by (auto simp: audited_def grows_def kept_def no_data_lost_def)
qed

section \<open>What can be undone\<close>

definition raises :: "('e \<Rightarrow> bool) \<Rightarrow> ('e, 'a) act \<Rightarrow> bool" where
  "raises P m \<longleftrightarrow> (\<forall>w e w'. m w = (Inl e, w') \<longrightarrow> P e)"

lemma raisesD: "raises P m \<Longrightarrow> m w = (Inl e, w') \<Longrightarrow> P e"
  unfolding raises_def by blast

lemma raises_bind: "raises P m \<Longrightarrow> (\<And>x. raises P (f x)) \<Longrightarrow> raises P (bindA m f)"
  unfolding raises_def action_iffs by blast

lemma raises_basic: "raises P (returnA x)" "P e \<Longrightarrow> raises P (throwA e)" "(\<And>w e. f w = Inl e \<Longrightarrow> P e) \<Longrightarrow> raises P (readA f)"
  "(\<And>e. P (h e)) \<Longrightarrow> raises P (map_errA h m)" "raises P unix_ms"
  by (auto simp: raises_def map_errA_Inl_iff unix_ms_def)

lemma raises_cases: "raises P m \<Longrightarrow> raises P n \<Longrightarrow> raises P (if b then m else n)"
  "(\<And>a. raises P (f a)) \<Longrightarrow> (\<And>b. raises P (g b)) \<Longrightarrow> raises P (case_sum f g x)"
  "raises P m \<Longrightarrow> (\<And>b. raises P (g b)) \<Longrightarrow> raises P (case_option m g y)"
  by (simp_all split: sum.split option.split)

lemmas raises_rules = raises_bind raises_basic raises_cases

definition other_error :: "UndoError \<Rightarrow> bool" where
  "other_error e \<longleftrightarrow> (\<forall>i. e \<noteq> OperationNotUndoable i)"

lemma other_error_simps: "other_error (UndoError.Guard a)" "other_error (UndoError.Journal b)"
  "other_error (UndoError.CreateParentDir c d)" "other_error (UndoError.Move p q r)"
  by (simp_all add: other_error_def)

lemma undo_one_raises: "raises other_error (undo_one g store e)"
proof -
  have app: "raises other_error (append_undo store e s)" for s
    unfolding append_undo_eq by (intro raises_rules other_error_simps)
  have guarded: "raises other_error (readA (\<lambda>w. map_err UndoError.Guard (F w)))" for F :: "world \<Rightarrow> PathGuardError + string"
    by (rule raises_basic) (auto simp: map_err_def other_error_def split: sum.splits)
  have pure: "raises other_error (readA (\<lambda>w. Inr (F w)))" for F by (rule raises_basic) simp
  note rules = app guarded pure raises_bind raises_basic(1,2,4) raises_cases other_error_simps
  show ?thesis
    unfolding undo_one_def undo_create_dir_def undo_create_file_def undo_readme_write_def undo_move_def Let_def
      case_prod_beta
    by (intro rules)
qed

lemma undo_entries_raises: "raises other_error (undo_entries g store only ids es acc)"
proof (induction es arbitrary: acc)
  case (Cons e es)
  obtain un sk rs where acc: "acc = (un, sk, rs)" by (cases acc)
  show ?case unfolding acc undo_entries.simps by (intro raises_cases raises_bind undo_one_raises Cons.IH)
qed (simp add: raises_basic)

lemma undo_entries_results:
  assumes "undo_entries g store only ids es (un, sk, rs) w = (Inr (un', sk', rs'), w')"
  shows "\<exists>new. rs' = rs @ new \<and> un' + sk' = un + sk + length new
    \<and> length new = length (filter (undo_selected only ids) es)"
  using assms
proof (induction es arbitrary: un sk rs w)
  case (Cons e es)
  show ?case
  proof (cases "undo_selected only ids e")
    case False
    with Cons show ?thesis by simp
  next
    case True
    then obtain out w1 where out: "undo_one g store e w = (Inr out, w1)"
      using Cons.prems by (auto simp: action_iffs)
    show ?thesis
    proof (cases out)
      case (Inl reason)
      with Cons.IH [of un "sk + 1" "rs @ [skipped_undo e (Some reason)]" w1] Cons.prems True out
      show ?thesis by auto
    next
      case (Inr res)
      with Cons.IH [of "un + 1" sk "rs @ [res]" w1] Cons.prems True out show ?thesis by auto
    qed
  qed
qed simp

lemma undo_entries_none:
  "\<forall>e \<in> set es. \<not> undo_selected only ids e \<Longrightarrow> undo_entries g store only ids es acc w = (Inr acc, w)"
  by (induction es arbitrary: acc) (auto split: prod.splits)

text \<open>The operations of a journal that still can be undone.\<close>

definition undoable :: "JournalEntry list \<Rightarrow> string \<Rightarrow> bool" where
  "undoable es i \<longleftrightarrow> (\<exists>e \<in> set es. je_operation_id e = i \<and> je_status e = JournalStatus.Executed)
     \<and> \<not> (\<exists>e \<in> set es. je_operation_id e = i \<and> je_status e = JournalStatus.Undone)"

lemma undoable_selected:
  "undoable es i \<longleftrightarrow> (\<exists>e \<in> set (rev es). undo_selected (Some i) (undone_ids_of es) e)"
proof -
  have "je_action e \<in> {JournalAction.Move, JournalAction.Trash, JournalAction.CreateDir, JournalAction.CreateFile,
      JournalAction.ReadmeWrite}" for e :: JournalEntry
    by (cases "je_action e") simp_all
  then show ?thesis by (auto simp: undoable_def undo_selected_def undone_ids_of_def image_iff)
qed

text \<open>a request to undo one operation is refused as not undoable exactly when the journal has no execution of
  that operation or already records it as undone; in particular an undo interrupted after its plan can be tried
  again. The refusal leaves the tree and the journals as reading them left them.\<close>

theorem undo_operation_refused:
  assumes "guard_new w root = Inr g" and "store_open (guard_root g) w = (Inr store, w1)"
    and "read_all store w1 = (Inr es, w2)"
  shows "((\<exists>w'. undo_operation root i w = (Inl (OperationNotUndoable i), w')) \<longleftrightarrow> \<not> undoable es i)
    \<and> (\<not> undoable es i \<longrightarrow> undo_operation root i w = (Inl (OperationNotUndoable i), w2))"
proof -
  have start: "undo_operation root i w = undo_rest g (Some i) store es w2"
    using assms by (simp add: undo_operation_def undo_with_filter_def bindA_def map_errA_def)
  have refuse: "undo_operation root i w = (Inl (OperationNotUndoable i), w2)" if "\<not> undoable es i"
  proof -
    have "undo_entries g store (Some i) (undone_ids_of es) (rev es) (0, 0, []) w2 = (Inr (0, 0, []), w2)"
      using that by (intro undo_entries_none) (auto simp: undoable_selected)
    then show ?thesis unfolding start undo_rest_def by simp
  qed
  have "undoable es i \<Longrightarrow> undo_rest g (Some i) store es w2 \<noteq> (Inl (OperationNotUndoable i), w')" for w'
  proof
    assume u: "undoable es i" and bad: "undo_rest g (Some i) store es w2 = (Inl (OperationNotUndoable i), w')"
    have no: "undo_entries g store (Some i) (undone_ids_of es) (rev es) (0, 0, []) w2 \<noteq> (Inl (OperationNotUndoable i), w')"
      using raisesD [OF undo_entries_raises, of g store "Some i" "undone_ids_of es" "rev es" "(0, 0, [])" w2]
      by (auto simp: other_error_def)
    then obtain un sk where ok:
      "undo_entries g store (Some i) (undone_ids_of es) (rev es) (0, 0, []) w2 = (Inr (un, sk, []), w')"
      using bad by (auto simp: undo_rest_def action_iffs Let_def split: if_splits)
    have "filter (undo_selected (Some i) (undone_ids_of es)) (rev es) = []"
      using undo_entries_results [OF ok] by simp
    with u show False by (auto simp: undoable_selected filter_empty_conv)
  qed
  with refuse start show ?thesis by metis
qed

theorem undo_operation_refused_witness:
  "\<exists>w'. undo_operation ''/home/box'' ''op-1-0'' early_world = (Inl (OperationNotUndoable ''op-1-0''), w')"
proof -
  have g: "guard_new early_world ''/home/box'' = Inr sample_guard" by code_simp
  have "is_ok (fst (store_open (guard_root sample_guard) early_world))" by code_simp
  then obtain store w1 where s: "store_open (guard_root sample_guard) early_world = (Inr store, w1)"
    by (cases "store_open (guard_root sample_guard) early_world") (auto simp: is_ok_iff)
  have "case store_open (guard_root sample_guard) early_world of (Inr st, w1) \<Rightarrow> fst (read_all st w1) = Inr [] | _ \<Rightarrow> False"
    by code_simp
  then obtain w2 where "read_all store w1 = (Inr [], w2)" using s by (cases "read_all store w1") auto
  from undo_operation_refused [OF g s this] show ?thesis by (auto simp: undoable_def)
qed

theorem undo_run_safe_witness:
  "\<exists>rep w'. undo_with_filter ''/home/box'' None journaled_world = (Inr rep, w') \<and> un_undone_count rep = 1
     \<and> map_of (w_fs w') [''home'', ''box'', ''docs'', ''notes.pdf''] = Some (RegularFile ''hello'' (sample_attrs 4))
     \<and> data_nodes sample_fs \<subseteq># data_nodes (w_fs w') \<and> announced journaled_world w'"
proof -
  let ?run = "undo_with_filter ''/home/box'' None journaled_world"
  have "case ?run of (Inl _, _) \<Rightarrow> False | (Inr rep, w') \<Rightarrow> un_undone_count rep = 1
      \<and> map_of (w_fs w') [''home'', ''box'', ''notes.pdf''] = None
      \<and> map_of (w_fs w') [''home'', ''box'', ''docs'', ''notes.pdf''] = Some (RegularFile ''hello'' (sample_attrs 4))"
    by code_simp
  then obtain rep w' where run: "?run = (Inr rep, w')" and moved: "un_undone_count rep = 1"
    "map_of (w_fs w') [''home'', ''box'', ''notes.pdf''] = None"
    "map_of (w_fs w') [''home'', ''box'', ''docs'', ''notes.pdf''] = Some (RegularFile ''hello'' (sample_attrs 4))"
    by (cases ?run) (auto split: sum.splits)
  have fs: "w_fs journaled_world = sample_fs" by (simp add: journaled_world_def sample_world_def)
  have "map_of sample_fs [''home'', ''box'', ''notes.pdf''] \<noteq> None" by code_simp
  moreover have "wf_fs (w_fs journaled_world)" using sample_wf by (simp add: journaled_world_def)
  moreover have "no_readme_rows journaled_world"
    by (auto simp: no_readme_rows_def journal_of_def journaled_world_def sample_world_def moved_row_def)
  ultimately show ?thesis using undo_run_safe [OF run] run moved fs by (metis option.distinct(1))
qed

end
