(* ===== verification/Plain_Paths.thy ===== *)
theory Plain_Paths
  imports Handlers
begin

text \<open>
  Requests without symbolic links: a relative text of plain names stands for one place below the root, and the
  guard, \<^verbatim>\<open>parent\<close> and \<^verbatim>\<open>create_dir_all\<close> act exactly there. These facts turn success of the handlers into
  statements about concrete places, and show that the handlers succeed when nothing is in the way.
\<close>

section \<open>Parents of plain texts\<close>

lemma strip_last_plain: "valid_loc (d @ [c]) \<Longrightarrow> strip_last (d @ [c]) = Some d"
proof -
  assume v: "valid_loc (d @ [c])"
  have "dropWhile junk (rev d) = rev d"
    using v by (cases "rev d") (auto simp: valid_loc_def list_all_iff)
  moreover have "\<not> junk c" using v by (simp add: valid_loc_def)
  ultimately show ?thesis by (simp add: strip_last_def)
qed

lemma parent_loc: "valid_loc (d @ [c]) \<Longrightarrow> parent (path_of_loc (d @ [c])) = Some (path_of_loc d)"
  using segments_path_of_loc [of "d @ [c]"] strip_last_plain [of d c] path_of_loc_join [of d]
  by (simp add: parent_def Let_def)

lemma parent_rel:
  assumes "valid_loc (d @ [c])"
  shows "parent (join_with ''/'' (d @ [c])) = Some (join_with ''/'' d)"
proof -
  have s: "segments (join_with ''/'' (d @ [c])) = d @ [c]" using assms by (intro segments_join) simp_all
  have "hd (d @ [c]) \<noteq> ''.''" using assms by (cases d) (auto simp: valid_loc_def valid_name_def)
  moreover have "\<not> has_root (join_with ''/'' (d @ [c]))"
    using components_join [of "d @ [c]"] assms components_root by (cases d) (auto dest!: has_root_Cons)
  ultimately show ?thesis using strip_last_plain [OF assms] by (simp add: parent_def s Let_def)
qed

section \<open>Texts that keep their meaning\<close>

text \<open>What resolved keeps resolving to the same place when nothing that existed has changed.\<close>

lemma walks_kept:
  assumes "\<And>k x. map_of t k = Some x \<Longrightarrow> map_of t' k = Some x"
  shows "walks t follow n cur segs l nd \<Longrightarrow> nd \<noteq> None \<Longrightarrow> walk t' n cur segs follow = Inr (l, nd)"
proof (induction rule: walks.induct)
  case (here n cur)
  then show ?case using assms by (auto simp: walk_Nil)
qed (use assms in \<open>auto simp: walk.simps is_directory_iff junk_def split: node.splits\<close>)

lemma resolve_kept:
  assumes "kept w w'" "w_cwd w' = w_cwd w" "resolve w follow p = Inr (l, nd)"
  shows "resolve w' follow p = Inr (l, nd)"
proof -
  have "map_of (w_fs w') k = Some x" if "map_of (w_fs w) k = Some x" for k x
    using that assms(1) by (simp add: kept_def)
  then show ?thesis
    using assms(2,3) walks_kept [of "w_fs w" "w_fs w'", OF _ walk_walks]
    by (auto simp: resolve_walk walk_path_def split: if_splits)
qed

lemma resolve_for_create_kept:
  assumes "kept w w'" "w_cwd w' = w_cwd w" "resolve_for_create w g rel = Inr p"
  shows "resolve_for_create w' g rel = Inr p"
proof -
  obtain dir d nd where "parent (join_path (guard_root g) rel) = Some dir" and r: "resolve w True dir = Inr (d, nd)"
    using assms(3) by (auto simp: resolve_for_create_def bind_res_Inr_iff Let_def canonicalize_existing_Inr_iff
        split: option.splits)
  moreover from r have "canonicalize_existing w dir = Inr (path_of_loc d)" "canonicalize_existing w' dir = Inr (path_of_loc d)"
    using resolve_kept [OF assms(1,2)] by (auto simp: canonicalize_existing_Inr_iff)
  ultimately show ?thesis using assms(3) by (auto simp: resolve_for_create_def bind_res_Inr_iff Let_def)
qed


section \<open>The guard on plain texts\<close>

lemma resolve_for_create_rel:
  assumes g: "guard_ok w g r" and rel: "valid_loc rel" "rel \<noteq> []"
    and dir: "is_directory (map_of (w_fs w) (butlast (r @ rel)))"
  shows "resolve_for_create w g (join_with ''/'' rel) = Inr (path_of_loc (r @ rel))"
proof -
  have wf: "wf_fs (w_fs w)" and root: "guard_root g = path_of_loc r" using g by (auto simp: guard_ok_def)
  have vr: "valid_loc r" using guard_ok_valid [OF g] .
  obtain ds c where ds: "rel = ds @ [c]" using rel(2) by (metis append_butlast_last_id)
  have v: "valid_loc (r @ ds)" "valid_loc ((r @ ds) @ [c])" "valid_name c"
    using rel(1) vr ds by (simp_all add: valid_loc_def)
  have cand: "join_path (path_of_loc r) (join_with ''/'' (ds @ [c])) = path_of_loc (r @ ds @ [c])"
    using join_path_rel [OF vr rel] ds by simp
  have "map_of (w_fs w) (r @ ds) \<noteq> None" "\<not> is_link (map_of (w_fs w) (r @ ds))"
    using dir dir_not_link by (auto simp: ds butlast_append is_directory_iff)
  then have "canonicalize_existing w (path_of_loc (r @ ds)) = Inr (path_of_loc (r @ ds))"
    using resolve_path_of_loc [OF wf, of "r @ ds" _ True] by (auto simp: canonicalize_existing_Inr_iff)
  moreover have "file_name (path_of_loc ((r @ ds) @ [c])) = Some c"
    using components_path_of_loc [OF v(2)] by (auto simp: file_name_Some_iff)
  moreover have "reject_unsafe_components (join_with ''/'' rel) = Inr ()"
    using safe_join [OF rel] by (simp add: reject_unsafe_ok)
  ultimately show ?thesis
    using parent_loc [OF v(2)] path_starts_with_loc [OF v(1) vr] join_path_loc [OF v(1,3)] root ds
    by (simp add: resolve_for_create_def cand Let_def)
qed

text \<open>Along plain names without links, a walk can only end at the place the names spell.\<close>

lemma walk_straight:
  "(\<And>k. prefix k (cur @ cs) \<Longrightarrow> \<not> is_link (map_of t k)) \<Longrightarrow> valid_loc cs \<Longrightarrow>
     walk t n cur cs follow = Inr (k, nd) \<Longrightarrow> k = cur @ cs"
proof (induction cs arbitrary: cur)
  case (Cons c cs)
  have c: "\<not> junk c" "c \<noteq> ''..''" using Cons.prems(2) by (auto simp: valid_loc_def valid_name_def)
  have links: "\<not> is_link (map_of t k)" if "prefix k ((cur @ [c]) @ cs)" for k using Cons.prems(1) that by simp
  have "\<not> is_link (map_of t (cur @ [c]))" by (rule links) simp
  with Cons.prems(3) c consider "cs = []" "k = cur @ [c]" | "walk t n (cur @ [c]) cs follow = Inr (k, nd)"
    by (auto simp: walk.simps(2) [of t n cur c] split: if_splits option.splits node.splits)
  then show ?case
  proof cases
    case 2
    have "valid_loc cs" using Cons.prems(2) by (simp add: valid_loc_def)
    with Cons.IH [of "cur @ [c]", OF links _ 2] show ?thesis by simp
  qed simp
qed (simp add: walk_Nil)

lemma resolve_straight:
  assumes "wf_fs (w_fs w)" "valid_loc l" "\<And>k. prefix k l \<Longrightarrow> \<not> is_link (map_of (w_fs w) k)"
    and "resolve w follow (path_of_loc l) = Inr (k, nd)"
  shows "k = l"
proof (cases "l = []")
  case True
  then show ?thesis
    using assms(1,4) wf_fs_root [OF assms(1)]
    by (auto simp: resolve_walk walk_path_def path_of_loc_def segments_root walk_junk walk_Nil is_sep_def)
next
  case False
  then have "walk (w_fs w) max_links [] l follow = Inr (k, Some nd)"
    using assms(4) segments_path_of_loc [OF assms(2)] walk_junk [OF wf_fs_root [OF assms(1)]]
    by (simp add: resolve_walk walk_path_def)
  from walk_straight [OF _ assms(2) this] assms(3) show ?thesis by simp
qed

lemma resolve_for_create_straight:
  assumes g: "guard_ok w g r" and rel: "valid_loc rel" "rel \<noteq> []"
    and links: "\<And>k. strict_prefix k (r @ rel) \<Longrightarrow> \<not> is_link (map_of (w_fs w) k)"
    and ok: "resolve_for_create w g (join_with ''/'' rel) = Inr p"
  shows "p = path_of_loc (r @ rel)"
proof -
  have wf: "wf_fs (w_fs w)" and root: "guard_root g = path_of_loc r" using g by (auto simp: guard_ok_def)
  have vr: "valid_loc r" using guard_ok_valid [OF g] .
  obtain ds c where ds: "rel = ds @ [c]" using rel(2) by (metis append_butlast_last_id)
  have v: "valid_loc (r @ ds)" "valid_loc ((r @ ds) @ [c])" "valid_name c"
    using rel(1) vr ds by (simp_all add: valid_loc_def)
  have cand: "join_path (path_of_loc r) (join_with ''/'' (ds @ [c])) = path_of_loc (r @ ds @ [c])"
    using join_path_rel [OF vr rel] ds by simp
  have name: "file_name (path_of_loc ((r @ ds) @ [c])) = Some c"
    using components_path_of_loc [OF v(2)] by (auto simp: file_name_Some_iff)
  obtain d nd where d: "resolve w True (path_of_loc (r @ ds)) = Inr (d, nd)" "p = join_path (path_of_loc d) c"
    using ok parent_loc [OF v(2)] name root ds
    by (auto simp: resolve_for_create_def cand bind_res_Inr_iff Let_def canonicalize_existing_Inr_iff split: if_splits)
  have "strict_prefix k (r @ rel)" if "prefix k (r @ ds)" for k
  proof -
    have "strict_prefix (r @ ds) (r @ rel)" using ds by (simp add: strict_prefix_def)
    with that show ?thesis by (rule prefix_order.le_less_trans)
  qed
  then have "d = r @ ds" using resolve_straight [OF wf v(1) _ d(1)] links by blast
  with d(2) join_path_loc [OF v(1,3)] ds show ?thesis by simp
qed

section \<open>Directories that exist already\<close>

lemma strip_slash_loc: "valid_loc l \<Longrightarrow> strip_slash (path_of_loc l) = path_of_loc l"
proof (cases "l = []")
  case False
  assume v: "valid_loc l"
  obtain d c where dc: "l = d @ [c]" using False by (metis append_butlast_last_id)
  with v have c: "valid_name c" by (simp add: valid_loc_def)
  then have "\<not> is_sep (last (path_of_loc l))"
    using dc last_in_set [of c] by (auto simp: path_of_loc_snoc valid_name_def is_sep_def simp del: last_in_set)
  then have "dropWhile is_sep (rev (path_of_loc l)) = rev (path_of_loc l)"
    by (cases "path_of_loc l" rule: rev_cases) simp_all
  then show ?thesis by (simp add: strip_slash_def Let_def)
qed (simp add: strip_slash_def path_of_loc_def is_sep_def)

lemma create_dir_all_exists:
  assumes wf: "wf_fs (w_fs w)" and dir: "is_directory (map_of (w_fs w) l)" and "\<not> w_fails w (w_tick w)"
  shows "create_dir_all (path_of_loc l) w = (Inr (), w\<lparr>w_tick := Suc (w_tick w)\<rparr>)"
proof -
  obtain a where a: "map_of (w_fs w) l = Some (node.Directory a)" using dir by (auto simp: is_directory_iff)
  have v: "valid_loc l" using wf_fs_valid [OF wf] a by simp
  have walk: "walk_path w False (path_of_loc l) = Inr (l, Some (node.Directory a))"
    using resolve_path_of_loc [OF wf a, of False] by (simp add: resolve_walk)
  then have "fs_create_dir (path_of_loc l) w = (Inl AlreadyExists, w\<lparr>w_tick := Suc (w_tick w)\<rparr>)"
    using assms(3) strip_slash_loc [OF v] by (simp add: fs_create_dir_def syscall_def Let_def)
  moreover have "path_is_dir (w\<lparr>w_tick := Suc (w_tick w)\<rparr>) (path_of_loc l)"
    using resolve_path_of_loc [of "w\<lparr>w_tick := Suc (w_tick w)\<rparr>" l "node.Directory a" True] wf a
    by (simp add: path_is_dir_def fs_metadata_def node_metadata_def)
  ultimately show ?thesis by (simp add: create_dir_all.simps [of "path_of_loc l"])
qed

end
