(* ===== verification/File_Ops.thy ===== *)
theory File_Ops
  imports Undo Plain_Paths
begin

text \<open>
  \<^verbatim>\<open>file_ops.rs\<close>: the two direct operations of the user interface, creating an empty file and renaming a file
  in place. Shown: both meet the contract of an operation, a new name cannot leave the directory, and what a
  successful renaming and creation leave behind.
\<close>

section \<open>Model\<close>

record CreateFileReport =
  cf_root :: string
  cf_created_path :: string

record RenameFileReport =
  rf_root :: string
  rf_journal_path :: string
  rf_operation_id :: string
  rf_from :: string
  rf_to :: string

datatype FileOpError =
    Guard PathGuardError
  | Journal JournalError
  | InvalidName string
  | NotAFile string
  | BlockedLinkOrReparse string
  | DestinationExists string
  | Create string string
  | Move string string string
  | Serialize string

fun file_op_error_to_string :: "FileOpError \<Rightarrow> string" where
  "file_op_error_to_string (Guard error) = path_guard_error_to_string error"
| "file_op_error_to_string (Journal error) = journal_error_to_string error"
| "file_op_error_to_string (InvalidName name) = ''invalid file name: '' @ name"
| "file_op_error_to_string (NotAFile path) = ''target is not a file: '' @ path"
| "file_op_error_to_string (BlockedLinkOrReparse path) =
     ''refusing to rename symlink, junction, or reparse point: '' @ path"
| "file_op_error_to_string (DestinationExists path) = ''destination already exists: '' @ path"
| "file_op_error_to_string (Create path message) = ''cannot create '' @ path @ '': '' @ message"
| "file_op_error_to_string (Move src dst message) =
     ''cannot move '' @ src @ '' to '' @ dst @ '': '' @ message"
| "file_op_error_to_string (Serialize message) = ''cannot serialize file op report: '' @ message"

definition create_empty_file :: "string \<Rightarrow> string \<Rightarrow> (FileOpError, CreateFileReport) act" where
  "create_empty_file root rel_path =
     bindA (readA (\<lambda>w. map_err FileOpError.Guard (guard_new w root))) (\<lambda>guard.
     bindA (readA (\<lambda>w. map_err FileOpError.Guard (resolve_for_create w guard rel_path))) (\<lambda>target.
     bindA (tryA (fs_create_new target)) (\<lambda>opened.
     case opened of
       Inl error \<Rightarrow>
         bindA (readA (\<lambda>w. Inr (path_exists w target))) (\<lambda>present.
         if present then throwA (FileOpError.DestinationExists target)
         else throwA (FileOpError.Create target (io_error_to_string error)))
     | Inr _ \<Rightarrow> returnA \<lparr>cf_root = guard_root guard, cf_created_path = rel_path\<rparr>)))"

definition validate_file_name :: "string \<Rightarrow> FileOpError + string" where
  "validate_file_name name =
     (let trimmed = trim name
      in if trimmed = [] \<or> CHR ''/'' \<in> set trimmed \<or> CHR 0x5C \<in> set trimmed
            \<or> trimmed = ''.'' \<or> trimmed = ''..''
         then Inl (InvalidName name) else Inr trimmed)"

definition sibling_relative_path :: "string \<Rightarrow> string \<Rightarrow> string" where
  "sibling_relative_path rel_path new_name =
     (case parent rel_path of
        None \<Rightarrow> new_name
      | Some dir \<Rightarrow>
          if dir = [] then new_name else replace_char (CHR 0x5C) (CHR ''/'') (join_path dir new_name))"

definition rename_journal_entry ::
  "string \<Rightarrow> JournalStatus \<Rightarrow> string \<Rightarrow> string \<Rightarrow> ('e, JournalEntry) act" where
  "rename_journal_entry operation_id status src dst =
     bindA unix_ms (\<lambda>now.
       returnA \<lparr>je_operation_id = operation_id, je_status = status, je_action = JournalAction.Move,
                je_from = src, je_to = dst, je_created_unix_ms = now\<rparr>)"

definition append_rename ::
  "JournalStore \<Rightarrow> string \<Rightarrow> JournalStatus \<Rightarrow> string \<Rightarrow> string \<Rightarrow> (FileOpError, unit) act" where
  "append_rename store operation_id status src dst =
     bindA (rename_journal_entry operation_id status src dst) (\<lambda>entry.
       map_errA FileOpError.Journal (append_entry store entry))"

text \<open>The checks before anything is written.\<close>

definition rename_source ::
  "string \<Rightarrow> string \<Rightarrow> string \<Rightarrow> world \<Rightarrow> FileOpError + path_guard \<times> string \<times> string" where
  "rename_source root rel_path new_name w =
     bind_res (map_err FileOpError.Guard (guard_new w root)) (\<lambda>guard.
     bind_res (validate_file_name new_name) (\<lambda>new_name.
     bind_res (map_err FileOpError.Guard (resolve_existing w guard rel_path)) (\<lambda>source.
       let path = join_path (guard_root guard) rel_path
       in bind_res (map_err (\<lambda>error. FileOpError.Create path (io_error_to_string error))
                      (fs_symlink_metadata w path)) (\<lambda>metadata.
            if is_link_or_reparse_point metadata then Inl (FileOpError.BlockedLinkOrReparse path)
            else if \<not> m_is_file metadata then Inl (FileOpError.NotAFile path)
            else
              let dst = sibling_relative_path rel_path new_name
              in bind_res (map_err FileOpError.Guard (resolve_for_create w guard dst)) (\<lambda>destination.
                   if path_exists w destination then Inl (FileOpError.DestinationExists destination)
                   else Inr (guard, source, dst))))))"

text \<open>What follows once the plan is journaled.\<close>

definition rename_planned ::
  "path_guard \<Rightarrow> JournalStore \<Rightarrow> string \<Rightarrow> string \<Rightarrow> string \<Rightarrow> string \<Rightarrow> (FileOpError, RenameFileReport) act" where
  "rename_planned guard store source rel_path dst operation_id =
     bindA (readA (\<lambda>w. map_err FileOpError.Guard (resolve_for_create w guard dst))) (\<lambda>destination.
     bindA (map_errA (\<lambda>error. FileOpError.Move source destination (io_error_to_string error))
              (fs_rename source destination)) (\<lambda>_.
     bindA (append_rename store operation_id JournalStatus.Executed rel_path dst) (\<lambda>_.
       returnA \<lparr>rf_root = guard_root guard, rf_journal_path = js_db_path store,
                rf_operation_id = operation_id, rf_from = rel_path, rf_to = dst\<rparr>)))"

definition rename_file :: "string \<Rightarrow> string \<Rightarrow> string \<Rightarrow> (FileOpError, RenameFileReport) act" where
  "rename_file root rel_path new_name =
     bindA (readA (rename_source root rel_path new_name)) (\<lambda>(guard, source, dst).
     bindA (map_errA FileOpError.Journal (store_open (guard_root guard))) (\<lambda>store.
     bindA unix_nanos (\<lambda>nanos.
       let operation_id = ''rename-'' @ dec nanos
       in bindA (append_rename store operation_id Planned rel_path dst) (\<lambda>_.
            rename_planned guard store source rel_path dst operation_id))))"

section \<open>Names\<close>

lemma validate_file_name_ok:
  "validate_file_name name = Inr n \<longleftrightarrow> n = trim name \<and> valid_name n \<and> CHR 0x5C \<notin> set n"
  by (auto simp: validate_file_name_def valid_name_def Let_def)

section \<open>Safety\<close>

lemma append_rename_eq:
  "append_rename store i s a b = bindA unix_ms (\<lambda>now. map_errA FileOpError.Journal (append_entry store
     \<lparr>je_operation_id = i, je_status = s, je_action = JournalAction.Move, je_from = a, je_to = b,
      je_created_unix_ms = now\<rparr>))"
  by (simp add: append_rename_def rename_journal_entry_def bindA_assoc bindA_return)

lemma append_rename_frames:
  "keeps same_fs (append_rename store i s a b)" "keeps same_env (append_rename store i s a b)"
  "keeps grows (append_rename store i s a b)" "keeps adds_dirs (append_rename store i s a b)"
  "keeps no_file_lost (append_rename store i s a b)"
  unfolding append_rename_eq
  by (intro files.keeps_rules grows.keeps_rules same_fs.keeps_rules env.keeps_rules adds_dirs.keeps_rules
      same_fs_safe same_fs_adds append_frames clock_same_fs clock_env same_dbs_grows)+

lemma announce_rename:
  assumes "\<And>x. keeps grows (f x)"
  shows "keeps audited (bindA (append_rename store i Planned a b) f)"
  unfolding append_rename_eq bindA_assoc by (intro audited.keeps_bind store_audited announce_first assms) simp

lemma rename_file_audited: "keeps audited (rename_file root rel name)"
  unfolding rename_file_def rename_planned_def Let_def case_prod_beta
  by (intro audited.keeps_bind audited.keeps_map_err audited.keeps_read store_open_audited store_audited
      announce_rename grows.keeps_rules grow_calls append_rename_frames)

text \<open>The destination was free before the store was opened; opening it adds at most directories, so no file can
  stand there when the renaming happens.\<close>

lemma adds_dirs_regular:
  "adds_dirs w w' \<Longrightarrow> wf_fs (w_fs w) \<Longrightarrow> \<not> is_regular (map_of (w_fs w) k) \<Longrightarrow> \<not> is_regular (map_of (w_fs w') k)"
  unfolding adds_dirs_def by (metis is_directory_iff is_regular.simps(3))

text \<open>A run that got as far as the renaming: the plan is journaled, and only directories were added.\<close>

lemma rename_file_reaches:
  assumes run: "rename_file root rel name w = (r, w')" and bad: "\<not> no_file_lost w w'"
  obtains g source dst store i w3 where "rename_source root rel name w = Inr (g, source, dst)"
    "rename_planned g store source rel dst i w3 = (r, w')" "\<not> no_file_lost w3 w'"
    "adds_dirs w w3" "w_cwd w3 = w_cwd w"
proof -
  obtain g source dst where src: "rename_source root rel name w = Inr (g, source, dst)"
    and run1: "bindA (map_errA FileOpError.Journal (store_open (guard_root g))) (\<lambda>store.
        bindA unix_nanos (\<lambda>nanos. bindA (append_rename store (''rename-'' @ dec nanos) Planned rel dst) (\<lambda>_.
          rename_planned g store source rel dst (''rename-'' @ dec nanos)))) w = (r, w')"
    using run bad files.refl by (auto simp: rename_file_def Let_def bindA_def [of "readA _"] split: sum.splits)
  obtain store w1 where o: "store_open (guard_root g) w = (Inr store, w1)" and b1: "\<not> no_file_lost w1 w'"
    and run2: "bindA unix_nanos (\<lambda>nanos. bindA (append_rename store (''rename-'' @ dec nanos) Planned rel dst) (\<lambda>_.
        rename_planned g store source rel dst (''rename-'' @ dec nanos))) w1 = (r, w')"
    using files.bind_breaks [OF run1 files.keeps_map_err [OF store_open_frames(2)] bad]
    unfolding map_errA_Inr_iff by blast
  obtain nanos w2 where c: "(unix_nanos :: (FileOpError, nat) act) w1 = (Inr nanos, w2)" and b2: "\<not> no_file_lost w2 w'"
    and run3: "bindA (append_rename store (''rename-'' @ dec nanos) Planned rel dst) (\<lambda>_.
        rename_planned g store source rel dst (''rename-'' @ dec nanos)) w2 = (r, w')"
    using files.bind_breaks [OF run2 clock_files(2) b1] by blast
  obtain u w3 where a: "append_rename store (''rename-'' @ dec nanos) Planned rel dst w2 = (Inr u, w3)"
    and run4: "rename_planned g store source rel dst (''rename-'' @ dec nanos) w3 = (r, w')" "\<not> no_file_lost w3 w'"
    using files.bind_breaks [OF run3 append_rename_frames(5) b2] by blast
  have "adds_dirs w w3"
    using keepsD [OF store_open_adds o] keepsD [OF clock_adds(2) c] keepsD [OF append_rename_frames(4) a]
    by (blast intro: adds_dirs.trans)
  moreover have "w_cwd w3 = w_cwd w"
    using keepsD [OF store_open_frames(4) o] keepsD [OF clock_env(4) c] keepsD [OF append_rename_frames(2) a]
    by (simp add: same_env_def)
  ultimately show thesis using that src run4 by blast
qed

lemma rename_file_files: "keeps no_file_lost (rename_file root rel name)"
proof (rule keepsI, rule ccontr)
  fix w r w' assume run: "rename_file root rel name w = (r, w')" and bad: "\<not> no_file_lost w w'"
  obtain g source dst store i w3 where src: "rename_source root rel name w = Inr (g, source, dst)"
    and go: "rename_planned g store source rel dst i w3 = (r, w')" "\<not> no_file_lost w3 w'"
    and w3: "adds_dirs w w3" "w_cwd w3 = w_cwd w"
    using rename_file_reaches [OF run bad] .
  have wf: "wf_fs (w_fs w)" using bad by (auto simp: no_file_lost_def)
  have wf3: "wf_fs (w_fs w3)" using w3(1) wf by (simp add: adds_dirs_def)
  obtain p where p: "resolve_for_create w g dst = Inr p" "\<not> path_exists w p"
    using src by (auto simp: rename_source_def bind_res_Inr_iff Let_def split: if_splits)
  have p3: "resolve_for_create w3 g dst = Inr p"
    using resolve_for_create_kept [OF adds_dirs_kept' [OF w3(1) wf] w3(2) p(1)] .
  obtain r4 w4 where mv: "fs_rename source p w3 = (r4, w4)" by (cases "fs_rename source p w3")
  have "\<not> is_regular m" if "walk_path w3 False p = Inr (l, m)" for l m
    using create_target_walk [OF wf3 p3 that] absent_not_regular [OF wf] p(2) adds_dirs_regular [OF w3(1) wf] by metis
  then have "file_nodes (w_fs w4) = file_nodes (w_fs w3)" by (rule rename_files [OF mv wf3])
  then have "no_file_lost w3 w4"
    using keepsD [OF calls_wf_rename mv] by (simp add: no_file_lost_def stays_wf_def)
  moreover have "no_file_lost w4 w'"
  proof (cases r4)
    case (Inl e)
    with go(1) p3 mv show ?thesis by (simp add: rename_planned_def bindA_def map_errA_def files.refl)
  next
    case (Inr u)
    with go(1) p3 mv have "bindA (append_rename store i JournalStatus.Executed rel dst) (\<lambda>_.
       returnA \<lparr>rf_root = guard_root g, rf_journal_path = js_db_path store,
                rf_operation_id = i, rf_from = rel, rf_to = dst\<rparr>) w4 = (r, w')"
      by (simp add: rename_planned_def bindA_def [of "readA _"] bindA_def [of "map_errA _ _"] map_errA_def)
    then show ?thesis by (rule keepsD [rotated]) (intro files.keeps_rules append_rename_frames)
  qed
  ultimately show False using go(2) files.trans by blast
qed

interpretation renames: journaled_handler "\<lambda>(root, rel, name). rename_file root rel name"
  by unfold_locales (auto simp: rename_file_audited rename_file_files)

interpretation creates: journaled_handler "\<lambda>(root, rel). create_empty_file root rel"
proof
  fix i :: "string \<times> string"
  show "keeps audited (case i of (root, rel) \<Rightarrow> create_empty_file root rel)"
    unfolding create_empty_file_def case_prod_beta
    by (intro audited.keeps_rules keeps_cases create_calls_audited)
  show "keeps no_file_lost (case i of (root, rel) \<Rightarrow> create_empty_file root rel)"
    unfolding create_empty_file_def case_prod_beta by (intro files.keeps_rules keeps_cases calls_files_create)
qed

text \<open>the two direct operations are safe under any fault schedule: no regular file is lost, journals only
  grow, and renaming changes nothing before its plan is journaled.\<close>

theorem direct_operations_safe:
  assumes "rename_file root rel name w = (r1, w') \<or> create_empty_file root rel w = (r2, w')" and "wf_fs (w_fs w)"
  shows "wf_fs (w_fs w') \<and> file_nodes (w_fs w) \<subseteq># file_nodes (w_fs w')
    \<and> prefix (journal_of w path) (journal_of w' path)
    \<and> (announced w w' \<or> (\<forall>k. map_of (w_fs w) k \<noteq> None \<longrightarrow> map_of (w_fs w') k = map_of (w_fs w) k))"
  using assms renames.files_survive [of "(root, rel, name)" w r1 w'] creates.files_survive [of "(root, rel)" w r2 w']
    renames.journal_extends [of "(root, rel, name)" w r1 w'] creates.journal_extends [of "(root, rel)" w r2 w']
    renames.unannounced_untouched [of "(root, rel, name)" w r1 w']
    creates.unannounced_untouched [of "(root, rel)" w r2 w']
  by (simp, blast)

lemma sample_rename_ok: "\<exists>rep w'. rename_file ''/home/box'' ''docs/old.txt'' '' new.txt '' early_world = (Inr rep, w')"
proof -
  let ?run = "rename_file ''/home/box'' ''docs/old.txt'' '' new.txt '' early_world"
  have "is_ok (fst ?run)" by code_simp
  then show ?thesis by (cases ?run) (auto simp: is_ok_iff)
qed

theorem direct_operations_safe_witness:
  "\<exists>rep w'. rename_file ''/home/box'' ''docs/old.txt'' '' new.txt '' early_world = (Inr rep, w')
     \<and> file_nodes sample_fs \<subseteq># file_nodes (w_fs w')"
proof -
  obtain rep w' where run: "rename_file ''/home/box'' ''docs/old.txt'' '' new.txt '' early_world = (Inr rep, w')"
    using sample_rename_ok by blast
  moreover have "wf_fs (w_fs early_world)" using sample_wf by (simp add: early_world_def)
  moreover have "w_fs early_world = sample_fs" by (simp add: early_world_def sample_world_def)
  ultimately show ?thesis using direct_operations_safe [OF disjI1 [OF run]] by auto
qed

section \<open>What a renaming does\<close>

lemma sibling_plain:
  assumes "valid_loc (ds @ [x])" "valid_name n" and clean: "CHR 0x5C \<notin> set (join_with ''/'' ds)" "CHR 0x5C \<notin> set n"
  shows "sibling_relative_path (join_with ''/'' (ds @ [x])) n = join_with ''/'' (ds @ [n])"
proof (cases "ds = []")
  case False
  have v: "valid_loc ds" using assms(1) by (simp add: valid_loc_def)
  have ne: "join_with ''/'' ds \<noteq> []"
    using False v by (cases ds; cases "tl ds") (auto simp: valid_loc_def valid_name_def)
  have spelled: "join_with ''/'' (ds @ [n]) = join_with ''/'' ds @ ''/'' @ n"
    using join_with_append [OF False, of "[n]" "''/''"] by simp
  have "\<not> is_sep (last (join_with ''/'' ds))"
  proof -
    obtain es c where ec: "ds = es @ [c]" using False by (metis append_butlast_last_id)
    then have c: "valid_name c" using v by (simp add: valid_loc_def)
    have "last (join_with ''/'' ds) = last c"
      using ec c join_with_append [of es "[c]" "''/''"] by (cases "es = []") (auto simp: valid_name_def)
    with c last_in_set [of c] show ?thesis by (auto simp: valid_name_def is_sep_def simp del: last_in_set)
  qed
  moreover have "\<not> has_root n" using assms(2) by (cases n) (auto simp: valid_name_def is_sep_def)
  ultimately have "join_path (join_with ''/'' ds) n = join_with ''/'' (ds @ [n])"
    using ne spelled by (simp add: join_path_def)
  moreover have "replace_char (CHR 0x5C) (CHR ''/'') t = t" if "CHR 0x5C \<notin> set t" for t
    using that by (induction t) (auto simp: replace_char_def)
  moreover have "CHR 0x5C \<notin> set (join_with ''/'' (ds @ [n]))" using clean spelled by auto
  ultimately show ?thesis using parent_rel [OF assms(1)] ne by (simp add: sibling_relative_path_def)
qed (use parent_rel [OF assms(1)] in \<open>simp add: sibling_relative_path_def\<close>)

text \<open>renaming stays in the directory. For a file at a plain place of the root (no directory on the way has a
  backslash in its name) a successful \<^verbatim>\<open>rename_file\<close> puts the file, unchanged, next to where it was under the
  trimmed new name, which is one proper name; its old place is free, no file or directory was at the new one, and
  every other node that existed is unchanged.\<close>

theorem rename_file_renames:
  assumes run: "rename_file root (join_with ''/'' (ds @ [x])) name w = (Inr rep, w')"
    and gn: "guard_new w root = Inr g" and g: "guard_ok w g r"
    and l: "map_of (w_fs w) (r @ ds @ [x]) = Some (RegularFile c a)"
    and clean: "CHR 0x5C \<notin> set (join_with ''/'' ds)"
  shows "valid_name (trim name) \<and> rf_to rep = join_with ''/'' (ds @ [trim name])
    \<and> map_of (w_fs w') (r @ ds @ [x]) = None \<and> map_of (w_fs w') (r @ ds @ [trim name]) = Some (RegularFile c a)
    \<and> (map_of (w_fs w) (r @ ds @ [trim name]) = None \<or> is_link (map_of (w_fs w) (r @ ds @ [trim name])))
    \<and> (\<forall>k nd. map_of (w_fs w) k = Some nd \<longrightarrow> k \<noteq> r @ ds @ [x] \<longrightarrow> k \<noteq> r @ ds @ [trim name]
         \<longrightarrow> map_of (w_fs w') k = Some nd)"
proof -
  let ?rel = "join_with ''/'' (ds @ [x])" and ?n = "trim name" and ?l = "r @ ds @ [x]" and ?d = "r @ ds @ [trim name]"
  have wf: "wf_fs (w_fs w)" using g by (simp add: guard_ok_def)
  have v: "valid_loc (ds @ [x])" using wf_fs_valid [OF wf, of ?l] l by (simp add: valid_loc_def)
  have dir: "is_directory (map_of (w_fs w) (r @ ds))"
    using wf_fs_parent [OF wf, of ?l] l by (simp add: butlast_append)
  obtain source dst where src: "rename_source root ?rel name w = Inr (g, source, dst)"
    using run gn by (auto simp: rename_file_def action_iffs rename_source_def bind_res_Inr_iff Let_def split: if_splits)
  then obtain p where n: "validate_file_name name = Inr ?n" and dst: "dst = sibling_relative_path ?rel ?n"
    and s: "resolve_existing w g ?rel = Inr source" and p: "resolve_for_create w g dst = Inr p" "\<not> path_exists w p"
    using gn by (auto simp: rename_source_def bind_res_Inr_iff Let_def validate_file_name_ok split: if_splits)
  have n': "valid_name ?n" "CHR 0x5C \<notin> set ?n" using n by (simp_all add: validate_file_name_ok)
  have dst': "dst = join_with ''/'' (ds @ [?n])" using sibling_plain [OF v n'(1) clean n'(2)] dst by simp
  have source: "source = path_of_loc ?l" using resolve_existing_rel [OF g, of "ds @ [x]"] s l by simp
  have vd: "valid_loc (ds @ [?n])" using v n'(1) by (simp add: valid_loc_def)
  have p': "p = path_of_loc ?d"
    using resolve_for_create_rel [OF g vd] dir p(1) dst' by (simp add: butlast_append)
  obtain store nanos w1 w2 w3 i where o: "store_open (guard_root g) w = (Inr store, w1)"
    and c: "(unix_nanos :: (FileOpError, nat) act) w1 = (Inr nanos, w2)"
    and ap: "append_rename store i Planned ?rel dst w2 = (Inr (), w3)"
    and go: "rename_planned g store source ?rel dst i w3 = (Inr rep, w')"
    using run src by (auto simp: rename_file_def action_iffs Let_def)
  have ad: "adds_dirs w w3"
    using keepsD [OF store_open_adds o] keepsD [OF clock_adds(2) c] keepsD [OF append_rename_frames(4) ap]
    by (blast intro: adds_dirs.trans)
  have cwd: "w_cwd w3 = w_cwd w"
    using keepsD [OF store_open_frames(4) o] keepsD [OF clock_env(4) c] keepsD [OF append_rename_frames(2) ap]
    by (simp add: same_env_def)
  have "resolve_for_create w3 g dst = Inr p"
    using resolve_for_create_kept [OF adds_dirs_kept' [OF ad wf] cwd p(1)] .
  then obtain w4 where mv: "fs_rename (path_of_loc ?l) p w3 = (Inr (), w4)" and w': "w_fs w' = w_fs w4" "rf_to rep = dst"
    using go keepsD [OF append_rename_frames(1)] source
    by (fastforce simp: rename_planned_def action_iffs same_fs_def)
  have free: "map_of (w_fs w) ?d = None \<or> is_link (map_of (w_fs w) ?d)"
    using absent_place [OF wf] p(2) p' by simp
  have "landing w p ?d"
    using p' vd guard_ok_valid [OF g] dir dir_not_link
    by (auto simp: landing_def valid_loc_def butlast_append is_directory_iff)
  then have land: "landing w3 p ?d" using landing_kept [OF adds_dirs_kept' [OF ad wf]] by blast
  have "?l \<noteq> ?d" using free l by auto
  moreover have "wf_fs (w_fs w3)" using ad wf by (simp add: adds_dirs_def)
  ultimately have "map_of (w_fs w4) = (map_of (w_fs w3))(?l := None, ?d \<mapsto> RegularFile c a)"
    using rename_regular [OF mv _ adds_dirs_kept [OF ad wf l] land] by blast
  then show ?thesis using n'(1) dst' w' free \<open>?l \<noteq> ?d\<close> adds_dirs_kept [OF ad wf] by simp
qed

theorem rename_file_renames_witness:
  "\<exists>rep w'. rename_file ''/home/box'' ''docs/old.txt'' '' new.txt '' early_world = (Inr rep, w')
     \<and> map_of (w_fs w') [''home'', ''box'', ''docs'', ''old.txt''] = None
     \<and> map_of (w_fs w') [''home'', ''box'', ''docs'', ''new.txt''] = Some (RegularFile [] (sample_attrs 7))"
proof -
  obtain rep w' where run: "rename_file ''/home/box'' ''docs/old.txt'' '' new.txt '' early_world = (Inr rep, w')"
    using sample_rename_ok by blast
  have spelled: "join_with ''/'' ([''docs''] @ [''old.txt'']) = ''docs/old.txt''" and t: "trim '' new.txt '' = ''new.txt''"
    and g: "guard_new early_world ''/home/box'' = Inr sample_guard"
    and l: "map_of (w_fs early_world) (sample_root @ [''docs''] @ [''old.txt'']) = Some (RegularFile [] (sample_attrs 7))"
    and c: "CHR 0x5C \<notin> set (join_with ''/'' [''docs''])"
    by code_simp+
  have ok: "guard_ok early_world sample_guard sample_root"
    using sample_guard_ok by (simp add: guard_ok_def early_world_def)
  from rename_file_renames [OF run [folded spelled] g ok l c] run show ?thesis
    by (auto simp: t sample_root_def)
qed

text \<open>The target of a renaming is computed by replacing every backslash of the parent directory, which on Unix
  is an ordinary character of a name: for a file in a directory whose name is \<^verbatim>\<open>a\<close>, a backslash and \<^verbatim>\<open>b\<close> the target lies in another directory.\<close>

theorem sibling_backslash_leaves:
  "sibling_relative_path (''a'' @ [CHR 0x5C] @ ''b/x.txt'') ''y.txt'' = ''a/b/y.txt''
   \<and> parent (''a'' @ [CHR 0x5C] @ ''b/x.txt'') = Some (''a'' @ [CHR 0x5C] @ ''b'')"
  by code_simp

end
