(* ===== verification/Roundtrip.thy ===== *)
theory Roundtrip
  imports Undo Plain_Paths
begin

text \<open>
  The composition of executing and undoing. A move whose texts are plain names is undone completely: when no
  system call fails, \<^verbatim>\<open>undo\<close> succeeds and the tree holds again everything the move found, at its place.
  Before that: an executed move puts the source where the proposal's target leads.
\<close>

section \<open>Undo succeeds when nothing is in the way\<close>

lemma append_undo_ok:
  assumes "\<And>n. \<not> w_fails w n" and "w_dbs w (js_db_path store) \<noteq> None"
  obtains w' where "append_undo store e s w = (Inr (), w')" "w_fs w' = w_fs w" "same_env w w'"
    "w_dbs w' (js_db_path store) \<noteq> None"
proof -
  obtain now w1 where clk: "(unix_ms :: (UndoError, nat) act) w = (Inr now, w1)"
    by (simp add: unix_ms_def)
  have w1: "w_fails w1 = w_fails w" "w_dbs w1 = w_dbs w"
    using keepsD [OF clock_env(1) clk] keepsD [OF clock_env(2) clk] by (simp_all add: same_env_def same_dbs_def)
  then obtain w' where ap: "append_entry store \<lparr>je_operation_id = je_operation_id e, je_status = s,
      je_action = je_action e, je_from = je_to e, je_to = je_from e, je_created_unix_ms = now\<rparr> w1 = (Inr (), w')"
    using assms by (auto simp: append_ok_iff)
  then have run: "append_undo store e s w = (Inr (), w')"
    unfolding append_undo_eq using clk by (auto simp: action_iffs)
  moreover have "w_dbs w' (js_db_path store) \<noteq> None" using ap by (auto simp: append_ok_iff)
  ultimately show thesis
    using that keepsD [OF append_undo_frames(1) run] keepsD [OF append_undo_frames(2) run] by (simp add: same_fs_def)
qed

lemma missing_place:
  assumes wf: "wf_fs (w_fs w)" and l: "map_of (w_fs w) l = None" "slot (w_fs w) l"
  shows "\<not> path_exists w (path_of_loc l)" "walk_path w False (path_of_loc l) = Inr (l, None)"
proof -
  have "walk_path w follow (path_of_loc l) = Inr (l, None)" for follow
    using walk_path_of_loc [OF wf, of follow l] l by (simp add: real_end_def)
  then show "walk_path w False (path_of_loc l) = Inr (l, None)" "\<not> path_exists w (path_of_loc l)"
    by (simp_all add: path_exists_def fs_metadata_def resolve_def is_ok_def)
qed

lemma rename_succeeds:
  assumes wf: "wf_fs (w_fs w)" and l: "map_of (w_fs w) l = Some (RegularFile x a)"
    and d: "map_of (w_fs w) d = None" "slot (w_fs w) d" and "\<not> w_fails w (w_tick w)"
  obtains w' where "fs_rename (path_of_loc l) (path_of_loc d) w = (Inr (), w')"
proof -
  have "\<not> prefix l d"
  proof
    assume "prefix l d"
    with l d(1) have "strict_prefix l d" by (auto simp: strict_prefix_def)
    then have "prefix l (butlast d)"
      using d(2) by (metis append_butlast_last_id prefix_snoc slot_def strict_prefix_def)
    moreover have "map_of (w_fs w) (butlast d) \<noteq> None" and dir: "is_directory (map_of (w_fs w) (butlast d))"
      using d(2) by (auto simp: slot_def is_directory_iff)
    ultimately have "is_directory (map_of (w_fs w) l)"
      using wf_fs_above [OF wf] by (cases "l = butlast d") (auto simp: strict_prefix_def)
    with l show False by simp
  qed
  moreover have "resolve w False (path_of_loc l) = Inr (l, RegularFile x a)" using resolve_path_of_loc [OF wf l] by simp
  moreover have "l \<noteq> d" using l d(1) by auto
  ultimately have "fs_rename (path_of_loc l) (path_of_loc d) w
      = (Inr (), w\<lparr>w_tick := Suc (w_tick w), w_fs := fs_move l d (w_fs w)\<rparr>)"
    using assms(5) missing_place(2) [OF wf d] by (simp add: fs_rename_def syscall_def rename_node_def Let_def)
  then show thesis by (rule that)
qed

lemma undo_move_succeeds:
  assumes g: "guard_ok w g r" and nofail: "\<And>n. \<not> w_fails w n" and db: "w_dbs w (js_db_path store) \<noteq> None"
    and src: "je_from e = join_with ''/'' src" "valid_loc src" "src \<noteq> []"
    and dst: "je_to e = join_with ''/'' dst" "dst \<noteq> []"
    and at: "map_of (w_fs w) (r @ dst) = Some (RegularFile x a)" and free: "map_of (w_fs w) (r @ src) = None"
    and dir: "is_directory (map_of (w_fs w) (butlast (r @ src)))"
  obtains w' where "undo_move g store e w = (Inr (Inr (undone_result e None)), w')"
    "map_of (w_fs w') = (map_of (w_fs w))(r @ dst := None, r @ src \<mapsto> RegularFile x a)"
proof -
  have wf: "wf_fs (w_fs w)" and root: "guard_root g = path_of_loc r" using g by (auto simp: guard_ok_def)
  have vr: "valid_loc r" using guard_ok_valid [OF g] .
  have v: "valid_loc (r @ src)" using vr src(2) by (simp add: valid_loc_def)
  have slot: "slot (w_fs w) (r @ src)" using v dir src(3) by (simp add: slot_def)
  have cand: "join_path (guard_root g) (je_from e) = path_of_loc (r @ src)"
    using join_path_rel [OF vr src(2,3)] root src(1) by simp
  have par: "parent (path_of_loc (r @ src)) = Some (path_of_loc (butlast (r @ src)))"
  proof -
    have split: "r @ src = butlast (r @ src) @ [last (r @ src)]" using src(3) append_butlast_last_id [of "r @ src"] by simp
    show ?thesis using v parent_loc [of "butlast (r @ src)" "last (r @ src)"] unfolding split [symmetric] by blast
  qed
  have here: "resolve_existing w g (je_to e) = Inr (path_of_loc (r @ dst))"
    using resolve_existing_rel [OF g dst(2) at] dst(1) by simp
  define w1 where "w1 = w\<lparr>w_tick := Suc (w_tick w)\<rparr>"
  have mk: "create_dir_all (path_of_loc (butlast (r @ src))) w = (Inr (), w1)"
    using create_dir_all_exists [OF wf dir nofail] by (simp add: w1_def)
  have g1: "guard_ok w1 g r" using g by (simp add: w1_def guard_ok_def)
  have to: "resolve_for_create w1 g (je_from e) = Inr (path_of_loc (r @ src))"
    using resolve_for_create_rel [OF g1 src(2,3)] dir src(1) by (simp add: w1_def)
  have gone: "\<not> path_exists w1 (path_of_loc (r @ src))"
    using missing_place(1) [of w1 "r @ src"] wf free slot by (simp add: w1_def)
  obtain w2 where plan: "append_undo store e UndoPlanned w1 = (Inr (), w2)" "w_fs w2 = w_fs w1" "same_env w1 w2"
    "w_dbs w2 (js_db_path store) \<noteq> None"
    using append_undo_ok [of w1 store] nofail db by (auto simp: w1_def)
  have w2: "w_fs w2 = w_fs w" "w_fails w2 = w_fails w" using plan(2,3) by (simp_all add: w1_def same_env_def)
  obtain w3 where mv: "fs_rename (path_of_loc (r @ dst)) (path_of_loc (r @ src)) w2 = (Inr (), w3)"
    using rename_succeeds [of w2 "r @ dst" x a "r @ src"] wf at free slot nofail w2 by auto
  have w3: "w_fails w3 = w_fails w" "w_dbs w3 (js_db_path store) \<noteq> None"
    using keepsD [OF calls_env(5) mv] keepsD [OF calls_dbs(5) mv] plan(4) w2 by (simp_all add: same_env_def same_dbs_def)
  obtain w' where fin: "append_undo store e JournalStatus.Undone w3 = (Inr (), w')" "w_fs w' = w_fs w3"
    using append_undo_ok [of w3 store] nofail w3 by metis
  have land: "landing w2 (path_of_loc (r @ src)) (r @ src)"
    using v src(3) dir dir_not_link w2(1) by (auto simp: landing_def is_directory_iff)
  have "r @ dst \<noteq> r @ src" using at free by auto
  then have "map_of (w_fs w3) = (map_of (w_fs w))(r @ dst := None, r @ src \<mapsto> RegularFile x a)"
    using rename_regular [OF mv _ _ land] wf at w2(1) by simp
  moreover have "undo_move g store e w = (Inr (Inr (undone_result e None)), w')"
    using here cand par mk to gone plan(1) mv fin(1)
    by (simp add: undo_move_def bindA_def map_errA_def Let_def)
  ultimately show thesis using that fin(2) by simp
qed

text \<open>Where a plain destination without links above its last name leads, after directories have been added.\<close>

lemma adds_dirs_straight:
  assumes ad: "adds_dirs w w3" and g: "guard_ok w g r" and dst: "valid_loc dst" "dst \<noteq> []"
    and links: "\<forall>k. strict_prefix k (r @ dst) \<longrightarrow> \<not> is_link (map_of (w_fs w) k)"
    and to: "resolve_for_create w3 g (join_with ''/'' dst) = Inr (path_of_loc d)" and d: "valid_loc d"
  shows "d = r @ dst"
proof -
  have wf: "wf_fs (w_fs w)" using g by (simp add: guard_ok_def)
  have "\<not> is_link (map_of (w_fs w3) k)" if "strict_prefix k (r @ dst)" for k
    using links that ad wf dir_not_link unfolding adds_dirs_def by metis
  with resolve_for_create_straight [OF adds_dirs_guard [OF ad g] dst _ to]
  have "path_of_loc d = path_of_loc (r @ dst)" by blast
  then show ?thesis
    using path_of_loc_inj guard_ok_valid [OF g] dst(1) d by (auto simp: valid_loc_def)
qed

text \<open>C25: a move that reports success did exactly what was proposed. The file the source led to, inside the root,
  is now at the place inside the root that the proposed destination names once its missing directories have been
  created (literally the root followed by the destination, when that is a plain path with no symbolic link above
  its last name); it has its content and attributes; its old place is free. Nothing could be reached at the new
  place before: it was free or held a symbolic link that leads nowhere. Every other node that existed is unchanged, all that is
  new are directories, and the journal gained the planned and the executed row of the operation, in this order.\<close>

theorem execute_move_moves:
  assumes run: "execute_move g store c i w = (Inr (Inr res), w')" and g: "guard_ok w g r"
    and src: "resolve_existing w g (pc_from c) = Inr (path_of_loc l)"
    and l: "map_of (w_fs w) l = Some (RegularFile x a)"
  shows "\<exists>w3 d row1 row2. adds_dirs w w3 \<and> resolve_for_create w3 g (pc_to c) = Inr (path_of_loc d)
    \<and> (\<forall>dst. pc_to c = join_with ''/'' dst \<and> valid_loc dst \<and> dst \<noteq> []
          \<and> (\<forall>k. strict_prefix k (r @ dst) \<longrightarrow> \<not> is_link (map_of (w_fs w) k)) \<longrightarrow> d = r @ dst)
    \<and> prefix r d \<and> l \<noteq> d \<and> \<not> path_exists w3 (path_of_loc d)
    \<and> (map_of (w_fs w) d = None \<or> is_link (map_of (w_fs w) d))
    \<and> map_of (w_fs w') l = None \<and> map_of (w_fs w') d = Some (RegularFile x a)
    \<and> (\<forall>k. k \<noteq> l \<longrightarrow> k \<noteq> d \<longrightarrow> map_of (w_fs w') k = map_of (w_fs w) k
          \<or> map_of (w_fs w) k = None \<and> is_directory (map_of (w_fs w') k))
    \<and> journal_of w' = (journal_of w)(js_db_path store := journal_of w (js_db_path store) @ [row1, row2])
    \<and> row_operation_id row1 = row_operation_id row2
    \<and> row_status row1 = status_as_db_str Planned \<and> row_status row2 = status_as_db_str JournalStatus.Executed
    \<and> row_from_path row1 = pc_from c \<and> row_to_path row1 = pc_to c
    \<and> row_from_path row2 = pc_from c \<and> row_to_path row2 = pc_to c"
proof -
  have wf: "wf_fs (w_fs w)" using g by (simp add: guard_ok_def)
  obtain d w3 row1 row2 where to: "resolve_for_create w3 g (pc_to c) = Inr (path_of_loc d)" and ad: "adds_dirs w w3"
    and d: "\<not> path_exists w3 (path_of_loc d)" "prefix r d" "l \<noteq> d"
      "map_of (w_fs w3) d = None \<or> is_link (map_of (w_fs w3) d)"
      "map_of (w_fs w') = (map_of (w_fs w3))(l := None, d \<mapsto> RegularFile x a)"
    and wf': "wf_fs (w_fs w')"
    and js: "journal_of w' = (journal_of w)(js_db_path store := journal_of w (js_db_path store) @ [row1, row2])"
    and rows: "row_operation_id row1 = row_operation_id row2" "row_status row1 = status_as_db_str Planned"
      "row_status row2 = status_as_db_str JournalStatus.Executed"
      "row_from_path row1 = pc_from c" "row_to_path row1 = pc_to c"
      "row_from_path row2 = pc_from c" "row_to_path row2 = pc_to c"
    using execute_move_effect [OF assms] by metis
  have "map_of (w_fs w) d = None \<or> is_link (map_of (w_fs w) d)"
    using d(4) adds_dirs_kept [OF ad wf] by (cases "map_of (w_fs w) d") auto
  moreover have "valid_loc d" using wf_fs_valid [OF wf'] d(5) by simp
  then have "d = r @ dst" if "pc_to c = join_with ''/'' dst" "valid_loc dst" "dst \<noteq> []"
    "\<forall>k. strict_prefix k (r @ dst) \<longrightarrow> \<not> is_link (map_of (w_fs w) k)" for dst
    using that to adds_dirs_straight [OF ad g that(2,3)] by simp
  ultimately show ?thesis using to ad d js rows wf unfolding adds_dirs_def
    by (intro exI [of _ w3] exI [of _ d] exI [of _ row1] exI [of _ row2]) auto
qed

theorem execute_move_moves_witness:
  "\<exists>res w'. execute_move sample_guard sample_store (sample_move ''docs/notes.pdf'') 0 early_db_world
       = (Inr (Inr res), w')
     \<and> map_of (w_fs w') [''home'', ''box'', ''notes.pdf''] = None
     \<and> map_of (w_fs w') [''home'', ''box'', ''docs'', ''notes.pdf''] = Some (RegularFile ''hello'' (sample_attrs 4))
     \<and> length (journal_of w' (js_db_path sample_store)) = 2"
proof -
  let ?run = "execute_move sample_guard sample_store (sample_move ''docs/notes.pdf'') 0 early_db_world"
  have "case fst ?run of Inr (Inr _) \<Rightarrow> True | _ \<Rightarrow> False" by code_simp
  then obtain res w' where run: "?run = (Inr (Inr res), w')"
    by (cases ?run) (auto split: sum.splits)
  have here: "resolve_existing early_db_world sample_guard (pc_from (sample_move ''docs/notes.pdf''))
      = Inr (path_of_loc [''home'', ''box'', ''notes.pdf''])"
    "map_of (w_fs early_db_world) [''home'', ''box'', ''notes.pdf''] = Some (RegularFile ''hello'' (sample_attrs 4))"
    "journal_of early_db_world (js_db_path sample_store) = []"
    by code_simp+
  have texts: "pc_to (sample_move ''docs/notes.pdf'') = join_with ''/'' [''docs'', ''notes.pdf'']"
    "valid_loc [''docs'', ''notes.pdf'']" by code_simp+
  have "\<forall>k\<in>set (prefixes (sample_root @ [''docs'', ''notes.pdf''])). \<not> is_link (map_of (w_fs early_db_world) k)"
    by code_simp
  then have links: "\<forall>k. strict_prefix k (sample_root @ [''docs'', ''notes.pdf'']) \<longrightarrow> \<not> is_link (map_of (w_fs early_db_world) k)"
    using in_set_prefixes by (simp add: strict_prefix_def)
  obtain d row1 row2 where there: "\<forall>dst. pc_to (sample_move ''docs/notes.pdf'') = join_with ''/'' dst \<and> valid_loc dst \<and> dst \<noteq> []
          \<and> (\<forall>k. strict_prefix k (sample_root @ dst) \<longrightarrow> \<not> is_link (map_of (w_fs early_db_world) k)) \<longrightarrow> d = sample_root @ dst"
    and moved: "map_of (w_fs w') [''home'', ''box'', ''notes.pdf''] = None" "map_of (w_fs w') d = Some (RegularFile ''hello'' (sample_attrs 4))"
    and rows: "journal_of w' = (journal_of early_db_world)(js_db_path sample_store :=
      journal_of early_db_world (js_db_path sample_store) @ [row1, row2])"
    using execute_move_moves [OF run early_db_facts(2) here(1,2)] by blast
  have "d = [''home'', ''box'', ''docs'', ''notes.pdf'']" using there texts links by (simp add: sample_root_def)
  then show ?thesis using run moved here(3) by (simp add: rows)
qed

text \<open>C10: executing a move and then undoing it restores the tree. Take a file at a plain place of the root and a plain
  destination with no symbolic link on its way; suppose the move reported success and no system call or statement
  fails. Then \<^verbatim>\<open>undo\<close> of the recorded operation succeeds, the file is back at its place with its content and
  attributes, everything else that existed before the move is as it was, and all that is new are directories.\<close>

theorem move_undo_roundtrip:
  assumes run: "execute_move g store c i w = (Inr (Inr res), w1)" and g: "guard_ok w g r"
    and nofail: "\<And>n. \<not> w_fails w n"
    and src: "pc_from c = join_with ''/'' src" "src \<noteq> []" "map_of (w_fs w) (r @ src) = Some (RegularFile x a)"
    and dst: "pc_to c = join_with ''/'' dst" "valid_loc dst" "dst \<noteq> []"
    and links: "\<And>k. prefix k (r @ dst) \<Longrightarrow> \<not> is_link (map_of (w_fs w) k)"
    and e: "je_from e = pc_from c" "je_to e = pc_to c"
  shows "\<exists>w2. undo_move g store e w1 = (Inr (Inr (undone_result e None)), w2)
    \<and> map_of (w_fs w2) (r @ src) = Some (RegularFile x a) \<and> map_of (w_fs w2) (r @ dst) = None
    \<and> (\<forall>k. map_of (w_fs w2) k = map_of (w_fs w) k \<or> map_of (w_fs w) k = None \<and> is_directory (map_of (w_fs w2) k))"
proof -
  have wf: "wf_fs (w_fs w)" using g by (simp add: guard_ok_def)
  have "valid_loc (r @ src)" using wf_fs_valid [OF wf] src(3) by simp
  then have vs: "valid_loc src" by (simp add: valid_loc_def)
  have here: "resolve_existing w g (pc_from c) = Inr (path_of_loc (r @ src))"
    using resolve_existing_rel [OF g src(2,3)] src(1) by simp
  obtain d w3 where to: "resolve_for_create w3 g (pc_to c) = Inr (path_of_loc d)" and ad: "adds_dirs w w3"
    and d: "r @ src \<noteq> d" "map_of (w_fs w3) d = None \<or> is_link (map_of (w_fs w3) d)"
      "map_of (w_fs w1) = (map_of (w_fs w3))(r @ src := None, d \<mapsto> RegularFile x a)" "prefix r d"
    and after: "wf_fs (w_fs w1)" "same_env w w1" "w_dbs w1 (js_db_path store) \<noteq> None"
    using execute_move_effect [OF run g here src(3)] by metis
  have "valid_loc d" using wf_fs_valid [OF after(1)] d(3) by simp
  then have dd: "d = r @ dst"
    using adds_dirs_straight [OF ad g dst(2,3) _ to [unfolded dst(1)]] links by (simp add: strict_prefix_def)
  have links3: "\<not> is_link (map_of (w_fs w3) (r @ dst))"
    using links [of "r @ dst"] ad wf dir_not_link unfolding adds_dirs_def by (metis prefix_order.refl)
  have gone: "map_of (w_fs w3) (r @ dst) = None" using d(2) links3 dd by auto
  have dir: "is_directory (map_of (w_fs w1) k)" if "is_directory (map_of (w_fs w) k)" for k
  proof -
    have "k \<noteq> r @ src" "k \<noteq> r @ dst" using that src(3) gone adds_dirs_kept [OF ad wf] by (auto simp: is_directory_iff)
    then show ?thesis using that adds_dirs_kept [OF ad wf] d(3) dd by (auto simp: is_directory_iff)
  qed
  have g1: "guard_ok w1 g r" using g after(1) dir by (auto simp: guard_ok_def)
  have above: "is_directory (map_of (w_fs w1) (butlast (r @ src)))"
    using dir wf_fs_parent [OF wf] src(2,3) by simp
  have at: "map_of (w_fs w1) (r @ dst) = Some (RegularFile x a)" "map_of (w_fs w1) (r @ src) = None"
    using d(1,3) dd by simp_all
  have calm: "\<And>n. \<not> w_fails w1 n" using nofail after(2) by (simp add: same_env_def)
  obtain w2 where un: "undo_move g store e w1 = (Inr (Inr (undone_result e None)), w2)"
    and fs2: "map_of (w_fs w2) = (map_of (w_fs w1))(r @ dst := None, r @ src \<mapsto> RegularFile x a)"
    using undo_move_succeeds [OF g1 calm after(3) _ vs src(2) _ dst(3) at above] e src(1) dst(1) by metis
  have "map_of (w_fs w2) = (map_of (w_fs w3))(r @ src \<mapsto> RegularFile x a)"
    using fs2 d(3) dd gone by (auto simp: fun_eq_iff)
  then show ?thesis using un ad wf src(3) gone d(1) dd adds_dirs_kept [OF ad wf]
    by (auto simp: adds_dirs_def)
qed

definition sample_undo :: "string \<Rightarrow> JournalEntry" where
  "sample_undo dst = \<lparr>je_operation_id = ''op-1-0'', je_status = JournalStatus.Executed, je_action = JournalAction.Move,
     je_from = ''notes.pdf'', je_to = dst, je_created_unix_ms = 1\<rparr>"

theorem move_undo_roundtrip_witness:
  "\<exists>res w1 w2. execute_move sample_guard sample_store (sample_move ''docs/notes.pdf'') 0 early_db_world
       = (Inr (Inr res), w1)
     \<and> map_of (w_fs w1) [''home'', ''box'', ''notes.pdf''] = None
     \<and> undo_move sample_guard sample_store (sample_undo ''docs/notes.pdf'') w1
       = (Inr (Inr (undone_result (sample_undo ''docs/notes.pdf'') None)), w2)
     \<and> map_of (w_fs w2) [''home'', ''box'', ''notes.pdf''] = Some (RegularFile ''hello'' (sample_attrs 4))"
proof -
  let ?run = "execute_move sample_guard sample_store (sample_move ''docs/notes.pdf'') 0 early_db_world"
  have "case ?run of (r, w') \<Rightarrow> (case r of Inr (Inr _) \<Rightarrow> True | _ \<Rightarrow> False)
      \<and> map_of (w_fs w') [''home'', ''box'', ''notes.pdf''] = None" by code_simp
  then obtain res w1 where run: "?run = (Inr (Inr res), w1)" "map_of (w_fs w1) [''home'', ''box'', ''notes.pdf''] = None"
    by (cases ?run) (auto split: sum.splits)
  have calm: "\<And>n. \<not> w_fails early_db_world n"
    by (simp add: early_db_world_def sample_db_world_def sample_world_def)
  have texts: "pc_from (sample_move ''docs/notes.pdf'') = join_with ''/'' [''notes.pdf'']"
    "pc_to (sample_move ''docs/notes.pdf'') = join_with ''/'' [''docs'', ''notes.pdf'']"
    "valid_loc [''docs'', ''notes.pdf'']"
    "map_of (w_fs early_db_world) (sample_root @ [''notes.pdf'']) = Some (RegularFile ''hello'' (sample_attrs 4))"
    by code_simp+
  have "\<forall>k\<in>set (prefixes (sample_root @ [''docs'', ''notes.pdf''])). \<not> is_link (map_of (w_fs early_db_world) k)"
    by code_simp
  then have links: "\<And>k. prefix k (sample_root @ [''docs'', ''notes.pdf'']) \<Longrightarrow> \<not> is_link (map_of (w_fs early_db_world) k)"
    using in_set_prefixes by blast
  from move_undo_roundtrip [OF run(1) early_db_facts(2) calm texts(1) _ texts(4) texts(2,3) _ links, of "sample_undo ''docs/notes.pdf''"] run
  show ?thesis by (auto simp: sample_undo_def sample_move_def sample_root_def)
qed

end
