(* ===== verification/Browse.thy ===== *)
theory Browse
  imports Analyzer Containment "HOL-Library.Product_Lexorder"
begin

text \<open>
  \<^verbatim>\<open>browse.rs\<close>: one directory level for the file browser. The listing is proved exact: for every request the guard
  accepts, the report holds the visible children of that directory, directories first and each group by name, and
  names the symbolic links it left out.
\<close>

section \<open>Model\<close>

record BrowseEntry =
  be_name :: string
  be_path :: string
  be_is_dir :: bool
  be_size_bytes :: "nat option"
  be_modified_unix_ms :: "nat option"

record BrowseReport =
  br_root :: string
  br_path :: string
  br_entries :: "BrowseEntry list"
  br_skipped_entries :: "SkippedEntry list"

datatype BrowseError =
    Guard PathGuardError
  | NotADirectory string
  | ReadDir string string
  | Metadata string string
  | EscapedEntry string
  | Serialize string

fun browse_error_to_string :: "BrowseError \<Rightarrow> string" where
  "browse_error_to_string (Guard error) = path_guard_error_to_string error"
| "browse_error_to_string (NotADirectory path) = ''path is not a directory: '' @ path"
| "browse_error_to_string (ReadDir path message) =
     ''cannot read directory '' @ path @ '': '' @ message"
| "browse_error_to_string (Metadata path message) =
     ''cannot read metadata '' @ path @ '': '' @ message"
| "browse_error_to_string (EscapedEntry path) = ''entry escaped managed root: '' @ path"
| "browse_error_to_string (Serialize message) = ''cannot serialize report: '' @ message"

definition normalize_relative :: "string \<Rightarrow> string" where
  "normalize_relative path =
     join_with ''/'' (filter (\<lambda>segment. segment \<noteq> [])
       (split_on (\<lambda>c. c = CHR ''/'' \<or> c = CHR 0x5C) path))"

definition relative_entry_path :: "string \<Rightarrow> string \<Rightarrow> BrowseError + string" where
  "relative_entry_path root path =
     (case strip_prefix_components path root of
        None \<Rightarrow> Inl (EscapedEntry path)
      | Some relative \<Rightarrow> Inr (join_with ''/'' (map component_str relative)))"

text \<open>The body of the loop over the directory's entries; the accumulator holds the two growing lists.\<close>

definition browse_entry ::
  "world \<Rightarrow> string \<Rightarrow> string \<Rightarrow> BrowseEntry list \<times> SkippedEntry list \<Rightarrow> BrowseEntry list \<times> SkippedEntry list" where
  "browse_entry w root entry_path acc =
     (case acc of (entries, skipped) \<Rightarrow>
        if is_mousekeeper_internal_dir entry_path then acc
        else (case fs_symlink_metadata w entry_path of
           Inl error \<Rightarrow> (entries, skipped @ [skipped_entry root entry_path (io_error_to_string error)])
         | Inr metadata \<Rightarrow>
             if is_link_or_reparse_point metadata then
               (entries, skipped @ [skipped_entry root entry_path ''skipped symlink, junction, or reparse point''])
             else
               let is_dir = m_is_dir metadata;
                   name = (case file_name entry_path of None \<Rightarrow> [] | Some name \<Rightarrow> name)
               in case relative_entry_path root entry_path of
                    Inr path \<Rightarrow>
                      (entries @ [\<lparr>be_name = name, be_path = path, be_is_dir = is_dir,
                         be_size_bytes = (if is_dir then None else Some (m_len metadata)),
                         be_modified_unix_ms = modified_unix_ms metadata\<rparr>], skipped)
                  | Inl error \<Rightarrow>
                      (entries, skipped @ [skipped_entry root entry_path (browse_error_to_string error)])))"

text \<open>The order of the comparator: directories before files, then by name.\<close>

definition browse_order :: "BrowseEntry \<Rightarrow> bool \<times> string" where
  "browse_order entry = (\<not> be_is_dir entry, be_name entry)"

definition browse_target :: "world \<Rightarrow> path_guard \<Rightarrow> string \<Rightarrow> BrowseError + string" where
  "browse_target w guard relative =
     (if relative = [] then Inr (guard_root guard)
      else bind_res (map_err Guard (resolve_existing w guard relative)) (\<lambda>resolved.
             if \<not> path_is_dir w resolved then Inl (NotADirectory resolved) else Inr resolved))"

definition browse_root :: "world \<Rightarrow> string \<Rightarrow> string option \<Rightarrow> BrowseError + BrowseReport" where
  "browse_root w root request =
     bind_res (map_err Guard (guard_new w root)) (\<lambda>guard.
       let relative = normalize_relative (case request of None \<Rightarrow> [] | Some text \<Rightarrow> text)
       in bind_res (browse_target w guard relative) (\<lambda>target_dir.
          bind_res (map_err (\<lambda>error. ReadDir target_dir (io_error_to_string error)) (read_dir w target_dir)) (\<lambda>names.
            case fold (\<lambda>name. browse_entry w (guard_root guard) (join_path target_dir name)) names ([], []) of
              (entries, skipped) \<Rightarrow>
                Inr \<lparr>br_root = guard_root guard, br_path = relative,
                     br_entries = sort_key browse_order entries,
                     br_skipped_entries = sort_key se_path skipped\<rparr>)))"

section \<open>The listing is exact\<close>

definition listed_entry :: "world \<Rightarrow> loc \<Rightarrow> loc \<Rightarrow> BrowseEntry" where
  "listed_entry w r rel =
     (let m = node_metadata (the (map_of (w_fs w) (r @ rel)))
      in \<lparr>be_name = last rel, be_path = join_with ''/'' rel, be_is_dir = m_is_dir m,
          be_size_bytes = (if m_is_dir m then None else Some (m_len m)),
          be_modified_unix_ms = modified_unix_ms m\<rparr>)"

text \<open>The visible children of a directory whose node satisfies a predicate.\<close>

definition children :: "world \<Rightarrow> loc \<Rightarrow> loc \<Rightarrow> (node option \<Rightarrow> bool) \<Rightarrow> loc set" where
  "children w r base P = {base @ [c] | c. visible [c] \<and> map_of (w_fs w) (r @ base @ [c]) \<noteq> None
     \<and> P (map_of (w_fs w) (r @ base @ [c]))}"

text \<open>The directory a request names: the root for the empty request, otherwise what the guard resolves.\<close>

definition names_directory :: "world \<Rightarrow> path_guard \<Rightarrow> loc \<Rightarrow> string \<Rightarrow> loc \<Rightarrow> bool" where
  "names_directory w g r rel base \<longleftrightarrow> is_directory (map_of (w_fs w) (r @ base))
     \<and> (if rel = [] then base = [] else resolve_existing w g rel = Inr (path_of_loc (r @ base)))"

lemma browse_entry_loc:
  assumes wf: "wf_fs (w_fs w)" and nd: "map_of (w_fs w) (r @ base @ [c]) = Some nd"
  shows "browse_entry w (path_of_loc r) (path_of_loc (r @ base @ [c])) (es, ss) =
    (if \<not> visible [c] then (es, ss)
     else if is_link (Some nd) then (es, ss @ [link_entry (base @ [c])])
     else (es @ [listed_entry w r (base @ [c])], ss))"
proof -
  have v: "valid_loc ((r @ base) @ [c])" using wf_fs_valid [OF wf] nd by auto
  then have vr: "valid_loc r" "valid_loc (base @ [c])" by (simp_all add: valid_loc_def)
  have meta: "fs_symlink_metadata w (path_of_loc (r @ base @ [c])) = Inr (node_metadata nd)"
    using resolve_path_of_loc [OF wf nd, of False] by (simp add: fs_symlink_metadata_def)
  have rel: "relative_entry_path (path_of_loc r) (path_of_loc (r @ base @ [c])) = Inr (join_with ''/'' (base @ [c]))"
    using relative_path_loc(1) [OF vr]
    by (auto simp: relative_entry_path_def Analyzer.relative_path_def split: option.splits)
  show ?thesis
    using meta rel file_name_loc [OF v] internal_loc [OF v] relative_path_loc(2) [OF vr] nd
    by (cases nd) (auto simp: browse_entry_def visible_def link_entry_def skipped_entry_def listed_entry_def Let_def
        is_link_or_reparse_point_def is_windows_reparse_point_def node_metadata_def)
qed

lemma browse_entries_loc:
  assumes wf: "wf_fs (w_fs w)" and "\<forall>c \<in> set names. map_of (w_fs w) (r @ base @ [c]) \<noteq> None"
    and "valid_loc (r @ base)"
  shows "fold (\<lambda>name. browse_entry w (path_of_loc r) (join_path (path_of_loc (r @ base)) name)) names (es, ss) =
    (es @ map (\<lambda>c. listed_entry w r (base @ [c]))
            (filter (\<lambda>c. visible [c] \<and> \<not> is_link (map_of (w_fs w) (r @ base @ [c]))) names),
     ss @ map (\<lambda>c. link_entry (base @ [c]))
            (filter (\<lambda>c. visible [c] \<and> is_link (map_of (w_fs w) (r @ base @ [c]))) names))"
  using assms(2)
proof (induction names arbitrary: es ss)
  case (Cons c names)
  then obtain nd where nd: "map_of (w_fs w) (r @ base @ [c]) = Some nd" by auto
  then have "valid_name c" using wf_fs_valid [OF wf, of "r @ base @ [c]"] by (simp add: valid_loc_def)
  then have "join_path (path_of_loc (r @ base)) c = path_of_loc (r @ base @ [c])"
    using join_path_loc [OF assms(3)] by simp
  then show ?case using Cons browse_entry_loc [OF wf nd] nd by auto
qed simp

lemma browse_target_ok:
  assumes g: "guard_ok w g r"
  shows "browse_target w g rel = Inr p \<longleftrightarrow> (\<exists>base. names_directory w g r rel base \<and> p = path_of_loc (r @ base))"
proof (cases "rel = []")
  case True
  then show ?thesis using g by (auto simp: browse_target_def names_directory_def guard_ok_def)
next
  case False
  have wf: "wf_fs (w_fs w)" using g by (simp add: guard_ok_def)
  show ?thesis
  proof
    assume "browse_target w g rel = Inr p"
    then have ok: "resolve_existing w g rel = Inr p" and dir: "path_is_dir w p"
      using False by (auto simp: browse_target_def bind_res_Inr_iff split: if_splits)
    obtain l nd where l: "p = path_of_loc l" "prefix r l" "map_of (w_fs w) l = Some nd" "\<not> is_link (Some nd)"
      using resolve_existing_Inr [OF g ok] by blast
    then obtain base where "l = r @ base" by (auto simp: prefix_def)
    moreover have "is_directory (map_of (w_fs w) l)"
      using dir l(1,3) resolve_path_of_loc [OF wf l(3), of True] l(4)
      by (cases nd) (auto simp: path_is_dir_def fs_metadata_def node_metadata_def)
    ultimately show "\<exists>base. names_directory w g r rel base \<and> p = path_of_loc (r @ base)"
      using l(1) ok False by (auto simp: names_directory_def)
  next
    assume "\<exists>base. names_directory w g r rel base \<and> p = path_of_loc (r @ base)"
    then obtain base a where base: "resolve_existing w g rel = Inr p" "p = path_of_loc (r @ base)"
      "map_of (w_fs w) (r @ base) = Some (Directory a)"
      using False by (auto simp: names_directory_def is_directory_iff)
    then show "browse_target w g rel = Inr p"
      using False resolve_path_of_loc [OF wf base(3), of True]
      by (simp add: browse_target_def path_is_dir_def fs_metadata_def node_metadata_def)
  qed
qed

lemma listed_names [simp]:
  "browse_order (listed_entry w r (base @ [c])) = (\<not> m_is_dir (node_metadata (the (map_of (w_fs w) (r @ base @ [c])))), c)"
  "be_name (listed_entry w r (base @ [c])) = c"
  by (simp_all add: browse_order_def listed_entry_def Let_def)

lemma children_image:
  "children w r base P = (\<lambda>c. base @ [c]) ` {c. map_of (w_fs w) (r @ base @ [c]) \<noteq> None \<and> visible [c]
     \<and> P (map_of (w_fs w) (r @ base @ [c]))}"
  by (auto simp: children_def)

lemma browse_root_listing:
  assumes g: "guard_new w root = Inr g" "guard_ok w g r"
    and rel: "rel = normalize_relative (case request of None \<Rightarrow> [] | Some text \<Rightarrow> text)"
    and base: "names_directory w g r rel base"
  obtains rep where "browse_root w root request = Inr rep" "br_root rep = guard_root g" "br_path rep = rel"
    "set (br_entries rep) = listed_entry w r ` children w r base (\<lambda>x. \<not> is_link x)"
    "sorted (map browse_order (br_entries rep))" "distinct (map be_name (br_entries rep))"
    "set (br_skipped_entries rep) = link_entry ` children w r base is_link"
proof -
  let ?names = "child_names (w_fs w) (r @ base)"
  let ?shown = "filter (\<lambda>c. visible [c] \<and> \<not> is_link (map_of (w_fs w) (r @ base @ [c]))) ?names"
  let ?links = "filter (\<lambda>c. visible [c] \<and> is_link (map_of (w_fs w) (r @ base @ [c]))) ?names"
  define es where "es = map (\<lambda>c. listed_entry w r (base @ [c])) ?shown"
  define ls where "ls = map (\<lambda>c. link_entry (base @ [c])) ?links"
  have wf: "wf_fs (w_fs w)" and root: "guard_root g = path_of_loc r" using g(2) by (auto simp: guard_ok_def)
  obtain a where dir: "map_of (w_fs w) (r @ base) = Some (Directory a)"
    using base by (auto simp: names_directory_def is_directory_iff)
  have tgt: "browse_target w g rel = Inr (path_of_loc (r @ base))" using browse_target_ok [OF g(2)] base by blast
  have names: "\<forall>c \<in> set ?names. map_of (w_fs w) (r @ base @ [c]) \<noteq> None" by (simp add: child_names_set)
  have "read_dir w (path_of_loc (r @ base)) = Inr ?names"
    using resolve_path_of_loc [OF wf dir, of True] by (simp add: read_dir_def)
  then have run: "browse_root w root request = Inr \<lparr>br_root = guard_root g, br_path = rel,
      br_entries = sort_key browse_order es, br_skipped_entries = sort_key se_path ls\<rparr>"
    using tgt g(1) root browse_entries_loc [OF wf names, of "[]" "[]"] wf_fs_valid [OF wf, of "r @ base"] dir
    by (simp add: browse_root_def Let_def rel [symmetric] es_def ls_def)
  have "distinct (map be_name es)"
    using child_names_distinct [OF wf_fs_distinct [OF wf]] by (simp add: es_def comp_def)
  moreover have "set es = listed_entry w r ` children w r base (\<lambda>x. \<not> is_link x)"
    "set ls = link_entry ` children w r base is_link"
    by (simp_all add: es_def ls_def children_image image_image child_names_set conj_ac)
  ultimately show thesis using that [OF run] by (simp add: distinct_map_sort_key)
qed

text \<open>browsing lists one directory exactly. A report is returned exactly when the request, after normalisation,
  names a directory inside the root; its entries are then the visible children of that directory that are no
  links, with their kind, size and time, each name once, directories first and then by name; the skipped
  entries are the visible symbolic links.\<close>

theorem browse_root_exact:
  assumes "guard_new w root = Inr g" and "guard_ok w g r"
    and "rel = normalize_relative (case request of None \<Rightarrow> [] | Some text \<Rightarrow> text)"
  shows "is_ok (browse_root w root request) = (\<exists>base. names_directory w g r rel base)
    \<and> (\<forall>rep. browse_root w root request = Inr rep \<longrightarrow> (\<exists>base. names_directory w g r rel base
      \<and> br_root rep = guard_root g \<and> br_path rep = rel
      \<and> set (br_entries rep) = listed_entry w r ` children w r base (\<lambda>x. \<not> is_link x)
      \<and> sorted (map browse_order (br_entries rep)) \<and> distinct (map be_name (br_entries rep))
      \<and> set (br_skipped_entries rep) = link_entry ` children w r base is_link))"
proof (intro conjI allI impI)
  have dir: "\<exists>base. names_directory w g r rel base" if "browse_root w root request = Inr rep" for rep
  proof -
    have "is_ok (browse_target w g rel)"
      using that assms by (auto simp: browse_root_def Let_def bind_res_Inr_iff is_ok_iff)
    then show ?thesis using browse_target_ok [OF assms(2)] by (auto simp: is_ok_iff)
  qed
  then show "is_ok (browse_root w root request) = (\<exists>base. names_directory w g r rel base)"
    using browse_root_listing [OF assms] by (auto simp: is_ok_iff) metis
  fix rep assume "browse_root w root request = Inr rep"
  with dir browse_root_listing [OF assms] show "\<exists>base. names_directory w g r rel base
      \<and> br_root rep = guard_root g \<and> br_path rep = rel
      \<and> set (br_entries rep) = listed_entry w r ` children w r base (\<lambda>x. \<not> is_link x)
      \<and> sorted (map browse_order (br_entries rep)) \<and> distinct (map be_name (br_entries rep))
      \<and> set (br_skipped_entries rep) = link_entry ` children w r base is_link"
    by (metis Inr_inject)
qed

theorem browse_root_exact_witness:
  "guard_new sample_world ''/home/box'' = Inr sample_guard \<and> guard_ok sample_world sample_guard sample_root
   \<and> (\<exists>rep base. browse_root sample_world ''/home/box'' (Some ''/docs/'') = Inr rep
        \<and> names_directory sample_world sample_guard sample_root ''docs'' base
        \<and> map be_path (br_entries rep) = [''docs/old.txt''])"
proof -
  have rel: "''docs'' = normalize_relative (case Some ''/docs/'' of None \<Rightarrow> [] | Some text \<Rightarrow> text)" by code_simp
  have "(case browse_root sample_world ''/home/box'' (Some ''/docs/'') of Inl _ \<Rightarrow> None
      | Inr rep \<Rightarrow> Some (map be_path (br_entries rep))) = Some [''docs/old.txt'']" by code_simp
  then obtain rep where rep: "browse_root sample_world ''/home/box'' (Some ''/docs/'') = Inr rep"
    "map be_path (br_entries rep) = [''docs/old.txt'']"
    by (auto split: sum.splits)
  then obtain base where "names_directory sample_world sample_guard sample_root ''docs'' base"
    using browse_root_exact [OF sample_guard_new sample_guard_ok rel] by auto
  with rep sample_guard_new sample_guard_ok show ?thesis by auto
qed

end
