(* ===== verification/File_Index.thy ===== *)
theory File_Index
  imports History
begin

text \<open>
  \<^verbatim>\<open>file_index.rs\<close>: the disposable index of a root, kept in the same database as the journal. A full rescan replaces
  both tables in one transaction; the watcher's hooks change single rows; the generation number grows with every
  change, so that a paged search notices that the index moved under it.

  The SQL statements of the source are list operations on the tables. Unicode lower-casing, a table of the
  standard library, is the parameter \<open>lower\<close>.
\<close>

section \<open>Statements and transactions\<close>

definition query_error :: "string \<Rightarrow> DbError" where
  "query_error message = Query message"

definition db_try :: "string \<Rightarrow> (root_db \<Rightarrow> string + 'a \<times> root_db) \<Rightarrow> (string, 'a) act" where
  "db_try path stmt w =
     (let w1 = w\<lparr>w_tick := Suc (w_tick w)\<rparr>
      in if w_fails w (w_tick w) then (Inl ''disk I/O error'', w1)
         else (case w_dbs w path of
                 None \<Rightarrow> (Inl ''no such table'', w1)
               | Some db \<Rightarrow>
                   (case stmt db of
                      Inl message \<Rightarrow> (Inl message, w1)
                    | Inr (x, db') \<Rightarrow> (Inr x, w1\<lparr>w_dbs := (w_dbs w)(path \<mapsto> db')\<rparr>))))"

definition sql :: "string \<Rightarrow> (root_db \<Rightarrow> string + 'a \<times> root_db) \<Rightarrow> (DbError, 'a) act" where
  "sql path stmt = map_errA query_error (db_try path stmt)"

definition change :: "(root_db \<Rightarrow> root_db) \<Rightarrow> root_db \<Rightarrow> string + unit \<times> root_db" where
  "change f db = Inr ((), f db)"

definition select :: "(root_db \<Rightarrow> 'a) \<Rightarrow> root_db \<Rightarrow> string + 'a \<times> root_db" where
  "select f db = Inr (f db, db)"

text \<open>\<^verbatim>\<open>BEGIN\<close>, the statements, \<^verbatim>\<open>COMMIT\<close>. An error on the way drops the transaction, which rolls it back.\<close>

definition transaction :: "(DbError \<Rightarrow> 'e) \<Rightarrow> string \<Rightarrow> ('e, 'a) act \<Rightarrow> ('e, 'a) act" where
  "transaction conv path body =
     bindA (map_errA conv (sql path (select (\<lambda>_. ())))) (\<lambda>_ w.
       case bindA body (\<lambda>x. bindA (map_errA conv (sql path (select (\<lambda>_. ())))) (\<lambda>_. returnA x)) w of
         (Inl error, w') \<Rightarrow> (Inl error, w'\<lparr>w_dbs := w_dbs w\<rparr>)
       | (Inr x, w') \<Rightarrow> (Inr x, w'))"

section \<open>Data\<close>

record IndexedFile =
  xf_relative_path :: string
  xf_size_bytes :: nat
  xf_modified_unix_ms :: "nat option"
  xf_extension :: "string option"
  xf_file_id :: "string option"

record FileIndexReport =
  fr_root :: string
  fr_generation :: nat
  fr_files :: "IndexedFile list"
  fr_skipped_entries :: "SkippedEntry list"

datatype IndexedSearchScope = CurrentDirectory | ManagedRoot

record IndexedSearchEntry =
  ie_name :: string
  ie_relative_path :: string
  ie_is_dir :: bool
  ie_extension :: "string option"
  ie_size_bytes :: "nat option"
  ie_modified_unix_ms :: "nat option"

record IndexedSearchPage =
  ip_generation :: nat
  ip_entries :: "IndexedSearchEntry list"
  ip_next_offset :: "nat option"

datatype FileIndexError =
    Guard PathGuardError
  | Analyze AnalyzeError
  | Db DbError
  | Metadata string string
  | NotAFile string
  | InvalidSearch string
  | GenerationChanged nat nat

fun file_index_error_to_string :: "FileIndexError \<Rightarrow> string" where
  "file_index_error_to_string (Guard error) = path_guard_error_to_string error"
| "file_index_error_to_string (Analyze error) = analyze_error_to_string error"
| "file_index_error_to_string (Db error) = db_error_to_string error"
| "file_index_error_to_string (Metadata path message) =
     ''cannot read metadata '' @ path @ '': '' @ message"
| "file_index_error_to_string (NotAFile path) = ''index entry is not a file: '' @ path"
| "file_index_error_to_string (InvalidSearch message) = ''invalid indexed search: '' @ message"
| "file_index_error_to_string (GenerationChanged expected actual) =
     ''file index generation changed (expected '' @ dec expected @ '', actual '' @ dec actual @ '')''"

definition index_extension_of :: "string \<Rightarrow> string option" where
  "index_extension_of path = map_option to_ascii_lowercase (extension path)"

definition file_id_for_relative_path :: "world \<Rightarrow> path_guard \<Rightarrow> string \<Rightarrow> string option" where
  "file_id_for_relative_path w guard relative =
     (case resolve_existing w guard relative of Inl _ \<Rightarrow> None | Inr path \<Rightarrow> file_id_for_path w path)"

definition normalize_name :: "(string \<Rightarrow> string) \<Rightarrow> string \<Rightarrow> string" where
  "normalize_name lower name = lower name"

definition indexed_search_entry ::
  "string \<Rightarrow> bool \<Rightarrow> nat option \<Rightarrow> nat option \<Rightarrow> IndexedSearchEntry option" where
  "indexed_search_entry relative is_dir size_bytes modified =
     (let normalized_path = join_with ''/'' (filter (\<lambda>segment. segment \<noteq> [])
            (split_on (\<lambda>c. c = CHR ''/'' \<or> c = CHR 0x5C) relative))
      in case file_name normalized_path of
           None \<Rightarrow> None
         | Some name \<Rightarrow>
             Some \<lparr>ie_name = name, ie_relative_path = normalized_path, ie_is_dir = is_dir,
                   ie_extension = (if is_dir then None else index_extension_of normalized_path),
                   ie_size_bytes = (if is_dir then None else size_bytes),
                   ie_modified_unix_ms = modified\<rparr>)"

section \<open>Rows\<close>

definition index_row_of :: "IndexedFile \<Rightarrow> index_row" where
  "index_row_of item =
     \<lparr>ix_relative_path = xf_relative_path item, ix_size_bytes = as_i64 (xf_size_bytes item),
      ix_modified_unix_ms = map_option as_i64 (xf_modified_unix_ms item),
      ix_extension = xf_extension item, ix_file_id = xf_file_id item\<rparr>"

definition insert_index_row :: "IndexedFile \<Rightarrow> root_db \<Rightarrow> string + unit \<times> root_db" where
  "insert_index_row item db =
     (if xf_relative_path item \<in> ix_relative_path ` set (db_file_index db)
      then Inl ''UNIQUE constraint failed: file_index.relative_path''
      else Inr ((), db\<lparr>db_file_index := db_file_index db @ [index_row_of item]\<rparr>))"

definition upsert_index_row :: "IndexedFile \<Rightarrow> root_db \<Rightarrow> root_db" where
  "upsert_index_row item db =
     db\<lparr>db_file_index :=
          (if xf_relative_path item \<in> ix_relative_path ` set (db_file_index db)
           then map (\<lambda>row. if ix_relative_path row = xf_relative_path item then index_row_of item else row)
                  (db_file_index db)
           else db_file_index db @ [index_row_of item])\<rparr>"

definition search_row_of :: "(string \<Rightarrow> string) \<Rightarrow> IndexedSearchEntry \<Rightarrow> search_row" where
  "search_row_of lower entry =
     \<lparr>sr_relative_path = ie_relative_path entry,
      sr_parent_relative_path =
        (case parent (ie_relative_path entry) of
           None \<Rightarrow> []
         | Some path \<Rightarrow> join_with ''/'' (map component_str (components path))),
      sr_name = ie_name entry, sr_normalized_name = normalize_name lower (ie_name entry),
      sr_entry_type = (if ie_is_dir entry then ''directory'' else ''file''),
      sr_extension = ie_extension entry,
      sr_size_bytes = map_option as_i64 (ie_size_bytes entry),
      sr_modified_unix_ms = map_option as_i64 (ie_modified_unix_ms entry)\<rparr>"

definition insert_search_entry ::
  "(string \<Rightarrow> string) \<Rightarrow> string \<Rightarrow> IndexedSearchEntry \<Rightarrow> (DbError, unit) act" where
  "insert_search_entry lower path entry =
     sql path (\<lambda>db.
       if ie_relative_path entry \<in> sr_relative_path ` set (db_search_entries db)
       then Inl ''UNIQUE constraint failed: file_search_entries.relative_path''
       else Inr ((), db\<lparr>db_search_entries := db_search_entries db @ [search_row_of lower entry]\<rparr>))"

definition indexed_search_entry_from_row :: "search_row \<Rightarrow> IndexedSearchEntry" where
  "indexed_search_entry_from_row row =
     \<lparr>ie_name = sr_name row, ie_relative_path = sr_relative_path row,
      ie_is_dir = (sr_entry_type row = ''directory''), ie_extension = sr_extension row,
      ie_size_bytes = map_option i64_as_u64 (sr_size_bytes row),
      ie_modified_unix_ms = map_option i64_as_u128 (sr_modified_unix_ms row)\<rparr>"

definition indexed_file_from_row :: "index_row \<Rightarrow> IndexedFile" where
  "indexed_file_from_row row =
     \<lparr>xf_relative_path = ix_relative_path row, xf_size_bytes = i64_as_u64 (ix_size_bytes row),
      xf_modified_unix_ms = map_option i64_as_u128 (ix_modified_unix_ms row),
      xf_extension = ix_extension row, xf_file_id = ix_file_id row\<rparr>"

text \<open>A generation past the 64-bit range is no integer for SQLite any more and cannot be read back as one.\<close>

definition select_generation :: "string \<Rightarrow> (DbError, int) act" where
  "select_generation path =
     sql path (\<lambda>db. if db_generation db < 2 ^ 63 then Inr (db_generation db, db)
                    else Inl ''mismatched types; Rust type `i64` is not compatible with SQL type `REAL`'')"

definition read_generation :: "string \<Rightarrow> (DbError, nat) act" where
  "read_generation path =
     bindA (select_generation path) (\<lambda>generation.
       if generation < 0 then throwA (Query ''negative file index generation'')
       else returnA (nat generation))"

definition bump_generation :: "string \<Rightarrow> (DbError, nat) act" where
  "bump_generation path =
     bindA (sql path (change (\<lambda>db. db\<lparr>db_generation := db_generation db + 1\<rparr>))) (\<lambda>_.
     bindA (select_generation path) (\<lambda>generation.
       if generation < 0 then throwA (Query ''negative file index generation'')
       else returnA (nat generation)))"

section \<open>The scan for the search table\<close>

text \<open>As in the analyzer, the recursion carries fuel and \<^const>\<open>None\<close> means that it ran out.\<close>

definition visit_entry ::
  "(string \<Rightarrow> IndexedSearchEntry list \<Rightarrow> (FileIndexError + IndexedSearchEntry list) option) \<Rightarrow> world \<Rightarrow> string
     \<Rightarrow> string \<Rightarrow> IndexedSearchEntry list \<Rightarrow> (FileIndexError + IndexedSearchEntry list) option" where
  "visit_entry recurse w root path entries =
     (if is_mousekeeper_internal_dir path then Some (Inr entries)
      else (case fs_symlink_metadata w path of
         Inl _ \<Rightarrow> Some (Inr entries)
       | Inr metadata \<Rightarrow>
           if is_link_or_reparse_point metadata then Some (Inr entries)
           else (case strip_prefix_components path root of
              None \<Rightarrow> Some (Inr entries)
            | Some comps \<Rightarrow>
                let relative = join_with ''/'' (map component_str comps)
                in if m_is_dir metadata then
                     recurse path
                       (case indexed_search_entry relative True None (modified_unix_ms metadata) of
                          None \<Rightarrow> entries | Some entry \<Rightarrow> entries @ [entry])
                   else if m_is_file metadata then
                     Some (Inr (case indexed_search_entry relative False (Some (m_len metadata))
                                       (modified_unix_ms metadata) of
                                  None \<Rightarrow> entries | Some entry \<Rightarrow> entries @ [entry]))
                   else Some (Inr entries))))"

primrec visit_entries ::
  "(string \<Rightarrow> IndexedSearchEntry list \<Rightarrow> (FileIndexError + IndexedSearchEntry list) option) \<Rightarrow> world \<Rightarrow> string
     \<Rightarrow> string \<Rightarrow> string list \<Rightarrow> IndexedSearchEntry list \<Rightarrow> (FileIndexError + IndexedSearchEntry list) option" where
  "visit_entries recurse w root directory [] entries = Some (Inr entries)"
| "visit_entries recurse w root directory (name # names) entries =
     (case visit_entry recurse w root (join_path directory name) entries of
        None \<Rightarrow> None
      | Some (Inl error) \<Rightarrow> Some (Inl error)
      | Some (Inr entries') \<Rightarrow> visit_entries recurse w root directory names entries')"

primrec visit ::
  "nat \<Rightarrow> world \<Rightarrow> string \<Rightarrow> string \<Rightarrow> IndexedSearchEntry list \<Rightarrow> (FileIndexError + IndexedSearchEntry list) option" where
  "visit 0 w root directory entries = None"
| "visit (Suc fuel) w root directory entries =
     (case read_dir w directory of
        Inl error \<Rightarrow> Some (Inl (Metadata directory (io_error_to_string error)))
      | Inr names \<Rightarrow> visit_entries (visit fuel w root) w root directory names entries)"

definition search_order :: "(string \<Rightarrow> string) \<Rightarrow> IndexedSearchEntry \<Rightarrow> string \<times> string" where
  "search_order lower entry = (normalize_name lower (ie_name entry), ie_relative_path entry)"

definition collect_search_entries ::
  "(string \<Rightarrow> string) \<Rightarrow> world \<Rightarrow> string \<Rightarrow> (FileIndexError + IndexedSearchEntry list) option" where
  "collect_search_entries lower w root =
     map_option (map_sum id (sort_key (search_order lower))) (visit (scan_fuel w) w root root [])"

section \<open>Changing the index\<close>

fun insert_index_rows :: "string \<Rightarrow> IndexedFile list \<Rightarrow> (DbError, unit) act" where
  "insert_index_rows path [] = returnA ()"
| "insert_index_rows path (item # items) =
     bindA (sql path (insert_index_row item)) (\<lambda>_. insert_index_rows path items)"

fun insert_search_entries ::
  "(string \<Rightarrow> string) \<Rightarrow> string \<Rightarrow> IndexedSearchEntry list \<Rightarrow> (DbError, unit) act" where
  "insert_search_entries lower path [] = returnA ()"
| "insert_search_entries lower path (entry # entries) =
     bindA (insert_search_entry lower path entry) (\<lambda>_. insert_search_entries lower path entries)"

definition replace_index ::
  "(string \<Rightarrow> string) \<Rightarrow> string \<Rightarrow> IndexedFile list \<Rightarrow> IndexedSearchEntry list \<Rightarrow> (DbError, nat) act" where
  "replace_index lower path items search_entries =
     transaction id path
       (bindA (sql path (change (\<lambda>db. db\<lparr>db_file_index := []\<rparr>))) (\<lambda>_.
        bindA (insert_index_rows path items) (\<lambda>_.
        bindA (sql path (change (\<lambda>db. db\<lparr>db_search_entries := []\<rparr>))) (\<lambda>_.
        bindA (insert_search_entries lower path search_entries) (\<lambda>_.
        bindA (sql path (change (\<lambda>db. db\<lparr>db_initialized := True\<rparr>))) (\<lambda>_.
          bump_generation path))))))"

definition indexed_file :: "world \<Rightarrow> path_guard \<Rightarrow> FileEntry \<Rightarrow> IndexedFile" where
  "indexed_file w guard entry =
     \<lparr>xf_relative_path = fe_path entry, xf_size_bytes = fe_size_bytes entry,
      xf_modified_unix_ms = fe_modified_unix_ms entry, xf_extension = index_extension_of (fe_path entry),
      xf_file_id = file_id_for_relative_path w guard (fe_path entry)\<rparr>"

definition reindex_scanned ::
  "(string \<Rightarrow> string) \<Rightarrow> path_guard \<Rightarrow> AnalyzeReport \<Rightarrow> IndexedSearchEntry list
     \<Rightarrow> (FileIndexError, FileIndexReport) act" where
  "reindex_scanned lower guard analysis search_entries =
     bindA (map_errA Db (open_root_db (guard_root guard))) (\<lambda>_.
     bindA (readA (\<lambda>w. Inr (map (indexed_file w guard) (ar_files analysis)))) (\<lambda>items.
     bindA (map_errA Db (replace_index lower (db_path_for_root (guard_root guard)) items search_entries))
       (\<lambda>generation.
       returnA \<lparr>fr_root = ar_root analysis, fr_generation = generation, fr_files = items,
                fr_skipped_entries = ar_skipped_entries analysis\<rparr>)))"

definition reindex_root ::
  "(string \<Rightarrow> string) \<Rightarrow> string \<Rightarrow> world \<Rightarrow> ((FileIndexError + FileIndexReport) \<times> world) option" where
  "reindex_root lower root w =
     (case guard_new w root of
        Inl error \<Rightarrow> Some (Inl (Guard error), w)
      | Inr guard \<Rightarrow>
          (case analyze_root w (guard_root guard) of
             None \<Rightarrow> None
           | Some (Inl error) \<Rightarrow> Some (Inl (Analyze error), w)
           | Some (Inr analysis) \<Rightarrow>
               (case collect_search_entries lower w (guard_root guard) of
                  None \<Rightarrow> None
                | Some (Inl error) \<Rightarrow> Some (Inl error, w)
                | Some (Inr search_entries) \<Rightarrow>
                    Some (reindex_scanned lower guard analysis search_entries w))))"

text \<open>Each of the smaller operations opens the database of the root and runs one transaction.\<close>

definition with_root_db ::
  "string \<Rightarrow> (path_guard \<Rightarrow> string \<Rightarrow> (FileIndexError, 'a) act) \<Rightarrow> (FileIndexError, 'a) act" where
  "with_root_db root body =
     bindA (readA (\<lambda>w. map_err Guard (guard_new w root))) (\<lambda>guard.
     bindA (map_errA Db (open_root_db (guard_root guard))) (\<lambda>_.
       body guard (db_path_for_root (guard_root guard))))"

definition upsert_rows ::
  "(string \<Rightarrow> string) \<Rightarrow> string \<Rightarrow> IndexedFile \<Rightarrow> IndexedSearchEntry \<Rightarrow> (DbError, unit) act" where
  "upsert_rows lower path item search_entry =
     transaction id path
       (bindA (sql path (change (upsert_index_row item))) (\<lambda>_.
        bindA (sql path (change (\<lambda>db. db\<lparr>db_search_entries :=
            filter (\<lambda>row. sr_relative_path row \<noteq> xf_relative_path item) (db_search_entries db)\<rparr>))) (\<lambda>_.
        bindA (insert_search_entry lower path search_entry) (\<lambda>_.
        bindA (bump_generation path) (\<lambda>_. returnA ())))))"

definition upsert_file ::
  "(string \<Rightarrow> string) \<Rightarrow> string \<Rightarrow> string \<Rightarrow> nat \<Rightarrow> nat option \<Rightarrow> (FileIndexError, unit) act" where
  "upsert_file lower root relative size_bytes modified =
     with_root_db root (\<lambda>guard path.
       bindA (readA (\<lambda>w. Inr (file_id_for_relative_path w guard relative))) (\<lambda>file_id.
         case indexed_search_entry relative False (Some size_bytes) modified of
           None \<Rightarrow> throwA (InvalidSearch ''indexed file path has no name'')
         | Some search_entry \<Rightarrow>
             map_errA Db (upsert_rows lower path
               \<lparr>xf_relative_path = relative, xf_size_bytes = size_bytes, xf_modified_unix_ms = modified,
                xf_extension = index_extension_of relative, xf_file_id = file_id\<rparr> search_entry)))"

definition upsert_existing_file :: "(string \<Rightarrow> string) \<Rightarrow> string \<Rightarrow> string \<Rightarrow> (FileIndexError, unit) act" where
  "upsert_existing_file lower root relative =
     bindA (readA (\<lambda>w. map_err Guard (guard_new w root))) (\<lambda>guard.
     bindA (readA (\<lambda>w. map_err Guard (resolve_existing w guard relative))) (\<lambda>path.
     bindA (readA (\<lambda>w. map_err (\<lambda>error. Metadata path (io_error_to_string error)) (fs_symlink_metadata w path)))
       (\<lambda>metadata.
       if \<not> m_is_file metadata then throwA (NotAFile path)
       else upsert_file lower (guard_root guard) relative (m_len metadata) (modified_unix_ms metadata))))"

definition escape_like :: "string \<Rightarrow> string" where
  "escape_like q = concat (map (\<lambda>c. if c \<in> {CHR 0x5C, CHR ''%'', CHR ''_''} then [CHR 0x5C, c] else [c]) q)"

text \<open>SQLite's \<^verbatim>\<open>LIKE ... ESCAPE '\'\<close> on the characters of pattern and text: ASCII letters match in either case.\<close>

fun sql_like :: "string list \<Rightarrow> string list \<Rightarrow> bool" where
  "sql_like [] ts = (ts = [])"
| "sql_like (p # ps) ts =
     (if p = [CHR 0x5C] then
        (case (ps, ts) of (q # qs, t # us) \<Rightarrow> eq_ignore_ascii_case q t \<and> sql_like qs us | _ \<Rightarrow> False)
      else if p = ''%'' then sql_like ps ts \<or> (case ts of [] \<Rightarrow> False | _ # us \<Rightarrow> sql_like (p # ps) us)
      else (case ts of [] \<Rightarrow> False | t # us \<Rightarrow> (p = ''_'' \<or> eq_ignore_ascii_case p t) \<and> sql_like ps us))"

definition trim_end_slash :: "string \<Rightarrow> string" where
  "trim_end_slash s = rev (dropWhile (\<lambda>c. c = CHR ''/'') (rev s))"

definition removed_by :: "string \<Rightarrow> string \<Rightarrow> bool" where
  "removed_by relative indexed \<longleftrightarrow> indexed = relative
     \<or> sql_like (chars (escape_like (trim_end_slash relative) @ ''/%'')) (chars indexed)"

definition remove_path :: "string \<Rightarrow> string \<Rightarrow> (FileIndexError, unit) act" where
  "remove_path root relative =
     with_root_db root (\<lambda>guard path.
       map_errA Db (transaction id path
         (bindA (sql path (change (\<lambda>db. db\<lparr>db_file_index :=
             filter (\<lambda>row. \<not> removed_by relative (ix_relative_path row)) (db_file_index db)\<rparr>))) (\<lambda>_.
          bindA (sql path (change (\<lambda>db. db\<lparr>db_search_entries :=
             filter (\<lambda>row. \<not> removed_by relative (sr_relative_path row)) (db_search_entries db)\<rparr>))) (\<lambda>_.
          bindA (bump_generation path) (\<lambda>_. returnA ()))))))"

definition remove_file :: "string \<Rightarrow> string \<Rightarrow> (FileIndexError, unit) act" where
  "remove_file root relative = remove_path root relative"

definition clear_index :: "string \<Rightarrow> (FileIndexError, unit) act" where
  "clear_index root =
     with_root_db root (\<lambda>guard path.
       map_errA Db (transaction id path
         (bindA (sql path (change (\<lambda>db. db\<lparr>db_file_index := []\<rparr>))) (\<lambda>_.
          bindA (sql path (change (\<lambda>db. db\<lparr>db_search_entries := []\<rparr>))) (\<lambda>_.
          bindA (sql path (change (\<lambda>db. db\<lparr>db_initialized := False\<rparr>))) (\<lambda>_.
          bindA (bump_generation path) (\<lambda>_. returnA ())))))))"

section \<open>Reading the index\<close>

definition index_generation :: "string \<Rightarrow> (FileIndexError, nat) act" where
  "index_generation root = with_root_db root (\<lambda>guard path. map_errA Db (read_generation path))"

definition index_is_initialized :: "string \<Rightarrow> (FileIndexError, bool) act" where
  "index_is_initialized root = with_root_db root (\<lambda>guard path. map_errA Db (sql path (select db_initialized)))"

text \<open>The two queries of \<^verbatim>\<open>fetch_indexed\<close>: by name, a join of both tables on the path, and the whole table.\<close>

definition indexed_by_name :: "string \<Rightarrow> root_db \<Rightarrow> index_row list" where
  "indexed_by_name q db =
     map snd (sort_key (\<lambda>(se, fi). (sr_normalized_name se, ix_relative_path fi))
       [(se, fi). fi \<leftarrow> db_file_index db, se \<leftarrow> db_search_entries db,
          sr_relative_path se = ix_relative_path fi \<and> contains_str (sr_normalized_name se) q])"

definition fetch_indexed ::
  "(string \<Rightarrow> string) \<Rightarrow> string \<Rightarrow> string option \<Rightarrow> (DbError, IndexedFile list) act" where
  "fetch_indexed lower path name_query =
     bindA (case name_query of
              Some q \<Rightarrow> sql path (select (indexed_by_name (normalize_name lower q)))
            | None \<Rightarrow> sql path (select (\<lambda>db. sort_key ix_relative_path (db_file_index db))))
       (\<lambda>rows. returnA (map indexed_file_from_row rows))"

definition query_index ::
  "(string \<Rightarrow> string) \<Rightarrow> string \<Rightarrow> string option \<Rightarrow> (FileIndexError, FileIndexReport) act" where
  "query_index lower root name_query =
     with_root_db root (\<lambda>guard path.
       bindA (map_errA Db (fetch_indexed lower path name_query)) (\<lambda>items.
       bindA (map_errA Db (read_generation path)) (\<lambda>generation.
         returnA \<lparr>fr_root = guard_root guard, fr_generation = generation, fr_files = items,
                  fr_skipped_entries = []\<rparr>)))"

definition list_index :: "(string \<Rightarrow> string) \<Rightarrow> string \<Rightarrow> (FileIndexError, FileIndexReport) act" where
  "list_index lower root = query_index lower root None"

definition search_index :: "(string \<Rightarrow> string) \<Rightarrow> string \<Rightarrow> string \<Rightarrow> (FileIndexError, FileIndexReport) act" where
  "search_index lower root q = query_index lower root (Some q)"

section \<open>Paged search\<close>

definition is_extension_char :: "char \<Rightarrow> bool" where
  "is_extension_char c \<longleftrightarrow> CHR ''0'' \<le> c \<and> c \<le> CHR ''9'' \<or> CHR ''A'' \<le> c \<and> c \<le> CHR ''Z''
     \<or> CHR ''a'' \<le> c \<and> c \<le> CHR ''z''"

definition normalize_extension :: "string \<Rightarrow> FileIndexError + string" where
  "normalize_extension ext =
     (let normalized = to_ascii_lowercase (trim ext); raw = tl normalized
      in if take 1 normalized \<noteq> ''.'' then Inl (InvalidSearch ''extension filters must start with a dot'')
         else if raw = [] \<or> \<not> list_all is_extension_char raw
           then Inl (InvalidSearch ''extension filters may contain only ASCII letters and digits'')
         else Inr raw)"

definition normalize_extension_filter :: "string list \<Rightarrow> FileIndexError + string list" where
  "normalize_extension_filter extensions =
     (if length extensions > 50 then
        Inl (InvalidSearch ''extension filter may contain at most 50 extensions'')
      else collect_results (map normalize_extension extensions))"

definition indexed_entry_matches_extensions :: "IndexedSearchEntry \<Rightarrow> string list \<Rightarrow> bool" where
  "indexed_entry_matches_extensions entry extensions \<longleftrightarrow> extensions = []
     \<or> (\<not> ie_is_dir entry \<and> (case ie_extension entry of None \<Rightarrow> False | Some ext \<Rightarrow> ext \<in> set extensions))"

definition normalize_relative_directory :: "string \<Rightarrow> FileIndexError + string" where
  "normalize_relative_directory path =
     (if RootDir \<in> set (components path) \<or> ParentDir \<in> set (components path) then
        Inl (InvalidSearch ''search directory must stay relative to the managed root'')
      else Inr (join_with ''/'' (List.map_filter
        (\<lambda>component. case component of Normal name \<Rightarrow> Some name | _ \<Rightarrow> None) (components path))))"

fun no_link_components :: "world \<Rightarrow> string \<Rightarrow> component list \<Rightarrow> FileIndexError + unit" where
  "no_link_components w current [] = Inr ()"
| "no_link_components w current (Normal name # comps) =
     (let current' = join_path current name
      in bind_res (map_err (\<lambda>error. Metadata current' (io_error_to_string error)) (fs_symlink_metadata w current'))
           (\<lambda>metadata.
              if is_link_or_reparse_point metadata then
                Inl (InvalidSearch ''indexed path crosses a symlink, junction, or reparse point'')
              else no_link_components w current' comps))"
| "no_link_components w current (_ # comps) = Inl (InvalidSearch ''indexed path has an unsafe component'')"

definition validate_no_link_path ::
  "world \<Rightarrow> path_guard \<Rightarrow> string \<Rightarrow> bool \<Rightarrow> FileIndexError + unit" where
  "validate_no_link_path w guard relative require_directory =
     (if relative = [] then Inr ()
      else bind_res (no_link_components w (guard_root guard) (components relative)) (\<lambda>_.
           bind_res (map_err Guard (resolve_existing w guard relative)) (\<lambda>resolved.
             if require_directory \<and> \<not> path_is_dir w resolved
             then Inl (InvalidSearch ''search scope is not a directory'') else Inr ())))"

definition validate_indexed_search_hit :: "world \<Rightarrow> path_guard \<Rightarrow> IndexedSearchEntry \<Rightarrow> bool" where
  "validate_indexed_search_hit w guard entry =
     (if \<exists>segment \<in> set (split_on (\<lambda>c. c = CHR ''/'') (ie_relative_path entry)).
           segment = STATE_DIR \<or> segment = TRASH_DIR \<or> segment = [] \<or> segment = ''..'' then False
      else if \<not> is_ok (validate_no_link_path w guard (ie_relative_path entry) (ie_is_dir entry)) then False
      else (case fs_symlink_metadata w (join_path (guard_root guard) (ie_relative_path entry)) of
              Inl _ \<Rightarrow> False
            | Inr metadata \<Rightarrow> \<not> is_link_or_reparse_point metadata
                \<and> (if ie_is_dir entry then m_is_dir metadata else m_is_file metadata)))"

definition FETCH_BATCH :: nat where
  "FETCH_BATCH = 256"

text \<open>The rows a search runs over, in their order.\<close>

definition search_rows :: "IndexedSearchScope \<Rightarrow> string \<Rightarrow> string \<Rightarrow> root_db \<Rightarrow> search_row list" where
  "search_rows scope directory q db =
     sort_key (\<lambda>row. (sr_normalized_name row, sr_relative_path row))
       (filter (\<lambda>row. (scope = CurrentDirectory \<longrightarrow> sr_parent_relative_path row = directory)
                    \<and> contains_str (sr_normalized_name row) q) (db_search_entries db))"

text \<open>The loop over one batch: the hits so far, the offset of the next row, and the offset at which a full page
  found a further hit.\<close>

fun scan_batch ::
  "(IndexedSearchEntry \<Rightarrow> bool) \<Rightarrow> nat \<Rightarrow> search_row list \<Rightarrow> IndexedSearchEntry list \<Rightarrow> nat
     \<Rightarrow> IndexedSearchEntry list \<times> nat \<times> nat option" where
  "scan_batch hit limit [] entries position = (entries, position, None)"
| "scan_batch hit limit (row # rows) entries position =
     (let entry = indexed_search_entry_from_row row
      in if hit entry then
           if length entries = limit then (entries, position, Some position)
           else scan_batch hit limit rows (entries @ [entry]) (min (position + 1) (2 ^ 64 - 1))
         else scan_batch hit limit rows entries (min (position + 1) (2 ^ 64 - 1)))"

text \<open>The loop over batches, with fuel; \<^const>\<open>None\<close> in the result means that it ran out.\<close>

primrec scan_pages ::
  "nat \<Rightarrow> (root_db \<Rightarrow> search_row list) \<Rightarrow> (world \<Rightarrow> IndexedSearchEntry \<Rightarrow> bool) \<Rightarrow> nat \<Rightarrow> string
     \<Rightarrow> IndexedSearchEntry list \<Rightarrow> nat
     \<Rightarrow> (FileIndexError, (IndexedSearchEntry list \<times> nat option) option) act" where
  "scan_pages 0 found hit limit path entries position = returnA None"
| "scan_pages (Suc fuel) found hit limit path entries position =
     bindA (map_errA Db (sql path (select (\<lambda>db.
         take FETCH_BATCH (drop (min position (2 ^ 63 - 1)) (found db)))))) (\<lambda>rows.
       if rows = [] then returnA (Some (entries, None))
       else bindA (readA (\<lambda>w. Inr (scan_batch (hit w) limit rows entries position))) (\<lambda>(entries', position', next_offset).
         if next_offset \<noteq> None then returnA (Some (entries', next_offset))
         else if length rows < FETCH_BATCH then returnA (Some (entries', None))
         else scan_pages fuel found hit limit path entries' position'))"

definition search_fuel :: "string \<Rightarrow> world \<Rightarrow> nat" where
  "search_fuel path w =
     Suc (case w_dbs w path of None \<Rightarrow> 0 | Some db \<Rightarrow> length (db_search_entries db))"

definition search_page ::
  "(root_db \<Rightarrow> search_row list) \<Rightarrow> (world \<Rightarrow> IndexedSearchEntry \<Rightarrow> bool) \<Rightarrow> string \<Rightarrow> nat option \<Rightarrow> nat \<Rightarrow> nat
     \<Rightarrow> (FileIndexError, IndexedSearchPage option) act" where
  "search_page found hit path expected_generation offset limit =
     transaction Db path
       (bindA (map_errA Db (select_generation path)) (\<lambda>generation.
          if generation < 0 then throwA (InvalidSearch ''file index generation is invalid'')
          else
            let actual = nat generation
            in if (case expected_generation of None \<Rightarrow> False | Some expected \<Rightarrow> expected \<noteq> actual)
               then throwA (GenerationChanged (the expected_generation) actual)
               else bindA (\<lambda>w. scan_pages (search_fuel path w) found hit limit path [] offset w) (\<lambda>outcome.
                      returnA (map_option (\<lambda>(entries, next_offset).
                        \<lparr>ip_generation = actual, ip_entries = entries, ip_next_offset = next_offset\<rparr>) outcome))))"

definition search_index_page_with_extensions ::
  "(string \<Rightarrow> string) \<Rightarrow> string \<Rightarrow> string \<Rightarrow> IndexedSearchScope \<Rightarrow> string \<Rightarrow> nat option \<Rightarrow> nat \<Rightarrow> nat \<Rightarrow> string list
     \<Rightarrow> (FileIndexError, IndexedSearchPage option) act" where
  "search_index_page_with_extensions lower root q scope directory expected_generation offset limit extensions =
     (if \<not> (2 \<le> length (chars (trim q)) \<and> length (chars (trim q)) \<le> 100) then
        throwA (InvalidSearch ''file name query must contain between 2 and 100 Unicode code points'')
      else if \<not> (1 \<le> limit \<and> limit \<le> 200) then
        throwA (InvalidSearch ''search page limit must be between 1 and 200'')
      else
        bindA (readA (\<lambda>_. normalize_extension_filter extensions)) (\<lambda>extensions.
        bindA (readA (\<lambda>w. map_err Guard (guard_new w root))) (\<lambda>guard.
        bindA (readA (\<lambda>_. normalize_relative_directory directory)) (\<lambda>directory.
        bindA (readA (\<lambda>w. if scope = CurrentDirectory then validate_no_link_path w guard directory True
                           else Inr ())) (\<lambda>_.
        bindA (map_errA Db (open_root_db (guard_root guard))) (\<lambda>_.
          search_page (search_rows scope directory (normalize_name lower (trim q)))
            (\<lambda>w entry. validate_indexed_search_hit w guard entry
                     \<and> indexed_entry_matches_extensions entry extensions)
            (db_path_for_root (guard_root guard)) expected_generation offset limit))))))"

definition search_index_page ::
  "(string \<Rightarrow> string) \<Rightarrow> string \<Rightarrow> string \<Rightarrow> IndexedSearchScope \<Rightarrow> string \<Rightarrow> nat option \<Rightarrow> nat \<Rightarrow> nat
     \<Rightarrow> (FileIndexError, IndexedSearchPage option) act" where
  "search_index_page lower root q scope directory expected_generation offset limit =
     search_index_page_with_extensions lower root q scope directory expected_generation offset limit []"

end
