(* ===== verification/Index_Laws.thy ===== *)
theory Index_Laws
  imports File_Index Execute
begin

text \<open>
  What the index operations owe the rest of the engine: they never touch the journal that lives in the same
  database, they change nothing in the tree but the state directory, a failure anywhere leaves the index as it was,
  and a success moves the generation on by one.
\<close>

section \<open>Statements and transactions\<close>

lemma sql_cases:
  assumes "sql path stmt w = (r, w')"
  obtains (fails) e where "r = Inl e" "w' = w\<lparr>w_tick := Suc (w_tick w)\<rparr>"
  | (runs) db x db' where "w_dbs w path = Some db" "stmt db = Inr (x, db')" "r = Inr x"
      "w' = w\<lparr>w_tick := Suc (w_tick w), w_dbs := (w_dbs w)(path \<mapsto> db')\<rparr>"
  using assms
  by (auto simp: sql_def db_try_def map_errA_def Let_def split: if_splits option.splits sum.splits prod.splits)

lemma sql_ok:
  "sql path stmt w = (Inr x, w') \<longleftrightarrow> \<not> w_fails w (w_tick w) \<and> (\<exists>db db'. w_dbs w path = Some db
     \<and> stmt db = Inr (x, db') \<and> w' = w\<lparr>w_tick := Suc (w_tick w), w_dbs := (w_dbs w)(path \<mapsto> db')\<rparr>)"
  by (auto simp: sql_def db_try_def map_errA_def Let_def split: if_splits option.splits sum.splits prod.splits)

text \<open>The frame of a statement on the index: the tree and the environment stay, and so do the journal columns of
  every database.\<close>

definition journal_part :: "root_db \<Rightarrow> journal_row list \<times> int" where
  "journal_part db = (db_journal db, db_next_seq db)"

definition index_frame :: "world \<Rightarrow> world \<Rightarrow> bool" where
  "index_frame w w' \<longleftrightarrow> same_fs w w' \<and> same_env w w'
     \<and> (\<forall>path. map_option journal_part (w_dbs w' path) = map_option journal_part (w_dbs w path))"

interpretation index_frame: world_frame index_frame
  by unfold_locales (auto simp: index_frame_def intro: same_fs.refl same_fs.trans env.refl env.trans)

text \<open>Statements that leave the journal columns alone.\<close>

definition index_only :: "(root_db \<Rightarrow> string + 'a \<times> root_db) \<Rightarrow> bool" where
  "index_only stmt \<longleftrightarrow> (\<forall>db x db'. stmt db = Inr (x, db') \<longrightarrow> journal_part db' = journal_part db)"

lemma index_only_intros [intro]:
  "index_only (select f)"
  "(\<And>db. journal_part (h db) = journal_part db) \<Longrightarrow> index_only (change h)"
  by (simp_all add: index_only_def select_def change_def)

lemma keeps_sql: "index_only stmt \<Longrightarrow> keeps index_frame (sql path stmt)"
  by (rule keepsI; erule sql_cases)
    (auto simp: index_only_def index_frame_def same_fs_def same_env_def)

lemma keeps_transaction:
  assumes "keeps index_frame body"
  shows "keeps index_frame (transaction conv path body)"
proof -
  have "keeps index_frame (bindA body (\<lambda>x. bindA (map_errA conv (sql path (select (\<lambda>_. ())))) (\<lambda>_. returnA x)))"
    by (intro index_frame.keeps_rules assms keeps_sql index_only_intros)
  then show ?thesis
    unfolding transaction_def
    by (intro index_frame.keeps_bind index_frame.keeps_map_err keeps_sql index_only_intros keepsI)
      (auto simp: index_frame_def same_fs_def same_env_def dest!: keepsD split: prod.splits sum.splits)
qed

lemma transaction_fails:
  assumes "transaction conv path body w = (Inl e, w')"
  shows "w_dbs w' = w_dbs w"
proof -
  have "w_dbs w1 = w_dbs w" if "sql path (select (\<lambda>_. ())) w = (r, w1)" for r w1
    using that by (cases rule: sql_cases) (auto simp: select_def)
  then show ?thesis
    using assms unfolding transaction_def bindA_def map_errA_def
    by (auto split: prod.splits sum.splits)
qed

lemma transaction_runs:
  assumes "transaction conv path body w = (Inr x, w')"
  obtains w1 w2 db where "body w1 = (Inr x, w2)" "w_dbs w1 = w_dbs w" "w_dbs w' = w_dbs w2"
    "w_dbs w path = Some db" "w_fs w1 = w_fs w" "w_fs w' = w_fs w2" "same_env w w1" "same_env w2 w'"
proof -
  obtain w1 w2 where *: "sql path (select (\<lambda>_. ())) w = (Inr (), w1)" "body w1 = (Inr x, w2)"
    "sql path (select (\<lambda>_. ())) w2 = (Inr (), w')"
    using assms unfolding transaction_def bindA_def map_errA_def
    by (auto simp: returnA_def split: prod.splits sum.splits)
  then show thesis using that [of w1 w2] by (auto simp: sql_ok select_def same_env_def fun_upd_idem_iff)
qed

section \<open>Progress of the generation\<close>

text \<open>A sequence of statements on one database that moves its generation by a fixed amount and leaves the other
  databases alone.\<close>

definition advances :: "string \<Rightarrow> int \<Rightarrow> ('e, 'a) act \<Rightarrow> bool" where
  "advances path n m \<longleftrightarrow> keeps index_frame m \<and> (\<forall>w x w' db. m w = (Inr x, w') \<longrightarrow> w_dbs w path = Some db
     \<longrightarrow> (\<exists>db'. w_dbs w' = (w_dbs w)(path \<mapsto> db') \<and> db_generation db' = db_generation db + n))"

lemma advances_return: "advances path 0 (returnA x)"
  unfolding advances_def
  by (intro conjI index_frame.keeps_return) (auto simp: returnA_def intro!: exI fun_upd_idem [symmetric])

lemma advances_throw: "advances path n (throwA e)"
  unfolding advances_def by (intro conjI index_frame.keeps_throw) (simp add: throwA_def)

lemma advances_bind:
  assumes "advances path n m" and "\<And>x. advances path k (f x)"
  shows "advances path (n + k) (bindA m f)"
proof -
  have "keeps index_frame (bindA m f)"
    using assms by (intro index_frame.keeps_bind) (auto simp: advances_def)
  moreover have "\<exists>db'. w_dbs w' = (w_dbs w)(path \<mapsto> db') \<and> db_generation db' = db_generation db + (n + k)"
    if run: "bindA m f w = (Inr x, w')" and db: "w_dbs w path = Some db" for w x w' db
  proof -
    obtain y w1 where y: "m w = (Inr y, w1)" "f y w1 = (Inr x, w')"
      using run by (auto simp: bindA_def split: prod.splits sum.splits)
    obtain db1 where db1: "w_dbs w1 = (w_dbs w)(path \<mapsto> db1)" "db_generation db1 = db_generation db + n"
      using assms(1) y(1) db unfolding advances_def by metis
    obtain db2 where "w_dbs w' = (w_dbs w1)(path \<mapsto> db2)" "db_generation db2 = db_generation db1 + k"
      using assms(2) [of y] y(2) db1(1) unfolding advances_def by (metis fun_upd_same)
    with db1 show ?thesis by auto
  qed
  ultimately show ?thesis by (simp add: advances_def)
qed

lemma advances_sql:
  assumes "index_only stmt" and "\<And>db x db'. stmt db = Inr (x, db') \<Longrightarrow> db_generation db' = db_generation db + n"
  shows "advances path n (sql path stmt)"
  using assms keeps_sql unfolding advances_def by (auto simp: sql_ok)

lemma advances_change:
  assumes "\<And>db. journal_part (h db) = journal_part db" "\<And>db. db_generation (h db) = db_generation db + n"
  shows "advances path n (sql path (change h))"
  using assms by (intro advances_sql) (auto simp: change_def)

lemma advances_select_generation: "advances path 0 (select_generation path)"
  unfolding select_generation_def by (intro advances_sql) (auto simp: index_only_def split: if_splits)

lemma advances_bump: "advances path 1 (bump_generation path)"
proof -
  have "advances path (1 + (0 + 0)) (bump_generation path)"
    unfolding bump_generation_def
    by (intro advances_bind advances_change advances_select_generation)
      (auto simp: journal_part_def intro: advances_throw advances_return)
  then show ?thesis by simp
qed

lemma advances_insert_search: "advances path 0 (insert_search_entry lower path entry)"
  unfolding insert_search_entry_def
  by (intro advances_sql) (auto simp: index_only_def journal_part_def split: if_splits)

lemma advances_insert_index: "advances path 0 (sql path (insert_index_row item))"
  by (intro advances_sql) (auto simp: index_only_def insert_index_row_def journal_part_def split: if_splits)

lemma advances_inserts:
  "advances path 0 (insert_index_rows path items)" "advances path 0 (insert_search_entries lower path entries)"
proof -
  note bind = advances_bind [where n = 0 and k = 0, simplified]
  show "advances path 0 (insert_index_rows path items)"
    by (induction items; simp only: insert_index_rows.simps; intro advances_return bind advances_insert_index)
  show "advances path 0 (insert_search_entries lower path entries)"
    by (induction entries; simp only: insert_search_entries.simps; intro advances_return bind advances_insert_search)
qed

section \<open>The contract of an index operation\<close>

definition index_of :: "world \<Rightarrow> string \<Rightarrow> root_db" where
  "index_of w path = (case w_dbs w path of None \<Rightarrow> empty_db | Some db \<Rightarrow> db)\<lparr>db_journal := [], db_next_seq := 1\<rparr>"

definition same_index :: "world \<Rightarrow> world \<Rightarrow> bool" where
  "same_index w w' \<longleftrightarrow> index_of w' = index_of w"

interpretation same_index: world_frame same_index
  by unfold_locales (simp_all add: same_index_def)

lemma same_dbs_index: "keeps same_dbs m \<Longrightarrow> keeps same_index m"
  by (erule keeps_mono) (simp add: same_dbs_def same_index_def index_of_def fun_eq_iff)

lemma index_frame_frames:
  assumes "keeps index_frame m"
  shows "keeps adds_dirs m" "keeps same_journals m" "keeps same_env m"
proof -
  have "index_frame w w' \<Longrightarrow> adds_dirs w w'" for w w' by (simp add: index_frame_def same_fs_def adds_dirs_def)
  moreover have "index_frame w w' \<Longrightarrow> same_journals w w'" for w w'
  proof -
    assume "index_frame w w'"
    then have "map_option journal_part (w_dbs w' path) = map_option journal_part (w_dbs w path)" for path
      by (simp add: index_frame_def)
    then have "journal_of w' path = journal_of w path" for path
      by (cases "w_dbs w path"; cases "w_dbs w' path")
        (simp add: journal_of_def journal_part_def, metis option.map(1,2) option.distinct(1),
         metis option.map(1,2) option.distinct(1), metis journal_of_def journal_part_def option.case(2) option.map(2) option.inject prod.inject)
    then show "same_journals w w'" by (simp add: same_journals_def fun_eq_iff)
  qed
  moreover have "index_frame w w' \<Longrightarrow> same_env w w'" for w w' by (simp add: index_frame_def)
  ultimately show "keeps adds_dirs m" "keeps same_journals m" "keeps same_env m"
    using keeps_mono [OF assms] by blast+
qed

lemma open_root_db_parts:
  "keeps adds_dirs (open_root_db root)" "keeps same_journals (open_root_db root)" "keeps same_index (open_root_db root)"
proof -
  have "keeps same_journals (db_connect path)" "keeps same_journals (migrate path)"
    "keeps same_index (db_connect path)" "keeps same_index (migrate path)" for path
    by (auto simp: keeps_def same_journals_def same_index_def index_of_def journal_of_def db_connect_def migrate_def
        Let_def empty_db_def fun_eq_iff split: option.splits)
  note steps = this open_steps same_dbs_journals [OF create_dir_all_frames(2)] same_dbs_index [OF create_dir_all_frames(2)]
    create_dir_all_adds same_fs_adds
  show "keeps adds_dirs (open_root_db root)"
    unfolding open_root_db_def open_pool_at_def Let_def
    by (intro adds_dirs.keeps_bind adds_dirs.keeps_map_err) (auto intro: adds_dirs.keeps_rules steps split: option.splits)
  show "keeps same_journals (open_root_db root)"
    unfolding open_root_db_def open_pool_at_def Let_def
    by (intro same_journals.keeps_bind same_journals.keeps_map_err) (auto intro: same_journals.keeps_rules steps split: option.splits)
  show "keeps same_index (open_root_db root)"
    unfolding open_root_db_def open_pool_at_def Let_def
    by (intro same_index.keeps_bind same_index.keeps_map_err) (auto intro: same_index.keeps_rules steps split: option.splits)
qed

locale index_operation =
  fixes run :: "(FileIndexError, 'a) act"
  assumes tree: "keeps adds_dirs run"
    and journals: "keeps same_journals run"
    and atomic: "run w = (Inl e, w') \<Longrightarrow> same_index w w'"
    and advance: "run w = (Inr x, w') \<Longrightarrow> \<exists>path. (\<forall>p. p \<noteq> path \<longrightarrow> index_of w' p = index_of w p)
      \<and> db_generation (index_of w' path) = db_generation (index_of w path) + 1"
begin

lemma contract:
  assumes "run w = (r, w')"
  shows "adds_dirs w w' \<and> journal_of w' = journal_of w
    \<and> (case r of
         Inl _ \<Rightarrow> index_of w' = index_of w
       | Inr _ \<Rightarrow> \<exists>path. (\<forall>p. p \<noteq> path \<longrightarrow> index_of w' p = index_of w p)
           \<and> db_generation (index_of w' path) = db_generation (index_of w path) + 1)"
  using keepsD [OF tree assms] keepsD [OF journals assms] atomic advance assms
  by (cases r) (simp_all add: same_journals_def same_index_def)

lemma generation_mono:
  assumes "run w = (r, w')"
  shows "db_generation (index_of w p) \<le> db_generation (index_of w' p)"
proof (cases r)
  case (Inr x)
  with advance assms obtain path where "\<forall>p. p \<noteq> path \<longrightarrow> index_of w' p = index_of w p"
    "db_generation (index_of w' path) = db_generation (index_of w path) + 1" by blast
  then show ?thesis by (cases "p = path") simp_all
next
  case (Inl e)
  then show ?thesis using atomic assms by (simp add: same_index_def)
qed

end

text \<open>A body that works on an opened database, all or nothing.\<close>

definition index_body :: "string \<Rightarrow> (FileIndexError, 'a) act \<Rightarrow> bool" where
  "index_body path m \<longleftrightarrow> keeps index_frame m \<and> (\<forall>w e w'. m w = (Inl e, w') \<longrightarrow> same_index w w')
     \<and> (\<forall>w x w'. m w = (Inr x, w') \<longrightarrow> (\<forall>p. p \<noteq> path \<longrightarrow> index_of w' p = index_of w p)
          \<and> db_generation (index_of w' path) = db_generation (index_of w path) + 1)"

lemma index_body_transaction:
  assumes "advances path 1 body"
  shows "index_body path (map_errA Db (transaction id path body))"
proof -
  have "keeps index_frame (map_errA Db (transaction id path body))"
    using assms by (intro index_frame.keeps_map_err keeps_transaction) (simp add: advances_def)
  moreover have "same_index w w'" if run: "map_errA Db (transaction id path body) w = (Inl e, w')" for w e w'
  proof -
    obtain e' where "transaction id path body w = (Inl e', w')"
      using run by (cases "transaction id path body w"; cases "fst (transaction id path body w)")
        (auto simp: map_errA_def)
    then show ?thesis by (simp add: same_index_def index_of_def fun_eq_iff transaction_fails)
  qed
  moreover have "(\<forall>p. p \<noteq> path \<longrightarrow> index_of w' p = index_of w p)
      \<and> db_generation (index_of w' path) = db_generation (index_of w path) + 1"
    if "map_errA Db (transaction id path body) w = (Inr x, w')" for w x w'
  proof -
    from that have "transaction id path body w = (Inr x, w')" by (simp add: action_iffs)
    then obtain w1 w2 db where *: "body w1 = (Inr x, w2)" "w_dbs w1 = w_dbs w" "w_dbs w' = w_dbs w2"
      "w_dbs w path = Some db" by (rule transaction_runs)
    then obtain db' where "w_dbs w' = (w_dbs w)(path \<mapsto> db')" "db_generation db' = db_generation db + 1"
      using assms unfolding advances_def by metis
    then show ?thesis using *(4) by (simp add: index_of_def)
  qed
  ultimately show ?thesis by (simp add: index_body_def)
qed

lemma index_body_read: "(\<And>x. index_body path (f x)) \<Longrightarrow> index_body path (bindA (readA h) f)"
  unfolding index_body_def
  by (intro conjI index_frame.keeps_bind index_frame.keeps_read)
    (auto simp: bindA_def readA_def same_index.refl split: sum.splits)

lemma index_body_throw: "index_body path (throwA e)"
  unfolding index_body_def
  by (intro conjI index_frame.keeps_throw) (auto simp: throwA_def same_index.refl)

lemma read_contract:
  assumes op: "\<And>x. index_operation (f x)"
  shows "index_operation (bindA (readA h) f)"
proof
  note ops = index_operation.tree [OF op] index_operation.journals [OF op] index_operation.atomic [OF op]
    index_operation.advance [OF op]
  show "keeps adds_dirs (bindA (readA h) f)" by (intro adds_dirs.keeps_rules ops)
  show "keeps same_journals (bindA (readA h) f)" by (intro same_journals.keeps_rules ops)
  show "bindA (readA h) f w = (Inl e, w') \<Longrightarrow> same_index w w'" for w e w'
    using ops(3) by (auto simp: bindA_def readA_def same_index.refl split: sum.splits)
  show "bindA (readA h) f w = (Inr x, w') \<Longrightarrow> \<exists>path. (\<forall>p. p \<noteq> path \<longrightarrow> index_of w' p = index_of w p)
      \<and> db_generation (index_of w' path) = db_generation (index_of w path) + 1" for w x w'
    using ops(4) by (auto simp: bindA_def readA_def split: sum.splits)
qed

lemma throw_contract: "index_operation (throwA e)"
  by unfold_locales (auto simp: throwA_def keeps_def adds_dirs.refl same_journals.refl same_index.refl)

lemma open_contract:
  assumes body: "index_body (db_path_for_root root) m"
  shows "index_operation (bindA (map_errA Db (open_root_db root)) (\<lambda>_. m))"
proof
  have m: "keeps index_frame m" using body by (simp add: index_body_def)
  have op: "keeps same_index (map_errA Db (open_root_db root))"
    by (intro same_index.keeps_map_err open_root_db_parts)
  show "keeps adds_dirs (bindA (map_errA Db (open_root_db root)) (\<lambda>_. m))"
    by (intro adds_dirs.keeps_bind adds_dirs.keeps_map_err open_root_db_parts index_frame_frames [OF m])
  show "keeps same_journals (bindA (map_errA Db (open_root_db root)) (\<lambda>_. m))"
    by (intro same_journals.keeps_bind same_journals.keeps_map_err open_root_db_parts index_frame_frames [OF m])
  show "bindA (map_errA Db (open_root_db root)) (\<lambda>_. m) w = (Inl e, w') \<Longrightarrow> same_index w w'" for w e w'
    using body keepsD [OF op] unfolding index_body_def
    by (auto simp: bindA_def split: prod.splits sum.splits) (metis same_index.trans)
  show "bindA (map_errA Db (open_root_db root)) (\<lambda>_. m) w = (Inr x, w')
      \<Longrightarrow> \<exists>path. (\<forall>p. p \<noteq> path \<longrightarrow> index_of w' p = index_of w p)
      \<and> db_generation (index_of w' path) = db_generation (index_of w path) + 1" for w x w'
    using body keepsD [OF op] unfolding index_body_def same_index_def
    by (auto simp: bindA_def split: prod.splits sum.splits) metis
qed

lemma with_root_db_contract:
  assumes "\<And>guard. index_body (db_path_for_root (guard_root guard)) (body guard (db_path_for_root (guard_root guard)))"
  shows "index_operation (with_root_db root body)"
  unfolding with_root_db_def by (intro read_contract open_contract assms)

lemma advances_zero: "advances path 0 m \<Longrightarrow> (\<And>x. advances path 1 (f x)) \<Longrightarrow> advances path 1 (bindA m f)"
  using advances_bind [of path 0 m 1 f] by simp

lemma advances_bumped: "advances path 1 (bindA (bump_generation path) (\<lambda>_. returnA ()))"
  using advances_bind [OF advances_bump advances_return, of path] by simp

lemmas advances_rules = advances_zero advances_bumped advances_bump advances_inserts advances_insert_search advances_change

lemma advances_upsert: "advances path 0 (sql path (change (upsert_index_row item)))"
  by (intro advances_change) (simp_all add: upsert_index_row_def journal_part_def)

lemma index_body_result: "index_body path m \<Longrightarrow> index_body path (bindA m (\<lambda>x. returnA (f x)))"
  unfolding index_body_def
  by (intro conjI index_frame.keeps_rules) (auto simp: bindA_def returnA_def split: prod.splits sum.splits)

interpretation removes: index_operation "remove_path root relative" for root relative
  unfolding remove_path_def
  by (intro with_root_db_contract index_body_transaction advances_rules) (simp_all add: journal_part_def)

interpretation clears: index_operation "clear_index root" for root
  unfolding clear_index_def
  by (intro with_root_db_contract index_body_transaction advances_rules) (simp_all add: journal_part_def)

interpretation upserts: index_operation "upsert_file lower root relative size_bytes modified"
  for lower root relative size_bytes modified
proof -
  have "index_body path (map_errA Db (upsert_rows lower path item entry))" for path item entry
    unfolding upsert_rows_def
    by (intro index_body_transaction advances_rules advances_upsert) (simp_all add: journal_part_def)
  then show "index_operation (upsert_file lower root relative size_bytes modified)"
    unfolding upsert_file_def
    by (intro with_root_db_contract index_body_read) (auto simp: index_body_throw split: option.splits)
qed

interpretation upserts_existing: index_operation "upsert_existing_file lower root relative" for lower root relative
  unfolding upsert_existing_file_def
  by (intro read_contract) (auto intro: throw_contract upserts.index_operation_axioms)

interpretation reindexes: index_operation "reindex_scanned lower guard analysis entries"
  for lower guard analysis entries
proof -
  have "index_body path (map_errA Db (replace_index lower path items entries))" for path items
    unfolding replace_index_def
    by (intro index_body_transaction advances_rules) (simp_all add: journal_part_def)
  then show "index_operation (reindex_scanned lower guard analysis entries)"
    unfolding reindex_scanned_def by (intro open_contract index_body_read index_body_result)
qed

lemma result_contract:
  assumes "index_operation m"
  shows "index_operation (bindA m (\<lambda>x. returnA (f x)))"
proof
  show "keeps adds_dirs (bindA m (\<lambda>x. returnA (f x)))" "keeps same_journals (bindA m (\<lambda>x. returnA (f x)))"
    by (intro adds_dirs.keeps_rules same_journals.keeps_rules index_operation.tree [OF assms]
        index_operation.journals [OF assms])+
qed (auto simp: bindA_def returnA_def split: prod.splits sum.splits
    dest: index_operation.atomic [OF assms] index_operation.advance [OF assms])

text \<open>C31: every operation that changes the index is all or nothing, whatever call or statement fails: the journal in
  the same database is untouched, the tree gains at most directories, an error leaves the whole index as it was,
  and a success changes the index of one database, whose generation grows by exactly one.\<close>

theorem index_operations_atomic:
  assumes "op \<in> {remove_path root relative, clear_index root, upsert_file lower root relative size_bytes modified,
      upsert_existing_file lower root relative,
      bindA (reindex_scanned lower guard analysis entries) (\<lambda>_. returnA ())}"
    and "op w = (r, w')"
  shows "adds_dirs w w' \<and> journal_of w' = journal_of w
    \<and> (case r of
         Inl _ \<Rightarrow> index_of w' = index_of w
       | Inr _ \<Rightarrow> \<exists>path. (\<forall>p. p \<noteq> path \<longrightarrow> index_of w' p = index_of w p)
           \<and> db_generation (index_of w' path) = db_generation (index_of w path) + 1)"
proof (rule index_operation.contract)
  show "index_operation op"
    using assms(1) removes.index_operation_axioms clears.index_operation_axioms upserts.index_operation_axioms
      upserts_existing.index_operation_axioms result_contract [OF reindexes.index_operation_axioms]
    by auto
qed (rule assms(2))

theorem index_operations_atomic_witness:
  "\<exists>w' path. clear_index ''/home/box'' early_db_world = (Inr (), w') \<and> journal_of w' = journal_of early_db_world
     \<and> db_generation (index_of w' path) = db_generation (index_of early_db_world path) + 1"
proof -
  have "is_ok (fst (clear_index ''/home/box'' early_db_world))" by code_simp
  then obtain w' where run: "clear_index ''/home/box'' early_db_world = (Inr (), w')"
    by (cases "clear_index ''/home/box'' early_db_world") (auto simp: is_ok_iff)
  have "clear_index ''/home/box'' \<in> {remove_path ''/home/box'' [], clear_index ''/home/box'',
      upsert_file id ''/home/box'' [] 0 None, upsert_existing_file id ''/home/box'' [],
      bindA (reindex_scanned id sample_guard
        \<lparr>ar_root = [], ar_files = [], ar_directories = [], ar_skipped_entries = []\<rparr> []) (\<lambda>_. returnA ())}" by simp
  from index_operations_atomic [OF this run] run show ?thesis by auto
qed

end
