(* ===== verification/Index_Exact.thy ===== *)
theory Index_Exact
  imports Index_Laws Plain_Paths
begin

text \<open>
  A full rescan in a world without faults: it returns, and the tables mirror the tree. Listing the index
  afterwards returns what the rescan reported.
\<close>

section \<open>The scan for the search table\<close>

definition found_entry :: "world \<Rightarrow> loc \<Rightarrow> loc \<Rightarrow> IndexedSearchEntry list" where
  "found_entry w r rel =
     (let m = node_metadata (the (map_of (w_fs w) (r @ rel)))
      in case indexed_search_entry (join_with ''/'' rel) (m_is_dir m)
                (if m_is_dir m then None else Some (m_len m)) (modified_unix_ms m) of
           None \<Rightarrow> [] | Some entry \<Rightarrow> [entry])"

definition indexable :: "((node option \<Rightarrow> bool) \<Rightarrow> loc set) \<Rightarrow> loc set" where
  "indexable X = X is_regular \<union> X is_directory"

definition visits :: "(FileIndexError + IndexedSearchEntry list) option \<Rightarrow> world \<Rightarrow> loc \<Rightarrow> IndexedSearchEntry list
    \<Rightarrow> ((node option \<Rightarrow> bool) \<Rightarrow> loc set) \<Rightarrow> bool" where
  "visits res w r acc X \<longleftrightarrow> (\<exists>E. res = Some (Inr (acc @ concat (map (found_entry w r) E)))
     \<and> distinct E \<and> set E = indexable X)"

lemma strip_prefix_loc:
  assumes "valid_loc r" "valid_loc rel"
  shows "strip_prefix_components (path_of_loc (r @ rel)) (path_of_loc r) = Some (map Normal rel)"
proof -
  have v: "valid_loc (r @ rel)" using assms by (simp add: valid_loc_def)
  show ?thesis
    using components_path_of_loc [OF v] components_path_of_loc [OF assms(1)] path_starts_with_loc [OF v assms(1)]
    by (simp add: strip_prefix_components_def)
qed

lemma component_str_Normal: "map component_str (map Normal rel) = rel"
  by (induction rel) auto

lemma visit_entry_visits:
  assumes wf: "wf_fs (w_fs w)" and nd: "map_of (w_fs w) (r @ base @ [name]) = Some nd"
    and rec: "\<And>acc. is_directory (Some nd) \<Longrightarrow>
      visits (recurse (path_of_loc (r @ base @ [name])) acc) w r acc (below w r (base @ [name]))"
  shows "visits (visit_entry recurse w (path_of_loc r) (path_of_loc (r @ base @ [name])) acc)
    w r acc (under w r base name)"
proof (cases "visible [name]")
  case False
  have v: "valid_loc ((r @ base) @ [name])" using wf_fs_valid [OF wf] nd by auto
  have "under w r base name P = {}" for P using False by (auto simp: under_def visible_def)
  moreover have "is_mousekeeper_internal_dir (path_of_loc (r @ base @ [name]))"
    using False internal_loc [OF v] by (auto simp: visible_def)
  ultimately show ?thesis
    unfolding visits_def by (intro exI [of _ "[]"]) (simp add: visit_entry_def indexable_def)
next
  case True
  let ?l = "r @ base @ [name]"
  have v: "valid_loc ?l" using wf_fs_valid [OF wf] nd by auto
  then have vr: "valid_loc r" "valid_loc (base @ [name])" by (simp_all add: valid_loc_def)
  have internal: "\<not> is_mousekeeper_internal_dir (path_of_loc ?l)"
    using True internal_loc [of "r @ base" name] v by (auto simp: visible_def)
  have meta: "fs_symlink_metadata w (path_of_loc ?l) = Inr (node_metadata nd)"
    using resolve_path_of_loc [OF wf nd, of False] by (simp add: fs_symlink_metadata_def)
  have strip: "strip_prefix_components (path_of_loc ?l) (path_of_loc r) = Some (map Normal (base @ [name]))"
    using strip_prefix_loc [OF vr] by simp
  have rel: "join_with ''/'' (map component_str (map Normal (base @ [name]))) = join_with ''/'' (base @ [name])"
    by (simp only: component_str_Normal)
  note leaf = below_leaf [OF wf, of r "base @ [name]"]
  note step = internal meta strip rel [simplified] visit_entry_def is_link_or_reparse_point_def
    is_windows_reparse_point_def node_metadata_def Let_def
  show ?thesis
  proof (cases nd)
    case (RegularFile c a)
    have "visit_entry recurse w (path_of_loc r) (path_of_loc ?l) acc
        = Some (Inr (acc @ concat (map (found_entry w r) [base @ [name]])))"
      using RegularFile nd by (auto simp: step found_entry_def split: option.splits)
    moreover have "indexable (under w r base name) = {base @ [name]}"
      using leaf nd RegularFile by (simp add: indexable_def under_cases [OF True])
    ultimately show ?thesis unfolding visits_def by (intro exI [of _ "[base @ [name]]"]) simp
  next
    case (Directory a)
    let ?acc = "acc @ concat (map (found_entry w r) [base @ [name]])"
    obtain E where E: "recurse (path_of_loc ?l) ?acc = Some (Inr (?acc @ concat (map (found_entry w r) E)))"
      "distinct E" "set E = indexable (below w r (base @ [name]))"
      using rec [of ?acc] Directory unfolding visits_def by auto
    have "visit_entry recurse w (path_of_loc r) (path_of_loc ?l) acc = recurse (path_of_loc ?l) ?acc"
      using Directory nd by (auto simp: step found_entry_def split: option.splits)
    moreover have "base @ [name] \<notin> below w r (base @ [name]) P" for P by (auto simp: below_def)
    moreover have "indexable (under w r base name) = insert (base @ [name]) (indexable (below w r (base @ [name])))"
      using nd Directory by (auto simp: indexable_def under_cases [OF True])
    ultimately show ?thesis
      using E unfolding visits_def by (intro exI [of _ "(base @ [name]) # E"]) (auto simp: indexable_def)
  next
    case (Symlink t a)
    have "visit_entry recurse w (path_of_loc r) (path_of_loc ?l) acc = Some (Inr acc)"
      using Symlink by (simp add: step)
    moreover have "indexable (under w r base name) = {}"
      using leaf nd Symlink by (simp add: indexable_def under_cases [OF True])
    ultimately show ?thesis unfolding visits_def by (intro exI [of _ "[]"]) simp
  next
    case (Special a)
    have "visit_entry recurse w (path_of_loc r) (path_of_loc ?l) acc = Some (Inr acc)"
      using Special by (simp add: step)
    moreover have "indexable (under w r base name) = {}"
      using leaf nd Special by (simp add: indexable_def under_cases [OF True])
    ultimately show ?thesis unfolding visits_def by (intro exI [of _ "[]"]) simp
  qed
qed

lemma visit_entries_visits:
  assumes "\<And>name acc. name \<in> set names \<Longrightarrow>
      visits (visit_entry recurse w root (join_path dir name) acc) w r acc (under w r base name)"
    and "distinct names"
  shows "visits (visit_entries recurse w root dir names acc) w r acc
    (\<lambda>P. \<Union>name \<in> set names. under w r base name P)"
  using assms
proof (induction names arbitrary: acc)
  case Nil
  show ?case unfolding visits_def by (intro exI [of _ "[]"]) (simp add: indexable_def)
next
  case (Cons name names)
  let ?Y = "\<lambda>P. \<Union>name \<in> set names. under w r base name P"
  obtain E where one: "visit_entry recurse w root (join_path dir name) acc
      = Some (Inr (acc @ concat (map (found_entry w r) E)))" "distinct E" "set E = indexable (under w r base name)"
    using Cons.prems(1) [of name acc] unfolding visits_def by auto
  let ?acc = "acc @ concat (map (found_entry w r) E)"
  have "visits (visit_entries recurse w root dir names ?acc) w r ?acc ?Y"
    using Cons.prems by (intro Cons.IH) auto
  then obtain E' where rest: "visit_entries recurse w root dir names ?acc
      = Some (Inr (?acc @ concat (map (found_entry w r) E')))" "distinct E'" "set E' = indexable ?Y"
    unfolding visits_def by blast
  have "under w r base name P \<inter> ?Y Q = {}" for P Q
    using Cons.prems(2) under_disjoint [of name] by fastforce
  then have "set E \<inter> set E' = {}" using one(3) rest(3) by (auto simp: indexable_def)
  moreover have "indexable (\<lambda>P. \<Union>name \<in> set (name # names). under w r base name P) = set E \<union> set E'"
    using one(3) rest(3) by (auto simp: indexable_def)
  ultimately show ?case
    using one rest unfolding visits_def by (intro exI [of _ "E @ E'"]) simp
qed

lemma visit_visits:
  assumes wf: "wf_fs (w_fs w)" and "is_directory (map_of (w_fs w) (r @ base))"
    and "\<And>s. map_of (w_fs w) (r @ base @ s) \<noteq> None \<Longrightarrow> length s < fuel"
  shows "visits (visit fuel w (path_of_loc r) (path_of_loc (r @ base)) acc) w r acc (below w r base)"
  using assms(2,3)
proof (induction fuel arbitrary: base acc)
  case 0
  from "0.prems"(1) obtain a where "map_of (w_fs w) (r @ base) = Some (node.Directory a)"
    by (auto simp: is_directory_iff)
  with "0.prems"(2) [of "[]"] show ?case by simp
next
  case (Suc fuel)
  let ?names = "child_names (w_fs w) (r @ base)" and ?dir = "path_of_loc (r @ base)"
  obtain a where dir: "map_of (w_fs w) (r @ base) = Some (node.Directory a)"
    using Suc.prems(1) by (auto simp: is_directory_iff)
  have v: "valid_loc (r @ base)" using wf_fs_valid [OF wf] dir by auto
  have names: "set ?names = {c. map_of (w_fs w) (r @ base @ [c]) \<noteq> None}"
    by (simp add: child_names_set)
  have "read_dir w ?dir = Inr ?names"
    using resolve_path_of_loc [OF wf dir, of True] by (simp add: read_dir_def)
  moreover have "visits (visit_entries (visit fuel w (path_of_loc r)) w (path_of_loc r)
      ?dir ?names acc) w r acc (\<lambda>P. \<Union>name \<in> set ?names. under w r base name P)"
  proof (rule visit_entries_visits)
    fix name acc assume "name \<in> set ?names"
    then obtain nd where nd: "map_of (w_fs w) (r @ base @ [name]) = Some nd" using names by auto
    then have "valid_name name"
      using wf_fs_valid [OF wf, of "r @ base @ [name]"] by (simp add: valid_loc_def)
    then have "join_path ?dir name = path_of_loc (r @ base @ [name])"
      using join_path_loc [OF v] by simp
    moreover have "visits (visit_entry (visit fuel w (path_of_loc r)) w (path_of_loc r)
        (path_of_loc (r @ base @ [name])) acc) w r acc (under w r base name)"
      using Suc.IH [of "base @ [name]"] Suc.prems(2) nd by (intro visit_entry_visits [OF wf nd]) fastforce
    ultimately show "visits (visit_entry (visit fuel w (path_of_loc r)) w (path_of_loc r)
        (join_path ?dir name) acc) w r acc (under w r base name)" by simp
  qed (rule child_names_distinct [OF wf_fs_distinct [OF wf]])
  moreover have "indexable (\<lambda>P. \<Union>name \<in> set ?names. under w r base name P) = indexable (below w r base)"
    using below_under [OF wf, of _ r base] names by (simp add: indexable_def)
  ultimately show ?case unfolding visits_def by simp
qed

text \<open>Names without a backslash are kept as they are.\<close>

definition plain_loc :: "loc \<Rightarrow> bool" where
  "plain_loc rel \<longleftrightarrow> (\<forall>c \<in> set rel. CHR 0x5C \<notin> set c)"

definition search_entry_of :: "world \<Rightarrow> loc \<Rightarrow> loc \<Rightarrow> IndexedSearchEntry" where
  "search_entry_of w r rel =
     (let m = node_metadata (the (map_of (w_fs w) (r @ rel)))
      in \<lparr>ie_name = last rel, ie_relative_path = join_with ''/'' rel, ie_is_dir = m_is_dir m,
          ie_extension = (if m_is_dir m then None else index_extension_of (join_with ''/'' rel)),
          ie_size_bytes = (if m_is_dir m then None else Some (m_len m)),
          ie_modified_unix_ms = modified_unix_ms m\<rparr>)"

lemma file_name_rel: "valid_loc rel \<Longrightarrow> rel \<noteq> [] \<Longrightarrow> file_name (join_with ''/'' rel) = Some (last rel)"
proof -
  assume rel: "valid_loc rel" "rel \<noteq> []"
  then have "map Normal rel = map Normal (butlast rel) @ [Normal (last rel)]"
    by (metis append_butlast_last_id list.simps(8,9) map_append)
  then show ?thesis using components_join [OF rel] by (auto simp: file_name_Some_iff)
qed

lemma split_join_slash:
  assumes "plain_loc rel" "valid_loc rel" "rel \<noteq> []"
  shows "split_on (\<lambda>c. c = CHR ''/'' \<or> c = CHR 0x5C) (join_with ''/'' rel) = rel"
  using assms
proof (induction rel)
  case (Cons c rel)
  have clean: "\<forall>x \<in> set c. \<not> (x = CHR ''/'' \<or> x = CHR 0x5C)"
    using Cons.prems by (auto simp: plain_loc_def valid_loc_def valid_name_def)
  show ?case
  proof (cases "rel = []")
    case True
    then show ?thesis using split_on_none [OF clean] by simp
  next
    case False
    then have "split_on (\<lambda>c. c = CHR ''/'' \<or> c = CHR 0x5C) (join_with ''/'' rel) = rel"
      using Cons by (auto simp: plain_loc_def valid_loc_def)
    then show ?thesis using False split_on_none [OF clean] by (simp add: join_with_Cons split_on_append_sep)
  qed
qed simp

lemma found_entry_plain:
  assumes "plain_loc rel" "valid_loc rel" "rel \<noteq> []"
  shows "found_entry w r rel = [search_entry_of w r rel]"
proof -
  have "filter (\<lambda>segment. segment \<noteq> []) rel = rel"
    using assms(2) by (intro filter_True) (auto simp: valid_loc_def valid_name_def list_all_iff)
  then show ?thesis
    using split_join_slash [OF assms] file_name_rel [OF assms(2,3)]
    by (simp add: found_entry_def search_entry_of_def indexed_search_entry_def Let_def)
qed

section \<open>Runs without faults\<close>

definition calm :: "world \<Rightarrow> bool" where
  "calm w \<longleftrightarrow> (\<forall>n. \<not> w_fails w n)"

text \<open>In a calm world the action returns \<open>x\<close> and takes one database from \<open>db\<close> to \<open>db'\<close>, changing nothing else.\<close>

definition does :: "string \<Rightarrow> ('e, 'a) act \<Rightarrow> root_db \<Rightarrow> 'a \<Rightarrow> root_db \<Rightarrow> bool" where
  "does path m db x db' \<longleftrightarrow> (\<forall>w. calm w \<longrightarrow> w_dbs w path = Some db \<longrightarrow> (\<exists>w'. m w = (Inr x, w')
     \<and> w_dbs w' = (w_dbs w)(path \<mapsto> db') \<and> w_fs w' = w_fs w \<and> same_env w w'))"

lemma does_return: "does path (returnA x) db x db"
  by (auto simp: does_def returnA_def fun_upd_idem env.refl)

lemma does_bind:
  assumes "does path m db y db1" and "does path (f y) db1 x db2"
  shows "does path (bindA m f) db x db2"
  unfolding does_def
proof (intro allI impI)
  fix w assume w: "calm w" "w_dbs w path = Some db"
  obtain w1 where w1: "m w = (Inr y, w1)" "w_dbs w1 = (w_dbs w)(path \<mapsto> db1)" "w_fs w1 = w_fs w" "same_env w w1"
    using assms(1) w by (auto simp: does_def)
  then have "calm w1" using w(1) by (simp add: calm_def same_env_def)
  then obtain w2 where "f y w1 = (Inr x, w2)" "w_dbs w2 = (w_dbs w1)(path \<mapsto> db2)" "w_fs w2 = w_fs w1" "same_env w1 w2"
    using assms(2) w1(2) unfolding does_def by (metis fun_upd_same)
  with w1 show "\<exists>w'. bindA m f w = (Inr x, w') \<and> w_dbs w' = (w_dbs w)(path \<mapsto> db2) \<and> w_fs w' = w_fs w \<and> same_env w w'"
    by (intro exI [of _ w2]) (auto simp: bindA_def intro: env.trans)
qed

lemma does_map_err: "does path m db x db' \<Longrightarrow> does path (map_errA g m) db x db'"
  unfolding does_def by (fastforce simp: map_errA_def)

lemma does_sql: "stmt db = Inr (x, db') \<Longrightarrow> does path (sql path stmt) db x db'"
  unfolding does_def by (auto simp: sql_ok calm_def same_env_def)

lemma does_change: "does path (sql path (change h)) db () (h db)"
  by (rule does_sql) (simp add: change_def)

lemma does_select: "does path (sql path (select h)) db (h db) db"
  by (rule does_sql) (simp add: select_def)

lemma does_transaction:
  assumes "does path body db x db'"
  shows "does path (transaction conv path body) db x db'"
proof -
  have "does path (bindA body (\<lambda>x. bindA (map_errA conv (sql path (select (\<lambda>_. ())))) (\<lambda>_. returnA x))) db x db'"
    by (rule does_bind [OF assms] does_bind does_map_err does_select does_return)+
  then have "does path (\<lambda>w. case bindA body (\<lambda>x. bindA (map_errA conv (sql path (select (\<lambda>_. ())))) (\<lambda>_. returnA x)) w of
         (Inl error, w') \<Rightarrow> (Inl error, w'\<lparr>w_dbs := w_dbs w\<rparr>)
       | (Inr x, w') \<Rightarrow> (Inr x, w')) db x db'"
    unfolding does_def by fastforce
  then show ?thesis
    unfolding transaction_def by (intro does_bind [OF does_map_err [OF does_select]])
qed

lemmas does_rules = does_return does_map_err does_change does_select does_transaction

lemma does_insert_index:
  assumes "distinct (map ix_relative_path (db_file_index db) @ map xf_relative_path items)"
  shows "does path (insert_index_rows path items) db () (db\<lparr>db_file_index := db_file_index db @ map index_row_of items\<rparr>)"
  using assms
proof (induction items arbitrary: db)
  case Nil
  have "db\<lparr>db_file_index := db_file_index db\<rparr> = db" by simp
  then show ?case
    using does_return [of path "()" db] by (simp only: insert_index_rows.simps list.map append_Nil2)
next
  case (Cons item items)
  let ?db = "db\<lparr>db_file_index := db_file_index db @ [index_row_of item]\<rparr>"
  have "insert_index_row item db = Inr ((), ?db)"
    using Cons.prems by (auto simp: insert_index_row_def)
  moreover have "does path (insert_index_rows path items) ?db ()
      (?db\<lparr>db_file_index := db_file_index ?db @ map index_row_of items\<rparr>)"
    using Cons.prems by (intro Cons.IH) (simp add: index_row_of_def)
  ultimately show ?case by (auto intro: does_bind does_sql)
qed

lemma does_insert_search:
  assumes "distinct (map sr_relative_path (db_search_entries db) @ map ie_relative_path entries)"
  shows "does path (insert_search_entries lower path entries) db ()
    (db\<lparr>db_search_entries := db_search_entries db @ map (search_row_of lower) entries\<rparr>)"
  using assms
proof (induction entries arbitrary: db)
  case Nil
  have "db\<lparr>db_search_entries := db_search_entries db\<rparr> = db" by simp
  then show ?case
    using does_return [of path "()" db] by (simp only: insert_search_entries.simps list.map append_Nil2)
next
  case (Cons entry entries)
  let ?db = "db\<lparr>db_search_entries := db_search_entries db @ [search_row_of lower entry]\<rparr>"
  have "does path (insert_search_entry lower path entry) db () ?db"
    unfolding insert_search_entry_def using Cons.prems by (intro does_sql) auto
  moreover have "does path (insert_search_entries lower path entries) ?db ()
      (?db\<lparr>db_search_entries := db_search_entries ?db @ map (search_row_of lower) entries\<rparr>)"
    using Cons.prems by (intro Cons.IH) (simp add: search_row_of_def)
  ultimately show ?case by (auto intro: does_bind)
qed

lemma does_bump:
  assumes "0 \<le> db_generation db" "db_generation db + 1 < 2 ^ 63"
  shows "does path (bump_generation path) db (nat (db_generation db + 1)) (db\<lparr>db_generation := db_generation db + 1\<rparr>)"
  unfolding bump_generation_def select_generation_def
  by (rule does_bind [OF does_change], rule does_bind, rule does_sql) (use assms in \<open>auto intro: does_return\<close>)

lemma does_replace:
  assumes "distinct (map xf_relative_path items)" "distinct (map ie_relative_path entries)"
    and "0 \<le> db_generation db" "db_generation db + 1 < 2 ^ 63"
  shows "does path (replace_index lower path items entries) db (nat (db_generation db + 1))
    (db\<lparr>db_file_index := map index_row_of items, db_search_entries := map (search_row_of lower) entries,
       db_initialized := True, db_generation := db_generation db + 1\<rparr>)"
proof -
  have a: "does path (insert_index_rows path items) (db\<lparr>db_file_index := []\<rparr>) () (db\<lparr>db_file_index := map index_row_of items\<rparr>)"
    using does_insert_index [of "db\<lparr>db_file_index := []\<rparr>" items path] assms(1) by simp
  have b: "does path (insert_search_entries lower path entries) (d\<lparr>db_search_entries := []\<rparr>) ()
      (d\<lparr>db_search_entries := map (search_row_of lower) entries\<rparr>)" for d
    using does_insert_search [of "d\<lparr>db_search_entries := []\<rparr>" entries path lower] assms(2) by simp
  have "does path (replace_index lower path items entries) db (nat (db_generation db + 1))
    (db\<lparr>db_file_index := map index_row_of items, db_search_entries := map (search_row_of lower) entries,
       db_initialized := True\<rparr>\<lparr>db_generation := db_generation db + 1\<rparr>)"
    unfolding replace_index_def
    using does_bump [of "db\<lparr>db_file_index := map index_row_of items, db_search_entries := map (search_row_of lower) entries,
       db_initialized := True\<rparr>" path] assms(3,4)
    by (intro does_transaction does_bind [OF does_change] does_bind [OF a] does_bind [OF b]) simp
  then show ?thesis by simp
qed

section \<open>A full rescan\<close>

definition db_at :: "world \<Rightarrow> string \<Rightarrow> root_db" where
  "db_at w path = (case w_dbs w path of None \<Rightarrow> empty_db | Some db \<Rightarrow> db)"

lemma db_path_loc:
  assumes "valid_loc r"
  shows "db_path_for_root (path_of_loc r) = path_of_loc (r @ [STATE_DIR, DB_FILE])"
    and "parent (db_path_for_root (path_of_loc r)) = Some (path_of_loc (r @ [STATE_DIR]))"
proof -
  have names: "valid_name STATE_DIR" "valid_name DB_FILE" by code_simp+
  then have v: "valid_loc (r @ [STATE_DIR])" using assms by (simp add: valid_loc_def)
  show "db_path_for_root (path_of_loc r) = path_of_loc (r @ [STATE_DIR, DB_FILE])"
    using join_path_loc [OF assms names(1)] join_path_loc [OF v names(2)] by (simp add: db_path_for_root_def)
  moreover have "valid_loc ((r @ [STATE_DIR]) @ [DB_FILE])" using v names by (simp add: valid_loc_def)
  ultimately show "parent (db_path_for_root (path_of_loc r)) = Some (path_of_loc (r @ [STATE_DIR]))"
    using parent_loc [of "r @ [STATE_DIR]" DB_FILE] by simp
qed

lemma open_root_db_calm:
  assumes g: "guard_ok w g r" and dir: "is_directory (map_of (w_fs w) (r @ [STATE_DIR]))" and "calm w"
  obtains w' where "open_root_db (guard_root g) w = (Inr (), w')" "w_fs w' = w_fs w" "same_env w w'"
    "w_dbs w' = (w_dbs w)(db_path_for_root (guard_root g) \<mapsto> db_at w (db_path_for_root (guard_root g)))"
proof -
  have wf: "wf_fs (w_fs w)" and root: "guard_root g = path_of_loc r" using g by (auto simp: guard_ok_def)
  have nofail: "\<not> w_fails w n" for n using assms(3) by (simp add: calm_def)
  have mk: "create_dir_all (path_of_loc (r @ [STATE_DIR])) w = (Inr (), w\<lparr>w_tick := Suc (w_tick w)\<rparr>)"
    by (rule create_dir_all_exists [OF wf dir nofail])
  note par = db_path_loc(2) [OF guard_ok_valid [OF g]]
  let ?path = "db_path_for_root (guard_root g)"
  have "open_root_db (guard_root g) w = (Inr (), w\<lparr>w_tick := Suc (Suc (Suc (w_tick w))),
      w_dbs := (w_dbs w)(?path \<mapsto> db_at w ?path)\<rparr>)"
  proof (cases "w_dbs w ?path")
    case (Some db)
    then have "(w_dbs w)(?path \<mapsto> db) = w_dbs w" by auto
    then show ?thesis using Some nofail
      by (simp add: open_root_db_def open_pool_at_def Let_def root par mk bindA_def map_errA_def
          db_connect_def migrate_def db_at_def)
  qed (use nofail in \<open>simp add: open_root_db_def open_pool_at_def Let_def root par mk bindA_def map_errA_def
          db_connect_def migrate_def db_at_def\<close>)
  then show thesis by (rule that) (simp_all add: same_env_def)
qed

lemma row_keys [simp]:
  "xf_relative_path (indexed_file w g entry) = fe_path entry" "ix_relative_path (index_row_of item) = xf_relative_path item"
  "sr_relative_path (search_row_of lower e) = ie_relative_path e"
  "ie_relative_path (search_entry_of w r rel) = join_with ''/'' rel"
  by (simp_all add: indexed_file_def index_row_of_def search_row_of_def search_entry_of_def Let_def)

text \<open>What a rescan finds, in the order of the tables.\<close>

definition rescan :: "(string \<Rightarrow> string) \<Rightarrow> world \<Rightarrow> path_guard \<Rightarrow> loc \<Rightarrow> IndexedFile list \<Rightarrow> IndexedSearchEntry list \<Rightarrow> bool" where
  "rescan lower w g r items entries \<longleftrightarrow>
     set items = (\<lambda>rel. indexed_file w g (file_entry w r rel)) ` below w r [] is_regular
     \<and> sorted (map xf_relative_path items) \<and> distinct (map xf_relative_path items)
     \<and> set entries = search_entry_of w r ` indexable (below w r [])
     \<and> distinct (map ie_relative_path entries)"

lemma indexable_valid:
  assumes "wf_fs (w_fs w)" "rel \<in> indexable (below w r [])"
  shows "valid_loc rel" "rel \<noteq> []"
  using assms below_valid [OF assms(1), of is_regular rel r] below_valid [OF assms(1), of is_directory rel r]
  by (auto simp: indexable_def)

lemma collect_search_entries_plain:
  assumes wf: "wf_fs (w_fs w)" and dir: "is_directory (map_of (w_fs w) r)"
    and plain: "\<forall>rel \<in> indexable (below w r []). plain_loc rel"
  obtains entries where "collect_search_entries lower w (path_of_loc r) = Some (Inr entries)"
    "set entries = search_entry_of w r ` indexable (below w r [])" "distinct (map ie_relative_path entries)"
proof -
  have "length s < scan_fuel w" if "map_of (w_fs w) (r @ [] @ s) \<noteq> None" for s
    using depth_bound [OF wf that] by (simp add: scan_fuel_def)
  with visit_visits [OF wf, of r "[]" "scan_fuel w" "[]"] dir
  obtain E where E: "visit (scan_fuel w) w (path_of_loc r) (path_of_loc r) [] = Some (Inr (concat (map (found_entry w r) E)))"
    "distinct E" "set E = indexable (below w r [])"
    unfolding visits_def by auto
  note valid = indexable_valid [OF wf, of _ r]
  have "map (found_entry w r) E = map (\<lambda>rel. [search_entry_of w r rel]) E"
    using E(3) plain valid by (auto intro!: found_entry_plain)
  then have flat: "concat (map (found_entry w r) E) = map (search_entry_of w r) E" by (metis concat_map_singleton)
  have "inj_on (join_with ''/'') (set E)" unfolding E(3) using valid join_inj by (blast intro: inj_onI)
  then have "distinct (map ie_relative_path (map (search_entry_of w r) E))"
    using E(2) by (simp add: distinct_map comp_inj_on search_entry_of_def Let_def comp_def)
  with E flat show thesis
    by (intro that [of "sort_key (search_order lower) (map (search_entry_of w r) E)"])
      (simp_all add: collect_search_entries_def distinct_map_sort_key del: map_map)
qed

lemma same_world_guard:
  assumes "w_fs w = w_fs w'" "w_cwd w = w_cwd w'"
  shows "guard_new w root = guard_new w' root"
proof -
  have "walk_path w = walk_path w'" using assms by (simp add: walk_path_def fun_eq_iff)
  then have "resolve w = resolve w'" by (simp add: resolve_def fun_eq_iff)
  moreover from this have "path_is_dir w = path_is_dir w'" by (simp add: path_is_dir_def fs_metadata_def fun_eq_iff)
  ultimately show ?thesis by (simp add: guard_new_def canonicalize_existing_def canonicalize_def)
qed

lemma guard_new_root:
  assumes "guard_ok w g r"
  shows "guard_new w (guard_root g) = Inr g"
proof -
  have wf: "wf_fs (w_fs w)" and root: "guard_root g = path_of_loc r" using assms by (auto simp: guard_ok_def)
  obtain a where "map_of (w_fs w) r = Some (node.Directory a)" using assms by (auto simp: guard_ok_def is_directory_iff)
  from resolve_path_of_loc [OF wf this, of True] show ?thesis
    by (simp add: guard_new_def canonicalize_existing_def canonicalize_def path_is_dir_def fs_metadata_def
        node_metadata_def root [symmetric])
qed

lemma analyze_root_files:
  assumes g: "guard_ok w g r"
  obtains analysis where "analyze_root w (guard_root g) = Some (Inr analysis)"
    "set (ar_files analysis) = file_entry w r ` below w r [] is_regular"
    "sorted (map fe_path (ar_files analysis))" "distinct (map fe_path (ar_files analysis))"
proof -
  have wf: "wf_fs (w_fs w)" using g by (simp add: guard_ok_def)
  obtain F D L where sc: "scanned (below w r []) F D L"
    and res: "analyze_root w (guard_root g) = Some (Inr \<lparr>ar_root = guard_root g,
      ar_files = sort_key fe_path (map (file_entry w r) F),
      ar_directories = sort (map (join_with ''/'') D),
      ar_skipped_entries = sort_key se_path (map link_entry L)\<rparr>)"
    using analyze_root_scan [OF wf guard_new_root [OF g] g] .
  have "distinct (map (join_with ''/'') F)"
    using sc below_inj [OF wf, of is_regular r] by (simp add: scanned_def distinct_map)
  then have "distinct (map fe_path (map (file_entry w r) F))" by (simp add: comp_def)
  with sc show thesis using that [OF res] by (simp add: scanned_def distinct_map_sort_key del: map_map)
qed

lemma reindex_calm:
  assumes g: "guard_new w root = Inr g" "guard_ok w g r" and "calm w"
    and dir: "is_directory (map_of (w_fs w) (r @ [STATE_DIR]))"
    and plain: "\<forall>rel \<in> indexable (below w r []). plain_loc rel"
    and path: "path = db_path_for_root (guard_root g)"
    and gen: "0 \<le> db_generation (db_at w path)" "db_generation (db_at w path) + 1 < 2 ^ 63"
  obtains rep w' entries where "reindex_root lower root w = Some (Inr rep, w')" "w_fs w' = w_fs w" "same_env w w'"
    "w_dbs w' = (w_dbs w)(path \<mapsto> (db_at w path)\<lparr>db_file_index := map index_row_of (fr_files rep),
       db_search_entries := map (search_row_of lower) entries, db_initialized := True,
       db_generation := db_generation (db_at w path) + 1\<rparr>)"
    "rescan lower w g r (fr_files rep) entries" "int (fr_generation rep) = db_generation (db_at w path) + 1"
proof -
  have wf: "wf_fs (w_fs w)" and root: "guard_root g = path_of_loc r" "is_directory (map_of (w_fs w) r)"
    using g(2) by (auto simp: guard_ok_def)
  obtain analysis where an: "analyze_root w (guard_root g) = Some (Inr analysis)"
    "set (ar_files analysis) = file_entry w r ` below w r [] is_regular"
    "sorted (map fe_path (ar_files analysis))" "distinct (map fe_path (ar_files analysis))"
    using analyze_root_files [OF g(2)] .
  obtain entries where en: "collect_search_entries lower w (guard_root g) = Some (Inr entries)"
    "set entries = search_entry_of w r ` indexable (below w r [])" "distinct (map ie_relative_path entries)"
    using collect_search_entries_plain [OF wf root(2) plain, of lower] root(1) by metis
  define items where "items = map (indexed_file w g) (ar_files analysis)"
  obtain w1 where w1: "open_root_db (guard_root g) w = (Inr (), w1)" "w_fs w1 = w_fs w" "same_env w w1"
    "w_dbs w1 = (w_dbs w)(path \<mapsto> db_at w path)"
    using open_root_db_calm [OF g(2) dir assms(3)] path by metis
  have again: "indexed_file w1 g = indexed_file w g"
  proof -
    have "file_id_for_path w1 p = file_id_for_path w p" for p
      using w1(2,3) by (simp add: file_id_for_path_def fs_metadata_def resolve_def walk_path_def same_env_def)
    then show ?thesis using same_world_resolve [of w1 w] w1(2,3)
      by (simp add: fun_eq_iff indexed_file_def file_id_for_relative_path_def same_env_def split: sum.splits)
  qed
  have scan: "rescan lower w g r items entries"
    using an(2-4) en(2,3) by (simp add: rescan_def items_def comp_def image_image)
  have "calm w1" using assms(3) w1(3) by (simp add: calm_def same_env_def)
  moreover have "does path (replace_index lower path items entries) (db_at w path) (nat (db_generation (db_at w path) + 1))
    ((db_at w path)\<lparr>db_file_index := map index_row_of items, db_search_entries := map (search_row_of lower) entries,
       db_initialized := True, db_generation := db_generation (db_at w path) + 1\<rparr>)"
    using scan gen by (intro does_replace) (simp_all add: rescan_def)
  ultimately obtain w2 where w2: "replace_index lower path items entries w1 = (Inr (nat (db_generation (db_at w path) + 1)), w2)"
    "w_dbs w2 = (w_dbs w1)(path \<mapsto> (db_at w path)\<lparr>db_file_index := map index_row_of items,
       db_search_entries := map (search_row_of lower) entries,
       db_initialized := True, db_generation := db_generation (db_at w path) + 1\<rparr>)" "w_fs w2 = w_fs w1" "same_env w1 w2"
    using w1(4) unfolding does_def by (metis fun_upd_same)
  have "reindex_root lower root w = Some (Inr \<lparr>fr_root = ar_root analysis,
      fr_generation = nat (db_generation (db_at w path) + 1), fr_files = items,
      fr_skipped_entries = ar_skipped_entries analysis\<rparr>, w2)"
    using g(1) an(1) en(1) w1(1) w2(1)
    by (simp add: reindex_root_def reindex_scanned_def bindA_def map_errA_def again items_def path [symmetric])
  moreover have "same_env w w2" using w1(3) w2(4) by (rule env.trans)
  ultimately show thesis
    using that [of _ w2 entries] w1(2,4) w2(2,3) scan gen by simp
qed

text \<open>C29: a full rescan makes the index a mirror of the tree. In a world without faults, with the state directory in
  place and no backslash in a name, it returns; the file table then holds one row per regular file below the root
  outside the internal directories, with its size, time, extension and identity, the search table one row per
  such file or directory; the index is marked as initialised, its generation has grown by one, and the tree and
  every journal are unchanged.\<close>

theorem reindex_mirrors_tree:
  assumes "guard_new w root = Inr g" and "guard_ok w g r" and "calm w"
    and "is_directory (map_of (w_fs w) (r @ [STATE_DIR]))"
    and "\<forall>rel \<in> indexable (below w r []). plain_loc rel"
    and "path = db_path_for_root (guard_root g)"
    and "0 \<le> db_generation (db_at w path)" and "db_generation (db_at w path) + 1 < 2 ^ 63"
  shows "\<exists>rep w' db. reindex_root lower root w = Some (Inr rep, w') \<and> w_dbs w' path = Some db
    \<and> set (db_file_index db) = (\<lambda>rel. index_row_of (indexed_file w g (file_entry w r rel))) ` below w r [] is_regular
    \<and> distinct (map ix_relative_path (db_file_index db))
    \<and> set (db_search_entries db) = (\<lambda>rel. search_row_of lower (search_entry_of w r rel)) ` indexable (below w r [])
    \<and> distinct (map sr_relative_path (db_search_entries db))
    \<and> db_initialized db \<and> db_generation db = db_generation (db_at w path) + 1
    \<and> fr_generation rep = nat (db_generation db) \<and> map index_row_of (fr_files rep) = db_file_index db
    \<and> w_fs w' = w_fs w \<and> journal_of w' = journal_of w"
proof -
  obtain rep w' entries where run: "reindex_root lower root w = Some (Inr rep, w')" "w_fs w' = w_fs w"
    and db: "w_dbs w' = (w_dbs w)(path \<mapsto> (db_at w path)\<lparr>db_file_index := map index_row_of (fr_files rep),
       db_search_entries := map (search_row_of lower) entries, db_initialized := True,
       db_generation := db_generation (db_at w path) + 1\<rparr>)"
    and scan: "rescan lower w g r (fr_files rep) entries" and gen: "int (fr_generation rep) = db_generation (db_at w path) + 1"
    using reindex_calm [OF assms] .
  have "journal_of w' = journal_of w"
    by (auto simp: journal_of_def db fun_eq_iff db_at_def empty_db_def split: option.splits)
  with run(1) show ?thesis
    using scan gen run(2) by (intro exI [of _ rep] exI [of _ w'])
      (simp add: db rescan_def image_image comp_def)
qed

lemma sample_plain: "\<forall>rel \<in> indexable (below early_db_world sample_root []). plain_loc rel"
proof
  fix rel assume "rel \<in> indexable (below early_db_world sample_root [])"
  then have "map_of sample_fs (sample_root @ rel) \<noteq> None"
    by (cases "map_of sample_fs (sample_root @ rel)") (auto simp: indexable_def below_root early_db_facts(1))
  then have "sample_root @ rel \<in> fst ` set sample_fs" by (simp add: map_of_eq_None_iff)
  moreover have "\<forall>x \<in> set sample_fs. plain_loc (fst x)" by code_simp
  ultimately show "plain_loc rel" by (auto simp: plain_loc_def)
qed

lemma sample_index_facts:
  "guard_new early_db_world ''/home/box'' = Inr sample_guard" "calm early_db_world"
  "is_directory (map_of (w_fs early_db_world) (sample_root @ [STATE_DIR]))"
  "db_generation (db_at early_db_world (db_path_for_root (guard_root sample_guard))) = 0"
  by (code_simp, simp add: calm_def early_db_world_def sample_db_world_def sample_world_def, code_simp+)

theorem reindex_mirrors_tree_witness:
  "\<exists>rep w' db. reindex_root id ''/home/box'' early_db_world = Some (Inr rep, w')
     \<and> w_dbs w' (db_path_for_root (guard_root sample_guard)) = Some db \<and> db_initialized db \<and> db_generation db = 1"
  using reindex_mirrors_tree [OF sample_index_facts(1) early_db_facts(2) sample_index_facts(2,3) sample_plain refl,
      where lower = id] sample_index_facts(4)
  by auto

section \<open>Listing after a rescan\<close>

lemma u64_i64_roundtrip: "n < 2 ^ 64 \<Longrightarrow> i64_as_u64 (as_i64 n) = n"
  by (simp add: i64_as_u64_def as_i64_def unat_of_nat take_bit_nat_eq_self)

lemma row_roundtrip:
  assumes "xf_size_bytes item < 2 ^ 64" "\<forall>t. xf_modified_unix_ms item = Some t \<longrightarrow> t < 2 ^ 63"
  shows "indexed_file_from_row (index_row_of item) = item"
  using assms by (cases "xf_modified_unix_ms item")
    (simp_all add: indexed_file_from_row_def index_row_of_def u64_i64_roundtrip u128_i64_roundtrip)

lemma does_read_generation:
  assumes "0 \<le> db_generation db" "db_generation db < 2 ^ 63"
  shows "does path (read_generation path) db (nat (db_generation db)) db"
  unfolding read_generation_def select_generation_def
  by (rule does_bind, rule does_sql) (use assms in \<open>auto intro: does_return\<close>)

lemma list_index_calm:
  assumes g: "guard_new w root = Inr g" "guard_ok w g r" and "calm w"
    and dir: "is_directory (map_of (w_fs w) (r @ [STATE_DIR]))" and path: "path = db_path_for_root (guard_root g)"
    and db: "w_dbs w path = Some db" and gen: "0 \<le> db_generation db" "db_generation db < 2 ^ 63"
  obtains rep w' where "list_index lower root w = (Inr rep, w')" "fr_generation rep = nat (db_generation db)"
    "fr_files rep = map indexed_file_from_row (sort_key ix_relative_path (db_file_index db))"
proof -
  let ?rep = "\<lparr>fr_root = guard_root g, fr_generation = nat (db_generation db),
      fr_files = map indexed_file_from_row (sort_key ix_relative_path (db_file_index db)), fr_skipped_entries = []\<rparr>"
  obtain w1 where w1: "open_root_db (guard_root g) w = (Inr (), w1)" "same_env w w1"
    "w_dbs w1 = (w_dbs w)(path \<mapsto> db_at w path)"
    using open_root_db_calm [OF g(2) dir assms(3)] path by metis
  have "does path (bindA (map_errA Db (fetch_indexed lower path None)) (\<lambda>items.
       bindA (map_errA Db (read_generation path)) (\<lambda>generation.
         returnA \<lparr>fr_root = guard_root g, fr_generation = generation, fr_files = items,
                  fr_skipped_entries = []\<rparr>))) db ?rep db"
    unfolding fetch_indexed_def option.case
    by (rule does_bind, rule does_map_err, rule does_bind [OF does_select], rule does_return, rule does_bind,
        rule does_map_err, rule does_read_generation [OF gen], rule does_return)
  moreover have "calm w1" "w_dbs w1 path = Some db"
    using assms(3) w1(2,3) db by (simp_all add: calm_def same_env_def db_at_def)
  ultimately obtain w2 where "bindA (map_errA Db (fetch_indexed lower path None)) (\<lambda>items.
       bindA (map_errA Db (read_generation path)) (\<lambda>generation.
         returnA \<lparr>fr_root = guard_root g, fr_generation = generation, fr_files = items,
                  fr_skipped_entries = []\<rparr>)) w1 = (Inr ?rep, w2)"
    unfolding does_def by blast
  then have "list_index lower root w = (Inr ?rep, w2)"
    using g(1) w1(1) by (simp add: list_index_def query_index_def with_root_db_def path bindA_def [of "readA _"]
        bindA_def [of "map_errA _ (open_root_db _)"] readA_def map_errA_def [of _ "open_root_db _"])
  then show thesis using that by simp
qed

text \<open>what a rescan reported is what the index lists. If the rescan of a calm world returned a report whose sizes
  fit 64 bits and whose times fit 63, then listing the index of the same root returns the same files, in the same
  order, at the same generation.\<close>

theorem reindex_list_roundtrip:
  assumes "guard_new w root = Inr g" and "guard_ok w g r" and "calm w"
    and "is_directory (map_of (w_fs w) (r @ [STATE_DIR]))"
    and "\<forall>rel \<in> indexable (below w r []). plain_loc rel"
    and "path = db_path_for_root (guard_root g)"
    and "0 \<le> db_generation (db_at w path)" and "db_generation (db_at w path) + 1 < 2 ^ 63"
    and run: "reindex_root lower root w = Some (Inr rep, w')"
    and fits: "\<forall>item \<in> set (fr_files rep). xf_size_bytes item < 2 ^ 64
      \<and> (\<forall>t. xf_modified_unix_ms item = Some t \<longrightarrow> t < 2 ^ 63)"
  shows "\<exists>rep' w''. list_index lower root w' = (Inr rep', w'')
    \<and> fr_files rep' = fr_files rep \<and> fr_generation rep' = fr_generation rep"
proof -
  obtain rep1 w1 entries where run1: "reindex_root lower root w = Some (Inr rep1, w1)" "w_fs w1 = w_fs w" "same_env w w1"
    "w_dbs w1 = (w_dbs w)(path \<mapsto> (db_at w path)\<lparr>db_file_index := map index_row_of (fr_files rep1),
       db_search_entries := map (search_row_of lower) entries, db_initialized := True,
       db_generation := db_generation (db_at w path) + 1\<rparr>)"
    "rescan lower w g r (fr_files rep1) entries" "int (fr_generation rep1) = db_generation (db_at w path) + 1"
    using reindex_calm [OF assms(1-8)] .
  have eq: "rep1 = rep" "w1 = w'" using run run1(1) by simp_all
  have same: "w_fs w' = w_fs w" "w_cwd w' = w_cwd w" "calm w'"
    using run1(2,3) assms(3) by (simp_all add: eq same_env_def calm_def)
  have g': "guard_new w' root = Inr g" "guard_ok w' g r"
    using assms(1,2) same same_world_guard [of w' w] by (simp_all add: guard_ok_def)
  define db where "db = (db_at w path)\<lparr>db_file_index := map index_row_of (fr_files rep),
      db_search_entries := map (search_row_of lower) entries, db_initialized := True,
      db_generation := db_generation (db_at w path) + 1\<rparr>"
  have db: "w_dbs w' path = Some db" "0 \<le> db_generation db" "db_generation db < 2 ^ 63"
    "nat (db_generation db) = fr_generation rep" "db_file_index db = map index_row_of (fr_files rep)"
    using run1(4,6) assms(7,8) by (simp_all add: eq db_def)
  have "sort_key ix_relative_path (map index_row_of (fr_files rep)) = map index_row_of (fr_files rep)"
    using run1(5) by (intro sort_key_id_if_sorted) (simp add: eq rescan_def comp_def)
  moreover have "map indexed_file_from_row (map index_row_of (fr_files rep)) = fr_files rep"
    using fits by (simp add: map_idI row_roundtrip)
  moreover obtain rep' w'' where "list_index lower root w' = (Inr rep', w'')" "fr_generation rep' = nat (db_generation db)"
    "fr_files rep' = map indexed_file_from_row (sort_key ix_relative_path (db_file_index db))"
    using list_index_calm [OF g' same(3) _ assms(6) db(1-3)] assms(4) same(1) by metis
  ultimately show ?thesis using db(4,5) by auto
qed

theorem reindex_list_roundtrip_witness:
  "\<exists>rep w' rep' w''. reindex_root id ''/home/box'' early_db_world = Some (Inr rep, w')
     \<and> list_index id ''/home/box'' w' = (Inr rep', w'')
     \<and> map xf_relative_path (fr_files rep') = [''docs/old.txt'', ''notes.pdf'']"
proof -
  have "case reindex_root id ''/home/box'' early_db_world of
      Some (Inr rep, _) \<Rightarrow> list_all (\<lambda>item. xf_size_bytes item < 2 ^ 64
          \<and> (case xf_modified_unix_ms item of None \<Rightarrow> True | Some t \<Rightarrow> t < 2 ^ 63)) (fr_files rep)
        \<and> map xf_relative_path (fr_files rep) = [''docs/old.txt'', ''notes.pdf'']
    | _ \<Rightarrow> False" by code_simp
  then obtain rep w' where run: "reindex_root id ''/home/box'' early_db_world = Some (Inr rep, w')"
    and fits: "\<forall>item \<in> set (fr_files rep). xf_size_bytes item < 2 ^ 64
      \<and> (\<forall>t. xf_modified_unix_ms item = Some t \<longrightarrow> t < 2 ^ 63)"
    and paths: "map xf_relative_path (fr_files rep) = [''docs/old.txt'', ''notes.pdf'']"
    by (fastforce simp: list_all_iff split: option.splits prod.splits sum.splits)
  from reindex_list_roundtrip [OF sample_index_facts(1) early_db_facts(2) sample_index_facts(2,3) sample_plain refl
      _ _ run fits] sample_index_facts(4) run paths
  show ?thesis by auto
qed

end
