(* ===== verification/Index_Search.thy ===== *)
theory Index_Search
  imports Index_Exact
begin

text \<open>
  Searching and pruning the index. A paged search returns, page by page, exactly the indexed entries that match and
  still exist, and its loop ends; pruning a path removes its subtree, where the subtree is found up to the case of
  ASCII letters.
\<close>

section \<open>One batch\<close>

abbreviation entry_of :: "search_row \<Rightarrow> IndexedSearchEntry" where
  "entry_of \<equiv> indexed_search_entry_from_row"

definition hits :: "(IndexedSearchEntry \<Rightarrow> bool) \<Rightarrow> search_row list \<Rightarrow> IndexedSearchEntry list" where
  "hits hit rows = filter hit (map entry_of rows)"

lemma hits_append [simp]: "hits hit (xs @ ys) = hits hit xs @ hits hit ys"
  by (simp add: hits_def)

lemma hits_Nil [simp]: "hits hit [] = []"
  by (simp add: hits_def)

text \<open>The result for the rows from a position on: the page, and where the next page starts when there is one.\<close>

definition page_spec ::
  "(IndexedSearchEntry \<Rightarrow> bool) \<Rightarrow> nat \<Rightarrow> search_row list \<Rightarrow> IndexedSearchEntry list \<Rightarrow> nat
     \<Rightarrow> IndexedSearchEntry list \<Rightarrow> nat option \<Rightarrow> bool" where
  "page_spec hit limit rows entries position page next_offset \<longleftrightarrow>
     page = take limit (entries @ hits hit rows)
     \<and> (case next_offset of
          None \<Rightarrow> length (entries @ hits hit rows) \<le> limit
        | Some n \<Rightarrow> position \<le> n \<and> limit < length (entries @ hits hit rows)
            \<and> hits hit (drop (n - position) rows) = drop limit (entries @ hits hit rows))"

lemma scan_batch_spec:
  assumes "scan_batch hit limit rows entries position = (page, position', next_offset)"
    and "length entries \<le> limit" and "position + length rows < 2 ^ 64"
  shows "page_spec hit limit rows entries position page next_offset"
    and "next_offset = None \<Longrightarrow> page = entries @ hits hit rows \<and> position' = position + length rows"
  using assms
proof (induction rows arbitrary: entries position)
  case Nil
  { case 1 then show ?case by (simp add: page_spec_def) }
  { case 2 then show ?case by simp }
next
  case (Cons row rows)
  have pos: "min (position + 1) (2 ^ 64 - 1) = Suc position" if "position + length (row # rows) < 2 ^ 64"
    using that by simp
  { case 1
    show ?case
    proof (cases "hit (entry_of row) \<and> length entries = limit")
      case True
      then show ?thesis using 1 by (auto simp: page_spec_def hits_def Let_def)
    next
      case False
      let ?es = "if hit (entry_of row) then entries @ [entry_of row] else entries"
      have run: "scan_batch hit limit rows ?es (Suc position) = (page, position', next_offset)"
        using 1 False pos by (auto simp: Let_def split: if_splits)
      have "length ?es \<le> limit" "Suc position + length rows < 2 ^ 64" using 1 False by auto
      then have "page_spec hit limit rows ?es (Suc position) page next_offset" by (rule Cons.IH(1) [OF run])
      moreover have "?es @ hits hit rows = entries @ hits hit (row # rows)" by (simp add: hits_def)
      moreover have "drop (n - position) (row # rows) = drop (n - Suc position) rows" if "Suc position \<le> n" for n
        using that by (metis Suc_diff_Suc Suc_le_eq drop_Suc_Cons)
      ultimately show ?thesis by (auto simp: page_spec_def split: option.splits)
    qed }
  { case 2
    then have False: "\<not> (hit (entry_of row) \<and> length entries = limit)" by (auto simp: Let_def)
    let ?es = "if hit (entry_of row) then entries @ [entry_of row] else entries"
    have run: "scan_batch hit limit rows ?es (Suc position) = (page, position', next_offset)"
      using 2 False pos by (auto simp: Let_def split: if_splits)
    have "length ?es \<le> limit" "Suc position + length rows < 2 ^ 64" using 2 False by auto
    then have "page = ?es @ hits hit rows \<and> position' = Suc position + length rows"
      by (rule Cons.IH(2) [OF 2(1) run])
    then show ?case by (simp add: hits_def) }
qed

section \<open>All batches\<close>

lemma select_ok:
  "sql path (select f) w = (Inr x, w') \<Longrightarrow> \<exists>db. w_dbs w path = Some db \<and> x = f db \<and> w_dbs w' = w_dbs w
     \<and> w_fs w' = w_fs w \<and> same_env w w'"
  by (auto simp: sql_ok select_def same_env_def fun_upd_idem)

lemma page_spec_append:
  assumes "page_spec hit limit rest (entries @ hits hit rows) (position + length rows) page next_offset"
  shows "page_spec hit limit (rows @ rest) entries position page next_offset"
proof -
  have "drop (n - (position + length rows)) rest = drop (n - position) (rows @ rest)" if "position + length rows \<le> n" for n
    using that by simp
  then show ?thesis using assms by (auto simp: page_spec_def split: option.splits)
qed

lemma page_spec_stop:
  assumes "page_spec hit limit rows entries position page (Some n)"
  shows "page_spec hit limit (rows @ rest) entries position page (Some n)"
proof -
  have "n - position \<le> length rows"
    using assms by (cases "n - position \<le> length rows") (auto simp: page_spec_def)
  then show ?thesis using assms by (auto simp: page_spec_def)
qed

lemma scan_pages_spec:
  assumes "scan_pages fuel found hit limit path entries position w = (Inr outcome, w')"
    and "w_dbs w path = Some db" and "length (drop position (found db)) < fuel"
    and "length entries \<le> limit" and "position < 2 ^ 63" and "length (found db) < 2 ^ 63"
    and hit: "\<And>w1. w_fs w1 = w_fs w \<Longrightarrow> same_env w w1 \<Longrightarrow> hit w1 = h"
  shows "\<exists>page next_offset. outcome = Some (page, next_offset)
    \<and> page_spec h limit (drop position (found db)) entries position page next_offset
    \<and> w_dbs w' = w_dbs w \<and> w_fs w' = w_fs w \<and> same_env w w'"
  using assms
proof (induction fuel arbitrary: entries position w)
  case (Suc fuel)
  define rows where "rows = take FETCH_BATCH (drop position (found db))"
  define rest where "rest = drop FETCH_BATCH (drop position (found db))"
  have all: "drop position (found db) = rows @ rest" unfolding rows_def rest_def by (rule append_take_drop_id [symmetric])
  have pos: "min position (2 ^ 63 - 1) = position" using Suc.prems(5) by simp
  from Suc.prems(1) obtain x w1 where sel: "sql path (select (\<lambda>db. take FETCH_BATCH (drop (min position (2 ^ 63 - 1)) (found db)))) w
      = (Inr x, w1)"
    and go: "(if x = [] then returnA (Some (entries, None))
       else bindA (readA (\<lambda>w. Inr (scan_batch (hit w) limit x entries position))) (\<lambda>(entries', position', next_offset).
         if next_offset \<noteq> None then returnA (Some (entries', next_offset))
         else if length x < FETCH_BATCH then returnA (Some (entries', None))
         else scan_pages fuel found hit limit path entries' position')) w1 = (Inr outcome, w')"
    by (auto simp: action_iffs)
  have w1: "x = rows" "w_dbs w1 = w_dbs w" "w_fs w1 = w_fs w" "same_env w w1"
    using select_ok [OF sel [unfolded pos]] Suc.prems(2) by (auto simp: rows_def)
  note hit1 = Suc.prems(7) [OF w1(3,4)]
  show ?case
  proof (cases "rows = []")
    case True
    then have "drop position (found db) = []" by (simp add: rows_def FETCH_BATCH_def)
    then show ?thesis using go True w1 Suc.prems(4) by (auto simp: returnA_def page_spec_def)
  next
    case False
    obtain es pos' next' where batch: "scan_batch h limit rows entries position = (es, pos', next')"
      by (metis prod_cases3)
    have "length rows \<le> length (found db)" by (simp add: rows_def)
    then have fits: "position + length rows < 2 ^ 64" using Suc.prems(5,6) by simp
    note spec = scan_batch_spec [OF batch Suc.prems(4) fits]
    have go': "(if next' \<noteq> None then returnA (Some (es, next'))
        else if length rows < FETCH_BATCH then returnA (Some (es, None))
        else scan_pages fuel found hit limit path es pos') w1 = (Inr outcome, w')"
      using go False batch hit1 unfolding w1(1) by (simp add: bindA_def readA_def split del: if_split)
    show ?thesis
    proof (cases next')
      case (Some n)
      then have "page_spec h limit (rows @ rest) entries position es (Some n)"
        using page_spec_stop spec(1) by blast
      then show ?thesis using go' Some w1(2-4) unfolding all by (auto simp: returnA_def)
    next
      case None
      then have es: "es = entries @ hits h rows" "pos' = position + length rows" using spec(2) by auto
      have room: "length es \<le> limit" using spec(1) unfolding page_spec_def es(1) None option.case by blast
      show ?thesis
      proof (cases "length rows < FETCH_BATCH")
        case True
        then have "rest = []" by (auto simp: rows_def rest_def)
        then show ?thesis using go' None True w1(2-4) spec(1) unfolding all by (auto simp: returnA_def)
      next
        case full: False
        have run: "scan_pages fuel found hit limit path es pos' w1 = (Inr outcome, w')" using go' None full by simp
        have len: "length rows = FETCH_BATCH" using full by (simp add: rows_def)
        have rest: "drop pos' (found db) = rest" using len by (simp add: rest_def es(2) add.commute)
        have "length rest < fuel" using Suc.prems(3) len unfolding all by (simp add: FETCH_BATCH_def)
        moreover have "pos' < 2 ^ 63"
        proof -
          have "length rows \<le> length (found db) - position" by (simp add: rows_def)
          then have "pos' \<le> length (found db)" using False es(2) by (cases rows) auto
          then show ?thesis using Suc.prems(6) by simp
        qed
        moreover have "hit w2 = h" if "w_fs w2 = w_fs w1" "same_env w1 w2" for w2
          using Suc.prems(7) [of w2] that w1(3,4) env.trans by metis
        ultimately obtain page next_offset where "outcome = Some (page, next_offset)"
          "page_spec h limit rest es pos' page next_offset" "w_dbs w' = w_dbs w1" "w_fs w' = w_fs w1" "same_env w1 w'"
          using Suc.IH [OF run _ _ room _ Suc.prems(6)] w1(2) Suc.prems(2) rest by auto
        then show ?thesis
          using page_spec_append [of h limit rest entries rows position] es w1(2-4) env.trans unfolding all by auto
      qed
    qed
  qed
qed simp

section \<open>A page\<close>

lemma select_generation_ok:
  "select_generation path w = (Inr n, w') \<Longrightarrow> \<exists>db. w_dbs w path = Some db \<and> n = db_generation db \<and> w_dbs w' = w_dbs w
     \<and> w_fs w' = w_fs w \<and> same_env w w'"
  by (auto simp: select_generation_def sql_ok same_env_def fun_upd_idem split: if_splits)

lemma search_page_spec:
  assumes run: "search_page found hit path expected offset limit w = (Inr outcome, w')"
    and db: "w_dbs w path = Some db" and small: "offset < 2 ^ 63"
    and table: "length (found db) \<le> length (db_search_entries db)" "length (db_search_entries db) < 2 ^ 63"
    and hit: "\<And>w1. w_fs w1 = w_fs w \<Longrightarrow> same_env w w1 \<Longrightarrow> hit w1 = h"
  obtains page next_offset where "outcome = Some \<lparr>ip_generation = nat (db_generation db), ip_entries = page,
      ip_next_offset = next_offset\<rparr>" "0 \<le> db_generation db"
    "page_spec h limit (drop offset (found db)) [] offset page next_offset"
    "case expected of None \<Rightarrow> True | Some generation \<Rightarrow> generation = nat (db_generation db)"
    "w_fs w' = w_fs w" "w_dbs w' = w_dbs w" "same_env w w'"
proof -
  obtain w1 w2 where body: "bindA (map_errA Db (select_generation path)) (\<lambda>generation.
          if generation < 0 then throwA (InvalidSearch ''file index generation is invalid'')
          else
            let actual = nat generation
            in if (case expected of None \<Rightarrow> False | Some expected \<Rightarrow> expected \<noteq> actual)
               then throwA (GenerationChanged (the expected) actual)
               else bindA (\<lambda>w. scan_pages (search_fuel path w) found hit limit path [] offset w) (\<lambda>outcome.
                      returnA (map_option (\<lambda>(entries, next_offset).
                        \<lparr>ip_generation = actual, ip_entries = entries, ip_next_offset = next_offset\<rparr>) outcome))) w1
      = (Inr outcome, w2)"
    and w1: "w_dbs w1 = w_dbs w" "w_fs w1 = w_fs w" "w_fs w' = w_fs w2" "same_env w w1" "same_env w2 w'"
    and dbs: "w_dbs w' = w_dbs w2"
    using run unfolding search_page_def by (rule transaction_runs)
  then obtain n w3 where n: "select_generation path w1 = (Inr n, w3)" by (auto simp: action_iffs)
  from select_generation_ok [OF n] db w1(1)
  have w3: "n = db_generation db" "w_dbs w3 = w_dbs w" "w_fs w3 = w_fs w1" "same_env w1 w3" by auto
  have nn: "\<not> n < 0" "\<not> (case expected of None \<Rightarrow> False | Some expected \<Rightarrow> expected \<noteq> nat n)"
    using body n by (auto simp: action_iffs throwA_def Let_def split: if_splits)
  then obtain out where scan: "scan_pages (search_fuel path w3) found hit limit path [] offset w3 = (Inr out, w2)"
    and out: "outcome = map_option (\<lambda>(entries, next_offset). \<lparr>ip_generation = nat n, ip_entries = entries,
        ip_next_offset = next_offset\<rparr>) out"
    using body n by (auto simp: action_iffs Let_def)
  have "w_dbs w3 path = Some db" "length (drop offset (found db)) < search_fuel path w3"
    "length (found db) < 2 ^ 63"
    using w3(2) db table by (simp_all add: search_fuel_def)
  moreover have "hit v = h" if "w_fs v = w_fs w3" "same_env w3 v" for v
    using that w3(3,4) w1(2,4) by (intro hit) (auto intro: env.trans)
  ultimately obtain page next_offset where fin: "out = Some (page, next_offset)" "w_fs w2 = w_fs w3" "same_env w3 w2"
    "w_dbs w2 = w_dbs w3" "page_spec h limit (drop offset (found db)) [] offset page next_offset"
    using scan_pages_spec [OF scan _ _ _ small, of db h] by auto
  show thesis
  proof (rule that)
    show "outcome = Some \<lparr>ip_generation = nat (db_generation db), ip_entries = page, ip_next_offset = next_offset\<rparr>"
      using out fin(1) w3(1) by simp
    show "0 \<le> db_generation db" "case expected of None \<Rightarrow> True | Some generation \<Rightarrow> generation = nat (db_generation db)"
      using nn w3(1) by (auto split: option.splits)
    show "w_fs w' = w_fs w" using fin(2) w3(3) w1(2,3) by simp
    show "w_dbs w' = w_dbs w" using dbs fin(4) w3(2) by simp
    show "same_env w w'" using w1(4,5) w3(4) fin(3) by (meson env.trans)
  qed (rule fin(5))
qed

lemma same_world_hit:
  assumes "w_fs w = w_fs w'" "w_cwd w = w_cwd w'"
  shows "validate_indexed_search_hit w g = validate_indexed_search_hit w' g"
proof -
  have "walk_path w = walk_path w'" using assms by (simp add: walk_path_def fun_eq_iff)
  then have res: "resolve w = resolve w'" by (simp add: resolve_def fun_eq_iff)
  then have meta: "fs_symlink_metadata w = fs_symlink_metadata w'" "path_is_dir w = path_is_dir w'"
    by (simp_all add: fs_symlink_metadata_def path_is_dir_def fs_metadata_def fun_eq_iff)
  have "no_link_components w current comps = no_link_components w' current comps" for current comps
  proof (induction comps arbitrary: current)
    case (Cons comp comps)
    then show ?case by (cases comp) (simp_all add: meta Let_def cong: if_cong)
  qed simp
  then have "validate_no_link_path w g rel d = validate_no_link_path w' g rel d" for rel d
    using same_world_resolve [OF assms] meta by (simp add: validate_no_link_path_def)
  then show ?thesis using meta by (simp add: validate_indexed_search_hit_def fun_eq_iff)
qed

lemma open_root_db_dbs:
  assumes "open_root_db root w = (Inr u, w')"
  shows "w_dbs w' = (w_dbs w)(db_path_for_root root \<mapsto> db_at w (db_path_for_root root))"
proof -
  have "keeps same_dbs (db_connect path)" for path by (auto simp: keeps_def same_dbs_def db_connect_def Let_def)
  then have pool: "keeps same_dbs (open_pool_at path)" for path
    unfolding open_pool_at_def
    by (intro dbs.keeps_bind dbs.keeps_map_err) (auto intro: dbs.keeps_rules create_dir_all_frames split: option.splits)
  obtain w1 v where w1: "open_pool_at (db_path_for_root root) w = (Inr v, w1)"
    "migrate (db_path_for_root root) w1 = (Inr u, w')"
    using assms by (auto simp: open_root_db_def Let_def action_iffs)
  have "w_dbs w1 = w_dbs w" using keepsD [OF pool w1(1)] by (simp add: same_dbs_def)
  then show ?thesis
    using w1(2) by (auto simp: migrate_def db_at_def Let_def fun_eq_iff split: if_splits option.splits)
qed

lemma open_root_db_at:
  "open_root_db root w = (Inr u, w') \<Longrightarrow> w_dbs w' (db_path_for_root root) = Some (db_at w (db_path_for_root root))"
  by (simp add: open_root_db_dbs)

text \<open>A search only reads: the databases are as opening the root database left them.\<close>

lemma select_keeps_dbs: "keeps same_dbs (sql path (select f))"
  by (rule keepsI, erule sql_cases) (auto simp: same_dbs_def select_def fun_upd_idem)

lemma scan_pages_keeps_dbs: "keeps same_dbs (scan_pages fuel found hit limit path entries position)"
proof (induction fuel arbitrary: entries position)
  case (Suc fuel)
  then show ?case
    by (auto intro!: dbs.keeps_rules dbs.keeps_bind dbs.keeps_map_err select_keeps_dbs split: prod.splits)
qed (simp add: dbs.keeps_return)

lemma search_page_dbs:
  assumes "search_page found hit path expected offset limit w = (Inr outcome, w')"
  shows "w_dbs w' = w_dbs w"
proof -
  obtain w1 w2 where *: "w_dbs w1 = w_dbs w" "w_dbs w' = w_dbs w2"
    and body: "bindA (map_errA Db (select_generation path)) (\<lambda>generation.
          if generation < 0 then throwA (InvalidSearch ''file index generation is invalid'')
          else
            let actual = nat generation
            in if (case expected of None \<Rightarrow> False | Some expected \<Rightarrow> expected \<noteq> actual)
               then throwA (GenerationChanged (the expected) actual)
               else bindA (\<lambda>w. scan_pages (search_fuel path w) found hit limit path [] offset w) (\<lambda>outcome.
                      returnA (map_option (\<lambda>(entries, next_offset).
                        \<lparr>ip_generation = actual, ip_entries = entries, ip_next_offset = next_offset\<rparr>) outcome))) w1
      = (Inr outcome, w2)"
    using assms unfolding search_page_def by (rule transaction_runs)
  obtain n w3 where n: "select_generation path w1 = (Inr n, w3)"
    and "\<exists>x. scan_pages (search_fuel path w3) found hit limit path [] offset w3 = (Inr x, w2)"
    using body by (auto simp: action_iffs throwA_def Let_def split: if_splits)
  then have "w_dbs w2 = w_dbs w3" using keepsD [OF scan_pages_keeps_dbs] by (auto simp: same_dbs_def)
  with * select_generation_ok [OF n] show ?thesis by auto
qed

lemma searched_dbs:
  assumes "search_index_page_with_extensions lower root q scope directory expected offset limit extensions w = (Inr outcome, w')"
    and "guard_new w root = Inr g"
  shows "w_dbs w' = (w_dbs w)(db_path_for_root (guard_root g) \<mapsto> db_at w (db_path_for_root (guard_root g)))"
proof -
  obtain w1 found hit where w1: "open_root_db (guard_root g) w = (Inr (), w1)"
    and "search_page found hit (db_path_for_root (guard_root g)) expected offset limit w1 = (Inr outcome, w')"
    using assms by (auto simp: search_index_page_with_extensions_def action_iffs readA_def throwA_def split: if_splits)
  then show ?thesis using search_page_dbs open_root_db_dbs [OF w1] by metis
qed

text \<open>What a search that returns has found, in terms of the database it leaves behind.\<close>

lemma searched_page:
  assumes run: "search_index_page_with_extensions lower root q scope directory expected offset limit extensions w
      = (Inr outcome, w')"
    and g: "guard_new w root = Inr g" and small: "offset < 2 ^ 63"
      "length (db_search_entries (db_at w (db_path_for_root (guard_root g)))) < 2 ^ 63"
  obtains dir exts page db where "normalize_relative_directory directory = Inr dir"
    "normalize_extension_filter extensions = Inr exts" "outcome = Some page"
    "w_dbs w' (db_path_for_root (guard_root g)) = Some db" "db = db_at w (db_path_for_root (guard_root g))"
    "page_spec (\<lambda>entry. validate_indexed_search_hit w' g entry \<and> indexed_entry_matches_extensions entry exts) limit
       (drop offset (search_rows scope dir (normalize_name lower (trim q)) db)) [] offset (ip_entries page) (ip_next_offset page)"
    "int (ip_generation page) = db_generation db"
    "case expected of None \<Rightarrow> True | Some generation \<Rightarrow> generation = ip_generation page"
proof -
  let ?path = "db_path_for_root (guard_root g)"
  from run g obtain exts dir w1 where parts: "normalize_extension_filter extensions = Inr exts"
    "normalize_relative_directory directory = Inr dir"
    and w1: "open_root_db (guard_root g) w = (Inr (), w1)"
    and pg: "search_page (search_rows scope dir (normalize_name lower (trim q)))
            (\<lambda>w entry. validate_indexed_search_hit w g entry \<and> indexed_entry_matches_extensions entry exts)
            ?path expected offset limit w1 = (Inr outcome, w')"
    by (auto simp: search_index_page_with_extensions_def action_iffs readA_def throwA_def split: if_splits)
  let ?hit = "\<lambda>w entry. validate_indexed_search_hit w g entry \<and> indexed_entry_matches_extensions entry exts"
  have hit: "?hit v = ?hit w1" if "w_fs v = w_fs w1" "same_env w1 v" for v
    using same_world_hit [of v w1 g] that by (simp add: same_env_def)
  have "length (search_rows scope dir (normalize_name lower (trim q)) (db_at w ?path)) \<le> length (db_search_entries (db_at w ?path))"
    by (simp add: search_rows_def)
  then obtain page next_offset where fin: "outcome = Some \<lparr>ip_generation = nat (db_generation (db_at w ?path)), ip_entries = page,
      ip_next_offset = next_offset\<rparr>" "0 \<le> db_generation (db_at w ?path)"
    "page_spec (?hit w1) limit (drop offset (search_rows scope dir (normalize_name lower (trim q)) (db_at w ?path))) [] offset page next_offset"
    "case expected of None \<Rightarrow> True | Some generation \<Rightarrow> generation = nat (db_generation (db_at w ?path))"
    "w_fs w' = w_fs w1" "w_dbs w' = w_dbs w1" "same_env w1 w'"
    using search_page_spec [OF pg open_root_db_at [OF w1] small(1) _ small(2) hit] by blast
  have "?hit w1 = ?hit w'" using hit [OF fin(5,7)] by simp
  then show thesis
    using fin open_root_db_at [OF w1]
    by (intro that [OF parts(2,1) fin(1), of "db_at w ?path"]) (simp_all split: option.splits)
qed

text \<open>C30: a page of a search is exact and pages join up. When a search returns, for any fault schedule, the loop has
  ended with a page; the page holds, in the order of the table, the first hits from the requested offset on,
  where a hit is a matching row whose file or directory exists inside the root with no link on its way; there is a
  next offset exactly when more hits remain, and the hits from there are precisely the remaining ones.\<close>

theorem search_page_exact:
  assumes run: "search_index_page_with_extensions lower root q scope directory expected offset limit extensions w
      = (Inr outcome, w')"
    and g: "guard_new w root = Inr g" and db: "db = db_at w (db_path_for_root (guard_root g))"
    and small: "offset < 2 ^ 63" "length (db_search_entries db) < 2 ^ 63"
  shows "\<exists>dir exts page rows found. normalize_relative_directory directory = Inr dir
    \<and> normalize_extension_filter extensions = Inr exts
    \<and> rows = search_rows scope dir (normalize_name lower (trim q)) db
    \<and> found = hits (\<lambda>entry. validate_indexed_search_hit w' g entry \<and> indexed_entry_matches_extensions entry exts)
    \<and> outcome = Some page \<and> ip_entries page = take limit (found (drop offset rows))
    \<and> (case ip_next_offset page of
         None \<Rightarrow> length (found (drop offset rows)) \<le> limit
       | Some n \<Rightarrow> limit < length (found (drop offset rows)) \<and> found (drop n rows) = drop limit (found (drop offset rows)))
    \<and> int (ip_generation page) = db_generation db
    \<and> (case expected of None \<Rightarrow> True | Some generation \<Rightarrow> generation = ip_generation page)"
proof -
  obtain dir exts page where parts: "normalize_relative_directory directory = Inr dir" "normalize_extension_filter extensions = Inr exts"
    "outcome = Some page" "int (ip_generation page) = db_generation db"
    "case expected of None \<Rightarrow> True | Some generation \<Rightarrow> generation = ip_generation page"
    and spec: "page_spec (\<lambda>entry. validate_indexed_search_hit w' g entry \<and> indexed_entry_matches_extensions entry exts) limit
       (drop offset (search_rows scope dir (normalize_name lower (trim q)) db)) [] offset (ip_entries page) (ip_next_offset page)"
    unfolding db by (rule searched_page [OF run g small(1) small(2) [unfolded db]]) blast
  have "drop (n - offset) (drop offset rows) = drop n rows" if "offset \<le> n" for n and rows :: "search_row list"
    using that by simp
  then show ?thesis
    using parts spec by (intro exI [of _ dir] exI [of _ exts] exI [of _ page] exI conjI refl)
      (auto simp: page_spec_def split: option.splits)
qed

text \<open>The sample root with an index of its two files and one directory.\<close>

definition sample_search_row :: "string \<Rightarrow> string \<Rightarrow> string \<Rightarrow> string \<Rightarrow> search_row" where
  "sample_search_row path dir name kind =
     \<lparr>sr_relative_path = path, sr_parent_relative_path = dir, sr_name = name, sr_normalized_name = name,
      sr_entry_type = kind, sr_extension = None, sr_size_bytes = None, sr_modified_unix_ms = None\<rparr>"

definition sample_index_row :: "string \<Rightarrow> index_row" where
  "sample_index_row path =
     \<lparr>ix_relative_path = path, ix_size_bytes = 5, ix_modified_unix_ms = None, ix_extension = None, ix_file_id = None\<rparr>"

definition indexed_world :: world where
  "indexed_world = early_db_world\<lparr>w_dbs := [db_path_for_root (guard_root sample_guard) \<mapsto> empty_db
     \<lparr>db_file_index := [sample_index_row ''docs/old.txt'', sample_index_row ''notes.pdf''],
      db_search_entries := [sample_search_row ''docs'' [] ''docs'' ''directory'',
        sample_search_row ''docs/old.txt'' ''docs'' ''old.txt'' ''file'',
        sample_search_row ''notes.pdf'' [] ''notes.pdf'' ''file''],
      db_generation := 1, db_initialized := True\<rparr>]\<rparr>"

theorem search_page_exact_witness:
  "\<exists>page w' rows found. search_index_page_with_extensions id ''/home/box'' '' no'' ManagedRoot [] None 0 10 [] indexed_world
       = (Inr (Some page), w')
     \<and> map ie_relative_path (ip_entries page) = [''notes.pdf''] \<and> ip_next_offset page = None
     \<and> ip_entries page = take 10 (hits found (drop 0 rows)) \<and> length (hits found (drop 0 rows)) \<le> 10"
proof -
  let ?run = "search_index_page_with_extensions id ''/home/box'' '' no'' ManagedRoot [] None 0 10 [] indexed_world"
  have "case ?run of (Inr (Some page), _) \<Rightarrow> map ie_relative_path (ip_entries page) = [''notes.pdf'']
      \<and> ip_next_offset page = None | _ \<Rightarrow> False" by code_simp
  then obtain page w' where run: "?run = (Inr (Some page), w')"
    "map ie_relative_path (ip_entries page) = [''notes.pdf'']" "ip_next_offset page = None"
    by (cases ?run) (auto split: sum.splits option.splits)
  have g: "guard_new indexed_world ''/home/box'' = Inr sample_guard" by code_simp
  have small: "length (db_search_entries (db_at indexed_world (db_path_for_root (guard_root sample_guard)))) < 2 ^ 63"
    by code_simp
  from search_page_exact [OF run(1) g refl _ small] run(3)
  obtain rows found where "ip_entries page = take 10 (hits found (drop 0 rows))" "length (hits found (drop 0 rows)) \<le> 10"
    by fastforce
  with run show ?thesis
    by (intro exI [of _ page] exI [of _ w'] exI [of _ rows] exI [of _ found] conjI)
qed

section \<open>Pruning\<close>

definition ascii :: "string \<Rightarrow> bool" where
  "ascii s \<longleftrightarrow> (\<forall>c \<in> set s. (of_char c :: nat) < 128)"

definition prunes :: "string \<Rightarrow> string \<Rightarrow> bool" where
  "prunes relative indexed \<longleftrightarrow> indexed = relative
     \<or> (\<exists>a b. indexed = a @ CHR ''/'' # b \<and> eq_ignore_ascii_case a (trim_end_slash relative))"

lemma like_any: "sql_like [''%''] ts"
  by (induction ts) auto

lemma like_escaped:
  "sql_like (map (\<lambda>c. [c]) (escape_like p) @ rest) (map (\<lambda>c. [c]) t) \<longleftrightarrow>
     (\<exists>a b. t = a @ b \<and> eq_ignore_ascii_case a p \<and> sql_like rest (map (\<lambda>c. [c]) b))"
proof (induction p arbitrary: t)
  case Nil
  show ?case by (auto simp: escape_like_def eq_ignore_ascii_case_def to_ascii_lowercase_def)
next
  case (Cons c p)
  have split: "(\<exists>a b. t = a @ b \<and> eq_ignore_ascii_case a (c # p) \<and> P b) \<longleftrightarrow>
      (\<exists>d u. t = d # u \<and> eq_ignore_ascii_case [c] [d] \<and> (\<exists>a b. u = a @ b \<and> eq_ignore_ascii_case a p \<and> P b))" for P
  proof
    assume "\<exists>a b. t = a @ b \<and> eq_ignore_ascii_case a (c # p) \<and> P b"
    then obtain a b where "t = a @ b" "eq_ignore_ascii_case a (c # p)" "P b" by blast
    then show "\<exists>d u. t = d # u \<and> eq_ignore_ascii_case [c] [d] \<and> (\<exists>a b. u = a @ b \<and> eq_ignore_ascii_case a p \<and> P b)"
      by (cases a) (auto simp: eq_ignore_ascii_case_def to_ascii_lowercase_def)
  next
    assume "\<exists>d u. t = d # u \<and> eq_ignore_ascii_case [c] [d] \<and> (\<exists>a b. u = a @ b \<and> eq_ignore_ascii_case a p \<and> P b)"
    then obtain d a b where "t = (d # a) @ b" "eq_ignore_ascii_case (d # a) (c # p)" "P b"
      by (auto simp: eq_ignore_ascii_case_def to_ascii_lowercase_def)
    then show "\<exists>a b. t = a @ b \<and> eq_ignore_ascii_case a (c # p) \<and> P b" by blast
  qed
  have "escape_like (c # p) = (if c \<in> {CHR 0x5C, CHR ''%'', CHR ''_''} then [CHR 0x5C, c] else [c]) @ escape_like p"
    by (simp add: escape_like_def)
  then show ?case
    unfolding split by (cases t) (simp_all add: Cons.IH [symmetric])
qed

lemma removed_by_iff:
  assumes "ascii relative" "ascii indexed"
  shows "removed_by relative indexed \<longleftrightarrow> prunes relative indexed"
proof -
  let ?p = "trim_end_slash relative"
  have "set (dropWhile (\<lambda>c. c = CHR ''/'') (rev relative)) \<subseteq> set relative" using set_dropWhileD by fastforce
  then have "ascii (escape_like ?p @ ''/%'')"
    using assms(1) by (auto simp: ascii_def escape_like_def trim_end_slash_def split: if_splits)
  then have "chars (escape_like ?p @ ''/%'') = map (\<lambda>c. [c]) (escape_like ?p) @ [''/'', ''%'']"
    using chars_ascii [of "escape_like ?p @ ''/%''"] by (simp add: ascii_def)
  moreover have "chars indexed = map (\<lambda>c. [c]) indexed" using assms(2) chars_ascii by (simp add: ascii_def)
  moreover have "sql_like [''/'', ''%''] (map (\<lambda>c. [c]) b) \<longleftrightarrow> (\<exists>b'. b = CHR ''/'' # b')" for b
  proof (cases b)
    case (Cons d b')
    have "ascii_lower d = CHR ''/'' \<longleftrightarrow> d = CHR ''/''"
      by (auto simp: ascii_lower_def dest!: arg_cong [where f = "of_char :: char \<Rightarrow> nat"])
    then show ?thesis using Cons like_any
      by (auto simp: eq_ignore_ascii_case_def to_ascii_lowercase_def ascii_lower_def)
  qed simp
  ultimately show ?thesis
    by (auto simp: removed_by_def prunes_def like_escaped)
qed

text \<open>pruning a path from the index removes the entry of that path and of everything below it from both tables, and
  nothing else, for paths in ASCII. "Below" is decided up to the case of ASCII letters, as \<^verbatim>\<open>LIKE\<close> does: pruning
  \<^verbatim>\<open>Docs\<close> also drops the entries of a different directory \<^verbatim>\<open>docs\<close>.\<close>

theorem remove_path_prunes:
  assumes run: "remove_path root relative w = (Inr (), w')"
    and g: "guard_new w root = Inr g" "path = db_path_for_root (guard_root g)"
    and ascii: "ascii relative" "\<forall>row \<in> set (db_file_index (db_at w path)). ascii (ix_relative_path row)"
      "\<forall>row \<in> set (db_search_entries (db_at w path)). ascii (sr_relative_path row)"
  shows "db_file_index (db_at w' path) = filter (\<lambda>row. \<not> prunes relative (ix_relative_path row)) (db_file_index (db_at w path))
    \<and> db_search_entries (db_at w' path)
        = filter (\<lambda>row. \<not> prunes relative (sr_relative_path row)) (db_search_entries (db_at w path))"
proof -
  let ?db = "db_at w path"
  let ?body = "bindA (sql path (change (\<lambda>db. db\<lparr>db_file_index :=
             filter (\<lambda>row. \<not> removed_by relative (ix_relative_path row)) (db_file_index db)\<rparr>))) (\<lambda>_.
          bindA (sql path (change (\<lambda>db. db\<lparr>db_search_entries :=
             filter (\<lambda>row. \<not> removed_by relative (sr_relative_path row)) (db_search_entries db)\<rparr>))) (\<lambda>_.
          bindA (bump_generation path) (\<lambda>_. returnA ())))"
  obtain w1 where w1: "open_root_db (guard_root g) w = (Inr (), w1)"
    and tx: "transaction id path ?body w1 = (Inr (), w')"
    using run g by (auto simp: remove_path_def with_root_db_def action_iffs readA_def)
  obtain w2 w3 where body: "?body w2 = (Inr (), w3)" and w2: "w_dbs w2 = w_dbs w1" "w_dbs w' = w_dbs w3"
    using tx by (rule transaction_runs)
  have db: "w_dbs w2 path = Some ?db" using open_root_db_at [OF w1] g(2) w2(1) by simp
  from body db have "w_dbs w3 path = Some (?db\<lparr>db_file_index := filter (\<lambda>row. \<not> removed_by relative (ix_relative_path row)) (db_file_index ?db),
      db_search_entries := filter (\<lambda>row. \<not> removed_by relative (sr_relative_path row)) (db_search_entries ?db),
      db_generation := db_generation ?db + 1\<rparr>)"
    by (auto simp: action_iffs sql_ok change_def bump_generation_def select_generation_def throwA_def split: if_splits)
  then show ?thesis
    using w2(2) ascii removed_by_iff by (auto simp: db_at_def [of w'] cong: filter_cong)
qed

theorem remove_path_prunes_witness:
  "\<exists>w'. remove_path ''/home/box'' ''Docs'' indexed_world = (Inr (), w')
     \<and> map ix_relative_path (db_file_index (db_at indexed_world (db_path_for_root (guard_root sample_guard))))
         = [''docs/old.txt'', ''notes.pdf'']
     \<and> map ix_relative_path (db_file_index (db_at w' (db_path_for_root (guard_root sample_guard)))) = [''notes.pdf'']"
proof -
  let ?path = "db_path_for_root (guard_root sample_guard)"
  have "is_ok (fst (remove_path ''/home/box'' ''Docs'' indexed_world))" by code_simp
  then obtain w' where run: "remove_path ''/home/box'' ''Docs'' indexed_world = (Inr (), w')"
    by (cases "remove_path ''/home/box'' ''Docs'' indexed_world") (auto simp: is_ok_iff)
  have g: "guard_new indexed_world ''/home/box'' = Inr sample_guard" by code_simp
  have ok: "ascii ''Docs''" by code_simp
  have rows: "map ix_relative_path (db_file_index (db_at indexed_world ?path)) = [''docs/old.txt'', ''notes.pdf'']"
    "\<forall>row \<in> set (db_file_index (db_at indexed_world ?path)). ascii (ix_relative_path row)"
    "\<forall>row \<in> set (db_search_entries (db_at indexed_world ?path)). ascii (sr_relative_path row)"
    by code_simp+
  have "removed_by ''Docs'' ''docs/old.txt''" "\<not> removed_by ''Docs'' ''notes.pdf''" "ascii ''docs/old.txt''" "ascii ''notes.pdf''"
    by code_simp+
  then have "prunes ''Docs'' ''docs/old.txt''" "\<not> prunes ''Docs'' ''notes.pdf''" using removed_by_iff [OF ok] by blast+
  then have "filter (\<lambda>p. \<not> prunes ''Docs'' p) (map ix_relative_path (db_file_index (db_at indexed_world ?path))) = [''notes.pdf'']"
    unfolding rows(1) by simp
  then have "map ix_relative_path (filter (\<lambda>row. \<not> prunes ''Docs'' (ix_relative_path row))
      (db_file_index (db_at indexed_world ?path))) = [''notes.pdf'']"
    by (simp only: filter_map comp_def)
  then show ?thesis
    using remove_path_prunes [OF run g refl ok rows(2,3)] run rows(1) by simp
qed

end
