(* ===== verification/Desktop.thy ===== *)
theory Desktop
  imports Prelude
begin

text \<open>
  The vocabulary of the desktop application (\<^verbatim>\<open>apps/desktop/src-tauri\<close>): JSON values and the
  local SQLite stores.

  A store of the desktop is a struct around \<^verbatim>\<open>Mutex<Option<SqlitePool>>\<close>. Here it is a record: the
  contents of its tables, \<^const>\<open>None\<close> until \<^verbatim>\<open>load_from_db\<close> has opened it, and the failures that
  the coming SQL statements will meet, one entry per statement (\<^const>\<open>None\<close> for a statement that
  succeeds, and an exhausted schedule for no failure at all). A statement is atomic; the
  statements of a transaction take effect together at its commit or, when one of them fails, not
  at all.
\<close>

section \<open>JSON values\<close>

text \<open>\<^verbatim>\<open>serde_json::Value\<close>; a number that is not an integer is kept as its text.\<close>

datatype json =
  JNull | JBool bool | JNumber int | JDecimal string | JString string
| JArray "json list" | JObject "(string \<times> json) list"

fun json_is_object :: "json \<Rightarrow> bool" where
  "json_is_object (JObject _) = True"
| "json_is_object _ = False"

fun json_of_option :: "('a \<Rightarrow> json) \<Rightarrow> 'a option \<Rightarrow> json" where
  "json_of_option f None = JNull"
| "json_of_option f (Some x) = f x"

text \<open>\<^verbatim>\<open>Value::get\<close> with a string, \<^verbatim>\<open>as_str\<close> and \<^verbatim>\<open>as_u64\<close>.\<close>

fun json_get :: "string \<Rightarrow> json \<Rightarrow> json option" where
  "json_get key (JObject members) = map_of members key"
| "json_get key _ = None"

fun json_as_str :: "json \<Rightarrow> string option" where
  "json_as_str (JString s) = Some s"
| "json_as_str _ = None"

fun json_as_u64 :: "json \<Rightarrow> nat option" where
  "json_as_u64 (JNumber n) = (if 0 \<le> n \<and> n < 2 ^ 64 then Some (nat n) else None)"
| "json_as_u64 _ = None"

section \<open>Stores\<close>

type_synonym sql_faults = "string option list"

record 't store =
  st_pool :: "'t option"
  st_faults :: sql_faults

type_synonym ('t, 'a) store_op = "'t store \<Rightarrow> (string + 'a) \<times> 't store"

text \<open>The statements of one call, by the prefix of the error message each is reported with.\<close>

fun statements :: "string list \<Rightarrow> sql_faults \<Rightarrow> (string + unit) \<times> sql_faults" where
  "statements [] fs = (Inr (), fs)"
| "statements (p # ps) [] = (Inr (), [])"
| "statements (p # ps) (None # fs) = statements ps fs"
| "statements (p # ps) (Some e # fs) = (Inl (p @ e), fs)"

definition execute_sql :: "string list \<Rightarrow> ('t \<Rightarrow> 'a \<times> 't) \<Rightarrow> 't \<Rightarrow> ('t, 'a) store_op" where
  "execute_sql ps f t s =
     (case statements ps (st_faults s) of
        (Inl e, fs) \<Rightarrow> (Inl e, s\<lparr>st_faults := fs\<rparr>)
      | (Inr _, fs) \<Rightarrow> (Inr (fst (f t)), s\<lparr>st_pool := Some (snd (f t)), st_faults := fs\<rparr>))"

definition select_sql :: "string \<Rightarrow> ('t \<Rightarrow> 'a) \<Rightarrow> 't \<Rightarrow> ('t, 'a) store_op" where
  "select_sql p q t = execute_sql [p] (\<lambda>t. (q t, t)) t"

definition unopened :: "sql_faults \<Rightarrow> 't store" where
  "unopened fs = \<lparr>st_pool = None, st_faults = fs\<rparr>"

definition opened_store :: "'t \<Rightarrow> 't store" where
  "opened_store t = \<lparr>st_pool = Some t, st_faults = []\<rparr>"

lemma statements_no_faults [simp]: "statements ps [] = (Inr (), [])"
  by (cases ps) auto

lemma execute_sql_cases:
  assumes "st_pool s = Some t"
  shows "(\<exists>e fs. execute_sql ps f t s = (Inl e, s\<lparr>st_faults := fs\<rparr>)) \<or>
         (\<exists>fs. execute_sql ps f t s
               = (Inr (fst (f t)), s\<lparr>st_pool := Some (snd (f t)), st_faults := fs\<rparr>))"
  by (auto simp: execute_sql_def split: prod.splits sum.splits)

lemma execute_sql_Inr:
  "execute_sql ps f t s = (Inr x, s') \<Longrightarrow> x = fst (f t) \<and> st_pool s' = Some (snd (f t))"
  by (auto simp: execute_sql_def split: prod.splits sum.splits)

lemma execute_sql_Inl:
  "execute_sql ps f t s = (Inl e, s') \<Longrightarrow> st_pool s' = st_pool s"
  by (auto simp: execute_sql_def split: prod.splits sum.splits)

lemma execute_sql_healthy [simp]:
  "execute_sql ps f t (opened_store t') = (Inr (fst (f t)), opened_store (snd (f t)))"
  by (simp add: execute_sql_def opened_store_def)

lemma opened_store_simps [simp]:
  "st_pool (opened_store t) = Some t" "st_faults (opened_store t) = []"
  by (simp_all add: opened_store_def)

lemma select_sql_pool:
  "st_pool s = Some t \<Longrightarrow> select_sql p q t s = (r, s') \<Longrightarrow>
     st_pool s' = Some t \<and> (\<forall>x. r = Inr x \<longrightarrow> x = q t)"
  by (auto simp: select_sql_def execute_sql_def split: prod.splits sum.splits)

lemma select_sql_healthy [simp]:
  "select_sql p q t (opened_store t) = (Inr (q t), opened_store t)"
  by (simp add: select_sql_def)

section \<open>Runs of a store\<close>

text \<open>A store is used through a sequence of calls, each of which may fail. What every call keeps,
  every sequence keeps; and what every call does to the rows it finds, a sequence does too.\<close>

locale store_invariant =
  fixes exec :: "'c \<Rightarrow> 's \<Rightarrow> 's" and allowed :: "'c \<Rightarrow> bool" and inv :: "'s \<Rightarrow> bool"
  assumes exec_inv: "allowed c \<Longrightarrow> inv s \<Longrightarrow> inv (exec c s)"
begin

lemma run_inv: "list_all allowed cs \<Longrightarrow> inv s \<Longrightarrow> inv (fold exec cs s)"
  by (induction cs arbitrary: s) (auto simp: exec_inv)

end

locale store_progress =
  fixes exec :: "'c \<Rightarrow> 's \<Rightarrow> 's" and later :: "'s \<Rightarrow> 's \<Rightarrow> bool"
  assumes later_refl: "later s s"
    and later_trans: "later s1 s2 \<Longrightarrow> later s2 s3 \<Longrightarrow> later s1 s3"
    and exec_later: "later s (exec c s)"
begin

lemma run_later: "later s (fold exec cs s)"
proof (induction cs arbitrary: s)
  case (Cons c cs)
  show ?case using later_trans [OF exec_later Cons.IH] by simp
qed (simp add: later_refl)

lemma run_later_prefix: "later (fold exec cs s) (fold exec (cs @ ds) s)"
  using run_later [of "fold exec cs s" ds] by simp

end

end
