(* ===== verification/Codec.thy ===== *)
theory Codec
  imports Prelude
begin

text \<open>
  A concrete text format for the values the desktop stores as JSON. The model takes
  \<^verbatim>\<open>serde_json\<close>'s encoder and decoder as parameters and assumes that what one writes the other reads
  back; the format here shows that the assumption can be met. It is built from combinators: a
  printer and a parser fit together when the parser undoes the printer and leaves the rest of the
  input.
\<close>

type_synonym 'a printer = "'a \<Rightarrow> string"
type_synonym 'a parser = "string \<Rightarrow> ('a \<times> string) option"

definition codec :: "'a printer \<Rightarrow> 'a parser \<Rightarrow> bool" where
  "codec p g \<longleftrightarrow> (\<forall>x rest. g (p x @ rest) = Some (x, rest))"

definition put_nat :: "nat printer" where
  "put_nat n = replicate n (CHR ''1'') @ ''.''"

fun get_nat :: "nat parser" where
  "get_nat [] = None"
| "get_nat (c # cs) =
     (if c = CHR ''.'' then Some (0, cs)
      else map_option (\<lambda>(n, rest). (Suc n, rest)) (get_nat cs))"

definition put_string :: "string printer" where
  "put_string s = put_nat (length s) @ s"

definition get_string :: "string parser" where
  "get_string t = map_option (\<lambda>(n, rest). (take n rest, drop n rest)) (get_nat t)"

definition put_pair :: "'a printer \<Rightarrow> 'b printer \<Rightarrow> ('a \<times> 'b) printer" where
  "put_pair p q x = p (fst x) @ q (snd x)"

definition get_pair :: "'a parser \<Rightarrow> 'b parser \<Rightarrow> ('a \<times> 'b) parser" where
  "get_pair g h t =
     (case g t of None \<Rightarrow> None
      | Some (a, rest) \<Rightarrow> map_option (\<lambda>(b, rest). ((a, b), rest)) (h rest))"

fun get_times :: "'a parser \<Rightarrow> nat \<Rightarrow> 'a list parser" where
  "get_times g 0 t = Some ([], t)"
| "get_times g (Suc n) t =
     (case g t of None \<Rightarrow> None
      | Some (x, rest) \<Rightarrow> map_option (\<lambda>(xs, rest). (x # xs, rest)) (get_times g n rest))"

definition put_list :: "'a printer \<Rightarrow> 'a list printer" where
  "put_list p xs = put_nat (length xs) @ concat (map p xs)"

definition get_list :: "'a parser \<Rightarrow> 'a list parser" where
  "get_list g t = (case get_nat t of None \<Rightarrow> None | Some (n, rest) \<Rightarrow> get_times g n rest)"

definition put_option :: "'a printer \<Rightarrow> 'a option printer" where
  "put_option p x = (case x of None \<Rightarrow> put_list p [] | Some y \<Rightarrow> put_list p [y])"

definition get_option :: "'a parser \<Rightarrow> 'a option parser" where
  "get_option g t = map_option (\<lambda>(xs, rest). (if xs = [] then None else Some (hd xs), rest)) (get_list g t)"

definition get_map :: "('a \<Rightarrow> 'b) \<Rightarrow> 'a parser \<Rightarrow> 'b parser" where
  "get_map f g t = map_option (\<lambda>(a, rest). (f a, rest)) (g t)"

lemma codec_nat [intro]: "codec put_nat get_nat"
proof -
  have "get_nat (replicate n (CHR ''1'') @ CHR ''.'' # rest) = Some (n, rest)" for n rest
    by (induction n) simp_all
  then show ?thesis by (simp add: codec_def put_nat_def)
qed

lemma codec_string [intro]: "codec put_string get_string"
  using codec_nat by (simp add: codec_def put_string_def get_string_def)

lemma codec_pair [intro]: "codec p g \<Longrightarrow> codec q h \<Longrightarrow> codec (put_pair p q) (get_pair g h)"
  by (simp add: codec_def put_pair_def get_pair_def)

lemma get_times_put: "codec p g \<Longrightarrow> get_times g (length xs) (concat (map p xs) @ rest) = Some (xs, rest)"
  by (induction xs) (simp_all add: codec_def)

lemma codec_list [intro]: "codec p g \<Longrightarrow> codec (put_list p) (get_list g)"
  using codec_nat get_times_put [of p g] by (simp add: codec_def put_list_def get_list_def)

lemma codec_option [intro]: "codec p g \<Longrightarrow> codec (put_option p) (get_option g)"
  using codec_list [of p g] by (auto simp: codec_def put_option_def get_option_def split: option.split)

lemma codec_map: "codec p g \<Longrightarrow> (\<And>x. f (h x) = x) \<Longrightarrow> codec (p \<circ> h) (get_map f g)"
  by (simp add: codec_def get_map_def)

text \<open>A decoder that reports an error unless it reads the whole text.\<close>

definition decode_with :: "'a parser \<Rightarrow> string \<Rightarrow> string + 'a" where
  "decode_with g t = (case g t of Some (x, []) \<Rightarrow> Inr x | _ \<Rightarrow> Inl ''invalid text'')"

lemma decode_with_codec: "codec p g \<Longrightarrow> decode_with g (p x) = Inr x"
proof -
  assume "codec p g"
  then have "g (p x @ []) = Some (x, [])" unfolding codec_def by blast
  then show ?thesis by (simp add: decode_with_def)
qed

end
