(* ===== verification/Timestamps.thy ===== *)
theory Timestamps
  imports Prelude "HOL-Library.Signed_Division"
begin

text \<open>
  The UTC timestamps of the desktop application (the second half of \<^verbatim>\<open>cleanliness.rs\<close>, repeated
  verbatim in other modules): milliseconds since the epoch as a Gregorian date and time, and their
  RFC 3339 text.

  Shown here: the date arithmetic agrees with a calendar that counts day by day, and the text of
  fixed width orders as the instants do, which is what the snapshot store and the outbox rely on
  when they compare texts.
\<close>

section \<open>Formatting\<close>

text \<open>\<^verbatim>\<open>{n:0w}\<close>: the sign, if any, counts towards the width.\<close>

definition pad0 :: "nat \<Rightarrow> nat \<Rightarrow> string" where
  "pad0 w n = replicate (w - length (dec n)) (CHR ''0'') @ dec n"

definition pad0_int :: "nat \<Rightarrow> int \<Rightarrow> string" where
  "pad0_int w i = (if i < 0 then ''-'' @ pad0 (w - 1) (nat (- i)) else pad0 w (nat i))"

section \<open>Dates\<close>

abbreviation "i64_max \<equiv> 2 ^ 63 - 1 :: int"
abbreviation "i32_max \<equiv> 2 ^ 31 - 1 :: int"
abbreviation "u32_max \<equiv> 2 ^ 32 - 1 :: int"

text \<open>\<^verbatim>\<open>T::try_from(n).unwrap_or(d)\<close> for an integer type with the given bounds.\<close>

definition try_from_or :: "int \<Rightarrow> int \<Rightarrow> int \<Rightarrow> int \<Rightarrow> int" where
  "try_from_or lo hi d n = (if lo \<le> n \<and> n \<le> hi then n else d)"

text \<open>Rust's \<^verbatim>\<open>/\<close> truncates: \<open>sdiv\<close>; \<^verbatim>\<open>div_euclid\<close> and \<^verbatim>\<open>rem_euclid\<close> by a positive number are
  \<open>div\<close> and \<open>mod\<close>.\<close>

definition civil_from_days :: "int \<Rightarrow> int \<times> int \<times> int" where
  "civil_from_days days =
     (let z = days + 719468;
          era = (if z \<ge> 0 then z else z - 146096) sdiv 146097;
          doe = z - era * 146097;
          yoe = (doe - doe sdiv 1460 + doe sdiv 36524 - doe sdiv 146096) sdiv 365;
          y = yoe + era * 400;
          doy = doe - (365 * yoe + yoe sdiv 4 - yoe sdiv 100);
          mp = (5 * doy + 2) sdiv 153;
          day = doy - (153 * mp + 2) sdiv 5 + 1;
          month = mp + (if mp < 10 then 3 else -9);
          year = y + (if month \<le> 2 then 1 else 0)
      in (try_from_or (- (2 ^ 31)) i32_max i32_max year, try_from_or 0 u32_max 1 month,
          try_from_or 0 u32_max 1 day))"

definition unix_seconds_to_utc :: "int \<Rightarrow> int \<times> int \<times> int \<times> int \<times> int \<times> int" where
  "unix_seconds_to_utc seconds =
     (let days = seconds div 86400;
          day_seconds = seconds mod 86400;
          (year, month, day) = civil_from_days days;
          hour = try_from_or 0 u32_max 0 (day_seconds sdiv 3600);
          minute = try_from_or 0 u32_max 0 ((day_seconds smod 3600) sdiv 60);
          second = try_from_or 0 u32_max 0 (day_seconds smod 60)
      in (year, month, day, hour, minute, second))"

definition unix_ms_to_rfc3339 :: "nat option \<Rightarrow> string" where
  "unix_ms_to_rfc3339 unix_ms =
     (let millis = (case unix_ms of Some ms \<Rightarrow> ms | None \<Rightarrow> 0);
          seconds = try_from_or (- (2 ^ 63)) i64_max i64_max (int (millis div 1000));
          sub_ms = millis mod 1000;
          (year, month, day, hour, minute, second) = unix_seconds_to_utc seconds
      in pad0_int 4 year @ ''-'' @ pad0_int 2 month @ ''-'' @ pad0_int 2 day @ ''T''
         @ pad0_int 2 hour @ '':'' @ pad0_int 2 minute @ '':'' @ pad0_int 2 second @ ''.''
         @ pad0 3 sub_ms @ ''Z'')"

section \<open>The calendar\<close>

definition leap_year :: "int \<Rightarrow> bool" where
  "leap_year y \<longleftrightarrow> y mod 4 = 0 \<and> (y mod 100 \<noteq> 0 \<or> y mod 400 = 0)"

definition days_in_month :: "int \<Rightarrow> int \<Rightarrow> int" where
  "days_in_month y m =
     (if m = 2 then (if leap_year y then 29 else 28) else if m \<in> {4, 6, 9, 11} then 30 else 31)"

fun next_day :: "int \<times> int \<times> int \<Rightarrow> int \<times> int \<times> int" where
  "next_day (y, m, d) =
     (if d < days_in_month y m then (y, m, d + 1) else if m < 12 then (y, m + 1, 1) else (y + 1, 1, 1))"

text \<open>The years the code counts in begin on the first of March. \<open>year_start\<close> is the first day of
  such a year, from the first of March of year 0, \<open>month_day\<close> the date of a day of it.\<close>

definition year_start :: "int \<Rightarrow> int" where
  "year_start y = 365 * y + y div 4 - y div 100 + y div 400"

definition year_of_era :: "int \<Rightarrow> int" where
  "year_of_era doe = (doe - doe div 1460 + doe div 36524 - doe div 146096) div 365"

definition month_day :: "int \<Rightarrow> int \<times> int" where
  "month_day doy =
     (let mp = (5 * doy + 2) div 153
      in (mp + (if mp < 10 then 3 else -9), doy - (153 * mp + 2) div 5 + 1))"

definition march_date :: "int \<Rightarrow> int \<Rightarrow> int \<times> int \<times> int" where
  "march_date y doy =
     (let (month, day) = month_day doy in (y + (if month \<le> 2 then 1 else 0), month, day))"

lemma sdiv_nonneg: "0 \<le> a \<Longrightarrow> 0 < b \<Longrightarrow> a sdiv b = a div (b :: int)"
  by (cases "a = 0") (simp_all add: signed_divide_int_def)

lemma div_eqI: "b * q \<le> a \<Longrightarrow> a < b * (q + 1) \<Longrightarrow> a div b = (q :: int)"
  by (rule int_div_pos_eq [of _ _ _ "a - b * q"]) (simp_all add: algebra_simps)

lemma int_parts:
  assumes "0 < (n :: int)"
  obtains q r where "y div n = q" "y = n * q + r" "0 \<le> r" "r < n"
  using assms that [of "y div n" "y mod n"] by simp

lemma div_step:
  assumes "0 < (n :: int)"
  shows "(y + 1) div n = y div n + (if n dvd y + 1 then 1 else 0)"
proof -
  obtain q r where y: "y div n = q" "y = n * q + r" "0 \<le> r" "r < n" using int_parts [OF assms] .
  show ?thesis
  proof (cases "r + 1 = n")
    case True
    then have *: "y + 1 = n * (q + 1)" unfolding y(2) by (simp add: algebra_simps)
    then have "(y + 1) div n = q + 1" using assms by simp
    then show ?thesis using * y(1) by simp
  next
    case False
    have "(y + 1) div n = q" using y False by (intro div_eqI) (simp_all add: algebra_simps)
    moreover have "\<not> n dvd y + 1"
    proof
      assume "n dvd y + 1"
      then have "n dvd r + 1" using y(2) by (metis add.assoc dvd_add_right_iff dvd_triv_left)
      then show False using y False zdvd_imp_le [of n "r + 1"] by simp
    qed
    ultimately show ?thesis using y(1) by simp
  qed
qed

lemma div_slow: "0 < n \<Longrightarrow> a \<le> b \<Longrightarrow> b div n - a div n \<le> b - (a :: int)"
proof -
  assume n: "0 < n" and "a \<le> b"
  then have "b \<le> a + (b - a) * n" using mult_left_mono [of 1 n "b - a"] by simp
  then have "b div n \<le> (a + (b - a) * n) div n" using n by (rule zdiv_mono1)
  also have "\<dots> = b - a + a div n" using n by simp
  finally show ?thesis by simp
qed

lemma sdiv_era:
  "(if (z :: int) \<ge> 0 then z else z - 146096) sdiv 146097 = z div 146097"
proof (cases "z \<ge> 0")
  case False
  obtain q r where z: "z div 146097 = q" "z = 146097 * q + r" "0 \<le> r" "r < 146097"
    by (rule int_parts [of 146097 z]) simp
  then have "(146096 - z) div 146097 = - (z div 146097)" unfolding z(1) by (intro div_eqI) simp_all
  moreover have "(z - 146096) sdiv 146097 = - ((146096 - z) div 146097)"
    using False by (simp add: signed_divide_int_def)
  ultimately show ?thesis using False by simp
qed (simp add: sdiv_nonneg)

lemma year_start_Suc: "year_start (y + 1) = year_start y + (if leap_year (y + 1) then 366 else 365)"
proof -
  define a b c where "a \<longleftrightarrow> 4 dvd y + 1" and "b \<longleftrightarrow> 100 dvd y + 1" and "c \<longleftrightarrow> 400 dvd y + 1"
  have "(4 :: int) dvd 100" "(100 :: int) dvd 400" by simp_all
  then have "b \<Longrightarrow> a" "c \<Longrightarrow> b" unfolding a_def b_def c_def using dvd_trans by blast+
  then have count: "365 * (y + 1) + (n4 + (if a then 1 else 0)) - (n100 + (if b then 1 else 0))
      + (n400 + (if c then 1 else 0)) = 365 * y + n4 - n100 + n400 + (if a \<and> (\<not> b \<or> c) then 366 else 365)"
    for n4 n100 n400 by (cases a; cases b; cases c) simp_all
  have leap: "leap_year (y + 1) \<longleftrightarrow> a \<and> (\<not> b \<or> c)"
    by (simp add: leap_year_def a_def b_def c_def dvd_eq_mod_eq_0)
  have "(y + 1) div 4 = y div 4 + (if a then 1 else 0)"
    "(y + 1) div 100 = y div 100 + (if b then 1 else 0)"
    "(y + 1) div 400 = y div 400 + (if c then 1 else 0)"
    unfolding a_def b_def c_def by (rule div_step; simp)+
  then show ?thesis unfolding year_start_def leap by (simp only: count)
qed

lemma year_start_mono: "a \<le> b \<Longrightarrow> year_start a \<le> year_start b"
proof (induction b rule: int_ge_induct)
  case (step b)
  then show ?case by (simp add: year_start_Suc)
qed simp

lemma year_start_era: "year_start (y + era * 400) = year_start y + era * 146097"
proof -
  have "(y + (era * 100) * 4) div 4 = era * 100 + y div 4"
    "(y + (era * 4) * 100) div 100 = era * 4 + y div 100" "(y + era * 400) div 400 = era + y div 400"
    by (rule div_mult_self1; simp)+
  moreover have "era * 100 * 4 = era * 400" "era * 4 * 100 = era * 400" by simp_all
  ultimately show ?thesis by (simp add: year_start_def)
qed

lemma year_containing:
  "0 \<le> doe \<Longrightarrow> doe < year_start (int n) \<Longrightarrow>
     \<exists>y. 0 \<le> y \<and> y < int n \<and> year_start y \<le> doe \<and> doe < year_start (y + 1)"
proof (induction n)
  case 0
  then show ?case by (simp add: year_start_def)
next
  case (Suc n)
  show ?case
  proof (cases "doe < year_start (int n)")
    case True
    with Suc obtain y where "0 \<le> y \<and> y < int n \<and> year_start y \<le> doe \<and> doe < year_start (y + 1)"
      by blast
    then show ?thesis by (intro exI [of _ y]) simp
  next
    case False
    with Suc.prems show ?thesis by (intro exI [of _ "int n"]) (simp add: add.commute)
  qed
qed

definition era_days :: "int \<Rightarrow> int" where
  "era_days doe = doe - doe div 1460 + doe div 36524 - doe div 36524 div 4"

lemma year_of_era_alt: "year_of_era doe = era_days doe div 365"
proof -
  have "doe div 146096 = doe div 36524 div 4" using zdiv_zmult2_eq [of 4 doe 36524] by simp
  then show ?thesis by (simp add: year_of_era_def era_days_def)
qed

lemma year_of_era_correct:
  assumes "0 \<le> y" "y < 400" "year_start y \<le> doe" "doe < year_start (y + 1)"
  shows "year_of_era doe = y"
proof -
  obtain c y' where c: "y div 100 = c" "y = 100 * c + y'" "0 \<le> y'" "y' < 100"
    by (rule int_parts [of 100 y]) simp
  obtain q k where q: "y' div 4 = q" "y' = 4 * q + k" "0 \<le> k" "k < 4"
    by (rule int_parts [of 4 y']) simp
  have y: "y = 100 * c + 4 * q + k" using c q by simp
  have bounds: "0 \<le> c" "c \<le> 3" "0 \<le> q" "q \<le> 24" "0 \<le> k" "k \<le> 3"
    using assms(1,2) c q by linarith+
  have "y div 4 = 25 * c + q" "y div 400 = 0" using y bounds by (auto intro!: div_eqI)
  then have start: "year_start y = 36524 * c + 1461 * q + 365 * k" using y c(1) by (simp add: year_start_def)
  define r where "r = doe - year_start y"
  have leap: "k = 3 \<and> (q = 24 \<longrightarrow> c = 3)" if "leap_year (y + 1)"
  proof -
    have "4 dvd (25 * c + q) * 4 + (k + 1)" using that y by (simp add: leap_year_def dvd_eq_mod_eq_0 algebra_simps)
    then have "4 dvd k + 1" by (simp add: dvd_add_right_iff)
    then have k: "k = 3" using bounds zdvd_imp_le [of 4 "k + 1"] by simp
    have "c = 3" if "q = 24"
    proof -
      have "y + 1 = 100 * (c + 1)" using y k that by simp
      then have "400 dvd 100 * (c + 1)"
        using \<open>leap_year (y + 1)\<close> by (simp add: leap_year_def dvd_eq_mod_eq_0 add.commute)
      then obtain j where "100 * (c + 1) = 400 * j" by (rule dvdE)
      then have "4 dvd c + 1" by (intro dvdI [of _ _ j]) simp
      then show ?thesis using bounds zdvd_imp_le [of 4 "c + 1"] by simp
    qed
    with k show ?thesis by simp
  qed
  have r: "0 \<le> r" "r \<le> 365" "r = 365 \<Longrightarrow> leap_year (y + 1)"
    using assms(3,4) unfolding r_def year_start_Suc by (auto split: if_splits)
  have doe: "doe = 36524 * c + 1461 * q + 365 * k + r" using start by (simp add: r_def)
  define e where "e = (if 1460 \<le> 24 * c + q + 365 * k + r then 1 else 0 :: int)"
  have fours: "doe div 1460 = 25 * c + q + e"
    unfolding doe e_def using bounds r by (intro div_eqI) auto
  have hundreds: "doe div 36524 - doe div 36524 div 4 = c"
  proof (cases "1461 * q + 365 * k + r < 36524")
    case True
    then have "doe div 36524 = c" unfolding doe using bounds r by (intro div_eqI) simp_all
    with bounds show ?thesis by simp
  next
    case False
    then have "q = 24" "k = 3" "r = 365" using bounds r by linarith+
    with leap r(3) have "c = 3" by simp
    with \<open>q = 24\<close> \<open>k = 3\<close> \<open>r = 365\<close> show ?thesis by (simp add: doe)
  qed
  have day: "0 \<le> r - e" "r - e \<le> 364"
    using bounds r(1,2) r(3) [THEN leap] by (cases "r = 365"; auto simp: e_def)+
  have "era_days doe = doe - doe div 1460 + (doe div 36524 - doe div 36524 div 4)"
    by (simp add: era_days_def)
  also have "\<dots> = 365 * y + (r - e)" unfolding fours hundreds by (simp add: doe y)
  finally have "era_days doe div 365 = y" using day by (intro div_eqI) simp_all
  then show ?thesis by (simp add: year_of_era_alt)
qed

lemma month_day_table:
  assumes "0 \<le> doy" "doy \<le> 365"
  shows "month_day doy =
    (if doy < 31 then (3, doy + 1) else if doy < 61 then (4, doy - 30)
     else if doy < 92 then (5, doy - 60) else if doy < 122 then (6, doy - 91)
     else if doy < 153 then (7, doy - 121) else if doy < 184 then (8, doy - 152)
     else if doy < 214 then (9, doy - 183) else if doy < 245 then (10, doy - 213)
     else if doy < 275 then (11, doy - 244) else if doy < 306 then (12, doy - 274)
     else if doy < 337 then (1, doy - 305) else (2, doy - 336))"
proof -
  have month: "153 * k \<le> 5 * doy + 2 \<Longrightarrow> 5 * doy + 2 < 153 * (k + 1) \<Longrightarrow>
      month_day doy = (k + (if k < 10 then 3 else -9), doy - (153 * k + 2) div 5 + 1)" for k
    using div_eqI [of 153 k "5 * doy + 2"] by (simp add: month_day_def)
  have m0: "month_day doy = (3, doy + 1)" if "0 \<le> doy" "doy < 31"
    using that month [of 0] by simp
  have m1: "month_day doy = (4, doy - 30)" if "31 \<le> doy" "doy < 61"
    using that month [of 1] by simp
  have m2: "month_day doy = (5, doy - 60)" if "61 \<le> doy" "doy < 92"
    using that month [of 2] by simp
  have m3: "month_day doy = (6, doy - 91)" if "92 \<le> doy" "doy < 122"
    using that month [of 3] by simp
  have m4: "month_day doy = (7, doy - 121)" if "122 \<le> doy" "doy < 153"
    using that month [of 4] by simp
  have m5: "month_day doy = (8, doy - 152)" if "153 \<le> doy" "doy < 184"
    using that month [of 5] by simp
  have m6: "month_day doy = (9, doy - 183)" if "184 \<le> doy" "doy < 214"
    using that month [of 6] by simp
  have m7: "month_day doy = (10, doy - 213)" if "214 \<le> doy" "doy < 245"
    using that month [of 7] by simp
  have m8: "month_day doy = (11, doy - 244)" if "245 \<le> doy" "doy < 275"
    using that month [of 8] by simp
  have m9: "month_day doy = (12, doy - 274)" if "275 \<le> doy" "doy < 306"
    using that month [of 9] by simp
  have m10: "month_day doy = (1, doy - 305)" if "306 \<le> doy" "doy < 337"
    using that month [of 10] by simp
  have m11: "month_day doy = (2, doy - 336)" if "337 \<le> doy" "doy < 366"
    using that month [of 11] by simp
  show ?thesis
    using assms by (simp add: m0 m1 m2 m3 m4 m5 m6 m7 m8 m9 m10 m11 split: if_split)
qed

definition date_in_range :: "int \<times> int \<times> int \<Rightarrow> int \<times> int \<times> int" where
  "date_in_range d =
     (case d of (year, month, day) \<Rightarrow>
        (try_from_or (- (2 ^ 31)) i32_max i32_max year, try_from_or 0 u32_max 1 month,
         try_from_or 0 u32_max 1 day))"

lemma civil_from_days_march:
  assumes "days + 719468 = year_start y + doy" "0 \<le> doy" "year_start y + doy < year_start (y + 1)"
  shows "civil_from_days days = date_in_range (march_date y doy)"
proof -
  obtain era yoe where y: "y div 400 = era" "y = 400 * era + yoe" "0 \<le> yoe" "yoe < 400"
    by (rule int_parts [of 400 y]) simp
  define doe where "doe = year_start yoe + doy"
  have shift: "year_start y = year_start yoe + era * 146097"
    using year_start_era [of yoe era] y(2) by (simp add: add.commute mult.commute)
  have shift1: "year_start (y + 1) = year_start (yoe + 1) + era * 146097"
    using year_start_era [of "yoe + 1" era] y(2) by (simp add: algebra_simps)
  have z: "days + 719468 = 146097 * era + doe" using assms(1) shift by (simp add: doe_def)
  have le: "doe < year_start (yoe + 1)" "year_start yoe \<le> doe"
    using assms(2,3) shift shift1 by (simp_all add: doe_def)
  have start: "year_start yoe = 365 * yoe + yoe div 4 - yoe div 100"
    using y by (simp add: year_start_def)
  have "yoe div 100 \<le> yoe div 4" using y(3) by (simp add: zdiv_mono2)
  then have "0 \<le> year_start yoe" using y(3) start by simp
  then have doe0: "0 \<le> doe" using le by simp
  have "year_start (yoe + 1) \<le> 146097"
    using year_start_mono [of "yoe + 1" 400] y(4) by (simp add: year_start_def)
  then have era: "(days + 719468) div 146097 = era" using z doe0 le by (intro div_eqI) simp_all
  have yoe: "year_of_era doe = yoe" using year_of_era_correct y le by simp
  have "doe div 1460 \<le> doe" "doe div 146096 \<le> doe div 36524"
    using doe0 div_slow [of 1460 0 doe] zdiv_mono2 [of doe 36524 146096] by simp_all
  then have "0 \<le> doe - doe div 1460 + doe div 36524 - doe div 146096" by simp
  then have sd: "(doe - doe sdiv 1460 + doe sdiv 36524 - doe sdiv 146096) sdiv 365 = yoe"
    using doe0 yoe by (simp add: sdiv_nonneg year_of_era_def)
  have doy: "doe - (365 * yoe + yoe sdiv 4 - yoe sdiv 100) = doy"
    using y(3) start by (simp add: sdiv_nonneg doe_def)
  have "0 \<le> (5 * doy + 2) div 153" using assms(2) by (simp add: pos_imp_zdiv_nonneg_iff)
  then have md: "(5 * doy + 2) sdiv 153 = (5 * doy + 2) div 153"
    "(153 * ((5 * doy + 2) div 153) + 2) sdiv 5 = (153 * ((5 * doy + 2) div 153) + 2) div 5"
    using assms(2) by (simp_all add: sdiv_nonneg)
  have base: "days + 719468 - era * 146097 = doe" using z by simp
  show ?thesis
    unfolding civil_from_days_def Let_def sdiv_era era base sd doy md
    by (simp add: y(2) date_in_range_def march_date_def month_day_def Let_def add.commute mult.commute)
qed

lemma march_date_step:
  assumes "0 \<le> doy" "doy + 1 < (if leap_year (y + 1) then 366 else 365)"
  shows "march_date y (doy + 1) = next_day (march_date y doy)"
proof -
  have doy: "0 \<le> doy + 1" "doy + 1 \<le> 365" "doy \<le> 365" using assms by (auto split: if_splits)
  have "doy < 30 \<or> doy = 30 \<or> 30 < doy \<and> doy < 60 \<or> doy = 60 \<or> 60 < doy \<and> doy < 91 \<or> doy = 91 \<or> 91 < doy \<and> doy < 121 \<or> doy = 121
    \<or> 121 < doy \<and> doy < 152 \<or> doy = 152 \<or> 152 < doy \<and> doy < 183 \<or> doy = 183 \<or> 183 < doy \<and> doy < 213 \<or> doy = 213
    \<or> 213 < doy \<and> doy < 244 \<or> doy = 244 \<or> 244 < doy \<and> doy < 274 \<or> doy = 274 \<or> 274 < doy \<and> doy < 305 \<or> doy = 305 \<or> 305 < doy \<and> doy < 336 \<or> doy = 336 \<or> 336 < doy"
    by presburger
  then show ?thesis
    by (elim disjE conjE; insert assms; simp add: march_date_def month_day_table doy days_in_month_def split: if_splits)
qed

lemma march_date_wrap:
  "march_date (y + 1) 0 = next_day (march_date y (if leap_year (y + 1) then 365 else 364))"
  by (simp add: march_date_def month_day_table days_in_month_def)

lemma march_date_shape:
  assumes "0 \<le> doy" "doy \<le> 365" "march_date y doy = (y', m, d)"
  shows "y \<le> y'" "y' \<le> y + 1" "1 \<le> m" "m \<le> 12" "1 \<le> d" "d \<le> 31"
  using assms(3) unfolding march_date_def month_day_table [OF assms(1,2)]
  by (insert assms(1,2), auto split: if_splits)

lemma day_parts:
  obtains y doy where "z = year_start y + doy" "0 \<le> doy" "z < year_start (y + 1)"
proof -
  obtain era doe where z: "z = 146097 * era + doe" "0 \<le> doe" "doe < 146097"
    by (rule int_parts [of 146097 z]) simp_all
  have "doe < year_start (int 400)" using z(3) by (simp add: year_start_def)
  from year_containing [OF z(2) this] obtain yoe where
    yoe: "year_start yoe \<le> doe" "doe < year_start (yoe + 1)" by blast
  have shift: "year_start (yoe + era * 400) = year_start yoe + era * 146097"
    "year_start (yoe + era * 400 + 1) = year_start (yoe + 1) + era * 146097"
    using year_start_era [of yoe era] year_start_era [of "yoe + 1" era] by (simp_all add: add_ac)
  show thesis
    by (rule that [of "yoe + era * 400" "doe - year_start yoe"]) (use z yoe shift in simp_all)
qed

lemma year_start_bounds: "0 \<le> y \<Longrightarrow> 365 * y \<le> year_start y" "y \<le> 0 \<Longrightarrow> year_start y \<le> 365 * y"
proof -
  assume "0 \<le> y"
  then have "y div 100 \<le> y div 4" "0 \<le> y div 400"
    by (simp_all add: zdiv_mono2 pos_imp_zdiv_nonneg_iff)
  then show "365 * y \<le> year_start y" by (simp add: year_start_def)
next
  assume "y \<le> 0"
  then have "y div 4 \<le> y div 100" "y div 400 \<le> 0"
    using zdiv_mono2_neg [of y 4 100] zdiv_mono1 [of y 0 400] by (cases "y = 0"; simp)+
  then show "year_start y \<le> 365 * y" by (simp add: year_start_def)
qed

lemma civil_from_days_exact:
  assumes "\<bar>days\<bar> \<le> 700000000000"
  obtains y doy where "days + 719468 = year_start y + doy" "0 \<le> doy" "days + 719468 < year_start (y + 1)"
    "civil_from_days days = march_date y doy"
proof -
  obtain y doy where z: "days + 719468 = year_start y + doy" "0 \<le> doy" "days + 719468 < year_start (y + 1)"
    by (rule day_parts)
  have "y < 2000000000"
    using z assms year_start_bounds(1) [of y] by (cases "0 \<le> y") linarith+
  moreover have "- 2000000000 < y"
  proof (cases "y + 1 \<le> 0")
    case True
    then have "year_start (y + 1) \<le> 365 * (y + 1)" by (rule year_start_bounds)
    moreover have "- 700000000000 \<le> days" using assms by (simp add: abs_le_iff)
    ultimately show ?thesis using z(3) by simp
  qed simp
  moreover have doy: "doy \<le> 365" using z by (simp add: year_start_Suc split: if_splits)
  ultimately have "date_in_range (march_date y doy) = march_date y doy"
    using march_date_shape [OF z(2) doy, of y] z(2)
    by (cases "march_date y doy") (simp add: date_in_range_def try_from_or_def)
  with civil_from_days_march [OF z(1,2)] z that show thesis by simp
qed

lemma civil_from_days_step:
  assumes "\<bar>days\<bar> < 700000000000"
  shows "civil_from_days (days + 1) = next_day (civil_from_days days)"
proof -
  obtain y doy where z: "days + 719468 = year_start y + doy" "0 \<le> doy" "days + 719468 < year_start (y + 1)"
    "civil_from_days days = march_date y doy"
    using civil_from_days_exact [of days] assms by auto
  have bound: "\<bar>days + 1\<bar> \<le> 700000000000" using assms by linarith
  obtain y' doy' where z': "days + 1 + 719468 = year_start y' + doy'" "0 \<le> doy'"
    "days + 1 + 719468 < year_start (y' + 1)" "civil_from_days (days + 1) = march_date y' doy'"
    by (rule civil_from_days_exact [OF bound])
  have "y \<le> y'" using year_start_mono [of "y' + 1" y] z z' by linarith
  moreover have "y' \<le> y + 1" using year_start_mono [of "y + 1 + 1" y'] year_start_Suc [of "y + 1"] z z'
    by (cases "y + 1 + 1 \<le> y'") (auto split: if_splits)
  ultimately consider "y' = y" | "y' = y + 1" by linarith
  then show ?thesis
  proof cases
    case 1
    with z z' have "doy' = doy + 1" "doy + 1 < (if leap_year (y + 1) then 366 else 365)"
      by (simp_all add: year_start_Suc split: if_splits)
    with 1 z z' show ?thesis by (simp add: march_date_step)
  next
    case 2
    with z z' have "doy' = 0" "doy = (if leap_year (y + 1) then 365 else 364)"
      by (simp_all add: year_start_Suc split: if_splits)
    with 2 z z' march_date_wrap [of y] show ?thesis by simp
  qed
qed

lemma civil_from_days_epoch: "civil_from_days 0 = (1970, 1, 1)"
  by code_simp

section \<open>Order\<close>

lemma next_day_later: "date < next_day date"
  by (cases date) (auto simp: less_prod_def)

lemma civil_from_days_mono:
  assumes "0 \<le> a" "a < b" "b \<le> 700000000000"
  shows "civil_from_days a < civil_from_days b"
proof -
  have "civil_from_days a < civil_from_days (a + 1 + int n)" if "a + 1 + int n \<le> 700000000000" for n
    using that
  proof (induction n)
    case 0
    then show ?case using civil_from_days_step [of a] next_day_later assms(1) by simp
  next
    case (Suc n)
    then have "civil_from_days (a + 1 + int n) < civil_from_days (a + 1 + int n + 1)"
      using civil_from_days_step [of "a + 1 + int n"] next_day_later assms(1) by simp
    with Suc show ?case by (simp add: add_ac)
  qed
  from this [of "nat (b - a - 1)"] assms show ?thesis by simp
qed

lemma list_less_append:
  fixes xs :: "'a :: linorder list"
  shows "length xs = length xs' \<Longrightarrow> xs @ ys < xs' @ ys' \<longleftrightarrow> xs < xs' \<or> xs = xs' \<and> ys < ys'"
  by (induction xs xs' rule: list_induct2) auto

lemma append_less_same [simp]: "xs @ ys < xs @ zs \<longleftrightarrow> ys < (zs :: 'a :: linorder list)"
  by (simp add: list_less_append)

lemma pad0_Suc: "0 < w \<Longrightarrow> pad0 (Suc w) n = pad0 w (n div 10) @ [digit_char (n mod 10)]"
proof (cases "n < 10")
  case True
  assume "0 < w"
  then obtain v where v: "w = Suc v" by (cases w) auto
  have "digit_char 0 = CHR ''0''" by code_simp
  with True show ?thesis
    by (simp add: v pad0_def dec.simps [of n] dec.simps [of 0] replicate_append_same)
next
  case False
  then show ?thesis by (simp add: pad0_def dec.simps [of n])
qed

lemma digit_char_less: "a < b \<Longrightarrow> b < 10 \<Longrightarrow> digit_char a < digit_char b"
  by (simp add: digit_char_def less_char_def)

lemma length_pad0: "0 < w \<Longrightarrow> n < 10 ^ w \<Longrightarrow> length (pad0 w n) = w"
proof (induction w arbitrary: n)
  case (Suc w)
  show ?case
  proof (cases "w = 0")
    case True
    with Suc.prems show ?thesis by (simp add: pad0_def dec.simps [of n])
  next
    case False
    have "n div 10 < 10 ^ w" using Suc.prems(2) by (simp add: less_mult_imp_div_less mult.commute)
    with False Suc.IH show ?thesis by (simp add: pad0_Suc)
  qed
qed simp

lemma pad0_less: "0 < w \<Longrightarrow> m < n \<Longrightarrow> n < 10 ^ w \<Longrightarrow> pad0 w m < pad0 w n"
proof (induction w arbitrary: m n)
  case (Suc w)
  show ?case
  proof (cases "w = 0")
    case True
    with Suc.prems show ?thesis by (simp add: pad0_def dec.simps [of n] dec.simps [of m] digit_char_less)
  next
    case False
    have bound: "n div 10 < 10 ^ w" "m div 10 < 10 ^ w"
      using Suc.prems by (simp_all add: less_mult_imp_div_less mult.commute)
    then have len: "length (pad0 w (m div 10)) = length (pad0 w (n div 10))"
      using False by (simp add: length_pad0)
    consider "m div 10 < n div 10" | "m div 10 = n div 10" "m mod 10 < n mod 10"
      using Suc.prems(2) by (metis div_le_mono div_less_mono le_neq_implies_less less_imp_le mod_div_mult_eq
          nat_add_left_cancel_less add.commute)
    then have "pad0 w (m div 10) < pad0 w (n div 10) \<or> pad0 w (m div 10) = pad0 w (n div 10)
                 \<and> [digit_char (m mod 10)] < [digit_char (n mod 10)]"
    proof cases
      case 1
      then show ?thesis using Suc.IH [OF _ 1 bound(1)] False by simp
    next
      case 2
      then show ?thesis using digit_char_less by simp
    qed
    then show ?thesis using False by (simp only: pad0_Suc list_less_append [OF len] neq0_conv)
  qed
qed simp

definition date_text :: "int \<times> int \<times> int \<Rightarrow> string" where
  "date_text d = (case d of (y, m, d) \<Rightarrow> pad0 4 (nat y) @ ''-'' @ pad0 2 (nat m) @ ''-'' @ pad0 2 (nat d))"

definition clock_text :: "nat \<Rightarrow> nat \<Rightarrow> string" where
  "clock_text s ms = pad0 2 (s div 3600) @ '':'' @ pad0 2 (s mod 3600 div 60) @ '':'' @ pad0 2 (s mod 60)
     @ ''.'' @ pad0 3 ms @ ''Z''"

definition four_digit_date :: "int \<times> int \<times> int \<Rightarrow> bool" where
  "four_digit_date d \<longleftrightarrow> (case d of (y, m, d) \<Rightarrow> 0 \<le> y \<and> y < 10000 \<and> 0 \<le> m \<and> m < 100 \<and> 0 \<le> d \<and> d < 100)"

abbreviation year_10000_ms :: nat where
  "year_10000_ms \<equiv> 253402300800000"

lemma civil_from_days_four_digits:
  assumes "0 \<le> days" "days < 2932897"
  shows "four_digit_date (civil_from_days days)"
proof -
  obtain y m d where d: "civil_from_days days = (y, m, d)" by (cases "civil_from_days days")
  obtain y0 doy where z: "days + 719468 = year_start y0 + doy" "0 \<le> doy"
    "days + 719468 < year_start (y0 + 1)" "civil_from_days days = march_date y0 doy"
    using civil_from_days_exact [of days] assms by auto
  have "doy \<le> 365" using z by (simp add: year_start_Suc split: if_splits)
  from march_date_shape [OF z(2) this, of y0 y m d] d z(4)
  have "1 \<le> m" "m \<le> 12" "1 \<le> d" "d \<le> 31" by simp_all
  moreover have "civil_from_days 0 \<le> civil_from_days days"
    using civil_from_days_mono [of 0 days] assms by (cases "days = 0") auto
  moreover have "civil_from_days days \<le> civil_from_days 2932896"
    using civil_from_days_mono [of days 2932896] assms by (cases "days = 2932896") auto
  moreover have "civil_from_days 2932896 = (9999, 12, 31)" by code_simp
  ultimately show ?thesis
    by (auto simp: d civil_from_days_epoch four_digit_date_def less_eq_prod_def)
qed

lemma smod_nonneg: "0 \<le> a \<Longrightarrow> 0 < b \<Longrightarrow> a smod b = a mod (b :: int)"
  by (cases "a = 0") (simp_all add: signed_modulo_int_def)

lemma pad0_int_nonneg: "0 \<le> i \<Longrightarrow> pad0_int w i = pad0 w (nat i)"
  by (simp add: pad0_int_def)

lemma rfc3339_text:
  assumes "ms < year_10000_ms"
  shows "unix_ms_to_rfc3339 (Some ms) =
    date_text (civil_from_days (int (ms div 1000 div 86400))) @ ''T'' @ clock_text (ms div 1000 mod 86400) (ms mod 1000)"
proof -
  define t where "t = ms div 1000"
  have "t < 253402300800" using assms by (simp add: t_def less_mult_imp_div_less)
  then have sec: "try_from_or (- (2 ^ 63)) i64_max i64_max (int t) = int t" by (simp add: try_from_or_def)
  have day: "t div 86400 < 2932897" using \<open>t < 253402300800\<close> by (simp add: less_mult_imp_div_less)
  obtain y m d where c: "civil_from_days (int (t div 86400)) = (y, m, d)"
    by (cases "civil_from_days (int (t div 86400))")
  have four: "0 \<le> y" "0 \<le> m" "0 \<le> d"
    using civil_from_days_four_digits [of "int (t div 86400)"] day c by (simp_all add: four_digit_date_def)
  define s where "s = t mod 86400"
  have s: "s < 86400" by (simp add: s_def)
  have clock: "try_from_or 0 u32_max 0 (int s sdiv 3600) = int (s div 3600)"
    "try_from_or 0 u32_max 0 ((int s smod 3600) sdiv 60) = int (s mod 3600 div 60)"
    "try_from_or 0 u32_max 0 (int s smod 60) = int (s mod 60)"
    using s by (simp_all add: try_from_or_def sdiv_nonneg smod_nonneg zdiv_int zmod_int div_le_dividend
        order.strict_implies_order less_mult_imp_div_less)
  show ?thesis
    unfolding unix_ms_to_rfc3339_def unix_seconds_to_utc_def Let_def option.case t_def [symmetric] sec
      zdiv_int [of t 86400, simplified, symmetric] zmod_int [of t 86400, simplified, symmetric] c s_def [symmetric]
      prod.case clock
    by (simp add: date_text_def clock_text_def pad0_int_nonneg four)
qed

lemma pad_widths:
  "n < 100 \<Longrightarrow> length (pad0 2 n) = 2" "n < 1000 \<Longrightarrow> length (pad0 3 n) = 3"
  "0 \<le> i \<Longrightarrow> i < 10000 \<Longrightarrow> length (pad0 4 (nat i)) = 4" "0 \<le> i \<Longrightarrow> i < 100 \<Longrightarrow> length (pad0 2 (nat i)) = 2"
  using length_pad0 [of 2 n] length_pad0 [of 3 n] length_pad0 [of 4 "nat i"] length_pad0 [of 2 "nat i"]
  by (simp_all add: nat_less_iff)

lemma pad0_nat_less:
  "0 \<le> i \<Longrightarrow> i < j \<Longrightarrow> j < 10000 \<Longrightarrow> pad0 4 (nat i) < pad0 4 (nat j)"
  "0 \<le> i \<Longrightarrow> i < j \<Longrightarrow> j < 100 \<Longrightarrow> pad0 2 (nat i) < pad0 2 (nat j)"
  using pad0_less [of 4 "nat i" "nat j"] pad0_less [of 2 "nat i" "nat j"] by (simp_all add: nat_less_iff)

lemma date_text_less:
  assumes "four_digit_date a" "four_digit_date b" "a < b"
  shows "date_text a < date_text b"
proof -
  obtain y m d y' m' d' where ab: "a = (y, m, d)" "b = (y', m', d')" by (cases a; cases b)
  have "length (pad0 4 (nat y)) = length (pad0 4 (nat y'))" "length (pad0 2 (nat m)) = length (pad0 2 (nat m'))"
    using assms(1,2) by (simp_all add: ab four_digit_date_def pad_widths)
  note less = this [THEN list_less_append]
  consider "y < y'" | "y = y'" "m < m'" | "y = y'" "m = m'" "d < d'"
    using assms(3) by (auto simp: ab less_prod_def le_less)
  then show ?thesis
    using assms(1,2) by cases (simp_all add: ab date_text_def four_digit_date_def less pad0_nat_less)
qed

lemma length_date_text: "four_digit_date a \<Longrightarrow> length (date_text a) = 10"
  by (cases a) (simp add: date_text_def four_digit_date_def pad_widths)

lemma div_mod_less:
  assumes "a < (b :: nat)" "0 < n"
  obtains "a div n < b div n" | "a div n = b div n" "a mod n < b mod n"
proof (cases "a div n < b div n")
  case False
  then have eq: "a div n = b div n" using div_le_mono [of a b n] assms(1) by simp
  have "n * (b div n) + a mod n < n * (b div n) + b mod n"
    using assms(1) eq mult_div_mod_eq [of n a] mult_div_mod_eq [of n b] by metis
  with eq that(2) show thesis by simp
qed (rule that(1))

definition fields_text :: "nat \<Rightarrow> nat \<Rightarrow> nat \<Rightarrow> nat \<Rightarrow> string" where
  "fields_text h m s ms = pad0 2 h @ '':'' @ pad0 2 m @ '':'' @ pad0 2 s @ ''.'' @ pad0 3 ms @ ''Z''"

lemma clock_text_fields: "clock_text s k = fields_text (s div 3600) (s mod 3600 div 60) (s mod 60) k"
  by (simp add: clock_text_def fields_text_def)

lemma length_fields_text:
  "h < 100 \<Longrightarrow> m < 100 \<Longrightarrow> s < 100 \<Longrightarrow> k < 1000 \<Longrightarrow> length (fields_text h m s k) = 13"
  by (simp add: fields_text_def pad_widths)

lemma fields_text_less:
  assumes "h < 100" "m < 100" "s < 100" "k < 1000" "h' < 100" "m' < 100" "s' < 100" "k' < 1000"
    and "h < h' \<or> h = h' \<and> (m < m' \<or> m = m' \<and> (s < s' \<or> s = s' \<and> k < k'))"
  shows "fields_text h m s k < fields_text h' m' s' k'"
proof -
  have "length (pad0 2 h) = length (pad0 2 h')" "length (pad0 2 m) = length (pad0 2 m')"
    "length (pad0 2 s) = length (pad0 2 s')" "length (pad0 3 k) = length (pad0 3 k')"
    using assms by (simp_all add: pad_widths)
  note less = this [THEN list_less_append]
  show ?thesis
    using assms(9) pad0_less [of 2 h h'] pad0_less [of 2 m m'] pad0_less [of 2 s s'] pad0_less [of 3 k k'] assms(5-8)
    by (elim disjE conjE) (simp_all add: fields_text_def less)
qed

lemma clock_bounds: "s < 86400 \<Longrightarrow> s div 3600 < 100" "(s :: nat) mod 3600 div 60 < 100" "(s :: nat) mod 60 < 100"
  by (simp_all add: less_mult_imp_div_less less_trans [OF mod_less_divisor])

lemma clock_text_less:
  assumes "s < 86400" "s' < 86400" "k < 1000" "k' < 1000" "s < s' \<or> s = s' \<and> k < k'"
  shows "clock_text s k < clock_text s' k'"
proof -
  have "s div 3600 < s' div 3600 \<or> s div 3600 = s' div 3600 \<and>
        (s mod 3600 div 60 < s' mod 3600 div 60 \<or> s mod 3600 div 60 = s' mod 3600 div 60 \<and>
         (s mod 60 < s' mod 60 \<or> s mod 60 = s' mod 60 \<and> k < k'))"
  proof (cases "s = s'")
    case False
    then have "s < s'" using assms(5) by blast
    then consider "s div 3600 < s' div 3600" | "s div 3600 = s' div 3600" "s mod 3600 < s' mod 3600"
      by (rule div_mod_less [of s s' 3600]) simp_all
    then show ?thesis
    proof cases
      case 2
      from 2(2) consider "s mod 3600 div 60 < s' mod 3600 div 60"
        | "s mod 3600 div 60 = s' mod 3600 div 60" "s mod 3600 mod 60 < s' mod 3600 mod 60"
        by (rule div_mod_less [of "s mod 3600" "s' mod 3600" 60]) simp_all
      then show ?thesis using 2(1) by cases (auto simp: mod_mod_cancel)
    qed blast
  qed (use assms(5) in blast)
  then show ?thesis unfolding clock_text_fields
    by (intro fields_text_less clock_bounds assms(1-4))
qed

lemma rfc3339_less:
  assumes "a < b" "b < year_10000_ms"
  shows "unix_ms_to_rfc3339 (Some a) < unix_ms_to_rfc3339 (Some b)"
proof -
  define da db where "da = a div 1000 div 86400" and "db = b div 1000 div 86400"
  have "db < 2932897" using assms(2) by (simp add: db_def less_mult_imp_div_less)
  moreover have le: "da \<le> db" unfolding da_def db_def using assms(1) by (simp add: div_le_mono)
  ultimately have four: "four_digit_date (civil_from_days (int da))" "four_digit_date (civil_from_days (int db))"
    using civil_from_days_four_digits [of "int da"] civil_from_days_four_digits [of "int db"] by simp_all
  then have less: "(date_text (civil_from_days (int da)) @ xs < date_text (civil_from_days (int db)) @ ys) \<longleftrightarrow>
    date_text (civil_from_days (int da)) < date_text (civil_from_days (int db)) \<or>
    date_text (civil_from_days (int da)) = date_text (civil_from_days (int db)) \<and> xs < ys" for xs ys
    by (intro list_less_append) (simp add: length_date_text)
  show ?thesis
  proof (cases "da = db")
    case True
    have "a div 1000 mod 86400 < b div 1000 mod 86400 \<or>
          a div 1000 mod 86400 = b div 1000 mod 86400 \<and> a mod 1000 < b mod 1000"
      using assms(1)
    proof (rule div_mod_less [of a b 1000]; simp?)
      assume "a div 1000 < b div 1000"
      then show ?thesis using True unfolding da_def db_def by (rule_tac div_mod_less [of _ _ 86400]) auto
    qed
    then have "clock_text (a div 1000 mod 86400) (a mod 1000) < clock_text (b div 1000 mod 86400) (b mod 1000)"
      by (intro clock_text_less) simp_all
    with True show ?thesis
      using assms less by (auto simp: rfc3339_text simp flip: da_def db_def)
  next
    case False
    have "civil_from_days (int da) < civil_from_days (int db)"
      using civil_from_days_mono [of "int da" "int db"] False le \<open>db < 2932897\<close> by simp
    with date_text_less [OF four] show ?thesis using assms by (simp add: rfc3339_text less flip: da_def db_def)
  qed
qed

section \<open>Properties\<close>

text \<open>The date arithmetic of the snapshots is the Gregorian calendar. Day 0 is 1 January 1970, and
  for every day within nineteen hundred million years of it the date computed for the next day is
  the calendar's successor of its date: month lengths, leap years and the year's end included, and
  none of the conversions to narrower integers saturates.
\<close>

theorem civil_from_days_calendar:
  assumes "\<bar>days\<bar> < 700000000000"
  shows "civil_from_days 0 = (1970, 1, 1)
         \<and> civil_from_days (days + 1) = next_day (civil_from_days days)"
  using civil_from_days_epoch civil_from_days_step [OF assms] by simp

theorem civil_from_days_calendar_witness:
  "civil_from_days 11016 = (2000, 2, 29) \<and> civil_from_days (11016 + 1) = (2000, 3, 1)"
proof -
  have "civil_from_days 11016 = (2000, 2, 29)" by code_simp
  moreover have "next_day (2000, 2, 29) = (2000, 3, 1)" by code_simp
  ultimately show ?thesis using civil_from_days_calendar [of 11016] by simp
qed

text \<open>Timestamps sort as text. Before the year 10000 the RFC 3339 text of an instant has 24 bytes,
  and of two instants the earlier has the smaller text in byte order, so that comparing
  \<^verbatim>\<open>calculatedAt\<close> strings, in Rust or in SQL, compares the instants.
\<close>

theorem rfc3339_sorts_as_text:
  assumes "a < year_10000_ms" "b < year_10000_ms"
  shows "length (unix_ms_to_rfc3339 (Some a)) = 24
         \<and> (unix_ms_to_rfc3339 (Some a) < unix_ms_to_rfc3339 (Some b) \<longleftrightarrow> a < b)"
proof
  have "a div 1000 div 86400 < 2932897" using assms(1) by (simp add: less_mult_imp_div_less)
  then have "four_digit_date (civil_from_days (int (a div 1000 div 86400)))"
    by (intro civil_from_days_four_digits) simp_all
  moreover have "length (clock_text (a div 1000 mod 86400) (a mod 1000)) = 13"
    unfolding clock_text_fields by (intro length_fields_text clock_bounds) simp_all
  ultimately show "length (unix_ms_to_rfc3339 (Some a)) = 24"
    by (simp only: rfc3339_text [OF assms(1)] length_date_text length_append list.size)
  show "unix_ms_to_rfc3339 (Some a) < unix_ms_to_rfc3339 (Some b) \<longleftrightarrow> a < b"
    using rfc3339_less [of a b] rfc3339_less [of b a] assms
    by (cases a b rule: linorder_cases) auto
qed

theorem rfc3339_sorts_as_text_witness:
  "unix_ms_to_rfc3339 (Some 0) = ''1970-01-01T00:00:00.000Z''
   \<and> unix_ms_to_rfc3339 (Some 0) < unix_ms_to_rfc3339 (Some 1782864000123)"
proof -
  have "map digit_char [0, 1, 2, 3, 4, 5, 6, 7, 8, 9] = ''0123456789''" "replicate 2 (CHR ''0'') = ''00''" by code_simp+
  then have "date_text (1970, 1, 1) = ''1970-01-01''" "clock_text 0 0 = ''00:00:00.000Z''"
    by (simp_all add: date_text_def clock_text_def pad0_def dec.simps)
  then have "unix_ms_to_rfc3339 (Some 0) = ''1970-01-01T00:00:00.000Z''"
    by (simp add: rfc3339_text civil_from_days_epoch)
  then show ?thesis using rfc3339_sorts_as_text [of 0 1782864000123] by simp
qed

end
