(* ===== verification/Cleanliness.thy ===== *)
theory Cleanliness
  imports Proposal_Engine Timestamps Sample_World
begin

text \<open>
  The cleanliness score of a managed root (\<^verbatim>\<open>cleanliness.rs\<close>): the engine scans the root and
  proposes moves for it, and the snapshot counts the files without a proposal as managed, deducts
  points for the others, and carries a timestamp that never repeats within the process.

  Shown here: the counts add up, the score is within its range and is 100 exactly for a tidy root,
  more trouble never gives a better score, and the timestamps of successive snapshots increase
  strictly however threads race for the counter.
\<close>

section \<open>Snapshots\<close>

record CleanlinessDeduction =
  cd_reason_code :: string
  cd_count :: nat
  cd_points :: nat

record CleanlinessMetrics =
  cm_total_file_count :: nat
  cm_managed_file_count :: nat
  cm_unorganized_file_count :: nat
  cm_deductions :: "CleanlinessDeduction list"

record CleanlinessSnapshot =
  cs_formula_version :: string
  cs_score :: nat
  cs_metrics :: CleanlinessMetrics
  cs_calculated_at :: string

definition CLEANLINESS_FORMULA_VERSION :: string where
  "CLEANLINESS_FORMULA_VERSION = ''mousekeeper-cleanliness-v1''"

abbreviation "u64_max \<equiv> 2 ^ 64 - 1 :: nat"

definition to_u64 :: "nat \<Rightarrow> nat" where
  "to_u64 n = (if n \<le> u64_max then n else u64_max)"

text \<open>\<^verbatim>\<open>u8::try_from(n).unwrap_or(d)\<close>.\<close>

definition to_u8_or :: "nat \<Rightarrow> nat \<Rightarrow> nat" where
  "to_u8_or d n = (if n \<le> 255 then n else d)"

definition ratio_points :: "nat \<Rightarrow> nat \<Rightarrow> nat \<Rightarrow> nat" where
  "ratio_points items total_files max_points =
     (if total_files = 0 \<or> items = 0 then 0
      else let raw = items * max_points;
               rounded_up = (if raw mod total_files = 0 then raw div total_files else raw div total_files + 1)
           in to_u8_or max_points (min rounded_up max_points))"

definition capped_points :: "nat \<Rightarrow> nat \<Rightarrow> nat \<Rightarrow> nat" where
  "capped_points items points_per_item cap =
     (let points = min (items * points_per_item) u64_max in to_u8_or cap (min points cap))"

definition cleanliness_deductions :: "nat \<Rightarrow> nat \<Rightarrow> nat \<Rightarrow> nat \<Rightarrow> CleanlinessDeduction list" where
  "cleanliness_deductions total_file_count unorganized_file_count skipped_count collision_count =
     (if total_file_count > 0 \<and> unorganized_file_count > 0
      then [\<lparr>cd_reason_code = ''UNORGANIZED_FILES'', cd_count = unorganized_file_count,
             cd_points = ratio_points unorganized_file_count total_file_count 70\<rparr>] else [])
     @ (if skipped_count > 0
        then [\<lparr>cd_reason_code = ''UNREADABLE_OR_UNSAFE_ENTRIES'', cd_count = skipped_count,
               cd_points = capped_points skipped_count 5 20\<rparr>] else [])
     @ (if collision_count > 0
        then [\<lparr>cd_reason_code = ''PROPOSAL_CONFLICTS'', cd_count = collision_count,
               cd_points = capped_points collision_count 10 20\<rparr>] else [])"

text \<open>The sum is a \<^verbatim>\<open>u16\<close>; three deductions of at most 255 points cannot overflow it.\<close>

definition cleanliness_score :: "CleanlinessDeduction list \<Rightarrow> nat" where
  "cleanliness_score deductions =
     (let deducted_points = fold (\<lambda>deduction sum. sum + cd_points deduction) deductions 0
      in min (100 - deducted_points) 100)"

section \<open>The clock\<close>

text \<open>\<open>observed\<close> is what the failing \<^verbatim>\<open>compare_exchange_weak\<close> calls of one invocation read: the
  values other threads have stored meanwhile, or the same value when the exchange fails
  spuriously. The exchange that succeeds stores the candidate.\<close>

fun exchange_loop :: "nat \<Rightarrow> nat \<Rightarrow> nat list \<Rightarrow> nat" where
  "exchange_loop now previous [] = max now (min (previous + 1) u64_max)"
| "exchange_loop now previous (value # observed) = exchange_loop now value observed"

definition monotonic_unix_ms :: "nat \<Rightarrow> nat list \<Rightarrow> nat \<Rightarrow> nat" where
  "monotonic_unix_ms now observed last_snapshot_unix_ms =
     exchange_loop (to_u64 now) last_snapshot_unix_ms observed"

section \<open>Calculating a snapshot\<close>

definition snapshot_of :: "AnalyzeReport \<Rightarrow> ProposalReport \<Rightarrow> nat \<Rightarrow> CleanlinessSnapshot" where
  "snapshot_of analysis proposal ms =
     (let total_file_count = to_u64 (length (ar_files analysis));
          unorganized_file_count = to_u64 (length (pr_proposals proposal));
          collision_count = to_u64 (length (filter (\<lambda>item. p_status item = ProposalStatus.DestinationExists)
                                              (pr_proposals proposal)));
          skipped_count = to_u64 (length (ar_skipped_entries analysis));
          managed_file_count = total_file_count - unorganized_file_count;
          deductions = cleanliness_deductions total_file_count unorganized_file_count skipped_count
                         collision_count
      in \<lparr>cs_formula_version = CLEANLINESS_FORMULA_VERSION,
          cs_score = cleanliness_score deductions,
          cs_metrics = \<lparr>cm_total_file_count = total_file_count,
                        cm_managed_file_count = managed_file_count,
                        cm_unorganized_file_count = unorganized_file_count,
                        cm_deductions = deductions\<rparr>,
          cs_calculated_at = unix_ms_to_rfc3339 (Some ms)\<rparr>)"

text \<open>The state is the world and the static \<^verbatim>\<open>LAST_SNAPSHOT_UNIX_MS\<close>.\<close>

definition calculate_cleanliness_snapshot ::
    "(string \<Rightarrow> string + RuleSet) \<Rightarrow> string \<Rightarrow> nat \<Rightarrow> world
       \<Rightarrow> ((string + CleanlinessSnapshot) \<times> nat \<times> world) option" where
  "calculate_cleanliness_snapshot parse_rules root previous w =
     (case analyze_root w root of
        None \<Rightarrow> None
      | Some (Inl error) \<Rightarrow> Some (Inl (analyze_error_to_string error), previous, w)
      | Some (Inr analysis) \<Rightarrow>
          (case propose_for_analysis parse_rules root analysis w of
             (Inl error, w1) \<Rightarrow> Some (Inl (proposal_error_to_string error), previous, w1)
           | (Inr proposal, w1) \<Rightarrow>
               (case unix_ms w1 of
                  (Inl error, w2) \<Rightarrow> Some (Inl error, previous, w2)
                | (Inr now, w2) \<Rightarrow>
                    (let ms = monotonic_unix_ms now [] previous
                     in Some (Inr (snapshot_of analysis proposal ms), ms, w2)))))"

section \<open>The score\<close>

lemma ratio_points_le: "ratio_points items total_files m \<le> m"
  by (simp add: ratio_points_def to_u8_or_def Let_def)

lemma ratio_points_pos:
  assumes "0 < items" "0 < total_files" "0 < m" "m \<le> 255"
  shows "0 < ratio_points items total_files m"
proof -
  have "0 < (if items * m mod total_files = 0 then items * m div total_files else items * m div total_files + 1)"
    using assms by (auto simp: div_greater_zero_iff dvd_imp_le intro!: Nat.gr0I)
  with assms show ?thesis by (simp add: ratio_points_def to_u8_or_def Let_def)
qed

lemma capped_points_le: "capped_points items p cap \<le> cap"
  by (simp add: capped_points_def to_u8_or_def Let_def)

lemma capped_points_pos: "0 < items \<Longrightarrow> 0 < p \<Longrightarrow> 0 < cap \<Longrightarrow> cap \<le> 255 \<Longrightarrow> 0 < capped_points items p cap"
  by (simp add: capped_points_def to_u8_or_def Let_def)

definition total_deduction :: "nat \<Rightarrow> nat \<Rightarrow> nat \<Rightarrow> nat \<Rightarrow> nat" where
  "total_deduction total_files unorganized skipped collisions =
     (if total_files > 0 then ratio_points unorganized total_files 70 else 0)
     + capped_points skipped 5 20 + capped_points collisions 10 20"

lemma no_points [simp]: "ratio_points 0 n m = 0" "capped_points 0 p cap = 0"
  by (simp_all add: ratio_points_def capped_points_def to_u8_or_def)

lemma fold_points: "fold (\<lambda>d sum. sum + cd_points d) ds n = n + sum_list (map cd_points ds)"
  by (induction ds arbitrary: n) simp_all

lemma cleanliness_score_sum: "cleanliness_score ds = 100 - sum_list (map cd_points ds)"
  by (simp add: cleanliness_score_def fold_points)

lemma cleanliness_score_total:
  "cleanliness_score (cleanliness_deductions total_files unorganized skipped collisions)
     = 100 - total_deduction total_files unorganized skipped collisions"
  by (simp add: cleanliness_score_sum cleanliness_deductions_def total_deduction_def add.assoc)

lemma ceiling_mono:
  assumes "a \<le> (b :: nat)"
  shows "(if a mod n = 0 then a div n else a div n + 1) \<le> (if b mod n = 0 then b div n else b div n + 1)"
proof (cases "a div n = b div n")
  case True
  have "n * (b div n) + a mod n \<le> n * (b div n) + b mod n"
    using assms True by (metis mult_div_mod_eq)
  then have "a mod n \<le> b mod n" by (simp only: add_le_cancel_left)
  with True show ?thesis by auto
next
  case False
  then have "a div n < b div n" using div_le_mono [OF assms, of n] by simp
  then show ?thesis by auto
qed

lemma ratio_points_mono: "a \<le> b \<Longrightarrow> m \<le> 255 \<Longrightarrow> ratio_points a n m \<le> ratio_points b n m"
  using ceiling_mono [of "a * m" "b * m" n]
  by (auto simp: ratio_points_def to_u8_or_def Let_def min_def)

lemma capped_points_mono: "a \<le> b \<Longrightarrow> cap \<le> 255 \<Longrightarrow> capped_points a p cap \<le> capped_points b p cap"
proof -
  assume "a \<le> b" and cap: "cap \<le> 255"
  then have "a * p \<le> b * p" by simp
  then have "min (min (a * p) u64_max) cap \<le> min (min (b * p) u64_max) cap" by (intro min.mono order_refl)
  moreover have "min x cap \<le> 255" for x using cap by simp
  ultimately show ?thesis by (simp only: capped_points_def to_u8_or_def Let_def if_True)
qed

lemma total_deduction_zero:
  "total_deduction t u s c = 0 \<longleftrightarrow> (t = 0 \<or> u = 0) \<and> s = 0 \<and> c = 0"
proof -
  have "capped_points s 5 20 = 0 \<longleftrightarrow> s = 0" using capped_points_pos [of s 5 20] by (cases "s = 0") simp_all
  moreover have "capped_points c 10 20 = 0 \<longleftrightarrow> c = 0" using capped_points_pos [of c 10 20] by (cases "c = 0") simp_all
  moreover have "ratio_points u t 70 = 0 \<longleftrightarrow> t = 0 \<or> u = 0"
    using ratio_points_pos [of u t 70] by (cases "t = 0 \<or> u = 0") (auto simp: ratio_points_def)
  ultimately show ?thesis by (auto simp: total_deduction_def)
qed

lemma to_u64_simps [simp]: "to_u64 n = 0 \<longleftrightarrow> n = 0" "to_u64 0 = 0"
  by (simp_all add: to_u64_def)

lemma to_u64_mono: "a \<le> b \<Longrightarrow> to_u64 a \<le> to_u64 b"
  by (simp add: to_u64_def)

lemma length_filter_new: "length (filter_new key seen xs) \<le> length xs"
  by (induction key seen xs rule: filter_new.induct) (auto simp: le_SucI)

lemma proposals_le_files:
  assumes "propose_for_analysis parse_rules root analysis w = (Inr proposal, w')"
  shows "length (pr_proposals proposal) \<le> length (ar_files analysis)"
proof -
  obtain rs where "propose_for_analysis_with_rule_set analysis rs w = (Inr proposal, w')"
    using assms by (auto simp: propose_for_analysis_def bindA_Inr_iff readA_def)
  then have "pr_proposals proposal = filter_new p_proposal_id {} (List.map_filter
      (\<lambda>file. propose rs file (report_context analysis (w_clock w (w_tick w) div 1000000))) (ar_files analysis))"
    by (rule propose_for_analysis_ok)
  moreover have "length (List.map_filter f xs) \<le> length xs" for f and xs :: "FileEntry list"
    by (simp add: map_filter_def)
  ultimately show ?thesis using length_filter_new le_trans by metis
qed

section \<open>Properties\<close>

text \<open>A cleanliness snapshot accounts for the root. When it is calculated, every file the scan found
  is counted either as managed or as unorganised; the score is between 0 and 100, is what the
  deductions leave of 100, and is 100 exactly when nothing was proposed and nothing was skipped; and
  its timestamp is later than that of the snapshot before it.
\<close>

theorem snapshot_accounts:
  assumes "calculate_cleanliness_snapshot parse_rules root previous w = Some (Inr snapshot, ms, w')"
    and "previous < u64_max"
  shows "\<exists>analysis proposal w1.
     analyze_root w root = Some (Inr analysis)
     \<and> propose_for_analysis parse_rules root analysis w = (Inr proposal, w1)
     \<and> (length (ar_files analysis) \<le> u64_max \<longrightarrow>
          cm_total_file_count (cs_metrics snapshot) = length (ar_files analysis))
     \<and> cm_managed_file_count (cs_metrics snapshot) + cm_unorganized_file_count (cs_metrics snapshot)
         = cm_total_file_count (cs_metrics snapshot)
     \<and> cs_score snapshot = 100 - sum_list (map cd_points (cm_deductions (cs_metrics snapshot)))
     \<and> (cs_score snapshot = 100 \<longleftrightarrow> pr_proposals proposal = [] \<and> ar_skipped_entries analysis = [])
     \<and> cs_calculated_at snapshot = unix_ms_to_rfc3339 (Some ms) \<and> previous < ms"
proof -
  obtain analysis proposal w1 where
    run: "analyze_root w root = Some (Inr analysis)"
      "propose_for_analysis parse_rules root analysis w = (Inr proposal, w1)"
      "ms = monotonic_unix_ms (w_clock w1 (w_tick w1) div 1000000) [] previous"
      "snapshot = snapshot_of analysis proposal ms"
    using assms(1) unfolding calculate_cleanliness_snapshot_def
    by (auto simp: unix_ms_def Let_def split: option.splits sum.splits prod.splits)
  have le: "length (pr_proposals proposal) \<le> length (ar_files analysis)" by (rule proposals_le_files [OF run(2)])
  have "cs_score snapshot = 100 \<longleftrightarrow> pr_proposals proposal = [] \<and> ar_skipped_entries analysis = []"
  proof -
    let ?d = "total_deduction (to_u64 (length (ar_files analysis))) (to_u64 (length (pr_proposals proposal)))
      (to_u64 (length (ar_skipped_entries analysis)))
      (to_u64 (length (filter (\<lambda>item. p_status item = ProposalStatus.DestinationExists) (pr_proposals proposal))))"
    have "cs_score snapshot = 100 - ?d" by (simp add: run(4) snapshot_of_def Let_def cleanliness_score_total)
    then have "cs_score snapshot = 100 \<longleftrightarrow> ?d = 0" by (cases "?d = 0") simp_all
    also have "\<dots> \<longleftrightarrow> pr_proposals proposal = [] \<and> ar_skipped_entries analysis = []"
      unfolding total_deduction_zero using le by (cases "pr_proposals proposal") auto
    finally show ?thesis .
  qed
  moreover have "cs_score snapshot = 100 - sum_list (map cd_points (cm_deductions (cs_metrics snapshot)))"
    by (simp add: run(4) snapshot_of_def Let_def cleanliness_score_sum)
  moreover have "previous < ms" using assms(2) by (simp add: run(3) monotonic_unix_ms_def)
  moreover have "cm_managed_file_count (cs_metrics snapshot) + cm_unorganized_file_count (cs_metrics snapshot)
      = cm_total_file_count (cs_metrics snapshot)"
    using to_u64_mono [OF le] by (simp add: run(4) snapshot_of_def Let_def)
  moreover have "length (ar_files analysis) \<le> u64_max \<longrightarrow>
          cm_total_file_count (cs_metrics snapshot) = length (ar_files analysis)"
    by (simp add: run(4) snapshot_of_def Let_def to_u64_def)
  ultimately show ?thesis using run by (auto simp: snapshot_of_def Let_def)
qed

definition no_rule_file :: "string \<Rightarrow> string + RuleSet" where
  "no_rule_file content = Inl ''no rule file is read here''"

theorem snapshot_accounts_witness:
  "\<exists>snapshot ms w'. calculate_cleanliness_snapshot no_rule_file ''/home/box'' 0 sample_world = Some (Inr snapshot, ms, w')
     \<and> cs_score snapshot \<le> 100 \<and> 0 < ms"
proof -
  obtain analysis where analysis: "analyze_root sample_world ''/home/box'' = Some (Inr analysis)"
    by (rule sample_report)
  have rules: "load_rule_set_for_root no_rule_file sample_world ''/home/box'' = Inr default_rule_set"
    by code_simp
  have "rule_set_validate default_rule_set = Inr ()" by code_simp
  then obtain snapshot ms w' where
    run: "calculate_cleanliness_snapshot no_rule_file ''/home/box'' 0 sample_world = Some (Inr snapshot, ms, w')"
    by (simp add: calculate_cleanliness_snapshot_def analysis propose_for_analysis_def bindA_def readA_def
        rules propose_for_analysis_with_rule_set_def unix_ms_def Let_def)
  show ?thesis using snapshot_accounts [OF run] run by auto
qed

text \<open>
  The score is fair. For the same number of files, more unorganised files, more skipped entries
  and more conflicting proposals never give a higher score, and each kind of trouble that is present
  costs at least one point and at most its cap of 70, 20 and 20 points.
\<close>

theorem cleanliness_score_antitone:
  assumes "u \<le> u'" "s \<le> s'" "c \<le> c'"
  shows "cleanliness_score (cleanliness_deductions n u' s' c') \<le> cleanliness_score (cleanliness_deductions n u s c)
    \<and> (\<forall>d \<in> set (cleanliness_deductions n u s c).
         0 < cd_points d \<and> cd_points d \<le> (if cd_reason_code d = ''UNORGANIZED_FILES'' then 70 else 20))"
proof
  have "total_deduction n u s c \<le> total_deduction n u' s' c'"
    using assms ratio_points_mono [of u u' 70 n] capped_points_mono [of s s' 20 5] capped_points_mono [of c c' 20 10]
    by (simp add: total_deduction_def add_mono)
  then show "cleanliness_score (cleanliness_deductions n u' s' c') \<le> cleanliness_score (cleanliness_deductions n u s c)"
    by (simp add: cleanliness_score_total diff_le_mono2)
  show "\<forall>d \<in> set (cleanliness_deductions n u s c).
         0 < cd_points d \<and> cd_points d \<le> (if cd_reason_code d = ''UNORGANIZED_FILES'' then 70 else 20)"
    using ratio_points_pos [of u n 70] ratio_points_le [of u n 70] capped_points_pos [of s 5 20]
      capped_points_le [of s 5 20] capped_points_pos [of c 10 20] capped_points_le [of c 10 20]
    by (auto simp: cleanliness_deductions_def)
qed

theorem cleanliness_score_antitone_witness:
  "cleanliness_score (cleanliness_deductions 10 4 2 1) \<le> cleanliness_score (cleanliness_deductions 10 3 0 0)
   \<and> cleanliness_score (cleanliness_deductions 10 3 0 0) = 79"
proof -
  have "ratio_points 3 10 70 = 21" by (simp add: ratio_points_def to_u8_or_def)
  then have "cleanliness_score (cleanliness_deductions 10 3 0 0) = 79"
    by (simp add: cleanliness_score_total total_deduction_def)
  then show ?thesis using cleanliness_score_antitone [of 3 4 0 2 0 1 10] by simp
qed

text \<open>The timestamps of a process never repeat. Whatever values the failing exchanges of an
  invocation observe, the value it stores and returns is greater than the one it replaces, the last
  one observed, as long as that is below the largest \<^verbatim>\<open>u64\<close>, and is not before the wall clock's.
\<close>

theorem monotonic_unix_ms_increases:
  assumes "last (previous # observed) < u64_max"
  shows "last (previous # observed) < monotonic_unix_ms now observed previous
         \<and> (now \<le> u64_max \<longrightarrow> now \<le> monotonic_unix_ms now observed previous)"
proof -
  have "exchange_loop n p obs = max n (min (last (p # obs) + 1) u64_max)" for n p obs
    by (induction n p obs rule: exchange_loop.induct) auto
  with assms show ?thesis by (simp add: monotonic_unix_ms_def to_u64_def)
qed

theorem monotonic_unix_ms_increases_witness:
  "(500 :: nat) < monotonic_unix_ms 400 [450, 500] 440 \<and> 400 \<le> monotonic_unix_ms 400 [450, 500] 440"
  using monotonic_unix_ms_increases [of 440 "[450, 500]" 400] by simp

end
