(* ===== verification/Sample_Codec.thy ===== *)
theory Sample_Codec
  imports Codec Cleanliness
begin

text \<open>The snapshots of \<^verbatim>\<open>cleanliness.rs\<close> in the text format of the codec combinators.\<close>

section \<open>Snapshots\<close>

definition deduction_parts :: "CleanlinessDeduction \<Rightarrow> string \<times> nat \<times> nat" where
  "deduction_parts d = (cd_reason_code d, cd_count d, cd_points d)"

definition deduction_of_parts :: "string \<times> nat \<times> nat \<Rightarrow> CleanlinessDeduction" where
  "deduction_of_parts = (\<lambda>(r, c, p). \<lparr>cd_reason_code = r, cd_count = c, cd_points = p\<rparr>)"

definition put_deduction :: "CleanlinessDeduction printer" where
  "put_deduction = put_pair put_string (put_pair put_nat put_nat) \<circ> deduction_parts"

definition get_deduction :: "CleanlinessDeduction parser" where
  "get_deduction = get_map deduction_of_parts (get_pair get_string (get_pair get_nat get_nat))"

definition snapshot_parts ::
    "CleanlinessSnapshot \<Rightarrow> string \<times> nat \<times> (nat \<times> nat \<times> nat \<times> CleanlinessDeduction list) \<times> string" where
  "snapshot_parts s = (let m = cs_metrics s in (cs_formula_version s, cs_score s,
     (cm_total_file_count m, cm_managed_file_count m, cm_unorganized_file_count m, cm_deductions m),
     cs_calculated_at s))"

definition snapshot_of_parts ::
    "string \<times> nat \<times> (nat \<times> nat \<times> nat \<times> CleanlinessDeduction list) \<times> string \<Rightarrow> CleanlinessSnapshot" where
  "snapshot_of_parts = (\<lambda>(v, s, (t, m, u, d), a).
     \<lparr>cs_formula_version = v, cs_score = s,
      cs_metrics = \<lparr>cm_total_file_count = t, cm_managed_file_count = m, cm_unorganized_file_count = u,
                    cm_deductions = d\<rparr>,
      cs_calculated_at = a\<rparr>)"

definition put_snapshot :: "CleanlinessSnapshot printer" where
  "put_snapshot = put_pair put_string (put_pair put_nat
     (put_pair (put_pair put_nat (put_pair put_nat (put_pair put_nat (put_list put_deduction)))) put_string)) \<circ> snapshot_parts"

definition get_snapshot_text :: "CleanlinessSnapshot parser" where
  "get_snapshot_text = get_map snapshot_of_parts (get_pair get_string (get_pair get_nat
     (get_pair (get_pair get_nat (get_pair get_nat (get_pair get_nat (get_list get_deduction)))) get_string)))"

lemma codec_deduction [intro]: "codec put_deduction get_deduction"
  unfolding put_deduction_def get_deduction_def
  by (intro codec_map codec_pair codec_string codec_nat) (simp add: deduction_parts_def deduction_of_parts_def)

lemma codec_snapshot [intro]: "codec put_snapshot get_snapshot_text"
  unfolding put_snapshot_def get_snapshot_text_def
  by (intro codec_map codec_pair codec_string codec_nat codec_list codec_deduction)
    (simp add: snapshot_parts_def snapshot_of_parts_def Let_def)

end
