(* ===== verification/Snapshot_Store.thy ===== *)
theory Snapshot_Store
  imports Desktop Sample_Codec
begin

text \<open>
  The store of the latest snapshot per root (\<^verbatim>\<open>storage/cleanliness_snapshots.rs\<close>): a table of JSON
  texts, and a copy of it in memory that the dashboard reads.

  Shown here: memory and table agree after any sequence of calls, failing ones included, so that a
  restart shows the snapshots the last process showed; and a stored snapshot is only ever replaced
  by one with a later timestamp.
\<close>

section \<open>The store\<close>

record snapshot_row =
  sr_root_id :: string
  sr_calculated_at :: string
  sr_snapshot_json :: string

record snapshot_store =
  ss_snapshots :: "string \<rightharpoonup> CleanlinessSnapshot"
  ss_db :: "snapshot_row list store"

text \<open>\<^verbatim>\<open>serde_json\<close> is the pair of functions \<open>encode\<close> and \<open>decode\<close>.\<close>

definition snapshot_rows ::
    "(string \<Rightarrow> string + CleanlinessSnapshot) \<Rightarrow> snapshot_row list \<Rightarrow> string + (string \<times> CleanlinessSnapshot) list" where
  "snapshot_rows decode rows =
     collect_results (map (\<lambda>row. case decode (sr_snapshot_json row) of
         Inl error \<Rightarrow> Inl (''cannot decode cleanliness snapshot: '' @ error)
       | Inr snapshot \<Rightarrow> Inr (sr_root_id row, snapshot)) (sort_key sr_root_id rows))"

definition load_snapshots ::
    "(string \<Rightarrow> string + CleanlinessSnapshot) \<Rightarrow> snapshot_row list option \<Rightarrow> snapshot_store
       \<Rightarrow> (string + unit) \<times> snapshot_store" where
  "load_snapshots decode disk s =
     (let rows = (case disk of None \<Rightarrow> [] | Some rows \<Rightarrow> rows)
      in case execute_sql [[], ''cannot migrate cleanliness snapshots: '', ''cannot read cleanliness snapshots: '']
               (\<lambda>t. (t, t)) rows (ss_db s) of
           (Inl e, db) \<Rightarrow> (Inl e, s\<lparr>ss_db := (ss_db s)\<lparr>st_faults := st_faults db\<rparr>\<rparr>)
         | (Inr loaded, db) \<Rightarrow>
             (case snapshot_rows decode loaded of
                Inl e \<Rightarrow> (Inl e, s\<lparr>ss_db := (ss_db s)\<lparr>st_faults := st_faults db\<rparr>\<rparr>)
              | Inr entries \<Rightarrow>
                  (Inr (), s\<lparr>ss_db := db, ss_snapshots := map_of (rev entries)\<rparr>)))"

definition upsert_newer :: "snapshot_row \<Rightarrow> snapshot_row list \<Rightarrow> bool \<times> snapshot_row list" where
  "upsert_newer new rows =
     (case find (\<lambda>row. sr_root_id row = sr_root_id new) rows of
        None \<Rightarrow> (True, rows @ [new])
      | Some old \<Rightarrow>
          if sr_calculated_at old < sr_calculated_at new
          then (True, map (\<lambda>row. if sr_root_id row = sr_root_id new then new else row) rows)
          else (False, rows))"

definition save_latest ::
    "(CleanlinessSnapshot \<Rightarrow> string) \<Rightarrow> string \<Rightarrow> CleanlinessSnapshot \<Rightarrow> snapshot_store
       \<Rightarrow> (string + bool) \<times> snapshot_store" where
  "save_latest encode root_id snapshot s =
     (if root_id = [] then (Inl ''cleanliness snapshot root id cannot be empty'', s)
      else if (case ss_snapshots s root_id of
                 Some current \<Rightarrow> cs_calculated_at snapshot \<le> cs_calculated_at current | None \<Rightarrow> False)
      then (Inr False, s)
      else case st_pool (ss_db s) of
             None \<Rightarrow> (Inl ''cleanliness snapshot database is not initialized'', s)
           | Some rows \<Rightarrow>
               (case execute_sql [''cannot persist cleanliness snapshot: '']
                       (upsert_newer \<lparr>sr_root_id = root_id, sr_calculated_at = cs_calculated_at snapshot,
                                      sr_snapshot_json = encode snapshot\<rparr>) rows (ss_db s) of
                  (Inl e, db) \<Rightarrow> (Inl e, s\<lparr>ss_db := db\<rparr>)
                | (Inr changed, db) \<Rightarrow>
                    (Inr changed,
                     s\<lparr>ss_db := db,
                       ss_snapshots := (if changed then (ss_snapshots s)(root_id \<mapsto> snapshot)
                                        else ss_snapshots s)\<rparr>)))"

definition get_snapshot :: "string \<Rightarrow> snapshot_store \<Rightarrow> string + CleanlinessSnapshot option" where
  "get_snapshot root_id s = Inr (ss_snapshots s root_id)"

section \<open>Memory and table\<close>

definition row_of :: "(CleanlinessSnapshot \<Rightarrow> string) \<Rightarrow> string \<Rightarrow> CleanlinessSnapshot \<Rightarrow> snapshot_row" where
  "row_of encode root_id snapshot =
     \<lparr>sr_root_id = root_id, sr_calculated_at = cs_calculated_at snapshot, sr_snapshot_json = encode snapshot\<rparr>"

definition mirrored :: "(CleanlinessSnapshot \<Rightarrow> string) \<Rightarrow> snapshot_store \<Rightarrow> bool" where
  "mirrored encode s \<longleftrightarrow>
     (case st_pool (ss_db s) of
        None \<Rightarrow> ss_snapshots s = Map.empty
      | Some rows \<Rightarrow> distinct (map sr_root_id rows)
          \<and> (\<forall>row. row \<in> set rows \<longleftrightarrow>
               (\<exists>snapshot. ss_snapshots s (sr_root_id row) = Some snapshot
                  \<and> row = row_of encode (sr_root_id row) snapshot)))"

lemma upsert_newer_absent:
  "sr_root_id new \<notin> sr_root_id ` set rows \<Longrightarrow> upsert_newer new rows = (True, rows @ [new])"
proof -
  assume "sr_root_id new \<notin> sr_root_id ` set rows"
  then have "find (\<lambda>row. sr_root_id row = sr_root_id new) rows = None"
    unfolding find_None_iff by (metis imageI)
  then show ?thesis by (simp add: upsert_newer_def)
qed

lemma upsert_newer_present:
  assumes "distinct (map sr_root_id rows)" "old \<in> set rows" "sr_root_id old = sr_root_id new"
    "sr_calculated_at old < sr_calculated_at new"
  shows "upsert_newer new rows = (True, map (\<lambda>row. if row = old then new else row) rows)"
proof -
  have same: "row \<in> set rows \<Longrightarrow> sr_root_id row = sr_root_id new \<Longrightarrow> row = old" for row
    using assms(1-3) by (auto simp: distinct_map inj_on_def)
  have "find (\<lambda>row. sr_root_id row = sr_root_id new) rows = Some old"
  proof (cases "find (\<lambda>row. sr_root_id row = sr_root_id new) rows")
    case None
    then show ?thesis using assms(2,3) by (auto simp: find_None_iff)
  next
    case (Some row)
    then have "row \<in> set rows" "sr_root_id row = sr_root_id new" by (auto simp: find_Some_iff)
    with same Some show ?thesis by simp
  qed
  moreover have "map (\<lambda>row. if sr_root_id row = sr_root_id new then new else row) rows
      = map (\<lambda>row. if row = old then new else row) rows"
    using same assms(3) by (intro map_cong refl if_cong) blast
  ultimately show ?thesis using assms(4) by (simp add: upsert_newer_def)
qed

lemma upsert_mirrored:
  assumes "mirrored encode s" "st_pool (ss_db s) = Some rows"
    and newer: "\<And>current. ss_snapshots s root_id = Some current \<Longrightarrow> cs_calculated_at current < cs_calculated_at snapshot"
    and up: "upsert_newer (row_of encode root_id snapshot) rows = (changed, rows')"
  shows "changed" "mirrored encode (s\<lparr>ss_db := (ss_db s)\<lparr>st_pool := Some rows', st_faults := fs\<rparr>,
                                     ss_snapshots := (ss_snapshots s)(root_id \<mapsto> snapshot)\<rparr>)"
proof -
  have dist: "distinct (map sr_root_id rows)"
    and rows: "\<And>row. row \<in> set rows \<longleftrightarrow> (\<exists>snap. ss_snapshots s (sr_root_id row) = Some snap \<and> row = row_of encode (sr_root_id row) snap)"
    using assms(1,2) by (simp_all add: mirrored_def)
  let ?new = "row_of encode root_id snapshot"
  have id [simp]: "sr_root_id (row_of encode r t) = r" for r t by (simp add: row_of_def)
  have "changed \<and> distinct (map sr_root_id rows') \<and> set rows' = {row \<in> set rows. sr_root_id row \<noteq> root_id} \<union> {?new}"
  proof (cases "ss_snapshots s root_id")
    case None
    then have "sr_root_id ?new \<notin> sr_root_id ` set rows" using rows by fastforce
    with up show ?thesis using dist by (auto simp: upsert_newer_absent)
  next
    case (Some current)
    let ?old = "row_of encode root_id current"
    have old: "?old \<in> set rows" using rows [of ?old] Some by simp
    have "sr_calculated_at ?old < sr_calculated_at ?new" using newer [OF Some] by (simp add: row_of_def)
    with upsert_newer_present [OF dist old] up
    have res: "changed" "rows' = map (\<lambda>row. if row = ?old then ?new else row) rows" by simp_all
    have same: "row \<in> set rows \<Longrightarrow> sr_root_id row = root_id \<longleftrightarrow> row = ?old" for row
      using dist old by (auto simp: distinct_map inj_on_def)
    have ids: "map sr_root_id rows' = map sr_root_id rows" using res(2) by auto
    have "set rows' = {row \<in> set rows. sr_root_id row \<noteq> root_id} \<union> {?new}"
      using same old unfolding res(2) by (auto simp: image_iff)
    with res(1) ids dist show ?thesis by simp
  qed
  then show "changed" "mirrored encode (s\<lparr>ss_db := (ss_db s)\<lparr>st_pool := Some rows', st_faults := fs\<rparr>,
                                     ss_snapshots := (ss_snapshots s)(root_id \<mapsto> snapshot)\<rparr>)"
    using rows by (auto simp: mirrored_def)
qed

lemma mirrored_faults [simp]:
  "mirrored encode (s\<lparr>ss_db := (ss_db s)\<lparr>st_faults := fs\<rparr>\<rparr>) = mirrored encode s"
  by (simp add: mirrored_def split: option.split)

text \<open>Either the call leaves the table and the memory alone, or it puts the snapshot in both.\<close>

lemma save_latest_cases:
  assumes "mirrored encode s"
  obtains fs where "snd (save_latest encode root_id snapshot s) = s\<lparr>ss_db := (ss_db s)\<lparr>st_faults := fs\<rparr>\<rparr>"
      "\<And>r. fst (save_latest encode root_id snapshot s) = Inr r \<Longrightarrow> \<not> r"
  | s' where "save_latest encode root_id snapshot s = (Inr True, s')" "mirrored encode s'"
      "ss_snapshots s' = (ss_snapshots s)(root_id \<mapsto> snapshot)"
      "\<And>current. ss_snapshots s root_id = Some current \<Longrightarrow> cs_calculated_at current < cs_calculated_at snapshot"
proof -
  have unchanged: "s = s\<lparr>ss_db := (ss_db s)\<lparr>st_faults := st_faults (ss_db s)\<rparr>\<rparr>" by simp
  show thesis
  proof (cases "root_id = [] \<or> (case ss_snapshots s root_id of
        Some current \<Rightarrow> cs_calculated_at snapshot \<le> cs_calculated_at current | None \<Rightarrow> False) \<or> st_pool (ss_db s) = None")
    case True
    then have "snd (save_latest encode root_id snapshot s) = s"
      "\<And>r. fst (save_latest encode root_id snapshot s) = Inr r \<Longrightarrow> \<not> r"
      by (auto simp: save_latest_def split: if_splits option.splits)
    with that(1) unchanged show thesis by metis
  next
    case False
    then obtain rows where rows: "st_pool (ss_db s) = Some rows" by auto
    have newer: "cs_calculated_at current < cs_calculated_at snapshot" if "ss_snapshots s root_id = Some current" for current
      using False that by auto
    let ?sql = "execute_sql [''cannot persist cleanliness snapshot: ''] (upsert_newer (row_of encode root_id snapshot)) rows (ss_db s)"
    have save: "save_latest encode root_id snapshot s =
      (case ?sql of (Inl e, db) \<Rightarrow> (Inl e, s\<lparr>ss_db := db\<rparr>)
       | (Inr changed, db) \<Rightarrow> (Inr changed, s\<lparr>ss_db := db, ss_snapshots :=
           (if changed then (ss_snapshots s)(root_id \<mapsto> snapshot) else ss_snapshots s)\<rparr>))"
      using False rows by (simp add: save_latest_def row_of_def)
    obtain changed rows' where up: "upsert_newer (row_of encode root_id snapshot) rows = (changed, rows')" by fastforce
    note mirrored' = upsert_mirrored [OF assms rows newer up]
    consider e fs where "?sql = (Inl e, (ss_db s)\<lparr>st_faults := fs\<rparr>)"
      | fs where "?sql = (Inr changed, (ss_db s)\<lparr>st_pool := Some rows', st_faults := fs\<rparr>)"
      using execute_sql_cases [OF rows, of _ "upsert_newer (row_of encode root_id snapshot)"] up by (metis fst_conv snd_conv)
    then show thesis
    proof cases
      case 1
      with save that(1) show thesis by simp
    next
      case (2 fs)
      with save mirrored' have "save_latest encode root_id snapshot s = (Inr True,
        s\<lparr>ss_db := (ss_db s)\<lparr>st_pool := Some rows', st_faults := fs\<rparr>, ss_snapshots := (ss_snapshots s)(root_id \<mapsto> snapshot)\<rparr>)"
        by simp
      from that(2) [OF this mirrored'(2) _ newer] show thesis by simp
    qed
  qed
qed

definition save_call :: "(CleanlinessSnapshot \<Rightarrow> string) \<Rightarrow> string \<times> CleanlinessSnapshot \<Rightarrow> snapshot_store \<Rightarrow> snapshot_store" where
  "save_call encode call s = snd (save_latest encode (fst call) (snd call) s)"

definition snapshots_advance :: "snapshot_store \<Rightarrow> snapshot_store \<Rightarrow> bool" where
  "snapshots_advance s s' \<longleftrightarrow>
     (\<forall>root_id current. ss_snapshots s root_id = Some current \<longrightarrow>
        (\<exists>later. ss_snapshots s' root_id = Some later
           \<and> (later = current \<or> cs_calculated_at current < cs_calculated_at later)))"

interpretation snapshot_saves: store_invariant "save_call encode" "\<lambda>_. True" "mirrored encode" for encode
proof
  fix c s assume "mirrored encode s"
  then show "mirrored encode (save_call encode c s)"
    by (rule save_latest_cases [of encode s "fst c" "snd c"]) (simp_all add: save_call_def \<open>mirrored encode s\<close>)
qed

lemma save_latest_only_newer:
  "ss_snapshots (save_call encode c s) = ss_snapshots s \<or>
   ss_snapshots (save_call encode c s) = (ss_snapshots s)(fst c \<mapsto> snd c)
   \<and> (\<forall>current. ss_snapshots s (fst c) = Some current \<longrightarrow> cs_calculated_at current < cs_calculated_at (snd c))"
  by (auto simp: save_call_def save_latest_def not_le split: option.splits prod.splits sum.splits)

interpretation snapshot_order: store_progress "save_call encode" snapshots_advance for encode
proof
  show "snapshots_advance s s" for s by (simp add: snapshots_advance_def)
  show "snapshots_advance s1 s3" if "snapshots_advance s1 s2" "snapshots_advance s2 s3" for s1 s2 s3
  proof (unfold snapshots_advance_def, intro allI impI)
    fix root_id current assume "ss_snapshots s1 root_id = Some current"
    then obtain mid where mid: "ss_snapshots s2 root_id = Some mid"
        "mid = current \<or> cs_calculated_at current < cs_calculated_at mid"
      using \<open>snapshots_advance s1 s2\<close> by (auto simp: snapshots_advance_def)
    moreover obtain new where "ss_snapshots s3 root_id = Some new" "new = mid \<or> cs_calculated_at mid < cs_calculated_at new"
      using \<open>snapshots_advance s2 s3\<close> mid(1) unfolding snapshots_advance_def by blast
    ultimately show "\<exists>later. ss_snapshots s3 root_id = Some later
            \<and> (later = current \<or> cs_calculated_at current < cs_calculated_at later)"
      by (auto intro: less_trans)
  qed
  show "snapshots_advance s (save_call encode c s)" for s c
    using save_latest_only_newer [of encode c s] unfolding snapshots_advance_def by auto
qed

lemma snapshot_rows_mirrored:
  assumes "\<And>snapshot. decode (encode snapshot) = Inr snapshot"
    and "\<And>row. row \<in> set rows \<Longrightarrow> \<exists>snapshot. mem (sr_root_id row) = Some snapshot \<and> row = row_of encode (sr_root_id row) snapshot"
  shows "snapshot_rows decode rows = Inr (map (\<lambda>row. (sr_root_id row, the (mem (sr_root_id row)))) (sort_key sr_root_id rows))"
proof -
  have "(case decode (sr_snapshot_json row) of
           Inl error \<Rightarrow> Inl (''cannot decode cleanliness snapshot: '' @ error)
         | Inr snapshot \<Rightarrow> Inr (sr_root_id row, snapshot)) = Inr (sr_root_id row, the (mem (sr_root_id row)))"
    if row: "row \<in> set rows" for row
  proof -
    obtain snapshot where snap: "mem (sr_root_id row) = Some snapshot" "row = row_of encode (sr_root_id row) snapshot"
      using assms(2) [OF row] by blast
    from arg_cong [OF snap(2), of sr_snapshot_json] have "sr_snapshot_json row = encode snapshot" by (simp add: row_of_def)
    with snap(1) assms(1) show ?thesis by simp
  qed
  then show ?thesis by (auto simp: snapshot_rows_def collect_results_Inr_iff)
qed

lemma reload_mirrored:
  assumes "\<And>snapshot. decode (encode snapshot) = Inr snapshot"
    and "mirrored encode s" "st_pool (ss_db s) = Some rows"
  shows "\<exists>s'. load_snapshots decode (Some rows) \<lparr>ss_snapshots = Map.empty, ss_db = unopened []\<rparr> = (Inr (), s')
           \<and> ss_snapshots s' = ss_snapshots s \<and> mirrored encode s'"
proof -
  let ?entries = "map (\<lambda>row. (sr_root_id row, the (ss_snapshots s (sr_root_id row)))) (sort_key sr_root_id rows)"
  have dist: "distinct (map sr_root_id rows)"
    and rows: "\<And>row. row \<in> set rows \<longleftrightarrow> (\<exists>snap. ss_snapshots s (sr_root_id row) = Some snap \<and> row = row_of encode (sr_root_id row) snap)"
    using assms(2,3) by (simp_all add: mirrored_def)
  have entries: "snapshot_rows decode rows = Inr ?entries"
    using rows by (intro snapshot_rows_mirrored [OF assms(1)]) blast
  have "map_of (rev ?entries) = ss_snapshots s"
  proof
    fix root_id
    have keys: "distinct (map fst (rev ?entries))"
      using dist by (simp add: comp_def rev_map [symmetric] distinct_map_sort_key)
    show "map_of (rev ?entries) root_id = ss_snapshots s root_id"
    proof (cases "ss_snapshots s root_id")
      case None
      then have "root_id \<notin> fst ` set (rev ?entries)" using rows by auto
      then have "map_of (rev ?entries) root_id = None" by (simp only: map_of_eq_None_iff not_False_eq_True)
      with None show ?thesis by simp
    next
      case (Some snapshot)
      then have "row_of encode root_id snapshot \<in> set rows" using rows by (simp add: row_of_def)
      then have "(root_id, snapshot) \<in> set (rev ?entries)" using Some by (force simp: row_of_def)
      with keys Some show ?thesis by (metis map_of_is_SomeI)
    qed
  qed
  moreover have "mirrored encode (s\<lparr>ss_snapshots := ss_snapshots s, ss_db := opened_store rows\<rparr>)"
    using assms(2,3) by (simp add: mirrored_def)
  ultimately show ?thesis
    using entries dist rows
    by (simp add: load_snapshots_def unopened_def execute_sql_def mirrored_def)
qed

section \<open>Properties\<close>

text \<open>The dashboard's snapshots survive a restart. Start from an empty database and call
  \<^verbatim>\<open>save_latest\<close> any number of times, for any roots and with any of the writes failing: opening the
  database again puts exactly the snapshots into memory that were shown before. The hypothesis is
  that the JSON text of a snapshot reads back as the snapshot.
\<close>

theorem snapshots_survive_restart:
  assumes "\<And>snapshot. decode (encode snapshot) = Inr snapshot"
    and "st_pool db = Some []"
    and "s = fold (save_call encode) calls \<lparr>ss_snapshots = Map.empty, ss_db = db\<rparr>"
  shows "\<exists>rows s'. st_pool (ss_db s) = Some rows
           \<and> load_snapshots decode (Some rows) \<lparr>ss_snapshots = Map.empty, ss_db = unopened []\<rparr> = (Inr (), s')
           \<and> ss_snapshots s' = ss_snapshots s"
proof -
  have "mirrored encode s"
    unfolding assms(3) by (rule snapshot_saves.run_inv) (simp_all add: list_all_iff mirrored_def assms(2))
  moreover have "st_pool (ss_db s) \<noteq> None"
  proof -
    have "st_pool (ss_db (save_call encode c t)) \<noteq> None" if "st_pool (ss_db t) \<noteq> None" for c t
      using that by (auto simp: save_call_def save_latest_def execute_sql_def split: option.splits prod.splits sum.splits)
    then have "st_pool (ss_db (fold (save_call encode) cs t)) \<noteq> None" if "st_pool (ss_db t) \<noteq> None" for cs t
      using that by (induction cs arbitrary: t) simp_all
    with assms(2,3) show ?thesis by simp
  qed
  ultimately show ?thesis using reload_mirrored [OF assms(1)] by blast
qed

definition sample_snapshot :: "string \<Rightarrow> CleanlinessSnapshot" where
  "sample_snapshot at = \<lparr>cs_formula_version = CLEANLINESS_FORMULA_VERSION, cs_score = 79,
     cs_metrics = \<lparr>cm_total_file_count = 10, cm_managed_file_count = 7, cm_unorganized_file_count = 3,
                   cm_deductions = cleanliness_deductions 10 3 0 0\<rparr>,
     cs_calculated_at = at\<rparr>"

theorem snapshots_survive_restart_witness:
  "\<exists>s rows s'. s = fold (save_call put_snapshot) [(''a'', sample_snapshot ''1''), (''b'', sample_snapshot ''2''), (''a'', sample_snapshot ''3'')]
                    \<lparr>ss_snapshots = Map.empty, ss_db = \<lparr>st_pool = Some [], st_faults = [None, Some ''busy'']\<rparr>\<rparr>
     \<and> load_snapshots (decode_with get_snapshot_text) (Some rows) \<lparr>ss_snapshots = Map.empty, ss_db = unopened []\<rparr> = (Inr (), s')
     \<and> ss_snapshots s' = ss_snapshots s"
  using snapshots_survive_restart [OF decode_with_codec [OF codec_snapshot],
      of "\<lparr>st_pool = Some [], st_faults = [None, Some ''busy'']\<rparr>" _
         "[(''a'', sample_snapshot ''1''), (''b'', sample_snapshot ''2''), (''a'', sample_snapshot ''3'')]"]
  by auto

text \<open>
  The dashboard never goes back. After any sequence of \<^verbatim>\<open>save_latest\<close> calls, a root that had a
  snapshot still has one, and it is the same or one with a strictly later timestamp.
\<close>

theorem snapshots_never_go_back:
  assumes "ss_snapshots s root_id = Some current"
  shows "\<exists>newer. ss_snapshots (fold (save_call encode) calls s) root_id = Some newer
           \<and> (newer = current \<or> cs_calculated_at current < cs_calculated_at newer)"
  using snapshot_order.run_later [of s encode calls] assms unfolding snapshots_advance_def by blast

theorem snapshots_never_go_back_witness:
  "\<exists>newer. ss_snapshots (fold (save_call put_snapshot) [(''a'', sample_snapshot ''3''), (''a'', sample_snapshot ''1'')]
       \<lparr>ss_snapshots = [''a'' \<mapsto> sample_snapshot ''2''],
        ss_db = opened_store [row_of put_snapshot ''a'' (sample_snapshot ''2'')]\<rparr>) ''a'' = Some newer
     \<and> (newer = sample_snapshot ''2'' \<or> ''2'' < cs_calculated_at newer)"
  using snapshots_never_go_back [of "\<lparr>ss_snapshots = [''a'' \<mapsto> sample_snapshot ''2''],
        ss_db = opened_store [row_of put_snapshot ''a'' (sample_snapshot ''2'')]\<rparr>" "''a''" "sample_snapshot ''2''"
      put_snapshot "[(''a'', sample_snapshot ''3''), (''a'', sample_snapshot ''1'')]"]
  by (auto simp: sample_snapshot_def)

end
