(* ===== verification/Agent.thy ===== *)
theory Agent
  imports Desktop
begin

text \<open>
  The connection of the desktop to the MouseKeeper server (\<^verbatim>\<open>agent.rs\<close>): the device credential and
  its store, pairing, the connection state, the way a request is sent and its answer classified,
  and the calls that concern the device itself.

  The HTTP client with the server behind it, the URL parser, the canonical texts of status codes and
  \<^verbatim>\<open>serde_json\<close> are parameters, collected in a record. The server is a function of its own state, so
  that it may answer the same request differently each time. The operating system's keyring holds
  one text; each access to it may fail.
\<close>

section \<open>Errors\<close>

datatype AgentErrorCode =
  Unconfigured | ValidationFailed | TransportUnavailable | Unauthenticated | Forbidden
| InvalidResponse | CredentialStoreUnavailable

datatype AgentConnectionState = Unconfigured | Offline | Connecting | Online | Revoked

record AgentError =
  ae_code :: AgentErrorCode
  ae_message :: string
  ae_server_code :: "string option"

fun error_code_as_str :: "AgentErrorCode \<Rightarrow> string" where
  "error_code_as_str AgentErrorCode.Unconfigured = ''UNCONFIGURED''"
| "error_code_as_str ValidationFailed = ''VALIDATION_FAILED''"
| "error_code_as_str TransportUnavailable = ''TRANSPORT_UNAVAILABLE''"
| "error_code_as_str Unauthenticated = ''UNAUTHENTICATED''"
| "error_code_as_str Forbidden = ''FORBIDDEN''"
| "error_code_as_str InvalidResponse = ''INVALID_RESPONSE''"
| "error_code_as_str CredentialStoreUnavailable = ''CREDENTIAL_STORE_UNAVAILABLE''"

definition agent_error :: "AgentErrorCode \<Rightarrow> string \<Rightarrow> AgentError" where
  "agent_error code message = \<lparr>ae_code = code, ae_message = message, ae_server_code = None\<rparr>"

definition unconfigured_error :: "string \<Rightarrow> AgentError" where
  "unconfigured_error message = agent_error AgentErrorCode.Unconfigured message"

definition validation_error :: "string \<Rightarrow> AgentError" where
  "validation_error message = agent_error ValidationFailed message"

definition invalid_response_error :: "string \<Rightarrow> AgentError" where
  "invalid_response_error message = agent_error InvalidResponse message"

definition credential_error :: "string \<Rightarrow> AgentError" where
  "credential_error message = agent_error CredentialStoreUnavailable message"

definition is_transient :: "AgentError \<Rightarrow> bool" where
  "is_transient error \<longleftrightarrow> ae_code error = TransportUnavailable"

definition is_confirmed_device_absent :: "AgentError \<Rightarrow> bool" where
  "is_confirmed_device_absent error \<longleftrightarrow>
     ae_server_code error \<in> {Some ''DEVICE_REVOKED'', Some ''DEVICE_NOT_REGISTERED''}"

definition agent_error_to_string :: "AgentError \<Rightarrow> string" where
  "agent_error_to_string error = error_code_as_str (ae_code error) @ '': '' @ ae_message error"

section \<open>The environment\<close>

record http_request =
  rq_method :: string
  rq_url :: string
  rq_query :: "(string \<times> string) list"
  rq_bearer :: "string option"
  rq_idempotency_key :: "string option"
  rq_body :: "json option"

datatype http_reply = Unreachable | Reply nat string

record url =
  url_scheme :: string
  url_username :: string
  url_password :: "string option"
  url_host :: "string option"
  url_path :: string
  url_query :: "string option"
  url_fragment :: "string option"
  url_without_path :: string

record DeviceCredential =
  dc_server_base_url :: string
  dc_device_id :: string
  dc_device_token :: string

record ServerErrorResponse =
  se_code :: "string option"
  se_message :: "string option"

record 'n agent_env =
  env_http :: "http_request \<Rightarrow> 'n \<Rightarrow> http_reply \<times> 'n"
  env_status_text :: "nat \<Rightarrow> string"
  env_server_error :: "string \<Rightarrow> ServerErrorResponse option"
  env_parse_url :: "string \<Rightarrow> url option"
  env_encode_credential :: "DeviceCredential \<Rightarrow> string"
  env_decode_credential :: "string \<Rightarrow> DeviceCredential option"

record 'n agent =
  ag_server_base_url :: "string option"
  ag_credential :: "DeviceCredential option"
  ag_state :: AgentConnectionState
  ag_last_error :: "AgentError option"
  ag_keyring :: "string option"
  ag_keyring_faults :: "bool list"
  ag_net :: 'n

type_synonym ('n, 'a) agent_op = "'n agent \<Rightarrow> (AgentError + 'a) \<times> 'n agent"

definition SERVER_BASE_URL_ENV :: string where
  "SERVER_BASE_URL_ENV = ''MOUSEKEEPER_SERVER_BASE_URL''"

definition DEFAULT_SERVER_BASE_URL :: string where
  "DEFAULT_SERVER_BASE_URL = ''https://mousekeeper.madcamp-kaist.org''"

section \<open>The credential store\<close>

definition keyring_access :: "'n agent \<Rightarrow> bool \<times> 'n agent" where
  "keyring_access a =
     (case ag_keyring_faults a of
        [] \<Rightarrow> (True, a) | failed # rest \<Rightarrow> (\<not> failed, a\<lparr>ag_keyring_faults := rest\<rparr>))"

definition keyring_entry :: "('n, unit) agent_op" where
  "keyring_entry a =
     (case keyring_access a of
        (True, a1) \<Rightarrow> (Inr (), a1)
      | (False, a1) \<Rightarrow> (Inl (credential_error ''cannot access the operating system credential store''), a1))"

definition credential_load :: "'n agent_env \<Rightarrow> ('n, DeviceCredential option) agent_op" where
  "credential_load env a =
     (case keyring_entry a of
        (Inl e, a1) \<Rightarrow> (Inl e, a1)
      | (Inr _, a1) \<Rightarrow>
          (case keyring_access a1 of
             (False, a2) \<Rightarrow> (Inl (credential_error ''cannot read the saved device credential''), a2)
           | (True, a2) \<Rightarrow>
               (case ag_keyring a2 of
                  None \<Rightarrow> (Inr None, a2)
                | Some serialized \<Rightarrow>
                    (case env_decode_credential env serialized of
                       None \<Rightarrow> (Inl (credential_error ''the saved device credential is invalid''), a2)
                     | Some credential \<Rightarrow> (Inr (Some credential), a2)))))"

definition credential_save :: "'n agent_env \<Rightarrow> DeviceCredential \<Rightarrow> ('n, unit) agent_op" where
  "credential_save env credential a =
     (case keyring_entry a of
        (Inl e, a1) \<Rightarrow> (Inl e, a1)
      | (Inr _, a1) \<Rightarrow>
          (case keyring_access a1 of
             (False, a2) \<Rightarrow> (Inl (credential_error ''cannot save the device credential''), a2)
           | (True, a2) \<Rightarrow> (Inr (), a2\<lparr>ag_keyring := Some (env_encode_credential env credential)\<rparr>)))"

definition credential_delete :: "('n, unit) agent_op" where
  "credential_delete a =
     (case keyring_entry a of
        (Inl e, a1) \<Rightarrow> (Inl e, a1)
      | (Inr _, a1) \<Rightarrow>
          (case keyring_access a1 of
             (False, a2) \<Rightarrow> (Inl (credential_error ''cannot delete the saved device credential''), a2)
           | (True, a2) \<Rightarrow> (Inr (), a2\<lparr>ag_keyring := None\<rparr>)))"

section \<open>The server's address\<close>

text \<open>\<^verbatim>\<open>host.parse::<IpAddr>()\<close>: the dotted quads of the standard library, decimal octets without
  leading zeros. The URL parser puts an IPv6 host into brackets, which do not parse as an address.\<close>

definition parse_octet :: "string \<Rightarrow> nat option" where
  "parse_octet s =
     (let value = foldl (\<lambda>n c. 10 * n + (of_char c - 48)) 0 s
      in if s \<noteq> [] \<and> length s \<le> 3 \<and> list_all (\<lambda>c. c \<in> set ''0123456789'') s
            \<and> (length s > 1 \<longrightarrow> hd s \<noteq> CHR ''0'') \<and> value \<le> 255
         then Some value else None)"

definition is_loopback_address :: "string \<Rightarrow> bool" where
  "is_loopback_address host =
     (case map parse_octet (split_on (\<lambda>c. c = CHR ''.'') host) of
        [Some a, Some b, Some c, Some d] \<Rightarrow> a = 127 | _ \<Rightarrow> False)"

definition trim_end_slashes :: "string \<Rightarrow> string" where
  "trim_end_slashes s = rev (dropWhile (\<lambda>c. c = CHR ''/'') (rev s))"

definition normalize_server_base_url :: "'n agent_env \<Rightarrow> string \<Rightarrow> AgentError + string" where
  "normalize_server_base_url env raw =
     (case env_parse_url env (trim raw) of
        None \<Rightarrow> Inl (validation_error ''server base URL must be a valid http or https URL'')
      | Some url \<Rightarrow>
          if url_scheme url \<notin> {''http'', ''https''} \<or> url_username url \<noteq> [] \<or> url_password url \<noteq> None
             \<or> url_query url \<noteq> None \<or> url_fragment url \<noteq> None \<or> (url_path url \<noteq> ''/'' \<and> url_path url \<noteq> [])
          then Inl (validation_error ''server base URL must be an http(s) origin without credentials, path, query, or fragment'')
          else (let host = (case url_host url of None \<Rightarrow> [] | Some h \<Rightarrow> h);
                    is_loopback = (eq_ignore_ascii_case host ''localhost'' \<or> is_loopback_address host)
                in if url_scheme url = ''http'' \<and> \<not> is_loopback
                   then Inl (validation_error ''plain HTTP is allowed only for a loopback development server; use HTTPS otherwise'')
                   else Inr (trim_end_slashes (url_without_path url))))"

definition configured_url :: "string option \<Rightarrow> string option" where
  "configured_url variable =
     (case variable of
        Some value \<Rightarrow> if trim value \<noteq> [] then Some value else Some DEFAULT_SERVER_BASE_URL
      | None \<Rightarrow> Some DEFAULT_SERVER_BASE_URL)"

definition pairing_optional :: AgentError where
  "pairing_optional = unconfigured_error ''server pairing is optional; local desktop features remain available''"

definition set_server_url_first :: AgentError where
  "set_server_url_first =
     unconfigured_error (''set '' @ SERVER_BASE_URL_ENV @ '' before connecting the desktop agent'')"

text \<open>\<open>agent_new\<close> starts from a keyring and a network; the other fields are those it sets.\<close>

definition agent_new :: "'n agent_env \<Rightarrow> string option \<Rightarrow> 'n agent \<Rightarrow> 'n agent" where
  "agent_new env server_base_url a =
     (let build = (\<lambda>url credential state last_error a.
            a\<lparr>ag_server_base_url := url, ag_credential := credential, ag_state := state, ag_last_error := last_error\<rparr>)
      in case server_base_url of
           None \<Rightarrow> build None None AgentConnectionState.Unconfigured (Some set_server_url_first) a
         | Some raw \<Rightarrow>
             if raw = [] then build None None AgentConnectionState.Unconfigured (Some set_server_url_first) a
             else case normalize_server_base_url env raw of
                    Inl error \<Rightarrow> build None None AgentConnectionState.Unconfigured (Some error) a
                  | Inr url \<Rightarrow>
                      (case credential_load env a of
                         (Inr (Some credential), a1) \<Rightarrow>
                           if dc_server_base_url credential = url
                           then build (Some url) (Some credential) Offline None a1
                           else build (Some url) None AgentConnectionState.Unconfigured
                                  (Some (unconfigured_error ''saved device pairing belongs to a different server; pair again'')) a1
                       | (Inr None, a1) \<Rightarrow> build (Some url) None AgentConnectionState.Unconfigured (Some pairing_optional) a1
                       | (Inl error, a1) \<Rightarrow> build (Some url) None AgentConnectionState.Unconfigured (Some error) a1))"

section \<open>Connection state\<close>

record AgentConnectionStatus =
  cst_state :: AgentConnectionState
  cst_server_base_url :: "string option"
  cst_device_id :: "string option"
  cst_last_error_code :: "AgentErrorCode option"
  cst_last_error_message :: "string option"

definition connection_status :: "'n agent \<Rightarrow> AgentConnectionStatus" where
  "connection_status a =
     \<lparr>cst_state = ag_state a, cst_server_base_url = ag_server_base_url a,
      cst_device_id = map_option dc_device_id (ag_credential a),
      cst_last_error_code = map_option ae_code (ag_last_error a),
      cst_last_error_message = map_option ae_message (ag_last_error a)\<rparr>"

definition realtime_credentials :: "'n agent \<Rightarrow> (string \<times> string) option" where
  "realtime_credentials a =
     (case (ag_server_base_url a, ag_credential a) of
        (Some base_url, Some credential) \<Rightarrow> Some (base_url, dc_device_token credential)
      | _ \<Rightarrow> None)"

definition require_server_url :: "'n agent \<Rightarrow> AgentError + string" where
  "require_server_url a =
     (case ag_server_base_url a of None \<Rightarrow> Inl set_server_url_first | Some url \<Rightarrow> Inr url)"

definition require_authenticated_config :: "'n agent \<Rightarrow> AgentError + string \<times> DeviceCredential" where
  "require_authenticated_config a =
     (case ag_server_base_url a of
        None \<Rightarrow> Inl set_server_url_first
      | Some base_url \<Rightarrow>
          (case ag_credential a of
             None \<Rightarrow> Inl (unconfigured_error ''desktop device pairing is required'')
           | Some credential \<Rightarrow> Inr (base_url, credential)))"

definition set_connecting :: "'n agent \<Rightarrow> 'n agent" where
  "set_connecting a = a\<lparr>ag_state := Connecting, ag_last_error := None\<rparr>"

definition mark_online :: "'n agent \<Rightarrow> 'n agent" where
  "mark_online a = a\<lparr>ag_state := Online, ag_last_error := None\<rparr>"

definition record_non_authoritative_error :: "AgentError \<Rightarrow> AgentConnectionState \<Rightarrow> 'n agent \<Rightarrow> 'n agent" where
  "record_non_authoritative_error error connection_state a =
     a\<lparr>ag_state := connection_state, ag_last_error := Some error\<rparr>"

definition record_error :: "AgentError \<Rightarrow> AgentConnectionState \<Rightarrow> 'n agent \<Rightarrow> 'n agent" where
  "record_error error connection_state a =
     (if is_confirmed_device_absent error
      then (snd (credential_delete a))\<lparr>ag_credential := None, ag_state := Revoked, ag_last_error := Some error\<rparr>
      else a\<lparr>ag_state := connection_state, ag_last_error := Some error\<rparr>)"

definition forget_device :: "('n, AgentConnectionStatus) agent_op" where
  "forget_device a =
     (case credential_delete a of
        (Inl e, a1) \<Rightarrow> (Inl e, a1)
      | (Inr _, a1) \<Rightarrow>
          (let a2 = a1\<lparr>ag_credential := None, ag_state := AgentConnectionState.Unconfigured,
                       ag_last_error := Some pairing_optional\<rparr>
           in (Inr (connection_status a2), a2)))"

section \<open>Requests\<close>

definition http_error :: "'n agent_env \<Rightarrow> nat \<Rightarrow> ServerErrorResponse option \<Rightarrow> AgentError" where
  "http_error env status server_error =
     \<lparr>ae_code =
        (if status = 401 then Unauthenticated
         else if status = 403 then Forbidden
         else if status = 408 \<or> status = 429 then TransportUnavailable
         else if 400 \<le> status \<and> status < 500 then ValidationFailed
         else TransportUnavailable),
      ae_message =
        (case (case server_error of None \<Rightarrow> None
               | Some body \<Rightarrow> (case se_message body of Some m \<Rightarrow> Some m | None \<Rightarrow> se_code body)) of
           Some m \<Rightarrow> m
         | None \<Rightarrow> ''MouseKeeper server request failed with HTTP '' @ env_status_text env status),
      ae_server_code = (case server_error of None \<Rightarrow> None | Some body \<Rightarrow> se_code body)\<rparr>"

definition cannot_reach :: AgentError where
  "cannot_reach = agent_error TransportUnavailable ''cannot reach the MouseKeeper server''"

definition is_success :: "nat \<Rightarrow> bool" where
  "is_success status \<longleftrightarrow> 200 \<le> status \<and> status < 300"

definition send_json :: "'n agent_env \<Rightarrow> (string \<Rightarrow> 't option) \<Rightarrow> http_request \<Rightarrow> ('n, 't) agent_op" where
  "send_json env decode request a =
     (case env_http env request (ag_net a) of
        (Unreachable, n) \<Rightarrow> (Inl cannot_reach, a\<lparr>ag_net := n\<rparr>)
      | (Reply status body, n) \<Rightarrow>
          (if \<not> is_success status then Inl (http_error env status (env_server_error env body))
           else case decode body of
                  None \<Rightarrow> Inl (invalid_response_error ''server returned an unexpected response shape'')
                | Some response \<Rightarrow> Inr response,
           a\<lparr>ag_net := n\<rparr>))"

definition send_empty :: "'n agent_env \<Rightarrow> http_request \<Rightarrow> ('n, unit) agent_op" where
  "send_empty env request a =
     (case env_http env request (ag_net a) of
        (Unreachable, n) \<Rightarrow> (Inl cannot_reach, a\<lparr>ag_net := n\<rparr>)
      | (Reply status body, n) \<Rightarrow>
          (if \<not> is_success status then Inl (http_error env status (env_server_error env body)) else Inr (),
           a\<lparr>ag_net := n\<rparr>))"

definition plain_request :: "string \<Rightarrow> string \<Rightarrow> json option \<Rightarrow> http_request" where
  "plain_request verb url body =
     \<lparr>rq_method = verb, rq_url = url, rq_query = [], rq_bearer = None, rq_idempotency_key = None, rq_body = body\<rparr>"

definition bearer_request :: "string \<Rightarrow> string \<Rightarrow> DeviceCredential \<Rightarrow> string option \<Rightarrow> json option \<Rightarrow> http_request" where
  "bearer_request verb url credential key body =
     \<lparr>rq_method = verb, rq_url = url, rq_query = [], rq_bearer = Some (dc_device_token credential),
      rq_idempotency_key = key, rq_body = body\<rparr>"

text \<open>The last lines of almost every call: a success marks the agent online, an error is recorded.\<close>

definition conclude :: "AgentError + 'a \<Rightarrow> 'n agent \<Rightarrow> 'n agent" where
  "conclude result a = (case result of Inr _ \<Rightarrow> mark_online a | Inl error \<Rightarrow> record_error error Offline a)"

text \<open>An authenticated call, once its arguments have been validated: the configuration, the
  request, the validation of the response, the recorded outcome.\<close>

definition call_json ::
    "'n agent_env \<Rightarrow> (string \<Rightarrow> 't option) \<Rightarrow> (string \<Rightarrow> DeviceCredential \<Rightarrow> http_request)
       \<Rightarrow> (DeviceCredential \<Rightarrow> 't \<Rightarrow> AgentError + 'a) \<Rightarrow> ('n, 'a) agent_op" where
  "call_json env decode request check a =
     (case require_authenticated_config a of
        Inl e \<Rightarrow> (Inl e, a)
      | Inr (base_url, credential) \<Rightarrow>
          (let (response, a1) = send_json env decode (request base_url credential) a;
               result = bind_res response (check credential)
           in (result, conclude result a1)))"

definition call_empty ::
    "'n agent_env \<Rightarrow> (string \<Rightarrow> DeviceCredential \<Rightarrow> http_request) \<Rightarrow> ('n, unit) agent_op" where
  "call_empty env request a =
     (case require_authenticated_config a of
        Inl e \<Rightarrow> (Inl e, a)
      | Inr (base_url, credential) \<Rightarrow>
          (let (result, a1) = send_empty env (request base_url credential) a
           in (result, conclude result a1)))"

section \<open>Validation of arguments\<close>

definition is_ascii_alphanumeric :: "char \<Rightarrow> bool" where
  "is_ascii_alphanumeric c \<longleftrightarrow>
     (let b = (of_char c :: nat) in (48 \<le> b \<and> b \<le> 57) \<or> (65 \<le> b \<and> b \<le> 90) \<or> (97 \<le> b \<and> b \<le> 122))"

definition validate_opaque_value :: "string \<Rightarrow> string \<Rightarrow> nat \<Rightarrow> AgentError + unit" where
  "validate_opaque_value name value max_length =
     (if value = [] \<or> length value > max_length
         \<or> \<not> list_all (\<lambda>c. is_ascii_alphanumeric c \<or> c \<in> {CHR ''-'', CHR ''_''}) value
      then Inl (validation_error (name @ '' has an invalid format'')) else Inr ())"

definition validate_root_alias :: "string \<Rightarrow> AgentError + unit" where
  "validate_root_alias value =
     (if value = [] \<or> length value > 120
         \<or> \<not> list_all (\<lambda>c. is_ascii_alphanumeric c \<or> c \<in> {CHR ''-'', CHR ''_'', CHR '':''}) value
      then Inl (validation_error ''managed root id has an invalid room alias format'') else Inr ())"

definition validated :: "AgentError + unit \<Rightarrow> ('n, 'a) agent_op \<Rightarrow> ('n, 'a) agent_op" where
  "validated check call a = (case check of Inl e \<Rightarrow> (Inl e, a) | Inr _ \<Rightarrow> call a)"

section \<open>Pairing and presence\<close>

record PairingSession =
  ps_session_id :: string
  ps_desktop_nonce :: string
  ps_code :: string
  ps_expires_at :: string

record PairingStatusResponse =
  pr_status :: string
  pr_expires_at :: "string option"
  pr_device_id :: "string option"
  pr_device_token :: "string option"

record PairingStatus =
  pst_status :: string
  pst_device_id :: "string option"
  pst_expires_at :: "string option"

record HeartbeatResult =
  hb_device_id :: string
  hb_presence :: string
  hb_ttl_seconds :: nat

definition is_ascii_digit :: "char \<Rightarrow> bool" where
  "is_ascii_digit c \<longleftrightarrow> (let b = (of_char c :: nat) in 48 \<le> b \<and> b \<le> 57)"

definition validate_pairing_session :: "PairingSession \<Rightarrow> AgentError + PairingSession" where
  "validate_pairing_session response =
     (if ps_session_id response = [] \<or> ps_desktop_nonce response = [] \<or> ps_expires_at response = []
         \<or> length (ps_code response) \<noteq> 6 \<or> \<not> list_all is_ascii_digit (ps_code response)
      then Inl (invalid_response_error ''pairing session failed response validation'')
      else Inr response)"

definition start_pairing ::
    "'n agent_env \<Rightarrow> (string \<Rightarrow> PairingSession option) \<Rightarrow> string \<Rightarrow> ('n, PairingSession) agent_op" where
  "start_pairing env decode device_name a =
     (let device_name = trim device_name
      in if device_name = [] \<or> length (chars device_name) > 120
         then (Inl (validation_error ''device name must contain between 1 and 120 characters''), a)
         else case require_server_url a of
                Inl e \<Rightarrow> (Inl e, a)
              | Inr base_url \<Rightarrow>
                  (let (response, a1) = send_json env decode
                         (plain_request ''POST'' (base_url @ ''/v1/pairing-sessions'')
                            (Some (JObject [(''deviceName'', JString device_name), (''platform'', JString ''WINDOWS'')])))
                         (set_connecting a);
                       result = bind_res response validate_pairing_session
                   in (result,
                       case result of
                         Inl error \<Rightarrow> record_error error AgentConnectionState.Unconfigured a1
                       | Inr _ \<Rightarrow> a1)))"

text \<open>The \<^verbatim>\<open>match response.status\<close> of \<^verbatim>\<open>poll_pairing\<close>.\<close>

definition accept_pairing_status ::
    "'n agent_env \<Rightarrow> string \<Rightarrow> PairingStatusResponse \<Rightarrow> ('n, PairingStatus) agent_op" where
  "accept_pairing_status env base_url response a =
     (if pr_status response = ''PENDING''
      then (Inr \<lparr>pst_status = pr_status response, pst_device_id = None,
                 pst_expires_at = pr_expires_at response\<rparr>, set_connecting a)
      else if pr_status response = ''CLAIMED''
      then (case pr_device_id response of
              None \<Rightarrow> (Inl (invalid_response_error ''claimed pairing response omitted deviceId''), a)
            | Some device_id \<Rightarrow>
                (case pr_device_token response of
                   None \<Rightarrow> (Inl (invalid_response_error ''claimed pairing response omitted deviceToken''), a)
                 | Some device_token \<Rightarrow>
                     (let credential = \<lparr>dc_server_base_url = base_url, dc_device_id = device_id,
                                        dc_device_token = device_token\<rparr>
                      in case credential_save env credential a of
                           (Inl error, a1) \<Rightarrow>
                             (Inl error, record_error error AgentConnectionState.Unconfigured a1)
                         | (Inr _, a1) \<Rightarrow>
                             (Inr \<lparr>pst_status = pr_status response, pst_device_id = Some device_id,
                                   pst_expires_at = None\<rparr>,
                              a1\<lparr>ag_credential := Some credential, ag_state := Offline,
                                 ag_last_error := None\<rparr>))))
      else (Inl (invalid_response_error ''pairing status must be PENDING or CLAIMED''), a))"

definition poll_pairing_request :: "string \<Rightarrow> string \<Rightarrow> string \<Rightarrow> http_request" where
  "poll_pairing_request session_id desktop_nonce base_url =
     (plain_request ''GET'' (base_url @ ''/v1/pairing-sessions/'' @ session_id @ ''/status'') None)
       \<lparr>rq_query := [(''nonce'', desktop_nonce)]\<rparr>"

definition poll_pairing ::
    "'n agent_env \<Rightarrow> (string \<Rightarrow> PairingStatusResponse option) \<Rightarrow> string \<Rightarrow> string
       \<Rightarrow> ('n, PairingStatus) agent_op" where
  "poll_pairing env decode session_id desktop_nonce =
     validated (validate_opaque_value ''pairing session id'' session_id 200)
       (validated (validate_opaque_value ''desktop nonce'' desktop_nonce 512) (\<lambda>a.
          case require_server_url a of
            Inl e \<Rightarrow> (Inl e, a)
          | Inr base_url \<Rightarrow>
              (case send_json env decode (poll_pairing_request session_id desktop_nonce base_url) a of
                 (Inl error, a1) \<Rightarrow> (Inl error, record_error error AgentConnectionState.Unconfigured a1)
               | (Inr response, a1) \<Rightarrow> accept_pairing_status env base_url response a1)))"

definition known_presence :: "string \<Rightarrow> bool" where
  "known_presence presence \<longleftrightarrow>
     presence \<in> {''ONLINE_IDLE'', ''ONLINE_SCANNING'', ''ONLINE_EXECUTING'', ''DEGRADED''}"

definition validate_heartbeat_response :: "string \<Rightarrow> HeartbeatResult \<Rightarrow> AgentError + HeartbeatResult" where
  "validate_heartbeat_response expected_device_id response =
     (if hb_device_id response \<noteq> expected_device_id \<or> \<not> known_presence (hb_presence response)
         \<or> hb_ttl_seconds response = 0
      then Inl (invalid_response_error ''heartbeat failed response validation'') else Inr response)"

definition heartbeat_request :: "string \<Rightarrow> string \<Rightarrow> DeviceCredential \<Rightarrow> http_request" where
  "heartbeat_request presence base_url credential =
     bearer_request ''POST'' (base_url @ ''/v1/devices/'' @ dc_device_id credential @ ''/heartbeat'') credential None
       (Some (JObject [(''presence'', JString presence)]))"

definition heartbeat ::
    "'n agent_env \<Rightarrow> (string \<Rightarrow> HeartbeatResult option) \<Rightarrow> string \<Rightarrow> ('n, HeartbeatResult) agent_op" where
  "heartbeat env decode presence =
     validated (if known_presence presence then Inr ()
                else Inl (validation_error ''presence must be ONLINE_IDLE, ONLINE_SCANNING, ONLINE_EXECUTING, or DEGRADED''))
       (call_json env decode (heartbeat_request presence)
          (\<lambda>credential. validate_heartbeat_response (dc_device_id credential)))"

definition revoke_self_request :: "string \<Rightarrow> string \<Rightarrow> DeviceCredential \<Rightarrow> http_request" where
  "revoke_self_request idempotency_key base_url credential =
     bearer_request ''DELETE'' (base_url @ ''/v1/agent/devices/self'') credential (Some idempotency_key) None"

definition revoke_self :: "'n agent_env \<Rightarrow> string \<Rightarrow> ('n, unit) agent_op" where
  "revoke_self env idempotency_key =
     validated (validate_opaque_value ''device revoke idempotency key'' idempotency_key 200) (\<lambda>a.
       case require_authenticated_config a of
         Inl e \<Rightarrow> (Inl e, a)
       | Inr (base_url, credential) \<Rightarrow>
           (case send_empty env (revoke_self_request idempotency_key base_url credential) a of
              (Inr _, a1) \<Rightarrow> (Inr (), a1)
            | (Inl error, a1) \<Rightarrow> (Inl error, record_non_authoritative_error error Offline a1)))"

section \<open>The laws of a call\<close>

text \<open>The credential in use belongs to the configured server, and the agent is only online while it
  has one.\<close>

definition agent_ok :: "'n agent \<Rightarrow> bool" where
  "agent_ok a \<longleftrightarrow>
     (\<forall>c. ag_credential a = Some c \<longrightarrow> ag_server_base_url a = Some (dc_server_base_url c))
     \<and> (ag_state a = Online \<longrightarrow> ag_credential a \<noteq> None)"

text \<open>To speak of the requests that leave the process, let the network record them.\<close>

definition records_requests :: "('m \<times> http_request list) agent_env \<Rightarrow> bool" where
  "records_requests env \<longleftrightarrow>
     (\<forall>q m log. \<exists>reply m'. env_http env q (m, log) = (reply, (m', log @ [q])))"

definition addressed :: "'n agent \<Rightarrow> http_request \<Rightarrow> bool" where
  "addressed a q \<longleftrightarrow>
     (\<forall>token. rq_bearer q = Some token \<longrightarrow>
        (\<exists>c. ag_credential a = Some c \<and> token = dc_device_token c
             \<and> prefix (dc_server_base_url c @ ''/'') (rq_url q)))"

definition lawful :: "('m \<times> http_request list) agent \<Rightarrow> ('m \<times> http_request list) agent \<Rightarrow> bool" where
  "lawful a a' \<longleftrightarrow>
     ag_server_base_url a' = ag_server_base_url a
     \<and> (agent_ok a \<longrightarrow> agent_ok a')
     \<and> (\<exists>sent. snd (ag_net a') = snd (ag_net a) @ sent \<and> (agent_ok a \<longrightarrow> (\<forall>q \<in> set sent. addressed a q)))"

definition credential_kept :: "'n agent \<Rightarrow> (AgentError + 'a) \<times> 'n agent \<Rightarrow> bool" where
  "credential_kept a outcome \<longleftrightarrow>
     (ag_credential (snd outcome) = ag_credential a \<and> ag_keyring (snd outcome) = ag_keyring a)
     \<or> (ag_credential (snd outcome) = None \<and> ag_state (snd outcome) = Revoked
        \<and> (\<exists>error. fst outcome = Inl error \<and> is_confirmed_device_absent error))"

lemma lawful_refl [simp]: "lawful a a"
  by (simp add: lawful_def)

lemma credential_kept_unchanged [simp]: "credential_kept a (r, a)"
  by (simp add: credential_kept_def)

lemma keyring_access_frame:
  "ag_server_base_url (snd (keyring_access a)) = ag_server_base_url a"
  "ag_credential (snd (keyring_access a)) = ag_credential a"
  "ag_state (snd (keyring_access a)) = ag_state a"
  "ag_net (snd (keyring_access a)) = ag_net a"
  "ag_keyring (snd (keyring_access a)) = ag_keyring a"
  by (simp_all add: keyring_access_def split: list.split)

lemma credential_delete_frame:
  "ag_server_base_url (snd (credential_delete a)) = ag_server_base_url a"
  "ag_credential (snd (credential_delete a)) = ag_credential a"
  "ag_state (snd (credential_delete a)) = ag_state a"
  "ag_net (snd (credential_delete a)) = ag_net a"
  by (auto simp: credential_delete_def keyring_entry_def split: prod.split bool.split sum.split
      dest!: arg_cong [where f = snd] simp: keyring_access_frame)

lemma send_json_frame:
  "ag_server_base_url (snd (send_json env decode q a)) = ag_server_base_url a"
  "ag_credential (snd (send_json env decode q a)) = ag_credential a"
  "ag_state (snd (send_json env decode q a)) = ag_state a"
  "ag_keyring (snd (send_json env decode q a)) = ag_keyring a"
  by (simp_all add: send_json_def split: prod.split http_reply.split)

lemma send_empty_frame:
  "ag_server_base_url (snd (send_empty env q a)) = ag_server_base_url a"
  "ag_credential (snd (send_empty env q a)) = ag_credential a"
  "ag_state (snd (send_empty env q a)) = ag_state a"
  "ag_keyring (snd (send_empty env q a)) = ag_keyring a"
  by (simp_all add: send_empty_def split: prod.split http_reply.split)

lemma send_json_log:
  "records_requests env \<Longrightarrow> snd (ag_net (snd (send_json env decode q a))) = snd (ag_net a) @ [q]"
  by (cases "ag_net a") (auto simp: records_requests_def send_json_def split: prod.split http_reply.split,
    (metis Pair_inject)+)

lemma send_empty_log:
  "records_requests env \<Longrightarrow> snd (ag_net (snd (send_empty env q a))) = snd (ag_net a) @ [q]"
  by (cases "ag_net a") (auto simp: records_requests_def send_empty_def split: prod.split http_reply.split,
    (metis Pair_inject)+)

lemma conclude_frame:
  "ag_server_base_url (conclude r a) = ag_server_base_url a" "ag_net (conclude r a) = ag_net a"
  by (simp_all add: conclude_def mark_online_def record_error_def credential_delete_frame split: sum.split)

lemma conclude_credential:
  "(ag_credential (conclude r a) = ag_credential a \<and> ag_keyring (conclude r a) = ag_keyring a
     \<and> (ag_state (conclude r a) = Online \<longleftrightarrow> is_ok r)) \<or>
   (ag_credential (conclude r a) = None \<and> ag_state (conclude r a) = Revoked
     \<and> (\<exists>e. r = Inl e \<and> is_confirmed_device_absent e))"
  by (cases r) (auto simp: conclude_def mark_online_def record_error_def)

lemma require_authenticated_config_ok:
  "require_authenticated_config a = Inr (b, c) \<longleftrightarrow> ag_server_base_url a = Some b \<and> ag_credential a = Some c"
  by (auto simp: require_authenticated_config_def split: option.splits)

lemma lawfulI:
  assumes "ag_server_base_url a' = ag_server_base_url a" "snd (ag_net a') = snd (ag_net a) @ sent"
    and "agent_ok a \<Longrightarrow> \<forall>q \<in> set sent. addressed a q" and "agent_ok a \<Longrightarrow> agent_ok a'"
  shows "lawful a a'"
  using assms by (auto simp: lawful_def)

lemma validated_lawful: "(\<And>a. lawful a (snd (call a))) \<Longrightarrow> lawful a (snd (validated check call a))"
  by (simp add: validated_def split: sum.split)

lemma validated_kept: "(\<And>a. credential_kept a (call a)) \<Longrightarrow> credential_kept a (validated check call a)"
  by (simp add: validated_def split: sum.split)

lemma validated_Inr: "validated check call a = (Inr x, a') \<longleftrightarrow> check = Inr () \<and> call a = (Inr x, a')"
  by (auto simp: validated_def split: sum.splits)

text \<open>An endpoint of the server that takes the device's token: the request carries the token of the
  credential and goes below the base URL.\<close>

locale authenticated_request =
  fixes request :: "string \<Rightarrow> DeviceCredential \<Rightarrow> http_request"
  assumes bearer: "rq_bearer (request b c) = Some (dc_device_token c)"
    and below_base: "prefix (b @ ''/'') (rq_url (request b c))"
begin

lemma addressed_request:
  "agent_ok a \<Longrightarrow> ag_server_base_url a = Some b \<Longrightarrow> ag_credential a = Some c \<Longrightarrow> addressed a (request b c)"
  using below_base [of b c] by (auto simp: addressed_def agent_ok_def bearer)

lemma outcome_ok:
  assumes "agent_ok a" "ag_credential a = Some c" "ag_server_base_url a1 = ag_server_base_url a"
    "ag_credential a1 = ag_credential a"
  shows "agent_ok (conclude r a1)"
  using assms conclude_credential [of r a1] by (auto simp: agent_ok_def conclude_frame)

lemma json_lawful:
  assumes "records_requests env"
  shows "lawful a (snd (call_json env decode request check a))"
proof (cases "require_authenticated_config a")
  case (Inr bc)
  obtain b c where bc: "bc = (b, c)" by (cases bc)
  have config: "ag_server_base_url a = Some b" "ag_credential a = Some c"
    using Inr by (simp_all add: bc require_authenticated_config_ok)
  let ?send = "send_json env decode (request b c) a"
  let ?r = "bind_res (fst ?send) (check c)"
  have a': "snd (call_json env decode request check a) = conclude ?r (snd ?send)"
    by (simp add: call_json_def Inr bc split_beta Let_def)
  show ?thesis unfolding a'
    by (rule lawfulI [where sent = "[request b c]"])
      (use config in \<open>auto simp: conclude_frame send_json_frame send_json_log [OF assms]
         intro: addressed_request outcome_ok\<close>)
qed (simp add: call_json_def)

lemma empty_lawful:
  assumes "records_requests env"
  shows "lawful a (snd (call_empty env request a))"
proof (cases "require_authenticated_config a")
  case (Inr bc)
  obtain b c where bc: "bc = (b, c)" by (cases bc)
  have config: "ag_server_base_url a = Some b" "ag_credential a = Some c"
    using Inr by (simp_all add: bc require_authenticated_config_ok)
  let ?send = "send_empty env (request b c) a"
  have a': "snd (call_empty env request a) = conclude (fst ?send) (snd ?send)"
    by (simp add: call_empty_def Inr bc split_beta Let_def)
  show ?thesis unfolding a'
    by (rule lawfulI [where sent = "[request b c]"])
      (use config in \<open>auto simp: conclude_frame send_empty_frame send_empty_log [OF assms]
         intro: addressed_request outcome_ok\<close>)
qed (simp add: call_empty_def)

end

lemma call_json_kept: "credential_kept a (call_json env decode request check a)"
proof (cases "require_authenticated_config a")
  case (Inr bc)
  obtain b c where bc: "bc = (b, c)" by (cases bc)
  let ?send = "send_json env decode (request b c) a"
  have "call_json env decode request check a = (bind_res (fst ?send) (check c), conclude (bind_res (fst ?send) (check c)) (snd ?send))"
    by (simp add: call_json_def Inr bc split_beta Let_def)
  then show ?thesis
    using conclude_credential [of "bind_res (fst ?send) (check c)" "snd ?send"]
    by (auto simp: credential_kept_def send_json_frame)
qed (simp add: call_json_def)

lemma call_empty_kept: "credential_kept a (call_empty env request a)"
proof (cases "require_authenticated_config a")
  case (Inr bc)
  obtain b c where bc: "bc = (b, c)" by (cases bc)
  let ?send = "send_empty env (request b c) a"
  have "call_empty env request a = (fst ?send, conclude (fst ?send) (snd ?send))"
    by (simp add: call_empty_def Inr bc split_beta Let_def)
  then show ?thesis
    using conclude_credential [of "fst ?send" "snd ?send"]
    by (auto simp: credential_kept_def send_empty_frame)
qed (simp add: call_empty_def)

lemma bearer_request_simps [simp]:
  "rq_bearer (bearer_request verb url c key body) = Some (dc_device_token c)"
  "rq_url (bearer_request verb url c key body) = url"
  by (simp_all add: bearer_request_def)

interpretation heartbeat: authenticated_request "heartbeat_request presence" for presence
  by unfold_locales (simp_all add: heartbeat_request_def)

interpretation revoke_self: authenticated_request "revoke_self_request key" for key
  by unfold_locales (simp_all add: revoke_self_request_def)

lemma heartbeat_lawful: "records_requests env \<Longrightarrow> lawful a (snd (heartbeat env decode presence a))"
  unfolding heartbeat_def by (intro validated_lawful heartbeat.json_lawful)

lemma revoke_self_lawful:
  assumes "records_requests env"
  shows "lawful a (snd (revoke_self env key a))"
  unfolding revoke_self_def
proof (rule validated_lawful)
  fix a
  show "lawful a (snd (case require_authenticated_config a of
       Inl e \<Rightarrow> (Inl e, a)
     | Inr (base_url, credential) \<Rightarrow>
         (case send_empty env (revoke_self_request key base_url credential) a of
            (Inr _, a1) \<Rightarrow> (Inr (), a1)
          | (Inl error, a1) \<Rightarrow> (Inl error, record_non_authoritative_error error Offline a1))))"
  proof (cases "require_authenticated_config a")
    case (Inr bc)
    obtain b c where bc: "bc = (b, c)" by (cases bc)
    have config: "ag_server_base_url a = Some b" "ag_credential a = Some c"
      using Inr by (simp_all add: bc require_authenticated_config_ok)
    let ?send = "send_empty env (revoke_self_request key b c) a"
    show ?thesis
      by (rule lawfulI [where sent = "[revoke_self_request key b c]"])
        (use config send_empty_frame [of env "revoke_self_request key b c" a]
           send_empty_log [OF assms, of "revoke_self_request key b c" a] in
         \<open>auto simp: Inr bc record_non_authoritative_error_def agent_ok_def split: prod.splits sum.splits
            intro: revoke_self.addressed_request\<close>)
  qed simp
qed

lemma record_error_frame:
  "ag_server_base_url (record_error e st a) = ag_server_base_url a" "ag_net (record_error e st a) = ag_net a"
  by (simp_all add: record_error_def credential_delete_frame)

lemma record_error_ok: "agent_ok a \<Longrightarrow> st \<noteq> Online \<Longrightarrow> agent_ok (record_error e st a)"
  by (simp add: agent_ok_def record_error_def credential_delete_frame)

lemma send_json_ok: "agent_ok (snd (send_json env decode q a)) \<longleftrightarrow> agent_ok a"
  by (simp add: agent_ok_def send_json_frame)

lemma set_connecting_ok: "agent_ok a \<Longrightarrow> agent_ok (set_connecting a)"
  by (simp add: agent_ok_def set_connecting_def)

lemma set_connecting_frame:
  "ag_server_base_url (set_connecting a) = ag_server_base_url a" "ag_net (set_connecting a) = ag_net a"
  by (simp_all add: set_connecting_def)

lemma addressed_plain: "rq_bearer q = None \<Longrightarrow> addressed a q"
  by (simp add: addressed_def)

lemma start_pairing_lawful:
  assumes "records_requests env"
  shows "lawful a (snd (start_pairing env decode name a))"
proof (cases "trim name = [] \<or> length (chars (trim name)) > 120 \<or> \<not> is_ok (require_server_url a)")
  case True
  then have "snd (start_pairing env decode name a) = a"
    by (auto simp: start_pairing_def Let_def is_ok_iff split: sum.split)
  then show ?thesis by simp
next
  case False
  then obtain b where b: "require_server_url a = Inr b" by (auto simp: is_ok_iff)
  let ?q = "plain_request ''POST'' (b @ ''/v1/pairing-sessions'')
     (Some (JObject [(''deviceName'', JString (trim name)), (''platform'', JString ''WINDOWS'')]))"
  let ?send = "send_json env decode ?q (set_connecting a)"
  let ?r = "bind_res (fst ?send) validate_pairing_session"
  have a': "snd (start_pairing env decode name a) =
     (case ?r of Inl error \<Rightarrow> record_error error AgentConnectionState.Unconfigured (snd ?send) | Inr _ \<Rightarrow> snd ?send)"
    using False b by (auto simp: start_pairing_def Let_def split_beta split: sum.split)
  show ?thesis unfolding a'
    by (rule lawfulI [where sent = "[?q]"])
      (auto simp: record_error_frame send_json_frame send_json_log [OF assms] set_connecting_frame send_json_ok
         plain_request_def split: sum.split intro!: addressed_plain record_error_ok set_connecting_ok)
qed

lemma credential_save_frame:
  "ag_server_base_url (snd (credential_save env c a)) = ag_server_base_url a"
  "ag_credential (snd (credential_save env c a)) = ag_credential a"
  "ag_state (snd (credential_save env c a)) = ag_state a"
  "ag_net (snd (credential_save env c a)) = ag_net a"
  by (auto simp: credential_save_def keyring_entry_def split: prod.split bool.split sum.split
      dest!: arg_cong [where f = snd] simp: keyring_access_frame)

lemma accept_pairing_status_frame:
  "ag_server_base_url (snd (accept_pairing_status env b response a)) = ag_server_base_url a"
  "ag_net (snd (accept_pairing_status env b response a)) = ag_net a"
  by (auto simp: accept_pairing_status_def set_connecting_frame record_error_frame Let_def
      split: option.split prod.split sum.split dest!: arg_cong [where f = snd] simp: credential_save_frame)

lemma accept_pairing_status_ok:
  assumes "agent_ok a" "ag_server_base_url a = Some b"
  shows "agent_ok (snd (accept_pairing_status env b response a))"
proof -
  have "agent_ok a1 \<and> ag_server_base_url a1 = Some b" if "credential_save env c a = (r, a1)" for c r a1
    using credential_save_frame [of env c a] assms that by (simp add: agent_ok_def)
  then show ?thesis
    using assms(1)
    by (auto simp: accept_pairing_status_def Let_def set_connecting_ok split: option.split prod.split sum.split
        intro!: record_error_ok) (simp add: agent_ok_def)
qed

lemma poll_pairing_lawful:
  assumes "records_requests env"
  shows "lawful a (snd (poll_pairing env decode session nonce a))"
  unfolding poll_pairing_def
proof (intro validated_lawful)
  fix a
  let ?q = "poll_pairing_request session nonce"
  show "lawful a (snd (case require_server_url a of
      Inl e \<Rightarrow> (Inl e, a)
    | Inr base_url \<Rightarrow>
        (case send_json env decode (?q base_url) a of
           (Inl error, a1) \<Rightarrow> (Inl error, record_error error AgentConnectionState.Unconfigured a1)
         | (Inr response, a1) \<Rightarrow> accept_pairing_status env base_url response a1)))"
  proof (cases "require_server_url a")
    case (Inr b)
    have b: "ag_server_base_url a = Some b" using Inr by (auto simp: require_server_url_def split: option.splits)
    obtain r a1 where send: "send_json env decode (?q b) a = (r, a1)" by fastforce
    have plain: "addressed a (?q b)"
      by (rule addressed_plain) (simp add: poll_pairing_request_def plain_request_def)
    have frame: "ag_server_base_url a1 = Some b" "snd (ag_net a1) = snd (ag_net a) @ [?q b]"
        "agent_ok a1 \<longleftrightarrow> agent_ok a"
      using send_json_frame [of env decode "?q b" a] send_json_log [OF assms, of decode "?q b" a]
        send_json_ok [of env decode "?q b" a] by (simp_all add: send b)
    show ?thesis
      by (rule lawfulI [where sent = "[?q b]"])
        (auto simp: Inr send record_error_frame accept_pairing_status_frame frame b
           split: sum.split intro!: plain record_error_ok accept_pairing_status_ok)
  qed simp
qed

lemma forget_device_lawful: "lawful a (snd (forget_device a))"
  using credential_delete_frame [of a]
  by (intro lawfulI [where sent = "[]"])
    (auto simp: forget_device_def agent_ok_def Let_def split: prod.splits sum.splits)

lemma agent_new_ok: "agent_ok (agent_new env url a)"
  by (auto simp: agent_new_def agent_ok_def Let_def split: option.split sum.split prod.split)

lemma agent_new_net:
  "ag_net (agent_new env url a) = ag_net a"
proof -
  have "ag_net (snd (credential_load env a)) = ag_net a"
    by (auto simp: credential_load_def keyring_entry_def split: prod.split bool.split sum.split option.split
      dest!: arg_cong [where f = snd] simp: keyring_access_frame)
  then show ?thesis
    by (auto simp: agent_new_def Let_def split: option.split sum.split prod.split)
qed

end
