(* ===== verification/Agent_Calls.thy ===== *)
theory Agent_Calls
  imports Agent
begin

text \<open>
  The calls of \<^verbatim>\<open>agent.rs\<close> that concern commands, rooms, proposals, decisions, executions and
  events: for each endpoint its request, the validation of its arguments and of the server's
  response.
\<close>

section \<open>Commands\<close>

record ServerCommand =
  sc_id :: string
  sc_intent :: string
  sc_room_id :: string
  sc_status :: string
  sc_payload :: json

record AgentCommand =
  ac_command_id :: string
  ac_command_type :: string
  ac_room_id :: string
  ac_status :: string
  ac_payload :: json

definition validate_server_command :: "ServerCommand \<Rightarrow> AgentError + AgentCommand" where
  "validate_server_command response =
     (if sc_id response = [] \<or> sc_intent response = [] \<or> sc_room_id response = []
         \<or> sc_status response \<notin> {''QUEUED'', ''DELIVERED'', ''ANALYZING'', ''PROPOSAL_READY'', ''WAITING_APPROVAL'',
              ''APPROVED'', ''REJECTED'', ''EXPIRED'', ''EXECUTING'', ''SUCCEEDED'', ''PARTIALLY_SUCCEEDED'',
              ''FAILED'', ''STALE''}
         \<or> \<not> json_is_object (sc_payload response)
      then Inl (invalid_response_error ''command failed response validation'')
      else Inr \<lparr>ac_command_id = sc_id response, ac_command_type = sc_intent response,
                ac_room_id = sc_room_id response, ac_status = sc_status response, ac_payload = sc_payload response\<rparr>)"

definition poll_commands_request :: "string \<Rightarrow> DeviceCredential \<Rightarrow> http_request" where
  "poll_commands_request base_url credential =
     bearer_request ''GET'' (base_url @ ''/v1/devices/'' @ dc_device_id credential @ ''/commands/pending'') credential None None"

definition poll_commands ::
    "'n agent_env \<Rightarrow> (string \<Rightarrow> ServerCommand list option) \<Rightarrow> ('n, AgentCommand list) agent_op" where
  "poll_commands env decode =
     call_json env decode poll_commands_request
       (\<lambda>_ commands. collect_results (map validate_server_command commands))"

definition update_command_status_request :: "string \<Rightarrow> string \<Rightarrow> string \<Rightarrow> DeviceCredential \<Rightarrow> http_request" where
  "update_command_status_request command_id status base_url credential =
     bearer_request ''PATCH''
       (base_url @ ''/v1/devices/'' @ dc_device_id credential @ ''/commands/'' @ command_id @ ''/status'') credential None
       (Some (JObject [(''status'', JString status)]))"

definition update_command_status ::
    "'n agent_env \<Rightarrow> (string \<Rightarrow> ServerCommand option) \<Rightarrow> string \<Rightarrow> string \<Rightarrow> ('n, AgentCommand) agent_op" where
  "update_command_status env decode command_id status =
     validated (validate_opaque_value ''command id'' command_id 200)
       (validated (if status \<in> {''DELIVERED'', ''ANALYZING'', ''FAILED''} then Inr ()
                   else Inl (validation_error ''command status must be DELIVERED, ANALYZING, or FAILED''))
         (call_json env decode (update_command_status_request command_id status) (\<lambda>_ response.
            bind_res (validate_server_command response) (\<lambda>command.
              if ac_command_id command \<noteq> command_id
              then Inl (invalid_response_error ''updated command response did not match the requested command id'')
              else Inr command))))"

definition create_command_request ::
    "string \<Rightarrow> string \<Rightarrow> json \<Rightarrow> string \<Rightarrow> string \<Rightarrow> DeviceCredential \<Rightarrow> http_request" where
  "create_command_request room_id intent payload idempotency_key base_url credential =
     bearer_request ''POST'' (base_url @ ''/v1/rooms/'' @ room_id @ ''/commands'') credential (Some idempotency_key)
       (Some (JObject [(''intent'', JString intent), (''payload'', payload)]))"

definition create_command ::
    "'n agent_env \<Rightarrow> (string \<Rightarrow> ServerCommand option) \<Rightarrow> string \<Rightarrow> string \<Rightarrow> json \<Rightarrow> string
       \<Rightarrow> ('n, AgentCommand) agent_op" where
  "create_command env decode room_id intent payload idempotency_key =
     validated (validate_opaque_value ''room id'' room_id 200)
       (validated (validate_opaque_value ''command idempotency key'' idempotency_key 128)
         (call_json env decode (create_command_request room_id intent payload idempotency_key)
            (\<lambda>_. validate_server_command)))"

section \<open>Rooms\<close>

record ServerRoom =
  sm_id :: string
  sm_desktop_device_id :: string
  sm_name :: string
  sm_root_alias :: string
  sm_status :: string

record AgentRoomSync =
  rs_room_id :: string
  rs_root_id :: string
  rs_name :: string
  rs_created :: bool

definition validate_server_room :: "string \<Rightarrow> ServerRoom \<Rightarrow> AgentError + ServerRoom" where
  "validate_server_room expected_device_id room =
     (if sm_id room = [] \<or> sm_desktop_device_id room \<noteq> expected_device_id
         \<or> trim (sm_name room) = [] \<or> length (chars (sm_name room)) > 120
         \<or> trim (sm_root_alias room) = [] \<or> length (chars (sm_root_alias room)) > 120
         \<or> sm_status room \<noteq> ''ACTIVE''
      then Inl (invalid_response_error ''room failed response validation'') else Inr room)"

definition validate_server_rooms :: "string \<Rightarrow> ServerRoom list \<Rightarrow> AgentError + ServerRoom list" where
  "validate_server_rooms expected_device_id rooms =
     collect_results (map (validate_server_room expected_device_id)
       (filter (\<lambda>room. sm_desktop_device_id room = expected_device_id) rooms))"

definition room_sync :: "ServerRoom \<Rightarrow> AgentRoomSync" where
  "room_sync room = \<lparr>rs_room_id = sm_id room, rs_root_id = sm_root_alias room, rs_name = sm_name room, rs_created = False\<rparr>"

definition rooms_request :: "string \<Rightarrow> DeviceCredential \<Rightarrow> http_request" where
  "rooms_request base_url credential = bearer_request ''GET'' (base_url @ ''/v1/rooms'') credential None None"

definition create_room_request :: "string \<Rightarrow> string \<Rightarrow> string \<Rightarrow> DeviceCredential \<Rightarrow> http_request" where
  "create_room_request root_id display_name base_url credential =
     bearer_request ''POST'' (base_url @ ''/v1/rooms'') credential None
       (Some (JObject [(''desktopDeviceId'', JString (dc_device_id credential)), (''name'', JString display_name),
                       (''rootAlias'', JString root_id)]))"

definition create_room_for_root ::
    "'n agent_env \<Rightarrow> (string \<Rightarrow> ServerRoom option) \<Rightarrow> string \<Rightarrow> string \<Rightarrow> string \<Rightarrow> DeviceCredential
       \<Rightarrow> ('n, AgentRoomSync) agent_op" where
  "create_room_for_root env decode root_id display_name base_url credential a =
     (let (response, a1) = send_json env decode (create_room_request root_id display_name base_url credential) a
      in case bind_res response (validate_server_room (dc_device_id credential)) of
           Inl error \<Rightarrow> (Inl error, record_error error Offline a1)
         | Inr room \<Rightarrow>
             if sm_root_alias room = root_id
             then (Inr \<lparr>rs_room_id = sm_id room, rs_root_id = root_id, rs_name = sm_name room, rs_created = True\<rparr>,
                   mark_online a1)
             else (let error = invalid_response_error ''created room response did not match the managed root alias''
                   in (Inl error, record_error error Offline a1)))"

definition find_or_create_room ::
    "'n agent_env \<Rightarrow> (string \<Rightarrow> ServerRoom list option) \<Rightarrow> (string \<Rightarrow> ServerRoom option) \<Rightarrow> string \<Rightarrow> string
       \<Rightarrow> string \<Rightarrow> DeviceCredential \<Rightarrow> ('n, AgentRoomSync) agent_op" where
  "find_or_create_room env decode_rooms decode_room root_id display_name base_url credential a =
     (let (response, a1) = send_json env decode_rooms (rooms_request base_url credential) a
      in case bind_res response (validate_server_rooms (dc_device_id credential)) of
           Inl error \<Rightarrow> (Inl error, record_error error Offline a1)
         | Inr rooms \<Rightarrow>
             (case find (\<lambda>room. sm_root_alias room = root_id) rooms of
                Some room \<Rightarrow>
                  (Inr \<lparr>rs_room_id = sm_id room, rs_root_id = root_id, rs_name = sm_name room, rs_created = False\<rparr>,
                   mark_online a1)
              | None \<Rightarrow> create_room_for_root env decode_room root_id display_name base_url credential a1))"

text \<open>The lock that serialises the two requests within the process leaves nothing to model: there
  is one caller.\<close>

definition ensure_room_for_root ::
    "'n agent_env \<Rightarrow> (string \<Rightarrow> ServerRoom list option) \<Rightarrow> (string \<Rightarrow> ServerRoom option) \<Rightarrow> string \<Rightarrow> string
       \<Rightarrow> ('n, AgentRoomSync) agent_op" where
  "ensure_room_for_root env decode_rooms decode_room root_id display_name =
     validated (validate_root_alias root_id)
       (validated (if trim display_name = [] \<or> length (chars (trim display_name)) > 120
                   then Inl (validation_error ''managed root display name must contain between 1 and 120 characters'')
                   else Inr ()) (\<lambda>a.
          case require_authenticated_config a of
            Inl e \<Rightarrow> (Inl e, a)
          | Inr (base_url, credential) \<Rightarrow>
              find_or_create_room env decode_rooms decode_room root_id (trim display_name) base_url credential a))"

definition root_id_for_room ::
    "'n agent_env \<Rightarrow> (string \<Rightarrow> ServerRoom list option) \<Rightarrow> string \<Rightarrow> ('n, AgentRoomSync) agent_op" where
  "root_id_for_room env decode room_id =
     validated (validate_opaque_value ''room id'' room_id 200)
       (call_json env decode rooms_request (\<lambda>credential response.
          bind_res (validate_server_rooms (dc_device_id credential) response) (\<lambda>rooms.
            case find (\<lambda>room. sm_id room = room_id) rooms of
              None \<Rightarrow> Inl (invalid_response_error ''command room is not registered for this device'')
            | Some room \<Rightarrow> Inr (room_sync room))))"

definition list_rooms :: "'n agent_env \<Rightarrow> (string \<Rightarrow> ServerRoom list option) \<Rightarrow> ('n, AgentRoomSync list) agent_op" where
  "list_rooms env decode =
     call_json env decode rooms_request (\<lambda>credential response.
       bind_res (validate_server_rooms (dc_device_id credential) response) (\<lambda>rooms. Inr (map room_sync rooms)))"

definition disconnect_room_request :: "string \<Rightarrow> string \<Rightarrow> string \<Rightarrow> DeviceCredential \<Rightarrow> http_request" where
  "disconnect_room_request room_id idempotency_key base_url credential =
     bearer_request ''DELETE'' (base_url @ ''/v1/agent/rooms/'' @ room_id) credential (Some idempotency_key) None"

definition disconnect_room :: "'n agent_env \<Rightarrow> string \<Rightarrow> string \<Rightarrow> ('n, unit) agent_op" where
  "disconnect_room env room_id idempotency_key =
     validated (validate_opaque_value ''room id'' room_id 200)
       (validated (validate_opaque_value ''room disconnect idempotency key'' idempotency_key 200)
         (call_empty env (disconnect_room_request room_id idempotency_key)))"

section \<open>Events\<close>

record SyncEvent =
  ev_event_id :: string
  ev_event_type :: string
  ev_schema_version :: nat
  ev_correlation_id :: string
  ev_aggregate_type :: string
  ev_aggregate_id :: string
  ev_device_id :: "string option"
  ev_room_id :: "string option"
  ev_sequence :: nat
  ev_occurred_at :: string
  ev_payload :: json

definition event_envelope_valid :: "SyncEvent \<Rightarrow> bool" where
  "event_envelope_valid event \<longleftrightarrow>
     ev_event_id event \<noteq> [] \<and> ev_event_type event \<noteq> [] \<and> ev_schema_version event \<noteq> 0
     \<and> ev_correlation_id event \<noteq> [] \<and> ev_aggregate_type event \<noteq> [] \<and> ev_aggregate_id event \<noteq> []
     \<and> ev_occurred_at event \<noteq> [] \<and> json_is_object (ev_payload event)"

fun validate_sync_events :: "nat \<Rightarrow> SyncEvent list \<Rightarrow> AgentError + SyncEvent list" where
  "validate_sync_events previous [] = Inr []"
| "validate_sync_events previous (event # events) =
     (if ev_sequence event \<le> previous \<or> \<not> event_envelope_valid event
      then Inl (invalid_response_error ''sync replay event failed envelope validation'')
      else bind_res (validate_sync_events (ev_sequence event) events) (\<lambda>validated. Inr (event # validated)))"

definition replay_events_request :: "nat \<Rightarrow> nat \<Rightarrow> string \<Rightarrow> DeviceCredential \<Rightarrow> http_request" where
  "replay_events_request after limit base_url credential =
     (bearer_request ''GET'' (base_url @ ''/v1/sync/events'') credential None None)
       \<lparr>rq_query := [(''after'', dec after), (''limit'', dec limit)]\<rparr>"

definition replay_events ::
    "'n agent_env \<Rightarrow> (string \<Rightarrow> SyncEvent list option) \<Rightarrow> nat \<Rightarrow> nat \<Rightarrow> ('n, SyncEvent list) agent_op" where
  "replay_events env decode after limit =
     validated (if 1 \<le> limit \<and> limit \<le> 200 then Inr ()
                else Inl (validation_error ''sync replay limit must be between 1 and 200''))
       (call_json env decode (replay_events_request after limit) (\<lambda>_. validate_sync_events after))"

section \<open>Proposals\<close>

text \<open>The submission is declared in \<^verbatim>\<open>command_processor.rs\<close>; its JSON follows the derived
  \<^verbatim>\<open>Serialize\<close> with camel-case names, absent README texts being left out.\<close>

datatype AgentProposalActionType = Move | Quarantine | CreateDir | CreateFile | ReadmeWrite

datatype AgentProposalConflictState = NoConflict | NameConflict

record AgentProposalSummary =
  ap_item_count :: nat
  ap_readme_draft :: "string option"
  ap_readme_diff :: "string option"

record AgentProposalItem =
  ai_item_order :: nat
  ai_action_type :: AgentProposalActionType
  ai_source_relative_path :: "string option"
  ai_destination_relative_path :: "string option"
  ai_reason_code :: string
  ai_precondition :: json
  ai_conflict_state :: AgentProposalConflictState

record AgentProposalSubmission =
  as_command_id :: string
  as_room_id :: string
  as_summary :: AgentProposalSummary
  as_expires_at :: "string option"
  as_items :: "AgentProposalItem list"

fun action_type_text :: "AgentProposalActionType \<Rightarrow> string" where
  "action_type_text Move = ''MOVE''"
| "action_type_text Quarantine = ''QUARANTINE''"
| "action_type_text CreateDir = ''CREATE_DIR''"
| "action_type_text CreateFile = ''CREATE_FILE''"
| "action_type_text ReadmeWrite = ''README_WRITE''"

fun conflict_state_text :: "AgentProposalConflictState \<Rightarrow> string" where
  "conflict_state_text NoConflict = ''NONE''"
| "conflict_state_text NameConflict = ''NAME_CONFLICT''"

definition summary_json :: "AgentProposalSummary \<Rightarrow> json" where
  "summary_json s =
     JObject ([(''itemCount'', JNumber (int (ap_item_count s)))]
       @ (case ap_readme_draft s of None \<Rightarrow> [] | Some t \<Rightarrow> [(''readmeDraft'', JString t)])
       @ (case ap_readme_diff s of None \<Rightarrow> [] | Some t \<Rightarrow> [(''readmeDiff'', JString t)]))"

definition item_json :: "AgentProposalItem \<Rightarrow> json" where
  "item_json i =
     JObject [(''itemOrder'', JNumber (int (ai_item_order i))), (''actionType'', JString (action_type_text (ai_action_type i))),
       (''sourceRelativePath'', json_of_option JString (ai_source_relative_path i)),
       (''destinationRelativePath'', json_of_option JString (ai_destination_relative_path i)),
       (''reasonCode'', JString (ai_reason_code i)), (''precondition'', ai_precondition i),
       (''conflictState'', JString (conflict_state_text (ai_conflict_state i)))]"

definition submission_json :: "AgentProposalSubmission \<Rightarrow> json" where
  "submission_json p =
     JObject [(''commandId'', JString (as_command_id p)), (''roomId'', JString (as_room_id p)),
       (''summary'', summary_json (as_summary p)), (''expiresAt'', json_of_option JString (as_expires_at p)),
       (''items'', JArray (map item_json (as_items p)))]"

definition submit_proposal_request :: "string \<Rightarrow> AgentProposalSubmission \<Rightarrow> string \<Rightarrow> DeviceCredential \<Rightarrow> http_request" where
  "submit_proposal_request idempotency_key proposal base_url credential =
     bearer_request ''POST'' (base_url @ ''/v1/agent/proposals'') credential (Some idempotency_key)
       (Some (submission_json proposal))"

definition submit_proposal :: "'n agent_env \<Rightarrow> string \<Rightarrow> AgentProposalSubmission \<Rightarrow> ('n, unit) agent_op" where
  "submit_proposal env idempotency_key proposal =
     validated (validate_opaque_value ''proposal idempotency key'' idempotency_key 200)
       (validated (if as_items proposal = [] \<or> length (as_items proposal) > 200
                   then Inl (validation_error ''proposal submission must contain between 1 and 200 items'') else Inr ())
         (call_empty env (submit_proposal_request idempotency_key proposal)))"

record AgentOpenProposal =
  op_proposal_id :: string
  op_command_id :: string
  op_room_id :: string
  op_status :: string

definition open_proposals_request :: "string \<Rightarrow> string \<Rightarrow> DeviceCredential \<Rightarrow> http_request" where
  "open_proposals_request room_id base_url credential =
     bearer_request ''GET'' (base_url @ ''/v1/rooms/'' @ room_id @ ''/proposals/open'') credential None None"

definition open_proposal_count_for_room ::
    "'n agent_env \<Rightarrow> (string \<Rightarrow> json list option) \<Rightarrow> string \<Rightarrow> ('n, nat) agent_op" where
  "open_proposal_count_for_room env decode room_id =
     validated (validate_opaque_value ''room id'' room_id 200)
       (call_json env decode (open_proposals_request room_id) (\<lambda>_ proposals. Inr (length proposals)))"

definition validate_open_proposal :: "AgentOpenProposal \<Rightarrow> AgentError + AgentOpenProposal" where
  "validate_open_proposal response =
     (if trim (op_proposal_id response) = [] \<or> trim (op_command_id response) = []
         \<or> trim (op_room_id response) = [] \<or> trim (op_status response) = []
      then Inl (invalid_response_error ''open proposal failed response validation'') else Inr response)"

definition open_proposals_for_room ::
    "'n agent_env \<Rightarrow> (string \<Rightarrow> AgentOpenProposal list option) \<Rightarrow> string \<Rightarrow> ('n, AgentOpenProposal list) agent_op" where
  "open_proposals_for_room env decode room_id =
     validated (validate_opaque_value ''room id'' room_id 200)
       (call_json env decode (open_proposals_request room_id)
          (\<lambda>_ responses. collect_results (map validate_open_proposal responses)))"

record ProposalItemResponse =
  pi_id :: string
  pi_proposal_id :: string
  pi_item_order :: int
  pi_action_type :: string
  pi_source_relative_path :: "string option"
  pi_destination_relative_path :: "string option"
  pi_reason_code :: string
  pi_precondition :: json
  pi_conflict_state :: string

record ProposalDetailResponse =
  pd_id :: string
  pd_command_id :: string
  pd_room_id :: string
  pd_status :: string
  pd_items :: "ProposalItemResponse list"

record AgentProposalDetails =
  ad_proposal_id :: string
  ad_command_id :: string
  ad_room_id :: string
  ad_status :: string
  ad_item_ids :: "string list"

definition validate_proposal_details :: "ProposalDetailResponse \<Rightarrow> AgentError + AgentProposalDetails" where
  "validate_proposal_details response =
     (if trim (pd_id response) = [] \<or> trim (pd_command_id response) = [] \<or> trim (pd_room_id response) = []
         \<or> trim (pd_status response) = [] \<or> pd_items response = [] \<or> length (pd_items response) > 200
      then Inl (invalid_response_error ''proposal detail failed response validation'')
      else bind_res (collect_results (map (\<lambda>item.
                       if trim (pi_id item) = [] \<or> pi_proposal_id item \<noteq> pd_id response
                       then Inl (invalid_response_error ''proposal item failed response validation'')
                       else Inr (pi_id item)) (pd_items response)))
             (\<lambda>item_ids. Inr \<lparr>ad_proposal_id = pd_id response, ad_command_id = pd_command_id response,
                ad_room_id = pd_room_id response, ad_status = pd_status response, ad_item_ids = item_ids\<rparr>))"

definition get_proposal_request :: "string \<Rightarrow> string \<Rightarrow> DeviceCredential \<Rightarrow> http_request" where
  "get_proposal_request proposal_id base_url credential =
     bearer_request ''GET'' (base_url @ ''/v1/proposals/'' @ proposal_id) credential None None"

definition get_proposal ::
    "'n agent_env \<Rightarrow> (string \<Rightarrow> ProposalDetailResponse option) \<Rightarrow> string \<Rightarrow> ('n, AgentProposalDetails) agent_op" where
  "get_proposal env decode proposal_id =
     validated (validate_opaque_value ''proposal id'' proposal_id 200)
       (call_json env decode (get_proposal_request proposal_id) (\<lambda>_. validate_proposal_details))"

section \<open>Decisions\<close>

record DecisionResponse =
  dr_id :: string
  dr_proposal_id :: string
  dr_decision_type :: string

definition validate_created_decision :: "string \<Rightarrow> DecisionResponse \<Rightarrow> AgentError + DecisionResponse" where
  "validate_created_decision expected_proposal_id response =
     (if trim (dr_id response) = [] \<or> dr_proposal_id response \<noteq> expected_proposal_id
         \<or> dr_decision_type response \<noteq> ''APPROVE''
      then Inl (invalid_response_error ''created decision failed response validation'') else Inr response)"

definition create_decision_request :: "string \<Rightarrow> string list \<Rightarrow> string \<Rightarrow> string \<Rightarrow> DeviceCredential \<Rightarrow> http_request" where
  "create_decision_request proposal_id approved_item_ids idempotency_key base_url credential =
     bearer_request ''POST'' (base_url @ ''/v1/proposals/'' @ proposal_id @ ''/decisions'') credential (Some idempotency_key)
       (Some (JObject [(''decisionType'', JString ''APPROVE''), (''approvedItemIds'', JArray (map JString approved_item_ids))]))"

fun validate_all :: "('a \<Rightarrow> AgentError + unit) \<Rightarrow> 'a list \<Rightarrow> AgentError + unit" where
  "validate_all check [] = Inr ()"
| "validate_all check (x # xs) = bind_res (check x) (\<lambda>_. validate_all check xs)"

definition create_decision ::
    "'n agent_env \<Rightarrow> (string \<Rightarrow> DecisionResponse option) \<Rightarrow> string \<Rightarrow> string list \<Rightarrow> string
       \<Rightarrow> ('n, DecisionResponse) agent_op" where
  "create_decision env decode proposal_id approved_item_ids idempotency_key =
     validated (validate_opaque_value ''proposal id'' proposal_id 200)
       (validated (validate_opaque_value ''decision idempotency key'' idempotency_key 128)
         (validated (if approved_item_ids = [] \<or> length approved_item_ids > 200
                     then Inl (validation_error ''approved item ids must contain between 1 and 200 items'') else Inr ())
           (validated (validate_all (\<lambda>item_id. validate_opaque_value ''approved item id'' item_id 200) approved_item_ids)
             (call_json env decode (create_decision_request proposal_id approved_item_ids idempotency_key)
                (\<lambda>_. validate_created_decision proposal_id)))))"

record PendingDecisionResponse =
  pn_decision :: DecisionResponse
  pn_proposal_id :: string
  pn_proposal_room_id :: string
  pn_items :: "ProposalItemResponse list"

record AgentProposalItemRecord =
  ar_item_order :: int
  ar_action_type :: string
  ar_source_relative_path :: "string option"
  ar_destination_relative_path :: "string option"
  ar_reason_code :: string
  ar_precondition :: json
  ar_conflict_state :: string

record AgentPendingDecision =
  pe_decision_id :: string
  pe_proposal_id :: string
  pe_room_id :: string
  pe_items :: "AgentProposalItemRecord list"

definition validate_proposal_item :: "string \<Rightarrow> ProposalItemResponse \<Rightarrow> AgentError + AgentProposalItemRecord" where
  "validate_proposal_item expected_proposal_id item =
     (if pi_id item = [] \<or> pi_proposal_id item \<noteq> expected_proposal_id \<or> pi_reason_code item = []
         \<or> pi_action_type item \<notin> {''MOVE'', ''QUARANTINE'', ''CREATE_DIR'', ''CREATE_FILE'', ''README_WRITE''}
         \<or> pi_conflict_state item \<notin> {''NONE'', ''NAME_CONFLICT'', ''UNSUPPORTED''}
      then Inl (invalid_response_error ''proposal item failed response validation'')
      else Inr \<lparr>ar_item_order = pi_item_order item, ar_action_type = pi_action_type item,
                ar_source_relative_path = pi_source_relative_path item,
                ar_destination_relative_path = pi_destination_relative_path item,
                ar_reason_code = pi_reason_code item, ar_precondition = pi_precondition item,
                ar_conflict_state = pi_conflict_state item\<rparr>)"

definition validate_pending_decision :: "PendingDecisionResponse \<Rightarrow> AgentError + AgentPendingDecision" where
  "validate_pending_decision response =
     (if dr_id (pn_decision response) = [] \<or> dr_proposal_id (pn_decision response) \<noteq> pn_proposal_id response
         \<or> dr_decision_type (pn_decision response) \<noteq> ''APPROVE'' \<or> pn_proposal_id response = []
         \<or> pn_proposal_room_id response = [] \<or> pn_items response = []
      then Inl (invalid_response_error ''pending decision failed response validation'')
      else bind_res (collect_results (map (validate_proposal_item (pn_proposal_id response)) (pn_items response)))
             (\<lambda>items. Inr \<lparr>pe_decision_id = dr_id (pn_decision response), pe_proposal_id = pn_proposal_id response,
                pe_room_id = pn_proposal_room_id response, pe_items = items\<rparr>))"

definition pending_decisions_request :: "string \<Rightarrow> DeviceCredential \<Rightarrow> http_request" where
  "pending_decisions_request base_url credential =
     bearer_request ''GET'' (base_url @ ''/v1/devices/'' @ dc_device_id credential @ ''/decisions/pending'') credential None None"

definition pending_decisions ::
    "'n agent_env \<Rightarrow> (string \<Rightarrow> PendingDecisionResponse list option) \<Rightarrow> ('n, AgentPendingDecision list) agent_op" where
  "pending_decisions env decode =
     call_json env decode pending_decisions_request
       (\<lambda>_ responses. collect_results (map validate_pending_decision responses))"

section \<open>Executions\<close>

record AgentExecution =
  ex_execution_id :: string
  ex_status :: string

definition validate_execution_response :: "AgentExecution \<Rightarrow> AgentError + AgentExecution" where
  "validate_execution_response response =
     (if ex_execution_id response = []
         \<or> ex_status response \<notin> {''EXECUTING'', ''SUCCEEDED'', ''PARTIALLY_SUCCEEDED'', ''FAILED'', ''STALE'', ''ROLLED_BACK''}
      then Inl (invalid_response_error ''execution failed response validation'') else Inr response)"

definition create_execution_request :: "string \<Rightarrow> string \<Rightarrow> string \<Rightarrow> DeviceCredential \<Rightarrow> http_request" where
  "create_execution_request proposal_id decision_id base_url credential =
     bearer_request ''POST'' (base_url @ ''/v1/agent/executions'') credential (Some decision_id)
       (Some (JObject [(''proposalId'', JString proposal_id), (''decisionId'', JString decision_id),
                       (''desktopDeviceId'', JString (dc_device_id credential))]))"

definition create_execution ::
    "'n agent_env \<Rightarrow> (string \<Rightarrow> AgentExecution option) \<Rightarrow> string \<Rightarrow> string \<Rightarrow> ('n, AgentExecution) agent_op" where
  "create_execution env decode proposal_id decision_id =
     validated (validate_opaque_value ''proposal id'' proposal_id 200)
       (validated (validate_opaque_value ''decision id'' decision_id 200)
         (call_json env decode (create_execution_request proposal_id decision_id) (\<lambda>_. validate_execution_response)))"

definition update_execution_request :: "string \<Rightarrow> string \<Rightarrow> json \<Rightarrow> string \<Rightarrow> DeviceCredential \<Rightarrow> http_request" where
  "update_execution_request execution_id status result_summary base_url credential =
     bearer_request ''PATCH'' (base_url @ ''/v1/agent/executions/'' @ execution_id) credential (Some execution_id)
       (Some (JObject [(''status'', JString status), (''resultSummary'', result_summary)]))"

definition update_execution ::
    "'n agent_env \<Rightarrow> (string \<Rightarrow> AgentExecution option) \<Rightarrow> string \<Rightarrow> string \<Rightarrow> json \<Rightarrow> ('n, AgentExecution) agent_op" where
  "update_execution env decode execution_id status result_summary =
     validated (validate_opaque_value ''execution id'' execution_id 200)
       (validated (if status \<in> {''SUCCEEDED'', ''PARTIALLY_SUCCEEDED'', ''FAILED'', ''STALE'', ''ROLLED_BACK''} then Inr ()
                   else Inl (validation_error ''execution status must be SUCCEEDED, PARTIALLY_SUCCEEDED, FAILED, STALE, or ROLLED_BACK''))
         (validated (if json_is_object result_summary then Inr ()
                     else Inl (validation_error ''execution result summary must be a JSON object''))
           (call_json env decode (update_execution_request execution_id status result_summary)
              (\<lambda>_. validate_execution_response))))"

end
