(* ===== verification/Cache_Crypto.thy ===== *)
theory Cache_Crypto
  imports Filesystem Codec
begin

text \<open>
  The encryption of files for the server's smart cache (\<^verbatim>\<open>smart_cache_crypto.rs\<close>): the key kept in
  the operating system's keyring, the envelope of an encrypted object and its metadata.

  AES-256-GCM, SHA-256 and \<^verbatim>\<open>serde_json\<close> are parameters; what is used of them is that the ciphertext
  is 16 bytes longer than the plaintext, that a digest has 32 bytes, and that a stored key reads
  back. Random bytes come from a stream.

  Shown here: the hexadecimal texts read back, a key that was generated and stored is the one the
  next call loads, and the envelope has the announced size.
\<close>

section \<open>Hexadecimal\<close>

definition hex_lower :: "string \<Rightarrow> string" where
  "hex_lower bytes = concat (map (\<lambda>byte. hex_digits 2 (of_char byte)) bytes)"

definition hex_value :: "char \<Rightarrow> nat option" where
  "hex_value value =
     (let b = (of_char value :: nat)
      in if 48 \<le> b \<and> b \<le> 57 then Some (b - 48)
         else if 97 \<le> b \<and> b \<le> 102 then Some (b - 97 + 10)
         else if 65 \<le> b \<and> b \<le> 70 then Some (b - 65 + 10)
         else None)"

fun decode_hex_pairs :: "string \<Rightarrow> string + string" where
  "decode_hex_pairs (h # l # rest) =
     (case hex_value h of None \<Rightarrow> Inl ''invalid hex''
      | Some high \<Rightarrow> (case hex_value l of None \<Rightarrow> Inl ''invalid hex''
         | Some low \<Rightarrow> bind_res (decode_hex_pairs rest) (\<lambda>bytes. Inr (char_of (high * 16 + low) # bytes))))"
| "decode_hex_pairs _ = Inr []"

definition decode_hex_array :: "nat \<Rightarrow> string \<Rightarrow> string + string" where
  "decode_hex_array n value =
     (if length value \<noteq> n * 2 then Inl ''hex length mismatch'' else decode_hex_pairs value)"

section \<open>The key\<close>

record SmartCacheKeyMaterial =
  km_version :: nat
  km_key_id :: string
  km_key_hex :: string

record SmartCacheEncryptionMetadata =
  em_algorithm :: string
  em_format :: string
  em_key_id :: string
  em_nonce_hex :: string
  em_plaintext_size_bytes :: nat
  em_plaintext_sha256 :: string

record EncryptedSmartCacheObject =
  eo_bytes :: string
  eo_size_bytes :: nat
  eo_sha256 :: string
  eo_metadata :: SmartCacheEncryptionMetadata

record crypto_state =
  cr_keyring :: "string option"
  cr_faults :: "bool list"
  cr_random :: "nat \<Rightarrow> char"
  cr_position :: nat

definition SMART_CACHE_ENCRYPTION_ALGORITHM :: string where
  "SMART_CACHE_ENCRYPTION_ALGORITHM = ''AES-256-GCM''"

definition SMART_CACHE_ENCRYPTION_FORMAT :: string where
  "SMART_CACHE_ENCRYPTION_FORMAT = ''MKS1_NONCE_CIPHERTEXT_TAG''"

abbreviation (input) "KEY_VERSION \<equiv> 1 :: nat"
abbreviation (input) "KEY_ID_BYTES \<equiv> 16 :: nat"
abbreviation (input) "KEY_BYTES \<equiv> 32 :: nat"
abbreviation (input) "NONCE_BYTES \<equiv> 12 :: nat"
abbreviation (input) "TAG_BYTES \<equiv> 16 :: nat"

definition ENVELOPE_MAGIC :: string where
  "ENVELOPE_MAGIC = ''MKS1''"

definition fill_bytes :: "nat \<Rightarrow> crypto_state \<Rightarrow> string \<times> crypto_state" where
  "fill_bytes n s =
     (map (\<lambda>i. cr_random s (cr_position s + i)) [0..<n], s\<lparr>cr_position := cr_position s + n\<rparr>)"

definition keyring_call :: "crypto_state \<Rightarrow> bool \<times> crypto_state" where
  "keyring_call s =
     (case cr_faults s of [] \<Rightarrow> (True, s) | failed # rest \<Rightarrow> (\<not> failed, s\<lparr>cr_faults := rest\<rparr>))"

definition generate_key_material :: "crypto_state \<Rightarrow> SmartCacheKeyMaterial \<times> crypto_state" where
  "generate_key_material s =
     (let (key, s1) = fill_bytes KEY_BYTES s;
          (key_id, s2) = fill_bytes KEY_ID_BYTES s1
      in (\<lparr>km_version = KEY_VERSION, km_key_id = ''mks1-'' @ hex_lower key_id, km_key_hex = hex_lower key\<rparr>, s2))"

definition parse_key_material ::
    "(string \<Rightarrow> SmartCacheKeyMaterial option) \<Rightarrow> string \<Rightarrow> string + SmartCacheKeyMaterial" where
  "parse_key_material decode serialized =
     (case decode serialized of
        None \<Rightarrow> Inl ''UNCONFIGURED: smart cache encryption key is corrupt''
      | Some material \<Rightarrow>
          if km_version material \<noteq> KEY_VERSION \<or> length (trim (km_key_id material)) < 16
             \<or> \<not> is_ok (decode_hex_array KEY_BYTES (km_key_hex material))
          then Inl ''UNCONFIGURED: smart cache encryption key is invalid''
          else Inr material)"

definition load_or_create_key_material ::
    "(SmartCacheKeyMaterial \<Rightarrow> string) \<Rightarrow> (string \<Rightarrow> SmartCacheKeyMaterial option) \<Rightarrow> crypto_state
       \<Rightarrow> (string + SmartCacheKeyMaterial) \<times> crypto_state" where
  "load_or_create_key_material encode decode s =
     (case keyring_call s of
        (False, s1) \<Rightarrow> (Inl ''UNCONFIGURED: smart cache encryption key store unavailable'', s1)
      | (True, s1) \<Rightarrow>
          (case keyring_call s1 of
             (False, s2) \<Rightarrow> (Inl ''UNCONFIGURED: cannot load smart cache encryption key'', s2)
           | (True, s2) \<Rightarrow>
               (case cr_keyring s2 of
                  Some serialized \<Rightarrow> (parse_key_material decode serialized, s2)
                | None \<Rightarrow>
                    (let (material, s3) = generate_key_material s2
                     in case keyring_call s3 of
                          (False, s4) \<Rightarrow> (Inl ''UNCONFIGURED: cannot persist smart cache encryption key'', s4)
                        | (True, s4) \<Rightarrow> (Inr material, s4\<lparr>cr_keyring := Some (encode material)\<rparr>)))))"

section \<open>The envelope\<close>

definition checked_add_u64 :: "nat \<Rightarrow> nat option \<Rightarrow> nat option" where
  "checked_add_u64 n value =
     (case value of None \<Rightarrow> None | Some v \<Rightarrow> if v + n < 2 ^ 64 then Some (v + n) else None)"

definition encrypted_smart_cache_object_size :: "nat \<Rightarrow> string + nat" where
  "encrypted_smart_cache_object_size plaintext_size_bytes =
     (case checked_add_u64 TAG_BYTES (checked_add_u64 NONCE_BYTES
              (checked_add_u64 (length ENVELOPE_MAGIC) (Some plaintext_size_bytes))) of
        None \<Rightarrow> Inl ''smart cache object size overflow'' | Some n \<Rightarrow> Inr n)"

definition encrypt_smart_cache_bytes_with_key ::
    "(string \<Rightarrow> string) \<Rightarrow> (string \<Rightarrow> string \<Rightarrow> string \<Rightarrow> string option) \<Rightarrow> string \<Rightarrow> string \<Rightarrow> string \<Rightarrow> string
       \<Rightarrow> string + EncryptedSmartCacheObject" where
  "encrypt_smart_cache_bytes_with_key sha256 aes_gcm plaintext key_id key nonce =
     (if length (trim key_id) < 16 then Inl ''smart cache encryption key id is too short''
      else case aes_gcm key nonce plaintext of
             None \<Rightarrow> Inl ''smart cache encryption failed''
           | Some ciphertext_and_tag \<Rightarrow>
               (let bytes = ENVELOPE_MAGIC @ nonce @ ciphertext_and_tag
                in Inr \<lparr>eo_bytes = bytes, eo_size_bytes = length bytes, eo_sha256 = hex_lower (sha256 bytes),
                        eo_metadata = \<lparr>em_algorithm = SMART_CACHE_ENCRYPTION_ALGORITHM,
                                       em_format = SMART_CACHE_ENCRYPTION_FORMAT, em_key_id = key_id,
                                       em_nonce_hex = hex_lower nonce, em_plaintext_size_bytes = length plaintext,
                                       em_plaintext_sha256 = hex_lower (sha256 plaintext)\<rparr>\<rparr>))"

definition encrypt_smart_cache_file ::
    "(SmartCacheKeyMaterial \<Rightarrow> string) \<Rightarrow> (string \<Rightarrow> SmartCacheKeyMaterial option) \<Rightarrow> (string \<Rightarrow> string)
       \<Rightarrow> (string \<Rightarrow> string \<Rightarrow> string \<Rightarrow> string option) \<Rightarrow> world \<Rightarrow> string \<Rightarrow> nat \<Rightarrow> crypto_state
       \<Rightarrow> (string + EncryptedSmartCacheObject) \<times> crypto_state" where
  "encrypt_smart_cache_file encode decode sha256 aes_gcm w path expected_plaintext_size_bytes s =
     (case load_or_create_key_material encode decode s of
        (Inl e, s1) \<Rightarrow> (Inl e, s1)
      | (Inr key_material, s1) \<Rightarrow>
          (case decode_hex_array KEY_BYTES (km_key_hex key_material) of
             Inl e \<Rightarrow> (Inl e, s1)
           | Inr key \<Rightarrow>
               (let (nonce, s2) = fill_bytes NONCE_BYTES s1
                in (bind_res (map_err (\<lambda>e. ''cannot read smart cache source file: '' @ io_error_to_string e) (fs_read w path))
                      (\<lambda>plaintext.
                         if length plaintext \<noteq> expected_plaintext_size_bytes
                         then Inl ''smart cache source size changed before encryption''
                         else encrypt_smart_cache_bytes_with_key sha256 aes_gcm plaintext (km_key_id key_material) key nonce),
                    s2))))"

section \<open>Hexadecimal texts read back\<close>

lemma length_hex_lower [simp]: "length (hex_lower bytes) = 2 * length bytes"
  by (induction bytes) (simp_all add: hex_lower_def)

lemma hex_value_digit_char: "d < 16 \<Longrightarrow> hex_value (digit_char d) = Some d"
  by (simp add: hex_value_def digit_char_def Let_def)

lemma nibbles: "(of_char b :: nat) div 16 < 16" "(of_char b :: nat) mod 16 < 16"
  using nat_of_char_less_256 [of b] by (simp_all add: less_mult_imp_div_less)

lemma hex_byte:
  "hex_digits 2 (of_char b) = [digit_char (of_char b div 16), digit_char (of_char b mod 16)]"
  using nibbles [of b] by (simp add: numeral_2_eq_2)

lemma decode_hex_lower: "decode_hex_array (length bytes) (hex_lower bytes) = Inr bytes"
proof -
  have "decode_hex_pairs (hex_lower bytes) = Inr bytes"
  proof (induction bytes)
    case (Cons b bytes)
    have "hex_value (digit_char (of_char b div 16)) = Some (of_char b div 16)"
      "hex_value (digit_char (of_char b mod 16)) = Some (of_char b mod 16)"
      by (rule hex_value_digit_char, rule nibbles)+
    moreover have "(of_char b :: nat) div 16 * 16 + of_char b mod 16 = of_char b" by simp
    ultimately show ?case using Cons by (simp add: hex_lower_def hex_byte)
  qed (simp add: hex_lower_def)
  then show ?thesis by (simp add: decode_hex_array_def)
qed

lemma hex_lower_clean: "list_all (\<lambda>c. c \<in> set ''0123456789abcdef'') (hex_lower bytes)"
proof -
  have "digit_char d \<in> set ''0123456789abcdef''" if "d < 16" for d
  proof -
    have "list_all (\<lambda>d. digit_char d \<in> set ''0123456789abcdef'') [0..<16]" by code_simp
    with that show ?thesis by (simp add: list_all_iff)
  qed
  then have "list_all (\<lambda>c. c \<in> set ''0123456789abcdef'') (hex_digits 2 (of_char b))" for b
    unfolding hex_byte using nibbles [of b] by (simp only: list.pred_inject simp_thms)
  then show ?thesis by (induction bytes) (simp_all add: hex_lower_def del: hex_digits.simps)
qed

text \<open>\<^verbatim>\<open>trim\<close> leaves a text of visible ASCII characters alone.\<close>

definition visible_ascii :: "char \<Rightarrow> bool" where
  "visible_ascii c \<longleftrightarrow> 32 < (of_char c :: nat) \<and> (of_char c :: nat) < 127"

lemma trim_visible:
  assumes "list_all visible_ascii s"
  shows "trim s = s"
proof -
  have vis: "\<forall>c \<in> set s. 32 < (of_char c :: nat) \<and> (of_char c :: nat) < 127"
    using assms by (simp add: list_all_iff visible_ascii_def)
  then have ch: "chars s = map (\<lambda>c. [c]) s" by (intro chars_ascii) auto
  have "\<not> is_whitespace [c]" if "c \<in> set s" for c
    using vis that by (auto simp: is_whitespace_def whitespace_def)
  then have "dropWhile is_whitespace (chars s) = chars s" "dropWhile is_whitespace (rev (chars s)) = rev (chars s)"
    unfolding ch by (auto simp: dropWhile_eq_self_iff hd_map hd_rev last_map simp flip: rev_map)
  then show ?thesis by (simp add: trim_def)
qed

lemma hex_visible: "list_all visible_ascii (hex_lower bytes)"
proof -
  have "list_all visible_ascii ''0123456789abcdef''" by code_simp
  with hex_lower_clean [of bytes] show ?thesis unfolding list_all_iff by blast
qed

section \<open>Properties\<close>

text \<open>
  A smart-cache key survives its storage. When no key is stored yet and the keyring works, the
  call generates one and stores it; every later call loads exactly that key, and its hexadecimal
  text decodes to the 32 random bytes it was made of. The hypothesis is that the JSON text of a key
  reads back as the key.
\<close>

theorem key_material_roundtrip:
  assumes "\<And>material. decode (encode material) = Some material"
    and "cr_keyring s = None" "cr_faults s = []"
  shows "\<exists>material s'. load_or_create_key_material encode decode s = (Inr material, s')
    \<and> load_or_create_key_material encode decode s' = (Inr material, s')
    \<and> decode_hex_array KEY_BYTES (km_key_hex material) = Inr (fst (fill_bytes KEY_BYTES s))"
proof -
  obtain material s1 where gen: "generate_key_material s = (material, s1)" by fastforce
  let ?key = "fst (fill_bytes KEY_BYTES s)"
  define bytes where "bytes = fst (fill_bytes KEY_ID_BYTES (snd (fill_bytes KEY_BYTES s)))"
  have mat: "km_version material = KEY_VERSION" "km_key_hex material = hex_lower ?key"
      "km_key_id material = ''mks1-'' @ hex_lower bytes" "cr_faults s1 = []" "cr_keyring s1 = None"
    using gen assms(2,3) by (auto simp: generate_key_material_def fill_bytes_def Let_def bytes_def)
  have bytes: "length bytes = KEY_ID_BYTES" by (simp add: bytes_def fill_bytes_def)
  have key: "decode_hex_array KEY_BYTES (km_key_hex material) = Inr ?key"
    using decode_hex_lower [of ?key] mat(2) by (simp add: fill_bytes_def)
  have "trim (km_key_id material) = km_key_id material"
    by (rule trim_visible) (use hex_visible [of bytes] in \<open>simp add: mat(3) visible_ascii_def\<close>)
  then have "\<not> length (trim (km_key_id material)) < 16" using bytes by (simp add: mat(3))
  then have parse: "parse_key_material decode (encode material) = Inr material"
    using mat(1) key assms(1) by (simp add: parse_key_material_def)
  show ?thesis
    using gen mat(4,5) assms(2,3) parse key
    by (intro exI [of _ material] exI [of _ "s1\<lparr>cr_keyring := Some (encode material)\<rparr>"])
      (simp add: load_or_create_key_material_def keyring_call_def)
qed

definition put_key :: "SmartCacheKeyMaterial printer" where
  "put_key = put_pair put_nat (put_pair put_string put_string) \<circ> (\<lambda>m. (km_version m, km_key_id m, km_key_hex m))"

definition get_key :: "SmartCacheKeyMaterial parser" where
  "get_key = get_map (\<lambda>(v, i, h). \<lparr>km_version = v, km_key_id = i, km_key_hex = h\<rparr>)
     (get_pair get_nat (get_pair get_string get_string))"

lemma codec_key: "codec put_key get_key"
  unfolding put_key_def get_key_def by (intro codec_map codec_pair codec_nat codec_string) simp

definition decode_key :: "string \<Rightarrow> SmartCacheKeyMaterial option" where
  "decode_key t = map_option fst (get_key t)"

lemma decode_put_key: "decode_key (put_key m) = Some m"
proof -
  have "get_key (put_key m @ []) = Some (m, [])" using codec_key unfolding codec_def by blast
  then show ?thesis by (simp add: decode_key_def)
qed

definition sample_crypto :: crypto_state where
  "sample_crypto = \<lparr>cr_keyring = None, cr_faults = [], cr_random = (\<lambda>n. char_of (n * 7)), cr_position = 0\<rparr>"

theorem key_material_roundtrip_witness:
  "\<exists>material s'. load_or_create_key_material put_key decode_key sample_crypto = (Inr material, s')
    \<and> load_or_create_key_material put_key decode_key s' = (Inr material, s')
    \<and> decode_hex_array 32 (km_key_hex material) = Inr (fst (fill_bytes 32 sample_crypto))"
  using key_material_roundtrip [of decode_key put_key sample_crypto] decode_put_key
  by (simp add: sample_crypto_def)

text \<open>
  An encrypted object has the announced size and a well-formed description. With an encryption
  that adds a 16-byte tag and a digest of 32 bytes, encrypting a file yields an envelope whose size
  is the one computed from the plaintext's size, which begins with the magic bytes and the nonce,
  and whose nonce and digest are described in lower-case hexadecimal of 24 and 64 digits.
\<close>

theorem encrypted_object_described:
  assumes "\<And>bytes. length (sha256 bytes) = 32"
    and "\<And>key nonce plain cipher. aes_gcm key nonce plain = Some cipher \<Longrightarrow> length cipher = length plain + TAG_BYTES"
    and "length plaintext < 2 ^ 64 - 32" "length nonce = NONCE_BYTES"
    and "encrypt_smart_cache_bytes_with_key sha256 aes_gcm plaintext key_id key nonce = Inr encrypted"
  shows "encrypted_smart_cache_object_size (length plaintext) = Inr (eo_size_bytes encrypted)
    \<and> eo_size_bytes encrypted = length (eo_bytes encrypted)
    \<and> take 16 (eo_bytes encrypted) = ENVELOPE_MAGIC @ nonce
    \<and> length (em_nonce_hex (eo_metadata encrypted)) = 24
    \<and> decode_hex_array NONCE_BYTES (em_nonce_hex (eo_metadata encrypted)) = Inr nonce
    \<and> length (em_plaintext_sha256 (eo_metadata encrypted)) = 64 \<and> length (eo_sha256 encrypted) = 64"
proof -
  obtain cipher where cipher: "aes_gcm key nonce plaintext = Some cipher"
    and enc: "eo_bytes encrypted = ENVELOPE_MAGIC @ nonce @ cipher" "eo_size_bytes encrypted = length (ENVELOPE_MAGIC @ nonce @ cipher)"
      "eo_sha256 encrypted = hex_lower (sha256 (ENVELOPE_MAGIC @ nonce @ cipher))"
      "em_nonce_hex (eo_metadata encrypted) = hex_lower nonce" "em_plaintext_sha256 (eo_metadata encrypted) = hex_lower (sha256 plaintext)"
    using assms(5) by (auto simp: encrypt_smart_cache_bytes_with_key_def Let_def split: if_splits option.splits)
  note len = assms(2) [OF cipher]
  have "encrypted_smart_cache_object_size (length plaintext) = Inr (eo_size_bytes encrypted)"
    using assms(3,4) len
    by (simp add: enc encrypted_smart_cache_object_size_def checked_add_u64_def ENVELOPE_MAGIC_def)
  moreover have "take 16 (eo_bytes encrypted) = ENVELOPE_MAGIC @ nonce"
    using assms(4) by (simp add: enc ENVELOPE_MAGIC_def)
  moreover have "decode_hex_array NONCE_BYTES (hex_lower nonce) = Inr nonce"
    using decode_hex_lower [of nonce] assms(4) by simp
  ultimately show ?thesis using assms(1,4) by (simp add: enc)
qed

theorem encrypted_object_described_witness:
  "\<exists>encrypted. encrypt_smart_cache_bytes_with_key (\<lambda>_. replicate 32 (CHR ''h''))
       (\<lambda>key nonce plain. Some (plain @ replicate 16 (CHR ''t''))) ''hello'' ''mks1-0123456789abcdef'' ''key'' ''nonce_nonce_'' = Inr encrypted
     \<and> eo_size_bytes encrypted = 37 \<and> length (em_nonce_hex (eo_metadata encrypted)) = 24"
proof -
  let ?run = "encrypt_smart_cache_bytes_with_key (\<lambda>_. replicate 32 (CHR ''h''))
       (\<lambda>key nonce plain. Some (plain @ replicate 16 (CHR ''t''))) ''hello'' ''mks1-0123456789abcdef'' ''key'' ''nonce_nonce_''"
  have "trim ''mks1-0123456789abcdef'' = ''mks1-0123456789abcdef''" by (rule trim_visible) code_simp
  then obtain encrypted where run: "?run = Inr encrypted"
    by (simp add: encrypt_smart_cache_bytes_with_key_def Let_def)
  have "encrypted_smart_cache_object_size (length ''hello'') = Inr 37"
    by (simp add: encrypted_smart_cache_object_size_def checked_add_u64_def ENVELOPE_MAGIC_def)
  with encrypted_object_described [OF _ _ _ _ run] run show ?thesis by simp
qed

end
