(* ===== verification/Agent_Files.thy ===== *)
theory Agent_Files
  imports Agent_Calls Cleanliness Cache_Crypto
begin

text \<open>
  The calls of \<^verbatim>\<open>agent.rs\<close> that concern files: the server's requests to browse, its tool requests,
  file transfers, the smart cache and the snapshots of a room.
\<close>

section \<open>Validation of arguments\<close>

definition validate_relative_path :: "string \<Rightarrow> string \<Rightarrow> AgentError + unit" where
  "validate_relative_path label path =
     (if path = [] \<or> length path > 1024 \<or> prefix ''/'' path \<or> prefix [CHR 0x5C] path
         \<or> CHR 0x00 \<in> set path \<or> CHR '':'' \<in> set path
         \<or> list_ex (\<lambda>part. part = [] \<or> part = ''.'' \<or> part = ''..'')
              (split_on (\<lambda>c. c = CHR ''/'' \<or> c = CHR 0x5C) path)
      then Inl (validation_error (label @ '' must be a managed-root-relative path'')) else Inr ())"

definition is_ascii_hexdigit :: "char \<Rightarrow> bool" where
  "is_ascii_hexdigit c \<longleftrightarrow>
     (let b = (of_char c :: nat) in (48 \<le> b \<and> b \<le> 57) \<or> (65 \<le> b \<and> b \<le> 70) \<or> (97 \<le> b \<and> b \<le> 102))"

definition is_valid_sha256 :: "string \<Rightarrow> bool" where
  "is_valid_sha256 value \<longleftrightarrow>
     length value = 64
     \<and> list_all (\<lambda>c. is_ascii_hexdigit c \<and> \<not> (65 \<le> (of_char c :: nat) \<and> (of_char c :: nat) \<le> 90)) value"

definition validate_sha256 :: "string \<Rightarrow> AgentError + unit" where
  "validate_sha256 value =
     (if is_valid_sha256 value then Inr ()
      else Inl (validation_error ''file transfer sha256 must be 64 lowercase hex characters''))"

definition positive_size :: "string \<Rightarrow> nat \<Rightarrow> AgentError + unit" where
  "positive_size message size_bytes = (if size_bytes = 0 then Inl (validation_error message) else Inr ())"

section \<open>Browsing\<close>

datatype AgentFileSearchScope = CurrentDirectory | ManagedRoot

record FileBrowseRequestResponse =
  fb_id :: string
  fb_room_id :: string
  fb_relative_directory :: string
  fb_cursor :: "string option"
  fb_query :: "string option"
  fb_extensions :: "string list"
  fb_limit :: nat
  fb_search_scope :: AgentFileSearchScope
  fb_status :: string

definition file_browse_extensions_are_valid :: "string list \<Rightarrow> bool" where
  "file_browse_extensions_are_valid extensions \<longleftrightarrow>
     extensions = []
     \<or> (length extensions \<le> 50
        \<and> list_all (\<lambda>extension. length extension \<ge> 2 \<and> hd extension = CHR ''.''
                        \<and> list_all is_ascii_alphanumeric (tl extension)) extensions)"

definition validate_file_browse_request :: "FileBrowseRequestResponse \<Rightarrow> AgentError + FileBrowseRequestResponse" where
  "validate_file_browse_request response =
     (if fb_id response = [] \<or> fb_room_id response = [] \<or> length (fb_relative_directory response) > 1024
         \<or> (case fb_cursor response of None \<Rightarrow> False | Some cursor \<Rightarrow> length cursor > 512)
         \<or> (case fb_query response of None \<Rightarrow> False
            | Some query \<Rightarrow> \<not> (2 \<le> length (chars (trim query)) \<and> length (chars (trim query)) \<le> 100) \<or> query \<noteq> trim query)
         \<or> fb_limit response = 0 \<or> fb_limit response > 200
         \<or> \<not> file_browse_extensions_are_valid (fb_extensions response)
         \<or> (fb_query response = None \<and> fb_extensions response \<noteq> []) \<or> fb_status response \<noteq> ''REQUESTED''
      then Inl (invalid_response_error ''file browse request failed response validation'') else Inr response)"

definition pending_browse_request :: "string \<Rightarrow> DeviceCredential \<Rightarrow> http_request" where
  "pending_browse_request base_url credential =
     bearer_request ''GET'' (base_url @ ''/v1/devices/'' @ dc_device_id credential @ ''/file-browse-requests/pending'')
       credential None None"

definition pending_file_browse_requests ::
    "'n agent_env \<Rightarrow> (string \<Rightarrow> FileBrowseRequestResponse list option) \<Rightarrow> ('n, FileBrowseRequestResponse list) agent_op" where
  "pending_file_browse_requests env decode =
     call_json env decode pending_browse_request
       (\<lambda>_ responses. collect_results (map validate_file_browse_request responses))"

datatype AgentFileBrowseEntryType = File | Directory

record AgentFileBrowseEntry =
  be_name :: string
  be_relative_path :: string
  be_entry_type :: AgentFileBrowseEntryType
  be_size_bytes :: "nat option"
  be_modified_at :: string
  be_file_id :: string

record AgentFileBrowseResult =
  br_entries :: "AgentFileBrowseEntry list"
  br_next_cursor :: "string option"
  br_desktop_generation :: string

definition browse_entry_json :: "AgentFileBrowseEntry \<Rightarrow> json" where
  "browse_entry_json e =
     JObject [(''name'', JString (be_name e)), (''relativePath'', JString (be_relative_path e)),
       (''type'', JString (case be_entry_type e of File \<Rightarrow> ''FILE'' | Directory \<Rightarrow> ''DIRECTORY'')),
       (''sizeBytes'', json_of_option (JNumber \<circ> int) (be_size_bytes e)), (''modifiedAt'', JString (be_modified_at e)),
       (''fileId'', JString (be_file_id e))]"

definition browse_result_json :: "AgentFileBrowseResult \<Rightarrow> json" where
  "browse_result_json r =
     JObject [(''entries'', JArray (map browse_entry_json (br_entries r))),
       (''nextCursor'', json_of_option JString (br_next_cursor r)), (''desktopGeneration'', JString (br_desktop_generation r))]"

definition browse_result_request :: "string \<Rightarrow> AgentFileBrowseResult \<Rightarrow> string \<Rightarrow> DeviceCredential \<Rightarrow> http_request" where
  "browse_result_request request_id browse_result base_url credential =
     bearer_request ''POST'' (base_url @ ''/v1/agent/file-browse-requests/'' @ request_id @ ''/result'') credential None
       (Some (browse_result_json browse_result))"

definition complete_file_browse_request ::
    "'n agent_env \<Rightarrow> string \<Rightarrow> AgentFileBrowseResult \<Rightarrow> ('n, unit) agent_op" where
  "complete_file_browse_request env request_id browse_result =
     validated (validate_opaque_value ''file browse request id'' request_id 200)
       (validated (if length (br_entries browse_result) > 200
                   then Inl (validation_error ''file browse result cannot contain more than 200 entries'') else Inr ())
         (validated (if br_desktop_generation browse_result = [] \<or> length (br_desktop_generation browse_result) > 128
                     then Inl (validation_error ''file browse desktopGeneration must contain between 1 and 128 characters'')
                     else Inr ())
           (validated (if (case br_next_cursor browse_result of None \<Rightarrow> False | Some cursor \<Rightarrow> length cursor > 512)
                       then Inl (validation_error ''file browse nextCursor cannot exceed 512 characters'') else Inr ())
             (call_empty env (browse_result_request request_id browse_result)))))"

datatype AgentFileBrowseFailureCode = DeviceOffline | TimedOut | CursorInvalidated | OutsideManagedRoot

fun browse_failure_text :: "AgentFileBrowseFailureCode \<Rightarrow> string" where
  "browse_failure_text DeviceOffline = ''DEVICE_OFFLINE''"
| "browse_failure_text TimedOut = ''TIMED_OUT''"
| "browse_failure_text CursorInvalidated = ''CURSOR_INVALIDATED''"
| "browse_failure_text OutsideManagedRoot = ''OUTSIDE_MANAGED_ROOT''"

definition browse_failure_request ::
    "string \<Rightarrow> AgentFileBrowseFailureCode \<Rightarrow> string \<Rightarrow> DeviceCredential \<Rightarrow> http_request" where
  "browse_failure_request request_id failure_code base_url credential =
     bearer_request ''POST'' (base_url @ ''/v1/agent/file-browse-requests/'' @ request_id @ ''/failure'') credential None
       (Some (JObject [(''failureCode'', JString (browse_failure_text failure_code))]))"

definition fail_file_browse_request ::
    "'n agent_env \<Rightarrow> string \<Rightarrow> AgentFileBrowseFailureCode \<Rightarrow> ('n, unit) agent_op" where
  "fail_file_browse_request env request_id failure_code =
     validated (validate_opaque_value ''file browse request id'' request_id 200)
       (call_empty env (browse_failure_request request_id failure_code))"

section \<open>Tool requests\<close>

record AgentToolStep =
  ts_id :: string
  ts_tool_name :: string
  ts_input :: json

record AgentToolRequest =
  tr_step :: AgentToolStep
  tr_run :: json
  tr_room :: json

definition pending_tools_request :: "string \<Rightarrow> DeviceCredential \<Rightarrow> http_request" where
  "pending_tools_request base_url credential =
     bearer_request ''GET'' (base_url @ ''/v1/devices/'' @ dc_device_id credential @ ''/agent-tools/pending'') credential None None"

definition pending_agent_tools ::
    "'n agent_env \<Rightarrow> (string \<Rightarrow> AgentToolRequest list option) \<Rightarrow> ('n, AgentToolRequest list) agent_op" where
  "pending_agent_tools env decode = call_json env decode pending_tools_request (\<lambda>_. Inr)"

definition tool_result_request ::
    "string \<Rightarrow> string \<Rightarrow> json \<Rightarrow> string option \<Rightarrow> string \<Rightarrow> DeviceCredential \<Rightarrow> http_request" where
  "tool_result_request step_id status result_metadata failure_code base_url credential =
     bearer_request ''POST'' (base_url @ ''/v1/agent/agent-tools/'' @ step_id @ ''/result'') credential None
       (Some (JObject [(''status'', JString status), (''resultMetadata'', result_metadata),
                       (''failureCode'', json_of_option JString failure_code)]))"

definition complete_agent_tool ::
    "'n agent_env \<Rightarrow> string \<Rightarrow> string \<Rightarrow> json \<Rightarrow> string option \<Rightarrow> ('n, unit) agent_op" where
  "complete_agent_tool env step_id status result_metadata failure_code =
     validated (validate_opaque_value ''agent tool step id'' step_id 200)
       (validated (if status \<in> {''SUCCEEDED'', ''FAILED''} then Inr () else Inl (validation_error ''invalid agent tool status''))
         (call_empty env (tool_result_request step_id status result_metadata failure_code)))"

section \<open>File transfers\<close>

datatype AgentFileTransferFailureCode =
  SourceNotFound | SourceChanged | TransferOutsideManagedRoot | SizeLimitExceeded | ChecksumMismatch

fun transfer_failure_text :: "AgentFileTransferFailureCode \<Rightarrow> string" where
  "transfer_failure_text SourceNotFound = ''SOURCE_NOT_FOUND''"
| "transfer_failure_text SourceChanged = ''SOURCE_CHANGED''"
| "transfer_failure_text TransferOutsideManagedRoot = ''OUTSIDE_MANAGED_ROOT''"
| "transfer_failure_text SizeLimitExceeded = ''SIZE_LIMIT_EXCEEDED''"
| "transfer_failure_text ChecksumMismatch = ''CHECKSUM_MISMATCH''"

record AgentFileTransfer =
  ft_transfer_id :: string
  ft_room_id :: string
  ft_source_relative_path :: string
  ft_status :: string
  ft_expires_at :: string
  ft_size_bytes :: "nat option"
  ft_sha256 :: "string option"
  ft_failure_code :: "AgentFileTransferFailureCode option"

record AgentFileTransferSourceVersion =
  sv_file_id :: string
  sv_size_bytes :: nat
  sv_modified_at :: string

record AgentFileTransferUploadTarget =
  ut_transfer_id :: string
  ut_upload_url :: string
  ut_expires_at :: string

definition validate_file_transfer_response :: "AgentFileTransfer \<Rightarrow> AgentError + AgentFileTransfer" where
  "validate_file_transfer_response response =
     (if ft_transfer_id response = [] \<or> ft_room_id response = [] \<or> ft_source_relative_path response = []
         \<or> length (ft_source_relative_path response) > 1024 \<or> ft_expires_at response = []
         \<or> ft_status response \<notin> {''REQUESTED'', ''UPLOADING'', ''READY'', ''FAILED'', ''COMPLETED'', ''CANCELLED'', ''EXPIRED''}
         \<or> (case ft_sha256 response of None \<Rightarrow> False | Some sha256 \<Rightarrow> \<not> is_valid_sha256 sha256)
      then Inl (invalid_response_error ''file transfer failed response validation'') else Inr response)"

definition validate_transfer_id_match :: "string \<Rightarrow> AgentFileTransfer \<Rightarrow> AgentError + AgentFileTransfer" where
  "validate_transfer_id_match expected_transfer_id transfer =
     (if ft_transfer_id transfer \<noteq> expected_transfer_id
      then Inl (invalid_response_error ''file transfer response did not match the requested transfer id'')
      else Inr transfer)"

definition http_url :: "'n agent_env \<Rightarrow> string \<Rightarrow> AgentError \<Rightarrow> AgentError \<Rightarrow> AgentError + unit" where
  "http_url env upload_url invalid not_http =
     (case env_parse_url env upload_url of
        None \<Rightarrow> Inl invalid
      | Some url \<Rightarrow> if url_scheme url \<notin> {''http'', ''https''} \<or> url_host url = None then Inl not_http else Inr ())"

definition validate_upload_target_response ::
    "'n agent_env \<Rightarrow> string \<Rightarrow> AgentFileTransferUploadTarget \<Rightarrow> AgentError + AgentFileTransferUploadTarget" where
  "validate_upload_target_response env expected_transfer_id response =
     (if ut_transfer_id response \<noteq> expected_transfer_id \<or> ut_expires_at response = []
      then Inl (invalid_response_error ''file transfer upload target failed response validation'')
      else bind_res (http_url env (ut_upload_url response)
                       (invalid_response_error ''file transfer upload target URL is invalid'')
                       (invalid_response_error ''file transfer upload target must be an http(s) URL''))
             (\<lambda>_. Inr response))"

definition validate_source_version :: "AgentFileTransferSourceVersion \<Rightarrow> AgentError + unit" where
  "validate_source_version version =
     (if sv_file_id version = [] \<or> length (sv_file_id version) > 512 \<or> sv_size_bytes version = 0 \<or> sv_modified_at version = []
      then Inl (validation_error ''file transfer sourceVersion failed validation'') else Inr ())"

definition source_version_json :: "AgentFileTransferSourceVersion \<Rightarrow> json" where
  "source_version_json v =
     JObject [(''fileId'', JString (sv_file_id v)), (''sizeBytes'', JNumber (int (sv_size_bytes v))),
              (''modifiedAt'', JString (sv_modified_at v))]"

definition pending_transfers_request :: "string \<Rightarrow> DeviceCredential \<Rightarrow> http_request" where
  "pending_transfers_request base_url credential =
     bearer_request ''GET'' (base_url @ ''/v1/devices/'' @ dc_device_id credential @ ''/file-transfers/pending'') credential None None"

definition pending_file_transfers ::
    "'n agent_env \<Rightarrow> (string \<Rightarrow> AgentFileTransfer list option) \<Rightarrow> ('n, AgentFileTransfer list) agent_op" where
  "pending_file_transfers env decode =
     call_json env decode pending_transfers_request
       (\<lambda>_ responses. collect_results (map validate_file_transfer_response responses))"

definition upload_target_request ::
    "string \<Rightarrow> AgentFileTransferSourceVersion \<Rightarrow> string \<Rightarrow> DeviceCredential \<Rightarrow> http_request" where
  "upload_target_request transfer_id source_version base_url credential =
     bearer_request ''POST'' (base_url @ ''/v1/agent/file-transfers/'' @ transfer_id @ ''/upload-target'') credential None
       (Some (JObject [(''sourceVersion'', source_version_json source_version)]))"

definition request_file_transfer_upload_target ::
    "'n agent_env \<Rightarrow> (string \<Rightarrow> AgentFileTransferUploadTarget option) \<Rightarrow> string \<Rightarrow> AgentFileTransferSourceVersion
       \<Rightarrow> ('n, AgentFileTransferUploadTarget) agent_op" where
  "request_file_transfer_upload_target env decode transfer_id source_version =
     validated (validate_opaque_value ''file transfer id'' transfer_id 200)
       (validated (validate_source_version source_version)
         (call_json env decode (upload_target_request transfer_id source_version)
            (\<lambda>_. validate_upload_target_response env transfer_id)))"

definition complete_transfer_request :: "string \<Rightarrow> string \<Rightarrow> nat \<Rightarrow> string \<Rightarrow> string \<Rightarrow> DeviceCredential \<Rightarrow> http_request" where
  "complete_transfer_request transfer_id idempotency_key size_bytes sha256 base_url credential =
     bearer_request ''POST'' (base_url @ ''/v1/agent/file-transfers/'' @ transfer_id @ ''/complete-upload'') credential
       (Some idempotency_key)
       (Some (JObject [(''sizeBytes'', JNumber (int size_bytes)), (''sha256'', JString sha256)]))"

definition complete_file_transfer_upload ::
    "'n agent_env \<Rightarrow> (string \<Rightarrow> AgentFileTransfer option) \<Rightarrow> string \<Rightarrow> string \<Rightarrow> nat \<Rightarrow> string
       \<Rightarrow> ('n, AgentFileTransfer) agent_op" where
  "complete_file_transfer_upload env decode transfer_id idempotency_key size_bytes sha256 =
     validated (validate_opaque_value ''file transfer id'' transfer_id 200)
       (validated (validate_opaque_value ''file transfer completion idempotency key'' idempotency_key 128)
         (validated (positive_size ''completed file transfer sizeBytes must be positive'' size_bytes)
           (validated (validate_sha256 sha256)
             (call_json env decode (complete_transfer_request transfer_id idempotency_key size_bytes sha256)
                (\<lambda>_ response. bind_res (validate_file_transfer_response response) (validate_transfer_id_match transfer_id))))))"

definition fail_transfer_request ::
    "string \<Rightarrow> AgentFileTransferFailureCode \<Rightarrow> string \<Rightarrow> DeviceCredential \<Rightarrow> http_request" where
  "fail_transfer_request transfer_id failure_code base_url credential =
     bearer_request ''POST'' (base_url @ ''/v1/agent/file-transfers/'' @ transfer_id @ ''/failure'') credential None
       (Some (JObject [(''failureCode'', JString (transfer_failure_text failure_code))]))"

definition fail_file_transfer ::
    "'n agent_env \<Rightarrow> (string \<Rightarrow> AgentFileTransfer option) \<Rightarrow> string \<Rightarrow> AgentFileTransferFailureCode
       \<Rightarrow> ('n, AgentFileTransfer) agent_op" where
  "fail_file_transfer env decode transfer_id failure_code =
     validated (validate_opaque_value ''file transfer id'' transfer_id 200)
       (call_json env decode (fail_transfer_request transfer_id failure_code)
          (\<lambda>_ response. bind_res (validate_file_transfer_response response) (validate_transfer_id_match transfer_id)))"

section \<open>The smart cache\<close>

record AgentSmartCachePolicy =
  cp_room_id :: string
  cp_enabled :: bool
  cp_quota_bytes :: nat
  cp_max_file_bytes :: nat
  cp_excluded_patterns :: "string list"
  cp_pinned_patterns :: "string list"

definition validate_smart_cache_policy :: "string \<Rightarrow> AgentSmartCachePolicy \<Rightarrow> AgentError + AgentSmartCachePolicy" where
  "validate_smart_cache_policy expected_room_id response =
     (if cp_room_id response \<noteq> expected_room_id \<or> cp_quota_bytes response = 0 \<or> cp_max_file_bytes response = 0
         \<or> cp_max_file_bytes response > cp_quota_bytes response
      then Inl (invalid_response_error ''smart cache policy failed response validation'') else Inr response)"

definition smart_cache_policy_request :: "string \<Rightarrow> string \<Rightarrow> DeviceCredential \<Rightarrow> http_request" where
  "smart_cache_policy_request room_id base_url credential =
     bearer_request ''GET'' (base_url @ ''/v1/rooms/'' @ room_id @ ''/smart-cache-policy'') credential None None"

definition smart_cache_policy ::
    "'n agent_env \<Rightarrow> (string \<Rightarrow> AgentSmartCachePolicy option) \<Rightarrow> string \<Rightarrow> ('n, AgentSmartCachePolicy) agent_op" where
  "smart_cache_policy env decode room_id =
     validated (validate_opaque_value ''room id'' room_id 200)
       (call_json env decode (smart_cache_policy_request room_id) (\<lambda>_. validate_smart_cache_policy room_id))"

record AgentSmartCacheCandidate =
  cc_source_relative_path :: string
  cc_source_version :: json
  cc_source_version_hash :: string
  cc_size_bytes :: nat
  cc_usage_score :: int
  cc_manual_pin :: bool

record AgentSmartCacheReservation =
  cr_reservation_id :: string
  cr_status :: string
  cr_source_relative_path :: string
  cr_source_version_hash :: string
  cr_size_bytes :: nat
  cr_upload_url :: "string option"
  cr_expires_at :: string

record AgentSmartCacheCandidateBatchResult =
  cb_batch_id :: string
  cb_approved :: "AgentSmartCacheReservation list"
  cb_rejected_count :: nat

definition validate_smart_cache_reservation ::
    "'n agent_env \<Rightarrow> AgentSmartCacheReservation \<Rightarrow> AgentError + AgentSmartCacheReservation" where
  "validate_smart_cache_reservation env response =
     bind_res (validate_relative_path ''smart cache reservation path'' (cr_source_relative_path response)) (\<lambda>_.
     bind_res (validate_sha256 (cr_source_version_hash response)) (\<lambda>_.
       if cr_reservation_id response = [] \<or> cr_expires_at response = [] \<or> cr_size_bytes response = 0
          \<or> cr_status response \<notin> {''RESERVED'', ''COMPLETED''}
       then Inl (invalid_response_error ''smart cache reservation failed response validation'')
       else if cr_status response = ''RESERVED''
       then (case cr_upload_url response of
               None \<Rightarrow> Inl (invalid_response_error ''smart cache reservation omitted upload URL'')
             | Some upload_url \<Rightarrow>
                 bind_res (http_url env upload_url (invalid_response_error ''smart cache upload URL is invalid'')
                             (invalid_response_error ''smart cache upload target must be an http(s) URL''))
                   (\<lambda>_. Inr response))
       else Inr response))"

definition validate_smart_cache_candidate_batch ::
    "'n agent_env \<Rightarrow> AgentSmartCacheCandidateBatchResult \<Rightarrow> AgentError + AgentSmartCacheCandidateBatchResult" where
  "validate_smart_cache_candidate_batch env response =
     (if cb_batch_id response = [] then Inl (invalid_response_error ''smart cache candidate batch omitted batch id'')
      else bind_res (collect_results (map (validate_smart_cache_reservation env) (cb_approved response)))
             (\<lambda>approved. Inr (response\<lparr>cb_approved := approved\<rparr>)))"

definition candidate_json :: "AgentSmartCacheCandidate \<Rightarrow> json" where
  "candidate_json c =
     JObject [(''sourceRelativePath'', JString (cc_source_relative_path c)), (''sourceVersion'', cc_source_version c),
       (''sourceVersionHash'', JString (cc_source_version_hash c)), (''sizeBytes'', JNumber (int (cc_size_bytes c))),
       (''usageScore'', JNumber (cc_usage_score c)), (''manualPin'', JBool (cc_manual_pin c))]"

definition cache_candidates_request ::
    "string \<Rightarrow> string \<Rightarrow> AgentSmartCacheCandidate list \<Rightarrow> string \<Rightarrow> DeviceCredential \<Rightarrow> http_request" where
  "cache_candidates_request idempotency_key room_id candidates base_url credential =
     bearer_request ''POST'' (base_url @ ''/v1/agent/cache-candidates'') credential (Some idempotency_key)
       (Some (JObject [(''roomId'', JString room_id), (''candidates'', JArray (map candidate_json candidates))]))"

definition validate_candidate :: "AgentSmartCacheCandidate \<Rightarrow> AgentError + unit" where
  "validate_candidate candidate =
     bind_res (validate_relative_path ''smart cache source path'' (cc_source_relative_path candidate)) (\<lambda>_.
     bind_res (validate_sha256 (cc_source_version_hash candidate)) (\<lambda>_.
       positive_size ''smart cache candidate sizeBytes must be positive'' (cc_size_bytes candidate)))"

definition submit_smart_cache_candidates ::
    "'n agent_env \<Rightarrow> (string \<Rightarrow> AgentSmartCacheCandidateBatchResult option) \<Rightarrow> string \<Rightarrow> string
       \<Rightarrow> AgentSmartCacheCandidate list \<Rightarrow> ('n, AgentSmartCacheCandidateBatchResult) agent_op" where
  "submit_smart_cache_candidates env decode idempotency_key room_id candidates =
     validated (validate_opaque_value ''smart cache candidate idempotency key'' idempotency_key 128)
       (validated (validate_opaque_value ''room id'' room_id 200)
         (validated (if candidates = [] \<or> length candidates > 200
                     then Inl (validation_error ''smart cache candidate batch must contain between 1 and 200 candidates'')
                     else Inr ())
           (validated (validate_all validate_candidate candidates)
             (call_json env decode (cache_candidates_request idempotency_key room_id candidates)
                (\<lambda>_. validate_smart_cache_candidate_batch env)))))"

record AgentCachedFile =
  cf_cached_file_id :: string
  cf_source_relative_path :: string
  cf_source_version_hash :: string
  cf_size_bytes :: nat
  cf_sha256 :: string
  cf_freshness_status :: string
  cf_encryption_metadata :: "SmartCacheEncryptionMetadata option"

definition validate_smart_cache_encryption_metadata :: "SmartCacheEncryptionMetadata \<Rightarrow> AgentError + unit" where
  "validate_smart_cache_encryption_metadata metadata =
     (if em_algorithm metadata \<noteq> SMART_CACHE_ENCRYPTION_ALGORITHM \<or> em_format metadata \<noteq> SMART_CACHE_ENCRYPTION_FORMAT
         \<or> length (trim (em_key_id metadata)) < 16 \<or> length (em_key_id metadata) > 128
         \<or> length (em_nonce_hex metadata) \<noteq> 24 \<or> \<not> list_all is_ascii_hexdigit (em_nonce_hex metadata)
         \<or> em_plaintext_size_bytes metadata = 0
         \<or> length (em_plaintext_sha256 metadata) \<noteq> 64 \<or> \<not> list_all is_ascii_hexdigit (em_plaintext_sha256 metadata)
      then Inl (invalid_response_error ''smart cache encryption metadata failed response validation'') else Inr ())"

definition validate_cached_file_response :: "AgentCachedFile \<Rightarrow> AgentError + AgentCachedFile" where
  "validate_cached_file_response response =
     bind_res (validate_relative_path ''cached file path'' (cf_source_relative_path response)) (\<lambda>_.
     bind_res (validate_sha256 (cf_source_version_hash response)) (\<lambda>_.
     bind_res (validate_sha256 (cf_sha256 response)) (\<lambda>_.
     bind_res (case cf_encryption_metadata response of None \<Rightarrow> Inr ()
               | Some metadata \<Rightarrow> validate_smart_cache_encryption_metadata metadata) (\<lambda>_.
       if cf_cached_file_id response = [] \<or> cf_size_bytes response = 0
          \<or> cf_freshness_status response \<notin> {''VERIFIED_CURRENT'', ''UNVERIFIED_OFFLINE'', ''STALE''}
       then Inl (invalid_response_error ''cached file failed response validation'') else Inr response))))"

definition metadata_json :: "SmartCacheEncryptionMetadata \<Rightarrow> json" where
  "metadata_json m =
     JObject [(''algorithm'', JString (em_algorithm m)), (''format'', JString (em_format m)),
       (''keyId'', JString (em_key_id m)), (''nonceHex'', JString (em_nonce_hex m)),
       (''plaintextSizeBytes'', JNumber (int (em_plaintext_size_bytes m))),
       (''plaintextSha256'', JString (em_plaintext_sha256 m))]"

definition complete_cache_request ::
    "string \<Rightarrow> string \<Rightarrow> nat \<Rightarrow> string \<Rightarrow> int \<Rightarrow> bool \<Rightarrow> SmartCacheEncryptionMetadata \<Rightarrow> string \<Rightarrow> DeviceCredential
       \<Rightarrow> http_request" where
  "complete_cache_request reservation_id idempotency_key size_bytes sha256 usage_score manual_pin encryption_metadata
     base_url credential =
     bearer_request ''POST'' (base_url @ ''/v1/agent/cache-uploads/'' @ reservation_id @ ''/complete'') credential
       (Some idempotency_key)
       (Some (JObject [(''sizeBytes'', JNumber (int size_bytes)), (''sha256'', JString sha256),
          (''usageScore'', JNumber usage_score), (''manualPin'', JBool manual_pin),
          (''encryptionMetadata'', metadata_json encryption_metadata)]))"

definition complete_smart_cache_upload ::
    "'n agent_env \<Rightarrow> (string \<Rightarrow> AgentCachedFile option) \<Rightarrow> string \<Rightarrow> string \<Rightarrow> nat \<Rightarrow> string \<Rightarrow> int \<Rightarrow> bool
       \<Rightarrow> SmartCacheEncryptionMetadata \<Rightarrow> ('n, AgentCachedFile) agent_op" where
  "complete_smart_cache_upload env decode reservation_id idempotency_key size_bytes sha256 usage_score manual_pin
     encryption_metadata =
     validated (validate_opaque_value ''smart cache reservation id'' reservation_id 200)
       (validated (validate_opaque_value ''smart cache completion idempotency key'' idempotency_key 128)
         (validated (positive_size ''completed smart cache upload sizeBytes must be positive'' size_bytes)
           (validated (validate_sha256 sha256)
             (validated (validate_smart_cache_encryption_metadata encryption_metadata)
               (call_json env decode
                  (complete_cache_request reservation_id idempotency_key size_bytes sha256 usage_score manual_pin
                     encryption_metadata)
                  (\<lambda>_. validate_cached_file_response))))))"

record AgentSmartCacheStaleResult =
  st_room_id :: string
  st_source_relative_path :: "string option"
  st_reason :: string
  st_stale_count :: nat

definition validate_smart_cache_stale_reason :: "string \<Rightarrow> AgentError + unit" where
  "validate_smart_cache_stale_reason reason =
     (if reason \<in> {''SOURCE_CHANGED'', ''SOURCE_REMOVED'', ''REINDEXED''} then Inr ()
      else Inl (validation_error ''smart cache stale reason must be SOURCE_CHANGED, SOURCE_REMOVED, or REINDEXED''))"

definition validate_smart_cache_stale_response ::
    "string \<Rightarrow> string option \<Rightarrow> string \<Rightarrow> AgentSmartCacheStaleResult \<Rightarrow> AgentError + AgentSmartCacheStaleResult" where
  "validate_smart_cache_stale_response expected_room_id expected_source_relative_path expected_reason response =
     bind_res (map_err (\<lambda>_. invalid_response_error ''smart cache stale response reason is invalid'')
                 (validate_smart_cache_stale_reason (st_reason response))) (\<lambda>_.
       if st_room_id response \<noteq> expected_room_id \<or> st_source_relative_path response \<noteq> expected_source_relative_path
          \<or> st_reason response \<noteq> expected_reason
       then Inl (invalid_response_error ''smart cache stale response did not match the request'')
       else bind_res (case st_source_relative_path response of None \<Rightarrow> Inr ()
                      | Some path \<Rightarrow>
                          map_err (\<lambda>_. invalid_response_error ''smart cache stale response path is invalid'')
                            (validate_relative_path ''smart cache stale response path'' path))
              (\<lambda>_. Inr response))"

definition stale_request :: "string \<Rightarrow> string \<Rightarrow> string option \<Rightarrow> string \<Rightarrow> string \<Rightarrow> DeviceCredential \<Rightarrow> http_request" where
  "stale_request idempotency_key room_id source_relative_path reason base_url credential =
     bearer_request ''POST'' (base_url @ ''/v1/agent/cached-files/stale'') credential (Some idempotency_key)
       (Some (JObject [(''roomId'', JString room_id), (''sourceRelativePath'', json_of_option JString source_relative_path),
                       (''reason'', JString reason)]))"

definition stale_arguments :: "string option \<Rightarrow> string \<Rightarrow> AgentError + unit" where
  "stale_arguments source_relative_path reason =
     (case source_relative_path of
        Some path \<Rightarrow>
          if reason \<in> {''SOURCE_CHANGED'', ''SOURCE_REMOVED''}
          then validate_relative_path ''smart cache stale source path'' path
          else Inl (validation_error ''smart cache REINDEXED stale reports must not include sourceRelativePath'')
      | None \<Rightarrow>
          if reason = ''REINDEXED'' then Inr ()
          else Inl (validation_error ''smart cache source changes must include sourceRelativePath''))"

definition mark_smart_cache_stale ::
    "'n agent_env \<Rightarrow> (string \<Rightarrow> AgentSmartCacheStaleResult option) \<Rightarrow> string \<Rightarrow> string \<Rightarrow> string option \<Rightarrow> string
       \<Rightarrow> ('n, AgentSmartCacheStaleResult) agent_op" where
  "mark_smart_cache_stale env decode idempotency_key room_id source_relative_path reason =
     validated (validate_opaque_value ''smart cache stale idempotency key'' idempotency_key 128)
       (validated (validate_opaque_value ''room id'' room_id 200)
         (validated (validate_smart_cache_stale_reason reason)
           (validated (stale_arguments source_relative_path reason)
             (call_json env decode (stale_request idempotency_key room_id source_relative_path reason)
                (\<lambda>_. validate_smart_cache_stale_response room_id source_relative_path reason)))))"

definition cancel_reservation_request :: "string \<Rightarrow> string \<Rightarrow> DeviceCredential \<Rightarrow> http_request" where
  "cancel_reservation_request reservation_id base_url credential =
     bearer_request ''DELETE'' (base_url @ ''/v1/agent/cache-uploads/'' @ reservation_id) credential None None"

definition cancel_smart_cache_reservation :: "'n agent_env \<Rightarrow> string \<Rightarrow> ('n, unit) agent_op" where
  "cancel_smart_cache_reservation env reservation_id =
     validated (validate_opaque_value ''smart cache reservation id'' reservation_id 200)
       (call_empty env (cancel_reservation_request reservation_id))"

section \<open>Snapshots\<close>

record RoomSnapshotResponse =
  rn_id :: string
  rn_room_id :: string
  rn_formula_version :: "string option"
  rn_score :: nat
  rn_metrics :: json
  rn_calculated_at :: string

definition validate_cleanliness_snapshot :: "CleanlinessSnapshot \<Rightarrow> AgentError + unit" where
  "validate_cleanliness_snapshot snapshot =
     (let metrics = cs_metrics snapshot
      in if cs_formula_version snapshot \<noteq> CLEANLINESS_FORMULA_VERSION \<or> cs_score snapshot > 100
            \<or> trim (cs_calculated_at snapshot) = []
            \<or> cm_managed_file_count metrics > cm_total_file_count metrics
            \<or> cm_unorganized_file_count metrics > cm_total_file_count metrics
            \<or> cm_managed_file_count metrics + cm_unorganized_file_count metrics > cm_total_file_count metrics
         then Inl (validation_error ''cleanliness snapshot failed validation'')
         else validate_all (\<lambda>deduction.
                if trim (cd_reason_code deduction) = [] \<or> cd_points deduction > 100
                then Inl (validation_error ''cleanliness snapshot deduction failed validation'') else Inr ())
              (cm_deductions metrics))"

definition validate_room_snapshot_response ::
    "string \<Rightarrow> string \<Rightarrow> RoomSnapshotResponse \<Rightarrow> AgentError + RoomSnapshotResponse" where
  "validate_room_snapshot_response expected_room_id expected_formula_version response =
     (let formula_version = (case rn_formula_version response of Some v \<Rightarrow> v | None \<Rightarrow> expected_formula_version)
      in if rn_id response = [] \<or> rn_room_id response \<noteq> expected_room_id
            \<or> formula_version \<noteq> expected_formula_version \<or> rn_score response > 100
            \<or> \<not> json_is_object (rn_metrics response) \<or> trim (rn_calculated_at response) = []
         then Inl (invalid_response_error ''room snapshot failed response validation'')
         else Inr (response\<lparr>rn_formula_version := Some formula_version\<rparr>))"

definition snapshot_json :: "CleanlinessSnapshot \<Rightarrow> json" where
  "snapshot_json s =
     (let m = cs_metrics s
      in JObject [(''formulaVersion'', JString (cs_formula_version s)), (''score'', JNumber (int (cs_score s))),
           (''metrics'', JObject [(''totalFileCount'', JNumber (int (cm_total_file_count m))),
              (''managedFileCount'', JNumber (int (cm_managed_file_count m))),
              (''unorganizedFileCount'', JNumber (int (cm_unorganized_file_count m))),
              (''deductions'', JArray (map (\<lambda>d. JObject [(''reasonCode'', JString (cd_reason_code d)),
                 (''count'', JNumber (int (cd_count d))), (''points'', JNumber (int (cd_points d)))]) (cm_deductions m)))]),
           (''calculatedAt'', JString (cs_calculated_at s))])"

definition room_snapshot_request :: "string \<Rightarrow> CleanlinessSnapshot \<Rightarrow> string \<Rightarrow> DeviceCredential \<Rightarrow> http_request" where
  "room_snapshot_request room_id snapshot base_url credential =
     bearer_request ''POST'' (base_url @ ''/v1/rooms/'' @ room_id @ ''/snapshots'') credential None
       (Some (snapshot_json snapshot))"

definition submit_room_snapshot ::
    "'n agent_env \<Rightarrow> (string \<Rightarrow> RoomSnapshotResponse option) \<Rightarrow> string \<Rightarrow> CleanlinessSnapshot
       \<Rightarrow> ('n, RoomSnapshotResponse) agent_op" where
  "submit_room_snapshot env decode room_id snapshot =
     validated (validate_opaque_value ''room id'' room_id 200)
       (validated (validate_cleanliness_snapshot snapshot)
         (call_json env decode (room_snapshot_request room_id snapshot)
            (\<lambda>_. validate_room_snapshot_response room_id (cs_formula_version snapshot))))"

end
