(* ===== verification/Agent_Laws.thy ===== *)
theory Agent_Laws
  imports Agent_Files
begin

text \<open>
  The laws every call of \<^verbatim>\<open>agent.rs\<close> obeys. Each endpoint is an instance of the interface
  \<open>authenticated_request\<close>, which gives the laws for its call; together they are the step relation of
  the agent, and the properties are invariants of that relation.

  Shown here: the device's token is only ever sent to the server it was issued by, and the
  credential is only given up when the server says that the device is gone, when the user forgets
  the device, or when another pairing replaces it.
\<close>

section \<open>The endpoints\<close>

interpretation poll_commands_endpoint: authenticated_request poll_commands_request
  by unfold_locales (simp_all add: poll_commands_request_def)

interpretation update_command_status_endpoint: authenticated_request "update_command_status_request command_id status" for command_id status
  by unfold_locales (simp_all add: update_command_status_request_def)

interpretation create_command_endpoint: authenticated_request "create_command_request room_id intent payload key" for room_id intent payload key
  by unfold_locales (simp_all add: create_command_request_def)

interpretation rooms_endpoint: authenticated_request rooms_request
  by unfold_locales (simp_all add: rooms_request_def)

interpretation disconnect_room_endpoint: authenticated_request "disconnect_room_request room_id key" for room_id key
  by unfold_locales (simp_all add: disconnect_room_request_def)

interpretation replay_events_endpoint: authenticated_request "replay_events_request after limit" for after limit
  by unfold_locales (simp_all add: replay_events_request_def)

interpretation submit_proposal_endpoint: authenticated_request "submit_proposal_request key proposal" for key proposal
  by unfold_locales (simp_all add: submit_proposal_request_def)

interpretation open_proposals_endpoint: authenticated_request "open_proposals_request room_id" for room_id
  by unfold_locales (simp_all add: open_proposals_request_def)

interpretation get_proposal_endpoint: authenticated_request "get_proposal_request the_proposal" for the_proposal
  by unfold_locales (simp_all add: get_proposal_request_def)

interpretation create_decision_endpoint: authenticated_request "create_decision_request the_proposal item_ids key" for the_proposal item_ids key
  by unfold_locales (simp_all add: create_decision_request_def)

interpretation pending_decisions_endpoint: authenticated_request pending_decisions_request
  by unfold_locales (simp_all add: pending_decisions_request_def)

interpretation create_execution_endpoint: authenticated_request "create_execution_request the_proposal decision_id" for the_proposal decision_id
  by unfold_locales (simp_all add: create_execution_request_def)

interpretation update_execution_endpoint: authenticated_request "update_execution_request execution_id status summary" for execution_id status summary
  by unfold_locales (simp_all add: update_execution_request_def)

interpretation pending_browse_endpoint: authenticated_request pending_browse_request
  by unfold_locales (simp_all add: pending_browse_request_def)

interpretation browse_result_endpoint: authenticated_request "browse_result_request request_id listing" for request_id listing
  by unfold_locales (simp_all add: browse_result_request_def)

interpretation browse_failure_endpoint: authenticated_request "browse_failure_request request_id code" for request_id code
  by unfold_locales (simp_all add: browse_failure_request_def)

interpretation pending_tools_endpoint: authenticated_request pending_tools_request
  by unfold_locales (simp_all add: pending_tools_request_def)

interpretation tool_result_endpoint: authenticated_request "tool_result_request step_id status metadata code" for step_id status metadata code
  by unfold_locales (simp_all add: tool_result_request_def)

interpretation pending_transfers_endpoint: authenticated_request pending_transfers_request
  by unfold_locales (simp_all add: pending_transfers_request_def)

interpretation upload_target_endpoint: authenticated_request "upload_target_request transfer_id version" for transfer_id version
  by unfold_locales (simp_all add: upload_target_request_def)

interpretation complete_transfer_endpoint: authenticated_request "complete_transfer_request transfer_id key bytes sha" for transfer_id key bytes sha
  by unfold_locales (simp_all add: complete_transfer_request_def)

interpretation fail_transfer_endpoint: authenticated_request "fail_transfer_request transfer_id failure" for transfer_id failure
  by unfold_locales (simp_all add: fail_transfer_request_def)

interpretation smart_cache_policy_endpoint: authenticated_request "smart_cache_policy_request room_id" for room_id
  by unfold_locales (simp_all add: smart_cache_policy_request_def)

interpretation cache_candidates_endpoint: authenticated_request "cache_candidates_request key room_id candidates" for key room_id candidates
  by unfold_locales (simp_all add: cache_candidates_request_def)

interpretation room_snapshot_endpoint: authenticated_request "room_snapshot_request room_id snapshot" for room_id snapshot
  by unfold_locales (simp_all add: room_snapshot_request_def)

interpretation complete_cache_endpoint: authenticated_request "complete_cache_request reservation_id key bytes sha score pin metadata" for reservation_id key bytes sha score pin metadata
  by unfold_locales (simp_all add: complete_cache_request_def)

interpretation stale_endpoint: authenticated_request "stale_request key room_id path reason" for key room_id path reason
  by unfold_locales (simp_all add: stale_request_def)

interpretation cancel_reservation_endpoint: authenticated_request "cancel_reservation_request reservation_id" for reservation_id
  by unfold_locales (simp_all add: cancel_reservation_request_def)

interpretation create_room_endpoint: authenticated_request "create_room_request root_id name" for root_id name
  by unfold_locales (simp_all add: create_room_request_def)

lemmas endpoint_lawful = poll_commands_endpoint.json_lawful update_command_status_endpoint.json_lawful create_command_endpoint.json_lawful rooms_endpoint.json_lawful disconnect_room_endpoint.json_lawful replay_events_endpoint.json_lawful submit_proposal_endpoint.json_lawful open_proposals_endpoint.json_lawful get_proposal_endpoint.json_lawful create_decision_endpoint.json_lawful pending_decisions_endpoint.json_lawful create_execution_endpoint.json_lawful update_execution_endpoint.json_lawful pending_browse_endpoint.json_lawful browse_result_endpoint.json_lawful browse_failure_endpoint.json_lawful pending_tools_endpoint.json_lawful tool_result_endpoint.json_lawful pending_transfers_endpoint.json_lawful upload_target_endpoint.json_lawful complete_transfer_endpoint.json_lawful fail_transfer_endpoint.json_lawful smart_cache_policy_endpoint.json_lawful cache_candidates_endpoint.json_lawful room_snapshot_endpoint.json_lawful complete_cache_endpoint.json_lawful stale_endpoint.json_lawful cancel_reservation_endpoint.json_lawful

lemmas endpoint_empty_lawful = poll_commands_endpoint.empty_lawful update_command_status_endpoint.empty_lawful create_command_endpoint.empty_lawful rooms_endpoint.empty_lawful disconnect_room_endpoint.empty_lawful replay_events_endpoint.empty_lawful submit_proposal_endpoint.empty_lawful open_proposals_endpoint.empty_lawful get_proposal_endpoint.empty_lawful create_decision_endpoint.empty_lawful pending_decisions_endpoint.empty_lawful create_execution_endpoint.empty_lawful update_execution_endpoint.empty_lawful pending_browse_endpoint.empty_lawful browse_result_endpoint.empty_lawful browse_failure_endpoint.empty_lawful pending_tools_endpoint.empty_lawful tool_result_endpoint.empty_lawful pending_transfers_endpoint.empty_lawful upload_target_endpoint.empty_lawful complete_transfer_endpoint.empty_lawful fail_transfer_endpoint.empty_lawful smart_cache_policy_endpoint.empty_lawful cache_candidates_endpoint.empty_lawful room_snapshot_endpoint.empty_lawful complete_cache_endpoint.empty_lawful stale_endpoint.empty_lawful cancel_reservation_endpoint.empty_lawful

section \<open>The calls\<close>

text \<open>The outcome of a call without the value it returns.\<close>

definition void :: "('e + 'a) \<times> 's \<Rightarrow> ('e + unit) \<times> 's" where
  "void outcome = (map_sum (\<lambda>e. e) (\<lambda>_. ()) (fst outcome), snd outcome)"

inductive server_call ::
    "('m \<times> http_request list) agent_env \<Rightarrow> ('m \<times> http_request list) agent
       \<Rightarrow> (AgentError + unit) \<times> ('m \<times> http_request list) agent \<Rightarrow> bool" for env where
  heartbeat: "server_call env a (void (heartbeat env decode presence a))"
| revoke_self: "server_call env a (void (revoke_self env key a))"
| ensure_room_for_root: "server_call env a (void (ensure_room_for_root env decode_rooms decode_room root_id name a))"
| poll_commands: "server_call env a (void (poll_commands env decode a))"
| update_command_status: "server_call env a (void (update_command_status env decode command_id status a))"
| create_command: "server_call env a (void (create_command env decode room_id intent payload key a))"
| root_id_for_room: "server_call env a (void (root_id_for_room env decode room_id a))"
| list_rooms: "server_call env a (void (list_rooms env decode a))"
| disconnect_room: "server_call env a (void (disconnect_room env room_id key a))"
| replay_events: "server_call env a (void (replay_events env decode after limit a))"
| submit_proposal: "server_call env a (void (submit_proposal env key proposal a))"
| open_proposal_count_for_room: "server_call env a (void (open_proposal_count_for_room env decode room_id a))"
| open_proposals_for_room: "server_call env a (void (open_proposals_for_room env decode room_id a))"
| get_proposal: "server_call env a (void (get_proposal env decode the_proposal a))"
| create_decision: "server_call env a (void (create_decision env decode the_proposal item_ids key a))"
| pending_decisions: "server_call env a (void (pending_decisions env decode a))"
| create_execution: "server_call env a (void (create_execution env decode the_proposal decision_id a))"
| update_execution: "server_call env a (void (update_execution env decode execution_id status summary a))"
| pending_file_browse_requests: "server_call env a (void (pending_file_browse_requests env decode a))"
| complete_file_browse_request: "server_call env a (void (complete_file_browse_request env request_id listing a))"
| fail_file_browse_request: "server_call env a (void (fail_file_browse_request env request_id code a))"
| pending_agent_tools: "server_call env a (void (pending_agent_tools env decode a))"
| complete_agent_tool: "server_call env a (void (complete_agent_tool env step_id status metadata code a))"
| pending_file_transfers: "server_call env a (void (pending_file_transfers env decode a))"
| request_file_transfer_upload_target: "server_call env a (void (request_file_transfer_upload_target env decode transfer_id version a))"
| complete_file_transfer_upload: "server_call env a (void (complete_file_transfer_upload env decode transfer_id key bytes sha a))"
| fail_file_transfer: "server_call env a (void (fail_file_transfer env decode transfer_id failure a))"
| smart_cache_policy: "server_call env a (void (smart_cache_policy env decode room_id a))"
| submit_smart_cache_candidates: "server_call env a (void (submit_smart_cache_candidates env decode key room_id candidates a))"
| submit_room_snapshot: "server_call env a (void (submit_room_snapshot env decode room_id snapshot a))"
| complete_smart_cache_upload: "server_call env a (void (complete_smart_cache_upload env decode reservation_id key bytes sha score pin metadata a))"
| mark_smart_cache_stale: "server_call env a (void (mark_smart_cache_stale env decode key room_id path reason a))"
| cancel_smart_cache_reservation: "server_call env a (void (cancel_smart_cache_reservation env reservation_id a))"

inductive agent_step ::
    "('m \<times> http_request list) agent_env \<Rightarrow> ('m \<times> http_request list) agent \<Rightarrow> ('m \<times> http_request list) agent \<Rightarrow> bool"
    for env where
  server_call: "server_call env a (r, a') \<Longrightarrow> agent_step env a a'"
| start_pairing: "agent_step env a (snd (start_pairing env decode name a))"
| poll_pairing: "agent_step env a (snd (poll_pairing env decode session nonce a))"
| forget_device: "agent_step env a (snd (forget_device a))"

lemma void_simps [simp]: "snd (void outcome) = snd outcome"
  by (simp add: void_def)

lemma void_kept [simp]: "credential_kept a (void outcome) = credential_kept a outcome"
  by (cases "fst outcome") (auto simp: credential_kept_def void_def)

lemma revoke_self_kept: "credential_kept a (revoke_self env key a)"
  unfolding revoke_self_def
proof (rule validated_kept)
  fix a
  show "credential_kept a (case require_authenticated_config a of
       Inl e \<Rightarrow> (Inl e, a)
     | Inr (base_url, credential) \<Rightarrow>
         (case send_empty env (revoke_self_request key base_url credential) a of
            (Inr _, a1) \<Rightarrow> (Inr (), a1)
          | (Inl error, a1) \<Rightarrow> (Inl error, record_non_authoritative_error error Offline a1)))"
    by (auto simp: credential_kept_def record_non_authoritative_error_def send_empty_frame
        split: sum.split prod.split dest!: arg_cong [where f = snd])
qed

text \<open>\<^verbatim>\<open>ensure_room_for_root\<close> sends up to two requests with the same credential.\<close>

lemma conclude_intro:
  "mark_online a = conclude (Inr x) a" "record_error e Offline a = conclude (Inl e) a"
  by (simp_all add: conclude_def)

lemma create_room_outcome:
  "\<exists>r. create_room_for_root env decode root_id name b c a =
      (r, conclude r (snd (send_json env decode (create_room_request root_id name b c) a)))"
  by (cases "bind_res (fst (send_json env decode (create_room_request root_id name b c) a)) (validate_server_room (dc_device_id c))")
    (simp_all add: create_room_for_root_def Let_def split_beta conclude_def)

lemma find_or_create_room_outcome:
  obtains r sent a1 where
    "find_or_create_room env decode_rooms decode_room root_id name b c a = (r, conclude r a1)"
    "ag_server_base_url a1 = ag_server_base_url a" "ag_credential a1 = ag_credential a" "ag_keyring a1 = ag_keyring a"
    "records_requests env \<Longrightarrow> snd (ag_net a1) = snd (ag_net a) @ sent"
    "set sent \<subseteq> {rooms_request b c, create_room_request root_id name b c}"
proof -
  let ?send = "send_json env decode_rooms (rooms_request b c) a"
  let ?found = "bind_res (fst ?send) (validate_server_rooms (dc_device_id c))"
  note frame = send_json_frame send_json_log
  consider (found) "\<not> (\<exists>rooms. ?found = Inr rooms \<and> find (\<lambda>room. sm_root_alias room = root_id) rooms = None)"
    | (create) rooms where "?found = Inr rooms" "find (\<lambda>room. sm_root_alias room = root_id) rooms = None"
    by blast
  then show thesis
  proof cases
    case found
    then obtain r where "find_or_create_room env decode_rooms decode_room root_id name b c a = (r, conclude r (snd ?send))"
      by (cases ?found) (auto simp: find_or_create_room_def split_beta Let_def conclude_def split: option.split)
    then show thesis by (rule that [of _ _ "[rooms_request b c]"]) (simp_all add: frame)
  next
    case create
    let ?send2 = "send_json env decode_room (create_room_request root_id name b c) (snd ?send)"
    obtain r where "create_room_for_root env decode_room root_id name b c (snd ?send) = (r, conclude r (snd ?send2))"
      using create_room_outcome by metis
    with create have "find_or_create_room env decode_rooms decode_room root_id name b c a = (r, conclude r (snd ?send2))"
      by (simp add: find_or_create_room_def split_beta Let_def)
    then show thesis
      by (rule that [of _ _ "[rooms_request b c, create_room_request root_id name b c]"]) (simp_all add: frame)
  qed
qed

lemma ensure_room_lawful:
  assumes "records_requests env"
  shows "lawful a (snd (ensure_room_for_root env decode_rooms decode_room root_id name a))"
  unfolding ensure_room_for_root_def
proof (intro validated_lawful, goal_cases)
  case (1 _ a)
  show ?case
  proof (cases "require_authenticated_config a")
    case (Inr bc)
    obtain b c where bc: "bc = (b, c)" by (cases bc)
    have config: "ag_server_base_url a = Some b" "ag_credential a = Some c"
      using Inr by (simp_all add: bc require_authenticated_config_ok)
    obtain r sent a1 where room: "find_or_create_room env decode_rooms decode_room root_id (trim name) b c a = (r, conclude r a1)"
      "ag_server_base_url a1 = ag_server_base_url a" "ag_credential a1 = ag_credential a"
      "snd (ag_net a1) = snd (ag_net a) @ sent" "set sent \<subseteq> {rooms_request b c, create_room_request root_id (trim name) b c}"
      using assms
      by (metis find_or_create_room_outcome [of env decode_rooms decode_room root_id "trim name" b c a])
    have "agent_ok a \<Longrightarrow> \<forall>q \<in> set sent. addressed a q"
      using room(5) config create_room_endpoint.addressed_request rooms_endpoint.addressed_request by blast
    then show ?thesis
      by (intro lawfulI [where sent = sent])
        (use config room in \<open>auto simp: Inr bc conclude_frame intro: rooms_endpoint.outcome_ok\<close>)
  qed simp
qed

lemma ensure_room_kept: "credential_kept a (ensure_room_for_root env decode_rooms decode_room root_id name a)"
  for a :: "('m \<times> http_request list) agent"
  unfolding ensure_room_for_root_def
proof (intro validated_kept, goal_cases)
  case (1 _ a)
  show ?case
  proof (cases "require_authenticated_config a")
    case (Inr bc)
    obtain b c where bc: "bc = (b, c)" by (cases bc)
    obtain r a1 where "find_or_create_room env decode_rooms decode_room root_id (trim name) b c a = (r, conclude r a1)"
      "ag_credential a1 = ag_credential a" "ag_keyring a1 = ag_keyring a"
      by (metis find_or_create_room_outcome [of env decode_rooms decode_room root_id "trim name" b c a])
    then show ?thesis using conclude_credential [of r a1] by (auto simp: Inr bc credential_kept_def)
  qed simp
qed

lemmas call_defs =
    poll_commands_def update_command_status_def create_command_def root_id_for_room_def list_rooms_def
    disconnect_room_def replay_events_def submit_proposal_def open_proposal_count_for_room_def
    open_proposals_for_room_def get_proposal_def create_decision_def pending_decisions_def create_execution_def
    update_execution_def pending_file_browse_requests_def complete_file_browse_request_def
    fail_file_browse_request_def pending_agent_tools_def complete_agent_tool_def pending_file_transfers_def
    request_file_transfer_upload_target_def complete_file_transfer_upload_def fail_file_transfer_def
    smart_cache_policy_def submit_smart_cache_candidates_def submit_room_snapshot_def
    complete_smart_cache_upload_def mark_smart_cache_stale_def cancel_smart_cache_reservation_def

lemma server_call_lawful:
  assumes "server_call env a outcome" "records_requests env"
  shows "lawful a (snd outcome)"
  using assms
  by (induction rule: server_call.induct)
    (auto simp: heartbeat_lawful revoke_self_lawful ensure_room_lawful call_defs
      intro!: validated_lawful endpoint_lawful endpoint_empty_lawful)

lemma server_call_kept: "server_call env a outcome \<Longrightarrow> credential_kept a outcome"
  by (induction rule: server_call.induct)
    (auto simp: revoke_self_kept ensure_room_kept call_defs heartbeat_def
      intro!: validated_kept call_json_kept call_empty_kept)

lemma agent_step_lawful:
  assumes "agent_step env a a'" "records_requests env"
  shows "lawful a a'"
  using assms
proof (induction rule: agent_step.induct)
  case (server_call a r a')
  from server_call_lawful [OF this] show ?case by simp
qed (simp_all add: start_pairing_lawful poll_pairing_lawful forget_device_lawful)

section \<open>Runs\<close>

lemma run_lawful:
  assumes "(agent_step env)\<^sup>*\<^sup>* a a'" "records_requests env" "agent_ok a"
  shows "agent_ok a' \<and> ag_server_base_url a' = ag_server_base_url a
    \<and> (\<exists>sent. snd (ag_net a') = snd (ag_net a) @ sent
        \<and> (\<forall>q \<in> set sent. \<forall>token. rq_bearer q = Some token \<longrightarrow>
             (\<exists>b. ag_server_base_url a = Some b \<and> prefix (b @ ''/'') (rq_url q))))"
  using assms(1)
proof (induction rule: rtranclp_induct)
  case (step a1 a2)
  from agent_step_lawful [OF step.hyps(2) assms(2)] have law: "lawful a1 a2" .
  obtain sent where sent: "snd (ag_net a1) = snd (ag_net a) @ sent"
      "\<forall>q \<in> set sent. \<forall>token. rq_bearer q = Some token \<longrightarrow>
         (\<exists>b. ag_server_base_url a = Some b \<and> prefix (b @ ''/'') (rq_url q))"
    using step.IH by blast
  obtain sent' where sent': "snd (ag_net a2) = snd (ag_net a1) @ sent'" "\<forall>q \<in> set sent'. addressed a1 q"
    using law step.IH by (auto simp: lawful_def)
  have "\<exists>b. ag_server_base_url a = Some b \<and> prefix (b @ ''/'') (rq_url q)"
    if q: "q \<in> set sent'" "rq_bearer q = Some token" for q token
  proof -
    from sent'(2) q obtain c where "ag_credential a1 = Some c" "prefix (dc_server_base_url c @ ''/'') (rq_url q)"
      by (auto simp: addressed_def)
    moreover from step.IH have "agent_ok a1" "ag_server_base_url a = ag_server_base_url a1" by simp_all
    ultimately show ?thesis by (simp add: agent_ok_def)
  qed
  with sent sent' law step.IH show ?case
    by (intro conjI exI [of _ "sent @ sent'"]) (auto simp: lawful_def)
qed (simp add: assms(3))

section \<open>A sample server\<close>

definition sample_url :: url where
  "sample_url = \<lparr>url_scheme = ''https'', url_username = [], url_password = None, url_host = Some ''keeper.test'',
     url_path = ''/'', url_query = None, url_fragment = None, url_without_path = ''https://keeper.test/''\<rparr>"

definition sample_credential :: DeviceCredential where
  "sample_credential = \<lparr>dc_server_base_url = ''https://keeper.test'', dc_device_id = ''d1'', dc_device_token = ''t1''\<rparr>"

text \<open>A server that gives every request the same answer.\<close>

definition sample_env :: "nat \<Rightarrow> ServerErrorResponse option \<Rightarrow> (unit \<times> http_request list) agent_env" where
  "sample_env status failure =
     \<lparr>env_http = (\<lambda>q (m, log). (Reply status ''body'', (m, log @ [q]))), env_status_text = (\<lambda>_. []),
      env_server_error = (\<lambda>_. failure), env_parse_url = (\<lambda>_. Some sample_url),
      env_encode_credential = dc_device_token, env_decode_credential = (\<lambda>_. Some sample_credential)\<rparr>"

definition stopped_agent :: "string option \<Rightarrow> (unit \<times> http_request list) agent" where
  "stopped_agent keyring =
     \<lparr>ag_server_base_url = None, ag_credential = None, ag_state = AgentConnectionState.Unconfigured,
      ag_last_error = None, ag_keyring = keyring, ag_keyring_faults = [], ag_net = ((), [])\<rparr>"

definition started_agent :: "(unit \<times> http_request list) agent" where
  "started_agent = agent_new (sample_env 200 None) (Some ''https://keeper.test'') (stopped_agent (Some ''t1''))"

definition sample_heartbeat :: HeartbeatResult where
  "sample_heartbeat = \<lparr>hb_device_id = ''d1'', hb_presence = ''ONLINE_IDLE'', hb_ttl_seconds = 30\<rparr>"

lemma sample_env_records: "records_requests (sample_env status failure)"
  by (simp add: records_requests_def sample_env_def)

lemma started_agent_value:
  "started_agent = (stopped_agent (Some ''t1''))\<lparr>ag_server_base_url := Some ''https://keeper.test'',
     ag_credential := Some sample_credential, ag_state := Offline\<rparr>"
  by code_simp

section \<open>Properties\<close>

text \<open>C16: The device token only goes to the server it belongs to. Start the agent with any configured
  URL and any contents of the keyring, and let it make any sequence of its calls (pairing,
  forgetting and pairing again included) against a server that answers as it likes, with keyring
  accesses failing at will: every request that carries a token goes below the base URL the agent was
  started with, and the credential in use is always one issued for that URL. So a credential saved
  for another server is never sent to this one.
\<close>

theorem token_stays_with_its_server:
  assumes "records_requests env"
    and "(agent_step env)\<^sup>*\<^sup>* (agent_new env url \<lparr>ag_server_base_url = None, ag_credential = None,
           ag_state = AgentConnectionState.Unconfigured, ag_last_error = None, ag_keyring = keyring,
           ag_keyring_faults = faults, ag_net = (server, [])\<rparr>) a"
  shows "(\<forall>q \<in> set (snd (ag_net a)). \<forall>token. rq_bearer q = Some token \<longrightarrow>
            (\<exists>b. ag_server_base_url a = Some b \<and> prefix (b @ ''/'') (rq_url q)))
         \<and> (\<forall>credential. ag_credential a = Some credential \<longrightarrow>
              ag_server_base_url a = Some (dc_server_base_url credential))
         \<and> (ag_state a = Online \<longrightarrow> ag_credential a \<noteq> None)"
proof -
  note run = run_lawful [OF assms(2,1) agent_new_ok]
  then show ?thesis by (auto simp: agent_ok_def agent_new_net)
qed

theorem token_stays_with_its_server_witness:
  "\<exists>q b. q \<in> set (snd (ag_net (snd (heartbeat (sample_env 200 None) (\<lambda>_. Some sample_heartbeat) ''ONLINE_IDLE'' started_agent))))
     \<and> ag_server_base_url (snd (heartbeat (sample_env 200 None) (\<lambda>_. Some sample_heartbeat) ''ONLINE_IDLE'' started_agent)) = Some b
     \<and> rq_bearer q = Some ''t1'' \<and> prefix (b @ ''/'') (rq_url q)"
proof -
  let ?a = "snd (heartbeat (sample_env 200 None) (\<lambda>_. Some sample_heartbeat) ''ONLINE_IDLE'' started_agent)"
  have "agent_step (sample_env 200 None) started_agent ?a"
    using agent_step.server_call server_call.heartbeat by (metis prod.collapse void_simps)
  then have "(agent_step (sample_env 200 None))\<^sup>*\<^sup>*
      (agent_new (sample_env 200 None) (Some ''https://keeper.test'') (stopped_agent (Some ''t1''))) ?a"
    by (simp add: started_agent_def)
  note law = token_stays_with_its_server [OF sample_env_records this [unfolded stopped_agent_def]]
  have "map rq_bearer (snd (ag_net ?a)) = [Some ''t1'']" by code_simp
  then obtain q where "q \<in> set (snd (ag_net ?a))" "rq_bearer q = Some ''t1''" by auto
  with law show ?thesis by blast
qed

text \<open>A credential is not lost by accident. Of all the calls to the server, whatever it answers, none
  removes the stored credential or stops using it unless the server's error says that the device is
  revoked or not registered; then the agent is in the state \<^verbatim>\<open>Revoked\<close>. In particular a plain 401,
  403, time-out or malformed response keeps the pairing, and revoking the device keeps it until the
  device is forgotten.
\<close>

theorem credential_kept_unless_absent:
  assumes "server_call env a (result, a')" "ag_credential a = Some credential"
  shows "(ag_credential a' = Some credential \<and> ag_keyring a' = ag_keyring a)
         \<or> (ag_credential a' = None \<and> ag_state a' = Revoked
            \<and> (\<exists>error. result = Inl error \<and> is_confirmed_device_absent error))"
  using server_call_kept [OF assms(1)] assms(2) by (simp add: credential_kept_def)

theorem credential_kept_unless_absent_witness:
  "ag_credential started_agent = Some sample_credential \<and>
   ag_state (snd (heartbeat (sample_env 403 (Some \<lparr>se_code = Some ''DEVICE_REVOKED'', se_message = None\<rparr>))
     (\<lambda>_. None) ''ONLINE_IDLE'' started_agent)) = Revoked"
proof -
  let ?env = "sample_env 403 (Some \<lparr>se_code = Some ''DEVICE_REVOKED'', se_message = None\<rparr>)"
  let ?out = "void (heartbeat ?env (\<lambda>_. None) ''ONLINE_IDLE'' started_agent)"
  have credential: "ag_credential started_agent = Some sample_credential" by (simp add: started_agent_value)
  have "server_call ?env started_agent (fst ?out, snd ?out)"
    by (simp add: server_call.heartbeat del: void_simps)
  from credential_kept_unless_absent [OF this credential]
  have "ag_credential (snd ?out) \<noteq> None \<or> ag_state (snd ?out) = Revoked" by auto
  moreover have "ag_credential (snd ?out) = None" by code_simp
  ultimately show ?thesis using credential by simp
qed

end
