(* ===== verification/Outbox.thy ===== *)
theory Outbox
  imports Desktop
begin

text \<open>
  The durable store of desktop-to-server mutations (\<^verbatim>\<open>storage/outbox.rs\<close>): the table
  \<^verbatim>\<open>desktop_outbox\<close>, the operations that queue a mutation, read a batch of pending ones and record
  the outcome of a delivery attempt.

  Shown here: the uniqueness of a mutation's key and of its row id is an invariant; no operation
  removes a row or changes one that has left the state \<^verbatim>\<open>pending\<close>; of the mutations queued with
  \<^verbatim>\<open>enqueue_replacing_pending\<close> only the newest can be pending; and the table implements an abstract
  ledger, a map from (kind, key) to the mutation and its status, each call answering what the ledger answers, or an
  error when its statement failed and nothing changed.
\<close>

section \<open>The table\<close>

record outbox_row =
  ob_id :: int
  ob_kind :: string
  ob_key :: string
  ob_payload :: string
  ob_state :: string
  ob_attempts :: int
  ob_error :: "string option"
  ob_created :: int
  ob_updated :: int

text \<open>\<open>ob_seq\<close> is SQLite's counter for \<^verbatim>\<open>AUTOINCREMENT\<close>: the largest id ever handed out.\<close>

record outbox_table =
  ob_rows :: "outbox_row list"
  ob_seq :: int

record outbox_item =
  oi_id :: int
  oi_kind :: string
  oi_key :: string
  oi_payload :: string
  oi_attempts :: int

type_synonym outbox_store = "outbox_table store"

definition empty_outbox :: outbox_table where
  "empty_outbox = \<lparr>ob_rows = [], ob_seq = 0\<rparr>"

definition pending :: "outbox_row \<Rightarrow> bool" where
  "pending r \<longleftrightarrow> ob_state r = ''pending''"

definition row_name :: "outbox_row \<Rightarrow> string \<times> string" where
  "row_name r = (ob_kind r, ob_key r)"

section \<open>The statements\<close>

definition new_row :: "int \<Rightarrow> int \<Rightarrow> string \<Rightarrow> string \<Rightarrow> string \<Rightarrow> outbox_row" where
  "new_row row_id now kind key payload =
     \<lparr>ob_id = row_id, ob_kind = kind, ob_key = key, ob_payload = payload, ob_state = ''pending'',
      ob_attempts = 0, ob_error = None, ob_created = now, ob_updated = now\<rparr>"

text \<open>\<^verbatim>\<open>INSERT ... ON CONFLICT(kind, idempotency_key) DO NOTHING\<close>, with the number of rows it added.\<close>

definition insert_outbox_row :: "int \<Rightarrow> string \<Rightarrow> string \<Rightarrow> string \<Rightarrow> outbox_table \<Rightarrow> nat \<times> outbox_table" where
  "insert_outbox_row now kind key payload t =
     (if (kind, key) \<in> row_name ` set (ob_rows t) then (0, t)
      else (1, t\<lparr>ob_rows := ob_rows t @ [new_row (ob_seq t + 1) now kind key payload],
                 ob_seq := ob_seq t + 1\<rparr>))"

definition supersede_row :: "int \<Rightarrow> string \<Rightarrow> string \<Rightarrow> outbox_row \<Rightarrow> outbox_row" where
  "supersede_row now kind key r =
     (if ob_kind r = kind \<and> ob_state r = ''pending'' \<and> ob_key r < key
      then r\<lparr>ob_state := ''superseded'', ob_updated := now\<rparr> else r)"

definition map_rows :: "(outbox_row \<Rightarrow> outbox_row) \<Rightarrow> outbox_table \<Rightarrow> outbox_table" where
  "map_rows f t = t\<lparr>ob_rows := map f (ob_rows t)\<rparr>"

definition replace_pending :: "int \<Rightarrow> string \<Rightarrow> string \<Rightarrow> string \<Rightarrow> outbox_table \<Rightarrow> bool \<times> outbox_table" where
  "replace_pending now kind key payload t =
     (let t1 = map_rows (supersede_row now kind key) t;
          (n, t2) = (if \<exists>r \<in> set (ob_rows t1). ob_kind r = kind \<and> key \<le> ob_key r then (0, t1)
                     else insert_outbox_row now kind key payload t1)
      in (0 < n, t2))"

definition settle_row :: "int \<Rightarrow> int \<Rightarrow> string \<Rightarrow> int \<Rightarrow> string option \<Rightarrow> outbox_row \<Rightarrow> outbox_row" where
  "settle_row row_id now state increment error_code r =
     (if ob_id r = row_id \<and> ob_state r = ''pending''
      then r\<lparr>ob_state := state, ob_attempts := ob_attempts r + increment,
             ob_error := (case error_code of Some c \<Rightarrow> Some c | None \<Rightarrow> ob_error r),
             ob_updated := now\<rparr>
      else r)"

definition row_item :: "outbox_row \<Rightarrow> outbox_item" where
  "row_item r = \<lparr>oi_id = ob_id r, oi_kind = ob_kind r, oi_key = ob_key r,
                 oi_payload = ob_payload r, oi_attempts = ob_attempts r\<rparr>"

definition pending_rows :: "int \<Rightarrow> outbox_table \<Rightarrow> outbox_row list" where
  "pending_rows limit t =
     (let rows = sort_key ob_id (filter pending (ob_rows t))
      in if limit < 0 then rows else take (nat limit) rows)"

section \<open>The store\<close>

text \<open>\<open>disk\<close> is what the database file holds, \<^const>\<open>None\<close> when there is no such table yet.\<close>

definition load_from_db :: "outbox_table option \<Rightarrow> (outbox_table, unit) store_op" where
  "load_from_db disk s =
     execute_sql [[], ''cannot migrate outbox table: ''] (\<lambda>t. ((), t))
       (case disk of None \<Rightarrow> empty_outbox | Some t \<Rightarrow> t) s"

definition enqueue :: "int \<Rightarrow> string \<Rightarrow> string \<Rightarrow> string \<Rightarrow> (outbox_table, unit) store_op" where
  "enqueue now kind idempotency_key payload_json s =
     (case st_pool s of
        None \<Rightarrow> (Inl ''outbox database is not initialized'', s)
      | Some t \<Rightarrow> execute_sql [''cannot enqueue outbox item: '']
          (\<lambda>t. ((), snd (insert_outbox_row now kind idempotency_key payload_json t))) t s)"

definition enqueue_replacing_pending ::
    "int \<Rightarrow> string \<Rightarrow> string \<Rightarrow> string \<Rightarrow> (outbox_table, bool) store_op" where
  "enqueue_replacing_pending now kind idempotency_key payload_json s =
     (case st_pool s of
        None \<Rightarrow> (Inl ''outbox database is not initialized'', s)
      | Some t \<Rightarrow> execute_sql
          [''cannot begin outbox replacement: '', ''cannot supersede older outbox item: '',
           ''cannot enqueue replacement outbox item: '', ''cannot commit outbox replacement: '']
          (replace_pending now kind idempotency_key payload_json) t s)"

definition pending_batch :: "int \<Rightarrow> (outbox_table, outbox_item list) store_op" where
  "pending_batch limit s =
     (case st_pool s of
        None \<Rightarrow> (Inr [], s)
      | Some t \<Rightarrow> select_sql ''cannot read outbox batch: '' (\<lambda>t. map row_item (pending_rows limit t)) t s)"

definition update_state :: "int \<Rightarrow> int \<Rightarrow> string \<Rightarrow> string option \<Rightarrow> (outbox_table, unit) store_op" where
  "update_state now row_id state error_code s =
     (case st_pool s of
        None \<Rightarrow> (Inl ''outbox database is not initialized'', s)
      | Some t \<Rightarrow>
          (let increment = (if state = ''sent'' then 0 else 1)
           in execute_sql [''cannot update outbox item: '']
                (\<lambda>t. ((), map_rows (settle_row row_id now state increment error_code) t)) t s))"

definition mark_sent :: "int \<Rightarrow> int \<Rightarrow> (outbox_table, unit) store_op" where
  "mark_sent now row_id = update_state now row_id ''sent'' None"

definition mark_retry :: "int \<Rightarrow> int \<Rightarrow> string \<Rightarrow> (outbox_table, unit) store_op" where
  "mark_retry now row_id error_code = update_state now row_id ''pending'' (Some error_code)"

definition mark_failed :: "int \<Rightarrow> int \<Rightarrow> string \<Rightarrow> (outbox_table, unit) store_op" where
  "mark_failed now row_id error_code = update_state now row_id ''failed'' (Some error_code)"

section \<open>The invariant\<close>

text \<open>The table's constraints: the (kind, key) pairs are distinct, ids ascend in insertion order and
  stay below the counter, and a row is in one of the four states.\<close>

definition outbox_ok :: "outbox_table \<Rightarrow> bool" where
  "outbox_ok t \<longleftrightarrow>
     distinct (map row_name (ob_rows t)) \<and>
     sorted_wrt (<) (map ob_id (ob_rows t)) \<and>
     (\<forall>r \<in> set (ob_rows t). ob_id r \<le> ob_seq t \<and>
        ob_state r \<in> {''pending'', ''sent'', ''failed'', ''superseded''})"

text \<open>A rewriting of rows that leaves their identity alone.\<close>

definition keeps_identity :: "(outbox_row \<Rightarrow> outbox_row) \<Rightarrow> bool" where
  "keeps_identity f \<longleftrightarrow>
     (\<forall>r. ob_id (f r) = ob_id r \<and> ob_kind (f r) = ob_kind r \<and> ob_key (f r) = ob_key r
        \<and> ob_payload (f r) = ob_payload r \<and> ob_created (f r) = ob_created r
        \<and> (ob_state r \<noteq> ''pending'' \<longrightarrow> f r = r))"

lemma keeps_identityD:
  assumes "keeps_identity f"
  shows "ob_id (f r) = ob_id r" "ob_kind (f r) = ob_kind r" "ob_key (f r) = ob_key r"
    "ob_payload (f r) = ob_payload r" "row_name (f r) = row_name r"
    "ob_state r \<noteq> ''pending'' \<Longrightarrow> f r = r"
  using assms by (auto simp: keeps_identity_def row_name_def)

lemma supersede_row_identity [simp, intro]: "keeps_identity (supersede_row now kind key)"
  by (simp add: keeps_identity_def supersede_row_def)

lemma settle_row_identity [simp, intro]: "keeps_identity (settle_row row_id now state inc code)"
  by (simp add: keeps_identity_def settle_row_def)

lemma map_rows_simps [simp]:
  "ob_rows (map_rows f t) = map f (ob_rows t)" "ob_seq (map_rows f t) = ob_seq t"
  by (simp_all add: map_rows_def)

lemma names_map_rows: "keeps_identity f \<Longrightarrow> row_name ` f ` R = row_name ` R"
  by (simp add: image_image keeps_identityD)

lemma outbox_ok_empty [simp]: "outbox_ok empty_outbox"
  by (simp add: outbox_ok_def empty_outbox_def)

lemma outbox_ok_insert:
  assumes "outbox_ok t"
  shows "outbox_ok (snd (insert_outbox_row now kind key payload t))"
proof (cases "(kind, key) \<in> row_name ` set (ob_rows t)")
  case False
  then show ?thesis using assms
    by (fastforce simp: outbox_ok_def insert_outbox_row_def new_row_def row_name_def sorted_wrt_append)
qed (simp add: insert_outbox_row_def assms)

lemma outbox_ok_map_rows:
  assumes "outbox_ok t" "keeps_identity f"
    and "\<And>r. ob_state r = ''pending'' \<Longrightarrow>
               ob_state (f r) \<in> {''pending'', ''sent'', ''failed'', ''superseded''}"
  shows "outbox_ok (map_rows f t)"
proof -
  have "ob_state (f r) \<in> {''pending'', ''sent'', ''failed'', ''superseded''}"
    if "r \<in> set (ob_rows t)" for r
    using assms(1,3) keeps_identityD(6) [OF assms(2)] that unfolding outbox_ok_def
    by (cases "ob_state r = ''pending''") auto
  then show ?thesis using assms(1)
    by (simp add: outbox_ok_def comp_def keeps_identityD [OF assms(2)])
qed

lemma outbox_ok_supersede: "outbox_ok t \<Longrightarrow> outbox_ok (map_rows (supersede_row now kind key) t)"
  by (rule outbox_ok_map_rows) (auto simp: supersede_row_def)

lemma outbox_ok_replace:
  "outbox_ok t \<Longrightarrow> outbox_ok (snd (replace_pending now kind key payload t))"
  by (simp add: replace_pending_def Let_def split_beta outbox_ok_supersede outbox_ok_insert)

lemma outbox_ok_settle:
  "outbox_ok t \<Longrightarrow> state \<in> {''pending'', ''sent'', ''failed'', ''superseded''} \<Longrightarrow>
     outbox_ok (map_rows (settle_row row_id now state inc code) t)"
  by (rule outbox_ok_map_rows) (auto simp: settle_row_def)

section \<open>Sequences of calls\<close>

datatype outbox_call =
  Enqueue int string string string
| Replace int string string string
| Mark_Sent int int
| Mark_Retry int int string
| Mark_Failed int int string

fun outbox_exec :: "outbox_call \<Rightarrow> outbox_store \<Rightarrow> outbox_store" where
  "outbox_exec (Enqueue now kind key payload) s = snd (enqueue now kind key payload s)"
| "outbox_exec (Replace now kind key payload) s = snd (enqueue_replacing_pending now kind key payload s)"
| "outbox_exec (Mark_Sent now i) s = snd (mark_sent now i s)"
| "outbox_exec (Mark_Retry now i code) s = snd (mark_retry now i code s)"
| "outbox_exec (Mark_Failed now i code) s = snd (mark_failed now i code s)"

text \<open>The same call with its answer: an error, or for a replacement whether a row was added.\<close>

fun outbox_answer :: "outbox_call \<Rightarrow> outbox_store \<Rightarrow> string + bool option" where
  "outbox_answer (Enqueue now kind key payload) s = map_sum id (\<lambda>_. None) (fst (enqueue now kind key payload s))"
| "outbox_answer (Replace now kind key payload) s = map_sum id Some (fst (enqueue_replacing_pending now kind key payload s))"
| "outbox_answer (Mark_Sent now i) s = map_sum id (\<lambda>_. None) (fst (mark_sent now i s))"
| "outbox_answer (Mark_Retry now i code) s = map_sum id (\<lambda>_. None) (fst (mark_retry now i code s))"
| "outbox_answer (Mark_Failed now i code) s = map_sum id (\<lambda>_. None) (fst (mark_failed now i code s))"

text \<open>What a successful call does to the table.\<close>

fun call_effect :: "outbox_call \<Rightarrow> outbox_table \<Rightarrow> outbox_table" where
  "call_effect (Enqueue now kind key payload) t = snd (insert_outbox_row now kind key payload t)"
| "call_effect (Replace now kind key payload) t = snd (replace_pending now kind key payload t)"
| "call_effect (Mark_Sent now i) t = map_rows (settle_row i now ''sent'' 0 None) t"
| "call_effect (Mark_Retry now i code) t = map_rows (settle_row i now ''pending'' 1 (Some code)) t"
| "call_effect (Mark_Failed now i code) t = map_rows (settle_row i now ''failed'' 1 (Some code)) t"

lemmas outbox_defs = enqueue_def enqueue_replacing_pending_def update_state_def
  mark_sent_def mark_retry_def mark_failed_def

lemma outbox_exec_unopened: "st_pool s = None \<Longrightarrow> outbox_exec c s = s"
  by (cases c) (simp_all add: outbox_defs)

lemma outbox_exec_pool:
  assumes "st_pool s = Some t"
  shows "st_pool (outbox_exec c s) \<in> {Some t, Some (call_effect c t)}"
  using assms by (cases c) (auto simp: outbox_defs execute_sql_def split: prod.split sum.split)

lemma outbox_exec_healthy: "outbox_exec c (opened_store t) = opened_store (call_effect c t)"
  by (cases c) (simp_all add: outbox_defs)

text \<open>The number of statements of a call, and the answer of one whose statements all succeed.\<close>

fun statement_count :: "outbox_call \<Rightarrow> nat" where
  "statement_count (Replace now kind key payload) = 4"
| "statement_count _ = 1"

fun call_news :: "outbox_call \<Rightarrow> outbox_table \<Rightarrow> bool option" where
  "call_news (Replace now kind key payload) t = Some (fst (replace_pending now kind key payload t))"
| "call_news _ t = None"

lemma statements_ok: "is_ok (fst (statements ps fs)) \<longleftrightarrow> list_all (\<lambda>f. f = None) (take (length ps) fs)"
  by (induction ps fs rule: statements.induct) auto

lemma execute_sql_answer:
  "is_ok (fst (execute_sql ps f t s)) \<longleftrightarrow> list_all (\<lambda>f. f = None) (take (length ps) (st_faults s))"
  "is_ok (fst (execute_sql ps f t s)) \<Longrightarrow> fst (execute_sql ps f t s) = Inr (fst (f t))"
  "st_pool s = Some t \<Longrightarrow> st_pool (snd (execute_sql ps f t s))
     = (if is_ok (fst (execute_sql ps f t s)) then Some (snd (f t)) else Some t)"
  unfolding statements_ok [symmetric] by (auto simp: execute_sql_def is_ok_def split: prod.splits sum.splits)

lemma is_ok_map_sum [simp]: "is_ok (map_sum f g x) = is_ok x"
  by (cases x) (simp_all add: is_ok_def)

lemma outbox_call_answer:
  assumes "st_pool s = Some t"
  shows "is_ok (outbox_answer c s) \<longleftrightarrow> list_all (\<lambda>f. f = None) (take (statement_count c) (st_faults s))"
    and "is_ok (outbox_answer c s) \<Longrightarrow> outbox_answer c s = Inr (call_news c t)"
    and "st_pool (outbox_exec c s) = (if is_ok (outbox_answer c s) then Some (call_effect c t) else Some t)"
proof -
  show "is_ok (outbox_answer c s) \<longleftrightarrow> list_all (\<lambda>f. f = None) (take (statement_count c) (st_faults s))"
    by (cases c) (simp_all add: assms outbox_defs execute_sql_answer(1) eval_nat_numeral)
  show "is_ok (outbox_answer c s) \<Longrightarrow> outbox_answer c s = Inr (call_news c t)"
    by (cases c) (simp_all add: assms outbox_defs execute_sql_answer(2))
  show "st_pool (outbox_exec c s) = (if is_ok (outbox_answer c s) then Some (call_effect c t) else Some t)"
    by (cases c) (simp_all add: assms outbox_defs execute_sql_answer(3))
qed

lemma outbox_ok_call: "outbox_ok t \<Longrightarrow> outbox_ok (call_effect c t)"
  by (cases c) (auto simp: outbox_ok_insert outbox_ok_replace intro: outbox_ok_settle)

definition pool_ok :: "outbox_store \<Rightarrow> bool" where
  "pool_ok s = (case st_pool s of None \<Rightarrow> True | Some t \<Rightarrow> outbox_ok t)"

interpretation outbox_calls: store_invariant outbox_exec "\<lambda>_. True" pool_ok
proof
  fix c s assume "pool_ok s"
  then show "pool_ok (outbox_exec c s)"
    using outbox_exec_unopened [of s c] outbox_exec_pool [of s _ c] outbox_ok_call
    by (cases "st_pool s") (auto simp: pool_ok_def split: option.splits)
qed

section \<open>Rows are kept\<close>

definition table_extends :: "outbox_table \<Rightarrow> outbox_table \<Rightarrow> bool" where
  "table_extends t t' \<longleftrightarrow>
     (\<exists>f new. keeps_identity f \<and> ob_rows t' = map f (ob_rows t) @ new
        \<and> (\<forall>r \<in> set new. ob_seq t < ob_id r)) \<and> ob_seq t \<le> ob_seq t'"

lemma keeps_identity_comp: "keeps_identity f \<Longrightarrow> keeps_identity g \<Longrightarrow> keeps_identity (g \<circ> f)"
  by (auto simp: keeps_identity_def)

lemma keeps_identity_id [simp]: "keeps_identity (\<lambda>r. r)"
  by (simp add: keeps_identity_def)

lemma table_extends_refl [simp]: "table_extends t t"
  unfolding table_extends_def by (intro conjI exI [of _ "\<lambda>r. r"] exI [of _ "[]"]) auto

lemma table_extends_trans:
  assumes "table_extends t1 t2" "table_extends t2 t3"
  shows "table_extends t1 t3"
proof -
  obtain f new g new' where fg: "keeps_identity f" "keeps_identity g"
      and rows: "ob_rows t2 = map f (ob_rows t1) @ new" "ob_rows t3 = map g (ob_rows t2) @ new'"
      and ids: "\<forall>r \<in> set new. ob_seq t1 < ob_id r" "\<forall>r \<in> set new'. ob_seq t2 < ob_id r"
    using assms unfolding table_extends_def by blast
  have "ob_rows t3 = map (g \<circ> f) (ob_rows t1) @ (map g new @ new')" using rows by simp
  moreover have "\<forall>r \<in> set (map g new @ new'). ob_seq t1 < ob_id r"
    using ids assms(1) keeps_identityD(1) [OF fg(2)] by (fastforce simp: table_extends_def)
  moreover have "ob_seq t1 \<le> ob_seq t3" using assms by (simp add: table_extends_def)
  ultimately show ?thesis
    using keeps_identity_comp [OF fg] unfolding table_extends_def by blast
qed

lemma table_extends_map_rows: "keeps_identity f \<Longrightarrow> table_extends t (map_rows f t)"
  unfolding table_extends_def by (intro conjI exI [of _ f] exI [of _ "[]"]) auto

lemma table_extends_insert: "table_extends t (snd (insert_outbox_row now kind key payload t))"
  unfolding table_extends_def insert_outbox_row_def
  by (intro conjI exI [of _ "\<lambda>r. r"]) (auto simp: new_row_def)

lemma table_extends_call: "table_extends t (call_effect c t)"
proof (cases c)
  case (Replace now kind key payload)
  have "table_extends t (map_rows (supersede_row now kind key) t)"
    by (simp add: table_extends_map_rows)
  then show ?thesis
    using table_extends_trans [OF _ table_extends_insert] Replace
    by (simp add: replace_pending_def Let_def split_beta)
qed (simp_all add: table_extends_insert table_extends_map_rows)

definition pool_extends :: "outbox_store \<Rightarrow> outbox_store \<Rightarrow> bool" where
  "pool_extends s s' =
     (case (st_pool s, st_pool s') of
        (None, None) \<Rightarrow> True | (Some t, Some t') \<Rightarrow> table_extends t t' | _ \<Rightarrow> False)"

interpretation outbox_rows: store_progress outbox_exec pool_extends
proof
  show "pool_extends s s" for s by (simp add: pool_extends_def split: option.split)
  show "pool_extends s1 s3" if "pool_extends s1 s2" "pool_extends s2 s3" for s1 s2 s3
    using that table_extends_trans by (auto simp: pool_extends_def split: option.splits)
  show "pool_extends s (outbox_exec c s)" for s c
    using outbox_exec_unopened [of s c] outbox_exec_pool [of s _ c] table_extends_call
    by (cases "st_pool s") (auto simp: pool_extends_def split: option.splits)
qed

lemma table_extends_row:
  assumes "table_extends t t'" "r \<in> set (ob_rows t)"
  obtains r' where "r' \<in> set (ob_rows t')" "ob_id r' = ob_id r" "row_name r' = row_name r"
    "ob_payload r' = ob_payload r" "\<not> pending r \<Longrightarrow> r' = r"
proof -
  obtain f new where f: "keeps_identity f" "ob_rows t' = map f (ob_rows t) @ new"
    using assms(1) unfolding table_extends_def by blast
  with assms(2) have "f r \<in> set (ob_rows t')" by simp
  with that [of "f r"] keeps_identityD [OF f(1), of r] show thesis by (simp add: pending_def)
qed

section \<open>Only the newest replaceable mutation is pending\<close>

definition rows_of :: "string \<Rightarrow> outbox_table \<Rightarrow> outbox_row list" where
  "rows_of k t = filter (\<lambda>r. ob_kind r = k) (ob_rows t)"

definition newest_only :: "string \<Rightarrow> outbox_table \<Rightarrow> bool" where
  "newest_only k t \<longleftrightarrow>
     sorted_wrt (<) (map ob_key (rows_of k t)) \<and> (\<forall>r \<in> set (butlast (rows_of k t)). \<not> pending r)"

fun replaces :: "string \<Rightarrow> outbox_call \<Rightarrow> bool" where
  "replaces k (Enqueue now kind key payload) = (kind \<noteq> k)"
| "replaces k _ = True"

lemma rows_of_map_rows:
  assumes "keeps_identity f"
  shows "rows_of k (map_rows f t) = map f (rows_of k t)"
  using keeps_identityD(2) [OF assms] by (simp add: rows_of_def filter_map comp_def)

lemma rows_of_insert:
  "rows_of k (snd (insert_outbox_row now kind key payload t)) =
     (if kind = k \<and> (kind, key) \<notin> row_name ` set (ob_rows t)
      then rows_of k t @ [new_row (ob_seq t + 1) now kind key payload] else rows_of k t)"
  by (simp add: rows_of_def insert_outbox_row_def new_row_def)

lemma newest_only_empty [simp]: "newest_only k empty_outbox"
  by (simp add: newest_only_def rows_of_def empty_outbox_def)

lemma newest_only_map_rows:
  assumes "newest_only k t" "keeps_identity f"
  shows "newest_only k (map_rows f t)"
  using assms(1) keeps_identityD(3,6) [OF assms(2)]
  by (auto simp: newest_only_def rows_of_map_rows [OF assms(2)] comp_def pending_def
      simp flip: map_butlast)

lemma newest_only_other_insert:
  "newest_only k t \<Longrightarrow> kind \<noteq> k \<Longrightarrow> newest_only k (snd (insert_outbox_row now kind key payload t))"
  by (simp add: newest_only_def rows_of_insert)

lemma newest_only_newer_insert:
  assumes "newest_only k t" "\<And>r. r \<in> set (rows_of k t) \<Longrightarrow> ob_key r < key \<and> \<not> pending r"
  shows "newest_only k (snd (insert_outbox_row now k key payload t))"
  using assms by (auto simp: newest_only_def rows_of_insert sorted_wrt_append new_row_def)

lemma newest_only_replace:
  assumes "newest_only k t"
  shows "newest_only k (snd (replace_pending now kind key payload t))"
proof -
  let ?t = "map_rows (supersede_row now kind key) t"
  have t: "newest_only k ?t" by (simp add: assms newest_only_map_rows)
  have "newest_only k (snd (insert_outbox_row now kind key payload ?t))"
    if fresh: "\<not> (\<exists>r \<in> set (ob_rows ?t). ob_kind r = kind \<and> key \<le> ob_key r)"
  proof (cases "kind = k")
    case True
    have "ob_key r < key \<and> \<not> pending r" if r: "r \<in> set (rows_of k ?t)" for r
    proof -
      obtain r0 where r0: "r = supersede_row now kind key r0" using r by (auto simp: rows_of_def)
      have "ob_kind r = kind" "ob_key r < key"
        using r fresh True by (auto simp: rows_of_def not_le)
      moreover from this have "ob_kind r0 = kind" "ob_key r0 < key"
        unfolding r0 by (simp_all add: keeps_identityD [OF supersede_row_identity])
      ultimately show ?thesis by (simp add: r0 supersede_row_def pending_def)
    qed
    then show ?thesis using newest_only_newer_insert [OF t] True by blast
  qed (simp add: t newest_only_other_insert)
  with t show ?thesis by (simp add: replace_pending_def Let_def split_beta)
qed

lemma newest_only_call: "replaces k c \<Longrightarrow> newest_only k t \<Longrightarrow> newest_only k (call_effect c t)"
  by (cases c) (auto simp: newest_only_other_insert newest_only_replace newest_only_map_rows)

definition pool_newest :: "string \<Rightarrow> outbox_store \<Rightarrow> bool" where
  "pool_newest k s = (case st_pool s of None \<Rightarrow> True | Some t \<Rightarrow> newest_only k t)"

interpretation outbox_newest: store_invariant outbox_exec "replaces k" "pool_newest k" for k
proof
  fix c s assume "replaces k c" "pool_newest k s"
  then show "pool_newest k (outbox_exec c s)"
    using outbox_exec_unopened [of s c] outbox_exec_pool [of s _ c] newest_only_call
    by (cases "st_pool s") (auto simp: pool_newest_def split: option.splits)
qed

lemma newest_only_pending:
  assumes "newest_only k t" "r \<in> set (rows_of k t)" "pending r" "r' \<in> set (rows_of k t)"
  shows "r' = r \<or> (ob_key r' < ob_key r \<and> \<not> pending r')"
proof -
  obtain rows top where rows: "rows_of k t = rows @ [top]"
    using assms(2) by (cases "rows_of k t" rule: rev_cases) auto
  with assms show ?thesis by (auto simp: newest_only_def sorted_wrt_append)
qed

section \<open>The ledger\<close>

text \<open>What the store promises its users, without ids, timestamps and rows: a map from the name of a
  mutation to its payload and status. A name is given a payload once; a mutation leaves the status
  \<open>Queued\<close> at most once.\<close>

datatype ledger_status = Queued | Delivered | Rejected | Outdated

type_synonym ledger = "string \<times> string \<rightharpoonup> string \<times> ledger_status"

definition ledger_submit :: "string \<times> string \<Rightarrow> string \<Rightarrow> ledger \<Rightarrow> ledger" where
  "ledger_submit name payload L =
     (case L name of None \<Rightarrow> L(name \<mapsto> (payload, Queued)) | Some _ \<Rightarrow> L)"

definition ledger_outdate :: "string \<Rightarrow> string \<Rightarrow> ledger \<Rightarrow> ledger" where
  "ledger_outdate kind key L name =
     (case L name of
        Some (payload, Queued) \<Rightarrow>
          Some (payload, if fst name = kind \<and> snd name < key then Outdated else Queued)
      | other \<Rightarrow> other)"

definition ledger_publish :: "string \<Rightarrow> string \<Rightarrow> string \<Rightarrow> ledger \<Rightarrow> ledger" where
  "ledger_publish kind key payload L =
     (if \<exists>key'. key \<le> key' \<and> (kind, key') \<in> dom L then ledger_outdate kind key L
      else (ledger_outdate kind key L)((kind, key) \<mapsto> (payload, Queued)))"

definition ledger_settle :: "string \<times> string \<Rightarrow> ledger_status \<Rightarrow> ledger \<Rightarrow> ledger" where
  "ledger_settle name status L =
     (case L name of Some (payload, Queued) \<Rightarrow> L(name \<mapsto> (payload, status)) | _ \<Rightarrow> L)"

definition status_of :: "string \<Rightarrow> ledger_status" where
  "status_of s = (if s = ''pending'' then Queued else if s = ''sent'' then Delivered
                  else if s = ''failed'' then Rejected else Outdated)"

definition row_entry :: "outbox_row \<Rightarrow> (string \<times> string) \<times> (string \<times> ledger_status)" where
  "row_entry r = (row_name r, (ob_payload r, status_of (ob_state r)))"

definition ledger_of :: "outbox_table \<Rightarrow> ledger" where
  "ledger_of t = map_of (map row_entry (ob_rows t))"

text \<open>The ledger operation a call amounts to; the outcome of an attempt is addressed to a row id,
  and concerns the mutation in that row.\<close>

definition settle_id :: "outbox_table \<Rightarrow> int \<Rightarrow> ledger_status \<Rightarrow> ledger \<Rightarrow> ledger" where
  "settle_id t i status =
     (case find (\<lambda>r. ob_id r = i) (ob_rows t) of
        None \<Rightarrow> (\<lambda>L. L) | Some r \<Rightarrow> ledger_settle (row_name r) status)"

fun ledger_call :: "outbox_table \<Rightarrow> outbox_call \<Rightarrow> ledger \<Rightarrow> ledger" where
  "ledger_call t (Enqueue now kind key payload) = ledger_submit (kind, key) payload"
| "ledger_call t (Replace now kind key payload) = ledger_publish kind key payload"
| "ledger_call t (Mark_Sent now i) = settle_id t i Delivered"
| "ledger_call t (Mark_Retry now i code) = (\<lambda>L. L)"
| "ledger_call t (Mark_Failed now i code) = settle_id t i Rejected"

lemma ledger_of_Some:
  assumes "outbox_ok t"
  shows "ledger_of t name = Some e \<longleftrightarrow>
    (\<exists>r \<in> set (ob_rows t). row_name r = name \<and> e = (ob_payload r, status_of (ob_state r)))"
proof -
  have "distinct (map fst (map row_entry (ob_rows t)))"
    using assms by (simp add: outbox_ok_def row_entry_def comp_def)
  then show ?thesis unfolding ledger_of_def by (auto simp: row_entry_def)
qed

lemma ledger_of_None: "ledger_of t name = None \<longleftrightarrow> name \<notin> row_name ` set (ob_rows t)"
  by (auto simp: ledger_of_def map_of_eq_None_iff row_entry_def image_image)

lemma dom_ledger_of: "dom (ledger_of t) = row_name ` set (ob_rows t)"
  by (auto simp: ledger_of_def dom_map_of_conv_image_fst row_entry_def image_image)

lemma ledger_eqI:
  assumes "outbox_ok t" "dom L = row_name ` set (ob_rows t)"
    and "\<And>r. r \<in> set (ob_rows t) \<Longrightarrow> L (row_name r) = Some (ob_payload r, status_of (ob_state r))"
  shows "ledger_of t = L"
proof
  fix name
  show "ledger_of t name = L name"
  proof (cases "name \<in> row_name ` set (ob_rows t)")
    case True
    then obtain r where r: "r \<in> set (ob_rows t)" "name = row_name r" by blast
    then have "ledger_of t name = Some (ob_payload r, status_of (ob_state r))"
      using ledger_of_Some [OF assms(1)] by blast
    with assms(3) r show ?thesis by simp
  next
    case False
    with assms(2) ledger_of_None [of t name] show ?thesis by (metis domIff)
  qed
qed

lemma ledger_of_row:
  "outbox_ok t \<Longrightarrow> r \<in> set (ob_rows t) \<Longrightarrow>
     ledger_of t (row_name r) = Some (ob_payload r, status_of (ob_state r))"
  using ledger_of_Some by blast

lemma status_of_simps [simp]:
  "status_of ''pending'' = Queued" "status_of ''sent'' = Delivered"
  "status_of ''failed'' = Rejected" "status_of ''superseded'' = Outdated"
  by (simp_all add: status_of_def)

lemma status_of_Queued [simp]: "status_of s = Queued \<longleftrightarrow> s = ''pending''"
  by (simp add: status_of_def)

lemma ledger_insert:
  assumes "outbox_ok t"
  shows "ledger_of (snd (insert_outbox_row now kind key payload t)) = ledger_submit (kind, key) payload (ledger_of t)"
proof (cases "(kind, key) \<in> row_name ` set (ob_rows t)")
  case True
  then have "ledger_of t (kind, key) \<noteq> None" by (simp add: ledger_of_None)
  with True show ?thesis by (auto simp: insert_outbox_row_def ledger_submit_def)
next
  case False
  then have none: "ledger_of t (kind, key) = None" by (simp add: ledger_of_None)
  let ?r = "new_row (ob_seq t + 1) now kind key payload"
  have entry: "row_entry ?r = ((kind, key), (payload, Queued))"
    by (simp add: row_entry_def row_name_def new_row_def)
  have "ledger_of (snd (insert_outbox_row now kind key payload t)) = [(kind, key) \<mapsto> (payload, Queued)] ++ ledger_of t"
    using False by (simp add: ledger_of_def insert_outbox_row_def entry)
  also have "\<dots> = (ledger_of t)((kind, key) \<mapsto> (payload, Queued))"
    using none by (auto simp: map_add_def fun_eq_iff split: option.split)
  finally show ?thesis using none by (simp add: ledger_submit_def)
qed

lemma ledger_map_rows:
  assumes "outbox_ok t" "keeps_identity f"
    and "dom L = dom (ledger_of t)"
    and "\<And>r. r \<in> set (ob_rows t) \<Longrightarrow>
               L (row_name r) = Some (ob_payload r, status_of (ob_state (f r)))"
  shows "ledger_of (map_rows f t) = L"
proof -
  have "distinct (map fst (map row_entry (map f (ob_rows t))))"
    using assms(1) keeps_identityD(5) [OF assms(2)]
    by (simp add: outbox_ok_def row_entry_def comp_def)
  then have row: "ledger_of (map_rows f t) (row_name r) = Some (ob_payload r, status_of (ob_state (f r)))"
    if "r \<in> set (ob_rows t)" for r
    using that unfolding ledger_of_def
    by (auto simp: row_entry_def keeps_identityD(4,5) [OF assms(2)] intro!: map_of_is_SomeI image_eqI)
  show ?thesis
  proof
    fix name
    show "ledger_of (map_rows f t) name = L name"
    proof (cases "name \<in> row_name ` set (ob_rows t)")
      case True
      then obtain r where "r \<in> set (ob_rows t)" "name = row_name r" by blast
      with row assms(4) show ?thesis by simp
    next
      case False
      then have "name \<notin> row_name ` set (ob_rows (map_rows f t))"
        by (simp add: names_map_rows [OF assms(2)])
      then show ?thesis using False assms(3) dom_ledger_of [of t] dom_ledger_of [of "map_rows f t"]
        by (metis domIff)
    qed
  qed
qed

lemma ledger_supersede:
  assumes "outbox_ok t"
  shows "ledger_of (map_rows (supersede_row now kind key) t) = ledger_outdate kind key (ledger_of t)"
proof (rule ledger_map_rows [OF assms supersede_row_identity])
  show "dom (ledger_outdate kind key (ledger_of t)) = dom (ledger_of t)"
    by (auto simp: ledger_outdate_def dom_def split: option.splits ledger_status.splits)
  fix r assume "r \<in> set (ob_rows t)"
  from ledger_of_row [OF assms this]
  show "ledger_outdate kind key (ledger_of t) (row_name r) =
        Some (ob_payload r, status_of (ob_state (supersede_row now kind key r)))"
    by (auto simp: ledger_outdate_def supersede_row_def row_name_def
        split: ledger_status.splits dest: sym)
qed

lemma ledger_replace:
  assumes "outbox_ok t"
  shows "ledger_of (snd (replace_pending now kind key payload t)) = ledger_publish kind key payload (ledger_of t)"
proof -
  let ?t = "map_rows (supersede_row now kind key) t"
  have ok: "outbox_ok ?t" by (simp add: assms outbox_ok_supersede)
  have newer: "(\<exists>r \<in> set (ob_rows ?t). ob_kind r = kind \<and> key \<le> ob_key r) \<longleftrightarrow>
               (\<exists>key'. key \<le> key' \<and> (kind, key') \<in> dom (ledger_of t))"
    by (auto simp: dom_ledger_of row_name_def keeps_identityD [OF supersede_row_identity])
  have fresh: "ledger_submit (kind, key) payload (ledger_outdate kind key (ledger_of t)) =
               (ledger_outdate kind key (ledger_of t))((kind, key) \<mapsto> (payload, Queued))"
    if "\<not> (\<exists>key'. key \<le> key' \<and> (kind, key') \<in> dom (ledger_of t))"
  proof -
    have "ledger_of t (kind, key) = None" using that by (metis domIff order_refl)
    then show ?thesis by (simp add: ledger_submit_def ledger_outdate_def)
  qed
  have "ledger_of (snd (replace_pending now kind key payload t)) =
        (if \<exists>key'. key \<le> key' \<and> (kind, key') \<in> dom (ledger_of t) then ledger_of ?t
         else ledger_of (snd (insert_outbox_row now kind key payload ?t)))"
    unfolding replace_pending_def Let_def split_beta newer
    by (cases "\<exists>key'. key \<le> key' \<and> (kind, key') \<in> dom (ledger_of t)") auto
  also have "\<dots> = ledger_publish kind key payload (ledger_of t)"
    unfolding ledger_insert [OF ok] ledger_supersede [OF assms] ledger_publish_def
    by (intro if_cong refl fresh)
  finally show ?thesis .
qed

lemma row_id_unique:
  assumes "outbox_ok t" "r \<in> set (ob_rows t)" "r' \<in> set (ob_rows t)" "ob_id r = ob_id r'"
  shows "r = r'"
proof -
  have "distinct (map ob_id (ob_rows t))"
    using assms(1) unfolding outbox_ok_def by (metis strict_sorted_iff)
  with assms show ?thesis by (simp add: distinct_map inj_on_def)
qed

lemma row_name_unique:
  "outbox_ok t \<Longrightarrow> r \<in> set (ob_rows t) \<Longrightarrow> r' \<in> set (ob_rows t) \<Longrightarrow> row_name r = row_name r' \<Longrightarrow> r = r'"
  by (auto simp: outbox_ok_def distinct_map inj_on_def)

lemma ledger_settle_rows:
  assumes "outbox_ok t"
  shows "ledger_of (map_rows (settle_row i now state inc code) t) = settle_id t i (status_of state) (ledger_of t)"
proof (cases "find (\<lambda>r. ob_id r = i) (ob_rows t)")
  case None
  then have "settle_row i now state inc code r = r" if "r \<in> set (ob_rows t)" for r
    using that by (auto simp: settle_row_def find_None_iff)
  then have "map_rows (settle_row i now state inc code) t = t"
    by (simp add: map_rows_def map_idI)
  with None show ?thesis by (simp add: settle_id_def)
next
  case (Some r)
  then have r: "r \<in> set (ob_rows t)" "ob_id r = i"
    by (auto simp: find_Some_iff)
  have L: "ledger_of t (row_name r) = Some (ob_payload r, status_of (ob_state r))"
    using ledger_of_row [OF assms r(1)] .
  have "ledger_of (map_rows (settle_row i now state inc code) t)
        = ledger_settle (row_name r) (status_of state) (ledger_of t)"
  proof (rule ledger_map_rows [OF assms settle_row_identity])
    show "dom (ledger_settle (row_name r) (status_of state) (ledger_of t)) = dom (ledger_of t)"
      using L by (auto simp: ledger_settle_def split: ledger_status.split)
    fix q assume q: "q \<in> set (ob_rows t)"
    show "ledger_settle (row_name r) (status_of state) (ledger_of t) (row_name q)
          = Some (ob_payload q, status_of (ob_state (settle_row i now state inc code q)))"
    proof (cases "q = r")
      case True
      with L r show ?thesis
        by (auto simp: ledger_settle_def settle_row_def split: ledger_status.split dest: sym)
    next
      case False
      then have "row_name q \<noteq> row_name r" "ob_id q \<noteq> i"
        using row_name_unique [OF assms q r(1)] row_id_unique [OF assms q r(1)] r(2) by auto
      with ledger_of_row [OF assms q] show ?thesis
        by (auto simp: ledger_settle_def settle_row_def split: option.split ledger_status.split)
    qed
  qed
  with Some show ?thesis by (simp add: settle_id_def)
qed

lemma settle_id_Queued [simp]: "settle_id t i Queued L = L"
  by (auto simp: settle_id_def ledger_settle_def fun_eq_iff
      split: option.split ledger_status.split)

text \<open>A replacement tells whether it is the newest of its kind the ledger knows.\<close>

fun ledger_news :: "outbox_call \<Rightarrow> ledger \<Rightarrow> bool option" where
  "ledger_news (Replace now kind key payload) L = Some (\<not> (\<exists>key'. key \<le> key' \<and> (kind, key') \<in> dom L))"
| "ledger_news _ L = None"

lemma ledger_call_news: "call_news c t = ledger_news c (ledger_of t)"
proof (cases c)
  case (Replace now kind key payload)
  let ?t = "map_rows (supersede_row now kind key) t"
  have newer: "(\<exists>r \<in> set (ob_rows ?t). ob_kind r = kind \<and> key \<le> ob_key r) \<longleftrightarrow>
      (\<exists>key'. key \<le> key' \<and> (kind, key') \<in> dom (ledger_of t))"
    by (auto simp: dom_ledger_of row_name_def keeps_identityD [OF supersede_row_identity])
  have "(kind, key) \<notin> row_name ` set (ob_rows ?t)" if "\<not> (\<exists>key'. key \<le> key' \<and> (kind, key') \<in> dom (ledger_of t))"
    using that by (auto simp: dom_ledger_of names_map_rows)
  then show ?thesis unfolding Replace call_news.simps ledger_news.simps replace_pending_def Let_def newer
    by (auto simp: insert_outbox_row_def)
qed simp_all

lemma ledger_call_effect: "outbox_ok t \<Longrightarrow> ledger_of (call_effect c t) = ledger_call t c (ledger_of t)"
  by (cases c) (simp_all add: ledger_insert ledger_replace ledger_settle_rows)

section \<open>Properties\<close>

text \<open>
  No mutation in the outbox is lost or altered. After any sequence of calls, whichever of their
  SQL statements fail, a row that was in the table is still there with its id, kind, idempotency
  key and payload; and once it has left the state \<^verbatim>\<open>pending\<close> no call changes it any more, so that a
  delivered, rejected or superseded mutation is never queued again.
\<close>

theorem outbox_rows_kept:
  assumes "st_pool s = Some t" "r \<in> set (ob_rows t)"
  shows "\<exists>t' r'. st_pool (fold outbox_exec calls s) = Some t' \<and> r' \<in> set (ob_rows t')
           \<and> ob_id r' = ob_id r \<and> row_name r' = row_name r \<and> ob_payload r' = ob_payload r
           \<and> (\<not> pending r \<longrightarrow> r' = r)"
proof -
  obtain t' where t': "st_pool (fold outbox_exec calls s) = Some t'" "table_extends t t'"
    using outbox_rows.run_later [of s calls] assms(1) by (auto simp: pool_extends_def split: option.splits)
  from table_extends_row [OF this(2) assms(2)] t'(1) show ?thesis by metis
qed

definition sample_outbox :: outbox_table where
  "sample_outbox =
     \<lparr>ob_rows = [new_row 1 10 ''room_snapshot:r'' ''r-1'' ''{}'', (new_row 2 11 ''proposal'' ''c'' ''[]'')\<lparr>ob_state := ''sent''\<rparr>],
      ob_seq = 2\<rparr>"

definition sample_calls :: "outbox_call list" where
  "sample_calls =
     [Replace 20 ''room_snapshot:r'' ''r-1'' ''{1}'', Replace 21 ''room_snapshot:r'' ''r-2'' ''{2}'',
      Enqueue 22 ''proposal'' ''c'' ''[]'', Mark_Retry 23 1 ''E'']"

theorem outbox_rows_kept_witness:
  "\<exists>t' r'. st_pool (fold outbox_exec sample_calls (opened_store sample_outbox)) = Some t'
     \<and> r' \<in> set (ob_rows t') \<and> ob_id r' = 2 \<and> row_name r' = (''proposal'', ''c'') \<and> \<not> pending r'"
proof -
  let ?r = "(new_row 2 11 ''proposal'' ''c'' ''[]'')\<lparr>ob_state := ''sent''\<rparr>"
  have "st_pool (opened_store sample_outbox) = Some sample_outbox" by simp
  moreover have "?r \<in> set (ob_rows sample_outbox)" by (simp add: sample_outbox_def)
  ultimately have "\<exists>t'. st_pool (fold outbox_exec sample_calls (opened_store sample_outbox)) = Some t'
                     \<and> ?r \<in> set (ob_rows t')"
    using outbox_rows_kept [of "opened_store sample_outbox" sample_outbox ?r sample_calls]
    by (auto simp: new_row_def pending_def)
  moreover have "ob_id ?r = 2 \<and> row_name ?r = (''proposal'', ''c'') \<and> \<not> pending ?r"
    by (simp add: new_row_def row_name_def pending_def)
  ultimately show ?thesis by blast
qed

text \<open>C24: The outbox implements an abstract ledger. A call on an open store answers with an error exactly when
  one of its SQL statements fails, and then leaves the table as it was. Otherwise it has acted on the map from (kind,
  key) to payload and status as the ledger operation does: a name is bound once, a replacement outdates the older
  queued entries of its kind and is dropped when a newer one is known, which it answers; and the outcome of an attempt settles a
  queued entry only. In either case the table's constraints hold afterwards.\<close>

theorem outbox_refines_ledger:
  assumes "st_pool s = Some t" "outbox_ok t"
  shows "\<exists>t'. st_pool (outbox_exec c s) = Some t' \<and> outbox_ok t'
    \<and> (case outbox_answer c s of
         Inl error \<Rightarrow> t' = t \<and> \<not> list_all (\<lambda>f. f = None) (take (statement_count c) (st_faults s))
       | Inr news \<Rightarrow> ledger_of t' = ledger_call t c (ledger_of t) \<and> news = ledger_news c (ledger_of t)
           \<and> list_all (\<lambda>f. f = None) (take (statement_count c) (st_faults s)))"
proof (cases "outbox_answer c s")
  case (Inl error)
  then have "\<not> is_ok (outbox_answer c s)" by (simp add: is_ok_def)
  with outbox_call_answer [OF assms(1), of c] assms(2) Inl show ?thesis by simp
next
  case (Inr news)
  then have "is_ok (outbox_answer c s)" by (simp add: is_ok_def)
  with outbox_call_answer [OF assms(1), of c] Inr ledger_call_effect [OF assms(2), of c] ledger_call_news [of c t]
    outbox_ok_call [OF assms(2), of c]
  show ?thesis by simp
qed

lemma sample_outbox_ok: "outbox_ok sample_outbox"
  by (simp add: outbox_ok_def sample_outbox_def new_row_def row_name_def)

theorem outbox_refines_ledger_witness:
  "outbox_answer (Mark_Sent 30 1) (opened_store sample_outbox) = Inr None
   \<and> (\<exists>t'. st_pool (outbox_exec (Mark_Sent 30 1) (opened_store sample_outbox)) = Some t'
     \<and> ledger_of t' = settle_id sample_outbox 1 Delivered (ledger_of sample_outbox))
   \<and> (\<exists>error. outbox_answer (Mark_Sent 30 1) \<lparr>st_pool = Some sample_outbox, st_faults = [Some ''disk full'']\<rparr> = Inl error
     \<and> st_pool (outbox_exec (Mark_Sent 30 1) \<lparr>st_pool = Some sample_outbox, st_faults = [Some ''disk full'']\<rparr>) = Some sample_outbox)"
proof -
  let ?call = "Mark_Sent 30 1" and ?full = "\<lparr>st_pool = Some sample_outbox, st_faults = [Some ''disk full'']\<rparr>"
  have fine: "outbox_answer ?call (opened_store sample_outbox) = Inr None" by (simp add: outbox_defs)
  have opened: "st_pool (opened_store sample_outbox) = Some sample_outbox" by (simp add: opened_store_def)
  from outbox_refines_ledger [OF opened sample_outbox_ok, of ?call] fine
  have sent: "\<exists>t'. st_pool (outbox_exec ?call (opened_store sample_outbox)) = Some t'
      \<and> ledger_of t' = settle_id sample_outbox 1 Delivered (ledger_of sample_outbox)" by auto
  obtain error where full: "outbox_answer ?call ?full = Inl error" by (simp add: outbox_defs execute_sql_def)
  from outbox_refines_ledger [of ?full sample_outbox ?call] sample_outbox_ok full
  have "st_pool (outbox_exec ?call ?full) = Some sample_outbox" by auto
  with fine sent full show ?thesis by blast
qed

text \<open>
  A newer snapshot supersedes the older unsent ones. When every mutation of a kind is queued with
  \<^verbatim>\<open>enqueue_replacing_pending\<close>, then after any sequence of calls, failing or not, at most one row of
  that kind is pending and all other rows of the kind have smaller keys, so that a retry cannot
  move the server back to an older value.
\<close>

theorem outbox_newest_pending:
  assumes "list_all (replaces k) calls"
    and "st_pool s = Some empty_outbox"
    and "st_pool (fold outbox_exec calls s) = Some t"
    and "r \<in> set (ob_rows t)" "ob_kind r = k" "pending r"
    and "r' \<in> set (ob_rows t)" "ob_kind r' = k" "r' \<noteq> r"
  shows "\<not> pending r' \<and> ob_key r' < ob_key r"
proof -
  have "pool_newest k s" using assms(2) by (simp add: pool_newest_def)
  from outbox_newest.run_inv [OF assms(1) this] assms(3) have "newest_only k t"
    by (simp add: pool_newest_def)
  from newest_only_pending [OF this, of r r'] assms(4-9) show ?thesis by (auto simp: rows_of_def)
qed

theorem outbox_newest_pending_witness:
  "\<exists>t r r'. st_pool (fold outbox_exec sample_calls (opened_store empty_outbox)) = Some t
     \<and> r \<in> set (ob_rows t) \<and> r' \<in> set (ob_rows t) \<and> pending r \<and> ob_key r = ''r-2''
     \<and> \<not> pending r' \<and> ob_key r' < ob_key r"
proof -
  let ?t = "\<lparr>ob_rows = [(new_row 1 20 ''room_snapshot:r'' ''r-1'' ''{1}'')\<lparr>ob_state := ''superseded'', ob_updated := 21\<rparr>,
      new_row 2 21 ''room_snapshot:r'' ''r-2'' ''{2}'', new_row 3 22 ''proposal'' ''c'' ''[]''], ob_seq = 3\<rparr>"
  have run: "st_pool (fold outbox_exec sample_calls (opened_store empty_outbox)) = Some ?t" by code_simp
  have "list_all (replaces ''room_snapshot:r'') sample_calls" by (simp add: sample_calls_def)
  from outbox_newest_pending [OF this _ run, of "ob_rows ?t ! 1" "ob_rows ?t ! 0"]
  have "\<not> pending (ob_rows ?t ! 0) \<and> ob_key (ob_rows ?t ! 0) < ob_key (ob_rows ?t ! 1)"
    by (simp add: new_row_def pending_def)
  with run show ?thesis
    by (intro exI [of _ ?t] exI [of _ "ob_rows ?t ! 1"] exI [of _ "ob_rows ?t ! 0"])
      (simp add: new_row_def pending_def)
qed

end
