(* ===== verification/Delivery.thy ===== *)
theory Delivery
  imports Agent_Laws Outbox
begin

text \<open>
  The durable delivery of mutations to the server (\<^verbatim>\<open>outbox_processor.rs\<close>): the producers that
  write a mutation to the outbox, and the flush that sends pending rows and records each outcome.

  The payloads' JSON texts and the decoders of the server's answers are parameters, collected in the
  record \<open>wire\<close>. While the flush awaits an answer, other tasks may use the outbox: what they do while an item
  is in flight is the parameter \<open>meanwhile\<close>, and \<open>now\<close> gives the time at which an item's outcome is recorded.

  Shown here: a pending mutation is never lost, whatever fails, and leaves the state \<^verbatim>\<open>pending\<close> only for
  the reason its new state names; a repeated delivery repeats the very same request; the
  report's numbers are those of the table; a server that accepts drains the queue; a queued mutation
  reaches the server with the arguments it was queued with.
\<close>

section \<open>Payloads\<close>

record ExecutionResultPayload =
  xp_execution_id :: string
  xp_status :: string
  xp_result_summary :: json

record CommandStatusPayload =
  cp_command_id :: string
  cp_status :: string

record FileTransferCompletionPayload =
  tp_transfer_id :: string
  tp_size_bytes :: nat
  tp_sha256 :: string

record SmartCacheCompletionPayload =
  sp_reservation_id :: string
  sp_size_bytes :: nat
  sp_sha256 :: string
  sp_usage_score :: int
  sp_manual_pin :: bool
  sp_encryption_metadata :: SmartCacheEncryptionMetadata

record SmartCacheStalePayload =
  lp_room_id :: string
  lp_source_relative_path :: "string option"
  lp_reason :: string

record RoomSnapshotPayload =
  np_room_id :: string
  np_snapshot :: CleanlinessSnapshot

record wire =
  enc_execution :: "ExecutionResultPayload \<Rightarrow> string + string"
  dec_execution :: "string \<Rightarrow> ExecutionResultPayload option"
  enc_submission :: "AgentProposalSubmission \<Rightarrow> string + string"
  dec_submission :: "string \<Rightarrow> AgentProposalSubmission option"
  enc_command :: "CommandStatusPayload \<Rightarrow> string + string"
  dec_command :: "string \<Rightarrow> CommandStatusPayload option"
  enc_transfer :: "FileTransferCompletionPayload \<Rightarrow> string + string"
  dec_transfer :: "string \<Rightarrow> FileTransferCompletionPayload option"
  enc_cache :: "SmartCacheCompletionPayload \<Rightarrow> string + string"
  dec_cache :: "string \<Rightarrow> SmartCacheCompletionPayload option"
  enc_stale :: "SmartCacheStalePayload \<Rightarrow> string + string"
  dec_stale :: "string \<Rightarrow> SmartCacheStalePayload option"
  enc_snapshot :: "RoomSnapshotPayload \<Rightarrow> string + string"
  dec_snapshot :: "string \<Rightarrow> RoomSnapshotPayload option"
  res_execution :: "string \<Rightarrow> AgentExecution option"
  res_command :: "string \<Rightarrow> ServerCommand option"
  res_transfer :: "string \<Rightarrow> AgentFileTransfer option"
  res_cache :: "string \<Rightarrow> AgentCachedFile option"
  res_stale :: "string \<Rightarrow> AgentSmartCacheStaleResult option"
  res_snapshot :: "string \<Rightarrow> RoomSnapshotResponse option"

definition KIND_EXECUTION_RESULT :: string where "KIND_EXECUTION_RESULT = ''execution_result''"
definition KIND_PROPOSAL :: string where "KIND_PROPOSAL = ''proposal''"
definition KIND_COMMAND_STATUS :: string where "KIND_COMMAND_STATUS = ''command_status''"
definition KIND_FILE_TRANSFER_COMPLETION :: string where
  "KIND_FILE_TRANSFER_COMPLETION = ''file_transfer_completion''"
definition KIND_SMART_CACHE_COMPLETION :: string where
  "KIND_SMART_CACHE_COMPLETION = ''smart_cache_completion''"
definition KIND_SMART_CACHE_STALE_PREFIX :: string where
  "KIND_SMART_CACHE_STALE_PREFIX = ''smart_cache_stale:''"
definition KIND_ROOM_SNAPSHOT_PREFIX :: string where
  "KIND_ROOM_SNAPSHOT_PREFIX = ''room_snapshot:''"

lemmas kind_defs = KIND_EXECUTION_RESULT_def KIND_PROPOSAL_def KIND_COMMAND_STATUS_def
  KIND_FILE_TRANSFER_COMPLETION_def KIND_SMART_CACHE_COMPLETION_def KIND_SMART_CACHE_STALE_PREFIX_def
  KIND_ROOM_SNAPSHOT_PREFIX_def

abbreviation (input) OUTBOX_FLUSH_BATCH :: int where "OUTBOX_FLUSH_BATCH \<equiv> 50"

section \<open>Producers\<close>

definition encoded :: "string \<Rightarrow> string + string \<Rightarrow> (string \<Rightarrow> ('t, 'a) store_op) \<Rightarrow> ('t, 'a) store_op" where
  "encoded message payload write s =
     (case payload of Inl e \<Rightarrow> (Inl (message @ e), s) | Inr payload_json \<Rightarrow> write payload_json s)"

definition enqueue_execution_result ::
    "wire \<Rightarrow> int \<Rightarrow> string \<Rightarrow> string \<Rightarrow> json \<Rightarrow> (outbox_table, unit) store_op" where
  "enqueue_execution_result c now execution_id status result_summary =
     encoded ''cannot encode execution result: ''
       (enc_execution c \<lparr>xp_execution_id = execution_id, xp_status = status, xp_result_summary = result_summary\<rparr>)
       (enqueue now KIND_EXECUTION_RESULT execution_id)"

definition enqueue_proposal :: "wire \<Rightarrow> int \<Rightarrow> AgentProposalSubmission \<Rightarrow> (outbox_table, unit) store_op" where
  "enqueue_proposal c now submission =
     encoded ''cannot encode proposal submission: '' (enc_submission c submission)
       (enqueue now KIND_PROPOSAL (as_command_id submission))"

definition enqueue_command_status ::
    "wire \<Rightarrow> int \<Rightarrow> string \<Rightarrow> string \<Rightarrow> (outbox_table, unit) store_op" where
  "enqueue_command_status c now command_id status =
     encoded ''cannot encode command status: ''
       (enc_command c \<lparr>cp_command_id = command_id, cp_status = status\<rparr>)
       (enqueue now KIND_COMMAND_STATUS (command_id @ '':'' @ status))"

definition file_transfer_completion_key :: "string \<Rightarrow> string" where
  "file_transfer_completion_key transfer_id = transfer_id @ ''-complete''"

definition smart_cache_completion_key :: "string \<Rightarrow> string" where
  "smart_cache_completion_key reservation_id = reservation_id @ ''-complete''"

definition enqueue_file_transfer_completion ::
    "wire \<Rightarrow> int \<Rightarrow> string \<Rightarrow> nat \<Rightarrow> string \<Rightarrow> (outbox_table, unit) store_op" where
  "enqueue_file_transfer_completion c now transfer_id size_bytes sha256 =
     encoded ''cannot encode file transfer completion: ''
       (enc_transfer c \<lparr>tp_transfer_id = transfer_id, tp_size_bytes = size_bytes, tp_sha256 = sha256\<rparr>)
       (enqueue now KIND_FILE_TRANSFER_COMPLETION (file_transfer_completion_key transfer_id))"

definition enqueue_smart_cache_completion ::
    "wire \<Rightarrow> int \<Rightarrow> string \<Rightarrow> nat \<Rightarrow> string \<Rightarrow> int \<Rightarrow> bool \<Rightarrow> SmartCacheEncryptionMetadata
       \<Rightarrow> (outbox_table, unit) store_op" where
  "enqueue_smart_cache_completion c now reservation_id size_bytes sha256 usage_score manual_pin encryption_metadata =
     encoded ''cannot encode smart cache completion: ''
       (enc_cache c \<lparr>sp_reservation_id = reservation_id, sp_size_bytes = size_bytes, sp_sha256 = sha256,
          sp_usage_score = usage_score, sp_manual_pin = manual_pin, sp_encryption_metadata = encryption_metadata\<rparr>)
       (enqueue now KIND_SMART_CACHE_COMPLETION (smart_cache_completion_key reservation_id))"

definition validate_stale_source_path :: "string \<Rightarrow> string + unit" where
  "validate_stale_source_path path =
     (if path = [] \<or> length path > 1024 \<or> CHR 0x00 \<in> set path \<or> prefix ''/'' path \<or> prefix [CHR 0x5C] path
         \<or> sublist ''//'' path \<or> sublist [CHR 0x5C, CHR 0x5C] path
      then Inl ''smart cache stale source path is invalid''
      else if list_ex (\<lambda>segment. segment = [] \<or> segment = ''.'' \<or> segment = ''..'')
                (split_on (\<lambda>c. c = CHR ''/'' \<or> c = CHR 0x5C) path)
      then Inl ''smart cache stale source path is invalid'' else Inr ())"

definition validate_stale_report :: "string \<Rightarrow> string option \<Rightarrow> string \<Rightarrow> string + unit" where
  "validate_stale_report room_id source_relative_path reason =
     (if trim room_id = [] then Inl ''smart cache stale room id is required''
      else case source_relative_path of
             Some path \<Rightarrow>
               if reason \<in> {''SOURCE_CHANGED'', ''SOURCE_REMOVED''} then validate_stale_source_path path
               else if reason = ''REINDEXED''
               then Inl ''smart cache REINDEXED reports must not include a source path''
               else Inl ''smart cache stale reason is invalid''
           | None \<Rightarrow>
               if reason = ''REINDEXED'' then Inr ()
               else if reason \<in> {''SOURCE_CHANGED'', ''SOURCE_REMOVED''}
               then Inl ''smart cache stale source path is required''
               else Inl ''smart cache stale reason is invalid'')"

definition stale_kind :: "(string \<Rightarrow> string) \<Rightarrow> string \<Rightarrow> string option \<Rightarrow> string" where
  "stale_kind sha256 room_id source_relative_path =
     KIND_SMART_CACHE_STALE_PREFIX
       @ hex_lower (sha256 (room_id @ [CHR 0x00] @ (case source_relative_path of Some path \<Rightarrow> path | None \<Rightarrow> ''*'')))"

definition enqueue_smart_cache_stale ::
    "(string \<Rightarrow> string) \<Rightarrow> wire \<Rightarrow> nat \<Rightarrow> int \<Rightarrow> string \<Rightarrow> string option \<Rightarrow> string \<Rightarrow> (outbox_table, bool) store_op" where
  "enqueue_smart_cache_stale sha256 c nanos now room_id source_relative_path reason s =
     (case validate_stale_report room_id source_relative_path reason of
        Inl e \<Rightarrow> (Inl e, s)
      | Inr _ \<Rightarrow>
          encoded ''cannot encode smart cache stale report: ''
            (enc_stale c \<lparr>lp_room_id = room_id, lp_source_relative_path = source_relative_path, lp_reason = reason\<rparr>)
            (enqueue_replacing_pending now (stale_kind sha256 room_id source_relative_path)
               (pad0 39 nanos @ ''-'' @ reason)) s)"

definition enqueue_room_snapshot ::
    "wire \<Rightarrow> int \<Rightarrow> string \<Rightarrow> CleanlinessSnapshot \<Rightarrow> (outbox_table, bool) store_op" where
  "enqueue_room_snapshot c now room_id snapshot =
     encoded ''cannot encode room snapshot: ''
       (enc_snapshot c \<lparr>np_room_id = room_id, np_snapshot = snapshot\<rparr>)
       (enqueue_replacing_pending now (KIND_ROOM_SNAPSHOT_PREFIX @ room_id)
          (room_id @ ''-'' @ cs_calculated_at snapshot))"

section \<open>Sending one item\<close>

datatype DispatchError = Transient string | Terminal string

definition classify :: "AgentError \<Rightarrow> DispatchError" where
  "classify error =
     (let code = error_code_as_str (ae_code error) in if is_transient error then Transient code else Terminal code)"

type_synonym 'n dispatch_op = "'n agent \<Rightarrow> (DispatchError + unit) \<times> 'n agent"

definition deliver :: "('n, 'a) agent_op \<Rightarrow> 'n dispatch_op" where
  "deliver call a = (case call a of (outcome, a1) \<Rightarrow> (map_sum classify (\<lambda>_. ()) outcome, a1))"

definition decode_payload :: "(string \<Rightarrow> 'p option) \<Rightarrow> string \<Rightarrow> ('p \<Rightarrow> 'n dispatch_op) \<Rightarrow> 'n dispatch_op" where
  "decode_payload from_str payload_json send a =
     (case from_str payload_json of None \<Rightarrow> (Inl (Terminal ''CORRUPT_PAYLOAD''), a) | Some payload \<Rightarrow> send payload a)"

definition dispatch :: "'n agent_env \<Rightarrow> wire \<Rightarrow> outbox_item \<Rightarrow> 'n dispatch_op" where
  "dispatch env c item =
     (if prefix KIND_ROOM_SNAPSHOT_PREFIX (oi_kind item)
      then decode_payload (dec_snapshot c) (oi_payload item) (\<lambda>payload.
             if oi_kind item \<noteq> KIND_ROOM_SNAPSHOT_PREFIX @ np_room_id payload
             then (\<lambda>a. (Inl (Terminal ''CORRUPT_PAYLOAD''), a))
             else deliver (submit_room_snapshot env (res_snapshot c) (np_room_id payload) (np_snapshot payload)))
      else if prefix KIND_SMART_CACHE_STALE_PREFIX (oi_kind item)
      then decode_payload (dec_stale c) (oi_payload item) (\<lambda>payload.
             deliver (mark_smart_cache_stale env (res_stale c) (oi_key item) (lp_room_id payload)
                        (lp_source_relative_path payload) (lp_reason payload)))
      else if oi_kind item = KIND_EXECUTION_RESULT
      then decode_payload (dec_execution c) (oi_payload item) (\<lambda>payload.
             deliver (update_execution env (res_execution c) (xp_execution_id payload) (xp_status payload)
                        (xp_result_summary payload)))
      else if oi_kind item = KIND_PROPOSAL
      then decode_payload (dec_submission c) (oi_payload item) (\<lambda>submission.
             deliver (submit_proposal env (oi_key item) submission))
      else if oi_kind item = KIND_COMMAND_STATUS
      then decode_payload (dec_command c) (oi_payload item) (\<lambda>payload.
             deliver (update_command_status env (res_command c) (cp_command_id payload) (cp_status payload)))
      else if oi_kind item = KIND_FILE_TRANSFER_COMPLETION
      then decode_payload (dec_transfer c) (oi_payload item) (\<lambda>payload.
             deliver (complete_file_transfer_upload env (res_transfer c) (tp_transfer_id payload) (oi_key item)
                        (tp_size_bytes payload) (tp_sha256 payload)))
      else if oi_kind item = KIND_SMART_CACHE_COMPLETION
      then decode_payload (dec_cache c) (oi_payload item) (\<lambda>payload.
             deliver (complete_smart_cache_upload env (res_cache c) (sp_reservation_id payload) (oi_key item)
                        (sp_size_bytes payload) (sp_sha256 payload) (sp_usage_score payload) (sp_manual_pin payload)
                        (sp_encryption_metadata payload)))
      else (\<lambda>a. (Inl (Terminal (''UNKNOWN_KIND:'' @ oi_kind item)), a)))"

section \<open>The flush\<close>

record OutboxFlushReport =
  fr_inspected_count :: nat
  fr_sent_count :: nat
  fr_retried_count :: nat
  fr_failed_count :: nat

text \<open>The three arms of the loop's \<^verbatim>\<open>match\<close>: the mark that records the outcome, and the counter.\<close>

definition settle_outcome :: "int \<Rightarrow> int \<Rightarrow> DispatchError + unit \<Rightarrow> (outbox_table, unit) store_op" where
  "settle_outcome now row_id outcome =
     (case outcome of
        Inr _ \<Rightarrow> mark_sent now row_id
      | Inl (Transient code) \<Rightarrow> mark_retry now row_id code
      | Inl (Terminal code) \<Rightarrow> mark_failed now row_id code)"

definition count_outcome :: "DispatchError + unit \<Rightarrow> OutboxFlushReport \<Rightarrow> OutboxFlushReport" where
  "count_outcome outcome report =
     (case outcome of
        Inr _ \<Rightarrow> report\<lparr>fr_sent_count := fr_sent_count report + 1\<rparr>
      | Inl (Transient code) \<Rightarrow> report\<lparr>fr_retried_count := fr_retried_count report + 1\<rparr>
      | Inl (Terminal code) \<Rightarrow> report\<lparr>fr_failed_count := fr_failed_count report + 1\<rparr>)"

fun flush_items ::
    "'n agent_env \<Rightarrow> wire \<Rightarrow> (outbox_item \<Rightarrow> outbox_call list) \<Rightarrow> (outbox_item \<Rightarrow> int) \<Rightarrow> outbox_item list
       \<Rightarrow> OutboxFlushReport \<Rightarrow> 'n agent \<Rightarrow> outbox_store \<Rightarrow> (string + OutboxFlushReport) \<times> 'n agent \<times> outbox_store" where
  "flush_items env c meanwhile now [] report a s = (Inr report, a, s)"
| "flush_items env c meanwhile now (item # items) report a s =
     (case dispatch env c item a of
        (outcome, a1) \<Rightarrow>
          (case settle_outcome (now item) (oi_id item) outcome (fold outbox_exec (meanwhile item) s) of
             (Inl e, s1) \<Rightarrow> (Inl e, a1, s1)
           | (Inr _, s1) \<Rightarrow> flush_items env c meanwhile now items (count_outcome outcome report) a1 s1))"

definition flush_outbox ::
    "'n agent_env \<Rightarrow> wire \<Rightarrow> (outbox_item \<Rightarrow> outbox_call list) \<Rightarrow> (outbox_item \<Rightarrow> int) \<Rightarrow> 'n agent \<Rightarrow> outbox_store
       \<Rightarrow> (string + OutboxFlushReport) \<times> 'n agent \<times> outbox_store" where
  "flush_outbox env c meanwhile now a s =
     (case pending_batch OUTBOX_FLUSH_BATCH s of
        (Inl e, s1) \<Rightarrow> (Inl e, a, s1)
      | (Inr items, s1) \<Rightarrow>
          flush_items env c meanwhile now items
            \<lparr>fr_inspected_count = length items, fr_sent_count = 0, fr_retried_count = 0, fr_failed_count = 0\<rparr> a s1)"

section \<open>The request an item stands for\<close>

text \<open>What a row is a durable copy of: the request its delivery sends, whoever attempts it and how
  often.\<close>

definition request_for :: "wire \<Rightarrow> outbox_item \<Rightarrow> (string \<Rightarrow> DeviceCredential \<Rightarrow> http_request) option" where
  "request_for c item =
     (if prefix KIND_ROOM_SNAPSHOT_PREFIX (oi_kind item)
      then map_option (\<lambda>p. room_snapshot_request (np_room_id p) (np_snapshot p)) (dec_snapshot c (oi_payload item))
      else if prefix KIND_SMART_CACHE_STALE_PREFIX (oi_kind item)
      then map_option (\<lambda>p. stale_request (oi_key item) (lp_room_id p) (lp_source_relative_path p) (lp_reason p))
             (dec_stale c (oi_payload item))
      else if oi_kind item = KIND_EXECUTION_RESULT
      then map_option (\<lambda>p. update_execution_request (xp_execution_id p) (xp_status p) (xp_result_summary p))
             (dec_execution c (oi_payload item))
      else if oi_kind item = KIND_PROPOSAL
      then map_option (submit_proposal_request (oi_key item)) (dec_submission c (oi_payload item))
      else if oi_kind item = KIND_COMMAND_STATUS
      then map_option (\<lambda>p. update_command_status_request (cp_command_id p) (cp_status p))
             (dec_command c (oi_payload item))
      else if oi_kind item = KIND_FILE_TRANSFER_COMPLETION
      then map_option (\<lambda>p. complete_transfer_request (tp_transfer_id p) (oi_key item) (tp_size_bytes p) (tp_sha256 p))
             (dec_transfer c (oi_payload item))
      else if oi_kind item = KIND_SMART_CACHE_COMPLETION
      then map_option (\<lambda>p. complete_cache_request (sp_reservation_id p) (oi_key item) (sp_size_bytes p) (sp_sha256 p)
                           (sp_usage_score p) (sp_manual_pin p) (sp_encryption_metadata p))
             (dec_cache c (oi_payload item))
      else None)"

text \<open>The server took the request: it answered with a success status.\<close>

definition accepted :: "'n agent_env \<Rightarrow> http_request \<Rightarrow> 'n agent \<Rightarrow> 'n agent \<Rightarrow> bool" where
  "accepted env q a a' \<longleftrightarrow>
     (\<exists>status response. env_http env q (ag_net a) = (Reply status response, ag_net a') \<and> is_success status)"

text \<open>A call speaks to the server at most once, with the given request, and succeeds only when the
  server took it.\<close>

definition sends_once ::
    "'n agent_env \<Rightarrow> (string \<Rightarrow> DeviceCredential \<Rightarrow> http_request) \<Rightarrow> 'n agent \<Rightarrow> ('e + 'a) \<times> 'n agent \<Rightarrow> bool" where
  "sends_once env request a outcome \<longleftrightarrow>
     (ag_net (snd outcome) = ag_net a \<and> \<not> is_ok (fst outcome))
     \<or> (\<exists>b c. require_authenticated_config a = Inr (b, c)
          \<and> snd (env_http env (request b c) (ag_net a)) = ag_net (snd outcome)
          \<and> (is_ok (fst outcome) \<longrightarrow> accepted env (request b c) a (snd outcome)))"

lemma call_json_sends: "sends_once env request a (call_json env decode request check a)"
proof (cases "require_authenticated_config a")
  case (Inr bc)
  obtain b c where bc: "bc = (b, c)" by (cases bc)
  show ?thesis
    by (rule disjI2 [THEN sends_once_def [THEN iffD2]], intro exI [of _ b] exI [of _ c])
      (auto simp: Inr bc call_json_def send_json_def accepted_def conclude_frame Let_def
        split: prod.split http_reply.split option.split if_split)
qed (simp add: call_json_def sends_once_def)

lemma call_empty_sends: "sends_once env request a (call_empty env request a)"
proof (cases "require_authenticated_config a")
  case (Inr bc)
  obtain b c where bc: "bc = (b, c)" by (cases bc)
  show ?thesis
    by (rule disjI2 [THEN sends_once_def [THEN iffD2]], intro exI [of _ b] exI [of _ c])
      (auto simp: Inr bc call_empty_def send_empty_def accepted_def conclude_frame Let_def
        split: prod.split http_reply.split option.split if_split)
qed (simp add: call_empty_def sends_once_def)

lemma validated_sends:
  "(\<And>a. sends_once env request a (call a)) \<Longrightarrow> sends_once env request a (validated check call a)"
  by (auto simp: validated_def sends_once_def split: sum.split)

lemma deliver_sends: "sends_once env request a (call a) \<Longrightarrow> sends_once env request a (deliver call a)"
  by (cases "call a", cases "fst (call a)") (auto simp: deliver_def sends_once_def)

lemma refused_sends: "sends_once env request a (Inl e, a)"
  by (simp add: sends_once_def)

definition stands_for ::
    "'n agent_env \<Rightarrow> (string \<Rightarrow> DeviceCredential \<Rightarrow> http_request) option \<Rightarrow> 'n dispatch_op \<Rightarrow> bool" where
  "stands_for env request send \<longleftrightarrow>
     (\<forall>a. case request of
        None \<Rightarrow> snd (send a) = a \<and> (\<exists>code. fst (send a) = Inl (Terminal code))
      | Some request \<Rightarrow> sends_once env request a (send a))"

lemma decode_payload_stands_for:
  assumes "\<And>payload a. sends_once env (request payload) a (send payload a)"
  shows "stands_for env (map_option request (from_str text)) (decode_payload from_str text send)"
  using assms by (cases "from_str text") (auto simp: stands_for_def decode_payload_def)

lemma stands_for_if:
  "(P \<Longrightarrow> stands_for env x f) \<Longrightarrow> (\<not> P \<Longrightarrow> stands_for env y g) \<Longrightarrow>
     stands_for env (if P then x else y) (if P then f else g)"
  by simp

lemmas agent_sends = deliver_sends validated_sends call_json_sends call_empty_sends

lemma dispatch_stands_for: "stands_for env (request_for c item) (dispatch env c item)"
  unfolding dispatch_def request_for_def
  by (intro stands_for_if decode_payload_stands_for; (unfold submit_room_snapshot_def mark_smart_cache_stale_def
    update_execution_def submit_proposal_def update_command_status_def complete_file_transfer_upload_def
    complete_smart_cache_upload_def)?; (split if_split; intro conjI impI)?;
    (intro agent_sends refused_sends)?; simp add: stands_for_def)

lemma dispatch_ok:
  assumes "dispatch env c item a = (Inr u, a')"
  shows "\<exists>request b credential. request_for c item = Some request
    \<and> require_authenticated_config a = Inr (b, credential) \<and> accepted env (request b credential) a a'"
proof (cases "request_for c item")
  case None
  with assms dispatch_stands_for [of env c item] show ?thesis by (auto simp: stands_for_def dest: spec [of _ a])
next
  case (Some request)
  with dispatch_stands_for [of env c item] have "sends_once env request a (dispatch env c item a)"
    by (simp add: stands_for_def)
  with assms Some show ?thesis by (auto simp: sends_once_def is_ok_iff)
qed

section \<open>The fate of a row\<close>

fun row_effect :: "outbox_call \<Rightarrow> outbox_row \<Rightarrow> outbox_row" where
  "row_effect (Enqueue now kind key payload) r = r"
| "row_effect (Replace now kind key payload) r = supersede_row now kind key r"
| "row_effect (Mark_Sent now i) r = settle_row i now ''sent'' 0 None r"
| "row_effect (Mark_Retry now i code) r = settle_row i now ''pending'' 1 (Some code) r"
| "row_effect (Mark_Failed now i code) r = settle_row i now ''failed'' 1 (Some code) r"

lemma insert_row_mem: "r \<in> set (ob_rows t) \<Longrightarrow> r \<in> set (ob_rows (snd (insert_outbox_row now kind key payload t)))"
  by (simp add: insert_outbox_row_def)

lemma row_effect_mem: "r \<in> set (ob_rows t) \<Longrightarrow> row_effect call r \<in> set (ob_rows (call_effect call t))"
  by (cases call) (auto simp: insert_row_mem replace_pending_def Let_def split_beta)

lemma outbox_exec_row:
  assumes "st_pool s = Some t" "r \<in> set (ob_rows t)"
  shows "\<exists>t' r'. st_pool (outbox_exec call s) = Some t' \<and> r' \<in> set (ob_rows t') \<and> (r' = r \<or> r' = row_effect call r)"
  using outbox_exec_pool [OF assms(1), of call] assms(2) row_effect_mem by blast

text \<open>The calls of the tasks that queue mutations while a flush is under way.\<close>

fun producer :: "outbox_call \<Rightarrow> bool" where
  "producer (Enqueue now kind key payload) = True"
| "producer (Replace now kind key payload) = True"
| "producer _ = False"

text \<open>What may have become of a row \<open>r\<close> that was pending when the flush began: each state has its
  reason.\<close>

definition fate ::
    "'n agent_env \<Rightarrow> wire \<Rightarrow> (outbox_item \<Rightarrow> outbox_call list) \<Rightarrow> outbox_row \<Rightarrow> outbox_row \<Rightarrow> bool" where
  "fate env c meanwhile r r' \<longleftrightarrow>
     ob_id r' = ob_id r \<and> row_name r' = row_name r \<and> ob_payload r' = ob_payload r
     \<and> (ob_state r' = ''pending''
        \<or> (ob_state r' = ''sent'' \<and> (\<exists>request b credential a1 a2. request_for c (row_item r) = Some request
             \<and> accepted env (request b credential) a1 a2))
        \<or> (ob_state r' = ''failed'' \<and> (\<exists>code a1 a2. dispatch env c (row_item r) a1 = (Inl (Terminal code), a2)
             \<and> ob_error r' = Some code))
        \<or> (ob_state r' = ''superseded'' \<and> (\<exists>item now key payload.
             Replace now (ob_kind r) key payload \<in> set (meanwhile item) \<and> ob_key r < key)))"

lemma fate_settled:
  "fate env c meanwhile r r' \<Longrightarrow> keeps_identity f \<Longrightarrow> ob_state r' \<noteq> ''pending'' \<Longrightarrow> fate env c meanwhile r (f r')"
  using keeps_identityD(6) by metis

lemma fate_producer:
  assumes "fate env c meanwhile r r'" "producer call" "call \<in> set (meanwhile item)"
  shows "fate env c meanwhile r (row_effect call r')"
proof (cases call)
  case (Replace now kind key payload)
  then show ?thesis using assms fate_settled [OF assms(1) supersede_row_identity [of now kind key]]
    by (cases "ob_state r' = ''pending''") (auto simp: fate_def supersede_row_def row_name_def)
qed (use assms in auto)

definition has_fate ::
    "'n agent_env \<Rightarrow> wire \<Rightarrow> (outbox_item \<Rightarrow> outbox_call list) \<Rightarrow> outbox_row \<Rightarrow> outbox_store \<Rightarrow> bool" where
  "has_fate env c meanwhile r s \<longleftrightarrow>
     (\<exists>t r'. st_pool s = Some t \<and> r' \<in> set (ob_rows t) \<and> fate env c meanwhile r r')"

lemma has_fate_exec:
  assumes "has_fate env c meanwhile r s"
    and "\<And>r'. fate env c meanwhile r r' \<Longrightarrow> fate env c meanwhile r (row_effect call r')"
  shows "has_fate env c meanwhile r (outbox_exec call s)"
proof -
  obtain t r' where r': "st_pool s = Some t" "r' \<in> set (ob_rows t)" "fate env c meanwhile r r'"
    using assms(1) by (auto simp: has_fate_def)
  from outbox_exec_row [OF r'(1,2), of call] r'(3) assms(2) show ?thesis unfolding has_fate_def by metis
qed

lemma has_fate_meanwhile:
  assumes "list_all producer calls" "set calls \<subseteq> set (meanwhile item)" "has_fate env c meanwhile r s"
  shows "has_fate env c meanwhile r (fold outbox_exec calls s)"
  using assms
proof (induction calls arbitrary: s)
  case (Cons call calls)
  then show ?case using has_fate_exec [of env c meanwhile r s call] fate_producer [of env c meanwhile r _ call item]
    by auto
qed simp

text \<open>The call that records an outcome.\<close>

fun outcome_call :: "int \<Rightarrow> int \<Rightarrow> DispatchError + unit \<Rightarrow> outbox_call" where
  "outcome_call now i (Inr _) = Mark_Sent now i"
| "outcome_call now i (Inl (Transient code)) = Mark_Retry now i code"
| "outcome_call now i (Inl (Terminal code)) = Mark_Failed now i code"

lemma settle_outcome_exec: "snd (settle_outcome now i outcome s) = outbox_exec (outcome_call now i outcome) s"
  by (cases "(now, i, outcome)" rule: outcome_call.cases) (auto simp: settle_outcome_def)

lemma fate_outcome:
  assumes "fate env c meanwhile r r'" "dispatch env c item a = (outcome, a')"
    and "oi_id item = ob_id r \<Longrightarrow> item = row_item r"
  shows "fate env c meanwhile r (row_effect (outcome_call now (oi_id item) outcome) r')"
proof (cases "ob_id r' = oi_id item \<and> ob_state r' = ''pending''")
  case True
  with assms have item: "item = row_item r" by (simp add: fate_def)
  have same: "ob_id r' = ob_id r" "row_name r' = row_name r" "ob_payload r' = ob_payload r"
    using assms(1) by (simp_all add: fate_def)
  consider (sent) u where "outcome = Inr u" | (retry) code where "outcome = Inl (Transient code)"
    | (failed) code where "outcome = Inl (Terminal code)"
    by (metis DispatchError.exhaust old.sum.exhaust)
  then show ?thesis
  proof cases
    case sent
    from dispatch_ok [OF assms(2) [unfolded sent]] have "\<exists>request b credential a1 a2.
        request_for c (row_item r) = Some request \<and> accepted env (request b credential) a1 a2"
      unfolding item by blast
    then show ?thesis using sent True same by (simp add: fate_def settle_row_def row_name_def)
  next
    case retry
    then show ?thesis using True same by (simp add: fate_def settle_row_def row_name_def)
  next
    case failed
    then have "\<exists>a1 a2. dispatch env c (row_item r) a1 = (Inl (Terminal code), a2)" using assms(2) item by blast
    then show ?thesis using failed True same by (simp add: fate_def settle_row_def row_name_def)
  qed
next
  case False
  then have "row_effect (outcome_call now (oi_id item) outcome) r' = r'"
    by (cases "(now, oi_id item, outcome)" rule: outcome_call.cases) (auto simp: settle_row_def)
  with assms(1) show ?thesis by simp
qed

lemma has_fate_flush_items:
  assumes "has_fate env c meanwhile r s" "\<forall>item. list_all producer (meanwhile item)"
    and "\<forall>item \<in> set items. oi_id item = ob_id r \<longrightarrow> item = row_item r"
  shows "has_fate env c meanwhile r (snd (snd (flush_items env c meanwhile now items report a s)))"
  using assms
proof (induction items arbitrary: report a s)
  case (Cons item items)
  obtain outcome a1 where d: "dispatch env c item a = (outcome, a1)" by fastforce
  obtain e s1 where m: "settle_outcome (now item) (oi_id item) outcome (fold outbox_exec (meanwhile item) s) = (e, s1)"
    by fastforce
  have "has_fate env c meanwhile r (fold outbox_exec (meanwhile item) s)"
    using has_fate_meanwhile [where item = item] Cons.prems by blast
  then have "has_fate env c meanwhile r s1"
    using has_fate_exec fate_outcome [OF _ d] Cons.prems(3) settle_outcome_exec [of "now item" "oi_id item" outcome] m
    by (metis list.set_intros(1) snd_conv)
  then show ?case using Cons by (auto simp: d m split: sum.split)
qed simp

lemma pending_batch_cases:
  assumes "st_pool s = Some t" "pending_batch n s = (out, s1)"
  shows "st_pool s1 = Some t \<and> (\<forall>items. out = Inr items \<longrightarrow> items = map row_item (pending_rows n t))"
  using assms(2) select_sql_pool [OF assms(1), of "''cannot read outbox batch: ''"]
  by (simp add: pending_batch_def assms(1)) blast

lemma pending_rows_subset: "set (pending_rows n t) \<subseteq> {r \<in> set (ob_rows t). pending r}"
  by (auto simp: pending_rows_def Let_def dest: in_set_takeD)

lemma outbox_ok_ids:
  assumes "outbox_ok t" "r \<in> set (ob_rows t)" "r' \<in> set (ob_rows t)" "ob_id r = ob_id r'"
  shows "r = r'"
proof -
  have "distinct (map ob_id (ob_rows t))" using assms(1) by (simp add: outbox_ok_def strict_sorted_iff)
  with assms(2-4) show ?thesis by (auto simp: distinct_map inj_on_def)
qed

lemma has_fate_start:
  "st_pool s = Some t \<Longrightarrow> r \<in> set (ob_rows t) \<Longrightarrow> pending r \<Longrightarrow> has_fate env c meanwhile r s"
  unfolding has_fate_def by (intro exI [of _ t] exI [of _ r]) (simp add: fate_def pending_def)

lemma has_fate_flush:
  assumes "st_pool s = Some t" "outbox_ok t" "r \<in> set (ob_rows t)" "pending r"
    and "\<forall>item. list_all producer (meanwhile item)"
  shows "has_fate env c meanwhile r (snd (snd (flush_outbox env c meanwhile now a s)))"
proof -
  obtain out s1 where b: "pending_batch OUTBOX_FLUSH_BATCH s = (out, s1)" by fastforce
  note batch = pending_batch_cases [OF assms(1) b]
  then have start: "has_fate env c meanwhile r s1" using has_fate_start assms(3,4) by blast
  show ?thesis
  proof (cases out)
    case (Inr items)
    with batch have "items = map row_item (pending_rows OUTBOX_FLUSH_BATCH t)" by simp
    then have "\<forall>item \<in> set items. oi_id item = ob_id r \<longrightarrow> item = row_item r"
      using pending_rows_subset [of OUTBOX_FLUSH_BATCH t] outbox_ok_ids [OF assms(2) _ assms(3)]
      by (fastforce simp: row_item_def)
    from has_fate_flush_items [OF start assms(5) this] show ?thesis by (simp add: flush_outbox_def b Inr)
  qed (simp add: flush_outbox_def b start)
qed

section \<open>Counting rows\<close>

definition rows_in :: "string \<Rightarrow> outbox_table \<Rightarrow> nat" where
  "rows_in state t = length (filter (\<lambda>r. ob_state r = state) (ob_rows t))"

lemma settle_other: "ob_id r \<noteq> i \<Longrightarrow> settle_row i now state inc code r = r"
  by (simp add: settle_row_def)

lemma rows_in_settle:
  assumes "outbox_ok t" "r \<in> set (ob_rows t)" "ob_id r = i" "pending r"
  shows "rows_in st (map_rows (settle_row i now state inc code) t) + (if st = ''pending'' then 1 else 0)
         = rows_in st t + (if st = state then 1 else 0)"
proof -
  obtain xs ys where rows: "ob_rows t = xs @ r # ys" using assms(2) by (meson split_list)
  have "distinct (map ob_id (ob_rows t))" using assms(1) by (simp add: outbox_ok_def strict_sorted_iff)
  then have "i \<notin> ob_id ` set xs" "i \<notin> ob_id ` set ys" using assms(3) by (auto simp: rows)
  then have "map (settle_row i now state inc code) xs = xs" "map (settle_row i now state inc code) ys = ys"
    by (intro map_idI settle_other; force)+
  then show ?thesis using assms(3,4)
    by (auto simp: rows_in_def rows pending_def settle_row_def)
qed

text \<open>The state an outcome gives to its row.\<close>

fun outcome_state :: "DispatchError + unit \<Rightarrow> string" where
  "outcome_state (Inr _) = ''sent''"
| "outcome_state (Inl (Transient code)) = ''pending''"
| "outcome_state (Inl (Terminal code)) = ''failed''"

lemma outcome_effect:
  obtains inc code where
    "call_effect (outcome_call now i outcome) = map_rows (settle_row i now (outcome_state outcome) inc code)"
  by (cases outcome rule: outcome_state.cases) (auto simp: fun_eq_iff)

lemma settle_outcome_healthy:
  "settle_outcome now i outcome (opened_store t)
     = (Inr (), opened_store (call_effect (outcome_call now i outcome) t))"
  by (cases "(now, i, outcome)" rule: outcome_call.cases) (simp_all add: settle_outcome_def outbox_defs)

lemma outcome_state_range: "outcome_state outcome \<in> {''sent'', ''pending'', ''failed''}"
  by (cases outcome rule: outcome_state.cases) auto

text \<open>The numbers of the rows in each state, before and after a flush that reports \<open>report'\<close>.\<close>

definition accounts :: "OutboxFlushReport \<Rightarrow> OutboxFlushReport \<Rightarrow> nat \<Rightarrow> outbox_table \<Rightarrow> outbox_table \<Rightarrow> bool" where
  "accounts report report' n t t' \<longleftrightarrow>
     fr_inspected_count report' = fr_inspected_count report
     \<and> fr_sent_count report' + fr_retried_count report' + fr_failed_count report'
         = fr_sent_count report + fr_retried_count report + fr_failed_count report + n
     \<and> rows_in ''sent'' t' + fr_sent_count report = rows_in ''sent'' t + fr_sent_count report'
     \<and> rows_in ''failed'' t' + fr_failed_count report = rows_in ''failed'' t + fr_failed_count report'
     \<and> rows_in ''pending'' t' + rows_in ''sent'' t' + rows_in ''failed'' t'
         = rows_in ''pending'' t + rows_in ''sent'' t + rows_in ''failed'' t"

lemma accounts_trans:
  "accounts r1 r2 n t1 t2 \<Longrightarrow> accounts r2 r3 m t2 t3 \<Longrightarrow> accounts r1 r3 (n + m) t1 t3"
  by (simp add: accounts_def)

lemma accounts_outcome:
  assumes "outbox_ok t" "r \<in> set (ob_rows t)" "ob_id r = i" "pending r"
  shows "accounts report (count_outcome outcome report) 1 t (call_effect (outcome_call now i outcome) t)"
proof -
  obtain inc code where e: "call_effect (outcome_call now i outcome) = map_rows (settle_row i now (outcome_state outcome) inc code)"
    by (rule outcome_effect)
  note n = rows_in_settle [OF assms, where now = now and inc = inc and code = code and state = "outcome_state outcome"]
  show ?thesis unfolding accounts_def e
    using n [of "''sent''"] n [of "''failed''"] n [of "''pending''"]
    by (cases outcome rule: outcome_state.cases) (simp_all add: count_outcome_def)
qed

text \<open>The items of a batch that are still to be sent: distinct pending rows of the table.\<close>

definition queued :: "outbox_item list \<Rightarrow> outbox_table \<Rightarrow> bool" where
  "queued items t \<longleftrightarrow> distinct (map oi_id items)
     \<and> (\<forall>item \<in> set items. \<exists>r \<in> set (ob_rows t). ob_id r = oi_id item \<and> pending r)"

lemma queued_rest:
  assumes "queued (item # items) t"
  shows "queued items (call_effect (outcome_call now (oi_id item) outcome) t)"
proof -
  obtain inc code where e: "call_effect (outcome_call now (oi_id item) outcome)
      = map_rows (settle_row (oi_id item) now (outcome_state outcome) inc code)"
    by (rule outcome_effect)
  have "\<exists>r \<in> set (ob_rows (map_rows (settle_row (oi_id item) now (outcome_state outcome) inc code) t)).
      ob_id r = oi_id other \<and> pending r" if other: "other \<in> set items" for other
  proof -
    obtain r where r: "r \<in> set (ob_rows t)" "ob_id r = oi_id other" "pending r"
      using assms other by (auto simp: queued_def)
    moreover have "oi_id other \<noteq> oi_id item" using assms other by (force simp: queued_def image_iff)
    ultimately have "settle_row (oi_id item) now (outcome_state outcome) inc code r = r" by (simp add: settle_other)
    with r show ?thesis by force
  qed
  with assms show ?thesis unfolding e queued_def by simp
qed

lemma outbox_ok_outcome: "outbox_ok t \<Longrightarrow> outbox_ok (call_effect (outcome_call now i outcome) t)"
  by (rule outbox_ok_call)

lemma flush_items_healthy:
  assumes "outbox_ok t" "queued items t"
  shows "\<exists>report' a' t'. flush_items env c (\<lambda>_. []) now items report a (opened_store t) = (Inr report', a', opened_store t')
           \<and> outbox_ok t' \<and> accounts report report' (length items) t t'"
  using assms
proof (induction items arbitrary: report a t)
  case Nil
  then show ?case by (auto simp: accounts_def)
next
  case (Cons item items)
  obtain outcome a1 where d: "dispatch env c item a = (outcome, a1)" by fastforce
  let ?t = "call_effect (outcome_call (now item) (oi_id item) outcome) t"
  obtain r where "r \<in> set (ob_rows t)" "ob_id r = oi_id item" "pending r"
    using Cons.prems(2) by (auto simp: queued_def)
  note one = accounts_outcome [OF Cons.prems(1) this, where report = report and outcome = outcome and now = "now item"]
  from Cons.IH [OF outbox_ok_outcome [OF Cons.prems(1)] queued_rest [OF Cons.prems(2)], where report = "count_outcome outcome report"]
  obtain report' a' t' where rest:
      "flush_items env c (\<lambda>_. []) now items (count_outcome outcome report) a1 (opened_store ?t) = (Inr report', a', opened_store t')"
      "outbox_ok t'" "accounts (count_outcome outcome report) report' (length items) ?t t'"
    by blast
  then show ?case using accounts_trans [OF one rest(3)] by (auto simp: d settle_outcome_healthy)
qed

lemma batch_queued:
  assumes "outbox_ok t"
  shows "queued (map row_item (pending_rows n t)) t"
proof -
  have "distinct (map ob_id (ob_rows t))" using assms by (simp add: outbox_ok_def strict_sorted_iff)
  then have "distinct (map ob_id (filter pending (ob_rows t)))" by (rule distinct_map_filter)
  then have "distinct (map ob_id (sort_key ob_id (filter pending (ob_rows t))))"
    by (simp add: distinct_map)
  then have "distinct (map ob_id (pending_rows n t))"
    by (simp add: pending_rows_def Let_def take_map [symmetric])
  then show ?thesis using pending_rows_subset [of n t]
    by (force simp: queued_def row_item_def comp_def)
qed

lemma length_pending_rows: "0 \<le> n \<Longrightarrow> length (pending_rows n t) = min (nat n) (rows_in ''pending'' t)"
  by (simp add: pending_rows_def Let_def rows_in_def pending_def [abs_def] min.commute)

lemma flush_healthy:
  assumes "outbox_ok t"
  shows "\<exists>report a' t'. flush_outbox env c (\<lambda>_. []) now a (opened_store t) = (Inr report, a', opened_store t') \<and> outbox_ok t'
           \<and> fr_inspected_count report = min 50 (rows_in ''pending'' t)
           \<and> fr_sent_count report + fr_retried_count report + fr_failed_count report = fr_inspected_count report
           \<and> rows_in ''sent'' t' = rows_in ''sent'' t + fr_sent_count report
           \<and> rows_in ''failed'' t' = rows_in ''failed'' t + fr_failed_count report
           \<and> rows_in ''pending'' t' + fr_sent_count report + fr_failed_count report = rows_in ''pending'' t"
proof -
  let ?items = "map row_item (pending_rows OUTBOX_FLUSH_BATCH t)"
  let ?start = "\<lparr>fr_inspected_count = length ?items, fr_sent_count = 0, fr_retried_count = 0, fr_failed_count = 0\<rparr>"
  obtain report a' t' where run: "flush_items env c (\<lambda>_. []) now ?items ?start a (opened_store t) = (Inr report, a', opened_store t')"
      "outbox_ok t'" "accounts ?start report (length ?items) t t'"
    using flush_items_healthy [OF assms batch_queued [OF assms]] by blast
  have "flush_outbox env c (\<lambda>_. []) now a (opened_store t) = (Inr report, a', opened_store t')"
    using run(1) by (simp add: flush_outbox_def pending_batch_def)
  moreover have "length ?items = min 50 (rows_in ''pending'' t)" by (simp add: length_pending_rows)
  ultimately show ?thesis using run(2,3) by (auto simp: accounts_def)
qed

section \<open>Draining the queue\<close>

definition takes :: "'n agent_env \<Rightarrow> wire \<Rightarrow> ('n agent \<Rightarrow> bool) \<Rightarrow> outbox_item \<Rightarrow> bool" where
  "takes env c connected item \<longleftrightarrow>
     (\<forall>a. connected a \<longrightarrow> (\<exists>a'. dispatch env c item a = (Inr (), a') \<and> connected a'))"

lemma pending_settled:
  "{r \<in> set (ob_rows (map_rows (settle_row i now ''sent'' inc code) t)). pending r} \<subseteq> {r \<in> set (ob_rows t). pending r}"
  by (auto simp: settle_row_def pending_def)

lemma flush_items_accepting:
  assumes "connected a" "\<forall>item \<in> set items. takes env c connected item"
    and "flush_items env c (\<lambda>_. []) now items report a (opened_store t) = (out, a', opened_store t')"
  shows "connected a' \<and> (\<exists>report'. out = Inr report' \<and> fr_sent_count report' = fr_sent_count report + length items)
         \<and> {r \<in> set (ob_rows t'). pending r} \<subseteq> {r \<in> set (ob_rows t). pending r}"
  using assms
proof (induction items arbitrary: report a t)
  case Nil
  then show ?case by (auto simp: opened_store_def)
next
  case (Cons item items)
  obtain a1 where d: "dispatch env c item a = (Inr (), a1)" "connected a1"
    using Cons.prems(1,2) by (auto simp: takes_def)
  let ?t = "map_rows (settle_row (oi_id item) (now item) ''sent'' 0 None) t"
  have "flush_items env c (\<lambda>_. []) now items (count_outcome (Inr ()) report) a1 (opened_store ?t) = (out, a', opened_store t')"
    using Cons.prems(3) by (simp add: d settle_outcome_healthy)
  from Cons.IH [OF d(2) _ this] Cons.prems(2)
  have IH: "connected a' \<and> (\<exists>report'. out = Inr report' \<and> fr_sent_count report' = fr_sent_count report + length (item # items))
      \<and> {r \<in> set (ob_rows t'). pending r} \<subseteq> {r \<in> set (ob_rows ?t). pending r}"
    by (simp add: count_outcome_def)
  then show ?case using pending_settled [of "oi_id item" "now item" 0 None t] by blast
qed

primrec flush_rounds ::
    "'n agent_env \<Rightarrow> wire \<Rightarrow> (outbox_item \<Rightarrow> int) \<Rightarrow> nat \<Rightarrow> 'n agent \<Rightarrow> outbox_store \<Rightarrow> 'n agent \<times> outbox_store" where
  "flush_rounds env c now 0 a s = (a, s)"
| "flush_rounds env c now (Suc k) a s =
     (case flush_outbox env c (\<lambda>_. []) now a s of (_, a1, s1) \<Rightarrow> flush_rounds env c now k a1 s1)"

lemma flush_accepting:
  assumes "outbox_ok t" "connected a" "\<forall>r \<in> set (ob_rows t). pending r \<longrightarrow> takes env c connected (row_item r)"
  shows "\<exists>report a' t'. flush_outbox env c (\<lambda>_. []) now a (opened_store t) = (Inr report, a', opened_store t')
     \<and> outbox_ok t' \<and> connected a' \<and> (\<forall>r \<in> set (ob_rows t'). pending r \<longrightarrow> takes env c connected (row_item r))
     \<and> rows_in ''sent'' t' = rows_in ''sent'' t + min 50 (rows_in ''pending'' t)
     \<and> rows_in ''pending'' t' = rows_in ''pending'' t - 50"
proof -
  let ?items = "map row_item (pending_rows OUTBOX_FLUSH_BATCH t)"
  obtain report a' t' where run: "flush_outbox env c (\<lambda>_. []) now a (opened_store t) = (Inr report, a', opened_store t')"
      "outbox_ok t'" "fr_inspected_count report = min 50 (rows_in ''pending'' t)"
      "fr_sent_count report + fr_retried_count report + fr_failed_count report = fr_inspected_count report"
      "rows_in ''sent'' t' = rows_in ''sent'' t + fr_sent_count report"
      "rows_in ''pending'' t' + fr_sent_count report + fr_failed_count report = rows_in ''pending'' t"
    using flush_healthy [OF assms(1), where env = env and c = c and now = now and a = a] by blast
  have "\<forall>item \<in> set ?items. takes env c connected item"
    using assms(3) pending_rows_subset [of OUTBOX_FLUSH_BATCH t] by auto
  note items = flush_items_accepting [where env = env and c = c and now = now and t = t, OF assms(2) this]
  have acc: "connected a' \<and> fr_sent_count report = length ?items
      \<and> {r \<in> set (ob_rows t'). pending r} \<subseteq> {r \<in> set (ob_rows t). pending r}"
    using items [of _ "Inr report" a' t'] run(1) by (simp add: flush_outbox_def pending_batch_def)
  then have "fr_sent_count report = min 50 (rows_in ''pending'' t)" by (simp add: length_pending_rows)
  with run acc assms(3) show ?thesis by (intro exI [of _ report] exI [of _ a'] exI [of _ t']) auto
qed

lemma flush_rounds_drain:
  assumes "outbox_ok t" "connected a" "\<forall>r \<in> set (ob_rows t). pending r \<longrightarrow> takes env c connected (row_item r)"
    and "rows_in ''pending'' t \<le> 50 * k"
  shows "\<exists>a' t'. flush_rounds env c now k a (opened_store t) = (a', opened_store t')
     \<and> rows_in ''pending'' t' = 0 \<and> rows_in ''sent'' t' = rows_in ''sent'' t + rows_in ''pending'' t"
  using assms
proof (induction k arbitrary: a t)
  case (Suc k)
  obtain report a1 t1 where one: "flush_outbox env c (\<lambda>_. []) now a (opened_store t) = (Inr report, a1, opened_store t1)"
      "outbox_ok t1" "connected a1" "\<forall>r \<in> set (ob_rows t1). pending r \<longrightarrow> takes env c connected (row_item r)"
      "rows_in ''sent'' t1 = rows_in ''sent'' t + min 50 (rows_in ''pending'' t)"
      "rows_in ''pending'' t1 = rows_in ''pending'' t - 50"
    using flush_accepting [OF Suc.prems(1-3)] by blast
  then have "rows_in ''pending'' t1 \<le> 50 * k" using Suc.prems(4) by simp
  from Suc.IH [OF one(2-4) this] obtain a' t' where
      "flush_rounds env c now k a1 (opened_store t1) = (a', opened_store t')" "rows_in ''pending'' t' = 0"
      "rows_in ''sent'' t' = rows_in ''sent'' t1 + rows_in ''pending'' t1"
    by blast
  with one(1,5,6) show ?case by (intro exI [of _ a'] exI [of _ t']) simp
qed auto

section \<open>From the producer to the request\<close>

text \<open>The mutations the desktop queues, with the arguments of their producers.\<close>

datatype mutation =
  Execution_Result string string json
| Proposal_Submission AgentProposalSubmission
| Command_Status string string
| Transfer_Completion string nat string
| Cache_Completion string nat string int bool SmartCacheEncryptionMetadata
| Stale_Report nat string "string option" string
| Room_Snapshot string CleanlinessSnapshot

fun queue_mutation :: "(string \<Rightarrow> string) \<Rightarrow> wire \<Rightarrow> int \<Rightarrow> mutation \<Rightarrow> outbox_store \<Rightarrow> outbox_store" where
  "queue_mutation sha256 c now (Execution_Result i status summary) s = snd (enqueue_execution_result c now i status summary s)"
| "queue_mutation sha256 c now (Proposal_Submission p) s = snd (enqueue_proposal c now p s)"
| "queue_mutation sha256 c now (Command_Status i status) s = snd (enqueue_command_status c now i status s)"
| "queue_mutation sha256 c now (Transfer_Completion i n sha) s = snd (enqueue_file_transfer_completion c now i n sha s)"
| "queue_mutation sha256 c now (Cache_Completion i n sha score pin m) s =
     snd (enqueue_smart_cache_completion c now i n sha score pin m s)"
| "queue_mutation sha256 c now (Stale_Report nanos room path reason) s =
     snd (enqueue_smart_cache_stale sha256 c nanos now room path reason s)"
| "queue_mutation sha256 c now (Room_Snapshot room snapshot) s = snd (enqueue_room_snapshot c now room snapshot s)"

text \<open>Its name in the outbox, and the request its caller meant.\<close>

fun mutation_name :: "(string \<Rightarrow> string) \<Rightarrow> mutation \<Rightarrow> string \<times> string" where
  "mutation_name sha256 (Execution_Result i status summary) = (KIND_EXECUTION_RESULT, i)"
| "mutation_name sha256 (Proposal_Submission p) = (KIND_PROPOSAL, as_command_id p)"
| "mutation_name sha256 (Command_Status i status) = (KIND_COMMAND_STATUS, i @ '':'' @ status)"
| "mutation_name sha256 (Transfer_Completion i n sha) = (KIND_FILE_TRANSFER_COMPLETION, i @ ''-complete'')"
| "mutation_name sha256 (Cache_Completion i n sha score pin m) = (KIND_SMART_CACHE_COMPLETION, i @ ''-complete'')"
| "mutation_name sha256 (Stale_Report nanos room path reason) = (stale_kind sha256 room path, pad0 39 nanos @ ''-'' @ reason)"
| "mutation_name sha256 (Room_Snapshot room snapshot) =
     (KIND_ROOM_SNAPSHOT_PREFIX @ room, room @ ''-'' @ cs_calculated_at snapshot)"

fun mutation_request :: "mutation \<Rightarrow> string \<Rightarrow> DeviceCredential \<Rightarrow> http_request" where
  "mutation_request (Execution_Result i status summary) = update_execution_request i status summary"
| "mutation_request (Proposal_Submission p) = submit_proposal_request (as_command_id p) p"
| "mutation_request (Command_Status i status) = update_command_status_request i status"
| "mutation_request (Transfer_Completion i n sha) = complete_transfer_request i (i @ ''-complete'') n sha"
| "mutation_request (Cache_Completion i n sha score pin m) = complete_cache_request i (i @ ''-complete'') n sha score pin m"
| "mutation_request (Stale_Report nanos room path reason) = stale_request (pad0 39 nanos @ ''-'' @ reason) room path reason"
| "mutation_request (Room_Snapshot room snapshot) = room_snapshot_request room snapshot"

definition carries :: "('p \<Rightarrow> string + string) \<Rightarrow> (string \<Rightarrow> 'p option) \<Rightarrow> 'p \<Rightarrow> bool" where
  "carries enc from_str p = (case enc p of Inl _ \<Rightarrow> False | Inr payload_json \<Rightarrow> from_str payload_json = Some p)"

text \<open>\<^verbatim>\<open>serde_json\<close> reads back what it wrote for this mutation, and its producer accepts the arguments.\<close>

fun carried :: "wire \<Rightarrow> mutation \<Rightarrow> bool" where
  "carried c (Execution_Result i status summary) =
     carries (enc_execution c) (dec_execution c) \<lparr>xp_execution_id = i, xp_status = status, xp_result_summary = summary\<rparr>"
| "carried c (Proposal_Submission p) = carries (enc_submission c) (dec_submission c) p"
| "carried c (Command_Status i status) = carries (enc_command c) (dec_command c) \<lparr>cp_command_id = i, cp_status = status\<rparr>"
| "carried c (Transfer_Completion i n sha) =
     carries (enc_transfer c) (dec_transfer c) \<lparr>tp_transfer_id = i, tp_size_bytes = n, tp_sha256 = sha\<rparr>"
| "carried c (Cache_Completion i n sha score pin m) =
     carries (enc_cache c) (dec_cache c) \<lparr>sp_reservation_id = i, sp_size_bytes = n, sp_sha256 = sha,
       sp_usage_score = score, sp_manual_pin = pin, sp_encryption_metadata = m\<rparr>"
| "carried c (Stale_Report nanos room path reason) \<longleftrightarrow>
     validate_stale_report room path reason = Inr ()
     \<and> carries (enc_stale c) (dec_stale c) \<lparr>lp_room_id = room, lp_source_relative_path = path, lp_reason = reason\<rparr>"
| "carried c (Room_Snapshot room snapshot) =
     carries (enc_snapshot c) (dec_snapshot c) \<lparr>np_room_id = room, np_snapshot = snapshot\<rparr>"

text \<open>No earlier mutation stands in the way: none of the same name or, for a replaceable one, none of
  the same kind with a key that is not smaller.\<close>

definition replaceable :: "mutation \<Rightarrow> bool" where
  "replaceable m = (case m of Stale_Report _ _ _ _ \<Rightarrow> True | Room_Snapshot _ _ \<Rightarrow> True | _ \<Rightarrow> False)"

definition unhindered :: "(string \<Rightarrow> string) \<Rightarrow> mutation \<Rightarrow> outbox_table \<Rightarrow> bool" where
  "unhindered sha256 m t \<longleftrightarrow>
     (if replaceable m
      then \<forall>r \<in> set (ob_rows t). ob_kind r = fst (mutation_name sha256 m) \<longrightarrow> ob_key r < snd (mutation_name sha256 m)
      else mutation_name sha256 m \<notin> row_name ` set (ob_rows t))"

lemma enqueue_fresh:
  assumes "(kind, key) \<notin> row_name ` set (ob_rows t)"
  shows "snd (enqueue now kind key text (opened_store t))
    = opened_store (t\<lparr>ob_rows := ob_rows t @ [new_row (ob_seq t + 1) now kind key text], ob_seq := ob_seq t + 1\<rparr>)"
  using assms by (simp add: enqueue_def insert_outbox_row_def)

lemma replace_newest:
  assumes "\<forall>r \<in> set (ob_rows t). ob_kind r = kind \<longrightarrow> ob_key r < key"
  shows "\<exists>t'. snd (enqueue_replacing_pending now kind key payload (opened_store t)) = opened_store t'
    \<and> new_row (ob_seq t + 1) now kind key payload \<in> set (ob_rows t')"
proof -
  let ?t = "map_rows (supersede_row now kind key) t"
  have old: "\<not> (\<exists>r \<in> set (ob_rows ?t). ob_kind r = kind \<and> key \<le> ob_key r)"
    using assms by (auto simp: keeps_identityD [OF supersede_row_identity] not_le)
  then have "(kind, key) \<notin> row_name ` set (ob_rows ?t)" by (auto simp: row_name_def)
  with old show ?thesis
    by (intro exI [of _ "snd (insert_outbox_row now kind key payload ?t)"])
      (simp add: enqueue_replacing_pending_def replace_pending_def Let_def insert_outbox_row_def del: map_rows_simps(1))
qed

text \<open>The row a producer writes.\<close>

definition queued_as :: "wire \<Rightarrow> string \<times> string \<Rightarrow> (string \<Rightarrow> DeviceCredential \<Rightarrow> http_request) \<Rightarrow> outbox_store \<Rightarrow> bool" where
  "queued_as c name request s \<longleftrightarrow>
     (\<exists>t r. s = opened_store t \<and> r \<in> set (ob_rows t) \<and> row_name r = name \<and> pending r
        \<and> request_for c (row_item r) = Some request)"

lemma queued_asI:
  assumes "s = opened_store t" "new_row i now kind key text \<in> set (ob_rows t)"
    and "request_for c (row_item (new_row i now kind key text)) = Some request"
  shows "queued_as c (kind, key) request s"
  using assms unfolding queued_as_def
  by (intro exI [of _ t] exI [of _ "new_row i now kind key text"]) (simp add: new_row_def row_name_def pending_def)

lemma carriesE:
  assumes "carries enc from_str p"
  obtains written where "enc p = Inr written" "from_str written = Some p"
  using assms by (auto simp: carries_def split: sum.splits)

lemma request_for_kinds:
  "request_for c (row_item (new_row i now KIND_EXECUTION_RESULT key w)) =
     map_option (\<lambda>p. update_execution_request (xp_execution_id p) (xp_status p) (xp_result_summary p)) (dec_execution c w)"
  "request_for c (row_item (new_row i now KIND_PROPOSAL key w)) = map_option (submit_proposal_request key) (dec_submission c w)"
  "request_for c (row_item (new_row i now KIND_COMMAND_STATUS key w)) =
     map_option (\<lambda>p. update_command_status_request (cp_command_id p) (cp_status p)) (dec_command c w)"
  "request_for c (row_item (new_row i now KIND_FILE_TRANSFER_COMPLETION key w)) =
     map_option (\<lambda>p. complete_transfer_request (tp_transfer_id p) key (tp_size_bytes p) (tp_sha256 p)) (dec_transfer c w)"
  "request_for c (row_item (new_row i now KIND_SMART_CACHE_COMPLETION key w)) =
     map_option (\<lambda>p. complete_cache_request (sp_reservation_id p) key (sp_size_bytes p) (sp_sha256 p) (sp_usage_score p)
       (sp_manual_pin p) (sp_encryption_metadata p)) (dec_cache c w)"
  "request_for c (row_item (new_row i now (stale_kind sha256 room path) key w)) =
     map_option (\<lambda>p. stale_request key (lp_room_id p) (lp_source_relative_path p) (lp_reason p)) (dec_stale c w)"
  "request_for c (row_item (new_row i now (KIND_ROOM_SNAPSHOT_PREFIX @ room) key w)) =
     map_option (\<lambda>p. room_snapshot_request (np_room_id p) (np_snapshot p)) (dec_snapshot c w)"
  by (simp_all add: request_for_def row_item_def new_row_def stale_kind_def kind_defs)

lemma enqueue_queued:
  assumes "(kind, key) \<notin> row_name ` set (ob_rows t)" "payload = Inr written"
    and "\<And>i. request_for c (row_item (new_row i now kind key written)) = Some request"
  shows "queued_as c (kind, key) request (snd (encoded message payload (enqueue now kind key) (opened_store t)))"
  using assms(2,3) by (auto simp: encoded_def enqueue_fresh [OF assms(1)] intro!: queued_asI)

lemma replace_queued:
  assumes "\<forall>r \<in> set (ob_rows t). ob_kind r = kind \<longrightarrow> ob_key r < key" "payload = Inr written"
    and "\<And>i. request_for c (row_item (new_row i now kind key written)) = Some request"
  shows "queued_as c (kind, key) request (snd (encoded message payload (enqueue_replacing_pending now kind key) (opened_store t)))"
  using assms(2,3) replace_newest [OF assms(1), where now = now and payload = written]
  by (auto simp: encoded_def intro: queued_asI)

lemmas queued_simps = request_for_kinds unhindered_def replaceable_def

lemma queue_mutation_queued:
  assumes "carried c m" "unhindered sha256 m t"
  shows "queued_as c (mutation_name sha256 m) (mutation_request m) (queue_mutation sha256 c now m (opened_store t))"
  using assms
proof (cases m)
  case (Stale_Report nanos room path reason)
  with assms show ?thesis
    by (auto elim!: carriesE simp: enqueue_smart_cache_stale_def queued_simps intro!: replace_queued)
next
  case (Room_Snapshot room snapshot)
  with assms show ?thesis
    by (auto elim!: carriesE simp: enqueue_room_snapshot_def queued_simps intro!: replace_queued)
qed (auto elim!: carriesE simp: enqueue_execution_result_def enqueue_proposal_def enqueue_command_status_def
       enqueue_file_transfer_completion_def enqueue_smart_cache_completion_def file_transfer_completion_key_def
       smart_cache_completion_key_def queued_simps intro!: enqueue_queued)

text \<open>The producer of stale reports accepts a path with a colon, which the agent's validation
  refuses: such a report is queued, never sent, and dead-lettered by the first flush.\<close>

lemma stale_colon_queued:
  "validate_stale_report ''room'' (Some ''notes: draft.txt'') ''SOURCE_CHANGED'' = Inr ()"
  by code_simp

lemma stale_colon_dead_lettered:
  assumes "oi_kind item = stale_kind sha256 room path" "dec_stale c (oi_payload item) = Some payload"
    and "lp_source_relative_path payload = Some source" "CHR '':'' \<in> set source"
  shows "dispatch env c item a = (Inl (Terminal ''VALIDATION_FAILED''), a)"
proof -
  have "\<exists>message. mark_smart_cache_stale env (res_stale c) (oi_key item) (lp_room_id payload)
      (Some source) (lp_reason payload) a = (Inl (validation_error message), a)"
    using assms(4)
    by (auto simp: mark_smart_cache_stale_def validated_def validate_opaque_value_def
        validate_smart_cache_stale_reason_def stale_arguments_def validate_relative_path_def)
  then show ?thesis
    using assms(1-3) by (auto simp: dispatch_def stale_kind_def kind_defs decode_payload_def deliver_def
        classify_def is_transient_def validation_error_def agent_error_def)
qed

section \<open>A sample queue\<close>

definition sample_execution :: ExecutionResultPayload where
  "sample_execution = \<lparr>xp_execution_id = ''x1'', xp_status = ''SUCCEEDED'', xp_result_summary = JObject []\<rparr>"

definition sample_wire :: wire where
  "sample_wire =
     \<lparr>enc_execution = (\<lambda>_. Inr ''{}''), dec_execution = (\<lambda>_. Some sample_execution),
      enc_submission = (\<lambda>_. Inr ''{}''), dec_submission = (\<lambda>_. None),
      enc_command = (\<lambda>_. Inr ''{}''), dec_command = (\<lambda>_. None),
      enc_transfer = (\<lambda>_. Inr ''{}''), dec_transfer = (\<lambda>_. None),
      enc_cache = (\<lambda>_. Inr ''{}''), dec_cache = (\<lambda>_. None),
      enc_stale = (\<lambda>_. Inr ''{}''), dec_stale = (\<lambda>_. None),
      enc_snapshot = (\<lambda>_. Inr ''{}''), dec_snapshot = (\<lambda>_. None),
      res_execution = (\<lambda>_. Some \<lparr>ex_execution_id = ''x1'', ex_status = ''SUCCEEDED''\<rparr>),
      res_command = (\<lambda>_. None), res_transfer = (\<lambda>_. None), res_cache = (\<lambda>_. None), res_stale = (\<lambda>_. None),
      res_snapshot = (\<lambda>_. None)\<rparr>"

definition sample_queue :: outbox_table where
  "sample_queue = \<lparr>ob_rows = [new_row 1 5 KIND_EXECUTION_RESULT ''x1'' ''{}''], ob_seq = 1\<rparr>"

definition online :: "(unit \<times> http_request list) agent \<Rightarrow> bool" where
  "online a \<longleftrightarrow> ag_server_base_url a = Some ''https://keeper.test'' \<and> ag_credential a = Some sample_credential"

lemma sample_queue_ok: "outbox_ok sample_queue"
  by (simp add: outbox_ok_def sample_queue_def new_row_def row_name_def)

lemma sample_queue_pending: "rows_in ''pending'' sample_queue = 1" "rows_in ''sent'' sample_queue = 0"
  by (simp_all add: rows_in_def sample_queue_def new_row_def)

lemma sample_update_execution:
  assumes "online a"
  shows "\<exists>x a'. update_execution (sample_env 200 None) (res_execution sample_wire) ''x1'' ''SUCCEEDED'' (JObject []) a
           = (Inr x, a') \<and> online a'"
proof -
  have checks: "validate_opaque_value ''execution id'' ''x1'' 200 = Inr ()" by code_simp
  show ?thesis using assms
    by (cases "ag_net a") (simp add: online_def update_execution_def validated_def checks call_json_def
      require_authenticated_config_def send_json_def sample_env_def is_success_def sample_wire_def
      validate_execution_response_def conclude_def mark_online_def)
qed

lemma sample_takes: "takes (sample_env 200 None) sample_wire online (row_item (new_row 1 5 KIND_EXECUTION_RESULT ''x1'' ''{}''))"
proof -
  have "dispatch (sample_env 200 None) sample_wire (row_item (new_row 1 5 KIND_EXECUTION_RESULT ''x1'' ''{}'')) a
      = deliver (update_execution (sample_env 200 None) (res_execution sample_wire) ''x1'' ''SUCCEEDED'' (JObject [])) a" for a
    by (simp add: dispatch_def row_item_def new_row_def kind_defs decode_payload_def)
      (simp add: sample_wire_def sample_execution_def)
  then show ?thesis using sample_update_execution by (fastforce simp: takes_def deliver_def)
qed

section \<open>Properties\<close>

text \<open>C7: A queued mutation is never lost. Take a mutation that is pending when a flush begins. Whatever
  the server answers, whichever database statement fails and wherever the flush stops, and
  whatever other tasks queue meanwhile, its row is still in the table with the same kind, key and
  payload; it is pending, or it is sent and the server took its request, or it
  is failed with the error code of a definitive refusal, or a newer mutation of its kind superseded it.
\<close>

theorem flush_outbox_lossless:
  assumes "st_pool s = Some t" "outbox_ok t" "r \<in> set (ob_rows t)" "pending r"
    and "\<forall>item. list_all producer (meanwhile item)"
    and "flush_outbox env c meanwhile now a s = (out, a', s')"
  shows "\<exists>t' r'. st_pool s' = Some t' \<and> r' \<in> set (ob_rows t')
    \<and> ob_id r' = ob_id r \<and> row_name r' = row_name r \<and> ob_payload r' = ob_payload r
    \<and> (ob_state r' = ''pending''
       \<or> (ob_state r' = ''sent'' \<and> (\<exists>request b credential a1 a2. request_for c (row_item r) = Some request
            \<and> accepted env (request b credential) a1 a2))
       \<or> (ob_state r' = ''failed'' \<and> (\<exists>code a1 a2. dispatch env c (row_item r) a1 = (Inl (Terminal code), a2)
            \<and> ob_error r' = Some code))
       \<or> (ob_state r' = ''superseded'' \<and> (\<exists>item now key payload.
            Replace now (ob_kind r) key payload \<in> set (meanwhile item) \<and> ob_key r < key)))"
  using has_fate_flush [OF assms(1-5), where env = env and c = c and now = now and a = a] assms(6)
  unfolding has_fate_def fate_def by simp

theorem flush_outbox_lossless_witness:
  "\<exists>t' r'. st_pool (snd (snd (flush_outbox (sample_env 500 None) sample_wire (\<lambda>_. [Enqueue 6 KIND_PROPOSAL ''p'' ''{}''])
        (\<lambda>_. 7) started_agent (opened_store sample_queue)))) = Some t'
     \<and> r' \<in> set (ob_rows t') \<and> ob_id r' = 1 \<and> row_name r' = (KIND_EXECUTION_RESULT, ''x1'') \<and> ob_payload r' = ''{}''"
proof -
  let ?r = "new_row 1 5 KIND_EXECUTION_RESULT ''x1'' ''{}''"
  have "?r \<in> set (ob_rows sample_queue)" "pending ?r"
    by (simp_all add: sample_queue_def new_row_def pending_def)
  from flush_outbox_lossless [OF opened_store_simps(1) sample_queue_ok this, where env = "sample_env 500 None"
      and c = sample_wire and meanwhile = "\<lambda>_. [Enqueue 6 KIND_PROPOSAL ''p'' ''{}'']" and now = "\<lambda>_. 7" and a = started_agent]
  show ?thesis by (simp add: new_row_def row_name_def) (metis prod.collapse)
qed

text \<open>Redelivery is the same request. Whatever the state of the connection, an attempt to deliver an
  item speaks to the server at most once, and always with the one request that the item stands
  for: same method, body and idempotency key, determined by the row alone but for
  the address and the token. An item without such a request is refused without speaking to the server. The attempt succeeds only when the
  server answered with success.
\<close>

theorem redelivery_same_request:
  "case request_for c item of
     None \<Rightarrow> snd (dispatch env c item a) = a \<and> (\<exists>code. fst (dispatch env c item a) = Inl (Terminal code))
   | Some request \<Rightarrow>
       (\<exists>e. fst (dispatch env c item a) = Inl e \<and> ag_net (snd (dispatch env c item a)) = ag_net a)
       \<or> (\<exists>e b credential. ag_server_base_url a = Some b \<and> ag_credential a = Some credential
            \<and> fst (dispatch env c item a) = Inl e
            \<and> ag_net (snd (dispatch env c item a)) = snd (env_http env (request b credential) (ag_net a)))
       \<or> (\<exists>b credential. ag_server_base_url a = Some b \<and> ag_credential a = Some credential
            \<and> fst (dispatch env c item a) = Inr () \<and> accepted env (request b credential) a (snd (dispatch env c item a)))"
proof (cases "request_for c item")
  case None
  then show ?thesis using dispatch_stands_for [of env c item] by (simp add: stands_for_def)
next
  case (Some request)
  then have "sends_once env request a (dispatch env c item a)"
    using dispatch_stands_for [of env c item] by (simp add: stands_for_def)
  then show ?thesis unfolding Some sends_once_def require_authenticated_config_ok
    by (cases "fst (dispatch env c item a)") (auto simp: is_ok_iff)
qed

text \<open>The flush report tells the truth. With a working database, a flush returns a report: it
  inspected the oldest pending rows, at most fifty; sent, retried and failed add up to the
  inspected ones; exactly as many rows as reported became sent, as many became failed, and the retried
  ones are still pending.
\<close>

theorem flush_report_accounts:
  assumes "outbox_ok t"
  shows "\<exists>report a' t'. flush_outbox env c (\<lambda>_. []) now a (opened_store t) = (Inr report, a', opened_store t')
     \<and> fr_inspected_count report = min 50 (rows_in ''pending'' t)
     \<and> fr_sent_count report + fr_retried_count report + fr_failed_count report = fr_inspected_count report
     \<and> rows_in ''sent'' t' = rows_in ''sent'' t + fr_sent_count report
     \<and> rows_in ''failed'' t' = rows_in ''failed'' t + fr_failed_count report
     \<and> rows_in ''pending'' t' + fr_sent_count report + fr_failed_count report = rows_in ''pending'' t"
  using flush_healthy [OF assms] by blast

theorem flush_report_accounts_witness:
  "\<exists>report a' t'. flush_outbox (sample_env 200 None) sample_wire (\<lambda>_. []) (\<lambda>_. 7) started_agent (opened_store sample_queue)
       = (Inr report, a', opened_store t') \<and> fr_inspected_count report = 1"
  using flush_report_accounts [OF sample_queue_ok, where env = "sample_env 200 None" and c = sample_wire
      and now = "\<lambda>_. 7" and a = started_agent]
  by (auto simp: sample_queue_pending)

text \<open>C32: A server that accepts drains the queue. When the database works and every pending mutation is
  taken by the server as long as the agent is connected, \<open>k\<close> flushes leave nothing pending if at
  most \<open>50 k\<close> mutations were, and every one of them is sent.
\<close>

theorem outbox_drains:
  assumes "outbox_ok t" "connected a" "\<forall>r \<in> set (ob_rows t). pending r \<longrightarrow> takes env c connected (row_item r)"
    and "rows_in ''pending'' t \<le> 50 * k"
  shows "\<exists>a' t'. flush_rounds env c now k a (opened_store t) = (a', opened_store t')
     \<and> rows_in ''pending'' t' = 0 \<and> rows_in ''sent'' t' = rows_in ''sent'' t + rows_in ''pending'' t"
  by (rule flush_rounds_drain [OF assms])

theorem outbox_drains_witness:
  "\<exists>a' t'. flush_rounds (sample_env 200 None) sample_wire (\<lambda>_. 7) 1 started_agent (opened_store sample_queue) = (a', opened_store t')
     \<and> rows_in ''pending'' t' = 0 \<and> rows_in ''sent'' t' = 1"
proof -
  have "online started_agent" by (simp add: online_def started_agent_value)
  moreover have "\<forall>r \<in> set (ob_rows sample_queue). pending r \<longrightarrow> takes (sample_env 200 None) sample_wire online (row_item r)"
    using sample_takes by (simp add: sample_queue_def)
  ultimately show ?thesis
    using outbox_drains [OF sample_queue_ok, where k = 1] by (auto simp: sample_queue_pending)
qed

text \<open>C34: A queued mutation stands for the request its caller meant. Queue any of the seven kinds of
  mutation on a working database, with arguments its producer accepts, when no earlier mutation
  stands in the way: the outbox then holds a pending row of that name, and the request the row stands
  for is the agent's request with the very arguments that were queued, under
  the row's idempotency key where the endpoint takes one.
\<close>

theorem queued_mutation_request:
  assumes "carried c m" "unhindered sha256 m t"
  shows "\<exists>t' r. queue_mutation sha256 c now m (opened_store t) = opened_store t' \<and> r \<in> set (ob_rows t')
     \<and> row_name r = mutation_name sha256 m \<and> pending r \<and> request_for c (row_item r) = Some (mutation_request m)"
  using queue_mutation_queued [OF assms] unfolding queued_as_def .

theorem queued_mutation_request_witness:
  "\<exists>t' r. queue_mutation (\<lambda>_. []) sample_wire 9 (Execution_Result ''x1'' ''SUCCEEDED'' (JObject [])) (opened_store empty_outbox)
       = opened_store t' \<and> r \<in> set (ob_rows t') \<and> pending r
     \<and> request_for sample_wire (row_item r) = Some (update_execution_request ''x1'' ''SUCCEEDED'' (JObject []))"
proof -
  have "carried sample_wire (Execution_Result ''x1'' ''SUCCEEDED'' (JObject []))"
    by (simp add: carries_def sample_wire_def sample_execution_def)
  moreover have "unhindered (\<lambda>_. []) (Execution_Result ''x1'' ''SUCCEEDED'' (JObject [])) empty_outbox"
    by (simp add: unhindered_def replaceable_def empty_outbox_def)
  ultimately show ?thesis using queued_mutation_request [where now = 9] by fastforce
qed

end
