(* ===== verification/Managed_Roots.thy ===== *)
theory Managed_Roots
  imports Desktop Paths
begin

text \<open>
  The registry of managed folders (\<^verbatim>\<open>storage/managed_roots.rs\<close>): the folders in memory, the table
  that mirrors them, and the binding of a folder to a room on the server.

  The map \<^verbatim>\<open>BTreeMap<String, ManagedRoot>\<close>, whose keys are the values' ids, is the list of its values in
  the order of the ids. Every operation changes the memory first and then writes the row, and
  the write may fail.

  Shown here: no two registered folders overlap; a room is bound to one folder at most; a detached
  folder stays detached until it is bound or registered again; and as long as writes
  succeed, a restart loads exactly the folders that were registered.
\<close>

section \<open>Records\<close>

datatype RoomBindingStatus = Unbound | Active | Detached

datatype ManagedRootStatus = Ready | Missing | Error

record ManagedRoot =
  mr_root_id :: string
  mr_root :: string
  mr_display_name :: string
  mr_enabled :: bool
  mr_watch_on_startup :: bool
  mr_last_seen_status :: ManagedRootStatus
  mr_last_error :: "string option"
  mr_registered_unix_ms :: int
  mr_updated_unix_ms :: int
  mr_room_id :: "string option"
  mr_detached_room_id :: "string option"
  mr_room_binding_status :: RoomBindingStatus

record ManagedRootStatePatch =
  mp_enabled :: "bool option"
  mp_watch_on_startup :: "bool option"

text \<open>A row of the table; booleans are integers and the enums are texts there.\<close>

record root_row =
  rw_root_id :: string
  rw_canonical_path :: string
  rw_display_name :: string
  rw_enabled :: int
  rw_watch_on_startup :: int
  rw_last_seen_status :: string
  rw_last_error :: "string option"
  rw_registered :: int
  rw_updated :: int
  rw_room_id :: "string option"
  rw_detached_room_id :: "string option"
  rw_binding :: string

record root_store =
  rt_roots :: "ManagedRoot list"
  rt_db :: "root_row list store"

type_synonym 'a root_op = "root_store \<Rightarrow> (string + 'a) \<times> root_store"

definition managed_root_new :: "int \<Rightarrow> string \<Rightarrow> string \<Rightarrow> string \<Rightarrow> ManagedRoot" where
  "managed_root_new now root_id root display_name =
     \<lparr>mr_root_id = root_id, mr_root = root, mr_display_name = display_name, mr_enabled = True,
      mr_watch_on_startup = True, mr_last_seen_status = Ready, mr_last_error = None,
      mr_registered_unix_ms = now, mr_updated_unix_ms = now, mr_room_id = None, mr_detached_room_id = None,
      mr_room_binding_status = Unbound\<rparr>"

fun root_status_as_db_str :: "ManagedRootStatus \<Rightarrow> string" where
  "root_status_as_db_str Ready = ''ready''"
| "root_status_as_db_str Missing = ''missing''"
| "root_status_as_db_str Error = ''error''"

definition root_status_from_db_str :: "string \<Rightarrow> ManagedRootStatus" where
  "root_status_from_db_str value =
     (if value = ''missing'' then Missing else if value = ''error'' then Error else Ready)"

fun binding_as_db_str :: "RoomBindingStatus \<Rightarrow> string" where
  "binding_as_db_str Unbound = ''unbound''"
| "binding_as_db_str Active = ''active''"
| "binding_as_db_str Detached = ''detached''"

definition binding_from_db_str :: "string \<Rightarrow> RoomBindingStatus" where
  "binding_from_db_str value =
     (if value = ''active'' then Active else if value = ''detached'' then Detached else Unbound)"

definition bool_int :: "bool \<Rightarrow> int" where
  "bool_int value = (if value then 1 else 0)"

definition int_bool :: "int \<Rightarrow> bool" where
  "int_bool value \<longleftrightarrow> value \<noteq> 0"

section \<open>Overlapping folders\<close>

definition display_pair :: "string \<Rightarrow> string \<Rightarrow> string" where
  "display_pair candidate existing = ''candidate='' @ candidate @ '', existing='' @ existing"

fun ensure_not_overlapping_iter :: "ManagedRoot list \<Rightarrow> ManagedRoot \<Rightarrow> string + unit" where
  "ensure_not_overlapping_iter [] candidate = Inr ()"
| "ensure_not_overlapping_iter (existing # roots) candidate =
     (if mr_root_id existing = mr_root_id candidate then ensure_not_overlapping_iter roots candidate
      else if path_eq (mr_root existing) (mr_root candidate)
      then Inl (''managed root is already registered: '' @ mr_root candidate)
      else if path_starts_with (mr_root existing) (mr_root candidate)
      then Inl (''managed root overlaps an existing registered child root: ''
                @ display_pair (mr_root candidate) (mr_root existing))
      else if path_starts_with (mr_root candidate) (mr_root existing)
      then Inl (''managed root overlaps an existing registered parent root: ''
                @ display_pair (mr_root candidate) (mr_root existing))
      else ensure_not_overlapping_iter roots candidate)"

fun validate_overlaps_from :: "ManagedRoot list \<Rightarrow> ManagedRoot list \<Rightarrow> string + unit" where
  "validate_overlaps_from before [] = Inr ()"
| "validate_overlaps_from before (candidate # roots) =
     bind_res (ensure_not_overlapping_iter (before @ roots) candidate)
       (\<lambda>_. validate_overlaps_from (before @ [candidate]) roots)"

definition validate_no_overlaps :: "ManagedRoot list \<Rightarrow> string + unit" where
  "validate_no_overlaps roots = validate_overlaps_from [] roots"

section \<open>The table\<close>

definition row_of_root :: "ManagedRoot \<Rightarrow> root_row" where
  "row_of_root root =
     \<lparr>rw_root_id = mr_root_id root, rw_canonical_path = mr_root root, rw_display_name = mr_display_name root,
      rw_enabled = bool_int (mr_enabled root), rw_watch_on_startup = bool_int (mr_watch_on_startup root),
      rw_last_seen_status = root_status_as_db_str (mr_last_seen_status root), rw_last_error = mr_last_error root,
      rw_registered = mr_registered_unix_ms root, rw_updated = mr_updated_unix_ms root,
      rw_room_id = mr_room_id root, rw_detached_room_id = mr_detached_room_id root,
      rw_binding = binding_as_db_str (mr_room_binding_status root)\<rparr>"

definition root_of_row :: "root_row \<Rightarrow> ManagedRoot" where
  "root_of_row row =
     \<lparr>mr_root_id = rw_root_id row, mr_root = rw_canonical_path row, mr_display_name = rw_display_name row,
      mr_enabled = int_bool (rw_enabled row), mr_watch_on_startup = int_bool (rw_watch_on_startup row),
      mr_last_seen_status = root_status_from_db_str (rw_last_seen_status row), mr_last_error = rw_last_error row,
      mr_registered_unix_ms = rw_registered row, mr_updated_unix_ms = rw_updated row,
      mr_room_id = rw_room_id row, mr_detached_room_id = rw_detached_room_id row,
      mr_room_binding_status = binding_from_db_str (rw_binding row)\<rparr>"

text \<open>\<^verbatim>\<open>INSERT ... ON CONFLICT(root_id) DO UPDATE\<close>: the path is \<^verbatim>\<open>UNIQUE\<close>, and a violation of that
  constraint is an error.\<close>

definition upsert_root :: "root_row \<Rightarrow> root_row list \<Rightarrow> string + root_row list" where
  "upsert_root row rows =
     (if \<exists>other \<in> set rows. rw_root_id other \<noteq> rw_root_id row \<and> rw_canonical_path other = rw_canonical_path row
      then Inl ''UNIQUE constraint failed: managed_roots.canonical_path''
      else if rw_root_id row \<in> rw_root_id ` set rows
      then Inr (map (\<lambda>other. if rw_root_id other = rw_root_id row then row else other) rows)
      else Inr (rows @ [row]))"

definition normalize_detached :: "root_row \<Rightarrow> root_row" where
  "normalize_detached row =
     (if rw_binding row = ''detached'' \<and> rw_room_id row \<noteq> None
      then row\<lparr>rw_detached_room_id := (case rw_detached_room_id row of Some x \<Rightarrow> Some x | None \<Rightarrow> rw_room_id row),
               rw_room_id := None\<rparr>
      else row)"

text \<open>One statement that may also be refused by a constraint.\<close>

definition execute_checked :: "string \<Rightarrow> ('t \<Rightarrow> string + 't) \<Rightarrow> 't \<Rightarrow> ('t, unit) store_op" where
  "execute_checked p f t s =
     (case statements [p] (st_faults s) of
        (Inl e, fs) \<Rightarrow> (Inl e, s\<lparr>st_faults := fs\<rparr>)
      | (Inr _, fs) \<Rightarrow>
          (case f t of
             Inl e \<Rightarrow> (Inl (p @ e), s\<lparr>st_faults := fs\<rparr>)
           | Inr t' \<Rightarrow> (Inr (), s\<lparr>st_pool := Some t', st_faults := fs\<rparr>)))"

definition persist :: "ManagedRoot \<Rightarrow> unit root_op" where
  "persist root s =
     (case st_pool (rt_db s) of
        None \<Rightarrow> (Inr (), s)
      | Some rows \<Rightarrow>
          (case execute_checked ''cannot persist managed root: '' (upsert_root (row_of_root root)) rows (rt_db s) of
             (out, db) \<Rightarrow> (out, s\<lparr>rt_db := db\<rparr>)))"

definition delete_persisted :: "string \<Rightarrow> unit root_op" where
  "delete_persisted root_id s =
     (case st_pool (rt_db s) of
        None \<Rightarrow> (Inr (), s)
      | Some rows \<Rightarrow>
          (case execute_sql [''cannot delete managed root: '']
                  (\<lambda>rows. ((), filter (\<lambda>row. rw_root_id row \<noteq> root_id) rows)) rows (rt_db s) of
             (out, db) \<Rightarrow> (out, s\<lparr>rt_db := db\<rparr>)))"

section \<open>The map in memory\<close>

fun bt_insert :: "ManagedRoot \<Rightarrow> ManagedRoot list \<Rightarrow> ManagedRoot list" where
  "bt_insert root [] = [root]"
| "bt_insert root (other # roots) =
     (if mr_root_id root < mr_root_id other then root # other # roots
      else if mr_root_id root = mr_root_id other then root # roots
      else other # bt_insert root roots)"

definition lookup_root :: "string \<Rightarrow> ManagedRoot list \<Rightarrow> ManagedRoot option" where
  "lookup_root root_id roots = find (\<lambda>root. mr_root_id root = root_id) roots"

text \<open>\<^verbatim>\<open>get_mut\<close> and a change of the value found.\<close>

definition modify_root :: "string \<Rightarrow> (ManagedRoot \<Rightarrow> ManagedRoot) \<Rightarrow> ManagedRoot list \<Rightarrow> ManagedRoot list" where
  "modify_root root_id f roots = map (\<lambda>root. if mr_root_id root = root_id then f root else root) roots"

definition not_registered :: "string \<Rightarrow> string" where
  "not_registered root_id = ''managed root is not registered: '' @ root_id"

text \<open>The common shape of the operations: change one root in memory, then persist it.\<close>

definition modify_and_persist :: "string \<Rightarrow> (ManagedRoot \<Rightarrow> ManagedRoot) \<Rightarrow> ManagedRoot root_op" where
  "modify_and_persist root_id f s =
     (case lookup_root root_id (rt_roots s) of
        None \<Rightarrow> (Inl (not_registered root_id), s)
      | Some root \<Rightarrow>
          (let updated = f root;
               s1 = s\<lparr>rt_roots := modify_root root_id f (rt_roots s)\<rparr>
           in case persist updated s1 of
                (Inl e, s2) \<Rightarrow> (Inl e, s2) | (Inr _, s2) \<Rightarrow> (Inr updated, s2)))"

section \<open>Operations\<close>

text \<open>\<open>disk\<close> is what the database file holds, \<^const>\<open>None\<close> when there is no such table yet. The statements of
  \<^verbatim>\<open>migrate\<close> and the read come before anything in memory changes.\<close>

definition load_roots :: "root_row list option \<Rightarrow> unit root_op" where
  "load_roots disk s =
     (let rows = map normalize_detached (case disk of None \<Rightarrow> [] | Some rows \<Rightarrow> rows);
          loaded = map root_of_row rows
      in case execute_sql [[], ''cannot create managed_roots table: '', ''cannot normalize detached room tombstones: '',
                ''cannot read managed roots: ''] (\<lambda>t. ((), t)) rows (rt_db s) of
           (Inl e, db) \<Rightarrow> (Inl e, s\<lparr>rt_db := (rt_db s)\<lparr>st_faults := st_faults db\<rparr>\<rparr>)
         | (Inr _, db) \<Rightarrow>
             (case validate_no_overlaps loaded of
                Inl e \<Rightarrow> (Inl e, s\<lparr>rt_db := (rt_db s)\<lparr>st_faults := st_faults db\<rparr>\<rparr>)
              | Inr _ \<Rightarrow> (Inr (), s\<lparr>rt_roots := fold bt_insert loaded [], rt_db := db\<rparr>)))"

definition upsert :: "ManagedRoot \<Rightarrow> ManagedRoot root_op" where
  "upsert root s =
     (case ensure_not_overlapping_iter (rt_roots s) root of
        Inl e \<Rightarrow> (Inl e, s)
      | Inr _ \<Rightarrow>
          (case persist root (s\<lparr>rt_roots := bt_insert root (rt_roots s)\<rparr>) of
             (Inl e, s1) \<Rightarrow> (Inl e, s1) | (Inr _, s1) \<Rightarrow> (Inr root, s1)))"

definition apply_patch :: "int \<Rightarrow> ManagedRootStatePatch \<Rightarrow> ManagedRoot \<Rightarrow> ManagedRoot" where
  "apply_patch now patch root =
     root\<lparr>mr_enabled := (case mp_enabled patch of Some enabled \<Rightarrow> enabled | None \<Rightarrow> mr_enabled root),
          mr_watch_on_startup :=
            (case mp_watch_on_startup patch of Some watch \<Rightarrow> watch | None \<Rightarrow> mr_watch_on_startup root),
          mr_updated_unix_ms := now\<rparr>"

definition update_root_state :: "int \<Rightarrow> string \<Rightarrow> ManagedRootStatePatch \<Rightarrow> ManagedRoot root_op" where
  "update_root_state now root_id patch = modify_and_persist root_id (apply_patch now patch)"

definition update_health :: "int \<Rightarrow> string \<Rightarrow> ManagedRootStatus \<Rightarrow> string option \<Rightarrow> ManagedRoot root_op" where
  "update_health now root_id status last_error =
     modify_and_persist root_id (\<lambda>root. root\<lparr>mr_last_seen_status := status, mr_last_error := last_error,
       mr_updated_unix_ms := now\<rparr>)"

definition list_roots :: "root_store \<Rightarrow> string + ManagedRoot list" where
  "list_roots s = Inr (rt_roots s)"

definition get_root :: "string \<Rightarrow> root_store \<Rightarrow> string + ManagedRoot" where
  "get_root root_id s =
     (case lookup_root root_id (rt_roots s) of None \<Rightarrow> Inl (not_registered root_id) | Some root \<Rightarrow> Inr root)"

definition remove_root :: "string \<Rightarrow> bool root_op" where
  "remove_root root_id s =
     (if lookup_root root_id (rt_roots s) = None then (Inr False, s)
      else case delete_persisted root_id
                  (s\<lparr>rt_roots := filter (\<lambda>root. mr_root_id root \<noteq> root_id) (rt_roots s)\<rparr>) of
             (Inl e, s1) \<Rightarrow> (Inl e, s1) | (Inr _, s1) \<Rightarrow> (Inr True, s1))"

definition contains_root :: "string \<Rightarrow> root_store \<Rightarrow> string + bool" where
  "contains_root root s = Inr (list_ex (\<lambda>managed. mr_root managed = root) (rt_roots s))"

definition has_room :: "string \<Rightarrow> ManagedRoot \<Rightarrow> bool" where
  "has_room room_id root \<longleftrightarrow>
     mr_room_id root = Some room_id
     \<or> (mr_room_binding_status root = Detached \<and> mr_detached_room_id root = Some room_id)"

definition find_by_room :: "string \<Rightarrow> root_store \<Rightarrow> string + ManagedRoot option" where
  "find_by_room room_id s = Inr (find (has_room room_id) (rt_roots s))"

definition bind_room :: "int \<Rightarrow> string \<Rightarrow> string \<Rightarrow> ManagedRoot root_op" where
  "bind_room now root_id room_id s =
     (if trim room_id = [] then (Inl ''room binding id cannot be empty'', s)
      else if list_ex (\<lambda>root. mr_root_id root \<noteq> root_id \<and> mr_room_id root = Some room_id) (rt_roots s)
      then (Inl (''room is already bound to another managed root: '' @ room_id), s)
      else modify_and_persist root_id (\<lambda>root. root\<lparr>mr_room_id := Some room_id, mr_detached_room_id := None,
             mr_room_binding_status := Active, mr_updated_unix_ms := now\<rparr>) s)"

definition ensure_active_room_binding :: "int \<Rightarrow> string \<Rightarrow> string \<Rightarrow> ManagedRoot root_op" where
  "ensure_active_room_binding now root_id room_id s =
     (case get_root root_id s of
        Inl e \<Rightarrow> (Inl e, s)
      | Inr root \<Rightarrow>
          (case (mr_room_binding_status root, mr_room_id root) of
             (Active, Some bound_room) \<Rightarrow>
               if bound_room = room_id then (Inr root, s)
               else (Inl (''managed root belongs to a different room: root='' @ root_id @ '', expected='' @ bound_room
                          @ '', actual='' @ room_id), s)
           | (Unbound, None) \<Rightarrow> bind_room now root_id room_id s
           | (Detached, _) \<Rightarrow> (Inl (''managed root is detached from mobile access: '' @ root_id), s)
           | (_, Some bound_room) \<Rightarrow>
               (Inl (''managed root belongs to a different room: root='' @ root_id @ '', expected='' @ bound_room
                     @ '', actual='' @ room_id), s)
           | _ \<Rightarrow> (Inl (''managed root has an invalid room binding state: '' @ root_id), s)))"

definition detached :: "int \<Rightarrow> ManagedRoot \<Rightarrow> ManagedRoot" where
  "detached now root =
     root\<lparr>mr_detached_room_id := (case mr_room_id root of Some active \<Rightarrow> Some active | None \<Rightarrow> mr_detached_room_id root),
          mr_room_id := None, mr_room_binding_status := Detached, mr_updated_unix_ms := now\<rparr>"

definition detach_room :: "int \<Rightarrow> string \<Rightarrow> ManagedRoot option root_op" where
  "detach_room now room_id s =
     (case find (has_room room_id) (rt_roots s) of
        None \<Rightarrow> (Inr None, s)
      | Some root \<Rightarrow>
          (case persist (detached now root)
                  (s\<lparr>rt_roots := modify_root (mr_root_id root) (detached now) (rt_roots s)\<rparr>) of
             (Inl e, s1) \<Rightarrow> (Inl e, s1) | (Inr _, s1) \<Rightarrow> (Inr (Some (detached now root)), s1)))"

definition bound :: "ManagedRoot \<Rightarrow> bool" where
  "bound root \<longleftrightarrow> mr_room_id root \<noteq> None \<and> mr_room_binding_status root = Active"

fun persist_all :: "ManagedRoot list \<Rightarrow> unit root_op" where
  "persist_all [] s = (Inr (), s)"
| "persist_all (root # roots) s =
     (case persist root s of (Inl e, s1) \<Rightarrow> (Inl e, s1) | (Inr _, s1) \<Rightarrow> persist_all roots s1)"

definition detach_all_rooms :: "(string \<Rightarrow> int) \<Rightarrow> ManagedRoot list root_op" where
  "detach_all_rooms now s =
     (let detach = (\<lambda>root. detached (now (mr_root_id root)) root);
          updated = map detach (filter bound (rt_roots s))
      in case persist_all updated
                (s\<lparr>rt_roots := map (\<lambda>root. if bound root then detach root else root) (rt_roots s)\<rparr>) of
           (Inl e, s1) \<Rightarrow> (Inl e, s1) | (Inr _, s1) \<Rightarrow> (Inr updated, s1))"

section \<open>Sequences of calls\<close>

text \<open>\<open>Register\<close> is the only way the application calls \<^verbatim>\<open>upsert\<close>: with a new root.\<close>

datatype root_call =
  Register int string string string
| Patch int string ManagedRootStatePatch
| Health int string ManagedRootStatus "string option"
| Remove string
| Bind int string string
| Ensure int string string
| Detach_Room int string
| Detach_All "string \<Rightarrow> int"
| Reload

fun root_exec :: "root_call \<Rightarrow> root_store \<Rightarrow> root_store" where
  "root_exec (Register now i path name) s = snd (upsert (managed_root_new now i path name) s)"
| "root_exec (Patch now i patch) s = snd (update_root_state now i patch s)"
| "root_exec (Health now i status e) s = snd (update_health now i status e s)"
| "root_exec (Remove i) s = snd (remove_root i s)"
| "root_exec (Bind now i room) s = snd (bind_room now i room s)"
| "root_exec (Ensure now i room) s = snd (ensure_active_room_binding now i room s)"
| "root_exec (Detach_Room now room) s = snd (detach_room now room s)"
| "root_exec (Detach_All now) s = snd (detach_all_rooms now s)"
| "root_exec Reload s = snd (load_roots (st_pool (rt_db s)) s)"

section \<open>Folders do not overlap\<close>

definition apart :: "ManagedRoot \<Rightarrow> ManagedRoot \<Rightarrow> bool" where
  "apart a b \<longleftrightarrow> \<not> path_starts_with (mr_root a) (mr_root b) \<and> \<not> path_starts_with (mr_root b) (mr_root a)"

definition roots_ok :: "ManagedRoot list \<Rightarrow> bool" where
  "roots_ok roots \<longleftrightarrow>
     sorted_wrt (<) (map mr_root_id roots)
     \<and> (\<forall>a \<in> set roots. \<forall>b \<in> set roots. mr_root_id a \<noteq> mr_root_id b \<longrightarrow> apart a b)"

text \<open>A change that leaves a root where it is.\<close>

definition in_place :: "(ManagedRoot \<Rightarrow> ManagedRoot) \<Rightarrow> bool" where
  "in_place f \<longleftrightarrow> (\<forall>root. mr_root_id (f root) = mr_root_id root \<and> mr_root (f root) = mr_root root)"

lemma persist_roots [simp]: "rt_roots (snd (persist root s)) = rt_roots s"
  by (simp add: persist_def split: option.split prod.split)

lemma persist_frame: "persist root s = (out, s') \<Longrightarrow> rt_roots s' = rt_roots s"
  using persist_roots [of root s] by simp

lemma delete_persisted_roots [simp]: "rt_roots (snd (delete_persisted root_id s)) = rt_roots s"
  by (simp add: delete_persisted_def split: option.split prod.split)

lemma persist_all_roots [simp]: "rt_roots (snd (persist_all roots s)) = rt_roots s"
proof (induction roots arbitrary: s)
  case (Cons root roots)
  then show ?case by (auto split: prod.split sum.split dest: persist_frame)
qed simp

lemma modify_and_persist_roots:
  "rt_roots (snd (modify_and_persist root_id f s)) \<in> {rt_roots s, modify_root root_id f (rt_roots s)}"
  by (auto simp: modify_and_persist_def Let_def split: option.split prod.split sum.split dest!: persist_frame)

lemma ensure_not_overlapping_iff:
  "ensure_not_overlapping_iter roots candidate = Inr () \<longleftrightarrow>
     (\<forall>existing \<in> set roots. mr_root_id existing \<noteq> mr_root_id candidate \<longrightarrow> apart existing candidate)"
  by (induction roots candidate rule: ensure_not_overlapping_iter.induct)
    (auto simp: apart_def path_eq_def path_starts_with_def)

lemma set_bt_insert:
  "sorted_wrt (<) (map mr_root_id roots) \<Longrightarrow>
     set (bt_insert root roots) = insert root {other \<in> set roots. mr_root_id other \<noteq> mr_root_id root}"
  by (induction root roots rule: bt_insert.induct) auto

lemma sorted_bt_insert:
  "sorted_wrt (<) (map mr_root_id roots) \<Longrightarrow> sorted_wrt (<) (map mr_root_id (bt_insert root roots))"
  by (induction root roots rule: bt_insert.induct) (auto simp: set_bt_insert intro: less_trans)

lemma roots_ok_insert:
  assumes "roots_ok roots" "\<And>other. other \<in> set roots \<Longrightarrow> mr_root_id other \<noteq> mr_root_id root \<Longrightarrow> apart other root"
  shows "roots_ok (bt_insert root roots)"
proof -
  have "apart root other" if "other \<in> set roots" "mr_root_id other \<noteq> mr_root_id root" for other
    using assms(2) [OF that] by (simp add: apart_def)
  then show ?thesis using assms
    by (auto simp: roots_ok_def sorted_bt_insert set_bt_insert)
qed

lemma roots_ok_in_place:
  assumes "roots_ok roots" "\<And>root. mr_root_id (f root) = mr_root_id root \<and> mr_root (f root) = mr_root root"
  shows "roots_ok (map f roots)"
  using assms by (auto simp: roots_ok_def comp_def apart_def)

lemma roots_ok_modify: "roots_ok roots \<Longrightarrow> in_place f \<Longrightarrow> roots_ok (modify_root root_id f roots)"
  unfolding modify_root_def by (rule roots_ok_in_place) (auto simp: in_place_def)

lemma roots_ok_filter: "roots_ok roots \<Longrightarrow> roots_ok (filter P roots)"
  by (auto simp: roots_ok_def sorted_wrt_filter simp flip: filter_map dest!: sorted_wrt_map [THEN iffD1] intro!: sorted_wrt_map [THEN iffD2])

lemma in_place_simps [simp]:
  "in_place (apply_patch now patch)"
  "in_place (\<lambda>root. root\<lparr>mr_last_seen_status := st, mr_last_error := e, mr_updated_unix_ms := now\<rparr>)"
  "in_place (\<lambda>root. root\<lparr>mr_room_id := r, mr_detached_room_id := d, mr_room_binding_status := b, mr_updated_unix_ms := now\<rparr>)"
  "in_place (detached now)"
  by (simp_all add: in_place_def apply_patch_def detached_def)

lemma validate_overlaps_iff:
  "validate_overlaps_from before roots = Inr () \<longleftrightarrow>
     (\<forall>c \<in> set roots. \<forall>e \<in> set (before @ roots). mr_root_id e \<noteq> mr_root_id c \<longrightarrow> apart e c)"
proof (induction before roots rule: validate_overlaps_from.induct)
  case (2 before candidate roots)
  have "validate_overlaps_from before (candidate # roots) = Inr () \<longleftrightarrow>
      ensure_not_overlapping_iter (before @ roots) candidate = Inr ()
      \<and> validate_overlaps_from (before @ [candidate]) roots = Inr ()"
    by (auto simp: bind_res_def split: sum.split)
  then show ?case using 2 by (auto simp: ensure_not_overlapping_iff)
qed simp

lemma validate_no_overlaps_iff:
  "validate_no_overlaps roots = Inr () \<longleftrightarrow>
     (\<forall>a \<in> set roots. \<forall>b \<in> set roots. mr_root_id a \<noteq> mr_root_id b \<longrightarrow> apart a b)"
  by (auto simp: validate_no_overlaps_def validate_overlaps_iff)

lemma fold_bt_insert:
  assumes "sorted_wrt (<) (map mr_root_id acc)"
  shows "sorted_wrt (<) (map mr_root_id (fold bt_insert roots acc)) \<and> set (fold bt_insert roots acc) \<subseteq> set roots \<union> set acc"
  using assms
proof (induction roots arbitrary: acc)
  case (Cons root roots)
  from Cons.IH [OF sorted_bt_insert [OF Cons.prems]] set_bt_insert [OF Cons.prems] show ?case by fastforce
qed simp

lemma roots_ok_load: "validate_no_overlaps roots = Inr () \<Longrightarrow> roots_ok (fold bt_insert roots [])"
  using fold_bt_insert [of "[]" roots] by (fastforce simp: roots_ok_def validate_no_overlaps_iff)

lemma bind_room_roots:
  "rt_roots (snd (bind_room now i room s)) \<in> {rt_roots s, modify_root i (\<lambda>root. root\<lparr>mr_room_id := Some room,
     mr_detached_room_id := None, mr_room_binding_status := Active, mr_updated_unix_ms := now\<rparr>) (rt_roots s)}"
  using modify_and_persist_roots by (auto simp: bind_room_def)

lemma ensure_roots:
  "rt_roots (snd (ensure_active_room_binding now i room s)) \<in> {rt_roots s, rt_roots (snd (bind_room now i room s))}"
  by (auto simp: ensure_active_room_binding_def split: sum.split RoomBindingStatus.split option.split)

lemma detach_room_roots:
  "rt_roots (snd (detach_room now room s)) = rt_roots s \<or>
   (\<exists>root \<in> set (rt_roots s). has_room room root
      \<and> rt_roots (snd (detach_room now room s)) = modify_root (mr_root_id root) (detached now) (rt_roots s))"
proof (cases "find (has_room room) (rt_roots s)")
  case (Some root)
  then have "root \<in> set (rt_roots s) \<and> has_room room root" by (auto simp: find_Some_iff)
  then show ?thesis using Some
    by (auto simp: detach_room_def split: prod.split sum.split dest!: persist_frame)
qed (simp add: detach_room_def)

lemma detach_all_roots:
  "rt_roots (snd (detach_all_rooms now s))
     = map (\<lambda>root. if bound root then detached (now (mr_root_id root)) root else root) (rt_roots s)"
  using persist_all_roots by (auto simp: detach_all_rooms_def Let_def split: prod.split sum.split
    dest!: arg_cong [where f = "rt_roots \<circ> snd"])

lemma upsert_roots:
  "rt_roots (snd (upsert root s)) =
     (if ensure_not_overlapping_iter (rt_roots s) root = Inr () then bt_insert root (rt_roots s) else rt_roots s)"
  by (auto simp: upsert_def split: prod.split sum.split dest!: persist_frame)

lemma remove_roots:
  "rt_roots (snd (remove_root i s)) \<in> {rt_roots s, filter (\<lambda>root. mr_root_id root \<noteq> i) (rt_roots s)}"
  using delete_persisted_roots by (auto simp: remove_root_def split: prod.split sum.split
    dest!: arg_cong [where f = "rt_roots \<circ> snd"])

lemma load_roots_roots:
  "rt_roots (snd (load_roots disk s)) = rt_roots s
   \<or> (\<exists>loaded. validate_no_overlaps loaded = Inr () \<and> rt_roots (snd (load_roots disk s)) = fold bt_insert loaded [])"
  by (auto simp: load_roots_def Let_def split: prod.split sum.split)

lemmas root_ops = update_root_state_def update_health_def

lemma roots_ok_exec:
  assumes "roots_ok (rt_roots s)"
  shows "roots_ok (rt_roots (root_exec call s))"
proof (cases call)
  case (Register now i path name)
  then show ?thesis using assms
    by (auto simp: upsert_roots ensure_not_overlapping_iff intro!: roots_ok_insert)
next
  case (Patch now i patch)
  then show ?thesis using assms modify_and_persist_roots [of i "apply_patch now patch" s]
    by (auto simp: root_ops roots_ok_modify)
next
  case (Health now i status e)
  then show ?thesis
    using assms modify_and_persist_roots [of i "\<lambda>root. root\<lparr>mr_last_seen_status := status, mr_last_error := e, mr_updated_unix_ms := now\<rparr>" s]
    by (auto simp: root_ops roots_ok_modify)
next
  case (Remove i)
  then show ?thesis using assms remove_roots [of i s] by (auto simp: roots_ok_filter)
next
  case (Bind now i room)
  then show ?thesis using assms bind_room_roots [of now i room s] by (auto simp: roots_ok_modify)
next
  case (Ensure now i room)
  then show ?thesis using assms ensure_roots [of now i room s] bind_room_roots [of now i room s]
    by (auto simp: roots_ok_modify)
next
  case (Detach_Room now room)
  then show ?thesis using assms detach_room_roots [of now room s] by (auto simp: roots_ok_modify)
next
  case (Detach_All now)
  then show ?thesis using assms by (auto simp: detach_all_roots detached_def intro!: roots_ok_in_place)
next
  case Reload
  then show ?thesis using assms load_roots_roots [of "st_pool (rt_db s)" s] roots_ok_load by auto
qed

interpretation root_calls: store_invariant root_exec "\<lambda>_. True" "\<lambda>s. roots_ok (rt_roots s)"
  by unfold_locales (rule roots_ok_exec)

section \<open>Rooms\<close>

definition binding_ok :: "ManagedRoot \<Rightarrow> bool" where
  "binding_ok root \<longleftrightarrow> (mr_room_binding_status root = Active \<longleftrightarrow> mr_room_id root \<noteq> None)"

definition rooms_ok :: "ManagedRoot list \<Rightarrow> bool" where
  "rooms_ok roots \<longleftrightarrow>
     (\<forall>root \<in> set roots. binding_ok root)
     \<and> (\<forall>a \<in> set roots. \<forall>b \<in> set roots. \<forall>room.
          mr_room_id a = Some room \<and> mr_room_id b = Some room \<longrightarrow> mr_root_id a = mr_root_id b)"

lemma rooms_okI:
  assumes "\<And>root. root \<in> set roots \<Longrightarrow> binding_ok root"
    and "\<And>a b room. a \<in> set roots \<Longrightarrow> b \<in> set roots \<Longrightarrow> mr_room_id a = Some room \<Longrightarrow> mr_room_id b = Some room
           \<Longrightarrow> mr_root_id a = mr_root_id b"
  shows "rooms_ok roots"
  unfolding rooms_ok_def using assms by blast

lemma rooms_okD:
  assumes "rooms_ok roots"
  shows "root \<in> set roots \<Longrightarrow> binding_ok root"
    and "a \<in> set roots \<Longrightarrow> b \<in> set roots \<Longrightarrow> mr_room_id a = Some room \<Longrightarrow> mr_room_id b = Some room
           \<Longrightarrow> mr_root_id a = mr_root_id b"
  using assms unfolding rooms_ok_def by blast+

text \<open>A change that binds no room: it keeps the binding or gives it up.\<close>

lemma rooms_ok_map:
  assumes "rooms_ok roots" "\<And>root. mr_root_id (f root) = mr_root_id root"
    and "\<And>root. (mr_room_id (f root) = mr_room_id root \<and> mr_room_binding_status (f root) = mr_room_binding_status root)
                 \<or> (mr_room_id (f root) = None \<and> mr_room_binding_status (f root) = Detached)"
  shows "rooms_ok (map f roots)"
proof (rule rooms_okI)
  fix root assume "root \<in> set (map f roots)"
  then obtain r where r: "root = f r" "r \<in> set roots" by auto
  show "binding_ok root" using assms(3) [of r] rooms_okD(1) [OF assms(1) r(2)]
    unfolding r(1) binding_ok_def by (elim disjE conjE) simp_all
next
  fix a b room assume "a \<in> set (map f roots)" "b \<in> set (map f roots)" "mr_room_id a = Some room" "mr_room_id b = Some room"
  then obtain r q where rq: "a = f r" "b = f q" "r \<in> set roots" "q \<in> set roots"
      "mr_room_id (f r) = Some room" "mr_room_id (f q) = Some room" by auto
  have kept: "mr_room_id (f root) = Some room \<Longrightarrow> mr_room_id root = Some room" for root
    using assms(3) [of root] by (elim disjE conjE) simp_all
  from kept rq(5,6) have "mr_room_id r = Some room" "mr_room_id q = Some room" by blast+
  with rooms_okD(2) [OF assms(1) rq(3,4)] show "mr_root_id a = mr_root_id b" by (simp add: rq assms(2))
qed

lemma rooms_ok_modify:
  assumes "rooms_ok roots" "in_place f"
    and "\<And>root. (mr_room_id (f root) = mr_room_id root \<and> mr_room_binding_status (f root) = mr_room_binding_status root)
                 \<or> (mr_room_id (f root) = None \<and> mr_room_binding_status (f root) = Detached)"
  shows "rooms_ok (modify_root i f roots)"
  unfolding modify_root_def using assms by (intro rooms_ok_map) (auto simp: in_place_def)

lemma rooms_ok_bind:
  assumes "rooms_ok (rt_roots s)"
  shows "rooms_ok (rt_roots (snd (bind_room now i room s)))"
proof (cases "trim room = [] \<or> list_ex (\<lambda>root. mr_root_id root \<noteq> i \<and> mr_room_id root = Some room) (rt_roots s)")
  case True
  then show ?thesis using assms by (auto simp: bind_room_def)
next
  case False
  let ?f = "\<lambda>root. root\<lparr>mr_room_id := Some room, mr_detached_room_id := None, mr_room_binding_status := Active, mr_updated_unix_ms := now\<rparr>"
  have free: "mr_root_id root = i" if "root \<in> set (rt_roots s)" "mr_room_id root = Some room" for root
    using False that by (auto simp: list_ex_iff)
  let ?g = "\<lambda>root. if mr_root_id root = i then ?f root else root"
  have "rooms_ok (map ?g (rt_roots s))"
  proof (rule rooms_okI)
    fix root assume "root \<in> set (map ?g (rt_roots s))"
    then show "binding_ok root" using rooms_okD(1) [OF assms] by (auto simp: binding_ok_def)
  next
    fix a b r assume "a \<in> set (map ?g (rt_roots s))" "b \<in> set (map ?g (rt_roots s))" "mr_room_id a = Some r" "mr_room_id b = Some r"
    then obtain p q where pq: "a = ?g p" "b = ?g q" "p \<in> set (rt_roots s)" "q \<in> set (rt_roots s)"
        "mr_room_id (?g p) = Some r" "mr_room_id (?g q) = Some r" unfolding set_map by blast
    then show "mr_root_id a = mr_root_id b"
      using rooms_okD(2) [OF assms pq(3,4), of r] free [OF pq(3)] free [OF pq(4)]
      by (cases "mr_root_id p = i"; cases "mr_root_id q = i") simp_all
  qed
  then have "rooms_ok (modify_root i ?f (rt_roots s))" unfolding modify_root_def .
  moreover have "rt_roots (snd (bind_room now i room s)) \<in> {rt_roots s, modify_root i ?f (rt_roots s)}"
    by (rule bind_room_roots)
  ultimately show ?thesis using assms by (elim insertE) simp_all
qed

fun forgets :: "root_call \<Rightarrow> bool" where
  "forgets Reload = True"
| "forgets _ = False"

lemma rooms_ok_exec:
  assumes "rooms_ok (rt_roots s)" "roots_ok (rt_roots s)" "\<not> forgets call"
  shows "rooms_ok (rt_roots (root_exec call s))"
proof (cases call)
  case (Register now i path name)
  have sorted: "sorted_wrt (<) (map mr_root_id (rt_roots s))" using assms(2) by (simp add: roots_ok_def)
  have "rooms_ok (bt_insert (managed_root_new now i path name) (rt_roots s))"
  proof (rule rooms_okI)
    fix root assume "root \<in> set (bt_insert (managed_root_new now i path name) (rt_roots s))"
    then have "root = managed_root_new now i path name \<or> root \<in> set (rt_roots s)" by (auto simp: set_bt_insert [OF sorted])
    then show "binding_ok root" using rooms_okD(1) [OF assms(1)] by (auto simp: binding_ok_def managed_root_new_def)
  next
    fix a b room assume ab: "a \<in> set (bt_insert (managed_root_new now i path name) (rt_roots s))"
      "b \<in> set (bt_insert (managed_root_new now i path name) (rt_roots s))" "mr_room_id a = Some room" "mr_room_id b = Some room"
    have "mr_room_id (managed_root_new now i path name) = None" by (simp add: managed_root_new_def)
    with ab have "a \<in> set (rt_roots s)" "b \<in> set (rt_roots s)" by (auto simp: set_bt_insert [OF sorted])
    from rooms_okD(2) [OF assms(1) this] ab(3,4) show "mr_root_id a = mr_root_id b" by simp
  qed
  with assms(1) Register show ?thesis by (simp add: upsert_roots)
next
  case (Patch now i patch)
  have "rooms_ok (modify_root i (apply_patch now patch) (rt_roots s))"
    by (rule rooms_ok_modify [OF assms(1)]) (simp_all add: apply_patch_def)
  then show ?thesis using Patch assms(1) modify_and_persist_roots [of i "apply_patch now patch" s]
    by (auto simp: root_ops)
next
  case (Health now i status e)
  let ?f = "\<lambda>root. root\<lparr>mr_last_seen_status := status, mr_last_error := e, mr_updated_unix_ms := now\<rparr>"
  have "rooms_ok (modify_root i ?f (rt_roots s))" by (rule rooms_ok_modify [OF assms(1)]) simp_all
  then show ?thesis using Health assms(1) modify_and_persist_roots [of i ?f s] by (auto simp: root_ops)
next
  case (Remove i)
  have "rooms_ok (filter P (rt_roots s))" for P
    using rooms_okD [OF assms(1)] by (intro rooms_okI) (simp, metis filter_is_subset subsetD)
  then show ?thesis using Remove assms(1) remove_roots [of i s] by auto
next
  case (Bind now i room)
  then show ?thesis using rooms_ok_bind [OF assms(1)] by simp
next
  case (Ensure now i room)
  then show ?thesis using rooms_ok_bind [OF assms(1)] assms(1) ensure_roots [of now i room s] by auto
next
  case (Detach_Room now room)
  have "rooms_ok (modify_root i (detached now) (rt_roots s))" for i
    by (rule rooms_ok_modify [OF assms(1)]) (simp_all add: detached_def)
  then show ?thesis using Detach_Room assms(1) detach_room_roots [of now room s] by auto
next
  case (Detach_All now)
  have "rooms_ok (map (\<lambda>root. if bound root then detached (now (mr_root_id root)) root else root) (rt_roots s))"
    by (rule rooms_ok_map [OF assms(1)]) (simp_all add: detached_def)
  then show ?thesis using Detach_All by (simp add: detach_all_roots)
next
  case Reload
  then show ?thesis using assms(3) by simp
qed

interpretation room_calls: store_invariant root_exec "\<lambda>call. \<not> forgets call"
  "\<lambda>s. roots_ok (rt_roots s) \<and> rooms_ok (rt_roots s)"
  by unfold_locales (simp add: roots_ok_exec rooms_ok_exec)

section \<open>Detached folders\<close>

definition still_detached :: "string \<Rightarrow> root_store \<Rightarrow> bool" where
  "still_detached i s \<longleftrightarrow> (\<exists>root. lookup_root i (rt_roots s) = Some root \<and> mr_room_binding_status root = Detached)"

text \<open>The calls by which the user takes a folder up again: registering it, removing it, binding
  it to a room; and reading the table.\<close>

fun takes_up :: "string \<Rightarrow> root_call \<Rightarrow> bool" where
  "takes_up i (Register now j path name) = (i = j)"
| "takes_up i (Remove j) = (i = j)"
| "takes_up i (Bind now j room) = (i = j)"
| "takes_up i Reload = True"
| "takes_up i _ = False"

lemma lookup_modify:
  "in_place f \<Longrightarrow> lookup_root i (modify_root j f roots) = map_option (if i = j then f else (\<lambda>root. root)) (lookup_root i roots)"
  by (induction roots) (auto simp: lookup_root_def modify_root_def in_place_def)

lemma lookup_bt_insert: "mr_root_id root \<noteq> i \<Longrightarrow> lookup_root i (bt_insert root roots) = lookup_root i roots"
  by (induction root roots rule: bt_insert.induct) (auto simp: lookup_root_def)

lemma lookup_filter: "i \<noteq> j \<Longrightarrow> lookup_root i (filter (\<lambda>root. mr_root_id root \<noteq> j) roots) = lookup_root i roots"
  by (induction roots) (auto simp: lookup_root_def)

lemma lookup_map:
  "(\<And>root. mr_root_id (f root) = mr_root_id root) \<Longrightarrow> lookup_root i (map f roots) = map_option f (lookup_root i roots)"
  by (induction roots) (auto simp: lookup_root_def)

lemma still_detached_modify:
  assumes "still_detached i s" "in_place f" "rt_roots s' \<in> {rt_roots s, modify_root j f (rt_roots s)}"
    and "i = j \<Longrightarrow> \<forall>root. mr_room_binding_status root = Detached \<longrightarrow> mr_room_binding_status (f root) = Detached"
  shows "still_detached i s'"
  using assms by (auto simp: still_detached_def lookup_modify)

lemma ensure_detached:
  assumes "still_detached i s"
  shows "ensure_active_room_binding now i room s = (Inl (''managed root is detached from mobile access: '' @ i), s)"
  using assms by (auto simp: still_detached_def ensure_active_room_binding_def get_root_def split: option.split)

lemma still_detached_exec:
  assumes "\<not> takes_up i call" "still_detached i s"
  shows "still_detached i (root_exec call s)"
proof (cases call)
  case (Register now j path name)
  then show ?thesis using assms by (auto simp: still_detached_def upsert_roots lookup_bt_insert managed_root_new_def)
next
  case (Patch now j patch)
  then show ?thesis
    using still_detached_modify [OF assms(2) _ modify_and_persist_roots [of j "apply_patch now patch" s]]
    by (simp add: root_ops) (simp add: apply_patch_def)
next
  case (Health now j status e)
  then show ?thesis
    using still_detached_modify [OF assms(2) _ modify_and_persist_roots
      [of j "\<lambda>root. root\<lparr>mr_last_seen_status := status, mr_last_error := e, mr_updated_unix_ms := now\<rparr>" s]]
    by (simp add: root_ops)
next
  case (Remove j)
  then show ?thesis using assms remove_roots [of j s] by (auto simp: still_detached_def lookup_filter)
next
  case (Bind now j room)
  then show ?thesis using assms still_detached_modify [OF assms(2) _ bind_room_roots [of now j room s]] by simp
next
  case (Ensure now j room)
  show ?thesis
  proof (cases "i = j")
    case True
    then show ?thesis using Ensure ensure_detached [OF assms(2)] assms(2) by simp
  next
    case False
    then have "still_detached i (snd (bind_room now j room s))"
      using still_detached_modify [OF assms(2) _ bind_room_roots [of now j room s]] by simp
    then show ?thesis using Ensure assms(2) ensure_roots [of now j room s] by (auto simp: still_detached_def)
  qed
next
  case (Detach_Room now room)
  have "still_detached i (snd (detach_room now room s))"
    using detach_room_roots [of now room s]
    by (auto intro: still_detached_modify [OF assms(2), of "detached now"] simp: detached_def assms(2))
  then show ?thesis using Detach_Room by simp
next
  case (Detach_All now)
  obtain root where root: "lookup_root i (rt_roots s) = Some root" "mr_room_binding_status root = Detached"
    using assms(2) by (auto simp: still_detached_def)
  then have "lookup_root i (rt_roots (root_exec call s)) = Some root"
    using Detach_All by (simp add: detach_all_roots lookup_map detached_def bound_def)
  with root(2) show ?thesis by (simp add: still_detached_def)
qed (use assms in simp)

interpretation detached_calls: store_invariant root_exec "\<lambda>call. \<not> takes_up i call" "still_detached i" for i
  by unfold_locales (rule still_detached_exec)

section \<open>Memory and table\<close>

definition mirrors :: "root_row list \<Rightarrow> ManagedRoot set \<Rightarrow> bool" where
  "mirrors rows R \<longleftrightarrow> distinct (map rw_root_id rows) \<and> set rows = row_of_root ` R"

lemma status_roundtrip [simp]: "root_status_from_db_str (root_status_as_db_str st) = st"
  by (cases st) (simp_all add: root_status_from_db_str_def)

lemma binding_roundtrip [simp]: "binding_from_db_str (binding_as_db_str b) = b"
  by (cases b) (simp_all add: binding_from_db_str_def)

lemma root_of_row_of_root [simp]: "root_of_row (row_of_root root) = root"
  by (simp add: root_of_row_def row_of_root_def int_bool_def bool_int_def)

lemma row_of_root_simps [simp]:
  "rw_root_id (row_of_root root) = mr_root_id root" "rw_canonical_path (row_of_root root) = mr_root root"
  by (simp_all add: row_of_root_def)

lemma normalize_consistent: "binding_ok root \<Longrightarrow> normalize_detached (row_of_root root) = row_of_root root"
  by (cases "mr_room_binding_status root") (auto simp: normalize_detached_def row_of_root_def binding_ok_def)

lemma apart_paths: "apart a b \<Longrightarrow> mr_root a \<noteq> mr_root b"
  by (auto simp: apart_def)

lemma upsert_mirrors:
  assumes "mirrors rows R" "\<forall>other \<in> R. mr_root_id other \<noteq> mr_root_id root \<longrightarrow> apart other root"
  shows "\<exists>rows'. upsert_root (row_of_root root) rows = Inr rows'
    \<and> mirrors rows' (insert root {other \<in> R. mr_root_id other \<noteq> mr_root_id root})"
proof -
  have rows: "distinct (map rw_root_id rows)" "set rows = row_of_root ` R" using assms(1) by (simp_all add: mirrors_def)
  have free: "\<not> (\<exists>other \<in> set rows. rw_root_id other \<noteq> rw_root_id (row_of_root root)
      \<and> rw_canonical_path other = rw_canonical_path (row_of_root root))"
    using assms(2) apart_paths by (auto simp: rows(2))
  let ?new = "\<lambda>other. if rw_root_id other = mr_root_id root then row_of_root root else other"
  show ?thesis
  proof (cases "mr_root_id root \<in> rw_root_id ` set rows")
    case True
    have "map rw_root_id (map ?new rows) = map rw_root_id rows" by simp
    then have "distinct (map rw_root_id (map ?new rows))" using rows(1) by (simp only:)
    moreover have "set (map ?new rows) = row_of_root ` insert root {other \<in> R. mr_root_id other \<noteq> mr_root_id root}"
      using True by (auto simp: rows(2) image_iff)
    ultimately have "mirrors (map ?new rows) (insert root {other \<in> R. mr_root_id other \<noteq> mr_root_id root})"
      unfolding mirrors_def by blast
    moreover have "upsert_root (row_of_root root) rows = Inr (map ?new rows)"
      using True free by (simp add: upsert_root_def)
    ultimately show ?thesis by blast
  next
    case False
    then have "mr_root_id other \<noteq> mr_root_id root" if "other \<in> R" for other
      using that by (metis imageI row_of_root_simps(1) rows(2))
    then have "{other \<in> R. mr_root_id other \<noteq> mr_root_id root} = R" by blast
    then show ?thesis using False free rows by (auto simp: upsert_root_def mirrors_def)
  qed
qed

abbreviation (input) healthy :: "ManagedRoot list \<Rightarrow> root_row list \<Rightarrow> root_store" where
  "healthy roots rows \<equiv> \<lparr>rt_roots = roots, rt_db = opened_store rows\<rparr>"

lemma persist_healthy:
  assumes "mirrors rows R" "\<forall>other \<in> R. mr_root_id other \<noteq> mr_root_id root \<longrightarrow> apart other root"
  shows "\<exists>rows'. persist root (healthy roots rows) = (Inr (), healthy roots rows')
    \<and> mirrors rows' (insert root {other \<in> R. mr_root_id other \<noteq> mr_root_id root})"
  using upsert_mirrors [OF assms] by (auto simp: persist_def execute_checked_def opened_store_def)

lemma persist_all_healthy:
  assumes "mirrors rows R" "distinct (map mr_root_id updated)"
    and "\<forall>a \<in> R \<union> set updated. \<forall>b \<in> R \<union> set updated. mr_root_id a \<noteq> mr_root_id b \<longrightarrow> apart a b"
  shows "\<exists>rows'. persist_all updated (healthy roots rows) = (Inr (), healthy roots rows')
    \<and> mirrors rows' (set updated \<union> {other \<in> R. mr_root_id other \<notin> mr_root_id ` set updated})"
  using assms
proof (induction updated arbitrary: rows R)
  case (Cons root updated)
  let ?R = "insert root {other \<in> R. mr_root_id other \<noteq> mr_root_id root}"
  have "\<forall>other \<in> R. mr_root_id other \<noteq> mr_root_id root \<longrightarrow> apart other root" using Cons.prems(3) by simp
  from persist_healthy [OF Cons.prems(1) this] obtain rows1 where
    one: "persist root (healthy roots rows) = (Inr (), healthy roots rows1)" "mirrors rows1 ?R" by blast
  have "\<forall>a \<in> ?R \<union> set updated. \<forall>b \<in> ?R \<union> set updated. mr_root_id a \<noteq> mr_root_id b \<longrightarrow> apart a b"
    using Cons.prems(3) by auto
  from Cons.IH [OF one(2) _ this] Cons.prems(2) obtain rows' where
    rest: "persist_all updated (healthy roots rows1) = (Inr (), healthy roots rows')"
      "mirrors rows' (set updated \<union> {other \<in> ?R. mr_root_id other \<notin> mr_root_id ` set updated})" by auto
  have "set updated \<union> {other \<in> ?R. mr_root_id other \<notin> mr_root_id ` set updated}
      = set (root # updated) \<union> {other \<in> R. mr_root_id other \<notin> mr_root_id ` set (root # updated)}"
    using Cons.prems(2) by auto
  with one(1) rest show ?case by (intro exI [of _ rows']) simp
qed auto

lemma roots_ok_ids:
  assumes "roots_ok roots"
  shows "distinct (map mr_root_id roots)" "a \<in> set roots \<Longrightarrow> b \<in> set roots \<Longrightarrow> mr_root_id a = mr_root_id b \<Longrightarrow> a = b"
proof -
  show ids: "distinct (map mr_root_id roots)" using assms by (simp add: roots_ok_def strict_sorted_iff)
  show "a = b" if "a \<in> set roots" "b \<in> set roots" "mr_root_id a = mr_root_id b"
    using ids that by (auto simp: distinct_map inj_on_def)
qed

lemma lookup_root_Some:
  "lookup_root i roots = Some root \<Longrightarrow> root \<in> set roots \<and> mr_root_id root = i"
  by (auto simp: lookup_root_def find_Some_iff)

lemma set_modify_root:
  assumes "roots_ok roots" "root \<in> set roots" "in_place f"
  shows "set (modify_root (mr_root_id root) f roots)
    = insert (f root) {other \<in> set roots. mr_root_id other \<noteq> mr_root_id (f root)}"
proof -
  have "mr_root_id (f root) = mr_root_id root" using assms(3) by (simp add: in_place_def)
  moreover have "other = root" if "other \<in> set roots" "mr_root_id other = mr_root_id root" for other
    using roots_ok_ids(2) [OF assms(1) that(1) assms(2) that(2)] .
  ultimately show ?thesis using assms(2) unfolding modify_root_def by auto
qed

text \<open>With a working database, the table mirrors the memory.\<close>

definition in_step :: "root_store \<Rightarrow> bool" where
  "in_step s \<longleftrightarrow> (\<exists>roots rows. s = healthy roots rows \<and> roots_ok roots \<and> rooms_ok roots \<and> mirrors rows (set roots))"

lemma apart_in_place: "in_place f \<Longrightarrow> apart a (f b) \<longleftrightarrow> apart a b"
  by (simp add: apart_def in_place_def)

lemma persist_modified:
  assumes "roots_ok roots" "mirrors rows (set roots)" "root \<in> set roots" "in_place f"
  shows "\<exists>rows'. persist (f root) (healthy (modify_root (mr_root_id root) f roots) rows)
      = (Inr (), healthy (modify_root (mr_root_id root) f roots) rows')
    \<and> mirrors rows' (set (modify_root (mr_root_id root) f roots))"
proof -
  have "\<forall>other \<in> set roots. mr_root_id other \<noteq> mr_root_id (f root) \<longrightarrow> apart other (f root)"
    using assms(1,3,4) by (simp add: apart_in_place roots_ok_def) (simp add: in_place_def)
  from persist_healthy [OF assms(2) this] show ?thesis unfolding set_modify_root [OF assms(1,3,4)] .
qed

lemma in_step_modify:
  assumes "roots_ok roots" "rooms_ok (modify_root i f roots)" "rooms_ok roots" "mirrors rows (set roots)" "in_place f"
  shows "in_step (snd (modify_and_persist i f (healthy roots rows)))"
proof (cases "lookup_root i roots")
  case None
  then show ?thesis using assms unfolding in_step_def modify_and_persist_def by auto
next
  case (Some root)
  then have root: "root \<in> set roots" "i = mr_root_id root" using lookup_root_Some by blast+
  obtain rows' where "persist (f root) (healthy (modify_root i f roots) rows) = (Inr (), healthy (modify_root i f roots) rows')"
      "mirrors rows' (set (modify_root i f roots))"
    using persist_modified [OF assms(1,4) root(1) assms(5)] root(2) by blast
  then show ?thesis using Some assms(1,2,5) unfolding in_step_def
    by (intro exI [of _ "modify_root i f roots"] exI [of _ rows']) (simp add: modify_and_persist_def roots_ok_modify)
qed

lemma in_stepI: "roots_ok roots \<Longrightarrow> rooms_ok roots \<Longrightarrow> mirrors rows (set roots) \<Longrightarrow> in_step (healthy roots rows)"
  unfolding in_step_def by blast

lemma in_step_bind:
  assumes "roots_ok roots" "rooms_ok roots" "mirrors rows (set roots)"
  shows "in_step (snd (bind_room now i room (healthy roots rows)))"
proof -
  let ?f = "\<lambda>root. root\<lparr>mr_room_id := Some room, mr_detached_room_id := None, mr_room_binding_status := Active, mr_updated_unix_ms := now\<rparr>"
  let ?s = "healthy roots rows"
  show ?thesis
  proof (cases "trim room = [] \<or> list_ex (\<lambda>root. mr_root_id root \<noteq> i \<and> mr_room_id root = Some room) roots")
    case True
    then have "snd (bind_room now i room ?s) = ?s" by (auto simp: bind_room_def)
    then show ?thesis using in_stepI [OF assms] by simp
  next
    case False
    then have bind: "bind_room now i room ?s = modify_and_persist i ?f ?s" by (simp add: bind_room_def)
    show ?thesis
    proof (cases "lookup_root i roots")
      case None
      then show ?thesis using in_stepI [OF assms] unfolding bind by (simp add: modify_and_persist_def)
    next
      case (Some root)
      then have "rt_roots (snd (modify_and_persist i ?f ?s)) = modify_root i ?f roots"
        by (auto simp: modify_and_persist_def Let_def split: prod.split sum.split dest!: persist_frame)
      then have "rooms_ok (modify_root i ?f roots)" using rooms_ok_bind [of ?s now i room] assms(2) bind by simp
      then show ?thesis unfolding bind by (intro in_step_modify assms) simp_all
    qed
  qed
qed

lemma in_step_detach_all:
  assumes "roots_ok roots" "rooms_ok roots" "mirrors rows (set roots)"
  shows "in_step (snd (detach_all_rooms now (healthy roots rows)))"
proof -
  let ?d = "\<lambda>root. detached (now (mr_root_id root)) root"
  let ?g = "\<lambda>root. if bound root then ?d root else root"
  let ?updated = "map ?d (filter bound roots)"
  have ids: "mr_root_id (?d root) = mr_root_id root" "mr_root (?d root) = mr_root root" for root
    by (simp_all add: detached_def)
  have "distinct (map mr_root_id ?updated)"
    using distinct_map_filter [OF roots_ok_ids(1) [OF assms(1)], of bound] by (simp add: comp_def ids)
  moreover have "\<forall>a \<in> set roots \<union> set ?updated. \<forall>b \<in> set roots \<union> set ?updated. mr_root_id a \<noteq> mr_root_id b \<longrightarrow> apart a b"
    using assms(1) by (auto simp: roots_ok_def ids apart_def)
  ultimately obtain rows' where
    run: "persist_all ?updated (healthy (map ?g roots) rows) = (Inr (), healthy (map ?g roots) rows')"
      "mirrors rows' (set ?updated \<union> {other \<in> set roots. mr_root_id other \<notin> mr_root_id ` set ?updated})"
    using persist_all_healthy [OF assms(3)] by blast
  have "{other \<in> set roots. mr_root_id other \<notin> mr_root_id ` set ?updated} = {other \<in> set roots. \<not> bound other}"
    using roots_ok_ids(2) [OF assms(1)] by (force simp: image_image ids)
  then have "set ?updated \<union> {other \<in> set roots. mr_root_id other \<notin> mr_root_id ` set ?updated} = set (map ?g roots)"
    by auto
  moreover have "roots_ok (map ?g roots)" by (rule roots_ok_in_place [OF assms(1)]) (simp add: ids)
  moreover have "rooms_ok (map ?g roots)" by (rule rooms_ok_map [OF assms(2)]) (simp_all add: detached_def)
  ultimately show ?thesis using run by (simp add: detach_all_rooms_def in_stepI)
qed

lemma in_step_register:
  assumes "roots_ok roots" "rooms_ok roots" "mirrors rows (set roots)"
  shows "in_step (root_exec (Register now i path name) (healthy roots rows))"
proof -
  let ?new = "managed_root_new now i path name"
  let ?s = "healthy roots rows"
  have ok: "rooms_ok (rt_roots (root_exec (Register now i path name) ?s))" "roots_ok (rt_roots (root_exec (Register now i path name) ?s))"
    using rooms_ok_exec [of ?s "Register now i path name"] roots_ok_exec [of ?s "Register now i path name"] assms(1,2)
    by simp_all
  show ?thesis
  proof (cases "ensure_not_overlapping_iter roots ?new")
    case (Inl e)
    then show ?thesis using in_stepI [OF assms] by (simp add: upsert_def)
  next
    case (Inr u)
    have sorted: "sorted_wrt (<) (map mr_root_id roots)" using assms(1) by (simp add: roots_ok_def)
    have "\<forall>other \<in> set roots. mr_root_id other \<noteq> mr_root_id ?new \<longrightarrow> apart other ?new"
      using Inr ensure_not_overlapping_iff by simp
    from persist_healthy [OF assms(3) this, of "bt_insert ?new roots"] obtain rows' where
      run: "persist ?new (healthy (bt_insert ?new roots) rows) = (Inr (), healthy (bt_insert ?new roots) rows')"
        "mirrors rows' (set (bt_insert ?new roots))" by (auto simp: set_bt_insert [OF sorted])
    then have "root_exec (Register now i path name) ?s = healthy (bt_insert ?new roots) rows'"
      using Inr by (simp add: upsert_def)
    then show ?thesis using ok run(2) by (simp add: in_stepI)
  qed
qed

lemma in_step_remove:
  assumes "roots_ok roots" "rooms_ok roots" "mirrors rows (set roots)"
  shows "in_step (snd (remove_root i (healthy roots rows)))"
proof (cases "lookup_root i roots")
  case None
  then show ?thesis using in_stepI [OF assms] by (simp add: remove_root_def)
next
  case (Some root)
  let ?roots = "filter (\<lambda>root. mr_root_id root \<noteq> i) roots"
  let ?rows = "filter (\<lambda>row. rw_root_id row \<noteq> i) rows"
  have "distinct (map rw_root_id ?rows)" using assms(3) by (auto simp: mirrors_def intro: distinct_map_filter)
  then have "mirrors ?rows (set ?roots)" using assms(3) by (auto simp: mirrors_def)
  moreover have "rooms_ok ?roots" using rooms_okD [OF assms(2)] by (intro rooms_okI) (simp, metis filter_is_subset subsetD)
  moreover have "snd (remove_root i (healthy roots rows)) = healthy ?roots ?rows"
    using Some by (simp add: remove_root_def delete_persisted_def)
  ultimately show ?thesis using roots_ok_filter [OF assms(1)] by (simp add: in_stepI)
qed

lemma in_step_detach:
  assumes "roots_ok roots" "rooms_ok roots" "mirrors rows (set roots)"
  shows "in_step (snd (detach_room now room (healthy roots rows)))"
proof (cases "find (has_room room) roots")
  case None
  then show ?thesis using in_stepI [OF assms] by (simp add: detach_room_def)
next
  case (Some root)
  then have root: "root \<in> set roots" by (auto simp: find_Some_iff)
  let ?roots = "modify_root (mr_root_id root) (detached now) roots"
  obtain rows' where "persist (detached now root) (healthy ?roots rows) = (Inr (), healthy ?roots rows')" "mirrors rows' (set ?roots)"
    using persist_modified [OF assms(1,3) root] in_place_simps(4) by blast
  moreover have "rooms_ok ?roots" by (rule rooms_ok_modify [OF assms(2)]) (simp_all add: detached_def)
  moreover have "roots_ok ?roots" by (rule roots_ok_modify [OF assms(1)]) simp
  ultimately show ?thesis using Some by (simp add: detach_room_def in_stepI)
qed

lemma in_step_ensure:
  assumes "in_step s" "in_step (snd (bind_room now i room s))"
  shows "in_step (snd (ensure_active_room_binding now i room s))"
  using assms by (auto simp: ensure_active_room_binding_def split: sum.split RoomBindingStatus.split option.split)

lemma in_step_exec:
  assumes "\<not> forgets call" "in_step s"
  shows "in_step (root_exec call s)"
proof -
  obtain roots rows where s: "s = healthy roots rows" and ok: "roots_ok roots" "rooms_ok roots" "mirrors rows (set roots)"
    using assms(2) unfolding in_step_def by blast
  show ?thesis
  proof (cases call)
    case (Patch now i patch)
    have "rooms_ok (modify_root i (apply_patch now patch) roots)"
      by (rule rooms_ok_modify [OF ok(2)]) (simp_all add: apply_patch_def)
    then show ?thesis using Patch ok by (simp add: s root_ops in_step_modify)
  next
    case (Health now i status e)
    have "rooms_ok (modify_root i (\<lambda>root. root\<lparr>mr_last_seen_status := status, mr_last_error := e, mr_updated_unix_ms := now\<rparr>) roots)"
      by (rule rooms_ok_modify [OF ok(2)]) simp_all
    then show ?thesis using Health ok by (simp add: s root_ops in_step_modify)
  next
    case (Ensure now i room)
    then show ?thesis using in_step_ensure [OF assms(2)] in_step_bind [OF ok] by (simp add: s)
  qed (use assms(1) ok in \<open>simp_all add: s in_step_register [simplified] in_step_remove in_step_bind in_step_detach in_step_detach_all\<close>)
qed

interpretation mirrored_calls: store_invariant root_exec "\<lambda>call. \<not> forgets call" in_step
  by unfold_locales (rule in_step_exec)

lemma set_fold_bt_insert:
  assumes "sorted_wrt (<) (map mr_root_id acc)" "distinct (map mr_root_id roots)" "mr_root_id ` set roots \<inter> mr_root_id ` set acc = {}"
  shows "set (fold bt_insert roots acc) = set roots \<union> set acc"
  using assms
proof (induction roots arbitrary: acc)
  case (Cons root roots)
  have acc: "set (bt_insert root acc) = insert root (set acc)"
  proof -
    have "mr_root_id other \<noteq> mr_root_id root" if "other \<in> set acc" for other
      using Cons.prems(3) that by (metis IntI empty_iff image_eqI list.set_intros(1))
    then have "{other \<in> set acc. mr_root_id other \<noteq> mr_root_id root} = set acc" by blast
    then show ?thesis by (simp add: set_bt_insert [OF Cons.prems(1)])
  qed
  have "mr_root_id ` set roots \<inter> mr_root_id ` set (bt_insert root acc) = {}"
    using Cons.prems(2,3) unfolding acc by auto
  from Cons.IH [OF sorted_bt_insert [OF Cons.prems(1)] _ this] Cons.prems(2) show ?case by (simp add: acc)
qed simp

lemma sorted_roots_unique:
  assumes "roots_ok xs" "roots_ok ys" "set xs = set ys"
  shows "xs = ys"
proof -
  have "set (map mr_root_id xs) = set (map mr_root_id ys)" by (simp add: assms(3))
  then have "map mr_root_id xs = map mr_root_id ys"
    using assms(1,2) by (metis roots_ok_def strict_sorted_equal)
  moreover have "inj_on mr_root_id (set xs \<union> set ys)" using roots_ok_ids(1) [OF assms(1)] by (simp add: assms(3) distinct_map)
  ultimately show ?thesis by (simp add: inj_on_map_eq_map)
qed

lemma load_in_step:
  assumes "roots_ok roots" "rooms_ok roots" "mirrors rows (set roots)"
  shows "load_roots (Some rows) \<lparr>rt_roots = [], rt_db = unopened []\<rparr> = (Inr (), healthy roots rows)"
proof -
  have rows: "distinct (map rw_root_id rows)" "set rows = row_of_root ` set roots"
    using assms(3) by (simp_all add: mirrors_def)
  have norm: "map normalize_detached rows = rows"
    using rooms_okD(1) [OF assms(2)] by (intro map_idI) (auto simp: rows(2) normalize_consistent)
  let ?loaded = "map root_of_row rows"
  have loaded: "set ?loaded = set roots" by (simp add: rows(2) image_image)
  then have valid: "validate_no_overlaps ?loaded = Inr ()"
    using assms(1) by (auto simp: validate_no_overlaps_iff roots_ok_def)
  have ids: "map mr_root_id ?loaded = map rw_root_id rows" by (simp add: root_of_row_def comp_def)
  have "set (fold bt_insert ?loaded []) = set ?loaded"
    using set_fold_bt_insert [of "[]" ?loaded] rows(1) unfolding ids by simp
  then have "fold bt_insert ?loaded [] = roots"
    using sorted_roots_unique [OF roots_ok_load [OF valid] assms(1)] loaded by simp
  then show ?thesis using valid by (simp add: load_roots_def norm unopened_def execute_sql_def opened_store_def)
qed

section \<open>Properties\<close>

text \<open>C20: A file belongs to at most one managed folder. Start from an empty registry, and make any
  sequence of the registry's calls, registering, rebinding, removing and reloading the table in any order, with any of
  the writes failing: no two registered folders ever contain the same path, so an
  operation on one folder cannot be an operation on another.
\<close>

theorem roots_never_overlap:
  assumes "s = fold root_exec calls \<lparr>rt_roots = [], rt_db = db\<rparr>"
    and "a \<in> set (rt_roots s)" "b \<in> set (rt_roots s)"
    and "path_starts_with path (mr_root a)" "path_starts_with path (mr_root b)"
  shows "a = b"
proof -
  have ok: "roots_ok (rt_roots s)"
    unfolding assms(1) by (rule root_calls.run_inv) (simp_all add: list_all_iff roots_ok_def)
  have "\<not> apart a b"
    using assms(4,5) unfolding apart_def path_starts_with_def by (metis prefix_same_cases)
  then have "mr_root_id a = mr_root_id b" using ok assms(2,3) by (auto simp: roots_ok_def)
  then show ?thesis by (rule roots_ok_ids(2) [OF ok assms(2,3)])
qed

definition two_roots :: "root_call list" where
  "two_roots = [Register 1 ''a'' ''/u/b'' ''b'', Register 2 ''b'' ''/u'' ''u'', Register 3 ''c'' ''/u/p'' ''p'',
     Bind 4 ''a'' ''r'', Bind 5 ''c'' ''r'']"

definition empty_registry :: root_store where
  "empty_registry = \<lparr>rt_roots = [], rt_db = opened_store []\<rparr>"

definition sample_roots :: "ManagedRoot list" where
  "sample_roots = [(managed_root_new 1 ''a'' ''/u/b'' ''b'')\<lparr>mr_room_id := Some ''r'', mr_room_binding_status := Active,
     mr_updated_unix_ms := 4\<rparr>, managed_root_new 3 ''c'' ''/u/p'' ''p'']"

lemma sample_paths:
  "components ''/u'' = [RootDir, Normal ''u'']" "components ''/u/b'' = [RootDir, Normal ''u'', Normal ''b'']"
  "components ''/u/p'' = [RootDir, Normal ''u'', Normal ''p'']"
  "components ''/u/b/x'' = [RootDir, Normal ''u'', Normal ''b'', Normal ''x'']" "trim ''r'' \<noteq> []" "''a'' < (''c'' :: string)"
  by code_simp+

lemma two_roots_value: "fold root_exec two_roots empty_registry = \<lparr>rt_roots = sample_roots, rt_db = opened_store (map row_of_root sample_roots)\<rparr>"
  by (simp add: two_roots_def empty_registry_def sample_roots_def upsert_def managed_root_new_def persist_def execute_checked_def
      upsert_root_def opened_store_def bind_room_def modify_and_persist_def [abs_def] lookup_root_def modify_root_def
      path_eq_def path_starts_with_def sample_paths less_not_sym row_of_root_def bool_int_def Let_def)

lemma sample_head:
  "hd sample_roots \<in> set sample_roots" "mr_root_id (hd sample_roots) = ''a''" "mr_root (hd sample_roots) = ''/u/b''"
  "mr_room_id (hd sample_roots) = Some ''r''"
  by (simp_all add: sample_roots_def managed_root_new_def)

theorem roots_never_overlap_witness:
  "hd sample_roots \<in> set (rt_roots (fold root_exec two_roots empty_registry)) \<and>
   last sample_roots \<in> set (rt_roots (fold root_exec two_roots empty_registry)) \<and>
   path_starts_with ''/u/b/x'' (mr_root (hd sample_roots)) \<and> \<not> path_starts_with ''/u/b/x'' (mr_root (last sample_roots))"
proof -
  have inside: "path_starts_with ''/u/b/x'' (mr_root (hd sample_roots))"
    by (simp add: sample_head path_starts_with_def sample_paths)
  have mem: "hd sample_roots \<in> set (rt_roots (fold root_exec two_roots empty_registry))"
    "last sample_roots \<in> set (rt_roots (fold root_exec two_roots empty_registry))"
    by (simp_all add: two_roots_value sample_head) (simp add: sample_roots_def)
  have "hd sample_roots \<noteq> last sample_roots" by (simp add: sample_roots_def managed_root_new_def)
  with roots_never_overlap [OF refl mem [unfolded empty_registry_def] inside] inside mem show ?thesis by blast
qed

text \<open>
  A room has at most one folder. After any sequence of calls that does not read the table
  again, failing writes included, a folder is \<^verbatim>\<open>active\<close> exactly when it is bound to a room, and no room
  is bound to two folders.
\<close>

theorem rooms_bound_once:
  assumes "s = fold root_exec calls \<lparr>rt_roots = [], rt_db = db\<rparr>" "list_all (\<lambda>call. \<not> forgets call) calls"
    and "a \<in> set (rt_roots s)" "b \<in> set (rt_roots s)" "mr_room_id a = Some room" "mr_room_id b = Some room"
  shows "a = b \<and> mr_room_binding_status a = Active"
proof -
  have ok: "roots_ok (rt_roots s) \<and> rooms_ok (rt_roots s)"
    unfolding assms(1) by (rule room_calls.run_inv [OF assms(2)]) (simp add: roots_ok_def rooms_ok_def)
  then have "mr_root_id a = mr_root_id b" using rooms_okD(2) assms(3-6) by blast
  then have "a = b" using roots_ok_ids(2) ok assms(3,4) by blast
  moreover have "binding_ok a" using rooms_okD(1) ok assms(3) by blast
  ultimately show ?thesis using assms(5) by (simp add: binding_ok_def)
qed

theorem rooms_bound_once_witness:
  "\<exists>a \<in> set (rt_roots (fold root_exec two_roots empty_registry)). mr_room_id a = Some ''r'' \<and> mr_room_binding_status a = Active"
proof -
  have a: "hd sample_roots \<in> set (rt_roots (fold root_exec two_roots empty_registry))" by (simp add: two_roots_value sample_head)
  have "list_all (\<lambda>call. \<not> forgets call) two_roots" by (simp add: two_roots_def)
  from rooms_bound_once [OF refl this a [unfolded empty_registry_def] a [unfolded empty_registry_def] sample_head(4) sample_head(4)]
  show ?thesis using a sample_head(4) by blast
qed

text \<open>C26: A detached folder is out of reach of the server while the desktop runs. Once a folder is detached in memory, no
  sequence of calls other than a reload of the table brings its binding back, whatever the server asks for and
  whichever writes fail, unless the user takes the folder up again by registering it, removing it or binding it to a room; until then
  every check of an incoming command's room against the folder is refused. A restart reads the table again and is
  not covered: when the write of the detachment had failed, the folder is bound again after it (\<open>failed_detach_returns\<close>
  below).\<close>

theorem detached_stays_detached:
  assumes "lookup_root i (rt_roots s) = Some root" "mr_room_binding_status root = Detached"
    and "list_all (\<lambda>call. \<not> takes_up i call) calls"
  shows "\<exists>later. lookup_root i (rt_roots (fold root_exec calls s)) = Some later \<and> mr_room_binding_status later = Detached
     \<and> ensure_active_room_binding now i room (fold root_exec calls s)
         = (Inl (''managed root is detached from mobile access: '' @ i), fold root_exec calls s)"
proof -
  have "still_detached i (fold root_exec calls s)"
    by (rule detached_calls.run_inv [OF assms(3)]) (use assms(1,2) in \<open>simp add: still_detached_def\<close>)
  then show ?thesis using ensure_detached by (auto simp: still_detached_def)
qed

theorem detached_stays_detached_witness:
  "fst (ensure_active_room_binding 9 ''a'' ''r'' (fold root_exec [Ensure 7 ''a'' ''r'', Ensure 8 ''a'' ''q'']
     \<lparr>rt_roots = map (detached 6) sample_roots, rt_db = opened_store []\<rparr>))
   = Inl ''managed root is detached from mobile access: a''"
proof -
  let ?s = "\<lparr>rt_roots = map (detached 6) sample_roots, rt_db = opened_store []\<rparr>"
  have "lookup_root ''a'' (rt_roots ?s) = Some (detached 6 (hd sample_roots))" "mr_room_binding_status (detached 6 (hd sample_roots)) = Detached"
    by (simp_all add: lookup_root_def sample_roots_def detached_def managed_root_new_def)
  from detached_stays_detached [OF this, of "[Ensure 7 ''a'' ''r'', Ensure 8 ''a'' ''q'']" 9 "''r''"]
  show ?thesis by auto
qed

text \<open>Registrations survive a restart. With a working database, after any sequence of calls, a fresh
  process that opens the database has exactly the folders that were registered, with their
  bindings and settings.
\<close>

theorem roots_survive_restart:
  assumes "s = fold root_exec calls \<lparr>rt_roots = [], rt_db = opened_store []\<rparr>" "list_all (\<lambda>call. \<not> forgets call) calls"
  shows "\<exists>rows s'. st_pool (rt_db s) = Some rows
     \<and> load_roots (Some rows) \<lparr>rt_roots = [], rt_db = unopened []\<rparr> = (Inr (), s') \<and> rt_roots s' = rt_roots s"
proof -
  have "in_step s"
    unfolding assms(1) by (rule mirrored_calls.run_inv [OF assms(2)])
      (intro in_stepI; simp add: roots_ok_def rooms_ok_def mirrors_def)
  then obtain roots rows where "s = healthy roots rows" "roots_ok roots" "rooms_ok roots" "mirrors rows (set roots)"
    unfolding in_step_def by blast
  with load_in_step show ?thesis by (intro exI [of _ rows] exI [of _ s]) simp
qed

theorem roots_survive_restart_witness:
  "load_roots (Some (map row_of_root sample_roots)) \<lparr>rt_roots = [], rt_db = unopened []\<rparr>
     = (Inr (), fold root_exec two_roots empty_registry)"
proof -
  have "list_all (\<lambda>call. \<not> forgets call) two_roots" by (simp add: two_roots_def)
  from roots_survive_restart [OF refl this] obtain s' where
    "load_roots (Some (map row_of_root sample_roots)) \<lparr>rt_roots = [], rt_db = unopened []\<rparr> = (Inr (), s')"
    "rt_roots s' = sample_roots"
    unfolding empty_registry_def [symmetric] two_roots_value by auto
  moreover have "map normalize_detached (map row_of_root sample_roots) = map row_of_root sample_roots"
    by (simp add: sample_roots_def managed_root_new_def normalize_detached_def row_of_root_def)
  ultimately show ?thesis unfolding two_roots_value
    by (auto simp: load_roots_def Let_def unopened_def execute_sql_def opened_store_def split: sum.splits)
qed

text \<open>The memory is changed before the row is written: a detachment whose write fails is reported as
  an error and in force, but undone by the next restart.\<close>

lemma failed_detach_returns:
  "let s1 = snd (detach_room 6 ''r'' \<lparr>rt_roots = sample_roots, rt_db = \<lparr>st_pool = Some (map row_of_root sample_roots), st_faults = [Some ''full'']\<rparr>\<rparr>);
       s2 = snd (load_roots (st_pool (rt_db s1)) \<lparr>rt_roots = [], rt_db = unopened []\<rparr>)
   in map mr_room_binding_status (rt_roots s1) = [Detached, Unbound] \<and> map mr_room_binding_status (rt_roots s2) = [Active, Unbound]"
  by code_simp

text \<open>Registering a folder again replaces its entry, so that a detachment is forgotten and the next
  command of any room is accepted.\<close>

lemma reregistered_root_is_adopted:
  "map mr_room_binding_status (rt_roots (fold root_exec [Register 7 ''a'' ''/u/b'' ''b'', Ensure 8 ''a'' ''r'']
     \<lparr>rt_roots = map (detached 6) sample_roots, rt_db = opened_store []\<rparr>)) = [Active, Detached]"
  by code_simp

end
