(* ===== verification/Json_Codec.thy ===== *)
theory Json_Codec
  imports Codec Desktop
begin

text \<open>JSON values in the text format of the codec combinators: a printer and a parser that undoes it.
  The parser's fuel bounds the nesting; the length of the text is enough.\<close>

fun put_json :: "json printer" where
  "put_json JNull = put_nat 0"
| "put_json (JBool b) = put_nat (if b then 2 else 1)"
| "put_json (JNumber n) = put_nat 3 @ put_pair put_nat put_nat (if n < 0 then 1 else 0, nat \<bar>n\<bar>)"
| "put_json (JDecimal s) = put_nat 4 @ put_string s"
| "put_json (JString s) = put_nat 5 @ put_string s"
| "put_json (JArray xs) = put_nat 6 @ put_nat (length xs) @ concat (map put_json xs)"
| "put_json (JObject ms) = put_nat 7 @ put_nat (length ms) @ concat (map (\<lambda>(k, x). put_string k @ put_json x) ms)"

fun get_json :: "nat \<Rightarrow> json parser" where
  "get_json 0 t = None"
| "get_json (Suc k) t =
     (case get_nat t of
        None \<Rightarrow> None
      | Some (tag, rest) \<Rightarrow>
          if tag = 0 then Some (JNull, rest)
          else if tag \<le> 2 then Some (JBool (tag = 2), rest)
          else if tag = 3
          then get_map (\<lambda>(sign, n). JNumber (if sign = 0 then int n else - int n)) (get_pair get_nat get_nat) rest
          else if tag = 4 then get_map JDecimal get_string rest
          else if tag = 5 then get_map JString get_string rest
          else if tag = 6 then get_map JArray (get_list (get_json k)) rest
          else get_map JObject (get_list (get_pair get_string (get_json k))) rest)"

fun json_depth :: "json \<Rightarrow> nat" where
  "json_depth (JArray xs) = Suc (fold max (map json_depth xs) 0)"
| "json_depth (JObject ms) = Suc (fold max (map (\<lambda>(k, x). json_depth x) ms) 0)"
| "json_depth _ = 1"

definition reads_back :: "'a parser \<Rightarrow> 'a printer \<Rightarrow> 'a \<Rightarrow> bool" where
  "reads_back g p x \<longleftrightarrow> (\<forall>rest. g (p x @ rest) = Some (x, rest))"

lemma codec_reads_back: "codec p g \<longleftrightarrow> (\<forall>x. reads_back g p x)"
  by (auto simp: codec_def reads_back_def)

lemma list_reads_back:
  assumes "\<forall>x \<in> set xs. reads_back g p x"
  shows "get_list g (put_nat (length xs) @ concat (map p xs) @ rest) = Some (xs, rest)"
proof -
  have "get_times g (length xs) (concat (map p xs) @ rest) = Some (xs, rest)"
    using assms by (induction xs) (simp_all add: reads_back_def)
  then show ?thesis using codec_nat by (simp add: get_list_def codec_def)
qed

lemma pair_reads_back:
  "reads_back g p x \<Longrightarrow> reads_back h q y \<Longrightarrow> reads_back (get_pair g h) (put_pair p q) (x, y)"
  by (simp add: reads_back_def get_pair_def put_pair_def)

lemma fold_max_iff: "fold max (ns :: nat list) m \<le> k \<longleftrightarrow> m \<le> k \<and> (\<forall>n \<in> set ns. n \<le> k)"
  by (induction ns arbitrary: m) auto

lemma get_put_json: "json_depth x \<le> k \<Longrightarrow> reads_back (get_json k) put_json x"
proof (induction x arbitrary: k)
  case (JArray xs)
  then obtain j where k: "k = Suc j" by (cases k) auto
  with JArray have "\<forall>x \<in> set xs. reads_back (get_json j) put_json x" by (auto simp: fold_max_iff)
  then show ?case
    using list_reads_back [of xs "get_json j" put_json] codec_nat
    by (simp add: k reads_back_def codec_def get_map_def)
next
  case (JObject ms)
  then obtain j where k: "k = Suc j" by (cases k) auto
  have "reads_back (get_json j) put_json (snd m)" if m: "m \<in> set ms" for m
  proof (rule JObject.IH [OF m])
    show "snd m \<in> Basic_BNFs.snds m" by (cases m) simp
    show "json_depth (snd m) \<le> j" using JObject.prems m by (auto simp: k fold_max_iff split_beta)
  qed
  then have "\<forall>m \<in> set ms. reads_back (get_pair get_string (get_json j)) (put_pair put_string put_json) m"
    using codec_string pair_reads_back [of get_string put_string _ "get_json j" put_json]
    by (auto simp: codec_reads_back)
  moreover have "put_pair put_string put_json = (\<lambda>(k, x). put_string k @ put_json x)"
    by (auto simp: put_pair_def)
  ultimately show ?case using codec_nat list_reads_back [of ms]
    by (simp add: k reads_back_def codec_def get_map_def)
next
  case (JNumber n)
  then obtain j where "k = Suc j" by (cases k) auto
  then show ?case using codec_nat codec_pair [OF codec_nat codec_nat]
    by (simp add: reads_back_def codec_def get_map_def)
next
  case (JBool b)
  then obtain j where "k = Suc j" by (cases k) auto
  then show ?case using codec_nat by (simp add: reads_back_def codec_def)
qed (use codec_nat codec_string in \<open>(case_tac k; simp add: reads_back_def codec_def get_map_def)+\<close>)

lemma json_depth_le: "json_depth x \<le> length (put_json x)"
proof (induction x)
  case (JArray xs)
  have "json_depth x \<le> length (concat (map put_json xs))" if "x \<in> set xs" for x
    using JArray [OF that] that member_le_sum_list [of "length (put_json x)" "map (length \<circ> put_json) xs"]
    by (force simp: length_concat comp_def)
  then have "fold max (map json_depth xs) 0 \<le> length (concat (map put_json xs))" by (simp add: fold_max_iff)
  then show ?case by (simp add: put_nat_def)
next
  case (JObject ms)
  have "json_depth (snd m) \<le> length (concat (map (\<lambda>(k, x). put_string k @ put_json x) ms))" if m: "m \<in> set ms" for m
  proof -
    have "json_depth (snd m) \<le> length (put_json (snd m))" by (rule JObject [OF m]) (cases m; simp)
    also have "\<dots> \<le> length ((\<lambda>(k, x). put_string k @ put_json x) m)" by (simp add: split_beta)
    also have "\<dots> \<le> sum_list (map (\<lambda>m. length ((\<lambda>(k, x). put_string k @ put_json x) m)) ms)"
      using m by (intro member_le_sum_list) auto
    finally show ?thesis by (simp add: length_concat comp_def)
  qed
  then have "fold max (map (\<lambda>(k, x). json_depth x) ms) 0
      \<le> length (concat (map (\<lambda>(k, x). put_string k @ put_json x) ms))" by (auto simp: fold_max_iff)
  then show ?case by (simp add: put_nat_def)
qed (simp_all add: put_nat_def)

definition get_json_text :: "json parser" where
  "get_json_text t = get_json (length t) t"

lemma codec_json [intro]: "codec put_json get_json_text"
  using get_put_json le_trans [OF json_depth_le]
  by (auto simp: codec_def reads_back_def get_json_text_def)

end
