(* ===== verification/Execution_Processor.thy ===== *)
theory Execution_Processor
  imports Execute Delivery Managed_Roots Json_Codec
begin

text \<open>
  Delegated execution (\<^verbatim>\<open>execution_processor.rs\<close>): a decision the server recorded as approved is claimed,
  its items are turned into local proposals, the file engine carries them out in the managed root of the
  decision's room, and the result is queued in the outbox.

  This is where the desktop's parts meet, so its state holds all of them: the connection, the registered
  roots, the outbox and the file tree. Decisions are processed one after the other and nothing else
  runs in between.

  Shown here: files change only for a claimed execution, in an enabled root that is actively bound to
  the decision's room; a claimed execution has its terminal result queued when the outbox works, with the status
  its outcome deserves, and what happens when it does not; a round of decisions loses no file.
\<close>

section \<open>State and parameters\<close>

record 'n station =
  sn_agent :: "'n agent"
  sn_roots :: root_store
  sn_outbox :: outbox_store
  sn_world :: world

text \<open>The codecs of the exchanged texts, and the two clock readings of a decision: when its root is bound
  and when its result is queued.\<close>

record delegation =
  dg_wire :: wire
  dg_pending :: "string \<Rightarrow> PendingDecisionResponse list option"
  dg_rooms :: "string \<Rightarrow> ServerRoom list option"
  dg_trash_json :: "TrashMetadata \<Rightarrow> string + string"
  dg_bound_at :: "string \<Rightarrow> int"
  dg_queued_at :: "string \<Rightarrow> int"

type_synonym ('n, 'a) station_op = "'n station \<Rightarrow> (string + 'a) \<times> 'n station"

datatype DecisionProcessingStatus = Completed | Failed

record DecisionProcessingResult =
  dp_decision_id :: string
  dp_proposal_id :: string
  dp_status :: DecisionProcessingStatus
  dp_message :: "string option"
  dp_executed_item_count :: nat
  dp_skipped_item_count :: nat

record DecisionProcessingReport =
  dq_inspected_count :: nat
  dq_processed_count :: nat
  dq_executed_item_count :: nat
  dq_skipped_item_count :: nat
  dq_failed_count :: nat
  dq_results :: "DecisionProcessingResult list"

section \<open>From items to proposals\<close>

definition precondition_snapshot :: "json \<Rightarrow> nat \<times> nat option \<times> string option" where
  "precondition_snapshot value =
     (case Option.bind (json_get ''sourceSizeBytes'' value) json_as_u64 of None \<Rightarrow> 0 | Some n \<Rightarrow> n,
      Option.bind (json_get ''sourceModifiedUnixMs'' value) json_as_u64,
      case Option.bind (json_get ''sourceFileId'' value) json_as_str of
        None \<Rightarrow> None | Some file_id \<Rightarrow> if file_id = [] then None else Some file_id)"

definition readme_write_content :: "json \<Rightarrow> string + string" where
  "readme_write_content value =
     (case Option.bind (case json_get ''content'' value of
                          Some v \<Rightarrow> Some v | None \<Rightarrow> json_get ''readmeContent'' value) json_as_str of
        None \<Rightarrow> Inl ''README_WRITE precondition is missing approved content''
      | Some content \<Rightarrow>
          if length content > 200000 then Inl ''README_WRITE content exceeds 200000 bytes'' else Inr content)"

definition item_action :: "string \<Rightarrow> string + ProposalAction" where
  "item_action action_type =
     (if action_type = ''MOVE'' then Inr ProposalAction.Move
      else if action_type = ''QUARANTINE'' then Inr ProposalAction.Trash
      else if action_type = ''CREATE_DIR'' then Inr ProposalAction.CreateDir
      else if action_type = ''CREATE_FILE'' then Inr ProposalAction.CreateFile
      else if action_type = ''README_WRITE'' then Inr ProposalAction.ReadmeWrite
      else Inl (''delegated action type '' @ action_type @ '' is not supported yet''))"

definition dec_int :: "int \<Rightarrow> string" where
  "dec_int n = (if n < 0 then ''-'' @ dec (nat (- n)) else dec (nat n))"

definition required_path :: "AgentProposalItemRecord \<Rightarrow> string \<Rightarrow> string option \<Rightarrow> string + string" where
  "required_path item what path =
     (case path of
        Some p \<Rightarrow> Inr p
      | None \<Rightarrow> Inl (''proposal item '' @ dec_int (ar_item_order item) @ '' is missing a '' @ what @ '' path''))"

fun item_from :: "ProposalAction \<Rightarrow> AgentProposalItemRecord \<Rightarrow> string + string" where
  "item_from ProposalAction.Move item = required_path item ''source'' (ar_source_relative_path item)"
| "item_from ProposalAction.Trash item = required_path item ''source'' (ar_source_relative_path item)"
| "item_from ProposalAction.ReadmeWrite item = Inr ''README.md''"
| "item_from _ item = Inr []"

fun item_to :: "ProposalAction \<Rightarrow> AgentProposalItemRecord \<Rightarrow> string + string" where
  "item_to ProposalAction.Trash item = Inr TRASH_DIR"
| "item_to ProposalAction.ReadmeWrite item = Inr ''README.md''"
| "item_to _ item = required_path item ''destination'' (ar_destination_relative_path item)"

definition item_status :: "string \<Rightarrow> string + ProposalStatus" where
  "item_status conflict_state =
     (if conflict_state = ''NONE'' then Inr ProposalStatus.Ready
      else if conflict_state = ''NAME_CONFLICT'' then Inr ProposalStatus.DestinationExists
      else Inl (''delegated conflict state '' @ conflict_state @ '' is not supported yet''))"

definition local_proposal_from_item :: "AgentProposalItemRecord \<Rightarrow> string + Proposal" where
  "local_proposal_from_item item =
     bind_res (item_action (ar_action_type item)) (\<lambda>action.
     bind_res (item_from action item) (\<lambda>from.
     bind_res (item_to action item) (\<lambda>to.
     bind_res (item_status (ar_conflict_state item)) (\<lambda>status.
       let (source_size_bytes, source_modified_unix_ms, source_file_id) = precondition_snapshot (ar_precondition item)
       in bind_res (if action = ProposalAction.ReadmeWrite
                    then map_sum id Some (readme_write_content (ar_precondition item)) else Inr None) (\<lambda>content.
            Inr \<lparr>p_proposal_id = proposal_id action from to, p_action = action, p_from = from, p_to = to,
                 p_content = content, p_source_size_bytes = source_size_bytes,
                 p_source_modified_unix_ms = source_modified_unix_ms, p_source_file_id = source_file_id,
                 p_reason = ar_reason_code item, p_status = status\<rparr>)))))"

text \<open>\<^verbatim>\<open>sort_by_key\<close> is stable, as \<^const>\<open>sort_key\<close> is.\<close>

definition build_local_proposal_report ::
    "world \<Rightarrow> string \<Rightarrow> AgentProposalItemRecord list \<Rightarrow> string + ProposalReport" where
  "build_local_proposal_report w root items =
     (if items = [] then Inl ''approved proposal has no items''
      else bind_res (map_err path_guard_error_to_string (guard_new w root)) (\<lambda>guard.
           bind_res (collect_results (map local_proposal_from_item (sort_key ar_item_order items))) (\<lambda>proposals.
             Inr \<lparr>pr_root = guard_root guard, pr_proposals = proposals\<rparr>)))"

section \<open>The execution\<close>

text \<open>\<^verbatim>\<open>serde_json::to_value\<close> of a report; it cannot fail for these types.\<close>

fun execute_status_as_str :: "ExecuteStatus \<Rightarrow> string" where
  "execute_status_as_str ExecuteStatus.Executed = ''executed''"
| "execute_status_as_str ExecuteStatus.Skipped = ''skipped''"
| "execute_status_as_str ExecuteStatus.Rejected = ''rejected''"

definition execute_result_json :: "ExecuteResult \<Rightarrow> json" where
  "execute_result_json r =
     JObject [(''action'', JString (proposal_action_as_str (er_action r))), (''from'', JString (er_from r)),
       (''to'', JString (er_to r)), (''status'', JString (execute_status_as_str (er_status r))),
       (''reason'', json_of_option JString (er_reason r))]"

definition execute_report_json :: "ExecuteReport \<Rightarrow> json" where
  "execute_report_json r =
     JObject [(''root'', JString (ex_root r)), (''journal_path'', JString (ex_journal_path r)),
       (''executed_count'', JNumber (int (ex_executed_count r))),
       (''skipped_count'', JNumber (int (ex_skipped_count r))),
       (''rejected_count'', JNumber (int (ex_rejected_count r))),
       (''results'', JArray (map execute_result_json (ex_results r)))]"

definition summarize_execution :: "ExecuteReport \<Rightarrow> string \<times> json" where
  "summarize_execution report =
     (let all_count = ex_executed_count report + ex_skipped_count report + ex_rejected_count report;
          status = (if all_count > 0 \<and> ex_executed_count report = all_count then ''SUCCEEDED''
                    else if ex_executed_count report > 0 then ''PARTIALLY_SUCCEEDED''
                    else ''STALE'')
      in (status, execute_report_json report))"

definition execute_approved_decision ::
    "'n agent_env \<Rightarrow> delegation \<Rightarrow> AgentPendingDecision \<Rightarrow> ('n, ExecuteReport) station_op" where
  "execute_approved_decision env dg decision s =
     (case root_id_for_room env (dg_rooms dg) (pe_room_id decision) (sn_agent s) of
        (Inl e, a) \<Rightarrow> (Inl (agent_error_to_string e), s\<lparr>sn_agent := a\<rparr>)
      | (Inr room, a) \<Rightarrow>
          (case ensure_active_room_binding (dg_bound_at dg (pe_decision_id decision)) (rs_root_id room)
                  (pe_room_id decision) (sn_roots s) of
             (Inl e, roots) \<Rightarrow> (Inl e, s\<lparr>sn_agent := a, sn_roots := roots\<rparr>)
           | (Inr managed_root, roots) \<Rightarrow>
               (let s1 = s\<lparr>sn_agent := a, sn_roots := roots\<rparr>
                in if \<not> mr_enabled managed_root
                   then (Inl (''managed root is disabled: '' @ mr_root_id managed_root), s1)
                   else case build_local_proposal_report (sn_world s) (mr_root managed_root) (pe_items decision) of
                          Inl e \<Rightarrow> (Inl e, s1)
                        | Inr local_report \<Rightarrow>
                            (case execute_decision_application (dg_trash_json dg) (mr_root managed_root)
                                    \<lparr>da_approved = local_report, da_rejected = []\<rparr> (sn_world s) of
                               (out, w) \<Rightarrow> (map_err execute_error_to_string out, s1\<lparr>sn_world := w\<rparr>)))))"

definition queue_result ::
    "delegation \<Rightarrow> AgentPendingDecision \<Rightarrow> string \<Rightarrow> string \<Rightarrow> json \<Rightarrow> ('n, unit) station_op" where
  "queue_result dg decision execution_id status summary s =
     (case enqueue_execution_result (dg_wire dg) (dg_queued_at dg (pe_decision_id decision)) execution_id status
             summary (sn_outbox s) of
        (out, outbox) \<Rightarrow> (out, s\<lparr>sn_outbox := outbox\<rparr>))"

definition process_decision ::
    "'n agent_env \<Rightarrow> delegation \<Rightarrow> AgentPendingDecision \<Rightarrow> ('n, ExecuteReport) station_op" where
  "process_decision env dg decision s =
     (case create_execution env (res_execution (dg_wire dg)) (pe_proposal_id decision) (pe_decision_id decision)
             (sn_agent s) of
        (Inl e, a) \<Rightarrow> (Inl (agent_error_to_string e), s\<lparr>sn_agent := a\<rparr>)
      | (Inr execution, a) \<Rightarrow>
          (case execute_approved_decision env dg decision (s\<lparr>sn_agent := a\<rparr>) of
             (Inr report, s1) \<Rightarrow>
               (let (status, summary) = summarize_execution report
                in case queue_result dg decision (ex_execution_id execution) status summary s1 of
                     (Inl e, s2) \<Rightarrow> (Inl e, s2) | (Inr _, s2) \<Rightarrow> (Inr report, s2))
           | (Inl error, s1) \<Rightarrow>
               (case queue_result dg decision (ex_execution_id execution) ''FAILED''
                       (JObject [(''reason'', JString error)]) s1 of
                  (Inl e, s2) \<Rightarrow> (Inl e, s2) | (Inr _, s2) \<Rightarrow> (Inl error, s2))))"

definition report_decision ::
    "AgentPendingDecision \<Rightarrow> string + ExecuteReport \<Rightarrow> DecisionProcessingReport \<Rightarrow> DecisionProcessingReport" where
  "report_decision decision out report =
     (case out of
        Inr r \<Rightarrow> report\<lparr>dq_processed_count := dq_processed_count report + 1,
                   dq_executed_item_count := dq_executed_item_count report + ex_executed_count r,
                   dq_skipped_item_count := dq_skipped_item_count report + ex_skipped_count r,
                   dq_results := dq_results report @
                     [\<lparr>dp_decision_id = pe_decision_id decision, dp_proposal_id = pe_proposal_id decision,
                       dp_status = Completed, dp_message = None, dp_executed_item_count = ex_executed_count r,
                       dp_skipped_item_count = ex_skipped_count r\<rparr>]\<rparr>
      | Inl e \<Rightarrow> report\<lparr>dq_failed_count := dq_failed_count report + 1,
                   dq_results := dq_results report @
                     [\<lparr>dp_decision_id = pe_decision_id decision, dp_proposal_id = pe_proposal_id decision,
                       dp_status = Failed, dp_message = Some e, dp_executed_item_count = 0,
                       dp_skipped_item_count = 0\<rparr>]\<rparr>)"

fun process_decisions ::
    "'n agent_env \<Rightarrow> delegation \<Rightarrow> AgentPendingDecision list \<Rightarrow> DecisionProcessingReport \<Rightarrow> 'n station
       \<Rightarrow> DecisionProcessingReport \<times> 'n station" where
  "process_decisions env dg [] report s = (report, s)"
| "process_decisions env dg (decision # decisions) report s =
     (case process_decision env dg decision s of
        (out, s1) \<Rightarrow> process_decisions env dg decisions (report_decision decision out report) s1)"

definition started_report :: "nat \<Rightarrow> DecisionProcessingReport" where
  "started_report inspected_count =
     \<lparr>dq_inspected_count = inspected_count, dq_processed_count = 0, dq_executed_item_count = 0,
      dq_skipped_item_count = 0, dq_failed_count = 0, dq_results = []\<rparr>"

definition process_pending_decisions ::
    "'n agent_env \<Rightarrow> delegation \<Rightarrow> ('n, DecisionProcessingReport) station_op" where
  "process_pending_decisions env dg s =
     (case pending_decisions env (dg_pending dg) (sn_agent s) of
        (Inl e, a) \<Rightarrow> (Inl (agent_error_to_string e), s\<lparr>sn_agent := a\<rparr>)
      | (Inr decisions, a) \<Rightarrow>
          (case process_decisions env dg decisions (started_report (length decisions)) (s\<lparr>sn_agent := a\<rparr>) of
             (report, s1) \<Rightarrow> (Inr report, s1)))"

section \<open>Which files may change\<close>

text \<open>The root a room's work is done in: registered before, not detached, and now bound to the room.\<close>

definition opened_to :: "string \<Rightarrow> root_store \<Rightarrow> ManagedRoot \<Rightarrow> root_store \<Rightarrow> bool" where
  "opened_to room s root s' \<longleftrightarrow>
     root \<in> set (rt_roots s') \<and> mr_room_binding_status root = Active \<and> mr_room_id root = Some room
     \<and> (\<exists>before \<in> set (rt_roots s). mr_root_id before = mr_root_id root \<and> mr_root before = mr_root root
           \<and> mr_enabled before = mr_enabled root \<and> mr_room_binding_status before \<noteq> Detached)"

lemma modify_root_in: "root \<in> set roots \<Longrightarrow> f root \<in> set (modify_root (mr_root_id root) f roots)"
  by (force simp: modify_root_def)

lemma bind_room_ok:
  assumes "bind_room now i room s = (Inr root, s')"
  obtains before where "before \<in> set (rt_roots s)" "mr_root_id before = i" "root \<in> set (rt_roots s')"
    "root = before\<lparr>mr_room_id := Some room, mr_detached_room_id := None, mr_room_binding_status := Active,
       mr_updated_unix_ms := now\<rparr>" "lookup_root i (rt_roots s) = Some before"
  using assms modify_root_in lookup_root_Some
  by (fastforce simp: bind_room_def modify_and_persist_def Let_def split: if_splits option.splits prod.splits sum.splits
      dest!: persist_frame)

lemma ensure_active_opened:
  assumes "ensure_active_room_binding now i room s = (Inr root, s')"
  shows "opened_to room s root s' \<and> mr_root_id root = i"
proof -
  obtain before where before: "lookup_root i (rt_roots s) = Some before" "before \<in> set (rt_roots s)" "mr_root_id before = i"
    using assms lookup_root_Some by (fastforce simp: ensure_active_room_binding_def get_root_def split: option.splits sum.splits)
  show ?thesis
  proof (cases "mr_room_binding_status before = Active")
    case True
    then show ?thesis using assms before
      by (auto simp: ensure_active_room_binding_def get_root_def opened_to_def split: option.splits if_splits)
  next
    case False
    then have "bind_room now i room s = (Inr root, s')" "mr_room_binding_status before \<noteq> Detached"
      using assms before
      by (auto simp: ensure_active_room_binding_def get_root_def split: option.splits RoomBindingStatus.splits)
    then show ?thesis using before by (elim bind_room_ok) (auto simp: opened_to_def)
  qed
qed

lemma execute_approved_cases [consumes 1, case_names Untouched Ran]:
  assumes "execute_approved_decision env dg d s = (out, s')"
  obtains e where "out = Inl e" "sn_world s' = sn_world s" "sn_outbox s' = sn_outbox s"
  | root report res where "opened_to (pe_room_id d) (sn_roots s) root (sn_roots s')" "mr_enabled root"
      "build_local_proposal_report (sn_world s) (mr_root root) (pe_items d) = Inr report"
      "execute_decision_application (dg_trash_json dg) (mr_root root) \<lparr>da_approved = report, da_rejected = []\<rparr> (sn_world s)
         = (res, sn_world s')"
      "out = map_err execute_error_to_string res" "sn_outbox s' = sn_outbox s"
  using assms
  by (auto simp: execute_approved_decision_def Let_def dest!: ensure_active_opened
      split: prod.splits sum.splits if_splits)

lemma queue_result_frame:
  "queue_result dg d i status summary s = (out, s') \<Longrightarrow>
     sn_world s' = sn_world s \<and> sn_roots s' = sn_roots s \<and> sn_agent s' = sn_agent s"
  by (auto simp: queue_result_def split: prod.splits)

lemma process_decision_cases [consumes 1, case_names Unclaimed Claimed]:
  assumes "process_decision env dg d s = (out, s')"
  obtains e a where "create_execution env (res_execution (dg_wire dg)) (pe_proposal_id d) (pe_decision_id d) (sn_agent s) = (Inl e, a)"
      "s' = s\<lparr>sn_agent := a\<rparr>" "out = Inl (agent_error_to_string e)"
  | execution a out1 s1 where
      "create_execution env (res_execution (dg_wire dg)) (pe_proposal_id d) (pe_decision_id d) (sn_agent s) = (Inr execution, a)"
      "execute_approved_decision env dg d (s\<lparr>sn_agent := a\<rparr>) = (out1, s1)"
      "sn_world s' = sn_world s1" "sn_roots s' = sn_roots s1"
  using assms
  by (auto simp: process_decision_def split: prod.splits sum.splits dest!: queue_result_frame)

section \<open>What the local proposals are\<close>

lemma item_action_readme:
  "item_action t = Inr ProposalAction.ReadmeWrite \<longleftrightarrow> t = ''README_WRITE''"
  by (auto simp: item_action_def)

lemma local_proposal_action:
  "local_proposal_from_item item = Inr p \<Longrightarrow> item_action (ar_action_type item) = Inr (p_action p)"
  by (cases "precondition_snapshot (ar_precondition item)")
    (auto simp: local_proposal_from_item_def bind_res_Inr_iff)

lemma local_report_items:
  assumes "build_local_proposal_report w root items = Inr report"
  shows "items \<noteq> []" "length (pr_proposals report) = length items"
    "\<forall>p \<in> set (pr_proposals report). \<exists>item \<in> set items. local_proposal_from_item item = Inr p"
proof -
  obtain ps where "items \<noteq> []" and ps: "collect_results (map local_proposal_from_item (sort_key ar_item_order items)) = Inr ps"
    and "pr_proposals report = ps"
    using assms by (auto simp: build_local_proposal_report_def bind_res_Inr_iff split: if_splits)
  then show "items \<noteq> []" "length (pr_proposals report) = length items"
    using collect_results_length [OF ps] by simp_all
  have "local_proposal_from_item (sort_key ar_item_order items ! i) = Inr (ps ! i)" if "i < length ps" for i
    using collect_results_nth [OF ps] collect_results_length [OF ps] that by simp
  moreover have "sort_key ar_item_order items ! i \<in> set items" if "i < length ps" for i
    using nth_mem [of i "sort_key ar_item_order items"] collect_results_length [OF ps] that by simp
  ultimately show "\<forall>p \<in> set (pr_proposals report). \<exists>item \<in> set items. local_proposal_from_item item = Inr p"
    using \<open>pr_proposals report = ps\<close> by (fastforce simp: in_set_conv_nth)
qed

definition writes_readme :: "AgentPendingDecision \<Rightarrow> bool" where
  "writes_readme d \<longleftrightarrow> list_ex (\<lambda>item. ar_action_type item = ''README_WRITE'') (pe_items d)"

lemma local_report_no_readme:
  assumes "build_local_proposal_report w root (pe_items d) = Inr report" "\<not> writes_readme d"
  shows "\<forall>p \<in> set (pr_proposals report). p_action p \<noteq> ProposalAction.ReadmeWrite"
  using local_report_items(3) [OF assms(1)] assms(2) local_proposal_action item_action_readme
  by (fastforce simp: writes_readme_def list_ex_iff)

text \<open>A decision's effect on the tree is that of the file engine's run.\<close>

lemma process_decision_frames:
  assumes run: "process_decision env dg d s = (out, s')" and "\<not> writes_readme d"
  shows "audited (sn_world s) (sn_world s') \<and> no_file_lost (sn_world s) (sn_world s')"
  using run
proof (cases rule: process_decision_cases)
  case (Claimed execution a out1 s1)
  show ?thesis using Claimed(2)
  proof (cases rule: execute_approved_cases)
    case (Ran root report res)
    have "audited (sn_world (s\<lparr>sn_agent := a\<rparr>)) (sn_world s1) \<and> no_file_lost (sn_world (s\<lparr>sn_agent := a\<rparr>)) (sn_world s1)"
      by (rule application_frames [OF Ran(4)])
        (use local_report_no_readme [OF Ran(3) assms(2)] in simp)
    then show ?thesis using Claimed(3) by simp
  qed (use Claimed(3) in \<open>simp add: audited.refl files.refl\<close>)
qed (simp add: audited.refl files.refl)

lemma process_decisions_frames:
  assumes "process_decisions env dg ds report s = (report', s')" "list_all (\<lambda>d. \<not> writes_readme d) ds"
  shows "audited (sn_world s) (sn_world s') \<and> no_file_lost (sn_world s) (sn_world s')"
  using assms
proof (induction ds arbitrary: report s)
  case (Cons d ds)
  obtain out s1 where one: "process_decision env dg d s = (out, s1)" by (cases "process_decision env dg d s")
  then have "process_decisions env dg ds (report_decision d out report) s1 = (report', s')" using Cons.prems by simp
  from Cons.IH [OF this] process_decision_frames [OF one] Cons.prems(2) show ?case
    by (auto intro: audited.trans files.trans)
qed (simp add: audited.refl files.refl)

section \<open>What is reported\<close>

text \<open>The status an outcome deserves: all of the decision's items executed, some, none, or an error.\<close>

definition outcome_status :: "AgentPendingDecision \<Rightarrow> string + ExecuteReport \<Rightarrow> string" where
  "outcome_status d out =
     (case out of
        Inl _ \<Rightarrow> ''FAILED''
      | Inr report \<Rightarrow>
          if ex_executed_count report = length (pe_items d) then ''SUCCEEDED''
          else if ex_executed_count report = 0 then ''STALE'' else ''PARTIALLY_SUCCEEDED'')"

lemma execute_approved_counts:
  assumes "execute_approved_decision env dg d s = (Inr report, s')"
  shows "ex_executed_count report + ex_skipped_count report = length (pe_items d)"
    "ex_rejected_count report = 0" "pe_items d \<noteq> []"
proof -
  obtain root :: ManagedRoot and local where run: "execute_decision_application (dg_trash_json dg) (mr_root root)
      \<lparr>da_approved = local, da_rejected = []\<rparr> (sn_world s) = (Inr report, sn_world s')"
    and "build_local_proposal_report (sn_world s) (mr_root root) (pe_items d) = Inr local"
    using assms
  proof (cases rule: execute_approved_cases)
    case (Ran root local res)
    then have "res = Inr report" using map_err_Inr_iff [THEN iffD1, OF Ran(5) [symmetric]] by simp
    with Ran(3,4) show thesis by (auto intro: that)
  qed simp
  then show "ex_executed_count report + ex_skipped_count report = length (pe_items d)"
    "ex_rejected_count report = 0" "pe_items d \<noteq> []"
    using application_accounts [OF run] local_report_items [of "sn_world s" "mr_root root" "pe_items d" local] by auto
qed

lemma summarize_status:
  assumes "execute_approved_decision env dg d s = (Inr report, s')"
  shows "fst (summarize_execution report) = outcome_status d (Inr report)"
  using execute_approved_counts [OF assms] by (auto simp: summarize_execution_def outcome_status_def)

lemma execute_approved_outbox:
  "execute_approved_decision env dg d s = (out, s') \<Longrightarrow> sn_outbox s' = sn_outbox s"
  by (cases rule: execute_approved_cases) auto

lemma queue_result_queued:
  assumes "sn_outbox s = opened_store t" "(KIND_EXECUTION_RESULT, i) \<notin> row_name ` set (ob_rows t)"
    and "\<forall>p. carries (enc_execution (dg_wire dg)) (dec_execution (dg_wire dg)) p"
  obtains s' where "queue_result dg d i status summary s = (Inr (), s')"
    "queued_as (dg_wire dg) (KIND_EXECUTION_RESULT, i) (update_execution_request i status summary) (sn_outbox s')"
proof -
  let ?run = "enqueue_execution_result (dg_wire dg) (dg_queued_at dg (pe_decision_id d)) i status summary (sn_outbox s)"
  have "carried (dg_wire dg) (Execution_Result i status summary)" using assms(3) by simp
  moreover have "unhindered sha256 (Execution_Result i status summary) t" for sha256
    using assms(2) by (simp add: unhindered_def replaceable_def)
  ultimately have queued: "queued_as (dg_wire dg) (KIND_EXECUTION_RESULT, i) (update_execution_request i status summary) (snd ?run)"
    using queue_mutation_queued [of "dg_wire dg" "Execution_Result i status summary" "\<lambda>_. []" t] assms(1) by simp
  have "fst ?run = Inr ()" using assms(1,3)
    by (auto elim!: carriesE simp: enqueue_execution_result_def encoded_def enqueue_def
        dest!: spec [of _ "\<lparr>xp_execution_id = i, xp_status = status, xp_result_summary = summary\<rparr>"])
  with queued show thesis by (cases ?run) (auto simp: queue_result_def intro: that)
qed

section \<open>A sample station\<close>

definition payload_parts :: "ExecutionResultPayload \<Rightarrow> string \<times> string \<times> json" where
  "payload_parts p = (xp_execution_id p, xp_status p, xp_result_summary p)"

definition payload_of_parts :: "string \<times> string \<times> json \<Rightarrow> ExecutionResultPayload" where
  "payload_of_parts = (\<lambda>(i, s, j). \<lparr>xp_execution_id = i, xp_status = s, xp_result_summary = j\<rparr>)"

definition put_payload :: "ExecutionResultPayload printer" where
  "put_payload = put_pair put_string (put_pair put_string put_json) \<circ> payload_parts"

definition get_payload :: "ExecutionResultPayload parser" where
  "get_payload = get_map payload_of_parts (get_pair get_string (get_pair get_string get_json_text))"

lemma codec_payload: "codec put_payload get_payload"
  unfolding put_payload_def get_payload_def
  by (intro codec_map codec_pair codec_string codec_json) (simp add: payload_parts_def payload_of_parts_def)

definition sample_delegation :: delegation where
  "sample_delegation =
     \<lparr>dg_wire = sample_wire\<lparr>enc_execution := (\<lambda>p. Inr (put_payload p)),
                           dec_execution := (\<lambda>t. map_option fst (get_payload t))\<rparr>,
      dg_pending = (\<lambda>_. None),
      dg_rooms = (\<lambda>_. Some [\<lparr>sm_id = ''r1'', sm_desktop_device_id = ''d1'', sm_name = ''Box'', sm_root_alias = ''box'',
                             sm_status = ''ACTIVE''\<rparr>]),
      dg_trash_json = sample_to_json, dg_bound_at = (\<lambda>_. 8), dg_queued_at = (\<lambda>_. 9)\<rparr>"

definition sample_item :: AgentProposalItemRecord where
  "sample_item =
     \<lparr>ar_item_order = 0, ar_action_type = ''MOVE'', ar_source_relative_path = Some ''notes.pdf'',
      ar_destination_relative_path = Some ''documents/notes.pdf'', ar_reason_code = ''RULE'',
      ar_precondition = JObject [(''sourceSizeBytes'', JNumber 5), (''sourceModifiedUnixMs'', JNumber 4)],
      ar_conflict_state = ''NONE''\<rparr>"

definition sample_decision :: AgentPendingDecision where
  "sample_decision = \<lparr>pe_decision_id = ''k1'', pe_proposal_id = ''q1'', pe_room_id = ''r1'', pe_items = [sample_item]\<rparr>"

definition sample_station :: "(unit \<times> http_request list) station" where
  "sample_station =
     \<lparr>sn_agent = started_agent,
      sn_roots = \<lparr>rt_roots = [managed_root_new 7 ''box'' ''/home/box'' ''Box''], rt_db = opened_store []\<rparr>,
      sn_outbox = opened_store empty_outbox, sn_world = early_world\<rparr>"

lemma sample_carries:
  "carries (enc_execution (dg_wire sample_delegation)) (dec_execution (dg_wire sample_delegation)) p"
proof -
  have "get_payload (put_payload p @ []) = Some (p, [])" using codec_payload unfolding codec_def by blast
  then show ?thesis by (simp add: carries_def sample_delegation_def)
qed

lemma sample_claim:
  "\<exists>a. create_execution (sample_env 200 None) (res_execution (dg_wire sample_delegation)) (pe_proposal_id sample_decision)
     (pe_decision_id sample_decision) (sn_agent sample_station) = (Inr \<lparr>ex_execution_id = ''x1'', ex_status = ''SUCCEEDED''\<rparr>, a)"
proof -
  have "fst (create_execution (sample_env 200 None) (\<lambda>_. Some \<lparr>ex_execution_id = ''x1'', ex_status = ''SUCCEEDED''\<rparr>)
      ''q1'' ''k1'' started_agent) = Inr \<lparr>ex_execution_id = ''x1'', ex_status = ''SUCCEEDED''\<rparr>" by code_simp
  then show ?thesis
    by (simp add: sample_delegation_def sample_wire_def sample_decision_def sample_station_def) (metis prod.collapse)
qed

lemma sample_local_runs:
  "case execute_decision_application sample_to_json ''/home/box''
     \<lparr>da_approved = \<lparr>pr_root = ''/home/box'', pr_proposals = [(sample_proposal i ''notes.pdf'')\<lparr>p_reason := why\<rparr>]\<rparr>,
      da_rejected = []\<rparr> early_world of (out, w) \<Rightarrow> map_sum id ex_executed_count out = Inr 1 \<and> w_tick w \<noteq> w_tick early_world"
  by code_simp

lemma sample_room:
  assumes "create_execution (sample_env 200 None) (\<lambda>_. Some \<lparr>ex_execution_id = ''x1'', ex_status = ''SUCCEEDED''\<rparr>)
      ''q1'' ''k1'' started_agent = (Inr x, a)"
  shows "\<exists>room a1. root_id_for_room (sample_env 200 None) (dg_rooms sample_delegation) ''r1'' a = (Inr room, a1) \<and> rs_root_id room = ''box''"
proof -
  have "map_sum id rs_root_id (fst (root_id_for_room (sample_env 200 None) (dg_rooms sample_delegation) ''r1''
    (snd (create_execution (sample_env 200 None) (\<lambda>_. Some \<lparr>ex_execution_id = ''x1'', ex_status = ''SUCCEEDED''\<rparr>)
      ''q1'' ''k1'' started_agent)))) = Inr ''box''" by code_simp
  then show ?thesis by (auto simp: assms map_sum_def split: sum.splits) (metis prod.collapse)
qed

lemma sample_local_report:
  "build_local_proposal_report early_world ''/home/box'' [sample_item]
     = Inr \<lparr>pr_root = ''/home/box'', pr_proposals =
         [(sample_proposal (proposal_id ProposalAction.Move ''notes.pdf'' ''documents/notes.pdf'') ''notes.pdf'')\<lparr>p_reason := ''RULE''\<rparr>]\<rparr>"
proof -
  have "guard_new early_world ''/home/box'' = Inr \<lparr>guard_root = ''/home/box''\<rparr>" by code_simp
  then show ?thesis
    by (simp add: build_local_proposal_report_def local_proposal_from_item_def sample_item_def item_action_def
        required_path_def item_status_def precondition_snapshot_def sample_proposal_def Let_def)
qed

lemma sample_binding:
  "\<exists>root roots. ensure_active_room_binding 8 ''box'' ''r1'' (sn_roots sample_station) = (Inr root, roots)
     \<and> mr_enabled root \<and> mr_root root = ''/home/box''"
proof -
  have "map_sum id (\<lambda>root. (mr_enabled root, mr_root root))
    (fst (ensure_active_room_binding 8 ''box'' ''r1'' (sn_roots sample_station))) = Inr (True, ''/home/box'')" by code_simp
  then show ?thesis by (auto simp: map_sum_def split: sum.splits) (metis prod.collapse)
qed

lemma sample_approved:
  assumes "create_execution (sample_env 200 None) (\<lambda>_. Some \<lparr>ex_execution_id = ''x1'', ex_status = ''SUCCEEDED''\<rparr>)
      ''q1'' ''k1'' started_agent = (Inr x, a)"
  obtains report s1 where
    "execute_approved_decision (sample_env 200 None) sample_delegation sample_decision (sample_station\<lparr>sn_agent := a\<rparr>) = (Inr report, s1)"
    "ex_executed_count report = 1" "sn_world s1 \<noteq> early_world"
proof -
  obtain room a1 where room: "root_id_for_room (sample_env 200 None) (dg_rooms sample_delegation) ''r1'' a = (Inr room, a1)"
    "rs_root_id room = ''box''" using sample_room [OF assms] by blast
  obtain root roots where root: "ensure_active_room_binding 8 ''box'' ''r1'' (sn_roots sample_station) = (Inr root, roots)"
    "mr_enabled root" "mr_root root = ''/home/box''" using sample_binding by blast
  let ?app = "\<lparr>da_approved = \<lparr>pr_root = ''/home/box'', pr_proposals =
      [(sample_proposal (proposal_id ProposalAction.Move ''notes.pdf'' ''documents/notes.pdf'') ''notes.pdf'')\<lparr>p_reason := ''RULE''\<rparr>]\<rparr>,
      da_rejected = []\<rparr>"
  obtain out w where run: "execute_decision_application sample_to_json ''/home/box'' ?app early_world = (out, w)"
    by (cases "execute_decision_application sample_to_json ''/home/box'' ?app early_world")
  have "map_sum id ex_executed_count out = Inr 1" "w_tick w \<noteq> w_tick early_world"
    using sample_local_runs [of "''RULE''" "proposal_id ProposalAction.Move ''notes.pdf'' ''documents/notes.pdf''"] run by simp_all
  then obtain report where "out = Inr report" "ex_executed_count report = 1" by (cases out) auto
  moreover have "w \<noteq> early_world" using \<open>w_tick w \<noteq> w_tick early_world\<close> by blast
  ultimately show thesis
    using room root run sample_local_report
    by (intro that [of report "sample_station\<lparr>sn_agent := a1, sn_roots := roots, sn_world := w\<rparr>"])
      (simp_all add: execute_approved_decision_def sample_decision_def sample_station_def sample_delegation_def Let_def)
qed

lemma sample_processed:
  obtains report s' where
    "process_decision (sample_env 200 None) sample_delegation sample_decision sample_station = (Inr report, s')"
    "ex_executed_count report = 1" "sn_world s' \<noteq> sn_world sample_station"
proof -
  let ?x = "\<lparr>ex_execution_id = ''x1'', ex_status = ''SUCCEEDED''\<rparr>"
  obtain a where claim: "create_execution (sample_env 200 None) (res_execution (dg_wire sample_delegation))
      (pe_proposal_id sample_decision) (pe_decision_id sample_decision) (sn_agent sample_station) = (Inr ?x, a)"
    using sample_claim by blast
  then have "create_execution (sample_env 200 None) (\<lambda>_. Some ?x) ''q1'' ''k1'' started_agent = (Inr ?x, a)"
    by (simp add: sample_delegation_def sample_wire_def sample_decision_def sample_station_def)
  then obtain report s1 where run: "execute_approved_decision (sample_env 200 None) sample_delegation sample_decision
      (sample_station\<lparr>sn_agent := a\<rparr>) = (Inr report, s1)" "ex_executed_count report = 1" "sn_world s1 \<noteq> early_world"
    by (rule sample_approved)
  obtain status summary where sum: "summarize_execution report = (status, summary)" by (cases "summarize_execution report")
  have "sn_outbox s1 = opened_store empty_outbox"
    using execute_approved_outbox [OF run(1)] by (simp add: sample_station_def)
  then obtain s' where "queue_result sample_delegation sample_decision ''x1'' status summary s1 = (Inr (), s')"
    by (rule queue_result_queued) (use sample_carries in \<open>auto simp: empty_outbox_def\<close>)
  moreover have "sn_world s' = sn_world s1" using queue_result_frame [OF calculation] by simp
  ultimately show thesis using claim run sum
    by (intro that [of report s']) (simp_all add: process_decision_def, simp add: sample_station_def)
qed

section \<open>Properties\<close>

text \<open>C4: Files are touched only for a claimed execution, in the right folder. When processing a
  decision changes anything of the file tree or its databases, the server has answered the claim of this very
  proposal and decision; the folder was registered before, was enabled and not detached, and is now actively bound to the
  decision's room; the local proposals could all be built from the decision's items; and
  the change is that of the file engine's run on this folder with these proposals.\<close>

theorem files_change_only_for_claims:
  assumes "process_decision env dg d s = (out, s')" "sn_world s' \<noteq> sn_world s"
  shows "\<exists>execution a root report res.
      create_execution env (res_execution (dg_wire dg)) (pe_proposal_id d) (pe_decision_id d) (sn_agent s) = (Inr execution, a)
    \<and> opened_to (pe_room_id d) (sn_roots s) root (sn_roots s') \<and> mr_enabled root
    \<and> build_local_proposal_report (sn_world s) (mr_root root) (pe_items d) = Inr report
    \<and> execute_decision_application (dg_trash_json dg) (mr_root root) \<lparr>da_approved = report, da_rejected = []\<rparr> (sn_world s)
        = (res, sn_world s')"
  using assms(1)
proof (cases rule: process_decision_cases)
  case (Claimed execution a out1 s1)
  show ?thesis using Claimed(2)
  proof (cases rule: execute_approved_cases)
    case (Ran root report res)
    then show ?thesis using Claimed(1,3,4)
      by (intro exI [of _ execution] exI [of _ a] exI [of _ root] exI [of _ report] exI [of _ res]) simp
  qed (use Claimed(3) assms(2) in simp)
qed (use assms(2) in simp)

theorem files_change_only_for_claims_witness:
  "\<exists>out s' root. process_decision (sample_env 200 None) sample_delegation sample_decision sample_station = (out, s')
     \<and> sn_world s' \<noteq> sn_world sample_station \<and> opened_to ''r1'' (sn_roots sample_station) root (sn_roots s') \<and> mr_enabled root"
proof -
  obtain report s' where run: "process_decision (sample_env 200 None) sample_delegation sample_decision sample_station = (Inr report, s')"
    "sn_world s' \<noteq> sn_world sample_station" using sample_processed by metis
  then show ?thesis using files_change_only_for_claims [OF run] by (auto simp: sample_decision_def)
qed

text \<open>C8: A claimed execution gets its terminal result. Once the server has answered the claim, then whatever
  happens afterwards (the room is unknown, the folder detached or disabled, an item unsupported, the run
  fails or skips items), with a working outbox the result is queued: a pending row under
  the execution's id that stands for the request to set its status to \<^verbatim>\<open>FAILED\<close> when processing
  ends in an error, and otherwise to \<^verbatim>\<open>SUCCEEDED\<close>, \<^verbatim>\<open>PARTIALLY_SUCCEEDED\<close> or \<^verbatim>\<open>STALE\<close> as all, some or
  none of the decision's items were executed.\<close>

theorem claimed_execution_reported:
  assumes claim: "create_execution env (res_execution (dg_wire dg)) (pe_proposal_id d) (pe_decision_id d) (sn_agent s)
      = (Inr execution, a)"
    and outbox: "sn_outbox s = opened_store t"
    and fresh: "(KIND_EXECUTION_RESULT, ex_execution_id execution) \<notin> row_name ` set (ob_rows t)"
    and codec: "\<forall>p. carries (enc_execution (dg_wire dg)) (dec_execution (dg_wire dg)) p"
  shows "\<exists>out s' summary. process_decision env dg d s = (out, s')
    \<and> queued_as (dg_wire dg) (KIND_EXECUTION_RESULT, ex_execution_id execution)
        (update_execution_request (ex_execution_id execution) (outcome_status d out) summary) (sn_outbox s')"
proof -
  obtain out s1 where run: "execute_approved_decision env dg d (s\<lparr>sn_agent := a\<rparr>) = (out, s1)"
    by (cases "execute_approved_decision env dg d (s\<lparr>sn_agent := a\<rparr>)")
  have "sn_outbox s1 = opened_store t" using execute_approved_outbox [OF run] outbox by simp
  note queued = queue_result_queued [OF this fresh codec]
  show ?thesis
  proof (cases out)
    case (Inl e)
    obtain s2 where "queue_result dg d (ex_execution_id execution) ''FAILED'' (JObject [(''reason'', JString e)]) s1 = (Inr (), s2)"
      "queued_as (dg_wire dg) (KIND_EXECUTION_RESULT, ex_execution_id execution)
        (update_execution_request (ex_execution_id execution) ''FAILED'' (JObject [(''reason'', JString e)])) (sn_outbox s2)"
      by (rule queued)
    then show ?thesis using claim run Inl by (auto simp: process_decision_def outcome_status_def)
  next
    case (Inr report)
    obtain status summary where sum: "summarize_execution report = (status, summary)"
      by (cases "summarize_execution report")
    obtain s2 where "queue_result dg d (ex_execution_id execution) status summary s1 = (Inr (), s2)"
      "queued_as (dg_wire dg) (KIND_EXECUTION_RESULT, ex_execution_id execution)
        (update_execution_request (ex_execution_id execution) status summary) (sn_outbox s2)" by (rule queued)
    moreover have "status = outcome_status d (Inr report)" using summarize_status run Inr sum by fastforce
    ultimately show ?thesis using claim run Inr sum by (auto simp: process_decision_def)
  qed
qed

theorem claimed_execution_reported_witness:
  "\<exists>out s' summary. process_decision (sample_env 200 None) sample_delegation sample_decision sample_station = (out, s')
    \<and> queued_as (dg_wire sample_delegation) (KIND_EXECUTION_RESULT, ''x1'')
        (update_execution_request ''x1'' ''SUCCEEDED'' summary) (sn_outbox s')"
proof -
  obtain a where claim: "create_execution (sample_env 200 None) (res_execution (dg_wire sample_delegation))
      (pe_proposal_id sample_decision) (pe_decision_id sample_decision) (sn_agent sample_station)
      = (Inr \<lparr>ex_execution_id = ''x1'', ex_status = ''SUCCEEDED''\<rparr>, a)" using sample_claim by blast
  obtain report s' where run: "process_decision (sample_env 200 None) sample_delegation sample_decision sample_station = (Inr report, s')"
    "ex_executed_count report = 1" using sample_processed by metis
  then have "outcome_status sample_decision (Inr report) = ''SUCCEEDED''" by (simp add: outcome_status_def sample_decision_def)
  then show ?thesis
    using claimed_execution_reported [OF claim, of empty_outbox] sample_carries run
    by (simp add: sample_station_def empty_outbox_def)
qed

text \<open>C12: Delegated work loses no file. Process any list of decisions without README items, each for its own folder,
  with any answers of the server and under any fault schedule: the tree stays well-formed, every regular file that
  existed still exists with its content and attributes, every journal only grows, and
  nothing that existed is changed, moved or removed before a plan is journaled.\<close>

theorem delegated_work_safe:
  assumes run: "process_decisions env dg ds report s = (report', s')" and wf: "wf_fs (w_fs (sn_world s))"
    and "list_all (\<lambda>d. \<not> writes_readme d) ds"
  shows "wf_fs (w_fs (sn_world s')) \<and> file_nodes (w_fs (sn_world s)) \<subseteq># file_nodes (w_fs (sn_world s'))
    \<and> prefix (journal_of (sn_world s) path) (journal_of (sn_world s') path)
    \<and> (announced (sn_world s) (sn_world s')
       \<or> (\<forall>k. map_of (w_fs (sn_world s)) k \<noteq> None \<longrightarrow> map_of (w_fs (sn_world s')) k = map_of (w_fs (sn_world s)) k))"
  using process_decisions_frames [OF run assms(3)] wf
  by (auto simp: audited_def grows_def kept_def no_file_lost_def)

theorem delegated_work_safe_witness:
  "\<exists>report' s'. process_decisions (sample_env 200 None) sample_delegation [sample_decision] (started_report 1) sample_station = (report', s')
     \<and> sn_world s' \<noteq> early_world \<and> file_nodes sample_fs \<subseteq># file_nodes (w_fs (sn_world s'))"
proof -
  obtain r s' where one: "process_decision (sample_env 200 None) sample_delegation sample_decision sample_station = (Inr r, s')"
    "sn_world s' \<noteq> sn_world sample_station" using sample_processed by metis
  then have "process_decisions (sample_env 200 None) sample_delegation [sample_decision] (started_report 1) sample_station
      = (report_decision sample_decision (Inr r) (started_report 1), s')" by simp
  moreover have "wf_fs (w_fs (sn_world sample_station))" "w_fs (sn_world sample_station) = sample_fs"
    using sample_wf by (simp_all add: sample_station_def early_world_def sample_world_def)
  moreover have "\<not> writes_readme sample_decision" by (simp add: writes_readme_def sample_decision_def sample_item_def)
  ultimately show ?thesis
    using delegated_work_safe [of "sample_env 200 None" sample_delegation "[sample_decision]" "started_report 1" sample_station] one
    by (auto simp: sample_station_def)
qed

text \<open>The module's documentation says that a claimed execution is never left without a terminal result. When
  the write to the outbox fails it is: the files have been changed, nothing is queued, and the decision
  counts as failed.\<close>

lemma claimed_result_lost:
  assumes "create_execution env (res_execution (dg_wire dg)) (pe_proposal_id d) (pe_decision_id d) (sn_agent s)
      = (Inr execution, a)"
    and "execute_approved_decision env dg d (s\<lparr>sn_agent := a\<rparr>) = (out, s1)"
    and "st_pool (sn_outbox s) = Some t" "st_faults (sn_outbox s) = Some e # fs"
    and "\<forall>p. carries (enc_execution (dg_wire dg)) (dec_execution (dg_wire dg)) p"
  shows "\<exists>s'. process_decision env dg d s = (Inl (''cannot enqueue outbox item: '' @ e), s')
    \<and> sn_world s' = sn_world s1 \<and> st_pool (sn_outbox s') = Some t"
proof -
  have lost: "\<exists>s2. queue_result dg d i status summary s1 = (Inl (''cannot enqueue outbox item: '' @ e), s2)
      \<and> sn_world s2 = sn_world s1 \<and> st_pool (sn_outbox s2) = Some t" for i status summary
    using assms(3-5) execute_approved_outbox [OF assms(2)]
    by (auto elim!: carriesE simp: queue_result_def enqueue_execution_result_def encoded_def enqueue_def execute_sql_def
        dest!: spec [of _ "\<lparr>xp_execution_id = i, xp_status = status, xp_result_summary = summary\<rparr>"])
  show ?thesis
  proof (cases out)
    case (Inl m)
    then show ?thesis using assms(1,2) lost [of "ex_execution_id execution" "''FAILED''" "JObject [(''reason'', JString m)]"]
      by (auto simp: process_decision_def)
  next
    case (Inr report)
    obtain status summary where "summarize_execution report = (status, summary)" by (cases "summarize_execution report")
    then show ?thesis using assms(1,2) Inr lost [of "ex_execution_id execution" status summary]
      by (auto simp: process_decision_def)
  qed
qed

end
