(* ===== verification/Auto_Cleanup.thy ===== *)
theory Auto_Cleanup
  imports Proposal_Engine Decision Managed_Roots Codec
begin

text \<open>
  The automatic approval of proposals: the policies of the registered folders
  (\<^verbatim>\<open>storage/auto_approval.rs\<close>) and the background scan that applies them
  (\<^verbatim>\<open>auto_cleanup_processor.rs\<close>).

  The JSON text of a policy's actions is a parameter. The policies in memory are a map, as they are only looked up;
  the table is the list of its rows. \<^verbatim>\<open>usize\<close> and SQLite's integers are 64 bits wide.

  Shown here: whatever calls are made and fail, a policy names its own folder, allows
  some action and has a positive limit; a patch that is refused can still switch automatic approval on; the scan
  changes no file and reports exactly the enabled and bound folders with proposals, marking exactly what the
  folder's policy allows.
\<close>

section \<open>Policies\<close>

record AutoApprovalPolicyRecord =
  ay_root_id :: string
  ay_enabled :: bool
  ay_allowed_actions :: "ProposalAction list"
  ay_max_files_per_run :: nat
  ay_expires_unix_ms :: "int option"
  ay_updated_unix_ms :: int

record AutoApprovalPolicyPatch =
  pt_enabled :: "bool option"
  pt_allowed_actions :: "ProposalAction list option"
  pt_max_files_per_run :: "nat option"
  pt_expires_unix_ms :: "int option"

record policy_row =
  pw_root_id :: string
  pw_enabled :: int
  pw_allowed_actions_json :: string
  pw_max_files_per_run :: int
  pw_expires_unix_ms :: "int option"
  pw_updated_unix_ms :: int

record policy_store =
  po_policies :: "string \<rightharpoonup> AutoApprovalPolicyRecord"
  po_db :: "policy_row list store"

record actions_codec =
  enc_actions :: "ProposalAction list \<Rightarrow> string + string"
  dec_actions :: "string \<Rightarrow> string + ProposalAction list"

type_synonym 'a policy_op = "policy_store \<Rightarrow> (string + 'a) \<times> policy_store"

definition default_for_root :: "int \<Rightarrow> string \<Rightarrow> AutoApprovalPolicyRecord" where
  "default_for_root now root_id =
     \<lparr>ay_root_id = root_id, ay_enabled = False, ay_allowed_actions = [ProposalAction.Trash],
      ay_max_files_per_run = 20, ay_expires_unix_ms = None, ay_updated_unix_ms = now\<rparr>"

definition is_expired :: "int \<Rightarrow> AutoApprovalPolicyRecord \<Rightarrow> bool" where
  "is_expired now policy =
     (case ay_expires_unix_ms policy of None \<Rightarrow> False | Some expires_unix_ms \<Rightarrow> expires_unix_ms \<le> now)"

definition to_engine_policy :: "int \<Rightarrow> AutoApprovalPolicyRecord \<Rightarrow> AutoApprovalPolicy" where
  "to_engine_policy now policy =
     \<lparr>ap_enabled = (ay_enabled policy \<and> \<not> is_expired now policy),
      ap_allowed_actions = ay_allowed_actions policy, ap_max_files_per_run = ay_max_files_per_run policy\<rparr>"

section \<open>The table\<close>

definition row_of_policy :: "string \<Rightarrow> AutoApprovalPolicyRecord \<Rightarrow> policy_row" where
  "row_of_policy allowed_actions_json policy =
     \<lparr>pw_root_id = ay_root_id policy, pw_enabled = bool_int (ay_enabled policy),
      pw_allowed_actions_json = allowed_actions_json,
      pw_max_files_per_run = int (min (ay_max_files_per_run policy) (2 ^ 63 - 1)),
      pw_expires_unix_ms = ay_expires_unix_ms policy, pw_updated_unix_ms = ay_updated_unix_ms policy\<rparr>"

definition policy_of_row :: "actions_codec \<Rightarrow> policy_row \<Rightarrow> string + AutoApprovalPolicyRecord" where
  "policy_of_row c row =
     bind_res (map_err (\<lambda>e. ''cannot parse auto approval actions: '' @ e) (dec_actions c (pw_allowed_actions_json row)))
       (\<lambda>allowed_actions.
          if allowed_actions = [] then Inl (''auto approval policy has no allowed actions: '' @ pw_root_id row)
          else if pw_max_files_per_run row \<le> 0
          then Inl (''auto approval max_files_per_run must be positive: '' @ pw_root_id row)
          else Inr \<lparr>ay_root_id = pw_root_id row, ay_enabled = int_bool (pw_enabled row),
                    ay_allowed_actions = allowed_actions,
                    ay_max_files_per_run = nat (pw_max_files_per_run row),
                    ay_expires_unix_ms = pw_expires_unix_ms row, ay_updated_unix_ms = pw_updated_unix_ms row\<rparr>)"

definition read_policies :: "actions_codec \<Rightarrow> policy_row list \<Rightarrow> string + AutoApprovalPolicyRecord list" where
  "read_policies c rows = collect_results (map (policy_of_row c) (sort_key pw_root_id rows))"

definition upsert_policy :: "policy_row \<Rightarrow> policy_row list \<Rightarrow> policy_row list" where
  "upsert_policy row rows =
     (if pw_root_id row \<in> pw_root_id ` set rows
      then map (\<lambda>other. if pw_root_id other = pw_root_id row then row else other) rows else rows @ [row])"

definition persist_policy :: "actions_codec \<Rightarrow> AutoApprovalPolicyRecord \<Rightarrow> unit policy_op" where
  "persist_policy c policy s =
     (case st_pool (po_db s) of
        None \<Rightarrow> (Inr (), s)
      | Some rows \<Rightarrow>
          (case enc_actions c (ay_allowed_actions policy) of
             Inl e \<Rightarrow> (Inl (''cannot serialize auto approval actions: '' @ e), s)
           | Inr allowed_actions_json \<Rightarrow>
               (case execute_sql [''cannot persist auto approval policy: '']
                       (\<lambda>rows. ((), upsert_policy (row_of_policy allowed_actions_json policy) rows)) rows (po_db s) of
                  (out, db) \<Rightarrow> (out, s\<lparr>po_db := db\<rparr>))))"

definition delete_policy :: "string \<Rightarrow> unit policy_op" where
  "delete_policy root_id s =
     (case st_pool (po_db s) of
        None \<Rightarrow> (Inr (), s)
      | Some rows \<Rightarrow>
          (case execute_sql [''cannot delete auto approval policy: '']
                  (\<lambda>rows. ((), filter (\<lambda>row. pw_root_id row \<noteq> root_id) rows)) rows (po_db s) of
             (out, db) \<Rightarrow> (out, s\<lparr>po_db := db\<rparr>)))"

section \<open>Operations\<close>

definition load_policies :: "actions_codec \<Rightarrow> policy_row list option \<Rightarrow> unit policy_op" where
  "load_policies c disk s =
     (let rows = (case disk of None \<Rightarrow> [] | Some rows \<Rightarrow> rows)
      in case execute_sql [[], ''cannot migrate auto approval policies: '', ''cannot read auto approval policies: '']
                (\<lambda>t. ((), t)) rows (po_db s) of
           (Inl e, db) \<Rightarrow> (Inl e, s\<lparr>po_db := (po_db s)\<lparr>st_faults := st_faults db\<rparr>\<rparr>)
         | (Inr _, db) \<Rightarrow>
             (case read_policies c rows of
                Inl e \<Rightarrow> (Inl e, s\<lparr>po_db := (po_db s)\<lparr>st_faults := st_faults db\<rparr>\<rparr>)
              | Inr loaded \<Rightarrow>
                  (Inr (), s\<lparr>po_policies := map_of (rev (map (\<lambda>policy. (ay_root_id policy, policy)) loaded)), po_db := db\<rparr>)))"

definition get_or_default :: "int \<Rightarrow> string \<Rightarrow> policy_store \<Rightarrow> AutoApprovalPolicyRecord" where
  "get_or_default now root_id s =
     (case po_policies s root_id of Some policy \<Rightarrow> policy | None \<Rightarrow> default_for_root now root_id)"

text \<open>What \<^verbatim>\<open>patch\<close> does to the entry of the map: assignments in place, with two early returns.\<close>

definition patch_policy ::
    "int \<Rightarrow> AutoApprovalPolicyPatch \<Rightarrow> AutoApprovalPolicyRecord \<Rightarrow> (string + unit) \<times> AutoApprovalPolicyRecord" where
  "patch_policy now patch policy =
     (let p1 = (case pt_enabled patch of Some enabled \<Rightarrow> policy\<lparr>ay_enabled := enabled\<rparr> | None \<Rightarrow> policy)
      in if pt_allowed_actions patch = Some [] then (Inl ''auto approval policy must allow at least one action'', p1)
         else let p2 = (case pt_allowed_actions patch of
                          Some allowed_actions \<Rightarrow> p1\<lparr>ay_allowed_actions := allowed_actions\<rparr> | None \<Rightarrow> p1)
              in if pt_max_files_per_run patch = Some 0
                 then (Inl ''auto approval max_files_per_run must be greater than zero'', p2)
                 else let p3 = (case pt_max_files_per_run patch of
                                  Some max_files_per_run \<Rightarrow> p2\<lparr>ay_max_files_per_run := max_files_per_run\<rparr> | None \<Rightarrow> p2);
                          p4 = (if pt_expires_unix_ms patch \<noteq> None
                                then p3\<lparr>ay_expires_unix_ms := pt_expires_unix_ms patch\<rparr> else p3)
                      in (Inr (), p4\<lparr>ay_updated_unix_ms := now\<rparr>))"

definition patch :: "actions_codec \<Rightarrow> int \<Rightarrow> int \<Rightarrow> string \<Rightarrow> AutoApprovalPolicyPatch \<Rightarrow> AutoApprovalPolicyRecord policy_op" where
  "patch c created now root_id p s =
     (let (out, updated) = patch_policy now p (get_or_default created root_id s);
          s1 = s\<lparr>po_policies := (po_policies s)(root_id \<mapsto> updated)\<rparr>
      in case out of
           Inl e \<Rightarrow> (Inl e, s1)
         | Inr _ \<Rightarrow> (case persist_policy c updated s1 of (Inl e, s2) \<Rightarrow> (Inl e, s2) | (Inr _, s2) \<Rightarrow> (Inr updated, s2)))"

definition remove_policy :: "string \<Rightarrow> bool policy_op" where
  "remove_policy root_id s =
     (let removed = (po_policies s root_id \<noteq> None)
      in case delete_policy root_id (s\<lparr>po_policies := (po_policies s)(root_id := None)\<rparr>) of
           (Inl e, s1) \<Rightarrow> (Inl e, s1) | (Inr _, s1) \<Rightarrow> (Inr removed, s1))"

section \<open>The background scan\<close>

record AutoCleanupProposalEvent =
  av_root_id :: string
  av_proposal :: ProposalReport
  av_auto_approved_count :: nat
  av_auto_approved_proposal_ids :: "string list"
  av_executed_count :: nat
  av_skipped_count :: nat

record AutoCleanupReport =
  al_inspected_count :: nat
  al_proposed_root_count :: nat
  al_proposal_count :: nat
  al_eligible_root_count :: nat
  al_approved_count :: nat
  al_executed_count :: nat
  al_skipped_count :: nat
  al_failed_count :: nat
  al_proposals :: "AutoCleanupProposalEvent list"

definition empty_cleanup :: AutoCleanupReport where
  "empty_cleanup =
     \<lparr>al_inspected_count = 0, al_proposed_root_count = 0, al_proposal_count = 0, al_eligible_root_count = 0,
      al_approved_count = 0, al_executed_count = 0, al_skipped_count = 0, al_failed_count = 0, al_proposals = []\<rparr>"

text \<open>The approvals of a root's proposals, with what they add to the counters.\<close>

definition approve_root ::
    "int \<Rightarrow> policy_store \<Rightarrow> string \<Rightarrow> ProposalReport \<Rightarrow> AutoCleanupReport \<Rightarrow> AutoCleanupReport \<times> string list" where
  "approve_root now policies root_id proposal report =
     (let engine_policy = to_engine_policy now (get_or_default now root_id policies)
      in if ap_enabled engine_policy
         then let r1 = report\<lparr>al_eligible_root_count := al_eligible_root_count report + 1\<rparr>
              in case auto_approve_decisions proposal engine_policy of
                   Inr decisions \<Rightarrow>
                     (r1\<lparr>al_approved_count := al_approved_count r1 + length decisions\<rparr>, map d_proposal_id decisions)
                 | Inl _ \<Rightarrow> (r1\<lparr>al_failed_count := al_failed_count r1 + 1\<rparr>, [])
         else (report, []))"

definition cleanup_root ::
    "(string \<Rightarrow> string + RuleSet) \<Rightarrow> int \<Rightarrow> policy_store \<Rightarrow> ManagedRoot \<Rightarrow> AutoCleanupReport \<times> world
       \<Rightarrow> (AutoCleanupReport \<times> world) option" where
  "cleanup_root parse_rules now policies root = (\<lambda>(report, w).
     let report = report\<lparr>al_inspected_count := al_inspected_count report + 1\<rparr>
     in if \<not> mr_enabled root \<or> mr_room_binding_status root \<noteq> Active then Some (report, w)
        else case propose_for_root parse_rules (mr_root root) w of
               None \<Rightarrow> None
             | Some (Inl _, w1) \<Rightarrow> Some (report\<lparr>al_failed_count := al_failed_count report + 1\<rparr>, w1)
             | Some (Inr proposal, w1) \<Rightarrow>
                 if pr_proposals proposal = [] then Some (report, w1)
                 else let (r1, ids) = approve_root now policies (mr_root_id root) proposal
                            (report\<lparr>al_proposed_root_count := al_proposed_root_count report + 1,
                                    al_proposal_count := al_proposal_count report + length (pr_proposals proposal)\<rparr>)
                      in Some (r1\<lparr>al_proposals := al_proposals r1 @
                                 [\<lparr>av_root_id = mr_root_id root, av_proposal = proposal, av_auto_approved_count = length ids,
                                   av_auto_approved_proposal_ids = ids, av_executed_count = 0, av_skipped_count = 0\<rparr>]\<rparr>, w1))"

fun cleanup_roots ::
    "(string \<Rightarrow> string + RuleSet) \<Rightarrow> int \<Rightarrow> policy_store \<Rightarrow> ManagedRoot list \<Rightarrow> AutoCleanupReport \<times> world
       \<Rightarrow> (AutoCleanupReport \<times> world) option" where
  "cleanup_roots parse_rules now policies [] st = Some st"
| "cleanup_roots parse_rules now policies (root # roots) st =
     (case cleanup_root parse_rules now policies root st of
        None \<Rightarrow> None | Some st1 \<Rightarrow> cleanup_roots parse_rules now policies roots st1)"

definition process_auto_cleanup ::
    "(string \<Rightarrow> string + RuleSet) \<Rightarrow> int \<Rightarrow> root_store \<Rightarrow> policy_store \<Rightarrow> world
       \<Rightarrow> ((string + AutoCleanupReport) \<times> world) option" where
  "process_auto_cleanup parse_rules now roots policies w =
     (case list_roots roots of
        Inl e \<Rightarrow> Some (Inl e, w)
      | Inr listed \<Rightarrow> map_option (\<lambda>(report, w1). (Inr report, w1)) (cleanup_roots parse_rules now policies listed (empty_cleanup, w)))"

section \<open>The invariant of the policies\<close>

definition policy_ok :: "string \<Rightarrow> AutoApprovalPolicyRecord \<Rightarrow> bool" where
  "policy_ok i policy \<longleftrightarrow>
     ay_root_id policy = i \<and> ay_allowed_actions policy \<noteq> [] \<and> 0 < ay_max_files_per_run policy"

definition policies_ok :: "policy_store \<Rightarrow> bool" where
  "policies_ok s \<longleftrightarrow> (\<forall>i policy. po_policies s i = Some policy \<longrightarrow> policy_ok i policy)"

datatype policy_call =
  Load "policy_row list option" | Patch int int string AutoApprovalPolicyPatch | Remove string

fun policy_exec :: "actions_codec \<Rightarrow> policy_call \<Rightarrow> policy_store \<Rightarrow> policy_store" where
  "policy_exec c (Load disk) s = snd (load_policies c disk s)"
| "policy_exec c (Patch created now i p) s = snd (patch c created now i p s)"
| "policy_exec c (Remove i) s = snd (remove_policy i s)"

lemma policy_ok_default: "policies_ok s \<Longrightarrow> policy_ok i (get_or_default now i s)"
  by (auto simp: get_or_default_def policies_ok_def policy_ok_def default_for_root_def split: option.split)

lemma policy_ok_patch: "policy_ok i policy \<Longrightarrow> patch_policy now p policy = (out, policy') \<Longrightarrow> policy_ok i policy'"
  by (auto simp: patch_policy_def policy_ok_def Let_def split: option.splits if_splits)

lemma policy_ok_read: "policy_of_row c row = Inr policy \<Longrightarrow> policy_ok (ay_root_id policy) policy"
  by (auto simp: policy_of_row_def policy_ok_def bind_res_Inr_iff split: if_splits)

lemma read_policies_ok:
  assumes "read_policies c rows = Inr loaded" "policy \<in> set loaded"
  shows "policy_ok (ay_root_id policy) policy"
proof -
  have rows: "map (policy_of_row c) (sort_key pw_root_id rows) = map Inr loaded"
    using assms(1) by (simp add: read_policies_def collect_results_map_Inr_iff)
  have "Inr policy \<in> set (map (policy_of_row c) (sort_key pw_root_id rows))" using assms(2) by (simp add: rows)
  then obtain row where "policy_of_row c row = Inr policy" by auto
  then show ?thesis by (rule policy_ok_read)
qed

lemma persist_policy_frame: "po_policies (snd (persist_policy c policy s)) = po_policies s"
  by (simp add: persist_policy_def split: option.split sum.split prod.split)

lemma delete_policy_frame: "po_policies (snd (delete_policy i s)) = po_policies s"
  by (simp add: delete_policy_def split: option.split prod.split)

lemma patch_memory:
  "po_policies (snd (patch c created now i p s))
     = (po_policies s)(i \<mapsto> snd (patch_policy now p (get_or_default created i s)))"
  by (auto simp: patch_def Let_def split_beta persist_policy_frame split: sum.split)

lemma remove_memory: "po_policies (snd (remove_policy i s)) = (po_policies s)(i := None)"
  using delete_policy_frame [of i "s\<lparr>po_policies := (po_policies s)(i := None)\<rparr>"]
  by (auto simp: remove_policy_def Let_def split: prod.split sum.split)

lemma load_memory:
  "po_policies (snd (load_policies c disk s)) = po_policies s
   \<or> (\<exists>rows loaded. read_policies c rows = Inr loaded
        \<and> po_policies (snd (load_policies c disk s)) = map_of (rev (map (\<lambda>policy. (ay_root_id policy, policy)) loaded)))"
  by (auto simp: load_policies_def Let_def split: prod.split sum.split)

interpretation policy_calls: store_invariant "policy_exec c" "\<lambda>_. True" policies_ok for c
proof
  fix call s assume ok: "policies_ok s"
  show "policies_ok (policy_exec c call s)"
  proof (cases call)
    case (Load disk)
    have "policy_ok i policy"
      if "read_policies c rows = Inr loaded" "map_of (rev (map (\<lambda>policy. (ay_root_id policy, policy)) loaded)) i = Some policy"
      for rows loaded i policy
      using map_of_SomeD [OF that(2)] read_policies_ok [OF that(1)] by auto
    then show ?thesis using Load ok load_memory [of c disk s] by (auto simp: policies_ok_def)
  next
    case (Patch created now i p)
    have "policy_ok i (snd (patch_policy now p (get_or_default created i s)))"
      using policy_ok_patch [OF policy_ok_default [OF ok]] by (metis prod.collapse)
    then show ?thesis using Patch ok by (simp add: policies_ok_def patch_memory)
  next
    case (Remove i)
    then show ?thesis using ok by (simp add: policies_ok_def remove_memory)
  qed
qed

section \<open>The scan\<close>

definition untouched :: "world \<Rightarrow> world \<Rightarrow> bool" where
  "untouched w w' \<longleftrightarrow> w_fs w' = w_fs w \<and> w_dbs w' = w_dbs w"

lemma propose_for_root_untouched:
  assumes "propose_for_root parse_rules root w = Some (out, w')"
  shows "untouched w w'"
  using assms
  by (auto simp: propose_for_root_def propose_for_root_with_rule_set_def propose_for_analysis_with_rule_set_def
      bindA_def readA_def returnA_def unix_ms_def untouched_def split: sum.splits option.splits prod.splits)

text \<open>What the scan found for one root, and which of it the root's policy lets through.\<close>

definition approvals :: "int \<Rightarrow> policy_store \<Rightarrow> string \<Rightarrow> ProposalReport \<Rightarrow> string list" where
  "approvals now policies root_id proposal =
     (let policy = get_or_default now root_id policies;
          allowed = filter (\<lambda>p. p_status p = ProposalStatus.Ready \<and> p_action p \<in> set (ay_allowed_actions policy))
                      (pr_proposals proposal)
      in if ay_enabled policy \<and> \<not> is_expired now policy \<and> length allowed \<le> ay_max_files_per_run policy
         then map p_proposal_id allowed else [])"

text \<open>The event a folder's proposals are worth, and the events a scan of a folder must give: none for a folder that is
  disabled or not bound to a room, cannot be folder_events or needs nothing; one otherwise. The scan meets the tree
  of \<open>w\<close> at some moment of its clock.\<close>

definition cleanup_event :: "int \<Rightarrow> policy_store \<Rightarrow> string \<Rightarrow> ProposalReport \<Rightarrow> AutoCleanupProposalEvent" where
  "cleanup_event now policies root_id proposal =
     (let ids = approvals now policies root_id proposal
      in \<lparr>av_root_id = root_id, av_proposal = proposal, av_auto_approved_count = length ids,
          av_auto_approved_proposal_ids = ids, av_executed_count = 0, av_skipped_count = 0\<rparr>)"

definition folder_events ::
    "(string \<Rightarrow> string + RuleSet) \<Rightarrow> int \<Rightarrow> policy_store \<Rightarrow> world \<Rightarrow> ManagedRoot \<Rightarrow> AutoCleanupProposalEvent list \<Rightarrow> bool" where
  "folder_events parse_rules now policies w root events \<longleftrightarrow>
     (if \<not> mr_enabled root \<or> mr_room_binding_status root \<noteq> Active then events = []
      else \<exists>tick out w'. propose_for_root parse_rules (mr_root root) (w\<lparr>w_tick := tick\<rparr>) = Some (out, w')
        \<and> events = (case out of
            Inl error \<Rightarrow> []
          | Inr proposal \<Rightarrow> if pr_proposals proposal = [] then []
                            else [cleanup_event now policies (mr_root_id root) proposal]))"

text \<open>The counters a report has for its events.\<close>

definition tallied :: "AutoCleanupReport \<Rightarrow> bool" where
  "tallied report \<longleftrightarrow>
     al_proposed_root_count report = length (al_proposals report)
     \<and> al_proposal_count report = sum_list (map (\<lambda>ev. length (pr_proposals (av_proposal ev))) (al_proposals report))
     \<and> al_approved_count report = sum_list (map av_auto_approved_count (al_proposals report))
     \<and> al_executed_count report = 0 \<and> al_skipped_count report = 0"

lemma propose_for_root_ticks:
  assumes "propose_for_root parse_rules root w = Some (out, w')"
  shows "\<exists>tick. w' = w\<lparr>w_tick := tick\<rparr>"
proof -
  have "\<exists>tick. v = v\<lparr>w_tick := tick\<rparr>" for v :: world by (rule exI [of _ "w_tick v"]) simp
  with assms show ?thesis
    by (auto simp: propose_for_root_def propose_for_root_with_rule_set_def propose_for_analysis_with_rule_set_def
        bindA_def readA_def returnA_def unix_ms_def split: sum.splits option.splits prod.splits)
qed

lemma approve_root_exact:
  assumes "policies_ok policies"
  shows "\<exists>eligible failed. approve_root now policies i proposal report
    = (report\<lparr>al_eligible_root_count := eligible, al_failed_count := failed,
         al_approved_count := al_approved_count report + length (approvals now policies i proposal)\<rparr>,
       approvals now policies i proposal)"
proof -
  have "policy_ok i (get_or_default now i policies)" using assms by (rule policy_ok_default)
  then have ids: "snd (approve_root now policies i proposal report) = approvals now policies i proposal"
    by (auto simp: approve_root_def approvals_def to_engine_policy_def auto_approve_decisions_def policy_validate_def
        ready_allowed_def policy_ok_def Let_def split: sum.split)
  show ?thesis unfolding ids [symmetric]
    by (cases report) (auto simp: approve_root_def Let_def split: sum.split)
qed

lemma untouched_trans: "untouched u v \<Longrightarrow> untouched v w \<Longrightarrow> untouched u w"
  by (simp add: untouched_def)

lemma cleanup_root_step:
  assumes wf: "wf_fs (w_fs w)" and policies: "policies_ok policies" and tallied: "tallied report"
  obtains report' tick' events where "cleanup_root parse_rules now policies root (report, w\<lparr>w_tick := tick\<rparr>)
      = Some (report', w\<lparr>w_tick := tick'\<rparr>)"
    "folder_events parse_rules now policies w root events" "al_proposals report' = al_proposals report @ events"
    "tallied report'" "al_inspected_count report' = Suc (al_inspected_count report)"
proof (cases "mr_enabled root \<and> mr_room_binding_status root = Active")
  case False
  then show thesis using tallied
    by (intro that [of "report\<lparr>al_inspected_count := al_inspected_count report + 1\<rparr>" tick "[]"])
      (auto simp: cleanup_root_def folder_events_def tallied_def Let_def)
next
  case True
  obtain out w1 where run: "propose_for_root parse_rules (mr_root root) (w\<lparr>w_tick := tick\<rparr>) = Some (out, w1)"
    using propose_for_root_returns [of "w\<lparr>w_tick := tick\<rparr>"] wf by fastforce
  obtain tick' where w1: "w1 = w\<lparr>w_tick := tick'\<rparr>" using propose_for_root_ticks [OF run] by auto
  show thesis
  proof (cases "\<exists>proposal. out = Inr proposal \<and> pr_proposals proposal \<noteq> []")
    case False
    let ?report = "report\<lparr>al_inspected_count := al_inspected_count report + 1\<rparr>"
    have "folder_events parse_rules now policies w root []"
      unfolding folder_events_def using False run by (auto split: sum.splits intro!: exI [of _ tick])
    then show thesis using False True run w1 tallied
      by (intro that [of "if is_ok out then ?report else ?report\<lparr>al_failed_count := al_failed_count report + 1\<rparr>" tick' "[]"])
        (auto simp: cleanup_root_def tallied_def Let_def is_ok_def split: sum.splits)
  next
    case found: True
    then obtain proposal where proposal: "out = Inr proposal" "pr_proposals proposal \<noteq> []" by blast
    let ?report = "report\<lparr>al_inspected_count := al_inspected_count report + 1,
      al_proposed_root_count := al_proposed_root_count report + 1,
      al_proposal_count := al_proposal_count report + length (pr_proposals proposal)\<rparr>"
    let ?ev = "cleanup_event now policies (mr_root_id root) proposal"
    obtain eligible failed where approved: "approve_root now policies (mr_root_id root) proposal ?report
      = (?report\<lparr>al_eligible_root_count := eligible, al_failed_count := failed, al_approved_count :=
           al_approved_count report + length (approvals now policies (mr_root_id root) proposal)\<rparr>,
         approvals now policies (mr_root_id root) proposal)"
      using approve_root_exact [OF policies, of now "mr_root_id root" proposal ?report] by auto
    have "folder_events parse_rules now policies w root [?ev]"
      unfolding folder_events_def using True proposal run by (auto intro!: exI [of _ tick])
    then show thesis using True run proposal w1 approved tallied
      by (intro that [of "?report\<lparr>al_eligible_root_count := eligible, al_failed_count := failed, al_approved_count :=
           al_approved_count report + length (approvals now policies (mr_root_id root) proposal),
           al_proposals := al_proposals report @ [?ev]\<rparr>" tick' "[?ev]"])
        (simp_all add: cleanup_root_def cleanup_event_def tallied_def Let_def)
  qed
qed

lemma cleanup_roots_run:
  assumes "wf_fs (w_fs w)" "policies_ok policies" "tallied report"
  shows "\<exists>report' tick' events. cleanup_roots parse_rules now policies roots (report, w\<lparr>w_tick := tick\<rparr>)
      = Some (report', w\<lparr>w_tick := tick'\<rparr>)
    \<and> list_all2 (folder_events parse_rules now policies w) roots events
    \<and> al_proposals report' = al_proposals report @ concat events \<and> tallied report'
    \<and> al_inspected_count report' = al_inspected_count report + length roots"
  using assms(3)
proof (induction roots arbitrary: report tick)
  case (Cons root roots)
  obtain r1 tick1 first where one: "cleanup_root parse_rules now policies root (report, w\<lparr>w_tick := tick\<rparr>) = Some (r1, w\<lparr>w_tick := tick1\<rparr>)"
    "folder_events parse_rules now policies w root first" "al_proposals r1 = al_proposals report @ first" "tallied r1"
    "al_inspected_count r1 = Suc (al_inspected_count report)"
    using cleanup_root_step [OF assms(1,2) Cons.prems] .
  from Cons.IH [OF one(4), of tick1] obtain r2 tick2 later where
    rest: "cleanup_roots parse_rules now policies roots (r1, w\<lparr>w_tick := tick1\<rparr>) = Some (r2, w\<lparr>w_tick := tick2\<rparr>)"
    "list_all2 (folder_events parse_rules now policies w) roots later"
    "al_proposals r2 = al_proposals r1 @ concat later" "tallied r2"
    "al_inspected_count r2 = al_inspected_count r1 + length roots" by blast
  with one show ?case
    by (intro exI [of _ r2] exI [of _ tick2] exI [of _ "first # later"]) auto
qed auto

section \<open>Properties\<close>

definition fresh_policies :: "sql_faults \<Rightarrow> policy_store" where
  "fresh_policies faults = \<lparr>po_policies = Map.empty, po_db = unopened faults\<rparr>"

text \<open>C35: Policies stay well-formed. From an empty store, after any sequence of loads of any database contents, patches
  and removals, with any of their statements failing, every policy in memory is filed under its own folder,
  allows at least one action and has a positive limit.\<close>

theorem policies_stay_valid: "policies_ok (fold (policy_exec c) calls (fresh_policies faults))"
  by (rule policy_calls.run_inv) (simp_all add: list_all_iff policies_ok_def fresh_policies_def)

text \<open>C36: The background scan proposes, completely, and only proposes. On a well-formed tree and with well-formed
  policies it returns a report, and nothing but the clock has moved: files and databases are as before. The report has,
  in the order of the registered folders, exactly one event for each folder that is enabled, actively bound, can be
  scanned and has proposals, and no other. The event carries all the proposals of a scan of that folder, and marks as
  approved exactly the ready ones with an action the folder's policy allows, provided the policy is enabled, has
  not expired and admits that many; otherwise none. Nothing counts as executed, and the report's counters are the sums over its
  events.\<close>

theorem auto_cleanup_only_proposes:
  assumes "wf_fs (w_fs w)" "policies_ok policies"
  shows "\<exists>report tick events. process_auto_cleanup parse_rules now roots policies w = Some (Inr report, w\<lparr>w_tick := tick\<rparr>)
    \<and> list_all2 (folder_events parse_rules now policies w) (rt_roots roots) events
    \<and> al_proposals report = concat events \<and> tallied report \<and> al_inspected_count report = length (rt_roots roots)"
proof -
  have "tallied empty_cleanup" by (simp add: tallied_def empty_cleanup_def)
  from cleanup_roots_run [OF assms this, of parse_rules now "rt_roots roots" "w_tick w"] show ?thesis
    by (auto simp: process_auto_cleanup_def list_roots_def empty_cleanup_def)
qed

text \<open>A folder with one PDF, a rule that moves PDFs to the trash and a policy that allows it.\<close>

definition tidy_rules :: RuleSet where
  "tidy_rules = \<lparr>rs_version = CURRENT_RULES_VERSION,
     rs_rules = [\<lparr>rule_id = ''tidy'', rule_priority = 10, rule_when = Condition_default\<lparr>extension_in := Some [''pdf'']\<rparr>,
                  rule_then = \<lparr>move_to = None, act_trash = True, create_dir = None\<rparr>\<rparr>]\<rparr>"

definition tidy_world :: world where
  "tidy_world = sample_world\<lparr>w_fs := sample_fs @
     [([''home'', ''box'', STATE_DIR, RULES_FILE], RegularFile ''rules'' (sample_attrs 9))]\<rparr>"

definition tidy_policies :: policy_store where
  "tidy_policies = (fresh_policies [])\<lparr>po_policies := [''box'' \<mapsto> (default_for_root 1 ''box'')\<lparr>ay_enabled := True\<rparr>]\<rparr>"

definition tidy_root :: ManagedRoot where
  "tidy_root = (managed_root_new 7 ''box'' ''/home/box'' ''Box'')\<lparr>mr_room_binding_status := Active, mr_room_id := Some ''r''\<rparr>"

lemma tidy_scan:
  assumes "propose_for_root (\<lambda>_. Inr tidy_rules) ''/home/box'' (tidy_world\<lparr>w_tick := tick\<rparr>) = Some (out, w')"
  obtains proposal p where "out = Inr proposal" "pr_proposals proposal = [p]" "p_status p = ProposalStatus.Ready"
    "p_action p = ProposalAction.Trash" "p_from p = ''notes.pdf''"
proof -
  let ?w = "tidy_world\<lparr>w_tick := tick\<rparr>" and ?rule = "hd (rs_rules tidy_rules)"
  have rules: "load_rule_set_for_root (\<lambda>_. Inr tidy_rules) ?w ''/home/box'' = Inr tidy_rules"
    "rule_set_validate tidy_rules = Inr ()" by code_simp+
  have scan: "case analyze_root ?w ''/home/box'' of Some (Inr report) \<Rightarrow>
      map fe_path (ar_files report) = [''docs/old.txt'', ''notes.pdf'']
      \<and> map (\<lambda>file. rule_matches ?rule file (report_context report now)) (ar_files report) = [False, True] | _ \<Rightarrow> False" for now
    by code_simp
  obtain report where report: "analyze_root ?w ''/home/box'' = Some (Inr report)"
    using scan [of 0] by (auto split: option.splits sum.splits)
  obtain old pdf where files: "ar_files report = [old, pdf]" "fe_path pdf = ''notes.pdf''"
    using scan [of 0] by (auto simp: report map_eq_Cons_conv)
  have matches: "\<not> rule_matches ?rule old (report_context report now)" "rule_matches ?rule pdf (report_context report now)" for now
    using scan [of now] by (simp_all add: report files(1))
  have one: "propose tidy_rules entry ctx = proposal_from_rule ?rule entry ctx" for entry ctx
    by (simp add: propose_def tidy_rules_def split: option.split)
  have "proposal_from_rule ?rule old (report_context report now) = None" for now
    using matches(1) by (simp add: proposal_from_rule_def)
  moreover have "proposal_from_rule ?rule pdf (report_context report now) = trash_proposal_from_rule ?rule pdf" for now
    using matches(2) [of now] by (simp add: proposal_from_rule_def) (simp add: tidy_rules_def)
  moreover obtain p where p: "trash_proposal_from_rule ?rule pdf = Some p" "p_status p = ProposalStatus.Ready"
    "p_action p = ProposalAction.Trash" "p_from p = ''notes.pdf''"
    using files(2) by (simp add: trash_proposal_from_rule_def)
  ultimately have "\<exists>proposal. out = Inr proposal \<and> pr_proposals proposal = [p]"
    using assms report files(1) rules one
    by (auto simp: propose_for_root_def propose_for_root_with_rule_set_def propose_for_analysis_with_rule_set_def
        bindA_def readA_def returnA_def unix_ms_def map_filter_simps)
  with p(2-4) show thesis using that by blast
qed

theorem auto_cleanup_only_proposes_witness:
  "\<exists>report tick ev. process_auto_cleanup (\<lambda>_. Inr tidy_rules) 5 \<lparr>rt_roots = [tidy_root], rt_db = unopened []\<rparr>
      tidy_policies tidy_world = Some (Inr report, tidy_world\<lparr>w_tick := tick\<rparr>)
    \<and> al_proposals report = [ev] \<and> av_root_id ev = ''box'' \<and> length (pr_proposals (av_proposal ev)) = 1
    \<and> av_auto_approved_proposal_ids ev = map p_proposal_id (pr_proposals (av_proposal ev)) \<and> al_approved_count report = 1"
proof -
  have "policies_ok tidy_policies" 
    by (simp add: policies_ok_def policy_ok_def tidy_policies_def fresh_policies_def default_for_root_def)
  moreover have "wf_fs (w_fs tidy_world)" by (rule wf_fs_check) code_simp
  ultimately obtain report tick events where run: "process_auto_cleanup (\<lambda>_. Inr tidy_rules) 5
      \<lparr>rt_roots = [tidy_root], rt_db = unopened []\<rparr> tidy_policies tidy_world = Some (Inr report, tidy_world\<lparr>w_tick := tick\<rparr>)"
    and events: "list_all2 (folder_events (\<lambda>_. Inr tidy_rules) 5 tidy_policies tidy_world) [tidy_root] events"
    and report: "al_proposals report = concat events" "tallied report"
    using auto_cleanup_only_proposes [of tidy_world tidy_policies "\<lambda>_. Inr tidy_rules" 5 "\<lparr>rt_roots = [tidy_root], rt_db = unopened []\<rparr>"]
    by auto
  have root: "mr_enabled tidy_root" "mr_room_binding_status tidy_root = Active" "mr_root tidy_root = ''/home/box''"
    "mr_root_id tidy_root = ''box''" by (simp_all add: tidy_root_def managed_root_new_def)
  obtain found where found: "events = [found]" "folder_events (\<lambda>_. Inr tidy_rules) 5 tidy_policies tidy_world tidy_root found"
    using events by (auto simp: list_all2_Cons1)
  obtain t out w' where scan: "propose_for_root (\<lambda>_. Inr tidy_rules) ''/home/box'' (tidy_world\<lparr>w_tick := t\<rparr>) = Some (out, w')"
    and out: "found = (case out of Inl error \<Rightarrow> [] | Inr proposal \<Rightarrow> if pr_proposals proposal = [] then []
        else [cleanup_event 5 tidy_policies ''box'' proposal])"
    using found(2) root(1,2) unfolding folder_events_def root(3,4) by auto
  obtain proposal p where p: "out = Inr proposal" "pr_proposals proposal = [p]" "p_status p = ProposalStatus.Ready"
    "p_action p = ProposalAction.Trash" by (rule tidy_scan [OF scan])
  have ids: "approvals 5 tidy_policies ''box'' proposal = [p_proposal_id p]"
    using p by (simp add: approvals_def get_or_default_def tidy_policies_def fresh_policies_def default_for_root_def is_expired_def)
  have "al_proposals report = [cleanup_event 5 tidy_policies ''box'' proposal]" using report(1) found(1) out p by simp
  with run report(2) ids p(2) show ?thesis
    by (intro exI [of _ report] exI [of _ tick] exI [of _ "cleanup_event 5 tidy_policies ''box'' proposal"])
      (simp add: cleanup_event_def tallied_def)
qed

text \<open>A refused patch can switch automatic approval on. A patch that enables the policy and gives an empty list
  of actions is refused, and nothing is written to the database; but the policy in memory is enabled
  from then on, until the next restart.\<close>

theorem refused_patch_enables:
  "\<exists>e s'. patch c created now i \<lparr>pt_enabled = Some True, pt_allowed_actions = Some [], pt_max_files_per_run = None,
       pt_expires_unix_ms = None\<rparr> s = (Inl e, s')
     \<and> po_db s' = po_db s \<and> ay_enabled (get_or_default later i s')"
  by (simp add: patch_def patch_policy_def get_or_default_def split: option.split)

end
