(* ===== verification/Sync_Cursor.thy ===== *)
theory Sync_Cursor
  imports Desktop "HOL-Library.Multiset"
begin

text \<open>
  The store of the event stream's position (\<^verbatim>\<open>storage/agent_sync.rs\<close>): for every device the number of the last
  event that was applied, in memory and in the table \<^verbatim>\<open>sync_cursors\<close>.

  \<^verbatim>\<open>advance\<close> and \<^verbatim>\<open>clear_device\<close> are asynchronous: they give up control while their statement runs, and the
  background loop and a command of the user interface may both be inside one of them. A call is therefore split into
  its atomic parts, and a step relation interleaves the parts of any number of calls.

  Shown here: under every interleaving the stored position of a device only grows until the device is cleared;
  the position in memory does not have this property; calls that do not overlap move both together.
\<close>

section \<open>The store\<close>

definition SYNC_STREAM :: string where
  "SYNC_STREAM = ''user-events''"

record cursor_row =
  cu_device_id :: string
  cu_stream :: string
  cu_last_sequence :: int

record sync_store =
  sy_cursors :: "string \<rightharpoonup> nat"
  sy_db :: "cursor_row list store"

type_synonym 'a sync_op = "sync_store \<Rightarrow> (string + 'a) \<times> sync_store"

definition load_row :: "cursor_row \<Rightarrow> string + string \<times> nat" where
  "load_row row =
     (if cu_last_sequence row < 0 then Inl ''encountered unexpected or invalid data: negative sync cursor in database''
      else Inr (cu_device_id row, nat (cu_last_sequence row)))"

text \<open>\<open>disk\<close> is what the database file holds, \<^const>\<open>None\<close> when there is no such table yet.\<close>

definition load_cursors :: "cursor_row list option \<Rightarrow> unit sync_op" where
  "load_cursors disk s =
     (let rows = (case disk of None \<Rightarrow> [] | Some rows \<Rightarrow> rows)
      in case execute_sql [[], [], []] (\<lambda>t. ((), t)) rows (sy_db s) of
           (Inl e, db) \<Rightarrow> (Inl e, s\<lparr>sy_db := (sy_db s)\<lparr>st_faults := st_faults db\<rparr>\<rparr>)
         | (Inr _, db) \<Rightarrow>
             (case collect_results (map load_row (filter (\<lambda>row. cu_stream row = SYNC_STREAM) rows)) of
                Inl e \<Rightarrow> (Inl e, s\<lparr>sy_db := (sy_db s)\<lparr>st_faults := st_faults db\<rparr>\<rparr>)
              | Inr loaded \<Rightarrow> (Inr (), s\<lparr>sy_cursors := map_of (rev loaded), sy_db := db\<rparr>)))"

definition cursor :: "string \<Rightarrow> sync_store \<Rightarrow> nat" where
  "cursor device_id s = (case sy_cursors s device_id of None \<Rightarrow> 0 | Some sequence \<Rightarrow> sequence)"

text \<open>The statement of \<^verbatim>\<open>advance\<close>: insert, or update when the new position is not smaller.\<close>

definition is_cursor_of :: "string \<Rightarrow> cursor_row \<Rightarrow> bool" where
  "is_cursor_of device_id row \<longleftrightarrow> cu_device_id row = device_id \<and> cu_stream row = SYNC_STREAM"

definition upsert_cursor :: "string \<Rightarrow> int \<Rightarrow> cursor_row list \<Rightarrow> cursor_row list" where
  "upsert_cursor device_id sequence rows =
     (if list_ex (is_cursor_of device_id) rows
      then map (\<lambda>row. if is_cursor_of device_id row \<and> cu_last_sequence row \<le> sequence
                      then row\<lparr>cu_last_sequence := sequence\<rparr> else row) rows
      else rows @ [\<lparr>cu_device_id = device_id, cu_stream = SYNC_STREAM, cu_last_sequence = sequence\<rparr>])"

section \<open>The atomic parts of a call\<close>

definition advance_check :: "string \<Rightarrow> nat \<Rightarrow> sync_store \<Rightarrow> string + int" where
  "advance_check device_id sequence s =
     (if sequence < cursor device_id s
      then Inl (''sync cursor cannot move backwards: current='' @ dec (cursor device_id s) @ '', requested='' @ dec sequence)
      else if 2 ^ 63 \<le> sequence then Inl ''sync cursor exceeds SQLite integer range''
      else Inr (int sequence))"

definition advance_write :: "string \<Rightarrow> int \<Rightarrow> unit sync_op" where
  "advance_write device_id sequence_i64 s =
     (case st_pool (sy_db s) of
        None \<Rightarrow> (Inr (), s)
      | Some rows \<Rightarrow>
          (case execute_sql [[]] (\<lambda>rows. ((), upsert_cursor device_id sequence_i64 rows)) rows (sy_db s) of
             (out, db) \<Rightarrow> (out, s\<lparr>sy_db := db\<rparr>)))"

definition advance_publish :: "string \<Rightarrow> nat \<Rightarrow> sync_store \<Rightarrow> sync_store" where
  "advance_publish device_id sequence s = s\<lparr>sy_cursors := (sy_cursors s)(device_id \<mapsto> sequence)\<rparr>"

definition clear_delete :: "string \<Rightarrow> unit sync_op" where
  "clear_delete device_id s =
     (case st_pool (sy_db s) of
        None \<Rightarrow> (Inr (), s)
      | Some rows \<Rightarrow>
          (case execute_sql [[]] (\<lambda>rows. ((), filter (\<lambda>row. cu_device_id row \<noteq> device_id) rows)) rows (sy_db s) of
             (out, db) \<Rightarrow> (out, s\<lparr>sy_db := db\<rparr>)))"

definition clear_forget :: "string \<Rightarrow> sync_store \<Rightarrow> sync_store" where
  "clear_forget device_id s = s\<lparr>sy_cursors := (sy_cursors s)(device_id := None)\<rparr>"

section \<open>Whole calls\<close>

definition advance :: "string \<Rightarrow> nat \<Rightarrow> nat sync_op" where
  "advance device_id sequence s =
     (case advance_check device_id sequence s of
        Inl e \<Rightarrow> (Inl e, s)
      | Inr sequence_i64 \<Rightarrow>
          (case advance_write device_id sequence_i64 s of
             (Inl e, s1) \<Rightarrow> (Inl e, s1)
           | (Inr _, s1) \<Rightarrow> (Inr sequence, advance_publish device_id sequence s1)))"

definition clear_device :: "string \<Rightarrow> unit sync_op" where
  "clear_device device_id s =
     (case clear_delete device_id s of
        (Inl e, s1) \<Rightarrow> (Inl e, s1) | (Inr _, s1) \<Rightarrow> (Inr (), clear_forget device_id s1))"

section \<open>Overlapping calls\<close>

text \<open>A call in flight, by the part it does next.\<close>

datatype sync_task =
  Writing string nat | Publishing string nat | Deleting string | Forgetting string

text \<open>The label of a step is the device whose row it deletes, if any.\<close>

inductive sync_step :: "string option \<Rightarrow> sync_store \<times> sync_task multiset \<Rightarrow> sync_store \<times> sync_task multiset \<Rightarrow> bool" where
  call_advance: "advance_check d n s = Inr k \<Longrightarrow> sync_step None (s, ts) (s, add_mset (Writing d n) ts)"
| wrote: "advance_write d (int n) s = (Inr u, s') \<Longrightarrow>
    sync_step None (s, add_mset (Writing d n) ts) (s', add_mset (Publishing d n) ts)"
| write_failed: "advance_write d (int n) s = (Inl e, s') \<Longrightarrow> sync_step None (s, add_mset (Writing d n) ts) (s', ts)"
| published: "sync_step None (s, add_mset (Publishing d n) ts) (advance_publish d n s, ts)"
| call_clear: "sync_step None (s, ts) (s, add_mset (Deleting d) ts)"
| deleted: "clear_delete d s = (Inr u, s') \<Longrightarrow>
    sync_step (Some d) (s, add_mset (Deleting d) ts) (s', add_mset (Forgetting d) ts)"
| delete_failed: "clear_delete d s = (Inl e, s') \<Longrightarrow> sync_step None (s, add_mset (Deleting d) ts) (s', ts)"
| forgotten: "sync_step None (s, add_mset (Forgetting d) ts) (clear_forget d s, ts)"

inductive_cases sync_stepE: "sync_step l st st'"

text \<open>The steps that do not delete the row of a device, and the position stored for it.\<close>

definition keeps_device :: "string \<Rightarrow> sync_store \<times> sync_task multiset \<Rightarrow> sync_store \<times> sync_task multiset \<Rightarrow> bool" where
  "keeps_device d st st' \<longleftrightarrow> (\<exists>l. sync_step l st st' \<and> l \<noteq> Some d)"

definition stored_position :: "string \<Rightarrow> sync_store \<Rightarrow> int option" where
  "stored_position d s =
     Option.bind (st_pool (sy_db s)) (\<lambda>rows. map_option cu_last_sequence (find (is_cursor_of d) rows))"

definition not_before :: "int option \<Rightarrow> int option \<Rightarrow> bool" where
  "not_before old new = (case old of None \<Rightarrow> True | Some n \<Rightarrow> (case new of None \<Rightarrow> False | Some m \<Rightarrow> n \<le> m))"

lemma not_before_trans: "not_before a b \<Longrightarrow> not_before b c \<Longrightarrow> not_before a c"
  by (auto simp: not_before_def split: option.splits)

lemma not_before_refl [simp]: "not_before a a"
  by (simp add: not_before_def split: option.split)

lemma find_append: "find P (xs @ ys) = (case find P xs of None \<Rightarrow> find P ys | Some x \<Rightarrow> Some x)"
  by (induction xs) auto

lemma find_map_keeping: "(\<And>x. P (f x) \<longleftrightarrow> P x) \<Longrightarrow> find P (map f xs) = map_option f (find P xs)"
  by (induction xs) auto

lemma upsert_cursor_position:
  "not_before (map_option cu_last_sequence (find (is_cursor_of d) rows))
     (map_option cu_last_sequence (find (is_cursor_of d) (upsert_cursor device sequence rows)))"
proof (cases "list_ex (is_cursor_of device) rows")
  case True
  let ?f = "\<lambda>row. if is_cursor_of device row \<and> cu_last_sequence row \<le> sequence then row\<lparr>cu_last_sequence := sequence\<rparr> else row"
  have "find (is_cursor_of d) (map ?f rows) = map_option ?f (find (is_cursor_of d) rows)"
    by (rule find_map_keeping) (simp add: is_cursor_of_def)
  then show ?thesis using True by (auto simp: upsert_cursor_def not_before_def split: option.split)
qed (auto simp: upsert_cursor_def not_before_def find_append split: option.split)

lemma find_filter_other:
  "d \<noteq> device \<Longrightarrow> find (is_cursor_of d) (filter (\<lambda>row. cu_device_id row \<noteq> device) rows) = find (is_cursor_of d) rows"
  by (induction rows) (auto simp: is_cursor_of_def)

lemma advance_write_position:
  assumes "advance_write device n s = (out, s')"
  shows "not_before (stored_position d s) (stored_position d s')"
  using assms upsert_cursor_position [of d _ device n]
  by (auto simp: advance_write_def stored_position_def execute_sql_def split: option.splits prod.splits sum.splits)

lemma clear_delete_position:
  assumes "clear_delete device s = (out, s')" "device \<noteq> d \<or> \<not> is_ok out"
  shows "not_before (stored_position d s) (stored_position d s')"
  using assms find_filter_other [of d device]
  by (auto simp: clear_delete_def stored_position_def execute_sql_def is_ok_def split: option.splits prod.splits sum.splits)

lemma memory_parts_position:
  "stored_position d (advance_publish device n s) = stored_position d s"
  "stored_position d (clear_forget device s) = stored_position d s"
  by (simp_all add: advance_publish_def clear_forget_def stored_position_def)

lemma keeps_device_step: "keeps_device d st st' \<Longrightarrow> not_before (stored_position d (fst st)) (stored_position d (fst st'))"
  unfolding keeps_device_def
  by (auto elim!: sync_stepE intro: advance_write_position clear_delete_position simp: memory_parts_position is_ok_def)

lemma keeps_device_run:
  "(keeps_device d)\<^sup>*\<^sup>* st st' \<Longrightarrow> not_before (stored_position d (fst st)) (stored_position d (fst st'))"
  by (induction rule: rtranclp_induct) (auto intro: not_before_trans keeps_device_step)

section \<open>Calls that do not overlap\<close>

lemma advance_ok:
  "advance d n s = (Inr k, s') \<Longrightarrow> k = n \<and> cursor d s \<le> n \<and> sy_cursors s' = (sy_cursors s)(d \<mapsto> n)"
  by (auto simp: advance_def advance_check_def advance_write_def advance_publish_def
      split: sum.splits if_splits prod.splits option.splits)

lemma advance_failed: "advance d n s = (Inl e, s') \<Longrightarrow> sy_cursors s' = sy_cursors s"
  by (auto simp: advance_def advance_check_def advance_write_def
      split: sum.splits if_splits prod.splits option.splits)

lemma clear_device_memory: "sy_cursors (snd (clear_device d s)) \<in> {sy_cursors s, (sy_cursors s)(d := None)}"
  by (auto simp: clear_device_def clear_delete_def clear_forget_def split: sum.splits prod.splits option.splits)

section \<open>Properties\<close>

definition running_sync :: "sync_store \<times> sync_task multiset" where
  "running_sync = (\<lparr>sy_cursors = Map.empty, sy_db = opened_store []\<rparr>, {#})"

text \<open>C33: The stored position of a device never goes back. Whatever calls overlap and however their parts
  interleave, with any of their statements failing, the position in the table does not
  decrease and does not vanish, as long as no step deletes the device's row.\<close>

theorem stored_position_grows:
  assumes "(keeps_device d)\<^sup>*\<^sup>* st st'" "stored_position d (fst st) = Some n"
  shows "\<exists>m \<ge> n. stored_position d (fst st') = Some m"
  using keeps_device_run [OF assms(1)] assms(2) by (auto simp: not_before_def split: option.splits)

definition table_at :: "(string \<rightharpoonup> nat) \<Rightarrow> int \<Rightarrow> sync_store" where
  "table_at cursors n = \<lparr>sy_cursors = cursors, sy_db = opened_store
     [\<lparr>cu_device_id = ''d1'', cu_stream = SYNC_STREAM, cu_last_sequence = n\<rparr>]\<rparr>"

lemma table_at_simps:
  "stored_position ''d1'' (table_at c n) = Some n"
  "advance_publish ''d1'' k (table_at c n) = table_at (c(''d1'' \<mapsto> k)) n"
  "cursor ''d1'' (table_at c n) = (case c ''d1'' of None \<Rightarrow> 0 | Some k \<Rightarrow> k)"
  by (simp_all add: table_at_def stored_position_def is_cursor_of_def advance_publish_def cursor_def)

lemma table_at_writes:
  "advance_write ''d1'' n \<lparr>sy_cursors = c, sy_db = opened_store []\<rparr> = (Inr (), table_at c n)"
  "advance_write ''d1'' n (table_at c m) = (Inr (), table_at c (max n m))"
  by (simp_all add: table_at_def advance_write_def upsert_cursor_def is_cursor_of_def max_def)

lemma stepI: "sync_step None st st' \<Longrightarrow> (keeps_device d)\<^sup>*\<^sup>* st' st'' \<Longrightarrow> (keeps_device d)\<^sup>*\<^sup>* st st''"
  by (rule converse_rtranclp_into_rtranclp) (auto simp: keeps_device_def)

text \<open>Two calls pass the check and their rows are written, the later event's first.\<close>

lemma overlapping_writes:
  "(keeps_device ''d1'')\<^sup>*\<^sup>* running_sync (table_at Map.empty 20, {#Publishing ''d1'' 10, Publishing ''d1'' 20#})"
proof -
  let ?s = "\<lparr>sy_cursors = Map.empty, sy_db = opened_store []\<rparr>"
  have 1: "sync_step None (?s, {#}) (?s, {#Writing ''d1'' 10#})"
    by (rule sync_step.call_advance [where k = 10]) (simp add: advance_check_def cursor_def)
  have 2: "sync_step None (?s, {#Writing ''d1'' 10#}) (?s, {#Writing ''d1'' 20, Writing ''d1'' 10#})"
    by (rule sync_step.call_advance [where k = 20]) (simp add: advance_check_def cursor_def)
  have 3: "sync_step None (?s, {#Writing ''d1'' 20, Writing ''d1'' 10#})
      (table_at Map.empty 20, {#Publishing ''d1'' 20, Writing ''d1'' 10#})"
    by (rule sync_step.wrote) (simp add: table_at_writes)
  have 4: "sync_step None (table_at Map.empty 20, {#Writing ''d1'' 10, Publishing ''d1'' 20#})
      (table_at Map.empty 20, {#Publishing ''d1'' 10, Publishing ''d1'' 20#})"
    by (rule sync_step.wrote) (simp add: table_at_writes)
  show ?thesis unfolding running_sync_def
    by (rule stepI [OF 1 stepI [OF 2 stepI [OF 3 stepI [OF 4 [unfolded add_mset_commute [of "Writing ''d1'' 10"]]
          rtranclp.rtrancl_refl]]]])
qed

text \<open>The position in memory can go back. Two overlapping calls that both advance can leave memory
  at the earlier event: after the position 20 was in force, the position 10 is, while the table keeps 20. Events are then
  replayed although they had been applied.\<close>

theorem memory_position_goes_back:
  "\<exists>st st'. (keeps_device ''d1'')\<^sup>*\<^sup>* running_sync st \<and> (keeps_device ''d1'')\<^sup>*\<^sup>* st st'
     \<and> cursor ''d1'' (fst st) = 20 \<and> cursor ''d1'' (fst st') = 10 \<and> stored_position ''d1'' (fst st') = Some 20"
proof -
  let ?st = "(table_at [''d1'' \<mapsto> 20] 20, {#Publishing ''d1'' 10#})"
  let ?st' = "(table_at [''d1'' \<mapsto> 10] 20, {#})"
  have last: "sync_step None (table_at Map.empty 20, {#Publishing ''d1'' 10, Publishing ''d1'' 20#}) ?st"
    unfolding add_mset_commute [of "Publishing ''d1'' 10"]
    using sync_step.published [of "table_at Map.empty 20" "''d1''" 20 "{#Publishing ''d1'' 10#}"] by (simp add: table_at_simps)
  have "(keeps_device ''d1'')\<^sup>*\<^sup>* running_sync ?st"
    by (rule rtranclp_trans [OF overlapping_writes stepI [OF last rtranclp.rtrancl_refl]])
  moreover have "sync_step None ?st ?st'"
    using sync_step.published [of "table_at [''d1'' \<mapsto> 20] 20" "''d1''" 10 "{#}"] by (simp add: table_at_simps)
  then have "(keeps_device ''d1'')\<^sup>*\<^sup>* ?st ?st'" by (rule stepI [OF _ rtranclp.rtrancl_refl])
  ultimately show ?thesis by (intro exI [of _ ?st] exI [of _ ?st']) (simp add: table_at_simps)
qed

theorem stored_position_grows_witness:
  "\<exists>m \<ge> 20. stored_position ''d1'' (fst (table_at [''d1'' \<mapsto> 20] 20, {#Publishing ''d1'' 10#})) = Some m"
proof -
  have "sync_step None (table_at Map.empty 20, {#Publishing ''d1'' 20, Publishing ''d1'' 10#})
      (table_at [''d1'' \<mapsto> 20] 20, {#Publishing ''d1'' 10#})"
    using sync_step.published [of "table_at Map.empty 20" "''d1''" 20 "{#Publishing ''d1'' 10#}"] by (simp add: table_at_simps)
  then have "(keeps_device ''d1'')\<^sup>*\<^sup>* (table_at Map.empty 20, {#Publishing ''d1'' 20, Publishing ''d1'' 10#})
      (table_at [''d1'' \<mapsto> 20] 20, {#Publishing ''d1'' 10#})" by (rule stepI [OF _ rtranclp.rtrancl_refl])
  from stored_position_grows [OF this] show ?thesis by (simp add: table_at_simps)
qed

end
