(* ===== verification/Event_Replay.thy ===== *)
theory Event_Replay
  imports File_Index Rule_Engine Managed_Roots Agent_Laws Sync_Cursor
begin

text \<open>
  The replay of the server's events on the desktop: the background loop's \<^verbatim>\<open>replay_events\<close>
  (\<^verbatim>\<open>background.rs\<close>), the command \<^verbatim>\<open>replay_agent_events\<close> and what an event does locally (\<^verbatim>\<open>commands/agent.rs\<close>): a
  removed room is detached, a created rule is merged into the rules of its folder, a revoked device gives up all its bindings
  and its credential; and the watcher store (\<^verbatim>\<open>storage/watchers.rs\<close>), of which only the set of watched roots matters.

  The state holds the connection, the registered roots, the position in the event stream, the watchers, the file tree and
  the notifications sent to the user interface. One replay runs at a time here.

  Shown here: the position moves past events only when all of them were applied, and a failing replay leaves it where it
  was; after a replay no folder is bound to a room whose removal it contained; a detachment whose write fails once is never
  written, so that the room is back after a restart; an event for a rule of an unknown room blocks the replay.
\<close>

section \<open>State\<close>

record AgentChatMessageSyncUpdate =
  cu_room_id :: string
  cu_session_id :: string
  cu_message_id :: string

datatype notification =
  Binding_Changed "string option" | Chat_Message_Created AgentChatMessageSyncUpdate | Device_Revoked "string option"

record 'n replica =
  rp_agent :: "'n agent"
  rp_roots :: root_store
  rp_sync :: sync_store
  rp_watchers :: "string set"
  rp_world :: world
  rp_notified :: "notification list"

type_synonym ('n, 'a) replica_op = "'n replica \<Rightarrow> (string + 'a) \<times> 'n replica"

definition thenR :: "('n, 'a) replica_op \<Rightarrow> ('a \<Rightarrow> ('n, 'b) replica_op) \<Rightarrow> ('n, 'b) replica_op" where
  "thenR m f s = (case m s of (Inl e, s1) \<Rightarrow> (Inl e, s1) | (Inr x, s1) \<Rightarrow> f x s1)"

record RuleResponse =
  rr_id :: string
  rr_room_id :: string
  rr_name :: string
  rr_definition :: json
  rr_priority :: int
  rr_enabled :: bool
  rr_version :: int

record AgentRule =
  rl_rule_id :: string
  rl_room_id :: string
  rl_name :: string
  rl_definition :: json
  rl_priority :: int
  rl_enabled :: bool
  rl_version :: int

text \<open>The codecs of the answers, of the rules file and of rule definitions, and the clock of the root store.\<close>

record replaying =
  ep_events :: "string \<Rightarrow> SyncEvent list option"
  ep_rules :: "string \<Rightarrow> RuleResponse list option"
  ep_parse_rules :: "string \<Rightarrow> string + RuleSet"
  ep_encode_rules :: "RuleSet \<Rightarrow> string + string"
  ep_parse_contract :: "json \<Rightarrow> string + ContractRuleDefinition"
  ep_now :: "string \<Rightarrow> int"

section \<open>Watchers\<close>

definition watchers_start :: "string \<Rightarrow> string set \<Rightarrow> string set" where
  "watchers_start root_id watchers = insert root_id watchers"

definition watchers_stop :: "string \<Rightarrow> string set \<Rightarrow> bool \<times> string set" where
  "watchers_stop root_id watchers = (root_id \<in> watchers, watchers - {root_id})"

definition is_watching :: "string \<Rightarrow> string set \<Rightarrow> bool" where
  "is_watching root_id watchers \<longleftrightarrow> root_id \<in> watchers"

section \<open>Removed rooms and revoked devices\<close>

record LocalRoomDetachReport =
  ld_root_id :: string
  ld_room_id :: string
  ld_watcher_stopped :: bool
  ld_index_cleared :: bool

text \<open>The disposable state of a folder: its watcher and its index.\<close>

definition discard_local :: "ManagedRoot \<Rightarrow> 'n replica \<Rightarrow> (bool \<times> bool) \<times> 'n replica" where
  "discard_local root s =
     (let (stopped, watchers) = watchers_stop (mr_root_id root) (rp_watchers s);
          (out, w) = clear_index (mr_root root) (rp_world s)
      in ((stopped, is_ok out), s\<lparr>rp_watchers := watchers, rp_world := w\<rparr>))"

definition apply_local_room_detached :: "int \<Rightarrow> string \<Rightarrow> ('n, LocalRoomDetachReport option) replica_op" where
  "apply_local_room_detached now room_id s =
     (case find_by_room room_id (rp_roots s) of
        Inl e \<Rightarrow> (Inl e, s)
      | Inr None \<Rightarrow> (Inr None, s)
      | Inr (Some root) \<Rightarrow>
          (let (out, roots) = (if mr_room_binding_status root \<noteq> Detached then detach_room now room_id (rp_roots s)
                               else (Inr None, rp_roots s));
               s1 = s\<lparr>rp_roots := roots\<rparr>
           in case out of
                Inl e \<Rightarrow> (Inl e, s1)
              | Inr _ \<Rightarrow>
                  (let ((watcher_stopped, index_cleared), s2) = discard_local root s1
                   in (Inr (Some \<lparr>ld_root_id = mr_root_id root, ld_room_id = room_id, ld_watcher_stopped = watcher_stopped,
                                  ld_index_cleared = index_cleared\<rparr>), s2))))"

definition apply_local_device_revoked :: "(string \<Rightarrow> int) \<Rightarrow> ('n, AgentConnectionStatus) replica_op" where
  "apply_local_device_revoked now s =
     (let device_id = cst_device_id (connection_status (rp_agent s));
          bound_roots = filter (\<lambda>root. mr_room_id root \<noteq> None \<or> mr_room_binding_status root = Detached) (rt_roots (rp_roots s));
          s1 = s\<lparr>rp_roots := snd (detach_all_rooms now (rp_roots s))\<rparr>;
          s2 = fold (\<lambda>root s. snd (discard_local root s)) bound_roots s1;
          s3 = (case device_id of None \<Rightarrow> s2 | Some d \<Rightarrow> s2\<lparr>rp_sync := snd (clear_device d (rp_sync s2))\<rparr>)
      in case forget_device (rp_agent s3) of (out, a) \<Rightarrow> (map_err agent_error_to_string out, s3\<lparr>rp_agent := a\<rparr>))"

section \<open>Created rules\<close>

definition validate_rule :: "RuleResponse \<Rightarrow> AgentError + AgentRule" where
  "validate_rule response =
     (if trim (rr_id response) = [] \<or> trim (rr_room_id response) = [] \<or> trim (rr_name response) = []
         \<or> length (chars (rr_name response)) > 120 \<or> \<not> json_is_object (rr_definition response)
         \<or> rr_priority response < 0 \<or> rr_version response \<le> 0
      then Inl (invalid_response_error ''rule failed response validation'')
      else Inr \<lparr>rl_rule_id = rr_id response, rl_room_id = rr_room_id response, rl_name = rr_name response,
                rl_definition = rr_definition response, rl_priority = rr_priority response,
                rl_enabled = rr_enabled response, rl_version = rr_version response\<rparr>)"

definition validate_rules_response :: "RuleResponse list \<Rightarrow> AgentError + AgentRule list" where
  "validate_rules_response responses = collect_results (map validate_rule responses)"

definition list_rules_request :: "string \<Rightarrow> string \<Rightarrow> DeviceCredential \<Rightarrow> http_request" where
  "list_rules_request room_id base_url credential =
     bearer_request ''GET'' (base_url @ ''/v1/rooms/'' @ room_id @ ''/rules'') credential None None"

definition list_rules :: "'n agent_env \<Rightarrow> (string \<Rightarrow> RuleResponse list option) \<Rightarrow> string \<Rightarrow> ('n, AgentRule list) agent_op" where
  "list_rules env decode room_id =
     validated (validate_opaque_value ''room id'' room_id 200)
       (call_json env decode (list_rules_request room_id) (\<lambda>_. validate_rules_response))"

definition local_rules_path :: "string \<Rightarrow> string" where
  "local_rules_path root = join_path (join_path root ''.mousekeeper'') RULES_FILE"

definition merged_rules :: "replaying \<Rightarrow> world \<Rightarrow> string \<Rightarrow> AgentRule \<Rightarrow> string + RuleSet" where
  "merged_rules ep w root rule =
     bind_res (if path_exists w (local_rules_path root)
               then map_err (\<lambda>error. ''cannot load existing local rules: '' @ rule_error_to_string error)
                      (load_rule_set_for_root (ep_parse_rules ep) w root)
               else Inr default_rule_set) (\<lambda>rule_set.
       let kept = filter (\<lambda>existing. rule_id existing \<noteq> rl_rule_id rule
                            \<and> \<not> prefix (rl_rule_id rule @ ''-any-'') (rule_id existing)) (rs_rules rule_set)
       in bind_res (if rl_enabled rule
                    then map_err (\<lambda>error. ''invalid server rule definition: '' @ rule_error_to_string error)
                           (map_sum id rs_rules (from_contract_definition (ep_parse_contract ep) (rl_rule_id rule)
                              (rl_priority rule) (rl_definition rule)))
                    else Inr []) (\<lambda>incoming.
          let merged = rule_set\<lparr>rs_rules := kept @ incoming\<rparr>
          in bind_res (map_err (\<lambda>error. ''invalid merged local rules: '' @ rule_error_to_string error) (rule_set_validate merged))
               (\<lambda>_. Inr merged)))"

definition apply_server_rule_to_local_root :: "replaying \<Rightarrow> AgentRule \<Rightarrow> ('n, unit) replica_op" where
  "apply_server_rule_to_local_root ep rule s =
     (case find_by_room (rl_room_id rule) (rp_roots s) of
        Inl e \<Rightarrow> (Inl e, s)
      | Inr None \<Rightarrow> (Inl (''managed root is not bound to room: '' @ rl_room_id rule), s)
      | Inr (Some managed_root) \<Rightarrow>
          (let root_path = mr_root managed_root;
               state_dir = join_path root_path ''.mousekeeper'';
               rules_path = local_rules_path root_path
           in case merged_rules ep (rp_world s) root_path rule of
                Inl e \<Rightarrow> (Inl e, s)
              | Inr rule_set \<Rightarrow>
                  (case create_dir_all state_dir (rp_world s) of
                     (Inl error, w1) \<Rightarrow>
                       (Inl (''cannot create rules directory '' @ state_dir @ '': '' @ io_error_to_string error), s\<lparr>rp_world := w1\<rparr>)
                   | (Inr _, w1) \<Rightarrow>
                       (case ep_encode_rules ep rule_set of
                          Inl error \<Rightarrow> (Inl (''cannot serialize local rules: '' @ error), s\<lparr>rp_world := w1\<rparr>)
                        | Inr encoded \<Rightarrow>
                            (case fs_write rules_path encoded w1 of
                               (out, w2) \<Rightarrow> (map_err (\<lambda>error. ''cannot write local rules '' @ rules_path @ '': '' @ io_error_to_string error) out,
                                             s\<lparr>rp_world := w2\<rparr>))))))"

definition apply_rule_created_event :: "'n agent_env \<Rightarrow> replaying \<Rightarrow> SyncEvent \<Rightarrow> ('n, bool) replica_op" where
  "apply_rule_created_event env ep event s =
     (if ev_event_type event \<noteq> ''rule.created'' then (Inr False, s)
      else case ev_room_id event of
             None \<Rightarrow> (Inr False, s)
           | Some room_id \<Rightarrow>
               (let wanted = (case Option.bind (json_get ''ruleId'' (ev_payload event)) json_as_str of
                                Some i \<Rightarrow> i | None \<Rightarrow> ev_aggregate_id event)
                in case list_rules env (ep_rules ep) room_id (rp_agent s) of
                     (Inl e, a) \<Rightarrow> (Inl (agent_error_to_string e), s\<lparr>rp_agent := a\<rparr>)
                   | (Inr rules, a) \<Rightarrow>
                       (case find (\<lambda>candidate. rl_rule_id candidate = wanted) rules of
                          None \<Rightarrow> (Inr False, s\<lparr>rp_agent := a\<rparr>)
                        | Some rule \<Rightarrow>
                            thenR (apply_server_rule_to_local_root ep rule) (\<lambda>_ s1. (Inr True, s1)) (s\<lparr>rp_agent := a\<rparr>))))"

section \<open>The replay\<close>

definition event_room :: "SyncEvent \<Rightarrow> string option" where
  "event_room event =
     (case ev_room_id event of
        Some room_id \<Rightarrow> Some room_id
      | None \<Rightarrow> if ev_aggregate_type event = ''room'' then Some (ev_aggregate_id event) else None)"

definition revokes_device :: "string \<Rightarrow> SyncEvent \<Rightarrow> bool" where
  "revokes_device device_id event \<longleftrightarrow>
     ev_event_type event = ''device.revoked''
     \<and> (ev_device_id event = Some device_id \<or> (ev_aggregate_type event = ''device'' \<and> ev_aggregate_id event = device_id))"

definition chat_message_sync_update :: "SyncEvent \<Rightarrow> AgentChatMessageSyncUpdate option" where
  "chat_message_sync_update event =
     (if ev_event_type event \<noteq> ''chat.message.created'' then None
      else Option.bind (map_option trim (ev_room_id event)) (\<lambda>room_id.
           Option.bind (map_option trim (Option.bind (json_get ''sessionId'' (ev_payload event)) json_as_str)) (\<lambda>session_id.
             let message_id = trim (case Option.bind (json_get ''messageId'' (ev_payload event)) json_as_str of
                                      Some i \<Rightarrow> i | None \<Rightarrow> ev_aggregate_id event)
             in if room_id = [] \<or> session_id = [] \<or> message_id = [] then None
                else Some \<lparr>cu_room_id = room_id, cu_session_id = session_id, cu_message_id = message_id\<rparr>)))"

definition notify :: "notification \<Rightarrow> 'n replica \<Rightarrow> 'n replica" where
  "notify n s = s\<lparr>rp_notified := rp_notified s @ [n]\<rparr>"

text \<open>One turn of the loop over the events; the result tells whether the device was revoked. The
  background loop passes \<^const>\<open>notify\<close> as \<open>emit\<close>; the command's loop notifies nobody.\<close>

definition apply_removed_room ::
    "(notification \<Rightarrow> 'n replica \<Rightarrow> 'n replica) \<Rightarrow> replaying \<Rightarrow> SyncEvent \<Rightarrow> ('n, unit) replica_op" where
  "apply_removed_room emit ep event s =
     (if ev_event_type event \<noteq> ''room.removed'' then (Inr (), s)
      else case event_room event of
             None \<Rightarrow> (Inr (), s)
           | Some room_id \<Rightarrow>
               thenR (apply_local_room_detached (ep_now ep room_id) room_id)
                 (\<lambda>report s1. (Inr (), case report of None \<Rightarrow> s1 | Some r \<Rightarrow> emit (Binding_Changed (Some (ld_root_id r))) s1)) s)"

definition apply_event ::
    "(notification \<Rightarrow> 'n replica \<Rightarrow> 'n replica) \<Rightarrow> 'n agent_env \<Rightarrow> replaying \<Rightarrow> string \<Rightarrow> SyncEvent \<Rightarrow> ('n, bool) replica_op" where
  "apply_event emit env ep device_id event =
     thenR (apply_removed_room emit ep event) (\<lambda>_.
     thenR (apply_rule_created_event env ep event) (\<lambda>_ s.
       let s1 = (case chat_message_sync_update event of None \<Rightarrow> s | Some update \<Rightarrow> emit (Chat_Message_Created update) s)
       in if revokes_device device_id event
          then thenR (apply_local_device_revoked (ep_now ep)) (\<lambda>_ s2. (Inr True, emit (Device_Revoked (Some device_id)) s2)) s1
          else (Inr False, s1)))"

fun apply_events ::
    "(notification \<Rightarrow> 'n replica \<Rightarrow> 'n replica) \<Rightarrow> 'n agent_env \<Rightarrow> replaying \<Rightarrow> string \<Rightarrow> SyncEvent list \<Rightarrow> ('n, bool) replica_op" where
  "apply_events emit env ep device_id [] s = (Inr False, s)"
| "apply_events emit env ep device_id (event # events) s =
     thenR (apply_event emit env ep device_id event)
       (\<lambda>revoked. if revoked then (\<lambda>s1. (Inr True, s1)) else apply_events emit env ep device_id events) s"

definition advance_replica :: "string \<Rightarrow> nat \<Rightarrow> ('n, nat) replica_op" where
  "advance_replica device_id sequence s =
     (case advance device_id sequence (rp_sync s) of (out, sync) \<Rightarrow> (out, s\<lparr>rp_sync := sync\<rparr>))"

datatype ReplayOutcome = Continue | DeviceRevoked

definition background_replay_events :: "'n agent_env \<Rightarrow> replaying \<Rightarrow> string \<Rightarrow> ('n, ReplayOutcome) replica_op" where
  "background_replay_events env ep device_id s =
     (let previous_cursor = cursor device_id (rp_sync s)
      in case replay_events env (ep_events ep) previous_cursor 100 (rp_agent s) of
           (Inl e, a) \<Rightarrow> (Inl (agent_error_to_string e), s\<lparr>rp_agent := a\<rparr>)
         | (Inr events, a) \<Rightarrow>
             thenR (apply_events notify env ep device_id events) (\<lambda>revoked s1.
               if revoked then (Inr DeviceRevoked, s1)
               else if events = [] then (Inr Continue, s1)
               else thenR (advance_replica device_id (ev_sequence (last events))) (\<lambda>_ s2. (Inr Continue, s2)) s1)
               (s\<lparr>rp_agent := a\<rparr>))"

record SyncReplay =
  sp_previous_cursor :: nat
  sp_next_cursor :: nat
  sp_events :: "SyncEvent list"

definition replay_agent_events_impl :: "'n agent_env \<Rightarrow> replaying \<Rightarrow> ('n, SyncReplay) replica_op" where
  "replay_agent_events_impl env ep s =
     (case cst_device_id (connection_status (rp_agent s)) of
        None \<Rightarrow> (Inl ''UNCONFIGURED: desktop device pairing is required'', s)
      | Some device_id \<Rightarrow>
          (let previous_cursor = cursor device_id (rp_sync s)
           in case replay_events env (ep_events ep) previous_cursor 100 (rp_agent s) of
                (Inl e, a) \<Rightarrow> (Inl (agent_error_to_string e), s\<lparr>rp_agent := a\<rparr>)
              | (Inr events, a) \<Rightarrow>
                  thenR (apply_events (\<lambda>_ s. s) env ep device_id events) (\<lambda>revoked s1.
                    let next_cursor = (if events = [] then previous_cursor else ev_sequence (last events));
                        replay = \<lparr>sp_previous_cursor = previous_cursor, sp_next_cursor = next_cursor, sp_events = events\<rparr>
                    in if \<not> revoked \<and> next_cursor > previous_cursor
                       then thenR (advance_replica device_id next_cursor) (\<lambda>_ s2. (Inr replay, s2)) s1
                       else (Inr replay, s1)) (s\<lparr>rp_agent := a\<rparr>)))"

definition notify_event :: "SyncEvent \<Rightarrow> 'n replica \<Rightarrow> 'n replica" where
  "notify_event event s =
     (let s1 = (if ev_event_type event = ''room.removed'' then notify (Binding_Changed (ev_room_id event)) s else s);
          s2 = (if ev_event_type event = ''device.revoked'' then notify (Device_Revoked (ev_device_id event)) s1 else s1)
      in case chat_message_sync_update event of None \<Rightarrow> s2 | Some update \<Rightarrow> notify (Chat_Message_Created update) s2)"

definition replay_agent_events :: "'n agent_env \<Rightarrow> replaying \<Rightarrow> ('n, SyncReplay) replica_op" where
  "replay_agent_events env ep =
     thenR (replay_agent_events_impl env ep) (\<lambda>replay s. (Inr replay, fold notify_event (sp_events replay) s))"

section \<open>What the parts leave alone\<close>

lemma thenR_Inr: "thenR m f s = (Inr y, s') \<longleftrightarrow> (\<exists>x s1. m s = (Inr x, s1) \<and> f x s1 = (Inr y, s'))"
  by (auto simp: thenR_def split: prod.splits sum.splits)

lemma thenR_Inl: "thenR m f s = (Inl e, s') \<longleftrightarrow> m s = (Inl e, s') \<or> (\<exists>x s1. m s = (Inr x, s1) \<and> f x s1 = (Inl e, s'))"
  by (auto simp: thenR_def split: prod.splits sum.splits)

lemma discard_local_frame [simp]:
  "rp_sync (snd (discard_local root s)) = rp_sync s" "rp_roots (snd (discard_local root s)) = rp_roots s"
  "rp_agent (snd (discard_local root s)) = rp_agent s"
  by (simp_all add: discard_local_def split_beta)

lemma discard_all_frame [simp]:
  "rp_sync (fold (\<lambda>root s. snd (discard_local root s)) roots s) = rp_sync s"
  "rp_roots (fold (\<lambda>root s. snd (discard_local root s)) roots s) = rp_roots s"
  by (induction roots arbitrary: s) simp_all

lemma room_detached_frame:
  assumes "apply_local_room_detached now room s = (out, s')"
  shows "rp_sync s' = rp_sync s" "rp_roots s' \<in> {rp_roots s, snd (detach_room now room (rp_roots s))}"
proof -
  have "rp_sync (snd (apply_local_room_detached now room s)) = rp_sync s
      \<and> rp_roots (snd (apply_local_room_detached now room s)) \<in> {rp_roots s, snd (detach_room now room (rp_roots s))}"
    by (auto simp: apply_local_room_detached_def Let_def split_beta split: sum.split option.split)
  then show "rp_sync s' = rp_sync s" "rp_roots s' \<in> {rp_roots s, snd (detach_room now room (rp_roots s))}"
    using assms by simp_all
qed

lemma server_rule_frame [simp]:
  "rp_sync (snd (apply_server_rule_to_local_root ep rule s)) = rp_sync s"
  "rp_roots (snd (apply_server_rule_to_local_root ep rule s)) = rp_roots s"
  by (simp_all add: apply_server_rule_to_local_root_def Let_def split: sum.split option.split prod.split)

lemma thenR_last: "snd (thenR m (\<lambda>_ s1. (Inr y, s1)) s) = snd (m s)"
  by (auto simp: thenR_def split: prod.split sum.split)

lemma rule_event_frame:
  assumes "apply_rule_created_event env ep event s = (out, s')"
  shows "rp_sync s' = rp_sync s" "rp_roots s' = rp_roots s"
proof -
  have "rp_sync (snd (apply_rule_created_event env ep event s)) = rp_sync s
      \<and> rp_roots (snd (apply_rule_created_event env ep event s)) = rp_roots s"
    by (simp add: apply_rule_created_event_def Let_def thenR_last split: option.split prod.split sum.split)
  then show "rp_sync s' = rp_sync s" "rp_roots s' = rp_roots s" using assms by simp_all
qed

definition cursors_kept_or_reset :: "sync_store \<Rightarrow> sync_store \<Rightarrow> bool" where
  "cursors_kept_or_reset s s' \<longleftrightarrow> (\<forall>d. cursor d s' \<in> {cursor d s, 0})"

lemma clear_device_cursors: "cursors_kept_or_reset s (snd (clear_device d s))"
  using clear_device_memory [of d s] by (auto simp: cursors_kept_or_reset_def cursor_def)

lemma device_revoked_cursors:
  assumes "apply_local_device_revoked now s = (out, s')"
  shows "cursors_kept_or_reset (rp_sync s) (rp_sync s')"
proof -
  have "cursors_kept_or_reset (rp_sync s) (rp_sync (snd (apply_local_device_revoked now s)))"
    using clear_device_cursors
    by (auto simp: apply_local_device_revoked_def Let_def split_beta cursors_kept_or_reset_def split: option.split)
  then show ?thesis using assms by simp
qed

section \<open>Rooms that were removed\<close>

definition rooms_settled :: "string \<Rightarrow> root_store \<Rightarrow> bool" where
  "rooms_settled room s \<longleftrightarrow>
     roots_ok (rt_roots s) \<and> rooms_ok (rt_roots s)
     \<and> (\<forall>a \<in> set (rt_roots s). \<forall>b \<in> set (rt_roots s). has_room room a \<and> has_room room b \<longrightarrow> a = b)"

definition room_gone :: "string \<Rightarrow> root_store \<Rightarrow> bool" where
  "room_gone room s \<longleftrightarrow> (\<forall>root \<in> set (rt_roots s). mr_room_id root \<noteq> Some room)"

lemma has_room_detached:
  "has_room r root \<Longrightarrow> binding_ok root \<Longrightarrow> has_room room (detached now root) \<Longrightarrow> has_room room root"
  by (auto simp: has_room_def detached_def binding_ok_def split: option.splits)

lemma detach_room_origin:
  assumes "rooms_settled r s" "b \<in> set (rt_roots (snd (detach_room now room s)))"
  obtains a where "a \<in> set (rt_roots s)" "b = a \<or> b = detached now a" "\<And>x. has_room x b \<Longrightarrow> has_room x a"
    "mr_root_id b = mr_root_id a"
proof -
  consider "rt_roots (snd (detach_room now room s)) = rt_roots s"
    | root where "root \<in> set (rt_roots s)" "has_room room root"
        "rt_roots (snd (detach_room now room s)) = modify_root (mr_root_id root) (detached now) (rt_roots s)"
    using detach_room_roots [of now room s] by blast
  then show thesis
  proof cases
    case 1
    then show thesis using assms(2) by (intro that [of b]) simp_all
  next
    case 2
    obtain a where a: "a \<in> set (rt_roots s)" "b = (if mr_root_id a = mr_root_id root then detached now a else a)"
      using assms(2) by (auto simp: 2(3) modify_root_def)
    show thesis
    proof (cases "mr_root_id a = mr_root_id root")
      case True
      then have "a = root" using assms(1) a(1) 2(1) roots_ok_ids(2) by (fastforce simp: rooms_settled_def)
      moreover have "binding_ok a" using assms(1) a(1) rooms_okD(1) by (auto simp: rooms_settled_def)
      ultimately show thesis using a True 2(2) has_room_detached
        by (intro that [of a]) (auto simp: detached_def)
    next
      case False
      then show thesis using a by (intro that [of a]) simp_all
    qed
  qed
qed

lemma rooms_settled_detach:
  assumes "rooms_settled room s"
  shows "rooms_settled room (snd (detach_room now r s))"
proof -
  have ok: "roots_ok (rt_roots (snd (detach_room now r s)))" "rooms_ok (rt_roots (snd (detach_room now r s)))"
    using assms roots_ok_exec [of s "Detach_Room now r"] rooms_ok_exec [of s "Detach_Room now r"]
    by (simp_all add: rooms_settled_def)
  moreover have "a = b" if ab: "a \<in> set (rt_roots (snd (detach_room now r s)))" "b \<in> set (rt_roots (snd (detach_room now r s)))"
      "has_room room a" "has_room room b" for a b
  proof -
    obtain a0 where a0: "a0 \<in> set (rt_roots s)" "has_room room a0" "mr_root_id a = mr_root_id a0"
      using detach_room_origin [OF assms ab(1)] ab(3) by metis
    obtain b0 where b0: "b0 \<in> set (rt_roots s)" "has_room room b0" "mr_root_id b = mr_root_id b0"
      using detach_room_origin [OF assms ab(2)] ab(4) by metis
    have "a0 = b0" using assms a0 b0 by (auto simp: rooms_settled_def)
    then show ?thesis using a0(3) b0(3) roots_ok_ids(2) [OF ok(1) ab(1,2)] by simp
  qed
  ultimately show ?thesis by (simp add: rooms_settled_def)
qed

lemma room_gone_detach:
  assumes "rooms_settled r s" "room_gone room s"
  shows "room_gone room (snd (detach_room now x s))"
  unfolding room_gone_def
proof
  fix b assume "b \<in> set (rt_roots (snd (detach_room now x s)))"
  from detach_room_origin [OF assms(1) this] obtain a where "a \<in> set (rt_roots s)" "b = a \<or> b = detached now a" by metis
  then show "mr_room_id b \<noteq> Some room" using assms(2) by (auto simp: room_gone_def detached_def)
qed

lemma removed_room_gone:
  assumes "apply_local_room_detached now room s = (Inr report, s')" "rooms_settled room (rp_roots s)"
  shows "room_gone room (rp_roots s')"
proof (cases "find (has_room room) (rt_roots (rp_roots s))")
  case None
  then have "s' = s" using assms(1) by (simp add: apply_local_room_detached_def find_by_room_def)
  then show ?thesis using None by (auto simp: room_gone_def find_None_iff has_room_def)
next
  case (Some root)
  then have root: "root \<in> set (rt_roots (rp_roots s))" "has_room room root" by (auto simp: find_Some_iff)
  have only: "a = root" if "a \<in> set (rt_roots (rp_roots s))" "mr_room_id a = Some room" for a
    using that root assms(2) by (auto simp: rooms_settled_def has_room_def)
  show ?thesis
  proof (cases "mr_room_binding_status root = Detached")
    case True
    then have "rp_roots s' = rp_roots s" using assms(1) Some
      by (auto simp: apply_local_room_detached_def find_by_room_def Let_def split_beta)
    moreover have "mr_room_id root = None"
      using rooms_okD(1) [of "rt_roots (rp_roots s)" root] assms(2) root(1) True by (auto simp: rooms_settled_def binding_ok_def)
    ultimately show ?thesis using only by (auto simp: room_gone_def)
  next
    case False
    then have s': "rp_roots s' = snd (detach_room now room (rp_roots s))" using assms(1) Some
      by (auto simp: apply_local_room_detached_def find_by_room_def Let_def split_beta split: sum.splits)
    have "rt_roots (rp_roots s') = modify_root (mr_root_id root) (detached now) (rt_roots (rp_roots s))"
      by (auto simp: s' detach_room_def Some dest!: persist_frame split: prod.split sum.split)
    then show ?thesis using only by (auto simp: room_gone_def modify_root_def detached_def)
  qed
qed

section \<open>The loop\<close>

text \<open>What the loop does to roots and positions is the same whoever is notified: all it needs of the notification is
  that it leaves them alone.\<close>

locale emitter =
  fixes emit :: "notification \<Rightarrow> 'n replica \<Rightarrow> 'n replica"
  assumes emit_sync: "rp_sync (emit n s) = rp_sync s"
    and emit_roots: "rp_roots (emit n s) = rp_roots s"
begin

lemma removed_room_step:
  assumes "apply_removed_room emit ep event s = (out, s')"
  shows "rp_sync s' = rp_sync s"
    and "rp_roots s' = rp_roots s \<or> (\<exists>now room. rp_roots s' = snd (detach_room now room (rp_roots s)))"
    and "out = Inr u \<Longrightarrow> ev_event_type event = ''room.removed'' \<Longrightarrow> event_room event = Some room
           \<Longrightarrow> rooms_settled room (rp_roots s) \<Longrightarrow> room_gone room (rp_roots s')"
proof -
  have "(rp_sync s' = rp_sync s \<and> (rp_roots s' = rp_roots s \<or> (\<exists>now room. rp_roots s' = snd (detach_room now room (rp_roots s)))))
      \<and> (out = Inr u \<longrightarrow> ev_event_type event = ''room.removed'' \<longrightarrow> event_room event = Some room
           \<longrightarrow> rooms_settled room (rp_roots s) \<longrightarrow> room_gone room (rp_roots s'))"
  proof (cases "ev_event_type event = ''room.removed'' \<and> event_room event \<noteq> None")
    case True
    then obtain r where r: "event_room event = Some r" by auto
    obtain out1 s1 where one: "apply_local_room_detached (ep_now ep r) r s = (out1, s1)"
      by (cases "apply_local_room_detached (ep_now ep r) r s")
    then have "rp_sync s' = rp_sync s1" "rp_roots s' = rp_roots s1" "out = Inr u \<longrightarrow> (\<exists>report. out1 = Inr report)"
      using assms True r by (auto simp: apply_removed_room_def thenR_def emit_sync emit_roots split: sum.splits option.splits)
    moreover have "rp_sync s1 = rp_sync s"
        "rp_roots s1 = rp_roots s \<or> rp_roots s1 = snd (detach_room (ep_now ep r) r (rp_roots s))"
      using room_detached_frame [OF one] by simp_all
    ultimately show ?thesis using removed_room_gone r one by (metis option.sel)
  next
    case False
    then show ?thesis using assms by (auto simp: apply_removed_room_def split: option.splits if_splits)
  qed
  then show "rp_sync s' = rp_sync s"
    "rp_roots s' = rp_roots s \<or> (\<exists>now room. rp_roots s' = snd (detach_room now room (rp_roots s)))"
    "out = Inr u \<Longrightarrow> ev_event_type event = ''room.removed'' \<Longrightarrow> event_room event = Some room
           \<Longrightarrow> rooms_settled room (rp_roots s) \<Longrightarrow> room_gone room (rp_roots s')" by blast+
qed

lemma event_applied:
  assumes "apply_event emit env ep d event s = (Inr False, s')"
  obtains s1 where "apply_removed_room emit ep event s = (Inr (), s1)" "rp_sync s' = rp_sync s1" "rp_roots s' = rp_roots s1"
proof -
  obtain s1 x s2 where one: "apply_removed_room emit ep event s = (Inr (), s1)"
    and two: "apply_rule_created_event env ep event s1 = (Inr x, s2)"
    and "rp_sync s' = rp_sync s2" "rp_roots s' = rp_roots s2"
    using assms by (auto simp: apply_event_def thenR_Inr Let_def emit_sync emit_roots split: if_splits option.splits)
  with rule_event_frame [OF two] that show thesis by simp
qed

lemma event_cursors:
  assumes "apply_event emit env ep d event s = (out, s')"
  shows "cursors_kept_or_reset (rp_sync s) (rp_sync s')"
proof -
  obtain out1 s1 where one: "apply_removed_room emit ep event s = (out1, s1)" by (cases "apply_removed_room emit ep event s")
  obtain out2 s2 where two: "apply_rule_created_event env ep event s1 = (out2, s2)"
    by (cases "apply_rule_created_event env ep event s1")
  let ?s = "case chat_message_sync_update event of None \<Rightarrow> s2 | Some update \<Rightarrow> emit (Chat_Message_Created update) s2"
  obtain out3 s3 where three: "apply_local_device_revoked (ep_now ep) ?s = (out3, s3)"
    by (cases "apply_local_device_revoked (ep_now ep) ?s")
  have same: "rp_sync s1 = rp_sync s" "rp_sync s2 = rp_sync s" "rp_sync ?s = rp_sync s"
    using removed_room_step(1) [OF one] rule_event_frame(1) [OF two] by (simp_all add: emit_sync split: option.split)
  have "rp_sync s' \<in> {rp_sync s1, rp_sync s2, rp_sync ?s, rp_sync s3}"
    using assms one two three
    by (auto simp: apply_event_def thenR_def Let_def emit_sync split: sum.splits if_splits)
  then show ?thesis using same device_revoked_cursors [OF three] by (auto simp: cursors_kept_or_reset_def)
qed

lemma events_cursors:
  "apply_events emit env ep d events s = (out, s') \<Longrightarrow> cursors_kept_or_reset (rp_sync s) (rp_sync s')"
proof (induction events arbitrary: s)
  case (Cons event events)
  obtain out1 s1 where one: "apply_event emit env ep d event s = (out1, s1)" by (cases "apply_event emit env ep d event s")
  have "cursors_kept_or_reset (rp_sync s1) (rp_sync s')"
    using Cons one by (auto simp: thenR_def cursors_kept_or_reset_def split: sum.splits if_splits)
  with event_cursors [OF one] show ?case unfolding cursors_kept_or_reset_def by (metis insertCI insertE singletonD)
qed (simp add: cursors_kept_or_reset_def)

lemma events_applied_sync: "apply_events emit env ep d events s = (Inr False, s') \<Longrightarrow> rp_sync s' = rp_sync s"
proof (induction events arbitrary: s)
  case (Cons event events)
  then obtain s1 where one: "apply_event emit env ep d event s = (Inr False, s1)"
    and "apply_events emit env ep d events s1 = (Inr False, s')" by (auto simp: thenR_Inr split: if_splits)
  then show ?case using Cons.IH by (metis event_applied removed_room_step(1))
qed simp

lemma event_rooms:
  assumes "apply_event emit env ep d event s = (Inr False, s')" "rooms_settled room (rp_roots s)"
  shows "rooms_settled room (rp_roots s')" "room_gone room (rp_roots s) \<Longrightarrow> room_gone room (rp_roots s')"
    "ev_event_type event = ''room.removed'' \<Longrightarrow> event_room event = Some room \<Longrightarrow> room_gone room (rp_roots s')"
proof -
  obtain s1 where one: "apply_removed_room emit ep event s = (Inr (), s1)" "rp_roots s' = rp_roots s1"
    using event_applied [OF assms(1)] by metis
  show "rooms_settled room (rp_roots s')" "room_gone room (rp_roots s) \<Longrightarrow> room_gone room (rp_roots s')"
    using removed_room_step(2) [OF one(1)] assms(2) one(2) rooms_settled_detach room_gone_detach by metis+
  show "room_gone room (rp_roots s')" if "ev_event_type event = ''room.removed''" "event_room event = Some room"
    using removed_room_step(3) [OF one(1)] that assms(2) one(2) by simp
qed

lemma events_rooms:
  assumes "apply_events emit env ep d events s = (Inr False, s')" "rooms_settled room (rp_roots s)"
    and "room_gone room (rp_roots s) \<or>
         (\<exists>event \<in> set events. ev_event_type event = ''room.removed'' \<and> event_room event = Some room)"
  shows "room_gone room (rp_roots s')"
  using assms
proof (induction events arbitrary: s)
  case (Cons event events)
  then obtain s1 where one: "apply_event emit env ep d event s = (Inr False, s1)"
    and rest: "apply_events emit env ep d events s1 = (Inr False, s')" by (auto simp: thenR_Inr split: if_splits)
  show ?case
    by (rule Cons.IH [OF rest]) (use event_rooms [OF one Cons.prems(2)] Cons.prems(3) in auto)
qed simp

end

interpretation background_loop: emitter notify
  by unfold_locales (simp_all add: notify_def)

interpretation command_loop: emitter "\<lambda>_ s. s"
  by unfold_locales simp_all

section \<open>A sample replay\<close>

definition sample_event :: SyncEvent where
  "sample_event =
     \<lparr>ev_event_id = ''e1'', ev_event_type = ''room.removed'', ev_schema_version = 1, ev_correlation_id = ''c'',
      ev_aggregate_type = ''room'', ev_aggregate_id = ''r'', ev_device_id = None, ev_room_id = None, ev_sequence = 7,
      ev_occurred_at = ''t'', ev_payload = JObject []\<rparr>"

definition sample_replaying :: replaying where
  "sample_replaying =
     \<lparr>ep_events = (\<lambda>_. Some [sample_event]), ep_rules = (\<lambda>_. None), ep_parse_rules = (\<lambda>_. Inl []),
      ep_encode_rules = (\<lambda>_. Inl []), ep_parse_contract = (\<lambda>_. Inl []), ep_now = (\<lambda>_. 9)\<rparr>"

definition sample_replica :: "(unit \<times> http_request list) replica" where
  "sample_replica =
     \<lparr>rp_agent = started_agent, rp_roots = \<lparr>rt_roots = sample_roots, rt_db = opened_store (map row_of_root sample_roots)\<rparr>,
      rp_sync = \<lparr>sy_cursors = Map.empty, sy_db = opened_store []\<rparr>, rp_watchers = {''a''}, rp_world = sample_world,
      rp_notified = []\<rparr>"

lemma sample_replay:
  "fst (background_replay_events (sample_env 200 None) sample_replaying ''d1'' sample_replica) = Inr Continue"
  by code_simp

lemma sample_settled: "rooms_settled ''r'' (rp_roots sample_replica)"
proof -
  have two: "a = hd sample_roots \<or> a = last sample_roots" if "a \<in> set sample_roots" for a
    using that by (auto simp: sample_roots_def)
  have "roots_ok sample_roots" "rooms_ok sample_roots"
    by (auto simp: roots_ok_def rooms_ok_def sample_roots_def managed_root_new_def apart_def path_starts_with_def
        sample_paths binding_ok_def)
  moreover have "\<not> has_room ''r'' (last sample_roots)" by (simp add: has_room_def sample_roots_def managed_root_new_def)
  ultimately show ?thesis using two by (auto simp: rooms_settled_def sample_replica_def)
qed

section \<open>Properties\<close>

text \<open>C22: The position moves past events only when they were applied. A replay that ends normally has received
  events after the old position, applied every one of them, and the new position is that of the last (or the
  old one when there was none), which is not smaller. A replay that fails, in the middle of the events or in writing the
  position, and one that finds the device revoked, leave the position where it was or reset it to the
  beginning; so no event is skipped.\<close>

theorem replay_skips_nothing:
  assumes run: "background_replay_events env ep d s = (out, s')"
  shows "(case out of
      Inr Continue \<Rightarrow> \<exists>events a s1. replay_events env (ep_events ep) (cursor d (rp_sync s)) 100 (rp_agent s) = (Inr events, a)
        \<and> apply_events notify env ep d events (s\<lparr>rp_agent := a\<rparr>) = (Inr False, s1)
        \<and> s' = s1\<lparr>rp_sync := rp_sync s'\<rparr> \<and> cursor d (rp_sync s) \<le> cursor d (rp_sync s')
        \<and> cursor d (rp_sync s') = (if events = [] then cursor d (rp_sync s) else ev_sequence (last events))
    | _ \<Rightarrow> cursor d (rp_sync s') \<in> {cursor d (rp_sync s), 0})"
proof (cases "replay_events env (ep_events ep) (cursor d (rp_sync s)) 100 (rp_agent s)")
  case answer: (Pair answer a)
  show ?thesis
  proof (cases answer)
    case (Inl e)
    then show ?thesis using run answer by (auto simp: background_replay_events_def)
  next
    case (Inr events)
    obtain applied s1 where loop: "apply_events notify env ep d events (s\<lparr>rp_agent := a\<rparr>) = (applied, s1)"
      by (cases "apply_events notify env ep d events (s\<lparr>rp_agent := a\<rparr>)")
    have kept: "cursor d (rp_sync s1) \<in> {cursor d (rp_sync s), 0}"
      using background_loop.events_cursors [OF loop] by (simp add: cursors_kept_or_reset_def)
    show ?thesis
    proof (cases "applied = Inr False")
      case False
      then have "s' = s1 \<and> out \<noteq> Inr Continue" using run answer Inr loop
        by (cases applied) (auto simp: background_replay_events_def thenR_def)
      then show ?thesis using kept by (auto split: sum.split ReplayOutcome.split)
    next
      case True
      have same: "rp_sync s1 = rp_sync s" using background_loop.events_applied_sync loop True by fastforce
      show ?thesis
      proof (cases "events = []")
        case True
        then show ?thesis using run answer Inr loop same by (auto simp: background_replay_events_def thenR_def)
      next
        case False
        obtain moved sync where advanced: "advance d (ev_sequence (last events)) (rp_sync s) = (moved, sync)"
          by (cases "advance d (ev_sequence (last events)) (rp_sync s)")
        have s': "s' = s1\<lparr>rp_sync := sync\<rparr>" "out = (case moved of Inl e \<Rightarrow> Inl e | Inr _ \<Rightarrow> Inr Continue)"
          using run answer Inr loop True False advanced same
          by (auto simp: background_replay_events_def thenR_def advance_replica_def split: sum.splits)
        show ?thesis
        proof (cases moved)
          case (Inl e)
          then show ?thesis using s' advance_failed advanced by (fastforce simp: cursor_def)
        next
          case moved: (Inr n)
          have "cursor d sync = ev_sequence (last events)" "cursor d (rp_sync s) \<le> ev_sequence (last events)"
            using advance_ok [of d "ev_sequence (last events)" "rp_sync s" n sync] advanced moved
            by (simp_all add: cursor_def)
          then show ?thesis using answer Inr loop True False s' moved by simp
        qed
      qed
    qed
  qed
qed

theorem replay_skips_nothing_witness:
  "\<exists>s'. background_replay_events (sample_env 200 None) sample_replaying ''d1'' sample_replica = (Inr Continue, s')
     \<and> cursor ''d1'' (rp_sync sample_replica) \<le> cursor ''d1'' (rp_sync s')"
proof -
  obtain s' where run: "background_replay_events (sample_env 200 None) sample_replaying ''d1'' sample_replica = (Inr Continue, s')"
    using sample_replay by (metis prod.collapse)
  from replay_skips_nothing [OF run] show ?thesis using run by auto
qed

text \<open>A removed room loses its folder. After a replay that ends normally and contained the removal of a room, no folder is
  bound to that room any more, whatever else the events said; it is assumed that before the replay the
  registry was well-formed and at most one folder had the room, bound or detached.\<close>

theorem removed_rooms_lose_folders:
  assumes "background_replay_events env ep d s = (Inr Continue, s')"
    and "replay_events env (ep_events ep) (cursor d (rp_sync s)) 100 (rp_agent s) = (Inr events, a)"
    and "event \<in> set events" "ev_event_type event = ''room.removed''" "event_room event = Some room"
    and "rooms_settled room (rp_roots s)"
  shows "\<forall>root \<in> set (rt_roots (rp_roots s')). mr_room_id root \<noteq> Some room"
proof -
  obtain s1 where loop: "apply_events notify env ep d events (s\<lparr>rp_agent := a\<rparr>) = (Inr False, s1)" "rp_roots s' = rp_roots s1"
    using assms(1,2) by (auto simp: background_replay_events_def thenR_Inr advance_replica_def split: if_splits prod.splits)
  have "room_gone room (rp_roots s1)"
    by (rule background_loop.events_rooms [OF loop(1)]) (use assms(3-6) in auto)
  then show ?thesis using loop(2) by (simp add: room_gone_def)
qed

theorem removed_rooms_lose_folders_witness:
  "\<exists>s'. background_replay_events (sample_env 200 None) sample_replaying ''d1'' sample_replica = (Inr Continue, s')
     \<and> mr_room_id (hd sample_roots) = Some ''r'' \<and> Some ''r'' \<notin> mr_room_id ` set (rt_roots (rp_roots s'))"
proof -
  obtain s' where run: "background_replay_events (sample_env 200 None) sample_replaying ''d1'' sample_replica = (Inr Continue, s')"
    using sample_replay by (metis prod.collapse)
  have events: "fst (replay_events (sample_env 200 None) (ep_events sample_replaying) (cursor ''d1'' (rp_sync sample_replica)) 100
      (rp_agent sample_replica)) = Inr [sample_event]" by code_simp
  then obtain a where "replay_events (sample_env 200 None) (ep_events sample_replaying) (cursor ''d1'' (rp_sync sample_replica)) 100
      (rp_agent sample_replica) = (Inr [sample_event], a)" by (metis prod.collapse)
  from removed_rooms_lose_folders [OF run this, of sample_event "''r''"] sample_settled
  have "\<forall>root \<in> set (rt_roots (rp_roots s')). mr_room_id root \<noteq> Some ''r''" by (simp add: sample_event_def event_room_def)
  then show ?thesis using run sample_head(4) by auto
qed

text \<open>Two ways in which a replay goes wrong.\<close>

lemma find_modify_root:
  assumes "find P roots = Some root" "P (f root)" "distinct (map mr_root_id roots)"
  shows "find P (modify_root (mr_root_id root) f roots) = Some (f root)"
  using assms
proof (induction roots)
  case (Cons x roots)
  show ?case
  proof (cases "P x")
    case False
    then have found: "find P roots = Some root" using Cons.prems(1) by simp
    then have "root \<in> set roots" by (auto simp: find_Some_iff)
    then have "mr_root_id x \<noteq> mr_root_id root" using Cons.prems(3) by (auto simp: image_iff)
    then show ?thesis using Cons.IH [OF found] Cons.prems(2,3) False by (simp add: modify_root_def)
  qed (use Cons.prems in \<open>simp add: modify_root_def\<close>)
qed simp

lemma discard_local_ok:
  assumes "find (has_room room) (rt_roots (rp_roots s)) = Some root" "mr_room_binding_status root = Detached"
  shows "\<exists>report. apply_local_room_detached now room s = (Inr (Some report), snd (discard_local root s))"
  using assms by (simp add: apply_local_room_detached_def find_by_room_def split_beta)

text \<open>A removed room can come back. When the row of the detached folder cannot be written, applying the event fails
  and the replay will be repeated; but the repetition finds the folder detached in memory, does not
  write it again and succeeds, so that the position moves past the event. The table still holds the binding: a
  restart loads the folders as they were before the room was removed.\<close>

theorem removed_room_comes_back:
  assumes ok: "roots_ok roots" "rooms_ok roots" "mirrors rows (set roots)"
    and s: "rp_roots s = \<lparr>rt_roots = roots, rt_db = \<lparr>st_pool = Some rows, st_faults = [Some e]\<rparr>\<rparr>"
    and root: "find (has_room room) roots = Some root" "mr_room_id root = Some room"
  shows "\<exists>s1 report s2. apply_local_room_detached now room s = (Inl (''cannot persist managed root: '' @ e), s1)
     \<and> apply_local_room_detached later room s1 = (Inr (Some report), s2)
     \<and> load_roots (st_pool (rt_db (rp_roots s2))) \<lparr>rt_roots = [], rt_db = unopened []\<rparr>
         = (Inr (), \<lparr>rt_roots = roots, rt_db = opened_store rows\<rparr>)"
proof -
  let ?roots = "modify_root (mr_root_id root) (detached now) roots"
  let ?s1 = "s\<lparr>rp_roots := \<lparr>rt_roots = ?roots, rt_db = opened_store rows\<rparr>\<rparr>"
  have "root \<in> set roots" using root(1) by (auto simp: find_Some_iff)
  then have active: "mr_room_binding_status root \<noteq> Detached" using rooms_okD(1) [OF ok(2)] root(2) by (fastforce simp: binding_ok_def)
  then have first: "apply_local_room_detached now room s = (Inl (''cannot persist managed root: '' @ e), ?s1)"
    by (simp add: apply_local_room_detached_def find_by_room_def s root(1) detach_room_def persist_def execute_checked_def
        opened_store_def)
  have "has_room room (detached now root)" using root(2) by (simp add: has_room_def detached_def)
  then have "find (has_room room) ?roots = Some (detached now root)"
    using find_modify_root root(1) roots_ok_ids(1) [OF ok(1)] by blast
  then obtain report where second: "apply_local_room_detached later room ?s1
      = (Inr (Some report), snd (discard_local (detached now root) ?s1))"
    using discard_local_ok [of room ?s1 "detached now root"] by (auto simp: detached_def)
  have "rp_roots (snd (discard_local (detached now root) ?s1)) = \<lparr>rt_roots = ?roots, rt_db = opened_store rows\<rparr>" by simp
  then show ?thesis using first second load_in_step [OF ok] by (intro exI [of _ ?s1]) simp
qed

theorem removed_room_comes_back_witness:
  "\<exists>s1 report s2. apply_local_room_detached 9 ''r'' (sample_replica\<lparr>rp_roots := \<lparr>rt_roots = sample_roots,
        rt_db = \<lparr>st_pool = Some (map row_of_root sample_roots), st_faults = [Some ''disk full'']\<rparr>\<rparr>\<rparr>)
      = (Inl (''cannot persist managed root: '' @ ''disk full''), s1)
     \<and> apply_local_room_detached 10 ''r'' s1 = (Inr (Some report), s2)
     \<and> map mr_room_binding_status (rt_roots (snd (load_roots (st_pool (rt_db (rp_roots s2)))
          \<lparr>rt_roots = [], rt_db = unopened []\<rparr>))) = [Active, Unbound]"
proof -
  let ?s = "sample_replica\<lparr>rp_roots := \<lparr>rt_roots = sample_roots,
    rt_db = \<lparr>st_pool = Some (map row_of_root sample_roots), st_faults = [Some ''disk full'']\<rparr>\<rparr>\<rparr>"
  have "roots_ok sample_roots" "rooms_ok sample_roots" using sample_settled by (simp_all add: rooms_settled_def sample_replica_def)
  moreover have "mirrors (map row_of_root sample_roots) (set sample_roots)"
    by (auto simp: mirrors_def sample_roots_def managed_root_new_def row_of_root_def)
  moreover have "find (has_room ''r'') sample_roots = Some (hd sample_roots)"
    by (simp add: has_room_def sample_roots_def managed_root_new_def)
  moreover have "rp_roots ?s = \<lparr>rt_roots = sample_roots,
      rt_db = \<lparr>st_pool = Some (map row_of_root sample_roots), st_faults = [Some ''disk full'']\<rparr>\<rparr>" by simp
  ultimately obtain s1 report s2 where
    "apply_local_room_detached 9 ''r'' ?s = (Inl (''cannot persist managed root: '' @ ''disk full''), s1)"
    "apply_local_room_detached 10 ''r'' s1 = (Inr (Some report), s2)"
    "load_roots (st_pool (rt_db (rp_roots s2))) \<lparr>rt_roots = [], rt_db = unopened []\<rparr>
       = (Inr (), \<lparr>rt_roots = sample_roots, rt_db = opened_store (map row_of_root sample_roots)\<rparr>)"
    using removed_room_comes_back sample_head(4) by blast
  moreover have "map mr_room_binding_status sample_roots = [Active, Unbound]" by (simp add: sample_roots_def managed_root_new_def)
  ultimately show ?thesis by (intro exI [of _ s1] exI [of _ report] exI [of _ s2]) simp
qed

text \<open>An event about a rule of a room that has no folder here ends the replay with an error before
  the position moves, so the same event comes first in every later replay.\<close>

lemma unknown_rule_blocks:
  assumes "replay_events env (ep_events ep) (cursor d (rp_sync s)) 100 (rp_agent s) = (Inr (event # events), a)"
    and "ev_event_type event = ''rule.created''" "ev_room_id event = Some room"
    and "list_rules env (ep_rules ep) room a = (Inr rules, a1)"
    and "find (\<lambda>rule. rl_rule_id rule = ev_aggregate_id event) rules = Some rule" "json_get ''ruleId'' (ev_payload event) = None"
    and "find (has_room (rl_room_id rule)) (rt_roots (rp_roots s)) = None"
  shows "background_replay_events env ep d s
    = (Inl (''managed root is not bound to room: '' @ rl_room_id rule), s\<lparr>rp_agent := a1\<rparr>)"
  using assms
  by (simp add: background_replay_events_def thenR_def apply_event_def apply_removed_room_def apply_rule_created_event_def
      apply_server_rule_to_local_root_def find_by_room_def)

end
