(* ===== verification/Command_Processor.thy ===== *)
theory Command_Processor
  imports Execution_Processor
begin

text \<open>
  Delegated commands (\<^verbatim>\<open>command_processor.rs\<close>): a command polled from the server is claimed, its request is turned into
  proposals for the managed root of its room, and the proposals are queued as a submission for approval. Nothing is executed here.

  The decoders of the payloads and of rule drafts are parameters. The scan's fuel is carried along, so the
  processing of a command that analyses its root returns \<^const>\<open>None\<close> when it runs out, which never
  happens on a well-formed tree. Commands are processed one after the other.

  What is shown about it is in theory \<^verbatim>\<open>Command_Laws\<close>.
\<close>

section \<open>Types\<close>

datatype CommandProcessingStatus = SubmittedProposal | NoProposal | Failed | Skipped

record CommandProcessingResult =
  pm_command_id :: string
  pm_command_type :: string
  pm_status :: CommandProcessingStatus
  pm_message :: "string option"
  pm_proposal_item_count :: nat

record CommandProcessingReport =
  pq_inspected_count :: nat
  pq_processed_count :: nat
  pq_submitted_proposal_count :: nat
  pq_failed_count :: nat
  pq_skipped_count :: nat
  pq_results :: "CommandProcessingResult list"

record OrganizeFilesPayload =
  og_root_id :: "string option"
  og_relative_path :: "string option"
  og_scope_relative_path :: "string option"
  og_max_proposals :: "nat option"
  og_rule_mode :: "string option"
  og_user_intent :: "string option"
  og_rule_draft :: "json option"

record RenameCommandPayload =
  rn_root_id :: string
  rn_source_relative_path :: string
  rn_new_name :: string

record MoveCommandPayload =
  mv_root_id :: string
  mv_source_relative_paths :: "string list"
  mv_destination_relative_directory :: string

record TrashCommandPayload =
  tc_root_id :: string
  tc_source_relative_paths :: "string list"

record CreateCommandPayload =
  cc_root_id :: string
  cc_kind :: string
  cc_relative_path :: string
  cc_content :: "string option"

record commanding =
  ce_wire :: wire
  ce_commands :: "string \<Rightarrow> ServerCommand list option"
  ce_rooms :: "string \<Rightarrow> ServerRoom list option"
  ce_organize :: "json \<Rightarrow> string + OrganizeFilesPayload"
  ce_rename :: "json \<Rightarrow> string + RenameCommandPayload"
  ce_move :: "json \<Rightarrow> string + MoveCommandPayload"
  ce_trash :: "json \<Rightarrow> string + TrashCommandPayload"
  ce_create :: "json \<Rightarrow> string + CreateCommandPayload"
  ce_parse_rules :: "string \<Rightarrow> string + RuleSet"
  ce_draft_rules :: "json \<Rightarrow> string + RuleSet"
  ce_draft_contract :: "json \<Rightarrow> string + ContractRuleDefinition"
  ce_bound_at :: "string \<Rightarrow> int"
  ce_queued_at :: "string \<Rightarrow> int"
  ce_checked_at :: "string \<Rightarrow> nat \<Rightarrow> int"

definition DEFAULT_MAX_PROPOSALS :: nat where "DEFAULT_MAX_PROPOSALS = 50"

definition scope :: "OrganizeFilesPayload \<Rightarrow> string" where
  "scope payload =
     (case og_scope_relative_path payload of
        Some p \<Rightarrow> p | None \<Rightarrow> (case og_relative_path payload of Some p \<Rightarrow> p | None \<Rightarrow> []))"

definition max_proposals :: "OrganizeFilesPayload \<Rightarrow> nat" where
  "max_proposals payload = (case og_max_proposals payload of Some n \<Rightarrow> n | None \<Rightarrow> DEFAULT_MAX_PROPOSALS)"

section \<open>Remote paths\<close>

definition validate_remote_relative_path :: "string \<Rightarrow> string + unit" where
  "validate_remote_relative_path path =
     (if trim path = [] \<or> CHR 0x5C \<in> set path \<or> prefix ''/'' path \<or> prefix [CHR 0x5C, CHR 0x5C] path
         \<or> CHR '':'' \<in> set path \<or> CHR 0x00 \<in> set path
         \<or> list_ex (\<lambda>part. part = [] \<or> part = ''.'' \<or> part = ''..'') (segments path)
      then Inl ''remote command path must stay inside the managed root'' else Inr ())"

definition normalize_slashes :: "string \<Rightarrow> string" where
  "normalize_slashes path = join_with ''/'' (map component_str (components path))"

definition normalize_remote_file_source :: "string \<Rightarrow> string + string" where
  "normalize_remote_file_source path =
     bind_res (validate_remote_relative_path path) (\<lambda>_. Inr (normalize_slashes path))"

definition trim_slashes :: "string \<Rightarrow> string" where
  "trim_slashes s = rev (dropWhile is_sep (rev (dropWhile is_sep s)))"

definition normalize_remote_relative_directory :: "string \<Rightarrow> string + string" where
  "normalize_remote_relative_directory path =
     (let trimmed = trim_slashes (trim path)
      in if trimmed = [] then Inr []
         else bind_res (validate_remote_relative_path trimmed) (\<lambda>_. Inr (normalize_slashes trimmed)))"

definition normalize_remote_directory_target :: "string \<Rightarrow> string + string" where
  "normalize_remote_directory_target path =
     bind_res (normalize_remote_relative_directory path) (\<lambda>normalized.
       if normalized = [] then Inl ''CREATE_DIR target must not be the managed root'' else Inr normalized)"

text \<open>\<^verbatim>\<open>rsplit_once('/')\<close>, on the segments.\<close>

definition rsplit_once_slash :: "string \<Rightarrow> (string \<times> string) option" where
  "rsplit_once_slash path =
     (let parts = segments path
      in if length parts \<le> 1 then None else Some (join_with ''/'' (butlast parts), last parts))"

definition parent_relative_directory :: "string \<Rightarrow> string" where
  "parent_relative_directory path = (case rsplit_once_slash path of Some (dir, _) \<Rightarrow> dir | None \<Rightarrow> [])"

definition to_ascii_uppercase :: "string \<Rightarrow> string" where
  "to_ascii_uppercase s =
     map (\<lambda>c. if 97 \<le> (of_char c :: nat) \<and> (of_char c :: nat) \<le> 122 then char_of ((of_char c :: nat) - 32) else c) s"

definition validate_remote_file_name :: "string \<Rightarrow> string + string" where
  "validate_remote_file_name name =
     (let trimmed = trim name;
          stem = to_ascii_uppercase (takeWhile (\<lambda>c. c \<noteq> CHR ''.'') trimmed);
          reserved = (stem \<in> {''CON'', ''PRN'', ''AUX'', ''NUL'', ''COM1'', ''COM2'', ''COM3'', ''COM4'', ''COM5'',
            ''COM6'', ''COM7'', ''COM8'', ''COM9'', ''LPT1'', ''LPT2'', ''LPT3'', ''LPT4'', ''LPT5'', ''LPT6'',
            ''LPT7'', ''LPT8'', ''LPT9''})
      in if trimmed = [] \<or> trimmed = ''.'' \<or> trimmed = ''..'' \<or> CHR ''/'' \<in> set trimmed \<or> CHR 0x5C \<in> set trimmed
            \<or> CHR 0x00 \<in> set trimmed \<or> suffix ''.'' trimmed \<or> suffix '' '' trimmed \<or> reserved
         then Inl ''remote rename newName is not a safe file name'' else Inr trimmed)"

definition remote_sibling_path :: "string \<Rightarrow> string \<Rightarrow> string" where
  "remote_sibling_path source_relative_path new_name =
     (case rsplit_once_slash (normalize_slashes source_relative_path) of
        Some (dir, _) \<Rightarrow> dir @ ''/'' @ new_name | None \<Rightarrow> new_name)"

section \<open>Looking at the tree\<close>

definition ensure_existing_directory_is_safe :: "world \<Rightarrow> path_guard \<Rightarrow> string \<Rightarrow> string + unit" where
  "ensure_existing_directory_is_safe w guard relative_directory =
     (if relative_directory = [] then Inr ()
      else bind_res (map_err path_guard_error_to_string (resolve_existing w guard relative_directory)) (\<lambda>resolved.
           bind_res (map_err (\<lambda>error. ''cannot inspect destination parent: '' @ io_error_to_string error)
               (fs_symlink_metadata w (join_path (guard_root guard) relative_directory))) (\<lambda>metadata.
             if is_link_or_reparse_point metadata
             then Inl ''CREATE_DIR parent refuses symlinks, junctions, and reparse points''
             else if \<not> m_is_dir metadata then Inl ''CREATE_DIR parent is not a directory''
             else if \<not> path_starts_with resolved (guard_root guard) then Inl ''CREATE_DIR parent escaped managed root''
             else Inr ())))"

fun safe_below :: "world \<Rightarrow> path_guard \<Rightarrow> string \<Rightarrow> string list \<Rightarrow> string + unit" where
  "safe_below w guard base [] = Inr ()"
| "safe_below w guard base (segment # parts) =
     (let current = join_path base segment
      in if \<not> path_exists w current then safe_below w guard current parts
         else bind_res (map_err (\<lambda>error. ''cannot inspect destination directory: '' @ io_error_to_string error)
                  (fs_symlink_metadata w current)) (\<lambda>metadata.
                if is_link_or_reparse_point metadata
                then Inl ''MOVE destination refuses symlinks, junctions, and reparse points''
                else if \<not> m_is_dir metadata then Inl ''MOVE destination path contains a non-directory entry''
                else bind_res (map_err (\<lambda>error. ''cannot canonicalize destination directory: '' @ io_error_to_string error)
                         (canonicalize w current)) (\<lambda>resolved.
                       if \<not> path_starts_with resolved (guard_root guard) then Inl ''MOVE destination escaped managed root''
                       else safe_below w guard current parts)))"

definition ensure_destination_directory_is_safe :: "world \<Rightarrow> path_guard \<Rightarrow> string \<Rightarrow> string + unit" where
  "ensure_destination_directory_is_safe w guard relative_directory =
     safe_below w guard (guard_root guard) (filter (\<lambda>segment. segment \<noteq> []) (segments relative_directory))"

definition inspect_regular_source_file :: "world \<Rightarrow> path_guard \<Rightarrow> string \<Rightarrow> string \<Rightarrow> string + metadata" where
  "inspect_regular_source_file w guard source_relative_path what =
     bind_res (map_err path_guard_error_to_string (resolve_existing w guard source_relative_path)) (\<lambda>source.
       let raw_source = join_path (guard_root guard) source_relative_path
       in bind_res (map_err (\<lambda>error. ''cannot read source metadata '' @ raw_source @ '': '' @ io_error_to_string error)
              (fs_symlink_metadata w raw_source)) (\<lambda>metadata.
            if is_link_or_reparse_point metadata then Inl (what @ '' refuses symlinks, junctions, and reparse points'')
            else if \<not> m_is_file metadata then Inl (what @ '' currently supports regular files only'')
            else if \<not> path_starts_with source (guard_root guard) then Inl (what @ '' source escaped managed root'')
            else Inr metadata))"

definition source_file_id_for_path :: "world \<Rightarrow> path_guard \<Rightarrow> string \<Rightarrow> string option" where
  "source_file_id_for_path w guard source_relative_path =
     (case resolve_existing w guard source_relative_path of Inl _ \<Rightarrow> None | Inr path \<Rightarrow> file_id_for_path w path)"

section \<open>Proposals of direct commands\<close>

definition build_single_move_proposal :: "world \<Rightarrow> path_guard \<Rightarrow> string \<Rightarrow> string \<Rightarrow> string \<Rightarrow> string + Proposal" where
  "build_single_move_proposal w guard src dst reason =
     bind_res (inspect_regular_source_file w guard src ''MOVE'') (\<lambda>metadata.
       Inr \<lparr>p_proposal_id = proposal_id ProposalAction.Move src dst, p_action = ProposalAction.Move, p_from = src, p_to = dst,
            p_content = None, p_source_size_bytes = m_len metadata, p_source_modified_unix_ms = modified_unix_ms metadata,
            p_source_file_id = source_file_id_for_path w guard src, p_reason = reason,
            p_status = (if path_exists w (join_path (guard_root guard) dst) then ProposalStatus.DestinationExists
                        else ProposalStatus.Ready)\<rparr>)"

definition build_rename_proposal_report :: "world \<Rightarrow> string \<Rightarrow> RenameCommandPayload \<Rightarrow> string + ProposalReport" where
  "build_rename_proposal_report w root payload =
     bind_res (normalize_remote_file_source (rn_source_relative_path payload)) (\<lambda>src.
     bind_res (validate_remote_file_name (rn_new_name payload)) (\<lambda>new_name.
       let dst = remote_sibling_path src new_name
       in if src = dst then Inl ''rename newName must differ from the source file name''
          else bind_res (map_err path_guard_error_to_string (guard_new w root)) (\<lambda>guard.
               bind_res (build_single_move_proposal w guard src dst ''USER_REQUESTED_RENAME'') (\<lambda>proposal.
                 Inr \<lparr>pr_root = guard_root guard, pr_proposals = [proposal]\<rparr>))))"

definition move_proposal :: "world \<Rightarrow> path_guard \<Rightarrow> string \<Rightarrow> string \<Rightarrow> string + Proposal" where
  "move_proposal w guard destination_directory source_relative_path =
     bind_res (normalize_remote_file_source source_relative_path) (\<lambda>src.
       let name = (case rsplit_once_slash src of Some (_, last_part) \<Rightarrow> last_part | None \<Rightarrow> src);
           dst = (if destination_directory = [] then name else destination_directory @ ''/'' @ name)
       in if src = dst then Inl ''MOVE destination must differ from the source path''
          else build_single_move_proposal w guard src dst ''USER_REQUESTED_MOVE'')"

definition build_move_proposal_report :: "world \<Rightarrow> string \<Rightarrow> MoveCommandPayload \<Rightarrow> string + ProposalReport" where
  "build_move_proposal_report w root payload =
     (if mv_source_relative_paths payload = [] \<or> length (mv_source_relative_paths payload) > 200
      then Inl ''MOVE sourceRelativePaths must contain 1 to 200 paths''
      else bind_res (normalize_remote_relative_directory (mv_destination_relative_directory payload)) (\<lambda>directory.
           bind_res (map_err path_guard_error_to_string (guard_new w root)) (\<lambda>guard.
           bind_res (ensure_destination_directory_is_safe w guard directory) (\<lambda>_.
           bind_res (collect_results (map (move_proposal w guard directory) (mv_source_relative_paths payload))) (\<lambda>proposals.
             Inr \<lparr>pr_root = guard_root guard, pr_proposals = proposals\<rparr>)))))"

definition trash_proposal :: "world \<Rightarrow> path_guard \<Rightarrow> string \<Rightarrow> string + Proposal" where
  "trash_proposal w guard source_relative_path =
     bind_res (normalize_remote_file_source source_relative_path) (\<lambda>src.
     bind_res (inspect_regular_source_file w guard src ''TRASH'') (\<lambda>metadata.
       Inr \<lparr>p_proposal_id = proposal_id ProposalAction.Trash src ''.mousekeeper_trash'', p_action = ProposalAction.Trash,
            p_from = src, p_to = ''.mousekeeper_trash'', p_content = None, p_source_size_bytes = m_len metadata,
            p_source_modified_unix_ms = modified_unix_ms metadata,
            p_source_file_id = source_file_id_for_path w guard src, p_reason = ''USER_REQUESTED_TRASH'',
            p_status = ProposalStatus.Ready\<rparr>))"

definition build_trash_proposal_report :: "world \<Rightarrow> string \<Rightarrow> TrashCommandPayload \<Rightarrow> string + ProposalReport" where
  "build_trash_proposal_report w root payload =
     (if tc_source_relative_paths payload = [] \<or> length (tc_source_relative_paths payload) > 200
      then Inl ''TRASH sourceRelativePaths must contain 1 to 200 paths''
      else bind_res (map_err path_guard_error_to_string (guard_new w root)) (\<lambda>guard.
           bind_res (collect_results (map (trash_proposal w guard) (tc_source_relative_paths payload))) (\<lambda>proposals.
             Inr \<lparr>pr_root = guard_root guard, pr_proposals = proposals\<rparr>)))"

definition build_create_proposal_report :: "world \<Rightarrow> string \<Rightarrow> CreateCommandPayload \<Rightarrow> string + ProposalReport" where
  "build_create_proposal_report w root payload =
     (if cc_kind payload \<notin> {''DIRECTORY'', ''FILE''} then Inl ''CREATE kind must be FILE or DIRECTORY''
      else let is_directory = (cc_kind payload = ''DIRECTORY'')
           in if is_directory \<and> cc_content payload \<noteq> None then Inl ''CREATE DIRECTORY must not include file content''
              else if \<not> is_directory \<and> (case cc_content payload of Some c \<Rightarrow> c | None \<Rightarrow> []) \<noteq> []
              then Inl ''CREATE FILE currently supports empty files only''
              else bind_res (if is_directory then normalize_remote_directory_target (cc_relative_path payload)
                             else normalize_remote_file_source (cc_relative_path payload)) (\<lambda>path.
                   bind_res (map_err path_guard_error_to_string (guard_new w root)) (\<lambda>guard.
                   bind_res (ensure_existing_directory_is_safe w guard (parent_relative_directory path)) (\<lambda>_.
                     let action = (if is_directory then ProposalAction.CreateDir else ProposalAction.CreateFile)
                     in Inr \<lparr>pr_root = guard_root guard, pr_proposals =
                          [\<lparr>p_proposal_id = proposal_id action [] path, p_action = action, p_from = [], p_to = path,
                            p_content = None, p_source_size_bytes = 0, p_source_modified_unix_ms = None,
                            p_source_file_id = None,
                            p_reason = (if is_directory then ''USER_REQUESTED_CREATE_DIR'' else ''USER_REQUESTED_CREATE_FILE''),
                            p_status = (if path_exists w (join_path (guard_root guard) path)
                                        then ProposalStatus.DestinationExists else ProposalStatus.Ready)\<rparr>]\<rparr>))))"

section \<open>The submission\<close>

definition USER_REQUESTED_REASONS :: "string set" where
  "USER_REQUESTED_REASONS =
     {''USER_REQUESTED_RENAME'', ''USER_REQUESTED_MOVE'', ''USER_REQUESTED_TRASH'', ''USER_REQUESTED_CREATE_DIR'',
      ''USER_REQUESTED_CREATE_FILE''}"

definition reason_code :: "Proposal \<Rightarrow> string" where
  "reason_code proposal =
     (if p_reason proposal \<in> USER_REQUESTED_REASONS then p_reason proposal
      else case p_action proposal of
             ProposalAction.Move \<Rightarrow> ''RULE_MOVE_BY_EXTENSION''
           | ProposalAction.Trash \<Rightarrow> ''RULE_QUARANTINE''
           | ProposalAction.CreateDir \<Rightarrow> ''RULE_CREATE_DIR''
           | ProposalAction.CreateFile \<Rightarrow> ''CREATE_FILE''
           | ProposalAction.ReadmeWrite \<Rightarrow> ''README_WRITE'')"

fun submitted_action :: "ProposalAction \<Rightarrow> AgentProposalActionType" where
  "submitted_action ProposalAction.Move = AgentProposalActionType.Move"
| "submitted_action ProposalAction.Trash = AgentProposalActionType.Quarantine"
| "submitted_action ProposalAction.CreateDir = AgentProposalActionType.CreateDir"
| "submitted_action ProposalAction.CreateFile = AgentProposalActionType.CreateFile"
| "submitted_action ProposalAction.ReadmeWrite = AgentProposalActionType.ReadmeWrite"

fun submitted_conflict :: "ProposalStatus \<Rightarrow> AgentProposalConflictState" where
  "submitted_conflict ProposalStatus.Ready = NoConflict"
| "submitted_conflict ProposalStatus.DestinationExists = NameConflict"

text \<open>\<^verbatim>\<open>json!\<close> of the snapshot of the source; the time of the check is a parameter.\<close>

definition precondition_json :: "int \<Rightarrow> Proposal \<Rightarrow> json" where
  "precondition_json checked_at proposal =
     JObject ([(''proposalId'', JString (p_proposal_id proposal)),
               (''sourceSizeBytes'', JNumber (int (p_source_size_bytes proposal))),
               (''sourceModifiedUnixMs'',
                  json_of_option (\<lambda>ms. JNumber (int ms)) (p_source_modified_unix_ms proposal)),
               (''checkedAtUnixMs'', JNumber checked_at)]
       @ (case p_source_file_id proposal of None \<Rightarrow> [] | Some file_id \<Rightarrow> [(''sourceFileId'', JString file_id)]))"

definition proposal_item :: "int \<Rightarrow> nat \<Rightarrow> Proposal \<Rightarrow> AgentProposalItem" where
  "proposal_item checked_at item_order proposal =
     \<lparr>ai_item_order = item_order, ai_action_type = submitted_action (p_action proposal),
      ai_source_relative_path =
        (if p_action proposal \<in> {ProposalAction.Move, ProposalAction.Trash} then Some (p_from proposal) else None),
      ai_destination_relative_path =
        (case p_action proposal of
           ProposalAction.Trash \<Rightarrow> None
         | ProposalAction.ReadmeWrite \<Rightarrow> Some ''README.md''
         | _ \<Rightarrow> Some (p_to proposal)),
      ai_reason_code = reason_code proposal, ai_precondition = precondition_json checked_at proposal,
      ai_conflict_state = submitted_conflict (p_status proposal)\<rparr>"

definition build_agent_proposal_submission ::
    "(nat \<Rightarrow> int) \<Rightarrow> AgentCommand \<Rightarrow> ProposalReport \<Rightarrow> nat \<Rightarrow> string + AgentProposalSubmission" where
  "build_agent_proposal_submission checked_at command report limit =
     (if \<not> (1 \<le> limit \<and> limit \<le> 200) then Inl ''organize_files.maxProposals must be between 1 and 200''
      else let items = map (\<lambda>(index, proposal). proposal_item (checked_at index) index proposal)
                         (enumerate 0 (take limit (pr_proposals report)))
           in Inr \<lparr>as_command_id = ac_command_id command, as_room_id = ac_room_id command,
                   as_summary = \<lparr>ap_item_count = length items, ap_readme_draft = None, ap_readme_diff = None\<rparr>,
                   as_expires_at = None, as_items = items\<rparr>)"

section \<open>Organize commands\<close>

definition resolve_proposal ::
    "commanding \<Rightarrow> string \<Rightarrow> OrganizeFilesPayload \<Rightarrow> world \<Rightarrow> ((string + ProposalReport) \<times> world) option" where
  "resolve_proposal ce root payload w =
     (case og_rule_draft payload of
        Some draft \<Rightarrow>
          (case rule_set_from_draft_value (ce_draft_rules ce) (ce_draft_contract ce) draft of
             Inl error \<Rightarrow> Some (Inl (''invalid AI rule draft shape: '' @ rule_error_to_string error), w)
           | Inr rule_set \<Rightarrow>
               map_option (map_prod (map_err proposal_error_to_string) id) (propose_for_root_with_rule_set root rule_set w))
      | None \<Rightarrow>
          if og_user_intent payload \<noteq> None
          then Some (Inl ''ORGANIZE_RULE_DRAFT_REQUIRED: refusing to ignore the requested file selector'', w)
          else map_option (map_prod (map_err proposal_error_to_string) id) (propose_for_root (ce_parse_rules ce) root w))"

definition parse_organize_payload ::
    "(json \<Rightarrow> string + OrganizeFilesPayload) \<Rightarrow> AgentCommand \<Rightarrow> string + OrganizeFilesPayload" where
  "parse_organize_payload decode command =
     bind_res
       (if ac_command_type command = ''ANALYZE''
        then if ac_payload command \<noteq> JObject [] then Inl ''ANALYZE payload must be an empty object''
             else Inr \<lparr>og_root_id = None, og_relative_path = None, og_scope_relative_path = None,
                       og_max_proposals = Some DEFAULT_MAX_PROPOSALS, og_rule_mode = None, og_user_intent = None,
                       og_rule_draft = None\<rparr>
        else map_err (\<lambda>error. ''invalid organize_files payload: '' @ error) (decode (ac_payload command)))
       (\<lambda>payload.
          if \<not> (1 \<le> max_proposals payload \<and> max_proposals payload \<le> 200)
          then Inl ''organize_files.maxProposals must be between 1 and 200''
          else if (case og_rule_mode payload of
                     None \<Rightarrow> False | Some rule_mode \<Rightarrow> rule_mode \<notin> {''default'', ''managed_root_rules''})
          then Inl ''organize_files.ruleMode is not supported''
          else if (case og_user_intent payload of None \<Rightarrow> False | Some what \<Rightarrow> length (chars what) > 2000)
          then Inl ''organize_files.userIntent is too long''
          else Inr payload)"

definition validate_relative_scope :: "string \<Rightarrow> string + unit" where
  "validate_relative_scope path =
     (if path \<noteq> [] then Inl ''organize_files.relativePath is not supported until scoped analysis is implemented''
      else if CHR 0x5C \<in> set path \<or> prefix ''/'' path \<or> prefix [CHR 0x5C, CHR 0x5C] path \<or> CHR '':'' \<in> set path
              \<or> ''..'' \<in> set (segments path)
      then Inl ''organize_files.relativePath must stay inside the managed root'' else Inr ())"

section \<open>Processing a command\<close>

definition report_command_status :: "commanding \<Rightarrow> string \<Rightarrow> string \<Rightarrow> ('n, unit) station_op" where
  "report_command_status ce command_id status s =
     (case enqueue_command_status (ce_wire ce) (ce_queued_at ce command_id) command_id status (sn_outbox s) of
        (out, outbox) \<Rightarrow> (out, s\<lparr>sn_outbox := outbox\<rparr>))"

definition claim_command_for_analysis :: "'n agent_env \<Rightarrow> commanding \<Rightarrow> AgentCommand \<Rightarrow> ('n, unit) station_op" where
  "claim_command_for_analysis env ce command s =
     (let announce = (\<lambda>status. update_command_status env (res_command (ce_wire ce)) (ac_command_id command) status)
      in if ac_status command = ''QUEUED''
         then case announce ''DELIVERED'' (sn_agent s) of
                (Inl error, a) \<Rightarrow> (Inl (agent_error_to_string error), s\<lparr>sn_agent := a\<rparr>)
              | (Inr _, a) \<Rightarrow>
                  (case announce ''ANALYZING'' a of
                     (out, a1) \<Rightarrow> (map_sum agent_error_to_string (\<lambda>_. ()) out, s\<lparr>sn_agent := a1\<rparr>))
         else if ac_status command = ''DELIVERED''
         then case announce ''ANALYZING'' (sn_agent s) of
                (out, a1) \<Rightarrow> (map_sum agent_error_to_string (\<lambda>_. ()) out, s\<lparr>sn_agent := a1\<rparr>)
         else if ac_status command = ''ANALYZING'' then (Inr (), s)
         else (Inl (''command status is not claimable for analysis: '' @ ac_status command), s))"

text \<open>From the claim to the root: the steps the five handlers share.\<close>

definition claimed_root ::
    "'n agent_env \<Rightarrow> commanding \<Rightarrow> AgentCommand \<Rightarrow> string option \<Rightarrow> ('n, ManagedRoot) station_op" where
  "claimed_root env ce command requested_root_id s =
     (case claim_command_for_analysis env ce command s of
        (Inl e, s1) \<Rightarrow> (Inl e, s1)
      | (Inr _, s1) \<Rightarrow>
     (case root_id_for_room env (ce_rooms ce) (ac_room_id command) (sn_agent s1) of
        (Inl e, a) \<Rightarrow> (Inl (agent_error_to_string e), s1\<lparr>sn_agent := a\<rparr>)
      | (Inr room, a) \<Rightarrow>
     (case ensure_active_room_binding (ce_bound_at ce (ac_command_id command)) (rs_root_id room) (ac_room_id command)
             (sn_roots s1) of
        (Inl e, roots) \<Rightarrow> (Inl e, s1\<lparr>sn_agent := a, sn_roots := roots\<rparr>)
      | (Inr managed_root, roots) \<Rightarrow>
          (let s2 = s1\<lparr>sn_agent := a, sn_roots := roots\<rparr>
           in if (case requested_root_id of None \<Rightarrow> False | Some root_id \<Rightarrow> root_id \<noteq> mr_root_id managed_root)
              then (Inl ''command rootId does not match the room binding'', s2)
              else if \<not> mr_enabled managed_root then (Inl (''managed root is disabled: '' @ mr_root_id managed_root), s2)
              else (Inr managed_root, s2)))))"

definition queue_submission :: "commanding \<Rightarrow> AgentProposalSubmission \<Rightarrow> ('n, nat) station_op" where
  "queue_submission ce submission s =
     (case enqueue_proposal (ce_wire ce) (ce_queued_at ce (as_command_id submission)) submission (sn_outbox s) of
        (Inl e, outbox) \<Rightarrow> (Inl e, s\<lparr>sn_outbox := outbox\<rparr>)
      | (Inr _, outbox) \<Rightarrow> (Inr (length (as_items submission)), s\<lparr>sn_outbox := outbox\<rparr>))"

definition submission_for :: "commanding \<Rightarrow> AgentCommand \<Rightarrow> ProposalReport \<Rightarrow> nat \<Rightarrow> string + AgentProposalSubmission" where
  "submission_for ce command = build_agent_proposal_submission (ce_checked_at ce (ac_command_id command)) command"

definition propose_in_root ::
    "'n agent_env \<Rightarrow> commanding \<Rightarrow> AgentCommand \<Rightarrow> string \<Rightarrow> (world \<Rightarrow> string \<Rightarrow> string + ProposalReport) \<Rightarrow> nat
       \<Rightarrow> ('n, nat) station_op" where
  "propose_in_root env ce command root_id build limit s =
     (case claimed_root env ce command (Some root_id) s of
        (Inl e, s1) \<Rightarrow> (Inl e, s1)
      | (Inr managed_root, s1) \<Rightarrow>
          (case bind_res (build (sn_world s1) (mr_root managed_root)) (\<lambda>local_report.
                  submission_for ce command local_report limit) of
             Inl e \<Rightarrow> (Inl e, s1) | Inr submission \<Rightarrow> queue_submission ce submission s1))"

definition process_create_command :: "'n agent_env \<Rightarrow> commanding \<Rightarrow> AgentCommand \<Rightarrow> ('n, nat) station_op" where
  "process_create_command env ce command s =
     (case ce_create ce (ac_payload command) of
        Inl error \<Rightarrow> (Inl (''invalid create payload: '' @ error), s)
      | Inr payload \<Rightarrow>
          propose_in_root env ce command (cc_root_id payload) (\<lambda>w root. build_create_proposal_report w root payload) 1 s)"

definition process_trash_command :: "'n agent_env \<Rightarrow> commanding \<Rightarrow> AgentCommand \<Rightarrow> ('n, nat) station_op" where
  "process_trash_command env ce command s =
     (case ce_trash ce (ac_payload command) of
        Inl error \<Rightarrow> (Inl (''invalid trash payload: '' @ error), s)
      | Inr payload \<Rightarrow>
          propose_in_root env ce command (tc_root_id payload) (\<lambda>w root. build_trash_proposal_report w root payload) 200 s)"

definition process_move_command :: "'n agent_env \<Rightarrow> commanding \<Rightarrow> AgentCommand \<Rightarrow> ('n, nat) station_op" where
  "process_move_command env ce command s =
     (case ce_move ce (ac_payload command) of
        Inl error \<Rightarrow> (Inl (''invalid move payload: '' @ error), s)
      | Inr payload \<Rightarrow>
          propose_in_root env ce command (mv_root_id payload) (\<lambda>w root. build_move_proposal_report w root payload) 200 s)"

definition process_rename_command :: "'n agent_env \<Rightarrow> commanding \<Rightarrow> AgentCommand \<Rightarrow> ('n, nat) station_op" where
  "process_rename_command env ce command s =
     (case ce_rename ce (ac_payload command) of
        Inl error \<Rightarrow> (Inl (''invalid rename payload: '' @ error), s)
      | Inr payload \<Rightarrow>
          propose_in_root env ce command (rn_root_id payload) (\<lambda>w root. build_rename_proposal_report w root payload) 1 s)"

text \<open>A result of \<^const>\<open>None\<close> means that the fuel of the scan ran out.\<close>

definition process_organize_command ::
    "'n agent_env \<Rightarrow> commanding \<Rightarrow> AgentCommand \<Rightarrow> 'n station \<Rightarrow> ((string + nat) \<times> 'n station) option" where
  "process_organize_command env ce command s =
     (case bind_res (parse_organize_payload (ce_organize ce) command) (\<lambda>payload.
             bind_res (validate_relative_scope (scope payload)) (\<lambda>_. Inr payload)) of
        Inl e \<Rightarrow> Some (Inl e, s)
      | Inr payload \<Rightarrow>
          (case claimed_root env ce command (og_root_id payload) s of
             (Inl e, s1) \<Rightarrow> Some (Inl e, s1)
           | (Inr managed_root, s1) \<Rightarrow>
               (case resolve_proposal ce (mr_root managed_root) payload (sn_world s1) of
                  None \<Rightarrow> None
                | Some (Inl e, w) \<Rightarrow> Some (Inl e, s1\<lparr>sn_world := w\<rparr>)
                | Some (Inr local_report, w) \<Rightarrow>
                    (let s2 = s1\<lparr>sn_world := w\<rparr>
                     in case submission_for ce command local_report (max_proposals payload) of
                          Inl e \<Rightarrow> Some (Inl e, s2)
                        | Inr submission \<Rightarrow>
                            if as_items submission = []
                            then Some (Inr 0, snd (report_command_status ce (ac_command_id command) ''SUCCEEDED'' s2))
                            else Some (queue_submission ce submission s2)))))"

section \<open>A round of commands\<close>

definition is_processable_command_status :: "string \<Rightarrow> bool" where
  "is_processable_command_status status = (status \<in> {''QUEUED'', ''DELIVERED'', ''ANALYZING''})"

definition is_supported_command :: "AgentCommand \<Rightarrow> bool" where
  "is_supported_command command =
     (ac_command_type command \<in> {''ANALYZE'', ''RENAME'', ''MOVE'', ''TRASH'', ''CREATE'', ''ORGANIZE'', ''organize_files'',
        ''ORGANIZE_ROOT''})"

definition is_contract_command_without_desktop_handler :: "AgentCommand \<Rightarrow> bool" where
  "is_contract_command_without_desktop_handler command =
     (ac_command_type command \<in> {''FIND'', ''DOWNLOAD'', ''UPLOAD''})"

definition report_command ::
    "AgentCommand \<Rightarrow> CommandProcessingStatus \<Rightarrow> string option \<Rightarrow> nat \<Rightarrow> CommandProcessingReport \<Rightarrow> CommandProcessingReport" where
  "report_command command status message item_count report =
     report\<lparr>pq_results := pq_results report @
       [\<lparr>pm_command_id = ac_command_id command, pm_command_type = ac_command_type command, pm_status = status,
         pm_message = message, pm_proposal_item_count = item_count\<rparr>]\<rparr>"

definition skip_command :: "AgentCommand \<Rightarrow> CommandProcessingReport \<Rightarrow> CommandProcessingReport" where
  "skip_command command report =
     report_command command Skipped
       (Some ''command type or status is not handled by the desktop proposal processor'') 0
       (report\<lparr>pq_skipped_count := pq_skipped_count report + 1\<rparr>)"

definition refuse_contract_command ::
    "'n agent_env \<Rightarrow> commanding \<Rightarrow> AgentCommand \<Rightarrow> CommandProcessingReport \<times> 'n station
       \<Rightarrow> CommandProcessingReport \<times> 'n station" where
  "refuse_contract_command env ce command = (\<lambda>(report, s).
     let counted = report\<lparr>pq_processed_count := pq_processed_count report + 1, pq_failed_count := pq_failed_count report + 1\<rparr>
     in case claim_command_for_analysis env ce command s of
          (Inl error, s1) \<Rightarrow>
            (report_command command Failed (Some (''command intent is not yet handled by the desktop processor; additionally failed to claim command for failure reporting: '' @ error)) 0 counted, s1)
        | (Inr _, s1) \<Rightarrow>
            (case report_command_status ce (ac_command_id command) ''FAILED'' s1 of
               (Inl error, s2) \<Rightarrow>
                 (report_command command Failed (Some (''command intent is not yet handled by the desktop processor; additionally failed to queue FAILED status: '' @ error)) 0 counted, s2)
             | (Inr _, s2) \<Rightarrow>
                 (report_command command Failed (Some ''command intent is not yet handled by the desktop processor'') 0 counted, s2)))"

definition run_command ::
    "'n agent_env \<Rightarrow> commanding \<Rightarrow> AgentCommand \<Rightarrow> 'n station \<Rightarrow> ((string + nat) \<times> 'n station) option" where
  "run_command env ce command s =
     (if ac_command_type command = ''RENAME'' then Some (process_rename_command env ce command s)
      else if ac_command_type command = ''MOVE'' then Some (process_move_command env ce command s)
      else if ac_command_type command = ''TRASH'' then Some (process_trash_command env ce command s)
      else if ac_command_type command = ''CREATE'' then Some (process_create_command env ce command s)
      else process_organize_command env ce command s)"

definition conclude_command ::
    "commanding \<Rightarrow> AgentCommand \<Rightarrow> string + nat \<Rightarrow> CommandProcessingReport \<times> 'n station \<Rightarrow> CommandProcessingReport \<times> 'n station" where
  "conclude_command ce command out = (\<lambda>(report, s).
     case out of
       Inr item_count \<Rightarrow>
         (if item_count = 0
          then (report_command command NoProposal (Some ''already clean; no proposal items were found'') 0 report, s)
          else (report_command command SubmittedProposal None item_count
                  (report\<lparr>pq_submitted_proposal_count := pq_submitted_proposal_count report + 1\<rparr>), s))
     | Inl error \<Rightarrow>
         (report_command command Failed (Some error) 0 (report\<lparr>pq_failed_count := pq_failed_count report + 1\<rparr>),
          snd (report_command_status ce (ac_command_id command) ''FAILED'' s)))"

definition process_command ::
    "'n agent_env \<Rightarrow> commanding \<Rightarrow> AgentCommand \<Rightarrow> CommandProcessingReport \<times> 'n station
       \<Rightarrow> (CommandProcessingReport \<times> 'n station) option" where
  "process_command env ce command = (\<lambda>(report, s).
     if \<not> is_processable_command_status (ac_status command) then Some (skip_command command report, s)
     else if is_contract_command_without_desktop_handler command
     then Some (refuse_contract_command env ce command (report, s))
     else if \<not> is_supported_command command then Some (skip_command command report, s)
     else case run_command env ce command s of
            None \<Rightarrow> None
          | Some (out, s1) \<Rightarrow>
              Some (conclude_command ce command out (report\<lparr>pq_processed_count := pq_processed_count report + 1\<rparr>, s1)))"

fun process_each_command ::
    "'n agent_env \<Rightarrow> commanding \<Rightarrow> AgentCommand list \<Rightarrow> CommandProcessingReport \<times> 'n station
       \<Rightarrow> (CommandProcessingReport \<times> 'n station) option" where
  "process_each_command env ce [] st = Some st"
| "process_each_command env ce (command # commands) st =
     (case process_command env ce command st of
        None \<Rightarrow> None | Some st1 \<Rightarrow> process_each_command env ce commands st1)"

definition started_round :: "nat \<Rightarrow> CommandProcessingReport" where
  "started_round inspected_count =
     \<lparr>pq_inspected_count = inspected_count, pq_processed_count = 0, pq_submitted_proposal_count = 0,
      pq_failed_count = 0, pq_skipped_count = 0, pq_results = []\<rparr>"

definition process_commands ::
    "'n agent_env \<Rightarrow> commanding \<Rightarrow> AgentCommand list \<Rightarrow> 'n station \<Rightarrow> (CommandProcessingReport \<times> 'n station) option" where
  "process_commands env ce commands s =
     process_each_command env ce commands (started_round (length commands), s)"

definition process_pending_commands ::
    "'n agent_env \<Rightarrow> commanding \<Rightarrow> 'n station \<Rightarrow> ((string + CommandProcessingReport) \<times> 'n station) option" where
  "process_pending_commands env ce s =
     (case poll_commands env (ce_commands ce) (sn_agent s) of
        (Inl error, a) \<Rightarrow> Some (Inl (agent_error_to_string error), s\<lparr>sn_agent := a\<rparr>)
      | (Inr commands, a) \<Rightarrow>
          map_option (\<lambda>(report, s1). (Inr report, s1)) (process_commands env ce commands (s\<lparr>sn_agent := a\<rparr>)))"

end
