(* ===== verification/Command_Laws.thy ===== *)
theory Command_Laws
  imports Command_Processor Auto_Cleanup Plain_Paths
begin

text \<open>
  What the command processor promises: the proposals of direct commands are valid when they are made; a
  proposal that comes back as an approved item is the one that was submitted; processing commands always ends and
  changes no file; a processed command leaves a row in the outbox, though the agent itself refuses to send the one
  of a command with nothing to do.
\<close>

section \<open>Remote paths\<close>

lemma remote_path_segments:
  assumes "validate_remote_relative_path path = Inr ()"
  shows "valid_loc (segments path)" "path = join_with ''/'' (segments path)"
proof -
  have "valid_name s" if s: "s \<in> set (segments path)" for s
    using assms s split_on_segments [OF s] 
    by (auto simp: validate_remote_relative_path_def valid_name_def list_ex_iff is_sep_def split: if_splits)
  then show "valid_loc (segments path)" by (simp add: valid_loc_def list_all_iff)
qed (simp add: join_segments)

lemma normalize_slashes_rel:
  assumes "valid_loc rel" "rel \<noteq> []"
  shows "normalize_slashes (join_with ''/'' rel) = join_with ''/'' rel"
  using components_join [OF assms] by (simp add: normalize_slashes_def comp_def)

text \<open>The texts the builders work with: plain names, joined.\<close>

definition plain :: "string \<Rightarrow> bool" where
  "plain path \<longleftrightarrow> (\<exists>rel. valid_loc rel \<and> rel \<noteq> [] \<and> path = join_with ''/'' rel)"

lemma plain_segments: "plain path \<longleftrightarrow> valid_loc (segments path)"
  by (metis join_segments plain_def segments_join split_on_ne)

lemma plain_safe: "plain path \<Longrightarrow> safe_relative path"
  using safe_join by (auto simp: plain_def)

lemma validated_plain: "validate_remote_relative_path path = Inr () \<Longrightarrow> plain path \<and> normalize_slashes path = path"
  using remote_path_segments [of path] normalize_slashes_rel [of "segments path"] by (simp add: plain_segments)

lemma file_source_plain: "normalize_remote_file_source path = Inr src \<Longrightarrow> plain src"
  using validated_plain by (auto simp: normalize_remote_file_source_def bind_res_Inr_iff)

lemma directory_plain: "normalize_remote_relative_directory path = Inr dir \<Longrightarrow> dir = [] \<or> plain dir"
  using validated_plain by (auto simp: normalize_remote_relative_directory_def Let_def bind_res_Inr_iff split: if_splits)

lemma directory_target_plain: "normalize_remote_directory_target path = Inr dir \<Longrightarrow> plain dir"
  using directory_plain by (auto simp: normalize_remote_directory_target_def bind_res_Inr_iff split: if_splits)

lemma rsplit_plain:
  assumes "plain path"
  shows "case rsplit_once_slash path of
      None \<Rightarrow> valid_name path
    | Some (dir, name) \<Rightarrow> plain dir \<and> valid_name name \<and> path = dir @ ''/'' @ name"
proof -
  define parts where "parts = segments path"
  have parts: "valid_loc parts" "parts \<noteq> []" "path = join_with ''/'' parts"
    using assms by (simp_all add: parts_def plain_segments join_segments)
  then obtain d c where dc: "parts = d @ [c]" by (metis append_butlast_last_id)
  have split: "rsplit_once_slash path = (if length parts \<le> 1 then None else Some (join_with ''/'' (butlast parts), last parts))"
    by (simp add: rsplit_once_slash_def parts_def Let_def)
  show ?thesis
  proof (cases "d = []")
    case True
    then show ?thesis using parts dc split by (simp add: valid_loc_def)
  next
    case False
    have "path = join_with ''/'' d @ ''/'' @ c" using parts(3) dc False by (simp add: join_with_append)
    moreover have "plain (join_with ''/'' d)" "valid_name c" using parts(1) dc False by (auto simp: plain_def valid_loc_def)
    ultimately show ?thesis using False dc split by (cases d) simp_all
  qed
qed

lemma plain_name: "valid_name name \<Longrightarrow> plain name"
  unfolding plain_def by (intro exI [of _ "[name]"]) (simp add: valid_loc_def)

lemma plain_below: "plain dir \<Longrightarrow> valid_name name \<Longrightarrow> plain (dir @ ''/'' @ name)"
proof -
  assume "plain dir" and name: "valid_name name"
  then obtain rel where "valid_loc rel" "rel \<noteq> []" "dir = join_with ''/'' rel" by (auto simp: plain_def)
  with name show ?thesis
    unfolding plain_def by (intro exI [of _ "rel @ [name]"]) (simp add: valid_loc_def join_with_append)
qed

lemma file_name_ok:
  assumes "validate_remote_file_name name = Inr new_name"
  shows "valid_name new_name"
  using assms by (auto simp: validate_remote_file_name_def Let_def valid_name_def split: if_splits)

lemma remote_sibling_plain:
  assumes "plain src" "valid_name name"
  shows "plain (remote_sibling_path src name)"
proof -
  have "normalize_slashes src = src" using assms(1) normalize_slashes_rel by (auto simp: plain_def)
  then show ?thesis using rsplit_plain [OF assms(1)] plain_name [OF assms(2)] plain_below [OF _ assms(2)]
    by (auto simp: remote_sibling_path_def split: option.splits)
qed

section \<open>From the desk to the server and back\<close>

text \<open>The record of an item as the server hands it back with a decision.\<close>

definition relayed :: "AgentProposalItem \<Rightarrow> AgentProposalItemRecord" where
  "relayed item =
     \<lparr>ar_item_order = int (ai_item_order item), ar_action_type = action_type_text (ai_action_type item),
      ar_source_relative_path = ai_source_relative_path item,
      ar_destination_relative_path = ai_destination_relative_path item, ar_reason_code = ai_reason_code item,
      ar_precondition = ai_precondition item, ar_conflict_state = conflict_state_text (ai_conflict_state item)\<rparr>"

definition relayable :: "Proposal \<Rightarrow> bool" where
  "relayable p \<longleftrightarrow>
     p_proposal_id p = proposal_id (p_action p) (p_from p) (p_to p) \<and> p_content p = None
     \<and> p_source_file_id p \<noteq> Some [] \<and> p_action p \<noteq> ProposalAction.ReadmeWrite
     \<and> (p_action p = ProposalAction.Trash \<longrightarrow> p_to p = TRASH_DIR)
     \<and> (p_action p \<in> {ProposalAction.CreateDir, ProposalAction.CreateFile} \<longrightarrow> p_from p = [])"

text \<open>Sizes and times in the range of \<^verbatim>\<open>u64\<close>.\<close>

definition fits64 :: "Proposal \<Rightarrow> bool" where
  "fits64 p \<longleftrightarrow> p_source_size_bytes p < 2 ^ 64 \<and> (\<forall>ms \<in> set_option (p_source_modified_unix_ms p). ms < 2 ^ 64)"

lemma precondition_back:
  assumes "p_source_file_id p \<noteq> Some []" "fits64 p"
  shows "precondition_snapshot (precondition_json checked_at p)
    = (p_source_size_bytes p, p_source_modified_unix_ms p, p_source_file_id p)"
  using assms
  by (cases "p_source_modified_unix_ms p"; cases "p_source_file_id p")
    (simp_all add: precondition_snapshot_def precondition_json_def fits64_def)

lemma item_back:
  assumes "relayable p" "fits64 p"
  shows "local_proposal_from_item (relayed (proposal_item checked_at i p)) = Inr (p\<lparr>p_reason := reason_code p\<rparr>)"
proof -
  have pre: "precondition_snapshot (precondition_json checked_at p)
      = (p_source_size_bytes p, p_source_modified_unix_ms p, p_source_file_id p)"
    using precondition_back assms by (simp add: relayable_def)
  have status: "item_status (conflict_state_text (submitted_conflict (p_status p))) = Inr (p_status p)"
    by (cases "p_status p") (simp_all add: item_status_def)
  show ?thesis
    using assms(1) pre status
    by (cases "p_action p")
      (simp_all add: local_proposal_from_item_def relayed_def proposal_item_def item_action_def required_path_def
        relayable_def TRASH_DIR_def Let_def)
qed

lemma submission_items:
  assumes "build_agent_proposal_submission checked_at command report limit = Inr submission"
  shows "as_items submission = map (\<lambda>(i, p). proposal_item (checked_at i) i p) (enumerate 0 (take limit (pr_proposals report)))"
    "as_command_id submission = ac_command_id command" "1 \<le> limit" "limit \<le> 200"
  using assms by (auto simp: build_agent_proposal_submission_def Let_def split: if_splits)

lemma relayed_items:
  assumes "list_all (\<lambda>p. relayable p \<and> fits64 p) ps"
  shows "map (local_proposal_from_item \<circ> relayed \<circ> (\<lambda>(i, p). proposal_item (checked_at i) i p)) (enumerate n ps)
    = map (\<lambda>p. Inr (p\<lparr>p_reason := reason_code p\<rparr>)) ps"
  using assms by (induction ps arbitrary: n) (simp_all add: item_back)

lemma relayed_sorted:
  "sort_key ar_item_order (map relayed (map (\<lambda>(i, p). proposal_item (checked_at i) i p) (enumerate n ps)))
     = map relayed (map (\<lambda>(i, p). proposal_item (checked_at i) i p) (enumerate n ps))"
proof (rule sort_key_id_if_sorted)
  have "map ar_item_order (map relayed (map (\<lambda>(i, p). proposal_item (checked_at i) i p) (enumerate n ps)))
      = map int [n..<n + length ps]"
    by (induction ps arbitrary: n) (simp_all add: relayed_def proposal_item_def upt_rec)
  then show "sorted (map ar_item_order (map relayed (map (\<lambda>(i, p). proposal_item (checked_at i) i p) (enumerate n ps))))"
    by (simp add: sorted_map)
qed

lemma report_back:
  assumes "build_agent_proposal_submission checked_at command report limit = Inr submission"
    and "list_all (\<lambda>p. relayable p \<and> fits64 p) (pr_proposals report)" "pr_proposals report \<noteq> []"
    and "guard_new w root = Inr \<lparr>guard_root = pr_root report\<rparr>"
  shows "build_local_proposal_report w root (map relayed (as_items submission))
    = Inr \<lparr>pr_root = pr_root report,
        pr_proposals = map (\<lambda>p. p\<lparr>p_reason := reason_code p\<rparr>) (take limit (pr_proposals report))\<rparr>"
proof -
  note items = submission_items [OF assms(1)]
  let ?ps = "take limit (pr_proposals report)"
  have "list_all (\<lambda>p. relayable p \<and> fits64 p) ?ps" using assms(2) by (auto simp: list_all_iff dest: in_set_takeD)
  from relayed_items [OF this, of checked_at 0]
  have returned: "map local_proposal_from_item (map relayed (as_items submission)) = map (\<lambda>p. Inr (p\<lparr>p_reason := reason_code p\<rparr>)) ?ps"
    by (simp add: items(1) comp_def)
  have "?ps \<noteq> []" using assms(3) items(3) by simp
  then have "length (as_items submission) \<noteq> 0" by (simp add: items(1))
  then have "as_items submission \<noteq> []" by simp
  moreover have "collect_results (map (\<lambda>p. Inr (p\<lparr>p_reason := reason_code p\<rparr>)) ?ps)
      = (Inr (map (\<lambda>p. p\<lparr>p_reason := reason_code p\<rparr>) ?ps) :: string + Proposal list)"
    by (simp add: collect_results_Inr_iff)
  ultimately show ?thesis
    using relayed_sorted [of checked_at 0 ?ps] returned assms(4)
    by (simp add: build_local_proposal_report_def items(1))
qed

section \<open>The proposals of direct commands\<close>

text \<open>A move or trash proposal that describes its source as it is.\<close>

definition describes :: "world \<Rightarrow> path_guard \<Rightarrow> Proposal \<Rightarrow> bool" where
  "describes w g p \<longleftrightarrow> plain (p_from p) \<and> (\<exists>source m. resolve_existing w g (p_from p) = Inr source
     \<and> fs_metadata w source = Inr m \<and> m_is_file m \<and> m_len m = p_source_size_bytes p
     \<and> modified_unix_ms m = p_source_modified_unix_ms p
     \<and> file_id_for_path w source = p_source_file_id p \<and> p_source_file_id p \<noteq> None)"

lemma inspected_source:
  assumes g: "guard_ok w g r" and ok: "inspect_regular_source_file w g src what = Inr m"
  shows "\<exists>source. resolve_existing w g src = Inr source \<and> fs_metadata w source = Inr m \<and> m_is_file m"
proof -
  have wf: "wf_fs (w_fs w)" using g by (simp add: guard_ok_def)
  obtain source where src: "resolve_existing w g src = Inr source"
    and m: "fs_symlink_metadata w (join_path (guard_root g) src) = Inr m" "\<not> m_is_symlink m" "m_is_file m"
    using ok by (auto simp: inspect_regular_source_file_def bind_res_Inr_iff Let_def is_link_or_reparse_point_def
        is_windows_reparse_point_def split: if_splits)
  obtain l nd where l: "source = path_of_loc l" "map_of (w_fs w) l = Some nd" "\<not> is_link (Some nd)"
    "resolve w True (join_path (guard_root g) src) = Inr (l, nd)"
    using resolve_existing_Inr [OF g src] by blast
  obtain k raw where raw: "resolve w False (join_path (guard_root g) src) = Inr (k, raw)" "m = node_metadata raw"
    using m(1) by (auto simp: fs_symlink_metadata_def map_sum_def split: sum.splits)
  have "\<not> is_link (Some raw)" using m(2) raw(2) by (cases raw) (simp_all add: node_metadata_def)
  from resolve_no_link [OF raw(1) this] l(4) raw(2) have "m = node_metadata nd" by simp
  with metadata_at_loc [OF wf l(2,3)] l(1) src m(3) show ?thesis by blast
qed

lemma file_id_ok:
  "fs_metadata w path = Inr m \<Longrightarrow> \<exists>file_id. file_id_for_path w path = Some file_id \<and> file_id \<noteq> []"
  by (simp add: file_id_for_path_def)

text \<open>How a proposal is marked: ready, unless something is at its destination already.\<close>

definition marked :: "world \<Rightarrow> path_guard \<Rightarrow> Proposal \<Rightarrow> bool" where
  "marked w g p \<longleftrightarrow> p_status p =
     (if p_action p \<noteq> ProposalAction.Trash \<and> path_exists w (join_path (guard_root g) (p_to p))
      then ProposalStatus.DestinationExists else ProposalStatus.Ready)"

text \<open>What the builders have in common: their proposals can be relayed and are about the tree as it is.\<close>

definition requested_of :: "world \<Rightarrow> path_guard \<Rightarrow> Proposal \<Rightarrow> bool" where
  "requested_of w g p \<longleftrightarrow> relayable p \<and> marked w g p \<and> p_reason p \<in> USER_REQUESTED_REASONS
     \<and> (case p_action p of
          ProposalAction.Move \<Rightarrow> describes w g p \<and> plain (p_to p) \<and> p_from p \<noteq> p_to p
        | ProposalAction.Trash \<Rightarrow> describes w g p
        | _ \<Rightarrow> plain (p_to p) \<and> (\<forall>dir name. p_to p = dir @ ''/'' @ name \<longrightarrow> plain dir \<longrightarrow> valid_name name \<longrightarrow>
                 is_ok (resolve_existing w g dir)))"

lemma described_source:
  assumes "guard_ok w g r" "inspect_regular_source_file w g src what = Inr m" "plain src"
    and "p_from p = src" "p_source_size_bytes p = m_len m" "p_source_modified_unix_ms p = modified_unix_ms m"
    "p_source_file_id p = source_file_id_for_path w g src"
  shows "describes w g p" "p_source_file_id p \<noteq> Some []"
proof -
  obtain source where source: "resolve_existing w g src = Inr source" "fs_metadata w source = Inr m" "m_is_file m"
    using inspected_source [OF assms(1,2)] by blast
  obtain file_id where file_id: "file_id_for_path w source = Some file_id" "file_id \<noteq> []"
    using file_id_ok [OF source(2)] by blast
  then show "describes w g p" "p_source_file_id p \<noteq> Some []"
    using assms(3-) source by (auto simp: describes_def source_file_id_for_path_def)
qed

lemma single_move_requested:
  assumes g: "guard_ok w g r" and ok: "build_single_move_proposal w g src dst reason = Inr p"
    and "plain src" "plain dst" "src \<noteq> dst" "reason \<in> USER_REQUESTED_REASONS"
  shows "requested_of w g p"
proof -
  obtain m where m: "inspect_regular_source_file w g src ''MOVE'' = Inr m"
    and p: "p = \<lparr>p_proposal_id = proposal_id ProposalAction.Move src dst, p_action = ProposalAction.Move, p_from = src, p_to = dst,
            p_content = None, p_source_size_bytes = m_len m, p_source_modified_unix_ms = modified_unix_ms m,
            p_source_file_id = source_file_id_for_path w g src, p_reason = reason,
            p_status = (if path_exists w (join_path (guard_root g) dst) then ProposalStatus.DestinationExists
                        else ProposalStatus.Ready)\<rparr>"
    using ok by (auto simp: build_single_move_proposal_def bind_res_Inr_iff)
  from described_source [OF g m assms(3), of p] assms(4-) show ?thesis
    by (simp add: p requested_of_def relayable_def marked_def)
qed

lemma trash_requested:
  assumes g: "guard_ok w g r" and ok: "trash_proposal w g path = Inr p"
  shows "requested_of w g p"
proof -
  obtain src m where src: "plain src" and m: "inspect_regular_source_file w g src ''TRASH'' = Inr m"
    and p: "p = \<lparr>p_proposal_id = proposal_id ProposalAction.Trash src ''.mousekeeper_trash'', p_action = ProposalAction.Trash,
            p_from = src, p_to = ''.mousekeeper_trash'', p_content = None, p_source_size_bytes = m_len m,
            p_source_modified_unix_ms = modified_unix_ms m,
            p_source_file_id = source_file_id_for_path w g src, p_reason = ''USER_REQUESTED_TRASH'',
            p_status = ProposalStatus.Ready\<rparr>"
    using ok by (auto simp: trash_proposal_def bind_res_Inr_iff dest!: file_source_plain)
  from described_source [OF g m src, of p] show ?thesis
    by (simp add: p requested_of_def relayable_def marked_def TRASH_DIR_def USER_REQUESTED_REASONS_def)
qed

lemma move_requested:
  assumes g: "guard_ok w g r" and dir: "dir = [] \<or> plain dir" and ok: "move_proposal w g dir path = Inr p"
  shows "requested_of w g p"
proof -
  obtain src where src: "normalize_remote_file_source path = Inr src" using ok by (auto simp: move_proposal_def bind_res_Inr_iff)
  note plain = file_source_plain [OF src]
  define name where "name = (case rsplit_once_slash src of Some (_, last_part) \<Rightarrow> last_part | None \<Rightarrow> src)"
  define dst where "dst = (if dir = [] then name else dir @ ''/'' @ name)"
  have build: "src \<noteq> dst" "build_single_move_proposal w g src dst ''USER_REQUESTED_MOVE'' = Inr p"
    using ok src by (auto simp: move_proposal_def Let_def name_def dst_def split: if_splits)
  have "valid_name name" using rsplit_plain [OF plain] by (auto simp: name_def split: option.splits)
  then have "plain dst" using dir plain_name plain_below by (auto simp: dst_def)
  with single_move_requested [OF g build(2) plain _ build(1)] show ?thesis by (simp add: USER_REQUESTED_REASONS_def)
qed

lemma create_requested:
  assumes g: "guard_new w root = Inr g" and ok: "build_create_proposal_report w root payload = Inr report"
  shows "pr_root report = guard_root g \<and> (\<exists>p. pr_proposals report = [p] \<and> requested_of w g p)"
proof -
  define path where "path = p_to (hd (pr_proposals report))"
  obtain p where report: "pr_root report = guard_root g" "pr_proposals report = [p]" "p_to p = path"
    and p: "relayable p" "marked w g p" "p_reason p \<in> USER_REQUESTED_REASONS" "p_action p \<in> {ProposalAction.CreateDir, ProposalAction.CreateFile}"
    and "plain path" and dir: "ensure_existing_directory_is_safe w g (parent_relative_directory path) = Inr ()"
    using ok g unfolding path_def
    by (auto simp: build_create_proposal_report_def Let_def bind_res_Inr_iff relayable_def marked_def
        USER_REQUESTED_REASONS_def split: if_splits dest!: directory_target_plain file_source_plain)
  have "is_ok (resolve_existing w g dir)"
    if "path = dir @ ''/'' @ name" "plain dir" "valid_name name" for dir name
  proof -
    obtain rel where rel: "dir = join_with ''/'' rel" "valid_loc rel" "rel \<noteq> []" using \<open>plain dir\<close> by (auto simp: plain_def)
    have "path = join_with ''/'' (rel @ [name])" using that(1) rel by (simp add: join_with_append)
    then have "segments path = rel @ [name]"
      using segments_join [of "rel @ [name]"] rel(2) \<open>valid_name name\<close> by (simp add: valid_loc_def)
    then have "parent_relative_directory path = dir"
      using rel(1,3) by (cases rel) (simp_all add: parent_relative_directory_def rsplit_once_slash_def)
    moreover have "dir \<noteq> []" using rel(1-3) by (cases rel; cases "tl rel") (auto simp: valid_loc_def valid_name_def)
    ultimately show ?thesis
      using dir by (auto simp: ensure_existing_directory_is_safe_def bind_res_Inr_iff)
  qed
  then have "requested_of w g p"
    using p \<open>plain path\<close> report(3) by (cases "p_action p") (auto simp: requested_of_def)
  with report show ?thesis by blast
qed

definition direct_report :: "world \<Rightarrow> string \<Rightarrow> ProposalReport \<Rightarrow> bool" where
  "direct_report w root report \<longleftrightarrow>
     (\<exists>payload. build_rename_proposal_report w root payload = Inr report)
     \<or> (\<exists>payload. build_move_proposal_report w root payload = Inr report)
     \<or> (\<exists>payload. build_trash_proposal_report w root payload = Inr report)
     \<or> (\<exists>payload. build_create_proposal_report w root payload = Inr report)"

lemma collect_results_all:
  assumes "collect_results (map f xs) = Inr ys" "y \<in> set ys"
  shows "\<exists>x \<in> set xs. f x = Inr y"
proof -
  obtain i where i: "i < length ys" "y = ys ! i" using assms(2) by (auto simp: in_set_conv_nth)
  then show ?thesis using collect_results_nth [OF assms(1)] collect_results_length [OF assms(1)] by (metis nth_mem)
qed

lemma direct_report_requested:
  assumes wf: "wf_fs (w_fs w)" and report: "direct_report w root report"
  obtains g r where "guard_new w root = Inr g" "guard_ok w g r" "pr_root report = guard_root g"
    "pr_proposals report \<noteq> []" "\<forall>p \<in> set (pr_proposals report). requested_of w g p"
proof -
  obtain g where g: "guard_new w root = Inr g"
    using report by (auto simp: direct_report_def build_rename_proposal_report_def build_move_proposal_report_def
        build_trash_proposal_report_def build_create_proposal_report_def Let_def bind_res_Inr_iff split: if_splits)
  obtain r where ok: "guard_ok w g r" using guard_new_ok [OF g wf] by blast
  consider (rename) payload where "build_rename_proposal_report w root payload = Inr report"
    | (move) payload where "build_move_proposal_report w root payload = Inr report"
    | (trash) payload where "build_trash_proposal_report w root payload = Inr report"
    | (create) payload where "build_create_proposal_report w root payload = Inr report"
    using report by (auto simp: direct_report_def)
  then have "pr_root report = guard_root g \<and> pr_proposals report \<noteq> [] \<and> (\<forall>p \<in> set (pr_proposals report). requested_of w g p)"
  proof cases
    case rename
    then obtain src name p where "normalize_remote_file_source (rn_source_relative_path payload) = Inr src"
      "validate_remote_file_name (rn_new_name payload) = Inr name" "src \<noteq> remote_sibling_path src name"
      "build_single_move_proposal w g src (remote_sibling_path src name) ''USER_REQUESTED_RENAME'' = Inr p"
      "report = \<lparr>pr_root = guard_root g, pr_proposals = [p]\<rparr>"
      using g by (auto simp: build_rename_proposal_report_def Let_def bind_res_Inr_iff split: if_splits)
    then show ?thesis
      using single_move_requested [OF ok] file_source_plain remote_sibling_plain file_name_ok
      by (simp add: USER_REQUESTED_REASONS_def)
  next
    case move
    then obtain dir ps where dir: "dir = [] \<or> plain dir" and ps: "collect_results (map (move_proposal w g dir)
        (mv_source_relative_paths payload)) = Inr ps" "mv_source_relative_paths payload \<noteq> []"
      and "report = \<lparr>pr_root = guard_root g, pr_proposals = ps\<rparr>"
      using g by (auto simp: build_move_proposal_report_def bind_res_Inr_iff dest!: directory_plain split: if_splits)
    then show ?thesis
      using collect_results_all [OF ps(1)] collect_results_length [OF ps(1)] move_requested [OF ok dir] by force
  next
    case trash
    then obtain ps where ps: "collect_results (map (trash_proposal w g) (tc_source_relative_paths payload)) = Inr ps"
      "tc_source_relative_paths payload \<noteq> []" and "report = \<lparr>pr_root = guard_root g, pr_proposals = ps\<rparr>"
      using g by (auto simp: build_trash_proposal_report_def bind_res_Inr_iff split: if_splits)
    then show ?thesis
      using collect_results_all [OF ps(1)] collect_results_length [OF ps(1)] trash_requested [OF ok] by force
  next
    case create
    then show ?thesis using create_requested [OF g] by force
  qed
  then show thesis using that [OF g ok] by blast
qed

section \<open>The check before execution\<close>

lemma creation_resolves:
  assumes g: "guard_ok w g r" and path: "plain path"
    and dirs: "\<And>dir name. path = dir @ ''/'' @ name \<Longrightarrow> plain dir \<Longrightarrow> valid_name name \<Longrightarrow> is_ok (resolve_existing w g dir)"
  shows "is_ok (resolve_for_create w g path)"
proof -
  have wf: "wf_fs (w_fs w)" and root: "guard_root g = path_of_loc r" and dir: "is_directory (map_of (w_fs w) r)"
    using g by (auto simp: guard_ok_def)
  have vr: "valid_loc r" using guard_ok_valid [OF g] .
  obtain rel where rel: "valid_loc rel" "rel \<noteq> []" "path = join_with ''/'' rel" using path by (auto simp: plain_def)
  then obtain ds c where ds: "rel = ds @ [c]" by (metis append_butlast_last_id)
  with rel have c: "valid_name c" "valid_loc ds" and v: "valid_loc ((r @ ds) @ [c])" using vr by (simp_all add: valid_loc_def)
  have cand: "join_path (guard_root g) path = path_of_loc ((r @ ds) @ [c])"
    using join_path_rel [OF vr rel(1,2)] root rel(3) ds by simp
  have "\<exists>p. canonicalize_existing w (path_of_loc (r @ ds)) = Inr p \<and> path_starts_with p (guard_root g)"
  proof (cases "ds = []")
    case True
    obtain nd where "map_of (w_fs w) r = Some nd" "\<not> is_link (Some nd)"
      using dir dir_not_link by (cases "map_of (w_fs w) r") auto
    then have "canonicalize_existing w (path_of_loc r) = Inr (path_of_loc r)"
      using resolve_path_of_loc [OF wf, of r nd True] by (simp add: canonicalize_existing_Inr_iff)
    with True root show ?thesis by simp
  next
    case False
    then have "path = join_with ''/'' ds @ ''/'' @ c" "plain (join_with ''/'' ds)"
      using rel(3) ds c by (auto simp: join_with_append plain_def)
    then have "is_ok (resolve_existing w g (join_with ''/'' ds))" using dirs c(1) by blast
    then show ?thesis
      using join_path_rel [OF vr c(2) False] root
      by (auto simp: is_ok_iff resolve_existing_def bind_res_Inr_iff Let_def split: if_splits)
  qed
  moreover have "file_name (path_of_loc ((r @ ds) @ [c])) = Some c"
    using components_path_of_loc [OF v] by (auto simp: file_name_Some_iff)
  moreover have "reject_unsafe_components path = Inr ()" using plain_safe [OF path] by (simp add: reject_unsafe_ok)
  ultimately show ?thesis using parent_loc [OF v] by (auto simp: is_ok_iff resolve_for_create_def cand Let_def)
qed

lemma plain_target: "plain path \<Longrightarrow> \<not> bad_target path"
proof
  assume "plain path" and bad: "bad_target path"
  then have "valid_loc (segments path)" by (simp add: plain_segments)
  with bad show False
    by (auto simp: bad_target_def segments_valid_name valid_loc_def valid_name_def is_sep_def)
qed

definition passes_check :: "world \<Rightarrow> path_guard \<Rightarrow> Proposal \<Rightarrow> bool" where
  "passes_check w g p \<longleftrightarrow>
     pc_status (precheck_proposal w g p) = PrecheckStatus.Ready
     \<or> p_action p \<in> {ProposalAction.CreateDir, ProposalAction.CreateFile}
       \<and> (\<exists>l. resolve_for_create w g (p_to p) = Inr (path_of_loc l) \<and> is_link (map_of (w_fs w) l))"

text \<open>A walk that ends at a directory goes on to an entry of it that is no link.\<close>

lemma walks_extend:
  assumes "walks t True n cur ds d m" "is_directory m" "valid_name c" "map_of t (d @ [c]) = Some nd" "\<not> is_link (Some nd)"
  shows "walks t True n cur (ds @ [c]) (d @ [c]) (Some nd)"
  using assms
proof (induction rule: walks.induct)
  case (here n cur)
  then have "walks t True n (cur @ [c]) [] (cur @ [c]) (Some nd)" using walks.here [of t True n "cur @ [c]"] by simp
  with here show ?case by (auto simp: valid_name_def junk_def intro!: walks.step)
next
  case (link cur c' target a cs n l nd')
  then show ?case by (auto intro: walks.link)
qed (auto intro: walks.intros)

text \<open>What the check finds at the place it resolves, the builder has found at the path it was asked for, unless the
  place holds a link.\<close>

lemma created_place_exists:
  assumes g: "guard_ok w g r" and path: "plain path" and target: "resolve_for_create w g path = Inr target"
    and there: "path_exists w target"
  shows "path_exists w (join_path (guard_root g) path)
    \<or> (\<exists>l. target = path_of_loc l \<and> is_link (map_of (w_fs w) l))"
proof -
  have wf: "wf_fs (w_fs w)" and root: "guard_root g = path_of_loc r" and dir: "is_directory (map_of (w_fs w) r)"
    using g by (auto simp: guard_ok_def)
  have vr: "valid_loc r" using guard_ok_valid [OF g] .
  obtain rel where rel: "valid_loc rel" "rel \<noteq> []" "path = join_with ''/'' rel" using path by (auto simp: plain_def)
  then obtain ds c where ds: "rel = ds @ [c]" by (metis append_butlast_last_id)
  have c: "valid_name c" "valid_loc ds" and v: "valid_loc ((r @ ds) @ [c])" using vr rel ds by (simp_all add: valid_loc_def)
  have cand: "join_path (guard_root g) path = path_of_loc ((r @ ds) @ [c])"
    using join_path_rel [OF vr rel(1,2)] root rel(3) ds by simp
  obtain d nd where up: "resolve w True (path_of_loc (r @ ds)) = Inr (d, nd)" and at: "target = path_of_loc (d @ [c])"
    using target components_path_of_loc [OF v] parent_loc [OF v] join_path_loc c(1) resolve_lookup wf_fs_valid [OF wf]
    by (auto simp: resolve_for_create_def cand bind_res_Inr_iff Let_def canonicalize_existing_Inr_iff file_name_Some_iff
        split: if_splits option.splits)
  have noroot: "\<not> has_root path" using plain_safe [OF path] safe_no_root by blast
  have "walks (w_fs w) True max_links r ds d (Some nd)"
  proof (cases "ds = []")
    case True
    obtain nr where nr: "map_of (w_fs w) r = Some nr" "\<not> is_link (Some nr)"
      using dir dir_not_link by (cases "map_of (w_fs w) r") auto
    then have "resolve w True (path_of_loc r) = Inr (r, nr)" using resolve_path_of_loc [OF wf nr(1), of True] by simp
    with up True nr(1) walks.here [of "w_fs w" True max_links r] show ?thesis by simp
  next
    case False
    have "\<not> has_root (join_with ''/'' ds)" using safe_join [OF c(2) False] safe_no_root by blast
    then have "walk (w_fs w) max_links r ds True = Inr (d, Some nd)"
      using up walk_join_path [OF wf dir, of "join_with ''/'' ds" True] join_path_rel [OF vr c(2) False] segments_join [of ds]
        c(2) False by (auto simp: resolve_walk valid_loc_def)
    then show ?thesis by (rule walk_walks)
  qed
  note found = this resolve_lookup [OF up] resolve_not_link [OF up wf]
  show ?thesis
  proof (cases "is_link (map_of (w_fs w) (d @ [c]))")
    case True
    with at show ?thesis by blast
  next
    case False
    obtain k nd' where "walk_path w True target = Inr (k, Some nd')"
      using there by (auto simp: path_exists_def fs_metadata_def is_ok_def resolve_walk [symmetric] map_sum_def split: sum.splits)
    then have "is_directory (map_of (w_fs w) d)" "map_of (w_fs w) (d @ [c]) = Some nd'"
      using walk_entry [OF wf found(2,3) c(1)] False at by (auto split: if_splits)
    then have "walks (w_fs w) True max_links r (ds @ [c]) (d @ [c]) (Some nd')"
      using walks_extend [OF found(1) _ c(1)] found(2) False by simp
    from walks_no_link [OF this] have "walk (w_fs w) max_links r rel True = Inr (d @ [c], Some nd')"
      using False \<open>map_of (w_fs w) (d @ [c]) = Some nd'\<close> ds by simp
    then have "resolve w True (join_path (guard_root g) path) = Inr (d @ [c], nd')"
      using walk_join_path [OF wf dir noroot, of True] segments_join [of rel] rel root by (auto simp: resolve_walk valid_loc_def)
    then show ?thesis by (simp add: path_exists_def fs_metadata_def is_ok_def)
  qed
qed

lemma requested_passes:
  assumes g: "guard_ok w g r" and p: "requested_of w g p" "p_status p = ProposalStatus.Ready"
  shows "passes_check w g p"
proof (cases "p_action p \<in> {ProposalAction.Move, ProposalAction.Trash}")
  case True
  then have "describes w g p" using p(1) by (auto simp: requested_of_def)
  then show ?thesis using precheck_move_ready [OF True, of w g] p(2) by (auto simp: passes_check_def describes_def)
next
  case False
  then have create: "p_action p \<in> {ProposalAction.CreateDir, ProposalAction.CreateFile}" "p_content p = None"
    "plain (p_to p)" "is_ok (resolve_for_create w g (p_to p))"
    using p(1) creation_resolves [OF g, of "p_to p"] 
    by (cases "p_action p"; auto simp: requested_of_def relayable_def)+
  then obtain target where target: "resolve_for_create w g (p_to p) = Inr target" by (auto simp: is_ok_iff)
  have "\<not> path_exists w (join_path (guard_root g) (p_to p))"
    using p create(1) by (auto simp: requested_of_def marked_def split: if_splits)
  then have "path_exists w target \<Longrightarrow> \<exists>l. target = path_of_loc l \<and> is_link (map_of (w_fs w) l)"
    using created_place_exists [OF g create(3) target] by blast
  then show ?thesis using create target plain_target [of "p_to p"] p(2)
    by (auto simp: passes_check_def precheck_proposal_def precheck_create_dir_def precheck_create_file_def)
qed

section \<open>Every report of the desktop can be relayed\<close>

lemma rule_proposal_relayable:
  assumes "propose rs entry ctx = Some p" "fe_file_id entry \<noteq> Some []"
  shows "relayable p"
  using assms
  by (auto simp: relayable_def propose_def proposal_from_rule_def move_proposal_from_rule_def
      trash_proposal_from_rule_def create_dir_proposal_from_rule_def Let_def
      dest!: find_map_in split: if_splits option.splits bool.splits)

lemma organize_report_relayable:
  assumes wf: "wf_fs (w_fs w)" and run: "resolve_proposal ce root payload w = Some (Inr report, w')"
  shows "guard_new w root = Inr \<lparr>guard_root = pr_root report\<rparr> \<and> list_all relayable (pr_proposals report)"
proof -
  obtain rs where run: "propose_for_root_with_rule_set root rs w = Some (Inr report, w')"
    using run by (auto simp: resolve_proposal_def propose_for_root_def split: option.splits sum.splits if_splits)
  obtain scan where scan: "analyze_root w root = Some (Inr scan)"
    and report: "propose_for_analysis_with_rule_set scan rs w = (Inr report, w')"
    using run by (auto simp: propose_for_root_with_rule_set_def split: option.splits sum.splits)
  obtain g where g: "guard_new w root = Inr g" using scan by (auto simp: analyze_root_def split: sum.splits)
  obtain r where ok: "guard_ok w g r" using guard_new_ok [OF g wf] by blast
  obtain F where files: "ar_files scan = sort_key fe_path (map (file_entry w r) F)" "ar_root scan = guard_root g"
    by (rule analyze_root_scan [OF wf g ok]) (simp add: scan that)
  have "relayable p" if p: "p \<in> set (pr_proposals report)" for p
  proof -
    obtain entry ctx where "entry \<in> set (ar_files scan)" "propose rs entry ctx = Some p"
      using subsetD [OF filter_new_subset p [unfolded propose_for_analysis_ok(3) [OF report]]] by (auto simp: map_filter_def)
    moreover from this(1) have "fe_file_id entry \<noteq> Some []" by (auto simp: files file_entry_def Let_def)
    ultimately show ?thesis by (intro rule_proposal_relayable)
  qed
  then show ?thesis using propose_for_analysis_ok(2) [OF report] g files(2) by (simp add: list_all_iff)
qed

section \<open>What a handler leaves alone\<close>

lemma claim_frame:
  assumes "claim_command_for_analysis env ce command s = (out, s')"
  shows "sn_world s' = sn_world s \<and> sn_outbox s' = sn_outbox s"
  using assms by (auto simp: claim_command_for_analysis_def Let_def split: if_splits prod.splits sum.splits)

lemma claimed_root_frame:
  assumes "claimed_root env ce command requested s = (out, s')"
  shows "sn_world s' = sn_world s \<and> sn_outbox s' = sn_outbox s"
  using assms
  by (auto simp: claimed_root_def Let_def split: prod.splits sum.splits if_splits dest!: claim_frame)

lemma queue_submission_frame:
  "queue_submission ce submission s = (out, s') \<Longrightarrow> sn_world s' = sn_world s"
  by (auto simp: queue_submission_def split: prod.splits sum.splits)

lemma report_status_frame: "sn_world (snd (report_command_status ce i status s)) = sn_world s"
  by (simp add: report_command_status_def split: prod.split)

lemma report_status_world: "report_command_status ce i status s = (out, s') \<Longrightarrow> sn_world s' = sn_world s"
  by (metis report_status_frame snd_conv)

text \<open>How a handler ends: with an error before anything is queued, with a queued submission, or, for a command
  with nothing to do, with a status.\<close>

inductive handled :: "commanding \<Rightarrow> AgentCommand \<Rightarrow> 'n station \<Rightarrow> string + nat \<Rightarrow> 'n station \<Rightarrow> bool"
  for ce command s
where
  refused: "untouched (sn_world s) (sn_world s') \<Longrightarrow> sn_outbox s' = sn_outbox s \<Longrightarrow> handled ce command s (Inl e) s'"
| idle: "untouched (sn_world s) (sn_world s1) \<Longrightarrow> sn_outbox s1 = sn_outbox s \<Longrightarrow>
    handled ce command s (Inr 0) (snd (report_command_status ce (ac_command_id command) ''SUCCEEDED'' s1))"
| submitted: "untouched (sn_world s) (sn_world s1) \<Longrightarrow> sn_outbox s1 = sn_outbox s \<Longrightarrow>
    as_command_id submission = ac_command_id command \<Longrightarrow> as_items submission \<noteq> [] \<Longrightarrow>
    queue_submission ce submission s1 = (out, s') \<Longrightarrow> handled ce command s out s'"

inductive_cases handledE: "handled ce command s out s'"

lemma untouched_refl [simp]: "untouched w w"
  by (simp add: untouched_def)

lemma submission_nonempty:
  assumes "submission_for ce command report limit = Inr submission" "pr_proposals report \<noteq> []"
  shows "as_items submission \<noteq> []" "as_command_id submission = ac_command_id command"
proof -
  note items = submission_items [OF assms(1) [unfolded submission_for_def]]
  have "length (as_items submission) \<noteq> 0" using assms(2) items(3) by (simp add: items(1))
  then show "as_items submission \<noteq> []" by simp
  show "as_command_id submission = ac_command_id command" by (rule items(2))
qed

lemma propose_in_root_handled:
  assumes run: "propose_in_root env ce command root_id build limit s = (out, s')"
    and build: "\<And>root report. build (sn_world s) root = Inr report \<Longrightarrow> pr_proposals report \<noteq> []"
  shows "handled ce command s out s'"
proof (cases "claimed_root env ce command (Some root_id) s")
  case (Pair got s1)
  note frame = claimed_root_frame [OF Pair]
  show ?thesis
  proof (cases got)
    case (Inl e)
    then show ?thesis using run Pair frame by (auto simp: propose_in_root_def intro: handled.refused)
  next
    case (Inr root)
    show ?thesis
    proof (cases "bind_res (build (sn_world s1) (mr_root root)) (\<lambda>report. submission_for ce command report limit)")
      case (Inl e)
      then show ?thesis using run Pair Inr frame by (auto simp: propose_in_root_def intro: handled.refused)
    next
      case made: (Inr submission)
      then obtain report where "build (sn_world s) (mr_root root) = Inr report" "submission_for ce command report limit = Inr submission"
        using frame by (auto simp: bind_res_Inr_iff)
      with build submission_nonempty have "as_items submission \<noteq> []" "as_command_id submission = ac_command_id command" by blast+
      moreover have "queue_submission ce submission s1 = (out, s')" using run Pair Inr made by (simp add: propose_in_root_def)
      ultimately show ?thesis using frame
        by (intro handled.submitted [where submission = submission and ?s1.0 = s1]) simp_all
    qed
  qed
qed

lemma direct_commands_handled:
  assumes wf: "wf_fs (w_fs (sn_world s))"
  shows "handled ce command s (fst (process_rename_command env ce command s)) (snd (process_rename_command env ce command s))"
    "handled ce command s (fst (process_move_command env ce command s)) (snd (process_move_command env ce command s))"
    "handled ce command s (fst (process_trash_command env ce command s)) (snd (process_trash_command env ce command s))"
    "handled ce command s (fst (process_create_command env ce command s)) (snd (process_create_command env ce command s))"
proof -
  have nonempty: "pr_proposals report \<noteq> []" if "direct_report (sn_world s) root report" for root report
    using direct_report_requested [OF wf that] by blast
  note rules = process_rename_command_def process_move_command_def process_trash_command_def process_create_command_def
  show "handled ce command s (fst (process_rename_command env ce command s)) (snd (process_rename_command env ce command s))"
    "handled ce command s (fst (process_move_command env ce command s)) (snd (process_move_command env ce command s))"
    "handled ce command s (fst (process_trash_command env ce command s)) (snd (process_trash_command env ce command s))"
    "handled ce command s (fst (process_create_command env ce command s)) (snd (process_create_command env ce command s))"
    unfolding rules
    by (auto split: sum.split intro!: handled.refused propose_in_root_handled [OF surjective_pairing] nonempty
        simp: direct_report_def)
qed

lemma propose_with_rules_untouched:
  "propose_for_root_with_rule_set root rs w = Some (out, w') \<Longrightarrow> untouched w w'"
  by (auto simp: propose_for_root_with_rule_set_def propose_for_analysis_with_rule_set_def
      bindA_def readA_def returnA_def unix_ms_def untouched_def split: sum.splits option.splits)

lemma resolve_proposal_untouched:
  assumes "resolve_proposal ce root payload w = Some (out, w')"
  shows "untouched w w'"
  using assms propose_for_root_untouched propose_with_rules_untouched
  by (auto simp: resolve_proposal_def split: option.splits sum.splits if_splits)

lemma organize_handled:
  assumes run: "process_organize_command env ce command s = Some (out, s')"
  shows "handled ce command s out s'"
proof (cases "bind_res (parse_organize_payload (ce_organize ce) command) (\<lambda>payload.
    bind_res (validate_relative_scope (scope payload)) (\<lambda>_. Inr payload))")
  case (Inl e)
  then show ?thesis using run by (auto simp: process_organize_command_def intro: handled.refused)
next
  case valid: (Inr payload)
  obtain got s1 where claim: "claimed_root env ce command (og_root_id payload) s = (got, s1)"
    by (cases "claimed_root env ce command (og_root_id payload) s")
  note frame1 = claimed_root_frame [OF claim]
  show ?thesis
  proof (cases got)
    case (Inl e)
    then show ?thesis using run valid claim frame1 by (auto simp: process_organize_command_def intro: handled.refused)
  next
    case (Inr root)
    then obtain resolved w where res: "resolve_proposal ce (mr_root root) payload (sn_world s1) = Some (resolved, w)"
      using run valid claim by (auto simp: process_organize_command_def split: option.splits)
    let ?s = "s1\<lparr>sn_world := w\<rparr>"
    have frame: "untouched (sn_world s) (sn_world ?s)" "sn_outbox ?s = sn_outbox s"
      using frame1 resolve_proposal_untouched [OF res] by simp_all
    have rest: "(case bind_res resolved (\<lambda>report. submission_for ce command report (max_proposals payload)) of
          Inl e \<Rightarrow> (Inl e, ?s)
        | Inr submission \<Rightarrow>
            if as_items submission = []
            then (Inr 0, snd (report_command_status ce (ac_command_id command) ''SUCCEEDED'' ?s))
            else queue_submission ce submission ?s) = (out, s')"
      using run valid claim Inr res by (auto simp: process_organize_command_def Let_def split: sum.splits if_splits)
    show ?thesis
    proof (cases "bind_res resolved (\<lambda>report. submission_for ce command report (max_proposals payload))")
      case (Inl e)
      then show ?thesis using rest handled.refused [OF frame] by auto
    next
      case (Inr submission)
      then obtain report where "submission_for ce command report (max_proposals payload) = Inr submission"
        by (auto simp: bind_res_Inr_iff)
      then have "as_command_id submission = ac_command_id command"
        unfolding submission_for_def by (rule submission_items(2))
      then show ?thesis
        using rest Inr handled.idle [OF frame] handled.submitted [OF frame, of submission]
        by (auto split: if_splits)
    qed
  qed
qed

lemma propose_with_rules_returns: "wf_fs (w_fs w) \<Longrightarrow> propose_for_root_with_rule_set root rs w \<noteq> None"
  using analyze_root_returns [of w root]
  by (simp add: propose_for_root_with_rule_set_def split: option.split sum.split del: not_None_eq)

lemma resolve_proposal_returns: "wf_fs (w_fs w) \<Longrightarrow> resolve_proposal ce root payload w \<noteq> None"
  by (simp add: resolve_proposal_def propose_for_root_returns propose_with_rules_returns split: option.split sum.split
      del: not_None_eq)

lemma organize_returns:
  assumes "wf_fs (w_fs (sn_world s))"
  shows "process_organize_command env ce command s \<noteq> None"
proof -
  have "resolve_proposal ce root payload (sn_world s1) \<noteq> None"
    if "claimed_root env ce command requested s = (out, s1)" for root payload requested out s1
    using claimed_root_frame [OF that] resolve_proposal_returns assms by metis
  then show ?thesis
    by (auto simp: process_organize_command_def Let_def split: sum.split prod.split option.split simp del: not_None_eq)
qed

lemma run_command_handled:
  assumes "wf_fs (w_fs (sn_world s))"
  obtains out s' where "run_command env ce command s = Some (out, s')" "handled ce command s out s'"
proof -
  obtain out s' where "process_organize_command env ce command s = Some (out, s')"
    using organize_returns [OF assms, of env ce command] by auto
  moreover from this have "handled ce command s out s'" by (rule organize_handled)
  ultimately have "case run_command env ce command s of None \<Rightarrow> False | Some r \<Rightarrow> handled ce command s (fst r) (snd r)"
    using direct_commands_handled [OF assms, of ce command env] by (simp add: run_command_def)
  then show thesis using that by (auto split: option.splits)
qed

section \<open>A round of commands\<close>

definition with_status :: "CommandProcessingStatus \<Rightarrow> CommandProcessingResult list \<Rightarrow> nat" where
  "with_status status results = length (filter (\<lambda>r. pm_status r = status) results)"

text \<open>The counters of a report are those of its results.\<close>

definition tallies :: "CommandProcessingReport \<Rightarrow> bool" where
  "tallies report \<longleftrightarrow>
     pq_skipped_count report = with_status Skipped (pq_results report)
     \<and> pq_failed_count report = with_status Failed (pq_results report)
     \<and> pq_submitted_proposal_count report = with_status SubmittedProposal (pq_results report)
     \<and> pq_processed_count report + pq_skipped_count report = length (pq_results report)"

definition answers :: "AgentCommand \<Rightarrow> CommandProcessingReport \<Rightarrow> CommandProcessingReport \<Rightarrow> bool" where
  "answers command report report' \<longleftrightarrow>
     pq_inspected_count report' = pq_inspected_count report
     \<and> (\<exists>result. pq_results report' = pq_results report @ [result] \<and> pm_command_id result = ac_command_id command)
     \<and> (tallies report \<longrightarrow> tallies report')"

lemmas answer_defs = answers_def tallies_def with_status_def report_command_def skip_command_def

lemma skip_answers: "answers command report (skip_command command report)"
  by (auto simp: answer_defs)

lemma refuse_answers:
  assumes "refuse_contract_command env ce command (report, s) = (report', s')"
  shows "answers command report report' \<and> sn_world s' = sn_world s"
  using assms
  by (auto simp: refuse_contract_command_def Let_def answer_defs split: prod.splits sum.splits
      dest!: claim_frame report_status_world)

lemma conclude_answers:
  assumes "conclude_command ce command out (report\<lparr>pq_processed_count := pq_processed_count report + 1\<rparr>, s) = (report', s')"
  shows "answers command report report' \<and> sn_world s' = sn_world s"
  using assms report_status_frame [of ce "ac_command_id command" "''FAILED''" s]
  by (auto simp: conclude_command_def answer_defs split: sum.splits if_splits)

lemma handled_world: "handled ce command s out s' \<Longrightarrow> untouched (sn_world s) (sn_world s')"
  by (auto elim!: handledE dest!: queue_submission_frame simp: report_status_frame)

lemma process_command_answers:
  assumes wf: "wf_fs (w_fs (sn_world s))"
  obtains report' s' where "process_command env ce command (report, s) = Some (report', s')"
    "answers command report report'" "untouched (sn_world s) (sn_world s')"
proof (cases "is_processable_command_status (ac_status command) \<and> \<not> is_contract_command_without_desktop_handler command
    \<and> is_supported_command command")
  case True
  obtain out s1 where run: "run_command env ce command s = Some (out, s1)" "handled ce command s out s1"
    by (rule run_command_handled [OF wf])
  obtain report' s' where conclude: "conclude_command ce command out (report\<lparr>pq_processed_count := pq_processed_count report + 1\<rparr>, s1)
      = (report', s')" by (cases "conclude_command ce command out (report\<lparr>pq_processed_count := pq_processed_count report + 1\<rparr>, s1)")
  with True run show thesis using conclude_answers [OF conclude] handled_world [OF run(2)]
    by (intro that [of report' s']) (auto simp: process_command_def)
next
  case False
  obtain report' s' where refuse: "refuse_contract_command env ce command (report, s) = (report', s')"
    by (cases "refuse_contract_command env ce command (report, s)")
  show thesis
  proof (cases "is_processable_command_status (ac_status command) \<and> is_contract_command_without_desktop_handler command")
    case True
    then show thesis using refuse refuse_answers [OF refuse] by (intro that [of report' s']) (auto simp: process_command_def)
  next
    case skip: False
    show thesis using False skip skip_answers
      by (intro that [of "skip_command command report" s]) (auto simp: process_command_def)
  qed
qed

lemma process_each_answers:
  assumes "wf_fs (w_fs (sn_world s))"
  shows "\<exists>report' s'. process_each_command env ce commands (report, s) = Some (report', s')
    \<and> untouched (sn_world s) (sn_world s') \<and> pq_inspected_count report' = pq_inspected_count report
    \<and> (\<exists>results. pq_results report' = pq_results report @ results \<and> map pm_command_id results = map ac_command_id commands)
    \<and> (tallies report \<longrightarrow> tallies report')"
  using assms
proof (induction commands arbitrary: report s)
  case (Cons command commands)
  obtain report1 s1 where step: "process_command env ce command (report, s) = Some (report1, s1)"
    "answers command report report1" "untouched (sn_world s) (sn_world s1)" by (rule process_command_answers [OF Cons.prems])
  then have "wf_fs (w_fs (sn_world s1))" using Cons.prems by (simp add: untouched_def)
  from Cons.IH [OF this, of report1] step show ?case
    by (fastforce simp: answers_def intro: untouched_trans)
qed simp

section \<open>What a command leaves in the outbox\<close>

text \<open>Both texts of the outbox read back.\<close>

definition commanding_codec :: "commanding \<Rightarrow> bool" where
  "commanding_codec ce \<longleftrightarrow>
     (\<forall>p. carries (enc_submission (ce_wire ce)) (dec_submission (ce_wire ce)) p)
     \<and> (\<forall>p. carries (enc_command (ce_wire ce)) (dec_command (ce_wire ce)) p)"

definition status_queued :: "commanding \<Rightarrow> AgentCommand \<Rightarrow> string \<Rightarrow> 'n station \<Rightarrow> bool" where
  "status_queued ce command status s \<longleftrightarrow>
     queued_as (ce_wire ce) (KIND_COMMAND_STATUS, ac_command_id command @ '':'' @ status)
       (update_command_status_request (ac_command_id command) status) (sn_outbox s)"

definition submission_queued :: "commanding \<Rightarrow> AgentCommand \<Rightarrow> nat \<Rightarrow> 'n station \<Rightarrow> bool" where
  "submission_queued ce command item_count s \<longleftrightarrow>
     (\<exists>submission. as_command_id submission = ac_command_id command \<and> length (as_items submission) = item_count
        \<and> queued_as (ce_wire ce) (KIND_PROPOSAL, ac_command_id command)
            (submit_proposal_request (ac_command_id command) submission) (sn_outbox s))"

definition no_row_yet :: "AgentCommand \<Rightarrow> outbox_table \<Rightarrow> bool" where
  "no_row_yet command t \<longleftrightarrow>
     (KIND_PROPOSAL, ac_command_id command) \<notin> row_name ` set (ob_rows t)
     \<and> (\<forall>status. (KIND_COMMAND_STATUS, ac_command_id command @ '':'' @ status) \<notin> row_name ` set (ob_rows t))"

lemma report_status_queued:
  assumes "commanding_codec ce" "sn_outbox s = opened_store t" "no_row_yet command t"
  shows "status_queued ce command status (snd (report_command_status ce (ac_command_id command) status s))
    \<and> is_ok (fst (report_command_status ce (ac_command_id command) status s))"
proof -
  obtain written where written: "enc_command (ce_wire ce) \<lparr>cp_command_id = ac_command_id command, cp_status = status\<rparr> = Inr written"
    "dec_command (ce_wire ce) written = Some \<lparr>cp_command_id = ac_command_id command, cp_status = status\<rparr>"
    using assms(1) unfolding commanding_codec_def by (metis carriesE)
  have fresh: "(KIND_COMMAND_STATUS, ac_command_id command @ '':'' @ status) \<notin> row_name ` set (ob_rows t)"
    using assms(3) by (simp add: no_row_yet_def)
  have "queued_as (ce_wire ce) (KIND_COMMAND_STATUS, ac_command_id command @ '':'' @ status)
      (update_command_status_request (ac_command_id command) status)
      (snd (enqueue_command_status (ce_wire ce) (ce_queued_at ce (ac_command_id command)) (ac_command_id command) status
        (opened_store t)))"
    unfolding enqueue_command_status_def
    by (rule enqueue_queued [OF fresh written(1)]) (simp add: request_for_kinds written(2))
  moreover have "is_ok (fst (enqueue_command_status (ce_wire ce) now (ac_command_id command) status (opened_store t)))" for now
    by (simp add: enqueue_command_status_def encoded_def written(1) enqueue_def is_ok_iff)
  ultimately show ?thesis
    using assms(2) by (simp add: status_queued_def report_command_status_def split_beta)
qed

lemma queue_submission_queued:
  assumes "commanding_codec ce" "sn_outbox s = opened_store t" "no_row_yet command t"
    and command: "as_command_id submission = ac_command_id command"
    and run: "queue_submission ce submission s = (out, s')"
  shows "out = Inr (length (as_items submission)) \<and> submission_queued ce command (length (as_items submission)) s'"
proof -
  obtain written where written: "enc_submission (ce_wire ce) submission = Inr written"
    "dec_submission (ce_wire ce) written = Some submission"
    using assms(1) unfolding commanding_codec_def by (metis carriesE)
  have fresh: "(KIND_PROPOSAL, as_command_id submission) \<notin> row_name ` set (ob_rows t)"
    using assms(3) command by (simp add: no_row_yet_def)
  have "queued_as (ce_wire ce) (KIND_PROPOSAL, as_command_id submission)
      (submit_proposal_request (as_command_id submission) submission)
      (snd (enqueue_proposal (ce_wire ce) (ce_queued_at ce (as_command_id submission)) submission (opened_store t)))"
    unfolding enqueue_proposal_def
    by (rule enqueue_queued [OF fresh written(1)]) (simp add: request_for_kinds written(2))
  moreover have "fst (enqueue_proposal (ce_wire ce) (ce_queued_at ce (as_command_id submission)) submission (opened_store t)) = Inr ()"
    by (simp add: enqueue_proposal_def encoded_def written(1) enqueue_def)
  ultimately show ?thesis
    using run assms(2) command
    by (auto simp: submission_queued_def queue_submission_def split: prod.splits sum.splits)
qed

definition leaves_row :: "commanding \<Rightarrow> AgentCommand \<Rightarrow> CommandProcessingStatus \<Rightarrow> nat \<Rightarrow> 'n station \<Rightarrow> bool" where
  "leaves_row ce command status item_count s \<longleftrightarrow>
     (case status of
        Skipped \<Rightarrow> False
      | Failed \<Rightarrow> status_queued ce command ''FAILED'' s
      | NoProposal \<Rightarrow> status_queued ce command ''SUCCEEDED'' s
      | SubmittedProposal \<Rightarrow> 0 < item_count \<and> submission_queued ce command item_count s)"

lemma concluded_row:
  assumes "commanding_codec ce" "sn_outbox s = opened_store t" "no_row_yet command t"
    and handled: "handled ce command s out s1"
    and conclude: "conclude_command ce command out (report, s1) = (report', s')"
  shows "\<exists>status message n. report_command command status message n
      (report\<lparr>pq_submitted_proposal_count := pq_submitted_proposal_count report', pq_failed_count := pq_failed_count report'\<rparr>)
        = report' \<and> leaves_row ce command status n s'"
  using handled
proof (cases rule: handled.cases)
  case (refused e)
  then have "sn_outbox s1 = opened_store t" using assms(2) by simp
  from report_status_queued [OF assms(1) this assms(3)] conclude refused show ?thesis
    by (auto simp: conclude_command_def leaves_row_def report_command_def
        intro!: exI [of _ CommandProcessingStatus.Failed] exI [of _ "Some e"] exI [of _ 0])
next
  case (idle s2)
  then have "sn_outbox s2 = opened_store t" using assms(2) by simp
  from report_status_queued [OF assms(1) this assms(3)] conclude idle show ?thesis
    by (auto simp: conclude_command_def leaves_row_def report_command_def
        intro!: exI [of _ NoProposal] exI [of _ 0])
next
  case (submitted s2 submission)
  then have "sn_outbox s2 = opened_store t" using assms(2) by simp
  from queue_submission_queued [OF assms(1) this assms(3) submitted(3,5)] conclude submitted(4) show ?thesis
    by (auto simp: conclude_command_def leaves_row_def report_command_def
        intro!: exI [of _ SubmittedProposal] exI [of _ "length (as_items submission)"])
qed

text \<open>The last entry of a report.\<close>

definition tells :: "AgentCommand \<Rightarrow> CommandProcessingReport \<Rightarrow> CommandProcessingReport \<Rightarrow> CommandProcessingStatus \<Rightarrow> nat \<Rightarrow> bool" where
  "tells command report report' status item_count \<longleftrightarrow>
     (\<exists>result. pq_results report' = pq_results report @ [result] \<and> pm_command_id result = ac_command_id command
        \<and> pm_status result = status \<and> pm_proposal_item_count result = item_count)"

lemma tells_report:
  "report_command command status message n report1 = report' \<Longrightarrow> pq_results report1 = pq_results report \<Longrightarrow>
     tells command report report' status n"
  by (auto simp: tells_def report_command_def)

lemma refusal_row:
  assumes "commanding_codec ce" "sn_outbox s = opened_store t" "no_row_yet command t"
    and run: "refuse_contract_command env ce command (report, s) = (report', s')"
  shows "tells command report report' Failed 0
    \<and> (if is_ok (fst (claim_command_for_analysis env ce command s)) then status_queued ce command ''FAILED'' s'
       else sn_outbox s' = sn_outbox s)"
proof -
  obtain out s1 where claim: "claim_command_for_analysis env ce command s = (out, s1)"
    by (cases "claim_command_for_analysis env ce command s")
  have "sn_outbox s1 = opened_store t" using claim_frame [OF claim] assms(2) by simp
  from report_status_queued [OF assms(1) this assms(3), of "''FAILED''"]
  obtain s2 where queued: "report_command_status ce (ac_command_id command) ''FAILED'' s1 = (Inr (), s2)"
    "status_queued ce command ''FAILED'' s2"
    by (cases "report_command_status ce (ac_command_id command) ''FAILED'' s1") (auto simp: is_ok_iff)
  show ?thesis
    using run claim queued claim_frame [OF claim]
    by (auto simp: refuse_contract_command_def Let_def is_ok_iff report_command_def tells_def split: sum.splits)
qed

section \<open>A sample command\<close>

definition action_number :: "AgentProposalActionType \<Rightarrow> nat" where
  "action_number t = (case t of AgentProposalActionType.Move \<Rightarrow> 0 | AgentProposalActionType.Quarantine \<Rightarrow> 1
     | AgentProposalActionType.CreateDir \<Rightarrow> 2 | AgentProposalActionType.CreateFile \<Rightarrow> 3
     | AgentProposalActionType.ReadmeWrite \<Rightarrow> 4)"

definition numbered_action :: "nat \<Rightarrow> AgentProposalActionType" where
  "numbered_action n = (if n = 0 then AgentProposalActionType.Move else if n = 1 then AgentProposalActionType.Quarantine
     else if n = 2 then AgentProposalActionType.CreateDir else if n = 3 then AgentProposalActionType.CreateFile
     else AgentProposalActionType.ReadmeWrite)"

definition item_parts :: "AgentProposalItem \<Rightarrow> nat \<times> nat \<times> string option \<times> string option \<times> string \<times> json \<times> nat" where
  "item_parts i = (ai_item_order i, action_number (ai_action_type i), ai_source_relative_path i,
     ai_destination_relative_path i, ai_reason_code i, ai_precondition i, of_bool (ai_conflict_state i = NameConflict))"

definition item_of_parts :: "nat \<times> nat \<times> string option \<times> string option \<times> string \<times> json \<times> nat \<Rightarrow> AgentProposalItem" where
  "item_of_parts = (\<lambda>(order, action, src, dst, reason, pre, conflict).
     \<lparr>ai_item_order = order, ai_action_type = numbered_action action, ai_source_relative_path = src,
      ai_destination_relative_path = dst, ai_reason_code = reason, ai_precondition = pre,
      ai_conflict_state = (if conflict = 0 then NoConflict else NameConflict)\<rparr>)"

definition put_item :: "AgentProposalItem printer" where
  "put_item = put_pair put_nat (put_pair put_nat (put_pair (put_option put_string) (put_pair (put_option put_string)
     (put_pair put_string (put_pair put_json put_nat))))) \<circ> item_parts"

definition get_item :: "AgentProposalItem parser" where
  "get_item = get_map item_of_parts (get_pair get_nat (get_pair get_nat (get_pair (get_option get_string)
     (get_pair (get_option get_string) (get_pair get_string (get_pair get_json_text get_nat))))))"

lemma codec_item: "codec put_item get_item"
proof -
  have "item_of_parts (item_parts i) = i" for i
    by (cases "ai_action_type i"; cases "ai_conflict_state i")
      (simp_all add: item_parts_def item_of_parts_def action_number_def numbered_action_def)
  then show ?thesis unfolding put_item_def get_item_def
    by (intro codec_map codec_pair codec_option codec_string codec_nat codec_json)
qed

definition submission_parts ::
    "AgentProposalSubmission \<Rightarrow> string \<times> string \<times> nat \<times> string option \<times> string option \<times> string option \<times> AgentProposalItem list" where
  "submission_parts p = (as_command_id p, as_room_id p, ap_item_count (as_summary p), ap_readme_draft (as_summary p),
     ap_readme_diff (as_summary p), as_expires_at p, as_items p)"

definition submission_of_parts ::
    "string \<times> string \<times> nat \<times> string option \<times> string option \<times> string option \<times> AgentProposalItem list \<Rightarrow> AgentProposalSubmission" where
  "submission_of_parts = (\<lambda>(command, room, n, draft, diff, expires, items).
     \<lparr>as_command_id = command, as_room_id = room,
      as_summary = \<lparr>ap_item_count = n, ap_readme_draft = draft, ap_readme_diff = diff\<rparr>,
      as_expires_at = expires, as_items = items\<rparr>)"

definition put_submission :: "AgentProposalSubmission printer" where
  "put_submission = put_pair put_string (put_pair put_string (put_pair put_nat (put_pair (put_option put_string)
     (put_pair (put_option put_string) (put_pair (put_option put_string) (put_list put_item)))))) \<circ> submission_parts"

definition get_submission :: "AgentProposalSubmission parser" where
  "get_submission = get_map submission_of_parts (get_pair get_string (get_pair get_string (get_pair get_nat
     (get_pair (get_option get_string) (get_pair (get_option get_string) (get_pair (get_option get_string)
       (get_list get_item)))))))"

lemma codec_submission: "codec put_submission get_submission"
  unfolding put_submission_def get_submission_def
  by (intro codec_map codec_pair codec_option codec_string codec_nat codec_list codec_item)
    (simp add: submission_parts_def submission_of_parts_def)

definition put_status :: "CommandStatusPayload printer" where
  "put_status = put_pair put_string put_string \<circ> (\<lambda>p. (cp_command_id p, cp_status p))"

definition get_status :: "CommandStatusPayload parser" where
  "get_status = get_map (\<lambda>(i, s). \<lparr>cp_command_id = i, cp_status = s\<rparr>) (get_pair get_string get_string)"

lemma codec_status: "codec put_status get_status"
  unfolding put_status_def get_status_def by (intro codec_map codec_pair codec_string) simp

definition sample_commanding :: commanding where
  "sample_commanding =
     \<lparr>ce_wire = sample_wire\<lparr>enc_submission := (\<lambda>p. Inr (put_submission p)), dec_submission := (\<lambda>t. map_option fst (get_submission t)),
                           enc_command := (\<lambda>p. Inr (put_status p)), dec_command := (\<lambda>t. map_option fst (get_status t))\<rparr>,
      ce_commands = (\<lambda>_. None), ce_rooms = dg_rooms sample_delegation,
      ce_organize = (\<lambda>_. Inl []), ce_rename = (\<lambda>_. Inl []), ce_move = (\<lambda>_. Inl []),
      ce_trash = (\<lambda>_. Inr \<lparr>tc_root_id = ''box'', tc_source_relative_paths = [''notes.pdf'']\<rparr>), ce_create = (\<lambda>_. Inl []),
      ce_parse_rules = (\<lambda>_. Inl []), ce_draft_rules = (\<lambda>_. Inl []), ce_draft_contract = (\<lambda>_. Inl []),
      ce_bound_at = (\<lambda>_. 8), ce_queued_at = (\<lambda>_. 9), ce_checked_at = (\<lambda>_ _. 9)\<rparr>"

definition sample_command :: AgentCommand where
  "sample_command = \<lparr>ac_command_id = ''c1'', ac_command_type = ''TRASH'', ac_room_id = ''r1'', ac_status = ''ANALYZING'',
     ac_payload = JObject []\<rparr>"

lemma sample_commanding_codec: "commanding_codec sample_commanding"
proof -
  have "get_submission (put_submission p @ []) = Some (p, [])" "get_status (put_status c @ []) = Some (c, [])" for p c
    using codec_submission codec_status unfolding codec_def by blast+
  then show ?thesis by (simp add: commanding_codec_def carries_def sample_commanding_def)
qed

lemma sample_station_wf: "wf_fs (w_fs (sn_world sample_station))"
  using sample_wf by (simp add: sample_station_def early_world_def sample_world_def)

lemma sample_trash_report:
  obtains report where "direct_report early_world ''/home/box'' report" "list_all fits64 (pr_proposals report)"
    "pr_proposals report \<noteq> []"
proof -
  let ?payload = "\<lparr>tc_root_id = ''box'', tc_source_relative_paths = [''notes.pdf'']\<rparr>"
  have guard: "guard_new early_world ''/home/box'' = Inr sample_guard" by code_simp
  have source: "normalize_remote_file_source ''notes.pdf'' = Inr ''notes.pdf''" by code_simp
  have "case inspect_regular_source_file early_world sample_guard ''notes.pdf'' ''TRASH'' of
      Inl _ \<Rightarrow> False | Inr m \<Rightarrow> m_len m < 2 ^ 64 \<and> modified_unix_ms m = Some 4" by code_simp
  then obtain m where m: "inspect_regular_source_file early_world sample_guard ''notes.pdf'' ''TRASH'' = Inr m"
    "m_len m < 2 ^ 64" "modified_unix_ms m = Some 4" by (auto split: sum.splits)
  then obtain p where "trash_proposal early_world sample_guard ''notes.pdf'' = Inr p" "fits64 p"
    using source by (simp add: trash_proposal_def fits64_def)
  then show thesis using guard
    by (intro that [of "\<lparr>pr_root = guard_root sample_guard, pr_proposals = [p]\<rparr>"])
      (auto simp: direct_report_def build_trash_proposal_report_def intro!: exI [of _ ?payload])
qed

section \<open>Properties\<close>

text \<open>C15: Processing commands only proposes. A round of commands always ends, whatever the server
  sent and answers, and has changed no file and no database: the tree and the journals of the managed
  folders are untouched. The report has one entry per command, in their order, and its counters are those of
  the entries.\<close>

theorem commands_only_propose:
  assumes "wf_fs (w_fs (sn_world s))"
  shows "\<exists>report s'. process_commands env ce commands s = Some (report, s') \<and> untouched (sn_world s) (sn_world s')
    \<and> map pm_command_id (pq_results report) = map ac_command_id commands
    \<and> pq_inspected_count report = length commands \<and> tallies report"
proof -
  have started_fields: "pq_inspected_count (started_round n) = n" "pq_results (started_round n) = []" for n
    by (simp_all add: started_round_def)
  have "tallies (started_round (length commands))" by (simp add: tallies_def with_status_def started_round_def)
  with process_each_answers [OF assms, of env ce commands "started_round (length commands)"] show ?thesis
    by (auto simp: process_commands_def started_fields)
qed

theorem commands_only_propose_witness:
  "\<exists>report s'. process_commands (sample_env 200 None) sample_commanding [sample_command] sample_station = Some (report, s')
    \<and> untouched (sn_world sample_station) (sn_world s') \<and> map pm_command_id (pq_results report) = [''c1'']"
  using commands_only_propose [OF sample_station_wf, of "sample_env 200 None" sample_commanding "[sample_command]"]
  by (auto simp: sample_command_def)

text \<open>C5: The proposals of a direct command are sound when they are made. Every proposal of a rename,
  move, trash or create command can be carried to the server and back, names plain paths below the root (or the
  trash), and, for a move or trash, describes a regular file with its present size, time and identity. A move or a
  creation is marked \<^verbatim>\<open>ready\<close> exactly when nothing is at its destination, and as conflicting otherwise; a trash
  proposal is always ready. And one marked ready is found ready by the check made before execution in the very same
  state, unless it creates something at a place that a symbolic link holds.\<close>

theorem direct_proposals_sound:
  assumes wf: "wf_fs (w_fs w)" and report: "direct_report w root report"
  shows "\<exists>g. guard_new w root = Inr g \<and> pr_root report = guard_root g \<and> pr_proposals report \<noteq> []
    \<and> (\<forall>p \<in> set (pr_proposals report). relayable p
         \<and> (p_action p = ProposalAction.Trash \<or> plain (p_to p))
         \<and> (p_action p \<in> {ProposalAction.Move, ProposalAction.Trash} \<longrightarrow> describes w g p)
         \<and> p_status p = (if p_action p \<noteq> ProposalAction.Trash \<and> path_exists w (join_path (guard_root g) (p_to p))
              then ProposalStatus.DestinationExists else ProposalStatus.Ready)
         \<and> (p_status p = ProposalStatus.Ready \<longrightarrow>
              pc_status (precheck_proposal w g p) = PrecheckStatus.Ready
              \<or> p_action p \<in> {ProposalAction.CreateDir, ProposalAction.CreateFile}
                \<and> (\<exists>l. resolve_for_create w g (p_to p) = Inr (path_of_loc l) \<and> is_link (map_of (w_fs w) l))))"
proof -
  obtain g r where g: "guard_new w root = Inr g" "guard_ok w g r" "pr_root report = guard_root g" "pr_proposals report \<noteq> []"
    and requested: "\<forall>p \<in> set (pr_proposals report). requested_of w g p"
    by (rule direct_report_requested [OF wf report])
  have "relayable p \<and> (p_action p = ProposalAction.Trash \<or> plain (p_to p))
      \<and> (p_action p \<in> {ProposalAction.Move, ProposalAction.Trash} \<longrightarrow> describes w g p) \<and> marked w g p
      \<and> (p_status p = ProposalStatus.Ready \<longrightarrow> passes_check w g p)" if "requested_of w g p" for p
    using that requested_passes [OF g(2) that] by (cases "p_action p") (auto simp: requested_of_def)
  with g(1,3,4) requested show ?thesis unfolding passes_check_def marked_def by blast
qed

theorem direct_proposals_sound_witness:
  "\<exists>report g p. direct_report early_world ''/home/box'' report \<and> guard_new early_world ''/home/box'' = Inr g
    \<and> pr_proposals report = [p] \<and> p_action p = ProposalAction.Move \<and> p_to p = ''final.pdf''
    \<and> relayable p \<and> describes early_world g p \<and> p_status p = ProposalStatus.Ready
    \<and> pc_status (precheck_proposal early_world g p) = PrecheckStatus.Ready"
proof -
  let ?payload = "\<lparr>rn_root_id = ''box'', rn_source_relative_path = ''notes.pdf'', rn_new_name = ''final.pdf''\<rparr>"
  have guard: "guard_new early_world ''/home/box'' = Inr sample_guard" by code_simp
  have names: "normalize_remote_file_source ''notes.pdf'' = Inr ''notes.pdf''"
    "validate_remote_file_name ''final.pdf'' = Inr ''final.pdf''" "remote_sibling_path ''notes.pdf'' ''final.pdf'' = ''final.pdf''"
    by code_simp+
  have "is_ok (inspect_regular_source_file early_world sample_guard ''notes.pdf'' ''MOVE'')" by code_simp
  then obtain p where p: "build_single_move_proposal early_world sample_guard ''notes.pdf'' ''final.pdf'' ''USER_REQUESTED_RENAME'' = Inr p"
    "p_action p = ProposalAction.Move" "p_to p = ''final.pdf''"
    by (auto simp: build_single_move_proposal_def is_ok_iff)
  let ?report = "\<lparr>pr_root = guard_root sample_guard, pr_proposals = [p]\<rparr>"
  have "build_rename_proposal_report early_world ''/home/box'' ?payload = Inr ?report"
    using names p(1) guard by (simp add: build_rename_proposal_report_def)
  then have report: "direct_report early_world ''/home/box'' ?report" unfolding direct_report_def by blast
  have wf: "wf_fs (w_fs early_world)" using sample_station_wf by (simp add: sample_station_def)
  have "\<not> path_exists early_world (join_path (guard_root sample_guard) ''final.pdf'')" by code_simp
  with direct_proposals_sound [OF wf report] report guard p(2,3) show ?thesis by (intro exI [of _ ?report]) auto
qed

text \<open>C6: What is approved is what was proposed. Take any report of the desktop, of a direct command or of the
  rules, whose sizes and times fit 64 bits. When the items of its submission come back with a decision, at a time when
  the folder is still found at the same place, the local proposals built from them are exactly the
  first proposals of the report, as many as the command allows, with the submitted reason codes.\<close>

theorem approved_as_proposed:
  assumes wf: "wf_fs (w_fs w)"
    and report: "direct_report w root report \<or> (\<exists>payload w'. resolve_proposal ce root payload w = Some (Inr report, w'))"
    and "pr_proposals report \<noteq> []" "list_all fits64 (pr_proposals report)"
    and submission: "build_agent_proposal_submission checked_at command report limit = Inr submission"
    and later: "guard_new later root = guard_new w root"
  shows "build_local_proposal_report later root (map relayed (as_items submission))
    = Inr \<lparr>pr_root = pr_root report,
        pr_proposals = map (\<lambda>p. p\<lparr>p_reason := reason_code p\<rparr>) (take limit (pr_proposals report))\<rparr>"
proof -
  have "guard_new w root = Inr \<lparr>guard_root = pr_root report\<rparr> \<and> list_all relayable (pr_proposals report)"
    using report
  proof
    assume "direct_report w root report"
    then obtain g where "guard_new w root = Inr g" "pr_root report = guard_root g"
      "\<forall>p \<in> set (pr_proposals report). requested_of w g p" by (rule direct_report_requested [OF wf])
    then show ?thesis by (simp add: requested_of_def list_all_iff)
  next
    assume "\<exists>payload w'. resolve_proposal ce root payload w = Some (Inr report, w')"
    then show ?thesis using organize_report_relayable [OF wf] by blast
  qed
  with assms(3,4) later show ?thesis
    by (intro report_back [OF submission]) (auto simp: list_all_iff)
qed

theorem approved_as_proposed_witness:
  "\<exists>report submission. build_agent_proposal_submission (\<lambda>_. 9) sample_command report 1 = Inr submission
    \<and> build_local_proposal_report early_world ''/home/box'' (map relayed (as_items submission))
       = Inr \<lparr>pr_root = pr_root report,
           pr_proposals = map (\<lambda>p. p\<lparr>p_reason := reason_code p\<rparr>) (take 1 (pr_proposals report))\<rparr>"
proof -
  obtain report where report: "direct_report early_world ''/home/box'' report" "list_all fits64 (pr_proposals report)"
    "pr_proposals report \<noteq> []" by (rule sample_trash_report)
  obtain submission where submission: "build_agent_proposal_submission (\<lambda>_. 9) sample_command report 1 = Inr submission"
    by (simp add: build_agent_proposal_submission_def Let_def)
  have "wf_fs (w_fs early_world)" using sample_station_wf by (simp add: sample_station_def)
  from approved_as_proposed [OF this disjI1 [OF report(1)] report(3,2) submission refl] submission
  show ?thesis by blast
qed

text \<open>C9: What a processed command leaves in the outbox. Suppose the outbox works, its texts read back, and it holds
  no row of this command yet. Processing a command of a kind the desktop handles leaves a pending row under the command's own id: its proposal,
  with the reported number of items; or, when the handler failed for whatever reason, the request to set its
  status to \<^verbatim>\<open>FAILED\<close>; or, when there was nothing to do, the request to set it to \<^verbatim>\<open>SUCCEEDED\<close> (a request that
  the agent itself refuses to send, see \<open>succeeded_status_refused\<close> below). A command of a kind of the contract that has
  no handler is reported as failed; it leaves the \<^verbatim>\<open>FAILED\<close> request when it could be claimed, and no row at all when
  it could not. Any other command is skipped and nothing happens.\<close>

theorem processed_command_row:
  assumes wf: "wf_fs (w_fs (sn_world s))" and codec: "commanding_codec ce"
    and outbox: "sn_outbox s = opened_store t" "no_row_yet command t"
  shows "\<exists>report' s' status n. process_command env ce command (report, s) = Some (report', s')
    \<and> tells command report report' status n
    \<and> (if \<not> is_processable_command_status (ac_status command) then status = Skipped \<and> s' = s
       else if is_contract_command_without_desktop_handler command
       then status = Failed
         \<and> (if is_ok (fst (claim_command_for_analysis env ce command s)) then status_queued ce command ''FAILED'' s'
            else sn_outbox s' = sn_outbox s)
       else if is_supported_command command then leaves_row ce command status n s'
       else status = Skipped \<and> s' = s)"
proof -
  have skipped: "tells command report (skip_command command report) Skipped 0"
    by (simp add: skip_command_def report_command_def tells_def)
  obtain refused s1 where refuse: "refuse_contract_command env ce command (report, s) = (refused, s1)"
    by (cases "refuse_contract_command env ce command (report, s)")
  obtain out s2 where run: "run_command env ce command s = Some (out, s2)" "handled ce command s out s2"
    by (rule run_command_handled [OF wf])
  let ?counted = "report\<lparr>pq_processed_count := pq_processed_count report + 1\<rparr>"
  obtain report' s' where conclude: "conclude_command ce command out (?counted, s2) = (report', s')"
    by (cases "conclude_command ce command out (?counted, s2)")
  obtain status message n where made: "leaves_row ce command status n s'" "report_command command status message n
      (?counted\<lparr>pq_submitted_proposal_count := pq_submitted_proposal_count report', pq_failed_count := pq_failed_count report'\<rparr>) = report'"
    using concluded_row [OF codec outbox run(2) conclude] by blast
  have "tells command report report' status n" by (rule tells_report [OF made(2)]) simp
  with made(1) skipped refuse refusal_row [OF codec outbox refuse] run(1) conclude show ?thesis
    by (auto simp: process_command_def)
qed

theorem processed_command_row_witness:
  "\<exists>report' s' status n. process_command (sample_env 200 None) sample_commanding sample_command (started_round 1, sample_station)
      = Some (report', s') \<and> tells sample_command (started_round 1) report' status n
    \<and> leaves_row sample_commanding sample_command status n s'"
proof -
  have "no_row_yet sample_command empty_outbox" by (simp add: no_row_yet_def empty_outbox_def)
  moreover have "sn_outbox sample_station = opened_store empty_outbox" by (simp add: sample_station_def)
  ultimately show ?thesis
    using processed_command_row [OF sample_station_wf sample_commanding_codec, of empty_outbox sample_command
      "sample_env 200 None" "started_round 1"]
    by (simp add: sample_command_def is_processable_command_status_def is_supported_command_def
        is_contract_command_without_desktop_handler_def)
qed

text \<open>The request of the last kind never succeeds. The agent accepts only the statuses \<^verbatim>\<open>DELIVERED\<close>,
  \<^verbatim>\<open>ANALYZING\<close> and \<^verbatim>\<open>FAILED\<close>, so the row of a command with nothing to do is refused before
  anything is sent, and marked failed; the server never learns the outcome.\<close>

lemma succeeded_status_refused:
  assumes "oi_kind item = KIND_COMMAND_STATUS"
    and "dec_command c (oi_payload item) = Some \<lparr>cp_command_id = i, cp_status = ''SUCCEEDED''\<rparr>"
  shows "dispatch env c item a = (Inl (Terminal ''VALIDATION_FAILED''), a)"
proof -
  have "\<exists>e. update_command_status env (res_command c) i ''SUCCEEDED'' a = (Inl e, a) \<and> ae_code e = ValidationFailed"
    by (auto simp: update_command_status_def validated_def validate_opaque_value_def validation_error_def agent_error_def
        split: sum.splits if_splits)
  then obtain e where "update_command_status env (res_command c) i ''SUCCEEDED'' a = (Inl e, a)" "ae_code e = ValidationFailed"
    by blast
  then show ?thesis using assms
    by (simp add: dispatch_def decode_payload_def deliver_def classify_def is_transient_def kind_defs Let_def prefix_def)
qed

end
