(* ===== verification/File_Transfer.thy ===== *)
theory File_Transfer
  imports Execution_Processor
begin

text \<open>
  Downloads to the phone (\<^verbatim>\<open>file_transfer_processor.rs\<close>): a pending transfer's source is validated, its file is
  streamed to the upload target the server gave, and the completion is queued and sent.

  The user's other programs change the tree at any time. The parameter \<open>tf_tree\<close> is the tree a transfer meets at the
  moments of its reads: 0 when its source is validated, 1 and 3 when it is checked before and after hashing, 2 when it is
  hashed, 4 when it is streamed and 5 when it is checked before completion. The server that takes the stream is a
  parameter as well; what was streamed to it is recorded.

  Shown here: only a regular, non-empty file inside an enabled folder that is bound to the transfer's room is ever
  streamed, to the target the server gave for that transfer, provided the tree does not change between the check and the
  stream; a completed transfer announced the hash and size of what it read, and the file was the validated one
  at all three checks, and its completion is in the outbox.
\<close>

section \<open>Types\<close>

record ValidatedTransferSource =
  vs_transfer_id :: string
  vs_room_id :: string
  vs_source_relative_path :: string
  vs_resolved_path :: string
  vs_source_version :: AgentFileTransferSourceVersion

record TransferSourceValidationError =
  ve_failure_code :: AgentFileTransferFailureCode
  ve_message :: string

record PreparedTransferUpload =
  pu_source :: ValidatedTransferSource
  pu_upload_target :: AgentFileTransferUploadTarget

record TransferUploadPreparationError =
  te_transfer_id :: string
  te_failure_code :: "AgentFileTransferFailureCode option"
  te_failure_reported :: bool
  te_message :: string

text \<open>\<^verbatim>\<open>TransferUploadExecutionError\<close> has the same fields, and one is made of the other.\<close>

type_synonym TransferUploadExecutionError = TransferUploadPreparationError

record CompletedTransferUpload =
  cu_transfer_id :: string
  cu_size_bytes :: nat
  cu_sha256 :: string

record TransferUploadPayload =
  up_size_bytes :: nat
  up_sha256 :: string

datatype FileTransferProcessingStatus = Completed | Failed | Skipped

record FileTransferProcessingResult =
  fp_transfer_id :: string
  fp_status :: FileTransferProcessingStatus
  fp_size_bytes :: "nat option"
  fp_sha256 :: "string option"
  fp_failure_code :: "AgentFileTransferFailureCode option"
  fp_failure_reported :: bool
  fp_message :: "string option"

record FileTransferProcessingReport =
  fq_inspected_count :: nat
  fq_uploaded_count :: nat
  fq_failed_count :: nat
  fq_skipped_count :: nat
  fq_results :: "FileTransferProcessingResult list"

text \<open>What was streamed: the transfer, the address and the bytes.\<close>

record upload =
  ul_transfer_id :: string
  ul_url :: string
  ul_bytes :: string

record 'n carrier =
  ca_station :: "'n station"
  ca_uploads :: "upload list"

record transferring =
  tf_wire :: wire
  tf_transfers :: "string \<Rightarrow> AgentFileTransfer list option"
  tf_transfer :: "string \<Rightarrow> AgentFileTransfer option"
  tf_rooms :: "string \<Rightarrow> ServerRoom list option"
  tf_target :: "string \<Rightarrow> AgentFileTransferUploadTarget option"
  tf_sha256 :: "string \<Rightarrow> string"
  tf_put :: "string \<Rightarrow> nat \<Rightarrow> string \<Rightarrow> string + nat"
  tf_status_text :: "nat \<Rightarrow> string"
  tf_tree :: "string \<Rightarrow> nat \<Rightarrow> world"
  tf_bound_at :: "string \<Rightarrow> int"
  tf_queued_at :: "string \<Rightarrow> int"

section \<open>The source of a transfer\<close>

definition outside_root :: "string \<Rightarrow> TransferSourceValidationError" where
  "outside_root message = \<lparr>ve_failure_code = TransferOutsideManagedRoot, ve_message = message\<rparr>"

definition source_not_found :: "string \<Rightarrow> TransferSourceValidationError" where
  "source_not_found message = \<lparr>ve_failure_code = SourceNotFound, ve_message = message\<rparr>"

definition map_guard_error :: "PathGuardError \<Rightarrow> TransferSourceValidationError" where
  "map_guard_error error =
     \<lparr>ve_failure_code = (case error of MissingPath _ \<Rightarrow> SourceNotFound | _ \<Rightarrow> TransferOutsideManagedRoot),
      ve_message = path_guard_error_to_string error\<rparr>"

definition is_ascii_alphabetic :: "char \<Rightarrow> bool" where
  "is_ascii_alphabetic c \<longleftrightarrow>
     (let b = (of_char c :: nat) in (65 \<le> b \<and> b \<le> 90) \<or> (97 \<le> b \<and> b \<le> 122))"

definition looks_like_windows_absolute :: "string \<Rightarrow> bool" where
  "looks_like_windows_absolute path \<longleftrightarrow>
     (case path of
        letter # colon # _ \<Rightarrow> is_ascii_alphabetic letter \<and> colon = CHR '':''
      | _ \<Rightarrow> False)"

definition slash_or_backslash :: "char \<Rightarrow> bool" where
  "slash_or_backslash c \<longleftrightarrow> c = CHR ''/'' \<or> c = CHR 0x5C"

definition validate_relative_path_shape :: "string \<Rightarrow> TransferSourceValidationError + unit" where
  "validate_relative_path_shape path =
     (if path = [] \<or> length path > 1024 \<or> CHR 0x00 \<in> set path \<or> prefix ''/'' path \<or> prefix [CHR 0x5C] path
         \<or> looks_like_windows_absolute path
      then Inl (outside_root ''source path must be managed-root-relative'')
      else if list_ex (\<lambda>segment. segment = [] \<or> segment = ''.'' \<or> segment = ''..'') (split_on slash_or_backslash path)
      then Inl (outside_root ''source path cannot contain empty, current, or parent segments'')
      else Inr ())"

definition slashed_path :: "string \<Rightarrow> string" where
  "slashed_path path = join_with ''/'' (split_on slash_or_backslash path)"

definition source_version :: "string \<Rightarrow> metadata \<Rightarrow> AgentFileTransferSourceVersion" where
  "source_version file_id metadata =
     \<lparr>sv_file_id = file_id, sv_size_bytes = m_len metadata,
      sv_modified_at = unix_ms_to_rfc3339 (modified_unix_ms metadata)\<rparr>"

definition validate_local_transfer_source ::
    "world \<Rightarrow> string \<Rightarrow> string \<Rightarrow> string option \<Rightarrow> string option
       \<Rightarrow> TransferSourceValidationError + ValidatedTransferSource" where
  "validate_local_transfer_source w root source_relative_path transfer_id room_id =
     bind_res (validate_relative_path_shape source_relative_path) (\<lambda>_.
     bind_res (map_err map_guard_error (guard_new w root)) (\<lambda>guard.
     bind_res (map_err map_guard_error (resolve_existing w guard source_relative_path)) (\<lambda>resolved.
     bind_res (map_err (\<lambda>error. source_not_found (''cannot read source metadata: '' @ io_error_to_string error))
         (fs_symlink_metadata w (join_path (guard_root guard) source_relative_path))) (\<lambda>original_metadata.
       if is_link_or_reparse_point original_metadata
       then Inl (outside_root ''source file is a symlink, junction, or reparse point'')
       else bind_res (map_err (\<lambda>error. source_not_found (''cannot read source metadata: '' @ io_error_to_string error))
              (fs_metadata w resolved)) (\<lambda>metadata.
            if \<not> m_is_file metadata \<or> m_len metadata = 0
            then Inl (source_not_found ''source path is not a transferable non-empty file'')
            else case file_id_for_path w resolved of
                   None \<Rightarrow> Inl \<lparr>ve_failure_code = SourceChanged, ve_message = ''source file identity is unavailable''\<rparr>
                 | Some file_id \<Rightarrow>
                     Inr \<lparr>vs_transfer_id = (case transfer_id of None \<Rightarrow> [] | Some i \<Rightarrow> i),
                          vs_room_id = (case room_id of None \<Rightarrow> [] | Some i \<Rightarrow> i),
                          vs_source_relative_path = slashed_path source_relative_path, vs_resolved_path = resolved,
                          vs_source_version = source_version file_id metadata\<rparr>)))))"

definition validate_transfer_source_for_request ::
    "'n agent_env \<Rightarrow> transferring \<Rightarrow> AgentFileTransfer \<Rightarrow> 'n station
       \<Rightarrow> (TransferSourceValidationError + ValidatedTransferSource) \<times> 'n station" where
  "validate_transfer_source_for_request env tf transfer s =
     (case root_id_for_room env (tf_rooms tf) (ft_room_id transfer) (sn_agent s) of
        (Inl error, a) \<Rightarrow> (Inl (outside_root (agent_error_to_string error)), s\<lparr>sn_agent := a\<rparr>)
      | (Inr room, a) \<Rightarrow>
          (case ensure_active_room_binding (tf_bound_at tf (ft_transfer_id transfer)) (rs_root_id room) (ft_room_id transfer)
                  (sn_roots s) of
             (Inl error, roots) \<Rightarrow> (Inl (outside_root error), s\<lparr>sn_agent := a, sn_roots := roots\<rparr>)
           | (Inr managed_root, roots) \<Rightarrow>
               (let s1 = s\<lparr>sn_agent := a, sn_roots := roots\<rparr>
                in if \<not> mr_enabled managed_root
                   then (Inl (outside_root (''managed root is disabled: '' @ mr_root_id managed_root)), s1)
                   else (map_sum id (\<lambda>validated. validated\<lparr>vs_transfer_id := ft_transfer_id transfer,
                                                          vs_room_id := ft_room_id transfer\<rparr>)
                           (validate_local_transfer_source (tf_tree tf (ft_transfer_id transfer) 0) (mr_root managed_root)
                              (ft_source_relative_path transfer) (Some (ft_transfer_id transfer)) (Some (ft_room_id transfer))),
                         s1))))"

section \<open>Preparing the upload\<close>

definition upload_target_failure_code :: "string \<Rightarrow> AgentFileTransferFailureCode option" where
  "upload_target_failure_code message =
     (if contains_str message ''SIZE_LIMIT_EXCEEDED'' then Some SizeLimitExceeded else None)"

definition report_failure ::
    "'n agent_env \<Rightarrow> transferring \<Rightarrow> string \<Rightarrow> AgentFileTransferFailureCode \<Rightarrow> 'n station \<Rightarrow> bool \<times> 'n station" where
  "report_failure env tf transfer_id code s =
     (case fail_file_transfer env (tf_transfer tf) transfer_id code (sn_agent s) of
        (out, a) \<Rightarrow> (is_ok out, s\<lparr>sn_agent := a\<rparr>))"

definition prepare_upload_target_for_transfer ::
    "'n agent_env \<Rightarrow> transferring \<Rightarrow> AgentFileTransfer \<Rightarrow> 'n station
       \<Rightarrow> (TransferUploadPreparationError + PreparedTransferUpload) \<times> 'n station" where
  "prepare_upload_target_for_transfer env tf transfer s =
     (if ft_status transfer \<noteq> ''REQUESTED''
      then (Inl \<lparr>te_transfer_id = ft_transfer_id transfer, te_failure_code = None, te_failure_reported = False,
                 te_message = ''file transfer is not pending: '' @ ft_status transfer\<rparr>, s)
      else case validate_transfer_source_for_request env tf transfer s of
             (Inl error, s1) \<Rightarrow>
               (case report_failure env tf (ft_transfer_id transfer) (ve_failure_code error) s1 of
                  (failure_reported, s2) \<Rightarrow>
                    (Inl \<lparr>te_transfer_id = ft_transfer_id transfer, te_failure_code = Some (ve_failure_code error),
                          te_failure_reported = failure_reported, te_message = ve_message error\<rparr>, s2))
           | (Inr source, s1) \<Rightarrow>
               (case request_file_transfer_upload_target env (tf_target tf) (ft_transfer_id transfer)
                       (vs_source_version source) (sn_agent s1) of
                  (Inr upload_target, a) \<Rightarrow>
                    (Inr \<lparr>pu_source = source, pu_upload_target = upload_target\<rparr>, s1\<lparr>sn_agent := a\<rparr>)
                | (Inl error, a) \<Rightarrow>
                    (let s2 = s1\<lparr>sn_agent := a\<rparr>; failure_code = upload_target_failure_code (ae_message error)
                     in case (case failure_code of
                                Some code \<Rightarrow> report_failure env tf (ft_transfer_id transfer) code s2
                              | None \<Rightarrow> (False, s2)) of
                          (failure_reported, s3) \<Rightarrow>
                            (Inl \<lparr>te_transfer_id = ft_transfer_id transfer, te_failure_code = failure_code,
                                  te_failure_reported = failure_reported, te_message = agent_error_to_string error\<rparr>, s3))))"

section \<open>The upload\<close>

definition changed_error :: "ValidatedTransferSource \<Rightarrow> string \<Rightarrow> TransferUploadExecutionError" where
  "changed_error source message =
     \<lparr>te_transfer_id = vs_transfer_id source, te_failure_code = Some SourceChanged, te_failure_reported = False,
      te_message = message\<rparr>"

definition ensure_source_unchanged :: "world \<Rightarrow> ValidatedTransferSource \<Rightarrow> TransferUploadExecutionError + unit" where
  "ensure_source_unchanged w source =
     bind_res (map_err (\<lambda>error. changed_error source (''cannot re-read source path metadata: '' @ io_error_to_string error))
         (fs_symlink_metadata w (vs_resolved_path source))) (\<lambda>symlink_metadata.
       if is_link_or_reparse_point symlink_metadata
       then Inl (changed_error source ''source path became a symlink, junction, or reparse point'')
       else bind_res (map_err (\<lambda>error. changed_error source (''cannot re-read source metadata: '' @ io_error_to_string error))
              (fs_metadata w (vs_resolved_path source))) (\<lambda>metadata.
            if \<not> m_is_file metadata then Inl (changed_error source ''source is no longer a file'')
            else case file_id_for_path w (vs_resolved_path source) of
                   None \<Rightarrow> Inl (changed_error source ''source file identity is unavailable before upload completion'')
                 | Some file_id \<Rightarrow>
                     if source_version file_id metadata \<noteq> vs_source_version source
                     then Inl (changed_error source ''source file changed before upload completion'') else Inr ()))"

text \<open>The loop over chunks reads the file to its end; a file is shorter than \<^verbatim>\<open>2\<^sup>6\<^sup>4\<close> bytes, so the
  saturating sum is the sum.\<close>

definition hash_source_payload ::
    "(string \<Rightarrow> string) \<Rightarrow> world \<Rightarrow> ValidatedTransferSource \<Rightarrow> TransferUploadExecutionError + TransferUploadPayload" where
  "hash_source_payload sha256 w source =
     bind_res (map_err (\<lambda>error. changed_error source (''cannot open source file for upload: '' @ io_error_to_string error))
         (fs_read w (vs_resolved_path source))) (\<lambda>content.
       if length content \<noteq> sv_size_bytes (vs_source_version source)
       then Inl (changed_error source ''source size changed while preparing upload'')
       else Inr \<lparr>up_size_bytes = length content, up_sha256 = hex_lower (sha256 content)\<rparr>)"

definition put_upload_file ::
    "transferring \<Rightarrow> world \<Rightarrow> string \<Rightarrow> string \<Rightarrow> string \<Rightarrow> nat \<Rightarrow> (string + unit) \<times> upload list" where
  "put_upload_file tf w transfer_id upload_url path size_bytes =
     (case fs_read w path of
        Inl error \<Rightarrow> (Inl (''cannot open source file stream for upload: '' @ io_error_to_string error), [])
      | Inr content \<Rightarrow>
          (let sent = [\<lparr>ul_transfer_id = transfer_id, ul_url = upload_url, ul_bytes = content\<rparr>]
           in case tf_put tf upload_url size_bytes content of
                Inl error \<Rightarrow> (Inl (''cannot stream file upload: '' @ error), sent)
              | Inr status \<Rightarrow>
                  if \<not> is_success status
                  then (Inl (''upload target rejected file stream with HTTP '' @ tf_status_text tf status), sent)
                  else (Inr (), sent)))"

text \<open>The same for an object that was encrypted in memory; its caller is the smart cache.\<close>

definition put_upload_bytes :: "transferring \<Rightarrow> string \<Rightarrow> string \<Rightarrow> string \<Rightarrow> (string + unit) \<times> upload list" where
  "put_upload_bytes tf reservation_id upload_url bytes =
     (let sent = [\<lparr>ul_transfer_id = reservation_id, ul_url = upload_url, ul_bytes = bytes\<rparr>]
      in case tf_put tf upload_url (length bytes) bytes of
           Inl error \<Rightarrow> (Inl (''cannot upload encrypted smart cache object: '' @ error), sent)
         | Inr status \<Rightarrow>
             if \<not> is_success status
             then (Inl (''upload target rejected encrypted smart cache object with HTTP '' @ tf_status_text tf status), sent)
             else (Inr (), sent))"

definition report_source_changed ::
    "'n agent_env \<Rightarrow> transferring \<Rightarrow> string \<Rightarrow> TransferUploadExecutionError \<Rightarrow> 'n carrier
       \<Rightarrow> (TransferUploadExecutionError + 'a) \<times> 'n carrier" where
  "report_source_changed env tf transfer_id error c =
     (case report_failure env tf transfer_id SourceChanged (ca_station c) of
        (failure_reported, s) \<Rightarrow>
          (Inl \<lparr>te_transfer_id = transfer_id, te_failure_code = Some SourceChanged, te_failure_reported = failure_reported,
                te_message = te_message error\<rparr>, c\<lparr>ca_station := s\<rparr>))"

definition plain_failure :: "string \<Rightarrow> string \<Rightarrow> TransferUploadExecutionError" where
  "plain_failure transfer_id message =
     \<lparr>te_transfer_id = transfer_id, te_failure_code = None, te_failure_reported = False, te_message = message\<rparr>"

definition complete_upload ::
    "'n agent_env \<Rightarrow> transferring \<Rightarrow> string \<Rightarrow> TransferUploadPayload \<Rightarrow> 'n carrier
       \<Rightarrow> (TransferUploadExecutionError + CompletedTransferUpload) \<times> 'n carrier" where
  "complete_upload env tf transfer_id payload c =
     (let s = ca_station c
      in case enqueue_file_transfer_completion (tf_wire tf) (tf_queued_at tf transfer_id) transfer_id (up_size_bytes payload)
                (up_sha256 payload) (sn_outbox s) of
           (Inl message, outbox) \<Rightarrow> (Inl (plain_failure transfer_id message), c\<lparr>ca_station := s\<lparr>sn_outbox := outbox\<rparr>\<rparr>)
         | (Inr _, outbox) \<Rightarrow>
             (case complete_file_transfer_upload env (tf_transfer tf) transfer_id (file_transfer_completion_key transfer_id)
                     (up_size_bytes payload) (up_sha256 payload) (sn_agent s) of
                (Inl error, a) \<Rightarrow>
                  (Inl (plain_failure transfer_id (agent_error_to_string error)),
                   c\<lparr>ca_station := s\<lparr>sn_outbox := outbox, sn_agent := a\<rparr>\<rparr>)
              | (Inr _, a) \<Rightarrow>
                  (Inr \<lparr>cu_transfer_id = transfer_id, cu_size_bytes = up_size_bytes payload, cu_sha256 = up_sha256 payload\<rparr>,
                   c\<lparr>ca_station := s\<lparr>sn_outbox := outbox, sn_agent := a\<rparr>\<rparr>)))"

text \<open>The payload is hashed between two checks of the source.\<close>

definition checked_payload :: "transferring \<Rightarrow> ValidatedTransferSource \<Rightarrow> TransferUploadExecutionError + TransferUploadPayload" where
  "checked_payload tf source =
     (let tree = tf_tree tf (vs_transfer_id source)
      in bind_res (ensure_source_unchanged (tree 1) source) (\<lambda>_.
         bind_res (hash_source_payload (tf_sha256 tf) (tree 2) source) (\<lambda>payload.
         bind_res (ensure_source_unchanged (tree 3) source) (\<lambda>_. Inr payload))))"

definition upload_prepared_transfer ::
    "'n agent_env \<Rightarrow> transferring \<Rightarrow> PreparedTransferUpload \<Rightarrow> 'n carrier
       \<Rightarrow> (TransferUploadExecutionError + CompletedTransferUpload) \<times> 'n carrier" where
  "upload_prepared_transfer env tf prepared c =
     (let source = pu_source prepared; transfer_id = vs_transfer_id source
      in case checked_payload tf source of
           Inl error \<Rightarrow> report_source_changed env tf transfer_id error c
         | Inr payload \<Rightarrow>
             (case put_upload_file tf (tf_tree tf transfer_id 4) transfer_id (ut_upload_url (pu_upload_target prepared))
                     (vs_resolved_path source) (up_size_bytes payload) of
                (Inl message, sent) \<Rightarrow>
                  (Inl (plain_failure transfer_id message), c\<lparr>ca_uploads := ca_uploads c @ sent\<rparr>)
              | (Inr _, sent) \<Rightarrow>
                  (let c1 = c\<lparr>ca_uploads := ca_uploads c @ sent\<rparr>
                   in case ensure_source_unchanged (tf_tree tf transfer_id 5) source of
                        Inl error \<Rightarrow> report_source_changed env tf transfer_id error c1
                      | Inr _ \<Rightarrow> complete_upload env tf transfer_id payload c1)))"

definition process_one_transfer ::
    "'n agent_env \<Rightarrow> transferring \<Rightarrow> AgentFileTransfer \<Rightarrow> 'n carrier
       \<Rightarrow> (TransferUploadExecutionError + CompletedTransferUpload) \<times> 'n carrier" where
  "process_one_transfer env tf transfer c =
     (case prepare_upload_target_for_transfer env tf transfer (ca_station c) of
        (Inl error, s) \<Rightarrow> (Inl error, c\<lparr>ca_station := s\<rparr>)
      | (Inr prepared, s) \<Rightarrow> upload_prepared_transfer env tf prepared (c\<lparr>ca_station := s\<rparr>))"

section \<open>A round of transfers\<close>

definition report_transfer ::
    "string \<Rightarrow> TransferUploadExecutionError + CompletedTransferUpload \<Rightarrow> FileTransferProcessingReport
       \<Rightarrow> FileTransferProcessingReport" where
  "report_transfer transfer_id out report =
     (case out of
        Inr completed \<Rightarrow>
          report\<lparr>fq_uploaded_count := fq_uploaded_count report + 1,
            fq_results := fq_results report @
              [\<lparr>fp_transfer_id = transfer_id, fp_status = Completed, fp_size_bytes = Some (cu_size_bytes completed),
                fp_sha256 = Some (cu_sha256 completed), fp_failure_code = None, fp_failure_reported = False, fp_message = None\<rparr>]\<rparr>
      | Inl error \<Rightarrow>
          (let row = (\<lambda>status. \<lparr>fp_transfer_id = transfer_id, fp_status = status, fp_size_bytes = None, fp_sha256 = None,
                 fp_failure_code = te_failure_code error, fp_failure_reported = te_failure_reported error,
                 fp_message = Some (te_message error)\<rparr>)
           in if contains_str (te_message error) ''not pending''
              then report\<lparr>fq_skipped_count := fq_skipped_count report + 1, fq_results := fq_results report @ [row Skipped]\<rparr>
              else report\<lparr>fq_failed_count := fq_failed_count report + 1, fq_results := fq_results report @ [row Failed]\<rparr>))"

fun process_transfers ::
    "'n agent_env \<Rightarrow> transferring \<Rightarrow> AgentFileTransfer list \<Rightarrow> FileTransferProcessingReport \<Rightarrow> 'n carrier
       \<Rightarrow> FileTransferProcessingReport \<times> 'n carrier" where
  "process_transfers env tf [] report c = (report, c)"
| "process_transfers env tf (transfer # transfers) report c =
     (case process_one_transfer env tf transfer c of
        (out, c1) \<Rightarrow> process_transfers env tf transfers (report_transfer (ft_transfer_id transfer) out report) c1)"

definition process_pending_file_transfers ::
    "'n agent_env \<Rightarrow> transferring \<Rightarrow> 'n carrier \<Rightarrow> (string + FileTransferProcessingReport) \<times> 'n carrier" where
  "process_pending_file_transfers env tf c =
     (case pending_file_transfers env (tf_transfers tf) (sn_agent (ca_station c)) of
        (Inl error, a) \<Rightarrow> (Inl (agent_error_to_string error), c\<lparr>ca_station := (ca_station c)\<lparr>sn_agent := a\<rparr>\<rparr>)
      | (Inr transfers, a) \<Rightarrow>
          (case process_transfers env tf transfers
                  \<lparr>fq_inspected_count = length transfers, fq_uploaded_count = 0, fq_failed_count = 0, fq_skipped_count = 0,
                   fq_results = []\<rparr> (c\<lparr>ca_station := (ca_station c)\<lparr>sn_agent := a\<rparr>\<rparr>) of
             (report, c1) \<Rightarrow> (Inr report, c1)))"

section \<open>What a validated source is\<close>

definition node_version :: "node \<Rightarrow> AgentFileTransferSourceVersion" where
  "node_version nd =
     source_version (''unix:d'' @ hex016 (at_dev (node_attrs nd)) @ '':i'' @ hex016 (at_ino (node_attrs nd))) (node_metadata nd)"

lemma metadata_resolved:
  assumes "fs_metadata w path = Inr m" "m_is_file m"
  obtains l content a where "resolve w True path = Inr (l, RegularFile content a)" "m = node_metadata (RegularFile content a)"
proof -
  obtain l nd where l: "resolve w True path = Inr (l, nd)" "m = node_metadata nd"
    using assms(1) by (auto simp: fs_metadata_def map_sum_def split: sum.splits)
  with assms(2) show thesis using that by (cases nd) (auto simp: node_metadata_def)
qed

lemma resolved_file:
  assumes "resolve w True path = Inr (l, RegularFile content a)"
  shows "fs_read w path = Inr content"
    "file_id_for_path w path = Some file_id \<Longrightarrow>
       source_version file_id (node_metadata (RegularFile content a)) = node_version (RegularFile content a)"
  using assms by (auto simp: fs_read_def file_id_for_path_def fs_metadata_def node_version_def node_metadata_def)

lemma size_of_version: "sv_size_bytes (node_version (RegularFile content a)) = length content"
  by (simp add: node_version_def source_version_def node_metadata_def)

text \<open>The transfer's file as it was when it was validated: inside the folder, regular and not empty.\<close>

definition validated_file ::
    "world \<Rightarrow> string \<Rightarrow> string \<Rightarrow> string \<Rightarrow> AgentFileTransferSourceVersion \<Rightarrow> bool" where
  "validated_file w root source_relative_path path version \<longleftrightarrow>
     (\<exists>g r l content a. guard_new w root = Inr g \<and> guard_ok w g r \<and> prefix r l \<and> path = path_of_loc l
        \<and> resolve_existing w g source_relative_path = Inr path
        \<and> map_of (w_fs w) l = Some (RegularFile content a) \<and> content \<noteq> [] \<and> version = node_version (RegularFile content a))"

lemma validated_source:
  assumes wf: "wf_fs (w_fs w)" and ok: "validate_local_transfer_source w root path transfer_id room_id = Inr v"
  shows "validated_file w root path (vs_resolved_path v) (vs_source_version v)"
    "vs_transfer_id v = (case transfer_id of None \<Rightarrow> [] | Some i \<Rightarrow> i)"
proof -
  obtain g m file_id where g: "guard_new w root = Inr g" and src: "resolve_existing w g path = Inr (vs_resolved_path v)"
    and m: "fs_metadata w (vs_resolved_path v) = Inr m" "m_is_file m" "m_len m \<noteq> 0"
    and file_id: "file_id_for_path w (vs_resolved_path v) = Some file_id"
    and v: "vs_source_version v = source_version file_id m" "vs_transfer_id v = (case transfer_id of None \<Rightarrow> [] | Some i \<Rightarrow> i)"
    using ok by (auto simp: validate_local_transfer_source_def bind_res_Inr_iff split: if_splits option.splits)
  obtain r where ok: "guard_ok w g r" using guard_new_ok [OF g wf] by blast
  obtain l nd where l: "vs_resolved_path v = path_of_loc l" "prefix r l" "map_of (w_fs w) l = Some nd" "\<not> is_link (Some nd)"
    using resolve_existing_Inr [OF ok src] by blast
  obtain k content a where k: "resolve w True (vs_resolved_path v) = Inr (k, RegularFile content a)"
    "m = node_metadata (RegularFile content a)" by (rule metadata_resolved [OF m(1,2)])
  have "resolve w True (path_of_loc l) = Inr (l, nd)" using resolve_path_of_loc [OF wf l(3), of True] l(4) by simp
  with k l(1) have nd: "nd = RegularFile content a" by simp
  moreover have "content \<noteq> []" using m(3) k(2) by (auto simp: node_metadata_def)
  moreover have "vs_source_version v = node_version nd" using resolved_file(2) [OF k(1) file_id] v(1) k(2) nd by simp
  ultimately show "validated_file w root path (vs_resolved_path v) (vs_source_version v)"
    unfolding validated_file_def using g ok src l by blast
  show "vs_transfer_id v = (case transfer_id of None \<Rightarrow> [] | Some i \<Rightarrow> i)" by (rule v(2))
qed

text \<open>What a check has seen: a regular file with the validated version.\<close>

definition still_there :: "world \<Rightarrow> string \<Rightarrow> AgentFileTransferSourceVersion \<Rightarrow> string \<Rightarrow> bool" where
  "still_there w path version content \<longleftrightarrow>
     (\<exists>l a. resolve w True path = Inr (l, RegularFile content a) \<and> node_version (RegularFile content a) = version)"

lemma checked_source:
  assumes "ensure_source_unchanged w v = Inr ()"
  obtains content where "still_there w (vs_resolved_path v) (vs_source_version v) content"
proof -
  obtain m file_id where m: "fs_metadata w (vs_resolved_path v) = Inr m" "m_is_file m"
    and v: "file_id_for_path w (vs_resolved_path v) = Some file_id" "source_version file_id m = vs_source_version v"
    using assms by (auto simp: ensure_source_unchanged_def bind_res_Inr_iff split: if_splits option.splits)
  obtain l content a where l: "resolve w True (vs_resolved_path v) = Inr (l, RegularFile content a)"
    "m = node_metadata (RegularFile content a)" by (rule metadata_resolved [OF m])
  have "node_version (RegularFile content a) = vs_source_version v" using resolved_file(2) [OF l(1) v(1)] v(2) l(2) by simp
  with l(1) show thesis by (intro that [of content]) (auto simp: still_there_def)
qed

lemma still_there_read: "still_there w path version content \<Longrightarrow> fs_read w path = Inr content \<and> sv_size_bytes version = length content"
  using resolved_file(1) size_of_version by (auto simp: still_there_def)

section \<open>What is streamed\<close>

text \<open>What allows a stream. The transfer was requested; between the states \<open>s\<close> and \<open>s'\<close> of the desktop, in which
  its processing began and ended, the folder of its room was found in the registry, bound to that room and enabled; its
  path led to a regular file inside that folder; and the server gave the target when it was asked with that file's
  version.\<close>

definition granted ::
    "'n agent_env \<Rightarrow> transferring \<Rightarrow> AgentFileTransfer \<Rightarrow> 'n station \<Rightarrow> 'n station \<Rightarrow> string
       \<Rightarrow> AgentFileTransferSourceVersion \<Rightarrow> string \<Rightarrow> bool" where
  "granted env tf transfer s s' path version url \<longleftrightarrow>
     ft_status transfer = ''REQUESTED''
     \<and> (\<exists>root. opened_to (ft_room_id transfer) (sn_roots s) root (sn_roots s') \<and> mr_enabled root
          \<and> validated_file (tf_tree tf (ft_transfer_id transfer) 0) (mr_root root) (ft_source_relative_path transfer) path version)
     \<and> (\<exists>source s1 target a. validate_transfer_source_for_request env tf transfer s = (Inr source, s1)
          \<and> request_file_transfer_upload_target env (tf_target tf) (ft_transfer_id transfer) version (sn_agent s1) = (Inr target, a)
          \<and> ut_upload_url target = url)"

lemma request_source_ok:
  assumes wf: "wf_fs (w_fs (tf_tree tf (ft_transfer_id transfer) 0))"
    and run: "validate_transfer_source_for_request env tf transfer s = (Inr v, s')"
  shows "\<exists>root. opened_to (ft_room_id transfer) (sn_roots s) root (sn_roots s') \<and> mr_enabled root
      \<and> validated_file (tf_tree tf (ft_transfer_id transfer) 0) (mr_root root) (ft_source_relative_path transfer)
          (vs_resolved_path v) (vs_source_version v)"
    "vs_transfer_id v = ft_transfer_id transfer"
proof -
  obtain root v0 i where root: "ensure_active_room_binding (tf_bound_at tf (ft_transfer_id transfer)) i
      (ft_room_id transfer) (sn_roots s) = (Inr root, sn_roots s')" "mr_enabled root"
    and v0: "validate_local_transfer_source (tf_tree tf (ft_transfer_id transfer) 0) (mr_root root)
      (ft_source_relative_path transfer) (Some (ft_transfer_id transfer)) (Some (ft_room_id transfer)) = Inr v0"
    and v: "v = v0\<lparr>vs_transfer_id := ft_transfer_id transfer, vs_room_id := ft_room_id transfer\<rparr>"
    using run by (auto simp: validate_transfer_source_for_request_def Let_def map_sum_def
        split: prod.splits sum.splits if_splits)
  show "\<exists>root. opened_to (ft_room_id transfer) (sn_roots s) root (sn_roots s') \<and> mr_enabled root
      \<and> validated_file (tf_tree tf (ft_transfer_id transfer) 0) (mr_root root) (ft_source_relative_path transfer)
          (vs_resolved_path v) (vs_source_version v)"
    using ensure_active_opened [OF root(1)] root(2) validated_source(1) [OF wf v0] v by auto
  show "vs_transfer_id v = ft_transfer_id transfer" by (simp add: v)
qed

text \<open>What preparing and uploading leave alone.\<close>

lemma report_failure_frame:
  "report_failure env tf transfer_id code s = (out, s') \<Longrightarrow> sn_roots s' = sn_roots s \<and> sn_outbox s' = sn_outbox s"
  by (auto simp: report_failure_def split: prod.splits)

lemma prepare_frame:
  "prepare_upload_target_for_transfer env tf transfer s = (out, s') \<Longrightarrow> sn_outbox s' = sn_outbox s"
  by (auto simp: prepare_upload_target_for_transfer_def validate_transfer_source_for_request_def Let_def
      dest!: report_failure_frame split: if_splits prod.splits sum.splits option.splits)

lemma upload_roots:
  "upload_prepared_transfer env tf prepared c = (out, c') \<Longrightarrow> sn_roots (ca_station c') = sn_roots (ca_station c)"
  by (auto simp: upload_prepared_transfer_def report_source_changed_def complete_upload_def Let_def
      dest!: report_failure_frame split: prod.splits sum.splits)

lemma prepared_granted:
  assumes "wf_fs (w_fs (tf_tree tf (ft_transfer_id transfer) 0))"
    and run: "prepare_upload_target_for_transfer env tf transfer s = (Inr prepared, s')"
  shows "granted env tf transfer s s' (vs_resolved_path (pu_source prepared)) (vs_source_version (pu_source prepared))
      (ut_upload_url (pu_upload_target prepared))" "vs_transfer_id (pu_source prepared) = ft_transfer_id transfer"
proof -
  obtain v s1 target a where status: "ft_status transfer = ''REQUESTED''"
    and v: "validate_transfer_source_for_request env tf transfer s = (Inr v, s1)"
    and target: "request_file_transfer_upload_target env (tf_target tf) (ft_transfer_id transfer) (vs_source_version v) (sn_agent s1)
      = (Inr target, a)" and prepared: "prepared = \<lparr>pu_source = v, pu_upload_target = target\<rparr>" "s' = s1\<lparr>sn_agent := a\<rparr>"
    using run by (auto simp: prepare_upload_target_for_transfer_def Let_def split: if_splits prod.splits sum.splits option.splits)
  note source = request_source_ok [OF assms(1) v]
  show "granted env tf transfer s s' (vs_resolved_path (pu_source prepared)) (vs_source_version (pu_source prepared))
      (ut_upload_url (pu_upload_target prepared))"
    using status source(1) v target by (auto simp: granted_def prepared)
  show "vs_transfer_id (pu_source prepared) = ft_transfer_id transfer" using source(2) by (simp add: prepared)
qed

lemma granted_after:
  "granted env tf transfer s s1 path version url \<Longrightarrow> sn_roots s2 = sn_roots s1 \<Longrightarrow> granted env tf transfer s s2 path version url"
  by (simp add: granted_def)

lemma report_source_changed_frame:
  "report_source_changed env tf transfer_id error c = (out, c') \<Longrightarrow> ca_uploads c' = ca_uploads c \<and> \<not> is_ok out"
  by (auto simp: report_source_changed_def is_ok_def split: prod.splits)

lemma complete_upload_frame:
  "complete_upload env tf transfer_id payload c = (out, c') \<Longrightarrow> ca_uploads c' = ca_uploads c"
  by (auto simp: complete_upload_def Let_def split: prod.splits sum.splits)

text \<open>How an upload ends: stopped before the stream, interrupted after its start, or concluded.\<close>

definition sent_upload :: "PreparedTransferUpload \<Rightarrow> string \<Rightarrow> upload" where
  "sent_upload prepared content =
     \<lparr>ul_transfer_id = vs_transfer_id (pu_source prepared), ul_url = ut_upload_url (pu_upload_target prepared),
      ul_bytes = content\<rparr>"

lemma checked_payload_Inr:
  "checked_payload tf source = Inr payload \<longleftrightarrow>
     ensure_source_unchanged (tf_tree tf (vs_transfer_id source) 1) source = Inr ()
     \<and> hash_source_payload (tf_sha256 tf) (tf_tree tf (vs_transfer_id source) 2) source = Inr payload
     \<and> ensure_source_unchanged (tf_tree tf (vs_transfer_id source) 3) source = Inr ()"
  by (auto simp: checked_payload_def Let_def bind_res_Inr_iff)

lemma put_upload_cases:
  assumes "put_upload_file tf w transfer_id url path n = (out, sent)"
  obtains (Unread) e where "fs_read w path = Inl e" "sent = []" "\<not> is_ok out"
  | (Sent) content where "fs_read w path = Inr content"
      "sent = [\<lparr>ul_transfer_id = transfer_id, ul_url = url, ul_bytes = content\<rparr>]"
  using assms by (auto simp: put_upload_file_def is_ok_def Let_def split: sum.splits if_splits)

lemma upload_cases [consumes 1, case_names Stopped Interrupted Concluded]:
  assumes run: "upload_prepared_transfer env tf prepared c = (out, c')"
  obtains "ca_uploads c' = ca_uploads c" "\<not> is_ok out"
  | payload content where "checked_payload tf (pu_source prepared) = Inr payload"
      "fs_read (tf_tree tf (vs_transfer_id (pu_source prepared)) 4) (vs_resolved_path (pu_source prepared)) = Inr content"
      "ca_uploads c' = ca_uploads c @ [sent_upload prepared content]" "\<not> is_ok out"
  | payload content where "checked_payload tf (pu_source prepared) = Inr payload"
      "fs_read (tf_tree tf (vs_transfer_id (pu_source prepared)) 4) (vs_resolved_path (pu_source prepared)) = Inr content"
      "ca_uploads c' = ca_uploads c @ [sent_upload prepared content]"
      "ensure_source_unchanged (tf_tree tf (vs_transfer_id (pu_source prepared)) 5) (pu_source prepared) = Inr ()"
      "complete_upload env tf (vs_transfer_id (pu_source prepared)) payload
         (c\<lparr>ca_uploads := ca_uploads c @ [sent_upload prepared content]\<rparr>) = (out, c')"
proof (cases "checked_payload tf (pu_source prepared)")
  case (Inl error)
  then have "report_source_changed env tf (vs_transfer_id (pu_source prepared)) error c = (out, c')"
    using run by (simp add: upload_prepared_transfer_def Let_def)
  then show thesis using that(1) report_source_changed_frame by blast
next
  case checked: (Inr payload)
  obtain put sent where put: "put_upload_file tf (tf_tree tf (vs_transfer_id (pu_source prepared)) 4)
      (vs_transfer_id (pu_source prepared)) (ut_upload_url (pu_upload_target prepared))
      (vs_resolved_path (pu_source prepared)) (up_size_bytes payload) = (put, sent)" by (rule prod.exhaust)
  from put show thesis
  proof (cases rule: put_upload_cases)
    case Unread
    then show thesis using run put checked that(1)
      by (auto simp: upload_prepared_transfer_def Let_def is_ok_def split: sum.splits)
  next
    case (Sent content)
    then have sent: "sent = [sent_upload prepared content]" by (simp add: sent_upload_def)
    show thesis
    proof (cases put)
      case (Inl message)
      then show thesis using run put checked sent Sent(1) by (intro that(2) [of payload content])
          (auto simp: upload_prepared_transfer_def Let_def is_ok_def)
    next
      case taken: (Inr u)
      show thesis
      proof (cases "ensure_source_unchanged (tf_tree tf (vs_transfer_id (pu_source prepared)) 5) (pu_source prepared)")
        case (Inl error)
        then have "report_source_changed env tf (vs_transfer_id (pu_source prepared)) error
            (c\<lparr>ca_uploads := ca_uploads c @ [sent_upload prepared content]\<rparr>) = (out, c')"
          using run put checked sent taken by (simp add: upload_prepared_transfer_def Let_def)
        from report_source_changed_frame [OF this] show thesis using checked Sent(1) by (intro that(2) [of payload content]) auto
      next
        case (Inr u)
        then have run: "complete_upload env tf (vs_transfer_id (pu_source prepared)) payload
            (c\<lparr>ca_uploads := ca_uploads c @ [sent_upload prepared content]\<rparr>) = (out, c')"
          using run put checked sent taken by (simp add: upload_prepared_transfer_def Let_def)
        with complete_upload_frame [OF run] checked Sent(1) Inr show thesis by (intro that(3) [of payload content]) auto
      qed
    qed
  qed
qed

text \<open>The desktop after some transfers of a round.\<close>

definition carried_out :: "'n agent_env \<Rightarrow> transferring \<Rightarrow> AgentFileTransfer list \<Rightarrow> 'n carrier \<Rightarrow> 'n carrier" where
  "carried_out env tf transfers c = fold (\<lambda>transfer c. snd (process_one_transfer env tf transfer c)) transfers c"

lemma process_transfers_carried: "snd (process_transfers env tf transfers report c) = carried_out env tf transfers c"
  by (induction transfers arbitrary: report c) (auto simp: carried_out_def split: prod.split)

text \<open>What was streamed in a round, in terms of the transfer it was streamed for and of the states in which the
  processing of this transfer began and ended.\<close>

definition streams_granted ::
    "'n agent_env \<Rightarrow> transferring \<Rightarrow> 'n carrier \<Rightarrow> AgentFileTransfer list \<Rightarrow> upload list \<Rightarrow> bool" where
  "streams_granted env tf c transfers new \<longleftrightarrow>
     (\<forall>u \<in> set new. \<exists>earlier transfer later path version.
        transfers = earlier @ transfer # later \<and> ft_transfer_id transfer = ul_transfer_id u
        \<and> granted env tf transfer (ca_station (carried_out env tf earlier c))
            (ca_station (carried_out env tf (earlier @ [transfer]) c)) path version (ul_url u)
        \<and> still_there (tf_tree tf (ul_transfer_id u) 4) path version (ul_bytes u))"

lemma streams_granted_Nil [simp]: "streams_granted env tf c transfers []" by (simp add: streams_granted_def)

lemma streams_granted_Cons:
  assumes "streams_granted env tf c [transfer] new"
    and "streams_granted env tf (snd (process_one_transfer env tf transfer c)) transfers newer"
  shows "streams_granted env tf c (transfer # transfers) (new @ newer)"
  unfolding streams_granted_def set_append ball_Un
proof
  show "\<forall>u \<in> set new. \<exists>earlier first later path version.
      transfer # transfers = earlier @ first # later \<and> ft_transfer_id first = ul_transfer_id u
      \<and> granted env tf first (ca_station (carried_out env tf earlier c))
          (ca_station (carried_out env tf (earlier @ [first]) c)) path version (ul_url u)
      \<and> still_there (tf_tree tf (ul_transfer_id u) 4) path version (ul_bytes u)"
    using assms(1) unfolding streams_granted_def Cons_eq_append_conv by (fastforce intro: exI [of _ "[]"])
next
  have after: "carried_out env tf (transfer # earlier) c = carried_out env tf earlier (snd (process_one_transfer env tf transfer c))" for earlier
    by (simp add: carried_out_def)
  show "\<forall>u \<in> set newer. \<exists>earlier first later path version.
      transfer # transfers = earlier @ first # later \<and> ft_transfer_id first = ul_transfer_id u
      \<and> granted env tf first (ca_station (carried_out env tf earlier c))
          (ca_station (carried_out env tf (earlier @ [first]) c)) path version (ul_url u)
      \<and> still_there (tf_tree tf (ul_transfer_id u) 4) path version (ul_bytes u)"
    using assms(2) after unfolding streams_granted_def by (metis append_Cons)
qed

lemma process_one_streams:
  assumes wf: "\<And>i. wf_fs (w_fs (tf_tree tf i 0))" and quiet: "\<And>i. tf_tree tf i 4 = tf_tree tf i 3"
    and run: "process_one_transfer env tf transfer c = (out, c')"
  obtains new where "ca_uploads c' = ca_uploads c @ new" "streams_granted env tf c [transfer] new"
proof (cases "prepare_upload_target_for_transfer env tf transfer (ca_station c)")
  case (Pair prep s)
  show thesis
  proof (cases prep)
    case (Inl error)
    with run Pair show thesis by (intro that [of "[]"]) (auto simp: process_one_transfer_def)
  next
    case (Inr prepared)
    with Pair have prep: "prepare_upload_target_for_transfer env tf transfer (ca_station c) = (Inr prepared, s)" by simp
    have upload: "upload_prepared_transfer env tf prepared (c\<lparr>ca_station := s\<rparr>) = (out, c')"
      using run prep by (simp add: process_one_transfer_def)
    note grant = granted_after [OF prepared_granted(1) [OF wf prep], of "ca_station c'"] prepared_granted(2) [OF wf prep]
    have sent: "streams_granted env tf c [transfer] [sent_upload prepared content]"
      if checked: "checked_payload tf (pu_source prepared) = Inr payload"
        and read: "fs_read (tf_tree tf (vs_transfer_id (pu_source prepared)) 4) (vs_resolved_path (pu_source prepared)) = Inr content"
      for payload content
    proof -
      obtain content' where "still_there (tf_tree tf (vs_transfer_id (pu_source prepared)) 3) (vs_resolved_path (pu_source prepared))
          (vs_source_version (pu_source prepared)) content'"
        using checked checked_source by (auto simp: checked_payload_Inr)
      with read quiet still_there_read have "still_there (tf_tree tf (vs_transfer_id (pu_source prepared)) 4)
          (vs_resolved_path (pu_source prepared)) (vs_source_version (pu_source prepared)) content" by fastforce
      with grant upload_roots [OF upload] run show ?thesis
        by (auto simp: streams_granted_def sent_upload_def carried_out_def Cons_eq_append_conv)
    qed
    from upload show thesis
    proof (cases rule: upload_cases)
      case Stopped
      then show thesis by (intro that [of "[]"]) auto
    next
      case (Interrupted payload content)
      then show thesis by (intro that [OF _ sent]) auto
    next
      case (Concluded payload content)
      then show thesis by (intro that [OF _ sent]) auto
    qed
  qed
qed

lemma process_transfers_stream:
  assumes wf: "\<And>i. wf_fs (w_fs (tf_tree tf i 0))" and quiet: "\<And>i. tf_tree tf i 4 = tf_tree tf i 3"
    and run: "process_transfers env tf transfers report c = (report', c')"
  shows "\<exists>new. ca_uploads c' = ca_uploads c @ new \<and> streams_granted env tf c transfers new"
  using run
proof (induction transfers arbitrary: report c)
  case Nil
  then show ?case by auto
next
  case (Cons transfer transfers)
  obtain out c1 where one: "process_one_transfer env tf transfer c = (out, c1)" by (rule prod.exhaust)
  obtain new where new: "ca_uploads c1 = ca_uploads c @ new" "streams_granted env tf c [transfer] new"
    by (rule process_one_streams [OF wf quiet one])
  obtain newer where "ca_uploads c' = ca_uploads c1 @ newer" "streams_granted env tf c1 transfers newer"
    using Cons.IH Cons.prems one by auto
  with new streams_granted_Cons [of env tf c transfer new transfers newer] one show ?case by auto
qed

section \<open>What is completed\<close>

text \<open>The completion of a transfer as the server learns it: the request that carries it is in the outbox as a pending row, and it
  has been sent, and answered, as well.\<close>

definition completion_sent ::
    "'n agent_env \<Rightarrow> transferring \<Rightarrow> CompletedTransferUpload \<Rightarrow> 'n station \<Rightarrow> bool" where
  "completion_sent env tf completed s \<longleftrightarrow>
     (let i = cu_transfer_id completed; key = file_transfer_completion_key i
      in queued_as (tf_wire tf) (KIND_FILE_TRANSFER_COMPLETION, key)
           (complete_transfer_request i key (cu_size_bytes completed) (cu_sha256 completed)) (sn_outbox s)
         \<and> (\<exists>before answer. complete_file_transfer_upload env (tf_transfer tf) i key (cu_size_bytes completed)
               (cu_sha256 completed) before = (Inr answer, sn_agent s)))"

definition no_completion_yet :: "string \<Rightarrow> outbox_table \<Rightarrow> bool" where
  "no_completion_yet transfer_id t \<longleftrightarrow>
     (KIND_FILE_TRANSFER_COMPLETION, file_transfer_completion_key transfer_id) \<notin> row_name ` set (ob_rows t)"

lemma complete_upload_sent:
  assumes run: "complete_upload env tf transfer_id payload c = (Inr completed, c')"
    and outbox: "sn_outbox (ca_station c) = opened_store t" "no_completion_yet transfer_id t"
    and codec: "\<And>n sha. carried (tf_wire tf) (Transfer_Completion transfer_id n sha)"
  shows "completed = \<lparr>cu_transfer_id = transfer_id, cu_size_bytes = up_size_bytes payload, cu_sha256 = up_sha256 payload\<rparr>
    \<and> completion_sent env tf completed (ca_station c')"
proof -
  let ?key = "file_transfer_completion_key transfer_id"
  have "queued_as (tf_wire tf) (KIND_FILE_TRANSFER_COMPLETION, ?key)
      (complete_transfer_request transfer_id ?key (up_size_bytes payload) (up_sha256 payload))
      (snd (enqueue_file_transfer_completion (tf_wire tf) (tf_queued_at tf transfer_id) transfer_id (up_size_bytes payload)
        (up_sha256 payload) (opened_store t)))"
  proof -
    have "(KIND_FILE_TRANSFER_COMPLETION, ?key) \<notin> row_name ` set (ob_rows t)" using outbox(2) by (simp add: no_completion_yet_def)
    moreover obtain written where "enc_transfer (tf_wire tf)
        \<lparr>tp_transfer_id = transfer_id, tp_size_bytes = up_size_bytes payload, tp_sha256 = up_sha256 payload\<rparr> = Inr written"
      "dec_transfer (tf_wire tf) written
        = Some \<lparr>tp_transfer_id = transfer_id, tp_size_bytes = up_size_bytes payload, tp_sha256 = up_sha256 payload\<rparr>"
      using codec [of "up_size_bytes payload" "up_sha256 payload"] by (auto elim: carriesE)
    ultimately show ?thesis unfolding enqueue_file_transfer_completion_def
      by (intro enqueue_queued) (auto simp: request_for_kinds)
  qed
  then show ?thesis using run outbox(1)
    by (auto simp: complete_upload_def completion_sent_def Let_def split: prod.splits sum.splits) blast
qed

text \<open>What a completed transfer has announced: the size and hash of the file as it was read for hashing, which
  had the validated version when it was checked before, between and after hashing and streaming.\<close>

definition transfer_announced :: "transferring \<Rightarrow> CompletedTransferUpload \<Rightarrow> string \<Rightarrow> AgentFileTransferSourceVersion \<Rightarrow> upload \<Rightarrow> bool" where
  "transfer_announced tf completed path version u \<longleftrightarrow>
     (let tree = tf_tree tf (cu_transfer_id completed)
      in (\<exists>content. fs_read (tree 2) path = Inr content \<and> cu_size_bytes completed = length content
            \<and> cu_sha256 completed = hex_lower (tf_sha256 tf content))
         \<and> cu_size_bytes completed = sv_size_bytes version \<and> fs_read (tree 4) path = Inr (ul_bytes u)
         \<and> (\<exists>content. still_there (tree 1) path version content) \<and> (\<exists>content. still_there (tree 3) path version content)
         \<and> (\<exists>content. still_there (tree 5) path version content))"

lemma hashed_payload:
  assumes "hash_source_payload sha256 w source = Inr payload"
  obtains content where "fs_read w (vs_resolved_path source) = Inr content" "length content = sv_size_bytes (vs_source_version source)"
    "payload = \<lparr>up_size_bytes = length content, up_sha256 = hex_lower (sha256 content)\<rparr>"
  using assms by (auto simp: hash_source_payload_def bind_res_Inr_iff split: if_splits)

lemma uploaded_completed:
  assumes run: "upload_prepared_transfer env tf prepared c = (Inr completed, c')"
    and outbox: "sn_outbox (ca_station c) = opened_store t" "no_completion_yet (vs_transfer_id (pu_source prepared)) t"
    and codec: "\<And>n sha. carried (tf_wire tf) (Transfer_Completion (vs_transfer_id (pu_source prepared)) n sha)"
  obtains u where "ca_uploads c' = ca_uploads c @ [u]" "u = sent_upload prepared (ul_bytes u)"
    "cu_transfer_id completed = vs_transfer_id (pu_source prepared)"
    "transfer_announced tf completed (vs_resolved_path (pu_source prepared)) (vs_source_version (pu_source prepared)) u"
    "completion_sent env tf completed (ca_station c')"
  using run
proof (cases rule: upload_cases)
  case (Concluded payload content)
  obtain hashed where hashed: "fs_read (tf_tree tf (vs_transfer_id (pu_source prepared)) 2) (vs_resolved_path (pu_source prepared)) = Inr hashed"
    "length hashed = sv_size_bytes (vs_source_version (pu_source prepared))"
    "payload = \<lparr>up_size_bytes = length hashed, up_sha256 = hex_lower (tf_sha256 tf hashed)\<rparr>"
    using Concluded(1) by (auto simp: checked_payload_Inr elim: hashed_payload)
  have sent: "completed = \<lparr>cu_transfer_id = vs_transfer_id (pu_source prepared), cu_size_bytes = up_size_bytes payload,
      cu_sha256 = up_sha256 payload\<rparr> \<and> completion_sent env tf completed (ca_station c')"
    by (rule complete_upload_sent [OF Concluded(5) _ outbox(2) codec]) (simp add: outbox(1))
  have seen: "\<exists>content. still_there (tf_tree tf (vs_transfer_id (pu_source prepared)) i) (vs_resolved_path (pu_source prepared))
      (vs_source_version (pu_source prepared)) content" if "i \<in> {1, 3, 5}" for i
  proof -
    have "ensure_source_unchanged (tf_tree tf (vs_transfer_id (pu_source prepared)) i) (pu_source prepared) = Inr ()"
      using that Concluded(1,4) unfolding checked_payload_Inr by blast
    then show ?thesis by (rule checked_source) blast
  qed
  have "transfer_announced tf completed (vs_resolved_path (pu_source prepared)) (vs_source_version (pu_source prepared)) (sent_upload prepared content)"
    unfolding transfer_announced_def Let_def
    using Concluded(2) hashed sent seen by (simp add: sent_upload_def)
  then show thesis using Concluded(3) sent by (intro that) (auto simp: sent_upload_def)
qed (auto simp: is_ok_def)

section \<open>A sample transfer\<close>

definition sample_transfer :: AgentFileTransfer where
  "sample_transfer =
     \<lparr>ft_transfer_id = ''f1'', ft_room_id = ''r1'', ft_source_relative_path = ''notes.pdf'', ft_status = ''REQUESTED'',
      ft_expires_at = ''soon'', ft_size_bytes = None, ft_sha256 = None, ft_failure_code = None\<rparr>"

text \<open>A text for the payload of a completion.\<close>

definition completion_parts :: "FileTransferCompletionPayload \<Rightarrow> string \<times> nat \<times> string" where
  "completion_parts p = (tp_transfer_id p, tp_size_bytes p, tp_sha256 p)"

definition completion_of_parts :: "string \<times> nat \<times> string \<Rightarrow> FileTransferCompletionPayload" where
  "completion_of_parts = (\<lambda>(i, n, sha). \<lparr>tp_transfer_id = i, tp_size_bytes = n, tp_sha256 = sha\<rparr>)"

definition put_completion :: "FileTransferCompletionPayload printer" where
  "put_completion = put_pair put_string (put_pair put_nat put_string) \<circ> completion_parts"

definition get_completion :: "FileTransferCompletionPayload parser" where
  "get_completion = get_map completion_of_parts (get_pair get_string (get_pair get_nat get_string))"

lemma codec_completion: "codec put_completion get_completion"
  unfolding put_completion_def get_completion_def
  by (rule codec_map) (auto simp: completion_parts_def completion_of_parts_def)

definition sample_transferring :: transferring where
  "sample_transferring =
     \<lparr>tf_wire = sample_wire\<lparr>enc_transfer := (\<lambda>p. Inr (put_completion p)), dec_transfer := (\<lambda>t. map_option fst (get_completion t))\<rparr>, tf_transfers = (\<lambda>_. Some [sample_transfer]), tf_transfer = (\<lambda>_. Some sample_transfer),
      tf_rooms = dg_rooms sample_delegation,
      tf_target = (\<lambda>_. Some \<lparr>ut_transfer_id = ''f1'', ut_upload_url = ''https://keeper.test/put/f1'', ut_expires_at = ''soon''\<rparr>),
      tf_sha256 = (\<lambda>_. replicate 32 (CHR 0x07)), tf_put = (\<lambda>_ _ _. Inr 200), tf_status_text = (\<lambda>_. []),
      tf_tree = (\<lambda>_ _. early_world), tf_bound_at = (\<lambda>_. 8), tf_queued_at = (\<lambda>_. 9)\<rparr>"

definition sample_carrier :: "(unit \<times> http_request list) carrier" where
  "sample_carrier = \<lparr>ca_station = sample_station, ca_uploads = []\<rparr>"

lemma sample_trees: "wf_fs (w_fs (tf_tree sample_transferring i k))"
  using sample_wf by (simp add: sample_transferring_def early_world_def sample_world_def)

lemma sample_quiet: "tf_tree sample_transferring i 4 = tf_tree sample_transferring i 3"
  by (simp add: sample_transferring_def)

lemma sample_codec: "carried (tf_wire sample_transferring) (Transfer_Completion i n sha)"
proof -
  have "get_completion (put_completion p @ []) = Some (p, [])" for p using codec_completion unfolding codec_def by blast
  then show ?thesis by (simp add: sample_transferring_def carries_def)
qed

lemma sample_completed:
  "map_sum te_message cu_size_bytes (fst (process_one_transfer (sample_env 200 None) sample_transferring sample_transfer sample_carrier))
     = Inr 5"
  by code_simp

lemma sample_streamed:
  "map ul_bytes (ca_uploads (snd (process_pending_file_transfers (sample_env 200 None) sample_transferring sample_carrier)))
     = [''hello'']"
  by code_simp

section \<open>Properties\<close>

text \<open>C13: Only validated files are streamed. Suppose the tree is well-formed, and that it does not change between the last check before the
  stream and the stream. When the pending transfers cannot be listed, a round adds no upload. Otherwise each stream that the round
  adds belongs to one of the transfers the server listed, which was requested: when this transfer was
  processed, the registry had the folder of its room, bound to that room and enabled; the stream went to the target the server gave when it
  was asked for this transfer and the file's version; and its bytes are those of the regular, non-empty file that the transfer's path resolved to inside that
  folder, which still has the identity, size and time announced for it.\<close>

theorem streams_only_validated_files:
  assumes "\<And>i. wf_fs (w_fs (tf_tree tf i 0))" and "\<And>i. tf_tree tf i 4 = tf_tree tf i 3"
    and run: "process_pending_file_transfers env tf c = (out, c')"
  shows "case pending_file_transfers env (tf_transfers tf) (sn_agent (ca_station c)) of
      (Inl error, a) \<Rightarrow> ca_uploads c' = ca_uploads c
    | (Inr transfers, a) \<Rightarrow> \<exists>new. ca_uploads c' = ca_uploads c @ new
        \<and> streams_granted env tf (c\<lparr>ca_station := (ca_station c)\<lparr>sn_agent := a\<rparr>\<rparr>) transfers new"
proof -
  obtain pending a where pending: "pending_file_transfers env (tf_transfers tf) (sn_agent (ca_station c)) = (pending, a)"
    by (rule prod.exhaust)
  show ?thesis
  proof (cases pending)
    case (Inl error)
    with run pending show ?thesis by (auto simp: process_pending_file_transfers_def)
  next
    case (Inr transfers)
    then have "\<exists>report report'. process_transfers env tf transfers report
        (c\<lparr>ca_station := (ca_station c)\<lparr>sn_agent := a\<rparr>\<rparr>) = (report', c')"
      using run pending by (auto simp: process_pending_file_transfers_def split: prod.splits)
    then show ?thesis using process_transfers_stream [OF assms(1,2)] Inr pending by fastforce
  qed
qed

theorem streams_only_validated_files_witness:
  "\<exists>out c' u c1 transfers. process_pending_file_transfers (sample_env 200 None) sample_transferring sample_carrier = (out, c')
     \<and> ca_uploads c' = [u] \<and> ul_bytes u = ''hello''
     \<and> streams_granted (sample_env 200 None) sample_transferring c1 transfers [u]"
proof -
  obtain out c' where run: "process_pending_file_transfers (sample_env 200 None) sample_transferring sample_carrier = (out, c')"
    by (rule prod.exhaust)
  have none: "ca_uploads sample_carrier = []" by (simp add: sample_carrier_def)
  have one: "map ul_bytes (ca_uploads c') = [''hello'']" using sample_streamed run by simp
  then obtain u where u: "ca_uploads c' = [u]" "ul_bytes u = ''hello''" by auto
  from streams_only_validated_files [OF sample_trees sample_quiet run] none u
  obtain transfers a where "streams_granted (sample_env 200 None) sample_transferring
      (sample_carrier\<lparr>ca_station := (ca_station sample_carrier)\<lparr>sn_agent := a\<rparr>\<rparr>) transfers [u]"
    by (auto split: prod.splits sum.splits)
  with run u show ?thesis by blast
qed

text \<open>C14: A completed transfer is announced as it was read. Suppose the outbox works, completions read back from
  its texts, and it holds no completion of this transfer yet. Then a transfer that completes has sent one stream, to the target the
  server gave for the validated file; the completion it reports carries the size and hash of the content that was hashed, the
  size is that of the validated version, the file had this version before and after hashing and after streaming; and exactly this
  completion is a pending row of the outbox and has been sent to the server, which answered it.\<close>

theorem completed_transfer_announced:
  assumes "\<And>i. wf_fs (w_fs (tf_tree tf i 0))"
    and run: "process_one_transfer env tf transfer c = (Inr completed, c')"
    and outbox: "sn_outbox (ca_station c) = opened_store t" "no_completion_yet (ft_transfer_id transfer) t"
    and codec: "\<And>n sha. carried (tf_wire tf) (Transfer_Completion (ft_transfer_id transfer) n sha)"
  shows "\<exists>u path version. ca_uploads c' = ca_uploads c @ [u] \<and> ul_transfer_id u = ft_transfer_id transfer
    \<and> cu_transfer_id completed = ft_transfer_id transfer
    \<and> granted env tf transfer (ca_station c) (ca_station c') path version (ul_url u)
    \<and> transfer_announced tf completed path version u \<and> completion_sent env tf completed (ca_station c')"
proof -
  obtain prepared s where prep: "prepare_upload_target_for_transfer env tf transfer (ca_station c) = (Inr prepared, s)"
    and upload: "upload_prepared_transfer env tf prepared (c\<lparr>ca_station := s\<rparr>) = (Inr completed, c')"
    using run by (auto simp: process_one_transfer_def split: prod.splits sum.splits)
  note grant = prepared_granted [OF assms(1) prep]
  obtain u where "ca_uploads c' = ca_uploads c @ [u]" "u = sent_upload prepared (ul_bytes u)"
    "cu_transfer_id completed = vs_transfer_id (pu_source prepared)"
    "transfer_announced tf completed (vs_resolved_path (pu_source prepared)) (vs_source_version (pu_source prepared)) u"
    "completion_sent env tf completed (ca_station c')"
    using uploaded_completed [OF upload] outbox codec prepare_frame [OF prep] grant(2) by auto
  with granted_after [OF grant(1), of "ca_station c'"] upload_roots [OF upload] grant(2) show ?thesis
    by (intro exI [of _ u] exI [of _ "vs_resolved_path (pu_source prepared)"] exI [of _ "vs_source_version (pu_source prepared)"])
      (metis sent_upload_def upload.select_convs(1,2) carrier.select_convs(1) carrier.surjective carrier.update_convs(1))
qed

theorem completed_transfer_announced_witness:
  "\<exists>completed c' u path version.
     process_one_transfer (sample_env 200 None) sample_transferring sample_transfer sample_carrier = (Inr completed, c')
     \<and> ca_uploads c' = [u] \<and> cu_size_bytes completed = 5
     \<and> transfer_announced sample_transferring completed path version u
     \<and> completion_sent (sample_env 200 None) sample_transferring completed (ca_station c')"
proof -
  obtain completed c' where run: "process_one_transfer (sample_env 200 None) sample_transferring sample_transfer sample_carrier
      = (Inr completed, c')" "cu_size_bytes completed = 5"
    using sample_completed
    by (cases "process_one_transfer (sample_env 200 None) sample_transferring sample_transfer sample_carrier")
      (auto simp: map_sum_def split: sum.splits)
  have none: "ca_uploads sample_carrier = []" by (simp add: sample_carrier_def)
  have outbox: "sn_outbox (ca_station sample_carrier) = opened_store empty_outbox"
    by (simp add: sample_carrier_def sample_station_def)
  have fresh: "no_completion_yet (ft_transfer_id sample_transfer) empty_outbox"
    by (simp add: no_completion_yet_def empty_outbox_def)
  from completed_transfer_announced [OF sample_trees run(1) outbox fresh sample_codec] run none show ?thesis by auto
qed

text \<open>Whether a transfer counts as failed is read off the text of its error. A file that is missing, and reported
  as such to the server, counts as skipped when its name says so.\<close>

lemma missing_file_counts_as_skipped:
  "fq_skipped_count (report_transfer ''f1''
     (Inl \<lparr>te_transfer_id = ''f1'', te_failure_code = Some SourceNotFound, te_failure_reported = True,
           te_message = ve_message (map_guard_error (MissingPath ''/home/box/not pending.txt''))\<rparr>)
     \<lparr>fq_inspected_count = 1, fq_uploaded_count = 0, fq_failed_count = 0, fq_skipped_count = 0, fq_results = []\<rparr>) = 1"
  by code_simp

end
