(* ===== verification/File_Browse.thy ===== *)
theory File_Browse
  imports Browse Index_Search File_Transfer
begin

text \<open>
  Remote browsing (\<^verbatim>\<open>file_browse_processor.rs\<close>): the server's requests to list a directory of a bound folder, or to search
  it by name, are answered page by page from the file engine.

  Shown here: the pages of a listing join up to exactly the visible children that are not withheld by name, each once; a
  search cursor is accepted again only with the query it was made for, and then continues where its page ended; an
  answer is made only from an enabled folder bound to the request's room, and answering requests changes no file.
\<close>

section \<open>Types\<close>

definition PAGE_SIZE :: nat where
  "PAGE_SIZE = 200"

datatype FileBrowseProcessingStatus = Completed | Failed

record FileBrowseProcessingResult =
  fs_request_id :: string
  fs_status :: FileBrowseProcessingStatus
  fs_entry_count :: nat
  fs_next_cursor :: "string option"
  fs_message :: "string option"

record FileBrowseProcessingReport =
  fo_inspected_count :: nat
  fo_completed_count :: nat
  fo_failed_count :: nat
  fo_results :: "FileBrowseProcessingResult list"

text \<open>\<^verbatim>\<open>FailureResult\<close> has the same two fields, and one is made of the other.\<close>

record BuildFileBrowseError =
  bf_failure_code :: AgentFileBrowseFailureCode
  bf_message :: string

type_synonym FailureResult = BuildFileBrowseError

text \<open>What the processor is given: the decoders of the server's answers, lower-casing, and the readings of the clock for a
  request.\<close>

record browsing =
  bw_requests :: "string \<Rightarrow> FileBrowseRequestResponse list option"
  bw_rooms :: "string \<Rightarrow> ServerRoom list option"
  bw_lower :: "string \<Rightarrow> string"
  bw_bound_at :: "string \<Rightarrow> int"
  bw_unix_ms :: "string \<Rightarrow> nat"

section \<open>Numbers in cursors\<close>

text \<open>\<^verbatim>\<open>u64::from_str_radix\<close> and, with base ten, \<^verbatim>\<open>str::parse\<close> at the types \<^verbatim>\<open>u64\<close> and \<^verbatim>\<open>usize\<close>.\<close>

definition digit_value :: "char \<Rightarrow> nat option" where
  "digit_value c =
     (let b = (of_char c :: nat)
      in if 48 \<le> b \<and> b \<le> 57 then Some (b - 48)
         else if 97 \<le> b \<and> b \<le> 122 then Some (b - 87)
         else if 65 \<le> b \<and> b \<le> 90 then Some (b - 55) else None)"

definition is_digit_of :: "nat \<Rightarrow> char \<Rightarrow> bool" where
  "is_digit_of base c \<longleftrightarrow> (case digit_value c of None \<Rightarrow> False | Some d \<Rightarrow> d < base)"

definition digits_value :: "nat \<Rightarrow> string \<Rightarrow> nat" where
  "digits_value base = foldl (\<lambda>n c. n * base + the (digit_value c)) 0"

definition from_str_radix :: "nat \<Rightarrow> string \<Rightarrow> nat option" where
  "from_str_radix base src =
     (let digits = (case src of c # rest \<Rightarrow> if c = CHR ''+'' then rest else src | [] \<Rightarrow> [])
      in if digits = [] \<or> \<not> list_all (is_digit_of base) digits \<or> digits_value base digits \<ge> 2 ^ 64
         then None else Some (digits_value base digits))"

section \<open>Entries\<close>

definition stable_file_id_parts :: "string \<Rightarrow> bool \<Rightarrow> nat option \<Rightarrow> nat option \<Rightarrow> string" where
  "stable_file_id_parts path is_dir size_bytes modified =
     (let modified_text = (case modified of Some v \<Rightarrow> dec v | None \<Rightarrow> ''unknown'');
          size_text = (case size_bytes of Some v \<Rightarrow> dec v | None \<Rightarrow> ''dir'')
      in ''hm:'' @ hex016 (unat (fnv1a64 (path @ ''|'' @ (if is_dir then ''true'' else ''false'') @ ''|''
           @ size_text @ ''|'' @ modified_text))))"

definition stable_file_id :: "BrowseEntry \<Rightarrow> string" where
  "stable_file_id entry =
     stable_file_id_parts (BrowseEntry.be_path entry) (BrowseEntry.be_is_dir entry) (BrowseEntry.be_size_bytes entry)
       (BrowseEntry.be_modified_unix_ms entry)"

definition remote_entry :: "BrowseEntry \<Rightarrow> AgentFileBrowseEntry" where
  "remote_entry entry =
     \<lparr>be_name = BrowseEntry.be_name entry, be_relative_path = BrowseEntry.be_path entry,
      be_entry_type = (if BrowseEntry.be_is_dir entry then AgentFileBrowseEntryType.Directory else AgentFileBrowseEntryType.File),
      be_size_bytes = BrowseEntry.be_size_bytes entry,
      be_modified_at = unix_ms_to_rfc3339 (BrowseEntry.be_modified_unix_ms entry), be_file_id = stable_file_id entry\<rparr>"

definition remote_search_entry :: "IndexedSearchEntry \<Rightarrow> AgentFileBrowseEntry" where
  "remote_search_entry entry =
     \<lparr>be_name = ie_name entry, be_relative_path = ie_relative_path entry,
      be_entry_type = (if ie_is_dir entry then AgentFileBrowseEntryType.Directory else AgentFileBrowseEntryType.File),
      be_size_bytes = ie_size_bytes entry, be_modified_at = unix_ms_to_rfc3339 (ie_modified_unix_ms entry),
      be_file_id = stable_file_id_parts (ie_relative_path entry) (ie_is_dir entry) (ie_size_bytes entry) (ie_modified_unix_ms entry)\<rparr>"

definition is_remotely_browsable_name :: "string \<Rightarrow> bool" where
  "is_remotely_browsable_name raw_name =
     (let name = to_ascii_lowercase raw_name
      in if name = ''.mousekeeper'' \<or> name = ''.mousekeeper_trash'' then False
         else if list_ex (ends_with_str name) [''.tmp'', ''.crdownload'', ''.part'', ''.lock'', ''.download''] then False
         else if list_ex (contains_str name) [''credential'', ''password'', ''secret'', ''token'']
           \<or> list_ex (ends_with_str name) [''.key'', ''.pem'', ''.p12'', ''.pfx''] then False
         else True)"

definition is_remotely_browsable :: "BrowseEntry \<Rightarrow> bool" where
  "is_remotely_browsable entry = is_remotely_browsable_name (BrowseEntry.be_name entry)"

section \<open>Pages of a directory\<close>

definition cursor_error :: "string \<Rightarrow> BuildFileBrowseError" where
  "cursor_error message = \<lparr>bf_failure_code = CursorInvalidated, bf_message = message\<rparr>"

definition validate_page_limit :: "nat \<Rightarrow> BuildFileBrowseError + unit" where
  "validate_page_limit limit =
     (if 1 \<le> limit \<and> limit \<le> PAGE_SIZE then Inr () else Inl (cursor_error ''file browse limit must be between 1 and 200''))"

definition parse_cursor :: "string option \<Rightarrow> BuildFileBrowseError + nat" where
  "parse_cursor cursor =
     (case cursor of
        None \<Rightarrow> Inr 0
      | Some raw \<Rightarrow>
          if raw = [] then Inr 0
          else let raw_offset = (if prefix ''offset:'' raw then drop 7 raw else raw)
               in case from_str_radix 10 raw_offset of
                    None \<Rightarrow> Inl (cursor_error ''file browse cursor must be an offset cursor'')
                  | Some offset \<Rightarrow> Inr offset)"

definition map_browse_error :: "BrowseError \<Rightarrow> BuildFileBrowseError" where
  "map_browse_error error = \<lparr>bf_failure_code = OutsideManagedRoot, bf_message = browse_error_to_string error\<rparr>"

definition build_result_page_limited ::
    "world \<Rightarrow> nat \<Rightarrow> string \<Rightarrow> string \<Rightarrow> string option \<Rightarrow> nat \<Rightarrow> BuildFileBrowseError + AgentFileBrowseResult" where
  "build_result_page_limited w now root relative_directory cursor limit =
     bind_res (validate_page_limit limit) (\<lambda>_.
     bind_res (parse_cursor cursor) (\<lambda>offset.
     bind_res (map_err map_browse_error (browse_root w root (Some relative_directory))) (\<lambda>report.
       let entries = filter is_remotely_browsable (BrowseReport.br_entries report)
       in if offset > length entries
          then Inl (cursor_error ''file browse cursor is no longer valid for this directory'')
          else let page = map remote_entry (take limit (drop offset entries));
                   next_offset = offset + length page
               in Inr \<lparr>br_entries = page,
                       br_next_cursor = (if next_offset < length entries then Some (''offset:'' @ dec next_offset) else None),
                       br_desktop_generation = dec now\<rparr>)))"

definition build_result_page ::
    "world \<Rightarrow> nat \<Rightarrow> string \<Rightarrow> string \<Rightarrow> string option \<Rightarrow> BuildFileBrowseError + AgentFileBrowseResult" where
  "build_result_page w now root relative_directory cursor =
     build_result_page_limited w now root relative_directory cursor PAGE_SIZE"

section \<open>Pages of a search\<close>

fun scope_debug :: "AgentFileSearchScope \<Rightarrow> string" where
  "scope_debug AgentFileSearchScope.CurrentDirectory = ''CurrentDirectory''"
| "scope_debug AgentFileSearchScope.ManagedRoot = ''ManagedRoot''"

fun indexed_scope :: "AgentFileSearchScope \<Rightarrow> IndexedSearchScope" where
  "indexed_scope AgentFileSearchScope.CurrentDirectory = IndexedSearchScope.CurrentDirectory"
| "indexed_scope AgentFileSearchScope.ManagedRoot = IndexedSearchScope.ManagedRoot"

definition search_fingerprint ::
    "(string \<Rightarrow> string) \<Rightarrow> string \<Rightarrow> string \<Rightarrow> AgentFileSearchScope \<Rightarrow> nat \<Rightarrow> string list \<Rightarrow> nat" where
  "search_fingerprint lower relative_directory query_text scope limit extensions =
     (let sorted_extensions = sort (map to_ascii_lowercase extensions)
      in unat (fnv1a64 (replace_char (CHR 0x5C) (CHR ''/'') relative_directory @ ''|'' @ lower query_text @ ''|''
           @ scope_debug scope @ ''|'' @ dec limit @ ''|'' @ join_with '','' sorted_extensions)))"

definition parse_search_cursor :: "string option \<Rightarrow> nat \<Rightarrow> BuildFileBrowseError + nat option \<times> nat" where
  "parse_search_cursor cursor fingerprint =
     (case cursor of
        None \<Rightarrow> Inr (None, 0)
      | Some text \<Rightarrow>
          if text = [] then Inr (None, 0)
          else case split_on (\<lambda>c. c = CHR '':'') text of
                 [head, cursor_fingerprint, generation, offset] \<Rightarrow>
                   if head \<noteq> ''search'' \<or> from_str_radix 16 cursor_fingerprint \<noteq> Some fingerprint
                     \<or> from_str_radix 10 generation = None \<or> from_str_radix 10 offset = None
                   then Inl (cursor_error ''file search cursor does not match this query and scope'')
                   else Inr (from_str_radix 10 generation, the (from_str_radix 10 offset))
               | _ \<Rightarrow> Inl (cursor_error ''file search cursor does not match this query and scope''))"

definition map_file_index_error :: "FileIndexError \<Rightarrow> BuildFileBrowseError" where
  "map_file_index_error error =
     \<lparr>bf_failure_code = (case error of GenerationChanged _ _ \<Rightarrow> CursorInvalidated | InvalidSearch _ \<Rightarrow> CursorInvalidated
                                     | _ \<Rightarrow> OutsideManagedRoot),
      bf_message = file_index_error_to_string error\<rparr>"

definition search_cursor :: "nat \<Rightarrow> nat \<Rightarrow> nat \<Rightarrow> string" where
  "search_cursor fingerprint generation next_offset =
     ''search:'' @ hex016 fingerprint @ '':'' @ dec generation @ '':'' @ dec next_offset"

definition search_result :: "nat \<Rightarrow> IndexedSearchPage \<Rightarrow> AgentFileBrowseResult" where
  "search_result fingerprint page =
     \<lparr>br_entries = map remote_search_entry (filter (\<lambda>entry. is_remotely_browsable_name (ie_name entry)) (ip_entries page)),
      br_next_cursor = map_option (search_cursor fingerprint (ip_generation page)) (ip_next_offset page),
      br_desktop_generation = dec (ip_generation page)\<rparr>"

text \<open>The index is filled before its first use. \<^const>\<open>None\<close> stands for an exhausted fuel of the engine's scans, which
  never happens.\<close>

definition ensure_indexed ::
    "(string \<Rightarrow> string) \<Rightarrow> string \<Rightarrow> world \<Rightarrow> ((FileIndexError + unit) \<times> world) option" where
  "ensure_indexed lower root w =
     (case index_is_initialized root w of
        (Inl error, w1) \<Rightarrow> Some (Inl error, w1)
      | (Inr True, w1) \<Rightarrow> Some (Inr (), w1)
      | (Inr False, w1) \<Rightarrow> map_option (\<lambda>(out, w2). (map_sum id (\<lambda>_. ()) out, w2)) (reindex_root lower root w1))"

definition build_search_result_page_limited ::
    "(string \<Rightarrow> string) \<Rightarrow> string \<Rightarrow> string \<Rightarrow> string \<Rightarrow> AgentFileSearchScope \<Rightarrow> string option \<Rightarrow> nat \<Rightarrow> string list
       \<Rightarrow> world \<Rightarrow> ((BuildFileBrowseError + AgentFileBrowseResult) \<times> world) option" where
  "build_search_result_page_limited lower root relative_directory query_text scope cursor limit extensions w =
     (let fingerprint = search_fingerprint lower relative_directory query_text scope limit extensions
      in case bind_res (validate_page_limit limit) (\<lambda>_. parse_search_cursor cursor fingerprint) of
           Inl error \<Rightarrow> Some (Inl error, w)
         | Inr (expected_generation, offset) \<Rightarrow>
             (case ensure_indexed lower root w of
                None \<Rightarrow> None
              | Some (Inl error, w1) \<Rightarrow> Some (Inl (map_file_index_error error), w1)
              | Some (Inr _, w1) \<Rightarrow>
                  (case search_index_page_with_extensions lower root query_text (indexed_scope scope) relative_directory
                          expected_generation offset limit extensions w1 of
                     (Inl error, w2) \<Rightarrow> Some (Inl (map_file_index_error error), w2)
                   | (Inr None, w2) \<Rightarrow> None
                   | (Inr (Some page), w2) \<Rightarrow> Some (Inr (search_result fingerprint page), w2))))"

definition build_search_result_page ::
    "(string \<Rightarrow> string) \<Rightarrow> string \<Rightarrow> string \<Rightarrow> string \<Rightarrow> AgentFileSearchScope \<Rightarrow> string option
       \<Rightarrow> world \<Rightarrow> ((BuildFileBrowseError + AgentFileBrowseResult) \<times> world) option" where
  "build_search_result_page lower root relative_directory query_text scope cursor =
     build_search_result_page_limited lower root relative_directory query_text scope cursor PAGE_SIZE []"

section \<open>Requests\<close>

definition outside_failure :: "string \<Rightarrow> FailureResult" where
  "outside_failure message = \<lparr>bf_failure_code = OutsideManagedRoot, bf_message = message\<rparr>"

definition build_page_for_root ::
    "browsing \<Rightarrow> string \<Rightarrow> FileBrowseRequestResponse \<Rightarrow> world
       \<Rightarrow> ((BuildFileBrowseError + AgentFileBrowseResult) \<times> world) option" where
  "build_page_for_root bw root request w =
     (case fb_query request of
        Some query_text \<Rightarrow>
          build_search_result_page_limited (bw_lower bw) root (fb_relative_directory request) query_text (fb_search_scope request)
            (fb_cursor request) (fb_limit request) (fb_extensions request) w
      | None \<Rightarrow>
          Some (build_result_page_limited w (bw_unix_ms bw (fb_id request)) root (fb_relative_directory request)
                  (fb_cursor request) (fb_limit request), w))"

definition build_result_for_request ::
    "'n agent_env \<Rightarrow> browsing \<Rightarrow> FileBrowseRequestResponse \<Rightarrow> 'n station
       \<Rightarrow> ((FailureResult + AgentFileBrowseResult) \<times> 'n station) option" where
  "build_result_for_request env bw request s =
     (case root_id_for_room env (bw_rooms bw) (fb_room_id request) (sn_agent s) of
        (Inl error, a) \<Rightarrow> Some (Inl (outside_failure (agent_error_to_string error)), s\<lparr>sn_agent := a\<rparr>)
      | (Inr room, a) \<Rightarrow>
          (case ensure_active_room_binding (bw_bound_at bw (fb_id request)) (rs_root_id room) (fb_room_id request) (sn_roots s) of
             (Inl error, roots) \<Rightarrow> Some (Inl (outside_failure error), s\<lparr>sn_agent := a, sn_roots := roots\<rparr>)
           | (Inr managed_root, roots) \<Rightarrow>
               (let s1 = s\<lparr>sn_agent := a, sn_roots := roots\<rparr>
                in if \<not> mr_enabled managed_root
                   then Some (Inl (outside_failure (''managed root is disabled: '' @ mr_root_id managed_root)), s1)
                   else map_option (\<lambda>(out, w). (out, s1\<lparr>sn_world := w\<rparr>))
                          (build_page_for_root bw (mr_root managed_root) request (sn_world s)))))"

definition process_one_browse ::
    "'n agent_env \<Rightarrow> browsing \<Rightarrow> FileBrowseRequestResponse \<Rightarrow> 'n station
       \<Rightarrow> ((string + AgentFileBrowseResult) \<times> 'n station) option" where
  "process_one_browse env bw request s =
     (case build_result_for_request env bw request s of
        None \<Rightarrow> None
      | Some (Inr browse_result, s1) \<Rightarrow>
          (case complete_file_browse_request env (fb_id request) browse_result (sn_agent s1) of
             (Inl error, a) \<Rightarrow> Some (Inl (agent_error_to_string error), s1\<lparr>sn_agent := a\<rparr>)
           | (Inr _, a) \<Rightarrow> Some (Inr browse_result, s1\<lparr>sn_agent := a\<rparr>))
      | Some (Inl failure, s1) \<Rightarrow>
          (case fail_file_browse_request env (fb_id request) (bf_failure_code failure) (sn_agent s1) of
             (Inl error, a) \<Rightarrow> Some (Inl (agent_error_to_string error), s1\<lparr>sn_agent := a\<rparr>)
           | (Inr _, a) \<Rightarrow> Some (Inl (bf_message failure), s1\<lparr>sn_agent := a\<rparr>)))"

definition report_browse ::
    "string \<Rightarrow> string + AgentFileBrowseResult \<Rightarrow> FileBrowseProcessingReport \<Rightarrow> FileBrowseProcessingReport" where
  "report_browse request_id out report =
     (case out of
        Inr browse_result \<Rightarrow>
          report\<lparr>fo_completed_count := fo_completed_count report + 1,
            fo_results := fo_results report @
              [\<lparr>fs_request_id = request_id, fs_status = Completed, fs_entry_count = length (br_entries browse_result),
                fs_next_cursor = br_next_cursor browse_result, fs_message = None\<rparr>]\<rparr>
      | Inl error \<Rightarrow>
          report\<lparr>fo_failed_count := fo_failed_count report + 1,
            fo_results := fo_results report @
              [\<lparr>fs_request_id = request_id, fs_status = Failed, fs_entry_count = 0, fs_next_cursor = None,
                fs_message = Some error\<rparr>]\<rparr>)"

fun process_browse_requests ::
    "'n agent_env \<Rightarrow> browsing \<Rightarrow> FileBrowseRequestResponse list \<Rightarrow> FileBrowseProcessingReport \<Rightarrow> 'n station
       \<Rightarrow> (FileBrowseProcessingReport \<times> 'n station) option" where
  "process_browse_requests env bw [] report s = Some (report, s)"
| "process_browse_requests env bw (request # requests) report s =
     (case process_one_browse env bw request s of
        None \<Rightarrow> None
      | Some (out, s1) \<Rightarrow> process_browse_requests env bw requests (report_browse (fb_id request) out report) s1)"

definition process_pending_file_browse_requests ::
    "'n agent_env \<Rightarrow> browsing \<Rightarrow> 'n station \<Rightarrow> ((string + FileBrowseProcessingReport) \<times> 'n station) option" where
  "process_pending_file_browse_requests env bw s =
     (case pending_file_browse_requests env (bw_requests bw) (sn_agent s) of
        (Inl error, a) \<Rightarrow> Some (Inl (agent_error_to_string error), s\<lparr>sn_agent := a\<rparr>)
      | (Inr requests, a) \<Rightarrow>
          map_option (\<lambda>(report, s1). (Inr report, s1))
            (process_browse_requests env bw requests
               \<lparr>fo_inspected_count = length requests, fo_completed_count = 0, fo_failed_count = 0, fo_results = []\<rparr>
               (s\<lparr>sn_agent := a\<rparr>)))"

section \<open>Cursors\<close>

lemma digit_value_char: "d < 16 \<Longrightarrow> digit_value (digit_char d) = Some d"
  by (auto simp: digit_value_def digit_char_def of_char_of Let_def)

lemma digit_char_plain: "d < 16 \<Longrightarrow> digit_char d \<noteq> CHR ''+'' \<and> digit_char d \<noteq> CHR '':''"
  using digit_value_char [of d] by (auto simp: digit_value_def)

lemma digits_value_snoc: "digits_value base (s @ [c]) = digits_value base s * base + the (digit_value c)"
  by (simp add: digits_value_def)

lemma digits_value_hex: "digits_value 16 (hex_digits k n) = n mod 16 ^ k"
proof (induction k arbitrary: n)
  case (Suc k)
  have "n mod 16 ^ Suc k = 16 * (n div 16 mod 16 ^ k) + n mod 16" by (simp add: mod_mult2_eq)
  then show ?case by (simp add: digits_value_snoc Suc digit_value_char)
qed (simp add: digits_value_def)

lemma digits_value_dec: "digits_value 10 (dec n) = n"
proof (induction n rule: dec.induct)
  case (1 n)
  show ?case
  proof (cases "n < 10")
    case True
    then show ?thesis by (subst dec.simps) (simp add: digits_value_def digit_value_char)
  next
    case False
    with 1 show ?thesis by (subst dec.simps) (simp add: digits_value_snoc digit_value_char)
  qed
qed

lemma hex_digits_digits: "c \<in> set (hex_digits k n) \<Longrightarrow> \<exists>d < 16. c = digit_char d"
proof (induction k arbitrary: n)
  case (Suc k)
  then show ?case by (auto intro: exI [of _ "n mod 16"])
qed simp

lemma number_parsed:
  assumes "\<forall>c \<in> set s. \<exists>d < base. c = digit_char d" and "base \<le> 16" and "s \<noteq> []"
  shows "digits_value base s < 2 ^ 64 \<Longrightarrow> from_str_radix base s = Some (digits_value base s)" "CHR '':'' \<notin> set s"
proof -
  have digit: "\<exists>d < 16. d < base \<and> c = digit_char d" if "c \<in> set s" for c
    using assms(1,2) that by (meson order.strict_trans2)
  then have plain: "CHR ''+'' \<notin> set s" "CHR '':'' \<notin> set s" using digit_char_plain by metis+
  have "list_all (is_digit_of base) s"
    using digit by (fastforce simp: list_all_iff is_digit_of_def digit_value_char)
  moreover have "(case s of c # rest \<Rightarrow> if c = CHR ''+'' then rest else s | [] \<Rightarrow> []) = s"
    using plain(1) by (cases s) auto
  ultimately show "digits_value base s < 2 ^ 64 \<Longrightarrow> from_str_radix base s = Some (digits_value base s)"
    using assms(3) by (simp add: from_str_radix_def)
  show "CHR '':'' \<notin> set s" by (rule plain(2))
qed

lemma dec_parsed: "n < 2 ^ 64 \<Longrightarrow> from_str_radix 10 (dec n) = Some n" "CHR '':'' \<notin> set (dec n)"
proof -
  have digits: "\<forall>c \<in> set (dec n). \<exists>d < 10. c = digit_char d" using dec_digits by blast
  show "n < 2 ^ 64 \<Longrightarrow> from_str_radix 10 (dec n) = Some n"
    using number_parsed(1) [OF digits] by (simp add: digits_value_dec)
  show "CHR '':'' \<notin> set (dec n)" using number_parsed(2) [OF digits] by simp
qed

lemma hex_parsed: "n < 2 ^ 64 \<Longrightarrow> from_str_radix 16 (hex016 n) = Some n" "CHR '':'' \<notin> set (hex016 n)"
proof -
  have ne: "hex016 n \<noteq> []" using length_hex_digits [of 16 n] by force
  have same: "digits_value 16 (hex016 n) = n mod 2 ^ 64" unfolding digits_value_hex by simp
  have digits: "\<forall>c \<in> set (hex016 n). \<exists>d < 16. c = digit_char d" using hex_digits_digits by blast
  show "n < 2 ^ 64 \<Longrightarrow> from_str_radix 16 (hex016 n) = Some n"
    using number_parsed(1) [OF digits _ ne] same by simp
  show "CHR '':'' \<notin> set (hex016 n)" using number_parsed(2) [OF digits _ ne] by simp
qed

lemma offset_cursor_parsed: "n < 2 ^ 64 \<Longrightarrow> parse_cursor (Some (''offset:'' @ dec n)) = Inr n"
  by (simp add: parse_cursor_def dec_parsed)

text \<open>A search cursor is accepted with the query it was made for and with no other, up to the fingerprint.\<close>

lemma search_cursor_parsed:
  assumes "fingerprint < 2 ^ 64" "generation < 2 ^ 64" "offset < 2 ^ 64"
  shows "parse_search_cursor (Some (search_cursor fingerprint generation offset)) fingerprint' =
     (if fingerprint = fingerprint' then Inr (Some generation, offset)
      else Inl (cursor_error ''file search cursor does not match this query and scope''))"
proof -
  have clean: "split_on (\<lambda>c. c = CHR '':'') a = [a]" if "CHR '':'' \<notin> set a" for a
    using that by (intro split_on_none) auto
  have "search_cursor fingerprint generation offset
      = ''search'' @ CHR '':'' # (hex016 fingerprint @ CHR '':'' # (dec generation @ CHR '':'' # dec offset))"
    by (simp add: search_cursor_def del: hex_digits.simps)
  then have parts: "split_on (\<lambda>c. c = CHR '':'') (search_cursor fingerprint generation offset)
      = [''search'', hex016 fingerprint, dec generation, dec offset]"
    by (simp only: split_on_append_sep) (simp add: clean hex_parsed(2) dec_parsed(2) del: hex_digits.simps)
  have "search_cursor fingerprint generation offset \<noteq> []" by (simp add: search_cursor_def)
  then show ?thesis
    using assms by (simp add: parse_search_cursor_def parts dec_parsed hex_parsed del: hex_digits.simps)
qed

section \<open>Following the cursors\<close>

text \<open>A client that asks for the first page and then for the page of every cursor it is given.\<close>

fun remote_pages ::
    "(string option \<Rightarrow> BuildFileBrowseError + AgentFileBrowseResult) \<Rightarrow> nat \<Rightarrow> string option
       \<Rightarrow> (BuildFileBrowseError + AgentFileBrowseEntry list) option" where
  "remote_pages fetch 0 cursor = None"
| "remote_pages fetch (Suc n) cursor =
     (case fetch cursor of
        Inl error \<Rightarrow> Some (Inl error)
      | Inr r \<Rightarrow>
          (case br_next_cursor r of
             None \<Rightarrow> Some (Inr (br_entries r))
           | Some next_cursor \<Rightarrow> map_option (map_sum id (append (br_entries r))) (remote_pages fetch n (Some next_cursor))))"

lemma pages_from:
  assumes "browse_root w root (Some directory) = Inr rep" and "1 \<le> limit" "limit \<le> PAGE_SIZE"
    and "entries = filter is_remotely_browsable (BrowseReport.br_entries rep)" "length entries < 2 ^ 64"
    and "parse_cursor cursor = Inr offset" "offset \<le> length entries" "length entries - offset < fuel"
  shows "remote_pages (\<lambda>c. build_result_page_limited w (now c) root directory c limit) fuel cursor
    = Some (Inr (map remote_entry (drop offset entries)))"
  using assms(6-8)
proof (induction fuel arbitrary: cursor offset)
  case (Suc fuel)
  let ?page = "map remote_entry (take limit (drop offset entries))"
  have page: "build_result_page_limited w (now cursor) root directory cursor limit
      = Inr \<lparr>br_entries = ?page, br_next_cursor =
               (if offset + length ?page < length entries then Some (''offset:'' @ dec (offset + length ?page)) else None),
             br_desktop_generation = dec (now cursor)\<rparr>"
    using assms(1-4) Suc.prems(1,2) by (simp add: build_result_page_limited_def validate_page_limit_def bind_res_def Let_def)
  show ?case
  proof (cases "offset + length ?page < length entries")
    case True
    then have len: "length ?page = limit" by auto
    have "parse_cursor (Some (''offset:'' @ dec (offset + limit))) = Inr (offset + limit)"
      using True len assms(5) by (intro offset_cursor_parsed) simp
    then have "remote_pages (\<lambda>c. build_result_page_limited w (now c) root directory c limit) fuel
        (Some (''offset:'' @ dec (offset + limit))) = Some (Inr (map remote_entry (drop (offset + limit) entries)))"
      using True len Suc.prems(3) assms(2) by (intro Suc.IH) auto
    moreover have "take limit (drop offset entries) @ drop (offset + limit) entries = drop offset entries"
      by (metis append_take_drop_id drop_drop add.commute)
    ultimately show ?thesis using True len by (simp add: page map_append [symmetric] del: map_append)
  next
    case False
    then have "length (drop offset entries) \<le> limit" using assms(2) by auto
    with False show ?thesis by (simp add: page)
  qed
qed simp

text \<open>Every listing fits the numbers of the cursors when the tree does.\<close>

lemma children_card: "card (children w r base P) \<le> length (w_fs w)" "finite (children w r base P)"
proof -
  have sub: "(\<lambda>l. r @ l) ` children w r base P \<subseteq> fst ` set (w_fs w)"
    by (auto simp: children_def dom_map_of_conv_image_fst [symmetric])
  have inj: "inj_on (\<lambda>l. r @ l) (children w r base P)" by (simp add: inj_on_def)
  show fin: "finite (children w r base P)" using finite_subset [OF sub] finite_imageD [OF _ inj] by simp
  have "card (children w r base P) = card ((\<lambda>l. r @ l) ` children w r base P)" by (simp add: card_image inj)
  also have "\<dots> \<le> card (fst ` set (w_fs w))" using sub by (intro card_mono) simp_all
  also have "\<dots> \<le> length (w_fs w)" using card_image_le [of "set (w_fs w)" fst] card_length [of "w_fs w"] by simp
  finally show "card (children w r base P) \<le> length (w_fs w)" .
qed

section \<open>Continuing a search\<close>

text \<open>A page of a search, in terms of the table it was read from: the first hits from an offset on, and where the next
  page starts.\<close>

definition page_of_table ::
    "(string \<Rightarrow> string) \<Rightarrow> string \<Rightarrow> AgentFileSearchScope \<Rightarrow> string \<Rightarrow> nat \<Rightarrow> string list \<Rightarrow> world \<Rightarrow> nat \<Rightarrow> IndexedSearchPage
       \<Rightarrow> bool" where
  "page_of_table lower query_text scope directory limit extensions w offset page \<longleftrightarrow>
     (\<exists>dir exts g db rows found. normalize_relative_directory directory = Inr dir \<and> normalize_extension_filter extensions = Inr exts
        \<and> w_dbs w (db_path_for_root (guard_root g)) = Some db \<and> int (ip_generation page) = db_generation db
        \<and> rows = search_rows (indexed_scope scope) dir (normalize_name lower (trim query_text)) db
        \<and> found = hits (\<lambda>entry. validate_indexed_search_hit w g entry \<and> indexed_entry_matches_extensions entry exts)
        \<and> ip_entries page = take limit (found (drop offset rows))
        \<and> (case ip_next_offset page of
             None \<Rightarrow> length (found (drop offset rows)) \<le> limit
           | Some n \<Rightarrow> n < length rows \<and> found (drop n rows) = drop limit (found (drop offset rows))))"

definition small_tables :: "world \<Rightarrow> bool" where
  "small_tables w \<longleftrightarrow> (\<forall>path db. w_dbs w path = Some db \<longrightarrow> length (db_search_entries db) < 2 ^ 63 \<and> db_generation db < 2 ^ 63)"

lemma page_spec_next:
  assumes "page_spec hit limit (drop offset rows) [] offset entries (Some n)"
  shows "offset \<le> n" "n < length rows" "hits hit (drop n rows) = drop limit (hits hit (drop offset rows))"
proof -
  have n: "offset \<le> n" "limit < length (hits hit (drop offset rows))"
    "hits hit (drop (n - offset) (drop offset rows)) = drop limit (hits hit (drop offset rows))"
    using assms by (auto simp: page_spec_def)
  then show "offset \<le> n" "hits hit (drop n rows) = drop limit (hits hit (drop offset rows))" by simp_all
  with n(2) have "hits hit (drop n rows) \<noteq> []" by auto
  then show "n < length rows" by (auto simp: hits_def not_le [symmetric])
qed

lemma searched_page_of_table:
  assumes run: "search_index_page_with_extensions lower root query_text (indexed_scope scope) directory expected offset limit
      extensions w = (Inr (Some page), w')"
    and small: "small_tables w'" "offset < 2 ^ 63"
  shows "page_of_table lower query_text scope directory limit extensions w' offset page" "ip_generation page < 2 ^ 64"
    "\<forall>n. ip_next_offset page = Some n \<longrightarrow> n < 2 ^ 63"
    "case expected of None \<Rightarrow> True | Some generation \<Rightarrow> generation = ip_generation page"
proof -
  obtain g where g: "guard_new w root = Inr g"
    using run by (auto simp: search_index_page_with_extensions_def action_iffs readA_def throwA_def map_err_def split: if_splits sum.splits)
  have "w_dbs w' (db_path_for_root (guard_root g)) = Some (db_at w (db_path_for_root (guard_root g)))"
    by (simp add: searched_dbs [OF run g])
  with small(1) have len: "length (db_search_entries (db_at w (db_path_for_root (guard_root g)))) < 2 ^ 63"
    unfolding small_tables_def by blast
  obtain dir exts db where parts: "normalize_relative_directory directory = Inr dir" "normalize_extension_filter extensions = Inr exts"
    "w_dbs w' (db_path_for_root (guard_root g)) = Some db" "int (ip_generation page) = db_generation db"
    "case expected of None \<Rightarrow> True | Some generation \<Rightarrow> generation = ip_generation page"
    and spec: "page_spec (\<lambda>entry. validate_indexed_search_hit w' g entry \<and> indexed_entry_matches_extensions entry exts) limit
       (drop offset (search_rows (indexed_scope scope) dir (normalize_name lower (trim query_text)) db)) [] offset
       (ip_entries page) (ip_next_offset page)"
    by (rule searched_page [OF run g small(2) len]) blast
  have "length (search_rows (indexed_scope scope) dir (normalize_name lower (trim query_text)) db) \<le> length (db_search_entries db)"
    by (simp add: search_rows_def)
  also have "\<dots> < 2 ^ 63" using small(1) parts(3) unfolding small_tables_def by blast
  finally show "\<forall>n. ip_next_offset page = Some n \<longrightarrow> n < 2 ^ 63" using spec page_spec_next(2) by fastforce
  have "db_generation db < 2 ^ 63" using small(1) parts(3) by (auto simp: small_tables_def)
  with parts(4) have "ip_generation page < 2 ^ 63" by simp
  then show "ip_generation page < 2 ^ 64" by (rule less_trans) simp
  have "case ip_next_offset page of
      None \<Rightarrow> length (hits (\<lambda>entry. validate_indexed_search_hit w' g entry \<and> indexed_entry_matches_extensions entry exts)
        (drop offset (search_rows (indexed_scope scope) dir (normalize_name lower (trim query_text)) db))) \<le> limit
    | Some n \<Rightarrow> n < length (search_rows (indexed_scope scope) dir (normalize_name lower (trim query_text)) db)
        \<and> hits (\<lambda>entry. validate_indexed_search_hit w' g entry \<and> indexed_entry_matches_extensions entry exts)
             (drop n (search_rows (indexed_scope scope) dir (normalize_name lower (trim query_text)) db))
          = drop limit (hits (\<lambda>entry. validate_indexed_search_hit w' g entry \<and> indexed_entry_matches_extensions entry exts)
             (drop offset (search_rows (indexed_scope scope) dir (normalize_name lower (trim query_text)) db)))"
    using spec page_spec_next [of _ limit offset] by (cases "ip_next_offset page") (auto simp: page_spec_def [of _ _ _ _ _ _ None])
  moreover have "ip_entries page = take limit (hits (\<lambda>entry. validate_indexed_search_hit w' g entry \<and> indexed_entry_matches_extensions entry exts)
        (drop offset (search_rows (indexed_scope scope) dir (normalize_name lower (trim query_text)) db)))"
    using spec by (simp add: page_spec_def)
  ultimately show "page_of_table lower query_text scope directory limit extensions w' offset page"
    using parts(1-4) unfolding page_of_table_def by blast
  show "case expected of None \<Rightarrow> True | Some generation \<Rightarrow> generation = ip_generation page" by (rule parts(5))
qed

lemma built_search:
  assumes "build_search_result_page_limited lower root directory query_text scope cursor limit extensions w = Some (Inr r, w')"
  obtains expected offset w1 page where
    "parse_search_cursor cursor (search_fingerprint lower directory query_text scope limit extensions) = Inr (expected, offset)"
    "ensure_indexed lower root w = Some (Inr (), w1)"
    "search_index_page_with_extensions lower root query_text (indexed_scope scope) directory expected offset limit extensions w1
       = (Inr (Some page), w')"
    "r = search_result (search_fingerprint lower directory query_text scope limit extensions) page"
  using assms
  by (auto simp: build_search_result_page_limited_def Let_def split: sum.splits prod.splits option.splits)
    (auto simp: bind_res_Inr_iff)

lemma fingerprint_small: "search_fingerprint lower directory query_text scope limit extensions < 2 ^ 64"
  unfolding search_fingerprint_def Let_def by (rule order_less_le_trans [OF unsigned_less]) simp

section \<open>What browsing changes\<close>

lemma scan_pages_frame: "keeps index_frame (scan_pages fuel found hit limit path entries position)"
proof (induction fuel arbitrary: entries position)
  case (Suc fuel)
  then show ?case
    by (auto intro!: index_frame.keeps_rules index_frame.keeps_bind index_frame.keeps_map_err keeps_sql split: prod.splits)
qed (simp add: index_frame.keeps_return)

lemma select_generation_frame: "keeps index_frame (select_generation path)"
  using advances_select_generation unfolding advances_def by blast

lemma search_page_frame: "keeps index_frame (search_page found hit path expected offset limit)"
proof -
  have "keeps index_frame (\<lambda>w. scan_pages (search_fuel path w) found hit limit path [] offset w)"
    by (rule keepsI) (erule keepsD [OF scan_pages_frame])
  then show ?thesis
    unfolding search_page_def
    by (intro keeps_transaction index_frame.keeps_bind index_frame.keeps_map_err select_generation_frame)
      (auto simp: Let_def intro!: index_frame.keeps_rules index_frame.keeps_bind split: prod.splits)
qed

text \<open>Opening a root database and reading its index add at most directories to the tree, and no journal row.\<close>

definition index_reader :: "('e, 'a) act \<Rightarrow> bool" where
  "index_reader m \<longleftrightarrow> keeps adds_dirs m \<and> keeps same_journals m"

lemma index_reader_intros:
  "keeps index_frame m \<Longrightarrow> index_reader m" "index_reader (open_root_db root)" "index_reader (readA f)" "index_reader (throwA e)"
  "index_reader (returnA x)" "index_reader m' \<Longrightarrow> index_reader (map_errA conv m')"
  "index_reader m'' \<Longrightarrow> (\<And>x. index_reader (k x)) \<Longrightarrow> index_reader (bindA m'' k)"
  using index_frame_frames open_root_db_parts
  by (auto simp: index_reader_def intro!: adds_dirs.keeps_rules same_journals.keeps_rules adds_dirs.keeps_bind
      same_journals.keeps_bind adds_dirs.keeps_map_err same_journals.keeps_map_err)

lemma index_reader_search: "index_reader (search_index_page_with_extensions lower root q scope directory expected offset limit extensions)"
  unfolding search_index_page_with_extensions_def by (auto intro!: index_reader_intros(2-) index_reader_intros(1) [OF search_page_frame])

lemma index_reader_initialized: "index_reader (index_is_initialized root)"
  unfolding index_is_initialized_def with_root_db_def by (intro index_reader_intros keeps_sql) auto

definition keeps_files :: "world \<Rightarrow> world \<Rightarrow> bool" where
  "keeps_files w w' \<longleftrightarrow> adds_dirs w w' \<and> journal_of w' = journal_of w"

lemma keeps_files_refl: "keeps_files w w" by (simp add: keeps_files_def adds_dirs.refl)

lemma keeps_files_trans: "keeps_files u v \<Longrightarrow> keeps_files v w \<Longrightarrow> keeps_files u w"
  using adds_dirs.trans by (auto simp: keeps_files_def)

lemma index_reader_keeps: "index_reader m \<Longrightarrow> m w = (out, w') \<Longrightarrow> keeps_files w w'"
  using keepsD by (fastforce simp: index_reader_def keeps_files_def same_journals_def)

lemma ensure_indexed_keeps:
  assumes "ensure_indexed lower root w = Some (out, w')"
  shows "keeps_files w w'"
proof -
  obtain initialized w1 where i: "index_is_initialized root w = (initialized, w1)" by (rule prod.exhaust)
  have "keeps_files w1 w'" if "reindex_root lower root w1 = Some (out', w')" for out'
  proof -
    have "keeps_files w1 w'" if "reindex_scanned lower guard analysis entries w1 = (out', w')" for guard analysis entries
      using reindexes.contract [OF that] by (auto simp: keeps_files_def)
    with that show ?thesis by (auto simp: reindex_root_def keeps_files_refl split: sum.splits option.splits)
  qed
  then show ?thesis
    using assms i index_reader_keeps [OF index_reader_initialized i] keeps_files_trans
    by (auto simp: ensure_indexed_def keeps_files_refl split: sum.splits bool.splits)
qed

lemma page_for_root_keeps:
  assumes "build_page_for_root bw root request w = Some (out, w')"
  shows "keeps_files w w'"
proof (cases "fb_query request")
  case None
  then show ?thesis using assms by (simp add: build_page_for_root_def keeps_files_refl)
next
  case (Some query_text)
  have "keeps_files u w'" if "search_index_page_with_extensions lower root q scope directory expected offset limit extensions u = (o', w')"
    for lower q scope directory expected offset limit extensions u and o' :: "FileIndexError + IndexedSearchPage option"
    using that by (rule index_reader_keeps [OF index_reader_search])
  with Some assms show ?thesis
    by (auto simp: build_page_for_root_def build_search_result_page_limited_def Let_def keeps_files_refl
        split: sum.splits prod.splits option.splits intro: keeps_files_trans dest!: ensure_indexed_keeps)
qed

section \<open>Samples\<close>

text \<open>The sample root with two notes in its index, and the sample station with an empty directory in its folder.\<close>

definition twin_world :: world where
  "twin_world = early_db_world\<lparr>w_fs := sample_fs @ [([''home'', ''box'', ''notes.txt''], RegularFile ''hi'' (sample_attrs 9))],
     w_dbs := [db_path_for_root (guard_root sample_guard) \<mapsto> empty_db
     \<lparr>db_search_entries := [sample_search_row ''notes.pdf'' [] ''notes.pdf'' ''file'', sample_search_row ''notes.txt'' [] ''notes.txt'' ''file''],
      db_generation := 1, db_initialized := True\<rparr>]\<rparr>"

lemma returned_cases:
  assumes "case m of Some (Inr x, w) \<Rightarrow> P x w | _ \<Rightarrow> False"
  obtains x w where "m = Some (Inr x, w)" "P x w"
proof (cases m)
  case (Some p)
  then show thesis using assms that by (cases p; cases "fst p") auto
qed (use assms in simp)

lemma found_cases:
  assumes "case m of (Inr (Some x), w) \<Rightarrow> P x w | _ \<Rightarrow> False"
  obtains x w where "m = (Inr (Some x), w)" "P x w"
proof (cases "fst m")
  case (Inr found)
  then show thesis using assms that by (cases m; cases found) auto
qed (use assms in \<open>cases m, simp\<close>)

lemma twin_pages:
  "case ensure_indexed id ''/home/box'' twin_world of Some (Inr _, w1) \<Rightarrow>
     (case search_index_page_with_extensions id ''/home/box'' ''no'' (indexed_scope AgentFileSearchScope.ManagedRoot) [] None 0 1 [] w1 of
        (Inr (Some page), w') \<Rightarrow>
          map ie_relative_path (ip_entries page) = [''notes.pdf''] \<and> ip_next_offset page = Some 1 \<and> ip_generation page = 1
          \<and> fst (index_is_initialized ''/home/box'' twin_world) = Inr True \<and> fst (index_is_initialized ''/home/box'' w') = Inr True
          \<and> (case ensure_indexed id ''/home/box'' w' of Some (Inr _, v1) \<Rightarrow>
              (case search_index_page_with_extensions id ''/home/box'' ''no'' (indexed_scope AgentFileSearchScope.ManagedRoot) []
                      (Some 1) 1 1 [] v1 of
                 (Inr (Some page'), v') \<Rightarrow> map ie_relative_path (ip_entries page') = [''notes.txt''] \<and> ip_next_offset page' = None
               | _ \<Rightarrow> False)
             | _ \<Rightarrow> False)
      | _ \<Rightarrow> False)
   | _ \<Rightarrow> False"
  by code_simp

lemma small_tables_open:
  "small_tables w \<Longrightarrow> w_dbs w' = (w_dbs w)(path \<mapsto> db_at w path) \<Longrightarrow> small_tables w'"
  by (auto simp: small_tables_def db_at_def empty_db_def split: option.splits)

lemma small_tables_read:
  assumes "small_tables w" "ensure_indexed lower root w = Some (Inr u, w1)" "fst (index_is_initialized root w) = Inr True"
    and "search_index_page_with_extensions lower root q scope directory expected offset limit extensions w1 = (Inr outcome, w')"
  shows "small_tables w'"
proof -
  obtain g' w0 where "index_is_initialized root w = (Inr True, w1)" "guard_new w root = Inr g'" "open_root_db (guard_root g') w = (Inr (), w0)"
    and w1: "sql (db_path_for_root (guard_root g')) (select db_initialized) w0 = (Inr True, w1)"
    using assms(2,3) by (auto simp: ensure_indexed_def index_is_initialized_def with_root_db_def action_iffs readA_def
        split: prod.splits)
  moreover have "w_dbs w1 = w_dbs w0" using keepsD [OF select_keeps_dbs w1] by (simp add: same_dbs_def)
  ultimately have "small_tables w1" using small_tables_open [OF assms(1)] open_root_db_dbs by metis
  moreover obtain g where "guard_new w1 root = Inr g"
    using assms(4) by (auto simp: search_index_page_with_extensions_def action_iffs readA_def throwA_def map_err_def split: if_splits sum.splits)
  ultimately show ?thesis using small_tables_open searched_dbs [OF assms(4)] by blast
qed

lemma twin_small: "small_tables twin_world"
  by (simp add: small_tables_def twin_world_def empty_db_def)

definition sample_browsing :: browsing where
  "sample_browsing =
     \<lparr>bw_requests = (\<lambda>_. None), bw_rooms = dg_rooms sample_delegation, bw_lower = id, bw_bound_at = (\<lambda>_. 8), bw_unix_ms = (\<lambda>_. 9)\<rparr>"

definition sample_browse_request :: FileBrowseRequestResponse where
  "sample_browse_request =
     \<lparr>fb_id = ''b1'', fb_room_id = ''r1'', fb_relative_directory = ''empty'', fb_cursor = None, fb_query = None, fb_extensions = [],
      fb_limit = 50, fb_search_scope = AgentFileSearchScope.CurrentDirectory, fb_status = ''REQUESTED''\<rparr>"

definition browse_station :: "(unit \<times> http_request list) station" where
  "browse_station = sample_station\<lparr>sn_world := early_world\<lparr>w_fs := sample_fs @ [([''home'', ''box'', ''empty''], node.Directory (sample_attrs 9))]\<rparr>\<rparr>"

lemma sample_browse_answered:
  "case process_one_browse (sample_env 200 None) sample_browsing sample_browse_request browse_station of
     Some (Inr r, s') \<Rightarrow> br_entries r = [] | _ \<Rightarrow> False"
  by code_simp

section \<open>Properties\<close>

text \<open>C17: Following the cursors lists a directory exactly. A client that asks for a directory inside the folder, with any page
  size from 1 to 200, and follows the cursors while the tree stays as it is, gets an end after finitely many pages;
  the pages together hold each visible child of the directory that is no link and that is not withheld by its name,
  once, as an entry for the phone, and nothing else.\<close>

theorem remote_listing_exact:
  assumes "guard_new w root = Inr g" and "guard_ok w g r"
    and "rel = normalize_relative directory" and "names_directory w g r rel base"
    and "1 \<le> limit" "limit \<le> PAGE_SIZE" and small: "length (w_fs w) < 2 ^ 64"
  shows "\<exists>shown. remote_pages (\<lambda>c. build_result_page_limited w (now c) root directory c limit) (Suc (length (w_fs w))) None
      = Some (Inr shown)
    \<and> set shown = (\<lambda>l. remote_entry (listed_entry w r l)) `
        {l \<in> children w r base (\<lambda>x. \<not> is_link x). is_remotely_browsable_name (last l)}
    \<and> distinct (map be_name shown)"
proof -
  obtain rep where rep: "browse_root w root (Some directory) = Inr rep"
    "set (BrowseReport.br_entries rep) = listed_entry w r ` children w r base (\<lambda>x. \<not> is_link x)"
    "distinct (map BrowseEntry.be_name (BrowseReport.br_entries rep))"
    by (rule browse_root_listing [OF assms(1,2) _ assms(4), of "Some directory"]) (use assms(3) in simp, blast)
  define entries where "entries = filter is_remotely_browsable (BrowseReport.br_entries rep)"
  have "distinct (BrowseReport.br_entries rep)" using rep(3) by (simp add: distinct_map)
  then have "length (BrowseReport.br_entries rep) = card (set (BrowseReport.br_entries rep))" by (simp add: distinct_card)
  also have "\<dots> \<le> length (w_fs w)"
    unfolding rep(2) using card_image_le [OF children_card(2)] children_card(1) order_trans by blast
  finally have len: "length entries \<le> length (w_fs w)"
    unfolding entries_def using length_filter_le order_trans by blast
  have "remote_pages (\<lambda>c. build_result_page_limited w (now c) root directory c limit) (Suc (length (w_fs w))) None
      = Some (Inr (map remote_entry (drop 0 entries)))"
    using len small assms(5,6)
    by (intro pages_from [OF rep(1) _ _ entries_def]) (auto simp: parse_cursor_def)
  moreover have "distinct (map be_name (map remote_entry entries))"
    using rep(3) distinct_map_filter [of BrowseEntry.be_name] by (simp add: remote_entry_def entries_def comp_def)
  moreover have "set (map remote_entry entries) = (\<lambda>l. remote_entry (listed_entry w r l)) `
      {l \<in> children w r base (\<lambda>x. \<not> is_link x). is_remotely_browsable_name (last l)}"
    unfolding entries_def using rep(2) by (auto simp: is_remotely_browsable_def listed_entry_def Let_def)
  ultimately show ?thesis by (intro exI [of _ "map remote_entry entries"]) simp
qed

theorem remote_listing_exact_witness:
  "\<exists>shown. remote_pages (\<lambda>c. build_result_page_limited sample_world 7 ''/home/box'' [] c 1) (Suc (length (w_fs sample_world))) None
       = Some (Inr shown)
     \<and> remote_entry (listed_entry sample_world sample_root [''notes.pdf'']) \<in> set shown \<and> distinct (map be_name shown)"
proof -
  have rel: "[] = normalize_relative []" by code_simp
  have dir: "names_directory sample_world sample_guard sample_root [] []"
    unfolding names_directory_def by code_simp
  have small: "length (w_fs sample_world) < 2 ^ 64" by (simp add: sample_world_def sample_fs_def)
  have "visible [''notes.pdf'']" "is_remotely_browsable_name ''notes.pdf''"
    "map_of (w_fs sample_world) (sample_root @ [''notes.pdf'']) = Some (RegularFile ''hello'' (sample_attrs 4))" by code_simp+
  then have "[''notes.pdf''] \<in> {l \<in> children sample_world sample_root [] (\<lambda>x. \<not> is_link x). is_remotely_browsable_name (last l)}"
    by (simp add: children_def)
  then show ?thesis
    using remote_listing_exact [OF sample_guard_new sample_guard_ok rel dir _ _ small, of 1 "\<lambda>_. 7"] by (auto simp: PAGE_SIZE_def)
qed

text \<open>C18: A search cursor continues its own search. When a page of a search was given with a cursor and the same request with
  that cursor is answered, the index has not moved on in between, and the second page starts in the table exactly where
  the first one stopped, so that no hit is skipped or repeated. With any other query, directory, scope, page size or list of
  extensions the cursor is refused, unless the two have the same 64-bit fingerprint.\<close>

theorem search_cursor_continues:
  assumes first: "build_search_result_page_limited lower root directory query_text scope cursor limit extensions w = Some (Inr r, w')"
    and start: "parse_search_cursor cursor (search_fingerprint lower directory query_text scope limit extensions) = Inr (expected, offset)"
      "offset < 2 ^ 63"
    and cursor: "br_next_cursor r = Some c"
    and small: "small_tables w'" "small_tables v'"
  shows "(\<forall>r'. build_search_result_page_limited lower root directory query_text scope (Some c) limit extensions v = Some (Inr r', v')
      \<longrightarrow> (\<exists>page page' n. r = search_result (search_fingerprint lower directory query_text scope limit extensions) page
            \<and> r' = search_result (search_fingerprint lower directory query_text scope limit extensions) page'
            \<and> page_of_table lower query_text scope directory limit extensions w' offset page \<and> ip_next_offset page = Some n
            \<and> page_of_table lower query_text scope directory limit extensions v' n page'
            \<and> ip_generation page' = ip_generation page))
    \<and> (\<forall>other. other \<noteq> search_fingerprint lower directory query_text scope limit extensions
         \<longrightarrow> \<not> is_ok (parse_search_cursor (Some c) other))"
proof -
  let ?fp = "search_fingerprint lower directory query_text scope limit extensions"
  obtain w1 page where run: "search_index_page_with_extensions lower root query_text (indexed_scope scope) directory expected offset
      limit extensions w1 = (Inr (Some page), w')" and r: "r = search_result ?fp page"
    using built_search [OF first] start(1) by (metis Inr_inject prod.inject)
  note page = searched_page_of_table [OF run small(1) start(2)]
  obtain n where n: "ip_next_offset page = Some n" "c = search_cursor ?fp (ip_generation page) n"
    using cursor by (auto simp: r search_result_def)
  have n_small: "n < 2 ^ 63" using page(3) n(1) by blast
  then have parsed: "parse_search_cursor (Some c) other =
      (if ?fp = other then Inr (Some (ip_generation page), n)
       else Inl (cursor_error ''file search cursor does not match this query and scope''))" for other
    unfolding n(2) by (intro search_cursor_parsed fingerprint_small page(2)) simp
  have "\<exists>page page' n. r = search_result ?fp page \<and> r' = search_result ?fp page'
            \<and> page_of_table lower query_text scope directory limit extensions w' offset page \<and> ip_next_offset page = Some n
            \<and> page_of_table lower query_text scope directory limit extensions v' n page'
            \<and> ip_generation page' = ip_generation page"
    if second: "build_search_result_page_limited lower root directory query_text scope (Some c) limit extensions v = Some (Inr r', v')"
    for r'
  proof -
    obtain v1 page' where run': "search_index_page_with_extensions lower root query_text (indexed_scope scope) directory
        (Some (ip_generation page)) n limit extensions v1 = (Inr (Some page'), v')" and r': "r' = search_result ?fp page'"
      using built_search [OF second] parsed [of ?fp] by (metis Inr_inject prod.inject)
    from searched_page_of_table [OF run' small(2) n_small] show ?thesis
      using r r' page(1) n(1) by (intro exI [of _ page] exI [of _ page'] exI [of _ n]) auto
  qed
  moreover have "\<not> is_ok (parse_search_cursor (Some c) other)" if "other \<noteq> ?fp" for other
    using parsed [of other] that by (simp add: is_ok_def)
  ultimately show ?thesis by blast
qed

theorem search_cursor_continues_witness:
  "\<exists>r w' c r' v' page page' n.
     build_search_result_page_limited id ''/home/box'' [] ''no'' AgentFileSearchScope.ManagedRoot None 1 [] twin_world = Some (Inr r, w')
     \<and> br_next_cursor r = Some c
     \<and> build_search_result_page_limited id ''/home/box'' [] ''no'' AgentFileSearchScope.ManagedRoot (Some c) 1 [] w' = Some (Inr r', v')
     \<and> page_of_table id ''no'' AgentFileSearchScope.ManagedRoot [] 1 [] w' 0 page \<and> ip_next_offset page = Some n
     \<and> page_of_table id ''no'' AgentFileSearchScope.ManagedRoot [] 1 [] v' n page'"
proof -
  let ?fp = "search_fingerprint id [] ''no'' AgentFileSearchScope.ManagedRoot 1 []"
  obtain w1 page w' where first: "ensure_indexed id ''/home/box'' twin_world = Some (Inr (), w1)"
    "search_index_page_with_extensions id ''/home/box'' ''no'' (indexed_scope AgentFileSearchScope.ManagedRoot) [] None 0 1 [] w1
       = (Inr (Some page), w')" "ip_next_offset page = Some 1" "ip_generation page = 1"
    "fst (index_is_initialized ''/home/box'' twin_world) = Inr True"
    and rest: "fst (index_is_initialized ''/home/box'' w') = Inr True"
    "case ensure_indexed id ''/home/box'' w' of Some (Inr _, v1) \<Rightarrow>
              (case search_index_page_with_extensions id ''/home/box'' ''no'' (indexed_scope AgentFileSearchScope.ManagedRoot) []
                      (Some 1) 1 1 [] v1 of
                 (Inr (Some page'), v') \<Rightarrow> map ie_relative_path (ip_entries page') = [''notes.txt''] \<and> ip_next_offset page' = None
               | _ \<Rightarrow> False)
             | _ \<Rightarrow> False"
    using twin_pages by (elim returned_cases found_cases conjE) auto
  from rest(2) obtain v1 page' v' where second: "ensure_indexed id ''/home/box'' w' = Some (Inr (), v1)"
    "search_index_page_with_extensions id ''/home/box'' ''no'' (indexed_scope AgentFileSearchScope.ManagedRoot) [] (Some 1) 1 1 [] v1
       = (Inr (Some page'), v')"
    by (elim returned_cases found_cases conjE) auto
  have limit: "validate_page_limit 1 = Inr ()" by (simp add: validate_page_limit_def PAGE_SIZE_def)
  have parse: "parse_search_cursor None ?fp = Inr (None, 0)" by (simp add: parse_search_cursor_def)
  have run: "build_search_result_page_limited id ''/home/box'' [] ''no'' AgentFileSearchScope.ManagedRoot None 1 [] twin_world
      = Some (Inr (search_result ?fp page), w')"
    using first(1,2) by (simp only: build_search_result_page_limited_def Let_def limit bind_res_simps parse sum.case prod.case option.case)
  have cursor: "br_next_cursor (search_result ?fp page) = Some (search_cursor ?fp 1 1)"
    by (simp add: search_result_def first(3,4))
  have "parse_search_cursor (Some (search_cursor ?fp 1 1)) ?fp = Inr (Some 1, 1)"
    using search_cursor_parsed [OF fingerprint_small, of 1 1] by simp
  then have run': "build_search_result_page_limited id ''/home/box'' [] ''no'' AgentFileSearchScope.ManagedRoot
      (Some (search_cursor ?fp 1 1)) 1 [] w' = Some (Inr (search_result ?fp page'), v')"
    using second by (simp only: build_search_result_page_limited_def Let_def limit bind_res_simps sum.case prod.case option.case)
  have small: "small_tables w'" by (rule small_tables_read [OF twin_small first(1,5,2)])
  then have "small_tables v'" by (rule small_tables_read [OF _ second(1) rest(1) second(2)])
  from search_cursor_continues [OF run parse _ cursor small this] run' show ?thesis using run cursor by (simp, blast)
qed

text \<open>C19: Answering a browse request is safe. Whatever the server sends, no file is changed and no journal row written, and
  nothing is queued. An answer that is accepted was made from an enabled folder, registered before, not detached, and now
  actively bound to the request's room; it names no withheld file and holds at most 200 entries.\<close>

theorem browse_answer_safe:
  assumes "process_one_browse env bw request s = Some (out, s')"
  shows "keeps_files (sn_world s) (sn_world s') \<and> sn_outbox s' = sn_outbox s
    \<and> (\<forall>r. out = Inr r \<longrightarrow> (\<exists>root. opened_to (fb_room_id request) (sn_roots s) root (sn_roots s') \<and> mr_enabled root
         \<and> build_page_for_root bw (mr_root root) request (sn_world s) = Some (Inr r, sn_world s')
         \<and> length (br_entries r) \<le> 200 \<and> (\<forall>e \<in> set (br_entries r). is_remotely_browsable_name (be_name e))))"
proof -
  obtain res s1 where res: "build_result_for_request env bw request s = Some (res, s1)"
    using assms by (cases "build_result_for_request env bw request s") (auto simp: process_one_browse_def)
  have s': "sn_world s' = sn_world s1" "sn_outbox s' = sn_outbox s1" "sn_roots s' = sn_roots s1"
    using assms res by (auto simp: process_one_browse_def split: sum.splits prod.splits)
  have frame: "keeps_files (sn_world s) (sn_world s1)" "sn_outbox s1 = sn_outbox s"
    using res by (auto simp: build_result_for_request_def Let_def keeps_files_refl split: sum.splits prod.splits if_splits
        dest: page_for_root_keeps)
  have "\<exists>root. opened_to (fb_room_id request) (sn_roots s) root (sn_roots s') \<and> mr_enabled root
         \<and> build_page_for_root bw (mr_root root) request (sn_world s) = Some (Inr r, sn_world s')
         \<and> length (br_entries r) \<le> 200 \<and> (\<forall>e \<in> set (br_entries r). is_remotely_browsable_name (be_name e))" if "out = Inr r" for r
  proof -
    have "res = Inr r" and length: "length (br_entries r) \<le> 200"
      using assms res that by (auto simp: process_one_browse_def complete_file_browse_request_def validated_def
          split: sum.splits prod.splits if_splits)
    then obtain room :: AgentRoomSync and root roots where root: "ensure_active_room_binding (bw_bound_at bw (fb_id request)) (rs_root_id room)
        (fb_room_id request) (sn_roots s) = (Inr root, roots)" "mr_enabled root"
      and page: "build_page_for_root bw (mr_root root) request (sn_world s) = Some (Inr r, sn_world s1)"
      and s1: "sn_roots s1 = roots"
      using res by (auto simp: build_result_for_request_def Let_def split: sum.splits prod.splits if_splits)
    have "\<forall>e \<in> set (br_entries r). is_remotely_browsable_name (be_name e)"
      using page by (auto simp: build_page_for_root_def build_result_page_limited_def bind_res_Inr_iff Let_def remote_entry_def
          is_remotely_browsable_def search_result_def remote_search_entry_def split: option.splits if_splits
          dest!: in_set_takeD in_set_dropD elim!: built_search)
    with root page length ensure_active_opened [OF root(1)] s' s1 show ?thesis by auto
  qed
  with frame s' show ?thesis by auto
qed

theorem browse_answer_safe_witness:
  "\<exists>r s' root. process_one_browse (sample_env 200 None) sample_browsing sample_browse_request browse_station = Some (Inr r, s')
     \<and> opened_to ''r1'' (sn_roots browse_station) root (sn_roots s') \<and> mr_enabled root
     \<and> keeps_files (sn_world browse_station) (sn_world s')"
proof -
  obtain r s' where run: "process_one_browse (sample_env 200 None) sample_browsing sample_browse_request browse_station = Some (Inr r, s')"
    using sample_browse_answered by (elim returned_cases) auto
  have "fb_room_id sample_browse_request = ''r1''" by (simp add: sample_browse_request_def)
  with browse_answer_safe [OF run] run show ?thesis by auto
qed

section \<open>What is withheld\<close>

text \<open>Names are withheld where they are listed, not where they are used: the content of a withheld directory is listed when
  the request names it, and a withheld file is uploaded when a transfer names it.\<close>

definition withheld_world :: world where
  "withheld_world = early_world\<lparr>w_fs := sample_fs @
     [([''home'', ''box'', ''.mousekeeper'', ''state.db''], RegularFile ''rows'' (sample_attrs 9)),
      ([''home'', ''box'', ''secret.key''], RegularFile ''key'' (sample_attrs 10))]\<rparr>"

lemma withheld_directory_is_listed:
  "\<not> is_remotely_browsable_name ''.mousekeeper''
   \<and> (case browse_root withheld_world ''/home/box'' (Some ''.mousekeeper'') of
        Inr rep \<Rightarrow> map BrowseEntry.be_path (filter is_remotely_browsable (BrowseReport.br_entries rep)) = [''.mousekeeper/state.db'']
      | Inl _ \<Rightarrow> False)"
  by code_simp

lemma withheld_file_is_transferred:
  "\<not> is_remotely_browsable_name ''secret.key''
   \<and> is_ok (validate_local_transfer_source withheld_world ''/home/box'' ''secret.key'' None None)"
  by code_simp

end
