(* ===== verification/Spec2Isabelle.thy ===== *)
theory Spec2Isabelle
  imports Glob Containment Analyzer Rule_Engine Proposal_Engine Decision Precondition History Trash
    Execute Undo File_Ops Roundtrip Browse Index_Search Snapshot_Store Execution_Processor Auto_Cleanup Event_Replay Command_Laws
    File_Transfer File_Browse
begin

text \<open>
  \<^bold>\<open>MouseKeeper.\<close> MouseKeeper is a local-first agent that keeps managed directories tidy. Its file engine,
  \<^verbatim>\<open>src/tools/file-engine-cli/src\<close>, scans a directory, proposes moves and removals by user rules, lets the user
  (or a bounded policy) decide, re-checks the decided proposals against the current tree, carries them out behind
  a path guard, and records every step in an append-only journal so that it can be undone and so that a crash
  leaves a trace. Its desktop application, \<^verbatim>\<open>src/apps/desktop/src-tauri/src\<close>, registers the folders and connects
  them to rooms on a server: it polls commands and answers them with proposals made by the engine, carries out the
  decisions of the room, uploads requested files, follows the server's events, and keeps what it owes the server in a
  durable outbox. This development models both and proves what the user relies on: nothing outside the
  root is touched through a resolved path, no file is lost, whatever fails, nothing changes that was not
  journaled first, and what was done can be taken back; work for the server changes files only for a
  decision the device has claimed, in an enabled folder bound to the room; the device's token stays with its server; and a
  mutation in the outbox is not lost.

  \<^bold>\<open>Theories and sources: the engine.\<close>
  \<^item> \<open>Prelude\<close>: the fallible actions \<open>act\<close> (a world to a sum of error and value, and a world) with \<open>bindA\<close> for
    the question mark operator, the frame calculus (locale \<open>world_frame\<close>: a reflexive and transitive relation
    between worlds that calls keep), generic lemmas and the collections that automate the component proofs.
  \<^item> \<open>Paths\<close>: the text-level path functions of the Rust library that the sources use (components, join, parent,
    file name, extension, prefix test), on Unix.
  \<^item> \<open>Filesystem\<close>, \<open>Fs_Laws\<close>: the tree as an association list from locations to regular files, directories and
    symbolic links, path walking with links, the mutating calls used by the engine, and their laws. A tree is
    well-formed (\<open>wf_fs\<close>) when every node but the root has a directory above it.
  \<^item> \<open>Path_Guard\<close>, \<open>Containment\<close>: \<^verbatim>\<open>path_guard.rs\<close>, \<^verbatim>\<open>fs_safety.rs\<close>, \<^verbatim>\<open>file_identity.rs\<close>; what the two
    resolvers accept and that their answers stay inside the root.
  \<^item> \<open>Analyzer\<close>: \<^verbatim>\<open>analyzer.rs\<close>; the report of a scan is exact.
  \<^item> \<open>Glob\<close>, \<open>Rules\<close>, \<open>Rule_Engine\<close>: \<^verbatim>\<open>rules/glob.rs\<close>, \<^verbatim>\<open>rules/definition.rs\<close>, \<^verbatim>\<open>rules/mod.rs\<close>; the wildcard
    loop against its declarative meaning, validation, translation of rule contracts, choice of the rule.
  \<^item> \<open>Proposal_Types\<close>, \<open>Proposal_Engine\<close>: \<^verbatim>\<open>proposal.rs\<close>; ids at 64 bits, the proposal report.
  \<^item> \<open>Decision\<close>: \<^verbatim>\<open>decision.rs\<close> and \<^verbatim>\<open>auto_approval.rs\<close>. \<open>Precondition\<close>: \<^verbatim>\<open>precondition.rs\<close>.
  \<^item> \<open>Journal\<close>, \<open>History\<close>: \<^verbatim>\<open>journal.rs\<close> and the parts of \<^verbatim>\<open>db.rs\<close> it uses; append and read, history, quarantine.
  \<^item> \<open>Handlers\<close>: the contract of an operation that changes the tree (locales \<open>journaled_handler\<close> and, in \<open>Undo\<close>,
    \<open>recoverable_handler\<close>) and the frames it is stated with: \<open>no_file_lost\<close> (every regular file is still
    somewhere, with content and attributes), \<open>audited\<close> (journals only grow and existing nodes change only after a
    plan was journaled), \<open>no_data_lost\<close> (the same for files with content), \<open>adds_dirs\<close> (only directories appear).
  \<^item> \<open>Trash\<close>, \<open>Execute\<close>, \<open>Undo\<close>, \<open>File_Ops\<close>: \<^verbatim>\<open>trash.rs\<close>, \<^verbatim>\<open>execute.rs\<close>, \<^verbatim>\<open>undo.rs\<close>, \<^verbatim>\<open>file_ops.rs\<close>; each handler is an
    interpretation of the contract, and the whole runs are proved safe from these interpretations. \<open>Plain_Paths\<close>
    evaluates the resolvers on plain names; \<open>Roundtrip\<close> composes executing and undoing.
  \<^item> \<open>Browse\<close>: \<^verbatim>\<open>browse.rs\<close>; the listing of one directory is exact.
  \<^item> \<open>File_Index\<close>, \<open>Index_Laws\<close>, \<open>Index_Exact\<close>, \<open>Index_Search\<close>: \<^verbatim>\<open>file_index.rs\<close>. Each operation that changes
    the index is an interpretation of the locale \<open>index_operation\<close> (all or nothing, journal untouched, generation
    moved by one); a rescan mirrors the tree; a listing returns what a rescan reported; search pages are exact and
    join up; pruning removes a subtree.
  \<^item> \<open>Sample_World\<close>: one concrete tree on which the witnesses evaluate.

  \<^bold>\<open>Theories and sources: the desktop.\<close>
  \<^item> \<open>Desktop\<close>: JSON values and the stores; a store's statement may fail (a list of faults, one per statement). The locales
    \<open>store_invariant\<close> and \<open>store_progress\<close> carry what every call keeps to every sequence of calls; they are interpreted on
    the outbox, the registry, the snapshots and the policies.
  \<^item> \<open>Outbox\<close>: \<^verbatim>\<open>storage/outbox.rs\<close>; it refines a ledger of mutations. \<open>Delivery\<close>: \<^verbatim>\<open>outbox_processor.rs\<close>; the producers,
    dispatch and flush. What other tasks queue while an item is in flight is a parameter of the flush.
  \<^item> \<open>Agent\<close>, \<open>Agent_Calls\<close>, \<open>Agent_Files\<close>, \<open>Agent_Laws\<close>: \<^verbatim>\<open>agent.rs\<close> with the submission types of
    \<^verbatim>\<open>command_processor.rs\<close>. Every endpoint is an interpretation of the locale \<open>authenticated_request\<close>, from which the
    run theorem about tokens follows.
  \<^item> \<open>Managed_Roots\<close>: \<^verbatim>\<open>storage/managed_roots.rs\<close>; the folders in memory and in the table, overlaps and room bindings.
  \<^item> \<open>Timestamps\<close>, \<open>Cleanliness\<close>: \<^verbatim>\<open>cleanliness.rs\<close>. \<open>Snapshot_Store\<close>: \<^verbatim>\<open>storage/cleanliness_snapshots.rs\<close>.
    \<open>Cache_Crypto\<close>: \<^verbatim>\<open>smart_cache_crypto.rs\<close>.
  \<^item> \<open>Execution_Processor\<close>: \<^verbatim>\<open>execution_processor.rs\<close>. Its record \<open>station\<close> joins the agent, the registry, the outbox and
    the engine's world; a decision is claimed, executed by the engine and its result queued.
  \<^item> \<open>Command_Processor\<close>, \<open>Command_Laws\<close>: \<^verbatim>\<open>command_processor.rs\<close>; the proposals of direct commands and of rules, their
    submission, and the link to the executed decision: items that come back are the proposals that were sent.
  \<^item> \<open>Auto_Cleanup\<close>: \<^verbatim>\<open>storage/auto_approval.rs\<close> and \<^verbatim>\<open>auto_cleanup_processor.rs\<close>.
  \<^item> \<open>Sync_Cursor\<close>: \<^verbatim>\<open>storage/agent_sync.rs\<close> as a step relation in which the atomic parts of asynchronous calls interleave.
  \<^item> \<open>Event_Replay\<close>: the replay of \<^verbatim>\<open>background.rs\<close> and of \<^verbatim>\<open>commands/agent.rs\<close>, both interpretations of the locale
    \<open>emitter\<close>, with removed rooms, revoked devices and created rules, and \<^verbatim>\<open>storage/watchers.rs\<close>.
  \<^item> \<open>File_Transfer\<close>: \<^verbatim>\<open>file_transfer_processor.rs\<close>; the tree may change between any two of its reads.
  \<^item> \<open>File_Browse\<close>: \<^verbatim>\<open>file_browse_processor.rs\<close>; pages and cursors of listings and searches for the phone, on top of \<open>Browse\<close> and
    \<open>Index_Search\<close>.
  \<^item> \<open>Codec\<close>, \<open>Sample_Codec\<close>, \<open>Json_Codec\<close>: concrete text formats that satisfy the assumptions on the JSON codecs, for the
    witnesses.

  \<^bold>\<open>Correspondence.\<close> Rust structs are records (fields prefixed), enums are datatypes with the source's
  constructors, \<^verbatim>\<open>Result\<close> is a sum with the error on the left, and every early return and error is a branch. A
  function that reads the tree takes the world; one that changes it is an action. Strings are byte strings; file
  names and contents are taken to be UTF-8. Sizes and hashes keep their 64 bits where the code computes with them.

  \<^bold>\<open>Faults.\<close> The world carries a schedule that says which mutating system call or database statement fails; the
  safety theorems quantify over all schedules, which covers input/output errors and, as the properties are
  about every intermediate outcome, runs that are cut short. Reads of the tree do not fail spuriously. Each call
  is atomic, also \<^verbatim>\<open>fs::copy\<close> and \<^verbatim>\<open>fs::write\<close>, and no other process runs between two calls.

  \<^bold>\<open>Database.\<close> A root database holds the rows of the journal and of the index tables, per database path, apart from the
  tree; a desktop table is a list of rows beside the copy in memory. A statement is an atomic list operation with SQLite's documented meaning (primary keys, ordering by bytes,
  \<^verbatim>\<open>LIKE\<close>); a transaction is rolled back when a statement of it fails; \<^verbatim>\<open>migrate\<close> is one step that makes the tables
  present.

  \<^bold>\<open>Parameters.\<close> JSON reading and writing (\<^verbatim>\<open>serde_json\<close>) are function arguments of the definitions that use
  them (\<open>to_json\<close>, \<open>parse_rules\<close>, the fields of the records \<open>wire\<close> and \<open>commanding\<close>, and so on), and so are Unicode
  lower-casing (\<open>lower\<close>), URL parsing, SHA-256, AES-GCM and clock readings; no theorem assumes anything about them unless its
  statement says so. The server is a function from a request and its own state to an answer and a new state
  (\<open>agent_env\<close>); theorems hold for every server. The keyring may refuse any access.

  \<^bold>\<open>Bounds and fuel.\<close> The scans recurse with fuel one above the number of nodes of the tree, proved enough for
  every well-formed tree: a scan of a root never runs out. The batches
  of a paged search carry one unit per search row, also proved enough. Path walking follows at most 40 links, as the kernel does. The
  wildcard loop is a \<open>partial_function\<close> in the option monad and proved to return on all inputs. Commands that scan have an
  optional result for the fuel, and a round of them is proved to return on every well-formed tree. A flush reads batches of
  at most 50 items, as the code does; row ids of the desktop tables are unbounded integers.

  \<^bold>\<open>Not modelled.\<close> The Windows builds of \<^verbatim>\<open>fs_safety.rs\<close> and \<^verbatim>\<open>file_identity.rs\<close>; the asynchronous runtime and locks (one
  caller at a time, but for the flush and the event position), column migrations; permissions, hard links and directory
  modification times; argument parsing and printing of \<^verbatim>\<open>main.rs\<close>. Of the desktop: the chat calls of \<^verbatim>\<open>agent.rs\<close>; the commands
  that only pass window arguments on, the windows, tray and overlay; the timer and status of the background loop; the
  operating system's file watchers and the work limiter; the processors for the smart cache and its store,
  tool requests, automatic proposals and document extraction.
\<close>

end
